(* ===== verification/Prelude.thy ===== *)
theory Prelude
  imports Main "HOL-Library.Signed_Division" "HOL-Library.Multiset"
begin

text \<open>
  Shared vocabulary of the development: results with an error branch (what a
  TypeScript \<open>throw\<close> becomes), JavaScript's \<open>BigInt\<close> division and
  \<open>Math.round\<close> on quotients, rows of a database table as lists with
  find / update / unique-insert, stable sorting by a comparison, and the
  interface locale of the rounding-up divisions that the money code repeats in
  several modules.
\<close>

section \<open>Hint collections\<close>

named_theorems result_simps \<open>evaluation of results with an error branch\<close>
named_theorems table_simps \<open>lookups in updated tables\<close>
named_theorems rounding \<open>facts on integer division and rounding\<close>

section \<open>Results: a value or a thrown error\<close>

definition bindE :: "'e + 'a \<Rightarrow> ('a \<Rightarrow> 'e + 'b) \<Rightarrow> 'e + 'b" where
  "bindE m f = (case m of Inl e \<Rightarrow> Inl e | Inr x \<Rightarrow> f x)"

definition guardE :: "bool \<Rightarrow> 'e \<Rightarrow> 'e + unit" where
  "guardE ok e = (if ok then Inr () else Inl e)"

lemma bindE_Inl [simp, result_simps]: "bindE (Inl e) f = Inl e"
  by (simp add: bindE_def)

lemma bindE_Inr [simp, result_simps]: "bindE (Inr x) f = f x"
  by (simp add: bindE_def)

lemma guardE_simps [simp, result_simps]:
  "guardE True e = Inr ()" "guardE False e = Inl e"
  by (simp_all add: guardE_def)

lemma bindE_eq_Inr [result_simps]:
  "bindE m f = Inr y \<longleftrightarrow> (\<exists>x. m = Inr x \<and> f x = Inr y)"
  by (cases m) auto

lemma bindE_eq_Inl [result_simps]:
  "bindE m f = Inl e \<longleftrightarrow> m = Inl e \<or> (\<exists>x. m = Inr x \<and> f x = Inl e)"
  by (cases m) auto

lemma guardE_eq_Inr [result_simps]: "guardE ok e = Inr u \<longleftrightarrow> ok"
  by (simp add: guardE_def)

lemma guardE_eq_Inl [result_simps]: "guardE ok e = Inl e' \<longleftrightarrow> \<not> ok \<and> e' = e"
  by (auto simp: guardE_def)

lemma bindE_guardE [result_simps]:
  "bindE (guardE ok e) f = (if ok then f () else Inl e)"
  by (simp add: guardE_def)

definition isOk :: "'e + 'a \<Rightarrow> bool" where
  "isOk m = (case m of Inl _ \<Rightarrow> False | Inr _ \<Rightarrow> True)"

lemma isOk_simps [simp]: "isOk (Inr x)" "\<not> isOk (Inl e)"
  by (simp_all add: isOk_def)

lemma isOk_iff: "isOk m \<longleftrightarrow> (\<exists>x. m = Inr x)"
  by (cases m) auto

lemma isOk_bindE: "isOk (bindE m f) \<longleftrightarrow> (\<exists>x. m = Inr x \<and> isOk (f x))"
  by (cases m) auto

text \<open>Left fold with an error branch: a JavaScript \<open>reduce\<close> or \<open>for\<close> loop whose body may throw.\<close>

fun foldE :: "('s \<Rightarrow> 'a \<Rightarrow> 'e + 's) \<Rightarrow> 's \<Rightarrow> 'a list \<Rightarrow> 'e + 's" where
  "foldE f s [] = Inr s"
| "foldE f s (x # xs) = bindE (f s x) (\<lambda>s'. foldE f s' xs)"

lemma foldE_cong [fundef_cong]:
  "xs = ys \<Longrightarrow> s = t \<Longrightarrow> (\<And>x s. x \<in> set ys \<Longrightarrow> f s x = g s x) \<Longrightarrow> foldE f s xs = foldE g t ys"
proof (induction ys arbitrary: xs s t)
  case (Cons y ys)
  have "foldE f u ys = foldE g u ys" for u by (rule Cons.IH) (simp_all add: Cons.prems(3))
  then show ?case using Cons.prems by simp
qed simp

lemma foldE_unit: "foldE (\<lambda>_ x. f x) () xs = Inr () \<longleftrightarrow> (\<forall>x \<in> set xs. f x = Inr ())"
  by (induction xs) (auto simp: bindE_eq_Inr)

lemma foldE_append: "foldE f s (xs @ ys) = bindE (foldE f s xs) (\<lambda>s'. foldE f s' ys)"
  by (induction xs arbitrary: s) (auto simp: bindE_def split: sum.splits)

lemma foldE_invariant:
  assumes "foldE f s xs = Inr t" and "P s"
    and "\<And>s x s'. x \<in> set xs \<Longrightarrow> P s \<Longrightarrow> f s x = Inr s' \<Longrightarrow> P s'"
  shows "P t"
  using assms
proof (induction xs arbitrary: s)
  case Nil
  then show ?case by simp
next
  case (Cons x xs)
  from Cons.prems(1) obtain s' where s': "f s x = Inr s'" "foldE f s' xs = Inr t"
    by (auto simp: bindE_eq_Inr)
  then have "P s'" using Cons.prems(2,3) by auto
  then show ?case using Cons.IH [OF s'(2)] Cons.prems(3) by auto
qed

section \<open>JavaScript integer arithmetic\<close>

text \<open>
  \<open>BigInt\<close> division truncates towards zero, which is the library's \<open>sdiv\<close>;
  on the non-negative operands of the money code it is \<open>div\<close>.
\<close>

lemma sdiv_nonneg [simp, rounding]: "0 \<le> a \<Longrightarrow> 0 \<le> b \<Longrightarrow> (a::int) sdiv b = a div b"
  by (cases "a = 0"; cases "b = 0") (auto simp: signed_divide_int_def)

text \<open>
  \<open>Math.round (a / b)\<close> for integers \<open>a \<ge> 0\<close>, \<open>b > 0\<close> whose quotient a double
  represents closely enough: the floor of \<open>a / b + 1 / 2\<close>.
\<close>

definition jsRoundDiv :: "int \<Rightarrow> int \<Rightarrow> int" where
  "jsRoundDiv a b = (2 * a + b) div (2 * b)"

lemma jsRoundDiv_bounds:
  assumes "0 < b"
  shows "2 * b * jsRoundDiv a b \<le> 2 * a + b" and "2 * a < 2 * b * jsRoundDiv a b + b"
proof -
  have eq: "2 * b * ((2 * a + b) div (2 * b)) + (2 * a + b) mod (2 * b) = 2 * a + b"
    by (rule mult_div_mod_eq)
  have "0 \<le> (2 * a + b) mod (2 * b)" and "(2 * a + b) mod (2 * b) < 2 * b"
    using assms by simp_all
  then show "2 * b * jsRoundDiv a b \<le> 2 * a + b" and "2 * a < 2 * b * jsRoundDiv a b + b"
    using eq unfolding jsRoundDiv_def by linarith+
qed

lemma jsRoundDiv_nonneg: "0 \<le> a \<Longrightarrow> 0 < b \<Longrightarrow> 0 \<le> jsRoundDiv a b"
  by (simp add: jsRoundDiv_def pos_imp_zdiv_nonneg_iff)

text \<open>Characterisation of a rounded quotient by its two bounds.\<close>

lemma int_quotient_unique:
  fixes k l d :: int
  assumes "0 < d" and "n \<le> k * d" and "k * d < n + d" and "n \<le> l * d" and "l * d < n + d"
  shows "k = l"
proof -
  have "k * d < (l + 1) * d" and "l * d < (k + 1) * d"
    using assms by (simp_all add: distrib_right)
  then have "k < l + 1" and "l < k + 1"
    using assms(1) by (simp_all only: mult_less_cancel_right_pos)
  then show ?thesis by linarith
qed

lemma ceil_div_upper:
  fixes n d :: int
  assumes "0 < d"
  shows "n \<le> ((n + d - 1) div d) * d" and "((n + d - 1) div d) * d < n + d"
proof -
  have eq: "((n + d - 1) div d) * d + (n + d - 1) mod d = n + d - 1"
    by (rule div_mult_mod_eq)
  have "0 \<le> (n + d - 1) mod d" and "(n + d - 1) mod d < d"
    using assms by simp_all
  then show "n \<le> ((n + d - 1) div d) * d" and "((n + d - 1) div d) * d < n + d"
    using eq by linarith+
qed

lemma ceil_div_mono:
  fixes n m d :: int
  shows "0 < d \<Longrightarrow> n \<le> m \<Longrightarrow> (n + d - 1) div d \<le> (m + d - 1) div d"
  by (simp add: zdiv_mono1)

section \<open>The rounding-up contract\<close>

text \<open>
  The money modules each carry their own rounding-up division
  (\<open>ceilDiv\<close> in \<open>billing/calculation.ts\<close>, \<open>divideRoundUp\<close> in
  \<open>pricing/commercial-engine.ts\<close> and again in \<open>pricing/provider-pricing.ts\<close>). What their
  callers rely on is the same: on a non-negative numerator and a positive denominator the
  division returns the least integer that is not below the quotient.
\<close>

locale round_up =
  fixes rnd :: "int \<Rightarrow> int \<Rightarrow> 'e + int"
  assumes rnd_spec: "0 \<le> n \<Longrightarrow> 0 < d \<Longrightarrow> \<exists>k. rnd n d = Inr k \<and> n \<le> k * d \<and> k * d < n + d"
begin

lemma rnd_bounds:
  assumes "rnd n d = Inr k" and "0 \<le> n" and "0 < d"
  shows "n \<le> k * d" and "k * d < n + d"
  using rnd_spec [OF assms(2,3)] assms(1) by auto

lemma rnd_eq: "0 \<le> n \<Longrightarrow> 0 < d \<Longrightarrow> rnd n d = Inr ((n + d - 1) div d)"
  using rnd_spec [of n d] int_quotient_unique [of d n "_" "(n + d - 1) div d"]
    ceil_div_upper [of d n] by metis

lemma rnd_nonneg:
  assumes "rnd n d = Inr k" and "0 \<le> n" and "0 < d"
  shows "0 \<le> k"
  using assms by (simp add: rnd_eq) (auto simp: pos_imp_zdiv_nonneg_iff)

lemma rnd_mono:
  assumes "rnd n d = Inr k" and "rnd m d = Inr l" and "0 \<le> n" and "n \<le> m" and "0 < d"
  shows "k \<le> l"
  using assms by (auto simp: rnd_eq ceil_div_mono)

lemma rnd_exact:
  assumes "0 \<le> q" and "0 < d"
  shows "rnd (q * d) d = Inr q"
proof -
  obtain k where k: "rnd (q * d) d = Inr k" "q * d \<le> k * d" "k * d < q * d + d"
    using rnd_spec [of "q * d" d] assms by auto
  then have "k = q"
    using int_quotient_unique [of d "q * d" k q] assms by simp
  with k show ?thesis by simp
qed

text \<open>Rounding each part up never charges less than rounding the whole, and at most one unit more.\<close>

lemma rnd_add:
  assumes "rnd a d = Inr x" and "rnd b d = Inr y" and "rnd (a + b) d = Inr z"
    and "0 \<le> a" and "0 \<le> b" and "0 < d"
  shows "z \<le> x + y" and "x + y \<le> z + 1"
proof -
  have b: "a \<le> x * d" "x * d < a + d" "b \<le> y * d" "y * d < b + d" "a + b \<le> z * d" "z * d < a + b + d"
    using assms rnd_bounds by (simp_all add: rnd_bounds)
  then have "z * d < (x + y + 1) * d" and "(x + y) * d < (z + 2) * d"
    by (simp_all add: distrib_right)
  then have "z < x + y + 1" and "x + y < z + 2"
    using assms(6) by (simp_all only: mult_less_cancel_right_pos)
  then show "z \<le> x + y" and "x + y \<le> z + 1" by linarith+
qed

end

section \<open>Tables\<close>

text \<open>
  A database table is the list of its rows in insertion order. \<open>findUnique\<close> and
  \<open>findFirst\<close> are \<open>find\<close>; \<open>update\<close>/\<open>updateMany\<close> rewrite every row that matches
  a predicate; \<open>updateMany\<close> reports how many matched.
\<close>

definition findRow :: "('r \<Rightarrow> bool) \<Rightarrow> 'r list \<Rightarrow> 'r option" where
  "findRow p t = List.find p t"

definition updateRows :: "('r \<Rightarrow> bool) \<Rightarrow> ('r \<Rightarrow> 'r) \<Rightarrow> 'r list \<Rightarrow> 'r list" where
  "updateRows p f t = map (\<lambda>r. if p r then f r else r) t"

definition countRows :: "('r \<Rightarrow> bool) \<Rightarrow> 'r list \<Rightarrow> nat" where
  "countRows p t = length (filter p t)"

text \<open>\<open>upsert\<close> by a unique key of the row.\<close>

definition upsertRow :: "('r \<Rightarrow> string) \<Rightarrow> 'r \<Rightarrow> ('r \<Rightarrow> 'r) \<Rightarrow> 'r list \<Rightarrow> 'r list" where
  "upsertRow k new change t = (if (\<exists>r \<in> set t. k r = k new) then updateRows (\<lambda>r. k r = k new) change t else t @ [new])"

lemma findRow_Nil [simp, table_simps]: "findRow p [] = None"
  by (simp add: findRow_def)

lemma findRow_Cons [simp, table_simps]:
  "findRow p (r # t) = (if p r then Some r else findRow p t)"
  by (simp add: findRow_def)

lemma findRow_None: "findRow p t = None \<longleftrightarrow> (\<forall>r \<in> set t. \<not> p r)"
  by (induction t) auto

lemma findRow_Some: "findRow p t = Some r \<Longrightarrow> p r \<and> r \<in> set t"
  by (induction t) (auto split: if_splits)

lemma findRow_append [table_simps]:
  "findRow p (t @ u) = (case findRow p t of None \<Rightarrow> findRow p u | Some r \<Rightarrow> Some r)"
  by (induction t) auto

lemma updateRows_Nil [simp]: "updateRows p f [] = []"
  by (simp add: updateRows_def)

lemma updateRows_Cons [simp]:
  "updateRows p f (r # t) = (if p r then f r else r) # updateRows p f t"
  by (simp add: updateRows_def)

lemma length_updateRows [simp]: "length (updateRows p f t) = length t"
  by (simp add: updateRows_def)

lemma map_updateRows [table_simps]:
  "(\<And>r. k (f r) = k r) \<Longrightarrow> map k (updateRows p f t) = map k t"
  by (simp add: updateRows_def)

lemma set_updateRows: "set (updateRows p f t) = (\<lambda>r. if p r then f r else r) ` set t"
  by (simp add: updateRows_def)

text \<open>A lookup whose predicate the update does not disturb sees the updated row.\<close>

lemma findRow_updateRows [table_simps]:
  assumes "\<And>r. q (f r) = q r"
  shows "findRow q (updateRows p f t) =
    map_option (\<lambda>r. if p r then f r else r) (findRow q t)"
  using assms by (induction t) auto

text \<open>A table with a unique column: the row found by its key is the only one with it.\<close>

lemma findRow_unique:
  assumes "distinct (map k t)" and "r \<in> set t"
  shows "findRow (\<lambda>x. k x = k r) t = Some r"
  using assms
proof (induction t)
  case Nil
  then show ?case by simp
next
  case (Cons x t)
  show ?case
  proof (cases "x = r")
    case True
    then show ?thesis by simp
  next
    case False
    with Cons.prems have "r \<in> set t" by simp
    moreover from this Cons.prems have "k x \<noteq> k r" by force
    ultimately show ?thesis using Cons by simp
  qed
qed

lemma distinct_key_eq: "distinct (map k t) \<Longrightarrow> x \<in> set t \<Longrightarrow> y \<in> set t \<Longrightarrow> k x = k y \<Longrightarrow> x = y"
  by (simp add: distinct_map inj_on_def)

lemma countRows_key_le_1: "distinct (map k t) \<Longrightarrow> countRows (\<lambda>r. k r = x \<and> q r) t \<le> 1"
proof (induction t)
  case (Cons r t)
  show ?case
  proof (cases "k r = x")
    case True
    with Cons.prems have "filter (\<lambda>r. k r = x \<and> q r) t = []"
      by (fastforce simp: filter_empty_conv image_iff)
    then show ?thesis by (simp add: countRows_def)
  next
    case False
    with Cons show ?thesis by (simp add: countRows_def)
  qed
qed (simp add: countRows_def)

lemma countRows_eq_1_iff:
  assumes "distinct (map k t)"
  shows "countRows (\<lambda>r. k r = x \<and> q r) t = 1 \<longleftrightarrow>
    (\<exists>r. findRow (\<lambda>r. k r = x) t = Some r \<and> q r)"
  using assms
proof (induction t)
  case (Cons r t)
  show ?case
  proof (cases "k r = x")
    case True
    with Cons.prems have "filter (\<lambda>r. k r = x \<and> q r) t = []"
      by (fastforce simp: filter_empty_conv image_iff)
    with True show ?thesis by (auto simp: countRows_def)
  next
    case False
    with Cons show ?thesis by (simp add: countRows_def)
  qed
qed (simp add: countRows_def)

section \<open>Stable sorting by a comparison\<close>

text \<open>
  \<open>Array.prototype.sort\<close> is stable; with a comparator \<open>(a, b) => key a - key b\<close> it is the
  library's \<open>sort_key\<close>. For comparators that are not a difference of keys, insertion of each
  element behind the elements that do not compare greater gives the same stable order.
\<close>

fun insertBy :: "('a \<Rightarrow> 'a \<Rightarrow> int) \<Rightarrow> 'a \<Rightarrow> 'a list \<Rightarrow> 'a list" where
  "insertBy c x [] = [x]"
| "insertBy c x (y # ys) = (if c x y \<le> 0 then x # y # ys else y # insertBy c x ys)"

definition sortBy :: "('a \<Rightarrow> 'a \<Rightarrow> int) \<Rightarrow> 'a list \<Rightarrow> 'a list" where
  "sortBy c xs = foldr (insertBy c) xs []"

lemma mset_insertBy: "mset (insertBy c x ys) = add_mset x (mset ys)"
  by (induction ys) auto

lemma mset_sortBy [simp]: "mset (sortBy c xs) = mset xs"
  by (induction xs) (simp_all add: sortBy_def mset_insertBy)

lemma set_sortBy [simp]: "set (sortBy c xs) = set xs"
  by (metis mset_sortBy set_mset_mset)

lemma length_sortBy [simp]: "length (sortBy c xs) = length xs"
  by (metis mset_sortBy size_mset)

lemma distinct_sortBy [simp]: "distinct (sortBy c xs) = distinct xs"
  by (metis mset_sortBy mset_eq_imp_distinct_iff)

lemma sortBy_Nil [simp]: "sortBy c [] = []"
  by (simp add: sortBy_def)

lemma sortBy_Cons: "sortBy c (x # xs) = insertBy c x (sortBy c xs)"
  by (simp add: sortBy_def)

lemma set_insertBy [simp]: "set (insertBy c x ys) = insert x (set ys)"
  by (induction ys) auto

lemma insertBy_front: "(\<And>y. y \<in> set ys \<Longrightarrow> c x y \<le> 0) \<Longrightarrow> insertBy c x ys = x # ys"
  by (cases ys) auto

lemma sortBy_id: "sorted_wrt (\<lambda>x y. c x y \<le> 0) xs \<Longrightarrow> sortBy c xs = xs"
  by (induction xs) (simp_all add: sortBy_Cons insertBy_front)

lemma sorted_wrt_unique:
  assumes "sorted_wrt P xs" and "sorted_wrt P ys" and "mset xs = mset ys"
    and "\<And>x y. x \<in> set xs \<Longrightarrow> y \<in> set xs \<Longrightarrow> P x y \<Longrightarrow> P y x \<Longrightarrow> x = y"
  shows "xs = ys"
  using assms
proof (induction xs arbitrary: ys)
  case (Cons x xs)
  then obtain y zs where ys: "ys = y # zs" by (cases ys) auto
  have mem: "set (x # xs) = set (y # zs)" using Cons.prems(3) ys by (metis set_mset_mset)
  have "x = y"
  proof (rule ccontr)
    assume ne: "x \<noteq> y"
    then have "y \<in> set xs" "x \<in> set zs" using mem by auto
    then show False using Cons.prems ys ne by auto
  qed
  then show ?case using Cons ys by auto
qed simp

locale comparator =
  fixes c :: "'a \<Rightarrow> 'a \<Rightarrow> int"
  assumes c_total: "c x y \<le> 0 \<or> c y x \<le> 0"
    and c_trans: "c x y \<le> 0 \<Longrightarrow> c y z \<le> 0 \<Longrightarrow> c x z \<le> 0"
begin

lemma insertBy_sorted:
  "sorted_wrt (\<lambda>x y. c x y \<le> 0) ys \<Longrightarrow> sorted_wrt (\<lambda>x y. c x y \<le> 0) (insertBy c x ys)"
proof (induction ys)
  case (Cons y ys)
  show ?case
  proof (cases "c x y \<le> 0")
    case True
    then show ?thesis using Cons.prems by (auto intro: c_trans)
  next
    case False
    then have "c y x \<le> 0" using c_total by blast
    with False Cons show ?thesis by auto
  qed
qed simp

lemma sortBy_sorted: "sorted_wrt (\<lambda>x y. c x y \<le> 0) (sortBy c xs)"
  by (induction xs) (simp_all add: sortBy_Cons insertBy_sorted)

text \<open>Sorting forgets the order in which the rows came, when no two of them compare as equal.\<close>

lemma sortBy_perm:
  assumes "mset xs = mset ys"
    and "\<And>x y. x \<in> set xs \<Longrightarrow> y \<in> set xs \<Longrightarrow> c x y \<le> 0 \<Longrightarrow> c y x \<le> 0 \<Longrightarrow> x = y"
  shows "sortBy c xs = sortBy c ys"
  using sortBy_sorted sortBy_sorted by (rule sorted_wrt_unique) (use assms in auto)

end

end
