(* ===== verification/CommercialEngine.thy ===== *)
theory CommercialEngine
  imports Prelude
begin

text \<open>
  The commercial price formula of \<open>src/lib/pricing/commercial-engine.ts\<close> and its adapter
  \<open>quote-line-items.ts\<close>. Money is an integer number of rials (\<open>BigInt\<close>), basis points are
  integers (the guards reject every other number, so a basis-point argument of the model is an
  integer). A thrown \<open>Error(message)\<close> is \<open>Inl\<close> of its message. Line-item labels and display
  metadata are presentation only and not modelled; types and amounts are.
\<close>

section \<open>Constants, basis points, rounding\<close>

definition BPS_DENOMINATOR :: int where
  "BPS_DENOMINATOR = 10000"

definition TERM_DISCOUNT_BPS :: "int \<Rightarrow> int" where
  "TERM_DISCOUNT_BPS m = (if m = 3 then 500 else if m = 6 then 1000 else if m = 12 then 2000 else 0)"

definition isBillingTermMonths :: "int \<Rightarrow> bool" where
  "isBillingTermMonths v \<longleftrightarrow> v = 1 \<or> v = 3 \<or> v = 6 \<or> v = 12"

definition assertIntegerBps :: "int \<Rightarrow> int \<Rightarrow> string + unit" where
  "assertIntegerBps value mx = guardE (\<not> (value < 0 \<or> value > mx)) ''invalid_basis_points''"

definition multiplyBpsRoundUp :: "int \<Rightarrow> int \<Rightarrow> string + int" where
  "multiplyBpsRoundUp amount basisPoints =
     bindE (guardE (\<not> amount < 0) ''invalid_money'') (\<lambda>_.
     bindE (assertIntegerBps basisPoints 100000) (\<lambda>_.
     if amount = 0 \<or> basisPoints = 0 then Inr 0
     else Inr ((amount * basisPoints + BPS_DENOMINATOR - 1) sdiv BPS_DENOMINATOR)))"

definition divideRoundUp :: "int \<Rightarrow> int \<Rightarrow> string + int" where
  "divideRoundUp numerator denominator =
     (if numerator < 0 \<or> denominator \<le> 0 then Inl ''invalid_rounding_input''
      else Inr ((numerator + denominator - 1) sdiv denominator))"

definition grossMarginBpsToMarkupBps :: "int \<Rightarrow> string + int" where
  "grossMarginBpsToMarkupBps marginBps =
     (if marginBps < 0 \<or> marginBps \<ge> 10000 then Inl ''invalid_gross_margin''
      else if marginBps = 0 then Inr 0
      else Inr (jsRoundDiv (marginBps * 10000) (10000 - marginBps)))"

definition markupBpsToGrossMarginBps :: "int \<Rightarrow> string + int" where
  "markupBpsToGrossMarginBps markupBps =
     bindE (assertIntegerBps markupBps 1000000) (\<lambda>_.
     if markupBps = 0 then Inr 0
     else Inr (jsRoundDiv (markupBps * 10000) (10000 + markupBps)))"

datatype MarginGuardrailLevel = MG_ok | MG_warn | MG_confirm

definition MARGIN_WARN_THRESHOLD_BPS :: int where "MARGIN_WARN_THRESHOLD_BPS = 5000"
definition MARGIN_CONFIRM_THRESHOLD_BPS :: int where "MARGIN_CONFIRM_THRESHOLD_BPS = 7000"

definition evaluateMarginGuardrail :: "int \<Rightarrow> string + MarginGuardrailLevel \<times> int" where
  "evaluateMarginGuardrail marginBps =
     (if marginBps < 0 \<or> marginBps \<ge> 10000 then Inl ''invalid_gross_margin''
      else if marginBps \<ge> MARGIN_CONFIRM_THRESHOLD_BPS then Inr (MG_confirm, marginBps)
      else if marginBps \<ge> MARGIN_WARN_THRESHOLD_BPS then Inr (MG_warn, marginBps)
      else Inr (MG_ok, marginBps))"

section \<open>The input and the breakdown\<close>

datatype ParchinLevel = PARCHIN_START | PARCHIN_ACTIVE | PARCHIN_STABLE

datatype QuoteLineItemType =
    PROVIDER_INFRASTRUCTURE | INFRASTRUCTURE_MARKUP | PARCHIN | PROVIDER_ADDON
  | TERM_DISCOUNT | COUPON_DISCOUNT | TAX

record QuoteLineItem =
  li_type :: QuoteLineItemType
  li_amountIrr :: int

datatype DiscountSource = DS_none | DS_term | DS_coupon

record CommercialPricingInput =
  providerMonthlyPriceIrr :: int
  providerMarkupBps :: int
  productMarkupBps :: int
  parchinLevel :: ParchinLevel
  parchinPriceIrr :: int
  providerAddons :: "int list" \<comment> \<open>the \<open>amountIrr\<close> of each add-on\<close>
  taxBps :: int
  termMonths :: "int option"
  couponDiscountBps :: "int option"
  minimumPostDiscountGrossMarginBps :: "int option"
  infrastructureSaleRialOverride :: "int option"

record CommercialPriceBreakdown =
  bd_providerCostRial :: int
  bd_providerMarkupRial :: int
  bd_productMarkupRial :: int
  bd_totalMarkupRial :: int
  bd_parchinRial :: int
  bd_addonsRial :: int
  bd_subtotalBeforeDiscountRial :: int
  bd_discountRial :: int
  bd_taxableRial :: int
  bd_taxRial :: int
  bd_finalPriceRial :: int
  bd_renewalPriceRial :: int
  bd_effectiveMarkupBps :: int
  bd_grossMarginBps :: int
  bd_termMonths :: int
  bd_lineItems :: "QuoteLineItem list"
  bd_markupBps :: int
  bd_termDiscountBps :: int
  bd_discountSource :: DiscountSource
  bd_monthlyPretaxRial :: int
  bd_requestedDiscountRial :: int
  bd_maximumAllowedDiscountRial :: int
  bd_discountCapped :: bool
  bd_minimumPostDiscountGrossMarginBps :: "int option"

definition resolveTermDiscountBps :: "int \<Rightarrow> int option \<Rightarrow> string + int \<times> DiscountSource" where
  "resolveTermDiscountBps months coupon =
     (case coupon of
        Some c \<Rightarrow>
          if c \<ge> 0 then bindE (assertIntegerBps c 10000) (\<lambda>_. Inr (c, DS_coupon))
          else (let fixed = TERM_DISCOUNT_BPS months
                in if fixed > 0 then Inr (fixed, DS_term) else Inr (0, DS_none))
      | None \<Rightarrow>
          (let fixed = TERM_DISCOUNT_BPS months
           in if fixed > 0 then Inr (fixed, DS_term) else Inr (0, DS_none)))"

section \<open>The computation, stage by stage\<close>

text \<open>The guards at the head of \<open>computeCommercialPriceBreakdown\<close>: term and combined markup.\<close>

definition validatePricingInput :: "CommercialPricingInput \<Rightarrow> string + int \<times> int" where
  "validatePricingInput i =
     bindE (guardE (\<not> providerMonthlyPriceIrr i \<le> 0) ''invalid_provider_price'') (\<lambda>_.
     bindE (guardE (\<not> parchinPriceIrr i < 0) ''invalid_parchin_price'') (\<lambda>_.
     bindE (assertIntegerBps (providerMarkupBps i) 100000) (\<lambda>_.
     bindE (assertIntegerBps (productMarkupBps i) 100000) (\<lambda>_.
     bindE (assertIntegerBps (taxBps i) 10000) (\<lambda>_.
     let months = (case termMonths i of None \<Rightarrow> 1 | Some m \<Rightarrow> m) in
     bindE (guardE (isBillingTermMonths months) ''invalid_term_months'') (\<lambda>_.
     let markupBps = providerMarkupBps i + productMarkupBps i in
     bindE (assertIntegerBps markupBps 100000) (\<lambda>_. Inr (months, markupBps))))))))"

text \<open>Monthly markup: total, provider part, product part.\<close>

definition monthlyMarkup :: "CommercialPricingInput \<Rightarrow> int \<Rightarrow> string + int \<times> int \<times> int" where
  "monthlyMarkup i markupBps =
     (case infrastructureSaleRialOverride i of
        Some sale \<Rightarrow>
          if sale \<le> providerMonthlyPriceIrr i then Inl ''invalid_infrastructure_sale_override''
          else bindE (multiplyBpsRoundUp (providerMonthlyPriceIrr i) (productMarkupBps i)) (\<lambda>product.
            let provider = sale - providerMonthlyPriceIrr i
            in Inr (provider + product, provider, product))
      | None \<Rightarrow>
          bindE (multiplyBpsRoundUp (providerMonthlyPriceIrr i) markupBps) (\<lambda>total.
          bindE (multiplyBpsRoundUp (providerMonthlyPriceIrr i) (providerMarkupBps i)) (\<lambda>provider.
          Inr (total, provider, total - provider))))"

definition monthlyAddons :: "int list \<Rightarrow> string + int" where
  "monthlyAddons addons =
     foldE (\<lambda>sum a. if a < 0 then Inl ''invalid_provider_addon'' else Inr (sum + a)) 0 addons"

text \<open>The largest discount the post-discount margin floor allows.\<close>

definition protectedFloor :: "int \<Rightarrow> int \<Rightarrow> int \<Rightarrow> int \<Rightarrow> int \<Rightarrow> int" where
  "protectedFloor providerMonthly minPostMargin termMultiplier parchinTerm addonsTerm =
     (let keep = 10000 - minPostMargin;
          monthlyInfraFloor = (providerMonthly * BPS_DENOMINATOR + keep - 1) sdiv keep
      in monthlyInfraFloor * termMultiplier + parchinTerm + addonsTerm)"

definition maximumAllowedDiscount ::
  "int \<Rightarrow> int option \<Rightarrow> int \<Rightarrow> int \<Rightarrow> int \<Rightarrow> int \<Rightarrow> string + int" where
  "maximumAllowedDiscount providerMonthly minPostMargin termMultiplier parchinTerm addonsTerm termPretax =
     (case minPostMargin of
        None \<Rightarrow> Inr termPretax
      | Some m \<Rightarrow>
          if m < 0 \<or> m \<ge> 10000 then Inl ''invalid_minimum_post_discount_margin''
          else if m > 0 then
            (let floor = protectedFloor providerMonthly m termMultiplier parchinTerm addonsTerm
             in Inr (if termPretax > floor then termPretax - floor else 0))
          else Inr termPretax)"

definition quoteLines ::
  "int \<Rightarrow> int \<Rightarrow> int \<Rightarrow> int list \<Rightarrow> int \<Rightarrow> DiscountSource \<Rightarrow> int \<Rightarrow> QuoteLineItem list" where
  "quoteLines providerTerm markupTerm parchinTerm addonTerms discount source tax =
     [\<lparr>li_type = PROVIDER_INFRASTRUCTURE, li_amountIrr = providerTerm\<rparr>,
      \<lparr>li_type = INFRASTRUCTURE_MARKUP, li_amountIrr = markupTerm\<rparr>,
      \<lparr>li_type = PARCHIN, li_amountIrr = parchinTerm\<rparr>]
     @ map (\<lambda>a. \<lparr>li_type = PROVIDER_ADDON, li_amountIrr = a\<rparr>) addonTerms
     @ (if discount > 0
        then [\<lparr>li_type = (if source = DS_coupon then COUPON_DISCOUNT else TERM_DISCOUNT),
               li_amountIrr = - discount\<rparr>]
        else [])
     @ [\<lparr>li_type = TAX, li_amountIrr = tax\<rparr>]"

definition computeCommercialPriceBreakdown ::
  "CommercialPricingInput \<Rightarrow> string + CommercialPriceBreakdown" where
  "computeCommercialPriceBreakdown i =
     bindE (validatePricingInput i) (\<lambda>(months, markupBps).
     bindE (monthlyMarkup i markupBps) (\<lambda>(monthlyMarkupIrr, monthlyProviderMarkup, monthlyProductMarkup).
     bindE (monthlyAddons (providerAddons i)) (\<lambda>monthlyAddon.
     let monthlyPretax = providerMonthlyPriceIrr i + monthlyMarkupIrr + parchinPriceIrr i + monthlyAddon;
         providerTerm = providerMonthlyPriceIrr i * months;
         markupTerm = monthlyMarkupIrr * months;
         parchinTerm = parchinPriceIrr i * months;
         addonsTerm = monthlyAddon * months;
         addonTerms = map (\<lambda>a. a * months) (providerAddons i);
         termPretax = monthlyPretax * months
     in
     bindE (resolveTermDiscountBps months (couponDiscountBps i)) (\<lambda>(discountBps, source).
     bindE (multiplyBpsRoundUp termPretax discountBps) (\<lambda>requested.
     bindE (maximumAllowedDiscount (providerMonthlyPriceIrr i) (minimumPostDiscountGrossMarginBps i)
              months parchinTerm addonsTerm termPretax) (\<lambda>maxAllowed.
     let discount = (if requested \<le> maxAllowed then requested else maxAllowed);
         taxable = termPretax - discount
     in
     bindE (multiplyBpsRoundUp taxable (taxBps i)) (\<lambda>tax.
     bindE (multiplyBpsRoundUp monthlyPretax (taxBps i)) (\<lambda>renewalTax.
     let infrastructureSale = providerTerm + markupTerm in
     Inr \<lparr>bd_providerCostRial = providerTerm,
          bd_providerMarkupRial = monthlyProviderMarkup * months,
          bd_productMarkupRial = monthlyProductMarkup * months,
          bd_totalMarkupRial = markupTerm,
          bd_parchinRial = parchinTerm,
          bd_addonsRial = addonsTerm,
          bd_subtotalBeforeDiscountRial = termPretax,
          bd_discountRial = discount,
          bd_taxableRial = taxable,
          bd_taxRial = tax,
          bd_finalPriceRial = taxable + tax,
          bd_renewalPriceRial = monthlyPretax + renewalTax,
          bd_effectiveMarkupBps =
            (if providerTerm > 0 then (markupTerm * 10000 + providerTerm sdiv 2) sdiv providerTerm else 0),
          bd_grossMarginBps =
            (if infrastructureSale > 0
             then (markupTerm * 10000 + infrastructureSale sdiv 2) sdiv infrastructureSale else 0),
          bd_termMonths = months,
          bd_lineItems = quoteLines providerTerm markupTerm parchinTerm addonTerms discount source tax,
          bd_markupBps = markupBps,
          bd_termDiscountBps = discountBps,
          bd_discountSource = source,
          bd_monthlyPretaxRial = monthlyPretax,
          bd_requestedDiscountRial = requested,
          bd_maximumAllowedDiscountRial = maxAllowed,
          bd_discountCapped = (discount < requested),
          bd_minimumPostDiscountGrossMarginBps = minimumPostDiscountGrossMarginBps i\<rparr>))))))))"

definition deriveUsageEquivalentPrices :: "int \<Rightarrow> string + int \<times> int" where
  "deriveUsageEquivalentPrices finalMonthlyRial =
     (if finalMonthlyRial \<le> 0 then Inr (0, 0)
      else bindE (divideRoundUp finalMonthlyRial 720) (\<lambda>hourly.
           bindE (divideRoundUp finalMonthlyRial 30) (\<lambda>daily. Inr (hourly, daily))))"

section \<open>Rounding lemmas\<close>

interpretation engine_round: round_up divideRoundUp
proof
  fix n d :: int
  assume "0 \<le> n" and "0 < d"
  then show "\<exists>k. divideRoundUp n d = Inr k \<and> n \<le> k * d \<and> k * d < n + d"
    using ceil_div_upper [of d n] by (simp add: divideRoundUp_def)
qed

lemma multiplyBpsRoundUp_divide:
  assumes "0 \<le> a" and "0 \<le> b" and "b \<le> 100000"
  shows "multiplyBpsRoundUp a b = divideRoundUp (a * b) BPS_DENOMINATOR"
  using assms
  by (auto simp: multiplyBpsRoundUp_def divideRoundUp_def assertIntegerBps_def BPS_DENOMINATOR_def
      bindE_guardE mult_nonneg_nonneg not_less)

lemma multiplyBpsRoundUp_ok_iff:
  "isOk (multiplyBpsRoundUp a b) \<longleftrightarrow> 0 \<le> a \<and> 0 \<le> b \<and> b \<le> 100000"
  by (auto simp: multiplyBpsRoundUp_def assertIntegerBps_def bindE_guardE guardE_def)

lemma multiplyBpsRoundUp_Inr:
  assumes "multiplyBpsRoundUp a b = Inr r"
  shows "0 \<le> a" and "0 \<le> b" and "b \<le> 100000" and "0 \<le> r"
    and "a * b \<le> r * 10000" and "r * 10000 < a * b + 10000"
proof -
  have ok: "isOk (multiplyBpsRoundUp a b)" using assms by simp
  then show args: "0 \<le> a" "0 \<le> b" "b \<le> 100000"
    by (simp_all add: multiplyBpsRoundUp_ok_iff)
  then have "divideRoundUp (a * b) BPS_DENOMINATOR = Inr r"
    using assms by (simp add: multiplyBpsRoundUp_divide)
  then show "0 \<le> r" "a * b \<le> r * 10000" "r * 10000 < a * b + 10000"
    using engine_round.rnd_bounds engine_round.rnd_nonneg args
    by (simp_all add: BPS_DENOMINATOR_def)
qed

lemma multiplyBpsRoundUp_mono:
  assumes "multiplyBpsRoundUp a b = Inr r" and "multiplyBpsRoundUp c d = Inr s"
    and "a * b \<le> c * d"
  shows "r \<le> s"
proof -
  have "r * 10000 < s * 10000 + 10000"
    using multiplyBpsRoundUp_Inr(6) [OF assms(1)] multiplyBpsRoundUp_Inr(5) [OF assms(2)] assms(3)
    by linarith
  then show ?thesis by linarith
qed

lemma multiplyBpsRoundUp_le_amount:
  assumes "multiplyBpsRoundUp a b = Inr r" and "b \<le> 10000"
  shows "r \<le> a"
proof -
  have "a * b \<le> a * 10000"
    using multiplyBpsRoundUp_Inr(1) [OF assms(1)] assms(2) by (simp add: mult_left_mono)
  then have "r * 10000 < a * 10000 + 10000"
    using multiplyBpsRoundUp_Inr(6) [OF assms(1)] by linarith
  then show ?thesis by linarith
qed

section \<open>Stages of the computation\<close>

lemma validatePricingInput_eq_Inr:
  "validatePricingInput i = Inr (m, k) \<longleftrightarrow>
     0 < providerMonthlyPriceIrr i \<and> 0 \<le> parchinPriceIrr i \<and>
     0 \<le> providerMarkupBps i \<and> 0 \<le> productMarkupBps i \<and>
     0 \<le> taxBps i \<and> taxBps i \<le> 10000 \<and>
     m = (case termMonths i of None \<Rightarrow> 1 | Some t \<Rightarrow> t) \<and> isBillingTermMonths m \<and>
     k = providerMarkupBps i + productMarkupBps i \<and> k \<le> 100000"
  unfolding validatePricingInput_def assertIntegerBps_def Let_def
  by (auto simp: bindE_guardE split: if_splits)

lemma isBillingTermMonths_pos: "isBillingTermMonths m \<Longrightarrow> 0 < m"
  by (auto simp: isBillingTermMonths_def)

lemma monthlyMarkup_Inr:
  assumes "monthlyMarkup i k = Inr (tot, prv, prd)"
    and "k = providerMarkupBps i + productMarkupBps i" and "0 \<le> productMarkupBps i"
  shows "prv + prd = tot" and "0 \<le> prv" and "0 \<le> prd"
proof -
  show sum: "prv + prd = tot"
    using assms(1) by (auto simp: monthlyMarkup_def bindE_eq_Inr Let_def split: option.splits if_splits)
  show "0 \<le> prv"
    using assms(1)
    by (auto simp: monthlyMarkup_def bindE_eq_Inr Let_def dest: multiplyBpsRoundUp_Inr(4)
        split: option.splits if_splits)
  show "0 \<le> prd"
  proof (cases "infrastructureSaleRialOverride i")
    case None
    with assms(1,2) have whole:
      "multiplyBpsRoundUp (providerMonthlyPriceIrr i) (providerMarkupBps i + productMarkupBps i) = Inr tot"
      and part: "multiplyBpsRoundUp (providerMonthlyPriceIrr i) (providerMarkupBps i) = Inr prv"
      by (auto simp: monthlyMarkup_def bindE_eq_Inr)
    have "prv \<le> tot"
      using multiplyBpsRoundUp_Inr(1) [OF part] assms(3)
      by (intro multiplyBpsRoundUp_mono [OF part whole] mult_left_mono) simp_all
    with sum show ?thesis by linarith
  next
    case (Some sale)
    with assms(1) show ?thesis
      by (auto simp: monthlyMarkup_def bindE_eq_Inr Let_def dest: multiplyBpsRoundUp_Inr(4)
          split: if_splits)
  qed
qed

lemma foldE_addons:
  "foldE (\<lambda>sum a. if a < 0 then Inl e else Inr (sum + a)) s xs =
     (if \<exists>a \<in> set xs. a < 0 then Inl e else Inr (s + sum_list (xs::int list)))"
  by (induction xs arbitrary: s) (auto simp: add.assoc)

lemma monthlyAddons_eq:
  "monthlyAddons xs = (if \<exists>a \<in> set xs. a < 0 then Inl ''invalid_provider_addon'' else Inr (sum_list xs))"
  by (simp add: monthlyAddons_def foldE_addons)

lemma resolveTermDiscountBps_ok_iff:
  "isOk (resolveTermDiscountBps m c) \<longleftrightarrow> (\<forall>x. c = Some x \<longrightarrow> x \<le> 10000)"
  by (auto simp: resolveTermDiscountBps_def assertIntegerBps_def bindE_guardE Let_def
      split: option.splits)

lemma resolveTermDiscountBps_range:
  assumes "resolveTermDiscountBps m c = Inr (d, src)"
  shows "0 \<le> d" and "d \<le> 10000"
  using assms
  by (auto simp: resolveTermDiscountBps_def assertIntegerBps_def bindE_guardE Let_def
      TERM_DISCOUNT_BPS_def split: option.splits if_splits)

lemma sum_list_mult_const_int: "sum_list (map (\<lambda>a. a * c) xs) = sum_list xs * (c::int)"
  by (induction xs) (simp_all add: distrib_right)

lemma quoteLines_sum:
  assumes "0 \<le> discount"
  shows "sum_list (map li_amountIrr (quoteLines p m pa as discount src tax)) =
    p + m + pa + sum_list as - discount + tax"
  using assms by (simp add: quoteLines_def o_def)

section \<open>Properties of the breakdown\<close>

text \<open>All stages of a successful computation, with the breakdown they build.\<close>

lemma computeCommercialPriceBreakdown_Inr:
  assumes "computeCommercialPriceBreakdown i = Inr b"
  obtains m k tot prv prd ad dbps src req mx tax rtax where
    "validatePricingInput i = Inr (m, k)" "monthlyMarkup i k = Inr (tot, prv, prd)"
    "monthlyAddons (providerAddons i) = Inr ad"
    "resolveTermDiscountBps m (couponDiscountBps i) = Inr (dbps, src)"
    "multiplyBpsRoundUp (bd_subtotalBeforeDiscountRial b) dbps = Inr req"
    "maximumAllowedDiscount (providerMonthlyPriceIrr i) (minimumPostDiscountGrossMarginBps i)
       m (bd_parchinRial b) (bd_addonsRial b) (bd_subtotalBeforeDiscountRial b) = Inr mx"
    "bd_discountRial b = (if req \<le> mx then req else mx)"
    "bd_taxableRial b = bd_subtotalBeforeDiscountRial b - bd_discountRial b"
    "multiplyBpsRoundUp (bd_taxableRial b) (taxBps i) = Inr tax"
    "multiplyBpsRoundUp (bd_monthlyPretaxRial b) (taxBps i) = Inr rtax"
    "bd_monthlyPretaxRial b = providerMonthlyPriceIrr i + tot + parchinPriceIrr i + ad"
    "bd_subtotalBeforeDiscountRial b = bd_monthlyPretaxRial b * m"
    "bd_providerCostRial b = providerMonthlyPriceIrr i * m" "bd_totalMarkupRial b = tot * m"
    "bd_providerMarkupRial b = prv * m" "bd_productMarkupRial b = prd * m"
    "bd_parchinRial b = parchinPriceIrr i * m" "bd_addonsRial b = ad * m"
    "bd_taxRial b = tax" "bd_finalPriceRial b = bd_taxableRial b + tax"
    "bd_renewalPriceRial b = bd_monthlyPretaxRial b + rtax"
    "bd_requestedDiscountRial b = req" "bd_maximumAllowedDiscountRial b = mx"
    "bd_lineItems b = quoteLines (providerMonthlyPriceIrr i * m) (tot * m) (parchinPriceIrr i * m)
       (map (\<lambda>a. a * m) (providerAddons i)) (bd_discountRial b) src tax"
  using assms
  unfolding computeCommercialPriceBreakdown_def bindE_eq_Inr Let_def
  by (clarsimp simp: bindE_eq_Inr)

lemma maximumAllowedDiscount_nonneg:
  "maximumAllowedDiscount p mo m pa ad tot = Inr mx \<Longrightarrow> 0 \<le> tot \<Longrightarrow> 0 \<le> mx"
  by (auto simp: maximumAllowedDiscount_def Let_def split: option.splits if_splits)

text \<open>Signs and sums of a successful breakdown, used by every property below.\<close>

lemma breakdown_amounts:
  assumes "computeCommercialPriceBreakdown i = Inr b"
  shows "0 < bd_providerCostRial b" and "0 \<le> bd_totalMarkupRial b"
    and "0 \<le> bd_parchinRial b" and "0 \<le> bd_addonsRial b"
    and "bd_providerMarkupRial b + bd_productMarkupRial b = bd_totalMarkupRial b"
    and "bd_subtotalBeforeDiscountRial b =
        bd_providerCostRial b + bd_totalMarkupRial b + bd_parchinRial b + bd_addonsRial b"
    and "0 \<le> bd_discountRial b" and "bd_discountRial b \<le> bd_requestedDiscountRial b"
    and "bd_discountRial b \<le> bd_maximumAllowedDiscountRial b"
    and "bd_requestedDiscountRial b \<le> bd_subtotalBeforeDiscountRial b"
proof -
  from assms obtain m k tot prv prd ad dbps src req mx where
    st: "validatePricingInput i = Inr (m, k)" "monthlyMarkup i k = Inr (tot, prv, prd)"
      "monthlyAddons (providerAddons i) = Inr ad"
      "resolveTermDiscountBps m (couponDiscountBps i) = Inr (dbps, src)"
      "multiplyBpsRoundUp (bd_subtotalBeforeDiscountRial b) dbps = Inr req"
      "maximumAllowedDiscount (providerMonthlyPriceIrr i) (minimumPostDiscountGrossMarginBps i)
         m (bd_parchinRial b) (bd_addonsRial b) (bd_subtotalBeforeDiscountRial b) = Inr mx"
    and eqs: "bd_discountRial b = (if req \<le> mx then req else mx)"
      "bd_monthlyPretaxRial b = providerMonthlyPriceIrr i + tot + parchinPriceIrr i + ad"
      "bd_subtotalBeforeDiscountRial b = bd_monthlyPretaxRial b * m"
      "bd_providerCostRial b = providerMonthlyPriceIrr i * m" "bd_totalMarkupRial b = tot * m"
      "bd_providerMarkupRial b = prv * m" "bd_productMarkupRial b = prd * m"
      "bd_parchinRial b = parchinPriceIrr i * m" "bd_addonsRial b = ad * m"
      "bd_requestedDiscountRial b = req" "bd_maximumAllowedDiscountRial b = mx"
    by (rule computeCommercialPriceBreakdown_Inr)
  have v: "0 < providerMonthlyPriceIrr i" "0 \<le> parchinPriceIrr i" "0 < m" "0 \<le> productMarkupBps i"
    "k = providerMarkupBps i + productMarkupBps i"
    using st(1) by (auto simp: validatePricingInput_eq_Inr isBillingTermMonths_pos)
  note mk = monthlyMarkup_Inr [OF st(2) v(5,4)]
  have ad: "0 \<le> ad"
    using st(3) by (auto simp: monthlyAddons_eq not_less sum_list_nonneg split: if_splits)
  show "0 < bd_providerCostRial b" "0 \<le> bd_totalMarkupRial b"
    "0 \<le> bd_parchinRial b" "0 \<le> bd_addonsRial b"
    using v mk ad eqs by simp_all
  show "bd_providerMarkupRial b + bd_productMarkupRial b = bd_totalMarkupRial b"
    using mk(1) eqs by (simp flip: distrib_right)
  show sub: "bd_subtotalBeforeDiscountRial b =
        bd_providerCostRial b + bd_totalMarkupRial b + bd_parchinRial b + bd_addonsRial b"
    using eqs by (simp add: distrib_right)
  have "0 \<le> req" and "0 \<le> bd_subtotalBeforeDiscountRial b"
    using st(5) by (auto dest: multiplyBpsRoundUp_Inr)
  then show "0 \<le> bd_discountRial b"
    using eqs(1) maximumAllowedDiscount_nonneg [OF st(6)] by simp
  show "bd_discountRial b \<le> bd_requestedDiscountRial b"
    "bd_discountRial b \<le> bd_maximumAllowedDiscountRial b" using eqs by simp_all
  show "bd_requestedDiscountRial b \<le> bd_subtotalBeforeDiscountRial b"
    using multiplyBpsRoundUp_le_amount [OF st(5)] resolveTermDiscountBps_range [OF st(4)] eqs by simp
qed

text \<open>The infrastructure part of the floor recovers the provider cost at the protected margin.\<close>

lemma protectedFloor_covers:
  assumes "0 \<le> p" and "0 < k" and "k < 10000" and "0 < m"
  shows "p * m * 10000 \<le> (protectedFloor p k m pa ad - pa - ad) * (10000 - k)"
proof -
  let ?keep = "10000 - k" and ?f = "(p * 10000 + (10000 - k) - 1) div (10000 - k)"
  have "p * 10000 \<le> ?f * ?keep" using assms by (intro ceil_div_upper) simp
  then have "p * 10000 * m \<le> ?f * ?keep * m" using assms(4) by (simp add: mult_right_mono)
  moreover have "protectedFloor p k m pa ad - pa - ad = ?f * m"
    using assms by (simp add: protectedFloor_def BPS_DENOMINATOR_def)
  ultimately show ?thesis by (simp add: algebra_simps)
qed

text \<open>C31: the quote adds up. The amounts of the line items of a price breakdown sum to the final
  price the customer pays; the provider and product parts of the markup sum to the markup; and the
  subtotal is provider cost, markup, Parchin and add-ons.\<close>

theorem line_items_sum_to_final_price:
  assumes "computeCommercialPriceBreakdown i = Inr b"
  shows "sum_list (map li_amountIrr (bd_lineItems b)) = bd_finalPriceRial b
    \<and> bd_providerMarkupRial b + bd_productMarkupRial b = bd_totalMarkupRial b
    \<and> bd_subtotalBeforeDiscountRial b =
        bd_providerCostRial b + bd_totalMarkupRial b + bd_parchinRial b + bd_addonsRial b"
proof -
  have "sum_list (map li_amountIrr (bd_lineItems b)) = bd_finalPriceRial b"
    using assms
  proof (rule computeCommercialPriceBreakdown_Inr, goal_cases)
    case (1 m k tot prv prd ad dbps src req mx tax rtax)
    have "sum_list (map li_amountIrr (bd_lineItems b)) =
        bd_providerCostRial b + bd_totalMarkupRial b + bd_parchinRial b
        + sum_list (map (\<lambda>a. a * m) (providerAddons i)) - bd_discountRial b + tax"
      using 1 breakdown_amounts(7) [OF assms] by (simp add: quoteLines_sum)
    also have "sum_list (map (\<lambda>a. a * m) (providerAddons i)) = bd_addonsRial b"
      using 1 by (auto simp: monthlyAddons_eq sum_list_mult_const_int split: if_splits)
    finally show ?case using 1 breakdown_amounts(6) [OF assms] by simp
  qed
  then show ?thesis using breakdown_amounts(5,6) [OF assms] by simp
qed

definition sample_pricing_input :: CommercialPricingInput where
  "sample_pricing_input =
     \<lparr>providerMonthlyPriceIrr = 1000001, providerMarkupBps = 4286, productMarkupBps = 100,
      parchinLevel = PARCHIN_START, parchinPriceIrr = 50000, providerAddons = [3000, 7],
      taxBps = 1000, termMonths = Some 12, couponDiscountBps = Some 9000,
      minimumPostDiscountGrossMarginBps = Some 2000, infrastructureSaleRialOverride = None\<rparr>"

lemmas pricing_eval = computeCommercialPriceBreakdown_def validatePricingInput_def
  assertIntegerBps_def isBillingTermMonths_def monthlyMarkup_def multiplyBpsRoundUp_def
  BPS_DENOMINATOR_def monthlyAddons_def resolveTermDiscountBps_def maximumAllowedDiscount_def
  protectedFloor_def quoteLines_def guardE_def Let_def

lemma sample_pricing_ok: "isOk (computeCommercialPriceBreakdown sample_pricing_input)"
  by (simp add: pricing_eval sample_pricing_input_def)

theorem line_items_sum_to_final_price_witness:
  "\<exists>b. computeCommercialPriceBreakdown sample_pricing_input = Inr b
    \<and> sum_list (map li_amountIrr (bd_lineItems b)) = bd_finalPriceRial b"
  using sample_pricing_ok line_items_sum_to_final_price [of sample_pricing_input]
  by (auto simp: isOk_iff)

text \<open>C32: the discount never eats the protected margin. When a minimum post-discount gross margin is
  configured and any discount is applied, what remains of the price after Parchin and add-ons still
  recovers the provider cost at that margin: cost over infrastructure revenue is at most one minus the
  margin. The discount is never larger than the one requested.\<close>

theorem discount_respects_margin_floor:
  assumes "computeCommercialPriceBreakdown i = Inr b"
    and "minimumPostDiscountGrossMarginBps i = Some k" and "0 < k" and "0 < bd_discountRial b"
  shows "bd_providerCostRial b * 10000
      \<le> (bd_taxableRial b - bd_parchinRial b - bd_addonsRial b) * (10000 - k)
    \<and> bd_discountRial b \<le> bd_requestedDiscountRial b"
proof -
  have "bd_providerCostRial b * 10000
      \<le> (bd_taxableRial b - bd_parchinRial b - bd_addonsRial b) * (10000 - k)"
    using assms(1)
  proof (rule computeCommercialPriceBreakdown_Inr, goal_cases)
    case (1 m kk tot prv prd ad dbps src req mx tax rtax)
    let ?floor = "protectedFloor (providerMonthlyPriceIrr i) k m (bd_parchinRial b) (bd_addonsRial b)"
    have v: "0 < providerMonthlyPriceIrr i" "0 < m"
      using 1(1) by (auto simp: validatePricingInput_eq_Inr isBillingTermMonths_pos)
    have k: "k < 10000" and mx: "mx = (if bd_subtotalBeforeDiscountRial b > ?floor
        then bd_subtotalBeforeDiscountRial b - ?floor else 0)"
      using 1(6) assms(2,3) by (auto simp: maximumAllowedDiscount_def Let_def split: if_splits)
    have "bd_discountRial b \<le> mx" using 1(7) by simp
    then have "?floor \<le> bd_taxableRial b" using mx assms(4) 1(8) by (auto split: if_splits)
    then have above: "(?floor - bd_parchinRial b - bd_addonsRial b) * (10000 - k)
        \<le> (bd_taxableRial b - bd_parchinRial b - bd_addonsRial b) * (10000 - k)"
      using k by (intro mult_right_mono) simp_all
    have "providerMonthlyPriceIrr i * m * 10000
        \<le> (?floor - bd_parchinRial b - bd_addonsRial b) * (10000 - k)"
      using v k assms(3) by (intro protectedFloor_covers) simp_all
    with above show ?case unfolding 1(13) by (rule order_trans [rotated])
  qed
  then show ?thesis using breakdown_amounts(8) [OF assms(1)] by simp
qed

theorem discount_respects_margin_floor_witness:
  "\<exists>b. computeCommercialPriceBreakdown sample_pricing_input = Inr b \<and> 0 < bd_discountRial b
    \<and> bd_providerCostRial b * 10000
      \<le> (bd_taxableRial b - bd_parchinRial b - bd_addonsRial b) * (10000 - 2000)"
proof -
  obtain b where b: "computeCommercialPriceBreakdown sample_pricing_input = Inr b"
    using sample_pricing_ok by (auto simp: isOk_iff)
  have "0 < bd_discountRial b"
    using b by (auto simp: pricing_eval sample_pricing_input_def)
  with b show ?thesis
    using discount_respects_margin_floor [OF b, of 2000] by (simp add: sample_pricing_input_def)
qed

definition priceable :: "CommercialPricingInput \<Rightarrow> bool" where
  "priceable i \<longleftrightarrow>
     0 < providerMonthlyPriceIrr i \<and> 0 \<le> parchinPriceIrr i \<and>
     0 \<le> providerMarkupBps i \<and> 0 \<le> productMarkupBps i \<and>
     providerMarkupBps i + productMarkupBps i \<le> 100000 \<and>
     0 \<le> taxBps i \<and> taxBps i \<le> 10000 \<and>
     isBillingTermMonths (case termMonths i of None \<Rightarrow> 1 | Some t \<Rightarrow> t) \<and>
     (case infrastructureSaleRialOverride i of None \<Rightarrow> True | Some s \<Rightarrow> providerMonthlyPriceIrr i < s) \<and>
     list_all (\<lambda>a. 0 \<le> a) (providerAddons i) \<and>
     (case couponDiscountBps i of None \<Rightarrow> True | Some c \<Rightarrow> c \<le> 10000) \<and>
     (case minimumPostDiscountGrossMarginBps i of None \<Rightarrow> True | Some k \<Rightarrow> 0 \<le> k \<and> k < 10000)"

lemma monthlyMarkup_ok_iff:
  assumes "0 < providerMonthlyPriceIrr i" and "0 \<le> providerMarkupBps i" and "0 \<le> productMarkupBps i"
    and "k = providerMarkupBps i + productMarkupBps i" and "k \<le> 100000"
  shows "isOk (monthlyMarkup i k) \<longleftrightarrow>
    (case infrastructureSaleRialOverride i of None \<Rightarrow> True | Some s \<Rightarrow> providerMonthlyPriceIrr i < s)"
  using assms multiplyBpsRoundUp_ok_iff
  by (auto simp: monthlyMarkup_def isOk_bindE Let_def isOk_iff [symmetric] multiplyBpsRoundUp_divide
      engine_round.rnd_eq BPS_DENOMINATOR_def split: option.splits)

lemma maximumAllowedDiscount_ok_iff:
  "isOk (maximumAllowedDiscount p mo m pa ad tot) \<longleftrightarrow>
    (case mo of None \<Rightarrow> True | Some k \<Rightarrow> 0 \<le> k \<and> k < 10000)"
  by (auto simp: maximumAllowedDiscount_def Let_def split: option.splits)

lemma monthlyAddons_ok_iff: "isOk (monthlyAddons xs) \<longleftrightarrow> list_all (\<lambda>a. 0 \<le> a) xs"
  by (auto simp: monthlyAddons_eq list_all_iff not_le [symmetric] simp del: not_le)

lemma priceable_computes:
  assumes "priceable i"
  shows "isOk (computeCommercialPriceBreakdown i)"
proof -
  define m where "m = (case termMonths i of None \<Rightarrow> 1 | Some t \<Rightarrow> t)"
  define k where "k = providerMarkupBps i + productMarkupBps i"
  have p: "0 < providerMonthlyPriceIrr i" "0 \<le> parchinPriceIrr i" "0 \<le> providerMarkupBps i"
    "0 \<le> productMarkupBps i" "k \<le> 100000" "0 \<le> taxBps i" "taxBps i \<le> 10000" "0 < m"
    using assms by (auto simp: priceable_def m_def k_def intro: isBillingTermMonths_pos)
  have v: "validatePricingInput i = Inr (m, k)"
    using assms by (simp add: validatePricingInput_eq_Inr priceable_def m_def k_def)
  have "isOk (monthlyMarkup i k)"
    using assms p by (subst monthlyMarkup_ok_iff) (simp_all add: k_def priceable_def)
  then obtain tot prv prd where mk: "monthlyMarkup i k = Inr (tot, prv, prd)"
    by (auto simp: isOk_iff)
  have tot: "0 \<le> tot" using monthlyMarkup_Inr [OF mk k_def p(4)] by simp
  have "isOk (monthlyAddons (providerAddons i))"
    using assms by (simp add: monthlyAddons_ok_iff priceable_def)
  then obtain ad where ad: "monthlyAddons (providerAddons i) = Inr ad" "0 \<le> ad"
    by (auto simp: isOk_iff monthlyAddons_eq not_less sum_list_nonneg split: if_splits)
  have "isOk (resolveTermDiscountBps m (couponDiscountBps i))"
    using assms by (auto simp: resolveTermDiscountBps_ok_iff priceable_def split: option.splits)
  then obtain d src where d: "resolveTermDiscountBps m (couponDiscountBps i) = Inr (d, src)"
    by (auto simp: isOk_iff)
  let ?pretax = "providerMonthlyPriceIrr i + tot + parchinPriceIrr i + ad"
  have pre: "0 \<le> ?pretax" using p tot ad by simp
  have "isOk (multiplyBpsRoundUp (?pretax * m) d)"
    using resolveTermDiscountBps_range [OF d] pre p by (simp add: multiplyBpsRoundUp_ok_iff)
  then obtain req where req: "multiplyBpsRoundUp (?pretax * m) d = Inr req"
    by (auto simp: isOk_iff)
  have "isOk (maximumAllowedDiscount (providerMonthlyPriceIrr i) (minimumPostDiscountGrossMarginBps i)
      m (parchinPriceIrr i * m) (ad * m) (?pretax * m))"
    using assms by (simp add: maximumAllowedDiscount_ok_iff priceable_def)
  then obtain mx where mx: "maximumAllowedDiscount (providerMonthlyPriceIrr i)
      (minimumPostDiscountGrossMarginBps i) m (parchinPriceIrr i * m) (ad * m) (?pretax * m) = Inr mx"
    by (auto simp: isOk_iff)
  have "req \<le> ?pretax * m"
    using multiplyBpsRoundUp_le_amount [OF req] resolveTermDiscountBps_range [OF d] by simp
  then have "isOk (multiplyBpsRoundUp (?pretax * m - (if req \<le> mx then req else mx)) (taxBps i))"
    using p by (simp add: multiplyBpsRoundUp_ok_iff)
  moreover have "isOk (multiplyBpsRoundUp ?pretax (taxBps i))"
    using p pre by (simp add: multiplyBpsRoundUp_ok_iff)
  ultimately show ?thesis
    using v mk ad d req mx
    by (simp add: computeCommercialPriceBreakdown_def isOk_bindE Let_def) (auto simp: isOk_iff)
qed

text \<open>Exactly which inputs are priced. The computation returns a breakdown if and only if the
  provider price is positive, Parchin and every add-on are non-negative, the markups are
  non-negative basis points with a sum of at most 100000, the tax is between 0 and 10000 basis
  points, the term is 1, 3, 6 or 12 months, a sale override exceeds the provider price, a coupon is at
  most 10000 basis points and the protected margin lies in [0, 10000); on every other input it throws.\<close>

theorem breakdown_succeeds_iff:
  "isOk (computeCommercialPriceBreakdown i) \<longleftrightarrow> priceable i"
proof
  assume "isOk (computeCommercialPriceBreakdown i)"
  then obtain b where b: "computeCommercialPriceBreakdown i = Inr b" by (auto simp: isOk_iff)
  from b show "priceable i"
  proof (rule computeCommercialPriceBreakdown_Inr, goal_cases)
    case (1 m k tot prv prd ad dbps src req mx tax rtax)
    have v: "0 < providerMonthlyPriceIrr i" "0 \<le> providerMarkupBps i" "0 \<le> productMarkupBps i"
      "k = providerMarkupBps i + productMarkupBps i" "k \<le> 100000"
      using 1(1) by (simp_all add: validatePricingInput_eq_Inr)
    have "list_all (\<lambda>a. 0 \<le> a) (providerAddons i)"
      using 1(3) monthlyAddons_ok_iff [of "providerAddons i"] by simp
    moreover have "\<forall>c. couponDiscountBps i = Some c \<longrightarrow> c \<le> 10000"
      using 1(4) resolveTermDiscountBps_ok_iff [of m "couponDiscountBps i"] by simp
    moreover note monthlyMarkup_ok_iff [OF v]
      maximumAllowedDiscount_ok_iff [of "providerMonthlyPriceIrr i"
        "minimumPostDiscountGrossMarginBps i" m "bd_parchinRial b" "bd_addonsRial b"
        "bd_subtotalBeforeDiscountRial b"]
    ultimately show ?case
      using 1(1,2,6) by (simp add: priceable_def validatePricingInput_eq_Inr split: option.splits)
  qed
next
  assume "priceable i"
  then show "isOk (computeCommercialPriceBreakdown i)" by (rule priceable_computes)
qed

text \<open>Margin and markup are inverse. Converting a gross margin to a markup and back, both with
  their rounding, returns the margin, for every margin up to 99 percent (above it the markup leaves
  the range the inverse accepts).\<close>

theorem margin_markup_roundtrip:
  assumes "0 \<le> g" and "g \<le> 9900"
  shows "bindE (grossMarginBpsToMarkupBps g) markupBpsToGrossMarginBps = Inr g"
proof (cases "g = 0")
  case True
  then show ?thesis
    by (simp add: grossMarginBpsToMarkupBps_def markupBpsToGrossMarginBps_def assertIntegerBps_def)
next
  case False
  define D where "D = 10000 - g"
  define k where "k = jsRoundDiv (g * 10000) D"
  have D: "100 \<le> D" "D < 10000" "g = 10000 - D" using assms False by (simp_all add: D_def)
  have b: "2 * (D * k) \<le> 20000 * g + D" "20000 * g < 2 * (D * k) + D"
    using jsRoundDiv_bounds [of D "g * 10000"] D by (simp_all add: k_def mult.assoc)
  have k0: "0 \<le> k" using assms D by (simp add: k_def jsRoundDiv_nonneg)
  have kmax: "k \<le> 1000000"
  proof (rule ccontr)
    assume "\<not> k \<le> 1000000"
    then have "D * 1000001 \<le> D * k" using D by (intro mult_left_mono) simp_all
    then show False using b D by linarith
  qed
  have kpos: "k \<noteq> 0" using b(2) D assms False by auto
  have Dk: "D * k = 10000 * k - g * k" by (simp add: D_def algebra_simps)
  have e: "g * (2 * (10000 + k)) = 20000 * g + 2 * (g * k)"
    "(g + 1) * (2 * (10000 + k)) = 20000 * g + 2 * (g * k) + 20000 + 2 * k"
    by (simp_all add: algebra_simps)
  have "jsRoundDiv (k * 10000) (10000 + k) = g"
  proof -
    have bounds: "g * (2 * (10000 + k)) \<le> 2 * (k * 10000) + (10000 + k)"
      "2 * (k * 10000) + (10000 + k) < (g + 1) * (2 * (10000 + k))"
      using b D Dk e k0 assms by linarith+
    show ?thesis
      unfolding jsRoundDiv_def
    proof (rule int_div_pos_eq [where r = "2 * (k * 10000) + (10000 + k) - g * (2 * (10000 + k))"])
    qed (use bounds in \<open>simp_all add: algebra_simps\<close>)
  qed
  moreover have "grossMarginBpsToMarkupBps g = Inr k"
    using assms False by (simp add: grossMarginBpsToMarkupBps_def k_def D_def)
  ultimately show ?thesis
    using k0 kmax kpos
    by (simp add: markupBpsToGrossMarginBps_def assertIntegerBps_def)
qed

theorem margin_markup_roundtrip_witness:
  "bindE (grossMarginBpsToMarkupBps 3000) markupBpsToGrossMarginBps = Inr 3000"
  by (rule margin_markup_roundtrip) simp_all

end
