(* ===== verification/ProfitCurve.thy ===== *)
theory ProfitCurve
  imports CommercialEngine
begin

text \<open>
  The tiered profit curve of \<open>src/lib/pricing/profit-curve.ts\<close> and its application in
  \<open>profit-curve-apply.ts\<close>: bands of target gross margins over the provider cost, transitions that
  hold the sale price constant after each downward margin step, the resolution of a cost, and the
  two validators an administrator's publication passes. Issues are their codes (messages and details
  are display text); \<open>Number(bigint)\<close> conversions are exact in the model.
\<close>

section \<open>Configuration\<close>

definition TOMAN_TO_RIAL :: int where "TOMAN_TO_RIAL = 10"
definition DEFAULT_MINIMUM_POST_DISCOUNT_GROSS_MARGIN_BPS :: int where
  "DEFAULT_MINIMUM_POST_DISCOUNT_GROSS_MARGIN_BPS = 2000"
definition PROFIT_CURVE_MIN_MARGIN_BPS :: int where "PROFIT_CURVE_MIN_MARGIN_BPS = 1000"
definition PROFIT_CURVE_MAX_MARGIN_BPS :: int where "PROFIT_CURVE_MAX_MARGIN_BPS = 7500"
definition PROFIT_CURVE_REQUIRED_BAND_COUNT :: nat where "PROFIT_CURVE_REQUIRED_BAND_COUNT = 5"

record ProfitCurveBandInput =
  band_id :: "string option"
  sortOrder :: int
  minProviderCostRial :: int
  maxProviderCostRial :: "int option"
  targetGrossMarginBps :: int

record ProfitCurveConfigInput =
  pc_enabled :: bool
  pc_minimumPostDiscountGrossMarginBps :: int
  pc_bands :: "ProfitCurveBandInput list"

record ProfitCurveTransition =
  bandIndex :: nat
  boundaryRial :: int
  previousMarginBps :: int
  nextMarginBps :: int
  boundarySaleRial :: int
  transitionEndRial :: int

record ProfitCurveResolution =
  rs_targetGrossMarginBps :: int
  rs_effectiveGrossMarginBps :: int
  rs_effectiveMarkupBps :: int
  rs_bandId :: "string option \<times> nat" \<comment> \<open>the band's own id, or its position for the default id\<close>
  rs_bandIndex :: nat
  rs_transition :: bool
  rs_transitionStartRial :: "int option"
  rs_transitionEndRial :: "int option"
  rs_infrastructureSaleRial :: int

definition defaultProfitCurveBands :: "ProfitCurveBandInput list" where
  "defaultProfitCurveBands =
     [\<lparr>band_id = Some ''band-0-5m'', sortOrder = 0, minProviderCostRial = 0,
       maxProviderCostRial = Some (5000000 * TOMAN_TO_RIAL), targetGrossMarginBps = 7000\<rparr>,
      \<lparr>band_id = Some ''band-5-10m'', sortOrder = 1, minProviderCostRial = 5000000 * TOMAN_TO_RIAL,
       maxProviderCostRial = Some (10000000 * TOMAN_TO_RIAL), targetGrossMarginBps = 6000\<rparr>,
      \<lparr>band_id = Some ''band-10-15m'', sortOrder = 2, minProviderCostRial = 10000000 * TOMAN_TO_RIAL,
       maxProviderCostRial = Some (15000000 * TOMAN_TO_RIAL), targetGrossMarginBps = 5000\<rparr>,
      \<lparr>band_id = Some ''band-15-25m'', sortOrder = 3, minProviderCostRial = 15000000 * TOMAN_TO_RIAL,
       maxProviderCostRial = Some (25000000 * TOMAN_TO_RIAL), targetGrossMarginBps = 4000\<rparr>,
      \<lparr>band_id = Some ''band-25m-plus'', sortOrder = 4, minProviderCostRial = 25000000 * TOMAN_TO_RIAL,
       maxProviderCostRial = None, targetGrossMarginBps = 3000\<rparr>]"

definition defaultProfitCurveConfig :: ProfitCurveConfigInput where
  "defaultProfitCurveConfig =
     \<lparr>pc_enabled = True,
      pc_minimumPostDiscountGrossMarginBps = DEFAULT_MINIMUM_POST_DISCOUNT_GROSS_MARGIN_BPS,
      pc_bands = defaultProfitCurveBands\<rparr>"

section \<open>Sale prices at a margin and transitions\<close>

definition infrastructureSaleFromMargin :: "int \<Rightarrow> int \<Rightarrow> string + int" where
  "infrastructureSaleFromMargin cost margin =
     (if cost < 0 then Inl ''invalid_provider_cost''
      else if cost = 0 then Inr 0
      else bindE (grossMarginBpsToMarkupBps margin) (\<lambda>markupBps.
           bindE (multiplyBpsRoundUp cost markupBps) (\<lambda>markup. Inr (cost + markup))))"

definition boundarySaleFloor :: "int \<Rightarrow> int \<Rightarrow> string + int" where
  "boundarySaleFloor boundaryCost previousMargin =
     (if boundaryCost \<le> 0 then Inl ''invalid_boundary_cost''
      else let keep = 10000 - previousMargin
           in if keep \<le> 0 then Inl ''invalid_margin''
              else Inr ((boundaryCost * BPS_DENOMINATOR) sdiv keep))"

definition computeBoundarySaleRial :: "int \<Rightarrow> int \<Rightarrow> string + int" where
  "computeBoundarySaleRial boundaryCost previousMargin =
     bindE (boundarySaleFloor boundaryCost previousMargin) (\<lambda>floorSale.
     bindE (infrastructureSaleFromMargin boundaryCost previousMargin) (\<lambda>engineAtBoundary.
     bindE (if boundaryCost > 1 then infrastructureSaleFromMargin (boundaryCost - 1) previousMargin
            else Inr 0) (\<lambda>engineBefore.
     let held = floorSale;
         held = (if engineAtBoundary > held then engineAtBoundary else held);
         held = (if engineBefore > held then engineBefore else held)
     in Inr held)))"

text \<open>The bounded upward nudge: at most \<open>n\<close> further rials.\<close>

fun nudgeTransitionEnd :: "nat \<Rightarrow> int \<Rightarrow> int \<Rightarrow> int \<Rightarrow> string + int" where
  "nudgeTransitionEnd 0 endC margin sale = Inr endC"
| "nudgeTransitionEnd (Suc n) endC margin sale =
     bindE (infrastructureSaleFromMargin endC margin) (\<lambda>s.
     if s \<ge> sale then Inr endC else nudgeTransitionEnd n (endC + 1) margin sale)"

definition TRANSITION_GUARD :: nat where "TRANSITION_GUARD = 64"

definition computeTransitionEndRial :: "int \<Rightarrow> int \<Rightarrow> int \<Rightarrow> int option \<Rightarrow> string + int" where
  "computeTransitionEndRial boundaryCost previousMargin nextMargin boundarySaleOpt =
     (if nextMargin > previousMargin then Inl ''invalid_transition_margins''
      else if nextMargin = previousMargin then Inr boundaryCost
      else let keepPrev = 10000 - previousMargin; keepNext = 10000 - nextMargin
           in if keepPrev = 0 then Inl ''Division by zero''
              else let geometric = (boundaryCost * keepNext) sdiv keepPrev
                   in bindE (case boundarySaleOpt of Some s \<Rightarrow> Inr s
                             | None \<Rightarrow> computeBoundarySaleRial boundaryCost previousMargin) (\<lambda>boundarySale.
                      nudgeTransitionEnd TRANSITION_GUARD
                        (if geometric < boundaryCost then boundaryCost else geometric)
                        nextMargin boundarySale))"

text \<open>\<open>sort((a, b) => a.sortOrder - b.sortOrder)\<close> is stable.\<close>

definition sortBands :: "ProfitCurveBandInput list \<Rightarrow> ProfitCurveBandInput list" where
  "sortBands bands = sort_key sortOrder bands"

definition transitionBetween ::
  "nat \<Rightarrow> ProfitCurveBandInput \<Rightarrow> ProfitCurveBandInput \<Rightarrow> string + ProfitCurveTransition list" where
  "transitionBetween i prev nxt =
     (let boundary = minProviderCostRial nxt;
          m1 = targetGrossMarginBps prev; m2 = targetGrossMarginBps nxt
      in if m2 > m1 then Inl ''ascending_margins''
         else if m2 = m1 then Inr []
         else bindE (computeBoundarySaleRial boundary m1) (\<lambda>boundarySale.
              bindE (computeTransitionEndRial boundary m1 m2 (Some boundarySale)) (\<lambda>transitionEnd.
              Inr [\<lparr>bandIndex = i, boundaryRial = boundary, previousMarginBps = m1,
                    nextMarginBps = m2, boundarySaleRial = boundarySale,
                    transitionEndRial = transitionEnd\<rparr>])))"

fun transitionsFrom ::
  "nat \<Rightarrow> ProfitCurveBandInput list \<Rightarrow> string + ProfitCurveTransition list" where
  "transitionsFrom i (prev # nxt # rest) =
     bindE (transitionBetween i prev nxt) (\<lambda>t.
     bindE (transitionsFrom (Suc i) (nxt # rest)) (\<lambda>ts. Inr (t @ ts)))"
| "transitionsFrom i _ = Inr []"

definition deriveProfitCurveTransitions ::
  "ProfitCurveBandInput list \<Rightarrow> string + ProfitCurveTransition list" where
  "deriveProfitCurveTransitions bands = transitionsFrom 1 (sortBands bands)"

section \<open>Resolution of a cost\<close>

text \<open>The loop from the last band down; \<open>i\<close> bands are left to look at.\<close>

fun findBandFrom :: "ProfitCurveBandInput list \<Rightarrow> int \<Rightarrow> nat \<Rightarrow> nat" where
  "findBandFrom sortedBands cost 0 = 0"
| "findBandFrom sortedBands cost (Suc i) =
     (let band = sortedBands ! i
      in if cost \<ge> minProviderCostRial band \<and>
            (case maxProviderCostRial band of None \<Rightarrow> True
             | Some mx \<Rightarrow> cost < mx \<or> i = length sortedBands - 1)
         then i else findBandFrom sortedBands cost i)"

definition findBandIndex :: "ProfitCurveBandInput list \<Rightarrow> int \<Rightarrow> nat" where
  "findBandIndex bands cost =
     (let sortedBands = sortBands bands in findBandFrom sortedBands cost (length sortedBands))"

definition effectiveMarginDuringTransition :: "int \<Rightarrow> int \<Rightarrow> string + int" where
  "effectiveMarginDuringTransition cost boundarySale =
     (if boundarySale \<le> 0 \<or> cost < 0 then Inl ''invalid_transition_inputs''
      else if cost \<ge> boundarySale then Inl ''cost_exceeds_boundary_sale''
      else let profit = boundarySale - cost
           in Inr ((profit * BPS_DENOMINATOR + boundarySale sdiv 2) sdiv boundarySale))"

definition coversCost :: "int \<Rightarrow> ProfitCurveTransition \<Rightarrow> bool" where
  "coversCost cost t \<longleftrightarrow> cost \<ge> boundaryRial t \<and> cost < transitionEndRial t"

definition bandIdOf :: "ProfitCurveBandInput \<Rightarrow> nat \<Rightarrow> string option \<times> nat" where
  "bandIdOf band index = (band_id band, index)"

definition resolveProfitCurve ::
  "int \<Rightarrow> ProfitCurveBandInput list \<Rightarrow> string + ProfitCurveResolution" where
  "resolveProfitCurve cost bands =
     bindE (guardE (\<not> cost < 0) ''invalid_provider_cost'') (\<lambda>_.
     bindE (guardE (bands \<noteq> []) ''empty_profit_curve'') (\<lambda>_.
     let sortedBands = sortBands bands in
     bindE (deriveProfitCurveTransitions sortedBands) (\<lambda>transitions.
     let index = findBandIndex sortedBands cost; band = sortedBands ! index;
         target = targetGrossMarginBps band
     in case List.find (coversCost cost) transitions of
          Some active \<Rightarrow>
            bindE (effectiveMarginDuringTransition cost (boundarySaleRial active)) (\<lambda>effective.
            let sale = boundarySaleRial active; desired = sale - cost in
            bindE (if cost > 0 \<and> desired > 0
                   then Inr ((desired * BPS_DENOMINATOR + cost - 1) sdiv cost)
                   else grossMarginBpsToMarkupBps (min (max effective 0) 9999)) (\<lambda>markup.
            Inr \<lparr>rs_targetGrossMarginBps = nextMarginBps active,
                 rs_effectiveGrossMarginBps = effective, rs_effectiveMarkupBps = markup,
                 rs_bandId = bandIdOf band index, rs_bandIndex = index, rs_transition = True,
                 rs_transitionStartRial = Some (boundaryRial active),
                 rs_transitionEndRial = Some (transitionEndRial active),
                 rs_infrastructureSaleRial = sale\<rparr>))
        | None \<Rightarrow>
            bindE (grossMarginBpsToMarkupBps target) (\<lambda>markup.
            bindE (infrastructureSaleFromMargin cost target) (\<lambda>sale.
            Inr \<lparr>rs_targetGrossMarginBps = target, rs_effectiveGrossMarginBps = target,
                 rs_effectiveMarkupBps = markup, rs_bandId = bandIdOf band index,
                 rs_bandIndex = index, rs_transition = False, rs_transitionStartRial = None,
                 rs_transitionEndRial = None, rs_infrastructureSaleRial = sale\<rparr>)))))"

section \<open>Validators\<close>

definition marginOutOfBounds :: "int \<Rightarrow> bool" where
  "marginOutOfBounds m \<longleftrightarrow> m < PROFIT_CURVE_MIN_MARGIN_BPS \<or> m > PROFIT_CURVE_MAX_MARGIN_BPS"

text \<open>The per-band issues of the structural validator, with the previous band when there is one.\<close>

definition bandIssues :: "ProfitCurveBandInput option \<Rightarrow> ProfitCurveBandInput \<Rightarrow> string list" where
  "bandIssues prevOpt band =
     (if marginOutOfBounds (targetGrossMarginBps band) then [''margin_bounds''] else [])
     @ (if minProviderCostRial band < 0 then [''negative_threshold''] else [])
     @ (case maxProviderCostRial band of
          Some mx \<Rightarrow> if mx \<le> minProviderCostRial band then [''band_range''] else []
        | None \<Rightarrow> [])
     @ (case prevOpt of
          None \<Rightarrow> []
        | Some prev \<Rightarrow>
            (if minProviderCostRial band \<le> minProviderCostRial prev then [''thresholds_not_ascending''] else [])
            @ (case maxProviderCostRial prev of
                 Some pmx \<Rightarrow> if pmx \<noteq> minProviderCostRial band then [''band_gap_or_overlap''] else []
               | None \<Rightarrow> [])
            @ (if targetGrossMarginBps band > targetGrossMarginBps prev
               then [''margins_not_descending''] else []))"

fun bandsIssues :: "ProfitCurveBandInput option \<Rightarrow> ProfitCurveBandInput list \<Rightarrow> string list" where
  "bandsIssues prevOpt [] = []"
| "bandsIssues prevOpt (band # rest) = bandIssues prevOpt band @ bandsIssues (Some band) rest"

definition transitionIssues :: "ProfitCurveBandInput list \<Rightarrow> ProfitCurveTransition \<Rightarrow> string list" where
  "transitionIssues bands t =
     (if transitionEndRial t \<le> boundaryRial t then [''invalid_transition''] else [])
     @ (if bandIndex t + 1 < length bands \<and>
           transitionEndRial t \<ge> minProviderCostRial (bands ! (bandIndex t + 1))
        then [''transition_overlaps_next_boundary''] else [])
     @ (if boundarySaleRial t \<le> 0 \<or> transitionEndRial t \<le> 0 then [''non_positive_sale''] else [])"

definition validateProfitCurveStructure :: "ProfitCurveConfigInput \<Rightarrow> string list" where
  "validateProfitCurveStructure config =
     (let bands = sortBands (pc_bands config);
          head_issues =
            (if length bands \<noteq> PROFIT_CURVE_REQUIRED_BAND_COUNT then [''band_count''] else [])
            @ (if marginOutOfBounds (pc_minimumPostDiscountGrossMarginBps config)
               then [''discount_floor''] else [])
      in if bands = [] then head_issues
         else head_issues
            @ (if minProviderCostRial (hd bands) \<noteq> 0 then [''first_band_zero''] else [])
            @ (if maxProviderCostRial (last bands) \<noteq> None then [''final_band_unbounded''] else [])
            @ bandsIssues None bands
            @ (case deriveProfitCurveTransitions bands of
                 Inr ts \<Rightarrow> concat (map (transitionIssues bands) ts)
               | Inl e \<Rightarrow> [''transition_derive_failed'']))"

text \<open>
  The monotonicity validator samples the sale price at the critical points of the curve, at the given
  catalog costs and at \<open>synthetic\<close> evenly spaced costs, in ascending order.
\<close>

definition bandPoints :: "ProfitCurveBandInput \<Rightarrow> int list" where
  "bandPoints band =
     [minProviderCostRial band]
     @ (if minProviderCostRial band > 0 then [minProviderCostRial band - 1] else [])
     @ [minProviderCostRial band + 1]
     @ (case maxProviderCostRial band of Some mx \<Rightarrow> [mx, mx - 1] | None \<Rightarrow> [])"

definition transitionPoints :: "ProfitCurveTransition \<Rightarrow> int list" where
  "transitionPoints t =
     [boundaryRial t]
     @ (if boundaryRial t > 0 then [boundaryRial t - 1] else [])
     @ [boundaryRial t + 1, transitionEndRial t]
     @ (if transitionEndRial t > 0 then [transitionEndRial t - 1] else [])
     @ [transitionEndRial t + 1]"

definition syntheticPoint :: "int \<Rightarrow> nat \<Rightarrow> nat \<Rightarrow> int" where
  "syntheticPoint maxCost syntheticCount i =
     (let cost = (maxCost * int i) sdiv (int syntheticCount - 1) in if cost = 0 then 1 else cost)"

definition samplePoints ::
  "ProfitCurveBandInput list \<Rightarrow> ProfitCurveTransition list \<Rightarrow> int list \<Rightarrow> nat \<Rightarrow> int \<Rightarrow> int list" where
  "samplePoints sortedBands transitions catalog syntheticCount maxCost =
     sort (remdups (filter (\<lambda>v. 0 < v)
       (concat (map bandPoints sortedBands) @ concat (map transitionPoints transitions) @ catalog
        @ (if maxCost > 0 then map (syntheticPoint maxCost syntheticCount) [0..<syntheticCount] else []))))"

definition sampledSale :: "ProfitCurveBandInput list \<Rightarrow> int \<Rightarrow> string + int" where
  "sampledSale sortedBands cost =
     bindE (resolveProfitCurve cost sortedBands) (\<lambda>r.
     if rs_transition r then Inr (rs_infrastructureSaleRial r)
     else bindE (multiplyBpsRoundUp cost (rs_effectiveMarkupBps r)) (\<lambda>mk. Inr (cost + mk)))"

text \<open>The sampling loop; it stops once a monotonicity issue is the twenty-fifth or later issue.\<close>

fun monotonicityLoop ::
  "ProfitCurveBandInput list \<Rightarrow> int option \<Rightarrow> string list \<Rightarrow> int list \<Rightarrow> string + string list" where
  "monotonicityLoop sortedBands previousSale issues [] = Inr issues"
| "monotonicityLoop sortedBands previousSale issues (cost # rest) =
     bindE (sampledSale sortedBands cost) (\<lambda>sale.
     let issues = (if sale \<le> 0 then issues @ [''non_positive_sale''] else issues) in
     case previousSale of
       Some p \<Rightarrow>
         if sale < p then
           (let issues = issues @ [''sale_not_monotonic'']
            in if length issues \<ge> 25 then Inr issues
               else monotonicityLoop sortedBands (Some sale) issues rest)
         else monotonicityLoop sortedBands (Some sale) issues rest
     | None \<Rightarrow> monotonicityLoop sortedBands (Some sale) issues rest)"

definition validateProfitCurveMonotonicity ::
  "ProfitCurveBandInput list \<Rightarrow> int list \<Rightarrow> nat \<Rightarrow> int option \<Rightarrow> string + bool \<times> string list \<times> nat" where
  "validateProfitCurveMonotonicity bands catalog syntheticPoints maxCostRial =
     (let sortedBands = sortBands bands in
     bindE (deriveProfitCurveTransitions sortedBands) (\<lambda>transitions.
     bindE (case maxCostRial of
              Some m \<Rightarrow> Inr m
            | None \<Rightarrow> if sortedBands = [] then Inl ''TypeError''
                else Inr (if minProviderCostRial (last sortedBands) * 2 \<noteq> 0
                          then minProviderCostRial (last sortedBands) * 2
                          else 50000000 * TOMAN_TO_RIAL)) (\<lambda>maxCost.
     let ordered = samplePoints sortedBands transitions catalog (max syntheticPoints 2) maxCost in
     bindE (monotonicityLoop sortedBands None [] ordered) (\<lambda>issues.
     Inr (issues = [], issues, length ordered)))))"

section \<open>Facts on the definitions\<close>

lemma sortBands_idem [simp]: "sortBands (sortBands bs) = sortBands bs"
  by (simp add: sortBands_def sort_key_id_if_sorted)

lemma sortBands_eq_Nil [simp]: "sortBands bs = [] \<longleftrightarrow> bs = []"
  by (metis length_0_conv length_sort sortBands_def)

lemma bandsIssues_Nil_nth:
  assumes "bandsIssues p bs = []" and "i < length bs"
  shows "bandIssues (if i = 0 then p else Some (bs ! (i - 1))) (bs ! i) = []"
  using assms
proof (induction bs arbitrary: p i)
  case (Cons b bs)
  then show ?case
    using Cons.IH [of "Some b" "i - 1"] by (cases i) (auto simp: nth_Cons' split: if_splits)
qed simp

lemma transitionsFrom_mem:
  assumes "transitionsFrom k bs = Inr ts"
  shows "t \<in> set ts \<longleftrightarrow>
    (\<exists>j. Suc j < length bs \<and> transitionBetween (k + j) (bs ! j) (bs ! Suc j) = Inr [t])"
  using assms
proof (induction k bs arbitrary: ts rule: transitionsFrom.induct)
  case (1 i a b bs)
  from "1.prems" obtain u us where u: "transitionBetween i a b = Inr u"
    "transitionsFrom (Suc i) (b # bs) = Inr us" "ts = u @ us"
    by (auto simp: bindE_eq_Inr)
  have one: "t \<in> set u \<longleftrightarrow> u = [t]"
    using u(1) by (auto simp: transitionBetween_def Let_def bindE_eq_Inr split: if_splits)
  have "(\<exists>j. Suc j < length (a # b # bs) \<and>
      transitionBetween (i + j) ((a # b # bs) ! j) ((a # b # bs) ! Suc j) = Inr [t]) \<longleftrightarrow>
    transitionBetween i a b = Inr [t] \<or> (\<exists>j. Suc j < length (b # bs) \<and>
      transitionBetween (Suc i + j) ((b # bs) ! j) ((b # bs) ! Suc j) = Inr [t])"
    (is "?A \<longleftrightarrow> ?B")
  proof
    assume ?A
    then obtain j where "Suc j < length (a # b # bs)"
      "transitionBetween (i + j) ((a # b # bs) ! j) ((a # b # bs) ! Suc j) = Inr [t]" by blast
    then show ?B by (cases j) auto
  next
    assume ?B
    then show ?A by (elim disjE exE) (rule exI [of _ 0], simp, rule exI [of _ "Suc j" for j], simp)
  qed
  then show ?case using "1.IH" [OF u(2)] u one by auto
qed simp_all

lemma monotonicityLoop_length:
  "monotonicityLoop bs p iss xs = Inr r \<Longrightarrow> length iss \<le> length r"
proof (induction xs arbitrary: p iss)
  case (Cons x xs)
  from Cons.prems obtain s where s: "sampledSale bs x = Inr s"
    by (auto simp: bindE_eq_Inr)
  let ?iss = "if s \<le> 0 then iss @ [''non_positive_sale''] else iss"
  have "length ?iss \<le> length r"
    using Cons.prems s Cons.IH [of "Some s" ?iss] Cons.IH [of "Some s" "?iss @ [''sale_not_monotonic'']"]
    by (auto simp: Let_def split: option.split_asm if_split_asm)
  then show ?case by (simp split: if_split_asm)
qed simp

lemma monotonicityLoop_Nil:
  assumes "monotonicityLoop bs p iss xs = Inr []"
  shows "iss = [] \<and> (\<exists>ss. list_all2 (\<lambda>x s. sampledSale bs x = Inr s) xs ss
    \<and> sorted ((case p of None \<Rightarrow> [] | Some q \<Rightarrow> [q]) @ ss))"
  using assms
proof (induction xs arbitrary: p iss)
  case Nil
  then show ?case by (auto split: option.splits)
next
  case (Cons x xs)
  from Cons.prems obtain s where s: "sampledSale bs x = Inr s"
    by (auto simp: bindE_eq_Inr)
  let ?iss = "if s \<le> 0 then iss @ [''non_positive_sale''] else iss"
  have "monotonicityLoop bs (Some s) ?iss xs = Inr [] \<and> (\<forall>q. p = Some q \<longrightarrow> q \<le> s)"
    using Cons.prems s monotonicityLoop_length [of bs "Some s" "?iss @ [''sale_not_monotonic'']" xs "[]"]
    by (auto simp: Let_def split: option.splits if_splits)
  then show ?case using Cons.IH [of "Some s" ?iss] s
    by (fastforce split: option.splits if_splits intro!: exI [of _ "s # ss" for ss])
qed

lemma findBandFrom_spec:
  assumes "0 < length bs" and "minProviderCostRial (bs ! 0) \<le> c" and "n \<le> length bs"
    and link: "\<And>i mx. Suc i < length bs \<Longrightarrow> maxProviderCostRial (bs ! i) = Some mx \<Longrightarrow>
      mx = minProviderCostRial (bs ! Suc i)"
    and "\<And>j. n \<le> j \<Longrightarrow> j < length bs \<Longrightarrow> c < minProviderCostRial (bs ! j)"
  shows "findBandFrom bs c n < length bs \<and> minProviderCostRial (bs ! findBandFrom bs c n) \<le> c
    \<and> (\<forall>j. findBandFrom bs c n < j \<and> j < length bs \<longrightarrow> c < minProviderCostRial (bs ! j))"
  using assms(3,5)
proof (induction n)
  case 0
  then show ?case using assms(1,2) by force
next
  case (Suc n)
  show ?case
  proof (cases "minProviderCostRial (bs ! n) \<le> c")
    case True
    have "case maxProviderCostRial (bs ! n) of None \<Rightarrow> True
        | Some mx \<Rightarrow> c < mx \<or> n = length bs - 1"
      using link [of n] Suc.prems(1) Suc.prems(2) [of "Suc n"]
      by (cases "Suc n < length bs") (auto split: option.splits)
    with True have "findBandFrom bs c (Suc n) = n" by (simp add: Let_def)
    then show ?thesis using Suc.prems True by simp
  next
    case False
    then have "findBandFrom bs c (Suc n) = findBandFrom bs c n" by (simp add: Let_def)
    moreover have "\<And>j. n \<le> j \<Longrightarrow> j < length bs \<Longrightarrow> c < minProviderCostRial (bs ! j)"
      using False Suc.prems(2) by (metis Suc_leI le_neq_implies_less not_le)
    ultimately show ?thesis using Suc.IH Suc.prems(1) by simp
  qed
qed

section \<open>A validated curve\<close>

text \<open>What the structural validator establishes of the sorted bands and their transitions.\<close>

definition structured :: "ProfitCurveBandInput list \<Rightarrow> ProfitCurveTransition list \<Rightarrow> bool" where
  "structured bs ts \<longleftrightarrow>
     bs \<noteq> [] \<and> sortBands bs = bs \<and> minProviderCostRial (bs ! 0) = 0 \<and>
     (\<forall>i < length bs. 1000 \<le> targetGrossMarginBps (bs ! i) \<and> targetGrossMarginBps (bs ! i) \<le> 7500) \<and>
     (\<forall>i. Suc i < length bs \<longrightarrow>
        minProviderCostRial (bs ! i) < minProviderCostRial (bs ! Suc i) \<and>
        (\<forall>mx. maxProviderCostRial (bs ! i) = Some mx \<longrightarrow> mx = minProviderCostRial (bs ! Suc i))) \<and>
     deriveProfitCurveTransitions bs = Inr ts \<and> (\<forall>t \<in> set ts. transitionIssues bs t = [])"

lemma structure_valid:
  assumes "validateProfitCurveStructure cfg = []"
  obtains ts where "structured (sortBands (pc_bands cfg)) ts"
proof -
  define bs where "bs = sortBands (pc_bands cfg)"
  have ne: "bs \<noteq> []"
    using assms by (auto simp: validateProfitCurveStructure_def bs_def [symmetric] Let_def
        PROFIT_CURVE_REQUIRED_BAND_COUNT_def)
  from assms ne have issues: "minProviderCostRial (hd bs) = 0" "bandsIssues None bs = []"
    and der: "case deriveProfitCurveTransitions bs of
        Inr ts \<Rightarrow> concat (map (transitionIssues bs) ts) = [] | Inl e \<Rightarrow> False"
    by (auto simp: validateProfitCurveStructure_def bs_def [symmetric] Let_def
        split: if_split_asm sum.splits)
  from der obtain ts where ts: "deriveProfitCurveTransitions bs = Inr ts"
    "\<forall>t \<in> set ts. transitionIssues bs t = []"
    by (auto split: sum.splits)
  have "1000 \<le> targetGrossMarginBps (bs ! i) \<and> targetGrossMarginBps (bs ! i) \<le> 7500"
    if "i < length bs" for i
    using bandsIssues_Nil_nth [OF issues(2) that]
    by (auto simp: bandIssues_def marginOutOfBounds_def PROFIT_CURVE_MIN_MARGIN_BPS_def
        PROFIT_CURVE_MAX_MARGIN_BPS_def split: if_split_asm)
  moreover have "minProviderCostRial (bs ! i) < minProviderCostRial (bs ! Suc i) \<and>
      (\<forall>mx. maxProviderCostRial (bs ! i) = Some mx \<longrightarrow> mx = minProviderCostRial (bs ! Suc i))"
    if "Suc i < length bs" for i
    using bandsIssues_Nil_nth [OF issues(2) that]
    by (auto simp: bandIssues_def split: if_split_asm)
  ultimately have "structured bs ts"
    using ne issues(1) ts by (simp add: structured_def hd_conv_nth) (simp add: bs_def)
  then show ?thesis using that by (simp add: bs_def)
qed

lemma structured_min_mono:
  assumes "structured bs ts" and "i < j" and "j < length bs"
  shows "minProviderCostRial (bs ! i) < minProviderCostRial (bs ! j)"
  using assms(2,3)
proof (induction j)
  case (Suc j)
  have "minProviderCostRial (bs ! j) < minProviderCostRial (bs ! Suc j)"
    using assms(1) Suc.prems(2) by (simp add: structured_def)
  with Suc show ?case by (cases "i = j") auto
qed simp

lemma structured_band:
  assumes "structured bs ts" and "0 \<le> c"
  shows "findBandIndex bs c < length bs"
    and "minProviderCostRial (bs ! findBandIndex bs c) \<le> c"
    and "findBandIndex bs c < j \<Longrightarrow> j < length bs \<Longrightarrow> c < minProviderCostRial (bs ! j)"
  using findBandFrom_spec [of bs c "length bs"] assms
  by (auto simp: structured_def findBandIndex_def Let_def)

lemma structured_transition:
  assumes "structured bs ts" and "t \<in> set ts"
  shows "0 < bandIndex t" and "bandIndex t < length bs"
    and "boundaryRial t = minProviderCostRial (bs ! bandIndex t)"
    and "boundaryRial t < transitionEndRial t"
    and "Suc (bandIndex t) < length bs \<Longrightarrow>
      transitionEndRial t < minProviderCostRial (bs ! Suc (bandIndex t))"
proof -
  have "transitionsFrom 1 bs = Inr ts"
    using assms(1) by (auto simp: structured_def deriveProfitCurveTransitions_def)
  then obtain j where j: "Suc j < length bs" "transitionBetween (1 + j) (bs ! j) (bs ! Suc j) = Inr [t]"
    using assms(2) transitionsFrom_mem by blast
  then show "0 < bandIndex t" "bandIndex t < length bs"
    "boundaryRial t = minProviderCostRial (bs ! bandIndex t)"
    by (auto simp: transitionBetween_def Let_def bindE_eq_Inr split: if_split_asm)
  have "transitionIssues bs t = []" using assms by (simp add: structured_def)
  then show "boundaryRial t < transitionEndRial t"
    "Suc (bandIndex t) < length bs \<Longrightarrow> transitionEndRial t < minProviderCostRial (bs ! Suc (bandIndex t))"
    by (auto simp: transitionIssues_def split: if_split_asm)
qed

text \<open>Only the transition at the foot of the cost's own band can cover the cost.\<close>

lemma covering_transition_band:
  assumes "structured bs ts" and "t \<in> set ts" and "coversCost c t"
  shows "bandIndex t = findBandIndex bs c"
proof -
  note t = structured_transition [OF assms(1,2)]
  have c: "boundaryRial t \<le> c" "c < transitionEndRial t"
    using assms(3) by (simp_all add: coversCost_def)
  have "0 \<le> boundaryRial t"
    using structured_min_mono [OF assms(1) t(1,2)] t(3) assms(1) by (simp add: structured_def)
  then have c0: "0 \<le> c" using c(1) by simp
  note b = structured_band [OF assms(1) c0]
  have "\<not> findBandIndex bs c < bandIndex t" using b(3) [of "bandIndex t"] t(2,3) c(1) by auto
  moreover have "\<not> bandIndex t < findBandIndex bs c"
  proof
    assume less: "bandIndex t < findBandIndex bs c"
    then have "minProviderCostRial (bs ! Suc (bandIndex t)) \<le> minProviderCostRial (bs ! findBandIndex bs c)"
      using structured_min_mono [OF assms(1), of "Suc (bandIndex t)" "findBandIndex bs c"] b(1)
      by (cases "Suc (bandIndex t) = findBandIndex bs c") auto
    then show False using t(5) less b(1,2) c(2) by auto
  qed
  ultimately show ?thesis by simp
qed

lemma structured_transition_unique:
  assumes "structured bs ts" and "t \<in> set ts" and "u \<in> set ts" and "bandIndex t = bandIndex u"
  shows "t = u"
proof -
  have ts: "transitionsFrom 1 bs = Inr ts"
    using assms(1) by (auto simp: structured_def deriveProfitCurveTransitions_def)
  have idx: "bandIndex v = 1 + j" if "transitionBetween (1 + j) x y = Inr [v]" for v j x y
    using that by (auto simp: transitionBetween_def Let_def bindE_eq_Inr split: if_split_asm)
  obtain i where i: "transitionBetween (1 + i) (bs ! i) (bs ! Suc i) = Inr [t]"
    using assms(2) transitionsFrom_mem [OF ts] by blast
  obtain j where j: "transitionBetween (1 + j) (bs ! j) (bs ! Suc j) = Inr [u]"
    using assms(3) transitionsFrom_mem [OF ts] by blast
  have "i = j" using idx [OF i] idx [OF j] assms(4) by simp
  with i j show ?thesis by simp
qed

text \<open>Within the validated margins the engine's sale is total and monotone in the cost.\<close>

definition engineSale :: "int \<Rightarrow> int \<Rightarrow> int" where
  "engineSale k c = c + (c * k + 9999) div 10000"

lemma engineSale_mono: "0 \<le> k \<Longrightarrow> c \<le> d \<Longrightarrow> engineSale k c \<le> engineSale k d"
  unfolding engineSale_def by (intro add_mono zdiv_mono1) (simp_all add: mult_right_mono)

lemma engineSale_above: "0 < k \<Longrightarrow> 0 < c \<Longrightarrow> c < engineSale k c"
proof -
  assume "0 < k" and "0 < c"
  then have "0 < c * k" by simp
  then have "1 \<le> c * k" by linarith
  then have "1 \<le> (c * k + 9999) div 10000" by simp
  then show ?thesis by (simp add: engineSale_def)
qed

lemma margin_markup_range:
  assumes "1000 \<le> m" and "m \<le> 7500"
  obtains k where "grossMarginBpsToMarkupBps m = Inr k" and "0 < k" and "k \<le> 30001"
proof -
  let ?k = "jsRoundDiv (m * 10000) (10000 - m)"
  have b: "2 * (10000 - m) * ?k \<le> 2 * (m * 10000) + (10000 - m)"
    "2 * (m * 10000) < 2 * (10000 - m) * ?k + (10000 - m)"
    using jsRoundDiv_bounds [of "10000 - m" "m * 10000"] assms by simp_all
  have "0 < ?k"
  proof (rule ccontr)
    assume "\<not> 0 < ?k"
    then have "2 * (10000 - m) * ?k \<le> 0" using assms by (simp add: mult_le_0_iff)
    with b(2) assms show False by linarith
  qed
  moreover have "?k \<le> 30001"
  proof (rule ccontr)
    assume "\<not> ?k \<le> 30001"
    then have "2 * (10000 - m) * 30001 \<le> 2 * (10000 - m) * ?k"
      using assms by (intro mult_left_mono) simp_all
    with b(1) assms show False by (simp add: algebra_simps)
  qed
  moreover have "grossMarginBpsToMarkupBps m = Inr ?k"
    using assms by (simp add: grossMarginBpsToMarkupBps_def)
  ultimately show ?thesis by (rule that [rotated])
qed

lemma multiplyBpsRoundUp_engineSale:
  assumes "0 \<le> c" and "0 < k" and "k \<le> 30001"
  shows "multiplyBpsRoundUp c k = Inr (engineSale k c - c)"
proof -
  have "0 \<le> c * k" using assms by simp
  then show ?thesis using assms
    by (simp add: multiplyBpsRoundUp_divide engine_round.rnd_eq BPS_DENOMINATOR_def engineSale_def)
qed

lemma infrastructureSale_engineSale:
  assumes "grossMarginBpsToMarkupBps m = Inr k" and "0 < k" and "k \<le> 30001" and "0 \<le> c"
  shows "infrastructureSaleFromMargin c m = Inr (engineSale k c)"
  using assms by (cases "c = 0")
    (simp_all add: infrastructureSaleFromMargin_def multiplyBpsRoundUp_engineSale engineSale_def)

section \<open>Resolution on a validated curve\<close>

definition saleAt :: "ProfitCurveBandInput list \<Rightarrow> int \<Rightarrow> string + int" where
  "saleAt bs c = bindE (resolveProfitCurve c bs) (\<lambda>r. Inr (rs_infrastructureSaleRial r))"

lemma saleAt_sortBands: "saleAt bs c = saleAt (sortBands bs) c"
  by (simp add: saleAt_def resolveProfitCurve_def)

lemma saleAt_active:
  assumes "structured bs ts" and "0 < c" and "List.find (coversCost c) ts = Some t"
  shows "saleAt bs c = (if c < boundarySaleRial t then Inr (boundarySaleRial t)
    else if boundarySaleRial t \<le> 0 then Inl ''invalid_transition_inputs'' else Inl ''cost_exceeds_boundary_sale'')"
  using assms
  by (auto simp: saleAt_def resolveProfitCurve_def structured_def Let_def bindE_guardE
      effectiveMarginDuringTransition_def)

lemma saleAt_plain:
  assumes "structured bs ts" and "0 \<le> c" and "List.find (coversCost c) ts = None"
    and "grossMarginBpsToMarkupBps (targetGrossMarginBps (bs ! findBandIndex bs c)) = Inr k"
    and "0 < k" and "k \<le> 30001"
  shows "saleAt bs c = Inr (engineSale k c)"
  using assms infrastructureSale_engineSale [OF assms(4-6,2)]
  by (simp add: saleAt_def resolveProfitCurve_def structured_def Let_def bindE_guardE)

lemma sampledSale_saleAt:
  assumes "structured bs ts" and "0 < c"
  shows "sampledSale bs c = saleAt bs c"
proof (cases "List.find (coversCost c) ts")
  case None
  have "1000 \<le> targetGrossMarginBps (bs ! findBandIndex bs c)"
    "targetGrossMarginBps (bs ! findBandIndex bs c) \<le> 7500"
    using structured_band(1) [of bs ts c] assms by (simp_all add: structured_def)
  then obtain k where k: "grossMarginBpsToMarkupBps (targetGrossMarginBps (bs ! findBandIndex bs c)) = Inr k"
    "0 < k" "k \<le> 30001" by (rule margin_markup_range)
  then show ?thesis
    using assms None saleAt_plain [OF assms(1) _ None k] infrastructureSale_engineSale [OF k, of c]
      multiplyBpsRoundUp_engineSale [of c k]
    by (simp add: sampledSale_def resolveProfitCurve_def structured_def Let_def bindE_guardE)
next
  case (Some t)
  then show ?thesis
    using assms by (auto simp: sampledSale_def saleAt_def resolveProfitCurve_def structured_def
        Let_def bindE_guardE bindE_def split: sum.splits)
qed

section \<open>From the sample to every cost\<close>

text \<open>The sampled costs that matter: both sides of each band start and of each transition end.\<close>

definition sampledMonotone :: "ProfitCurveBandInput list \<Rightarrow> int list \<Rightarrow> bool" where
  "sampledMonotone bs xs \<longleftrightarrow>
     (\<forall>a \<in> set xs. \<forall>b \<in> set xs. a \<le> b \<longrightarrow>
        (\<exists>s u. sampledSale bs a = Inr s \<and> sampledSale bs b = Inr u \<and> s \<le> u))"

lemma monotonicity_sample:
  assumes "validateProfitCurveMonotonicity bands catalog n mx = Inr (True, iss, k)"
    and "deriveProfitCurveTransitions (sortBands bands) = Inr ts"
  obtains m where
    "sampledMonotone (sortBands bands) (samplePoints (sortBands bands) ts catalog (max n 2) m)"
proof -
  from assms obtain m where m:
    "monotonicityLoop (sortBands bands) None [] (samplePoints (sortBands bands) ts catalog (max n 2) m) = Inr []"
    by (auto simp: validateProfitCurveMonotonicity_def Let_def bindE_eq_Inr)
  define xs where "xs = samplePoints (sortBands bands) ts catalog (max n 2) m"
  from monotonicityLoop_Nil [OF m] obtain ss where
    ss: "list_all2 (\<lambda>x s. sampledSale (sortBands bands) x = Inr s) xs ss" "sorted ss"
    by (auto simp: xs_def)
  have xs: "sorted xs" "distinct xs" by (simp_all add: xs_def samplePoints_def)
  have le: "\<exists>s u. sampledSale (sortBands bands) a = Inr s \<and> sampledSale (sortBands bands) b = Inr u \<and> s \<le> u"
    if ab: "a \<in> set xs" "b \<in> set xs" "a \<le> b" for a b
  proof -
    obtain i j where ij: "i < length xs" "a = xs ! i" "j < length xs" "b = xs ! j"
      using ab(1,2) by (auto simp: in_set_conv_nth)
    have "i \<le> j"
    proof (rule ccontr)
      assume "\<not> i \<le> j"
      then have "j < i" by simp
      then have "b < a" using xs ij by (metis nth_eq_iff_index_eq order_less_le sorted_nth_mono less_imp_le)
      with ab(3) show False by simp
    qed
    then have "ss ! i \<le> ss ! j" using ss ij by (intro sorted_nth_mono) (auto dest: list_all2_lengthD)
    then show ?thesis using ss(1) ij list_all2_nthD by blast
  qed
  then show ?thesis using that [of m] by (auto simp: sampledMonotone_def xs_def [symmetric])
qed

lemma samplePoints_band:
  assumes "b \<in> set bs" and "0 < minProviderCostRial b - 1"
  shows "minProviderCostRial b \<in> set (samplePoints bs ts cat n m)"
    and "minProviderCostRial b - 1 \<in> set (samplePoints bs ts cat n m)"
  using assms by (auto simp: samplePoints_def bandPoints_def)

lemma samplePoints_transition:
  assumes "t \<in> set ts" and "0 < transitionEndRial t - 1"
  shows "transitionEndRial t \<in> set (samplePoints bs ts cat n m)"
    and "transitionEndRial t - 1 \<in> set (samplePoints bs ts cat n m)"
  using assms by (auto simp: samplePoints_def transitionPoints_def)

lemma structured_markup:
  assumes "structured bs ts" and "0 \<le> c"
  obtains k where "grossMarginBpsToMarkupBps (targetGrossMarginBps (bs ! findBandIndex bs c)) = Inr k"
    and "0 < k" and "k \<le> 30001"
  using structured_band(1) [OF assms] assms(1)
    margin_markup_range [of "targetGrossMarginBps (bs ! findBandIndex bs c)"]
  by (auto simp: structured_def)

text \<open>Every positive cost has a sale above itself.\<close>

lemma saleAt_total:
  assumes "structured bs ts" and "sampledMonotone bs (samplePoints bs ts cat n m)" and "0 < c"
  shows "\<exists>s. saleAt bs c = Inr s \<and> c < s"
proof (cases "List.find (coversCost c) ts")
  case None
  obtain k where k: "grossMarginBpsToMarkupBps (targetGrossMarginBps (bs ! findBandIndex bs c)) = Inr k"
    "0 < k" "k \<le> 30001" using assms(1,3) by (auto elim: structured_markup [of bs ts c])
  then show ?thesis using saleAt_plain [OF assms(1) _ None k] engineSale_above [of k c] assms(3) by simp
next
  case (Some t)
  then have t: "t \<in> set ts" "coversCost c t" by (auto simp: find_Some_iff)
  let ?e = "transitionEndRial t - 1"
  have e: "c \<le> ?e" "coversCost ?e t" using t(2) by (auto simp: coversCost_def)
  have "List.find (coversCost ?e) ts = Some t"
  proof (cases "List.find (coversCost ?e) ts")
    case None
    then show ?thesis using t(1) e(2) by (auto simp: find_None_iff)
  next
    case (Some u)
    then have u: "u \<in> set ts" "coversCost ?e u" by (auto simp: find_Some_iff)
    have "u = t"
      using structured_transition_unique [OF assms(1) u(1) t(1)]
        covering_transition_band [OF assms(1) u] covering_transition_band [OF assms(1) t(1) e(2)] by simp
    with Some show ?thesis by simp
  qed
  then have at_e: "saleAt bs ?e = (if ?e < boundarySaleRial t then Inr (boundarySaleRial t)
      else if boundarySaleRial t \<le> 0 then Inl ''invalid_transition_inputs'' else Inl ''cost_exceeds_boundary_sale'')"
    using saleAt_active [OF assms(1)] e(1) assms(3) by simp
  have "?e \<in> set (samplePoints bs ts cat n m)"
    using samplePoints_transition [OF t(1)] e(1) assms(3) by simp
  then obtain s where "sampledSale bs ?e = Inr s"
    using assms(2) unfolding sampledMonotone_def by blast
  then have "?e < boundarySaleRial t"
    using at_e sampledSale_saleAt [OF assms(1), of ?e] e(1) assms(3) by (simp split: if_split_asm)
  then show ?thesis using saleAt_active [OF assms(1,3) Some] e(1) by simp
qed

lemma saleAt_step:
  assumes "structured bs ts" and "sampledMonotone bs (samplePoints bs ts cat n m)" and "0 < c"
    and "saleAt bs c = Inr s" and "saleAt bs (c + 1) = Inr u"
  shows "s \<le> u"
proof -
  let ?X = "set (samplePoints bs ts cat n m)"
  have in_sample: ?thesis if "c \<in> ?X" and "c + 1 \<in> ?X"
    using that assms sampledSale_saleAt [OF assms(1)] unfolding sampledMonotone_def
    by (smt (verit, del_insts) Inr_inject)
  note b = structured_band [OF assms(1), of c] and b' = structured_band [OF assms(1), of "c + 1"]
  show ?thesis
  proof (cases "findBandIndex bs (c + 1) = findBandIndex bs c")
    case False
    let ?j = "findBandIndex bs (c + 1)"
    have "findBandIndex bs c < ?j"
      using b(2) b'(3) [of "findBandIndex bs c"] b(1) False assms(3) by fastforce
    then have "minProviderCostRial (bs ! ?j) = c + 1"
      using b(3) [of ?j] b'(1,2) assms(3) by fastforce
    moreover have "bs ! ?j \<in> set bs" using b'(1) assms(3) by simp
    ultimately show ?thesis
      using in_sample samplePoints_band [of "bs ! ?j" bs] assms(3) by (metis add_diff_cancel_right')
  next
    case same: True
    show ?thesis
    proof (cases "List.find (coversCost c) ts")
      case None
      have None': "List.find (coversCost (c + 1)) ts = None"
      proof (rule ccontr)
        assume "List.find (coversCost (c + 1)) ts \<noteq> None"
        then obtain t where t: "t \<in> set ts" "coversCost (c + 1) t" by (auto simp: find_None_iff)
        then have "bandIndex t = findBandIndex bs c"
          using covering_transition_band [OF assms(1)] same by simp
        then have "boundaryRial t \<le> c"
          using structured_transition(3) [OF assms(1) t(1)] b(2) assms(3) by simp
        then have "coversCost c t" using t(2) by (simp add: coversCost_def)
        with None t(1) show False by (auto simp: find_None_iff)
      qed
      obtain k where k: "grossMarginBpsToMarkupBps (targetGrossMarginBps (bs ! findBandIndex bs c)) = Inr k"
        "0 < k" "k \<le> 30001" using assms(1,3) by (auto elim: structured_markup [of bs ts c])
      then have "s = engineSale k c" and "u = engineSale k (c + 1)"
        using saleAt_plain [OF assms(1) _ None k] saleAt_plain [OF assms(1) _ None' _ k(2,3)] same assms(3-5)
        by simp_all
      then show ?thesis using engineSale_mono [of k c "c + 1"] k(2) by simp
    next
      case (Some t)
      then have t: "t \<in> set ts" "coversCost c t" by (auto simp: find_Some_iff)
      show ?thesis
      proof (cases "List.find (coversCost (c + 1)) ts")
        case None
        then have "transitionEndRial t = c + 1"
          using t by (force simp: find_None_iff coversCost_def)
        then show ?thesis
          using in_sample samplePoints_transition [OF t(1)] assms(3) by (metis add_diff_cancel_right')
      next
        case (Some v)
        then have v: "v \<in> set ts" "coversCost (c + 1) v" by (auto simp: find_Some_iff)
        have "v = t"
          using structured_transition_unique [OF assms(1) v(1) t(1)]
            covering_transition_band [OF assms(1) v] covering_transition_band [OF assms(1) t] same by simp
        then show ?thesis
          using saleAt_active [OF assms(1,3) \<open>List.find (coversCost c) ts = Some t\<close>]
            saleAt_active [OF assms(1) _ Some] assms(3-5) by (simp split: if_split_asm)
      qed
    qed
  qed
qed

lemma saleAt_mono:
  assumes "structured bs ts" and "sampledMonotone bs (samplePoints bs ts cat n m)" and "0 < c"
    and "saleAt bs c = Inr s" and "saleAt bs (c + int d) = Inr u"
  shows "s \<le> u"
  using assms(5)
proof (induction d arbitrary: u)
  case 0
  then show ?case using assms(4) by simp
next
  case (Suc d)
  obtain v where v: "saleAt bs (c + int d) = Inr v"
    using saleAt_total [OF assms(1,2), of "c + int d"] assms(3) by auto
  have "v \<le> u" using saleAt_step [OF assms(1,2) _ v, of u] Suc.prems assms(3)
    by (simp add: algebra_simps)
  then show ?case using Suc.IH [OF v] by simp
qed

text \<open>C33: a published profit curve never sells dearer servers cheaper. If an administrator's curve passes
  the structural validator and the sampled monotonicity validator, then at every provider cost (not only
  at the sampled ones) the curve resolves, the infrastructure sale price is above the cost, and a higher
  cost never has a lower sale price.\<close>

theorem validated_curve_monotone:
  assumes "validateProfitCurveStructure cfg = []"
    and "validateProfitCurveMonotonicity (pc_bands cfg) catalog n mx = Inr (True, iss, k)"
    and "0 < c" and "c \<le> d"
  shows "\<exists>r q. resolveProfitCurve c (pc_bands cfg) = Inr r \<and> resolveProfitCurve d (pc_bands cfg) = Inr q
    \<and> c < rs_infrastructureSaleRial r \<and> rs_infrastructureSaleRial r \<le> rs_infrastructureSaleRial q"
proof -
  define bs where "bs = sortBands (pc_bands cfg)"
  obtain ts where st: "structured bs ts"
    using structure_valid [OF assms(1)] by (auto simp: bs_def)
  then have "deriveProfitCurveTransitions bs = Inr ts" by (simp add: structured_def)
  then obtain m where mono: "sampledMonotone bs (samplePoints bs ts catalog (max n 2) m)"
    using monotonicity_sample [OF assms(2)] by (auto simp: bs_def)
  obtain s where s: "saleAt bs c = Inr s" "c < s"
    using saleAt_total [OF st mono assms(3)] by auto
  have "c + int (nat (d - c)) = d" using assms(4) by simp
  moreover obtain u where u: "saleAt bs d = Inr u"
    using saleAt_total [OF st mono, of d] assms(3,4) by auto
  ultimately have "s \<le> u" using saleAt_mono [OF st mono assms(3) s(1), of "nat (d - c)" u] by simp
  then show ?thesis
    using s u by (auto simp: bs_def saleAt_sortBands [symmetric]) (auto simp: saleAt_def bindE_eq_Inr)
qed

lemma default_curve_accepted:
  "validateProfitCurveStructure defaultProfitCurveConfig = []"
  "validateProfitCurveMonotonicity (pc_bands defaultProfitCurveConfig) [] 2 None = Inr (True, [], 26)"
  by code_simp+

theorem validated_curve_monotone_witness:
  "\<exists>r q. resolveProfitCurve 50000000 (pc_bands defaultProfitCurveConfig) = Inr r
    \<and> resolveProfitCurve 70000000 (pc_bands defaultProfitCurveConfig) = Inr q
    \<and> 50000000 < rs_infrastructureSaleRial r \<and> rs_infrastructureSaleRial r \<le> rs_infrastructureSaleRial q"
  by (rule validated_curve_monotone [OF default_curve_accepted]) simp_all

text \<open>
  The nudge of a transition end is bounded: after its 64 rials the sale at the new margin can still be
  below the held boundary sale, and the curve is then not monotone at the end of the transition. The
  sampled monotonicity validator is what rejects such a curve.
\<close>

lemma transition_nudge_exhausted:
  "computeBoundarySaleRial 50000000 7500 = Inr 200000000"
  "computeTransitionEndRial 50000000 7500 7000 None = Inr 60000064"
  "infrastructureSaleFromMargin 60000064 7000 = Inr 199998214"
  by code_simp+

end
