(* ===== verification/Money.thy ===== *)
theory Money
  imports CommercialEngine "HOL-Library.Sublist"
begin

text \<open>
  Amounts at the edges of the system: decimal strings, JSON values and provider price contracts
  (\<open>src/lib/money.ts\<close>, \<open>src/lib/messagego/settlement/amount.ts\<close>,
  \<open>src/lib/pricing/provider-pricing.ts\<close>, \<open>src/lib/pricing/provider-money.ts\<close>). Strings are
  lists of Latin-1 characters. A JSON or JavaScript value is a \<open>jsval\<close>: a number is an integer or,
  for every other number, the text \<open>String(value)\<close> gives for it.
\<close>

section \<open>Values and characters\<close>

datatype jsval =
    JUndefined | JNull | JBool bool | JInt int | JFrac string | JBig int | JStr string
  | JArr "jsval list" | JObj "(string \<times> jsval) list"

definition isDigit :: "char \<Rightarrow> bool" where
  "isDigit c \<longleftrightarrow> 48 \<le> (of_char c :: nat) \<and> (of_char c :: nat) \<le> 57"

definition digitVal :: "char \<Rightarrow> nat" where
  "digitVal c = of_char c - 48"

definition digitChar :: "nat \<Rightarrow> char" where
  "digitChar d = char_of (48 + d)"

text \<open>The white space \<open>String.prototype.trim\<close> removes, in Latin-1.\<close>

definition isSpace :: "char \<Rightarrow> bool" where
  "isSpace c \<longleftrightarrow> (of_char c :: nat) \<in> {9, 10, 11, 12, 13, 32, 160}"

definition trim :: "string \<Rightarrow> string" where
  "trim s = rev (dropWhile isSpace (rev (dropWhile isSpace s)))"

text \<open>\<open>toString(10)\<close> and \<open>BigInt(text)\<close> on natural numbers.\<close>

fun natStr :: "nat \<Rightarrow> string" where
  "natStr n = (if n < 10 then [digitChar n] else natStr (n div 10) @ [digitChar (n mod 10)])"

declare natStr.simps [simp del]

definition digitsVal :: "string \<Rightarrow> nat" where
  "digitsVal s = foldl (\<lambda>v c. 10 * v + digitVal c) 0 s"

definition isCanonical :: "string \<Rightarrow> bool" where
  "isCanonical s \<longleftrightarrow> s = ''0'' \<or> (s \<noteq> [] \<and> list_all isDigit s \<and> hd s \<noteq> CHR ''0'')"

definition upperAscii :: "string \<Rightarrow> string" where
  "upperAscii s = map (\<lambda>c. let n = (of_char c :: nat) in
     if 97 \<le> n \<and> n \<le> 122 then char_of (n - 32) else c) s"

definition lowerAscii :: "string \<Rightarrow> string" where
  "lowerAscii s = map (\<lambda>c. let n = (of_char c :: nat) in
     if 65 \<le> n \<and> n \<le> 90 then char_of (n + 32) else c) s"

definition jsGet :: "string \<Rightarrow> (string \<times> jsval) list \<Rightarrow> jsval" where
  "jsGet k es = (case map_of es k of None \<Rightarrow> JUndefined | Some v \<Rightarrow> v)"

definition jsNullish :: "jsval \<Rightarrow> bool" where
  "jsNullish v \<longleftrightarrow> v = JUndefined \<or> v = JNull"

section \<open>Rial and toman\<close>

definition tomanToRial :: "int \<Rightarrow> string + int" where
  "tomanToRial toman = (if toman \<le> 0 then Inl ''Amount must be positive'' else Inr (toman * 10))"

definition rialToToman :: "int \<Rightarrow> int" where
  "rialToToman rial = rial sdiv 10"

definition assertPositiveIntegerToman :: "jsval \<Rightarrow> string + int" where
  "assertPositiveIntegerToman v =
     (case v of JInt n \<Rightarrow> if n \<le> 0 then Inl ''Amount must be a positive integer toman value'' else Inr n
      | _ \<Rightarrow> Inl ''Amount must be a positive integer toman value'')"

definition irrToDisplayToman :: "int \<Rightarrow> string + int \<times> int" where
  "irrToDisplayToman amount =
     (if amount < 0 then Inl ''invalid_money'' else Inr (amount sdiv 10, amount - 10 * (amount sdiv 10)))"

section \<open>Settlement amounts\<close>

datatype SettlementErrorCode =
    invalid_request | invalid_amount | json_number_money | idempotency_conflict | not_found
  | insufficient_funds | wallet_frozen | account_inactive | scope_mismatch | state_conflict
  | production_denied | browser_forbidden | unauthenticated | settlement_runtime_unavailable
  | unknown_pricing | stale_pricing | usage_unknown | customer_amount_untrusted

fun statusFor :: "SettlementErrorCode \<Rightarrow> nat" where
  "statusFor unauthenticated = 401"
| "statusFor production_denied = 403"
| "statusFor browser_forbidden = 403"
| "statusFor settlement_runtime_unavailable = 403"
| "statusFor not_found = 404"
| "statusFor idempotency_conflict = 409"
| "statusFor state_conflict = 409"
| "statusFor scope_mismatch = 409"
| "statusFor insufficient_funds = 409"
| "statusFor wallet_frozen = 409"
| "statusFor account_inactive = 409"
| "statusFor stale_pricing = 409"
| "statusFor usage_unknown = 409"
| "statusFor json_number_money = 422"
| "statusFor invalid_amount = 422"
| "statusFor invalid_request = 422"
| "statusFor unknown_pricing = 422"
| "statusFor customer_amount_untrusted = 422"

definition parseWalletAmount :: "jsval \<Rightarrow> SettlementErrorCode + int" where
  "parseWalletAmount v =
     (case v of
        JInt _ \<Rightarrow> Inl json_number_money
      | JFrac _ \<Rightarrow> Inl json_number_money
      | JStr s \<Rightarrow> (let trimmed = trim s in
          if \<not> isCanonical trimmed then Inl invalid_amount else Inr (int (digitsVal trimmed)))
      | _ \<Rightarrow> Inl invalid_amount)"

definition walletAmountString :: "int \<Rightarrow> SettlementErrorCode + string" where
  "walletAmountString value = (if value < 0 then Inl invalid_amount else Inr (natStr (nat value)))"

definition parseOptionalWalletAmount :: "jsval \<Rightarrow> SettlementErrorCode + int option" where
  "parseOptionalWalletAmount v =
     (if v = JUndefined \<or> v = JNull \<or> v = JStr '''' then Inr None
      else bindE (parseWalletAmount v) (\<lambda>n. Inr (Some n)))"

definition TOKENS_PER_MILLION :: int where "TOKENS_PER_MILLION = 1000000"

definition costRial :: "int \<Rightarrow> int \<Rightarrow> SettlementErrorCode + int" where
  "costRial tokens rialPerMillion =
     (if tokens < 0 \<or> rialPerMillion < 0 then Inl invalid_amount
      else if rialPerMillion = 0 \<and> tokens > 0 then Inl unknown_pricing
      else Inr ((tokens * rialPerMillion + (TOKENS_PER_MILLION - 1)) sdiv TOKENS_PER_MILLION))"

definition rejectUntrustedAmount :: "int option \<Rightarrow> int \<Rightarrow> SettlementErrorCode + unit" where
  "rejectUntrustedAmount supplied derived =
     (case supplied of None \<Rightarrow> Inr ()
      | Some s \<Rightarrow> if s \<noteq> derived then Inl customer_amount_untrusted else Inr ())"

text \<open>The key test \<open>/amount|rial|hold|billable|balance|cost|price/i\<close>.\<close>

definition isMoneyKey :: "string \<Rightarrow> bool" where
  "isMoneyKey k = list_ex (\<lambda>w. sublist w (lowerAscii k))
     [''amount'', ''rial'', ''hold'', ''billable'', ''balance'', ''cost'', ''price'']"

fun isNumber :: "jsval \<Rightarrow> bool" where
  "isNumber (JInt _) = True"
| "isNumber (JFrac _) = True"
| "isNumber _ = False"

fun assertNoJsonNumberMoney :: "jsval \<Rightarrow> SettlementErrorCode + unit" where
  "assertNoJsonNumberMoney (JArr xs) = foldE (\<lambda>_ x. assertNoJsonNumberMoney x) () xs"
| "assertNoJsonNumberMoney (JObj es) =
     foldE (\<lambda>_ e. if isMoneyKey (fst e) \<and> isNumber (snd e) then Inl json_number_money
       else assertNoJsonNumberMoney (snd e)) () es"
| "assertNoJsonNumberMoney _ = Inr ()"

section \<open>Provider prices\<close>

definition PROVIDER_PRICE_SCALE :: nat where "PROVIDER_PRICE_SCALE = 6"

datatype AmountUnit = RIAL | TOMAN

record ProviderPriceContract =
  ct_amountUnit :: AmountUnit
  ct_rialMultiplier :: int

text \<open>The module's own rounding-up division (the engine has a second copy).\<close>

definition providerDivideRoundUp :: "int \<Rightarrow> int \<Rightarrow> string + int" where
  "providerDivideRoundUp numerator denominator =
     (if numerator < 0 \<or> denominator \<le> 0 then Inl ''invalid_rounding_input''
      else Inr ((numerator + denominator - 1) sdiv denominator))"

text \<open>A text matching \<open>/^\d+(?:\.\d+)?$/\<close>, as its whole part and its fraction.\<close>

definition splitDecimal :: "string \<Rightarrow> (string \<times> string) option" where
  "splitDecimal s =
     (let whole = takeWhile isDigit s; rest = dropWhile isDigit s
      in if whole = [] then None
         else if rest = [] then Some (whole, [])
         else if hd rest = CHR ''.'' \<and> tl rest \<noteq> [] \<and> list_all isDigit (tl rest)
              then Some (whole, tl rest) else None)"

definition padEndZeros :: "nat \<Rightarrow> string \<Rightarrow> string" where
  "padEndZeros n s = s @ replicate (n - length s) (CHR ''0'')"

definition decimalToScaledInteger :: "string \<Rightarrow> nat \<Rightarrow> string + int" where
  "decimalToScaledInteger value scale =
     (case splitDecimal (trim value) of
        None \<Rightarrow> Inl ''invalid_provider_price''
      | Some (whole, fraction) \<Rightarrow>
          if length fraction > scale \<and> list_ex (\<lambda>c. isDigit c \<and> c \<noteq> CHR ''0'') (drop scale fraction)
          then Inl ''provider_price_precision_exceeded''
          else Inr (int (digitsVal whole) * 10 ^ scale
                    + int (digitsVal (padEndZeros scale (take scale fraction)))))"

definition normalizeProviderPriceContract ::
  "string option \<Rightarrow> string option \<Rightarrow> ProviderPriceContract option" where
  "normalizeProviderPriceContract currencyCode amountUnit =
     (let cc = map_option (\<lambda>s. upperAscii (trim s)) currencyCode;
          au = map_option (\<lambda>s. upperAscii (trim s)) amountUnit
      in if cc \<noteq> Some ''IRR'' then None
         else if au = Some ''RIAL'' then Some \<lparr>ct_amountUnit = RIAL, ct_rialMultiplier = 1\<rparr>
         else if au = Some ''TOMAN'' then Some \<lparr>ct_amountUnit = TOMAN, ct_rialMultiplier = 10\<rparr>
         else None)"

definition providerAmountToRial :: "int \<Rightarrow> nat \<Rightarrow> ProviderPriceContract \<Rightarrow> string + int" where
  "providerAmountToRial scaledAmount scale contract =
     (if scaledAmount \<le> 0 then Inl ''invalid_provider_price''
      else providerDivideRoundUp (scaledAmount * ct_rialMultiplier contract) (10 ^ scale))"

definition calculateFinalPriceRial :: "int \<Rightarrow> int \<Rightarrow> string + int" where
  "calculateFinalPriceRial base markup =
     (if base \<le> 0 then Inl ''invalid_provider_price''
      else if markup < 0 then Inl ''invalid_markup''
      else providerDivideRoundUp (base * (10000 + markup)) 10000)"

text \<open>\<open>/^\d+(?:\.\d{1,2})?$/\<close>.\<close>

definition isPercentText :: "string \<Rightarrow> bool" where
  "isPercentText s =
     (case splitDecimal s of None \<Rightarrow> False | Some (_, fraction) \<Rightarrow> length fraction \<le> 2)"

definition jsNumberText :: "int \<Rightarrow> string" where
  "jsNumberText n = (if n < 0 then CHR ''-'' # natStr (nat (- n)) else natStr (nat n))"

definition parseMarkupPercentToBasisPoints :: "jsval \<Rightarrow> string + int" where
  "parseMarkupPercentToBasisPoints v =
     (let raw = (case v of JInt n \<Rightarrow> jsNumberText n | JFrac s \<Rightarrow> s | JStr s \<Rightarrow> trim s | _ \<Rightarrow> [])
      in if \<not> isPercentText raw then Inl ''invalid_markup''
         else case splitDecimal raw of
             None \<Rightarrow> Inl ''invalid_markup''
           | Some (whole, fraction) \<Rightarrow>
               let basisPoints = int (digitsVal whole) * 100 + int (digitsVal (padEndZeros 2 fraction))
               in if basisPoints < 0 \<or> basisPoints > 100000 then Inl ''invalid_markup''
                  else Inr basisPoints)"

definition formatBasisPointsPercent :: "int \<Rightarrow> string + string" where
  "formatBasisPointsPercent basisPoints =
     (if basisPoints < 0 then Inl ''invalid_markup''
      else let whole = nat (basisPoints div 100); fraction = nat (basisPoints mod 100);
               padded = replicate (2 - length (natStr fraction)) (CHR ''0'') @ natStr fraction
           in Inr (if fraction = 0 then natStr whole
                   else natStr whole @ ''.'' @
                     (if last padded = CHR ''0'' then butlast padded else padded)))"

text \<open>Provider amounts: the only provider is ARVAN, whose units are IRR and RIAL.\<close>

definition MAX_SAFE_INTEGER :: int where "MAX_SAFE_INTEGER = 9007199254740991"

definition parseNonNegativeInteger :: "jsval \<Rightarrow> string + int" where
  "parseNonNegativeInteger v =
     (case v of
        JBig n \<Rightarrow> if n < 0 then Inl ''invalid_provider_money'' else Inr n
      | JInt n \<Rightarrow> if n > MAX_SAFE_INTEGER \<or> n < 0 then Inl ''invalid_provider_money'' else Inr n
      | JStr s \<Rightarrow> if trim s \<noteq> [] \<and> list_all isDigit (trim s) then Inr (int (digitsVal (trim s)))
                  else Inl ''invalid_provider_money''
      | _ \<Rightarrow> Inl ''invalid_provider_money'')"

definition normalizeProviderMoney :: "jsval \<Rightarrow> string \<Rightarrow> string + int" where
  "normalizeProviderMoney rawAmount sourceUnit =
     (if upperAscii (trim sourceUnit) \<notin> {''IRR'', ''RIAL''} then Inl ''unsupported_provider_money_unit''
      else parseNonNegativeInteger rawAmount)"

section \<open>Digits\<close>

lemma of_char_digitChar: "d < 10 \<Longrightarrow> (of_char (digitChar d) :: nat) = 48 + d"
  by (simp add: digitChar_def)

lemma digitChar_simps [simp]:
  assumes "d < 10"
  shows "isDigit (digitChar d)" and "digitVal (digitChar d) = d"
    and "digitChar d = CHR ''0'' \<longleftrightarrow> d = 0"
proof -
  show "isDigit (digitChar d)" and "digitVal (digitChar d) = d"
    using assms by (simp_all add: isDigit_def digitVal_def of_char_digitChar)
  have "(of_char (CHR ''0'') :: nat) = 48" by simp
  then show "digitChar d = CHR ''0'' \<longleftrightarrow> d = 0"
    using of_char_digitChar [OF assms] of_char_eq_iff [where 'a = nat, of "digitChar d" "CHR ''0''"] by auto
qed

lemma digitChar_zero: "digitChar 0 = CHR ''0''"
  using digitChar_simps(3) [of 0] by simp

lemma digitChar_digitVal [simp]: "isDigit c \<Longrightarrow> digitChar (digitVal c) = c"
  by (simp add: isDigit_def digitChar_def digitVal_def)

lemma digitVal_less [simp]: "isDigit c \<Longrightarrow> digitVal c < 10"
  by (auto simp: isDigit_def digitVal_def)

lemma isDigit_not_isSpace [simp]: "isDigit c \<Longrightarrow> \<not> isSpace c"
  by (auto simp: isDigit_def isSpace_def)

lemma isDigit_zero [simp]: "isDigit (CHR ''0'')" "digitVal (CHR ''0'') = 0" "\<not> isDigit (CHR ''.'')"
  "\<not> isDigit (CHR ''-'')" "\<not> isSpace (CHR ''.'')"
  by (simp_all add: isDigit_def digitVal_def isSpace_def)

lemma natStr_digit: "n < 10 \<Longrightarrow> natStr n = [digitChar n]"
  by (simp add: natStr.simps)

lemma natStr_step: "10 \<le> n \<Longrightarrow> natStr n = natStr (n div 10) @ [digitChar (n mod 10)]"
  by (subst natStr.simps) simp

lemma natStr_zero [simp]: "natStr 0 = ''0''"
  by (simp add: natStr_digit)

lemma natStr_digits: "natStr n \<noteq> [] \<and> list_all isDigit (natStr n)"
proof (induction n rule: natStr.induct)
  case (1 n)
  then show ?case by (cases "n < 10") (simp_all add: natStr_digit natStr_step)
qed

lemma natStr_not_Nil [simp]: "natStr n \<noteq> []" and natStr_all [simp]: "list_all isDigit (natStr n)"
  using natStr_digits by simp_all

lemma digitsVal_Nil [simp]: "digitsVal [] = 0"
  by (simp add: digitsVal_def)

lemma digitsVal_snoc [simp]: "digitsVal (s @ [c]) = 10 * digitsVal s + digitVal c"
  by (simp add: digitsVal_def)

lemma digitsVal_single [simp]: "digitsVal [c] = digitVal c"
  by (simp add: digitsVal_def)

lemma digitsVal_append: "digitsVal (s @ t) = digitsVal s * 10 ^ length t + digitsVal t"
proof (induction t rule: rev_induct)
  case (snoc c t)
  have "digitsVal (s @ t @ [c]) = 10 * digitsVal (s @ t) + digitVal c"
    using digitsVal_snoc [of "s @ t" c] by simp
  then show ?case using snoc by (simp add: algebra_simps)
qed simp

lemma digitsVal_zeros [simp]: "digitsVal (replicate n (CHR ''0'')) = 0"
proof (induction n)
  case (Suc n)
  have "digitsVal (replicate (Suc n) (CHR ''0'')) = digitsVal ([CHR ''0''] @ replicate n (CHR ''0''))"
    by simp
  also have "\<dots> = 0" using Suc by (simp only: digitsVal_append) simp
  finally show ?case .
qed simp

lemma digitsVal_bound: "list_all isDigit s \<Longrightarrow> digitsVal s < 10 ^ length s"
proof (induction s rule: rev_induct)
  case (snoc c s)
  then have "digitsVal s < 10 ^ length s" "digitVal c < 10" by simp_all
  then show ?case by simp
qed simp

lemma digitsVal_natStr [simp]: "digitsVal (natStr n) = n"
proof (induction n rule: natStr.induct)
  case (1 n)
  then show ?case by (cases "n < 10") (simp_all add: natStr_digit natStr_step)
qed

lemma natStr_hd: "hd (natStr n) = CHR ''0'' \<longleftrightarrow> n = 0"
proof (induction n rule: natStr.induct)
  case (1 n)
  show ?case
  proof (cases "n < 10")
    case True
    then show ?thesis by (simp add: natStr_digit)
  next
    case False
    then have "hd (natStr n) = hd (natStr (n div 10))" by (simp add: natStr_step)
    then show ?thesis using 1 False by simp
  qed
qed

lemma isCanonical_natStr [simp]: "isCanonical (natStr n)"
  by (cases "n = 0") (simp_all add: isCanonical_def natStr_hd)

lemma natStr_digitsVal:
  assumes "s \<noteq> []" and "list_all isDigit s" and "hd s \<noteq> CHR ''0''"
  shows "natStr (digitsVal s) = s"
  using assms
proof (induction s rule: rev_induct)
  case (snoc c s)
  show ?case
  proof (cases "s = []")
    case True
    then show ?thesis using snoc.prems by (simp add: natStr_digit)
  next
    case False
    then have eq: "natStr (digitsVal s) = s" using snoc by simp
    then have "0 < digitsVal s" using False snoc.prems natStr_hd [of "digitsVal s"] by auto
    moreover have "digitVal c < 10" using snoc.prems by simp
    ultimately show ?thesis using eq snoc.prems
      by (subst natStr_step) simp_all
  qed
qed simp

lemma isCanonical_digitsVal: "isCanonical s \<Longrightarrow> natStr (digitsVal s) = s"
  by (auto simp: isCanonical_def natStr_digitsVal)

lemma dropWhile_id: "list_all (\<lambda>c. \<not> p c) s \<Longrightarrow> dropWhile p s = s"
  by (cases s) simp_all

lemma trim_id: "list_all (\<lambda>c. \<not> isSpace c) s \<Longrightarrow> trim s = s"
  by (simp add: trim_def dropWhile_id)

lemma digits_not_space: "list_all isDigit s \<Longrightarrow> list_all (\<lambda>c. \<not> isSpace c) s"
  by (auto simp: list_all_iff)

lemma trim_digits [simp]: "list_all isDigit s \<Longrightarrow> trim s = s"
  by (simp add: trim_id digits_not_space)

section \<open>Properties\<close>

text \<open>C35: wallet amounts have exactly one wire form. A JSON value parses as the amount \<open>n\<close> if and only if
  it is a string that, without surrounding white space, is the text the serializer writes for \<open>n\<close>
  (so JSON numbers, signs, leading zeros and fractions never parse, and every amount written reads back).\<close>

theorem wallet_amount_wire_form:
  "parseWalletAmount v = Inr n \<longleftrightarrow> (\<exists>s. v = JStr s \<and> walletAmountString n = Inr (trim s))"
proof
  assume "parseWalletAmount v = Inr n"
  then show "\<exists>s. v = JStr s \<and> walletAmountString n = Inr (trim s)"
    by (auto simp: parseWalletAmount_def walletAmountString_def Let_def isCanonical_digitsVal
        split: jsval.splits if_split_asm)
next
  assume "\<exists>s. v = JStr s \<and> walletAmountString n = Inr (trim s)"
  then obtain s where s: "v = JStr s" "trim s = natStr (nat n)" "0 \<le> n"
    by (auto simp: walletAmountString_def split: if_split_asm)
  then show "parseWalletAmount v = Inr n" by (simp add: parseWalletAmount_def)
qed

text \<open>The reference notion of a JSON number stored under a money key, anywhere in a value.\<close>

inductive moneyNumberIn :: "jsval \<Rightarrow> bool" where
  here: "(k, v) \<in> set es \<Longrightarrow> isMoneyKey k \<Longrightarrow> isNumber v \<Longrightarrow> moneyNumberIn (JObj es)"
| member: "(k, v) \<in> set es \<Longrightarrow> moneyNumberIn v \<Longrightarrow> moneyNumberIn (JObj es)"
| element: "v \<in> set xs \<Longrightarrow> moneyNumberIn v \<Longrightarrow> moneyNumberIn (JArr xs)"

inductive_simps moneyNumberIn_JObj: "moneyNumberIn (JObj es)"
inductive_simps moneyNumberIn_JArr: "moneyNumberIn (JArr xs)"
inductive_cases moneyNumberIn_atom:
  "moneyNumberIn (JStr s)" "moneyNumberIn (JInt n)" "moneyNumberIn (JFrac s)" "moneyNumberIn (JBig n)"
  "moneyNumberIn (JBool b)" "moneyNumberIn JNull" "moneyNumberIn JUndefined"

text \<open>The scan of a settlement request for money sent as JSON numbers is complete: it passes exactly the
  values in which no object, at any depth, stores a number under a key that names an amount.\<close>

theorem money_scan_complete:
  "assertNoJsonNumberMoney v = Inr () \<longleftrightarrow> \<not> moneyNumberIn v"
proof (induction v rule: assertNoJsonNumberMoney.induct)
  case (1 xs)
  then show ?case by (auto simp: foldE_unit moneyNumberIn_JArr)
next
  case (2 es)
  have "assertNoJsonNumberMoney (JObj es) = Inr () \<longleftrightarrow>
      (\<forall>e \<in> set es. \<not> (isMoneyKey (fst e) \<and> isNumber (snd e)) \<and> assertNoJsonNumberMoney (snd e) = Inr ())"
    by (auto simp: foldE_unit)
  also have "\<dots> \<longleftrightarrow> (\<forall>e \<in> set es. \<not> (isMoneyKey (fst e) \<and> isNumber (snd e)) \<and> \<not> moneyNumberIn (snd e))"
    using 2 by (metis (full_types))
  also have "\<dots> \<longleftrightarrow> \<not> moneyNumberIn (JObj es)"
    by (auto simp: moneyNumberIn_JObj)
  finally show ?case .
qed (auto elim: moneyNumberIn_atom)

section \<open>Percentages and provider prices\<close>

interpretation provider_round: round_up providerDivideRoundUp
proof
  fix n d :: int
  assume "0 \<le> n" and "0 < d"
  then show "\<exists>k. providerDivideRoundUp n d = Inr k \<and> n \<le> k * d \<and> k * d < n + d"
    using ceil_div_upper [of d n] by (simp add: providerDivideRoundUp_def)
qed

lemma takeWhile_digits: "list_all isDigit s \<Longrightarrow> takeWhile isDigit s = s" "list_all isDigit s \<Longrightarrow> dropWhile isDigit s = []"
  by (simp_all add: list_all_iff)

lemma splitDecimal_whole [simp]: "list_all isDigit w \<Longrightarrow> w \<noteq> [] \<Longrightarrow> splitDecimal w = Some (w, [])"
  by (simp add: splitDecimal_def takeWhile_digits)

lemma splitDecimal_fraction [simp]:
  assumes "list_all isDigit w" and "w \<noteq> []" and "list_all isDigit f" and "f \<noteq> []"
  shows "splitDecimal (w @ CHR ''.'' # f) = Some (w, f)"
  using assms by (auto simp: splitDecimal_def takeWhile_append dropWhile_append list_all_iff
      takeWhile_digits)

lemma natStr_two: "10 \<le> n \<Longrightarrow> n < 100 \<Longrightarrow> natStr n = [digitChar (n div 10), digitChar (n mod 10)]"
  by (simp add: natStr_step natStr_digit)

text \<open>The two decimals of a percentage, without a trailing zero, read back as their value.\<close>

lemma percent_fraction:
  assumes "0 < f" and "f < 100"
  defines "padded \<equiv> replicate (2 - length (natStr f)) (CHR ''0'') @ natStr f"
  defines "short \<equiv> (if last padded = CHR ''0'' then butlast padded else padded)"
  shows "list_all isDigit short" and "short \<noteq> []" and "length short \<le> 2"
    and "digitsVal (padEndZeros 2 short) = f"
proof -
  have two: "padded = [digitChar (f div 10), digitChar (f mod 10)]"
  proof (cases "f < 10")
    case True
    then show ?thesis by (simp add: padded_def natStr_digit digitChar_zero)
  next
    case False
    then show ?thesis using assms(2) by (simp add: padded_def natStr_two)
  qed
  have d: "f div 10 < 10" "f mod 10 < 10" using assms(2) by simp_all
  have "digitsVal [digitChar (f div 10), digitChar (f mod 10)] = f"
    using digitsVal_snoc [of "[digitChar (f div 10)]" "digitChar (f mod 10)"] d by simp
  moreover have "f mod 10 = 0 \<Longrightarrow> digitsVal [digitChar (f div 10), CHR ''0''] = f"
    using digitsVal_snoc [of "[digitChar (f div 10)]" "CHR ''0''"] d div_mult_mod_eq [of f 10] by simp
  ultimately show "list_all isDigit short" "short \<noteq> []" "length short \<le> 2"
    "digitsVal (padEndZeros 2 short) = f"
    using d by (simp_all add: short_def two padEndZeros_def)
qed

text \<open>Percentages survive the screen. Formatting a markup of \<open>b\<close> basis points as the percentage shown
  to the administrator and parsing that text gives \<open>b\<close> back, for every markup the parser
  admits.\<close>

theorem markup_percent_roundtrip:
  assumes "0 \<le> b" and "b \<le> 100000"
  shows "\<exists>s. formatBasisPointsPercent b = Inr s \<and> parseMarkupPercentToBasisPoints (JStr s) = Inr b"
proof -
  define w f where "w = nat (b div 100)" and "f = nat (b mod 100)"
  have b: "b = int w * 100 + int f" "f < 100"
    using assms by (simp_all add: w_def f_def pos_imp_zdiv_nonneg_iff)
  show ?thesis
  proof (cases "f = 0")
    case True
    then have "formatBasisPointsPercent b = Inr (natStr w)"
      using assms by (simp add: formatBasisPointsPercent_def w_def f_def Let_def)
    then show ?thesis using assms b True
      by (simp add: parseMarkupPercentToBasisPoints_def isPercentText_def Let_def padEndZeros_def)
  next
    case False
    let ?p = "replicate (2 - length (natStr f)) (CHR ''0'') @ natStr f"
    let ?s = "if last ?p = CHR ''0'' then butlast ?p else ?p"
    note fr = percent_fraction [of f]
    have fmt: "formatBasisPointsPercent b = Inr (natStr w @ CHR ''.'' # ?s)"
      using assms False by (simp add: formatBasisPointsPercent_def w_def f_def Let_def)
    have "list_all (\<lambda>c. \<not> isSpace c) (natStr w @ CHR ''.'' # ?s)"
      using fr(1) False b(2) digits_not_space [of "natStr w"] digits_not_space [of ?s] by simp
    then have "trim (natStr w @ CHR ''.'' # ?s) = natStr w @ CHR ''.'' # ?s" by (rule trim_id)
    moreover have "splitDecimal (natStr w @ CHR ''.'' # ?s) = Some (natStr w, ?s)"
      using fr(1,2) False b(2) by (intro splitDecimal_fraction) simp_all
    ultimately show ?thesis using fr(3,4) fmt assms b False
      by (simp add: parseMarkupPercentToBasisPoints_def isPercentText_def Let_def)
  qed
qed

theorem markup_percent_roundtrip_witness:
  "\<exists>s. formatBasisPointsPercent 4286 = Inr s \<and> parseMarkupPercentToBasisPoints (JStr s) = Inr 4286"
  by (rule markup_percent_roundtrip) simp_all

text \<open>The rial price of a scaled provider amount is the least one that covers it.\<close>

lemma providerAmountToRial_covers:
  assumes "providerAmountToRial a s c = Inr r" and "0 < ct_rialMultiplier c"
  shows "a * ct_rialMultiplier c \<le> r * 10 ^ s" and "r * 10 ^ s < a * ct_rialMultiplier c + 10 ^ s"
    and "0 < r"
proof -
  have a: "0 < a" and r: "providerDivideRoundUp (a * ct_rialMultiplier c) (10 ^ s) = Inr r"
    using assms(1) by (auto simp: providerAmountToRial_def split: if_split_asm)
  have pos: "0 < a * ct_rialMultiplier c" using a assms(2) by simp
  show lower: "a * ct_rialMultiplier c \<le> r * 10 ^ s"
    and "r * 10 ^ s < a * ct_rialMultiplier c + 10 ^ s"
    using provider_round.rnd_bounds [OF r] pos by simp_all
  show "0 < r" using lower pos by (metis less_le_trans zero_less_mult_pos2 zero_less_numeral zero_less_power)
qed

text \<open>The flat-markup price of the older path is the engine's price of the same markup.\<close>

lemma calculateFinalPriceRial_engine:
  assumes "0 < base" and "0 \<le> k" and "k \<le> 100000"
  shows "calculateFinalPriceRial base k = bindE (multiplyBpsRoundUp base k) (\<lambda>m. Inr (base + m))"
proof -
  have pos: "0 \<le> base * k" "0 \<le> base * (10000 + k)" using assms by simp_all
  have "base * (10000 + k) + 10000 - 1 = base * k + 10000 - 1 + base * 10000"
    by (simp add: algebra_simps)
  then have "(base * (10000 + k) + 10000 - 1) div 10000 = base + (base * k + 10000 - 1) div 10000"
    by (simp only: div_mult_self1)
  with pos show ?thesis using assms
    by (simp add: calculateFinalPriceRial_def provider_round.rnd_eq multiplyBpsRoundUp_divide
        engine_round.rnd_eq BPS_DENOMINATOR_def bindE_Inr not_le not_less)
qed

end
