(* ===== verification/PlanPricing.thy ===== *)
theory PlanPricing
  imports ProfitCurve Money
begin

text \<open>
  From a plan and a catalog item to a price: the markup source of \<open>src/lib/pricing/profit-curve-apply.ts\<close>,
  the quote adapter \<open>quote-line-items.ts\<close>, and the guards and snapshots of \<open>plan-pricing.ts\<close>.
  The current time is the parameter \<open>now\<close>; titles, codes of coupons and the opaque economics
  snapshot are display data and not modelled. A thrown error is \<open>Inl\<close>, the code's \<open>null\<close> is
  \<open>Inr None\<close>.
\<close>

section \<open>Parchin levels are ordered by rank\<close>

fun parchinRank :: "ParchinLevel \<Rightarrow> int" where
  "parchinRank PARCHIN_START = 1"
| "parchinRank PARCHIN_ACTIVE = 2"
| "parchinRank PARCHIN_STABLE = 3"

lemma parchinRank_inj: "parchinRank a = parchinRank b \<Longrightarrow> a = b"
  by (cases a; cases b) simp_all

instantiation ParchinLevel :: linorder
begin

definition less_eq_ParchinLevel :: "ParchinLevel \<Rightarrow> ParchinLevel \<Rightarrow> bool" where
  "a \<le> b \<longleftrightarrow> parchinRank a \<le> parchinRank b"

definition less_ParchinLevel :: "ParchinLevel \<Rightarrow> ParchinLevel \<Rightarrow> bool" where
  "a < b \<longleftrightarrow> parchinRank a < parchinRank b"

instance
  by standard (auto simp: less_eq_ParchinLevel_def less_ParchinLevel_def dest: parchinRank_inj)

end

section \<open>Plans and catalog items\<close>

datatype InfrastructureProvider = ARVAN
datatype InfrastructureProductKind = READY_INSTANT_SERVER | CLOUD_SERVER
datatype OfferSource = API_CATALOG | MANUAL_API_BACKED | PREPROVISIONED_INVENTORY | MANUAL_ADMIN
datatype DeliveryMode = RAW | MANAGED
datatype CatalogStatus =
    CATALOG_ACTIVE | CATALOG_STALE | CATALOG_UNAVAILABLE | CATALOG_INVALID_RESOURCE
  | CATALOG_INVALID_PRICE | CATALOG_DISABLED

record ProviderCatalogItem =
  ci_id :: string
  ci_provider :: InfrastructureProvider
  ci_apiVersion :: string
  ci_productKind :: InfrastructureProductKind
  ci_source :: OfferSource
  ci_regionCode :: string
  ci_sizeCode :: string
  ci_compatibleImageCodes :: jsval
  ci_vcpu :: "int option"
  ci_ramMb :: "int option"
  ci_diskGb :: "int option"
  ci_available :: bool
  ci_active :: bool
  ci_status :: CatalogStatus
  ci_priceHourlyAmount :: "int option"
  ci_priceMonthlyAmount :: "int option"
  ci_priceScale :: nat
  ci_currencyCode :: "string option"
  ci_amountUnit :: "string option"
  ci_providerHourlyPriceIrr :: "int option"
  ci_providerMonthlyPriceIrr :: "int option"
  ci_lastSyncedAt :: int
  ci_manualPriceValidUntil :: "int option"
  ci_manualLastVerifiedAt :: "int option"

record InfrastructurePlan =
  pl_provider :: InfrastructureProvider
  pl_providerApiVersion :: string
  pl_productKind :: InfrastructureProductKind
  pl_offerSource :: OfferSource
  pl_regionCode :: string
  pl_sizeCode :: string
  pl_imageCode :: string
  pl_deliveryMode :: DeliveryMode
  pl_parchinIncluded :: bool
  pl_minimumParchinLevel :: "ParchinLevel option"
  pl_active :: bool
  pl_mapped :: bool
  pl_offerLastVerifiedAt :: "int option"
  pl_offerPriceValidUntil :: "int option"
  pl_catalogItem :: "ProviderCatalogItem option"

record PlanPricingOptions =
  po_productMarkupBasisPoints :: "int option"
  po_taxBasisPoints :: "int option"
  po_parchinLevel :: "ParchinLevel option"
  po_parchinPriceRial :: "int option"
  po_termMonths :: "int option"
  po_couponDiscountBps :: "int option"
  po_minimumPostDiscountGrossMarginBps :: "int option"
  po_infrastructureSaleRialOverride :: "int option"

record EffectivePlanPricing =
  ep_catalogItemId :: string
  ep_providerBasePriceRial :: int
  ep_markupBasisPoints :: int
  ep_providerMarkupBasisPoints :: int
  ep_productMarkupBasisPoints :: int
  ep_markupAmountRial :: int
  ep_parchinLevel :: ParchinLevel
  ep_parchinPriceRial :: int
  ep_taxBasisPoints :: int
  ep_taxAmountRial :: int
  ep_termMonths :: int
  ep_termDiscountBps :: int
  ep_lineItems :: "QuoteLineItem list"
  ep_finalPriceRial :: int
  ep_renewalPriceRial :: int
  ep_currency :: string
  ep_providerPriceCheckedAt :: int
  ep_vcpu :: "int option"
  ep_ramGb :: "int option"
  ep_storageGb :: "int option"
  ep_available :: bool
  ep_discountCapped :: bool
  ep_requestedDiscountRial :: int
  ep_maximumAllowedDiscountRial :: int

definition orElse :: "'a option \<Rightarrow> 'a \<Rightarrow> 'a" where
  "orElse x d = (case x of None \<Rightarrow> d | Some y \<Rightarrow> y)"

section \<open>The markup source\<close>

datatype MarkupSource = profit_curve | provider_config | manual_zero

record ResolvedProviderMarkup =
  rm_providerMarkupBps :: int
  rm_infrastructureSaleRialOverride :: "int option"
  rm_curve :: "ProfitCurveResolution option"
  rm_source :: MarkupSource

definition isProfitCurveEligiblePlan :: "InfrastructurePlan \<Rightarrow> bool" where
  "isProfitCurveEligiblePlan plan \<longleftrightarrow>
     pl_offerSource plan = API_CATALOG \<and> pl_productKind plan \<in> {CLOUD_SERVER, READY_INSTANT_SERVER}"

definition resolveProviderMarkupForPlan ::
  "InfrastructurePlan \<Rightarrow> int \<Rightarrow> int \<Rightarrow> ProfitCurveConfigInput option \<Rightarrow> bool
    \<Rightarrow> string + ResolvedProviderMarkup" where
  "resolveProviderMarkupForPlan plan cost configMarkup curveOpt manualAdmin =
     (if manualAdmin
      then Inr \<lparr>rm_providerMarkupBps = 0, rm_infrastructureSaleRialOverride = None,
                rm_curve = None, rm_source = manual_zero\<rparr>
      else case curveOpt of
        Some curve \<Rightarrow>
          if pc_enabled curve \<and> isProfitCurveEligiblePlan plan \<and> cost > 0
          then bindE (resolveProfitCurve cost (pc_bands curve)) (\<lambda>resolved.
            Inr \<lparr>rm_providerMarkupBps = rs_effectiveMarkupBps resolved,
                 rm_infrastructureSaleRialOverride =
                   (if rs_transition resolved then Some (rs_infrastructureSaleRial resolved) else None),
                 rm_curve = Some resolved, rm_source = profit_curve\<rparr>)
          else Inr \<lparr>rm_providerMarkupBps = configMarkup, rm_infrastructureSaleRialOverride = None,
                    rm_curve = None, rm_source = provider_config\<rparr>
      | None \<Rightarrow> Inr \<lparr>rm_providerMarkupBps = configMarkup, rm_infrastructureSaleRialOverride = None,
                    rm_curve = None, rm_source = provider_config\<rparr>)"

text \<open>The commerce settings' floor is an optional integer.\<close>

definition minimumPostDiscountMarginFromConfigs ::
  "int option \<Rightarrow> ProfitCurveConfigInput option \<Rightarrow> int" where
  "minimumPostDiscountMarginFromConfigs commerce curve =
     (case curve of Some c \<Rightarrow> pc_minimumPostDiscountGrossMarginBps c
      | None \<Rightarrow> (case commerce of Some m \<Rightarrow> m
          | None \<Rightarrow> DEFAULT_MINIMUM_POST_DISCOUNT_GROSS_MARGIN_BPS))"

section \<open>Catalog prices\<close>

definition compatibleImageCodes :: "ProviderCatalogItem \<Rightarrow> string list" where
  "compatibleImageCodes item =
     (case ci_compatibleImageCodes item of
        JArr xs \<Rightarrow> concat (map (\<lambda>x. case x of JStr s \<Rightarrow> if s \<noteq> [] then [s] else [] | _ \<Rightarrow> []) xs)
      | _ \<Rightarrow> [])"

definition catalogItemPriceRial :: "ProviderCatalogItem \<Rightarrow> int option \<Rightarrow> string + int option" where
  "catalogItemPriceRial item amountOpt =
     (let contract = normalizeProviderPriceContract (ci_currencyCode item) (ci_amountUnit item)
      in case (amountOpt, contract) of
           (Some amount, Some c) \<Rightarrow>
             if amount \<le> 0 then Inr None
             else bindE (providerAmountToRial amount (ci_priceScale item) c) (\<lambda>r. Inr (Some r))
         | _ \<Rightarrow> Inr None)"

definition catalogItemBasePriceRial :: "ProviderCatalogItem \<Rightarrow> string + int option" where
  "catalogItemBasePriceRial item =
     (case ci_providerMonthlyPriceIrr item of
        Some p \<Rightarrow> Inr (if p > 0 then Some p else None)
      | None \<Rightarrow> catalogItemPriceRial item (ci_priceMonthlyAmount item))"

definition catalogItemBaseHourlyPriceRial :: "ProviderCatalogItem \<Rightarrow> string + int option" where
  "catalogItemBaseHourlyPriceRial item =
     (case ci_providerHourlyPriceIrr item of
        Some p \<Rightarrow> Inr (if p > 0 then Some p else None)
      | None \<Rightarrow> catalogItemPriceRial item (ci_priceHourlyAmount item))"

text \<open>The quote adapter renames the fields of the engine's breakdown.\<close>

definition calculateQuotePricing :: "CommercialPricingInput \<Rightarrow> string + CommercialPriceBreakdown" where
  "calculateQuotePricing input = computeCommercialPriceBreakdown input"

definition quoteInput ::
  "int \<Rightarrow> int \<Rightarrow> PlanPricingOptions \<Rightarrow> CommercialPricingInput" where
  "quoteInput base markupBasisPoints options =
     \<lparr>providerMonthlyPriceIrr = base,
      providerMarkupBps = markupBasisPoints,
      productMarkupBps = orElse (po_productMarkupBasisPoints options) 0,
      parchinLevel = orElse (po_parchinLevel options) PARCHIN_START,
      parchinPriceIrr = orElse (po_parchinPriceRial options) 0,
      providerAddons = [],
      taxBps = orElse (po_taxBasisPoints options) 0,
      termMonths = Some (orElse (po_termMonths options) 1),
      couponDiscountBps = po_couponDiscountBps options,
      minimumPostDiscountGrossMarginBps = po_minimumPostDiscountGrossMarginBps options,
      infrastructureSaleRialOverride = po_infrastructureSaleRialOverride options\<rparr>"

definition manualContractValid :: "int \<Rightarrow> ProviderCatalogItem \<Rightarrow> bool" where
  "manualContractValid now item \<longleftrightarrow>
     ci_source item = API_CATALOG \<or>
     (ci_manualLastVerifiedAt item \<noteq> None \<and>
      (case ci_manualPriceValidUntil item of None \<Rightarrow> False | Some t \<Rightarrow> t > now))"

definition resolveCatalogItemPricing ::
  "int \<Rightarrow> ProviderCatalogItem \<Rightarrow> int \<Rightarrow> PlanPricingOptions \<Rightarrow> string + EffectivePlanPricing option" where
  "resolveCatalogItemPricing now item markupBasisPoints options =
     bindE (catalogItemBasePriceRial item) (\<lambda>baseOpt.
     case baseOpt of
       None \<Rightarrow> Inr None
     | Some base \<Rightarrow>
       if \<not> ci_active item \<or> \<not> ci_available item \<or> ci_status item \<noteq> CATALOG_ACTIVE
          \<or> \<not> manualContractValid now item
       then Inr None
       else bindE (calculateQuotePricing (quoteInput base markupBasisPoints options)) (\<lambda>q.
         Inr (Some
           \<lparr>ep_catalogItemId = ci_id item,
            ep_providerBasePriceRial = base,
            ep_markupBasisPoints = bd_markupBps q,
            ep_providerMarkupBasisPoints = markupBasisPoints,
            ep_productMarkupBasisPoints = orElse (po_productMarkupBasisPoints options) 0,
            ep_markupAmountRial = bd_totalMarkupRial q,
            ep_parchinLevel = orElse (po_parchinLevel options) PARCHIN_START,
            ep_parchinPriceRial = orElse (po_parchinPriceRial options) 0,
            ep_taxBasisPoints = orElse (po_taxBasisPoints options) 0,
            ep_taxAmountRial = bd_taxRial q,
            ep_termMonths = bd_termMonths q,
            ep_termDiscountBps = bd_termDiscountBps q,
            ep_lineItems = bd_lineItems q,
            ep_finalPriceRial = bd_finalPriceRial q,
            ep_renewalPriceRial = bd_renewalPriceRial q,
            ep_currency = ''IRR'',
            ep_providerPriceCheckedAt = ci_lastSyncedAt item,
            ep_vcpu = ci_vcpu item,
            ep_ramGb = map_option (\<lambda>mb. - ((- mb) div 1024)) (ci_ramMb item),
            ep_storageGb = ci_diskGb item,
            ep_available = True,
            ep_discountCapped = bd_discountCapped q,
            ep_requestedDiscountRial = bd_requestedDiscountRial q,
            ep_maximumAllowedDiscountRial = bd_maximumAllowedDiscountRial q\<rparr>)))"

section \<open>Plan prices\<close>

definition compatibleProductKind :: "InfrastructurePlan \<Rightarrow> ProviderCatalogItem \<Rightarrow> bool" where
  "compatibleProductKind plan item \<longleftrightarrow>
     ci_productKind item = pl_productKind plan \<or>
     (pl_provider plan = ARVAN \<and> pl_productKind plan = READY_INSTANT_SERVER \<and>
      ci_productKind item = CLOUD_SERVER)"

text \<open>The mapping guard: the plan and its catalog item describe the same resource.\<close>

definition planMatchesItem :: "InfrastructurePlan \<Rightarrow> ProviderCatalogItem \<Rightarrow> bool" where
  "planMatchesItem plan item \<longleftrightarrow>
     ci_provider item = pl_provider plan \<and> ci_apiVersion item = pl_providerApiVersion plan \<and>
     compatibleProductKind plan item \<and> ci_regionCode item = pl_regionCode plan \<and>
     ci_sizeCode item = pl_sizeCode plan \<and> pl_imageCode plan \<in> set (compatibleImageCodes item)"

definition offerContractValid :: "int \<Rightarrow> InfrastructurePlan \<Rightarrow> bool" where
  "offerContractValid now plan \<longleftrightarrow>
     pl_offerSource plan = API_CATALOG \<or>
     (pl_offerLastVerifiedAt plan \<noteq> None \<and>
      (case pl_offerPriceValidUntil plan of None \<Rightarrow> False | Some t \<Rightarrow> t > now))"

definition planMinimumParchin :: "InfrastructurePlan \<Rightarrow> ParchinLevel option" where
  "planMinimumParchin plan =
     (case pl_minimumParchinLevel plan of
        Some l \<Rightarrow> Some l
      | None \<Rightarrow> if pl_parchinIncluded plan then Some PARCHIN_START else None)"

definition resolvePlanPricing ::
  "int \<Rightarrow> InfrastructurePlan \<Rightarrow> int option \<Rightarrow> PlanPricingOptions \<Rightarrow> string + EffectivePlanPricing option" where
  "resolvePlanPricing now plan config options =
     (let manualAdmin = (pl_offerSource plan = MANUAL_ADMIN) in
      case pl_catalogItem plan of
        None \<Rightarrow> Inr None
      | Some item \<Rightarrow>
        if \<not> pl_active plan \<or> \<not> pl_mapped plan \<or> (config = None \<and> \<not> manualAdmin)
           \<or> \<not> planMatchesItem plan item
        then Inr None
        else if \<not> offerContractValid now plan then Inr None
        else case planMinimumParchin plan of
          None \<Rightarrow> Inr None
        | Some minimumLevel \<Rightarrow>
          if pl_deliveryMode plan \<noteq> MANAGED then Inr None
          else if (case po_parchinLevel options of None \<Rightarrow> False
                   | Some l \<Rightarrow> parchinRank l < parchinRank minimumLevel) then Inr None
          else resolveCatalogItemPricing now item
                 (if manualAdmin then 0 else orElse config 0)
                 (options\<lparr>po_productMarkupBasisPoints :=
                            (if manualAdmin then Some 0 else po_productMarkupBasisPoints options),
                          po_parchinLevel := Some (orElse (po_parchinLevel options) minimumLevel)\<rparr>))"

section \<open>Snapshots and sellable prices\<close>

text \<open>A snapshot field that may be absent (\<open>undefined\<close>, not compared), \<open>null\<close> or a value.\<close>

datatype 'a snapField = Absent | Snap "'a option"

fun snapMatches :: "'a snapField \<Rightarrow> 'a \<Rightarrow> bool" where
  "snapMatches Absent v = True"
| "snapMatches (Snap x) v = (x = Some v)"

record PriceSnapshot =
  sn_catalogItemId :: "string option"
  sn_providerBasePriceRial :: "int option"
  sn_markupBasisPoints :: "int option"
  sn_finalPriceRial :: "int option"
  sn_currency :: "string option"
  sn_parchinLevel :: "ParchinLevel snapField"
  sn_parchinPriceIrr :: "int snapField"
  sn_taxBasisPoints :: "int snapField"
  sn_taxAmountIrr :: "int snapField"

definition samePriceSnapshot :: "EffectivePlanPricing \<Rightarrow> PriceSnapshot \<Rightarrow> bool" where
  "samePriceSnapshot current snapshot \<longleftrightarrow>
     sn_catalogItemId snapshot = Some (ep_catalogItemId current) \<and>
     sn_providerBasePriceRial snapshot = Some (ep_providerBasePriceRial current) \<and>
     sn_markupBasisPoints snapshot = Some (ep_markupBasisPoints current) \<and>
     sn_finalPriceRial snapshot = Some (ep_finalPriceRial current) \<and>
     sn_currency snapshot = Some (ep_currency current) \<and>
     snapMatches (sn_parchinLevel snapshot) (ep_parchinLevel current) \<and>
     snapMatches (sn_parchinPriceIrr snapshot) (ep_parchinPriceRial current) \<and>
     snapMatches (sn_taxBasisPoints snapshot) (ep_taxBasisPoints current) \<and>
     snapMatches (sn_taxAmountIrr snapshot) (ep_taxAmountRial current)"

definition isVerifiedSellablePricing :: "EffectivePlanPricing option \<Rightarrow> bool" where
  "isVerifiedSellablePricing priced =
     (case priced of None \<Rightarrow> False
      | Some p \<Rightarrow> ep_finalPriceRial p > 1 \<and> ep_renewalPriceRial p > 1 \<and> ep_providerBasePriceRial p > 1)"

definition requireVerifiedSellablePricing ::
  "EffectivePlanPricing option \<Rightarrow> string + EffectivePlanPricing" where
  "requireVerifiedSellablePricing priced =
     (case priced of Some p \<Rightarrow> if isVerifiedSellablePricing priced then Inr p
        else Inl ''pricing_unavailable'' | None \<Rightarrow> Inl ''pricing_unavailable'')"

text \<open>A configuration snapshot is untyped JSON; a field compares with \<open>===\<close>.\<close>

definition jsIntOrNull :: "int option \<Rightarrow> jsval" where
  "jsIntOrNull x = (case x of None \<Rightarrow> JNull | Some n \<Rightarrow> JInt n)"

fun offerSourceText :: "OfferSource \<Rightarrow> string" where
  "offerSourceText API_CATALOG = ''API_CATALOG''"
| "offerSourceText MANUAL_API_BACKED = ''MANUAL_API_BACKED''"
| "offerSourceText PREPROVISIONED_INVENTORY = ''PREPROVISIONED_INVENTORY''"
| "offerSourceText MANUAL_ADMIN = ''MANUAL_ADMIN''"

fun productKindText :: "InfrastructureProductKind \<Rightarrow> string" where
  "productKindText READY_INSTANT_SERVER = ''READY_INSTANT_SERVER''"
| "productKindText CLOUD_SERVER = ''CLOUD_SERVER''"

fun deliveryModeText :: "DeliveryMode \<Rightarrow> string" where
  "deliveryModeText RAW = ''RAW''"
| "deliveryModeText MANAGED = ''MANAGED''"

fun parchinLevelText :: "ParchinLevel \<Rightarrow> string" where
  "parchinLevelText PARCHIN_START = ''PARCHIN_START''"
| "parchinLevelText PARCHIN_ACTIVE = ''PARCHIN_ACTIVE''"
| "parchinLevelText PARCHIN_STABLE = ''PARCHIN_STABLE''"

fun samePlanConfigurationSnapshot ::
  "InfrastructurePlan \<Rightarrow> EffectivePlanPricing \<Rightarrow> jsval \<Rightarrow> bool" where
  "samePlanConfigurationSnapshot plan current (JObj value) =
     (jsGet ''provider'' value = JStr ''ARVAN'' \<and>
      jsGet ''offerSource'' value = JStr (offerSourceText (pl_offerSource plan)) \<and>
      jsGet ''catalogItemId'' value = JStr (ep_catalogItemId current) \<and>
      jsGet ''regionCode'' value = JStr (pl_regionCode plan) \<and>
      jsGet ''sizeCode'' value = JStr (pl_sizeCode plan) \<and>
      jsGet ''imageCode'' value = JStr (pl_imageCode plan) \<and>
      jsGet ''deliveryMode'' value = JStr (deliveryModeText (pl_deliveryMode plan)) \<and>
      jsGet ''vcpu'' value = jsIntOrNull (ep_vcpu current) \<and>
      jsGet ''ramGb'' value = jsIntOrNull (ep_ramGb current) \<and>
      jsGet ''storageGb'' value = jsIntOrNull (ep_storageGb current) \<and>
      jsGet ''parchinIncluded'' value = JBool (pl_parchinIncluded plan) \<and>
      (jsNullish (jsGet ''providerApiVersion'' value) \<or>
       jsGet ''providerApiVersion'' value = JStr (pl_providerApiVersion plan)) \<and>
      (jsNullish (jsGet ''productKind'' value) \<or>
       jsGet ''productKind'' value = JStr (productKindText (pl_productKind plan))) \<and>
      (jsNullish (jsGet ''parchinLevel'' value) \<or>
       jsGet ''parchinLevel'' value = JStr (parchinLevelText (ep_parchinLevel current))))"
| "samePlanConfigurationSnapshot plan current _ = False"

section \<open>Properties\<close>

lemma resolved_plain_sale:
  assumes "resolveProfitCurve c bands = Inr r" and "\<not> rs_transition r" and "0 < c"
  obtains k where "multiplyBpsRoundUp c (rs_effectiveMarkupBps r) = Inr k"
    and "rs_infrastructureSaleRial r = c + k"
  using assms
  by (auto simp: resolveProfitCurve_def Let_def bindE_eq_Inr infrastructureSaleFromMargin_def
      split: option.splits if_split_asm)

lemma resolved_markup_curve:
  assumes "resolveProviderMarkupForPlan plan cost configMarkup curve manual = Inr m"
    and "rm_curve m = Some r"
  obtains cfg :: ProfitCurveConfigInput where "0 < cost" and "resolveProfitCurve cost (pc_bands cfg) = Inr r"
    and "rm_providerMarkupBps m = rs_effectiveMarkupBps r"
    and "rm_infrastructureSaleRialOverride m =
      (if rs_transition r then Some (rs_infrastructureSaleRial r) else None)"
proof (cases curve)
  case None
  then show ?thesis using assms by (auto simp: resolveProviderMarkupForPlan_def split: if_split_asm)
next
  case (Some cfg)
  then show ?thesis using assms that [of cfg]
    by (auto simp: resolveProviderMarkupForPlan_def bindE_eq_Inr split: if_split_asm)
qed

text \<open>C34: the customer is charged the curve's price. When a plan's markup comes from the profit curve and
  the engine prices it with that markup and that override, the infrastructure part of the quote (provider
  cost and provider markup) is exactly the term's months times the sale the curve resolved, in and outside
  of transitions.\<close>

theorem curve_sale_is_charged:
  assumes "resolveProviderMarkupForPlan plan (providerMonthlyPriceIrr i) configMarkup curve manual = Inr m"
    and "rm_curve m = Some r" and "providerMarkupBps i = rm_providerMarkupBps m"
    and "infrastructureSaleRialOverride i = rm_infrastructureSaleRialOverride m"
    and "computeCommercialPriceBreakdown i = Inr b"
  shows "bd_providerCostRial b + bd_providerMarkupRial b =
    (case termMonths i of None \<Rightarrow> 1 | Some t \<Rightarrow> t) * rs_infrastructureSaleRial r"
proof -
  obtain cfg :: ProfitCurveConfigInput where curve: "0 < providerMonthlyPriceIrr i"
    "resolveProfitCurve (providerMonthlyPriceIrr i) (pc_bands cfg) = Inr r"
    "rm_providerMarkupBps m = rs_effectiveMarkupBps r"
    "rm_infrastructureSaleRialOverride m =
      (if rs_transition r then Some (rs_infrastructureSaleRial r) else None)"
    using assms(1,2) by (rule resolved_markup_curve)
  from assms(5) show ?thesis
  proof (rule computeCommercialPriceBreakdown_Inr, goal_cases)
    case (1 n k tot prv prd ad dbps src req mx tax rtax)
    have n: "n = (case termMonths i of None \<Rightarrow> 1 | Some t \<Rightarrow> t)"
      using 1(1) by (simp add: validatePricingInput_eq_Inr)
    have "providerMonthlyPriceIrr i + prv = rs_infrastructureSaleRial r"
    proof (cases "rs_transition r")
      case True
      then show ?thesis using 1(2) assms(4) curve(4)
        by (auto simp: monthlyMarkup_def bindE_eq_Inr Let_def split: if_split_asm)
    next
      case False
      from resolved_plain_sale [OF curve(2) False curve(1)]
      obtain s where "multiplyBpsRoundUp (providerMonthlyPriceIrr i) (rs_effectiveMarkupBps r) = Inr s"
        "rs_infrastructureSaleRial r = providerMonthlyPriceIrr i + s" .
      then show ?thesis using 1(2) assms(3,4) curve(3,4) False
        by (auto simp: monthlyMarkup_def bindE_eq_Inr)
    qed
    then show ?case using 1(13,15) n by (simp add: algebra_simps flip: distrib_right)
  qed
qed

definition sample_plan :: InfrastructurePlan where
  "sample_plan =
     \<lparr>pl_provider = ARVAN, pl_providerApiVersion = ''v1'', pl_productKind = READY_INSTANT_SERVER,
      pl_offerSource = API_CATALOG, pl_regionCode = ''ir-1'', pl_sizeCode = ''g1'', pl_imageCode = ''deb12'',
      pl_deliveryMode = MANAGED, pl_parchinIncluded = True, pl_minimumParchinLevel = None,
      pl_active = True, pl_mapped = True, pl_offerLastVerifiedAt = None, pl_offerPriceValidUntil = None,
      pl_catalogItem = Some
        \<lparr>ci_id = ''item'', ci_provider = ARVAN, ci_apiVersion = ''v1'', ci_productKind = CLOUD_SERVER,
         ci_source = API_CATALOG, ci_regionCode = ''ir-1'', ci_sizeCode = ''g1'',
         ci_compatibleImageCodes = JArr [JStr ''deb12'', JInt 1], ci_vcpu = Some 2, ci_ramMb = Some 3000,
         ci_diskGb = Some 25, ci_available = True, ci_active = True, ci_status = CATALOG_ACTIVE,
         ci_priceHourlyAmount = None, ci_priceMonthlyAmount = Some 5200000000001, ci_priceScale = 6,
         ci_currencyCode = Some '' irr'', ci_amountUnit = Some ''Toman'', ci_providerHourlyPriceIrr = None,
         ci_providerMonthlyPriceIrr = None, ci_lastSyncedAt = 7, ci_manualPriceValidUntil = None,
         ci_manualLastVerifiedAt = None\<rparr>\<rparr>"

definition sample_curve_input :: CommercialPricingInput where
  "sample_curve_input =
     \<lparr>providerMonthlyPriceIrr = 52000001, providerMarkupBps = 22052, productMarkupBps = 100,
      parchinLevel = PARCHIN_START, parchinPriceIrr = 1000000, providerAddons = [], taxBps = 1000,
      termMonths = Some 3, couponDiscountBps = None, minimumPostDiscountGrossMarginBps = Some 2000,
      infrastructureSaleRialOverride = Some 166666666\<rparr>"

theorem curve_sale_is_charged_witness:
  "\<exists>b. computeCommercialPriceBreakdown sample_curve_input = Inr b
    \<and> bd_providerCostRial b + bd_providerMarkupRial b = 3 * 166666666"
proof -
  have m: "resolveProviderMarkupForPlan sample_plan (providerMonthlyPriceIrr sample_curve_input) 4286
      (Some defaultProfitCurveConfig) False = Inr
      \<lparr>rm_providerMarkupBps = 22052, rm_infrastructureSaleRialOverride = Some 166666666,
       rm_curve = Some
         \<lparr>rs_targetGrossMarginBps = 6000, rs_effectiveGrossMarginBps = 6880, rs_effectiveMarkupBps = 22052,
          rs_bandId = (Some ''band-5-10m'', 1), rs_bandIndex = 1, rs_transition = True,
          rs_transitionStartRial = Some 50000000, rs_transitionEndRial = Some 66666667,
          rs_infrastructureSaleRial = 166666666\<rparr>,
       rm_source = profit_curve\<rparr>"
    by code_simp
  obtain b where b: "computeCommercialPriceBreakdown sample_curve_input = Inr b"
    using priceable_computes [of sample_curve_input]
    by (auto simp: isOk_iff priceable_def sample_curve_input_def isBillingTermMonths_def)
  show ?thesis
    using b curve_sale_is_charged [OF m _ _ _ b] by (simp add: sample_curve_input_def)
qed

definition sample_options :: PlanPricingOptions where
  "sample_options =
     \<lparr>po_productMarkupBasisPoints = Some 100, po_taxBasisPoints = Some 1000, po_parchinLevel = Some PARCHIN_ACTIVE,
      po_parchinPriceRial = Some 1000000, po_termMonths = Some 3, po_couponDiscountBps = None,
      po_minimumPostDiscountGrossMarginBps = Some 2000, po_infrastructureSaleRialOverride = Some 166666666\<rparr>"

text \<open>A plan is only priced when it may be sold. If pricing a plan returns a price then the plan is active,
  mapped and managed, its catalog item is live and describes the same provider, API version, region, size and
  image, the Parchin level is at least the plan's minimum, an administrator's manual offer carries no markup,
  and the returned final and renewal prices are the engine's.\<close>

theorem priced_plan_is_sellable:
  assumes "resolvePlanPricing now plan config options = Inr (Some p)"
  shows "\<exists>item base q. pl_catalogItem plan = Some item \<and> planMatchesItem plan item
    \<and> pl_active plan \<and> pl_mapped plan \<and> pl_deliveryMode plan = MANAGED
    \<and> ci_active item \<and> ci_available item \<and> ci_status item = CATALOG_ACTIVE
    \<and> (case planMinimumParchin plan of None \<Rightarrow> False | Some l \<Rightarrow> l \<le> ep_parchinLevel p)
    \<and> (pl_offerSource plan = MANUAL_ADMIN \<longrightarrow> ep_markupBasisPoints p = 0)
    \<and> catalogItemBasePriceRial item = Inr (Some base) \<and> ep_providerBasePriceRial p = base
    \<and> computeCommercialPriceBreakdown (quoteInput base (ep_providerMarkupBasisPoints p)
         (options\<lparr>po_productMarkupBasisPoints := Some (ep_productMarkupBasisPoints p),
                   po_parchinLevel := Some (ep_parchinLevel p)\<rparr>)) = Inr q
    \<and> ep_finalPriceRial p = bd_finalPriceRial q \<and> ep_renewalPriceRial p = bd_renewalPriceRial q"
proof -
  let ?man = "pl_offerSource plan = MANUAL_ADMIN"
  from assms obtain item l where item: "pl_catalogItem plan = Some item" "planMatchesItem plan item"
    "pl_active plan" "pl_mapped plan" "pl_deliveryMode plan = MANAGED"
    "planMinimumParchin plan = Some l" "l \<le> orElse (po_parchinLevel options) l"
    and res: "resolveCatalogItemPricing now item (if ?man then 0 else orElse config 0)
        (options\<lparr>po_productMarkupBasisPoints :=
            (if ?man then Some 0 else po_productMarkupBasisPoints options),
          po_parchinLevel := Some (orElse (po_parchinLevel options) l)\<rparr>) = Inr (Some p)"
    by (auto simp: resolvePlanPricing_def Let_def orElse_def less_eq_ParchinLevel_def
        split: option.splits if_split_asm)
  let ?o = "options\<lparr>po_productMarkupBasisPoints :=
            (if ?man then Some 0 else po_productMarkupBasisPoints options),
          po_parchinLevel := Some (orElse (po_parchinLevel options) l)\<rparr>"
  from res obtain base q where q: "catalogItemBasePriceRial item = Inr (Some base)"
    "ci_active item" "ci_available item" "ci_status item = CATALOG_ACTIVE"
    "computeCommercialPriceBreakdown (quoteInput base (if ?man then 0 else orElse config 0) ?o) = Inr q"
    "ep_providerBasePriceRial p = base" "ep_finalPriceRial p = bd_finalPriceRial q"
    "ep_renewalPriceRial p = bd_renewalPriceRial q" "ep_markupBasisPoints p = bd_markupBps q"
    "ep_providerMarkupBasisPoints p = (if ?man then 0 else orElse config 0)"
    "ep_productMarkupBasisPoints p = orElse (po_productMarkupBasisPoints ?o) 0"
    "ep_parchinLevel p = orElse (po_parchinLevel options) l"
    by (auto simp: resolveCatalogItemPricing_def bindE_eq_Inr calculateQuotePricing_def orElse_def
        split: option.splits if_split_asm)
  have "bd_markupBps q = providerMarkupBps (quoteInput base (if ?man then 0 else orElse config 0) ?o)
      + productMarkupBps (quoteInput base (if ?man then 0 else orElse config 0) ?o)"
    using q(5) by (auto simp: computeCommercialPriceBreakdown_def bindE_eq_Inr Let_def
        validatePricingInput_eq_Inr)
  then have "?man \<longrightarrow> ep_markupBasisPoints p = 0"
    using q(9) by (simp add: quoteInput_def orElse_def)
  moreover have "quoteInput base (ep_providerMarkupBasisPoints p)
      (options\<lparr>po_productMarkupBasisPoints := Some (ep_productMarkupBasisPoints p),
                po_parchinLevel := Some (ep_parchinLevel p)\<rparr>) =
      quoteInput base (if ?man then 0 else orElse config 0) ?o"
    using q(10-12) by (simp add: quoteInput_def orElse_def)
  ultimately show ?thesis using item q by simp
qed

theorem priced_plan_is_sellable_witness:
  "\<exists>p item base q. resolvePlanPricing 0 sample_plan (Some 22052) sample_options = Inr (Some p)
    \<and> pl_catalogItem sample_plan = Some item \<and> catalogItemBasePriceRial item = Inr (Some base)
    \<and> computeCommercialPriceBreakdown (quoteInput base (ep_providerMarkupBasisPoints p)
         (sample_options\<lparr>po_productMarkupBasisPoints := Some (ep_productMarkupBasisPoints p),
                   po_parchinLevel := Some (ep_parchinLevel p)\<rparr>)) = Inr q
    \<and> ep_finalPriceRial p = bd_finalPriceRial q"
proof -
  have "case resolvePlanPricing 0 sample_plan (Some 22052) sample_options of
      Inr (Some p) \<Rightarrow> ep_finalPriceRial p = 527265200 | _ \<Rightarrow> False"
    by code_simp
  then obtain p where "resolvePlanPricing 0 sample_plan (Some 22052) sample_options = Inr (Some p)"
    by (auto split: sum.splits option.splits)
  then show ?thesis using priced_plan_is_sellable by blast
qed

end
