(* ===== verification/Billing.thy ===== *)
theory Billing
  imports PlanPricing
begin

text \<open>
  The arithmetic of pay-as-you-go billing: line amounts, billable components and coverage of an interval
  (\<open>src/lib/billing/calculation.ts\<close>), and the billing policy with its periods, credits and runway
  (\<open>src/lib/billing/policy.ts\<close>). A \<open>Date\<close> is its epoch time in milliseconds, an integer; UTC hours
  and days are multiples of their lengths. An error is its code.
\<close>

section \<open>Line amounts\<close>

datatype BillingCalculationUnit = SECOND | MINUTE | HOUR | DAY
datatype BillingComponentType =
    COMPUTE | DISK | IP | BACKUP | TRAFFIC | SNAPSHOT | ADDON | ONE_TIME | ADJUSTMENT
datatype BillingResourceUnit =
    U_INSTANCE | U_VCPU | U_GB_RAM | U_GB_DISK | U_IP | U_BACKUP | U_GB_TRAFFIC | U_SNAPSHOT | U_ADDON
datatype BillingRoundingPolicy = EXACT | CEIL_UNIT | FLOOR_UNIT | NEAREST_UNIT
datatype ResourceVersionState = RV_ACTIVE | RV_STOPPED | RV_TERMINATED

record ResourceQuantitySnapshot =
  rq_state :: ResourceVersionState
  rq_vcpu :: int
  rq_ramMb :: int
  rq_diskGb :: int
  rq_ipv4Count :: int
  rq_backupEnabled :: bool
  rq_snapshotCount :: int

record CalculableRate =
  cr_calculationUnit :: BillingCalculationUnit
  cr_minimumChargeSeconds :: int
  cr_roundingPolicy :: BillingRoundingPolicy
  cr_prorationSupported :: bool
  cr_resourceUnit :: BillingResourceUnit
  cr_normalizedProviderRial :: int
  cr_customerRateRial :: int
  cr_markupBasisPoints :: int

definition ceilDiv :: "int \<Rightarrow> int \<Rightarrow> string + int" where
  "ceilDiv numerator denominator =
     (if denominator \<le> 0 \<or> numerator < 0 then Inl ''invalid_division''
      else if numerator = 0 then Inr 0
      else Inr ((numerator + denominator - 1) sdiv denominator))"

fun unitSeconds :: "BillingCalculationUnit \<Rightarrow> int" where
  "unitSeconds SECOND = 1"
| "unitSeconds MINUTE = 60"
| "unitSeconds HOUR = 3600"
| "unitSeconds DAY = 86400"

text \<open>Numerator and denominator of the billed quantity of a resource.\<close>

fun resourceFactor :: "BillingResourceUnit \<Rightarrow> ResourceQuantitySnapshot \<Rightarrow> string + int \<times> int" where
  "resourceFactor U_INSTANCE r = Inr (1, 1)"
| "resourceFactor U_ADDON r = Inr (1, 1)"
| "resourceFactor U_VCPU r = Inr (rq_vcpu r, 1)"
| "resourceFactor U_GB_RAM r = Inr (rq_ramMb r, 1024)"
| "resourceFactor U_GB_DISK r = Inr (rq_diskGb r, 1)"
| "resourceFactor U_IP r = Inr (rq_ipv4Count r, 1)"
| "resourceFactor U_BACKUP r = Inr (if rq_backupEnabled r then 1 else 0, 1)"
| "resourceFactor U_SNAPSHOT r = Inr (rq_snapshotCount r, 1)"
| "resourceFactor U_GB_TRAFFIC r = Inl ''metered_usage_required''"

definition roundedTimeFactor ::
  "int \<Rightarrow> int \<Rightarrow> int \<Rightarrow> BillingRoundingPolicy \<Rightarrow> bool \<Rightarrow> string + int \<times> int" where
  "roundedTimeFactor durationSeconds unitSecs minimumChargeSeconds policy proration =
     (let duration = foldl (\<lambda>maximum v. if v > maximum then v else maximum) 0
            [durationSeconds, minimumChargeSeconds]
      in if proration \<and> policy = EXACT then Inr (duration, unitSecs)
         else if \<not> proration \<or> policy = CEIL_UNIT then bindE (ceilDiv duration unitSecs) (\<lambda>n. Inr (n, 1))
         else if policy = FLOOR_UNIT then Inr (duration sdiv unitSecs, 1)
         else if policy = NEAREST_UNIT then Inr ((duration + unitSecs sdiv 2) sdiv unitSecs, 1)
         else Inr (duration, unitSecs))"

record BillingLine =
  bl_quantityNumerator :: int
  bl_quantityDenominator :: int
  bl_providerCostRial :: int
  bl_markupAmountRial :: int
  bl_amountRial :: int

definition calculateBillingLineAmount ::
  "int \<Rightarrow> int \<Rightarrow> ResourceQuantitySnapshot \<Rightarrow> CalculableRate \<Rightarrow> string + BillingLine" where
  "calculateBillingLineAmount intervalStart intervalEnd resource rate =
     (let durationMilliseconds = intervalEnd - intervalStart in
      if durationMilliseconds \<le> 0 \<or> durationMilliseconds mod 1000 \<noteq> 0
      then Inl ''invalid_usage_interval''
      else if cr_normalizedProviderRial rate < 0 \<or> cr_customerRateRial rate < 0
              \<or> cr_markupBasisPoints rate < 0
      then Inl ''invalid_rate''
      else bindE (roundedTimeFactor (durationMilliseconds div 1000) (unitSeconds (cr_calculationUnit rate))
             (cr_minimumChargeSeconds rate) (cr_roundingPolicy rate) (cr_prorationSupported rate))
           (\<lambda>(timeNum, timeDen).
           bindE (resourceFactor (cr_resourceUnit rate) resource) (\<lambda>(resNum, resDen).
           let quantityNumerator = timeNum * resNum; quantityDenominator = timeDen * resDen in
           bindE (ceilDiv (cr_normalizedProviderRial rate * quantityNumerator) quantityDenominator)
             (\<lambda>providerCost.
           bindE (ceilDiv (cr_customerRateRial rate * quantityNumerator) quantityDenominator) (\<lambda>amount.
           if amount < providerCost then Inl ''negative_markup''
           else Inr \<lparr>bl_quantityNumerator = quantityNumerator, bl_quantityDenominator = quantityDenominator,
                     bl_providerCostRial = providerCost, bl_markupAmountRial = amount - providerCost,
                     bl_amountRial = amount\<rparr>)))))"

section \<open>Billable components and coverage\<close>

fun componentText :: "BillingComponentType \<Rightarrow> string" where
  "componentText COMPUTE = ''COMPUTE''"
| "componentText DISK = ''DISK''"
| "componentText IP = ''IP''"
| "componentText BACKUP = ''BACKUP''"
| "componentText TRAFFIC = ''TRAFFIC''"
| "componentText SNAPSHOT = ''SNAPSHOT''"
| "componentText ADDON = ''ADDON''"
| "componentText ONE_TIME = ''ONE_TIME''"
| "componentText ADJUSTMENT = ''ADJUSTMENT''"

definition readPolicyBoolean :: "jsval \<Rightarrow> BillingComponentType \<Rightarrow> bool" where
  "readPolicyBoolean policy component =
     (case policy of
        JObj es \<Rightarrow>
          (case jsGet (componentText component) es of
             JBool b \<Rightarrow> b
           | _ \<Rightarrow> (case jsGet (lowerAscii (componentText component)) es of JBool b \<Rightarrow> b | _ \<Rightarrow> False))
      | _ \<Rightarrow> False)"

definition candidateComponents :: "ResourceQuantitySnapshot \<Rightarrow> BillingComponentType list" where
  "candidateComponents r =
     [COMPUTE]
     @ (if rq_diskGb r > 0 then [DISK] else [])
     @ (if rq_ipv4Count r > 0 then [IP] else [])
     @ (if rq_backupEnabled r then [BACKUP] else [])
     @ (if rq_snapshotCount r > 0 then [SNAPSHOT] else [])"

definition requiredBillableComponents ::
  "ResourceQuantitySnapshot \<Rightarrow> jsval \<Rightarrow> BillingComponentType list" where
  "requiredBillableComponents r policy =
     (case rq_state r of
        RV_ACTIVE \<Rightarrow> candidateComponents r
      | RV_TERMINATED \<Rightarrow>
          filter (\<lambda>c. c \<noteq> COMPUTE \<and> readPolicyBoolean policy c) (candidateComponents r)
      | RV_STOPPED \<Rightarrow> filter (readPolicyBoolean policy) (candidateComponents r))"

text \<open>The sweep over clipped, sorted ranges: \<open>None\<close> is the early \<open>return false\<close>.\<close>

fun sweepRanges :: "int \<Rightarrow> (int \<times> int) list \<Rightarrow> int option" where
  "sweepRanges cursor [] = Some cursor"
| "sweepRanges cursor ((s, e) # rest) =
     (if s > cursor then None else sweepRanges (if e > cursor then e else cursor) rest)"

definition clipRange :: "int \<Rightarrow> int \<Rightarrow> int \<times> int \<Rightarrow> int \<times> int" where
  "clipRange start endT r =
     ((if fst r > start then fst r else start), (if snd r < endT then snd r else endT))"

definition assertCoveredByRanges :: "int \<Rightarrow> int \<Rightarrow> (int \<times> int) list \<Rightarrow> bool" where
  "assertCoveredByRanges start endT ranges =
     (let sorted_ranges = sort_key fst
            (map (clipRange start endT) (filter (\<lambda>r. snd r > start \<and> fst r < endT) ranges))
      in case sweepRanges start sorted_ranges of None \<Rightarrow> False | Some cursor \<Rightarrow> cursor \<ge> endT)"

section \<open>Policy\<close>

datatype BillingAvailability = HOURLY_ONLY | DAILY_ONLY | HOURLY_AND_DAILY
datatype BillingCadence = HOURLY | DAILY
datatype BillingPriceDisplayMode = DISPLAY_HOURLY | DISPLAY_DAILY | DISPLAY_BOTH

record BillingPolicyContract =
  bp_availability :: BillingAvailability
  bp_defaultCadence :: BillingCadence
  bp_displayMode :: BillingPriceDisplayMode
  bp_hourlyMinimumCreditHours :: int
  bp_dailyMinimumCreditDays :: int
  bp_hourlyGracePeriods :: int
  bp_dailyGracePeriods :: int
  bp_lowBalanceThresholdPeriods :: int

definition isCadenceAllowed :: "BillingAvailability \<Rightarrow> BillingCadence \<Rightarrow> bool" where
  "isCadenceAllowed availability cadence =
     (case availability of HOURLY_AND_DAILY \<Rightarrow> True
      | HOURLY_ONLY \<Rightarrow> cadence = HOURLY | DAILY_ONLY \<Rightarrow> cadence = DAILY)"

definition assertCadenceAllowed :: "BillingAvailability \<Rightarrow> BillingCadence \<Rightarrow> string + unit" where
  "assertCadenceAllowed availability cadence =
     guardE (isCadenceAllowed availability cadence) ''billing_cadence_disabled''"

definition safePositive :: "int \<Rightarrow> bool" where
  "safePositive v \<longleftrightarrow> 0 < v \<and> v \<le> MAX_SAFE_INTEGER"

definition safeNonNegative :: "int \<Rightarrow> bool" where
  "safeNonNegative v \<longleftrightarrow> 0 \<le> v \<and> v \<le> MAX_SAFE_INTEGER"

definition validateBillingPolicyContract :: "BillingPolicyContract \<Rightarrow> string + BillingPolicyContract" where
  "validateBillingPolicyContract p =
     bindE (assertCadenceAllowed (bp_availability p) (bp_defaultCadence p)) (\<lambda>_.
     bindE (foldE (\<lambda>_ v. guardE (safePositive v) ''invalid_billing_policy'') ()
       [bp_hourlyMinimumCreditHours p, bp_dailyMinimumCreditDays p, bp_lowBalanceThresholdPeriods p]) (\<lambda>_.
     bindE (foldE (\<lambda>_ v. guardE (safeNonNegative v) ''invalid_billing_policy'') ()
       [bp_hourlyGracePeriods p, bp_dailyGracePeriods p]) (\<lambda>_. Inr p)))"

definition calculateMarkupRial :: "int \<Rightarrow> int \<Rightarrow> string + int" where
  "calculateMarkupRial cost markup =
     (if cost < 0 \<or> markup < 0 \<or> markup > 100000 then Inl ''invalid_markup''
      else if cost = 0 \<or> markup = 0 then Inr 0
      else Inr ((cost * markup + 9999) sdiv 10000))"

definition calculateMinimumCreditRial ::
  "BillingPolicyContract \<Rightarrow> BillingCadence \<Rightarrow> int option \<Rightarrow> int option \<Rightarrow> int \<Rightarrow> string + int" where
  "calculateMinimumCreditRial p cadence hourly daily oneTime =
     bindE (assertCadenceAllowed (bp_availability p) cadence) (\<lambda>_.
     if oneTime < 0 then Inl ''invalid_one_time_charge''
     else case cadence of
       HOURLY \<Rightarrow> (case hourly of None \<Rightarrow> Inl ''hourly_estimate_unavailable''
          | Some h \<Rightarrow> if h < 0 then Inl ''hourly_estimate_unavailable''
              else Inr (h * bp_hourlyMinimumCreditHours p + oneTime))
     | DAILY \<Rightarrow> (case daily of None \<Rightarrow> Inl ''daily_estimate_unavailable''
          | Some d \<Rightarrow> if d < 0 then Inl ''daily_estimate_unavailable''
              else Inr (d * bp_dailyMinimumCreditDays p + oneTime)))"

text \<open>Current and target estimates are pairs (hourly, daily).\<close>

definition calculateResourceChangeBufferRial ::
  "BillingPolicyContract \<Rightarrow> BillingCadence \<Rightarrow> int \<times> int \<Rightarrow> int \<times> int \<Rightarrow> int option \<Rightarrow> string + int" where
  "calculateResourceChangeBufferRial p cadence currentEst targetEst oneTimeOpt =
     bindE (validateBillingPolicyContract p) (\<lambda>_.
     bindE (assertCadenceAllowed (bp_availability p) cadence) (\<lambda>_.
     let oneTime = orElse oneTimeOpt 0 in
     if oneTime < 0 then Inl ''invalid_one_time_charge''
     else let current = (if cadence = HOURLY then fst currentEst else snd currentEst);
              target = (if cadence = HOURLY then fst targetEst else snd targetEst);
              incrementalRate = (if target > current then target - current else 0);
              periods = (if cadence = HOURLY then bp_hourlyMinimumCreditHours p
                         else bp_dailyMinimumCreditDays p)
          in Inr (incrementalRate * periods + oneTime)))"

definition evaluateResourceChangeCredit :: "int \<Rightarrow> int \<Rightarrow> bool \<Rightarrow> string + bool \<times> int" where
  "evaluateResourceChangeCredit available required isDowngrade =
     (if available < 0 \<or> required < 0 then Inl ''invalid_credit_evaluation''
      else if isDowngrade then Inr (True, 0)
      else let shortfall = (if required > available then required - available else 0)
           in Inr (shortfall = 0, shortfall))"

record PriceDisplay =
  pd_hourly :: "int option"
  pd_daily :: "int option"
  pd_dailyIsEstimate :: bool
  pd_independentDailyRateAvailable :: bool

definition buildPriceDisplay ::
  "BillingPriceDisplayMode \<Rightarrow> int option \<Rightarrow> int option \<Rightarrow> PriceDisplay" where
  "buildPriceDisplay mode hourly independentDaily =
     (let equivalent = map_option (\<lambda>h. h * 24) hourly;
          dailyDisplay = (case independentDaily of Some d \<Rightarrow> Some d | None \<Rightarrow> equivalent)
      in \<lparr>pd_hourly = (if mode = DISPLAY_DAILY then None else hourly),
          pd_daily = (if mode = DISPLAY_HOURLY then None else dailyDisplay),
          pd_dailyIsEstimate = (independentDaily = None),
          pd_independentDailyRateAvailable = (independentDaily \<noteq> None)\<rparr>)"

fun periodMs :: "BillingCadence \<Rightarrow> int" where
  "periodMs HOURLY = 60 * 60 * 1000"
| "periodMs DAILY = 24 * 60 * 60 * 1000"

definition periodContainingUtc :: "BillingCadence \<Rightarrow> int \<Rightarrow> int \<times> int" where
  "periodContainingUtc cadence instant =
     (let start = instant - instant mod periodMs cadence in (start, start + periodMs cadence))"

definition latestClosedPeriodUtc :: "BillingCadence \<Rightarrow> int \<Rightarrow> int \<times> int" where
  "latestClosedPeriodUtc cadence now =
     (let current = periodContainingUtc cadence now
      in (fst current - periodMs cadence, fst current))"

definition calculateRunwaySeconds :: "int \<Rightarrow> int \<Rightarrow> string + int option" where
  "calculateRunwaySeconds available hourlyBurn =
     (if available < 0 \<or> hourlyBurn < 0 then Inl ''invalid_runway_input''
      else if hourlyBurn = 0 then Inr None
      else Inr (Some ((available * 3600) sdiv hourlyBurn)))"

section \<open>Coverage\<close>

definition rangesUnion :: "(int \<times> int) list \<Rightarrow> int set" where
  "rangesUnion rs = (\<Union>r \<in> set rs. {fst r..<snd r})"

lemma rangesUnion_iff: "t \<in> rangesUnion rs \<longleftrightarrow> (\<exists>r \<in> set rs. fst r \<le> t \<and> t < snd r)"
  by (auto simp: rangesUnion_def)

lemma sweepRanges_None:
  assumes "sweepRanges c rs = None" and "sorted (map fst rs)"
  shows "\<exists>t. c \<le> t \<and> t \<notin> rangesUnion rs \<and> (\<exists>r \<in> set rs. t < fst r)"
  using assms
proof (induction c rs rule: sweepRanges.induct)
  case (2 c s e rest)
  show ?case
  proof (cases "s > c")
    case True
    then have "c \<notin> rangesUnion ((s, e) # rest)"
      using "2.prems"(2) by (fastforce simp: rangesUnion_iff)
    with True show ?thesis by (intro exI [of _ c]) auto
  next
    case False
    let ?c = "if e > c then e else c"
    from False "2.prems" have "\<exists>t. ?c \<le> t \<and> t \<notin> rangesUnion rest \<and> (\<exists>r \<in> set rest. t < fst r)"
      by (intro "2.IH") simp_all
    then obtain t where t: "?c \<le> t" "t \<notin> rangesUnion rest" "\<exists>r \<in> set rest. t < fst r" by blast
    then have "c \<le> t" "t \<notin> rangesUnion ((s, e) # rest)"
      by (auto simp: rangesUnion_iff split: if_split_asm)
    with t(3) show ?thesis by auto
  qed
qed simp

lemma sweepRanges_Some:
  "sweepRanges c rs = Some c' \<Longrightarrow> c \<le> c' \<and> {c..<c'} \<subseteq> rangesUnion rs \<and> c' \<notin> rangesUnion rs"
proof (induction c rs rule: sweepRanges.induct)
  case (2 c s e rest)
  from "2.prems" have s: "s \<le> c" by (simp split: if_split_asm)
  let ?c = "if e > c then e else c"
  from "2.prems" s have ih: "?c \<le> c' \<and> {?c..<c'} \<subseteq> rangesUnion rest \<and> c' \<notin> rangesUnion rest"
    by (intro "2.IH") simp_all
  have "{c..<c'} \<subseteq> rangesUnion ((s, e) # rest)"
  proof
    fix t assume t: "t \<in> {c..<c'}"
    show "t \<in> rangesUnion ((s, e) # rest)"
    proof (cases "t < e")
      case True
      then show ?thesis using t s by (auto simp: rangesUnion_iff)
    next
      case False
      then have "t \<in> {?c..<c'}" using t by simp
      then have "t \<in> rangesUnion rest" using ih by blast
      then show ?thesis by (auto simp: rangesUnion_iff)
    qed
  qed
  moreover have "c' \<notin> rangesUnion ((s, e) # rest)"
    using ih by (auto simp: rangesUnion_iff split: if_split_asm)
  ultimately show ?case using ih by (auto split: if_split_asm)
qed (simp add: rangesUnion_def)

lemma clipped_union:
  assumes "start \<le> t" and "t < endT"
  shows "t \<in> rangesUnion (sort_key fst (map (clipRange start endT)
      (filter (\<lambda>r. snd r > start \<and> fst r < endT) ranges))) \<longleftrightarrow> t \<in> rangesUnion ranges"
proof -
  have clip: "snd r > start \<and> fst r < endT \<and> fst (clipRange start endT r) \<le> t \<and> t < snd (clipRange start endT r)
      \<longleftrightarrow> fst r \<le> t \<and> t < snd r" for r
    using assms by (auto simp: clipRange_def)
  have "t \<in> rangesUnion (sort_key fst (map (clipRange start endT)
      (filter (\<lambda>r. snd r > start \<and> fst r < endT) ranges))) \<longleftrightarrow>
    (\<exists>r \<in> set ranges. snd r > start \<and> fst r < endT \<and> fst (clipRange start endT r) \<le> t
      \<and> t < snd (clipRange start endT r))"
    by (simp only: rangesUnion_iff set_sort set_map set_filter bex_simps) blast
  then show ?thesis unfolding clip rangesUnion_iff .
qed

text \<open>The coverage test decides coverage. Sweeping the clipped, sorted ranges answers true exactly when
  every instant of the half-open interval lies in one of the given half-open ranges, whatever their order
  and overlap, and also for empty intervals and inverted ranges.\<close>

theorem coverage_test_decides:
  "assertCoveredByRanges start endT ranges \<longleftrightarrow>
    {start..<endT} \<subseteq> (\<Union>r \<in> set ranges. {fst r..<snd r})"
proof -
  define rs where "rs = sort_key fst (map (clipRange start endT)
      (filter (\<lambda>r. snd r > start \<and> fst r < endT) ranges))"
  have eq: "t \<in> rangesUnion rs \<longleftrightarrow> t \<in> rangesUnion ranges" if "start \<le> t" "t < endT" for t
    using clipped_union [OF that] by (simp add: rs_def)
  have ok: "assertCoveredByRanges start endT ranges =
      (case sweepRanges start rs of None \<Rightarrow> False | Some c \<Rightarrow> c \<ge> endT)"
    by (simp add: assertCoveredByRanges_def rs_def Let_def)
  have "assertCoveredByRanges start endT ranges \<longleftrightarrow> {start..<endT} \<subseteq> rangesUnion ranges"
  proof (cases "sweepRanges start rs")
    case None
    have "sorted (map fst rs)" by (simp add: rs_def)
    with None obtain t where t: "start \<le> t" "t \<notin> rangesUnion rs" "\<exists>r \<in> set rs. t < fst r"
      using sweepRanges_None by blast
    then have "t < endT" by (auto simp: rs_def clipRange_def split: if_split_asm)
    then have "t \<notin> rangesUnion ranges" using eq t(1,2) by simp
    then show ?thesis using ok None t(1) \<open>t < endT\<close> by auto
  next
    case (Some c)
    note sweep = sweepRanges_Some [OF Some]
    show ?thesis
    proof (cases "endT \<le> c")
      case True
      then have "{start..<endT} \<subseteq> rangesUnion ranges" using sweep eq by fastforce
      then show ?thesis using ok Some True by simp
    next
      case False
      then have "c \<notin> rangesUnion ranges" using sweep eq [of c] by simp
      moreover have "c \<in> {start..<endT}" using sweep False by simp
      ultimately have "\<not> {start..<endT} \<subseteq> rangesUnion ranges" by blast
      then show ?thesis using ok Some False by simp
    qed
  qed
  then show ?thesis by (simp add: rangesUnion_def)
qed

section \<open>Rounding of line amounts\<close>

interpretation billing_round: round_up ceilDiv
proof
  fix n d :: int
  assume "0 \<le> n" and "0 < d"
  then show "\<exists>k. ceilDiv n d = Inr k \<and> n \<le> k * d \<and> k * d < n + d"
    using ceil_div_upper [of d n] by (auto simp: ceilDiv_def)
qed

lemma ceilDiv_ok: "ceilDiv n d = Inr k \<Longrightarrow> 0 \<le> n \<and> 0 < d"
  by (auto simp: ceilDiv_def split: if_split_asm)

lemma unitSeconds_pos [simp]: "0 < unitSeconds u"
  by (cases u) simp_all

text \<open>The stages of a line that was computed.\<close>

lemma calculateBillingLineAmount_Inr:
  assumes "calculateBillingLineAmount s e r rate = Inr l"
  obtains tn td rn rd where
    "0 < e - s" "(e - s) mod 1000 = 0" "0 \<le> cr_customerRateRial rate" "0 \<le> cr_normalizedProviderRial rate"
    "roundedTimeFactor ((e - s) div 1000) (unitSeconds (cr_calculationUnit rate))
       (cr_minimumChargeSeconds rate) (cr_roundingPolicy rate) (cr_prorationSupported rate) = Inr (tn, td)"
    "resourceFactor (cr_resourceUnit rate) r = Inr (rn, rd)"
    "ceilDiv (cr_normalizedProviderRial rate * (tn * rn)) (td * rd) = Inr (bl_providerCostRial l)"
    "ceilDiv (cr_customerRateRial rate * (tn * rn)) (td * rd) = Inr (bl_amountRial l)"
    "bl_providerCostRial l \<le> bl_amountRial l"
    "bl_markupAmountRial l = bl_amountRial l - bl_providerCostRial l"
  using assms
  by (auto simp: calculateBillingLineAmount_def Let_def bindE_eq_Inr split: if_split_asm)

lemma foldl_max: "foldl (\<lambda>maximum v. if v > maximum then v else maximum) 0 [a, b] = max (max 0 a) (b::int)"
  by simp

lemma roundedTimeFactor_exact:
  "roundedTimeFactor d u m EXACT True = Inr (max (max 0 d) m, u)"
  by (simp add: roundedTimeFactor_def foldl_max del: foldl.simps)

lemma roundedTimeFactor_mono:
  assumes "roundedTimeFactor d u m p q = Inr (n, k)" and "roundedTimeFactor d' u m p q = Inr (n', k')"
    and "d \<le> d'" and "0 < u"
  shows "n \<le> n'" and "k = k'" and "0 \<le> n" and "0 < k"
proof -
  define D D' where "D = max (max 0 d) m" and "D' = max (max 0 d') m"
  have D: "0 \<le> D" "D \<le> D'" "0 \<le> D'" using assms(3) by (auto simp: D_def D'_def)
  note eqs = assms(1,2) [unfolded roundedTimeFactor_def foldl_max Let_def, folded D_def D'_def]
  have mono: "(D + x) div u \<le> (D' + x) div u" "0 \<le> x \<Longrightarrow> 0 \<le> (D + x) div u" for x
    using D assms(4) by (simp_all add: zdiv_mono1 pos_imp_zdiv_nonneg_iff)
  consider "q" "p = EXACT" | "\<not> q \<or> p = CEIL_UNIT" | "q" "p = FLOOR_UNIT" | "q" "p = NEAREST_UNIT"
    by (cases p) auto
  then have "n \<le> n' \<and> k = k' \<and> 0 \<le> n \<and> 0 < k"
  proof cases
    case 1
    then show ?thesis using eqs D assms(4) by simp
  next
    case 2
    then have "n = (D + (u - 1)) div u" "n' = (D' + (u - 1)) div u" "k = 1" "k' = 1"
      using eqs D assms(4) by (auto simp: billing_round.rnd_eq bindE_eq_Inr add_diff_eq)
    then show ?thesis using mono [of "u - 1"] assms(4) by simp
  next
    case 3
    then have "n = (D + 0) div u" "n' = (D' + 0) div u" "k = 1" "k' = 1"
      using eqs D assms(4) by simp_all
    then show ?thesis using mono [of 0] by simp
  next
    case 4
    then have "n = (D + u div 2) div u" "n' = (D' + u div 2) div u" "k = 1" "k' = 1"
      using eqs D assms(4) by simp_all
    then show ?thesis using mono [of "u div 2"] assms(4) by simp
  qed
  then show "n \<le> n'" "k = k'" "0 \<le> n" "0 < k" by simp_all
qed

section \<open>Properties of line amounts\<close>

text \<open>Using a resource longer never costs less. For the same resource and rate card, if two intervals start
  together and the second ends later, then the provider cost and the customer amount of the second are at
  least those of the first, under every rounding policy and calculation unit.\<close>

theorem longer_interval_costs_no_less:
  assumes "calculateBillingLineAmount s e r rate = Inr l"
    and "calculateBillingLineAmount s e' r rate = Inr l'" and "e \<le> e'"
  shows "bl_amountRial l \<le> bl_amountRial l' \<and> bl_providerCostRial l \<le> bl_providerCostRial l'"
  using assms(1)
proof (rule calculateBillingLineAmount_Inr, goal_cases)
  case (1 tn td rn rd)
  note a = 1
  from assms(2) show ?case
  proof (rule calculateBillingLineAmount_Inr, goal_cases)
    case (1 tn' td' rn' rd')
    have "(e - s) div 1000 \<le> (e' - s) div 1000" using assms(3) by (simp add: zdiv_mono1)
    note t = roundedTimeFactor_mono [OF a(5) 1(5) this unitSeconds_pos]
    have same: "rn' = rn" "rd' = rd" "td' = td" using a(6) 1(6) t(2) by simp_all
    have num: "x * (tn * rn) \<le> x * (tn' * rn)" if "0 \<le> x * (tn' * rn)" for x
    proof (cases "0 \<le> x * rn")
      case True
      then have "x * rn * tn \<le> x * rn * tn'" using t(1) by (rule mult_left_mono [rotated])
      then show ?thesis by (simp add: algebra_simps)
    next
      case False
      have "0 \<le> x * rn * tn'" using that by (simp add: algebra_simps)
      then have "tn' \<le> 0" using False by (metis mult_neg_pos not_le)
      then have "tn = 0" "tn' = 0" using t(1,3) by simp_all
      then show ?thesis by simp
    qed
    have "bl_amountRial l \<le> bl_amountRial l'"
      using a(8) 1(8) same ceilDiv_ok [OF a(8)] ceilDiv_ok [OF 1(8)] num
      by (intro billing_round.rnd_mono [OF a(8), of "cr_customerRateRial rate * (tn' * rn)"]) simp_all
    moreover have "bl_providerCostRial l \<le> bl_providerCostRial l'"
      using a(7) 1(7) same ceilDiv_ok [OF a(7)] ceilDiv_ok [OF 1(7)] num
      by (intro billing_round.rnd_mono [OF a(7), of "cr_normalizedProviderRial rate * (tn' * rn)"]) simp_all
    ultimately show ?case by simp
  qed
qed

definition sample_resource :: ResourceQuantitySnapshot where
  "sample_resource = \<lparr>rq_state = RV_ACTIVE, rq_vcpu = 2, rq_ramMb = 1536, rq_diskGb = 25,
     rq_ipv4Count = 1, rq_backupEnabled = False, rq_snapshotCount = 0\<rparr>"

definition sample_rate :: CalculableRate where
  "sample_rate = \<lparr>cr_calculationUnit = HOUR, cr_minimumChargeSeconds = 60, cr_roundingPolicy = EXACT,
     cr_prorationSupported = True, cr_resourceUnit = U_GB_RAM, cr_normalizedProviderRial = 700,
     cr_customerRateRial = 1001, cr_markupBasisPoints = 4300\<rparr>"

lemma sample_line:
  "calculateBillingLineAmount 0 1801000 sample_resource sample_rate =
     Inr \<lparr>bl_quantityNumerator = 2766336, bl_quantityDenominator = 3686400, bl_providerCostRial = 526,
          bl_markupAmountRial = 226, bl_amountRial = 752\<rparr>"
  "calculateBillingLineAmount 1801000 3600000 sample_resource sample_rate =
     Inr \<lparr>bl_quantityNumerator = 2763264, bl_quantityDenominator = 3686400, bl_providerCostRial = 525,
          bl_markupAmountRial = 226, bl_amountRial = 751\<rparr>"
  "calculateBillingLineAmount 0 3600000 sample_resource sample_rate =
     Inr \<lparr>bl_quantityNumerator = 5529600, bl_quantityDenominator = 3686400, bl_providerCostRial = 1050,
          bl_markupAmountRial = 452, bl_amountRial = 1502\<rparr>"
  by code_simp+

theorem longer_interval_costs_no_less_witness: "(752::int) \<le> 1502 \<and> (526::int) \<le> 1050"
  using longer_interval_costs_no_less [OF sample_line(1,3)] by simp

text \<open>C36: cutting an interval in two does not change what is charged, up to one rial, when the rate rounds time exactly
  (\<open>EXACT\<close>, not up to whole units), supports proration, and both parts last at least the minimum charge: then the
  amounts of the two parts add up to the amount of the whole interval or to one rial more, never to less. So for such rates
  billing in catch-up slices neither loses revenue nor overcharges by more than a rial per cut. For a rate that rounds time
  up to whole units, or has a longer minimum charge, each part is rounded up by itself and the sum may exceed the whole by
  more.\<close>

theorem split_interval_charge:
  assumes "cr_roundingPolicy rate = EXACT" and "cr_prorationSupported rate"
    and "calculateBillingLineAmount a b r rate = Inr l1"
    and "calculateBillingLineAmount b c r rate = Inr l2"
    and "calculateBillingLineAmount a c r rate = Inr l"
    and "cr_minimumChargeSeconds rate * 1000 \<le> b - a" and "cr_minimumChargeSeconds rate * 1000 \<le> c - b"
  shows "bl_amountRial l \<le> bl_amountRial l1 + bl_amountRial l2
    \<and> bl_amountRial l1 + bl_amountRial l2 \<le> bl_amountRial l + 1"
  using assms(3)
proof (rule calculateBillingLineAmount_Inr, goal_cases)
  case (1 tn1 td1 rn1 rd1)
  note a = 1
  from assms(4) show ?case
  proof (rule calculateBillingLineAmount_Inr, goal_cases)
    case (1 tn2 td2 rn2 rd2)
    note b = 1
    from assms(5) show ?case
    proof (rule calculateBillingLineAmount_Inr, goal_cases)
      case (1 tn td rn rd)
      let ?m = "cr_minimumChargeSeconds rate" and ?x = "cr_customerRateRial rate"
      have sec: "(b - a) = 1000 * ((b - a) div 1000)" "(c - b) = 1000 * ((c - b) div 1000)"
        "(c - a) = 1000 * ((c - a) div 1000)" using a(2) b(2) 1(2) by auto
      then have d: "(c - a) div 1000 = (b - a) div 1000 + (c - b) div 1000" by linarith
      have m: "?m \<le> (b - a) div 1000" "?m \<le> (c - b) div 1000" "0 < (b - a) div 1000" "0 < (c - b) div 1000"
        using assms(6,7) sec a(1) b(1) by linarith+
      have t: "tn1 = (b - a) div 1000" "tn2 = (c - b) div 1000" "tn = tn1 + tn2"
        "td1 = td" "td2 = td"
        using a(5) b(5) 1(5) assms(1,2) m d by (auto simp: roundedTimeFactor_exact max_def)
      have r: "rn1 = rn" "rn2 = rn" "rd1 = rd" "rd2 = rd" using a(6) b(6) 1(6) by simp_all
      have "?x * (tn * rn) = ?x * (tn1 * rn) + ?x * (tn2 * rn)" using t(3) by (simp add: algebra_simps)
      then have whole: "ceilDiv (?x * (tn1 * rn) + ?x * (tn2 * rn)) (td * rd) = Inr (bl_amountRial l)"
        using 1(8) by simp
      have parts: "ceilDiv (?x * (tn1 * rn)) (td * rd) = Inr (bl_amountRial l1)"
        "ceilDiv (?x * (tn2 * rn)) (td * rd) = Inr (bl_amountRial l2)"
        using a(8) b(8) t r by simp_all
      show ?case
        using billing_round.rnd_add [OF parts whole] ceilDiv_ok [OF parts(1)] ceilDiv_ok [OF parts(2)] by simp
    qed
  qed
qed

theorem split_interval_charge_witness:
  "\<exists>l1 l2 l. calculateBillingLineAmount 0 1801000 sample_resource sample_rate = Inr l1 \<and>
    calculateBillingLineAmount 1801000 3600000 sample_resource sample_rate = Inr l2 \<and>
    calculateBillingLineAmount 0 3600000 sample_resource sample_rate = Inr l \<and>
    bl_amountRial l \<le> bl_amountRial l1 + bl_amountRial l2 \<and> bl_amountRial l1 + bl_amountRial l2 = bl_amountRial l + 1"
proof (intro exI conjI)
  show "bl_amountRial \<lparr>bl_quantityNumerator = 5529600, bl_quantityDenominator = 3686400, bl_providerCostRial = 1050,
      bl_markupAmountRial = 452, bl_amountRial = 1502\<rparr> \<le>
    bl_amountRial \<lparr>bl_quantityNumerator = 2766336, bl_quantityDenominator = 3686400, bl_providerCostRial = 526,
      bl_markupAmountRial = 226, bl_amountRial = 752\<rparr> +
    bl_amountRial \<lparr>bl_quantityNumerator = 2763264, bl_quantityDenominator = 3686400, bl_providerCostRial = 525,
      bl_markupAmountRial = 226, bl_amountRial = 751\<rparr>"
    by (rule split_interval_charge [OF _ _ sample_line, THEN conjunct1]) (simp_all add: sample_rate_def)
qed (simp_all add: sample_line)

section \<open>Properties of the policy\<close>

text \<open>Billing periods tile time. The period of an instant contains it, starts at a multiple of its length
  and has exactly that length; every instant of the period has the same period; and the latest closed period
  is the period immediately before the current one, so it has always ended.\<close>

theorem billing_periods_tile_time:
  "fst (periodContainingUtc c i) \<le> i \<and> i < snd (periodContainingUtc c i)
    \<and> snd (periodContainingUtc c i) = fst (periodContainingUtc c i) + periodMs c
    \<and> fst (periodContainingUtc c i) mod periodMs c = 0
    \<and> (0 \<le> d \<and> d < periodMs c \<longrightarrow>
        periodContainingUtc c (fst (periodContainingUtc c i) + d) = periodContainingUtc c i)
    \<and> latestClosedPeriodUtc c i = periodContainingUtc c (fst (periodContainingUtc c i) - 1)
    \<and> snd (latestClosedPeriodUtc c i) \<le> i"
proof -
  have pos: "0 < periodMs c" by (cases c) simp_all
  let ?p = "periodMs c"
  have b: "0 \<le> i mod ?p" "i mod ?p < ?p" "i = ?p * (i div ?p) + i mod ?p" using pos by simp_all
  have start: "i - i mod ?p = ?p * (i div ?p)" using b(3) by linarith
  have mods: "(?p * q + d) mod ?p = d" if "0 \<le> d" "d < ?p" for q d
    using that by simp
  have "(?p * (i div ?p) - 1) mod ?p = ?p - 1"
    using mods [of "?p - 1" "i div ?p - 1"] pos by (simp add: algebra_simps)
  moreover have "?p * (i div ?p) \<le> i" "i < ?p * (i div ?p) + ?p" using b by linarith+
  ultimately show ?thesis using start pos
    by (auto simp: periodContainingUtc_def latestClosedPeriodUtc_def Let_def mods)
qed

theorem billing_periods_tile_time_witness:
  "periodContainingUtc HOURLY (7200000 + 5) = periodContainingUtc HOURLY 7200001
    \<and> snd (latestClosedPeriodUtc HOURLY 7200001) \<le> 7200001"
  using billing_periods_tile_time [of HOURLY 7200001 5] by (simp add: periodContainingUtc_def Let_def)

text \<open>The minimum credit buys the promised hours. If a balance covers the minimum credit of an hourly plan,
  then after the one-time charges are paid from it the remaining balance lasts at least the policy's minimum
  number of hours at the estimated rate.\<close>

theorem minimum_credit_buys_hours:
  assumes "validateBillingPolicyContract p = Inr p"
    and "calculateMinimumCreditRial p HOURLY (Some h) daily oneTime = Inr minimum"
    and "minimum \<le> balance" and "0 < h"
  shows "\<exists>s. calculateRunwaySeconds (balance - oneTime) h = Inr (Some s)
    \<and> bp_hourlyMinimumCreditHours p * 3600 \<le> s"
proof -
  let ?n = "bp_hourlyMinimumCreditHours p"
  have "0 < ?n" using assms(1)
    by (auto simp: validateBillingPolicyContract_def bindE_eq_Inr guardE_eq_Inr safePositive_def)
  moreover have "minimum = h * ?n + oneTime"
    using assms(2) by (auto simp: calculateMinimumCreditRial_def bindE_eq_Inr split: if_split_asm)
  ultimately have rest: "h * ?n \<le> balance - oneTime" "0 \<le> h * ?n" using assms(3,4) by simp_all
  then have "(h * ?n * 3600) div h \<le> ((balance - oneTime) * 3600) div h"
    using assms(4) by (intro zdiv_mono1) simp_all
  moreover have "(h * ?n * 3600) div h = ?n * 3600" using assms(4) by simp
  ultimately show ?thesis using rest assms(4) by (simp add: calculateRunwaySeconds_def)
qed

definition sample_policy :: BillingPolicyContract where
  "sample_policy = \<lparr>bp_availability = HOURLY_AND_DAILY, bp_defaultCadence = HOURLY,
     bp_displayMode = DISPLAY_BOTH, bp_hourlyMinimumCreditHours = 24, bp_dailyMinimumCreditDays = 3,
     bp_hourlyGracePeriods = 6, bp_dailyGracePeriods = 1, bp_lowBalanceThresholdPeriods = 2\<rparr>"

theorem minimum_credit_buys_hours_witness:
  "\<exists>s. calculateRunwaySeconds (24100 - 100) 1000 = Inr (Some s) \<and> 24 * 3600 \<le> s"
  using minimum_credit_buys_hours [of sample_policy 1000 None 100 24100 24100]
  by (simp add: sample_policy_def validateBillingPolicyContract_def assertCadenceAllowed_def
      isCadenceAllowed_def guardE_def safePositive_def safeNonNegative_def MAX_SAFE_INTEGER_def
      calculateMinimumCreditRial_def)

end
