(* ===== verification/Idempotency.thy ===== *)
theory Idempotency
  imports Money "HOL-Library.Char_ord" "HOL-Library.List_Lexorder"
begin

text \<open>
  Idempotent operations. First the request fingerprint of \<open>src/lib/idempotency.ts\<close>: JSON with
  sorted keys under a digest, the digest (SHA-256) being a parameter. Then the contract that the
  wallet, settlement and accounting operations share: an operation that has run leaves a record by which
  it is recognised, and a repetition returns that record and changes nothing. Strings are Latin-1.
\<close>

section \<open>The fingerprint of a request\<close>

definition hexDigit :: "nat \<Rightarrow> char" where
  "hexDigit d = (if d < 10 then digitChar d else char_of (87 + d))"

text \<open>\<open>JSON.stringify\<close> of a character inside a string.\<close>

definition escapeChar :: "char \<Rightarrow> string" where
  "escapeChar c =
     (let n = (of_char c :: nat) in
      if n = 34 then [CHR 0x5C, CHR 0x22]
      else if n = 92 then [CHR 0x5C, CHR 0x5C]
      else if n = 8 then [CHR 0x5C, CHR ''b'']
      else if n = 9 then [CHR 0x5C, CHR ''t'']
      else if n = 10 then [CHR 0x5C, CHR ''n'']
      else if n = 12 then [CHR 0x5C, CHR ''f'']
      else if n = 13 then [CHR 0x5C, CHR ''r'']
      else if n < 32 then [CHR 0x5C, CHR ''u'', CHR ''0'', CHR ''0'', hexDigit (n div 16), hexDigit (n mod 16)]
      else [c])"

definition jsonString :: "string \<Rightarrow> string" where
  "jsonString s = [CHR 0x22] @ concat (map escapeChar s) @ [CHR 0x22]"

definition commaJoin :: "string list \<Rightarrow> string" where
  "commaJoin xs = concat (if xs = [] then [] else hd xs # map (\<lambda>s. CHR '','' # s) (tl xs))"

text \<open>All or nothing: the texts of the parts, or the first error (\<open>BigInt\<close> has no JSON).\<close>

fun mapE :: "('a \<Rightarrow> 'e + 'b) \<Rightarrow> 'a list \<Rightarrow> 'e + 'b list" where
  "mapE f [] = Inr []"
| "mapE f (x # xs) = bindE (f x) (\<lambda>y. bindE (mapE f xs) (\<lambda>ys. Inr (y # ys)))"

lemma mapE_cong [fundef_cong]:
  "xs = ys \<Longrightarrow> (\<And>x. x \<in> set ys \<Longrightarrow> f x = g x) \<Longrightarrow> mapE f xs = mapE g ys"
  by (induction ys arbitrary: xs) auto

text \<open>Keys are visited in sorted order; an object has each key once.\<close>

fun stableJson :: "jsval \<Rightarrow> string + string" where
  "stableJson JUndefined = Inr ''null''"
| "stableJson (JArr xs) = bindE (mapE stableJson xs) (\<lambda>ts. Inr (''['' @ commaJoin ts @ '']''))"
| "stableJson (JObj es) =
     bindE (mapE (\<lambda>e. bindE (stableJson (snd e)) (\<lambda>t. Inr (jsonString (fst e) @ '':'' @ t))) (sort_key fst es))
       (\<lambda>ts. Inr (''{'' @ commaJoin ts @ ''}''))"
| "stableJson JNull = Inr ''null''"
| "stableJson (JBool b) = Inr (if b then ''true'' else ''false'')"
| "stableJson (JInt n) = Inr (jsNumberText n)"
| "stableJson (JFrac s) = Inr (if s \<in> {''NaN'', ''Infinity'', ''-Infinity''} then ''null'' else s)"
| "stableJson (JStr s) = Inr (jsonString s)"
| "stableJson (JBig n) = Inl ''TypeError''"

definition idempotencyFingerprint :: "(string \<Rightarrow> string) \<Rightarrow> jsval \<Rightarrow> string + string" where
  "idempotencyFingerprint digest v = bindE (stableJson v) (\<lambda>t. Inr (digest t))"

text \<open>Two values that differ only in the order of object keys, at any depth.\<close>

inductive sameRequest :: "jsval \<Rightarrow> jsval \<Rightarrow> bool" where
  refl: "sameRequest v v"
| arr: "list_all2 sameRequest xs ys \<Longrightarrow> sameRequest (JArr xs) (JArr ys)"
| obj: "distinct (map fst es) \<Longrightarrow> mset es = mset es' \<Longrightarrow>
    list_all2 (\<lambda>e f. fst e = fst f \<and> sameRequest (snd e) (snd f)) es' fs \<Longrightarrow>
    sameRequest (JObj es) (JObj fs)"

lemma mapE_list_all2: "list_all2 (\<lambda>x y. f x = g y) xs ys \<Longrightarrow> mapE f xs = mapE g ys"
  by (induction rule: list_all2_induct) simp_all

lemma list_all2_insort:
  assumes "list_all2 R xs ys" and "R x y" and "\<And>a b. R a b \<Longrightarrow> k a = k b"
  shows "list_all2 R (insort_key k x xs) (insort_key k y ys)"
  using assms(1,2)
proof (induction rule: list_all2_induct)
  case (Cons a xs b ys)
  then show ?case using assms(3) [of a b] assms(3) [of x y] by simp
qed simp

lemma list_all2_sort_key:
  assumes "list_all2 R xs ys" and "\<And>a b. R a b \<Longrightarrow> k a = k b"
  shows "list_all2 R (sort_key k xs) (sort_key k ys)"
  using assms(1)
proof (induction rule: list_all2_induct)
  case (Cons x xs y ys)
  then show ?case using list_all2_insort [OF Cons.IH Cons.hyps(1) assms(2)] by simp
qed simp

text \<open>A fingerprint does not depend on how a client orders object keys. Two requests that differ only in
  the order of object keys, at any nesting depth, have the same canonical text and the same fingerprint, for
  every digest function; so a retried command is recognised as the same command.\<close>

theorem fingerprint_ignores_key_order:
  assumes "sameRequest v w"
  shows "idempotencyFingerprint digest v = idempotencyFingerprint digest w"
proof -
  have "stableJson v = stableJson w"
    using assms
  proof (induction rule: sameRequest.induct)
    case (refl v)
    then show ?case by simp
  next
    case (arr xs ys)
    then have "list_all2 (\<lambda>x y. stableJson x = stableJson y) xs ys"
      by (rule list_all2_mono) simp
    then have "mapE stableJson xs = mapE stableJson ys" by (rule mapE_list_all2)
    then show ?case by simp
  next
    case (obj es es' fs)
    let ?part = "\<lambda>e. bindE (stableJson (snd e)) (\<lambda>t. Inr (jsonString (fst e) @ '':'' @ t))"
    have "sort_key fst es = sort_key fst es'"
      using obj.hyps(1,2) by (intro sort_key_inj_key_eq) (simp_all add: distinct_map)
    moreover have "list_all2 (\<lambda>e f. fst e = fst f \<and> stableJson (snd e) = stableJson (snd f)) es' fs"
      using obj.IH by (rule list_all2_mono) simp
    then have "list_all2 (\<lambda>e f. fst e = fst f \<and> stableJson (snd e) = stableJson (snd f))
        (sort_key fst es') (sort_key fst fs)"
      by (rule list_all2_sort_key) simp
    then have "list_all2 (\<lambda>e f. ?part e = ?part f) (sort_key fst es') (sort_key fst fs)"
      by (rule list_all2_mono) simp
    then have "mapE ?part (sort_key fst es') = mapE ?part (sort_key fst fs)" by (rule mapE_list_all2)
    ultimately show ?case by (simp only: stableJson.simps)
  qed
  then show ?thesis by (simp add: idempotencyFingerprint_def)
qed

theorem fingerprint_ignores_key_order_witness:
  "idempotencyFingerprint id (JObj [(''b'', JInt 1), (''a'', JArr [JNull])]) =
   idempotencyFingerprint id (JObj [(''a'', JArr [JNull]), (''b'', JInt 1)])"
proof (rule fingerprint_ignores_key_order)
  have "list_all2 (\<lambda>e f. fst e = fst f \<and> sameRequest (snd e) (snd f)) xs xs" for xs :: "(string \<times> jsval) list"
    by (induction xs) (simp_all add: sameRequest.refl)
  then show "sameRequest (JObj [(''b'', JInt 1), (''a'', JArr [JNull])])
      (JObj [(''a'', JArr [JNull]), (''b'', JInt 1)])"
    by (intro sameRequest.obj [of _ "[(''a'', JArr [JNull]), (''b'', JInt 1)]"]) simp_all
qed

section \<open>The contract of an idempotent operation\<close>

text \<open>
  \<open>run\<close> executes an input on a state and either fails, leaving the state as it was (a rolled-back
  transaction), or returns a result and the new state; \<open>record_of\<close> is what the state remembers of an
  input. The inputs that are \<open>tracked\<close> are the idempotent ones; the others only respect the records.
\<close>

locale idempotent_op =
  fixes inv :: "'d \<Rightarrow> bool"
    and run :: "'i \<Rightarrow> 'd \<Rightarrow> 'e + 'r \<times> 'd"
    and tracked :: "'i \<Rightarrow> bool"
    and record_of :: "'i \<Rightarrow> 'd \<Rightarrow> 'r option"
  assumes preserves: "inv d \<Longrightarrow> run i d = Inr (r, d') \<Longrightarrow> inv d'"
    and recorded: "inv d \<Longrightarrow> tracked i \<Longrightarrow> run i d = Inr (r, d') \<Longrightarrow> record_of i d' = Some r"
    and stable: "inv d \<Longrightarrow> tracked i \<Longrightarrow> record_of i d = Some r \<Longrightarrow> run j d = Inr (s, d') \<Longrightarrow>
      record_of i d' = Some r"
    and replay: "inv d \<Longrightarrow> tracked i \<Longrightarrow> record_of i d = Some r \<Longrightarrow> run i d = Inr (r, d)"
begin

text \<open>A client or a retry queue: inputs run one after the other, failures change nothing.\<close>

definition step :: "'d \<Rightarrow> 'i \<Rightarrow> 'd" where
  "step d i = (case run i d of Inl _ \<Rightarrow> d | Inr (_, d') \<Rightarrow> d')"

lemma step_inv: "inv d \<Longrightarrow> inv (step d i)"
  by (auto simp: step_def split: sum.splits dest: preserves)

lemma step_stable: "inv d \<Longrightarrow> tracked i \<Longrightarrow> record_of i d = Some r \<Longrightarrow> record_of i (step d j) = Some r"
  by (auto simp: step_def split: sum.splits dest: stable)

lemma foldl_step_inv: "inv d \<Longrightarrow> inv (foldl step d is)"
  by (induction "is" arbitrary: d) (simp_all add: step_inv)

lemma foldl_step_stable:
  "inv d \<Longrightarrow> tracked i \<Longrightarrow> record_of i d = Some r \<Longrightarrow> record_of i (foldl step d is) = Some r"
  by (induction "is" arbitrary: d) (simp_all add: step_inv step_stable)

text \<open>After an input has run, any number of other inputs and repetitions later, it returns the same
  result and has no further effect.\<close>

lemma at_most_once:
  assumes "inv d" and "tracked i" and "run i d = Inr (r, d')"
  shows "run i (foldl step d' is) = Inr (r, foldl step d' is)"
  using assms by (intro replay foldl_step_stable foldl_step_inv) (auto intro: preserves recorded)

lemma retry_harmless:
  assumes "inv d" and "tracked i" and "run i d = Inr (r, d')"
  shows "foldl step d (i # is @ [i]) = foldl step d (i # is)"
  using at_most_once [OF assms, of "is"] assms(3) by (simp add: step_def)

end

end
