(* ===== verification/Wallet.thy ===== *)
theory Wallet
  imports Idempotency
begin

text \<open>
  The wallet and its ledger: \<open>src/lib/wallet/ledger.ts\<close> and \<open>ensure-wallet.ts\<close>. The database is
  the two tables the functions read and write; a \<open>$transaction\<close> is a function from the database to an
  error (nothing is written) or a result and the new database. The ids that \<open>cuid()\<close> generates are
  arguments. Unique columns (ids, \<open>Wallet.userId\<close>, \<open>WalletLedgerEntry.idempotencyKey\<close>) are
  enforced by the insertions, as PostgreSQL does, with Prisma's error P2002. Descriptions and metadata are
  not modelled. Records are extensible: other components add their own tables.
\<close>

section \<open>Tables\<close>

datatype LedgerDirection = CREDIT | DEBIT
datatype LedgerStatus = LS_PENDING | LS_COMPLETED | LS_REVERSED | LS_FAILED
datatype LedgerType =
    TOP_UP | TOP_UP_BONUS | TOP_UP_REFUND | SERVICE_PURCHASE | SERVICE_RENEWAL | USAGE_SETTLEMENT
  | BILLING_ADJUSTMENT | REFUND | ADMIN_ADJUSTMENT | MESSAGEGO_RESERVE_HOLD | MESSAGEGO_SETTLEMENT
  | MESSAGEGO_HOLD_RELEASE
datatype WalletStatus = WS_ACTIVE | WS_FROZEN

record WalletRow =
  w_id :: string
  w_userId :: string
  w_availableBalance :: int
  w_status :: WalletStatus

record LedgerEntry =
  le_id :: string
  le_walletId :: string
  le_direction :: LedgerDirection
  le_type :: LedgerType
  le_amount :: int
  le_status :: LedgerStatus
  le_referenceType :: "string option"
  le_referenceId :: "string option"
  le_idempotencyKey :: string
  le_balanceAfter :: int
  le_reversedEntryId :: "string option"

record WalletDb =
  wallets :: "WalletRow list"
  ledger :: "LedgerEntry list"

definition P2002 :: string where "P2002 = ''P2002''"
definition P2025 :: string where "P2025 = ''P2025''"

section \<open>Statements\<close>

definition findByIdempotency :: "string \<Rightarrow> 'a WalletDb_scheme \<Rightarrow> LedgerEntry option" where
  "findByIdempotency key db = findRow (\<lambda>e. le_idempotencyKey e = key) (ledger db)"

definition findEntry :: "string \<Rightarrow> 'a WalletDb_scheme \<Rightarrow> LedgerEntry option" where
  "findEntry eid db = findRow (\<lambda>e. le_id e = eid) (ledger db)"

definition findWallet :: "string \<Rightarrow> 'a WalletDb_scheme \<Rightarrow> WalletRow option" where
  "findWallet wid db = findRow (\<lambda>w. w_id w = wid) (wallets db)"

definition getWalletForUser :: "string \<Rightarrow> 'a WalletDb_scheme \<Rightarrow> WalletRow option" where
  "getWalletForUser userId db = findRow (\<lambda>w. w_userId w = userId) (wallets db)"

definition addBalance :: "int \<Rightarrow> WalletRow \<Rightarrow> WalletRow" where
  "addBalance d w = w\<lparr>w_availableBalance := w_availableBalance w + d\<rparr>"

definition updateBalance :: "string \<Rightarrow> int \<Rightarrow> 'a WalletDb_scheme \<Rightarrow> 'a WalletDb_scheme" where
  "updateBalance wid d db = db\<lparr>wallets := updateRows (\<lambda>w. w_id w = wid) (addBalance d) (wallets db)\<rparr>"

text \<open>\<open>updateMany\<close> with a lower bound on the balance (and, for a purchase, an active wallet): the count and
  the new database.\<close>

definition decrementIf ::
  "string \<Rightarrow> int \<Rightarrow> bool \<Rightarrow> 'a WalletDb_scheme \<Rightarrow> nat \<times> 'a WalletDb_scheme" where
  "decrementIf wid amount requireActive db =
     (let p = (\<lambda>w. w_id w = wid \<and> (w_availableBalance w \<ge> amount
            \<and> (requireActive \<longrightarrow> w_status w = WS_ACTIVE)))
      in (countRows p (wallets db), db\<lparr>wallets := updateRows p (addBalance (- amount)) (wallets db)\<rparr>))"

definition insertEntry :: "LedgerEntry \<Rightarrow> 'a WalletDb_scheme \<Rightarrow> string + LedgerEntry \<times> 'a WalletDb_scheme" where
  "insertEntry e db =
     (if findEntry (le_id e) db \<noteq> None \<or> findByIdempotency (le_idempotencyKey e) db \<noteq> None
      then Inl P2002 else Inr (e, db\<lparr>ledger := ledger db @ [e]\<rparr>))"

section \<open>Operations\<close>

text \<open>A failed creation looks the user's wallet up again before it rethrows.\<close>

definition ensureWalletForUser ::
  "string \<Rightarrow> string \<Rightarrow> 'a WalletDb_scheme \<Rightarrow> string + WalletRow \<times> 'a WalletDb_scheme" where
  "ensureWalletForUser userId newId db =
     (case getWalletForUser userId db of
        Some w \<Rightarrow> Inr (w, db)
      | None \<Rightarrow>
          if findWallet newId db \<noteq> None
          then (case getWalletForUser userId db of Some raced \<Rightarrow> Inr (raced, db) | None \<Rightarrow> Inl P2002)
          else let w = \<lparr>w_id = newId, w_userId = userId, w_availableBalance = 0, w_status = WS_ACTIVE\<rparr>
               in Inr (w, db\<lparr>wallets := wallets db @ [w]\<rparr>))"

record CreditInput =
  in_userId :: string
  in_amountRial :: int
  in_type :: LedgerType
  in_idempotencyKey :: string
  in_referenceType :: "string option"
  in_referenceId :: "string option"
  in_newWalletId :: string
  in_newEntryId :: string

definition newEntry :: "CreditInput \<Rightarrow> LedgerDirection \<Rightarrow> WalletRow \<Rightarrow> int \<Rightarrow> LedgerEntry" where
  "newEntry i dir w balanceAfter =
     \<lparr>le_id = in_newEntryId i, le_walletId = w_id w, le_direction = dir, le_type = in_type i,
      le_amount = in_amountRial i, le_status = LS_COMPLETED, le_referenceType = in_referenceType i,
      le_referenceId = in_referenceId i, le_idempotencyKey = in_idempotencyKey i,
      le_balanceAfter = balanceAfter, le_reversedEntryId = None\<rparr>"

definition creditTx :: "CreditInput \<Rightarrow> 'a WalletDb_scheme \<Rightarrow> string + LedgerEntry \<times> 'a WalletDb_scheme" where
  "creditTx i db =
     bindE (ensureWalletForUser (in_userId i) (in_newWalletId i) db) (\<lambda>(w, db).
     if w_status w \<noteq> WS_ACTIVE then Inl ''wallet_frozen''
     else let db = updateBalance (w_id w) (in_amountRial i) db in
          case findWallet (w_id w) db of
            None \<Rightarrow> Inl P2025
          | Some updated \<Rightarrow> insertEntry (newEntry i CREDIT w (w_availableBalance updated)) db)"

definition creditWallet :: "CreditInput \<Rightarrow> 'a WalletDb_scheme \<Rightarrow> string + LedgerEntry \<times> 'a WalletDb_scheme" where
  "creditWallet i db =
     (if in_amountRial i \<le> 0 then Inl ''invalid_amount''
      else case findByIdempotency (in_idempotencyKey i) db of
        Some e \<Rightarrow> if le_status e = LS_COMPLETED \<and> le_direction e = CREDIT then Inr (e, db)
                  else Inl ''idempotency_conflict''
      | None \<Rightarrow> creditTx i db)"

definition debitTx :: "CreditInput \<Rightarrow> 'a WalletDb_scheme \<Rightarrow> string + LedgerEntry \<times> 'a WalletDb_scheme" where
  "debitTx i db =
     bindE (ensureWalletForUser (in_userId i) (in_newWalletId i) db) (\<lambda>(w, db).
     if w_status w \<noteq> WS_ACTIVE then Inl ''wallet_frozen''
     else let (n, db) = decrementIf (w_id w) (in_amountRial i) True db in
          if n \<noteq> 1 then Inl ''insufficient_funds''
          else case findWallet (w_id w) db of
            None \<Rightarrow> Inl P2025
          | Some fresh \<Rightarrow> insertEntry (newEntry i DEBIT w (w_availableBalance fresh)) db)"

definition debitWallet :: "CreditInput \<Rightarrow> 'a WalletDb_scheme \<Rightarrow> string + LedgerEntry \<times> 'a WalletDb_scheme" where
  "debitWallet i db =
     (if in_amountRial i \<le> 0 then Inl ''invalid_amount''
      else case findByIdempotency (in_idempotencyKey i) db of
        Some e \<Rightarrow> if le_status e = LS_COMPLETED \<and> le_direction e = DEBIT then Inr (e, db)
                  else Inl ''idempotency_conflict''
      | None \<Rightarrow> debitTx i db)"

record ReverseInput =
  rv_userId :: string
  rv_originalEntryId :: string
  rv_idempotencyKey :: string
  rv_newEntryId :: string

definition reversalEntry ::
  "ReverseInput \<Rightarrow> LedgerDirection \<Rightarrow> LedgerType \<Rightarrow> LedgerEntry \<Rightarrow> int \<Rightarrow> LedgerEntry" where
  "reversalEntry i dir ty original balanceAfter =
     \<lparr>le_id = rv_newEntryId i, le_walletId = le_walletId original, le_direction = dir, le_type = ty,
      le_amount = le_amount original, le_status = LS_COMPLETED, le_referenceType = Some ''ledger'',
      le_referenceId = Some (le_id original), le_idempotencyKey = rv_idempotencyKey i,
      le_balanceAfter = balanceAfter, le_reversedEntryId = Some (le_id original)\<rparr>"

definition priorReversal :: "string \<Rightarrow> 'a WalletDb_scheme \<Rightarrow> LedgerEntry option" where
  "priorReversal eid db =
     findRow (\<lambda>e. le_reversedEntryId e = Some eid \<and> le_status e = LS_COMPLETED) (ledger db)"

definition reverseTx :: "ReverseInput \<Rightarrow> 'a WalletDb_scheme \<Rightarrow> string + LedgerEntry \<times> 'a WalletDb_scheme" where
  "reverseTx i db =
     (case findEntry (rv_originalEntryId i) db of
        None \<Rightarrow> Inl ''invalid_entry''
      | Some original \<Rightarrow>
        if le_status original \<noteq> LS_COMPLETED then Inl ''invalid_entry''
        else case priorReversal (le_id original) db of
          Some prior \<Rightarrow> Inr (prior, db)
        | None \<Rightarrow>
          (case findWallet (le_walletId original) db of
             None \<Rightarrow> Inl P2025
           | Some w \<Rightarrow>
             if w_userId w \<noteq> rv_userId i then Inl ''forbidden''
             else case le_direction original of
               DEBIT \<Rightarrow>
                 (let db = updateBalance (w_id w) (le_amount original) db in
                  case findWallet (w_id w) db of
                    None \<Rightarrow> Inl P2025
                  | Some updated \<Rightarrow>
                      insertEntry (reversalEntry i CREDIT REFUND original (w_availableBalance updated)) db)
             | CREDIT \<Rightarrow>
                 (let (n, db) = decrementIf (w_id w) (le_amount original) False db in
                  if n \<noteq> 1 then Inl ''insufficient_funds''
                  else case findWallet (w_id w) db of
                    None \<Rightarrow> Inl P2025
                  | Some fresh \<Rightarrow>
                      insertEntry (reversalEntry i DEBIT ADMIN_ADJUSTMENT original
                        (w_availableBalance fresh)) db)))"

definition reverseLedgerEntry ::
  "ReverseInput \<Rightarrow> 'a WalletDb_scheme \<Rightarrow> string + LedgerEntry \<times> 'a WalletDb_scheme" where
  "reverseLedgerEntry i db =
     (case findByIdempotency (rv_idempotencyKey i) db of
        Some e \<Rightarrow> if le_status e = LS_COMPLETED then Inr (e, db) else Inl ''idempotency_conflict''
      | None \<Rightarrow> reverseTx i db)"

section \<open>The wallet invariant\<close>

definition signed :: "LedgerEntry \<Rightarrow> int" where
  "signed e = (if le_status e = LS_COMPLETED
     then (case le_direction e of CREDIT \<Rightarrow> le_amount e | DEBIT \<Rightarrow> - le_amount e) else 0)"

definition ledgerSum :: "string \<Rightarrow> LedgerEntry list \<Rightarrow> int" where
  "ledgerSum wid es = sum_list (map signed (filter (\<lambda>e. le_walletId e = wid) es))"

text \<open>Every entry's balance is the running sum of its wallet up to and including the entry.\<close>

fun runningBalances :: "LedgerEntry list \<Rightarrow> LedgerEntry list \<Rightarrow> bool" where
  "runningBalances before [] = True"
| "runningBalances before (e # es) =
     (le_balanceAfter e = ledgerSum (le_walletId e) (before @ [e]) \<and> runningBalances (before @ [e]) es)"

definition walletInv :: "'a WalletDb_scheme \<Rightarrow> bool" where
  "walletInv db \<longleftrightarrow>
     distinct (map w_id (wallets db)) \<and> distinct (map w_userId (wallets db)) \<and>
     distinct (map le_id (ledger db)) \<and> distinct (map le_idempotencyKey (ledger db)) \<and>
     (\<forall>w \<in> set (wallets db). w_availableBalance w = ledgerSum (w_id w) (ledger db) \<and> 0 \<le> w_availableBalance w) \<and>
     (\<forall>e \<in> set (ledger db). 0 < le_amount e \<and> le_walletId e \<in> w_id ` set (wallets db)) \<and>
     runningBalances [] (ledger db)"

section \<open>The statements on a database that satisfies the invariant\<close>

lemma ledgerSum_Nil [simp]: "ledgerSum wid [] = 0"
  by (simp add: ledgerSum_def)

lemma ledgerSum_append [simp]: "ledgerSum wid (xs @ ys) = ledgerSum wid xs + ledgerSum wid ys"
  by (simp add: ledgerSum_def)

lemma ledgerSum_single [simp]: "ledgerSum wid [e] = (if le_walletId e = wid then signed e else 0)"
  by (simp add: ledgerSum_def)

lemma ledgerSum_absent: "(\<And>e. e \<in> set es \<Longrightarrow> le_walletId e \<noteq> wid) \<Longrightarrow> ledgerSum wid es = 0"
  by (simp add: ledgerSum_def)

lemma runningBalances_append:
  "runningBalances before (xs @ ys) \<longleftrightarrow> runningBalances before xs \<and> runningBalances (before @ xs) ys"
  by (induction before xs rule: runningBalances.induct) simp_all

lemma addBalance_simps [simp]:
  "w_id (addBalance d w) = w_id w" "w_userId (addBalance d w) = w_userId w"
  "w_availableBalance (addBalance d w) = w_availableBalance w + d"
  "w_status (addBalance d w) = w_status w"
  by (simp_all add: addBalance_def)

lemma ledger_updateBalance [simp]: "ledger (updateBalance wid d db) = ledger db"
  by (simp add: updateBalance_def)

lemma updateBalance_ids [simp]: "w_id ` set (wallets (updateBalance wid d db)) = w_id ` set (wallets db)"
  by (simp add: updateBalance_def map_updateRows flip: set_map)

lemma walletInv_cong: "wallets db' = wallets db \<Longrightarrow> ledger db' = ledger db \<Longrightarrow> walletInv db' = walletInv db"
  by (simp add: walletInv_def)

lemma findWallet_Some: "findWallet wid db = Some w \<Longrightarrow> w_id w = wid \<and> w \<in> set (wallets db)"
  unfolding findWallet_def by (drule findRow_Some) simp

lemma findWallet_mem:
  "walletInv db \<Longrightarrow> w \<in> set (wallets db) \<Longrightarrow> findWallet (w_id w) db = Some w"
  using findRow_unique [of w_id "wallets db" w] by (simp add: findWallet_def walletInv_def)

lemma walletInv_balance:
  assumes "walletInv db" and "findWallet wid db = Some w"
  shows "w_availableBalance w = ledgerSum wid (ledger db)" and "0 \<le> w_availableBalance w"
proof -
  have "w \<in> set (wallets db)" and "w_id w = wid" using findWallet_Some [OF assms(2)] by simp_all
  then have "w_availableBalance w = ledgerSum wid (ledger db) \<and> 0 \<le> w_availableBalance w"
    using assms(1) unfolding walletInv_def by blast
  then show "w_availableBalance w = ledgerSum wid (ledger db)" and "0 \<le> w_availableBalance w" by blast+
qed

lemma findWallet_updateBalance:
  "findWallet wid (updateBalance wid d db) = map_option (addBalance d) (findWallet wid db)"
proof -
  have "findRow (\<lambda>w. w_id w = wid) (updateRows (\<lambda>w. w_id w = wid) (addBalance d) t) =
      map_option (addBalance d) (findRow (\<lambda>w. w_id w = wid) t)" for t
    by (induction t) simp_all
  then show ?thesis by (simp add: findWallet_def updateBalance_def)
qed

text \<open>A conditional decrement that counts one row is the unconditional update of that wallet.\<close>

lemma decrementIf_one:
  assumes "walletInv db" and "decrementIf wid a act db = (n, db')" and "n = 1"
  obtains w where "findWallet wid db = Some w" and "a \<le> w_availableBalance w"
    and "act \<longrightarrow> w_status w = WS_ACTIVE" and "db' = updateBalance wid (- a) db"
proof -
  let ?q = "\<lambda>w. w_availableBalance w \<ge> a \<and> (act \<longrightarrow> w_status w = WS_ACTIVE)"
  have ids: "distinct (map w_id (wallets db))" using assms(1) by (simp add: walletInv_def)
  have "countRows (\<lambda>w. w_id w = wid \<and> ?q w) (wallets db) = 1"
    and db': "db' = db\<lparr>wallets := updateRows (\<lambda>w. w_id w = wid \<and> ?q w) (addBalance (- a)) (wallets db)\<rparr>"
    using assms(2,3) by (auto simp: decrementIf_def Let_def)
  then obtain w where w: "findWallet wid db = Some w" "?q w"
    using countRows_eq_1_iff [OF ids, of wid ?q] by (auto simp: findWallet_def)
  have "updateRows (\<lambda>w. w_id w = wid \<and> ?q w) (addBalance (- a)) (wallets db) =
      updateRows (\<lambda>w. w_id w = wid) (addBalance (- a)) (wallets db)"
    unfolding updateRows_def
  proof (rule map_cong [OF HOL.refl])
    fix v assume v: "v \<in> set (wallets db)"
    have "v = w" if "w_id v = wid"
      using findWallet_mem [OF assms(1) v] w(1) that by simp
    then show "(if w_id v = wid \<and> ?q v then addBalance (- a) v else v) =
        (if w_id v = wid then addBalance (- a) v else v)"
      using w(2) by auto
  qed
  then have "db' = updateBalance wid (- a) db" using db' by (simp add: updateBalance_def)
  then show ?thesis using that [of w] w by simp
qed

lemma decrementIf_not_one:
  assumes "walletInv db" and "decrementIf wid a act db = (n, db')" and "n \<noteq> 1"
    and "findWallet wid db = Some w"
  shows "w_availableBalance w < a \<or> (act \<and> w_status w \<noteq> WS_ACTIVE)"
proof -
  have ids: "distinct (map w_id (wallets db))" using assms(1) by (simp add: walletInv_def)
  show ?thesis
    using countRows_eq_1_iff [OF ids, of wid "\<lambda>w. w_availableBalance w \<ge> a \<and> (act \<longrightarrow> w_status w = WS_ACTIVE)"]
      assms(2-4) by (auto simp: decrementIf_def Let_def findWallet_def)
qed

section \<open>Posting: the one way balances move\<close>

text \<open>Every operation moves a balance by updating a wallet and appending one entry of the same amount that
  carries the new balance.\<close>

lemma insertEntry_Inr:
  "insertEntry e db = Inr (e', db') \<longleftrightarrow> e' = e \<and> findEntry (le_id e) db = None
    \<and> findByIdempotency (le_idempotencyKey e) db = None \<and> db' = db\<lparr>ledger := ledger db @ [e]\<rparr>"
  by (auto simp: insertEntry_def)

lemma post_preserves:
  assumes inv: "walletInv db" and w: "findWallet wid db = Some w"
    and ins: "insertEntry e (updateBalance wid d db) = Inr (e', db')"
    and e: "le_walletId e = wid" "0 < le_amount e" "signed e = d"
      "le_balanceAfter e = w_availableBalance w + d" "0 \<le> w_availableBalance w + d"
  shows "walletInv db'"
proof -
  note i = inv [unfolded walletInv_def]
  have db': "db' = (updateBalance wid d db)\<lparr>ledger := ledger db @ [e]\<rparr>"
    and fresh: "findRow (\<lambda>x. le_id x = le_id e) (ledger db) = None"
      "findRow (\<lambda>x. le_idempotencyKey x = le_idempotencyKey e) (ledger db) = None"
    using ins by (simp_all add: insertEntry_Inr findEntry_def findByIdempotency_def)
  have W: "wallets db' = updateRows (\<lambda>w. w_id w = wid) (addBalance d) (wallets db)"
    and L: "ledger db' = ledger db @ [e]"
    by (simp_all add: db' updateBalance_def)
  have "map w_id (wallets db') = map w_id (wallets db)" "map w_userId (wallets db') = map w_userId (wallets db)"
    unfolding W by (simp_all add: map_updateRows)
  then have keys: "distinct (map w_id (wallets db'))" "distinct (map w_userId (wallets db'))"
    and ids: "w_id ` set (wallets db') = w_id ` set (wallets db)"
    using i by (simp_all flip: set_map)
  have lkeys: "distinct (map le_id (ledger db'))" "distinct (map le_idempotencyKey (ledger db'))"
    using i fresh by (auto simp: L findRow_None)
  have ww: "w_id w = wid" "w \<in> set (wallets db)" using findWallet_Some [OF w] by simp_all
  have bal: "w_availableBalance v = ledgerSum (w_id v) (ledger db') \<and> 0 \<le> w_availableBalance v"
    if "v \<in> set (wallets db')" for v
  proof -
    from that W obtain u where u: "u \<in> set (wallets db)" "v = (if w_id u = wid then addBalance d u else u)"
      by (auto simp: set_updateRows)
    have ub: "w_availableBalance u = ledgerSum (w_id u) (ledger db)" "0 \<le> w_availableBalance u"
      using i u(1) by auto
    show ?thesis
    proof (cases "w_id u = wid")
      case True
      then have "u = w" using findWallet_mem [OF inv u(1)] w by simp
      then show ?thesis using u(2) True ub e by (simp add: L)
    next
      case False
      then show ?thesis using u(2) ub e(1) by (simp add: L)
    qed
  qed
  have "w_availableBalance w = ledgerSum wid (ledger db)" using i ww by auto
  then have "runningBalances [] (ledger db')"
    using i e by (simp add: L runningBalances_append)
  moreover have "0 < le_amount x \<and> le_walletId x \<in> w_id ` set (wallets db')" if "x \<in> set (ledger db')" for x
    using that i e(1,2) ww by (auto simp: L ids intro: rev_image_eqI)
  ultimately show ?thesis
    unfolding walletInv_def using keys lkeys bal by blast
qed

lemma ensureWalletForUser_Inr:
  assumes "walletInv db" and "ensureWalletForUser userId newId db = Inr (w, db')"
  shows "walletInv db'" and "findWallet (w_id w) db' = Some w" and "w_userId w = userId"
    and "ledger db' = ledger db"
proof -
  note i = assms(1) [unfolded walletInv_def]
  have "walletInv db' \<and> findWallet (w_id w) db' = Some w \<and> w_userId w = userId \<and> ledger db' = ledger db"
  proof (cases "getWalletForUser userId db")
    case (Some u)
    then have "w = u" "db' = db" using assms(2) by (auto simp: ensureWalletForUser_def)
    moreover have "u \<in> set (wallets db)" "w_userId u = userId"
      using Some findRow_Some by (fastforce simp: getWalletForUser_def)+
    ultimately show ?thesis using assms(1) findWallet_mem by blast
  next
    case None
    then have new: "findRow (\<lambda>w. w_id w = newId) (wallets db) = None"
        "w = \<lparr>w_id = newId, w_userId = userId, w_availableBalance = 0, w_status = WS_ACTIVE\<rparr>"
        "db' = db\<lparr>wallets := wallets db @ [w]\<rparr>"
      using assms(2) by (auto simp: ensureWalletForUser_def findWallet_def Let_def split: if_split_asm)
    have user: "\<forall>u \<in> set (wallets db). w_userId u \<noteq> userId" "\<forall>u \<in> set (wallets db). w_id u \<noteq> newId"
      using None new(1) by (simp_all add: getWalletForUser_def findRow_None)
    have "ledgerSum newId (ledger db) = 0"
      using i user(2) by (intro ledgerSum_absent) fastforce
    then have "walletInv db'"
      using i user new(2,3) by (auto simp: walletInv_def)
    then show ?thesis using new user(2)
      by (auto simp: findWallet_def findRow_append findRow_None split: option.splits dest!: findRow_Some)
  qed
  then show "walletInv db'" "findWallet (w_id w) db' = Some w" "w_userId w = userId" "ledger db' = ledger db"
    by simp_all
qed

section \<open>The operations\<close>

lemma creditTx_Inr:
  assumes "walletInv db" and "creditTx i db = Inr (e, db')" and "0 < in_amountRial i"
  shows "walletInv db'" and "ledger db' = ledger db @ [e]" and "le_idempotencyKey e = in_idempotencyKey i"
    and "le_status e = LS_COMPLETED" and "le_direction e = CREDIT" and "le_amount e = in_amountRial i"
    and "\<exists>w. findWallet (le_walletId e) db' = Some w \<and> w_userId w = in_userId i
      \<and> le_balanceAfter e = w_availableBalance w"
proof -
  obtain w db1 where w: "ensureWalletForUser (in_userId i) (in_newWalletId i) db = Inr (w, db1)"
    and ins: "insertEntry (newEntry i CREDIT w (w_availableBalance (addBalance (in_amountRial i) w)))
        (updateBalance (w_id w) (in_amountRial i) db1) = Inr (e, db')"
  proof -
    obtain w db1 where w: "ensureWalletForUser (in_userId i) (in_newWalletId i) db = Inr (w, db1)"
      using assms(2) by (auto simp: creditTx_def bindE_eq_Inr)
    note en = ensureWalletForUser_Inr [OF assms(1) w]
    have "findWallet (w_id w) (updateBalance (w_id w) (in_amountRial i) db1) = Some (addBalance (in_amountRial i) w)"
      using en(2) by (simp add: findWallet_updateBalance)
    then show thesis using that [OF w] assms(2) w by (auto simp: creditTx_def Let_def split: if_split_asm)
  qed
  note en = ensureWalletForUser_Inr [OF assms(1) w]
  have e: "e = newEntry i CREDIT w (w_availableBalance w + in_amountRial i)"
    and db': "db' = (updateBalance (w_id w) (in_amountRial i) db1)\<lparr>ledger := ledger db @ [e]\<rparr>"
    using ins en(4) by (simp_all add: insertEntry_Inr)
  have "0 \<le> w_availableBalance w"
    using walletInv_balance [OF en(1,2)] by simp
  then show "walletInv db'"
    using assms(3) e by (intro post_preserves [OF en(1,2) ins]) (simp_all add: newEntry_def signed_def)
  show "ledger db' = ledger db @ [e]" by (simp add: db')
  show "le_idempotencyKey e = in_idempotencyKey i" "le_status e = LS_COMPLETED"
    "le_direction e = CREDIT" "le_amount e = in_amountRial i" by (simp_all add: e newEntry_def)
  have "findWallet (w_id w) db' = Some (addBalance (in_amountRial i) w)"
    using findWallet_updateBalance [of "w_id w" "in_amountRial i" db1] en(2)
    by (simp add: db' findWallet_def)
  then show "\<exists>w. findWallet (le_walletId e) db' = Some w \<and> w_userId w = in_userId i
      \<and> le_balanceAfter e = w_availableBalance w"
    using en(3) by (simp add: e newEntry_def)
qed

lemma debitTx_Inr:
  assumes "walletInv db" and "debitTx i db = Inr (e, db')" and "0 < in_amountRial i"
  shows "walletInv db'" and "ledger db' = ledger db @ [e]" and "le_idempotencyKey e = in_idempotencyKey i"
    and "le_status e = LS_COMPLETED" and "le_direction e = DEBIT" and "le_amount e = in_amountRial i"
    and "\<exists>w. findWallet (le_walletId e) db' = Some w \<and> w_userId w = in_userId i
      \<and> le_balanceAfter e = w_availableBalance w"
proof -
  obtain w db1 where w: "ensureWalletForUser (in_userId i) (in_newWalletId i) db = Inr (w, db1)"
    using assms(2) by (auto simp: debitTx_def bindE_eq_Inr)
  note en = ensureWalletForUser_Inr [OF assms(1) w]
  obtain db2 where dec: "decrementIf (w_id w) (in_amountRial i) True db1 = (1, db2)"
    using assms(2) w by (auto simp: debitTx_def Let_def split: if_split_asm prod.splits)
  then have db2: "db2 = updateBalance (w_id w) (- in_amountRial i) db1" and enough: "in_amountRial i \<le> w_availableBalance w"
    using decrementIf_one [OF en(1) dec HOL.refl] en(2) by auto
  have ins: "insertEntry (newEntry i DEBIT w (w_availableBalance (addBalance (- in_amountRial i) w)))
        (updateBalance (w_id w) (- in_amountRial i) db1) = Inr (e, db')"
  proof -
    have "findWallet (w_id w) db2 = Some (addBalance (- in_amountRial i) w)"
      using en(2) by (simp add: db2 findWallet_updateBalance)
    then show ?thesis using assms(2) w dec by (auto simp: debitTx_def Let_def db2 split: if_split_asm)
  qed
  have e: "e = newEntry i DEBIT w (w_availableBalance w - in_amountRial i)"
    and db': "db' = (updateBalance (w_id w) (- in_amountRial i) db1)\<lparr>ledger := ledger db @ [e]\<rparr>"
    using ins en(4) by (simp_all add: insertEntry_Inr)
  show "walletInv db'"
    using assms(3) e enough by (intro post_preserves [OF en(1,2) ins]) (simp_all add: newEntry_def signed_def)
  show "ledger db' = ledger db @ [e]" by (simp add: db')
  show "le_idempotencyKey e = in_idempotencyKey i" "le_status e = LS_COMPLETED"
    "le_direction e = DEBIT" "le_amount e = in_amountRial i" by (simp_all add: e newEntry_def)
  have "findWallet (w_id w) db' = Some (addBalance (- in_amountRial i) w)"
    using findWallet_updateBalance [of "w_id w" "- in_amountRial i" db1] en(2)
    by (simp add: db' findWallet_def)
  then show "\<exists>w. findWallet (le_walletId e) db' = Some w \<and> w_userId w = in_userId i
      \<and> le_balanceAfter e = w_availableBalance w"
    using en(3) by (simp add: e newEntry_def)
qed

text \<open>A reversal that writes: the opposite entry of the same amount, linked to the original.\<close>

lemma reverseTx_Inr:
  assumes "walletInv db" and "reverseTx i db = Inr (e, db')"
  obtains o' where "findEntry (rv_originalEntryId i) db = Some o'" and "le_status o' = LS_COMPLETED"
    and "walletInv db'" and "le_status e = LS_COMPLETED" and "le_reversedEntryId e = Some (le_id o')"
    and "(priorReversal (le_id o') db = Some e \<and> db' = db) \<or>
      (priorReversal (le_id o') db = None \<and> ledger db' = ledger db @ [e]
        \<and> signed e = - signed o' \<and> le_walletId e = le_walletId o'
        \<and> le_idempotencyKey e = rv_idempotencyKey i)"
proof -
  from assms(2) obtain o' where o': "findEntry (rv_originalEntryId i) db = Some o'" "le_status o' = LS_COMPLETED"
    by (auto simp: reverseTx_def split: option.split_asm if_split_asm)
  show thesis
  proof (cases "priorReversal (le_id o') db")
    case (Some p)
    then have "e = p" "db' = db" using assms(2) o' by (auto simp: reverseTx_def)
    moreover from Some have "le_reversedEntryId p = Some (le_id o')" "le_status p = LS_COMPLETED"
      unfolding priorReversal_def by (auto dest: findRow_Some)
    ultimately show thesis using that [OF o'] assms(1) Some by simp
  next
    case None
    from assms(2) o' None obtain w where w: "findWallet (le_walletId o') db = Some w" "w_userId w = rv_userId i"
      by (auto simp: reverseTx_def split: option.split_asm if_split_asm)
    have wid: "w_id w = le_walletId o'" using findWallet_Some [OF w(1)] by simp
    have amt: "0 < le_amount o'"
      using assms(1) findRow_Some [OF o'(1) [unfolded findEntry_def]] by (simp add: walletInv_def)
    have bal: "0 \<le> w_availableBalance w"
      using walletInv_balance [OF assms(1) w(1)] by simp
    show thesis
    proof (cases "le_direction o'")
      case DEBIT
      let ?e = "reversalEntry i CREDIT REFUND o' (w_availableBalance w + le_amount o')"
      have ins: "insertEntry ?e (updateBalance (le_walletId o') (le_amount o') db) = Inr (e, db')"
        using assms(2) o' None w DEBIT wid
        by (auto simp: reverseTx_def Let_def findWallet_updateBalance)
      have e: "e = ?e" "ledger db' = ledger db @ [e]" using ins by (auto simp: insertEntry_Inr)
      have "walletInv db'"
        using amt bal by (intro post_preserves [OF assms(1) w(1) ins]) (simp_all add: reversalEntry_def signed_def)
      then show thesis using that [OF o'] None e o'(2) DEBIT by (simp add: reversalEntry_def signed_def)
    next
      case CREDIT
      let ?e = "reversalEntry i DEBIT ADMIN_ADJUSTMENT o' (w_availableBalance w - le_amount o')"
      obtain n db2 where dec: "decrementIf (w_id w) (le_amount o') False db = (n, db2)" by fastforce
      then have one: "n = 1" using assms(2) o' None w CREDIT
        by (auto simp: reverseTx_def Let_def split: if_split_asm)
      then have db2: "db2 = updateBalance (le_walletId o') (- le_amount o') db" and enough: "le_amount o' \<le> w_availableBalance w"
        using decrementIf_one [OF assms(1) dec one] w(1) wid by auto
      have "findWallet (w_id w) db2 = Some (addBalance (- le_amount o') w)"
        using w(1) wid by (simp add: db2 findWallet_updateBalance)
      then have ins: "insertEntry ?e (updateBalance (le_walletId o') (- le_amount o') db) = Inr (e, db')"
        using assms(2) o' None w CREDIT dec one db2
        by (auto simp: reverseTx_def Let_def)
      have e: "e = ?e" "ledger db' = ledger db @ [e]" using ins by (auto simp: insertEntry_Inr)
      have "walletInv db'"
        using amt enough by (intro post_preserves [OF assms(1) w(1) ins]) (simp_all add: reversalEntry_def signed_def)
      then show thesis using that [OF o'] None e o'(2) CREDIT by (simp add: reversalEntry_def signed_def)
    qed
  qed
qed

section \<open>Commands\<close>

datatype WalletCommand = Credit CreditInput | Debit CreditInput | Reverse ReverseInput

fun walletCommand :: "WalletCommand \<Rightarrow> 'a WalletDb_scheme \<Rightarrow> string + LedgerEntry \<times> 'a WalletDb_scheme" where
  "walletCommand (Credit i) db = creditWallet i db"
| "walletCommand (Debit i) db = debitWallet i db"
| "walletCommand (Reverse i) db = reverseLedgerEntry i db"

definition applyCommand :: "'a WalletDb_scheme \<Rightarrow> WalletCommand \<Rightarrow> 'a WalletDb_scheme" where
  "applyCommand db c = (case walletCommand c db of Inl _ \<Rightarrow> db | Inr (_, db') \<Rightarrow> db')"

text \<open>A wallet command touches nothing but the wallet tables.\<close>

lemma image_updateRows: "(\<And>x. k (f x) = k x) \<Longrightarrow> k ` set (updateRows p f xs) = k ` set xs"
  using map_updateRows [of k f p xs] by (metis set_map)

lemma ensureWallet_only: "ensureWalletForUser u n db = Inr (w, db') \<Longrightarrow>
    WalletDb.more db' = WalletDb.more db \<and> w_id ` set (wallets db) \<subseteq> w_id ` set (wallets db') \<and> ledger db' = ledger db"
  by (auto simp: ensureWalletForUser_def Let_def split: option.split_asm if_split_asm)

lemma updateBalance_more [simp]: "WalletDb.more (updateBalance wid d db) = WalletDb.more db"
  by (simp add: updateBalance_def)

lemma decrementIf_only: "decrementIf wid a act db = (n, db') \<Longrightarrow>
    WalletDb.more db' = WalletDb.more db \<and> w_id ` set (wallets db') = w_id ` set (wallets db) \<and> ledger db' = ledger db"
  unfolding decrementIf_def Let_def prod.inject by (elim conjE, hypsubst) (simp add: image_updateRows)

lemma creditTx_more: "creditTx i db = Inr (e, db') \<Longrightarrow> WalletDb.more db' = WalletDb.more db"
  by (auto simp: creditTx_def bindE_eq_Inr Let_def insertEntry_Inr
      split: if_split_asm option.split_asm dest!: ensureWallet_only)

lemma debitTx_more: "debitTx i db = Inr (e, db') \<Longrightarrow> WalletDb.more db' = WalletDb.more db"
  by (auto simp: debitTx_def bindE_eq_Inr Let_def insertEntry_Inr
      split: if_split_asm option.split_asm prod.split_asm dest!: ensureWallet_only decrementIf_only)

lemma reverseTx_more: "reverseTx i db = Inr (e, db') \<Longrightarrow> WalletDb.more db' = WalletDb.more db"
  by (auto simp: reverseTx_def Let_def insertEntry_Inr
      split: if_split_asm option.split_asm prod.split_asm LedgerDirection.split_asm dest!: decrementIf_only)

lemma walletCommand_more: "walletCommand c db = Inr (e, db') \<Longrightarrow> WalletDb.more db' = WalletDb.more db"
  by (cases c) (auto simp: creditWallet_def debitWallet_def reverseLedgerEntry_def
      split: option.split_asm if_split_asm intro: creditTx_more debitTx_more reverseTx_more)

text \<open>Credits and debits are recognised by their key; a reversal by the entry it reverses.\<close>

fun keyed :: "WalletCommand \<Rightarrow> bool" where
  "keyed (Credit i) = True"
| "keyed (Debit i) = True"
| "keyed (Reverse i) = False"

fun recordedEntry :: "WalletCommand \<Rightarrow> 'a WalletDb_scheme \<Rightarrow> LedgerEntry option" where
  "recordedEntry (Credit i) db = (case findByIdempotency (in_idempotencyKey i) db of None \<Rightarrow> None
     | Some e \<Rightarrow> if 0 < in_amountRial i \<and> le_status e = LS_COMPLETED \<and> le_direction e = CREDIT then Some e else None)"
| "recordedEntry (Debit i) db = (case findByIdempotency (in_idempotencyKey i) db of None \<Rightarrow> None
     | Some e \<Rightarrow> if 0 < in_amountRial i \<and> le_status e = LS_COMPLETED \<and> le_direction e = DEBIT then Some e else None)"
| "recordedEntry (Reverse i) db = None"

text \<open>A command either changes nothing or appends one completed entry with a positive amount.\<close>

lemma walletCommand_cases:
  assumes "walletInv db" and "walletCommand c db = Inr (e, db')"
  shows "walletInv db' \<and> (db' = db \<or> ledger db' = ledger db @ [e] \<and> le_status e = LS_COMPLETED)"
proof (cases c)
  case (Credit i)
  then show ?thesis using assms creditTx_Inr [OF assms(1), of i e db']
    by (auto simp: creditWallet_def split: option.split_asm if_split_asm)
next
  case (Debit i)
  then show ?thesis using assms debitTx_Inr [OF assms(1), of i e db']
    by (auto simp: debitWallet_def split: option.split_asm if_split_asm)
next
  case (Reverse i)
  show ?thesis
  proof (cases "findByIdempotency (rv_idempotencyKey i) db")
    case None
    then have "reverseTx i db = Inr (e, db')" using assms(2) Reverse by (simp add: reverseLedgerEntry_def)
    with assms(1) show ?thesis by (rule reverseTx_Inr) auto
  next
    case (Some x)
    then show ?thesis using assms Reverse by (simp add: reverseLedgerEntry_def split: if_split_asm)
  qed
qed

lemma findByIdempotency_append:
  "ledger db' = ledger db @ es \<Longrightarrow> findByIdempotency key db = Some x \<Longrightarrow> findByIdempotency key db' = Some x"
  by (simp add: findByIdempotency_def findRow_append)

lemma findByIdempotency_last:
  assumes "walletInv db'" and "ledger db' = ledger db @ [e]"
  shows "findByIdempotency (le_idempotencyKey e) db' = Some e"
  using findRow_unique [of le_idempotencyKey "ledger db'" e] assms
  by (simp add: findByIdempotency_def walletInv_def)

interpretation wallet_cmd: idempotent_op walletInv walletCommand keyed recordedEntry
proof
  fix db :: "'a WalletDb_scheme" and c e db'
  assume "walletInv db" and "walletCommand c db = Inr (e, db')"
  then show "walletInv db'" using walletCommand_cases by blast
next
  fix db :: "'a WalletDb_scheme" and c e db'
  assume inv: "walletInv db" and k: "keyed c" and run: "walletCommand c db = Inr (e, db')"
  show "recordedEntry c db' = Some e"
  proof (cases c)
    case (Credit i)
    show ?thesis using run Credit creditTx_Inr [OF inv, of i e db'] findByIdempotency_last [of db' db e]
      by (auto simp: creditWallet_def split: option.split_asm if_split_asm)
  next
    case (Debit i)
    show ?thesis using run Debit debitTx_Inr [OF inv, of i e db'] findByIdempotency_last [of db' db e]
      by (auto simp: debitWallet_def split: option.split_asm if_split_asm)
  qed (use k in simp)
next
  fix db :: "'a WalletDb_scheme" and c r j s db'
  assume inv: "walletInv db" and k: "keyed c" and r: "recordedEntry c db = Some r"
    and run: "walletCommand j db = Inr (s, db')"
  from walletCommand_cases [OF inv run] show "recordedEntry c db' = Some r"
  proof (elim conjE disjE)
    assume "ledger db' = ledger db @ [s]"
    then show ?thesis using r k
      by (cases c) (auto split: option.split_asm if_split_asm dest: findByIdempotency_append)
  qed (use r in simp)
next
  fix db :: "'a WalletDb_scheme" and c r
  assume "keyed c" and "recordedEntry c db = Some r"
  then show "walletCommand c db = Inr (r, db)"
    by (cases c) (auto simp: creditWallet_def debitWallet_def split: option.split_asm if_split_asm)
qed

lemma applyCommand_step: "applyCommand = wallet_cmd.step"
  by (intro ext) (simp add: applyCommand_def wallet_cmd.step_def)

section \<open>Interleavings\<close>

text \<open>
  \<open>creditWallet\<close> and the others look their key up before they open the transaction, so a
  concurrent caller can enter its transaction after another one has committed. Reachable databases are
  therefore closed under whole commands, under bare transactions (whose lookup is stale), and under the
  administrator's freezing and unfreezing of wallets.
\<close>

definition setStatus :: "string \<Rightarrow> WalletStatus \<Rightarrow> 'a WalletDb_scheme \<Rightarrow> 'a WalletDb_scheme" where
  "setStatus wid st db = db\<lparr>wallets := updateRows (\<lambda>w. w_id w = wid) (\<lambda>w. w\<lparr>w_status := st\<rparr>) (wallets db)\<rparr>"

inductive walletReach :: "WalletDb \<Rightarrow> bool" where
  initial: "walletReach \<lparr>wallets = [], ledger = []\<rparr>"
| command: "walletReach db \<Longrightarrow> walletCommand c db = Inr (e, db') \<Longrightarrow> walletReach db'"
| late_credit: "walletReach db \<Longrightarrow> 0 < in_amountRial i \<Longrightarrow> creditTx i db = Inr (e, db') \<Longrightarrow> walletReach db'"
| late_debit: "walletReach db \<Longrightarrow> 0 < in_amountRial i \<Longrightarrow> debitTx i db = Inr (e, db') \<Longrightarrow> walletReach db'"
| late_reverse: "walletReach db \<Longrightarrow> reverseTx j db = Inr (e, db') \<Longrightarrow> walletReach db'"
| freeze: "walletReach db \<Longrightarrow> walletReach (setStatus wid st db)"

lemma setStatus_inv: "walletInv db \<Longrightarrow> walletInv (setStatus wid st db)"
proof -
  assume inv: "walletInv db"
  have m: "map w_id (wallets (setStatus wid st db)) = map w_id (wallets db)"
    "map w_userId (wallets (setStatus wid st db)) = map w_userId (wallets db)"
    by (simp_all add: setStatus_def map_updateRows)
  have ids: "w_id ` set (wallets (setStatus wid st db)) = w_id ` set (wallets db)"
    using m(1) by (metis set_map)
  have L: "ledger (setStatus wid st db) = ledger db" by (simp add: setStatus_def)
  have bal: "w_availableBalance v = ledgerSum (w_id v) (ledger db) \<and> 0 \<le> w_availableBalance v"
    if "v \<in> set (wallets (setStatus wid st db))" for v
  proof -
    from that obtain u where u: "u \<in> set (wallets db)" "w_id v = w_id u" "w_availableBalance v = w_availableBalance u"
      by (auto simp: setStatus_def set_updateRows)
    have "w_availableBalance u = ledgerSum (w_id u) (ledger db) \<and> 0 \<le> w_availableBalance u"
      using inv u(1) unfolding walletInv_def by blast
    then show ?thesis using u by simp
  qed
  show ?thesis unfolding walletInv_def m ids L using inv [unfolded walletInv_def] bal by blast
qed

text \<open>Completed reversals, by the entry they reverse.\<close>

definition reversals :: "LedgerEntry list \<Rightarrow> string option list" where
  "reversals es = map le_reversedEntryId
     (filter (\<lambda>e. le_status e = LS_COMPLETED \<and> le_reversedEntryId e \<noteq> None) es)"

definition reversalInv :: "'a WalletDb_scheme \<Rightarrow> bool" where
  "reversalInv db \<longleftrightarrow> distinct (reversals (ledger db)) \<and>
     (\<forall>e \<in> set (ledger db). \<forall>x. le_status e = LS_COMPLETED \<and> le_reversedEntryId e = Some x \<longrightarrow>
        (\<exists>o' \<in> set (ledger db). le_id o' = x \<and> signed e = - signed o' \<and> le_walletId e = le_walletId o'))"

lemma reversalInv_append_plain:
  "reversalInv db \<Longrightarrow> ledger db' = ledger db @ [e] \<Longrightarrow> le_reversedEntryId e = None \<Longrightarrow> reversalInv db'"
  by (auto simp: reversalInv_def reversals_def)

lemma creditTx_plain: "creditTx i db = Inr (e, db') \<Longrightarrow> le_reversedEntryId e = None"
  by (auto simp: creditTx_def bindE_eq_Inr Let_def insertEntry_Inr newEntry_def split: if_split_asm option.split_asm)

lemma debitTx_plain: "debitTx i db = Inr (e, db') \<Longrightarrow> le_reversedEntryId e = None"
  by (auto simp: debitTx_def bindE_eq_Inr Let_def insertEntry_Inr newEntry_def
      split: if_split_asm option.split_asm prod.split_asm)

lemma reverseTx_reversalInv:
  assumes "walletInv db" and "reversalInv db" and "reverseTx i db = Inr (e, db')"
  shows "reversalInv db'"
  using assms(1,3)
proof (rule reverseTx_Inr, goal_cases)
  case (1 o')
  from 1(6) show ?case
  proof (elim disjE conjE)
    assume none: "priorReversal (le_id o') db = None" and L: "ledger db' = ledger db @ [e]"
      and s: "signed e = - signed o'" "le_walletId e = le_walletId o'"
    have "Some (le_id o') \<notin> set (reversals (ledger db))"
      using none by (auto simp: priorReversal_def reversals_def findRow_None)
    moreover have "o' \<in> set (ledger db)"
      using 1(1) unfolding findEntry_def by (auto dest: findRow_Some)
    ultimately show ?thesis using assms(2) L s 1(4,5) by (auto simp: reversalInv_def reversals_def)
  qed (use assms(2) in simp)
qed

lemma walletReach_inv: "walletReach db \<Longrightarrow> walletInv db \<and> reversalInv db"
proof (induction rule: walletReach.induct)
  case initial
  then show ?case by (simp add: walletInv_def reversalInv_def reversals_def)
next
  case (command db c e db')
  have "reversalInv db'"
  proof (cases c)
    case (Credit i)
    then show ?thesis using command creditTx_Inr(2) [of db i e db'] creditTx_plain [of i db e db']
        reversalInv_append_plain [of db db' e]
      by (auto simp: creditWallet_def split: option.split_asm if_split_asm)
  next
    case (Debit i)
    then show ?thesis using command debitTx_Inr(2) [of db i e db'] debitTx_plain [of i db e db']
        reversalInv_append_plain [of db db' e]
      by (auto simp: debitWallet_def split: option.split_asm if_split_asm)
  next
    case (Reverse i)
    then show ?thesis using command reverseTx_reversalInv [of db i e db']
      by (auto simp: reverseLedgerEntry_def split: option.split_asm if_split_asm)
  qed
  then show ?case using command walletCommand_cases by blast
next
  case (late_credit db i e db')
  then show ?case using creditTx_Inr(1,2) creditTx_plain reversalInv_append_plain by blast
next
  case (late_debit db i e db')
  then show ?case using debitTx_Inr(1,2) debitTx_plain reversalInv_append_plain by blast
next
  case (late_reverse db j e db')
  have "walletInv db'" using conjunct1 [OF late_reverse.IH] late_reverse.hyps(2) by (rule reverseTx_Inr) simp
  then show ?case using reverseTx_reversalInv late_reverse by blast
next
  case (freeze db wid st)
  then show ?case using setStatus_inv by (auto simp: reversalInv_def setStatus_def)
qed

section \<open>Properties\<close>

text \<open>C20: wallets always reconcile with their ledger. In every database reachable by any interleaving of
  credits, debits, reversals (whole, or transactions that start after a stale key lookup) and status changes,
  each wallet's balance is the signed sum of its completed entries and is never negative, every entry's
  recorded balance is the running sum up to it, and no idempotency key occurs twice.\<close>

theorem wallets_reconcile:
  assumes "walletReach db" and "w \<in> set (wallets db)"
  shows "w_availableBalance w = ledgerSum (w_id w) (ledger db) \<and> 0 \<le> w_availableBalance w
    \<and> runningBalances [] (ledger db) \<and> distinct (map le_idempotencyKey (ledger db))"
  using walletReach_inv [OF assms(1)] assms(2) unfolding walletInv_def by blast

definition sample_credit :: CreditInput where
  "sample_credit = \<lparr>in_userId = ''u1'', in_amountRial = 1000, in_type = TOP_UP, in_idempotencyKey = ''k1'',
     in_referenceType = None, in_referenceId = None, in_newWalletId = ''w1'', in_newEntryId = ''e1''\<rparr>"

definition sample_debit :: CreditInput where
  "sample_debit = \<lparr>in_userId = ''u1'', in_amountRial = 300, in_type = SERVICE_PURCHASE, in_idempotencyKey = ''k2'',
     in_referenceType = Some ''order'', in_referenceId = Some ''o1'', in_newWalletId = ''w2'', in_newEntryId = ''e2''\<rparr>"

definition sample_reversal :: ReverseInput where
  "sample_reversal = \<lparr>rv_userId = ''u1'', rv_originalEntryId = ''e2'', rv_idempotencyKey = ''k3'', rv_newEntryId = ''e3''\<rparr>"

definition emptyWalletDb :: WalletDb where
  "emptyWalletDb = \<lparr>wallets = [], ledger = []\<rparr>"

definition sample_wallet_db :: WalletDb where
  "sample_wallet_db = applyCommand (applyCommand (applyCommand emptyWalletDb (Credit sample_credit))
     (Debit sample_debit)) (Reverse sample_reversal)"

lemma applyCommand_reach: "walletReach db \<Longrightarrow> walletReach (applyCommand db c)"
  by (auto simp: applyCommand_def split: sum.splits intro: walletReach.command)

lemma sample_wallet_reach: "walletReach sample_wallet_db"
  unfolding sample_wallet_db_def emptyWalletDb_def by (intro applyCommand_reach walletReach.initial)

lemma sample_wallet_rows:
  "wallets sample_wallet_db = [\<lparr>w_id = ''w1'', w_userId = ''u1'', w_availableBalance = 1000, w_status = WS_ACTIVE\<rparr>]"
  "map signed (ledger sample_wallet_db) = [1000, -300, 300]"
  "map le_reversedEntryId (ledger sample_wallet_db) = [None, None, Some ''e2'']"
  by code_simp+

theorem wallets_reconcile_witness:
  "\<exists>w. w \<in> set (wallets sample_wallet_db) \<and> w_availableBalance w = 1000
    \<and> w_availableBalance w = ledgerSum (w_id w) (ledger sample_wallet_db)"
proof -
  obtain w where w: "w \<in> set (wallets sample_wallet_db)" "w_availableBalance w = 1000"
    by (simp add: sample_wallet_rows)
  then show ?thesis using wallets_reconcile [OF sample_wallet_reach w(1)] by blast
qed

text \<open>C29: a credit or debit happens at most once. Once a wallet command with an idempotency key has
  succeeded, repeating it after any sequence of further commands returns the very same ledger entry and
  leaves the database unchanged.\<close>

theorem wallet_command_at_most_once:
  assumes "walletInv db" and "keyed c" and "walletCommand c db = Inr (e, db1)"
  shows "walletCommand c (foldl applyCommand db1 cs) = Inr (e, foldl applyCommand db1 cs)"
  unfolding applyCommand_step using assms by (rule wallet_cmd.at_most_once)

theorem wallet_command_at_most_once_witness:
  "\<exists>e db1. walletCommand (Credit sample_credit) emptyWalletDb = Inr (e, db1) \<and>
    walletCommand (Credit sample_credit) (foldl applyCommand db1 [Debit sample_debit, Credit sample_credit]) =
      Inr (e, foldl applyCommand db1 [Debit sample_debit, Credit sample_credit])"
proof -
  have "isOk (walletCommand (Credit sample_credit) emptyWalletDb)" by code_simp
  then obtain e db1 where run: "walletCommand (Credit sample_credit) emptyWalletDb = Inr (e, db1)"
    by (auto simp: isOk_iff)
  have "walletInv emptyWalletDb" by (simp add: emptyWalletDb_def walletInv_def)
  from wallet_command_at_most_once [OF this _ run] run show ?thesis by fastforce
qed

text \<open>C30: an entry is reversed at most once and exactly. In every reachable database two completed reversals
  of the same entry are the same entry, and a completed reversal belongs to the wallet of the entry it
  reverses and cancels its effect on the balance.\<close>

theorem reversal_exact_and_unique:
  assumes "walletReach db" and "e \<in> set (ledger db)" and "le_status e = LS_COMPLETED"
    and "le_reversedEntryId e = Some x"
  shows "(\<exists>o' \<in> set (ledger db). le_id o' = x \<and> le_walletId e = le_walletId o' \<and> signed e + signed o' = 0)
    \<and> length (filter (\<lambda>f. le_status f = LS_COMPLETED \<and> le_reversedEntryId f = Some x) (ledger db)) = 1"
proof -
  have inv: "reversalInv db" using walletReach_inv [OF assms(1)] by simp
  obtain o' where "o' \<in> set (ledger db)" "le_id o' = x" "signed e = - signed o'" "le_walletId e = le_walletId o'"
    using inv assms(2-4) unfolding reversalInv_def by blast
  moreover have "length (filter (\<lambda>f. le_status f = LS_COMPLETED \<and> le_reversedEntryId f = Some x) es) = 1"
    if "distinct (reversals es)" and "e \<in> set es" for es
    using that
  proof (induction es)
    case (Cons f es)
    show ?case
    proof (cases "le_status f = LS_COMPLETED \<and> le_reversedEntryId f = Some x")
      case True
      then have "Some x \<notin> set (reversals es)" using Cons.prems(1) by (simp add: reversals_def)
      then have "filter (\<lambda>f. le_status f = LS_COMPLETED \<and> le_reversedEntryId f = Some x) es = []"
        by (force simp: reversals_def filter_empty_conv)
      then show ?thesis using True by simp
    next
      case False
      then have "e \<in> set es" "distinct (reversals es)"
        using Cons.prems assms(3,4) by (auto simp: reversals_def split: if_split_asm)
      then show ?thesis using Cons.IH False by auto
    qed
  qed simp
  ultimately show ?thesis using inv assms(2) by (auto simp: reversalInv_def)
qed

theorem reversal_exact_and_unique_witness:
  "\<exists>e \<in> set (ledger sample_wallet_db). le_reversedEntryId e = Some ''e2''
    \<and> length (filter (\<lambda>f. le_status f = LS_COMPLETED \<and> le_reversedEntryId f = Some ''e2'') (ledger sample_wallet_db)) = 1"
proof -
  have "list_ex (\<lambda>e. le_reversedEntryId e = Some ''e2'' \<and> le_status e = LS_COMPLETED) (ledger sample_wallet_db)"
    by code_simp
  then obtain e where "e \<in> set (ledger sample_wallet_db)" "le_reversedEntryId e = Some ''e2''" "le_status e = LS_COMPLETED"
    by (auto simp: list_ex_iff)
  then show ?thesis using reversal_exact_and_unique [OF sample_wallet_reach] by blast
qed

text \<open>What a purchase does to a wallet. For a user with a wallet and a fresh key, a debit fails with
  \<open>wallet_frozen\<close> when the wallet is not active and with \<open>insufficient_funds\<close> when the balance is below
  the amount; otherwise it takes exactly the amount from that wallet and no other and appends one completed
  entry that carries the remaining balance.\<close>

theorem debit_outcome:
  assumes "walletInv db" and "getWalletForUser (in_userId i) db = Some w" and "0 < in_amountRial i"
    and "findByIdempotency (in_idempotencyKey i) db = None" and "findEntry (in_newEntryId i) db = None"
  shows "debitWallet i db =
    (if w_status w \<noteq> WS_ACTIVE then Inl ''wallet_frozen''
     else if w_availableBalance w < in_amountRial i then Inl ''insufficient_funds''
     else Inr (newEntry i DEBIT w (w_availableBalance w - in_amountRial i),
       db\<lparr>wallets := updateRows (\<lambda>v. w_id v = w_id w) (addBalance (- in_amountRial i)) (wallets db),
          ledger := ledger db @ [newEntry i DEBIT w (w_availableBalance w - in_amountRial i)]\<rparr>))"
proof -
  have w: "w \<in> set (wallets db)"
    using assms(2) unfolding getWalletForUser_def by (auto dest: findRow_Some)
  have fw: "findWallet (w_id w) db = Some w" using findWallet_mem [OF assms(1) w] .
  obtain n db2 where dec: "decrementIf (w_id w) (in_amountRial i) True db = (n, db2)" by fastforce
  have run: "debitWallet i db = (if w_status w \<noteq> WS_ACTIVE then Inl ''wallet_frozen''
      else if n \<noteq> 1 then Inl ''insufficient_funds''
      else case findWallet (w_id w) db2 of None \<Rightarrow> Inl P2025
        | Some fresh \<Rightarrow> insertEntry (newEntry i DEBIT w (w_availableBalance fresh)) db2)"
    using assms(2-4) dec by (simp add: debitWallet_def debitTx_def ensureWalletForUser_def)
  show ?thesis
  proof (cases "n = 1 \<and> w_status w = WS_ACTIVE")
    case True
    then have n: "n = 1" by simp
    have db2: "db2 = updateBalance (w_id w) (- in_amountRial i) db" and le: "in_amountRial i \<le> w_availableBalance w"
      using decrementIf_one [OF assms(1) dec n] fw by auto
    have "findWallet (w_id w) db2 = Some (addBalance (- in_amountRial i) w)"
      using fw by (simp add: db2 findWallet_updateBalance)
    moreover have "findEntry (in_newEntryId i) db2 = None" "findByIdempotency (in_idempotencyKey i) db2 = None"
      using assms(4,5) by (simp_all add: db2 findEntry_def findByIdempotency_def)
    ultimately show ?thesis using run True le
      by (simp add: insertEntry_def newEntry_def db2 updateBalance_def)
  next
    case False
    then show ?thesis using run decrementIf_not_one [OF assms(1) dec _ fw] by auto
  qed
qed

theorem debit_outcome_witness:
  "\<exists>w. getWalletForUser ''u1'' sample_wallet_db = Some w \<and>
    debitWallet (sample_debit\<lparr>in_amountRial := 1001, in_idempotencyKey := ''k9'', in_newEntryId := ''e9''\<rparr>) sample_wallet_db
      = Inl ''insufficient_funds''"
proof -
  let ?i = "sample_debit\<lparr>in_amountRial := 1001, in_idempotencyKey := ''k9'', in_newEntryId := ''e9''\<rparr>"
  have w: "getWalletForUser (in_userId ?i) sample_wallet_db =
      Some \<lparr>w_id = ''w1'', w_userId = ''u1'', w_availableBalance = 1000, w_status = WS_ACTIVE\<rparr>" by code_simp
  have "findByIdempotency (in_idempotencyKey ?i) sample_wallet_db = None" by code_simp
  moreover have "findEntry (in_newEntryId ?i) sample_wallet_db = None" by code_simp
  ultimately show ?thesis
    using debit_outcome [OF _ w] walletReach_inv [OF sample_wallet_reach] w by (simp add: sample_debit_def)
qed

end
