(* ===== verification/Settlement.thy ===== *)
theory Settlement
  imports Wallet
begin

text \<open>
  The MessageGo settlement authority: \<open>src/lib/messagego/settlement/authority.ts\<close> with the customer
  prices of \<open>customer-pricing.ts\<close>. A reservation holds money of a wallet for an AI run; it is then
  settled, released, or left uncertain and reconciled. Every request carries an operation id; its outcome,
  also a financial denial, is recorded and replayed. A thrown error rolls the transaction back; a recorded
  denial commits. The digest is the parameter \<open>H\<close>; generated ids are arguments; event payloads and
  messages are not modelled. Unique columns and the foreign keys of the operation table are enforced.
\<close>

section \<open>Customer prices\<close>

record CustomerPriceRecord =
  pr_stableModelAlias :: string
  pr_revision :: int
  pr_pricingVersion :: string
  pr_pricingFingerprint :: string
  pr_inputRialPerMillion :: int
  pr_outputRialPerMillion :: int
  pr_maxInputTokens :: int
  pr_maxOutputTokens :: int

definition customerPriceFingerprint :: "(string \<Rightarrow> string) \<Rightarrow> string \<Rightarrow> string \<Rightarrow> int \<Rightarrow> int \<Rightarrow> string" where
  "customerPriceFingerprint H alias version inputRate outputRate =
     H (''abrchin.customer_price|'' @ alias @ ''|'' @ version @ ''|'' @ jsNumberText inputRate
        @ ''|'' @ jsNumberText outputRate)"

definition parseTokenCount :: "jsval \<Rightarrow> SettlementErrorCode + int" where
  "parseTokenCount v =
     (case v of
        JInt n \<Rightarrow> if n < 1 \<or> n > MAX_SAFE_INTEGER then Inl invalid_request else Inr n
      | JStr s \<Rightarrow> if isCanonical (trim s) \<and> trim s \<noteq> ''0'' then Inr (int (digitsVal (trim s)))
                  else Inl invalid_request
      | _ \<Rightarrow> Inl invalid_request)"

definition parseUsageToken :: "jsval \<Rightarrow> SettlementErrorCode + int" where
  "parseUsageToken v =
     (case v of
        JInt n \<Rightarrow> if n < 0 \<or> n > MAX_SAFE_INTEGER then Inl usage_unknown else Inr n
      | JStr s \<Rightarrow> if isCanonical (trim s) then Inr (int (digitsVal (trim s))) else Inl usage_unknown
      | _ \<Rightarrow> Inl usage_unknown)"

definition parseProviderUsage :: "jsval \<Rightarrow> SettlementErrorCode + int \<times> int" where
  "parseProviderUsage v =
     (case v of
        JObj es \<Rightarrow>
          bindE (parseUsageToken (jsGet ''input_text_tokens'' es)) (\<lambda>i.
          bindE (parseUsageToken (jsGet ''output_text_tokens'' es)) (\<lambda>out. Inr (i, out)))
      | _ \<Rightarrow> Inl usage_unknown)"

definition deriveHoldRial :: "CustomerPriceRecord \<Rightarrow> int \<Rightarrow> int \<Rightarrow> SettlementErrorCode + int" where
  "deriveHoldRial price maxInput maxOutput =
     (if maxInput > pr_maxInputTokens price \<or> maxOutput > pr_maxOutputTokens price then Inl invalid_request
      else bindE (costRial maxInput (pr_inputRialPerMillion price)) (\<lambda>a.
           bindE (costRial maxOutput (pr_outputRialPerMillion price)) (\<lambda>b. Inr (a + b))))"

definition deriveBillableRial ::
  "int \<times> int \<Rightarrow> int \<times> int \<Rightarrow> int \<Rightarrow> int \<Rightarrow> SettlementErrorCode + int" where
  "deriveBillableRial rates usage maxInput maxOutput =
     (if fst usage > maxInput \<or> snd usage > maxOutput then Inl usage_unknown
      else bindE (costRial (fst usage) (fst rates)) (\<lambda>a.
           bindE (costRial (snd usage) (snd rates)) (\<lambda>b. Inr (a + b))))"

section \<open>Tables\<close>

datatype UserAccountStatus = USER_ACTIVE | USER_BLOCKED
datatype MessageGoReservationStatus = RESERVED | SETTLED | RELEASED | UNCERTAIN | RECONCILED
datatype MessageGoSettlementOpKind = OP_RESERVE | OP_SETTLE | OP_RELEASE | OP_RECONCILE
datatype AuthorityOutcomeStatus = st_reserved | st_settled | st_released | st_uncertain | st_reconciled

fun reservationStatusToOutcome :: "MessageGoReservationStatus \<Rightarrow> AuthorityOutcomeStatus" where
  "reservationStatusToOutcome RESERVED = st_reserved"
| "reservationStatusToOutcome SETTLED = st_settled"
| "reservationStatusToOutcome RELEASED = st_released"
| "reservationStatusToOutcome UNCERTAIN = st_uncertain"
| "reservationStatusToOutcome RECONCILED = st_reconciled"

text \<open>The scope a request names: account, product, workspace, run and usage reservation.\<close>

record Scope =
  sc_accountId :: string
  sc_productId :: string
  sc_workspaceId :: string
  sc_runId :: string
  sc_usageReservationId :: string

record Reservation =
  rs_id :: string
  rs_scope :: Scope
  rs_walletId :: string
  rs_callerServiceId :: string
  rs_holdAmountRial :: int
  rs_remainingHoldRial :: int
  rs_settledAmountRial :: int
  rs_status :: MessageGoReservationStatus
  rs_pricingFingerprint :: string
  rs_pricingVersion :: string
  rs_modelAlias :: string
  rs_estimatedMaxInputTokens :: "int option"
  rs_requestedMaxOutputTokens :: "int option"
  rs_customerInputRialPerMillion :: "int option"
  rs_customerOutputRialPerMillion :: "int option"
  rs_providerPricingFingerprint :: string
  rs_providerPricingVersion :: string
  rs_reserveOperationId :: string

record AuthorityOutcome =
  oc_authority_reservation_id :: string
  oc_status :: AuthorityOutcomeStatus
  oc_hold_amount :: string
  oc_remaining_hold_amount :: string
  oc_settled_amount :: string
  oc_scope :: Scope
  oc_pricing_fingerprint :: string
  oc_pricing_version :: string
  oc_ledger_entry_ids :: "string list"

datatype OperationResult = OpOutcome AuthorityOutcome | OpDenied SettlementErrorCode

record RecordedOp =
  op_operationId :: string
  op_kind :: MessageGoSettlementOpKind
  op_bodyFingerprint :: string
  op_reservationId :: "string option"
  op_accountId :: string
  op_result :: OperationResult

record ReservationEvent =
  ev_reservationId :: string
  ev_kind :: string
  ev_operationId :: string

record SettlementDb = WalletDb +
  users :: "(string \<times> UserAccountStatus) list"
  reservations :: "Reservation list"
  operations :: "RecordedOp list"
  events :: "ReservationEvent list"
  prices :: "CustomerPriceRecord list"

datatype AuthorityError = Denied SettlementErrorCode | DbFailure string

definition denyE :: "SettlementErrorCode + 'a \<Rightarrow> AuthorityError + 'a" where
  "denyE m = (case m of Inl c \<Rightarrow> Inl (Denied c) | Inr x \<Rightarrow> Inr x)"

definition dbE :: "string + 'a \<Rightarrow> AuthorityError + 'a" where
  "dbE m = (case m of Inl c \<Rightarrow> Inl (DbFailure c) | Inr x \<Rightarrow> Inr x)"

definition findReservation :: "string \<Rightarrow> SettlementDb \<Rightarrow> Reservation option" where
  "findReservation rid db = findRow (\<lambda>r. rs_id r = rid) (reservations db)"

definition findOperation :: "string \<Rightarrow> SettlementDb \<Rightarrow> RecordedOp option" where
  "findOperation oid db = findRow (\<lambda>o'. op_operationId o' = oid) (operations db)"

definition updateReservation ::
  "string \<Rightarrow> (Reservation \<Rightarrow> Reservation) \<Rightarrow> SettlementDb \<Rightarrow> SettlementDb" where
  "updateReservation rid f db = db\<lparr>reservations := updateRows (\<lambda>r. rs_id r = rid) f (reservations db)\<rparr>"

text \<open>The latest price is the row of the alias with the greatest revision.\<close>

definition latestPriceRow :: "CustomerPriceRecord list \<Rightarrow> string \<Rightarrow> CustomerPriceRecord option" where
  "latestPriceRow rows alias =
     fold (\<lambda>r best. if pr_stableModelAlias r = alias \<and>
             (case best of None \<Rightarrow> True | Some b \<Rightarrow> pr_revision b < pr_revision r) then Some r else best)
       rows None"

definition latestCustomerPrice :: "SettlementDb \<Rightarrow> string \<Rightarrow> SettlementErrorCode + CustomerPriceRecord" where
  "latestCustomerPrice db modelAlias =
     (let alias = trim modelAlias in
      if alias = [] then Inl unknown_pricing
      else case latestPriceRow (prices db) alias of
        None \<Rightarrow> Inl unknown_pricing
      | Some row \<Rightarrow> if pr_inputRialPerMillion row < 1 \<or> pr_outputRialPerMillion row < 1
                     then Inl unknown_pricing else Inr row)"

section \<open>Requests\<close>

definition requiredText :: "string option \<Rightarrow> nat \<Rightarrow> SettlementErrorCode + string" where
  "requiredText value mx =
     (let trimmed = (case value of None \<Rightarrow> [] | Some s \<Rightarrow> trim s) in
      if trimmed = [] \<or> length trimmed > mx
         \<or> list_ex (\<lambda>c. (of_char c :: nat) \<in> {13, 10, 0}) trimmed
      then Inl invalid_request else Inr trimmed)"

definition requiredId :: "string option \<Rightarrow> SettlementErrorCode + string" where
  "requiredId value = requiredText value 200"

text \<open>The ids every request starts with, in the order they are checked.\<close>

record RequestIds =
  ri_operationId :: "string option"
  ri_accountId :: "string option"
  ri_productId :: "string option"
  ri_workspaceId :: "string option"
  ri_runId :: "string option"
  ri_usageReservationId :: "string option"

definition parseRequestIds :: "RequestIds \<Rightarrow> SettlementErrorCode + string \<times> Scope" where
  "parseRequestIds i =
     bindE (requiredId (ri_operationId i)) (\<lambda>operationId.
     bindE (requiredId (ri_accountId i)) (\<lambda>accountId.
     bindE (requiredId (ri_productId i)) (\<lambda>productId.
     bindE (requiredId (ri_workspaceId i)) (\<lambda>workspaceId.
     bindE (requiredId (ri_runId i)) (\<lambda>runId.
     bindE (requiredId (ri_usageReservationId i)) (\<lambda>usageReservationId.
     Inr (operationId, \<lparr>sc_accountId = accountId, sc_productId = productId, sc_workspaceId = workspaceId,
                        sc_runId = runId, sc_usageReservationId = usageReservationId\<rparr>)))))))"

definition scopeFields :: "Scope \<Rightarrow> (string \<times> string) list" where
  "scopeFields s =
     [(''account_id'', sc_accountId s), (''product_id'', sc_productId s), (''workspace_id'', sc_workspaceId s),
      (''run_id'', sc_runId s), (''usage_reservation_id'', sc_usageReservationId s)]"

definition settlementFingerprint :: "(string \<Rightarrow> string) \<Rightarrow> (string \<times> string) list \<Rightarrow> string" where
  "settlementFingerprint H body =
     (case idempotencyFingerprint H (JObj (map (\<lambda>(k, v). (k, JStr v)) body)) of Inr t \<Rightarrow> t | Inl _ \<Rightarrow> [])"

record ReserveInput = RequestIds +
  rq_callerServiceId :: "string option"
  rq_holdAmount :: jsval
  rq_modelAlias :: "string option"
  rq_estimatedMaxInputTokens :: jsval
  rq_requestedMaxOutputTokens :: jsval
  rq_providerPricingFingerprint :: "string option"
  rq_providerPricingVersion :: "string option"
  rq_providerCostCeiling :: jsval
  rq_pricingFingerprint :: "string option"
  rq_pricingVersion :: "string option"

record ReserveCommand =
  rc_operationId :: string
  rc_scope :: Scope
  rc_callerServiceId :: string
  rc_modelAlias :: string
  rc_maxInput :: int
  rc_maxOutput :: int
  rc_providerFingerprint :: string
  rc_providerVersion :: string
  rc_suppliedHold :: "int option"
  rc_fingerprint :: string
  rc_pricingFingerprint :: string
  rc_pricingVersion :: string

definition suppliedText :: "string option \<Rightarrow> string" where
  "suppliedText v = (case v of None \<Rightarrow> [] | Some s \<Rightarrow> trim s)"

definition parseReserve :: "(string \<Rightarrow> string) \<Rightarrow> ReserveInput \<Rightarrow> SettlementErrorCode + ReserveCommand" where
  "parseReserve H i =
     bindE (parseRequestIds (RequestIds.truncate i)) (\<lambda>(operationId, scope).
     bindE (requiredId (rq_callerServiceId i)) (\<lambda>caller.
     bindE (requiredText (rq_modelAlias i) 64) (\<lambda>modelAlias.
     bindE (parseTokenCount (rq_estimatedMaxInputTokens i)) (\<lambda>maxInput.
     bindE (parseTokenCount (rq_requestedMaxOutputTokens i)) (\<lambda>maxOutput.
     bindE (requiredText (rq_providerPricingFingerprint i) 128) (\<lambda>pf.
     bindE (requiredText (rq_providerPricingVersion i) 128) (\<lambda>pv.
     bindE (parseOptionalWalletAmount (rq_holdAmount i)) (\<lambda>supplied.
     bindE (parseOptionalWalletAmount (rq_providerCostCeiling i)) (\<lambda>_.
     Inr \<lparr>rc_operationId = operationId, rc_scope = scope, rc_callerServiceId = caller,
          rc_modelAlias = modelAlias, rc_maxInput = maxInput, rc_maxOutput = maxOutput,
          rc_providerFingerprint = pf, rc_providerVersion = pv, rc_suppliedHold = supplied,
          rc_fingerprint = settlementFingerprint H (scopeFields scope @
            [(''caller_service_id'', caller), (''model_alias'', modelAlias),
             (''estimated_max_input_tokens'', jsNumberText maxInput),
             (''requested_max_output_tokens'', jsNumberText maxOutput),
             (''provider_pricing_fingerprint'', pf), (''provider_pricing_version'', pv)]),
          rc_pricingFingerprint = suppliedText (rq_pricingFingerprint i),
          rc_pricingVersion = suppliedText (rq_pricingVersion i)\<rparr>)))))))))"

section \<open>The transaction's building blocks\<close>

definition outcomeFromReservation :: "Reservation \<Rightarrow> string list \<Rightarrow> SettlementErrorCode + AuthorityOutcome" where
  "outcomeFromReservation r ledgerEntryIds =
     bindE (walletAmountString (rs_holdAmountRial r)) (\<lambda>hold.
     bindE (walletAmountString (rs_remainingHoldRial r)) (\<lambda>remaining.
     bindE (walletAmountString (rs_settledAmountRial r)) (\<lambda>settled.
     Inr \<lparr>oc_authority_reservation_id = rs_id r, oc_status = reservationStatusToOutcome (rs_status r),
          oc_hold_amount = hold, oc_remaining_hold_amount = remaining, oc_settled_amount = settled,
          oc_scope = rs_scope r, oc_pricing_fingerprint = rs_pricingFingerprint r,
          oc_pricing_version = rs_pricingVersion r, oc_ledger_entry_ids = ledgerEntryIds\<rparr>)))"

text \<open>The replay of a recorded operation: a conflicting body and a recorded denial throw.\<close>

definition replayOp :: "RecordedOp \<Rightarrow> MessageGoSettlementOpKind \<Rightarrow> string \<Rightarrow> AuthorityError + AuthorityOutcome" where
  "replayOp existing kind fingerprint =
     (if op_kind existing \<noteq> kind \<or> op_bodyFingerprint existing \<noteq> fingerprint
      then Inl (Denied idempotency_conflict)
      else case op_result existing of OpDenied code \<Rightarrow> Inl (Denied code) | OpOutcome oc \<Rightarrow> Inr oc)"

text \<open>Insertion of the operation row: unique operation id, and foreign keys to user and reservation.\<close>

definition recordOperation :: "RecordedOp \<Rightarrow> SettlementDb \<Rightarrow> AuthorityError + SettlementDb" where
  "recordOperation row db =
     (if findOperation (op_operationId row) db \<noteq> None then Inl (DbFailure P2002)
      else if map_of (users db) (op_accountId row) = None
              \<or> (case op_reservationId row of None \<Rightarrow> False | Some rid \<Rightarrow> findReservation rid db = None)
      then Inl (DbFailure ''P2003'')
      else Inr (db\<lparr>operations := operations db @ [row]\<rparr>))"

definition recordEvent :: "string \<Rightarrow> string \<Rightarrow> string \<Rightarrow> SettlementDb \<Rightarrow> SettlementDb" where
  "recordEvent rid kind operationId db =
     db\<lparr>events := events db @ [\<lparr>ev_reservationId = rid, ev_kind = kind, ev_operationId = operationId\<rparr>]\<rparr>"

definition assertScope :: "Reservation \<Rightarrow> Scope \<Rightarrow> string \<Rightarrow> SettlementErrorCode + unit" where
  "assertScope r scope authorityReservationId =
     (if rs_id r \<noteq> authorityReservationId then Inl not_found
      else if rs_scope r \<noteq> scope then Inl scope_mismatch else Inr ())"

definition holdEntry ::
  "string \<Rightarrow> string \<Rightarrow> LedgerDirection \<Rightarrow> LedgerType \<Rightarrow> int \<Rightarrow> string \<Rightarrow> string \<Rightarrow> int \<Rightarrow> LedgerEntry" where
  "holdEntry entryId walletId dir ty amount key referenceId balanceAfter =
     \<lparr>le_id = entryId, le_walletId = walletId, le_direction = dir, le_type = ty, le_amount = amount,
      le_status = LS_COMPLETED, le_referenceType = Some ''messagego_reservation'',
      le_referenceId = Some referenceId, le_idempotencyKey = key, le_balanceAfter = balanceAfter,
      le_reversedEntryId = None\<rparr>"

definition debitHold ::
  "string \<Rightarrow> string \<Rightarrow> int \<Rightarrow> LedgerType \<Rightarrow> string \<Rightarrow> string \<Rightarrow> SettlementDb
    \<Rightarrow> AuthorityError + LedgerEntry option \<times> SettlementDb" where
  "debitHold entryId walletId amount ty key referenceId db =
     (if amount = 0 then Inr (None, db)
      else let (n, db) = decrementIf walletId amount True db in
           if n \<noteq> 1 then Inl (Denied insufficient_funds)
           else case findWallet walletId db of
             None \<Rightarrow> Inl (DbFailure P2025)
           | Some fresh \<Rightarrow>
               bindE (dbE (insertEntry (holdEntry entryId walletId DEBIT ty amount key referenceId
                        (w_availableBalance fresh)) db)) (\<lambda>(e, db). Inr (Some e, db)))"

definition creditRelease ::
  "string \<Rightarrow> string \<Rightarrow> int \<Rightarrow> string \<Rightarrow> string \<Rightarrow> SettlementDb
    \<Rightarrow> AuthorityError + LedgerEntry option \<times> SettlementDb" where
  "creditRelease entryId walletId amount key referenceId db =
     (if amount = 0 then Inr (None, db)
      else let db = updateBalance walletId amount db in
           case findWallet walletId db of
             None \<Rightarrow> Inl (DbFailure P2025)
           | Some updated \<Rightarrow>
               bindE (dbE (insertEntry (holdEntry entryId walletId CREDIT MESSAGEGO_HOLD_RELEASE amount key
                        referenceId (w_availableBalance updated)) db)) (\<lambda>(e, db). Inr (Some e, db)))"

definition entryIds :: "LedgerEntry option \<Rightarrow> string list" where
  "entryIds e = (case e of None \<Rightarrow> [] | Some x \<Rightarrow> [le_id x])"

text \<open>Charging a reservation: the excess is debited, or what is left of the hold is released.\<close>

definition applyBillable ::
  "string \<Rightarrow> Reservation \<Rightarrow> int \<Rightarrow> string \<Rightarrow> SettlementDb
    \<Rightarrow> AuthorityError + (Reservation \<times> string list) \<times> SettlementDb" where
  "applyBillable entryId r billable operationId db =
     bindE (if billable > rs_remainingHoldRial r
            then debitHold entryId (rs_walletId r) (billable - rs_remainingHoldRial r) MESSAGEGO_SETTLEMENT
                   (''messagego:settle:'' @ operationId @ '':debit'') (rs_id r) db
            else creditRelease entryId (rs_walletId r) (rs_remainingHoldRial r - billable)
                   (''messagego:settle:'' @ operationId @ '':release'') (rs_id r) db) (\<lambda>(e, db).
     let charge = (\<lambda>x. x\<lparr>rs_remainingHoldRial := 0, rs_settledAmountRial := rs_settledAmountRial r + billable,
                        rs_status := SETTLED\<rparr>)
     in Inr ((charge r, entryIds e), updateReservation (rs_id r) charge db))"

definition reservationPriceSnapshot ::
  "Reservation \<Rightarrow> SettlementErrorCode + (int \<times> int) \<times> int \<times> int" where
  "reservationPriceSnapshot r =
     (case (rs_estimatedMaxInputTokens r, rs_requestedMaxOutputTokens r,
            rs_customerInputRialPerMillion r, rs_customerOutputRialPerMillion r) of
        (Some maxInput, Some maxOutput, Some inputRate, Some outputRate) \<Rightarrow>
          Inr ((inputRate, outputRate), maxInput, maxOutput)
      | _ \<Rightarrow> Inl unknown_pricing)"

definition assertPricing :: "string \<Rightarrow> string \<Rightarrow> string \<Rightarrow> string \<Rightarrow> SettlementErrorCode + unit" where
  "assertPricing suppliedFingerprint suppliedVersion fingerprint version =
     (if suppliedFingerprint \<noteq> [] \<and> suppliedFingerprint \<noteq> fingerprint then Inl stale_pricing
      else if suppliedVersion \<noteq> [] \<and> suppliedVersion \<noteq> version then Inl stale_pricing
      else Inr ())"

datatype Committed = CReplay AuthorityOutcome | CError SettlementErrorCode | COk AuthorityOutcome

text \<open>A denial that is recorded and committed.\<close>

definition recordDenial ::
  "string \<Rightarrow> MessageGoSettlementOpKind \<Rightarrow> string \<Rightarrow> string option \<Rightarrow> string \<Rightarrow> SettlementErrorCode
    \<Rightarrow> SettlementDb \<Rightarrow> AuthorityError + Committed \<times> SettlementDb" where
  "recordDenial operationId kind fingerprint reservationId accountId code db =
     bindE (recordOperation \<lparr>op_operationId = operationId, op_kind = kind, op_bodyFingerprint = fingerprint,
              op_reservationId = reservationId, op_accountId = accountId, op_result = OpDenied code\<rparr> db)
       (\<lambda>db. Inr (CError code, db))"

definition recordOutcome ::
  "string \<Rightarrow> MessageGoSettlementOpKind \<Rightarrow> string \<Rightarrow> string \<Rightarrow> string \<Rightarrow> AuthorityOutcome
    \<Rightarrow> SettlementDb \<Rightarrow> AuthorityError + Committed \<times> SettlementDb" where
  "recordOutcome operationId kind fingerprint reservationId accountId oc db =
     bindE (recordOperation \<lparr>op_operationId = operationId, op_kind = kind, op_bodyFingerprint = fingerprint,
              op_reservationId = Some reservationId, op_accountId = accountId, op_result = OpOutcome oc\<rparr> db)
       (\<lambda>db. Inr (COk oc, db))"

text \<open>What leaves the transaction: a thrown error leaves the database as it was, a committed denial is
  thrown after the commit.\<close>

definition conclude ::
  "SettlementDb \<Rightarrow> AuthorityError + Committed \<times> SettlementDb \<Rightarrow> (AuthorityError + AuthorityOutcome) \<times> SettlementDb" where
  "conclude db res =
     (case res of
        Inl e \<Rightarrow> (Inl e, db)
      | Inr (CReplay oc, db') \<Rightarrow> (Inr oc, db')
      | Inr (COk oc, db') \<Rightarrow> (Inr oc, db')
      | Inr (CError code, db') \<Rightarrow> (Inl (Denied code), db'))"

section \<open>Reserve\<close>

record FreshIds =
  fr_walletId :: string
  fr_reservationId :: string
  fr_entryId :: string

definition newReservation ::
  "FreshIds \<Rightarrow> ReserveCommand \<Rightarrow> string \<Rightarrow> CustomerPriceRecord \<Rightarrow> int \<Rightarrow> Reservation" where
  "newReservation ids c walletId price hold =
     \<lparr>rs_id = fr_reservationId ids, rs_scope = rc_scope c, rs_walletId = walletId,
      rs_callerServiceId = rc_callerServiceId c, rs_holdAmountRial = hold, rs_remainingHoldRial = hold,
      rs_settledAmountRial = 0, rs_status = RESERVED, rs_pricingFingerprint = pr_pricingFingerprint price,
      rs_pricingVersion = pr_pricingVersion price, rs_modelAlias = rc_modelAlias c,
      rs_estimatedMaxInputTokens = Some (rc_maxInput c), rs_requestedMaxOutputTokens = Some (rc_maxOutput c),
      rs_customerInputRialPerMillion = Some (pr_inputRialPerMillion price),
      rs_customerOutputRialPerMillion = Some (pr_outputRialPerMillion price),
      rs_providerPricingFingerprint = rc_providerFingerprint c, rs_providerPricingVersion = rc_providerVersion c,
      rs_reserveOperationId = rc_operationId c\<rparr>"

definition createReservation :: "Reservation \<Rightarrow> SettlementDb \<Rightarrow> AuthorityError + SettlementDb" where
  "createReservation r db =
     (if list_ex (\<lambda>x. rs_id x = rs_id r \<or> rs_reserveOperationId x = rs_reserveOperationId r
           \<or> sc_usageReservationId (rs_scope x) = sc_usageReservationId (rs_scope r)) (reservations db)
      then Inl (DbFailure P2002) else Inr (db\<lparr>reservations := reservations db @ [r]\<rparr>))"

definition usageBound :: "string \<Rightarrow> SettlementDb \<Rightarrow> Reservation option" where
  "usageBound usageId db = findRow (\<lambda>r. sc_usageReservationId (rs_scope r) = usageId) (reservations db)"

text \<open>The part after all denials: create the reservation, hold the money, record event and outcome.\<close>

definition placeHold ::
  "FreshIds \<Rightarrow> ReserveCommand \<Rightarrow> string \<Rightarrow> CustomerPriceRecord \<Rightarrow> int \<Rightarrow> SettlementDb
    \<Rightarrow> AuthorityError + Committed \<times> SettlementDb" where
  "placeHold ids c walletId price hold db =
     (let r = newReservation ids c walletId price hold in
      bindE (createReservation r db) (\<lambda>db.
      bindE (debitHold (fr_entryId ids) walletId hold MESSAGEGO_RESERVE_HOLD
               (''messagego:reserve:'' @ rc_operationId c) (rs_id r) db) (\<lambda>(e, db).
      bindE (denyE (outcomeFromReservation r (entryIds e))) (\<lambda>oc.
      let db = recordEvent (rs_id r) ''reserved'' (rc_operationId c) db in
      recordOutcome (rc_operationId c) OP_RESERVE (rc_fingerprint c) (rs_id r)
        (sc_accountId (rc_scope c)) oc db))))"

definition reserveTx ::
  "FreshIds \<Rightarrow> ReserveCommand \<Rightarrow> SettlementDb \<Rightarrow> AuthorityError + Committed \<times> SettlementDb" where
  "reserveTx ids c db =
     (let operationId = rc_operationId c; fp = rc_fingerprint c; accountId = sc_accountId (rc_scope c);
          deny = (\<lambda>rid code db. recordDenial operationId OP_RESERVE fp rid accountId code db)
      in case findOperation operationId db of
           Some existing \<Rightarrow> bindE (replayOp existing OP_RESERVE fp) (\<lambda>oc. Inr (CReplay oc, db))
         | None \<Rightarrow>
      (case map_of (users db) accountId of
           None \<Rightarrow> Inl (Denied not_found)
         | Some accountStatus \<Rightarrow>
         if accountStatus \<noteq> USER_ACTIVE then deny None account_inactive db
         else case usageBound (sc_usageReservationId (rc_scope c)) db of
           Some dup \<Rightarrow> deny (Some (rs_id dup)) idempotency_conflict db
         | None \<Rightarrow>
           bindE (dbE (ensureWalletForUser accountId (fr_walletId ids) db)) (\<lambda>(wallet, db).
           case findWallet (w_id wallet) db of
             None \<Rightarrow> Inl (DbFailure P2025)
           | Some locked \<Rightarrow>
             if w_status locked \<noteq> WS_ACTIVE then deny None wallet_frozen db
             else
               bindE (denyE (latestCustomerPrice db (rc_modelAlias c))) (\<lambda>price.
               bindE (denyE (assertPricing (rc_pricingFingerprint c) (rc_pricingVersion c)
                        (pr_pricingFingerprint price) (pr_pricingVersion price))) (\<lambda>_.
               bindE (denyE (deriveHoldRial price (rc_maxInput c) (rc_maxOutput c))) (\<lambda>hold.
               bindE (denyE (rejectUntrustedAmount (rc_suppliedHold c) hold)) (\<lambda>_.
               if w_availableBalance locked < hold then deny None insufficient_funds db
               else placeHold ids c (w_id wallet) price hold db)))))))"

definition reserveWalletAuthority ::
  "(string \<Rightarrow> string) \<Rightarrow> FreshIds \<Rightarrow> ReserveInput \<Rightarrow> SettlementDb
    \<Rightarrow> (AuthorityError + AuthorityOutcome) \<times> SettlementDb" where
  "reserveWalletAuthority H ids i db =
     conclude db (bindE (denyE (parseReserve H i)) (\<lambda>c. reserveTx ids c db))"

section \<open>Settle, release, reconcile\<close>

text \<open>Loading the reservation and checking the scope: not_found and scope_mismatch are recorded denials.\<close>

definition loadReservation ::
  "string \<Rightarrow> Scope \<Rightarrow> SettlementDb \<Rightarrow> SettlementErrorCode + Reservation" where
  "loadReservation authorityReservationId scope db =
     (case findReservation authorityReservationId db of
        None \<Rightarrow> Inl not_found
      | Some r \<Rightarrow> bindE (assertScope r scope authorityReservationId) (\<lambda>_. Inr r))"

record AuthorityCommand =
  ac_operationId :: string
  ac_scope :: Scope
  ac_authorityReservationId :: string
  ac_fingerprint :: string
  ac_pricingFingerprint :: string
  ac_pricingVersion :: string
  ac_suppliedBillable :: "int option"
  ac_usage :: "(int \<times> int) option" \<comment> \<open>\<open>None\<close>: the outcome is uncertain\<close>

text \<open>The frame common to the three: replay, load, then the body of the operation.\<close>

definition withReservation ::
  "MessageGoSettlementOpKind \<Rightarrow> AuthorityCommand
    \<Rightarrow> (Reservation \<Rightarrow> SettlementDb \<Rightarrow> AuthorityError + Committed \<times> SettlementDb)
    \<Rightarrow> SettlementDb \<Rightarrow> AuthorityError + Committed \<times> SettlementDb" where
  "withReservation kind c body db =
     (case findOperation (ac_operationId c) db of
        Some existing \<Rightarrow> bindE (replayOp existing kind (ac_fingerprint c)) (\<lambda>oc. Inr (CReplay oc, db))
      | None \<Rightarrow>
        (case loadReservation (ac_authorityReservationId c) (ac_scope c) db of
           Inl code \<Rightarrow>
             recordDenial (ac_operationId c) kind (ac_fingerprint c)
               (if code = not_found then None else Some (ac_authorityReservationId c))
               (sc_accountId (ac_scope c)) code db
         | Inr r \<Rightarrow> body r db))"

definition denyOn ::
  "MessageGoSettlementOpKind \<Rightarrow> AuthorityCommand \<Rightarrow> Reservation \<Rightarrow> SettlementErrorCode \<Rightarrow> SettlementDb
    \<Rightarrow> AuthorityError + Committed \<times> SettlementDb" where
  "denyOn kind c r code db =
     recordDenial (ac_operationId c) kind (ac_fingerprint c) (Some (rs_id r)) (sc_accountId (ac_scope c)) code db"

definition finishOn ::
  "MessageGoSettlementOpKind \<Rightarrow> AuthorityCommand \<Rightarrow> Reservation \<Rightarrow> string list \<Rightarrow> string option \<Rightarrow> SettlementDb
    \<Rightarrow> AuthorityError + Committed \<times> SettlementDb" where
  "finishOn kind c r ids event db =
     bindE (denyE (outcomeFromReservation r ids)) (\<lambda>oc.
     let db = (case event of None \<Rightarrow> db | Some k \<Rightarrow> recordEvent (rs_id r) k (ac_operationId c) db) in
     recordOutcome (ac_operationId c) kind (ac_fingerprint c) (rs_id r) (sc_accountId (ac_scope c)) oc db)"

definition setReservationStatus :: "MessageGoReservationStatus \<Rightarrow> Reservation \<Rightarrow> Reservation" where
  "setReservationStatus st r = r\<lparr>rs_status := st\<rparr>"

text \<open>The derived charge, checked against the amount a caller may have supplied.\<close>

definition trustedBillable :: "AuthorityCommand \<Rightarrow> int \<times> int \<Rightarrow> Reservation \<Rightarrow> SettlementErrorCode + int" where
  "trustedBillable c usage r =
     bindE (reservationPriceSnapshot r) (\<lambda>(rates, maxInput, maxOutput).
     bindE (deriveBillableRial rates usage maxInput maxOutput) (\<lambda>billable.
     bindE (rejectUntrustedAmount (ac_suppliedBillable c) billable) (\<lambda>_. Inr billable)))"

definition chargeReservation ::
  "string \<Rightarrow> MessageGoSettlementOpKind \<Rightarrow> AuthorityCommand \<Rightarrow> int \<Rightarrow> Reservation \<Rightarrow> SettlementDb
    \<Rightarrow> AuthorityError + Committed \<times> SettlementDb" where
  "chargeReservation entryId kind c billable r db =
     (case bindE (applyBillable entryId r billable (ac_operationId c) db) (\<lambda>((applied, ids), db).
             if kind = OP_RECONCILE
             then finishOn kind c (setReservationStatus RECONCILED applied) ids (Some ''reconciled'')
                    (updateReservation (rs_id r) (setReservationStatus RECONCILED) db)
             else finishOn kind c applied ids (Some ''settled'') db) of
        Inl (Denied insufficient_funds) \<Rightarrow> denyOn kind c r insufficient_funds db
      | res \<Rightarrow> res)"

definition settleBody ::
  "string \<Rightarrow> AuthorityCommand \<Rightarrow> Reservation \<Rightarrow> SettlementDb \<Rightarrow> AuthorityError + Committed \<times> SettlementDb" where
  "settleBody entryId c r db =
     bindE (denyE (assertPricing (ac_pricingFingerprint c) (ac_pricingVersion c)
              (rs_pricingFingerprint r) (rs_pricingVersion r))) (\<lambda>_.
     if rs_status r = RELEASED then denyOn OP_SETTLE c r state_conflict db
     else case ac_usage c of
       None \<Rightarrow>
         if rs_status r = SETTLED \<or> rs_status r = RECONCILED then denyOn OP_SETTLE c r state_conflict db
         else finishOn OP_SETTLE c (setReservationStatus UNCERTAIN r) [] (Some ''uncertain'')
                (updateReservation (rs_id r) (setReservationStatus UNCERTAIN) db)
     | Some usage \<Rightarrow>
         bindE (denyE (trustedBillable c usage r)) (\<lambda>billable.
         if rs_status r = SETTLED \<or> rs_status r = RECONCILED
         then (if rs_settledAmountRial r \<noteq> billable then denyOn OP_SETTLE c r state_conflict db
               else finishOn OP_SETTLE c r [] None db)
         else chargeReservation entryId OP_SETTLE c billable r db))"

definition releaseBody ::
  "string \<Rightarrow> AuthorityCommand \<Rightarrow> Reservation \<Rightarrow> SettlementDb \<Rightarrow> AuthorityError + Committed \<times> SettlementDb" where
  "releaseBody entryId c r db =
     (if rs_status r = SETTLED \<or> rs_status r = RECONCILED \<or> rs_status r = UNCERTAIN
      then denyOn OP_RELEASE c r state_conflict db
      else if rs_status r = RELEASED then finishOn OP_RELEASE c r [] None db
      else bindE (creditRelease entryId (rs_walletId r) (rs_remainingHoldRial r)
                    (''messagego:release:'' @ ac_operationId c) (rs_id r) db) (\<lambda>(e, db).
           let f = (\<lambda>x. x\<lparr>rs_remainingHoldRial := 0, rs_status := RELEASED\<rparr>)
           in finishOn OP_RELEASE c (f r) (entryIds e) (Some ''released'')
                (updateReservation (rs_id r) f db)))"

definition reconcileBody ::
  "string \<Rightarrow> AuthorityCommand \<Rightarrow> int \<times> int \<Rightarrow> Reservation \<Rightarrow> SettlementDb
    \<Rightarrow> AuthorityError + Committed \<times> SettlementDb" where
  "reconcileBody entryId c usage r db =
     bindE (denyE (assertPricing (ac_pricingFingerprint c) (ac_pricingVersion c)
              (rs_pricingFingerprint r) (rs_pricingVersion r))) (\<lambda>_.
     if rs_status r = RELEASED then denyOn OP_RECONCILE c r state_conflict db
     else bindE (denyE (trustedBillable c usage r)) (\<lambda>billable.
       if rs_status r = SETTLED \<or> rs_status r = RECONCILED
       then (if rs_settledAmountRial r \<noteq> billable then denyOn OP_RECONCILE c r state_conflict db
             else finishOn OP_RECONCILE c r [] None db)
       else chargeReservation entryId OP_RECONCILE c billable r db))"

section \<open>Requests on a reservation\<close>

record AuthorityInput = RequestIds +
  ai_authorityReservationId :: "string option"
  ai_callerServiceId :: "string option"

record SettleInput = AuthorityInput +
  si_customerBillableAmount :: jsval
  si_pricingFingerprint :: "string option"
  si_pricingVersion :: "string option"
  si_outcomeUncertain :: bool
  si_providerUsage :: jsval

record ReleaseInput = AuthorityInput +
  li_reason :: "string option"

definition parseAuthorityIds ::
  "AuthorityInput \<Rightarrow> SettlementErrorCode + string \<times> Scope \<times> string \<times> string" where
  "parseAuthorityIds i =
     bindE (parseRequestIds (RequestIds.truncate i)) (\<lambda>(operationId, scope).
     bindE (requiredId (ai_authorityReservationId i)) (\<lambda>rid.
     bindE (requiredId (ai_callerServiceId i)) (\<lambda>caller. Inr (operationId, scope, rid, caller))))"

definition usageText :: "(int \<times> int) option \<Rightarrow> (string \<times> string) list" where
  "usageText usage =
     [(''input_text_tokens'', case usage of None \<Rightarrow> [] | Some u \<Rightarrow> jsNumberText (fst u)),
      (''output_text_tokens'', case usage of None \<Rightarrow> [] | Some u \<Rightarrow> jsNumberText (snd u))]"

definition parseSettle :: "(string \<Rightarrow> string) \<Rightarrow> SettleInput \<Rightarrow> SettlementErrorCode + AuthorityCommand" where
  "parseSettle H i =
     bindE (parseAuthorityIds (AuthorityInput.truncate i)) (\<lambda>(operationId, scope, rid, caller).
     bindE (parseOptionalWalletAmount (si_customerBillableAmount i)) (\<lambda>supplied.
     bindE (if si_outcomeUncertain i then Inr None
            else bindE (parseProviderUsage (si_providerUsage i)) (\<lambda>u. Inr (Some u))) (\<lambda>usage.
     Inr \<lparr>ac_operationId = operationId, ac_scope = scope, ac_authorityReservationId = rid,
          ac_fingerprint = settlementFingerprint H (scopeFields scope @
            [(''authority_reservation_id'', rid), (''caller_service_id'', caller),
             (''outcome_class'', if si_outcomeUncertain i then ''uncertain'' else ''known'')] @ usageText usage),
          ac_pricingFingerprint = suppliedText (si_pricingFingerprint i),
          ac_pricingVersion = suppliedText (si_pricingVersion i),
          ac_suppliedBillable = supplied, ac_usage = usage\<rparr>)))"

definition parseRelease :: "(string \<Rightarrow> string) \<Rightarrow> ReleaseInput \<Rightarrow> SettlementErrorCode + AuthorityCommand" where
  "parseRelease H i =
     bindE (parseAuthorityIds (AuthorityInput.truncate i)) (\<lambda>(operationId, scope, rid, caller).
     bindE (requiredText (li_reason i) 500) (\<lambda>reason.
     Inr \<lparr>ac_operationId = operationId, ac_scope = scope, ac_authorityReservationId = rid,
          ac_fingerprint = settlementFingerprint H (scopeFields scope @
            [(''authority_reservation_id'', rid), (''caller_service_id'', caller), (''reason'', reason)]),
          ac_pricingFingerprint = [], ac_pricingVersion = [], ac_suppliedBillable = None, ac_usage = None\<rparr>))"

text \<open>A reconciliation request has the fields of a settlement except the outcome class.\<close>

definition parseReconcile ::
  "(string \<Rightarrow> string) \<Rightarrow> SettleInput \<Rightarrow> SettlementErrorCode + AuthorityCommand \<times> int \<times> int" where
  "parseReconcile H i =
     bindE (parseAuthorityIds (AuthorityInput.truncate i)) (\<lambda>(operationId, scope, rid, caller).
     bindE (parseOptionalWalletAmount (si_customerBillableAmount i)) (\<lambda>supplied.
     bindE (parseProviderUsage (si_providerUsage i)) (\<lambda>usage.
     Inr (\<lparr>ac_operationId = operationId, ac_scope = scope, ac_authorityReservationId = rid,
           ac_fingerprint = settlementFingerprint H (scopeFields scope @
             [(''authority_reservation_id'', rid), (''caller_service_id'', caller)] @ usageText (Some usage)),
           ac_pricingFingerprint = suppliedText (si_pricingFingerprint i),
           ac_pricingVersion = suppliedText (si_pricingVersion i),
           ac_suppliedBillable = supplied, ac_usage = Some usage\<rparr>, usage))))"

definition settleWalletAuthority ::
  "(string \<Rightarrow> string) \<Rightarrow> string \<Rightarrow> SettleInput \<Rightarrow> SettlementDb \<Rightarrow> (AuthorityError + AuthorityOutcome) \<times> SettlementDb" where
  "settleWalletAuthority H entryId i db =
     conclude db (bindE (denyE (parseSettle H i)) (\<lambda>c. withReservation OP_SETTLE c (settleBody entryId c) db))"

definition releaseWalletAuthority ::
  "(string \<Rightarrow> string) \<Rightarrow> string \<Rightarrow> ReleaseInput \<Rightarrow> SettlementDb \<Rightarrow> (AuthorityError + AuthorityOutcome) \<times> SettlementDb" where
  "releaseWalletAuthority H entryId i db =
     conclude db (bindE (denyE (parseRelease H i)) (\<lambda>c. withReservation OP_RELEASE c (releaseBody entryId c) db))"

definition reconcileWalletAuthority ::
  "(string \<Rightarrow> string) \<Rightarrow> string \<Rightarrow> SettleInput \<Rightarrow> SettlementDb \<Rightarrow> (AuthorityError + AuthorityOutcome) \<times> SettlementDb" where
  "reconcileWalletAuthority H entryId i db =
     conclude db (bindE (denyE (parseReconcile H i)) (\<lambda>(c, usage).
       withReservation OP_RECONCILE c (reconcileBody entryId c usage) db))"

section \<open>The invariant\<close>

definition refersTo :: "string \<Rightarrow> LedgerEntry \<Rightarrow> bool" where
  "refersTo rid e \<longleftrightarrow> le_referenceType e = Some ''messagego_reservation'' \<and> le_referenceId e = Some rid"

text \<open>What a reservation has taken from its wallet so far, negatively.\<close>

definition movedFor :: "string \<Rightarrow> LedgerEntry list \<Rightarrow> int" where
  "movedFor rid es = sum_list (map signed (filter (refersTo rid) es))"

text \<open>The amounts of a reservation fit its status, and its hold is the price of its token bounds.\<close>

definition reservationOk :: "Reservation \<Rightarrow> bool" where
  "reservationOk r \<longleftrightarrow>
     (\<exists>maxInput maxOutput inRate outRate a b.
        rs_estimatedMaxInputTokens r = Some maxInput \<and> rs_requestedMaxOutputTokens r = Some maxOutput \<and>
        rs_customerInputRialPerMillion r = Some inRate \<and> rs_customerOutputRialPerMillion r = Some outRate \<and>
        costRial maxInput inRate = Inr a \<and> costRial maxOutput outRate = Inr b \<and>
        rs_holdAmountRial r = a + b) \<and>
     (case rs_status r of
        RESERVED \<Rightarrow> rs_remainingHoldRial r = rs_holdAmountRial r \<and> rs_settledAmountRial r = 0
      | UNCERTAIN \<Rightarrow> rs_remainingHoldRial r = rs_holdAmountRial r \<and> rs_settledAmountRial r = 0
      | RELEASED \<Rightarrow> rs_remainingHoldRial r = 0 \<and> rs_settledAmountRial r = 0
      | _ \<Rightarrow> rs_remainingHoldRial r = 0 \<and> 0 \<le> rs_settledAmountRial r
             \<and> rs_settledAmountRial r \<le> rs_holdAmountRial r)"

definition settlementInv :: "SettlementDb \<Rightarrow> bool" where
  "settlementInv db \<longleftrightarrow>
     walletInv db \<and> distinct (map rs_id (reservations db)) \<and> distinct (map op_operationId (operations db)) \<and>
     (\<forall>r \<in> set (reservations db). reservationOk r \<and> rs_walletId r \<in> w_id ` set (wallets db) \<and>
        movedFor (rs_id r) (ledger db) = - (rs_remainingHoldRial r + rs_settledAmountRial r)) \<and>
     (\<forall>e \<in> set (ledger db). \<forall>rid. refersTo rid e \<longrightarrow>
        (\<exists>r \<in> set (reservations db). rs_id r = rid \<and> le_walletId e = rs_walletId r))"

lemma movedFor_append [simp]: "movedFor rid (xs @ ys) = movedFor rid xs + movedFor rid ys"
  by (simp add: movedFor_def)

lemma movedFor_single [simp]: "movedFor rid [e] = (if refersTo rid e then signed e else 0)"
  by (simp add: movedFor_def)

lemma movedFor_none: "(\<And>e. e \<in> set es \<Longrightarrow> \<not> refersTo rid e) \<Longrightarrow> movedFor rid es = 0"
  by (simp add: movedFor_def)

lemma dbE_eq_Inr [simp]: "dbE m = Inr x \<longleftrightarrow> m = Inr x"
  by (cases m) (simp_all add: dbE_def)

lemma denyE_eq_Inr [simp]: "denyE m = Inr x \<longleftrightarrow> m = Inr x"
  by (cases m) (simp_all add: denyE_def)

lemma findReservation_Some:
  "findReservation rid db = Some r \<Longrightarrow> rs_id r = rid \<and> r \<in> set (reservations db)"
  unfolding findReservation_def by (drule findRow_Some) simp

lemma findReservation_mem:
  "distinct (map rs_id (reservations db)) \<Longrightarrow> r \<in> set (reservations db) \<Longrightarrow> findReservation (rs_id r) db = Some r"
  using findRow_unique [of rs_id "reservations db" r] by (simp add: findReservation_def)

text \<open>Operation rows and events carry no money.\<close>

lemma settlementInv_events [simp]: "settlementInv (recordEvent rid k oid db) = settlementInv db"
  by (simp add: settlementInv_def recordEvent_def walletInv_def)

lemma recordEvent_simps [simp]:
  "wallets (recordEvent rid k oid db) = wallets db" "ledger (recordEvent rid k oid db) = ledger db"
  "reservations (recordEvent rid k oid db) = reservations db"
  "operations (recordEvent rid k oid db) = operations db" "users (recordEvent rid k oid db) = users db"
  by (simp_all add: recordEvent_def)

lemma recordOperation_Inr:
  assumes "recordOperation row db = Inr db'"
  shows "wallets db' = wallets db" and "ledger db' = ledger db" and "reservations db' = reservations db"
    and "operations db' = operations db @ [row]" and "findOperation (op_operationId row) db = None"
    and "settlementInv db \<Longrightarrow> settlementInv db'"
proof -
  have db': "db' = db\<lparr>operations := operations db @ [row]\<rparr>" and
    new: "findOperation (op_operationId row) db = None"
    using assms by (auto simp: recordOperation_def split: if_split_asm)
  then show "wallets db' = wallets db" "ledger db' = ledger db" "reservations db' = reservations db"
    "operations db' = operations db @ [row]" "findOperation (op_operationId row) db = None"
    by simp_all
  assume "settlementInv db"
  then show "settlementInv db'"
    using new by (auto simp: db' settlementInv_def walletInv_def findOperation_def findRow_None)
qed

text \<open>A hold or a release: nothing for amount zero, else one posting that refers to the reservation.\<close>

definition posted :: "string \<Rightarrow> int \<Rightarrow> string \<Rightarrow> LedgerEntry option \<Rightarrow> SettlementDb \<Rightarrow> SettlementDb \<Rightarrow> bool" where
  "posted wid d rid eo db db' \<longleftrightarrow>
     (d = 0 \<and> eo = None \<and> db' = db) \<or>
     (\<exists>e. eo = Some e \<and> db' = (updateBalance wid d db)\<lparr>ledger := ledger db @ [e]\<rparr> \<and> walletInv db' \<and>
        refersTo rid e \<and> le_walletId e = wid \<and> signed e = d)"

lemma refersTo_unique: "refersTo x e \<Longrightarrow> refersTo y e \<Longrightarrow> x = y"
  by (simp add: refersTo_def)

lemma updateBalance_settlement [simp]:
  "operations (updateBalance wid d db) = operations db" "reservations (updateBalance wid d db) = reservations db"
  "users (updateBalance wid d db) = users db" "prices (updateBalance wid d db) = prices db"
  "events (updateBalance wid d db) = events db"
  by (simp_all add: updateBalance_def)

lemma posted_facts:
  assumes "posted wid d rid eo db db'" and "walletInv db"
  shows "walletInv db'" and "w_id ` set (wallets db') = w_id ` set (wallets db)"
    and "operations db' = operations db" and "reservations db' = reservations db" and "users db' = users db"
proof -
  have "walletInv db' \<and> w_id ` set (wallets db') = w_id ` set (wallets db) \<and> operations db' = operations db
      \<and> reservations db' = reservations db \<and> users db' = users db"
    using assms(1) unfolding posted_def
  proof (elim disjE exE conjE, goal_cases)
    case 1
    then show ?case using assms(2) by simp
  next
    case (2 e)
    then show ?case by (simp add: updateBalance_ids)
  qed
  then show "walletInv db'" "w_id ` set (wallets db') = w_id ` set (wallets db)" "operations db' = operations db"
    "reservations db' = reservations db" "users db' = users db" by blast+
qed

lemma posted_moved:
  assumes "posted wid d rid eo db db'"
  shows "movedFor x (ledger db') = movedFor x (ledger db) + (if x = rid then d else 0)"
    and "e \<in> set (ledger db') \<Longrightarrow> refersTo y e \<Longrightarrow> e \<in> set (ledger db) \<or> (y = rid \<and> le_walletId e = wid)"
proof -
  consider "d = 0" "db' = db" | a where "ledger db' = ledger db @ [a]" "refersTo rid a"
      "le_walletId a = wid" "signed a = d"
    using assms unfolding posted_def by (elim disjE exE conjE) simp_all
  then have "movedFor x (ledger db') = movedFor x (ledger db) + (if x = rid then d else 0) \<and>
      (e \<in> set (ledger db') \<longrightarrow> refersTo y e \<longrightarrow> e \<in> set (ledger db) \<or> (y = rid \<and> le_walletId e = wid))"
  proof cases
    case (2 a)
    have "refersTo z a = (z = rid)" for z using 2(2) refersTo_unique by blast
    then show ?thesis using 2(1,3,4) by simp
  qed simp
  then show "movedFor x (ledger db') = movedFor x (ledger db) + (if x = rid then d else 0)"
    "e \<in> set (ledger db') \<Longrightarrow> refersTo y e \<Longrightarrow> e \<in> set (ledger db) \<or> (y = rid \<and> le_walletId e = wid)"
    by blast+
qed

lemma debitHold_posted:
  assumes "walletInv db" and "debitHold eid wid a ty key rid db = Inr (eo, db')" and "0 \<le> a"
  shows "posted wid (- a) rid eo db db'"
proof (cases "a = 0")
  case True
  then show ?thesis using assms(2) by (simp add: debitHold_def posted_def)
next
  case False
  obtain n db2 where dec: "decrementIf wid a True db = (n, db2)" by fastforce
  have one: "n = 1" using assms(2) False dec by (auto simp: debitHold_def Let_def split: if_split_asm)
  obtain w where w: "findWallet wid db = Some w" "a \<le> w_availableBalance w"
    and db2: "db2 = updateBalance wid (- a) db"
    by (rule decrementIf_one [OF assms(1) dec one])
  let ?e = "holdEntry eid wid DEBIT ty a key rid (w_availableBalance w - a)"
  have "findWallet wid db2 = Some (addBalance (- a) w)" using w(1) by (simp add: db2 findWallet_updateBalance)
  then have ins: "insertEntry ?e (updateBalance wid (- a) db) = Inr (?e, db')" and eo: "eo = Some ?e"
    using assms(2) False dec one by (auto simp: debitHold_def db2 bindE_eq_Inr insertEntry_Inr)
  have "walletInv db'"
    using w(2) assms(3) False by (intro post_preserves [OF assms(1) w(1) ins])
      (simp_all add: holdEntry_def signed_def)
  then show ?thesis using ins eo by (auto simp: posted_def insertEntry_Inr holdEntry_def refersTo_def signed_def)
qed

lemma creditRelease_posted:
  assumes "walletInv db" and "creditRelease eid wid a key rid db = Inr (eo, db')" and "0 \<le> a"
  shows "posted wid a rid eo db db'"
proof (cases "a = 0")
  case True
  then show ?thesis using assms(2) by (simp add: creditRelease_def posted_def)
next
  case False
  have fw: "findWallet wid (updateBalance wid a db) = map_option (addBalance a) (findWallet wid db)"
    by (rule findWallet_updateBalance)
  then obtain w where w: "findWallet wid db = Some w"
    using assms(2) False by (auto simp: creditRelease_def Let_def split: option.split_asm)
  let ?e = "holdEntry eid wid CREDIT MESSAGEGO_HOLD_RELEASE a key rid (w_availableBalance w + a)"
  have ins: "insertEntry ?e (updateBalance wid a db) = Inr (?e, db')" and eo: "eo = Some ?e"
    using assms(2) False fw w by (auto simp: creditRelease_def bindE_eq_Inr insertEntry_Inr)
  have "walletInv db'"
    using walletInv_balance [OF assms(1) w] assms(3) False
    by (intro post_preserves [OF assms(1) w ins]) (simp_all add: holdEntry_def signed_def)
  then show ?thesis using ins eo by (auto simp: posted_def insertEntry_Inr holdEntry_def refersTo_def signed_def)
qed

section \<open>The life cycle of a reservation\<close>

inductive resStep :: "Reservation \<Rightarrow> Reservation \<Rightarrow> bool" where
  uncertain: "rs_status r \<in> {RESERVED, UNCERTAIN} \<Longrightarrow> resStep r (setReservationStatus UNCERTAIN r)"
| release: "rs_status r = RESERVED \<Longrightarrow> resStep r (r\<lparr>rs_remainingHoldRial := 0, rs_status := RELEASED\<rparr>)"
| charge: "rs_status r \<in> {RESERVED, UNCERTAIN} \<Longrightarrow> st \<in> {SETTLED, RECONCILED} \<Longrightarrow>
    0 \<le> b \<Longrightarrow> b \<le> rs_holdAmountRial r \<Longrightarrow>
    resStep r (r\<lparr>rs_remainingHoldRial := 0, rs_settledAmountRial := b, rs_status := st\<rparr>)"

inductive_cases resStep_elim: "resStep r r'"

lemma resStep_facts:
  assumes "resStep r r'"
  shows "rs_id r' = rs_id r" and "rs_walletId r' = rs_walletId r" and "rs_scope r' = rs_scope r"
    and "rs_status r \<in> {RESERVED, UNCERTAIN}" and "reservationOk r \<Longrightarrow> reservationOk r'"
  using assms by (cases; simp add: reservationOk_def setReservationStatus_def; auto)+

definition updatedTo :: "Reservation \<Rightarrow> Reservation list \<Rightarrow> Reservation list" where
  "updatedTo r' rs = map (\<lambda>x. if rs_id x = rs_id r' then r' else x) rs"

definition reservationEffect :: "SettlementDb \<Rightarrow> SettlementDb \<Rightarrow> bool" where
  "reservationEffect db db' \<longleftrightarrow>
     reservations db' = reservations db \<or>
     (\<exists>r r'. r \<in> set (reservations db) \<and> resStep r r' \<and> reservations db' = updatedTo r' (reservations db)) \<or>
     (\<exists>r. rs_status r = RESERVED \<and> rs_id r \<notin> rs_id ` set (reservations db) \<and>
        reservations db' = reservations db @ [r])"

lemma reservation_unique:
  assumes "settlementInv db" and "x \<in> set (reservations db)" and "r \<in> set (reservations db)"
    and "rs_id x = rs_id r"
  shows "x = r"
  using assms unfolding settlementInv_def distinct_map by (meson inj_onD)

lemma updateReservation_updatedTo:
  assumes "settlementInv db" and "r \<in> set (reservations db)" and "rs_id (f r) = rs_id r"
  shows "updateRows (\<lambda>x. rs_id x = rs_id r) f (reservations db) = updatedTo (f r) (reservations db)"
  unfolding updateRows_def updatedTo_def assms(3)
proof (rule map_cong [OF HOL.refl])
  fix x assume x: "x \<in> set (reservations db)"
  show "(if rs_id x = rs_id r then f x else x) = (if rs_id x = rs_id r then f r else x)"
    using reservation_unique [OF assms(1) x assms(2)] by (cases "rs_id x = rs_id r") simp_all
qed

text \<open>The one lemma by which money moves for a reservation: the posting and the reservation agree.\<close>

lemma reservation_update_inv:
  assumes inv: "settlementInv db" and r: "r \<in> set (reservations db)" and step: "resStep r r'"
    and post: "posted (rs_walletId r) d (rs_id r) eo db db1"
    and sum: "rs_remainingHoldRial r' + rs_settledAmountRial r' + d = rs_remainingHoldRial r + rs_settledAmountRial r"
    and db2: "wallets db2 = wallets db1" "ledger db2 = ledger db1" "operations db2 = operations db1"
      "reservations db2 = updatedTo r' (reservations db)"
  shows "settlementInv db2" and "operations db2 = operations db" and "reservationEffect db db2"
proof -
  note i = inv [unfolded settlementInv_def]
  note f = resStep_facts [OF step]
  have ids: "map rs_id (updatedTo r' rs) = map rs_id rs" for rs
    by (simp add: updatedTo_def)
  note p = posted_facts [OF post conjunct1 [OF i]]
  have W: "w_id ` set (wallets db2) = w_id ` set (wallets db)" and wi1: "walletInv db1"
    and ops: "operations db2 = operations db"
    using p by (simp_all add: db2)
  have wi: "walletInv db2" using wi1 walletInv_cong [of db2 db1] db2(1,2) by simp
  have same: "movedFor x (ledger db2) = movedFor x (ledger db)" if "x \<noteq> rs_id r" for x
    using posted_moved(1) [OF post, of x] that by (simp add: db2)
  have own: "movedFor (rs_id r) (ledger db2) = movedFor (rs_id r) (ledger db) + d"
    using posted_moved(1) [OF post, of "rs_id r"] by (simp add: db2)
  have rows: "reservationOk x \<and> rs_walletId x \<in> w_id ` set (wallets db2) \<and>
      movedFor (rs_id x) (ledger db2) = - (rs_remainingHoldRial x + rs_settledAmountRial x)"
    if x: "x \<in> set (reservations db2)" for x
  proof (cases "rs_id x = rs_id r")
    case True
    then have "x = r'" using x f(1) by (auto simp: db2 updatedTo_def split: if_split_asm)
    moreover have "reservationOk r \<and> rs_walletId r \<in> w_id ` set (wallets db) \<and>
      movedFor (rs_id r) (ledger db) = - (rs_remainingHoldRial r + rs_settledAmountRial r)"
      using i r by blast
    ultimately show ?thesis using f W own sum by simp
  next
    case False
    then have "x \<in> set (reservations db)" using x f(1) by (auto simp: db2 updatedTo_def split: if_split_asm)
    then show ?thesis using i W same [OF False] by simp
  qed
  have refs: "\<exists>y \<in> set (reservations db2). rs_id y = rid \<and> le_walletId e = rs_walletId y"
    if er: "e \<in> set (ledger db2)" "refersTo rid e" for e rid
  proof -
    have "(e \<in> set (ledger db)) \<or> (rid = rs_id r \<and> le_walletId e = rs_walletId r)"
      using posted_moved(2) [OF post _ er(2)] er(1) by (simp add: db2)
    then obtain y where y: "y \<in> set (reservations db)" "rs_id y = rid" "le_walletId e = rs_walletId y"
      using i r er(2) by blast
    have "y = r" if "rs_id y = rs_id r"
      using reservation_unique [OF inv y(1) r that] .
    then have "if rs_id y = rs_id r then r' \<in> set (reservations db2) else y \<in> set (reservations db2)"
      using y(1) r f(1) by (auto simp: db2 updatedTo_def intro: rev_image_eqI)
    then show ?thesis using y f(1,2) \<open>rs_id y = rs_id r \<Longrightarrow> y = r\<close>
      by (cases "rs_id y = rs_id r") auto
  qed
  show "settlementInv db2"
    unfolding settlementInv_def using wi i rows refs by (simp add: db2(4) ids ops)
  show "operations db2 = operations db" by (rule ops)
  show "reservationEffect db db2"
    unfolding reservationEffect_def using r step db2(4) by blast
qed

section \<open>Recording\<close>

text \<open>What the operation row of an id says, and that a transaction's result is what its row says.\<close>

fun resultOf :: "Committed \<Rightarrow> OperationResult" where
  "resultOf (CReplay oc) = OpOutcome oc"
| "resultOf (COk oc) = OpOutcome oc"
| "resultOf (CError code) = OpDenied code"

definition recordedAs ::
  "string \<Rightarrow> MessageGoSettlementOpKind \<Rightarrow> string \<Rightarrow> Committed \<Rightarrow> SettlementDb \<Rightarrow> bool" where
  "recordedAs oid kind fp c db \<longleftrightarrow>
     (\<exists>row. findOperation oid db = Some row \<and> op_kind row = kind \<and> op_bodyFingerprint row = fp
        \<and> op_result row = resultOf c)"

definition goodStep ::
  "string \<Rightarrow> MessageGoSettlementOpKind \<Rightarrow> string \<Rightarrow> SettlementDb \<Rightarrow> Committed \<Rightarrow> SettlementDb \<Rightarrow> bool" where
  "goodStep oid kind fp db c db' \<longleftrightarrow>
     settlementInv db' \<and> reservationEffect db db' \<and> (\<exists>rows. operations db' = operations db @ rows)
     \<and> recordedAs oid kind fp c db'"

lemma findOperation_append:
  "findOperation oid db = None \<Longrightarrow> operations db' = operations db @ [row] \<Longrightarrow>
    op_operationId row = oid \<Longrightarrow> findOperation oid db' = Some row"
  by (simp add: findOperation_def findRow_append)

lemma recordOperation_good:
  assumes "recordOperation row db1 = Inr db'" and "settlementInv db1" and "reservationEffect db db1"
    and "operations db1 = operations db" and "op_result row = resultOf c"
  shows "goodStep (op_operationId row) (op_kind row) (op_bodyFingerprint row) db c db'"
proof -
  note rec = recordOperation_Inr [OF assms(1)]
  have "findOperation (op_operationId row) db' = Some row"
    using findOperation_append [OF rec(5) rec(4)] by simp
  moreover have "reservationEffect db db'" using assms(3) rec(3) by (simp add: reservationEffect_def)
  ultimately show ?thesis
    using rec assms by (auto simp: goodStep_def recordedAs_def)
qed

lemma recordDenial_good:
  assumes "recordDenial oid kind fp rid acc code db1 = Inr (c, db')" and "settlementInv db1"
    and "reservationEffect db db1" and "operations db1 = operations db"
  shows "goodStep oid kind fp db c db'"
proof -
  let ?row = "\<lparr>op_operationId = oid, op_kind = kind, op_bodyFingerprint = fp, op_reservationId = rid,
    op_accountId = acc, op_result = OpDenied code\<rparr>"
  have "recordOperation ?row db1 = Inr db'" "c = CError code"
    using assms(1) by (auto simp: recordDenial_def bindE_eq_Inr)
  then show ?thesis using recordOperation_good [of ?row db1 db' db c] assms(2-4) by simp
qed

lemma recordOutcome_good:
  assumes "recordOutcome oid kind fp rid acc oc db1 = Inr (c, db')" and "settlementInv db1"
    and "reservationEffect db db1" and "operations db1 = operations db"
  shows "goodStep oid kind fp db c db'" and "c = COk oc"
proof -
  let ?row = "\<lparr>op_operationId = oid, op_kind = kind, op_bodyFingerprint = fp, op_reservationId = Some rid,
    op_accountId = acc, op_result = OpOutcome oc\<rparr>"
  have "recordOperation ?row db1 = Inr db'" and c: "c = COk oc"
    using assms(1) by (auto simp: recordOutcome_def bindE_eq_Inr)
  then show "goodStep oid kind fp db c db'"
    using recordOperation_good [of ?row db1 db' db c] assms(2-4) by simp
  show "c = COk oc" by (rule c)
qed

lemma reservationEffect_refl [simp]: "reservationEffect db db"
  by (simp add: reservationEffect_def)

lemma replay_good:
  assumes "settlementInv db" and "findOperation oid db = Some row" and "replayOp row kind fp = Inr oc"
  shows "goodStep oid kind fp db (CReplay oc) db"
  using assms by (auto simp: goodStep_def recordedAs_def replayOp_def split: if_split_asm OperationResult.split_asm)

lemma denyOn_good:
  assumes "denyOn kind c r code db1 = Inr (res, db')" and "settlementInv db1" and "reservationEffect db db1"
    and "operations db1 = operations db"
  shows "goodStep (ac_operationId c) kind (ac_fingerprint c) db res db'"
  using assms unfolding denyOn_def by (rule recordDenial_good)

lemma finishOn_good:
  assumes "finishOn kind c r ids ev db1 = Inr (res, db')" and "settlementInv db1" and "reservationEffect db db1"
    and "operations db1 = operations db"
  shows "goodStep (ac_operationId c) kind (ac_fingerprint c) db res db'"
    and "\<exists>oc. res = COk oc \<and> outcomeFromReservation r ids = Inr oc"
proof -
  obtain oc where oc: "outcomeFromReservation r ids = Inr oc"
    and rec: "recordOutcome (ac_operationId c) kind (ac_fingerprint c) (rs_id r) (sc_accountId (ac_scope c)) oc
      (case ev of None \<Rightarrow> db1 | Some k \<Rightarrow> recordEvent (rs_id r) k (ac_operationId c) db1) = Inr (res, db')"
    using assms(1) by (auto simp: finishOn_def bindE_eq_Inr)
  let ?db = "case ev of None \<Rightarrow> db1 | Some k \<Rightarrow> recordEvent (rs_id r) k (ac_operationId c) db1"
  have "settlementInv ?db" "operations ?db = operations db" using assms(2,4) by (simp_all split: option.split)
  moreover have "reservationEffect db ?db"
    using assms(3) by (simp add: reservationEffect_def split: option.split)
  ultimately show "goodStep (ac_operationId c) kind (ac_fingerprint c) db res db'"
    using recordOutcome_good(1) [OF rec] by blast
  show "\<exists>oc. res = COk oc \<and> outcomeFromReservation r ids = Inr oc"
    using oc recordOutcome_good(2) [OF rec, of "?db"] \<open>settlementInv ?db\<close> by simp
qed

section \<open>Amounts\<close>

lemma costRial_Inr:
  assumes "costRial t r = Inr a"
  shows "0 \<le> t" and "0 \<le> r" and "0 \<le> a" and "t * r \<le> a * 1000000" and "a * 1000000 < t * r + 1000000"
proof -
  show nn: "0 \<le> t" "0 \<le> r" using assms by (auto simp: costRial_def split: if_split_asm)
  then have tr: "0 \<le> t * r" by simp
  then have "a = (t * r + 1000000 - 1) div 1000000"
    using assms by (auto simp: costRial_def TOKENS_PER_MILLION_def add_diff_eq split: if_split_asm)
  then show "0 \<le> a" "t * r \<le> a * 1000000" "a * 1000000 < t * r + 1000000"
    using ceil_div_upper [of 1000000 "t * r"] tr by (simp_all add: pos_imp_zdiv_nonneg_iff)
qed

lemma costRial_mono:
  assumes "costRial t r = Inr a" and "costRial t' r = Inr b" and "t \<le> t'"
  shows "a \<le> b"
proof -
  have "t * r \<le> t' * r" using assms(3) costRial_Inr(2) [OF assms(1)] by (rule mult_right_mono)
  then show ?thesis using costRial_Inr(5) [OF assms(1)] costRial_Inr(4) [OF assms(2)] by linarith
qed

text \<open>A charge that was derived from the reservation's own prices and token bounds never exceeds its hold.\<close>

lemma trustedBillable_le_hold:
  assumes "trustedBillable c usage r = Inr b" and "reservationOk r"
  shows "0 \<le> b" and "b \<le> rs_holdAmountRial r"
proof -
  obtain mi mo ri ro x y where s: "rs_estimatedMaxInputTokens r = Some mi" "rs_requestedMaxOutputTokens r = Some mo"
      "rs_customerInputRialPerMillion r = Some ri" "rs_customerOutputRialPerMillion r = Some ro"
      "costRial mi ri = Inr x" "costRial mo ro = Inr y" "rs_holdAmountRial r = x + y"
    using assms(2) unfolding reservationOk_def by blast
  obtain p q where b: "costRial (fst usage) ri = Inr p" "costRial (snd usage) ro = Inr q" "b = p + q"
      "fst usage \<le> mi" "snd usage \<le> mo"
    using assms(1) s by (auto simp: trustedBillable_def bindE_eq_Inr reservationPriceSnapshot_def
        deriveBillableRial_def split: if_split_asm)
  show "0 \<le> b" using b costRial_Inr(3) [OF b(1)] costRial_Inr(3) [OF b(2)] by simp
  show "b \<le> rs_holdAmountRial r"
    using costRial_mono [OF b(1) s(5) b(4)] costRial_mono [OF b(2) s(6) b(5)] b(3) s(7) by simp
qed

lemma reservationOk_open:
  "reservationOk r \<Longrightarrow> rs_status r \<in> {RESERVED, UNCERTAIN} \<Longrightarrow>
    rs_remainingHoldRial r = rs_holdAmountRial r \<and> rs_settledAmountRial r = 0"
  by (auto simp: reservationOk_def)

lemma reservationOk_hold: "reservationOk r \<Longrightarrow> 0 \<le> rs_holdAmountRial r"
  unfolding reservationOk_def using costRial_Inr(3) by (metis add_nonneg_nonneg)

section \<open>Every transaction is a good step\<close>

lemma updateReservation_simps [simp]:
  "wallets (updateReservation rid f db) = wallets db" "ledger (updateReservation rid f db) = ledger db"
  "operations (updateReservation rid f db) = operations db"
  by (simp_all add: updateReservation_def)

text \<open>A posting for a reservation followed by a legal change of its row.\<close>

lemma post_and_update:
  assumes "settlementInv db" and "r \<in> set (reservations db)" and "resStep r (f r)"
    and "posted (rs_walletId r) d (rs_id r) eo db db1"
    and "rs_remainingHoldRial (f r) + rs_settledAmountRial (f r) + d = rs_remainingHoldRial r + rs_settledAmountRial r"
  shows "settlementInv (updateReservation (rs_id r) f db1)"
    and "reservationEffect db (updateReservation (rs_id r) f db1)"
    and "operations (updateReservation (rs_id r) f db1) = operations db"
proof -
  have inv: "walletInv db" using assms(1) by (simp add: settlementInv_def)
  have "reservations (updateReservation (rs_id r) f db1) = updatedTo (f r) (reservations db)"
    using updateReservation_updatedTo [where f = f, OF assms(1,2) resStep_facts(1) [OF assms(3)]]
      posted_facts(4) [OF assms(4) inv]
    by (simp add: updateReservation_def)
  note upd = reservation_update_inv [OF assms(1-5) _ _ _ this, simplified]
  show "settlementInv (updateReservation (rs_id r) f db1)"
    "reservationEffect db (updateReservation (rs_id r) f db1)"
    "operations (updateReservation (rs_id r) f db1) = operations db"
    using upd by simp_all
qed

lemma chargeReservation_good:
  assumes inv: "settlementInv db" and r: "r \<in> set (reservations db)"
    and op: "rs_status r \<in> {RESERVED, UNCERTAIN}" and b: "trustedBillable c usage r = Inr b"
    and run: "chargeReservation eid kind c b r db = Inr (res, db')" and kind: "kind \<in> {OP_SETTLE, OP_RECONCILE}"
  shows "goodStep (ac_operationId c) kind (ac_fingerprint c) db res db'"
proof -
  have rok: "reservationOk r" using inv r by (simp add: settlementInv_def)
  note amounts = trustedBillable_le_hold [OF b rok] reservationOk_open [OF rok op]
  let ?st = "if kind = OP_RECONCILE then RECONCILED else SETTLED"
  let ?f = "\<lambda>x. x\<lparr>rs_remainingHoldRial := 0, rs_settledAmountRial := b, rs_status := ?st\<rparr>"
  have step: "resStep r (?f r)" using op amounts by (intro resStep.charge) simp_all
  show ?thesis
  proof (cases "creditRelease eid (rs_walletId r) (rs_remainingHoldRial r - b)
       (''messagego:settle:'' @ ac_operationId c @ '':release'') (rs_id r) db")
    case (Inl e)
    then show ?thesis
      using run amounts denyOn_good [of kind c r insufficient_funds db res db' db] inv
      by (auto simp: chargeReservation_def applyBillable_def split: AuthorityError.split_asm SettlementErrorCode.split_asm)
  next
    case (Inr p)
    obtain eo db1 where p: "p = (eo, db1)" by (cases p)
    let ?g = "\<lambda>x. x\<lparr>rs_remainingHoldRial := 0, rs_settledAmountRial := rs_settledAmountRial r + b, rs_status := SETTLED\<rparr>"
    let ?db2 = "if kind = OP_RECONCILE
      then updateReservation (rs_id r) (setReservationStatus RECONCILED) (updateReservation (rs_id r) ?g db1)
      else updateReservation (rs_id r) ?g db1"
    have two: "updateReservation (rs_id r) (setReservationStatus RECONCILED) (updateReservation (rs_id r) ?g db1) =
        updateReservation (rs_id r) (\<lambda>x. x\<lparr>rs_remainingHoldRial := 0, rs_settledAmountRial := b, rs_status := RECONCILED\<rparr>) db1"
      using amounts(3) by (simp add: updateReservation_def updateRows_def setReservationStatus_def o_def)
    have db2: "?db2 = updateReservation (rs_id r) ?f db1"
      using two kind amounts(3) by (auto simp: updateReservation_def)
    have "posted (rs_walletId r) (rs_remainingHoldRial r - b) (rs_id r) eo db db1"
      using creditRelease_posted [OF _ Inr [unfolded p]] inv amounts by (simp add: settlementInv_def)
    note upd = post_and_update [where f = ?f, OF inv r step this]
    have fin: "(case finishOn kind c (?f r) (entryIds eo)
          (Some (if kind = OP_RECONCILE then ''reconciled'' else ''settled'')) ?db2 of
        Inl (Denied insufficient_funds) \<Rightarrow> denyOn kind c r insufficient_funds db | x \<Rightarrow> x) = Inr (res, db')"
      using run Inr p amounts kind
      by (auto simp: chargeReservation_def applyBillable_def Let_def setReservationStatus_def)
    show ?thesis
    proof (cases "finishOn kind c (?f r) (entryIds eo)
          (Some (if kind = OP_RECONCILE then ''reconciled'' else ''settled'')) ?db2")
      case (Inl e)
      then show ?thesis
        using fin denyOn_good [of kind c r insufficient_funds db res db' db] inv
        by (auto split: AuthorityError.split_asm SettlementErrorCode.split_asm)
    next
      case (Inr q)
      then have "q = (res, db')" using fin by simp
      then show ?thesis using finishOn_good(1) [OF Inr [unfolded \<open>q = (res, db')\<close>]] upd amounts
        by (simp add: db2)
    qed
  qed
qed

lemma ensureWallet_settlement:
  assumes "settlementInv db" and "ensureWalletForUser userId newId db = Inr (w, db')"
  shows "settlementInv db'" and "reservations db' = reservations db" and "operations db' = operations db"
    and "findWallet (w_id w) db' = Some w" and "ledger db' = ledger db"
proof -
  note i = assms(1) [unfolded settlementInv_def]
  note en = ensureWalletForUser_Inr [OF conjunct1 [OF i] assms(2)]
  have "reservations db' = reservations db \<and> operations db' = operations db \<and>
      w_id ` set (wallets db) \<subseteq> w_id ` set (wallets db')"
    using assms(2) by (auto simp: ensureWalletForUser_def Let_def split: option.split_asm if_split_asm)
  then show "settlementInv db'" "reservations db' = reservations db" "operations db' = operations db"
    using i en(1,4) unfolding settlementInv_def by (simp_all, blast)
  show "findWallet (w_id w) db' = Some w" "ledger db' = ledger db" by (rule en(2), rule en(4))
qed

lemma newReservation_ok:
  assumes "deriveHoldRial price (rc_maxInput c) (rc_maxOutput c) = Inr hold"
  shows "reservationOk (newReservation ids c wid price hold)"
  using assms by (auto simp: deriveHoldRial_def reservationOk_def newReservation_def bindE_eq_Inr split: if_split_asm)

lemma deriveHold_nonneg: "deriveHoldRial price i j = Inr hold \<Longrightarrow> 0 \<le> hold"
  by (auto simp: deriveHoldRial_def bindE_eq_Inr split: if_split_asm intro!: add_nonneg_nonneg intro: costRial_Inr(3))

text \<open>A new reservation together with the debit of its hold.\<close>

lemma new_reservation_inv:
  assumes inv: "settlementInv db" and ok: "reservationOk r"
    and fresh: "rs_id r \<notin> rs_id ` set (reservations db)" and wal: "rs_walletId r \<in> w_id ` set (wallets db)"
    and post: "posted (rs_walletId r) (- (rs_remainingHoldRial r + rs_settledAmountRial r)) (rs_id r) eo
      (db\<lparr>reservations := reservations db @ [r]\<rparr>) db'"
  shows "settlementInv db'"
proof -
  note i = inv [unfolded settlementInv_def]
  let ?db = "db\<lparr>reservations := reservations db @ [r]\<rparr>"
  have wi: "walletInv ?db" using i walletInv_cong [of ?db db] by simp
  note p = posted_facts [OF post wi]
  have new: "movedFor (rs_id r) (ledger db) = 0"
    using i fresh by (intro movedFor_none) (metis image_eqI)
  have mv: "movedFor x (ledger db') = movedFor x (ledger db)
      + (if x = rs_id r then - (rs_remainingHoldRial r + rs_settledAmountRial r) else 0)" for x
    using posted_moved(1) [OF post, of x] by simp
  have rows: "reservationOk x \<and> rs_walletId x \<in> w_id ` set (wallets db') \<and>
      movedFor (rs_id x) (ledger db') = - (rs_remainingHoldRial x + rs_settledAmountRial x)"
    if x: "x \<in> set (reservations db')" for x
  proof (cases "x = r")
    case True
    then show ?thesis using mv [of "rs_id r"] new ok wal p(2) by simp
  next
    case False
    then have "x \<in> set (reservations db)" using x p(4) by simp
    moreover from this have "rs_id x \<noteq> rs_id r" using fresh by (metis image_eqI)
    ultimately show ?thesis using i mv [of "rs_id x"] p(2) by simp
  qed
  have refs: "\<exists>y \<in> set (reservations db'). rs_id y = rid \<and> le_walletId e = rs_walletId y"
    if er: "e \<in> set (ledger db')" "refersTo rid e" for e rid
    using posted_moved(2) [OF post er] er(2) i p(4) by auto
  show ?thesis
    unfolding settlementInv_def using p(1,3,4) i fresh rows refs by simp
qed

lemma placeHold_good:
  assumes inv: "settlementInv db" and hold: "deriveHoldRial price (rc_maxInput c) (rc_maxOutput c) = Inr hold"
    and wal: "wid \<in> w_id ` set (wallets db)" and run: "placeHold ids c wid price hold db = Inr (res, db')"
  shows "goodStep (rc_operationId c) OP_RESERVE (rc_fingerprint c) db res db'"
proof -
  let ?r = "newReservation ids c wid price hold"
  let ?db1 = "db\<lparr>reservations := reservations db @ [?r]\<rparr>"
  obtain eo db2 oc where fresh: "rs_id ?r \<notin> rs_id ` set (reservations db)"
    and deb: "debitHold (fr_entryId ids) wid hold MESSAGEGO_RESERVE_HOLD
      (''messagego:reserve:'' @ rc_operationId c) (rs_id ?r) ?db1 = Inr (eo, db2)"
    and rec: "recordOutcome (rc_operationId c) OP_RESERVE (rc_fingerprint c) (rs_id ?r) (sc_accountId (rc_scope c)) oc
      (recordEvent (rs_id ?r) ''reserved'' (rc_operationId c) db2) = Inr (res, db')"
  proof -
    have create: "createReservation ?r db = Inr ?db1"
      using run by (auto simp: placeHold_def Let_def createReservation_def bindE_eq_Inr split: if_split_asm)
    then have "rs_id ?r \<notin> rs_id ` set (reservations db)"
      by (auto simp: createReservation_def list_ex_iff split: if_split_asm)
    moreover obtain eo db2 where "debitHold (fr_entryId ids) wid hold MESSAGEGO_RESERVE_HOLD
        (''messagego:reserve:'' @ rc_operationId c) (rs_id ?r) ?db1 = Inr (eo, db2)"
      using run create by (auto simp del: append.simps simp: placeHold_def Let_def bindE_eq_Inr)
    ultimately show thesis
      using that run create by (auto simp del: append.simps simp: placeHold_def Let_def bindE_eq_Inr)
  qed
  have wi: "walletInv ?db1" using inv walletInv_cong [of ?db1 db] by (simp add: settlementInv_def)
  have post: "posted (rs_walletId ?r) (- (rs_remainingHoldRial ?r + rs_settledAmountRial ?r)) (rs_id ?r) eo ?db1 db2"
    using debitHold_posted [OF wi deb deriveHold_nonneg [OF hold]] by (simp add: newReservation_def)
  have wal': "rs_walletId ?r \<in> w_id ` set (wallets db)" using wal by (simp add: newReservation_def)
  have "settlementInv db2" by (rule new_reservation_inv [OF inv newReservation_ok [OF hold] fresh wal' post])
  moreover have "operations db2 = operations db" "reservations db2 = reservations db @ [?r]"
    using posted_facts [OF post wi] by simp_all
  moreover have "rs_status ?r = RESERVED" by (simp add: newReservation_def)
  ultimately show ?thesis using fresh
    by (intro recordOutcome_good(1) [OF rec]) (auto simp: reservationEffect_def)
qed

lemma reserveTx_good:
  assumes inv: "settlementInv db" and run: "reserveTx ids c db = Inr (res, db')"
  shows "goodStep (rc_operationId c) OP_RESERVE (rc_fingerprint c) db res db'"
proof -
  let ?acc = "sc_accountId (rc_scope c)"
  let ?deny = "\<lambda>rid code db. recordDenial (rc_operationId c) OP_RESERVE (rc_fingerprint c) rid ?acc code db"
  consider (replay) row oc where "findOperation (rc_operationId c) db = Some row"
      "replayOp row OP_RESERVE (rc_fingerprint c) = Inr oc" "res = CReplay oc" "db' = db"
    | (deny) rid code db1 where "?deny rid code db1 = Inr (res, db')" "settlementInv db1"
        "reservations db1 = reservations db" "operations db1 = operations db"
    | (place) wid price hold db1 where "settlementInv db1" "reservations db1 = reservations db"
        "operations db1 = operations db" "wid \<in> w_id ` set (wallets db1)"
        "deriveHoldRial price (rc_maxInput c) (rc_maxOutput c) = Inr hold"
        "placeHold ids c wid price hold db1 = Inr (res, db')"
  proof (cases "findOperation (rc_operationId c) db")
    case (Some row)
    then show thesis using run replay by (auto simp: reserveTx_def bindE_eq_Inr)
  next
    case None
    note new = this
    show thesis
    proof (cases "map_of (users db) ?acc = Some USER_ACTIVE \<and> usageBound (sc_usageReservationId (rc_scope c)) db = None")
      case False
      then show thesis using run new deny [of _ _ db] inv
        by (auto simp: reserveTx_def Let_def split: option.split_asm if_split_asm)
    next
      case True
      then obtain w db1 where w: "ensureWalletForUser ?acc (fr_walletId ids) db = Inr (w, db1)"
        using run new by (auto simp: reserveTx_def Let_def bindE_eq_Inr)
      note en = ensureWallet_settlement [OF inv w]
      have mem: "w_id w \<in> w_id ` set (wallets db1)" using findWallet_Some [OF en(4)] by blast
      have cont: "(if w_status w \<noteq> WS_ACTIVE then ?deny None wallet_frozen db1
             else
               bindE (denyE (latestCustomerPrice db1 (rc_modelAlias c))) (\<lambda>price.
               bindE (denyE (assertPricing (rc_pricingFingerprint c) (rc_pricingVersion c)
                        (pr_pricingFingerprint price) (pr_pricingVersion price))) (\<lambda>_.
               bindE (denyE (deriveHoldRial price (rc_maxInput c) (rc_maxOutput c))) (\<lambda>hold.
               bindE (denyE (rejectUntrustedAmount (rc_suppliedHold c) hold)) (\<lambda>_.
               if w_availableBalance w < hold then ?deny None insufficient_funds db1
               else placeHold ids c (w_id w) price hold db1))))) = Inr (res, db')"
        using run new True w en(4) by (simp add: reserveTx_def Let_def dbE_def)
      show thesis
      proof (cases "w_status w = WS_ACTIVE")
        case False
        then show thesis using cont deny [of None wallet_frozen db1] en by simp
      next
        case True
        then obtain price hold where
            hold: "deriveHoldRial price (rc_maxInput c) (rc_maxOutput c) = Inr hold"
          and fin: "(if w_availableBalance w < hold then ?deny None insufficient_funds db1
               else placeHold ids c (w_id w) price hold db1) = Inr (res, db')"
          using cont by (auto simp: bindE_eq_Inr)
        show thesis
          using fin deny [of None insufficient_funds db1] place [OF en(1-3) mem hold] en(1-3)
          by (cases "w_availableBalance w < hold") simp_all
      qed
    qed
  qed
  then show ?thesis
  proof cases
    case replay
    then show ?thesis using replay_good [OF inv] by simp
  next
    case deny
    then show ?thesis by (intro recordDenial_good [OF deny(1,2)]) (simp_all add: reservationEffect_def)
  next
    case place
    have "goodStep (rc_operationId c) OP_RESERVE (rc_fingerprint c) db1 res db'"
      by (rule placeHold_good [OF place(1,5,4,6)])
    then show ?thesis using place(2,3) by (simp add: goodStep_def reservationEffect_def)
  qed
qed

lemma uncertain_good:
  assumes inv: "settlementInv db" and r: "r \<in> set (reservations db)" and op: "rs_status r \<in> {RESERVED, UNCERTAIN}"
    and run: "finishOn kind c (setReservationStatus UNCERTAIN r) ids ev
      (updateReservation (rs_id r) (setReservationStatus UNCERTAIN) db) = Inr (res, db')"
  shows "goodStep (ac_operationId c) kind (ac_fingerprint c) db res db'"
proof -
  have post: "posted (rs_walletId r) 0 (rs_id r) None db db" by (simp add: posted_def)
  note upd = post_and_update [where f = "setReservationStatus UNCERTAIN", OF inv r resStep.uncertain [OF op] post]
  show ?thesis using finishOn_good(1) [OF run] upd by (simp add: setReservationStatus_def)
qed

lemma settleBody_good:
  assumes inv: "settlementInv db" and r: "r \<in> set (reservations db)"
    and run: "settleBody eid c r db = Inr (res, db')"
  shows "goodStep (ac_operationId c) OP_SETTLE (ac_fingerprint c) db res db'"
proof -
  let ?done = "rs_status r = SETTLED \<or> rs_status r = RECONCILED"
  consider (deny) "denyOn OP_SETTLE c r state_conflict db = Inr (res, db')"
    | (again) "finishOn OP_SETTLE c r [] None db = Inr (res, db')"
    | (uncertain) "rs_status r \<in> {RESERVED, UNCERTAIN}" "finishOn OP_SETTLE c (setReservationStatus UNCERTAIN r) []
        (Some ''uncertain'') (updateReservation (rs_id r) (setReservationStatus UNCERTAIN) db) = Inr (res, db')"
    | (charge) usage b where "rs_status r \<in> {RESERVED, UNCERTAIN}" "trustedBillable c usage r = Inr b"
        "chargeReservation eid OP_SETTLE c b r db = Inr (res, db')"
    using run by (cases "rs_status r") (auto simp: settleBody_def bindE_eq_Inr split: if_split_asm option.split_asm)
  then show ?thesis
  proof cases
    case deny
    then show ?thesis using denyOn_good [OF deny inv] by simp
  next
    case again
    then show ?thesis using finishOn_good(1) [OF again inv] by simp
  next
    case uncertain
    then show ?thesis using uncertain_good [OF inv r] by blast
  next
    case charge
    show ?thesis by (rule chargeReservation_good [OF inv r charge]) simp
  qed
qed

lemma reconcileBody_good:
  assumes inv: "settlementInv db" and r: "r \<in> set (reservations db)"
    and run: "reconcileBody eid c usage r db = Inr (res, db')"
  shows "goodStep (ac_operationId c) OP_RECONCILE (ac_fingerprint c) db res db'"
proof -
  consider (deny) "denyOn OP_RECONCILE c r state_conflict db = Inr (res, db')"
    | (again) "finishOn OP_RECONCILE c r [] None db = Inr (res, db')"
    | (charge) b where "rs_status r \<in> {RESERVED, UNCERTAIN}" "trustedBillable c usage r = Inr b"
        "chargeReservation eid OP_RECONCILE c b r db = Inr (res, db')"
    using run by (cases "rs_status r") (auto simp: reconcileBody_def bindE_eq_Inr split: if_split_asm)
  then show ?thesis
  proof cases
    case deny
    then show ?thesis using denyOn_good [OF deny inv] by simp
  next
    case again
    then show ?thesis using finishOn_good(1) [OF again inv] by simp
  next
    case charge
    show ?thesis by (rule chargeReservation_good [OF inv r charge]) simp
  qed
qed

lemma releaseBody_good:
  assumes inv: "settlementInv db" and r: "r \<in> set (reservations db)"
    and run: "releaseBody eid c r db = Inr (res, db')"
  shows "goodStep (ac_operationId c) OP_RELEASE (ac_fingerprint c) db res db'"
proof (cases "rs_status r = RESERVED")
  case False
  then consider (deny) "denyOn OP_RELEASE c r state_conflict db = Inr (res, db')"
    | (again) "finishOn OP_RELEASE c r [] None db = Inr (res, db')"
    using run by (cases "rs_status r") (auto simp: releaseBody_def)
  then show ?thesis
  proof cases
    case deny
    then show ?thesis using denyOn_good [OF deny inv] by simp
  next
    case again
    then show ?thesis using finishOn_good(1) [OF again inv] by simp
  qed
next
  case True
  let ?f = "\<lambda>x. x\<lparr>rs_remainingHoldRial := 0, rs_status := RELEASED\<rparr>"
  obtain eo db1 where cr: "creditRelease eid (rs_walletId r) (rs_remainingHoldRial r)
        (''messagego:release:'' @ ac_operationId c) (rs_id r) db = Inr (eo, db1)"
    and fin: "finishOn OP_RELEASE c (?f r) (entryIds eo) (Some ''released'') (updateReservation (rs_id r) ?f db1)
        = Inr (res, db')"
    using run True by (auto simp del: append.simps simp: releaseBody_def Let_def bindE_eq_Inr)
  have rok: "reservationOk r" using inv r by (simp add: settlementInv_def)
  note amounts = reservationOk_open [OF rok] reservationOk_hold [OF rok]
  have "posted (rs_walletId r) (rs_remainingHoldRial r) (rs_id r) eo db db1"
    using creditRelease_posted [OF _ cr] inv amounts True by (simp add: settlementInv_def)
  note upd = post_and_update [where f = ?f, OF inv r resStep.release [OF True] this]
  show ?thesis using finishOn_good(1) [OF fin] upd amounts True by simp
qed

lemma withReservation_good:
  assumes inv: "settlementInv db" and run: "withReservation kind c body db = Inr (res, db')"
    and body: "\<And>r. r \<in> set (reservations db) \<Longrightarrow> body r db = Inr (res, db') \<Longrightarrow>
      goodStep (ac_operationId c) kind (ac_fingerprint c) db res db'"
  shows "goodStep (ac_operationId c) kind (ac_fingerprint c) db res db'"
proof -
  consider (replay) row oc where "findOperation (ac_operationId c) db = Some row"
      "replayOp row kind (ac_fingerprint c) = Inr oc" "res = CReplay oc" "db' = db"
    | (deny) rid code where
        "recordDenial (ac_operationId c) kind (ac_fingerprint c) rid (sc_accountId (ac_scope c)) code db = Inr (res, db')"
    | (body) r where "r \<in> set (reservations db)" "body r db = Inr (res, db')"
    using run by (auto simp: withReservation_def bindE_eq_Inr loadReservation_def
        split: option.split_asm sum.split_asm dest: findReservation_Some)
  then show ?thesis
  proof cases
    case replay
    then show ?thesis using replay_good [OF inv] by simp
  next
    case deny
    then show ?thesis using recordDenial_good [OF deny inv] by simp
  next
    case body
    then show ?thesis using assms(3) by blast
  qed
qed

section \<open>Calls of the authority\<close>

datatype AuthorityCall =
  CallReserve FreshIds ReserveInput
| CallSettle string SettleInput
| CallRelease string ReleaseInput
| CallReconcile string SettleInput

fun authorityCall ::
  "(string \<Rightarrow> string) \<Rightarrow> AuthorityCall \<Rightarrow> SettlementDb \<Rightarrow> (AuthorityError + AuthorityOutcome) \<times> SettlementDb" where
  "authorityCall H (CallReserve ids i) db = reserveWalletAuthority H ids i db"
| "authorityCall H (CallSettle eid i) db = settleWalletAuthority H eid i db"
| "authorityCall H (CallRelease eid i) db = releaseWalletAuthority H eid i db"
| "authorityCall H (CallReconcile eid i) db = reconcileWalletAuthority H eid i db"

text \<open>The transaction of a call, before its outcome is turned into an answer.\<close>

fun authorityTx ::
  "(string \<Rightarrow> string) \<Rightarrow> AuthorityCall \<Rightarrow> SettlementDb \<Rightarrow> AuthorityError + Committed \<times> SettlementDb" where
  "authorityTx H (CallReserve ids i) db = bindE (denyE (parseReserve H i)) (\<lambda>c. reserveTx ids c db)"
| "authorityTx H (CallSettle eid i) db =
     bindE (denyE (parseSettle H i)) (\<lambda>c. withReservation OP_SETTLE c (settleBody eid c) db)"
| "authorityTx H (CallRelease eid i) db =
     bindE (denyE (parseRelease H i)) (\<lambda>c. withReservation OP_RELEASE c (releaseBody eid c) db)"
| "authorityTx H (CallReconcile eid i) db =
     bindE (denyE (parseReconcile H i)) (\<lambda>(c, u). withReservation OP_RECONCILE c (reconcileBody eid c u) db)"

text \<open>The operation id, kind and fingerprint a valid request is recorded under.\<close>

fun requestKey :: "(string \<Rightarrow> string) \<Rightarrow> AuthorityCall \<Rightarrow> (string \<times> MessageGoSettlementOpKind \<times> string) option" where
  "requestKey H (CallReserve ids i) =
     (case parseReserve H i of Inl _ \<Rightarrow> None | Inr c \<Rightarrow> Some (rc_operationId c, OP_RESERVE, rc_fingerprint c))"
| "requestKey H (CallSettle eid i) =
     (case parseSettle H i of Inl _ \<Rightarrow> None | Inr c \<Rightarrow> Some (ac_operationId c, OP_SETTLE, ac_fingerprint c))"
| "requestKey H (CallRelease eid i) =
     (case parseRelease H i of Inl _ \<Rightarrow> None | Inr c \<Rightarrow> Some (ac_operationId c, OP_RELEASE, ac_fingerprint c))"
| "requestKey H (CallReconcile eid i) =
     (case parseReconcile H i of Inl _ \<Rightarrow> None
      | Inr (c, _) \<Rightarrow> Some (ac_operationId c, OP_RECONCILE, ac_fingerprint c))"

fun answerOf :: "OperationResult \<Rightarrow> AuthorityError + AuthorityOutcome" where
  "answerOf (OpOutcome oc) = Inr oc"
| "answerOf (OpDenied code) = Inl (Denied code)"

definition recordedAnswer ::
  "(string \<Rightarrow> string) \<Rightarrow> AuthorityCall \<Rightarrow> SettlementDb \<Rightarrow> (AuthorityError + AuthorityOutcome) option" where
  "recordedAnswer H call db =
     (case requestKey H call of None \<Rightarrow> None
      | Some (oid, kind, fp) \<Rightarrow>
         (case findOperation oid db of None \<Rightarrow> None
          | Some row \<Rightarrow> if op_kind row = kind \<and> op_bodyFingerprint row = fp
                        then Some (answerOf (op_result row)) else None))"

lemma authorityCall_tx: "authorityCall H call db = conclude db (authorityTx H call db)"
  by (cases call) (simp_all add: reserveWalletAuthority_def settleWalletAuthority_def
      releaseWalletAuthority_def reconcileWalletAuthority_def)

lemma conclude_Inr: "conclude db (Inr (c, db')) = (answerOf (resultOf c), db')"
  by (cases c) (simp_all add: conclude_def)

lemma conclude_Inl: "conclude db (Inl e) = (Inl e, db)"
  by (simp add: conclude_def)

lemma authorityTx_good:
  assumes inv: "settlementInv db" and run: "authorityTx H call db = Inr (res, db')"
  obtains oid kind fp where "requestKey H call = Some (oid, kind, fp)" and "goodStep oid kind fp db res db'"
proof (cases call)
  case (CallReserve ids i)
  then obtain c where "parseReserve H i = Inr c" "reserveTx ids c db = Inr (res, db')"
    using run by (auto simp: bindE_eq_Inr)
  then show thesis using that CallReserve reserveTx_good [OF inv] by simp
next
  case (CallSettle eid i)
  then obtain c where c: "parseSettle H i = Inr c" "withReservation OP_SETTLE c (settleBody eid c) db = Inr (res, db')"
    using run by (auto simp: bindE_eq_Inr)
  show thesis using that CallSettle c(1) withReservation_good [OF inv c(2)] settleBody_good [OF inv] by simp
next
  case (CallRelease eid i)
  then obtain c where c: "parseRelease H i = Inr c" "withReservation OP_RELEASE c (releaseBody eid c) db = Inr (res, db')"
    using run by (auto simp: bindE_eq_Inr)
  show thesis using that CallRelease c(1) withReservation_good [OF inv c(2)] releaseBody_good [OF inv] by simp
next
  case (CallReconcile eid i)
  then obtain c u where c: "parseReconcile H i = Inr (c, u)"
      "withReservation OP_RECONCILE c (reconcileBody eid c u) db = Inr (res, db')"
    using run by (auto simp: bindE_eq_Inr)
  show thesis using that CallReconcile c(1) withReservation_good [OF inv c(2)] reconcileBody_good [OF inv] by simp
qed

lemma authorityTx_replay:
  assumes "requestKey H call = Some (oid, kind, fp)" and "findOperation oid db = Some row"
    and "op_kind row = kind" and "op_bodyFingerprint row = fp"
  shows "conclude db (authorityTx H call db) = (answerOf (op_result row), db)"
  using assms by (cases call; cases "op_result row")
    (auto simp: denyE_def reserveTx_def withReservation_def replayOp_def conclude_def Let_def split: sum.split_asm)

lemma findOperation_grows:
  "findOperation oid db = Some row \<Longrightarrow> operations db' = operations db @ rows \<Longrightarrow> findOperation oid db' = Some row"
  by (simp add: findOperation_def findRow_append)

lemma requestKey_recorded:
  "requestKey H call = Some (oid, kind, fp) \<Longrightarrow> recordedAs oid kind fp c db \<Longrightarrow>
    recordedAnswer H call db = Some (answerOf (resultOf c))"
  by (auto simp: recordedAnswer_def recordedAs_def)

text \<open>A call is kept when its transaction commits, or when its answer is on record already.\<close>

definition keptCall ::
  "(string \<Rightarrow> string) \<Rightarrow> AuthorityCall \<Rightarrow> SettlementDb
    \<Rightarrow> AuthorityError + (AuthorityError + AuthorityOutcome) \<times> SettlementDb" where
  "keptCall H call db =
     (case recordedAnswer H call db of
        Some a \<Rightarrow> Inr (a, db)
      | None \<Rightarrow> (case authorityTx H call db of Inl e \<Rightarrow> Inl e | Inr (c, db') \<Rightarrow> Inr (answerOf (resultOf c), db')))"

lemma recordedAnswer_stable:
  "recordedAnswer H call db = Some a \<Longrightarrow> operations db' = operations db @ rows \<Longrightarrow> recordedAnswer H call db' = Some a"
  using findOperation_grows [of _ db _ db' rows]
  by (auto simp: recordedAnswer_def split: option.split_asm if_split_asm)

lemma keptCall_grows:
  assumes "settlementInv db" and "keptCall H call db = Inr (a, db')"
  shows "settlementInv db'" and "\<exists>rows. operations db' = operations db @ rows"
    and "recordedAnswer H call db' = Some a"
proof -
  have "settlementInv db' \<and> (\<exists>rows. operations db' = operations db @ rows) \<and> recordedAnswer H call db' = Some a"
  proof (cases "recordedAnswer H call db")
    case (Some b)
    then show ?thesis using assms by (simp add: keptCall_def)
  next
    case None
    then obtain c where tx: "authorityTx H call db = Inr (c, db')" and a: "a = answerOf (resultOf c)"
      using assms(2) by (auto simp: keptCall_def split: sum.split_asm)
    obtain oid kind fp where "requestKey H call = Some (oid, kind, fp)" "goodStep oid kind fp db c db'"
      by (rule authorityTx_good [OF assms(1) tx])
    then show ?thesis using requestKey_recorded a by (auto simp: goodStep_def)
  qed
  then show "settlementInv db'" "\<exists>rows. operations db' = operations db @ rows" "recordedAnswer H call db' = Some a"
    by blast+
qed

interpretation authority: idempotent_op settlementInv "keptCall H" "\<lambda>_. True" "recordedAnswer H"
  for H :: "string \<Rightarrow> string"
proof
  fix db call a db'
  assume *: "settlementInv db" "keptCall H call db = Inr (a, db')"
  show "settlementInv db'" using keptCall_grows [OF *] by simp
  show "recordedAnswer H call db' = Some a" using keptCall_grows [OF *] by simp
next
  fix db call a other b db'
  assume "settlementInv db" "recordedAnswer H call db = Some a" "keptCall H other db = Inr (b, db')"
  then show "recordedAnswer H call db' = Some a"
    using keptCall_grows(2) recordedAnswer_stable by blast
next
  fix db call a
  assume "recordedAnswer H call db = Some a"
  then show "keptCall H call db = Inr (a, db)" by (simp add: keptCall_def)
qed

section \<open>The rest of the platform\<close>

text \<open>The wallet commands of other features only touch the wallet tables, and post nothing under the
  reservations' reference type.\<close>

fun foreignCommand :: "WalletCommand \<Rightarrow> bool" where
  "foreignCommand (Credit i) = (in_referenceType i \<noteq> Some ''messagego_reservation'')"
| "foreignCommand (Debit i) = (in_referenceType i \<noteq> Some ''messagego_reservation'')"
| "foreignCommand (Reverse i) = True"

definition walletOnly :: "SettlementDb \<Rightarrow> SettlementDb \<Rightarrow> bool" where
  "walletOnly db db' \<longleftrightarrow> WalletDb.more db' = WalletDb.more db \<and> w_id ` set (wallets db) \<subseteq> w_id ` set (wallets db')
     \<and> (\<exists>es. ledger db' = ledger db @ es \<and> (\<forall>e \<in> set es. \<forall>rid. \<not> refersTo rid e))"

lemma walletOnly_refl [simp]: "walletOnly db db"
  by (simp add: walletOnly_def)

lemma creditTx_only: "creditTx i db = Inr (e, db') \<Longrightarrow> foreignCommand (Credit i) \<Longrightarrow> walletOnly db db'"
  by (auto simp: creditTx_def bindE_eq_Inr Let_def insertEntry_Inr walletOnly_def newEntry_def refersTo_def
      split: if_split_asm option.split_asm dest!: ensureWallet_only)

lemma debitTx_only: "debitTx i db = Inr (e, db') \<Longrightarrow> foreignCommand (Debit i) \<Longrightarrow> walletOnly db db'"
  by (auto simp: debitTx_def bindE_eq_Inr Let_def insertEntry_Inr walletOnly_def newEntry_def refersTo_def
      split: if_split_asm option.split_asm prod.split_asm dest!: ensureWallet_only decrementIf_only)

lemma reverseTx_only: "reverseTx i db = Inr (e, db') \<Longrightarrow> walletOnly db db'"
  by (auto simp: reverseTx_def Let_def insertEntry_Inr walletOnly_def reversalEntry_def refersTo_def
      split: if_split_asm option.split_asm prod.split_asm LedgerDirection.split_asm dest!: decrementIf_only)

lemma walletCommand_only: "walletCommand c db = Inr (e, db') \<Longrightarrow> foreignCommand c \<Longrightarrow> walletOnly db db'"
  by (cases c) (auto simp: creditWallet_def debitWallet_def reverseLedgerEntry_def
      split: option.split_asm if_split_asm intro: creditTx_only debitTx_only reverseTx_only)

lemma more_tables:
  fixes db db' :: SettlementDb
  assumes "WalletDb.more db' = WalletDb.more db"
  shows "reservations db' = reservations db" and "operations db' = operations db"
  using assms by (cases db; cases db'; simp)+

lemma walletOnly_inv:
  assumes "settlementInv db" and "walletOnly db db'" and "walletInv db'"
  shows "settlementInv db'" and "reservations db' = reservations db" and "operations db' = operations db"
proof -
  note i = assms(1) [unfolded settlementInv_def] and w = assms(2) [unfolded walletOnly_def]
  note t = more_tables [OF conjunct1 [OF w]]
  obtain es where es: "ledger db' = ledger db @ es" "\<And>e rid. e \<in> set es \<Longrightarrow> \<not> refersTo rid e"
    using w by blast
  have "movedFor rid (ledger db') = movedFor rid (ledger db)" for rid
    using es movedFor_none [of es rid] by simp
  moreover have "e \<in> set (ledger db)" if "e \<in> set (ledger db')" "refersTo rid e" for e rid
    using that es by auto
  moreover have "rs_walletId r \<in> w_id ` set (wallets db')" if "r \<in> set (reservations db)" for r
    using w i that by blast
  ultimately show "settlementInv db'"
    unfolding settlementInv_def t using assms(3) i by (intro conjI ballI allI impI) simp_all
  show "reservations db' = reservations db" "operations db' = operations db" by (rule t)+
qed

text \<open>Administrators change accounts, prices and wallet states at any time.\<close>

definition administrate ::
  "(string \<times> UserAccountStatus) list \<Rightarrow> CustomerPriceRecord list \<Rightarrow> SettlementDb \<Rightarrow> SettlementDb" where
  "administrate us ps db = db\<lparr>users := us, prices := ps\<rparr>"

lemma administrate_inv:
  assumes "settlementInv db"
  shows "settlementInv (administrate us ps db)"
proof -
  have "walletInv (administrate us ps db) = walletInv db"
    by (rule walletInv_cong) (simp_all add: administrate_def)
  then show ?thesis using assms unfolding settlementInv_def by (simp add: administrate_def)
qed

lemma freeze_only: "walletOnly db (setStatus wid st db)"
  by (auto simp: walletOnly_def setStatus_def image_updateRows)

definition emptySettlementDb :: SettlementDb where
  "emptySettlementDb = \<lparr>wallets = [], ledger = [], users = [], reservations = [], operations = [], events = [], prices = []\<rparr>"

inductive settlementReach :: "(string \<Rightarrow> string) \<Rightarrow> SettlementDb \<Rightarrow> bool" for H where
  initial: "settlementReach H emptySettlementDb"
| authority: "settlementReach H db \<Longrightarrow> settlementReach H (snd (authorityCall H call db))"
| wallet: "settlementReach H db \<Longrightarrow> foreignCommand c \<Longrightarrow> walletCommand c db = Inr (e, db') \<Longrightarrow> settlementReach H db'"
| freeze: "settlementReach H db \<Longrightarrow> settlementReach H (setStatus wid st db)"
| administration: "settlementReach H db \<Longrightarrow> settlementReach H (administrate us ps db)"

lemma authorityCall_effect:
  assumes "settlementInv db"
  shows "settlementInv (snd (authorityCall H call db))" and "reservationEffect db (snd (authorityCall H call db))"
proof -
  have "settlementInv (snd (authorityCall H call db)) \<and> reservationEffect db (snd (authorityCall H call db))"
  proof (cases "authorityTx H call db")
    case (Inl e)
    then show ?thesis using assms by (simp add: authorityCall_tx conclude_Inl)
  next
    case (Inr p)
    obtain c db' where p: "p = (c, db')" by (cases p)
    obtain oid kind fp where "goodStep oid kind fp db c db'"
      by (rule authorityTx_good [OF assms Inr [unfolded p]])
    then show ?thesis using Inr p by (simp add: authorityCall_tx conclude_Inr goodStep_def)
  qed
  then show "settlementInv (snd (authorityCall H call db))" "reservationEffect db (snd (authorityCall H call db))"
    by blast+
qed

lemma settlementReach_inv: "settlementReach H db \<Longrightarrow> settlementInv db"
proof (induction rule: settlementReach.induct)
  case initial
  then show ?case by (simp add: settlementInv_def emptySettlementDb_def walletInv_def)
next
  case (authority db call)
  then show ?case using authorityCall_effect(1) by blast
next
  case (wallet db c e db')
  then have "walletInv db'" using walletCommand_cases by (auto simp: settlementInv_def)
  then show ?case using walletOnly_inv(1) walletCommand_only wallet by blast
next
  case (freeze db wid st)
  then have "walletInv (setStatus wid st db)" using setStatus_inv by (auto simp: settlementInv_def)
  then show ?case using walletOnly_inv(1) freeze_only freeze by blast
next
  case (administration db us ps)
  from administration.IH show ?case by (rule administrate_inv)
qed

text \<open>An answer on record is the answer of the call, and the database stays as it is.\<close>

lemma recordedAnswer_call:
  assumes "recordedAnswer H call db = Some a"
  shows "authorityCall H call db = (a, db)"
proof -
  obtain oid kind fp row where "requestKey H call = Some (oid, kind, fp)" "findOperation oid db = Some row"
      "op_kind row = kind" "op_bodyFingerprint row = fp" "a = answerOf (op_result row)"
    using assms by (auto simp: recordedAnswer_def split: option.split_asm if_split_asm)
  then show ?thesis using authorityTx_replay [of H call oid kind fp db row] by (simp add: authorityCall_tx)
qed

lemma authority_step: "authority.step H d call = snd (authorityCall H call d)"
proof (cases "recordedAnswer H call d")
  case (Some a)
  then show ?thesis using recordedAnswer_call [OF Some] by (simp add: authority.step_def keptCall_def)
next
  case None
  then show ?thesis
    by (cases "authorityTx H call d")
      (auto simp: authority.step_def keptCall_def authorityCall_tx conclude_Inr conclude_Inl)
qed

section \<open>Properties\<close>

text \<open>C19: every rial of a reservation is accounted for. In every database reachable by any sequence of
  authority calls, wallet commands of other features, frozen wallets and changed accounts and prices, the
  ledger postings of a reservation add up to exactly what it still holds plus what it has charged, this never
  exceeds the hold the customer agreed to, and a finished reservation holds nothing any more.\<close>

theorem reservation_money_conserved:
  assumes "settlementReach H db" and "r \<in> set (reservations db)"
  shows "movedFor (rs_id r) (ledger db) = - (rs_remainingHoldRial r + rs_settledAmountRial r)
    \<and> 0 \<le> rs_remainingHoldRial r \<and> 0 \<le> rs_settledAmountRial r
    \<and> rs_remainingHoldRial r + rs_settledAmountRial r \<le> rs_holdAmountRial r
    \<and> (rs_status r \<in> {SETTLED, RELEASED, RECONCILED} \<longrightarrow> rs_remainingHoldRial r = 0)"
proof -
  have i: "reservationOk r" "movedFor (rs_id r) (ledger db) = - (rs_remainingHoldRial r + rs_settledAmountRial r)"
    using settlementReach_inv [OF assms(1)] assms(2) unfolding settlementInv_def by blast+
  then show ?thesis using reservationOk_hold [OF i(1)] unfolding reservationOk_def
    by (cases "rs_status r") simp_all
qed

text \<open>C21: an authority request takes effect at most once. Once a request has been committed, with an outcome
  or with a recorded denial, repeating it after any further authority calls gives the same answer and changes
  nothing.\<close>

theorem authority_request_at_most_once:
  assumes "settlementInv db" and "authorityTx H call db = Inr (c, db1)"
  shows "authorityCall H call (foldl (\<lambda>d other. snd (authorityCall H other d)) db1 calls) =
    (fst (authorityCall H call db), foldl (\<lambda>d other. snd (authorityCall H other d)) db1 calls)"
proof -
  have first: "recordedAnswer H call db1 = Some (fst (authorityCall H call db))"
    by (rule authorityTx_good [OF assms]) (use assms(2) in \<open>auto simp: goodStep_def authorityCall_tx
        conclude_Inr dest: requestKey_recorded\<close>)
  have inv1: "settlementInv db1"
    by (rule authorityTx_good [OF assms]) (simp add: goodStep_def)
  let ?d = "foldl (authority.step H) db1 calls"
  have "recordedAnswer H call ?d = Some (fst (authorityCall H call db))"
    by (rule authority.foldl_step_stable [OF inv1 _ first]) simp
  then show ?thesis using recordedAnswer_call unfolding authority_step by blast
qed

text \<open>C23: a settlement, release or reconciliation is final. A settled, released or reconciled reservation is
  kept unchanged, with its amounts and scope, by every further sequence of authority calls.\<close>

theorem finished_reservation_is_final:
  assumes "settlementInv db" and "r \<in> set (reservations db)"
    and "rs_status r \<in> {SETTLED, RELEASED, RECONCILED}"
  shows "r \<in> set (reservations (foldl (\<lambda>d call. snd (authorityCall H call d)) db calls))"
  using assms
proof (induction calls arbitrary: db)
  case (Cons call calls)
  let ?db1 = "snd (authorityCall H call db)"
  note e = authorityCall_effect [OF Cons.prems(1), of H call]
  have "r \<in> set (reservations ?db1)"
  proof -
    have "x = r" if "resStep y x" "y \<in> set (reservations db)" "rs_id r = rs_id x" for x y
    proof -
      have "r = y" using reservation_unique [OF Cons.prems(1,2) that(2)] that(3) resStep_facts(1) [OF that(1)] by simp
      then show ?thesis using resStep_facts(4) [OF that(1)] Cons.prems(3) by auto
    qed
    then show ?thesis using e(2) Cons.prems(2) unfolding reservationEffect_def updatedTo_def
      by (fastforce intro: rev_image_eqI)
  qed
  then show ?case using Cons.IH [OF e(1)] Cons.prems(3) by simp
qed simp

text \<open>What releasing part of a hold does when nothing stands in its way.\<close>

lemma creditRelease_fresh:
  assumes "findWallet wid db = Some w" and "findEntry eid db = None" and "findByIdempotency key db = None"
  shows "\<exists>eo db1. creditRelease eid wid a key rid db = Inr (eo, db1) \<and> users db1 = users db
    \<and> operations db1 = operations db \<and> reservations db1 = reservations db
    \<and> wallets db1 = updateRows (\<lambda>v. w_id v = wid) (addBalance a) (wallets db)"
proof (cases "a = 0")
  case True
  have "updateRows (\<lambda>v. w_id v = wid) (addBalance 0) ws = ws" for ws
    by (simp add: updateRows_def addBalance_def map_idI)
  then show ?thesis using True by (simp add: creditRelease_def)
next
  case False
  have "findWallet wid (updateBalance wid a db) = Some (addBalance a w)"
    using assms(1) by (simp add: findWallet_updateBalance)
  moreover have "findEntry eid (updateBalance wid a db) = None" "findByIdempotency key (updateBalance wid a db) = None"
    using assms(2,3) by (simp_all add: findEntry_def findByIdempotency_def)
  ultimately show ?thesis using False
    by (simp add: creditRelease_def Let_def dbE_def insertEntry_def holdEntry_def) (simp add: updateBalance_def)
qed

lemma findReservation_update:
  assumes "findReservation rid db = Some r" and "rs_id (f r) = rid"
  shows "findReservation rid (updateReservation rid f db) = Some (f r)"
proof -
  have "findRow (\<lambda>x. rs_id x = rid) (updateRows (\<lambda>x. rs_id x = rid) f xs) = Some (f r)"
    if "findRow (\<lambda>x. rs_id x = rid) xs = Some r" for xs
    using that assms(2) by (induction xs) (auto simp: findRow_def updateRows_def split: if_split_asm)
  then show ?thesis using assms(1) by (simp add: findReservation_def updateReservation_def)
qed

text \<open>C22: a settlement charges exactly the derived price of the reported usage. For a known reservation with
  an open hold, a new operation id and free ledger ids, settling succeeds; the reservation ends as settled
  with the charge that its own price snapshot gives for the usage, the charge is never above the hold, exactly
  the unused rest of the hold returns to the reservation's wallet and no other wallet changes.\<close>

theorem settle_charges_reported_usage:
  assumes "settlementInv db" and "parseSettle H i = Inr c" and "findOperation (ac_operationId c) db = None"
    and "map_of (users db) (sc_accountId (ac_scope c)) \<noteq> None"
    and "loadReservation (ac_authorityReservationId c) (ac_scope c) db = Inr r"
    and "assertPricing (ac_pricingFingerprint c) (ac_pricingVersion c) (rs_pricingFingerprint r) (rs_pricingVersion r) = Inr ()"
    and "rs_status r \<in> {RESERVED, UNCERTAIN}" and "ac_usage c = Some usage"
    and "trustedBillable c usage r = Inr b" and "findEntry eid db = None"
    and "findByIdempotency (''messagego:settle:'' @ ac_operationId c @ '':release'') db = None"
  shows "\<exists>oc db'. settleWalletAuthority H eid i db = (Inr oc, db') \<and> oc_status oc = st_settled
    \<and> walletAmountString b = Inr (oc_settled_amount oc) \<and> b \<le> rs_holdAmountRial r
    \<and> findReservation (rs_id r) db' =
        Some (r\<lparr>rs_remainingHoldRial := 0, rs_settledAmountRial := b, rs_status := SETTLED\<rparr>)
    \<and> wallets db' = updateRows (\<lambda>v. w_id v = rs_walletId r) (addBalance (rs_holdAmountRial r - b)) (wallets db)"
proof -
  let ?f = "\<lambda>x. x\<lparr>rs_remainingHoldRial := 0, rs_settledAmountRial := b, rs_status := SETTLED\<rparr>"
  have r: "r \<in> set (reservations db)" and fr: "findReservation (rs_id r) db = Some r"
    using assms(5) by (auto simp: loadReservation_def bindE_eq_Inr assertScope_def split: option.split_asm if_split_asm
        dest: findReservation_Some)
  have rok: "reservationOk r" and wal: "rs_walletId r \<in> w_id ` set (wallets db)" and wi: "walletInv db"
    using assms(1) r unfolding settlementInv_def by blast+
  note am = trustedBillable_le_hold [OF assms(9) rok] reservationOk_open [OF rok assms(7)] reservationOk_hold [OF rok]
  obtain w where w: "findWallet (rs_walletId r) db = Some w"
    using wal findWallet_mem [OF wi] by fastforce
  obtain eo db1 where cr: "creditRelease eid (rs_walletId r) (rs_holdAmountRial r - b)
        (''messagego:settle:'' @ ac_operationId c @ '':release'') (rs_id r) db = Inr (eo, db1)"
    and db1: "users db1 = users db" "operations db1 = operations db" "reservations db1 = reservations db"
      "wallets db1 = updateRows (\<lambda>v. w_id v = rs_walletId r) (addBalance (rs_holdAmountRial r - b)) (wallets db)"
    using creditRelease_fresh [OF w assms(10,11)] by blast
  let ?db2 = "updateReservation (rs_id r) ?f db1"
  have fr2: "findReservation (rs_id r) ?db2 = Some (?f r)"
    using fr db1(3) by (intro findReservation_update) (simp_all add: findReservation_def)
  have ap: "applyBillable eid r b (ac_operationId c) db = Inr ((?f r, entryIds eo), ?db2)"
    using cr am by (simp add: applyBillable_def)
  have "isOk (outcomeFromReservation (?f r) (entryIds eo))"
    using am by (simp add: outcomeFromReservation_def walletAmountString_def bindE_def isOk_iff)
  then obtain oc where oc1: "outcomeFromReservation (?f r) (entryIds eo) = Inr oc" by (auto simp: isOk_iff)
  have oc: "outcomeFromReservation (?f r) (entryIds eo) = Inr oc" "oc_status oc = st_settled"
      "walletAmountString b = Inr (oc_settled_amount oc)"
    using oc1 by (auto simp: outcomeFromReservation_def bindE_eq_Inr)
  let ?row = "\<lparr>op_operationId = ac_operationId c, op_kind = OP_SETTLE, op_bodyFingerprint = ac_fingerprint c,
    op_reservationId = Some (rs_id r), op_accountId = sc_accountId (ac_scope c), op_result = OpOutcome oc\<rparr>"
  let ?db3 = "recordEvent (rs_id r) ''settled'' (ac_operationId c) ?db2"
  let ?db4 = "?db3\<lparr>operations := operations ?db3 @ [?row]\<rparr>"
  have "recordOperation ?row ?db3 = Inr ?db4"
    using assms(3,4) fr2 db1
    by (auto simp: recordOperation_def findOperation_def findReservation_def recordEvent_def updateReservation_def)
  then have "finishOn OP_SETTLE c (?f r) (entryIds eo) (Some ''settled'') ?db2 = Inr (COk oc, ?db4)"
    using oc(1) by (simp add: finishOn_def recordOutcome_def denyE_def Let_def)
  then have "chargeReservation eid OP_SETTLE c b r db = Inr (COk oc, ?db4)"
    using ap by (simp add: chargeReservation_def)
  then have "settleBody eid c r db = Inr (COk oc, ?db4)"
    using assms(6-9) by (auto simp: settleBody_def denyE_def)
  then have "settleWalletAuthority H eid i db = (Inr oc, ?db4)"
    using assms(2,3,5) by (simp add: settleWalletAuthority_def withReservation_def denyE_def conclude_def)
  moreover have "findReservation (rs_id r) ?db4 = Some (?f r)" using fr2 by (simp add: findReservation_def)
  moreover have "wallets ?db4 = wallets db1" by simp
  ultimately show ?thesis using oc(2,3) am(2) db1(4) by auto
qed

section \<open>A concrete run\<close>

definition sample_price :: CustomerPriceRecord where
  "sample_price = \<lparr>pr_stableModelAlias = ''m'', pr_revision = 1, pr_pricingVersion = ''v1'',
     pr_pricingFingerprint = ''pf'', pr_inputRialPerMillion = 2000000, pr_outputRialPerMillion = 3000000,
     pr_maxInputTokens = 100, pr_maxOutputTokens = 100\<rparr>"

definition sample_reserve :: ReserveInput where
  "sample_reserve = \<lparr>ri_operationId = Some ''op1'', ri_accountId = Some ''u1'', ri_productId = Some ''p'',
     ri_workspaceId = Some ''ws'', ri_runId = Some ''r'', ri_usageReservationId = Some ''us'',
     rq_callerServiceId = Some ''svc'', rq_holdAmount = JUndefined, rq_modelAlias = Some ''m'',
     rq_estimatedMaxInputTokens = JInt 10, rq_requestedMaxOutputTokens = JInt 20,
     rq_providerPricingFingerprint = Some ''x'', rq_providerPricingVersion = Some ''y'',
     rq_providerCostCeiling = JUndefined, rq_pricingFingerprint = None, rq_pricingVersion = None\<rparr>"

definition sample_settle :: SettleInput where
  "sample_settle = \<lparr>ri_operationId = Some ''op2'', ri_accountId = Some ''u1'', ri_productId = Some ''p'',
     ri_workspaceId = Some ''ws'', ri_runId = Some ''r'', ri_usageReservationId = Some ''us'',
     ai_authorityReservationId = Some ''res1'', ai_callerServiceId = Some ''svc'',
     si_customerBillableAmount = JUndefined, si_pricingFingerprint = None, si_pricingVersion = None,
     si_outcomeUncertain = False,
     si_providerUsage = JObj [(''input_text_tokens'', JInt 5), (''output_text_tokens'', JInt 7)]\<rparr>"

definition sample_ids :: FreshIds where
  "sample_ids = \<lparr>fr_walletId = ''w9'', fr_reservationId = ''res1'', fr_entryId = ''h1''\<rparr>"

definition sample_funded :: SettlementDb where
  "sample_funded = (case walletCommand (Credit sample_credit)
       (administrate [(''u1'', USER_ACTIVE)] [sample_price] emptySettlementDb) of
     Inr (_, db) \<Rightarrow> db | Inl _ \<Rightarrow> emptySettlementDb)"

definition sample_held :: SettlementDb where
  "sample_held = snd (authorityCall id (CallReserve sample_ids sample_reserve) sample_funded)"

definition sample_settled :: SettlementDb where
  "sample_settled = snd (authorityCall id (CallSettle ''h2'' sample_settle) sample_held)"

definition sample_command :: AuthorityCommand where
  "sample_command = (case parseSettle id sample_settle of Inr c \<Rightarrow> c)"

definition sample_reservation :: Reservation where
  "sample_reservation = hd (reservations sample_held)"

lemma sample_reach:
  "settlementReach H sample_funded" "settlementReach id sample_held" "settlementReach id sample_settled"
proof -
  let ?db = "administrate [(''u1'', USER_ACTIVE)] [sample_price] emptySettlementDb"
  have a: "settlementReach H ?db" for H by (intro settlementReach.administration settlementReach.initial)
  have f: "foreignCommand (Credit sample_credit)" by (simp add: sample_credit_def)
  show b: "settlementReach H sample_funded" for H
    unfolding sample_funded_def using a settlementReach.initial settlementReach.wallet [OF a f]
    by (auto split: sum.split)
  show c: "settlementReach id sample_held" unfolding sample_held_def by (intro settlementReach.authority b)
  show "settlementReach id sample_settled" unfolding sample_settled_def by (intro settlementReach.authority c)
qed

theorem reservation_money_conserved_witness:
  "\<exists>r \<in> set (reservations sample_settled). rs_settledAmountRial r = 31 \<and> rs_remainingHoldRial r = 0
    \<and> movedFor (rs_id r) (ledger sample_settled) = - 31"
proof -
  have "list_ex (\<lambda>r. rs_settledAmountRial r = 31 \<and> rs_remainingHoldRial r = 0) (reservations sample_settled)"
    by code_simp
  then obtain r where "r \<in> set (reservations sample_settled)" "rs_settledAmountRial r = 31" "rs_remainingHoldRial r = 0"
    by (auto simp: list_ex_iff)
  then show ?thesis using reservation_money_conserved [OF sample_reach(3)] by fastforce
qed

theorem authority_request_at_most_once_witness:
  "\<exists>oc. authorityCall id (CallReserve sample_ids sample_reserve)
      (foldl (\<lambda>d other. snd (authorityCall id other d)) sample_held [CallSettle ''h2'' sample_settle]) =
    (Inr oc, sample_settled)"
proof -
  let ?call = "CallReserve sample_ids sample_reserve"
  have "isOk (authorityTx id ?call sample_funded)" by code_simp
  then obtain c db1 where tx: "authorityTx id ?call sample_funded = Inr (c, db1)" by (auto simp: isOk_iff)
  then have db1: "db1 = sample_held" by (simp add: sample_held_def authorityCall_tx conclude_Inr)
  have "isOk (fst (authorityCall id ?call sample_funded))" by code_simp
  then obtain oc where "fst (authorityCall id ?call sample_funded) = Inr oc" by (auto simp: isOk_iff)
  then show ?thesis
    using authority_request_at_most_once [OF settlementReach_inv [OF sample_reach(1)] tx,
        of "[CallSettle ''h2'' sample_settle]"]
    by (simp add: db1 sample_settled_def)
qed

theorem finished_reservation_is_final_witness:
  "\<exists>r \<in> set (reservations sample_settled). rs_status r = SETTLED \<and>
    r \<in> set (reservations (foldl (\<lambda>d call. snd (authorityCall id call d)) sample_settled
      [CallSettle ''h3'' (sample_settle\<lparr>ri_operationId := Some ''op3''\<rparr>)]))"
proof -
  have "list_ex (\<lambda>r. rs_status r = SETTLED) (reservations sample_settled)" by code_simp
  then obtain r where "r \<in> set (reservations sample_settled)" "rs_status r = SETTLED" by (auto simp: list_ex_iff)
  then show ?thesis using finished_reservation_is_final [OF settlementReach_inv [OF sample_reach(3)]] by blast
qed

theorem settle_charges_reported_usage_witness:
  "\<exists>oc db'. settleWalletAuthority id ''h2'' sample_settle sample_held = (Inr oc, db')
    \<and> walletAmountString 31 = Inr (oc_settled_amount oc)"
proof -
  let ?c = sample_command and ?r = sample_reservation
  have "isOk (parseSettle id sample_settle)" by code_simp
  then have "parseSettle id sample_settle = Inr ?c" by (auto simp: isOk_iff sample_command_def)
  moreover have "findOperation (ac_operationId ?c) sample_held = None" by code_simp
  moreover have "map_of (users sample_held) (sc_accountId (ac_scope ?c)) \<noteq> None" by code_simp
  moreover have "loadReservation (ac_authorityReservationId ?c) (ac_scope ?c) sample_held = Inr ?r" by code_simp
  moreover have "assertPricing (ac_pricingFingerprint ?c) (ac_pricingVersion ?c) (rs_pricingFingerprint ?r)
      (rs_pricingVersion ?r) = Inr ()" by code_simp
  moreover have "rs_status ?r \<in> {RESERVED, UNCERTAIN}" by code_simp
  moreover have "ac_usage ?c = Some (5, 7)" by code_simp
  moreover have "trustedBillable ?c (5, 7) ?r = Inr 31" by code_simp
  moreover have "findEntry ''h2'' sample_held = None" by code_simp
  moreover have "findByIdempotency (''messagego:settle:'' @ ac_operationId ?c @ '':release'') sample_held = None"
    by code_simp
  ultimately show ?thesis
    using settle_charges_reported_usage [OF settlementReach_inv [OF sample_reach(2)]] by blast
qed

text \<open>A settlement that names an account no user has cannot be recorded as denied: the operation row's
  foreign key fails, and the caller gets a database error instead of the denial.\<close>

lemma unknown_account_denial_lost:
  assumes "parseSettle H i = Inr c" and "findOperation (ac_operationId c) db = None"
    and "findReservation (ac_authorityReservationId c) db = None"
    and "map_of (users db) (sc_accountId (ac_scope c)) = None"
  shows "settleWalletAuthority H eid i db = (Inl (DbFailure ''P2003''), db)"
  using assms by (simp add: settleWalletAuthority_def withReservation_def loadReservation_def recordDenial_def
      recordOperation_def denyE_def conclude_def bindE_def)

end
