(* ===== verification/Journal.thy ===== *)
theory Journal
  imports Wallet
begin

text \<open>
  The accounting journal: \<open>src/lib/accounting/journal.ts\<close> and the chart of accounts \<open>accounts.ts\<close>.
  Entries are posted once per idempotency key with balanced lines and are undone by a reversing entry, never
  changed. The journal is a table beside the wallet tables; line descriptions and line metadata are not
  modelled, and an \<open>Error\<close> is its code.
\<close>

section \<open>Accounts\<close>

datatype AccountClass = asset | liability | revenue | contra_revenue | cogs | opex

definition ACCOUNT_CODES :: "string list" where
  "ACCOUNT_CODES =
     [''CASH_GATEWAY'', ''PROVIDER_FUNDING_CLEARING'', ''CUSTOMER_WALLET_LIABILITY'', ''TAX_PAYABLE'',
      ''DEFERRED_REVENUE'', ''INFRASTRUCTURE_REVENUE'', ''PARCHIN_REVENUE'', ''ADDON_REVENUE'',
      ''TERM_DISCOUNT'', ''COUPON_DISCOUNT'', ''SALES_REFUND'', ''PROVIDER_INFRASTRUCTURE_COGS'',
      ''PROVIDER_ADDON_COGS'', ''GATEWAY_FEES'', ''SMS_EXPENSE'', ''SUPPORT_OPERATIONS'',
      ''HOSTING_OPERATIONS'', ''MARKETING_EXPENSE'', ''PAYROLL_CONTRACTOR'', ''OTHER_OPERATING_EXPENSE'']"

definition ACCOUNT_DEFINITIONS :: "(string \<times> AccountClass) list" where
  "ACCOUNT_DEFINITIONS =
     [(''CASH_GATEWAY'', asset), (''PROVIDER_FUNDING_CLEARING'', asset),
      (''CUSTOMER_WALLET_LIABILITY'', liability), (''TAX_PAYABLE'', liability), (''DEFERRED_REVENUE'', liability),
      (''INFRASTRUCTURE_REVENUE'', revenue), (''PARCHIN_REVENUE'', revenue), (''ADDON_REVENUE'', revenue),
      (''TERM_DISCOUNT'', contra_revenue), (''COUPON_DISCOUNT'', contra_revenue), (''SALES_REFUND'', contra_revenue),
      (''PROVIDER_INFRASTRUCTURE_COGS'', cogs), (''PROVIDER_ADDON_COGS'', cogs),
      (''GATEWAY_FEES'', opex), (''SMS_EXPENSE'', opex), (''SUPPORT_OPERATIONS'', opex),
      (''HOSTING_OPERATIONS'', opex), (''MARKETING_EXPENSE'', opex), (''PAYROLL_CONTRACTOR'', opex),
      (''OTHER_OPERATING_EXPENSE'', opex)]"

definition isAccountCode :: "string \<Rightarrow> bool" where
  "isAccountCode value = List.member ACCOUNT_CODES value"

definition assertAccountCode :: "string \<Rightarrow> string + string" where
  "assertAccountCode value =
     (if \<not> isAccountCode value then Inl (''unknown_account_code:'' @ value) else Inr value)"

definition MANUAL_OPEX_ACCOUNT_CODES :: "string list" where
  "MANUAL_OPEX_ACCOUNT_CODES =
     [''GATEWAY_FEES'', ''SMS_EXPENSE'', ''SUPPORT_OPERATIONS'', ''HOSTING_OPERATIONS'', ''MARKETING_EXPENSE'',
      ''PAYROLL_CONTRACTOR'', ''OTHER_OPERATING_EXPENSE'']"

section \<open>Tables\<close>

datatype AccountingJournalStatus = JS_PENDING | JS_POSTED | JS_REVERSED
datatype AccountingQuality = Q_FINAL | Q_ESTIMATED | Q_NEEDS_RECONCILIATION | Q_REVERSED

record JournalLineInput =
  jl_accountCode :: string
  jl_debitRial :: int
  jl_creditRial :: int

record JournalLine = JournalLineInput +
  jl_sortOrder :: nat

record JournalEntry =
  je_id :: string
  je_eventType :: string
  je_referenceType :: string
  je_referenceId :: string
  je_idempotencyKey :: string
  je_occurredAt :: int
  je_status :: AccountingJournalStatus
  je_quality :: AccountingQuality
  je_metadata :: jsval
  je_actorUserId :: "string option"
  je_reversesEntryId :: "string option"
  je_lines :: "JournalLine list"

record JournalDb = WalletDb +
  journal :: "JournalEntry list"

record PostJournalEntryInput =
  pj_eventType :: string
  pj_referenceType :: string
  pj_referenceId :: string
  pj_idempotencyKey :: string
  pj_occurredAt :: int
  pj_lines :: "JournalLineInput list"
  pj_quality :: "AccountingQuality option"
  pj_metadata :: jsval
  pj_actorUserId :: "string option"
  pj_reversesEntryId :: "string option"

record ReverseJournalEntryInput =
  rj_journalEntryId :: string
  rj_idempotencyKey :: string
  rj_actorUserId :: "string option"
  rj_reason :: "string option"

definition findJournalKey :: "string \<Rightarrow> 'a JournalDb_scheme \<Rightarrow> JournalEntry option" where
  "findJournalKey key db = findRow (\<lambda>e. je_idempotencyKey e = key) (journal db)"

definition findJournalId :: "string \<Rightarrow> 'a JournalDb_scheme \<Rightarrow> JournalEntry option" where
  "findJournalId eid db = findRow (\<lambda>e. je_id e = eid) (journal db)"

definition reversedByEntry :: "string \<Rightarrow> 'a JournalDb_scheme \<Rightarrow> JournalEntry option" where
  "reversedByEntry eid db = findRow (\<lambda>e. je_reversesEntryId e = Some eid) (journal db)"

section \<open>Posting\<close>

definition IdempotencyConflict :: string where
  "IdempotencyConflict = ''idempotency_conflict''"

text \<open>The checks of one line, in the order of the source.\<close>

definition checkLine :: "JournalLineInput \<Rightarrow> string + unit" where
  "checkLine l =
     bindE (assertAccountCode (jl_accountCode l)) (\<lambda>_.
     if jl_debitRial l < 0 then Inl ''negative_amount''
     else if jl_creditRial l < 0 then Inl ''negative_amount''
     else if jl_debitRial l = 0 \<and> jl_creditRial l = 0 then Inl ''zero_line''
     else if jl_debitRial l > 0 \<and> jl_creditRial l > 0 then Inl ''mixed_line''
     else Inr ())"

definition normalizeLine :: "nat \<times> JournalLineInput \<Rightarrow> JournalLine" where
  "normalizeLine p =
     \<lparr>jl_accountCode = jl_accountCode (snd p), jl_debitRial = jl_debitRial (snd p),
      jl_creditRial = jl_creditRial (snd p), jl_sortOrder = fst p\<rparr>"

definition debitTotal :: "'a JournalLineInput_scheme list \<Rightarrow> int" where
  "debitTotal ls = sum_list (map jl_debitRial ls)"

definition creditTotal :: "'a JournalLineInput_scheme list \<Rightarrow> int" where
  "creditTotal ls = sum_list (map jl_creditRial ls)"

definition validateLines :: "JournalLineInput list \<Rightarrow> string + JournalLine list" where
  "validateLines lines =
     (if lines = [] then Inl ''empty_lines''
      else bindE (mapE checkLine lines) (\<lambda>_.
        if debitTotal lines \<noteq> creditTotal lines then Inl ''unbalanced''
        else if debitTotal lines = 0 then Inl ''zero_entry''
        else Inr (map normalizeLine (enumerate 0 lines))))"

definition bySortOrder :: "JournalLine \<Rightarrow> JournalLine \<Rightarrow> int" where
  "bySortOrder a b = int (jl_sortOrder a) - int (jl_sortOrder b)"

definition sameLine :: "JournalLine \<Rightarrow> JournalLine \<Rightarrow> bool" where
  "sameLine a b \<longleftrightarrow> jl_accountCode a = jl_accountCode b \<and> jl_debitRial a = jl_debitRial b
     \<and> jl_creditRial a = jl_creditRial b"

definition effectiveQuality :: "PostJournalEntryInput \<Rightarrow> AccountingQuality" where
  "effectiveQuality i = (case pj_quality i of None \<Rightarrow> Q_FINAL | Some q \<Rightarrow> q)"

definition assertReplayMatch ::
  "JournalEntry \<Rightarrow> PostJournalEntryInput \<Rightarrow> JournalLine list \<Rightarrow> string + unit" where
  "assertReplayMatch existing i normalized =
     (if je_eventType existing \<noteq> pj_eventType i \<or> je_referenceType existing \<noteq> pj_referenceType i
         \<or> je_referenceId existing \<noteq> pj_referenceId i \<or> je_quality existing \<noteq> effectiveQuality i
      then Inl IdempotencyConflict
      else bindE (stableJson (je_metadata existing)) (\<lambda>a. bindE (stableJson (pj_metadata i)) (\<lambda>b.
        if a \<noteq> b then Inl IdempotencyConflict
        else if length (je_lines existing) \<noteq> length normalized then Inl IdempotencyConflict
        else if \<not> list_all2 sameLine (sortBy bySortOrder (je_lines existing)) normalized
        then Inl IdempotencyConflict else Inr ())))"

definition entryOf :: "string \<Rightarrow> PostJournalEntryInput \<Rightarrow> JournalLine list \<Rightarrow> JournalEntry" where
  "entryOf newId i normalized =
     \<lparr>je_id = newId, je_eventType = pj_eventType i, je_referenceType = pj_referenceType i,
      je_referenceId = pj_referenceId i, je_idempotencyKey = trim (pj_idempotencyKey i),
      je_occurredAt = pj_occurredAt i, je_status = JS_POSTED, je_quality = effectiveQuality i,
      je_metadata = pj_metadata i, je_actorUserId = pj_actorUserId i,
      je_reversesEntryId = pj_reversesEntryId i, je_lines = normalized\<rparr>"

text \<open>A violated unique column makes the code look its key up again; the key is not there, so it throws.\<close>

definition postJournalEntryTx ::
  "string \<Rightarrow> PostJournalEntryInput \<Rightarrow> 'a JournalDb_scheme \<Rightarrow> string + JournalEntry \<times> 'a JournalDb_scheme" where
  "postJournalEntryTx newId i db =
     (let key = trim (pj_idempotencyKey i) in
      if key = [] then Inl ''missing_idempotency_key''
      else bindE (validateLines (pj_lines i)) (\<lambda>normalized.
        case findJournalKey key db of
          Some existing \<Rightarrow> bindE (assertReplayMatch existing i normalized) (\<lambda>_. Inr (existing, db))
        | None \<Rightarrow>
            if findJournalId newId db \<noteq> None
               \<or> (case pj_reversesEntryId i of None \<Rightarrow> False | Some x \<Rightarrow> reversedByEntry x db \<noteq> None)
            then Inl P2025
            else if (case pj_reversesEntryId i of None \<Rightarrow> False | Some x \<Rightarrow> findJournalId x db = None)
            then Inl ''P2003''
            else let e = entryOf newId i normalized in Inr (e, db\<lparr>journal := journal db @ [e]\<rparr>)))"

definition markReversed :: "string \<Rightarrow> 'a JournalDb_scheme \<Rightarrow> 'a JournalDb_scheme" where
  "markReversed eid db =
     db\<lparr>journal := updateRows (\<lambda>e. je_id e = eid)
          (\<lambda>e. e\<lparr>je_status := JS_REVERSED, je_quality := Q_REVERSED\<rparr>) (journal db)\<rparr>"

definition markReversedIfPosted :: "string \<Rightarrow> 'a JournalDb_scheme \<Rightarrow> 'a JournalDb_scheme" where
  "markReversedIfPosted eid db =
     db\<lparr>journal := updateRows (\<lambda>e. je_id e = eid \<and> je_status e = JS_POSTED)
          (\<lambda>e. e\<lparr>je_status := JS_REVERSED, je_quality := Q_REVERSED\<rparr>) (journal db)\<rparr>"

section \<open>Reversal\<close>

definition reversingLine :: "JournalLine \<Rightarrow> JournalLineInput" where
  "reversingLine l =
     \<lparr>jl_accountCode = jl_accountCode l, jl_debitRial = jl_creditRial l, jl_creditRial = jl_debitRial l\<rparr>"

definition reversalInput :: "int \<Rightarrow> ReverseJournalEntryInput \<Rightarrow> string \<Rightarrow> JournalEntry \<Rightarrow> PostJournalEntryInput" where
  "reversalInput now i key original =
     \<lparr>pj_eventType = je_eventType original @ '':reversal'', pj_referenceType = je_referenceType original,
      pj_referenceId = je_referenceId original, pj_idempotencyKey = key, pj_occurredAt = now,
      pj_lines = map reversingLine (sortBy bySortOrder (je_lines original)), pj_quality = Some Q_FINAL,
      pj_metadata = JObj [(''reversesEntryId'', JStr (je_id original)),
        (''reason'', case rj_reason i of None \<Rightarrow> JNull | Some r \<Rightarrow> JStr r),
        (''originalEventType'', JStr (je_eventType original))],
      pj_actorUserId = rj_actorUserId i, pj_reversesEntryId = Some (je_id original)\<rparr>"

definition reverseJournalEntryTx ::
  "string \<Rightarrow> int \<Rightarrow> ReverseJournalEntryInput \<Rightarrow> 'a JournalDb_scheme \<Rightarrow> string + JournalEntry \<times> 'a JournalDb_scheme" where
  "reverseJournalEntryTx newId now i db =
     (let key = trim (rj_idempotencyKey i) in
      if key = [] then Inl ''missing_idempotency_key''
      else case findJournalKey key db of
        Some existing \<Rightarrow>
          (case je_reversesEntryId existing of
             None \<Rightarrow> Inr (existing, db)
           | Some x \<Rightarrow> if x \<noteq> [] \<and> x \<noteq> rj_journalEntryId i then Inl IdempotencyConflict
                       else if x = rj_journalEntryId i then Inr (existing, markReversedIfPosted x db)
                       else Inr (existing, db))
      | None \<Rightarrow>
        (case findJournalId (rj_journalEntryId i) db of
           None \<Rightarrow> Inl ''not_found''
         | Some original \<Rightarrow>
           if je_status original = JS_REVERSED
           then (case reversedByEntry (je_id original) db of
                   Some r \<Rightarrow> Inr (r, db) | None \<Rightarrow> Inl ''already_reversed'')
           else if je_status original \<noteq> JS_POSTED then Inl ''not_posted''
           else bindE (postJournalEntryTx newId (reversalInput now i key original) db) (\<lambda>(reversal, db).
                Inr (reversal, markReversed (je_id original) db))))"

text \<open>Both operations open a transaction of their own or run in the caller's.\<close>

definition postJournalEntry ::
  "string \<Rightarrow> PostJournalEntryInput \<Rightarrow> 'a JournalDb_scheme \<Rightarrow> string + JournalEntry \<times> 'a JournalDb_scheme" where
  "postJournalEntry newId i db = postJournalEntryTx newId i db"

definition reverseJournalEntry ::
  "string \<Rightarrow> int \<Rightarrow> ReverseJournalEntryInput \<Rightarrow> 'a JournalDb_scheme \<Rightarrow> string + JournalEntry \<times> 'a JournalDb_scheme" where
  "reverseJournalEntry newId now i db = reverseJournalEntryTx newId now i db"

section \<open>The invariant\<close>

interpretation line_order: comparator bySortOrder
  by unfold_locales (auto simp: bySortOrder_def)

definition linesOk :: "JournalLine list \<Rightarrow> bool" where
  "linesOk ls \<longleftrightarrow>
     (\<forall>l \<in> set ls. isAccountCode (jl_accountCode l) \<and> 0 \<le> jl_debitRial l \<and> 0 \<le> jl_creditRial l \<and>
        (jl_debitRial l = 0) \<noteq> (jl_creditRial l = 0)) \<and>
     debitTotal ls = creditTotal ls \<and> 0 < debitTotal ls \<and> map jl_sortOrder ls = [0..<length ls]"

text \<open>A line of a reversing entry has the sides of the original line exchanged.\<close>

definition mirrorsLine :: "JournalLine \<Rightarrow> JournalLine \<Rightarrow> bool" where
  "mirrorsLine a b \<longleftrightarrow> jl_accountCode b = jl_accountCode a \<and> jl_debitRial b = jl_creditRial a
     \<and> jl_creditRial b = jl_debitRial a"

definition accountNet :: "string \<Rightarrow> JournalEntry \<Rightarrow> int" where
  "accountNet code e =
     sum_list (map (\<lambda>l. if jl_accountCode l = code then jl_debitRial l - jl_creditRial l else 0) (je_lines e))"

definition journalInv :: "'a JournalDb_scheme \<Rightarrow> bool" where
  "journalInv db \<longleftrightarrow>
     distinct (map je_id (journal db)) \<and> distinct (map je_idempotencyKey (journal db)) \<and>
     (\<forall>e \<in> set (journal db). linesOk (je_lines e) \<and> je_status e \<in> {JS_POSTED, JS_REVERSED} \<and>
        (je_status e = JS_REVERSED \<longrightarrow> je_quality e = Q_REVERSED) \<and>
        (je_status e = JS_REVERSED \<longleftrightarrow> (\<exists>r \<in> set (journal db). je_reversesEntryId r = Some (je_id e)))) \<and>
     (\<forall>r \<in> set (journal db). \<forall>x. je_reversesEntryId r = Some x \<longrightarrow>
        (\<exists>e \<in> set (journal db). je_id e = x \<and> list_all2 mirrorsLine (je_lines e) (je_lines r)) \<and>
        (\<forall>q \<in> set (journal db). je_reversesEntryId q = Some x \<longrightarrow> q = r))"

lemma mapE_unit_Inr: "mapE f xs = Inr us \<Longrightarrow> \<forall>x \<in> set xs. \<exists>u. f x = Inr u"
  by (induction xs arbitrary: us) (auto simp: bindE_eq_Inr)

lemma checkLine_Inr:
  "checkLine l = Inr u \<longleftrightarrow> isAccountCode (jl_accountCode l) \<and> 0 \<le> jl_debitRial l \<and> 0 \<le> jl_creditRial l
    \<and> (jl_debitRial l = 0) \<noteq> (jl_creditRial l = 0)"
  by (auto simp: checkLine_def assertAccountCode_def bindE_def)

lemma normalizeLine_sums:
  "debitTotal (map normalizeLine (enumerate n ls)) = debitTotal ls"
  "creditTotal (map normalizeLine (enumerate n ls)) = creditTotal ls"
  "map jl_sortOrder (map normalizeLine (enumerate n ls)) = [n..<n + length ls]"
proof -
  show "debitTotal (map normalizeLine (enumerate n ls)) = debitTotal ls"
    by (induction ls arbitrary: n) (simp_all add: debitTotal_def normalizeLine_def)
  show "creditTotal (map normalizeLine (enumerate n ls)) = creditTotal ls"
    by (induction ls arbitrary: n) (simp_all add: creditTotal_def normalizeLine_def)
  show "map jl_sortOrder (map normalizeLine (enumerate n ls)) = [n..<n + length ls]"
    by (simp add: o_def normalizeLine_def)
qed

lemma debitTotal_nonneg: "(\<And>l. l \<in> set ls \<Longrightarrow> 0 \<le> jl_debitRial l) \<Longrightarrow> 0 \<le> debitTotal ls"
  unfolding debitTotal_def by (rule sum_list_nonneg) auto

lemma validateLines_Inr:
  assumes "validateLines lines = Inr normalized"
  shows "linesOk normalized" and "normalized = map normalizeLine (enumerate 0 lines)"
proof -
  obtain us where chk: "mapE checkLine lines = Inr us" and n: "normalized = map normalizeLine (enumerate 0 lines)"
    and tot: "debitTotal lines = creditTotal lines" "debitTotal lines \<noteq> 0"
    using assms by (auto simp: validateLines_def bindE_eq_Inr split: if_split_asm)
  have ln: "isAccountCode (jl_accountCode l) \<and> 0 \<le> jl_debitRial l \<and> 0 \<le> jl_creditRial l \<and>
      (jl_debitRial l = 0) \<noteq> (jl_creditRial l = 0)" if "l \<in> set lines" for l
    using mapE_unit_Inr [OF chk] that checkLine_Inr by blast
  then have "0 < debitTotal lines" using debitTotal_nonneg [of lines] tot by force
  moreover have "isAccountCode (jl_accountCode l) \<and> 0 \<le> jl_debitRial l \<and> 0 \<le> jl_creditRial l \<and>
      (jl_debitRial l = 0) \<noteq> (jl_creditRial l = 0)" if "l \<in> set normalized" for l
    using that ln by (auto simp: n normalizeLine_def in_set_enumerate_eq)
  ultimately show "linesOk normalized"
    unfolding linesOk_def using tot normalizeLine_sums [of 0 lines] n by simp
  show "normalized = map normalizeLine (enumerate 0 lines)" by (rule n)
qed

lemma linesOk_sorted:
  assumes "linesOk ls"
  shows "sortBy bySortOrder ls = ls"
proof (rule sortBy_id)
  have "sorted_wrt (<) (map jl_sortOrder ls)" using assms by (simp add: linesOk_def)
  then have "sorted_wrt (\<lambda>x y. jl_sortOrder x < jl_sortOrder y) ls" by (simp add: sorted_wrt_map)
  then show "sorted_wrt (\<lambda>x y. bySortOrder x y \<le> 0) ls"
    by (rule sorted_wrt_mono_rel [rotated]) (simp add: bySortOrder_def)
qed

text \<open>The replay check does not depend on the order in which the lines are read.\<close>

lemma replay_row_order:
  assumes "linesOk (je_lines e)" and "mset ls = mset (je_lines e)"
  shows "assertReplayMatch (e\<lparr>je_lines := ls\<rparr>) i normalized = assertReplayMatch e i normalized"
proof -
  have "inj_on jl_sortOrder (set (je_lines e))"
    using assms(1) unfolding linesOk_def by (metis distinct_map distinct_upt)
  then have "sortBy bySortOrder (je_lines e) = sortBy bySortOrder ls"
    using assms(2) by (intro line_order.sortBy_perm) (auto simp: bySortOrder_def dest: inj_onD)
  moreover have "length ls = length (je_lines e)" using assms(2) by (metis size_mset)
  ultimately show ?thesis by (simp add: assertReplayMatch_def)
qed

lemma findJournalKey_Some: "findJournalKey k db = Some e \<Longrightarrow> e \<in> set (journal db) \<and> je_idempotencyKey e = k"
  unfolding findJournalKey_def by (drule findRow_Some) simp

lemma findJournalId_Some: "findJournalId k db = Some e \<Longrightarrow> e \<in> set (journal db) \<and> je_id e = k"
  unfolding findJournalId_def by (drule findRow_Some) simp

lemma reversedByEntry_Some:
  "reversedByEntry k db = Some e \<Longrightarrow> e \<in> set (journal db) \<and> je_reversesEntryId e = Some k"
  unfolding reversedByEntry_def by (drule findRow_Some) simp

lemma postJournalEntryTx_Inr:
  assumes "postJournalEntryTx newId i db = Inr (e, db')"
  obtains (replay) normalized where "validateLines (pj_lines i) = Inr normalized" and "db' = db"
      and "findJournalKey (trim (pj_idempotencyKey i)) db = Some e" and "assertReplayMatch e i normalized = Inr ()"
    | (create) normalized where "validateLines (pj_lines i) = Inr normalized" and "e = entryOf newId i normalized"
      and "db' = db\<lparr>journal := journal db @ [e]\<rparr>" and "trim (pj_idempotencyKey i) \<noteq> []"
      and "findJournalKey (trim (pj_idempotencyKey i)) db = None" and "findJournalId newId db = None"
      and "\<And>x. pj_reversesEntryId i = Some x \<Longrightarrow> reversedByEntry x db = None \<and> findJournalId x db \<noteq> None"
  using assms by (auto simp: postJournalEntryTx_def Let_def bindE_eq_Inr split: if_split_asm option.split_asm)

lemma entryOf_simps [simp]:
  "je_id (entryOf n i ls) = n" "je_lines (entryOf n i ls) = ls" "je_status (entryOf n i ls) = JS_POSTED"
  "je_idempotencyKey (entryOf n i ls) = trim (pj_idempotencyKey i)"
  "je_reversesEntryId (entryOf n i ls) = pj_reversesEntryId i"
  by (simp_all add: entryOf_def)

lemma post_preserves_inv:
  assumes inv: "journalInv db" and run: "postJournalEntryTx newId i db = Inr (e, db')"
    and plain: "pj_reversesEntryId i = None"
  shows "journalInv db'"
  using run
proof (cases rule: postJournalEntryTx_Inr)
  case replay
  then show ?thesis using inv by simp
next
  case (create normalized)
  have L: "journal db' = journal db @ [e]" using create by simp
  have e: "je_id e = newId" "je_reversesEntryId e = None" "je_status e = JS_POSTED" "linesOk (je_lines e)"
    "je_idempotencyKey e = trim (pj_idempotencyKey i)"
    using create plain validateLines_Inr(1) by simp_all
  have fresh: "newId \<notin> je_id ` set (journal db)" "je_idempotencyKey e \<notin> je_idempotencyKey ` set (journal db)"
    using create(5,6) e(5) by (auto simp: findJournalKey_def findJournalId_def findRow_None)
  note i = inv [unfolded journalInv_def]
  have none: "je_reversesEntryId r \<noteq> Some newId" if "r \<in> set (journal db)" for r
    using i that fresh(1) by (metis image_eqI)
  show ?thesis
    unfolding journalInv_def L using i e fresh none by auto
qed

lemma journal_markReversed:
  "journal (markReversed x db) = map (\<lambda>e. if je_id e = x then e\<lparr>je_status := JS_REVERSED, je_quality := Q_REVERSED\<rparr> else e)
     (journal db)"
  by (simp add: markReversed_def updateRows_def)

lemma reversing_mirror:
  assumes "linesOk ls" and "validateLines (map reversingLine (sortBy bySortOrder ls)) = Inr normalized"
  shows "list_all2 mirrorsLine ls normalized"
proof -
  have "list_all2 mirrorsLine xs (map normalizeLine (enumerate n (map reversingLine xs)))" for n xs
    by (induction xs arbitrary: n) (simp_all add: mirrorsLine_def normalizeLine_def reversingLine_def)
  then show ?thesis using validateLines_Inr(2) [OF assms(2)] linesOk_sorted [OF assms(1)] by simp
qed

lemma reverse_create_inv:
  assumes inv: "journalInv db" and o': "findJournalId x db = Some o'" and st: "je_status o' = JS_POSTED"
    and run: "postJournalEntryTx newId (reversalInput now i key o') db = Inr (e, db1)"
    and new: "findJournalKey (trim key) db = None"
  shows "journalInv (markReversed (je_id o') db1)"
  using run
proof (cases rule: postJournalEntryTx_Inr)
  case replay
  then show ?thesis using new by (simp add: reversalInput_def)
next
  case (create normalized)
  note inv' = inv [unfolded journalInv_def]
  have mem: "o' \<in> set (journal db)" using findJournalId_Some [OF o'] by simp
  have lo: "linesOk (je_lines o')" using inv' mem by blast
  have mir: "list_all2 mirrorsLine (je_lines o') normalized"
    using reversing_mirror [OF lo] create(1) by (simp add: reversalInput_def)
  have e: "je_id e = newId" "je_reversesEntryId e = Some (je_id o')" "je_status e = JS_POSTED" "linesOk (je_lines e)"
    "je_lines e = normalized" "je_idempotencyKey e = trim key"
    using create validateLines_Inr(1) by (simp_all add: reversalInput_def)
  have fresh: "newId \<notin> je_id ` set (journal db)" "je_idempotencyKey e \<notin> je_idempotencyKey ` set (journal db)"
    using create(5,6) e(6) by (auto simp: findJournalKey_def findJournalId_def findRow_None reversalInput_def)
  then have ne: "newId \<noteq> je_id o'" using mem by blast
  have none: "je_reversesEntryId r \<noteq> Some newId" "je_reversesEntryId r \<noteq> Some (je_id o')" if "r \<in> set (journal db)" for r
    using inv' that fresh(1) create(7) by (metis image_eqI)
      (use that create(7) in \<open>auto simp: reversedByEntry_def findRow_None reversalInput_def\<close>)
  let ?f = "\<lambda>e. if je_id e = je_id o' then e\<lparr>je_status := JS_REVERSED, je_quality := Q_REVERSED\<rparr> else e"
  have L: "journal (markReversed (je_id o') db1) = map ?f (journal db) @ [e]"
    using create(3) e(1) ne by (simp add: journal_markReversed)
  have uniq: "y = o'" if "y \<in> set (journal db)" "je_id y = je_id o'" for y
    using inv' mem that by (metis distinct_map inj_onD)
  have keys: "map je_id (map ?f es) = map je_id es" "map je_idempotencyKey (map ?f es) = map je_idempotencyKey es" for es
    by (simp_all)
  have fs: "je_id (?f y) = je_id y" "je_lines (?f y) = je_lines y" "je_reversesEntryId (?f y) = je_reversesEntryId y"
    "je_idempotencyKey (?f y) = je_idempotencyKey y" for y by simp_all
  have mem': "y \<in> set (journal (markReversed (je_id o') db1)) \<longleftrightarrow> y = e \<or> (\<exists>z \<in> set (journal db). y = ?f z)" for y
    unfolding L by auto
  have rows: "linesOk (je_lines y) \<and> je_status y \<in> {JS_POSTED, JS_REVERSED} \<and>
      (je_status y = JS_REVERSED \<longrightarrow> je_quality y = Q_REVERSED) \<and>
      (je_status y = JS_REVERSED \<longleftrightarrow>
        (\<exists>r \<in> set (journal (markReversed (je_id o') db1)). je_reversesEntryId r = Some (je_id y)))"
    if y: "y \<in> set (journal (markReversed (je_id o') db1))" for y
  proof -
    have refs: "(\<exists>r \<in> set (journal (markReversed (je_id o') db1)). je_reversesEntryId r = Some k) \<longleftrightarrow>
        k = je_id o' \<or> (\<exists>r \<in> set (journal db). je_reversesEntryId r = Some k)" for k
      unfolding L set_append set_map bex_Un bex_simps fs(3) using e(2) by auto
    show ?thesis
    proof (cases "y = e")
      case True
      then show ?thesis unfolding refs using e ne none(1) by auto
    next
      case False
      then obtain z where z: "z \<in> set (journal db)" "y = ?f z" using y mem' by blast
      then show ?thesis unfolding refs using inv' uniq [OF z(1)] mem by (cases "je_id z = je_id o'") auto
    qed
  qed
  have revs: "(\<exists>y \<in> set (journal (markReversed (je_id o') db1)). je_id y = k \<and> list_all2 mirrorsLine (je_lines y) (je_lines r))
      \<and> (\<forall>q \<in> set (journal (markReversed (je_id o') db1)). je_reversesEntryId q = Some k \<longrightarrow> q = r)"
    if r: "r \<in> set (journal (markReversed (je_id o') db1))" "je_reversesEntryId r = Some k" for r k
  proof (cases "r = e")
    case True
    then have k: "k = je_id o'" using r(2) e(2) by simp
    have "q = e" if q: "q \<in> set (journal (markReversed (je_id o') db1))" "je_reversesEntryId q = Some k" for q
    proof (rule ccontr)
      assume "q \<noteq> e"
      then obtain z where "z \<in> set (journal db)" "q = ?f z" using q(1) mem' by blast
      then show False using q(2) k none(2) fs(3) by metis
    qed
    moreover have "?f o' \<in> set (journal (markReversed (je_id o') db1))" using mem mem' by blast
    moreover have "je_id (?f o') = k" "list_all2 mirrorsLine (je_lines (?f o')) (je_lines r)"
      using k mir e(5) True by simp_all
    ultimately show ?thesis using True by blast
  next
    case False
    then obtain z where z: "z \<in> set (journal db)" "r = ?f z" using r mem' by blast
    have rz: "je_reversesEntryId z = Some k" using r(2) z(2) fs(3) by metis
    then have k: "k \<noteq> je_id o'" using none(2) [OF z(1)] by auto
    obtain y where y: "y \<in> set (journal db)" "je_id y = k" "list_all2 mirrorsLine (je_lines y) (je_lines z)"
      using inv' z(1) rz by blast
    have "q = r" if q: "q \<in> set (journal (markReversed (je_id o') db1))" "je_reversesEntryId q = Some k" for q
    proof -
      have "q \<noteq> e" using q(2) e(2) k by auto
      then obtain w where w: "w \<in> set (journal db)" "q = ?f w" using q(1) mem' by blast
      have "je_reversesEntryId w = Some k" using q(2) w(2) fs(3) by metis
      then have "w = z" using inv' z(1) rz w(1) by blast
      then show ?thesis using w(2) z(2) by simp
    qed
    moreover have "?f y \<in> set (journal (markReversed (je_id o') db1))" using y(1) mem' by blast
    moreover have "je_id (?f y) = k" "list_all2 mirrorsLine (je_lines (?f y)) (je_lines r)"
      using y fs(1,2) z(2) by simp_all
    ultimately show ?thesis by blast
  qed
  have "distinct (map je_id (journal (markReversed (je_id o') db1)))"
    "distinct (map je_idempotencyKey (journal (markReversed (je_id o') db1)))"
    unfolding L map_append keys using inv' fresh e(1) by simp_all
  then show ?thesis unfolding journalInv_def using rows revs by blast
qed

lemma trim_trim [simp]: "trim (trim s) = trim s"
proof -
  have stop: "dropWhile isSpace xs = xs" if "xs = [] \<or> \<not> isSpace (hd xs)" for xs
    using that by (cases xs) auto
  have hd_ok: "dropWhile isSpace xs = [] \<or> \<not> isSpace (hd (dropWhile isSpace xs))" for xs
    by (metis hd_dropWhile)
  define a where "a = dropWhile isSpace s"
  define b where "b = dropWhile isSpace (rev a)"
  have "\<exists>ps. rev a = ps @ b" unfolding b_def by (metis takeWhile_dropWhile_id)
  then obtain ps where "a = rev b @ rev ps" by (metis rev_append rev_rev_ident)
  then have "dropWhile isSpace (rev b) = rev b"
    using hd_ok [of s] by (intro stop) (cases "rev b"; auto simp: a_def [symmetric])
  then have "dropWhile isSpace (rev (dropWhile isSpace (rev b))) = b" using hd_ok [of "rev a"] stop by (simp add: b_def)
  then show ?thesis by (simp add: trim_def a_def [symmetric] b_def [symmetric])
qed

lemma markReversedIfPosted_id:
  assumes "\<And>e. e \<in> set (journal db) \<Longrightarrow> je_id e = x \<Longrightarrow> je_status e \<noteq> JS_POSTED"
  shows "markReversedIfPosted x db = db"
proof -
  have "updateRows (\<lambda>e. je_id e = x \<and> je_status e = JS_POSTED) f (journal db) = journal db" for f
    unfolding updateRows_def by (rule map_idI) (use assms in auto)
  then show ?thesis by (simp add: markReversedIfPosted_def)
qed

lemma reversed_original:
  assumes "journalInv db" and "r \<in> set (journal db)" and "je_reversesEntryId r = Some x"
    and "e \<in> set (journal db)" and "je_id e = x"
  shows "je_status e = JS_REVERSED"
  using assms unfolding journalInv_def by blast

text \<open>What a reversal does: nothing, or it posts the mirrored entry and marks the original.\<close>

lemma reverseJournalEntryTx_Inr:
  assumes "journalInv db" and "reverseJournalEntryTx newId now i db = Inr (e, db')"
  obtains (known) "db' = db" and "findJournalKey (trim (rj_idempotencyKey i)) db = Some e"
      and "je_reversesEntryId e = None \<or> je_reversesEntryId e = Some [] \<or> je_reversesEntryId e = Some (rj_journalEntryId i)"
    | (reversed) o' where "db' = db" and "findJournalKey (trim (rj_idempotencyKey i)) db = None"
      and "findJournalId (rj_journalEntryId i) db = Some o'" and "je_status o' = JS_REVERSED"
      and "reversedByEntry (je_id o') db = Some e"
    | (create) o' db1 where "findJournalKey (trim (rj_idempotencyKey i)) db = None"
      and "findJournalId (rj_journalEntryId i) db = Some o'" and "je_status o' = JS_POSTED"
      and "postJournalEntryTx newId (reversalInput now i (trim (rj_idempotencyKey i)) o') db = Inr (e, db1)"
      and "db' = markReversed (je_id o') db1"
proof (cases "findJournalKey (trim (rj_idempotencyKey i)) db")
  case (Some x)
  have id: "markReversedIfPosted y db = db" if "je_reversesEntryId x = Some y" for y
    using reversed_original [OF assms(1) _ that] findJournalKey_Some [OF Some]
    by (intro markReversedIfPosted_id) auto
  show thesis
  proof (cases "je_reversesEntryId x")
    case None
    then show thesis using known assms(2) Some by (auto simp: reverseJournalEntryTx_def Let_def split: if_split_asm)
  next
    case y: (Some y)
    then show thesis using known assms(2) Some id [OF y]
      by (auto simp: reverseJournalEntryTx_def Let_def split: if_split_asm)
  qed
next
  case None
  then show thesis using assms(2) reversed create
    by (auto simp: reverseJournalEntryTx_def Let_def bindE_eq_Inr split: if_split_asm option.split_asm)
qed

lemma reverse_preserves_inv:
  assumes "journalInv db" and "reverseJournalEntryTx newId now i db = Inr (e, db')"
  shows "journalInv db'"
  using assms
proof (cases rule: reverseJournalEntryTx_Inr)
  case (create o' db1)
  then show ?thesis using reverse_create_inv [OF assms(1) create(2,3,4)] by simp
qed (use assms(1) in simp_all)

section \<open>Reachable journals\<close>

text \<open>Callers post entries that reverse nothing; reversals come from \<open>reverseJournalEntry\<close> alone.\<close>

inductive journalReach :: "JournalDb \<Rightarrow> bool" where
  initial: "journalReach \<lparr>wallets = [], ledger = [], journal = []\<rparr>"
| post: "journalReach db \<Longrightarrow> pj_reversesEntryId i = None \<Longrightarrow> postJournalEntry newId i db = Inr (e, db') \<Longrightarrow>
    journalReach db'"
| reverse: "journalReach db \<Longrightarrow> reverseJournalEntry newId now j db = Inr (e, db') \<Longrightarrow> journalReach db'"

lemma journalReach_inv: "journalReach db \<Longrightarrow> journalInv db"
proof (induction rule: journalReach.induct)
  case initial
  then show ?case by (simp add: journalInv_def)
next
  case (post db i newId e db')
  then show ?case using post_preserves_inv by (auto simp: postJournalEntry_def)
next
  case (reverse db newId now j e db')
  then show ?case using reverse_preserves_inv by (auto simp: reverseJournalEntry_def)
qed

section \<open>The trial balance\<close>

definition trialBalance :: "'a JournalDb_scheme \<Rightarrow> string \<Rightarrow> int" where
  "trialBalance db code = sum_list (map (accountNet code) (journal db))"

lemma sum_over_accounts:
  assumes "distinct codes" and "c \<in> set codes"
  shows "sum_list (map (\<lambda>x. if c = x then (v::int) else 0) codes) = v"
proof -
  have none: "sum_list (map (\<lambda>x. if c = x then v else 0) xs) = 0" if "c \<notin> set xs" for xs
    using that by (induction xs) auto
  show ?thesis using assms by (induction codes) (auto simp: none)
qed

lemma accounts_distinct: "distinct ACCOUNT_CODES"
  by code_simp

lemma entry_nets_to_zero:
  assumes "linesOk (je_lines e)"
  shows "sum_list (map (\<lambda>code. accountNet code e) ACCOUNT_CODES) = 0"
proof -
  have "sum_list (map (\<lambda>code. sum_list (map (\<lambda>l. if jl_accountCode l = code then jl_debitRial l - jl_creditRial l else 0) ls))
      ACCOUNT_CODES) = debitTotal ls - creditTotal ls"
    if "\<forall>l \<in> set ls. isAccountCode (jl_accountCode l)" for ls
    using that
  proof (induction ls)
    case Nil
    then show ?case by (simp add: debitTotal_def creditTotal_def)
  next
    case (Cons l ls)
    then show ?case
      by (simp add: sum_list_addf debitTotal_def creditTotal_def isAccountCode_def
          sum_over_accounts [OF accounts_distinct])
  qed
  note this [of "je_lines e"]
  moreover have "\<forall>l \<in> set (je_lines e). isAccountCode (jl_accountCode l)" "debitTotal (je_lines e) = creditTotal (je_lines e)"
    using assms unfolding linesOk_def by blast+
  ultimately show ?thesis unfolding accountNet_def by simp
qed

lemma mirrored_net:
  assumes "list_all2 mirrorsLine (je_lines e) (je_lines r)"
  shows "accountNet code r = - accountNet code e"
proof -
  have "sum_list (map (\<lambda>l. if jl_accountCode l = code then jl_debitRial l - jl_creditRial l else 0) ys) =
      - sum_list (map (\<lambda>l. if jl_accountCode l = code then jl_debitRial l - jl_creditRial l else 0) xs)"
    if "list_all2 mirrorsLine xs ys" for xs ys
    using that by (induction rule: list_all2_induct) (auto simp: mirrorsLine_def)
  then show ?thesis using assms by (simp add: accountNet_def)
qed

section \<open>Properties\<close>

text \<open>C37: the books always balance. After any sequence of postings and reversals, every entry has lines on
  known accounts, each on one side only, with equal positive debit and credit totals; so the trial balance
  over the chart of accounts is zero, and no idempotency key was posted twice.\<close>

theorem journal_always_balances:
  assumes "journalReach db"
  shows "sum_list (map (trialBalance db) ACCOUNT_CODES) = 0
    \<and> distinct (map je_idempotencyKey (journal db))
    \<and> (\<forall>e \<in> set (journal db). debitTotal (je_lines e) = creditTotal (je_lines e) \<and> 0 < debitTotal (je_lines e)
        \<and> (\<forall>l \<in> set (je_lines e). isAccountCode (jl_accountCode l)
             \<and> (jl_debitRial l = 0 \<and> 0 < jl_creditRial l \<or> 0 < jl_debitRial l \<and> jl_creditRial l = 0)))"
proof -
  note inv = journalReach_inv [OF assms, unfolded journalInv_def]
  have "sum_list (map (\<lambda>code. sum_list (map (accountNet code) es)) ACCOUNT_CODES) = 0"
    if "\<forall>e \<in> set es. linesOk (je_lines e)" for es
    using that by (induction es) (simp_all add: sum_list_addf entry_nets_to_zero)
  then have "sum_list (map (trialBalance db) ACCOUNT_CODES) = 0"
    using inv by (simp add: trialBalance_def [abs_def])
  moreover have "debitTotal (je_lines e) = creditTotal (je_lines e) \<and> 0 < debitTotal (je_lines e)
        \<and> (\<forall>l \<in> set (je_lines e). isAccountCode (jl_accountCode l)
             \<and> (jl_debitRial l = 0 \<and> 0 < jl_creditRial l \<or> 0 < jl_debitRial l \<and> jl_creditRial l = 0))"
    if "e \<in> set (journal db)" for e
  proof -
    have ok: "linesOk (je_lines e)" using inv that by blast
    have "jl_debitRial l = 0 \<and> 0 < jl_creditRial l \<or> 0 < jl_debitRial l \<and> jl_creditRial l = 0"
      if "l \<in> set (je_lines e)" for l
    proof -
      have "0 \<le> jl_debitRial l" "0 \<le> jl_creditRial l" "(jl_debitRial l = 0) \<noteq> (jl_creditRial l = 0)"
        using ok that unfolding linesOk_def by blast+
      then show ?thesis by auto
    qed
    then show ?thesis using ok unfolding linesOk_def by blast
  qed
  ultimately show ?thesis using inv by blast
qed

text \<open>A reversed entry is undone exactly once. In every reachable journal an entry is marked reversed
  exactly when some entry reverses it, there is only one such entry, and on every account the two cancel.\<close>

theorem reversed_entries_cancel:
  assumes "journalReach db" and "e \<in> set (journal db)"
  shows "(je_status e = JS_REVERSED \<longleftrightarrow>
      (\<exists>!r. r \<in> set (journal db) \<and> je_reversesEntryId r = Some (je_id e)))
    \<and> (\<forall>r \<in> set (journal db). je_reversesEntryId r = Some (je_id e) \<longrightarrow>
        (\<forall>code. accountNet code e + accountNet code r = 0))"
proof (intro conjI ballI impI allI)
  note inv = journalReach_inv [OF assms(1), unfolded journalInv_def]
  show "je_status e = JS_REVERSED \<longleftrightarrow> (\<exists>!r. r \<in> set (journal db) \<and> je_reversesEntryId r = Some (je_id e))"
    using inv assms(2) by blast
  fix r code
  assume r: "r \<in> set (journal db)" "je_reversesEntryId r = Some (je_id e)"
  then obtain o' where o': "o' \<in> set (journal db)" "je_id o' = je_id e" "list_all2 mirrorsLine (je_lines o') (je_lines r)"
    using inv by blast
  have "inj_on je_id (set (journal db))" using inv by (simp add: distinct_map)
  then have "o' = e" using o'(1,2) assms(2) by (simp add: inj_onD)
  then show "accountNet code e + accountNet code r = 0" using mirrored_net [OF o'(3)] by simp
qed

section \<open>Repetition\<close>

definition postedAs :: "string \<times> PostJournalEntryInput \<Rightarrow> 'a JournalDb_scheme \<Rightarrow> JournalEntry option" where
  "postedAs p db =
     (let i = snd p; key = trim (pj_idempotencyKey i) in
      if key = [] then None
      else case (validateLines (pj_lines i), findJournalKey key db) of
        (Inr normalized, Some e) \<Rightarrow> if assertReplayMatch e i normalized = Inr () then Some e else None
      | _ \<Rightarrow> None)"

lemma findJournalKey_append:
  "findJournalKey k db = Some e \<Longrightarrow> findJournalKey k (db\<lparr>journal := journal db @ es\<rparr>) = Some e"
  by (simp add: findJournalKey_def findRow_append)

lemma findJournalKey_last:
  "findJournalKey (je_idempotencyKey e) db = None \<Longrightarrow>
    findJournalKey (je_idempotencyKey e) (db\<lparr>journal := journal db @ [e]\<rparr>) = Some e"
  by (simp add: findJournalKey_def findRow_append)

lemma sameLine_refl: "list_all2 sameLine ls ls"
  by (induction ls) (simp_all add: sameLine_def)

lemma entryOf_replays:
  assumes "validateLines (pj_lines i) = Inr normalized" and "isOk (stableJson (pj_metadata i))"
  shows "assertReplayMatch (entryOf n i normalized) i normalized = Inr ()"
proof -
  have "sortBy bySortOrder normalized = normalized"
    using linesOk_sorted validateLines_Inr(1) [OF assms(1)] by blast
  then show ?thesis using assms(2)
    by (auto simp: assertReplayMatch_def entryOf_def isOk_iff sameLine_refl)
qed

lemma post_postedAs:
  "postJournalEntry n i db = Inr (e, db') \<longleftrightarrow>
    (case postedAs (n, i) db of Some x \<Rightarrow> e = x \<and> db' = db
     | None \<Rightarrow> postJournalEntry n i db = Inr (e, db'))"
  by (auto simp: postedAs_def postJournalEntry_def postJournalEntryTx_def Let_def
      split: option.split sum.split if_split)

interpretation journal_post: idempotent_op "\<lambda>_. True" "\<lambda>p. postJournalEntry (fst p) (snd p)"
  "\<lambda>p. isOk (stableJson (pj_metadata (snd p)))" postedAs
proof (unfold_locales, goal_cases)
  case 1
  show ?case by simp
next
  case (2 db p e db')
  obtain n i where p: "p = (n, i)" by (cases p)
  from 2(3) have run: "postJournalEntryTx n i db = Inr (e, db')" by (simp add: p postJournalEntry_def)
  then show ?case
  proof (cases rule: postJournalEntryTx_Inr)
    case (replay normalized)
    then show ?thesis using run by (auto simp: p postedAs_def postJournalEntryTx_def Let_def split: if_split_asm)
  next
    case (create normalized)
    have "findJournalKey (trim (pj_idempotencyKey i)) db' = Some e"
      using findJournalKey_last [of e db] create(2,3,5) by simp
    then show ?thesis using create(1,2,4) entryOf_replays [OF create(1)] 2(2) by (simp add: p postedAs_def)
  qed
next
  case (3 db p r j s db')
  from 3(4) have "postJournalEntryTx (fst j) (snd j) db = Inr (s, db')" by (simp add: postJournalEntry_def)
  then show ?case
  proof (cases rule: postJournalEntryTx_Inr)
    case (create normalized)
    then show ?thesis using 3(3) findJournalKey_append [where es = "[s]" and db = db]
      by (auto simp: postedAs_def Let_def split: if_split_asm sum.split_asm option.split_asm)
  qed (use 3(3) in simp)
next
  case (4 db p r)
  then show ?case by (simp add: post_postedAs)
qed

text \<open>A posting happens at most once. Once a posting with an idempotency key has succeeded, the same
  posting after any number of further postings, with whatever generated id, returns the very same entry and
  leaves the journal as it is.\<close>

theorem journal_post_at_most_once:
  assumes "postJournalEntry n i db = Inr (e, db1)" and "isOk (stableJson (pj_metadata i))"
  shows "postJournalEntry n2 i (foldl journal_post.step db1 ps) = Inr (e, foldl journal_post.step db1 ps)"
proof -
  have "postedAs (n, i) db1 = Some e"
    by (rule journal_post.recorded) (use assms in simp_all)
  then have "postedAs (n, i) (foldl journal_post.step db1 ps) = Some e"
    by (intro journal_post.foldl_step_stable) (use assms(2) in simp_all)
  then have "postedAs (n2, i) (foldl journal_post.step db1 ps) = Some e" by (simp add: postedAs_def)
  then show ?thesis by (simp add: post_postedAs)
qed

text \<open>Reversing is idempotent. A reversal that has succeeded, repeated with the same key, returns the same
  reversing entry and changes nothing.\<close>

theorem reversal_repeats_harmlessly:
  assumes "journalInv db" and "reverseJournalEntry n now i db = Inr (e, db1)"
  shows "reverseJournalEntry n2 now2 i db1 = Inr (e, db1)"
proof -
  have inv1: "journalInv db1" using reverse_preserves_inv assms by (auto simp: reverseJournalEntry_def)
  have key: "trim (rj_idempotencyKey i) \<noteq> []"
    using assms(2) by (auto simp: reverseJournalEntry_def reverseJournalEntryTx_def Let_def)
  from assms(2) have "reverseJournalEntryTx n now i db = Inr (e, db1)" by (simp add: reverseJournalEntry_def)
  with assms(1) show ?thesis
  proof (cases rule: reverseJournalEntryTx_Inr)
    case known
    have "markReversedIfPosted x db = db" if "je_reversesEntryId e = Some x" for x
      using reversed_original [OF assms(1) _ that] findJournalKey_Some [OF known(2)]
      by (intro markReversedIfPosted_id) auto
    then show ?thesis using known key by (auto simp: reverseJournalEntry_def reverseJournalEntryTx_def)
  next
    case (reversed o')
    then show ?thesis using key by (simp add: reverseJournalEntry_def reverseJournalEntryTx_def)
  next
    case (create o' db2)
    note c = create
    from create(4) show ?thesis
    proof (cases rule: postJournalEntryTx_Inr)
      case replay
      then show ?thesis using c(1) by (simp add: reversalInput_def)
    next
      case (create normalized)
      have e: "je_id e = n" "je_reversesEntryId e = Some (je_id o')" "je_idempotencyKey e = trim (rj_idempotencyKey i)"
        using create(2) by (simp_all add: reversalInput_def)
      have ne: "n \<noteq> je_id o'" using create(6) findJournalId_Some [OF c(2)]
        by (auto simp: findJournalId_def findRow_None)
      have L: "journal db1 = map (\<lambda>e. if je_id e = je_id o' then e\<lparr>je_status := JS_REVERSED, je_quality := Q_REVERSED\<rparr> else e)
          (journal db) @ [e]"
        using create(3) c(5) e(1) ne by (simp add: journal_markReversed)
      have "findJournalKey (trim (rj_idempotencyKey i)) db1 = Some e"
      proof -
        have "findRow (\<lambda>x. je_idempotencyKey x = trim (rj_idempotencyKey i))
          (map (\<lambda>e. if je_id e = je_id o' then e\<lparr>je_status := JS_REVERSED, je_quality := Q_REVERSED\<rparr> else e)
            (journal db)) = None"
          using c(1) unfolding findJournalKey_def findRow_None by auto
        then show ?thesis unfolding findJournalKey_def L findRow_append using e(3) by simp
      qed
      moreover have "je_id o' = rj_journalEntryId i" using findJournalId_Some [OF c(2)] by simp
      moreover have "markReversedIfPosted (je_id o') db1 = db1"
      proof (rule markReversedIfPosted_id)
        fix y assume y: "y \<in> set (journal db1)" "je_id y = je_id o'"
        have "je_status y = JS_REVERSED" by (rule reversed_original [OF inv1 _ e(2) y]) (simp add: L)
        then show "je_status y \<noteq> JS_POSTED" by simp
      qed
      ultimately show ?thesis using key e(2) by (auto simp: reverseJournalEntry_def reverseJournalEntryTx_def)
    qed
  qed
qed

text \<open>The quality of an entry is part of what a replay compares, and a reversal changes it: an entry that was
  reversed can no longer be replayed.\<close>

lemma repost_reversed_conflicts:
  assumes "findJournalKey (trim (pj_idempotencyKey i)) db = Some e" and "je_quality e = Q_REVERSED"
    and "effectiveQuality i \<noteq> Q_REVERSED" and "trim (pj_idempotencyKey i) \<noteq> []" and "isOk (validateLines (pj_lines i))"
  shows "postJournalEntry n i db = Inl IdempotencyConflict"
  using assms by (auto simp: postJournalEntry_def postJournalEntryTx_def assertReplayMatch_def isOk_iff)

section \<open>A concrete journal\<close>

definition sample_posting :: PostJournalEntryInput where
  "sample_posting =
     \<lparr>pj_eventType = ''t'', pj_referenceType = ''wallet_topup'', pj_referenceId = ''t1'',
      pj_idempotencyKey = ''k1'', pj_occurredAt = 5,
      pj_lines = [\<lparr>jl_accountCode = ''CASH_GATEWAY'', jl_debitRial = 100, jl_creditRial = 0\<rparr>,
        \<lparr>jl_accountCode = ''CUSTOMER_WALLET_LIABILITY'', jl_debitRial = 0, jl_creditRial = 100\<rparr>],
      pj_quality = None, pj_metadata = JObj [(''amountRial'', JStr ''100'')], pj_actorUserId = None,
      pj_reversesEntryId = None\<rparr>"

definition sample_undo :: ReverseJournalEntryInput where
  "sample_undo = \<lparr>rj_journalEntryId = ''j1'', rj_idempotencyKey = ''k2'', rj_actorUserId = None, rj_reason = None\<rparr>"

definition emptyJournalDb :: JournalDb where
  "emptyJournalDb = \<lparr>wallets = [], ledger = [], journal = []\<rparr>"

definition sample_journal :: JournalDb where
  "sample_journal = (case postJournalEntry ''j1'' sample_posting emptyJournalDb of Inr (_, db) \<Rightarrow> db)"

definition sample_journal2 :: JournalDb where
  "sample_journal2 = (case reverseJournalEntry ''j2'' 9 sample_undo sample_journal of Inr (_, db) \<Rightarrow> db)"

lemma sample_journal_runs:
  "\<exists>e. postJournalEntry ''j1'' sample_posting emptyJournalDb = Inr (e, sample_journal)"
  "\<exists>r. reverseJournalEntry ''j2'' 9 sample_undo sample_journal = Inr (r, sample_journal2)"
proof -
  have "isOk (postJournalEntry ''j1'' sample_posting emptyJournalDb)" by code_simp
  then show "\<exists>e. postJournalEntry ''j1'' sample_posting emptyJournalDb = Inr (e, sample_journal)"
    by (auto simp: isOk_iff sample_journal_def)
  have "isOk (reverseJournalEntry ''j2'' 9 sample_undo sample_journal)" by code_simp
  then show "\<exists>r. reverseJournalEntry ''j2'' 9 sample_undo sample_journal = Inr (r, sample_journal2)"
    by (auto simp: isOk_iff sample_journal2_def)
qed

lemma sample_journal_reach: "journalReach sample_journal" "journalReach sample_journal2"
proof -
  have i: "journalReach emptyJournalDb" unfolding emptyJournalDb_def by (rule journalReach.initial)
  have p: "pj_reversesEntryId sample_posting = None" by (simp add: sample_posting_def)
  show "journalReach sample_journal"
    using sample_journal_runs(1) journalReach.post [OF i p] by blast
  then show "journalReach sample_journal2"
    using sample_journal_runs(2) journalReach.reverse by blast
qed

theorem journal_always_balances_witness:
  "length (journal sample_journal2) = 2 \<and> sum_list (map (trialBalance sample_journal2) ACCOUNT_CODES) = 0"
proof
  show "length (journal sample_journal2) = 2" by code_simp
  show "sum_list (map (trialBalance sample_journal2) ACCOUNT_CODES) = 0"
    using journal_always_balances [OF sample_journal_reach(2)] by blast
qed

theorem reversed_entries_cancel_witness:
  "\<exists>e \<in> set (journal sample_journal2). je_status e = JS_REVERSED \<and>
    (\<exists>!r. r \<in> set (journal sample_journal2) \<and> je_reversesEntryId r = Some (je_id e))"
proof -
  have "list_ex (\<lambda>e. je_status e = JS_REVERSED) (journal sample_journal2)" by code_simp
  then obtain e where "e \<in> set (journal sample_journal2)" "je_status e = JS_REVERSED" by (auto simp: list_ex_iff)
  then show ?thesis using reversed_entries_cancel [OF sample_journal_reach(2)] by blast
qed

theorem journal_post_at_most_once_witness:
  "\<exists>e. postJournalEntry ''j9'' sample_posting (foldl journal_post.step sample_journal
      [(''j5'', sample_posting\<lparr>pj_idempotencyKey := ''k7''\<rparr>)]) =
    Inr (e, foldl journal_post.step sample_journal [(''j5'', sample_posting\<lparr>pj_idempotencyKey := ''k7''\<rparr>)])"
proof -
  obtain e where "postJournalEntry ''j1'' sample_posting emptyJournalDb = Inr (e, sample_journal)"
    using sample_journal_runs(1) by blast
  moreover have "isOk (stableJson (pj_metadata sample_posting))" by code_simp
  ultimately show ?thesis using journal_post_at_most_once by blast
qed

theorem reversal_repeats_harmlessly_witness:
  "\<exists>r. reverseJournalEntry ''j2'' 9 sample_undo sample_journal = Inr (r, sample_journal2) \<and>
    reverseJournalEntry ''j3'' 10 sample_undo sample_journal2 = Inr (r, sample_journal2)"
  using sample_journal_runs(2) reversal_repeats_harmlessly [OF journalReach_inv [OF sample_journal_reach(1)]] by blast

end
