(* ===== verification/Posting.thy ===== *)
theory Posting
  imports Journal CommercialEngine
begin

text \<open>
  What the platform's events post: \<open>src/lib/accounting/posting.ts\<close>. A snapshot (JSON that was stored with an
  order or a renewal quote) is read back into revenue, discount, tax and cost components; what it does not
  account for goes to infrastructure revenue or, when that would be negative, to deferred revenue. The last
  part ties it to the price engine: the snapshot of a quote posts exactly the quote's components.
\<close>

section \<open>Reading snapshots\<close>

definition asRecord :: "jsval \<Rightarrow> (string \<times> jsval) list option" where
  "asRecord v = (case v of JObj es \<Rightarrow> Some es | _ \<Rightarrow> None)"

definition recordGet :: "string \<Rightarrow> (string \<times> jsval) list option \<Rightarrow> jsval" where
  "recordGet k r = (case r of None \<Rightarrow> JUndefined | Some es \<Rightarrow> jsGet k es)"

text \<open>The pattern \<open>/^-?\d+$/\<close> and the value \<open>BigInt\<close> gives it.\<close>

definition isIntText :: "string \<Rightarrow> bool" where
  "isIntText s = (let d = (if s \<noteq> [] \<and> hd s = CHR ''-'' then tl s else s) in d \<noteq> [] \<and> list_all isDigit d)"

definition intTextVal :: "string \<Rightarrow> int" where
  "intTextVal s = (if s \<noteq> [] \<and> hd s = CHR ''-'' then - int (digitsVal (tl s)) else int (digitsVal s))"

definition parseBigInt :: "jsval \<Rightarrow> int option" where
  "parseBigInt v =
     (case v of
        JBig n \<Rightarrow> Some n
      | JInt n \<Rightarrow> Some n
      | JStr s \<Rightarrow> if isIntText (trim s) then Some (intTextVal (trim s)) else None
      | _ \<Rightarrow> None)"

definition parseSnapshotLine :: "jsval \<Rightarrow> (string \<times> int) list" where
  "parseSnapshotLine item =
     (let row = asRecord item in
      case (recordGet ''type'' row, parseBigInt (recordGet ''amountIrr'' row)) of
        (JStr ty, Some amount) \<Rightarrow> [(ty, amount)]
      | _ \<Rightarrow> [])"

definition parseSnapshotLines :: "jsval \<Rightarrow> (string \<times> int) list" where
  "parseSnapshotLines raw = (case raw of JArr items \<Rightarrow> concat (map parseSnapshotLine items) | _ \<Rightarrow> [])"

definition sumByType :: "(string \<times> int) list \<Rightarrow> string \<Rightarrow> int" where
  "sumByType ls ty = foldl (\<lambda>s l. s + snd l) 0 (filter (\<lambda>l. fst l = ty) ls)"

definition absRial :: "int \<Rightarrow> int" where
  "absRial v = (if v < 0 then - v else v)"

text \<open>\<open>a ?? b\<close> on optional amounts.\<close>

definition orNull :: "'a option \<Rightarrow> 'a option \<Rightarrow> 'a option" where
  "orNull a b = (case a of Some x \<Rightarrow> Some x | None \<Rightarrow> b)"

definition orZero :: "int option \<Rightarrow> int" where
  "orZero a = (case a of Some x \<Rightarrow> x | None \<Rightarrow> 0)"

section \<open>Orders\<close>

record RecommendationQuote =
  qs_lineItemsSnapshot :: jsval
  qs_providerBasePriceRialSnapshot :: "int option"
  qs_providerMonthlyPriceIrr :: "int option"
  qs_taxAmountIrr :: "int option"
  qs_parchinPriceIrr :: "int option"
  qs_termMonths :: "int option"

record ServiceOrder =
  so_id :: string
  so_amount :: int
  so_planSnapshot :: jsval
  so_recommendationQuote :: "RecommendationQuote option"
  so_termMonths :: "int option"
  so_paidAt :: "int option"
  so_createdAt :: int
  so_provider :: "string option"
  so_productKind :: "string option"
  so_parchinLevel :: "string option"

record PurchaseSnapshot =
  ps_infrastructureRevenue :: int
  ps_parchinRevenue :: int
  ps_addonRevenue :: int
  ps_termDiscount :: int
  ps_couponDiscount :: int
  ps_taxPayable :: int
  ps_providerInfrastructureCogs :: "int option"
  ps_providerAddonCogs :: "int option"
  ps_hasProviderCost :: bool
  ps_termMonths :: int

definition quoteField :: "(RecommendationQuote \<Rightarrow> 'a option) \<Rightarrow> ServiceOrder \<Rightarrow> 'a option" where
  "quoteField f order = (case so_recommendationQuote order of None \<Rightarrow> None | Some q \<Rightarrow> f q)"

text \<open>A term in the plan snapshot counts when it is a number; \<open>BigInt\<close> rejects a positive fraction.\<close>

definition planTermMonths :: "jsval \<Rightarrow> string + int" where
  "planTermMonths v =
     (case v of
        JInt n \<Rightarrow> Inr n
      | JFrac s \<Rightarrow> if s = ''NaN'' \<or> (s \<noteq> [] \<and> hd s = CHR ''-'') then Inr 1 else Inl ''RangeError''
      | _ \<Rightarrow> Inr 1)"

text \<open>The components of a purchase, from the snapshot's lines and, where they are silent, from the amounts
  stored beside them.\<close>

definition purchaseSnapshot ::
  "ServiceOrder \<Rightarrow> (string \<times> jsval) list option \<Rightarrow> (string \<times> int) list \<Rightarrow> int \<Rightarrow> PurchaseSnapshot" where
  "purchaseSnapshot order plan ls months =
     (let providerFromLines = sumByType ls ''PROVIDER_INFRASTRUCTURE'';
          markupFromLines = sumByType ls ''INFRASTRUCTURE_MARKUP'';
          parchinFromLines = sumByType ls ''PARCHIN'';
          addonFromLines = sumByType ls ''PROVIDER_ADDON'';
          taxFromLines = sumByType ls ''TAX'';
          providerMonthly =
            orNull (parseBigInt (recordGet ''providerBasePriceRialSnapshot'' plan))
              (orNull (parseBigInt (recordGet ''estimatedProviderCostRial'' plan))
                (orNull (quoteField qs_providerBasePriceRialSnapshot order)
                  (quoteField qs_providerMonthlyPriceIrr order)));
          markupMonthly = parseBigInt (recordGet ''markupAmountRialSnapshot'' plan);
          safeTermMonths = (if months > 0 then months else 1);
          providerFromSnapshot =
            (if providerFromLines > 0 then Some providerFromLines
             else map_option (\<lambda>p. p * safeTermMonths) providerMonthly);
          markupFromSnapshot =
            (if markupFromLines > 0 then Some markupFromLines
             else map_option (\<lambda>m. m * safeTermMonths) markupMonthly);
          infrastructureRevenue =
            (if orZero providerFromSnapshot + orZero markupFromSnapshot > 0
             then orZero providerFromSnapshot + orZero markupFromSnapshot
             else providerFromLines + markupFromLines);
          parchinMonthly = orNull (parseBigInt (recordGet ''parchinPriceRialSnapshot'' plan))
                             (quoteField qs_parchinPriceIrr order);
          parchinRevenue =
            (if parchinFromLines > 0 then parchinFromLines
             else case parchinMonthly of Some p \<Rightarrow> p * safeTermMonths | None \<Rightarrow> 0);
          taxPayable =
            (if taxFromLines > 0 then taxFromLines
             else orZero (orNull (parseBigInt (recordGet ''taxAmountRialSnapshot'' plan))
                            (quoteField qs_taxAmountIrr order)));
          hasProviderCost = (case providerFromSnapshot of Some p \<Rightarrow> p > 0 | None \<Rightarrow> False)
      in \<lparr>ps_infrastructureRevenue =
            (if infrastructureRevenue > 0 then infrastructureRevenue
             else providerFromLines + markupFromLines),
          ps_parchinRevenue = (if parchinRevenue > 0 then parchinRevenue else 0),
          ps_addonRevenue = (if addonFromLines > 0 then addonFromLines else 0),
          ps_termDiscount = absRial (sumByType ls ''TERM_DISCOUNT''),
          ps_couponDiscount = absRial (sumByType ls ''COUPON_DISCOUNT''),
          ps_taxPayable = (if taxPayable > 0 then taxPayable else 0),
          ps_providerInfrastructureCogs = (if hasProviderCost then providerFromSnapshot else None),
          ps_providerAddonCogs = (if addonFromLines > 0 then Some addonFromLines else None),
          ps_hasProviderCost = hasProviderCost,
          ps_termMonths = safeTermMonths\<rparr>)"

definition resolveOrderSnapshots :: "ServiceOrder \<Rightarrow> string + PurchaseSnapshot" where
  "resolveOrderSnapshots order =
     (let plan = asRecord (so_planSnapshot order);
          quoteLs = (case so_recommendationQuote order of None \<Rightarrow> []
                     | Some q \<Rightarrow> parseSnapshotLines (qs_lineItemsSnapshot q));
          planLs = parseSnapshotLines (recordGet ''lineItemsSnapshot'' plan);
          ls = (if length quoteLs > 0 then quoteLs else planLs)
      in bindE (case orNull (so_termMonths order) (quoteField qs_termMonths order) of
                  Some n \<Rightarrow> Inr n | None \<Rightarrow> planTermMonths (recordGet ''termMonths'' plan)) (\<lambda>months.
         Inr (purchaseSnapshot order plan ls months)))"

section \<open>Lines\<close>

definition jline :: "string \<Rightarrow> int \<Rightarrow> int \<Rightarrow> JournalLineInput" where
  "jline account debit credit = \<lparr>jl_accountCode = account, jl_debitRial = debit, jl_creditRial = credit\<rparr>"

definition pushLine :: "JournalLineInput list \<Rightarrow> string \<Rightarrow> int \<Rightarrow> int \<Rightarrow> JournalLineInput list" where
  "pushLine ls account debit credit =
     (if debit = 0 \<and> credit = 0 then ls else ls @ [jline account debit credit])"

definition pushCogs :: "JournalLineInput list \<Rightarrow> string \<Rightarrow> int option \<Rightarrow> JournalLineInput list" where
  "pushCogs ls account cost =
     (case cost of
        None \<Rightarrow> ls
      | Some c \<Rightarrow>
          if c > 0 then pushLine (pushLine ls account c 0) ''PROVIDER_FUNDING_CLEARING'' 0 c else ls)"

definition buildPurchaseLines :: "int \<Rightarrow> PurchaseSnapshot \<Rightarrow> int \<Rightarrow> bool \<Rightarrow> JournalLineInput list" where
  "buildPurchaseLines walletAmount snap infrastructureRevenue includeCogs =
     (let ls = pushLine [] ''CUSTOMER_WALLET_LIABILITY'' walletAmount 0;
          ls = pushLine ls ''INFRASTRUCTURE_REVENUE'' 0 infrastructureRevenue;
          ls = pushLine ls ''PARCHIN_REVENUE'' 0 (ps_parchinRevenue snap);
          ls = pushLine ls ''ADDON_REVENUE'' 0 (ps_addonRevenue snap);
          ls = pushLine ls ''TERM_DISCOUNT'' (ps_termDiscount snap) 0;
          ls = pushLine ls ''COUPON_DISCOUNT'' (ps_couponDiscount snap) 0;
          ls = pushLine ls ''TAX_PAYABLE'' 0 (ps_taxPayable snap)
      in if includeCogs
         then pushCogs (pushCogs ls ''PROVIDER_INFRASTRUCTURE_COGS'' (ps_providerInfrastructureCogs snap))
                ''PROVIDER_ADDON_COGS'' (ps_providerAddonCogs snap)
         else ls)"

section \<open>Events\<close>

definition amountMeta :: "int \<Rightarrow> string \<times> jsval" where
  "amountMeta n = (''amountRial'', JStr (jsNumberText n))"

definition textOrNull :: "string option \<Rightarrow> jsval" where
  "textOrNull v = (case v of None \<Rightarrow> JNull | Some s \<Rightarrow> JStr s)"

definition eventInput ::
  "string \<Rightarrow> string \<Rightarrow> string \<Rightarrow> string \<Rightarrow> int \<Rightarrow> AccountingQuality \<Rightarrow> (string \<times> jsval) list
    \<Rightarrow> JournalLineInput list \<Rightarrow> PostJournalEntryInput" where
  "eventInput ty refType refId key at quality meta ls =
     \<lparr>pj_eventType = ty, pj_referenceType = refType, pj_referenceId = refId, pj_idempotencyKey = key,
      pj_occurredAt = at, pj_lines = ls, pj_quality = Some quality, pj_metadata = JObj meta,
      pj_actorUserId = None, pj_reversesEntryId = None\<rparr>"

definition walletTopUpSucceeded :: "string \<Rightarrow> int \<Rightarrow> int option \<Rightarrow> int \<Rightarrow> PostJournalEntryInput" where
  "walletTopUpSucceeded topUpId amount verifiedAt createdAt =
     eventInput ''wallet_topup_succeeded'' ''wallet_topup'' topUpId
       (''wallet-topup:'' @ topUpId @ '':succeeded:v1'')
       (case verifiedAt of Some t \<Rightarrow> t | None \<Rightarrow> createdAt) Q_FINAL [amountMeta amount]
       [jline ''CASH_GATEWAY'' amount 0, jline ''CUSTOMER_WALLET_LIABILITY'' 0 amount]"

definition walletTopUpRefunded :: "string \<Rightarrow> int \<Rightarrow> string \<Rightarrow> int \<Rightarrow> PostJournalEntryInput" where
  "walletTopUpRefunded refundId amount topUpId occurredAt =
     eventInput ''wallet_topup_refunded'' ''wallet_topup_refund'' refundId
       (''wallet-topup:'' @ topUpId @ '':refunded:v1'') occurredAt Q_FINAL
       [(''topUpId'', JStr topUpId), amountMeta amount]
       [jline ''CUSTOMER_WALLET_LIABILITY'' amount 0, jline ''CASH_GATEWAY'' 0 amount]"

definition purchaseKey :: "string \<Rightarrow> string" where
  "purchaseKey orderId = ''service-order:'' @ orderId @ '':purchase:v1''"

definition refundKey :: "string \<Rightarrow> string" where
  "refundKey orderId = ''refund:'' @ orderId @ '':completed:v1''"

text \<open>The components beside infrastructure revenue, and the two cases of a purchase: the components, with the
  residual as infrastructure revenue when they do not add up, or everything deferred.\<close>

definition otherComponents :: "PurchaseSnapshot \<Rightarrow> int" where
  "otherComponents snap =
     ps_parchinRevenue snap + ps_addonRevenue snap - ps_termDiscount snap - ps_couponDiscount snap
       + ps_taxPayable snap"

definition purchaseInput :: "ServiceOrder \<Rightarrow> PurchaseSnapshot \<Rightarrow> PostJournalEntryInput" where
  "purchaseInput order snap =
     (let includeCogs = ps_hasProviderCost snap;
          quality = (if includeCogs then Q_FINAL else Q_NEEDS_RECONCILIATION);
          impliedWallet = ps_infrastructureRevenue snap + otherComponents snap;
          residual = so_amount order - otherComponents snap;
          key = purchaseKey (so_id order);
          at = (case so_paidAt order of Some t \<Rightarrow> t | None \<Rightarrow> so_createdAt order)
      in if impliedWallet \<noteq> so_amount order \<and> residual < 0
         then eventInput ''service_purchase_completed'' ''service_order'' (so_id order) key at
                Q_NEEDS_RECONCILIATION
                [(''termMonths'', JInt (ps_termMonths snap)), amountMeta (so_amount order),
                 (''reason'', JStr ''snapshot_unbalanced''),
                 (''impliedWalletRial'', JStr (jsNumberText impliedWallet))]
                [jline ''CUSTOMER_WALLET_LIABILITY'' (so_amount order) 0,
                 jline ''DEFERRED_REVENUE'' 0 (so_amount order)]
         else eventInput ''service_purchase_completed'' ''service_order'' (so_id order) key at
                (if impliedWallet \<noteq> so_amount order then Q_NEEDS_RECONCILIATION else quality)
                [(''termMonths'', JInt (ps_termMonths snap)), amountMeta (so_amount order),
                 (''providerCostPresent'', JBool includeCogs), (''provider'', textOrNull (so_provider order)),
                 (''productKind'', textOrNull (so_productKind order)),
                 (''parchinLevel'', textOrNull (so_parchinLevel order))]
                (buildPurchaseLines (so_amount order) snap
                  (if impliedWallet \<noteq> so_amount order then residual else ps_infrastructureRevenue snap)
                  includeCogs))"

definition postServicePurchaseCompleted ::
  "string \<Rightarrow> ServiceOrder \<Rightarrow> 'a JournalDb_scheme \<Rightarrow> string + JournalEntry \<times> 'a JournalDb_scheme" where
  "postServicePurchaseCompleted newId order db =
     bindE (resolveOrderSnapshots order) (\<lambda>snap. postJournalEntry newId (purchaseInput order snap) db)"

definition postWalletTopUpSucceeded ::
  "string \<Rightarrow> string \<Rightarrow> int \<Rightarrow> int option \<Rightarrow> int \<Rightarrow> 'a JournalDb_scheme
    \<Rightarrow> string + JournalEntry \<times> 'a JournalDb_scheme" where
  "postWalletTopUpSucceeded newId topUpId amount verifiedAt createdAt db =
     postJournalEntry newId (walletTopUpSucceeded topUpId amount verifiedAt createdAt) db"

definition postWalletTopUpRefunded ::
  "string \<Rightarrow> string \<Rightarrow> int \<Rightarrow> string \<Rightarrow> int \<Rightarrow> 'a JournalDb_scheme
    \<Rightarrow> string + JournalEntry \<times> 'a JournalDb_scheme" where
  "postWalletTopUpRefunded newId refundId amount topUpId occurredAt db =
     postJournalEntry newId (walletTopUpRefunded refundId amount topUpId occurredAt) db"

section \<open>Renewals\<close>

record ServiceRenewalQuote =
  rn_id :: string
  rn_lineItemsSnapshot :: jsval
  rn_providerBasePriceRialSnapshot :: int
  rn_finalPriceRialSnapshot :: int
  rn_taxAmountIrrSnapshot :: "int option"
  rn_parchinPriceIrrSnapshot :: "int option"
  rn_periodStartSnapshot :: int
  rn_periodEndSnapshot :: int
  rn_paidAt :: "int option"
  rn_createdAt :: int
  rn_subscriptionId :: string

text \<open>\<open>Math.round(days / 30)\<close> of an interval in milliseconds, at least one.\<close>

definition monthsBetween :: "int \<Rightarrow> int \<Rightarrow> int" where
  "monthsBetween start endT =
     (let ms = endT - start; month = 30 * 86400000; months = (2 * ms + month) div (2 * month)
      in if ms \<le> 0 then 1 else if months < 1 then 1 else months)"

definition resolveRenewalSnapshots :: "ServiceRenewalQuote \<Rightarrow> PurchaseSnapshot" where
  "resolveRenewalSnapshots q =
     (let ls = parseSnapshotLines (rn_lineItemsSnapshot q);
          providerFromLines = sumByType ls ''PROVIDER_INFRASTRUCTURE'';
          markupFromLines = sumByType ls ''INFRASTRUCTURE_MARKUP'';
          parchinFromLines = sumByType ls ''PARCHIN'';
          addonFromLines = sumByType ls ''PROVIDER_ADDON'';
          taxFromLines = sumByType ls ''TAX'';
          providerCost =
            (if providerFromLines > 0 then Some providerFromLines
             else if rn_providerBasePriceRialSnapshot q > 0 then Some (rn_providerBasePriceRialSnapshot q)
             else None);
          infrastructureRevenue =
            (if providerFromLines + markupFromLines > 0 then providerFromLines + markupFromLines
             else rn_finalPriceRialSnapshot q - orZero (rn_taxAmountIrrSnapshot q)
               - orZero (rn_parchinPriceIrrSnapshot q))
      in \<lparr>ps_infrastructureRevenue = (if infrastructureRevenue > 0 then infrastructureRevenue else 0),
          ps_parchinRevenue =
            (if parchinFromLines > 0 then parchinFromLines else orZero (rn_parchinPriceIrrSnapshot q)),
          ps_addonRevenue = (if addonFromLines > 0 then addonFromLines else 0),
          ps_termDiscount = absRial (sumByType ls ''TERM_DISCOUNT''),
          ps_couponDiscount = absRial (sumByType ls ''COUPON_DISCOUNT''),
          ps_taxPayable = (if taxFromLines > 0 then taxFromLines else orZero (rn_taxAmountIrrSnapshot q)),
          ps_providerInfrastructureCogs = providerCost,
          ps_providerAddonCogs = (if addonFromLines > 0 then Some addonFromLines else None),
          ps_hasProviderCost = (case providerCost of Some p \<Rightarrow> p > 0 | None \<Rightarrow> False),
          ps_termMonths = monthsBetween (rn_periodStartSnapshot q) (rn_periodEndSnapshot q)\<rparr>)"

definition renewalInput :: "ServiceRenewalQuote \<Rightarrow> PostJournalEntryInput" where
  "renewalInput q =
     (let snap = resolveRenewalSnapshots q;
          includeCogs = ps_hasProviderCost snap;
          quality = (if includeCogs then Q_FINAL else Q_NEEDS_RECONCILIATION);
          amount = rn_finalPriceRialSnapshot q;
          implied = ps_infrastructureRevenue snap + otherComponents snap;
          residual = amount - otherComponents snap;
          key = ''service-renewal:'' @ rn_id q @ '':paid:v1'';
          at = (case rn_paidAt q of Some t \<Rightarrow> t | None \<Rightarrow> rn_createdAt q)
      in if implied \<noteq> amount \<and> residual < 0
         then eventInput ''service_renewal_completed'' ''renewal_quote'' (rn_id q) key at
                Q_NEEDS_RECONCILIATION
                [(''termMonths'', JInt (ps_termMonths snap)), amountMeta amount,
                 (''reason'', JStr ''snapshot_unbalanced'')]
                [jline ''CUSTOMER_WALLET_LIABILITY'' amount 0, jline ''DEFERRED_REVENUE'' 0 amount]
         else eventInput ''service_renewal_completed'' ''renewal_quote'' (rn_id q) key at
                (if implied \<noteq> amount then Q_NEEDS_RECONCILIATION else quality)
                [(''termMonths'', JInt (ps_termMonths snap)), amountMeta amount,
                 (''providerCostPresent'', JBool includeCogs), (''subscriptionId'', JStr (rn_subscriptionId q))]
                (buildPurchaseLines amount snap
                  (if implied \<noteq> amount then (if residual > 0 then residual else 0)
                   else ps_infrastructureRevenue snap) includeCogs))"

definition postServiceRenewalCompleted ::
  "string \<Rightarrow> ServiceRenewalQuote \<Rightarrow> 'a JournalDb_scheme \<Rightarrow> string + JournalEntry \<times> 'a JournalDb_scheme" where
  "postServiceRenewalCompleted newId q db = postJournalEntry newId (renewalInput q) db"

section \<open>Refunds, upgrades, expenses\<close>

text \<open>\<open>None\<close>: there is nothing to post.\<close>

definition postPrepaidCancellationRefund ::
  "string \<Rightarrow> string \<Rightarrow> int \<Rightarrow> string \<Rightarrow> int \<Rightarrow> 'a JournalDb_scheme
    \<Rightarrow> string + JournalEntry option \<times> 'a JournalDb_scheme" where
  "postPrepaidCancellationRefund newId orderId amount ledgerEntryId at db =
     (if amount \<le> 0 then Inr (None, db)
      else bindE (postJournalEntry newId
             (eventInput ''prepaid_cancellation_refunded'' ''service_order'' orderId
               (''refund:'' @ orderId @ '':prepaid-cancel:v1'') at Q_FINAL
               [(''kind'', JStr ''prepaid_cancellation''), amountMeta amount,
                (''ledgerEntryId'', JStr ledgerEntryId)]
               [jline ''SALES_REFUND'' amount 0, jline ''CUSTOMER_WALLET_LIABILITY'' 0 amount]) db)
             (\<lambda>(e, db). Inr (Some e, db)))"

definition postPrepaidUpgradeCharge ::
  "string \<Rightarrow> string \<Rightarrow> int \<Rightarrow> string \<Rightarrow> int \<Rightarrow> string \<Rightarrow> 'a JournalDb_scheme
    \<Rightarrow> string + JournalEntry option \<times> 'a JournalDb_scheme" where
  "postPrepaidUpgradeCharge newId requestId amount ledgerEntryId at billingModel db =
     (if amount \<le> 0 then Inr (None, db)
      else bindE (postJournalEntry newId
             (eventInput ''resource_upgrade_charged'' ''resource_change_request'' requestId
               (''resource-change:'' @ requestId @ '':upgrade:v1'') at Q_FINAL
               [(''kind'', JStr ''resource_upgrade''), (''billingModel'', JStr billingModel),
                amountMeta amount, (''ledgerEntryId'', JStr ledgerEntryId)]
               [jline ''CUSTOMER_WALLET_LIABILITY'' amount 0, jline ''INFRASTRUCTURE_REVENUE'' 0 amount]) db)
             (\<lambda>(e, db). Inr (Some e, db)))"

definition reverseByKey ::
  "string \<Rightarrow> string \<Rightarrow> string \<Rightarrow> string \<Rightarrow> int \<Rightarrow> string \<Rightarrow> 'a JournalDb_scheme
    \<Rightarrow> string + JournalEntry \<times> 'a JournalDb_scheme" where
  "reverseByKey newId postedKey missing key now reason db =
     (case findJournalKey postedKey db of
        None \<Rightarrow> Inl missing
      | Some p \<Rightarrow>
          reverseJournalEntry newId now
            \<lparr>rj_journalEntryId = je_id p, rj_idempotencyKey = key, rj_actorUserId = None,
             rj_reason = Some reason\<rparr> db)"

definition postServiceRefundCompleted ::
  "string \<Rightarrow> string \<Rightarrow> int \<Rightarrow> ServiceOrder \<Rightarrow> 'a JournalDb_scheme
    \<Rightarrow> string + JournalEntry \<times> 'a JournalDb_scheme" where
  "postServiceRefundCompleted purchaseId reversalId now order db =
     bindE (postServicePurchaseCompleted purchaseId order db) (\<lambda>(_, db).
     reverseByKey reversalId (purchaseKey (so_id order))
       (''purchase_journal_missing_after_post:'' @ so_id order)
       (refundKey (so_id order)) now ''service_order_refunded'' db)"

definition postManualExpensePosted ::
  "string \<Rightarrow> string \<Rightarrow> int \<Rightarrow> string \<Rightarrow> string \<Rightarrow> int \<Rightarrow> 'a JournalDb_scheme
    \<Rightarrow> string + JournalEntry \<times> 'a JournalDb_scheme" where
  "postManualExpensePosted newId expenseId amount category title date db =
     postJournalEntry newId
       (eventInput ''manual_expense_posted'' ''operating_expense'' expenseId
         (''manual-expense:'' @ expenseId @ '':posted:v1'') date Q_FINAL
         [(''category'', JStr category), (''title'', JStr title), amountMeta amount]
         [jline category amount 0, jline ''CASH_GATEWAY'' 0 amount]) db"

definition postManualExpenseReversed ::
  "string \<Rightarrow> int \<Rightarrow> string \<Rightarrow> string option \<Rightarrow> 'a JournalDb_scheme
    \<Rightarrow> string + JournalEntry \<times> 'a JournalDb_scheme" where
  "postManualExpenseReversed newId now expenseId journalEntryId db =
     (let key = ''manual-expense:'' @ expenseId @ '':reversed:v1'' in
      case journalEntryId of
        Some (c # cs) \<Rightarrow>
          reverseJournalEntry newId now
            \<lparr>rj_journalEntryId = c # cs, rj_idempotencyKey = key, rj_actorUserId = None,
             rj_reason = Some ''manual_expense_reversed''\<rparr> db
      | _ \<Rightarrow>
          reverseByKey newId (''manual-expense:'' @ expenseId @ '':posted:v1'')
            (''manual_expense_journal_missing:'' @ expenseId) key now ''manual_expense_reversed'' db)"

section \<open>What the lines of a purchase add up to\<close>

lemma sumByType_Nil [simp]: "sumByType [] ty = 0"
  by (simp add: sumByType_def)

lemma sumByType_eq: "sumByType ls ty = sum_list (map snd (filter (\<lambda>l. fst l = ty) ls))"
proof -
  have "foldl (\<lambda>s l. s + snd l) a xs = a + sum_list (map snd xs)" for a :: int and xs :: "(string \<times> int) list"
    by (induction xs arbitrary: a) simp_all
  then show ?thesis by (simp add: sumByType_def)
qed

lemma totals_Nil [simp]: "debitTotal [] = 0" "creditTotal [] = 0"
  by (simp_all add: debitTotal_def creditTotal_def)

lemma pushLine_totals [simp]:
  "debitTotal (pushLine ls a d c) = debitTotal ls + d" "creditTotal (pushLine ls a d c) = creditTotal ls + c"
  by (simp_all add: pushLine_def debitTotal_def creditTotal_def jline_def)

text \<open>Lines that pass the checks one by one.\<close>

definition goodLines :: "JournalLineInput list \<Rightarrow> bool" where
  "goodLines ls \<longleftrightarrow> list_all (\<lambda>l. checkLine l = Inr ()) ls"

lemma goodLines_push:
  "goodLines ls \<Longrightarrow> isAccountCode a \<Longrightarrow> 0 \<le> d \<Longrightarrow> 0 \<le> c \<Longrightarrow> d = 0 \<or> c = 0 \<Longrightarrow> goodLines (pushLine ls a d c)"
  by (auto simp: goodLines_def pushLine_def checkLine_Inr jline_def)

lemma goodLines_cogs:
  assumes "goodLines ls" and "isAccountCode a"
  shows "goodLines (pushCogs ls a cost)"
    and "debitTotal (pushCogs ls a cost) - creditTotal (pushCogs ls a cost) = debitTotal ls - creditTotal ls"
    and "debitTotal ls \<le> debitTotal (pushCogs ls a cost)"
  using assms goodLines_push [of "pushLine ls a (the cost) 0"] goodLines_push [of ls]
  by (auto simp: pushCogs_def isAccountCode_def ACCOUNT_CODES_def split: option.split)

lemma mapE_unit: "list_all (\<lambda>x. f x = Inr ()) xs \<Longrightarrow> \<exists>us. mapE f xs = Inr us"
  by (induction xs) auto

lemma validateLines_ok:
  assumes "goodLines ls" and "debitTotal ls = creditTotal ls" and "0 < debitTotal ls"
  shows "validateLines ls = Inr (map normalizeLine (enumerate 0 ls))"
proof -
  have "ls \<noteq> []" using assms(3) by (auto simp: debitTotal_def)
  then show ?thesis using assms mapE_unit [of checkLine ls] by (auto simp: validateLines_def goodLines_def)
qed

lemma account_known:
  "isAccountCode ''CUSTOMER_WALLET_LIABILITY''" "isAccountCode ''INFRASTRUCTURE_REVENUE''"
  "isAccountCode ''PARCHIN_REVENUE''" "isAccountCode ''ADDON_REVENUE''" "isAccountCode ''TERM_DISCOUNT''"
  "isAccountCode ''COUPON_DISCOUNT''" "isAccountCode ''TAX_PAYABLE''" "isAccountCode ''DEFERRED_REVENUE''"
  "isAccountCode ''PROVIDER_INFRASTRUCTURE_COGS''" "isAccountCode ''PROVIDER_ADDON_COGS''"
  "isAccountCode ''CASH_GATEWAY''" "isAccountCode ''SALES_REFUND''" "isAccountCode ''PROVIDER_FUNDING_CLEARING''"
  by (simp_all add: isAccountCode_def ACCOUNT_CODES_def)

definition lineNet :: "string \<Rightarrow> 'a JournalLineInput_scheme list \<Rightarrow> int" where
  "lineNet code ls = sum_list (map (\<lambda>l. if jl_accountCode l = code then jl_debitRial l - jl_creditRial l else 0) ls)"

lemma accountNet_lineNet: "accountNet code e = lineNet code (je_lines e)"
  by (simp add: accountNet_def lineNet_def)

lemma lineNet_normalized: "lineNet code (map normalizeLine (enumerate n ls)) = lineNet code ls"
  by (induction ls arbitrary: n) (simp_all add: lineNet_def normalizeLine_def)

lemma lineNet_Nil [simp]: "lineNet code [] = 0"
  by (simp add: lineNet_def)

lemma lineNet_jlines [simp]:
  "lineNet code (jline a d c # ls) = (if a = code then d - c else 0) + lineNet code ls"
  by (simp add: lineNet_def jline_def)

lemma lineNet_push [simp]:
  "lineNet code (pushLine ls a d c) = lineNet code ls + (if a = code then d - c else 0)"
  by (simp add: pushLine_def lineNet_def jline_def)

lemma lineNet_cogs:
  "code \<noteq> a \<Longrightarrow> code \<noteq> ''PROVIDER_FUNDING_CLEARING'' \<Longrightarrow> lineNet code (pushCogs ls a cost) = lineNet code ls"
  by (simp add: pushCogs_def split: option.split)

lemma trim_ends:
  assumes "s \<noteq> []" and "\<not> isSpace (hd s)" and "\<not> isSpace (last s)"
  shows "trim s = s"
proof -
  have stop: "dropWhile isSpace xs = xs" if "xs = [] \<or> \<not> isSpace (hd xs)" for xs
    using that by (cases xs) auto
  have "dropWhile isSpace s = s" using assms(2) by (simp add: stop)
  moreover have "dropWhile isSpace (rev s) = rev s" using assms(1,3) by (intro stop) (simp add: hd_rev)
  ultimately show ?thesis by (simp add: trim_def)
qed

text \<open>A first posting with valid lines creates its entry.\<close>

lemma post_fresh:
  assumes "validateLines (pj_lines i) = Inr normalized" and "trim (pj_idempotencyKey i) = k" and "k \<noteq> []"
    and "findJournalKey k db = None" and "findJournalId newId db = None" and "pj_reversesEntryId i = None"
  shows "postJournalEntry newId i db =
    Inr (entryOf newId i normalized, db\<lparr>journal := journal db @ [entryOf newId i normalized]\<rparr>)"
  using assms by (simp add: postJournalEntry_def postJournalEntryTx_def Let_def)

definition nonnegParts :: "PurchaseSnapshot \<Rightarrow> bool" where
  "nonnegParts s \<longleftrightarrow> 0 \<le> ps_parchinRevenue s \<and> 0 \<le> ps_addonRevenue s \<and> 0 \<le> ps_termDiscount s
     \<and> 0 \<le> ps_couponDiscount s \<and> 0 \<le> ps_taxPayable s"

lemma buildPurchaseLines_ok:
  assumes "0 < amount" and "0 \<le> infra" and "nonnegParts snap" and "infra + otherComponents snap = amount"
  shows "validateLines (buildPurchaseLines amount snap infra wc) =
      Inr (map normalizeLine (enumerate 0 (buildPurchaseLines amount snap infra wc)))"
    and "lineNet ''CUSTOMER_WALLET_LIABILITY'' (buildPurchaseLines amount snap infra wc) = amount"
    and "lineNet ''INFRASTRUCTURE_REVENUE'' (buildPurchaseLines amount snap infra wc) = - infra"
    and "lineNet ''TAX_PAYABLE'' (buildPurchaseLines amount snap infra wc) = - ps_taxPayable snap"
proof -
  let ?base = "pushLine (pushLine (pushLine (pushLine (pushLine (pushLine (pushLine []
      ''CUSTOMER_WALLET_LIABILITY'' amount 0) ''INFRASTRUCTURE_REVENUE'' 0 infra)
      ''PARCHIN_REVENUE'' 0 (ps_parchinRevenue snap)) ''ADDON_REVENUE'' 0 (ps_addonRevenue snap))
      ''TERM_DISCOUNT'' (ps_termDiscount snap) 0) ''COUPON_DISCOUNT'' (ps_couponDiscount snap) 0)
      ''TAX_PAYABLE'' 0 (ps_taxPayable snap)"
  let ?c1 = "pushCogs ?base ''PROVIDER_INFRASTRUCTURE_COGS'' (ps_providerInfrastructureCogs snap)"
  have build: "buildPurchaseLines amount snap infra wc =
      (if wc then pushCogs ?c1 ''PROVIDER_ADDON_COGS'' (ps_providerAddonCogs snap) else ?base)"
    by (simp add: buildPurchaseLines_def)
  note p = assms(3) [unfolded nonnegParts_def]
  have base: "goodLines ?base"
    using assms(1,2) p by (intro goodLines_push account_known) (simp_all add: goodLines_def)
  have tot: "debitTotal ?base = amount + ps_termDiscount snap + ps_couponDiscount snap"
    "creditTotal ?base = infra + ps_parchinRevenue snap + ps_addonRevenue snap + ps_taxPayable snap"
    by simp_all
  then have bal: "debitTotal ?base - creditTotal ?base = 0" "0 < debitTotal ?base"
    using assms(1,4) p by (simp_all add: otherComponents_def)
  note c1 = goodLines_cogs [OF base account_known(9), of "ps_providerInfrastructureCogs snap"]
  note c2 = goodLines_cogs [OF c1(1) account_known(10), of "ps_providerAddonCogs snap"]
  have "goodLines (buildPurchaseLines amount snap infra wc)"
    "debitTotal (buildPurchaseLines amount snap infra wc) = creditTotal (buildPurchaseLines amount snap infra wc)"
    "0 < debitTotal (buildPurchaseLines amount snap infra wc)"
    unfolding build using base bal c1 c2 by (cases wc; simp)+
  then show "validateLines (buildPurchaseLines amount snap infra wc) =
      Inr (map normalizeLine (enumerate 0 (buildPurchaseLines amount snap infra wc)))"
    by (rule validateLines_ok)
  show "lineNet ''CUSTOMER_WALLET_LIABILITY'' (buildPurchaseLines amount snap infra wc) = amount"
    "lineNet ''INFRASTRUCTURE_REVENUE'' (buildPurchaseLines amount snap infra wc) = - infra"
    "lineNet ''TAX_PAYABLE'' (buildPurchaseLines amount snap infra wc) = - ps_taxPayable snap"
    unfolding build by (simp_all add: lineNet_cogs)
qed

lemma purchaseSnapshot_nonneg: "nonnegParts (purchaseSnapshot order plan ls months)"
  by (simp add: nonnegParts_def purchaseSnapshot_def Let_def absRial_def)

lemma resolveOrder_nonneg: "resolveOrderSnapshots order = Inr snap \<Longrightarrow> nonnegParts snap"
  by (auto simp: resolveOrderSnapshots_def Let_def bindE_eq_Inr purchaseSnapshot_nonneg)

lemma eventInput_simps [simp]:
  "pj_eventType (eventInput ty rt ri k t q m ls) = ty" "pj_idempotencyKey (eventInput ty rt ri k t q m ls) = k"
  "pj_lines (eventInput ty rt ri k t q m ls) = ls" "pj_quality (eventInput ty rt ri k t q m ls) = Some q"
  "pj_metadata (eventInput ty rt ri k t q m ls) = JObj m" "pj_reversesEntryId (eventInput ty rt ri k t q m ls) = None"
  "effectiveQuality (eventInput ty rt ri k t q m ls) = q"
  by (simp_all add: eventInput_def effectiveQuality_def)

lemma purchase_key [simp]: "trim (purchaseKey oid) = purchaseKey oid" "trim (refundKey oid) = refundKey oid"
  unfolding purchaseKey_def refundKey_def by (rule trim_ends; simp add: isSpace_def)+

lemma purchaseKey_not_Nil [simp]: "purchaseKey oid \<noteq> []" "refundKey oid \<noteq> []"
  by (simp_all add: purchaseKey_def refundKey_def)

lemma purchaseInput_key:
  "pj_idempotencyKey (purchaseInput order snap) = purchaseKey (so_id order)"
  "pj_reversesEntryId (purchaseInput order snap) = None"
  by (simp_all add: purchaseInput_def Let_def)

lemma entryOf_more [simp]:
  "je_quality (entryOf n i ls) = effectiveQuality i"
  by (simp add: entryOf_def)

text \<open>What a purchase posts as infrastructure revenue.\<close>

definition bookedInfrastructure :: "ServiceOrder \<Rightarrow> PurchaseSnapshot \<Rightarrow> int" where
  "bookedInfrastructure order snap =
     (if ps_infrastructureRevenue snap + otherComponents snap = so_amount order then ps_infrastructureRevenue snap
      else so_amount order - otherComponents snap)"

lemma purchaseInput_lines:
  assumes "0 < so_amount order" and "nonnegParts snap" and "0 \<le> ps_infrastructureRevenue snap"
  obtains ls where "pj_lines (purchaseInput order snap) = ls"
    and "validateLines ls = Inr (map normalizeLine (enumerate 0 ls))"
    and "lineNet ''CUSTOMER_WALLET_LIABILITY'' ls = so_amount order"
    and "0 \<le> bookedInfrastructure order snap \<Longrightarrow>
      lineNet ''INFRASTRUCTURE_REVENUE'' ls = - bookedInfrastructure order snap
        \<and> lineNet ''TAX_PAYABLE'' ls = - ps_taxPayable snap"
proof (cases "bookedInfrastructure order snap < 0")
  case True
  let ?ls = "[jline ''CUSTOMER_WALLET_LIABILITY'' (so_amount order) 0, jline ''DEFERRED_REVENUE'' 0 (so_amount order)]"
  have "pj_lines (purchaseInput order snap) = ?ls"
    using True assms(3) by (auto simp: purchaseInput_def Let_def bookedInfrastructure_def split: if_splits)
  moreover have "validateLines ?ls = Inr (map normalizeLine (enumerate 0 ?ls))"
  proof (rule validateLines_ok)
    show "goodLines ?ls" using assms(1) account_known by (simp add: goodLines_def checkLine_Inr jline_def)
  qed (use assms(1) in \<open>simp_all add: debitTotal_def creditTotal_def jline_def\<close>)
  ultimately show thesis using that [of ?ls] True by simp
next
  case False
  let ?infra = "bookedInfrastructure order snap"
  let ?ls = "buildPurchaseLines (so_amount order) snap ?infra (ps_hasProviderCost snap)"
  have sum: "?infra + otherComponents snap = so_amount order" "0 \<le> ?infra"
    using False by (simp_all add: bookedInfrastructure_def)
  have "pj_lines (purchaseInput order snap) = ?ls"
    using False by (auto simp: purchaseInput_def Let_def bookedInfrastructure_def split: if_splits)
  then show thesis
    using that [of ?ls] buildPurchaseLines_ok [OF assms(1) sum(2) assms(2) sum(1)] by simp
qed

section \<open>Properties\<close>

text \<open>A paid order is always booked. For every order with a positive amount whose snapshot has no negative
  infrastructure revenue, the first booking succeeds with balanced lines; the customer's wallet liability falls
  by exactly the amount paid, and the entry is final only when the provider cost is known and the snapshot's
  components add up to the amount.\<close>

theorem paid_order_is_booked:
  assumes "0 < so_amount order" and "resolveOrderSnapshots order = Inr snap"
    and "0 \<le> ps_infrastructureRevenue snap" and "findJournalId newId db = None"
    and "findJournalKey (purchaseKey (so_id order)) db = None"
  shows "\<exists>e. postServicePurchaseCompleted newId order db = Inr (e, db\<lparr>journal := journal db @ [e]\<rparr>)
    \<and> accountNet ''CUSTOMER_WALLET_LIABILITY'' e = so_amount order
    \<and> (je_quality e = Q_FINAL \<longleftrightarrow> ps_hasProviderCost snap
         \<and> ps_infrastructureRevenue snap + otherComponents snap = so_amount order)"
proof -
  let ?i = "purchaseInput order snap"
  obtain ls where ls: "pj_lines ?i = ls" "validateLines ls = Inr (map normalizeLine (enumerate 0 ls))"
      "lineNet ''CUSTOMER_WALLET_LIABILITY'' ls = so_amount order"
    using purchaseInput_lines [OF assms(1) resolveOrder_nonneg [OF assms(2)] assms(3)] by metis
  let ?e = "entryOf newId ?i (map normalizeLine (enumerate 0 ls))"
  have "postServicePurchaseCompleted newId order db = Inr (?e, db\<lparr>journal := journal db @ [?e]\<rparr>)"
    using post_fresh [of ?i _ "purchaseKey (so_id order)" db newId] ls(1,2) assms(2,4,5)
      purchaseInput_key [of order snap]
    by (simp add: postServicePurchaseCompleted_def)
  moreover have "accountNet ''CUSTOMER_WALLET_LIABILITY'' ?e = so_amount order"
    by (simp add: accountNet_lineNet lineNet_normalized ls(3))
  moreover have "je_quality ?e = Q_FINAL \<longleftrightarrow> ps_hasProviderCost snap
         \<and> ps_infrastructureRevenue snap + otherComponents snap = so_amount order"
    by (simp add: purchaseInput_def Let_def)
  ultimately show ?thesis by blast
qed

lemma findJournalKey_markReversed:
  "findJournalKey k (markReversed x db) =
    map_option (\<lambda>e. if je_id e = x then e\<lparr>je_status := JS_REVERSED, je_quality := Q_REVERSED\<rparr> else e)
      (findJournalKey k db)"
  unfolding findJournalKey_def markReversed_def by (simp add: findRow_updateRows)

lemma purchaseInput_quality: "effectiveQuality (purchaseInput order snap) \<noteq> Q_REVERSED"
  by (simp add: purchaseInput_def Let_def)

lemma replay_quality: "assertReplayMatch e i n = Inr () \<Longrightarrow> je_quality e = effectiveQuality i"
  by (auto simp: assertReplayMatch_def split: if_split_asm)

text \<open>The booked purchase of an order, found under its key, is not a reversed entry.\<close>

lemma purchase_found:
  assumes "journalInv db" and "resolveOrderSnapshots order = Inr snap"
    and "postJournalEntry pid (purchaseInput order snap) db = Inr (p, db1)"
  shows "journalInv db1" and "findJournalKey (purchaseKey (so_id order)) db1 = Some p"
    and "je_quality p \<noteq> Q_REVERSED" and "isOk (validateLines (pj_lines (purchaseInput order snap)))"
    and "k \<noteq> purchaseKey (so_id order) \<Longrightarrow> findJournalKey k db1 = findJournalKey k db"
proof -
  let ?i = "purchaseInput order snap"
  have run: "postJournalEntryTx pid ?i db = Inr (p, db1)" using assms(3) by (simp add: postJournalEntry_def)
  show "journalInv db1" by (rule post_preserves_inv [OF assms(1) run purchaseInput_key(2)])
  have "findJournalKey (purchaseKey (so_id order)) db1 = Some p \<and> je_quality p \<noteq> Q_REVERSED
      \<and> isOk (validateLines (pj_lines ?i)) \<and> (k \<noteq> purchaseKey (so_id order) \<longrightarrow> findJournalKey k db1 = findJournalKey k db)"
    using run
  proof (cases rule: postJournalEntryTx_Inr)
    case (replay normalized)
    then show ?thesis using replay_quality [OF replay(4)] purchaseInput_quality [of order snap]
      by (simp add: purchaseInput_key isOk_iff)
  next
    case (create normalized)
    have key: "je_idempotencyKey p = purchaseKey (so_id order)" using create(2) by (simp add: purchaseInput_key)
    then have "findJournalKey (purchaseKey (so_id order)) db1 = Some p"
      using create(3,5) findJournalKey_last [of p db] by (simp add: purchaseInput_key)
    moreover have "findJournalKey k db1 = findJournalKey k db" if "k \<noteq> purchaseKey (so_id order)"
      using create(3) key that by (simp add: findJournalKey_def findRow_append split: option.split)
    ultimately show ?thesis using create(1,2) purchaseInput_quality [of order snap] by (simp add: isOk_iff)
  qed
  then show "findJournalKey (purchaseKey (so_id order)) db1 = Some p" "je_quality p \<noteq> Q_REVERSED"
    "isOk (validateLines (pj_lines ?i))"
    "k \<noteq> purchaseKey (so_id order) \<Longrightarrow> findJournalKey k db1 = findJournalKey k db"
    by blast+
qed

lemma keys_differ: "refundKey a \<noteq> purchaseKey b"
  by (simp add: refundKey_def purchaseKey_def)

text \<open>A successful refund of an order that had none: the purchase is booked and then reversed.\<close>

lemma refund_Inr:
  assumes "journalInv db" and "findJournalKey (refundKey (so_id order)) db = None"
    and "postServiceRefundCompleted pid rid now order db = Inr (r, db')"
  obtains snap p db1 db2 where "resolveOrderSnapshots order = Inr snap" and "journalInv db1"
    and "postJournalEntry pid (purchaseInput order snap) db = Inr (p, db1)"
    and "isOk (validateLines (pj_lines (purchaseInput order snap)))"
    and "findJournalKey (purchaseKey (so_id order)) db1 = Some p"
    and "postJournalEntryTx rid (reversalInput now \<lparr>rj_journalEntryId = je_id p, rj_idempotencyKey = refundKey (so_id order),
        rj_actorUserId = None, rj_reason = Some ''service_order_refunded''\<rparr> (refundKey (so_id order)) p) db1 = Inr (r, db2)"
    and "db' = markReversed (je_id p) db2"
proof -
  obtain snap p db1 where s: "resolveOrderSnapshots order = Inr snap"
    and p: "postJournalEntry pid (purchaseInput order snap) db = Inr (p, db1)"
    and rev: "reverseByKey rid (purchaseKey (so_id order)) (''purchase_journal_missing_after_post:'' @ so_id order)
      (refundKey (so_id order)) now ''service_order_refunded'' db1 = Inr (r, db')"
    using assms(3) by (auto simp: postServiceRefundCompleted_def postServicePurchaseCompleted_def bindE_eq_Inr)
  note f = purchase_found [OF assms(1) s p]
  let ?j = "\<lparr>rj_journalEntryId = je_id p, rj_idempotencyKey = refundKey (so_id order), rj_actorUserId = None,
    rj_reason = Some ''service_order_refunded''\<rparr>"
  have none: "findJournalKey (refundKey (so_id order)) db1 = None" using f(5) [OF keys_differ] assms(2) by simp
  have mem: "p \<in> set (journal db1)" using findJournalKey_Some [OF f(2)] by simp
  have "inj_on je_id (set (journal db1))" using f(1) by (simp add: journalInv_def distinct_map)
  then have fp: "o' = p" if "findJournalId (je_id p) db1 = Some o'" for o'
    using findJournalId_Some [OF that] mem by (simp add: inj_onD)
  have "je_status p \<noteq> JS_REVERSED" using f(1,3) mem unfolding journalInv_def by blast
  moreover have "reverseJournalEntryTx rid now ?j db1 = Inr (r, db')"
    using rev f(2) by (simp add: reverseByKey_def reverseJournalEntry_def)
  ultimately show thesis
    using f(1) fp none that [OF s f(1) p f(4,2)]
    by (elim reverseJournalEntryTx_Inr) auto
qed

text \<open>C39: a refund undoes the booking completely. A successful first refund of an order leaves the purchase
  entry marked reversed and a reversing entry with which it cancels on every account.\<close>

theorem refund_undoes_purchase:
  assumes "journalInv db" and "findJournalKey (refundKey (so_id order)) db = None"
    and "postServiceRefundCompleted pid rid now order db = Inr (r, db')"
  shows "\<exists>p. findJournalKey (purchaseKey (so_id order)) db' = Some p \<and> je_status p = JS_REVERSED
    \<and> je_reversesEntryId r = Some (je_id p) \<and> r \<in> set (journal db') \<and> (\<forall>code. accountNet code p + accountNet code r = 0)"
  using assms
proof (rule refund_Inr, goal_cases)
  case (1 snap p db1 db2)
  have lo: "linesOk (je_lines p)" using 1(2) findJournalKey_Some [OF 1(5)] by (auto simp: journalInv_def)
  from 1(6) show ?case
  proof (cases rule: postJournalEntryTx_Inr)
    case (replay normalized)
    then show ?thesis using purchase_found(5) [OF assms(1) 1(1,3) keys_differ] assms(2) by (simp add: reversalInput_def)
  next
    case (create normalized)
    have r: "je_reversesEntryId r = Some (je_id p)" "je_lines r = normalized" "je_id r = rid"
      using create(2) by (simp_all add: reversalInput_def)
    have mir: "list_all2 mirrorsLine (je_lines p) (je_lines r)"
      using reversing_mirror [OF lo] create(1) r(2) by (simp add: reversalInput_def)
    have ne: "rid \<noteq> je_id p" using create(6) findJournalKey_Some [OF 1(5)]
      by (auto simp: findJournalId_def findRow_None)
    have key: "findJournalKey (purchaseKey (so_id order)) db2 = Some p"
      using findJournalKey_append [OF 1(5)] create(3) by simp
    have "r \<in> set (journal db')" using create(3) 1(7) r(3) ne by (simp add: journal_markReversed)
    then show ?thesis
      using key 1(7) r(1) mirrored_net [OF mir]
      by (intro exI [of _ "p\<lparr>je_status := JS_REVERSED, je_quality := Q_REVERSED\<rparr>"])
        (simp add: findJournalKey_markReversed accountNet_def)
  qed
qed

text \<open>C40: a refund cannot be posted again. The posting that precedes the reversal is rejected once its entry is
  reversed, so the repetition that the code calls idempotent fails with an idempotency conflict.\<close>

theorem refund_repetition_conflicts:
  assumes "journalInv db" and "findJournalKey (refundKey (so_id order)) db = None"
    and "postServiceRefundCompleted pid rid now order db = Inr (r, db')"
  shows "postServiceRefundCompleted pid2 rid2 now2 order db' = Inl IdempotencyConflict"
  using assms
proof (rule refund_Inr, goal_cases)
  case (1 snap p db1 db2)
  have key2: "findJournalKey (purchaseKey (so_id order)) db2 = Some p"
    using 1(6) by (cases rule: postJournalEntryTx_Inr) (simp_all add: 1(5) findJournalKey_append)
  have "postJournalEntry pid2 (purchaseInput order snap) db' = Inl IdempotencyConflict"
    by (rule repost_reversed_conflicts [where e = "p\<lparr>je_status := JS_REVERSED, je_quality := Q_REVERSED\<rparr>"])
      (simp_all add: purchaseInput_key 1(4,7) findJournalKey_markReversed key2 purchaseInput_quality)
  then show ?case using 1(1) by (simp add: postServiceRefundCompleted_def postServicePurchaseCompleted_def)
qed

section \<open>Quotes of the price engine\<close>

fun lineTypeText :: "QuoteLineItemType \<Rightarrow> string" where
  "lineTypeText PROVIDER_INFRASTRUCTURE = ''PROVIDER_INFRASTRUCTURE''"
| "lineTypeText INFRASTRUCTURE_MARKUP = ''INFRASTRUCTURE_MARKUP''"
| "lineTypeText PARCHIN = ''PARCHIN''"
| "lineTypeText PROVIDER_ADDON = ''PROVIDER_ADDON''"
| "lineTypeText TERM_DISCOUNT = ''TERM_DISCOUNT''"
| "lineTypeText COUPON_DISCOUNT = ''COUPON_DISCOUNT''"
| "lineTypeText TAX = ''TAX''"

definition serializeQuoteLineItems :: "QuoteLineItem list \<Rightarrow> jsval" where
  "serializeQuoteLineItems items =
     JArr (map (\<lambda>l. JObj [(''type'', JStr (lineTypeText (li_type l))),
                       (''amountIrr'', JStr (jsNumberText (li_amountIrr l)))]) items)"

text \<open>The amounts of the plan snapshot that an order keeps.\<close>

definition toPlanSnapshot :: "CommercialPricingInput \<Rightarrow> CommercialPriceBreakdown \<Rightarrow> jsval" where
  "toPlanSnapshot i b =
     JObj [(''providerBasePriceRialSnapshot'', JStr (jsNumberText (providerMonthlyPriceIrr i))),
           (''markupAmountRialSnapshot'', JStr (jsNumberText (bd_totalMarkupRial b))),
           (''parchinPriceRialSnapshot'', JStr (jsNumberText (parchinPriceIrr i))),
           (''taxAmountRialSnapshot'', JStr (jsNumberText (bd_taxRial b))),
           (''lineItemsSnapshot'', serializeQuoteLineItems (bd_lineItems b)),
           (''finalPriceRialSnapshot'', JStr (jsNumberText (bd_finalPriceRial b))),
           (''estimatedProviderCostRial'', JStr (jsNumberText (providerMonthlyPriceIrr i)))]"

lemma minus_not_digit: "\<not> isDigit (CHR ''-'')" "\<not> isSpace (CHR ''-'')"
  by (simp_all add: isDigit_def isSpace_def)

lemma natStr_hd_digit: "isDigit (hd (natStr n))"
  using natStr_digits [of n] by (cases "natStr n") auto

lemma parseBigInt_text [simp]: "parseBigInt (JStr (jsNumberText n)) = Some n"
proof (cases "n < 0")
  case True
  have "\<not> isSpace (last (natStr (nat (- n))))"
    using natStr_digits [of "nat (- n)"] digits_not_space by (metis last_in_set list_all_iff)
  then have "trim (CHR ''-'' # natStr (nat (- n))) = CHR ''-'' # natStr (nat (- n))"
    by (intro trim_ends) (simp_all add: minus_not_digit)
  then show ?thesis using True by (simp add: parseBigInt_def jsNumberText_def isIntText_def intTextVal_def)
next
  case False
  have "hd (natStr (nat n)) \<noteq> CHR ''-''" using natStr_hd_digit [of "nat n"] minus_not_digit by metis
  then show ?thesis using False by (simp add: parseBigInt_def jsNumberText_def isIntText_def intTextVal_def)
qed

lemma parse_serialized:
  "parseSnapshotLines (serializeQuoteLineItems ls) = map (\<lambda>l. (lineTypeText (li_type l), li_amountIrr l)) ls"
  by (induction ls) (simp_all add: parseSnapshotLines_def serializeQuoteLineItems_def parseSnapshotLine_def
      asRecord_def recordGet_def jsGet_def)

lemma quoteLines_sums:
  assumes "0 \<le> discount"
    and ls: "ls = map (\<lambda>l. (lineTypeText (li_type l), li_amountIrr l)) (quoteLines p m k adds discount src tax)"
  shows "sumByType ls ''PROVIDER_INFRASTRUCTURE'' = p" and "sumByType ls ''INFRASTRUCTURE_MARKUP'' = m"
    and "sumByType ls ''PARCHIN'' = k" and "sumByType ls ''PROVIDER_ADDON'' = sum_list adds"
    and "absRial (sumByType ls ''TERM_DISCOUNT'') + absRial (sumByType ls ''COUPON_DISCOUNT'') = discount"
    and "sumByType ls ''TAX'' = tax" and "ls \<noteq> []"
proof -
  have addons: "filter (\<lambda>l. fst l = ty) (map (\<lambda>a. (''PROVIDER_ADDON'', a)) as) =
      (if ty = ''PROVIDER_ADDON'' then map (\<lambda>a. (''PROVIDER_ADDON'', a)) as else [])" for ty :: string and as :: "int list"
    by (induction as) auto
  note defs = ls quoteLines_def sumByType_eq absRial_def
  show "sumByType ls ''PROVIDER_INFRASTRUCTURE'' = p" "sumByType ls ''INFRASTRUCTURE_MARKUP'' = m"
    "sumByType ls ''PARCHIN'' = k" "sumByType ls ''PROVIDER_ADDON'' = sum_list adds" "sumByType ls ''TAX'' = tax" "ls \<noteq> []"
    by (simp_all add: defs o_def addons)
  show "absRial (sumByType ls ''TERM_DISCOUNT'') + absRial (sumByType ls ''COUPON_DISCOUNT'') = discount"
    using assms(1) by (simp add: defs o_def addons)
qed

lemma plan_gets:
  "recordGet ''lineItemsSnapshot'' (asRecord (toPlanSnapshot i b)) = serializeQuoteLineItems (bd_lineItems b)"
  "recordGet ''termMonths'' (asRecord (toPlanSnapshot i b)) = JUndefined"
  "recordGet ''markupAmountRialSnapshot'' (asRecord (toPlanSnapshot i b)) = JStr (jsNumberText (bd_totalMarkupRial b))"
  "recordGet ''parchinPriceRialSnapshot'' (asRecord (toPlanSnapshot i b)) = JStr (jsNumberText (parchinPriceIrr i))"
  "recordGet ''taxAmountRialSnapshot'' (asRecord (toPlanSnapshot i b)) = JStr (jsNumberText (bd_taxRial b))"
  by (simp_all add: asRecord_def toPlanSnapshot_def recordGet_def jsGet_def)

text \<open>C38: a sold quote is booked line by line. An order that was sold at the price the engine computed, for a
  positive amount, is booked as a final entry: infrastructure revenue is provider cost plus markup, the tax
  payable is the quote's tax, and the wallet liability falls by the final price.\<close>

theorem engine_quote_is_booked_final:
  assumes "computeCommercialPriceBreakdown i = Inr b" and "so_planSnapshot order = toPlanSnapshot i b"
    and "case so_recommendationQuote order of None \<Rightarrow> True
      | Some q \<Rightarrow> qs_lineItemsSnapshot q = serializeQuoteLineItems (bd_lineItems b)"
    and "so_amount order = bd_finalPriceRial b" and "0 < bd_finalPriceRial b" and "findJournalId newId db = None"
    and "findJournalKey (purchaseKey (so_id order)) db = None"
  shows "\<exists>e. postServicePurchaseCompleted newId order db = Inr (e, db\<lparr>journal := journal db @ [e]\<rparr>)
    \<and> je_quality e = Q_FINAL
    \<and> accountNet ''INFRASTRUCTURE_REVENUE'' e = - (bd_providerCostRial b + bd_totalMarkupRial b)
    \<and> accountNet ''TAX_PAYABLE'' e = - bd_taxRial b
    \<and> accountNet ''CUSTOMER_WALLET_LIABILITY'' e = bd_finalPriceRial b"
proof -
  let ?ls = "map (\<lambda>l. (lineTypeText (li_type l), li_amountIrr l)) (bd_lineItems b)"
  obtain m tot ad src where
    q: "bd_lineItems b = quoteLines (providerMonthlyPriceIrr i * m) (tot * m) (parchinPriceIrr i * m)
         (map (\<lambda>a. a * m) (providerAddons i)) (bd_discountRial b) src (bd_taxRial b)"
    and eqs: "bd_providerCostRial b = providerMonthlyPriceIrr i * m" "bd_totalMarkupRial b = tot * m"
      "bd_parchinRial b = parchinPriceIrr i * m" "bd_addonsRial b = ad * m" "ad = sum_list (providerAddons i)"
      "bd_taxableRial b = bd_subtotalBeforeDiscountRial b - bd_discountRial b"
      "bd_finalPriceRial b = bd_taxableRial b + bd_taxRial b" "0 \<le> bd_taxRial b" "0 < m"
    using assms(1)
  proof (rule computeCommercialPriceBreakdown_Inr, goal_cases)
    case (1 m k tot prv prd ad dbps src req mx tax rtax)
    have "0 \<le> tax" using 1(10) by (auto dest: multiplyBpsRoundUp_Inr)
    moreover have "0 < m" using 1(2) by (auto simp: validatePricingInput_eq_Inr isBillingTermMonths_pos)
    moreover have "ad = sum_list (providerAddons i)" using 1(4) by (simp add: monthlyAddons_eq split: if_split_asm)
    ultimately show ?case using 1 by metis
  qed
  note f = breakdown_amounts [OF assms(1)]
  have addons: "sum_list (map (\<lambda>a. a * m) (providerAddons i)) = bd_addonsRial b"
    using eqs(4,5) by (simp add: sum_list_mult_const)
  note s = quoteLines_sums [OF f(7), of ?ls, unfolded q, OF HOL.refl, folded q, unfolded addons, folded eqs(1-3)]
  let ?q = "case so_recommendationQuote order of None \<Rightarrow> []
      | Some q \<Rightarrow> parseSnapshotLines (qs_lineItemsSnapshot q)"
  have lines: "(if length ?q > 0 then ?q else parseSnapshotLines (serializeQuoteLineItems (bd_lineItems b))) = ?ls"
    using assms(3) by (auto simp: parse_serialized split: option.splits)
  have months: "\<exists>n. (case orNull (so_termMonths order) (quoteField qs_termMonths order) of
      Some n \<Rightarrow> Inr n | None \<Rightarrow> planTermMonths JUndefined) = Inr n"
    by (simp add: planTermMonths_def split: option.split)
  let ?snap = "purchaseSnapshot order (asRecord (toPlanSnapshot i b)) ?ls"
  have "resolveOrderSnapshots order = bindE (case orNull (so_termMonths order) (quoteField qs_termMonths order) of
      Some n \<Rightarrow> Inr n | None \<Rightarrow> planTermMonths JUndefined) (\<lambda>n. Inr (?snap n))"
    unfolding resolveOrderSnapshots_def Let_def assms(2) plan_gets lines ..
  then obtain n where res: "resolveOrderSnapshots order = Inr (?snap n)" using months by auto
  have first: "orNull (Some x) y = Some x" for x :: int and y by (simp add: orNull_def)
  note ps = purchaseSnapshot_def [of order "asRecord (toPlanSnapshot i b)" ?ls n, unfolded s plan_gets parseBigInt_text first Let_def]
  have "0 \<le> parchinPriceIrr i" using f(3) eqs(3,9) by (simp add: zero_le_mult_iff)
  have snap: "ps_hasProviderCost (?snap n)" "ps_infrastructureRevenue (?snap n) = bd_providerCostRial b + bd_totalMarkupRial b"
      "ps_taxPayable (?snap n) = bd_taxRial b"
    unfolding ps using f(1,2) eqs(8) by (simp_all add: orZero_def)
  have "ps_parchinRevenue (?snap n) = bd_parchinRial b" "ps_addonRevenue (?snap n) = bd_addonsRial b"
      "ps_termDiscount (?snap n) + ps_couponDiscount (?snap n) = bd_discountRial b"
    unfolding ps using f(3,4) eqs(3,9) s(5) \<open>0 \<le> parchinPriceIrr i\<close> by (simp_all add: zero_less_mult_iff)
  then have sum: "ps_infrastructureRevenue (?snap n) + otherComponents (?snap n) = so_amount order"
    using snap f(6) eqs(6,7) assms(4) by (simp add: otherComponents_def)
  then have booked: "bookedInfrastructure order (?snap n) = bd_providerCostRial b + bd_totalMarkupRial b"
    using snap(2) by (simp add: bookedInfrastructure_def)
  have amount: "0 < so_amount order" "0 \<le> ps_infrastructureRevenue (?snap n)"
    using assms(4,5) snap(2) f(1,2) by simp_all
  let ?i = "purchaseInput order (?snap n)"
  obtain ls where ls: "pj_lines ?i = ls" "validateLines ls = Inr (map normalizeLine (enumerate 0 ls))"
      "lineNet ''CUSTOMER_WALLET_LIABILITY'' ls = so_amount order"
      "lineNet ''INFRASTRUCTURE_REVENUE'' ls = - bookedInfrastructure order (?snap n)"
      "lineNet ''TAX_PAYABLE'' ls = - ps_taxPayable (?snap n)"
    using purchaseInput_lines [OF amount(1) purchaseSnapshot_nonneg amount(2)] booked f(1,2) by force
  let ?e = "entryOf newId ?i (map normalizeLine (enumerate 0 ls))"
  have "postServicePurchaseCompleted newId order db = Inr (?e, db\<lparr>journal := journal db @ [?e]\<rparr>)"
    using post_fresh [of ?i _ "purchaseKey (so_id order)" db newId] ls(1,2) res assms(6,7)
      purchaseInput_key [of order "?snap n"]
    by (simp add: postServicePurchaseCompleted_def)
  moreover have "je_quality ?e = Q_FINAL" using snap(1) sum by (simp add: purchaseInput_def Let_def)
  ultimately show ?thesis
    using ls(3-5) booked snap(3) assms(4) by (auto simp: accountNet_lineNet lineNet_normalized)
qed

section \<open>A concrete order\<close>

definition sample_breakdown :: CommercialPriceBreakdown where
  "sample_breakdown = (case computeCommercialPriceBreakdown sample_pricing_input of Inr b \<Rightarrow> b)"

definition sample_order :: ServiceOrder where
  "sample_order = \<lparr>so_id = ''o1'', so_amount = bd_finalPriceRial sample_breakdown,
     so_planSnapshot = toPlanSnapshot sample_pricing_input sample_breakdown, so_recommendationQuote = None,
     so_termMonths = Some 1, so_paidAt = Some 7, so_createdAt = 5, so_provider = None, so_productKind = None,
     so_parchinLevel = None\<rparr>"

lemma sample_priced: "computeCommercialPriceBreakdown sample_pricing_input = Inr sample_breakdown"
  using sample_pricing_ok by (auto simp: isOk_iff sample_breakdown_def)

lemma sample_fresh: "findJournalId n emptyJournalDb = None" "findJournalKey k emptyJournalDb = None"
  by (simp_all add: emptyJournalDb_def findJournalId_def findJournalKey_def)

lemma empty_journal_inv: "journalInv emptyJournalDb"
  by (simp add: journalInv_def emptyJournalDb_def)

theorem engine_quote_is_booked_final_witness:
  "\<exists>e db. postServicePurchaseCompleted ''j1'' sample_order emptyJournalDb = Inr (e, db) \<and> je_quality e = Q_FINAL
    \<and> accountNet ''CUSTOMER_WALLET_LIABILITY'' e = bd_finalPriceRial sample_breakdown"
proof -
  have "0 < bd_finalPriceRial sample_breakdown" by code_simp
  then show ?thesis
    using engine_quote_is_booked_final [OF sample_priced, of sample_order "''j1''" emptyJournalDb] sample_fresh
    by (auto simp: sample_order_def)
qed

definition small_order :: ServiceOrder where
  "small_order = \<lparr>so_id = ''o1'', so_amount = 11,
     so_planSnapshot = JObj [(''lineItemsSnapshot'',
       JArr [JObj [(''type'', JStr ''PROVIDER_INFRASTRUCTURE''), (''amountIrr'', JStr ''10'')],
             JObj [(''type'', JStr ''TAX''), (''amountIrr'', JStr ''1'')]])],
     so_recommendationQuote = None, so_termMonths = Some 1, so_paidAt = Some 7, so_createdAt = 5,
     so_provider = None, so_productKind = None, so_parchinLevel = None\<rparr>"

theorem paid_order_is_booked_witness:
  "\<exists>e db. postServicePurchaseCompleted ''j1'' (small_order\<lparr>so_amount := 9\<rparr>) emptyJournalDb = Inr (e, db)
    \<and> accountNet ''CUSTOMER_WALLET_LIABILITY'' e = 9 \<and> je_quality e \<noteq> Q_FINAL"
proof -
  let ?o = "small_order\<lparr>so_amount := 9\<rparr>"
  have "isOk (resolveOrderSnapshots ?o)" by code_simp
  then obtain snap where snap: "resolveOrderSnapshots ?o = Inr snap" by (auto simp: isOk_iff)
  have "case resolveOrderSnapshots ?o of Inl _ \<Rightarrow> False
      | Inr s \<Rightarrow> 0 \<le> ps_infrastructureRevenue s \<and> ps_infrastructureRevenue s + otherComponents s \<noteq> 9" by code_simp
  then have "0 \<le> ps_infrastructureRevenue snap" "ps_infrastructureRevenue snap + otherComponents snap \<noteq> 9"
    by (simp_all add: snap)
  then show ?thesis using paid_order_is_booked [OF _ snap, of "''j1''" emptyJournalDb] sample_fresh by auto
qed

lemma sample_refund:
  "\<exists>r db. postServiceRefundCompleted ''j1'' ''j2'' 9 small_order emptyJournalDb = Inr (r, db)"
proof -
  have "isOk (postServiceRefundCompleted ''j1'' ''j2'' 9 small_order emptyJournalDb)" by code_simp
  then show ?thesis by (auto simp: isOk_iff)
qed

theorem refund_undoes_purchase_witness:
  "\<exists>r db p. postServiceRefundCompleted ''j1'' ''j2'' 9 small_order emptyJournalDb = Inr (r, db)
    \<and> findJournalKey (purchaseKey ''o1'') db = Some p \<and> accountNet ''TAX_PAYABLE'' p + accountNet ''TAX_PAYABLE'' r = 0"
proof -
  obtain r db where run: "postServiceRefundCompleted ''j1'' ''j2'' 9 small_order emptyJournalDb = Inr (r, db)"
    using sample_refund by blast
  have o1: "so_id small_order = ''o1''" by (simp add: small_order_def)
  from refund_undoes_purchase [OF empty_journal_inv sample_fresh(2) run] show ?thesis
    unfolding o1 using run by blast
qed

theorem refund_repetition_conflicts_witness:
  "\<exists>r db. postServiceRefundCompleted ''j1'' ''j2'' 9 small_order emptyJournalDb = Inr (r, db)
    \<and> postServiceRefundCompleted ''j3'' ''j4'' 10 small_order db = Inl IdempotencyConflict"
proof -
  obtain r db where run: "postServiceRefundCompleted ''j1'' ''j2'' 9 small_order emptyJournalDb = Inr (r, db)"
    using sample_refund by blast
  then show ?thesis using refund_repetition_conflicts [OF empty_journal_inv sample_fresh(2) run] by blast
qed

end
