(* ===== verification/ProductFlow.thy ===== *)
theory ProductFlow
  imports Idempotency
begin

text \<open>
  The product flow of a purchase, \<open>src/lib/product-flow/state-machine.ts\<close> and \<open>service.ts\<close>: the
  26 states an order goes through from draft to active, the table of transitions, and the
  transaction that moves the rows of an owner (a recommendation session, a service order, an
  infrastructure order) by one transition under optimistic concurrency, with an idempotent log.
  Database columns hold texts, so a state read from a row may be absent or unknown.
\<close>

section \<open>The state machine\<close>

datatype ProductFlowState =
    DRAFT | UNDERSTANDING_CONFIRMED | REQUIREMENTS_COMPLETE | RECOMMENDED | PARCHIN_SELECTED
  | DELIVERY_CONFIGURED | QUOTED | ACTIVATION_REQUESTED | AUTH_REQUIRED | AWAITING_PAYMENT | PAID
  | PROVISION_APPROVED | PROVISIONING_SUBMITTED | PROVISIONING | HEALTH_CHECKING
  | WAITING_ADMIN_DELIVERY_APPROVAL | DELIVERED | ACTIVE | QUOTE_EXPIRED | PAYMENT_REVIEW
  | PROVISIONING_RETRYABLE | PROVISIONING_RECONCILING | PROVISIONING_MANUAL_REVIEW
  | HEALTH_CHECK_FAILED | DELIVERY_RETRYABLE | CANCELLED

definition productFlowStates :: "ProductFlowState list" where
  "productFlowStates =
     [DRAFT, UNDERSTANDING_CONFIRMED, REQUIREMENTS_COMPLETE, RECOMMENDED, PARCHIN_SELECTED,
      DELIVERY_CONFIGURED, QUOTED, ACTIVATION_REQUESTED, AUTH_REQUIRED, AWAITING_PAYMENT, PAID,
      PROVISION_APPROVED, PROVISIONING_SUBMITTED, PROVISIONING, HEALTH_CHECKING,
      WAITING_ADMIN_DELIVERY_APPROVAL, DELIVERED, ACTIVE, QUOTE_EXPIRED, PAYMENT_REVIEW,
      PROVISIONING_RETRYABLE, PROVISIONING_RECONCILING, PROVISIONING_MANUAL_REVIEW,
      HEALTH_CHECK_FAILED, DELIVERY_RETRYABLE, CANCELLED]"

fun productFlowStateText :: "ProductFlowState \<Rightarrow> string" where
  "productFlowStateText DRAFT = ''DRAFT''"
| "productFlowStateText UNDERSTANDING_CONFIRMED = ''UNDERSTANDING_CONFIRMED''"
| "productFlowStateText REQUIREMENTS_COMPLETE = ''REQUIREMENTS_COMPLETE''"
| "productFlowStateText RECOMMENDED = ''RECOMMENDED''"
| "productFlowStateText PARCHIN_SELECTED = ''PARCHIN_SELECTED''"
| "productFlowStateText DELIVERY_CONFIGURED = ''DELIVERY_CONFIGURED''"
| "productFlowStateText QUOTED = ''QUOTED''"
| "productFlowStateText ACTIVATION_REQUESTED = ''ACTIVATION_REQUESTED''"
| "productFlowStateText AUTH_REQUIRED = ''AUTH_REQUIRED''"
| "productFlowStateText AWAITING_PAYMENT = ''AWAITING_PAYMENT''"
| "productFlowStateText PAID = ''PAID''"
| "productFlowStateText PROVISION_APPROVED = ''PROVISION_APPROVED''"
| "productFlowStateText PROVISIONING_SUBMITTED = ''PROVISIONING_SUBMITTED''"
| "productFlowStateText PROVISIONING = ''PROVISIONING''"
| "productFlowStateText HEALTH_CHECKING = ''HEALTH_CHECKING''"
| "productFlowStateText WAITING_ADMIN_DELIVERY_APPROVAL = ''WAITING_ADMIN_DELIVERY_APPROVAL''"
| "productFlowStateText DELIVERED = ''DELIVERED''"
| "productFlowStateText ACTIVE = ''ACTIVE''"
| "productFlowStateText QUOTE_EXPIRED = ''QUOTE_EXPIRED''"
| "productFlowStateText PAYMENT_REVIEW = ''PAYMENT_REVIEW''"
| "productFlowStateText PROVISIONING_RETRYABLE = ''PROVISIONING_RETRYABLE''"
| "productFlowStateText PROVISIONING_RECONCILING = ''PROVISIONING_RECONCILING''"
| "productFlowStateText PROVISIONING_MANUAL_REVIEW = ''PROVISIONING_MANUAL_REVIEW''"
| "productFlowStateText HEALTH_CHECK_FAILED = ''HEALTH_CHECK_FAILED''"
| "productFlowStateText DELIVERY_RETRYABLE = ''DELIVERY_RETRYABLE''"
| "productFlowStateText CANCELLED = ''CANCELLED''"

text \<open>The type guard narrows a text to a state; \<open>None\<close> is its answer \<open>false\<close>.\<close>

definition isProductFlowState :: "string \<Rightarrow> ProductFlowState option" where
  "isProductFlowState value = List.find (\<lambda>s. productFlowStateText s = value) productFlowStates"

fun nextProductFlowStates :: "ProductFlowState \<Rightarrow> ProductFlowState list" where
  "nextProductFlowStates DRAFT = [UNDERSTANDING_CONFIRMED, CANCELLED]"
| "nextProductFlowStates UNDERSTANDING_CONFIRMED = [DRAFT, REQUIREMENTS_COMPLETE, CANCELLED]"
| "nextProductFlowStates REQUIREMENTS_COMPLETE = [UNDERSTANDING_CONFIRMED, RECOMMENDED, CANCELLED]"
| "nextProductFlowStates RECOMMENDED =
     [UNDERSTANDING_CONFIRMED, REQUIREMENTS_COMPLETE, PARCHIN_SELECTED, CANCELLED]"
| "nextProductFlowStates PARCHIN_SELECTED =
     [UNDERSTANDING_CONFIRMED, REQUIREMENTS_COMPLETE, RECOMMENDED, DELIVERY_CONFIGURED, CANCELLED]"
| "nextProductFlowStates DELIVERY_CONFIGURED =
     [UNDERSTANDING_CONFIRMED, PARCHIN_SELECTED, REQUIREMENTS_COMPLETE, QUOTED, CANCELLED]"
| "nextProductFlowStates QUOTED =
     [ACTIVATION_REQUESTED, AUTH_REQUIRED, AWAITING_PAYMENT, QUOTE_EXPIRED, DELIVERY_CONFIGURED,
      UNDERSTANDING_CONFIRMED, REQUIREMENTS_COMPLETE, CANCELLED]"
| "nextProductFlowStates AUTH_REQUIRED = [AWAITING_PAYMENT, QUOTE_EXPIRED, CANCELLED]"
| "nextProductFlowStates ACTIVATION_REQUESTED = [PROVISION_APPROVED, QUOTE_EXPIRED, CANCELLED]"
| "nextProductFlowStates AWAITING_PAYMENT = [PAID, PAYMENT_REVIEW, QUOTE_EXPIRED, CANCELLED]"
| "nextProductFlowStates PAID =
     [PROVISION_APPROVED, PROVISIONING_SUBMITTED, PROVISIONING_MANUAL_REVIEW, CANCELLED]"
| "nextProductFlowStates PROVISION_APPROVED =
     [PROVISIONING_SUBMITTED, PROVISIONING_MANUAL_REVIEW, CANCELLED]"
| "nextProductFlowStates PROVISIONING_SUBMITTED =
     [PROVISIONING, PROVISIONING_RECONCILING, PROVISIONING_RETRYABLE, PROVISIONING_MANUAL_REVIEW]"
| "nextProductFlowStates PROVISIONING =
     [HEALTH_CHECKING, PROVISIONING_RECONCILING, PROVISIONING_RETRYABLE, PROVISIONING_MANUAL_REVIEW]"
| "nextProductFlowStates HEALTH_CHECKING = [WAITING_ADMIN_DELIVERY_APPROVAL, HEALTH_CHECK_FAILED]"
| "nextProductFlowStates WAITING_ADMIN_DELIVERY_APPROVAL =
     [DELIVERED, PROVISIONING_MANUAL_REVIEW, CANCELLED]"
| "nextProductFlowStates DELIVERED = [ACTIVE, DELIVERY_RETRYABLE]"
| "nextProductFlowStates ACTIVE = []"
| "nextProductFlowStates QUOTE_EXPIRED =
     [UNDERSTANDING_CONFIRMED, REQUIREMENTS_COMPLETE, RECOMMENDED, DELIVERY_CONFIGURED, CANCELLED]"
| "nextProductFlowStates PAYMENT_REVIEW = [AWAITING_PAYMENT, PAID, CANCELLED]"
| "nextProductFlowStates PROVISIONING_RETRYABLE =
     [PROVISIONING_SUBMITTED, PROVISIONING_RECONCILING, PROVISIONING_MANUAL_REVIEW, CANCELLED]"
| "nextProductFlowStates PROVISIONING_RECONCILING =
     [PROVISIONING, HEALTH_CHECKING, PROVISIONING_RETRYABLE, PROVISIONING_MANUAL_REVIEW]"
| "nextProductFlowStates PROVISIONING_MANUAL_REVIEW =
     [PROVISIONING_RECONCILING, PROVISIONING_RETRYABLE, PROVISIONING_SUBMITTED, HEALTH_CHECKING, CANCELLED]"
| "nextProductFlowStates HEALTH_CHECK_FAILED = [HEALTH_CHECKING, PROVISIONING_MANUAL_REVIEW, CANCELLED]"
| "nextProductFlowStates DELIVERY_RETRYABLE = [DELIVERED, PROVISIONING_MANUAL_REVIEW, CANCELLED]"
| "nextProductFlowStates CANCELLED = []"

definition canTransitionProductFlow :: "ProductFlowState \<Rightarrow> ProductFlowState \<Rightarrow> bool" where
  "canTransitionProductFlow from to = (to \<in> set (nextProductFlowStates from))"

datatype FlowError =
    invalid_product_flow_transition ProductFlowState ProductFlowState
  | product_flow_owner_required
  | product_flow_state_conflict
  | product_flow_idempotency_conflict
  | product_flow_invariant_failed
  | flow_unique_violation
  | flow_json_error string

definition assertProductFlowTransition :: "ProductFlowState \<Rightarrow> ProductFlowState \<Rightarrow> FlowError + unit" where
  "assertProductFlowTransition from to =
     guardE (canTransitionProductFlow from to) (invalid_product_flow_transition from to)"

section \<open>Rows, owners and the log\<close>

record FlowRow =
  flowRowId :: string
  productFlowState :: "string option"
  productFlowRevision :: int

record SessionRow = FlowRow +
  selectedParchinLevel :: "string option"
  deliveryConfiguration :: "jsval option"

text \<open>A missing property, \<open>undefined\<close> and \<open>null\<close> are the same to the code (\<open>??\<close>).\<close>

record ProductFlowOwner =
  recommendationSessionId :: "string option"
  serviceOrderId :: "string option"
  infrastructureOrderId :: "string option"

record ProductFlowTransitionInput =
  flowOwner :: ProductFlowOwner
  flowFrom :: ProductFlowState
  flowTo :: ProductFlowState
  flowKey :: string
  flowReason :: string
  flowMetadata :: "jsval option"
  flowActor :: "string option"

record ProductFlowTransition =
  entrySessionId :: "string option"
  entryServiceOrderId :: "string option"
  entryInfrastructureId :: "string option"
  fromState :: string
  toState :: string
  entryReason :: string
  entryMetadata :: "jsval option"
  entryKey :: string
  entryOwner :: string
  fromRevision :: int
  toRevision :: int
  entryActor :: "string option"

record FlowDb =
  sessions :: "SessionRow list"
  serviceOrders :: "FlowRow list"
  infrastructureOrders :: "FlowRow list"
  flowLog :: "ProductFlowTransition list"

definition orDash :: "string option \<Rightarrow> string" where
  "orDash v = (case v of None \<Rightarrow> ''-'' | Some s \<Rightarrow> s)"

definition ownerFingerprint :: "ProductFlowOwner \<Rightarrow> FlowError + string" where
  "ownerFingerprint ow =
     (let vs = [orDash (recommendationSessionId ow), orDash (serviceOrderId ow),
                orDash (infrastructureOrderId ow)]
      in if list_all (\<lambda>v. v = ''-'') vs then Inl product_flow_owner_required
         else Inr (vs ! 0 @ '':'' @ vs ! 1 @ '':'' @ vs ! 2))"

text \<open>An id is looked up only when it is truthy: present and not the empty text.\<close>

definition truthyId :: "string option \<Rightarrow> string option" where
  "truthyId v = (case v of None \<Rightarrow> None | Some s \<Rightarrow> if s = '''' then None else Some s)"

definition byId :: "string \<Rightarrow> 'a FlowRow_scheme list \<Rightarrow> 'a FlowRow_scheme option" where
  "byId i t = findRow (\<lambda>r. flowRowId r = i) t"

definition flowOf :: "string option \<Rightarrow> 'a FlowRow_scheme list \<Rightarrow> (string option \<times> int) list" where
  "flowOf v t = (case truthyId v of None \<Rightarrow> [] | Some i \<Rightarrow>
     (case byId i t of None \<Rightarrow> [] | Some r \<Rightarrow> [(productFlowState r, productFlowRevision r)]))"

definition presentRows :: "FlowDb \<Rightarrow> ProductFlowOwner \<Rightarrow> (string option \<times> int) list" where
  "presentRows d ow = flowOf (recommendationSessionId ow) (sessions d)
     @ flowOf (serviceOrderId ow) (serviceOrders d)
     @ flowOf (infrastructureOrderId ow) (infrastructureOrders d)"

definition normalizedState :: "string option \<Rightarrow> ProductFlowState option" where
  "normalizedState v = (case v of None \<Rightarrow> Some DRAFT | Some s \<Rightarrow> isProductFlowState s)"

definition currentOwnerState ::
  "FlowDb \<Rightarrow> ProductFlowOwner \<Rightarrow> FlowError + ProductFlowState \<times> int" where
  "currentOwnerState d ow =
     (let rows = map (\<lambda>(s, n). (normalizedState s, n)) (presentRows d ow) in
      if rows = [] then Inl product_flow_state_conflict
      else if (\<exists>r \<in> set rows. fst r = None) \<or> (\<exists>r \<in> set rows. r \<noteq> hd rows)
      then Inl product_flow_state_conflict
      else Inr (the (fst (hd rows)), snd (hd rows)))"

definition assertProductFlowOwnerStateTx ::
  "ProductFlowOwner \<Rightarrow> ProductFlowState \<Rightarrow> FlowDb \<Rightarrow> FlowError + ProductFlowState \<times> int" where
  "assertProductFlowOwnerStateTx ow expected d =
     bindE (currentOwnerState d ow) (\<lambda>current.
     bindE (guardE (fst current = expected) product_flow_state_conflict) (\<lambda>_. Inr current))"

section \<open>One transition\<close>

definition isJsonObject :: "jsval option \<Rightarrow> bool" where
  "isJsonObject v = (case v of Some (JObj _) \<Rightarrow> True | _ \<Rightarrow> False)"

definition assertTransitionInvariant :: "FlowDb \<Rightarrow> ProductFlowTransitionInput \<Rightarrow> FlowError + unit" where
  "assertTransitionInvariant d i =
     (case truthyId (recommendationSessionId (flowOwner i)) of None \<Rightarrow> Inr ()
      | Some sid \<Rightarrow>
        if flowTo i \<notin> {DELIVERY_CONFIGURED, QUOTED} then Inr ()
        else (case byId sid (sessions d) of None \<Rightarrow> Inl product_flow_invariant_failed
          | Some r \<Rightarrow>
            guardE (truthyId (selectedParchinLevel r) \<noteq> None \<and> isJsonObject (deliveryConfiguration r))
              product_flow_invariant_failed))"

text \<open>The guards of the three \<open>updateMany\<close> calls: a session in \<open>DRAFT\<close> may have no state yet.\<close>

definition sessionMatches :: "ProductFlowState \<Rightarrow> int \<Rightarrow> string \<Rightarrow> 'a FlowRow_scheme \<Rightarrow> bool" where
  "sessionMatches from revn i r \<longleftrightarrow> flowRowId r = i \<and> productFlowRevision r = revn \<and>
     (productFlowState r = Some (productFlowStateText from) \<or> from = DRAFT \<and> productFlowState r = None)"

definition orderMatches :: "ProductFlowState \<Rightarrow> int \<Rightarrow> string \<Rightarrow> 'a FlowRow_scheme \<Rightarrow> bool" where
  "orderMatches from revn i r \<longleftrightarrow> flowRowId r = i \<and>
     productFlowState r = Some (productFlowStateText from) \<and> productFlowRevision r = revn"

definition moveRow :: "ProductFlowState \<Rightarrow> 'a FlowRow_scheme \<Rightarrow> 'a FlowRow_scheme" where
  "moveRow to r = r\<lparr>productFlowState := Some (productFlowStateText to),
     productFlowRevision := productFlowRevision r + 1\<rparr>"

text \<open>\<open>updateMany\<close> on the id of an owner, if there is one; anything but one updated row is a conflict.\<close>

definition moveOwned ::
  "(string \<Rightarrow> 'a FlowRow_scheme \<Rightarrow> bool) \<Rightarrow> ProductFlowState \<Rightarrow> string option \<Rightarrow>
   'a FlowRow_scheme list \<Rightarrow> FlowError + 'a FlowRow_scheme list" where
  "moveOwned matches to v t = (case truthyId v of None \<Rightarrow> Inr t
     | Some i \<Rightarrow> if countRows (matches i) t = 1 then Inr (updateRows (matches i) (moveRow to) t)
               else Inl product_flow_state_conflict)"

definition sameMetadata :: "jsval option \<Rightarrow> jsval option \<Rightarrow> FlowError + bool" where
  "sameMetadata m n =
     (case (stableJson (case m of None \<Rightarrow> JNull | Some v \<Rightarrow> v), stableJson (case n of None \<Rightarrow> JNull | Some v \<Rightarrow> v)) of
        (Inl e, _) \<Rightarrow> Inl (flow_json_error e)
      | (Inr _, Inl e) \<Rightarrow> Inl (flow_json_error e)
      | (Inr a, Inr b) \<Rightarrow> Inr (a = b))"

definition replayTransition ::
  "string \<Rightarrow> ProductFlowTransitionInput \<Rightarrow> ProductFlowTransition \<Rightarrow> FlowError + ProductFlowTransition" where
  "replayTransition fp i e =
     bindE (guardE (entryOwner e = fp \<and> fromState e = productFlowStateText (flowFrom i) \<and>
        toState e = productFlowStateText (flowTo i) \<and> entryReason e = flowReason i)
        product_flow_idempotency_conflict) (\<lambda>_.
     bindE (sameMetadata (entryMetadata e) (flowMetadata i)) (\<lambda>same.
     bindE (guardE same product_flow_idempotency_conflict) (\<lambda>_. Inr e)))"

definition transitionEntry :: "string \<Rightarrow> int \<Rightarrow> ProductFlowTransitionInput \<Rightarrow> ProductFlowTransition" where
  "transitionEntry fp revn i =
     \<lparr>entrySessionId = recommendationSessionId (flowOwner i),
      entryServiceOrderId = serviceOrderId (flowOwner i),
      entryInfrastructureId = infrastructureOrderId (flowOwner i),
      fromState = productFlowStateText (flowFrom i), toState = productFlowStateText (flowTo i),
      entryReason = flowReason i, entryMetadata = flowMetadata i, entryKey = flowKey i, entryOwner = fp,
      fromRevision = revn, toRevision = revn + 1, entryActor = flowActor i\<rparr>"

text \<open>
  The transaction runs under \<open>READ COMMITTED\<close>: other transactions may commit between its reads and
  its writes. So the model has the two halves apart. The first half reads a database and answers
  either with the log entry of an earlier run or with the revision to write against; the second half
  performs the guarded updates and the insertion on the database as it is by then.
\<close>

definition readTransition ::
  "ProductFlowTransitionInput \<Rightarrow> FlowDb \<Rightarrow> FlowError + string \<times> (ProductFlowTransition + int)" where
  "readTransition i d =
     bindE (assertProductFlowTransition (flowFrom i) (flowTo i)) (\<lambda>_.
     bindE (ownerFingerprint (flowOwner i)) (\<lambda>fp.
     case findRow (\<lambda>e. entryKey e = flowKey i) (flowLog d) of
       Some e \<Rightarrow> bindE (replayTransition fp i e) (\<lambda>e. Inr (fp, Inl e))
     | None \<Rightarrow>
       bindE (currentOwnerState d (flowOwner i)) (\<lambda>current.
       bindE (guardE (fst current = flowFrom i) product_flow_state_conflict) (\<lambda>_.
       bindE (assertTransitionInvariant d i) (\<lambda>_. Inr (fp, Inr (snd current)))))))"

definition writeTransition ::
  "ProductFlowTransitionInput \<Rightarrow> string \<times> (ProductFlowTransition + int) \<Rightarrow> FlowDb \<Rightarrow>
   FlowError + ProductFlowTransition \<times> FlowDb" where
  "writeTransition i plan d = (case snd plan of
     Inl e \<Rightarrow> Inr (e, d)
   | Inr revn \<Rightarrow>
     bindE (moveOwned (sessionMatches (flowFrom i) revn) (flowTo i)
       (recommendationSessionId (flowOwner i)) (sessions d)) (\<lambda>ss.
     bindE (moveOwned (orderMatches (flowFrom i) revn) (flowTo i)
       (serviceOrderId (flowOwner i)) (serviceOrders d)) (\<lambda>so.
     bindE (moveOwned (orderMatches (flowFrom i) revn) (flowTo i)
       (infrastructureOrderId (flowOwner i)) (infrastructureOrders d)) (\<lambda>io.
     bindE (guardE (\<forall>e \<in> set (flowLog d). entryKey e \<noteq> flowKey i) flow_unique_violation) (\<lambda>_.
     let e = transitionEntry (fst plan) revn i in
     Inr (e, \<lparr>sessions = ss, serviceOrders = so, infrastructureOrders = io, flowLog = flowLog d @ [e]\<rparr>))))))"

text \<open>Undisturbed, both halves see the same database.\<close>

definition transitionProductFlowTx ::
  "ProductFlowTransitionInput \<Rightarrow> FlowDb \<Rightarrow> FlowError + ProductFlowTransition \<times> FlowDb" where
  "transitionProductFlowTx i d = bindE (readTransition i d) (\<lambda>plan. writeTransition i plan d)"

text \<open>\<open>transitionProductFlow\<close> wraps it in a transaction of its own: a failure leaves the database as it was.\<close>

definition transitionProductFlow ::
  "ProductFlowTransitionInput \<Rightarrow> FlowDb \<Rightarrow> (FlowError + ProductFlowTransition) \<times> FlowDb" where
  "transitionProductFlow i d = (case transitionProductFlowTx i d of
     Inl e \<Rightarrow> (Inl e, d) | Inr (e, d') \<Rightarrow> (Inr e, d'))"

section \<open>The catalog checkout\<close>

definition catalogTransitions :: "(ProductFlowState \<times> ProductFlowState \<times> string) list" where
  "catalogTransitions =
     [(DRAFT, UNDERSTANDING_CONFIRMED, ''catalog_need_confirmed''),
      (UNDERSTANDING_CONFIRMED, REQUIREMENTS_COMPLETE, ''catalog_requirements_confirmed''),
      (REQUIREMENTS_COMPLETE, RECOMMENDED, ''catalog_plan_selected''),
      (RECOMMENDED, PARCHIN_SELECTED, ''catalog_parchin_selected''),
      (PARCHIN_SELECTED, DELIVERY_CONFIGURED, ''catalog_delivery_configured''),
      (DELIVERY_CONFIGURED, QUOTED, ''catalog_selection_quoted'')]"

definition catalogInput ::
  "string \<Rightarrow> string \<Rightarrow> string option \<Rightarrow> jsval option \<Rightarrow>
   nat \<times> ProductFlowState \<times> ProductFlowState \<times> string \<Rightarrow> ProductFlowTransitionInput" where
  "catalogInput sid key actor meta = (\<lambda>(index, from, to, reason).
     \<lparr>flowOwner = \<lparr>recommendationSessionId = Some sid, serviceOrderId = None, infrastructureOrderId = None\<rparr>,
      flowFrom = from, flowTo = to, flowKey = key @ '':transition:'' @ jsNumberText (int index),
      flowReason = reason, flowMetadata = meta, flowActor = actor\<rparr>)"

definition bootstrapCatalogCheckoutFlowTx ::
  "string \<Rightarrow> string \<Rightarrow> string option \<Rightarrow> jsval option \<Rightarrow> FlowDb \<Rightarrow> FlowError + FlowDb" where
  "bootstrapCatalogCheckoutFlowTx sid key actor meta d =
     foldE (\<lambda>d i. bindE (transitionProductFlowTx i d) (\<lambda>r. Inr (snd r))) d
       (map (catalogInput sid key actor meta) (enumerate 0 catalogTransitions))"

section \<open>States and their texts\<close>

lemma productFlowStates_complete [simp]: "s \<in> set productFlowStates"
  by (cases s) (simp_all add: productFlowStates_def)

lemma isProductFlowState_text [simp]: "isProductFlowState (productFlowStateText s) = Some s"
  by (cases s) (simp_all add: isProductFlowState_def productFlowStates_def)

lemma productFlowStateText_inject [simp]: "productFlowStateText s = productFlowStateText t \<longleftrightarrow> s = t"
  using isProductFlowState_text option.inject by metis

lemma isProductFlowState_Some: "isProductFlowState v = Some s \<longleftrightarrow> v = productFlowStateText s"
proof
  assume "isProductFlowState v = Some s"
  then show "v = productFlowStateText s"
    by (auto simp: isProductFlowState_def find_Some_iff)
qed simp

lemma normalizedState_Some:
  "normalizedState v = Some s \<longleftrightarrow> v = Some (productFlowStateText s) \<or> v = None \<and> s = DRAFT"
  by (auto simp: normalizedState_def isProductFlowState_Some split: option.splits)

section \<open>One view of the three tables\<close>

datatype FlowTable = Sessions | ServiceOrders | InfrastructureOrders

text \<open>What the flow knows of a row: the text of its state and its revision.\<close>

definition stateRev :: "'a FlowRow_scheme \<Rightarrow> string option \<times> int" where
  "stateRev r = (productFlowState r, productFlowRevision r)"

definition flowView :: "FlowDb \<Rightarrow> FlowTable \<Rightarrow> string \<Rightarrow> (string option \<times> int) option" where
  "flowView d t i = (case t of
     Sessions \<Rightarrow> map_option stateRev (byId i (sessions d))
   | ServiceOrders \<Rightarrow> map_option stateRev (byId i (serviceOrders d))
   | InfrastructureOrders \<Rightarrow> map_option stateRev (byId i (infrastructureOrders d)))"

definition ownedId :: "FlowTable \<Rightarrow> ProductFlowOwner \<Rightarrow> string option" where
  "ownedId t ow = truthyId (case t of
     Sessions \<Rightarrow> recommendationSessionId ow
   | ServiceOrders \<Rightarrow> serviceOrderId ow
   | InfrastructureOrders \<Rightarrow> infrastructureOrderId ow)"

definition entryId :: "FlowTable \<Rightarrow> ProductFlowTransition \<Rightarrow> string option" where
  "entryId t e = truthyId (case t of
     Sessions \<Rightarrow> entrySessionId e | ServiceOrders \<Rightarrow> entryServiceOrderId e
   | InfrastructureOrders \<Rightarrow> entryInfrastructureId e)"

definition uniqueRows :: "FlowDb \<Rightarrow> bool" where
  "uniqueRows d \<longleftrightarrow> distinct (map flowRowId (sessions d)) \<and> distinct (map flowRowId (serviceOrders d)) \<and>
     distinct (map flowRowId (infrastructureOrders d))"

lemma flowRowId_moveRow [simp]: "flowRowId (moveRow to r) = flowRowId r"
  by (simp add: moveRow_def)

lemma stateRev_moveRow [simp]: "stateRev (moveRow to r) = (Some (productFlowStateText to), snd (stateRev r) + 1)"
  by (simp add: moveRow_def stateRev_def)

lemma sessionMatches_eq:
  "sessionMatches from n i r \<longleftrightarrow> flowRowId r = i \<and> normalizedState (fst (stateRev r)) = Some from \<and> snd (stateRev r) = n"
  by (auto simp: sessionMatches_def normalizedState_Some stateRev_def)

lemma orderMatches_eq:
  "orderMatches from n i r \<longleftrightarrow> flowRowId r = i \<and> fst (stateRev r) = Some (productFlowStateText from) \<and> snd (stateRev r) = n"
  by (auto simp: orderMatches_def stateRev_def)

lemma byId_Some: "byId i t = Some r \<Longrightarrow> flowRowId r = i"
  by (auto simp: byId_def dest: findRow_Some)

text \<open>A guarded update that counts one row rewrites exactly the row with the id.\<close>

lemma moveOwned_Inr:
  assumes "moveOwned m to v t = Inr t'" and "distinct (map flowRowId t)"
    and m: "\<And>i r. m i r \<longleftrightarrow> flowRowId r = i \<and> q r"
  shows "map flowRowId t' = map flowRowId t"
    and "truthyId v = Some i \<Longrightarrow> \<exists>r. byId i t = Some r \<and> q r \<and> byId i t' = Some (moveRow to r)"
    and "truthyId v \<noteq> Some j \<Longrightarrow> byId j t' = byId j t"
proof -
  have mi: "m i = (\<lambda>r. flowRowId r = i \<and> q r)" for i using m by blast
  have ids: "byId j (updateRows (m i) (moveRow to) t) = map_option (\<lambda>r. if m i r then moveRow to r else r) (byId j t)" for i j
    unfolding byId_def by (rule findRow_updateRows) simp
  show "map flowRowId t' = map flowRowId t"
    using assms(1) by (auto simp: moveOwned_def map_updateRows split: option.splits if_splits)
  { assume i: "truthyId v = Some i"
    then have one: "countRows (\<lambda>r. flowRowId r = i \<and> q r) t = 1" and t': "t' = updateRows (m i) (moveRow to) t"
      using assms(1) by (auto simp: moveOwned_def mi split: if_splits)
    from one [unfolded countRows_eq_1_iff [OF assms(2)]] obtain r where "byId i t = Some r" "q r"
      by (auto simp: byId_def)
    then show "\<exists>r. byId i t = Some r \<and> q r \<and> byId i t' = Some (moveRow to r)"
      using byId_Some [of i t r] by (auto simp: t' ids m) }
  assume "truthyId v \<noteq> Some j"
  then show "byId j t' = byId j t"
    using assms(1) byId_Some [of j t]
    by (cases "byId j t") (auto simp: moveOwned_def ids m split: option.splits if_splits)
qed

lemma moveOwned_ok:
  assumes "\<And>i. truthyId v = Some i \<Longrightarrow> \<exists>r. byId i t = Some r \<and> q r" and "distinct (map flowRowId t)"
    and "\<And>i r. m i r \<longleftrightarrow> flowRowId r = i \<and> q r"
  shows "isOk (moveOwned m to v t)"
proof (cases "truthyId v")
  case (Some i)
  have mi: "m i = (\<lambda>r. flowRowId r = i \<and> q r)" using assms(3) by blast
  have "countRows (\<lambda>r. flowRowId r = i \<and> q r) t = 1"
    using assms(1) [OF Some] by (subst countRows_eq_1_iff [OF assms(2)]) (simp add: byId_def)
  then show ?thesis by (simp add: moveOwned_def Some mi)
qed (simp add: moveOwned_def)

section \<open>The abstract transition\<close>

text \<open>
  What a transition promises: it is in the table, the rows of the owner all stand at the expected
  state and revision, they all go to the next state and revision, and no other row changes.
\<close>

definition flowMove ::
  "ProductFlowTransitionInput \<Rightarrow> int \<Rightarrow> (FlowTable \<Rightarrow> string \<Rightarrow> (string option \<times> int) option) \<Rightarrow>
   (FlowTable \<Rightarrow> string \<Rightarrow> (string option \<times> int) option) \<Rightarrow> bool" where
  "flowMove i n V V' \<longleftrightarrow> canTransitionProductFlow (flowFrom i) (flowTo i) \<and>
     (\<exists>t. ownedId t (flowOwner i) \<noteq> None) \<and>
     (\<forall>t j. ownedId t (flowOwner i) = Some j \<longrightarrow>
        (\<exists>s. V t j = Some (s, n) \<and> normalizedState s = Some (flowFrom i))) \<and>
     (\<forall>t j. V' t j = (if ownedId t (flowOwner i) = Some j
        then Some (Some (productFlowStateText (flowTo i)), n + 1) else V t j))"

lemma flowOf_Some: "truthyId v = Some i \<Longrightarrow> byId i t = Some r \<Longrightarrow> flowOf v t = [stateRev r]"
  by (simp add: flowOf_def stateRev_def)

lemma presentRows_view:
  "set (presentRows d ow) = {x. \<exists>t i. ownedId t ow = Some i \<and> flowView d t i = Some x}"
proof -
  have one: "set (flowOf v t) = {x. \<exists>i. truthyId v = Some i \<and> map_option stateRev (byId i t) = Some x}"
    for v and t :: "'a FlowRow_scheme list"
    by (cases "truthyId v"; cases "byId (the (truthyId v)) t") (auto simp: flowOf_def stateRev_def)
  show ?thesis
  proof (rule set_eqI, rule iffI)
    fix x
    assume "x \<in> set (presentRows d ow)"
    then consider "x \<in> set (flowOf (recommendationSessionId ow) (sessions d))"
      | "x \<in> set (flowOf (serviceOrderId ow) (serviceOrders d))"
      | "x \<in> set (flowOf (infrastructureOrderId ow) (infrastructureOrders d))"
      by (auto simp: presentRows_def)
    then show "x \<in> {x. \<exists>t i. ownedId t ow = Some i \<and> flowView d t i = Some x}"
    proof cases
      case 1
      then have "\<exists>i. ownedId Sessions ow = Some i \<and> flowView d Sessions i = Some x"
        unfolding one ownedId_def flowView_def by simp
      then show ?thesis by blast
    next
      case 2
      then have "\<exists>i. ownedId ServiceOrders ow = Some i \<and> flowView d ServiceOrders i = Some x"
        unfolding one ownedId_def flowView_def by simp
      then show ?thesis by blast
    next
      case 3
      then have "\<exists>i. ownedId InfrastructureOrders ow = Some i \<and> flowView d InfrastructureOrders i = Some x"
        unfolding one ownedId_def flowView_def by simp
      then show ?thesis by blast
    qed
  next
    fix x
    assume "x \<in> {x. \<exists>t i. ownedId t ow = Some i \<and> flowView d t i = Some x}"
    then obtain t i where ti: "ownedId t ow = Some i" "flowView d t i = Some x" by blast
    show "x \<in> set (presentRows d ow)"
      by (cases t) (use ti in \<open>auto simp: presentRows_def one ownedId_def flowView_def\<close>)
  qed
qed

lemma agreeing_rows:
  "(if rows = [] then Inl e
    else if (\<exists>r \<in> set rows. fst r = None) \<or> (\<exists>r \<in> set rows. r \<noteq> hd rows) then Inl e
    else Inr (the (fst (hd rows)), snd (hd rows))) = Inr (s, n) \<longleftrightarrow>
   rows \<noteq> [] \<and> (\<forall>r \<in> set rows. r = (Some s, n))"
proof (cases rows)
  case (Cons r rs)
  obtain v m where r: "r = (v, m)" by (cases r)
  show ?thesis unfolding Cons r by (cases v) auto
qed simp

text \<open>The rows that are present agree: their common state and revision are the owner's.\<close>

lemma currentOwnerState_Inr:
  "currentOwnerState d ow = Inr (s, n) \<longleftrightarrow>
     (\<exists>t i x. ownedId t ow = Some i \<and> flowView d t i = Some x) \<and>
     (\<forall>t i v m. ownedId t ow = Some i \<longrightarrow> flowView d t i = Some (v, m) \<longrightarrow> normalizedState v = Some s \<and> m = n)"
proof -
  let ?R = "presentRows d ow" and ?f = "\<lambda>(v, m). (normalizedState v, m)"
  have "currentOwnerState d ow = Inr (s, n) \<longleftrightarrow> ?R \<noteq> [] \<and> (\<forall>x \<in> set (map ?f ?R). x = (Some s, n))"
    unfolding currentOwnerState_def by (simp only: Let_def agreeing_rows) simp
  also have "?R \<noteq> [] \<longleftrightarrow> (\<exists>x. x \<in> set ?R)" by (cases ?R) auto
  finally show ?thesis unfolding set_map presentRows_view by fastforce
qed

lemma writeTransition_move:
  assumes "writeTransition i (fp, Inr n) d = Inr (e, d')" and "uniqueRows d"
  shows "e = transitionEntry fp n i" and "flowLog d' = flowLog d @ [e]"
    and "\<forall>x \<in> set (flowLog d). entryKey x \<noteq> flowKey i" and "uniqueRows d'"
    and "ownedId t (flowOwner i) = Some j \<Longrightarrow> \<exists>s. flowView d t j = Some (s, n) \<and>
      normalizedState s = Some (flowFrom i)"
    and "flowView d' t j = (if ownedId t (flowOwner i) = Some j
      then Some (Some (productFlowStateText (flowTo i)), n + 1) else flowView d t j)"
proof -
  from assms(1) obtain ss so io where
    ss: "moveOwned (sessionMatches (flowFrom i) n) (flowTo i) (recommendationSessionId (flowOwner i)) (sessions d) = Inr ss"
    and so: "moveOwned (orderMatches (flowFrom i) n) (flowTo i) (serviceOrderId (flowOwner i)) (serviceOrders d) = Inr so"
    and io: "moveOwned (orderMatches (flowFrom i) n) (flowTo i) (infrastructureOrderId (flowOwner i)) (infrastructureOrders d) = Inr io"
    and rest: "\<forall>x \<in> set (flowLog d). entryKey x \<noteq> flowKey i" "e = transitionEntry fp n i"
      "d' = \<lparr>sessions = ss, serviceOrders = so, infrastructureOrders = io, flowLog = flowLog d @ [e]\<rparr>"
    by (auto simp: writeTransition_def bindE_eq_Inr guardE_eq_Inr Let_def)
  show "e = transitionEntry fp n i" and "flowLog d' = flowLog d @ [e]"
    and "\<forall>x \<in> set (flowLog d). entryKey x \<noteq> flowKey i"
    using rest by simp_all
  have u: "distinct (map flowRowId (sessions d))" "distinct (map flowRowId (serviceOrders d))"
    "distinct (map flowRowId (infrastructureOrders d))"
    using assms(2) by (simp_all add: uniqueRows_def)
  note S = moveOwned_Inr [OF ss u(1) sessionMatches_eq]
  note O = moveOwned_Inr [OF so u(2) orderMatches_eq]
  note I = moveOwned_Inr [OF io u(3) orderMatches_eq]
  show "uniqueRows d'" using u S(1) O(1) I(1) by (simp add: uniqueRows_def rest)
  show "\<exists>s. flowView d t j = Some (s, n) \<and> normalizedState s = Some (flowFrom i)"
    if "ownedId t (flowOwner i) = Some j"
  proof (cases t)
    case Sessions
    then show ?thesis using S(2) [of j] that by (auto simp: ownedId_def flowView_def stateRev_def)
  next
    case ServiceOrders
    then show ?thesis using O(2) [of j] that by (auto simp: ownedId_def flowView_def stateRev_def normalizedState_Some)
  next
    case InfrastructureOrders
    then show ?thesis using I(2) [of j] that by (auto simp: ownedId_def flowView_def stateRev_def normalizedState_Some)
  qed
  show "flowView d' t j = (if ownedId t (flowOwner i) = Some j
      then Some (Some (productFlowStateText (flowTo i)), n + 1) else flowView d t j)"
  proof (cases t)
    case Sessions
    then show ?thesis using S(2,3) [of j] by (auto simp: ownedId_def flowView_def rest)
  next
    case ServiceOrders
    then show ?thesis using O(2,3) [of j] by (auto simp: ownedId_def flowView_def rest)
  next
    case InfrastructureOrders
    then show ?thesis using I(2,3) [of j] by (auto simp: ownedId_def flowView_def rest)
  qed
qed

lemma readTransition_Inr:
  assumes "readTransition i d = Inr (fp, plan)"
  shows "canTransitionProductFlow (flowFrom i) (flowTo i)" and "ownerFingerprint (flowOwner i) = Inr fp"
    and "plan = Inl e \<Longrightarrow> findRow (\<lambda>x. entryKey x = flowKey i) (flowLog d) = Some e \<and>
      replayTransition fp i e = Inr e"
    and "plan = Inr n \<Longrightarrow> currentOwnerState d (flowOwner i) = Inr (flowFrom i, n)"
  using assms
  by (auto simp: readTransition_def bindE_eq_Inr guardE_eq_Inr assertProductFlowTransition_def replayTransition_def
      split: option.splits)

text \<open>Whatever other transactions did between the reads and the writes, the writes are the abstract move.\<close>

lemma interleaved_transition:
  assumes "readTransition i d0 = Inr (fp, plan)" and "writeTransition i (fp, plan) d = Inr (e, d')"
    and "uniqueRows d"
  shows "(plan = Inl e \<and> d' = d \<and> e \<in> set (flowLog d0)) \<or>
    (\<exists>n. plan = Inr n \<and> flowMove i n (flowView d) (flowView d') \<and> e = transitionEntry fp n i \<and>
      flowLog d' = flowLog d @ [e])"
proof (cases plan)
  case (Inl x)
  then show ?thesis
    using assms(2) readTransition_Inr(3) [OF assms(1) Inl] by (auto simp: writeTransition_def dest: findRow_Some)
next
  case (Inr n)
  note W = writeTransition_move [OF assms(2) [unfolded Inr] assms(3)]
  have "\<exists>t. ownedId t (flowOwner i) \<noteq> None"
    using readTransition_Inr(4) [OF assms(1) Inr] by (auto simp: currentOwnerState_Inr)
  then have "flowMove i n (flowView d) (flowView d')"
    using readTransition_Inr(1) [OF assms(1)] W(5,6) unfolding flowMove_def by blast
  then show ?thesis using Inr W(1,2) by blast
qed

text \<open>C24: the product-flow transaction implements the abstract state machine, also when other transactions
  commit between its reads (of \<open>d0\<close>) and its writes (on \<open>d\<close>). If it returns, it either
  answered a repetition with the old log entry and changed nothing, or the transition is in the table, every row of
  the owner stood at the expected state and at one common revision when it was written, all of them moved to the
  next state and revision, no other row changed, and one log entry was added.\<close>

theorem transition_refines_state_machine:
  assumes "bindE (readTransition i d0) (\<lambda>plan. writeTransition i plan d) = Inr (e, d')" and "uniqueRows d"
  shows "(d' = d \<and> e \<in> set (flowLog d0) \<and> entryKey e = flowKey i) \<or>
    (\<exists>fp n. flowMove i n (flowView d) (flowView d') \<and> e = transitionEntry fp n i \<and> flowLog d' = flowLog d @ [e])"
proof -
  from assms(1) obtain fp plan where p: "readTransition i d0 = Inr (fp, plan)" "writeTransition i (fp, plan) d = Inr (e, d')"
    by (auto simp: bindE_eq_Inr)
  show ?thesis
  proof (cases plan)
    case (Inl x)
    have "findRow (\<lambda>x. entryKey x = flowKey i) (flowLog d0) = Some x"
      using readTransition_Inr(3) [OF p(1) Inl] by blast
    moreover have "x = e" and "d' = d" using p(2) Inl by (simp_all add: writeTransition_def)
    ultimately have "d' = d \<and> e \<in> set (flowLog d0) \<and> entryKey e = flowKey i"
      by (auto dest: findRow_Some)
    then show ?thesis by (rule disjI1)
  next
    case (Inr n)
    then have "\<exists>n. flowMove i n (flowView d) (flowView d') \<and> e = transitionEntry fp n i \<and> flowLog d' = flowLog d @ [e]"
      using interleaved_transition [OF p assms(2)] by auto
    then show ?thesis by metis
  qed
qed

section \<open>Histories\<close>

text \<open>
  Reachable databases: rows appear with fresh ids in the state their creator gives them (\<open>born\<close>
  records it), a session's choices may change at any time, and transitions run with their reads on any
  earlier database.
\<close>

definition entriesOf :: "FlowTable \<Rightarrow> string \<Rightarrow> FlowDb \<Rightarrow> ProductFlowTransition list" where
  "entriesOf t j d = filter (\<lambda>e. entryId t e = Some j) (flowLog d)"

definition addRow :: "FlowTable \<Rightarrow> string \<Rightarrow> string option \<times> int \<Rightarrow> FlowDb \<Rightarrow> FlowDb" where
  "addRow t j x d = (case t of
     Sessions \<Rightarrow> d\<lparr>sessions := sessions d @ [\<lparr>flowRowId = j, productFlowState = fst x,
       productFlowRevision = snd x, selectedParchinLevel = None, deliveryConfiguration = None\<rparr>]\<rparr>
   | ServiceOrders \<Rightarrow> d\<lparr>serviceOrders := serviceOrders d @ [\<lparr>flowRowId = j, productFlowState = fst x,
       productFlowRevision = snd x\<rparr>]\<rparr>
   | InfrastructureOrders \<Rightarrow> d\<lparr>infrastructureOrders := infrastructureOrders d @ [\<lparr>flowRowId = j,
       productFlowState = fst x, productFlowRevision = snd x\<rparr>]\<rparr>)"

definition configureSession :: "string \<Rightarrow> string option \<Rightarrow> jsval option \<Rightarrow> FlowDb \<Rightarrow> FlowDb" where
  "configureSession j level config d = d\<lparr>sessions := updateRows (\<lambda>r. flowRowId r = j)
     (\<lambda>r. r\<lparr>selectedParchinLevel := level, deliveryConfiguration := config\<rparr>) (sessions d)\<rparr>"

inductive flowReach ::
  "(FlowTable \<Rightarrow> string \<Rightarrow> (string option \<times> int) option) \<Rightarrow> FlowDb \<Rightarrow> bool" where
  start: "flowReach (\<lambda>_ _. None) \<lparr>sessions = [], serviceOrders = [], infrastructureOrders = [], flowLog = []\<rparr>"
| create: "flowReach born d \<Longrightarrow> flowView d t j = None \<Longrightarrow> j \<noteq> '''' \<Longrightarrow>
    flowReach (\<lambda>u i. if u = t \<and> i = j then Some x else born u i) (addRow t j x d)"
| configure: "flowReach born d \<Longrightarrow> flowReach born (configureSession j level config d)"
| transition: "flowReach born d \<Longrightarrow> readTransition i d0 = Inr plan \<Longrightarrow> writeTransition i plan d = Inr (e, d') \<Longrightarrow>
    flowReach born d'"

text \<open>A history of a row: transitions of the table, each from where the previous one ended.\<close>

fun flowHistory :: "string option \<times> int \<Rightarrow> ProductFlowTransition list \<Rightarrow> string option \<times> int \<Rightarrow> bool" where
  "flowHistory a [] b \<longleftrightarrow> a = b"
| "flowHistory a (e # es) b \<longleftrightarrow>
     (\<exists>s t. normalizedState (fst a) = Some s \<and> fromState e = productFlowStateText s \<and>
       toState e = productFlowStateText t \<and> canTransitionProductFlow s t) \<and>
     fromRevision e = snd a \<and> toRevision e = snd a + 1 \<and>
     flowHistory (Some (toState e), snd a + 1) es b"

lemma flowHistory_append:
  "flowHistory a (xs @ ys) c \<longleftrightarrow> (\<exists>b. flowHistory a xs b \<and> flowHistory b ys c)"
  by (induction a xs c rule: flowHistory.induct) auto

lemma flowHistory_revision: "flowHistory a es b \<Longrightarrow> snd b = snd a + int (length es)"
  by (induction a es b rule: flowHistory.induct) auto

text \<open>A row that does not exist has no birth and no entries.\<close>

definition rowHistory ::
  "(string option \<times> int) option \<Rightarrow> ProductFlowTransition list \<Rightarrow> (string option \<times> int) option \<Rightarrow> bool" where
  "rowHistory b es v \<longleftrightarrow> (case v of None \<Rightarrow> b = None \<and> es = [] | Some x \<Rightarrow> \<exists>a. b = Some a \<and> flowHistory a es x)"

lemma rowHistory_simps [simp]:
  "rowHistory b es None \<longleftrightarrow> b = None \<and> es = []"
  "rowHistory b es (Some x) \<longleftrightarrow> (\<exists>a. b = Some a \<and> flowHistory a es x)"
  by (simp_all add: rowHistory_def)

definition flowInv :: "(FlowTable \<Rightarrow> string \<Rightarrow> (string option \<times> int) option) \<Rightarrow> FlowDb \<Rightarrow> bool" where
  "flowInv born d \<longleftrightarrow> uniqueRows d \<and> distinct (map entryKey (flowLog d)) \<and>
     (\<forall>t j. rowHistory (born t j) (entriesOf t j d) (flowView d t j))"

lemma flowInv_row: "flowInv born d \<Longrightarrow> rowHistory (born t j) (entriesOf t j d) (flowView d t j)"
  by (simp add: flowInv_def)

lemma stateRev_snoc:
  "map_option stateRev (byId i (t @ [r])) = (case map_option stateRev (byId i t) of
     None \<Rightarrow> if flowRowId r = i then Some (productFlowState r, productFlowRevision r) else None
   | Some x \<Rightarrow> Some x)"
  by (cases "byId i t") (simp_all add: byId_def findRow_append stateRev_def)

lemma flowView_addRow:
  assumes "flowView d t j = None"
  shows "flowView (addRow t j x d) u i = (if u = t \<and> i = j then Some x else flowView d u i)"
  using assms
  by (cases t; cases u; cases "i = j") (simp_all add: addRow_def flowView_def stateRev_snoc split: option.split)

lemma uniqueRows_addRow:
  assumes "uniqueRows d" and "flowView d t j = None"
  shows "uniqueRows (addRow t j x d)"
  using assms by (cases t) (auto simp: uniqueRows_def addRow_def flowView_def byId_def findRow_None)

lemma flowView_configureSession: "flowView (configureSession j l c d) t i = flowView d t i"
proof -
  have "byId i (sessions (configureSession j l c d)) = map_option (\<lambda>r. if flowRowId r = j
      then r\<lparr>selectedParchinLevel := l, deliveryConfiguration := c\<rparr> else r) (byId i (sessions d))"
    unfolding byId_def configureSession_def by (simp add: findRow_updateRows)
  then show ?thesis
    by (cases t; cases "byId i (sessions d)") (simp_all add: flowView_def configureSession_def stateRev_def)
qed

lemma flowLog_other [simp]: "flowLog (addRow t j x d) = flowLog d" "flowLog (configureSession j l c d) = flowLog d"
  by (cases t) (simp_all add: addRow_def configureSession_def)

lemma uniqueRows_configureSession: "uniqueRows d \<Longrightarrow> uniqueRows (configureSession j l c d)"
  by (simp add: uniqueRows_def configureSession_def map_updateRows)

lemma entryId_transitionEntry [simp]: "entryId t (transitionEntry fp n i) = ownedId t (flowOwner i)"
  by (cases t) (simp_all add: entryId_def ownedId_def transitionEntry_def)

lemma flowInv_transition:
  assumes "flowInv born d" and "readTransition i d0 = Inr (fp, plan)" and "writeTransition i (fp, plan) d = Inr (e, d')"
  shows "flowInv born d'"
proof (cases plan)
  case (Inl x)
  then show ?thesis using assms(1,3) by (simp add: writeTransition_def)
next
  case (Inr n)
  have u: "uniqueRows d" using assms(1) by (simp add: flowInv_def)
  note W = writeTransition_move [OF assms(3) [unfolded Inr] u]
  have "distinct (map entryKey (flowLog d'))"
    using assms(1) W(2,3) by (auto simp: flowInv_def W(1) transitionEntry_def)
  moreover have "rowHistory (born t j) (entriesOf t j d') (flowView d' t j)" for t j
  proof (cases "ownedId t (flowOwner i) = Some j")
    case False
    then have "entriesOf t j d' = entriesOf t j d" by (simp add: entriesOf_def W(2)) (simp add: W(1))
    moreover have "flowView d' t j = flowView d t j" using False W(6) by simp
    ultimately show ?thesis using flowInv_row [OF assms(1)] by metis
  next
    case True
    then obtain s where s: "flowView d t j = Some (s, n)" "normalizedState s = Some (flowFrom i)"
      using W(5) by blast
    then obtain a where a: "born t j = Some a" "flowHistory a (entriesOf t j d) (s, n)"
      using flowInv_row [OF assms(1), of t j] by auto
    have "flowHistory (s, n) [e] (Some (productFlowStateText (flowTo i)), n + 1)"
      using s(2) readTransition_Inr(1) [OF assms(2)] by (simp add: W(1) transitionEntry_def)
    then have "flowHistory a (entriesOf t j d @ [e]) (Some (productFlowStateText (flowTo i)), n + 1)"
      using a(2) flowHistory_append by blast
    moreover have "entriesOf t j d' = entriesOf t j d @ [e]"
      using True by (simp add: entriesOf_def W(2)) (simp add: W(1))
    moreover have "flowView d' t j = Some (Some (productFlowStateText (flowTo i)), n + 1)"
      using True W(6) by simp
    ultimately show ?thesis using a(1) by simp
  qed
  ultimately show ?thesis using W(4) by (simp add: flowInv_def)
qed

lemma flowReach_inv: "flowReach born d \<Longrightarrow> flowInv born d"
proof (induction rule: flowReach.induct)
  case start
  then show ?case by (auto simp: flowInv_def uniqueRows_def flowView_def byId_def entriesOf_def split: FlowTable.split)
next
  case (create born d t j x)
  have "entriesOf u i (addRow t j x d) = entriesOf u i d" for u i by (simp add: entriesOf_def)
  moreover have "entriesOf t j d = []"
    using flowInv_row [OF create.IH, of t j] create.hyps(2) by simp
  ultimately show ?case
    using create.IH uniqueRows_addRow [OF _ create.hyps(2)] by (simp add: flowInv_def flowView_addRow [OF create.hyps(2)])
next
  case (configure born d j level config)
  have "entriesOf u i (configureSession j level config d) = entriesOf u i d" for u i by (simp add: entriesOf_def)
  then show ?case
    using configure.IH by (simp add: flowInv_def flowView_configureSession uniqueRows_configureSession)
next
  case (transition born d i d0 plan e d')
  then show ?case using flowInv_transition by (cases plan) blast
qed

lemma flowReach_history:
  assumes "flowReach born d" and "flowView d t j = Some x"
  obtains a where "born t j = Some a" and "flowHistory a (entriesOf t j d) x"
  using flowInv_row [OF flowReach_inv [OF assms(1)], of t j] assms(2) by auto

text \<open>C27: the log is the history of every row. In every reachable database, whatever way transactions interleaved,
  the log entries of a session or an order, in their order, lead from the state and revision it was created with to
  the state and revision it has now: each one is a transition of the table that starts where the one before it
  ended, with consecutive revisions, and no idempotency key occurs twice.\<close>

theorem log_is_row_history:
  assumes "flowReach born d" and "flowView d t j = Some x"
  shows "distinct (map entryKey (flowLog d)) \<and>
    (\<exists>a. born t j = Some a \<and> flowHistory a (entriesOf t j d) x \<and> snd x = snd a + int (length (entriesOf t j d)))"
proof -
  obtain a where "born t j = Some a" "flowHistory a (entriesOf t j d) x"
    using assms by (rule flowReach_history)
  moreover have "distinct (map entryKey (flowLog d))" using flowReach_inv [OF assms(1)] by (simp add: flowInv_def)
  ultimately show ?thesis using flowHistory_revision by blast
qed

text \<open>Every state of the database is one of the 26.\<close>

lemma flowHistory_known:
  "flowHistory a es b \<Longrightarrow> normalizedState (fst a) \<noteq> None \<Longrightarrow> normalizedState (fst b) \<noteq> None"
  by (induction a es b rule: flowHistory.induct) (auto simp: normalizedState_def)

text \<open>The owner that names one row only.\<close>

definition rowOwner :: "FlowTable \<Rightarrow> string \<Rightarrow> ProductFlowOwner" where
  "rowOwner t j = \<lparr>recommendationSessionId = (if t = Sessions then Some j else None),
     serviceOrderId = (if t = ServiceOrders then Some j else None),
     infrastructureOrderId = (if t = InfrastructureOrders then Some j else None)\<rparr>"

lemma ownedId_rowOwner: "ownedId u (rowOwner t j) = Some i \<longleftrightarrow> u = t \<and> i = j \<and> j \<noteq> ''''"
  by (cases u; cases t) (auto simp: rowOwner_def ownedId_def truthyId_def)

text \<open>C28: the text columns stay typed. Take any row, of the sessions, the service orders or the infrastructure orders,
  that was created without a state or with one of the 26 states, however the other rows were created. In every reachable
  database it reads back as a state of the enumeration, so the unknown-state conflict of \<open>currentOwnerState\<close> never
  arises for it: the owner that names this row has a current state, with the revision of the row.\<close>

theorem flow_states_well_typed:
  assumes "flowReach born d" and "born t j = Some (s0, n0)" and "normalizedState s0 \<noteq> None"
    and "flowView d t j = Some (v, n)" and "j \<noteq> ''''"
  shows "\<exists>s. normalizedState v = Some s \<and> currentOwnerState d (rowOwner t j) = Inr (s, n)"
proof -
  obtain a where a: "born t j = Some a" "flowHistory a (entriesOf t j d) (v, n)"
    using assms(1,4) by (rule flowReach_history)
  then have "normalizedState v \<noteq> None" using flowHistory_known [OF a(2)] assms(2,3) by auto
  then obtain s where s: "normalizedState v = Some s" by blast
  then show ?thesis using assms(4,5) by (simp add: currentOwnerState_Inr ownedId_rowOwner)
qed

section \<open>Repetition\<close>

lemma findRow_snoc: "findRow p t = Some e \<Longrightarrow> findRow p (t @ [x]) = Some e"
  by (simp add: findRow_append)

text \<open>The entry a database remembers of an input.\<close>

definition transitionRecord :: "ProductFlowTransitionInput \<Rightarrow> FlowDb \<Rightarrow> ProductFlowTransition option" where
  "transitionRecord i d = (case readTransition i d of Inr (_, Inl e) \<Rightarrow> Some e | _ \<Rightarrow> None)"

lemma transitionRecord_Some:
  "transitionRecord i d = Some e \<longleftrightarrow> (\<exists>fp. canTransitionProductFlow (flowFrom i) (flowTo i) \<and>
     ownerFingerprint (flowOwner i) = Inr fp \<and> findRow (\<lambda>x. entryKey x = flowKey i) (flowLog d) = Some e \<and>
     replayTransition fp i e = Inr e)"
proof
  assume "transitionRecord i d = Some e"
  then obtain fp where "readTransition i d = Inr (fp, Inl e)"
    by (auto simp: transitionRecord_def split: sum.splits)
  then show "\<exists>fp. canTransitionProductFlow (flowFrom i) (flowTo i) \<and>
     ownerFingerprint (flowOwner i) = Inr fp \<and> findRow (\<lambda>x. entryKey x = flowKey i) (flowLog d) = Some e \<and>
     replayTransition fp i e = Inr e"
    using readTransition_Inr by blast
qed (auto simp: transitionRecord_def readTransition_def assertProductFlowTransition_def)

lemma writeTransition_log:
  "writeTransition i plan d = Inr (e, d') \<Longrightarrow> flowLog d' = flowLog d \<or>
     flowLog d' = flowLog d @ [e] \<and> (\<forall>x \<in> set (flowLog d). entryKey x \<noteq> flowKey i)"
  by (auto simp: writeTransition_def bindE_eq_Inr guardE_eq_Inr Let_def split: sum.splits)

lemma transitionEntry_replays:
  "isOk (stableJson (case flowMetadata i of None \<Rightarrow> JNull | Some v \<Rightarrow> v)) \<Longrightarrow>
     replayTransition fp i (transitionEntry fp n i) = Inr (transitionEntry fp n i)"
  by (auto simp: replayTransition_def sameMetadata_def transitionEntry_def isOk_iff)

lemma transitionRecord_fresh:
  assumes "readTransition i d = Inr (fp, Inr n)" and "writeTransition i (fp, Inr n) d = Inr (e, d')"
    and "isOk (stableJson (case flowMetadata i of None \<Rightarrow> JNull | Some v \<Rightarrow> v))"
  shows "transitionRecord i d' = Some e"
proof -
  have e: "e = transitionEntry fp n i" "flowLog d' = flowLog d @ [e]" "\<forall>x \<in> set (flowLog d). entryKey x \<noteq> flowKey i"
    using assms(2) by (auto simp: writeTransition_def bindE_eq_Inr guardE_eq_Inr Let_def)
  then have "findRow (\<lambda>x. entryKey x = flowKey i) (flowLog d') = Some e"
    by (auto simp: findRow_append findRow_None transitionEntry_def split: option.splits dest: findRow_Some)
  then show ?thesis
    using readTransition_Inr(1,2) [OF assms(1)] transitionEntry_replays [OF assms(3)]
    by (auto simp: transitionRecord_Some e(1))
qed

interpretation flow_once: idempotent_op "\<lambda>_. True" transitionProductFlowTx
  "\<lambda>i. isOk (stableJson (case flowMetadata i of None \<Rightarrow> JNull | Some v \<Rightarrow> v))" transitionRecord
proof (unfold_locales, goal_cases)
  case 1
  show ?case by simp
next
  case (2 d i e d')
  obtain fp plan where p: "readTransition i d = Inr (fp, plan)" "writeTransition i (fp, plan) d = Inr (e, d')"
    using 2(3) by (auto simp: transitionProductFlowTx_def bindE_eq_Inr)
  show ?case
  proof (cases plan)
    case (Inl x)
    then show ?thesis using p by (simp add: writeTransition_def transitionRecord_def)
  next
    case (Inr n)
    then show ?thesis using p 2(2) transitionRecord_fresh by blast
  qed
next
  case (3 d i r j s d')
  from 3(4) obtain plan where "writeTransition j plan d = Inr (s, d')"
    by (auto simp: transitionProductFlowTx_def bindE_eq_Inr)
  then show ?case using 3(3) writeTransition_log [of j plan d s d'] findRow_snoc
    by (auto simp: transitionRecord_Some)
next
  case (4 d i r)
  then show ?case
    by (auto simp: transitionRecord_def transitionProductFlowTx_def writeTransition_def split: sum.splits)
qed

text \<open>A sequence of transitions in one transaction, such as the catalog checkout.\<close>

definition runFlow :: "FlowDb \<Rightarrow> ProductFlowTransitionInput list \<Rightarrow> FlowError + FlowDb" where
  "runFlow d is = foldE (\<lambda>d i. bindE (transitionProductFlowTx i d) (\<lambda>r. Inr (snd r))) d is"

lemma runFlow_simps [simp]:
  "runFlow d [] = Inr d"
  "runFlow d (i # is) = bindE (transitionProductFlowTx i d) (\<lambda>r. runFlow (snd r) is)"
  by (cases "transitionProductFlowTx i d"; simp add: runFlow_def)+

lemma runFlow_stable:
  "runFlow d is = Inr d' \<Longrightarrow> isOk (stableJson (case flowMetadata i of None \<Rightarrow> JNull | Some v \<Rightarrow> v)) \<Longrightarrow>
   transitionRecord i d = Some e \<Longrightarrow> transitionRecord i d' = Some e"
proof (induction "is" arbitrary: d)
  case (Cons j js)
  then obtain s d1 where "transitionProductFlowTx j d = Inr (s, d1)" "runFlow d1 js = Inr d'"
    by (auto simp: bindE_eq_Inr)
  then show ?case using Cons flow_once.stable by blast
qed simp

lemma runFlow_recorded:
  "runFlow d is = Inr d' \<Longrightarrow> \<forall>i \<in> set is. isOk (stableJson (case flowMetadata i of None \<Rightarrow> JNull | Some v \<Rightarrow> v)) \<Longrightarrow>
   i \<in> set is \<Longrightarrow> \<exists>e. transitionRecord i d' = Some e"
proof (induction "is" arbitrary: d)
  case (Cons j js)
  then obtain s d1 where run: "transitionProductFlowTx j d = Inr (s, d1)" "runFlow d1 js = Inr d'"
    by (auto simp: bindE_eq_Inr)
  show ?case
  proof (cases "i = j")
    case True
    then have "transitionRecord i d1 = Some s"
      using flow_once.recorded [OF _ _ run(1)] Cons.prems(2) by simp
    then show ?thesis using runFlow_stable [OF run(2)] Cons.prems(2) True by auto
  next
    case False
    then show ?thesis using Cons.IH [OF run(2)] Cons.prems(2,3) by simp
  qed
qed simp

lemma runFlow_again:
  assumes "\<forall>i \<in> set is. isOk (stableJson (case flowMetadata i of None \<Rightarrow> JNull | Some v \<Rightarrow> v))"
    and "\<forall>i \<in> set is. \<exists>e. transitionRecord i d = Some e"
  shows "runFlow d is = Inr d"
  using assms
proof (induction "is")
  case (Cons i js)
  then obtain e where "transitionRecord i d = Some e" by auto
  then have "transitionProductFlowTx i d = Inr (e, d)" using flow_once.replay Cons.prems(1) by simp
  then show ?case using Cons by simp
qed simp

lemma bootstrap_runFlow:
  "bootstrapCatalogCheckoutFlowTx sid key actor meta d =
     runFlow d (map (catalogInput sid key actor meta) (enumerate 0 catalogTransitions))"
  by (simp add: bootstrapCatalogCheckoutFlowTx_def runFlow_def)

section \<open>Progress\<close>

text \<open>When the rows of the owner stand at the expected state, the transition goes through.\<close>

lemma transition_succeeds:
  assumes "canTransitionProductFlow (flowFrom i) (flowTo i)" and "ownerFingerprint (flowOwner i) = Inr fp"
    and "\<forall>x \<in> set (flowLog d). entryKey x \<noteq> flowKey i" and "uniqueRows d"
    and "assertTransitionInvariant d i = Inr ()" and "\<exists>t. ownedId t (flowOwner i) \<noteq> None"
    and "\<And>t j. ownedId t (flowOwner i) = Some j \<Longrightarrow> \<exists>v. flowView d t j = Some (v, n) \<and>
      (v = Some (productFlowStateText (flowFrom i)) \<or> t = Sessions \<and> normalizedState v = Some (flowFrom i))"
  obtains d' where "transitionProductFlowTx i d = Inr (transitionEntry fp n i, d')"
    and "writeTransition i (fp, Inr n) d = Inr (transitionEntry fp n i, d')"
proof -
  have norm: "normalizedState v = Some (flowFrom i) \<and> m = n"
    if "ownedId t (flowOwner i) = Some j" "flowView d t j = Some (v, m)" for t j v m
    using assms(7) [OF that(1)] that(2) by (auto simp: normalizedState_Some)
  have "currentOwnerState d (flowOwner i) = Inr (flowFrom i, n)"
    unfolding currentOwnerState_Inr using assms(6,7) norm by blast
  then have read: "readTransition i d = Inr (fp, Inr n)"
    using assms(1-3,5) findRow_None [of "\<lambda>x. entryKey x = flowKey i" "flowLog d"]
    by (auto simp: readTransition_def assertProductFlowTransition_def)
  have u: "distinct (map flowRowId (sessions d))" "distinct (map flowRowId (serviceOrders d))"
    "distinct (map flowRowId (infrastructureOrders d))"
    using assms(4) by (simp_all add: uniqueRows_def)
  have "isOk (moveOwned (sessionMatches (flowFrom i) n) (flowTo i) (recommendationSessionId (flowOwner i)) (sessions d))"
    using assms(7) [of Sessions]
    by (intro moveOwned_ok [OF _ u(1) sessionMatches_eq]) (fastforce simp: ownedId_def flowView_def normalizedState_Some)
  moreover have "isOk (moveOwned (orderMatches (flowFrom i) n) (flowTo i) (serviceOrderId (flowOwner i)) (serviceOrders d))"
    using assms(7) [of ServiceOrders]
    by (intro moveOwned_ok [OF _ u(2) orderMatches_eq]) (fastforce simp: ownedId_def flowView_def)
  moreover have "isOk (moveOwned (orderMatches (flowFrom i) n) (flowTo i) (infrastructureOrderId (flowOwner i)) (infrastructureOrders d))"
    using assms(7) [of InfrastructureOrders]
    by (intro moveOwned_ok [OF _ u(3) orderMatches_eq]) (fastforce simp: ownedId_def flowView_def)
  ultimately obtain d' where "writeTransition i (fp, Inr n) d = Inr (transitionEntry fp n i, d')"
    using assms(3) by (auto simp: writeTransition_def isOk_iff Let_def)
  then show ?thesis using that read by (simp add: transitionProductFlowTx_def)
qed

lemma ownedId_simps [simp]:
  "ownedId Sessions ow = truthyId (recommendationSessionId ow)"
  "ownedId ServiceOrders ow = truthyId (serviceOrderId ow)"
  "ownedId InfrastructureOrders ow = truthyId (infrastructureOrderId ow)"
  by (simp_all add: ownedId_def)

lemma truthyId_simps [simp]: "truthyId None = None" "truthyId (Some i) = (if i = '''' then None else Some i)"
  by (simp_all add: truthyId_def)

definition orderOwner :: "string \<Rightarrow> ProductFlowOwner" where
  "orderOwner j = \<lparr>recommendationSessionId = None, serviceOrderId = Some j, infrastructureOrderId = None\<rparr>"

lemma orderOwner_simps [simp]:
  "recommendationSessionId (orderOwner j) = None" "serviceOrderId (orderOwner j) = Some j"
  "infrastructureOrderId (orderOwner j) = None"
  by (simp_all add: orderOwner_def)

lemma ownedId_orderOwner: "ownedId t (orderOwner j) = Some i \<longleftrightarrow> t = ServiceOrders \<and> i = j \<and> j \<noteq> ''''"
  by (cases t) (auto simp: orderOwner_def)

lemma order_step:
  assumes "uniqueRows d" and "flowView d ServiceOrders j = Some (Some (productFlowStateText s), n)"
    and "canTransitionProductFlow s s'" and "j \<notin> {'''', ''-''}"
  obtains i e d' where "flowOwner i = orderOwner j" and "transitionProductFlowTx i d = Inr (e, d')"
    and "uniqueRows d'" and "flowView d' ServiceOrders j = Some (Some (productFlowStateText s'), n + 1)"
proof -
  have "finite (entryKey ` set (flowLog d))" by simp
  then obtain k where k: "k \<notin> entryKey ` set (flowLog d)"
    using ex_new_if_finite [OF infinite_UNIV_listI] by blast
  define i where "i = \<lparr>flowOwner = orderOwner j, flowFrom = s, flowTo = s', flowKey = k, flowReason = '''',
    flowMetadata = None, flowActor = None\<rparr>"
  have "\<exists>t. ownedId t (flowOwner i) \<noteq> None" using assms(4) ownedId_orderOwner by (fastforce simp: i_def)
  moreover have "ownerFingerprint (flowOwner i) = Inr (''-:'' @ j @ '':-'')"
    using assms(4) by (simp add: i_def orderOwner_def ownerFingerprint_def orDash_def)
  moreover have "assertTransitionInvariant d i = Inr ()"
    by (simp add: i_def orderOwner_def assertTransitionInvariant_def)
  ultimately obtain d' where d': "transitionProductFlowTx i d = Inr (transitionEntry (''-:'' @ j @ '':-'') n i, d')"
    "writeTransition i (''-:'' @ j @ '':-'', Inr n) d = Inr (transitionEntry (''-:'' @ j @ '':-'') n i, d')"
    using transition_succeeds [of i "''-:'' @ j @ '':-''" d n] assms k by (auto simp: i_def ownedId_orderOwner)
  note W = writeTransition_move [OF d'(2) assms(1)]
  have "flowView d' ServiceOrders j = Some (Some (productFlowStateText s'), n + 1)"
    using W(6) [of ServiceOrders j] assms(4) by (simp add: i_def ownedId_orderOwner)
  then show ?thesis using that [OF _ d'(1)] W(4) by (simp add: i_def)
qed

text \<open>Paths of the state machine, and running one for an order.\<close>

fun flowPath :: "ProductFlowState \<Rightarrow> ProductFlowState list \<Rightarrow> bool" where
  "flowPath s [] \<longleftrightarrow> True"
| "flowPath s (t # ts) \<longleftrightarrow> canTransitionProductFlow s t \<and> flowPath t ts"

lemma run_path:
  assumes "uniqueRows d" and "flowView d ServiceOrders j = Some (Some (productFlowStateText s), n)"
    and "flowPath s ts" and "j \<notin> {'''', ''-''}"
  shows "\<exists>is d'. (\<forall>i \<in> set is. flowOwner i = orderOwner j) \<and> length is = length ts \<and> runFlow d is = Inr d' \<and>
    flowView d' ServiceOrders j = Some (Some (productFlowStateText (last (s # ts))), n + int (length ts))"
  using assms
proof (induction ts arbitrary: s d n)
  case Nil
  then show ?case by (intro exI [of _ "[]"]) simp
next
  case (Cons t ts)
  have can: "canTransitionProductFlow s t" using Cons.prems(3) by simp
  obtain i e d1 where 1: "flowOwner i = orderOwner j" "transitionProductFlowTx i d = Inr (e, d1)" "uniqueRows d1"
    "flowView d1 ServiceOrders j = Some (Some (productFlowStateText t), n + 1)"
    using order_step [OF Cons.prems(1,2) can Cons.prems(4)] .
  obtain "is" d' where 2: "\<forall>i \<in> set is. flowOwner i = orderOwner j" "length is = length ts" "runFlow d1 is = Inr d'"
    "flowView d' ServiceOrders j = Some (Some (productFlowStateText (last (t # ts))), n + 1 + int (length ts))"
    using Cons.IH [OF 1(3,4) _ Cons.prems(4)] Cons.prems(3) by auto
  show ?case using 1 2 by (intro exI [of _ "i # is"] exI [of _ d']) simp
qed

definition deliveryRoute :: "ProductFlowState list" where
  "deliveryRoute = [AWAITING_PAYMENT, PAID, PROVISION_APPROVED, PROVISIONING_SUBMITTED, PROVISIONING,
     HEALTH_CHECKING, WAITING_ADMIN_DELIVERY_APPROVAL, DELIVERED, ACTIVE]"

text \<open>From each state a way to \<open>ACTIVE\<close>: back to where the straight route is joined, then along it.\<close>

fun toActive :: "ProductFlowState \<Rightarrow> ProductFlowState list" where
  "toActive DRAFT = UNDERSTANDING_CONFIRMED # REQUIREMENTS_COMPLETE # RECOMMENDED # PARCHIN_SELECTED # DELIVERY_CONFIGURED # QUOTED # deliveryRoute"
| "toActive UNDERSTANDING_CONFIRMED = REQUIREMENTS_COMPLETE # RECOMMENDED # PARCHIN_SELECTED # DELIVERY_CONFIGURED # QUOTED # deliveryRoute"
| "toActive REQUIREMENTS_COMPLETE = RECOMMENDED # PARCHIN_SELECTED # DELIVERY_CONFIGURED # QUOTED # deliveryRoute"
| "toActive RECOMMENDED = PARCHIN_SELECTED # DELIVERY_CONFIGURED # QUOTED # deliveryRoute"
| "toActive PARCHIN_SELECTED = DELIVERY_CONFIGURED # QUOTED # deliveryRoute"
| "toActive DELIVERY_CONFIGURED = QUOTED # deliveryRoute"
| "toActive QUOTED = deliveryRoute"
| "toActive AUTH_REQUIRED = deliveryRoute"
| "toActive ACTIVATION_REQUESTED = drop 2 deliveryRoute"
| "toActive AWAITING_PAYMENT = drop 1 deliveryRoute"
| "toActive PAYMENT_REVIEW = drop 1 deliveryRoute"
| "toActive PAID = drop 2 deliveryRoute"
| "toActive PROVISION_APPROVED = drop 3 deliveryRoute"
| "toActive PROVISIONING_SUBMITTED = drop 4 deliveryRoute"
| "toActive PROVISIONING = drop 5 deliveryRoute"
| "toActive HEALTH_CHECKING = drop 6 deliveryRoute"
| "toActive WAITING_ADMIN_DELIVERY_APPROVAL = drop 7 deliveryRoute"
| "toActive DELIVERED = [ACTIVE]"
| "toActive QUOTE_EXPIRED = DELIVERY_CONFIGURED # QUOTED # deliveryRoute"
| "toActive PROVISIONING_RETRYABLE = drop 3 deliveryRoute"
| "toActive PROVISIONING_RECONCILING = drop 4 deliveryRoute"
| "toActive PROVISIONING_MANUAL_REVIEW = drop 3 deliveryRoute"
| "toActive HEALTH_CHECK_FAILED = drop 5 deliveryRoute"
| "toActive DELIVERY_RETRYABLE = drop 7 deliveryRoute"
| "toActive ACTIVE = []"
| "toActive CANCELLED = []"

definition toCancelled :: "ProductFlowState \<Rightarrow> ProductFlowState list" where
  "toCancelled s = (if s \<in> {PROVISIONING_SUBMITTED, PROVISIONING, PROVISIONING_RECONCILING}
     then [PROVISIONING_RETRYABLE, CANCELLED]
     else if s = HEALTH_CHECKING then [HEALTH_CHECK_FAILED, CANCELLED]
     else if s = DELIVERED then [DELIVERY_RETRYABLE, CANCELLED]
     else [CANCELLED])"

lemma toActive_path: "s \<notin> {ACTIVE, CANCELLED} \<Longrightarrow> flowPath s (toActive s) \<and> last (s # toActive s) = ACTIVE"
  by (cases s) (simp_all add: canTransitionProductFlow_def deliveryRoute_def)

lemma toCancelled_path: "s \<notin> {ACTIVE, CANCELLED} \<Longrightarrow> flowPath s (toCancelled s) \<and> last (s # toCancelled s) = CANCELLED"
  by (cases s) (simp_all add: canTransitionProductFlow_def toCancelled_def)

text \<open>C26: no order is stuck. From any of the 26 states but the two final ones, in any database, an order of its own can
  be moved to \<open>ACTIVE\<close> and can be moved to \<open>CANCELLED\<close>: there is a sequence of transition calls for it
  that all succeed and end there, one revision per call.\<close>

theorem order_never_stuck:
  assumes "uniqueRows d" and "flowView d ServiceOrders j = Some (Some (productFlowStateText s), n)"
    and "s \<notin> {ACTIVE, CANCELLED}" and "j \<notin> {'''', ''-''}" and "goal \<in> {ACTIVE, CANCELLED}"
  shows "\<exists>is d'. (\<forall>i \<in> set is. flowOwner i = orderOwner j) \<and> runFlow d is = Inr d' \<and>
    flowView d' ServiceOrders j = Some (Some (productFlowStateText goal), n + int (length is))"
proof -
  obtain ts where ts: "flowPath s ts" "last (s # ts) = goal"
    using toActive_path [OF assms(3)] toCancelled_path [OF assms(3)] assms(5) by blast
  show ?thesis using run_path [OF assms(1,2) ts(1) assms(4)] unfolding ts(2) by fastforce
qed

section \<open>Gates\<close>

text \<open>What must have happened to an order before it may enter a state.\<close>

fun mustPrecede :: "ProductFlowState \<Rightarrow> ProductFlowState list" where
  "mustPrecede ACTIVE = [DELIVERED]"
| "mustPrecede DELIVERED = [WAITING_ADMIN_DELIVERY_APPROVAL]"
| "mustPrecede WAITING_ADMIN_DELIVERY_APPROVAL = [HEALTH_CHECKING]"
| "mustPrecede HEALTH_CHECKING = [PAID, ACTIVATION_REQUESTED]"
| "mustPrecede PROVISIONING = [PAID, ACTIVATION_REQUESTED]"
| "mustPrecede PROVISIONING_SUBMITTED = [PAID, ACTIVATION_REQUESTED]"
| "mustPrecede PROVISION_APPROVED = [PAID, ACTIVATION_REQUESTED]"
| "mustPrecede _ = []"

text \<open>The states a flow can be in as long as it has not passed the gate of \<open>s\<close>.\<close>

definition commercialStates :: "ProductFlowState set" where
  "commercialStates = {DRAFT, UNDERSTANDING_CONFIRMED, REQUIREMENTS_COMPLETE, RECOMMENDED, PARCHIN_SELECTED,
     DELIVERY_CONFIGURED, QUOTED, AUTH_REQUIRED, AWAITING_PAYMENT, QUOTE_EXPIRED, PAYMENT_REVIEW, CANCELLED}"

fun beforeGate :: "ProductFlowState \<Rightarrow> ProductFlowState set" where
  "beforeGate ACTIVE = - {DELIVERED, ACTIVE, DELIVERY_RETRYABLE}"
| "beforeGate DELIVERED = - {WAITING_ADMIN_DELIVERY_APPROVAL, DELIVERED, ACTIVE, DELIVERY_RETRYABLE}"
| "beforeGate WAITING_ADMIN_DELIVERY_APPROVAL = - {HEALTH_CHECKING, HEALTH_CHECK_FAILED,
     WAITING_ADMIN_DELIVERY_APPROVAL, DELIVERED, ACTIVE, DELIVERY_RETRYABLE}"
| "beforeGate _ = commercialStates"

text \<open>The states with a gate.\<close>

definition gatedStates :: "ProductFlowState set" where
  "gatedStates = {ACTIVE, DELIVERED, WAITING_ADMIN_DELIVERY_APPROVAL, HEALTH_CHECKING, PROVISIONING,
     PROVISIONING_SUBMITTED, PROVISION_APPROVED}"

lemma beforeGate_closed:
  assumes "g \<in> gatedStates" and "s \<in> beforeGate g" and "canTransitionProductFlow s t"
  shows "(t \<in> beforeGate g \<or> t \<in> set (mustPrecede g)) \<and> t \<noteq> g"
  using assms unfolding gatedStates_def
  by (elim insertE emptyE; cases s) (auto simp: canTransitionProductFlow_def commercialStates_def)

lemma flowHistory_avoids:
  assumes "flowHistory a es b" and "normalizedState (fst a) = Some s" and "s \<in> beforeGate g" and "g \<in> gatedStates"
    and "\<forall>e \<in> set es. \<forall>p \<in> set (mustPrecede g). toState e \<noteq> productFlowStateText p"
  shows "\<exists>t. normalizedState (fst b) = Some t \<and> t \<in> beforeGate g"
  using assms
proof (induction a es b arbitrary: s rule: flowHistory.induct)
  case (2 a e es b)
  then obtain t where t: "toState e = productFlowStateText t" "canTransitionProductFlow s t" by auto
  then have "t \<in> beforeGate g" using beforeGate_closed [of g s t] 2(4-6) by auto
  then show ?case using 2(1) [of t] 2(2,5,6) t(1) by (simp add: normalizedState_def)
qed simp

text \<open>C25: the gates of a delivery. Take any row that was created in a state before payment or, for pay-as-you-go, in
  \<open>ACTIVATION_REQUESTED\<close>; these are the states in which the code creates rows. In every reachable database its entry
  into \<open>ACTIVE\<close> is preceded in the log by \<open>DELIVERED\<close>, \<open>DELIVERED\<close> by the wait for the administrator's approval,
  that by a health check; and a health check, the approval and the submission for provisioning, and provisioning itself
  are preceded by \<open>PAID\<close> or by \<open>ACTIVATION_REQUESTED\<close>, in the log or as the state of creation. So an order for which
  no activation was ever requested is not provisioned before it is paid; under any interleaving of transactions, retries
  and manual reviews.\<close>

theorem delivery_passes_gates:
  assumes "flowReach born d" and "born t j = Some (s0, n0)"
    and "normalizedState s0 \<in> Some ` {DRAFT, UNDERSTANDING_CONFIRMED, REQUIREMENTS_COMPLETE, RECOMMENDED, PARCHIN_SELECTED,
      DELIVERY_CONFIGURED, QUOTED, AUTH_REQUIRED, AWAITING_PAYMENT, QUOTE_EXPIRED, PAYMENT_REVIEW, ACTIVATION_REQUESTED}"
    and "entriesOf t j d = xs @ e # ys" and "toState e = productFlowStateText g"
    and "g \<in> {ACTIVE, DELIVERED, WAITING_ADMIN_DELIVERY_APPROVAL, HEALTH_CHECKING, PROVISIONING,
      PROVISIONING_SUBMITTED, PROVISION_APPROVED}"
  shows "\<exists>p \<in> set (mustPrecede g). normalizedState s0 = Some p \<or> (\<exists>e' \<in> set xs. toState e' = productFlowStateText p)"
proof (rule ccontr)
  assume no: "\<not> ?thesis"
  obtain x where x: "flowView d t j = Some x" "flowHistory (s0, n0) (xs @ e # ys) x"
    using flowInv_row [OF flowReach_inv [OF assms(1)], of t j] assms(2,4) by (cases "flowView d t j") auto
  then obtain b where b: "flowHistory (s0, n0) xs b" "flowHistory b (e # ys) x"
    by (auto simp: flowHistory_append)
  have g: "g \<in> gatedStates" using assms(6) by (simp add: gatedStates_def)
  obtain s where s: "normalizedState s0 = Some s" "s \<in> insert ACTIVATION_REQUESTED commercialStates"
    using assms(3) by (auto simp: commercialStates_def)
  have "s \<notin> set (mustPrecede g)" using no s(1) by auto
  then have before: "s \<in> beforeGate g" using s(2) g unfolding gatedStates_def
    by (elim insertE emptyE) (auto simp: commercialStates_def)
  then obtain u where u: "normalizedState (fst b) = Some u" "u \<in> beforeGate g"
    using flowHistory_avoids [OF b(1) _ before g] s(1) no by auto
  have "canTransitionProductFlow u g" using b(2) u(1) assms(5) by auto
  then show False using beforeGate_closed [OF g u(2)] by blast
qed

section \<open>The catalog checkout reaches a quote\<close>

definition sessionConfigured :: "FlowDb \<Rightarrow> string \<Rightarrow> bool" where
  "sessionConfigured d sid = (case byId sid (sessions d) of None \<Rightarrow> False
     | Some r \<Rightarrow> truthyId (selectedParchinLevel r) \<noteq> None \<and> isJsonObject (deliveryConfiguration r))"

lemma sessionConfigured_write:
  assumes "writeTransition i (fp, Inr n) d = Inr (e, d')" and "uniqueRows d" and "sessionConfigured d sid"
  shows "sessionConfigured d' sid"
proof -
  from assms(1) obtain ss where ss: "sessions d' = ss"
    "moveOwned (sessionMatches (flowFrom i) n) (flowTo i) (recommendationSessionId (flowOwner i)) (sessions d) = Inr ss"
    by (auto simp: writeTransition_def bindE_eq_Inr guardE_eq_Inr Let_def)
  have u: "distinct (map flowRowId (sessions d))" using assms(2) by (simp add: uniqueRows_def)
  note S = moveOwned_Inr [OF ss(2) u sessionMatches_eq]
  show ?thesis
  proof (cases "truthyId (recommendationSessionId (flowOwner i)) = Some sid")
    case True
    then obtain r where "byId sid (sessions d) = Some r" "byId sid ss = Some (moveRow (flowTo i) r)" using S(2) by blast
    then show ?thesis using assms(3) by (simp add: sessionConfigured_def ss(1) moveRow_def)
  next
    case False
    then show ?thesis using assms(3) S(3) by (simp add: sessionConfigured_def ss(1))
  qed
qed

lemma catalogInput_simps [simp]:
  "flowFrom (catalogInput sid key actor meta (k, s, t, r)) = s"
  "flowTo (catalogInput sid key actor meta (k, s, t, r)) = t"
  "flowKey (catalogInput sid key actor meta (k, s, t, r)) = key @ '':transition:'' @ jsNumberText (int k)"
  "flowMetadata (catalogInput sid key actor meta p) = meta"
  "recommendationSessionId (flowOwner (catalogInput sid key actor meta p)) = Some sid"
  "serviceOrderId (flowOwner (catalogInput sid key actor meta p)) = None"
  "infrastructureOrderId (flowOwner (catalogInput sid key actor meta p)) = None"
  by (cases p; simp add: catalogInput_def)+

lemma catalog_step:
  assumes "canTransitionProductFlow s t" and "sid \<notin> {'''', ''-''}" and "uniqueRows d" and "sessionConfigured d sid"
    and "flowView d Sessions sid = Some (v, n)" and "normalizedState v = Some s"
    and "\<forall>x \<in> set (flowLog d). entryKey x \<noteq> key @ '':transition:'' @ jsNumberText (int k)"
  obtains e d' where "transitionProductFlowTx (catalogInput sid key actor meta (k, s, t, r)) d = Inr (e, d')"
    and "uniqueRows d'" and "sessionConfigured d' sid"
    and "flowView d' Sessions sid = Some (Some (productFlowStateText t), n + 1)"
    and "flowLog d' = flowLog d @ [e]" and "entryKey e = key @ '':transition:'' @ jsNumberText (int k)"
proof -
  define i where "i = catalogInput sid key actor meta (k, s, t, r)"
  have i: "flowFrom i = s" "flowTo i = t" "flowKey i = key @ '':transition:'' @ jsNumberText (int k)"
    "recommendationSessionId (flowOwner i) = Some sid" "serviceOrderId (flowOwner i) = None"
    "infrastructureOrderId (flowOwner i) = None"
    by (simp_all add: i_def)
  have owned: "ownedId u (flowOwner i) = Some j \<longleftrightarrow> u = Sessions \<and> j = sid" for u j
    using assms(2) i by (cases u) auto
  have own: "ownerFingerprint (flowOwner i) = Inr (sid @ '':-:-'')"
    using assms(2) i by (simp add: ownerFingerprint_def orDash_def)
  have invariant: "assertTransitionInvariant d i = Inr ()"
    using assms(2,4) i by (auto simp: assertTransitionInvariant_def sessionConfigured_def split: option.splits)
  obtain d' where d': "transitionProductFlowTx i d = Inr (transitionEntry (sid @ '':-:-'') n i, d')"
    "writeTransition i (sid @ '':-:-'', Inr n) d = Inr (transitionEntry (sid @ '':-:-'') n i, d')"
    by (rule transition_succeeds [OF _ own _ assms(3) invariant, of n])
      (use assms i owned in auto)
  note W = writeTransition_move [OF d'(2) assms(3)]
  have "flowView d' Sessions sid = Some (Some (productFlowStateText t), n + 1)"
    using W(6) [of Sessions sid] assms(2) i(2,4) by simp
  moreover have "entryKey (transitionEntry (sid @ '':-:-'') n i) = key @ '':transition:'' @ jsNumberText (int k)"
    by (simp add: transitionEntry_def i(3))
  ultimately show ?thesis
    using that [OF d'(1) [unfolded i_def]] W(2,4) sessionConfigured_write [OF d'(2) assms(3,4)] by (simp add: i_def)
qed

lemma jsNumberText_index [simp]: "jsNumberText (int k) = jsNumberText (int l) \<longleftrightarrow> k = l"
  by (simp add: jsNumberText_def) (metis digitsVal_natStr)

text \<open>A chain of catalog transitions from a state.\<close>

fun catalogChain :: "ProductFlowState \<Rightarrow> (ProductFlowState \<times> ProductFlowState \<times> string) list \<Rightarrow> bool" where
  "catalogChain s [] \<longleftrightarrow> True"
| "catalogChain s ((u, t, _) # ts) \<longleftrightarrow> u = s \<and> canTransitionProductFlow s t \<and> catalogChain t ts"

lemma catalog_run:
  assumes "catalogChain s ts" and "sid \<notin> {'''', ''-''}" and "uniqueRows d" and "sessionConfigured d sid"
    and "flowView d Sessions sid = Some (v, n)" and "normalizedState v = Some s"
    and "\<forall>x \<in> set (flowLog d). \<forall>l \<ge> k. entryKey x \<noteq> key @ '':transition:'' @ jsNumberText (int l)"
  shows "\<exists>d' v'. runFlow d (map (catalogInput sid key actor meta) (enumerate k ts)) = Inr d' \<and>
    normalizedState v' = Some (last (s # map (\<lambda>p. fst (snd p)) ts)) \<and>
    flowView d' Sessions sid = Some (v', n + int (length ts))"
  using assms
proof (induction ts arbitrary: s d v n k)
  case Nil
  then show ?case by simp
next
  case (Cons x ts)
  obtain u t r where x: "x = (u, t, r)" by (cases x)
  with Cons.prems(1) have c: "u = s" "canTransitionProductFlow s t" "catalogChain t ts" by simp_all
  obtain e d1 where 1: "transitionProductFlowTx (catalogInput sid key actor meta (k, s, t, r)) d = Inr (e, d1)"
    "uniqueRows d1" "sessionConfigured d1 sid" "flowView d1 Sessions sid = Some (Some (productFlowStateText t), n + 1)"
    "flowLog d1 = flowLog d @ [e]" "entryKey e = key @ '':transition:'' @ jsNumberText (int k)"
    by (rule catalog_step [OF c(2) Cons.prems(2-6), of key k actor meta r]) (use Cons.prems(7) in auto)
  have "\<forall>x \<in> set (flowLog d1). \<forall>l \<ge> Suc k. entryKey x \<noteq> key @ '':transition:'' @ jsNumberText (int l)"
    using Cons.prems(7) 1(6) by (auto simp: 1(5))
  moreover have "normalizedState (Some (productFlowStateText t)) = Some t" by (simp add: normalizedState_def)
  ultimately obtain d' v' where "runFlow d1 (map (catalogInput sid key actor meta) (enumerate (Suc k) ts)) = Inr d'"
    "normalizedState v' = Some (last (t # map (\<lambda>p. fst (snd p)) ts))"
    "flowView d' Sessions sid = Some (v', n + 1 + int (length ts))"
    using Cons.IH [OF c(3) Cons.prems(2) 1(2-4)] by blast
  then show ?case using 1(1) by (intro exI [of _ d'] exI [of _ v']) (simp add: x c(1))
qed

text \<open>The catalog checkout works and is repeatable. For a session in \<open>DRAFT\<close> that has its Parchin level and its
  delivery configuration, with unused idempotency keys, the six transitions all succeed and take it to
  \<open>QUOTED\<close>, six revisions on; and running the checkout once more with the same key succeeds and changes nothing.\<close>

theorem catalog_checkout_quotes_once:
  assumes "sid \<notin> {'''', ''-''}" and "uniqueRows d" and "sessionConfigured d sid"
    and "flowView d Sessions sid = Some (v, n)" and "normalizedState v = Some DRAFT"
    and "\<forall>x \<in> set (flowLog d). \<forall>l. entryKey x \<noteq> key @ '':transition:'' @ jsNumberText (int l)"
    and "isOk (stableJson (case meta of None \<Rightarrow> JNull | Some m \<Rightarrow> m))"
  shows "\<exists>d'. bootstrapCatalogCheckoutFlowTx sid key actor meta d = Inr d' \<and>
    flowView d' Sessions sid = Some (Some (productFlowStateText QUOTED), n + 6) \<and>
    bootstrapCatalogCheckoutFlowTx sid key actor meta d' = Inr d'"
proof -
  have chain: "catalogChain DRAFT catalogTransitions"
    by (simp add: catalogTransitions_def canTransitionProductFlow_def)
  obtain d' v' where run: "runFlow d (map (catalogInput sid key actor meta) (enumerate 0 catalogTransitions)) = Inr d'"
    and v': "normalizedState v' = Some (last (DRAFT # map (\<lambda>p. fst (snd p)) catalogTransitions))"
    "flowView d' Sessions sid = Some (v', n + int (length catalogTransitions))"
    using catalog_run [OF chain assms(1-5), of 0 key actor meta] assms(6) by blast
  have "v' = Some (productFlowStateText QUOTED)"
    using v'(1) by (auto simp: catalogTransitions_def normalizedState_Some)
  moreover have "runFlow d' (map (catalogInput sid key actor meta) (enumerate 0 catalogTransitions)) = Inr d'"
    by (rule runFlow_again) (use runFlow_recorded [OF run] assms(7) in auto)
  ultimately show ?thesis using run v'(2) by (simp add: bootstrap_runFlow catalogTransitions_def)
qed

section \<open>Samples\<close>

definition emptyFlow :: FlowDb where
  "emptyFlow = \<lparr>sessions = [], serviceOrders = [], infrastructureOrders = [], flowLog = []\<rparr>"

definition quotedOrder :: FlowDb where
  "quotedOrder = addRow ServiceOrders ''o1'' (Some ''QUOTED'', 6) emptyFlow"

definition sampleBorn :: "FlowTable \<Rightarrow> string \<Rightarrow> (string option \<times> int) option" where
  "sampleBorn = (\<lambda>u i. if u = ServiceOrders \<and> i = ''o1'' then Some (Some ''QUOTED'', 6) else None)"

definition orderInput :: "string \<Rightarrow> ProductFlowState \<Rightarrow> ProductFlowState \<Rightarrow> ProductFlowTransitionInput" where
  "orderInput k s t = \<lparr>flowOwner = orderOwner ''o1'', flowFrom = s, flowTo = t, flowKey = k,
     flowReason = ''sample'', flowMetadata = None, flowActor = None\<rparr>"

definition orderEntry :: "string \<Rightarrow> int \<Rightarrow> ProductFlowState \<Rightarrow> ProductFlowState \<Rightarrow> ProductFlowTransition" where
  "orderEntry k n s t = transitionEntry ''-:o1:-'' n (orderInput k s t)"

definition paidOrder :: FlowDb where
  "paidOrder = \<lparr>sessions = [], serviceOrders = [\<lparr>flowRowId = ''o1'',
     productFlowState = Some ''PROVISIONING_SUBMITTED'', productFlowRevision = 9\<rparr>], infrastructureOrders = [],
     flowLog = [orderEntry ''a'' 6 QUOTED AWAITING_PAYMENT, orderEntry ''b'' 7 AWAITING_PAYMENT PAID,
       orderEntry ''c'' 8 PAID PROVISIONING_SUBMITTED]\<rparr>"

lemma runFlow_reach: "flowReach born d \<Longrightarrow> runFlow d is = Inr d' \<Longrightarrow> flowReach born d'"
proof (induction "is" arbitrary: d)
  case (Cons i js)
  then obtain e d1 where "transitionProductFlowTx i d = Inr (e, d1)" "runFlow d1 js = Inr d'"
    by (auto simp: bindE_eq_Inr)
  moreover from this(1) obtain plan where "readTransition i d = Inr plan" "writeTransition i plan d = Inr (e, d1)"
    by (auto simp: transitionProductFlowTx_def bindE_eq_Inr)
  ultimately show ?case using Cons flowReach.transition by blast
qed simp

lemma quotedOrder_reach: "flowReach sampleBorn quotedOrder"
proof -
  have "flowReach (\<lambda>_ _. None) emptyFlow" using flowReach.start by (simp add: emptyFlow_def)
  moreover have "flowView emptyFlow ServiceOrders ''o1'' = None" by (simp add: emptyFlow_def flowView_def byId_def)
  ultimately have "flowReach (\<lambda>u i. if u = ServiceOrders \<and> i = ''o1'' then Some (Some ''QUOTED'', 6) else None) quotedOrder"
    unfolding quotedOrder_def by (rule flowReach.create) simp
  then show ?thesis by (simp add: sampleBorn_def)
qed

lemma paidOrder_run:
  "runFlow quotedOrder [orderInput ''a'' QUOTED AWAITING_PAYMENT, orderInput ''b'' AWAITING_PAYMENT PAID,
     orderInput ''c'' PAID PROVISIONING_SUBMITTED] = Inr paidOrder"
  by code_simp

lemma paidOrder_reach: "flowReach sampleBorn paidOrder"
  using quotedOrder_reach paidOrder_run by (rule runFlow_reach)

lemma paidOrder_view: "flowView paidOrder ServiceOrders ''o1'' = Some (Some ''PROVISIONING_SUBMITTED'', 9)"
  by code_simp

lemma paidOrder_unique: "uniqueRows paidOrder"
  using flowReach_inv [OF paidOrder_reach] by (simp add: flowInv_def)

theorem transition_refines_state_machine_witness:
  "\<exists>e d'. (d' = quotedOrder \<and> e \<in> set (flowLog quotedOrder) \<and> entryKey e = ''a'') \<or>
    (\<exists>fp n. flowMove (orderInput ''a'' QUOTED CANCELLED) n (flowView quotedOrder) (flowView d') \<and>
      e = transitionEntry fp n (orderInput ''a'' QUOTED CANCELLED) \<and> flowLog d' = flowLog quotedOrder @ [e])"
proof -
  let ?i = "orderInput ''a'' QUOTED CANCELLED"
  have "isOk (bindE (readTransition ?i quotedOrder) (\<lambda>plan. writeTransition ?i plan quotedOrder))" by code_simp
  then obtain e d' where run: "bindE (readTransition ?i quotedOrder) (\<lambda>plan. writeTransition ?i plan quotedOrder) = Inr (e, d')"
    by (auto simp: isOk_iff)
  have "uniqueRows quotedOrder" by code_simp
  from transition_refines_state_machine [OF run this] have "(d' = quotedOrder \<and> e \<in> set (flowLog quotedOrder) \<and> entryKey e = ''a'') \<or>
    (\<exists>fp n. flowMove ?i n (flowView quotedOrder) (flowView d') \<and>
      e = transitionEntry fp n ?i \<and> flowLog d' = flowLog quotedOrder @ [e])"
    by (simp add: orderInput_def)
  then show ?thesis by blast
qed

theorem log_is_row_history_witness:
  "distinct (map entryKey (flowLog paidOrder)) \<and> (\<exists>a. sampleBorn ServiceOrders ''o1'' = Some a \<and>
    flowHistory a (entriesOf ServiceOrders ''o1'' paidOrder) (Some ''PROVISIONING_SUBMITTED'', 9) \<and>
    snd (Some ''PROVISIONING_SUBMITTED'', 9) = snd a + int (length (entriesOf ServiceOrders ''o1'' paidOrder)))"
  using paidOrder_reach paidOrder_view by (rule log_is_row_history)

theorem flow_states_well_typed_witness:
  "\<exists>s. normalizedState (Some ''PROVISIONING_SUBMITTED'') = Some s \<and>
    currentOwnerState paidOrder (rowOwner ServiceOrders ''o1'') = Inr (s, 9)"
proof (rule flow_states_well_typed [OF paidOrder_reach _ _ paidOrder_view])
  show "sampleBorn ServiceOrders ''o1'' = Some (Some ''QUOTED'', 6)" by (simp add: sampleBorn_def)
  have "normalizedState (Some ''QUOTED'') = Some QUOTED" by code_simp
  then show "normalizedState (Some ''QUOTED'') \<noteq> None" by simp
qed simp

theorem order_never_stuck_witness:
  "\<exists>is d'. (\<forall>i \<in> set is. flowOwner i = orderOwner ''o1'') \<and> runFlow paidOrder is = Inr d' \<and>
    flowView d' ServiceOrders ''o1'' = Some (Some (productFlowStateText ACTIVE), 9 + int (length is))"
  by (rule order_never_stuck [OF paidOrder_unique, of _ PROVISIONING_SUBMITTED]) (simp_all add: paidOrder_view)

theorem delivery_passes_gates_witness:
  "\<exists>p \<in> set (mustPrecede PROVISIONING_SUBMITTED). normalizedState (Some ''QUOTED'') = Some p \<or>
    (\<exists>e' \<in> set [orderEntry ''a'' 6 QUOTED AWAITING_PAYMENT, orderEntry ''b'' 7 AWAITING_PAYMENT PAID].
      toState e' = productFlowStateText p)"
proof (rule delivery_passes_gates [OF paidOrder_reach])
  show "sampleBorn ServiceOrders ''o1'' = Some (Some ''QUOTED'', 6)" by (simp add: sampleBorn_def)
  have "normalizedState (Some ''QUOTED'') = Some QUOTED" by code_simp
  then show "normalizedState (Some ''QUOTED'') \<in> Some ` {DRAFT, UNDERSTANDING_CONFIRMED, REQUIREMENTS_COMPLETE, RECOMMENDED,
    PARCHIN_SELECTED, DELIVERY_CONFIGURED, QUOTED, AUTH_REQUIRED, AWAITING_PAYMENT, QUOTE_EXPIRED, PAYMENT_REVIEW,
    ACTIVATION_REQUESTED}" by simp
  show "entriesOf ServiceOrders ''o1'' paidOrder = [orderEntry ''a'' 6 QUOTED AWAITING_PAYMENT,
    orderEntry ''b'' 7 AWAITING_PAYMENT PAID] @ orderEntry ''c'' 8 PAID PROVISIONING_SUBMITTED # []"
    by (simp add: entriesOf_def paidOrder_def orderEntry_def orderInput_def)
  show "toState (orderEntry ''c'' 8 PAID PROVISIONING_SUBMITTED) = productFlowStateText PROVISIONING_SUBMITTED"
    by (simp add: orderEntry_def transitionEntry_def orderInput_def)
qed simp

theorem catalog_checkout_quotes_once_witness:
  "\<exists>d'. bootstrapCatalogCheckoutFlowTx ''s1'' ''k'' None None
      (configureSession ''s1'' (Some ''CLASSIC'') (Some (JObj [])) (addRow Sessions ''s1'' (None, 0) emptyFlow)) = Inr d' \<and>
    flowView d' Sessions ''s1'' = Some (Some (productFlowStateText QUOTED), 0 + 6) \<and>
    bootstrapCatalogCheckoutFlowTx ''s1'' ''k'' None None d' = Inr d'"
proof (rule catalog_checkout_quotes_once)
  let ?d = "configureSession ''s1'' (Some ''CLASSIC'') (Some (JObj [])) (addRow Sessions ''s1'' (None, 0) emptyFlow)"
  show "uniqueRows ?d" "sessionConfigured ?d ''s1''" "flowView ?d Sessions ''s1'' = Some (None, 0)" by code_simp+
  show "normalizedState None = Some DRAFT" by (simp add: normalizedState_def)
qed (simp_all add: emptyFlow_def)

end
