(* ===== verification/Dates.thy ===== *)
theory Dates
  imports Money
begin

text \<open>
  The text of an instant, \<open>Date.prototype.toISOString\<close>: the proleptic Gregorian calendar in UTC, from milliseconds
  since 1970.
\<close>

definition yearLength :: "int \<Rightarrow> int" where
  "yearLength y = (if 4 dvd y \<and> (\<not> 100 dvd y \<or> 400 dvd y) then 366 else 365)"

lemma yearLength_pos [simp]: "0 < yearLength y"
  by (simp add: yearLength_def)

text \<open>The year and the day in the year of a day counted from the beginning of year \<open>y\<close>.\<close>

function civilYear :: "int \<Rightarrow> int \<Rightarrow> int \<times> int" where
  "civilYear y d =
     (if d < 0 then civilYear (y - 1) (d + yearLength (y - 1))
      else if d \<ge> yearLength y then civilYear (y + 1) (d - yearLength y)
      else (y, d))"
  by auto
termination
proof (relation "measure (\<lambda>(y, d). if d < 0 then nat (- d) + 1 else if d \<ge> yearLength y then nat d else 0)", goal_cases)
  case (2 y d)
  then show ?case using yearLength_pos [of "y - 1"] by auto
next
  case (3 y d)
  have y: "0 < yearLength y" by (rule yearLength_pos)
  have d: "yearLength y \<le> d" using 3 by simp
  then have "0 < d" using y by (rule order_less_le_trans [rotated])
  then show ?case using y d by (simp del: yearLength_pos)
qed simp

definition monthLengths :: "int \<Rightarrow> int list" where
  "monthLengths y = [31, yearLength y - 337, 31, 30, 31, 30, 31, 31, 30, 31, 30, 31]"

fun monthDay :: "nat \<Rightarrow> int \<Rightarrow> int list \<Rightarrow> nat \<times> int" where
  "monthDay m d [] = (m, d)"
| "monthDay m d (l # ls) = (if d < l then (m, d) else monthDay (m + 1) (d - l) ls)"

definition padNat :: "nat \<Rightarrow> nat \<Rightarrow> string" where
  "padNat width n = replicate (width - length (natStr n)) (CHR ''0'') @ natStr n"

definition yearText :: "int \<Rightarrow> string" where
  "yearText y = (if 0 \<le> y \<and> y \<le> 9999 then padNat 4 (nat y)
     else if y < 0 then CHR ''-'' # padNat 6 (nat (- y)) else CHR ''+'' # padNat 6 (nat y))"

definition monthDayText :: "nat \<times> int \<Rightarrow> string" where
  "monthDayText md = padNat 2 (fst md) @ ''-'' @ padNat 2 (nat (snd md) + 1)"

definition dateText :: "int \<times> int \<Rightarrow> string" where
  "dateText yd = yearText (fst yd) @ ''-'' @ monthDayText (monthDay 1 (snd yd) (monthLengths (fst yd)))"

definition timeText :: "int \<Rightarrow> string" where
  "timeText ms = padNat 2 (nat (ms div 3600000)) @ '':'' @ padNat 2 (nat (ms div 60000 mod 60)) @ '':''
     @ padNat 2 (nat (ms div 1000 mod 60)) @ ''.'' @ padNat 3 (nat (ms mod 1000))"

definition toISOString :: "int \<Rightarrow> string" where
  "toISOString t = dateText (civilYear 1970 (t div 86400000)) @ ''T'' @ timeText (t mod 86400000) @ ''Z''"

end
