(* ===== verification/BillingWorker.thy ===== *)
theory BillingWorker
  imports Billing Dates Wallet "HOL-Library.Sublist"
begin

text \<open>
  Usage billing, \<open>src/lib/billing/worker.ts\<close>: the settlement of a closed billing period (loading the
  policy snapshots, checking that usage covers the period, slicing it at the changes of the rate cards,
  drafting the lines, charging the wallet, leaving a remainder outstanding) and the bounded catch-up over missed
  periods. The database extends the wallet's with the billing tables. Instants are milliseconds since
  1970. Ids are drawn from a supply given as an argument, and a serialization failure (P2034) of an attempt is
  an argument too. Titles, evidence and the timestamps of a row's own writing are not modelled.
\<close>

section \<open>Tables\<close>

datatype UsageIntervalStatus = UI_OPEN | UI_COMPLETE | UI_INCOMPLETE | UI_REVIEW
datatype BillingRunStatus = RUN_RUNNING | RUN_COMPLETED | RUN_PARTIAL | RUN_FAILED
datatype BillingInvoiceStatus = INV_CALCULATING | INV_PAID | INV_PARTIALLY_PAID | INV_UNPAID | INV_UNDER_REVIEW | INV_VOID
datatype OutstandingStatus = OB_OPEN | OB_PARTIALLY_PAID | OB_PAID | OB_WAIVED
datatype ReviewKind = RATE_CARD | RESOURCE_STATE
datatype DunningCaseType = LOW_BALANCE | OUTSTANDING_INVOICE
datatype NoticeType = N_PROVIDER_BILLING_RECONCILIATION | N_OUTSTANDING_INVOICE | N_LOW_BALANCE

record CloudInstanceRow =
  ci_id :: string
  ci_userId :: string
  ci_infrastructureOrderId :: string

record PolicySnapshotRow =
  sn_id :: string
  sn_cloudInstanceId :: string
  sn_cadence :: BillingCadence
  sn_gracePeriods :: int
  sn_lowBalanceThresholdPeriods :: int
  sn_stopStateComponentPolicy :: jsval
  sn_effectiveFrom :: int
  sn_effectiveTo :: "int option"

record ResourceVersionRow = ResourceQuantitySnapshot +
  rv_id :: string
  rv_planId :: string
  rv_provider :: string
  rv_effectiveFrom :: int
  rv_effectiveTo :: "int option"

text \<open>A usage interval with the resource version it includes.\<close>

record UsageRow =
  ui_id :: string
  ui_cloudInstanceId :: string
  ui_snapshotId :: string
  ui_status :: UsageIntervalStatus
  ui_startedAt :: int
  ui_endedAt :: "int option"
  ui_completenessReason :: "string option"
  ui_resource :: ResourceVersionRow

record RateCardRow = CalculableRate +
  rc_id :: string
  rc_planId :: "string option"
  rc_provider :: string
  rc_productKind :: string
  rc_component :: BillingComponentType
  rc_cadence :: "BillingCadence option"
  rc_providerCurrency :: string
  rc_providerAmountUnit :: string
  rc_effectiveFrom :: int
  rc_effectiveTo :: "int option"

record BillingRunRow =
  br_id :: string
  br_cadence :: BillingCadence
  br_periodStart :: int
  br_periodEnd :: int
  br_status :: BillingRunStatus
  br_workerId :: string
  br_invoiceCount :: int
  br_reviewCount :: int
  br_failureCode :: "string option"
  br_key :: string

record InvoiceRow =
  bi_id :: string
  bi_runId :: string
  bi_userId :: string
  bi_walletId :: string
  bi_cloudInstanceId :: string
  bi_snapshotId :: string
  bi_cadence :: BillingCadence
  bi_periodStart :: int
  bi_periodEnd :: int
  bi_status :: BillingInvoiceStatus
  bi_total :: int
  bi_paid :: int
  bi_outstanding :: int
  bi_settledAt :: "int option"
  bi_reviewReason :: "string option"
  bi_key :: string

record LineDraft =
  ld_usageIntervalId :: string
  ld_resourceVersionId :: string
  ld_rateCardVersionId :: string
  ld_component :: BillingComponentType
  ld_resourceUnit :: BillingResourceUnit
  ld_intervalStart :: int
  ld_intervalEnd :: int
  ld_amounts :: BillingLine
  ld_markupBasisPoints :: int
  ld_key :: string

record OutstandingRow =
  ob_invoiceId :: string
  ob_userId :: string
  ob_original :: int
  ob_paid :: int
  ob_remaining :: int
  ob_status :: OutstandingStatus
  ob_dueAt :: int

record DunningRow =
  dc_cloudInstanceId :: string
  dc_invoiceId :: string
  dc_type :: DunningCaseType
  dc_threshold :: int
  dc_observedBalance :: int
  dc_runwaySeconds :: "int option"
  dc_graceEndsAt :: "int option"
  dc_key :: string

record ReconciliationRow =
  rr_kind :: ReviewKind
  rr_cloudInstanceId :: string
  rr_invoiceId :: string
  rr_reason :: string
  rr_key :: string

record NoticeRow =
  an_type :: NoticeType
  an_infrastructureOrderId :: string
  an_unread :: bool
  an_message :: string

record BillingDb = WalletDb +
  cloudInstances :: "CloudInstanceRow list"
  policySnapshots :: "PolicySnapshotRow list"
  usageIntervals :: "UsageRow list"
  rateCards :: "RateCardRow list"
  billingRuns :: "BillingRunRow list"
  invoices :: "InvoiceRow list"
  billingLines :: "(string \<times> LineDraft) list"
  outstandings :: "OutstandingRow list"
  dunningCases :: "DunningRow list"
  reconciliations :: "ReconciliationRow list"
  notices :: "NoticeRow list"

definition settledStatus :: "BillingInvoiceStatus \<Rightarrow> bool" where
  "settledStatus s \<longleftrightarrow> s \<in> {INV_PAID, INV_PARTIALLY_PAID, INV_UNPAID}"

definition terminalRun :: "BillingRunStatus \<Rightarrow> bool" where
  "terminalRun s \<longleftrightarrow> s \<in> {RUN_COMPLETED, RUN_PARTIAL}"

section \<open>Periods\<close>

fun cadenceText :: "BillingCadence \<Rightarrow> string" where
  "cadenceText HOURLY = ''HOURLY''" | "cadenceText DAILY = ''DAILY''"

definition periodKey :: "BillingCadence \<Rightarrow> int \<Rightarrow> int \<Rightarrow> string" where
  "periodKey cadence startT endT = cadenceText cadence @ '':'' @ toISOString startT @ '':'' @ toISOString endT"

definition runKey :: "BillingCadence \<Rightarrow> int \<Rightarrow> int \<Rightarrow> string" where
  "runKey cadence startT endT = ''billing-run:'' @ periodKey cadence startT endT"

definition nextPeriodStart :: "BillingCadence \<Rightarrow> int \<Rightarrow> int" where
  "nextPeriodStart cadence periodStart = periodStart + (if cadence = HOURLY then 60 * 60 * 1000 else 24 * 60 * 60 * 1000)"

definition catchUpLimit :: "jsval \<Rightarrow> string + nat" where
  "catchUpLimit v = (case v of JUndefined \<Rightarrow> Inr 24 | JNull \<Rightarrow> Inr 24
     | JInt n \<Rightarrow> if n < 1 \<or> n > 500 then Inl ''billing_catch_up_limit_invalid'' else Inr (nat n)
     | _ \<Rightarrow> Inl ''billing_catch_up_limit_invalid'')"

definition validatePeriod :: "BillingCadence \<Rightarrow> int \<Rightarrow> int \<Rightarrow> int \<Rightarrow> string + unit" where
  "validatePeriod cadence periodStart periodEnd now =
     (if periodStart \<ge> periodEnd \<or> periodEnd > now then Inl ''billing_period_not_closed''
      else let expected = (if cadence = HOURLY then 60 * 60 * 1000 else 24 * 60 * 60 * 1000) in
      if periodEnd - periodStart \<noteq> expected \<or> periodStart div 60000 mod 60 \<noteq> 0
         \<or> periodStart div 1000 mod 60 \<noteq> 0 \<or> periodStart mod 1000 \<noteq> 0
         \<or> (cadence = DAILY \<and> periodStart div 3600000 mod 24 \<noteq> 0)
      then Inl ''billing_period_not_utc_aligned'' else Inr ())"

definition maximumDate :: "int \<Rightarrow> int \<Rightarrow> int" where
  "maximumDate l r = (if l > r then l else r)"

definition minimumDate :: "int \<Rightarrow> int \<Rightarrow> int" where
  "minimumDate l r = (if l < r then l else r)"

definition intersection :: "int \<Rightarrow> int \<Rightarrow> int \<Rightarrow> int option \<Rightarrow> (int \<times> int) option" where
  "intersection startT endT candidateStart candidateEnd =
     (let s = maximumDate startT candidateStart;
          e = (case candidateEnd of None \<Rightarrow> endT | Some c \<Rightarrow> minimumDate endT c)
      in if s < e then Some (s, e) else None)"

fun coverCursor :: "int \<Rightarrow> (int \<times> int) list \<Rightarrow> int option" where
  "coverCursor cursor [] = Some cursor"
| "coverCursor cursor ((s, e) # rest) =
     (if s < cursor then None else if s > cursor then None else coverCursor e rest)"

definition validateIntervalCoverage :: "int \<Rightarrow> int \<Rightarrow> (int \<times> int) list \<Rightarrow> bool" where
  "validateIntervalCoverage targetStart targetEnd ranges = (coverCursor targetStart (sort_key fst ranges) = Some targetEnd)"

section \<open>Drafting the lines\<close>

text \<open>Why an invoice needs review: its kind and reason. A draft ends with a thrown error, a review or lines.\<close>

type_synonym InvoiceReview = "ReviewKind \<times> string"
type_synonym 'l drafts = "string + (InvoiceReview + 'l list)"

text \<open>A loop that appends to the drafts, and returns early on a review or an error.\<close>

definition thenDrafts :: "'l drafts \<Rightarrow> ('l list \<Rightarrow> 'l drafts) \<Rightarrow> 'l drafts" where
  "thenDrafts m k = (case m of Inl e \<Rightarrow> Inl e
     | Inr r \<Rightarrow> (case r of Inl review \<Rightarrow> Inr (Inl review) | Inr ls \<Rightarrow> k ls))"

fun collectDrafts :: "('a \<Rightarrow> 'l drafts) \<Rightarrow> 'a list \<Rightarrow> 'l drafts" where
  "collectDrafts f [] = Inr (Inr [])"
| "collectDrafts f (x # xs) =
     thenDrafts (f x) (\<lambda>ls. thenDrafts (collectDrafts f xs) (\<lambda>ms. Inr (Inr (ls @ ms))))"

lemma thenDrafts_Inr: "thenDrafts m k = Inr (Inr ms) \<longleftrightarrow> (\<exists>ls. m = Inr (Inr ls) \<and> k ls = Inr (Inr ms))"
  by (auto simp: thenDrafts_def split: sum.splits)

fun resourceUnitText :: "BillingResourceUnit \<Rightarrow> string" where
  "resourceUnitText U_INSTANCE = ''INSTANCE''" | "resourceUnitText U_VCPU = ''VCPU''"
| "resourceUnitText U_GB_RAM = ''GB_RAM''" | "resourceUnitText U_GB_DISK = ''GB_DISK''"
| "resourceUnitText U_IP = ''IP''" | "resourceUnitText U_BACKUP = ''BACKUP''"
| "resourceUnitText U_GB_TRAFFIC = ''GB_TRAFFIC''" | "resourceUnitText U_SNAPSHOT = ''SNAPSHOT''"
| "resourceUnitText U_ADDON = ''ADDON''"

text \<open>The rate cards of a piece of usage: of its plan, for its components and cadence, in force during it.\<close>

definition usageRates ::
  "RateCardRow list \<Rightarrow> BillingCadence \<Rightarrow> ResourceVersionRow \<Rightarrow> BillingComponentType list \<Rightarrow> int \<Rightarrow> int \<Rightarrow> RateCardRow list" where
  "usageRates cards cadence resource components startT endT = sort_key rc_effectiveFrom (filter (\<lambda>c.
     rc_planId c = Some (rv_planId resource) \<and> rc_provider c = rv_provider resource \<and>
     rc_productKind c = ''CLOUD_SERVER'' \<and> rc_component c \<in> set components \<and>
     (rc_cadence c = Some cadence \<or> rc_cadence c = None) \<and> rc_effectiveFrom c < endT \<and>
     (case rc_effectiveTo c of None \<Rightarrow> True | Some t \<Rightarrow> t > startT)) cards)"

definition sliceBoundaries :: "RateCardRow list \<Rightarrow> int \<Rightarrow> int \<Rightarrow> int list" where
  "sliceBoundaries rates startT endT = sort (remdups ([startT, endT] @ concat (map (\<lambda>r.
     (if rc_effectiveFrom r > startT \<and> rc_effectiveFrom r < endT then [rc_effectiveFrom r] else []) @
     (case rc_effectiveTo r of None \<Rightarrow> []
      | Some t \<Rightarrow> if t > startT \<and> t < endT then [t] else [])) rates)))"

definition slicesOf :: "int list \<Rightarrow> (int \<times> int) list" where
  "slicesOf bs = zip (butlast bs) (tl bs)"

definition activeRates :: "RateCardRow list \<Rightarrow> int \<Rightarrow> int \<Rightarrow> RateCardRow list" where
  "activeRates rates sliceStart sliceEnd = filter (\<lambda>r. rc_effectiveFrom r \<le> sliceStart \<and>
     (case rc_effectiveTo r of None \<Rightarrow> True | Some t \<Rightarrow> t \<ge> sliceEnd)) rates"

definition missingComponent :: "BillingComponentType list \<Rightarrow> RateCardRow list \<Rightarrow> BillingComponentType option" where
  "missingComponent components active = List.find (\<lambda>c. \<not> (\<exists>r \<in> set active. rc_component r = c)) components"

definition duplicateUnit :: "RateCardRow list \<Rightarrow> RateCardRow option" where
  "duplicateUnit active = map_option snd (List.find (\<lambda>(i, r). \<exists>(j, c) \<in> set (enumerate 0 active).
     j \<noteq> i \<and> rc_component c = rc_component r \<and> cr_resourceUnit c = cr_resourceUnit r) (enumerate 0 active))"

definition rateDraft ::
  "string \<Rightarrow> string \<Rightarrow> UsageRow \<Rightarrow> int \<Rightarrow> int \<Rightarrow> RateCardRow \<Rightarrow> LineDraft drafts" where
  "rateDraft instanceId snapshotId usage sliceStart sliceEnd rate =
     (if trim (rc_providerCurrency rate) = [] \<or> trim (rc_providerAmountUnit rate) = []
      then Inr (Inl (RATE_CARD, ''provider_money_unit_not_explicit''))
      else bindE (calculateBillingLineAmount sliceStart sliceEnd
          (ResourceQuantitySnapshot.truncate (ui_resource usage)) (CalculableRate.truncate rate)) (\<lambda>calculated.
        if bl_quantityNumerator calculated = 0 then Inr (Inr [])
        else Inr (Inr [\<lparr>ld_usageIntervalId = ui_id usage, ld_resourceVersionId = rv_id (ui_resource usage),
          ld_rateCardVersionId = rc_id rate, ld_component = rc_component rate,
          ld_resourceUnit = cr_resourceUnit rate, ld_intervalStart = sliceStart, ld_intervalEnd = sliceEnd,
          ld_amounts = calculated, ld_markupBasisPoints = cr_markupBasisPoints rate,
          ld_key = ''billing-line:'' @ instanceId @ '':'' @ snapshotId @ '':'' @ rv_id (ui_resource usage)
            @ '':'' @ rc_id rate @ '':'' @ toISOString sliceStart @ '':'' @ toISOString sliceEnd\<rparr>])))"

definition sliceDrafts ::
  "string \<Rightarrow> string \<Rightarrow> UsageRow \<Rightarrow> BillingComponentType list \<Rightarrow> RateCardRow list \<Rightarrow> int \<times> int \<Rightarrow> LineDraft drafts" where
  "sliceDrafts instanceId snapshotId usage components rates = (\<lambda>(sliceStart, sliceEnd).
     let active = activeRates rates sliceStart sliceEnd in
     case missingComponent components active of
       Some c \<Rightarrow> Inr (Inl (RATE_CARD, ''missing_rate_card:'' @ componentText c))
     | None \<Rightarrow> (case duplicateUnit active of
         Some r \<Rightarrow> Inr (Inl (RATE_CARD, ''overlapping_rate_card:'' @ componentText (rc_component r) @ '':''
           @ resourceUnitText (cr_resourceUnit r)))
       | None \<Rightarrow> collectDrafts (rateDraft instanceId snapshotId usage sliceStart sliceEnd) active))"

text \<open>One bounded interval: the usage with the part of the period it is charged for.\<close>

definition usageDrafts ::
  "RateCardRow list \<Rightarrow> BillingCadence \<Rightarrow> PolicySnapshotRow \<Rightarrow> string \<Rightarrow> UsageRow \<times> int \<times> int \<Rightarrow> LineDraft drafts" where
  "usageDrafts cards cadence snapshot instanceId = (\<lambda>(usage, startT, endT).
     let components = requiredBillableComponents (ResourceQuantitySnapshot.truncate (ui_resource usage))
           (sn_stopStateComponentPolicy snapshot) in
     if components = [] then Inr (Inr [])
     else let rates = usageRates cards cadence (ui_resource usage) components startT endT in
       collectDrafts (sliceDrafts instanceId (sn_id snapshot) usage components rates)
         (slicesOf (sliceBoundaries rates startT endT)))"

definition periodUsage :: "UsageRow list \<Rightarrow> PolicySnapshotRow \<Rightarrow> string \<Rightarrow> int \<Rightarrow> int \<Rightarrow> UsageRow list" where
  "periodUsage rows snapshot instanceId targetStart targetEnd = sort_key ui_startedAt (filter (\<lambda>u.
     ui_cloudInstanceId u = instanceId \<and> ui_snapshotId u = sn_id snapshot \<and> ui_startedAt u < targetEnd \<and>
     (case ui_endedAt u of None \<Rightarrow> True | Some t \<Rightarrow> t > targetStart)) rows)"

definition boundInterval :: "int \<Rightarrow> int \<Rightarrow> UsageRow \<Rightarrow> (UsageRow \<times> int \<times> int) option" where
  "boundInterval targetStart targetEnd u =
     (case intersection targetStart targetEnd (ui_startedAt u) (ui_endedAt u) of None \<Rightarrow> None
      | Some (s, e) \<Rightarrow> map_option (\<lambda>r. (u, r))
          (intersection s e (rv_effectiveFrom (ui_resource u)) (rv_effectiveTo (ui_resource u))))"

definition boundedUsage :: "UsageRow list \<Rightarrow> PolicySnapshotRow \<Rightarrow> string \<Rightarrow> int \<Rightarrow> int \<Rightarrow> (UsageRow \<times> int \<times> int) list" where
  "boundedUsage rows snapshot instanceId targetStart targetEnd = List.map_filter (boundInterval targetStart targetEnd)
     (periodUsage rows snapshot instanceId targetStart targetEnd)"

text \<open>Everything that is decided before the invoice is written.\<close>

definition draftInvoice ::
  "UsageRow list \<Rightarrow> RateCardRow list \<Rightarrow> BillingCadence \<Rightarrow> PolicySnapshotRow \<Rightarrow> string \<Rightarrow> int \<Rightarrow> int \<Rightarrow> LineDraft drafts" where
  "draftInvoice rows cards cadence snapshot instanceId targetStart targetEnd =
     (let intervals = periodUsage rows snapshot instanceId targetStart targetEnd in
      case List.find (\<lambda>u. ui_status u \<in> {UI_INCOMPLETE, UI_REVIEW}) intervals of
        Some incomplete \<Rightarrow> Inr (Inl (RESOURCE_STATE, (case ui_completenessReason incomplete of
          None \<Rightarrow> ''usage_interval_incomplete'' | Some r \<Rightarrow> r)))
      | None \<Rightarrow>
        let bounded = boundedUsage rows snapshot instanceId targetStart targetEnd in
        if bounded = [] \<or> \<not> validateIntervalCoverage targetStart targetEnd (map snd bounded)
        then Inr (Inl (RESOURCE_STATE, ''usage_timeline_has_gap_or_overlap''))
        else collectDrafts (usageDrafts cards cadence snapshot instanceId) bounded)"

section \<open>Writing the invoice\<close>

text \<open>What a snapshot is settled with: its instance, the wallet of the user as it was loaded, and the new ids.\<close>

record SnapshotJob =
  sj_runId :: string
  sj_snapshot :: PolicySnapshotRow
  sj_instance :: CloudInstanceRow
  sj_cadence :: BillingCadence
  sj_periodStart :: int
  sj_periodEnd :: int
  sj_now :: int

record NewIds =
  ni_invoice :: string
  ni_wallet :: string
  ni_entry :: string

definition createWallet :: "string \<Rightarrow> string \<Rightarrow> 'a WalletDb_scheme \<Rightarrow> string + WalletRow \<times> 'a WalletDb_scheme" where
  "createWallet userId newId db =
     (if findWallet newId db \<noteq> None \<or> getWalletForUser userId db \<noteq> None then Inl P2002
      else let w = \<lparr>w_id = newId, w_userId = userId, w_availableBalance = 0, w_status = WS_ACTIVE\<rparr>
           in Inr (w, db\<lparr>wallets := wallets db @ [w]\<rparr>))"

definition invoiceSlot :: "InvoiceRow \<Rightarrow> string \<times> int \<times> int \<times> string" where
  "invoiceSlot i = (bi_cloudInstanceId i, bi_periodStart i, bi_periodEnd i, bi_snapshotId i)"

definition jobSlot :: "SnapshotJob \<Rightarrow> string \<times> int \<times> int \<times> string" where
  "jobSlot j = (ci_id (sj_instance j), sj_periodStart j, sj_periodEnd j, sn_id (sj_snapshot j))"

definition jobInvoice :: "SnapshotJob \<Rightarrow> BillingDb \<Rightarrow> InvoiceRow option" where
  "jobInvoice j db = findRow (\<lambda>i. invoiceSlot i = jobSlot j) (invoices db)"

definition newInvoice :: "SnapshotJob \<Rightarrow> string \<Rightarrow> string \<Rightarrow> BillingInvoiceStatus \<Rightarrow> string option \<Rightarrow> InvoiceRow" where
  "newInvoice j walletId newId status reason =
     \<lparr>bi_id = newId, bi_runId = sj_runId j, bi_userId = ci_userId (sj_instance j), bi_walletId = walletId,
      bi_cloudInstanceId = ci_id (sj_instance j), bi_snapshotId = sn_id (sj_snapshot j), bi_cadence = sj_cadence j,
      bi_periodStart = sj_periodStart j, bi_periodEnd = sj_periodEnd j, bi_status = status, bi_total = 0,
      bi_paid = 0, bi_outstanding = 0, bi_settledAt = None, bi_reviewReason = reason,
      bi_key = ''billing-invoice:'' @ ci_id (sj_instance j) @ '':'' @ sn_id (sj_snapshot j) @ '':''
        @ periodKey (sj_cadence j) (sj_periodStart j) (sj_periodEnd j)\<rparr>"

definition upsertInvoice ::
  "SnapshotJob \<Rightarrow> string \<Rightarrow> string \<Rightarrow> BillingInvoiceStatus \<Rightarrow> string option \<Rightarrow> BillingDb \<Rightarrow> string + string \<times> BillingDb" where
  "upsertInvoice j walletId newId status reason db = (case jobInvoice j db of
     Some i \<Rightarrow> Inr (bi_id i, db\<lparr>invoices := updateRows (\<lambda>x. invoiceSlot x = jobSlot j)
       (\<lambda>x. x\<lparr>bi_runId := sj_runId j, bi_status := status, bi_reviewReason := reason\<rparr>) (invoices db)\<rparr>)
   | None \<Rightarrow> let i = newInvoice j walletId newId status reason in
       if (\<exists>x \<in> set (invoices db). bi_id x = newId \<or> bi_key x = bi_key i) then Inl P2002
       else Inr (newId, db\<lparr>invoices := invoices db @ [i]\<rparr>))"

fun reviewKindText :: "ReviewKind \<Rightarrow> string" where
  "reviewKindText RATE_CARD = ''RATE_CARD''" | "reviewKindText RESOURCE_STATE = ''RESOURCE_STATE''"

definition markInvoiceForReview ::
  "SnapshotJob \<Rightarrow> string \<Rightarrow> string \<Rightarrow> InvoiceReview \<Rightarrow> BillingDb \<Rightarrow> string + BillingDb" where
  "markInvoiceForReview j walletId newId review db =
     bindE (upsertInvoice j walletId newId INV_UNDER_REVIEW (Some (snd review)) db) (\<lambda>(invoiceId, db).
     let key = ''billing-review:'' @ invoiceId @ '':'' @ reviewKindText (fst review);
         orderId = ci_infrastructureOrderId (sj_instance j) in
     Inr (db\<lparr>reconciliations := upsertRow rr_key
         \<lparr>rr_kind = fst review, rr_cloudInstanceId = ci_id (sj_instance j), rr_invoiceId = invoiceId,
          rr_reason = snd review, rr_key = key\<rparr> (\<lambda>r. r\<lparr>rr_reason := snd review\<rparr>) (reconciliations db),
       notices := (if (\<exists>n \<in> set (notices db). an_infrastructureOrderId n = orderId \<and>
           an_type n = N_PROVIDER_BILLING_RECONCILIATION \<and> an_unread n \<and> sublist invoiceId (an_message n))
         then notices db
         else notices db @ [\<lparr>an_type = N_PROVIDER_BILLING_RECONCILIATION, an_infrastructureOrderId = orderId,
           an_unread = True, an_message = ''Invoice '' @ invoiceId @ '': '' @ snd review\<rparr>])\<rparr>))"

definition lineTotal :: "LineDraft list \<Rightarrow> int" where
  "lineTotal ls = sum_list (map (\<lambda>l. bl_amountRial (ld_amounts l)) ls)"

text \<open>The old lines of the invoice go, the drafts are created; a line's idempotency key is unique.\<close>

definition insertLine :: "string \<Rightarrow> (string \<times> LineDraft) list \<Rightarrow> LineDraft \<Rightarrow> string + (string \<times> LineDraft) list" where
  "insertLine invoiceId t l =
     (if (\<exists>x \<in> set t. ld_key (snd x) = ld_key l) then Inl P2002 else Inr (t @ [(invoiceId, l)]))"

definition replaceLines :: "string \<Rightarrow> LineDraft list \<Rightarrow> BillingDb \<Rightarrow> string + BillingDb" where
  "replaceLines invoiceId ls db =
     bindE (foldE (insertLine invoiceId) (filter (\<lambda>x. fst x \<noteq> invoiceId) (billingLines db)) ls)
       (\<lambda>t. Inr (db\<lparr>billingLines := t\<rparr>))"

definition usageDebit :: "string \<Rightarrow> string \<Rightarrow> string \<Rightarrow> int \<Rightarrow> int \<Rightarrow> LedgerEntry" where
  "usageDebit newId walletId invoiceId amount balanceAfter =
     \<lparr>le_id = newId, le_walletId = walletId, le_direction = DEBIT, le_type = USAGE_SETTLEMENT,
      le_amount = amount, le_status = LS_COMPLETED, le_referenceType = Some ''billing_invoice'',
      le_referenceId = Some invoiceId, le_idempotencyKey = ''billing-invoice-debit:'' @ invoiceId,
      le_balanceAfter = balanceAfter, le_reversedEntryId = None\<rparr>"

text \<open>Charging what the wallet holds: the balance afterwards and the amount paid.\<close>

definition chargeWallet ::
  "string \<Rightarrow> string \<Rightarrow> string \<Rightarrow> int \<Rightarrow> BillingDb \<Rightarrow> string + (int \<times> int) \<times> BillingDb" where
  "chargeWallet newId walletId invoiceId totalAmount db = (case findWallet walletId db of
     None \<Rightarrow> Inl P2025
   | Some locked \<Rightarrow>
       let paid = (if w_availableBalance locked < totalAmount then w_availableBalance locked else totalAmount) in
       if paid > 0
       then (let db = updateBalance walletId (- paid) db in case findWallet walletId db of
           None \<Rightarrow> Inl P2025
         | Some updated \<Rightarrow>
             bindE (insertEntry (usageDebit newId walletId invoiceId paid (w_availableBalance updated)) db)
               (\<lambda>(_, db). Inr ((paid, w_availableBalance updated), db)))
       else Inr ((paid, w_availableBalance locked), db))"

definition finalizeInvoice :: "string \<Rightarrow> int \<Rightarrow> int \<Rightarrow> int \<Rightarrow> BillingDb \<Rightarrow> BillingDb" where
  "finalizeInvoice invoiceId totalAmount paid now db =
     (let outstanding = totalAmount - paid;
          status = (if outstanding = 0 then INV_PAID else if paid > 0 then INV_PARTIALLY_PAID else INV_UNPAID)
      in db\<lparr>invoices := updateRows (\<lambda>i. bi_id i = invoiceId) (\<lambda>i. i\<lparr>bi_status := status,
        bi_total := totalAmount, bi_paid := paid, bi_outstanding := outstanding,
        bi_settledAt := (if paid > 0 then Some now else None), bi_reviewReason := None\<rparr>) (invoices db)\<rparr>)"

definition graceEnd :: "SnapshotJob \<Rightarrow> int" where
  "graceEnd j = sj_periodEnd j + sn_gracePeriods (sj_snapshot j) *
     (if sj_cadence j = HOURLY then 60 * 60 * 1000 else 24 * 60 * 60 * 1000)"

definition recordOutstanding :: "SnapshotJob \<Rightarrow> string \<Rightarrow> int \<Rightarrow> int \<Rightarrow> int \<Rightarrow> BillingDb \<Rightarrow> BillingDb" where
  "recordOutstanding j invoiceId totalAmount paid balanceAfter db =
     (let remaining = totalAmount - paid; status = (if paid > 0 then OB_PARTIALLY_PAID else OB_OPEN);
          instanceId = ci_id (sj_instance j) in
      db\<lparr>outstandings := upsertRow ob_invoiceId
          \<lparr>ob_invoiceId = invoiceId, ob_userId = ci_userId (sj_instance j), ob_original = totalAmount,
           ob_paid = paid, ob_remaining = remaining, ob_status = status, ob_dueAt = graceEnd j\<rparr>
          (\<lambda>o'. o'\<lparr>ob_original := totalAmount, ob_paid := paid, ob_remaining := remaining, ob_status := status\<rparr>)
          (outstandings db),
        dunningCases := upsertRow dc_key
          \<lparr>dc_cloudInstanceId = instanceId, dc_invoiceId = invoiceId, dc_type = OUTSTANDING_INVOICE,
           dc_threshold = totalAmount, dc_observedBalance = balanceAfter, dc_runwaySeconds = None,
           dc_graceEndsAt = Some (graceEnd j), dc_key = ''dunning:outstanding:'' @ instanceId\<rparr>
          (\<lambda>c. c\<lparr>dc_observedBalance := balanceAfter\<rparr>) (dunningCases db),
        notices := notices db @ [\<lparr>an_type = N_OUTSTANDING_INVOICE,
          an_infrastructureOrderId = ci_infrastructureOrderId (sj_instance j), an_unread = True,
          an_message = ''Invoice '' @ invoiceId @ '' has '' @ jsNumberText remaining
            @ '' IRR outstanding; no automatic suspend or delete was performed.''\<rparr>]\<rparr>)"

definition recordLowBalance :: "SnapshotJob \<Rightarrow> string \<Rightarrow> int \<Rightarrow> int \<Rightarrow> BillingDb \<Rightarrow> BillingDb" where
  "recordLowBalance j invoiceId totalAmount balanceAfter db =
     (let threshold = totalAmount * sn_lowBalanceThresholdPeriods (sj_snapshot j) in
      if totalAmount > 0 \<and> balanceAfter < threshold then
        let runway = (balanceAfter * (if sj_cadence j = HOURLY then 3600 else 86400)) sdiv totalAmount;
            instanceId = ci_id (sj_instance j); orderId = ci_infrastructureOrderId (sj_instance j) in
        db\<lparr>dunningCases := upsertRow dc_key
            \<lparr>dc_cloudInstanceId = instanceId, dc_invoiceId = invoiceId, dc_type = LOW_BALANCE,
             dc_threshold = threshold, dc_observedBalance = balanceAfter, dc_runwaySeconds = Some runway,
             dc_graceEndsAt = None,
             dc_key = ''dunning:low-balance:'' @ instanceId @ '':'' @ sn_id (sj_snapshot j)\<rparr>
            (\<lambda>c. c\<lparr>dc_invoiceId := invoiceId, dc_threshold := threshold, dc_observedBalance := balanceAfter,
              dc_runwaySeconds := Some runway\<rparr>) (dunningCases db),
          notices := (if (\<exists>n \<in> set (notices db). an_infrastructureOrderId n = orderId \<and>
              an_type n = N_LOW_BALANCE \<and> an_unread n) then notices db
            else notices db @ [\<lparr>an_type = N_LOW_BALANCE, an_infrastructureOrderId = orderId, an_unread = True,
              an_message = ''Estimated runway is '' @ jsNumberText runway
                @ '' seconds. Review is required before suspension.''\<rparr>])\<rparr>
      else db)"

definition settleInvoice ::
  "SnapshotJob \<Rightarrow> NewIds \<Rightarrow> string \<Rightarrow> LineDraft list \<Rightarrow> BillingDb \<Rightarrow> string + BillingDb" where
  "settleInvoice j ids walletId ls db =
     bindE (upsertInvoice j walletId (ni_invoice ids) INV_CALCULATING None db) (\<lambda>(invoiceId, db).
     bindE (replaceLines invoiceId ls db) (\<lambda>db.
     let totalAmount = lineTotal ls in
     bindE (chargeWallet (ni_entry ids) walletId invoiceId totalAmount db) (\<lambda>((paid, balanceAfter), db).
     let db = finalizeInvoice invoiceId totalAmount paid (sj_now j) db;
         db = (if totalAmount - paid > 0 then recordOutstanding j invoiceId totalAmount paid balanceAfter db else db)
     in Inr (recordLowBalance j invoiceId totalAmount balanceAfter db))))"

text \<open>The result says whether there is an invoice and whether it needs review.\<close>

definition processSnapshot ::
  "SnapshotJob \<Rightarrow> WalletRow option \<Rightarrow> NewIds \<Rightarrow> BillingDb \<Rightarrow> string + (bool \<times> bool) \<times> BillingDb" where
  "processSnapshot j loadedWallet ids db =
     bindE (case loadedWallet of Some w \<Rightarrow> Inr (w, db)
       | None \<Rightarrow> createWallet (ci_userId (sj_instance j)) (ni_wallet ids) db) (\<lambda>(wallet, db).
     let targetStart = maximumDate (sj_periodStart j) (sn_effectiveFrom (sj_snapshot j));
         targetEnd = (case sn_effectiveTo (sj_snapshot j) of None \<Rightarrow> sj_periodEnd j
           | Some t \<Rightarrow> minimumDate (sj_periodEnd j) t) in
     if targetStart \<ge> targetEnd then Inr ((False, False), db)
     else if (case jobInvoice j db of None \<Rightarrow> False | Some i \<Rightarrow> settledStatus (bi_status i))
     then Inr ((True, False), db)
     else bindE (draftInvoice (usageIntervals db) (rateCards db) (sj_cadence j) (sj_snapshot j)
         (ci_id (sj_instance j)) targetStart targetEnd) (\<lambda>r. case r of
       Inl review \<Rightarrow> bindE (markInvoiceForReview j (w_id wallet) (ni_invoice ids) review db)
         (\<lambda>db. Inr ((True, True), db))
     | Inr ls \<Rightarrow> bindE (settleInvoice j ids (w_id wallet) ls db) (\<lambda>db. Inr ((True, False), db))))"

section \<open>A run\<close>

text \<open>The snapshots of the period with their instance and the wallet of its user, as they are when the run begins.\<close>

definition loadSnapshots ::
  "BillingCadence \<Rightarrow> int \<Rightarrow> int \<Rightarrow> BillingDb \<Rightarrow> (PolicySnapshotRow \<times> CloudInstanceRow \<times> WalletRow option) list" where
  "loadSnapshots cadence periodStart periodEnd db = List.map_filter
     (\<lambda>s. map_option (\<lambda>c. (s, c, getWalletForUser (ci_userId c) db))
        (findRow (\<lambda>c. ci_id c = sn_cloudInstanceId s) (cloudInstances db)))
     (sort_key sn_cloudInstanceId (sort_key sn_effectiveFrom (filter (\<lambda>s. sn_cadence s = cadence \<and>
        sn_effectiveFrom s < periodEnd \<and>
        (case sn_effectiveTo s of None \<Rightarrow> True | Some t \<Rightarrow> t > periodStart)) (policySnapshots db))))"

definition findRun :: "string \<Rightarrow> BillingDb \<Rightarrow> BillingRunRow option" where
  "findRun key db = findRow (\<lambda>r. br_key r = key) (billingRuns db)"

record BillingPeriod =
  pd_cadence :: BillingCadence
  pd_start :: int
  pd_end :: int
  pd_workerId :: string
  pd_now :: int

definition pdKey :: "BillingPeriod \<Rightarrow> string" where
  "pdKey p = runKey (pd_cadence p) (pd_start p) (pd_end p)"

definition updateRun :: "string \<Rightarrow> (BillingRunRow \<Rightarrow> BillingRunRow) \<Rightarrow> BillingDb \<Rightarrow> BillingDb" where
  "updateRun key f db = db\<lparr>billingRuns := updateRows (\<lambda>r. br_key r = key) f (billingRuns db)\<rparr>"

text \<open>Opening the run: an existing one is taken up again, otherwise one is created.\<close>

definition openRun :: "string \<Rightarrow> BillingPeriod \<Rightarrow> BillingDb \<Rightarrow> string + string \<times> BillingDb" where
  "openRun newId p db = (case findRun (pdKey p) db of
     Some r \<Rightarrow> Inr (br_id r, updateRun (pdKey p) (\<lambda>r. r\<lparr>br_status := RUN_RUNNING, br_workerId := pd_workerId p,
       br_failureCode := None\<rparr>) db)
   | None \<Rightarrow> if (\<exists>r \<in> set (billingRuns db). br_id r = newId) then Inl P2002
       else Inr (newId, db\<lparr>billingRuns := billingRuns db @ [\<lparr>br_id = newId, br_cadence = pd_cadence p,
         br_periodStart = pd_start p, br_periodEnd = pd_end p, br_status = RUN_RUNNING,
         br_workerId = pd_workerId p, br_invoiceCount = 0, br_reviewCount = 0, br_failureCode = None,
         br_key = pdKey p\<rparr>]\<rparr>))"

definition snapshotJob :: "string \<Rightarrow> BillingPeriod \<Rightarrow> PolicySnapshotRow \<Rightarrow> CloudInstanceRow \<Rightarrow> SnapshotJob" where
  "snapshotJob runId p s c = \<lparr>sj_runId = runId, sj_snapshot = s, sj_instance = c, sj_cadence = pd_cadence p,
     sj_periodStart = pd_start p, sj_periodEnd = pd_end p, sj_now = pd_now p\<rparr>"

definition countIf :: "bool \<Rightarrow> int \<Rightarrow> int" where
  "countIf b n = (if b then n + 1 else n)"

definition processSnapshots ::
  "(nat \<Rightarrow> NewIds) \<Rightarrow> string \<Rightarrow> BillingPeriod \<Rightarrow>
   (PolicySnapshotRow \<times> CloudInstanceRow \<times> WalletRow option) list \<Rightarrow> BillingDb \<Rightarrow> string + (int \<times> int) \<times> BillingDb" where
  "processSnapshots ids runId p snapshots db =
     foldE (\<lambda>((invoiced, review), db) (k, s, c, w).
       bindE (processSnapshot (snapshotJob runId p s c) w (ids k) db) (\<lambda>((i, r), db).
         Inr ((countIf i invoiced, countIf r review), db))) ((0, 0), db) (enumerate 0 snapshots)"

definition settleTx ::
  "string \<Rightarrow> (nat \<Rightarrow> NewIds) \<Rightarrow> BillingPeriod \<Rightarrow> BillingDb \<Rightarrow> string + BillingRunRow \<times> BillingDb" where
  "settleTx newRunId ids p db =
     (if (case findRun (pdKey p) db of None \<Rightarrow> False | Some r \<Rightarrow> terminalRun (br_status r))
      then Inr (the (findRun (pdKey p) db), db)
      else bindE (openRun newRunId p db) (\<lambda>(runId, db).
        bindE (processSnapshots ids runId p (loadSnapshots (pd_cadence p) (pd_start p) (pd_end p) db) db)
          (\<lambda>((invoiced, review), db).
        let db = updateRun (pdKey p) (\<lambda>r. r\<lparr>br_status := (if review > 0 then RUN_PARTIAL else RUN_COMPLETED),
              br_invoiceCount := invoiced, br_reviewCount := review\<rparr>) db in
        case findRun (pdKey p) db of None \<Rightarrow> Inl P2025 | Some r \<Rightarrow> Inr (r, db))))"

definition P2034 :: string where "P2034 = ''P2034''"

text \<open>Serialization failures are retried; the operation gets the number of its attempt.\<close>

fun retryFrom :: "(nat \<Rightarrow> string + 'a) \<Rightarrow> nat \<Rightarrow> nat \<Rightarrow> string + 'a" where
  "retryFrom operation attempt 0 = Inl ''undefined''"
| "retryFrom operation attempt (Suc left) = (case operation attempt of
     Inr x \<Rightarrow> Inr x
   | Inl e \<Rightarrow> if e \<noteq> P2034 \<or> left = 0 then Inl e else retryFrom operation (attempt + 1) left)"

definition retrySerializableBilling :: "(nat \<Rightarrow> string + 'a) \<Rightarrow> nat \<Rightarrow> string + 'a" where
  "retrySerializableBilling operation maximumAttempts = retryFrom operation 1 maximumAttempts"

definition failureCode :: "string \<Rightarrow> string" where
  "failureCode message = (if message \<noteq> '''' then take 180 message else ''billing_settlement_failed'')"

definition recordBillingRunFailure ::
  "string \<Rightarrow> BillingPeriod \<Rightarrow> string \<Rightarrow> BillingDb \<Rightarrow> BillingRunRow option \<times> BillingDb" where
  "recordBillingRunFailure newId p code db = (case findRun (pdKey p) db of
     Some r \<Rightarrow> if terminalRun (br_status r) then (None, db)
       else (let db = updateRun (pdKey p) (\<lambda>r. r\<lparr>br_status := RUN_FAILED, br_workerId := pd_workerId p,
              br_failureCode := Some code\<rparr>) db in (findRun (pdKey p) db, db))
   | None \<Rightarrow> let r = \<lparr>br_id = newId, br_cadence = pd_cadence p, br_periodStart = pd_start p,
         br_periodEnd = pd_end p, br_status = RUN_FAILED, br_workerId = pd_workerId p, br_invoiceCount = 0,
         br_reviewCount = 0, br_failureCode = Some code, br_key = pdKey p\<rparr>
       in (Some r, db\<lparr>billingRuns := billingRuns db @ [r]\<rparr>))"

text \<open>\<open>aborted n\<close>: the database aborts the n-th attempt as not serializable.\<close>

definition settleClosedBillingPeriod ::
  "(nat \<Rightarrow> bool) \<Rightarrow> string \<Rightarrow> (nat \<Rightarrow> NewIds) \<Rightarrow> BillingPeriod \<Rightarrow> BillingDb \<Rightarrow> (string + BillingRunRow) \<times> BillingDb" where
  "settleClosedBillingPeriod aborted newRunId ids p db =
     (case validatePeriod (pd_cadence p) (pd_start p) (pd_end p) (pd_now p) of Inl e \<Rightarrow> (Inl e, db)
      | Inr _ \<Rightarrow>
        (case retrySerializableBilling (\<lambda>n. if aborted n then Inl P2034 else settleTx newRunId ids p db) 4 of
           Inr (r, db') \<Rightarrow> (Inr r, db')
         | Inl e \<Rightarrow> (Inl e, snd (recordBillingRunFailure newRunId p (failureCode e) db))))"

definition settleLatestClosedBillingPeriod ::
  "(nat \<Rightarrow> bool) \<Rightarrow> string \<Rightarrow> (nat \<Rightarrow> NewIds) \<Rightarrow> BillingCadence \<Rightarrow> string \<Rightarrow> int \<Rightarrow> BillingDb \<Rightarrow>
   (string + BillingRunRow) \<times> BillingDb" where
  "settleLatestClosedBillingPeriod aborted newRunId ids cadence workerId now db =
     (let (s, e) = latestClosedPeriodUtc cadence now in
      settleClosedBillingPeriod aborted newRunId ids
        \<lparr>pd_cadence = cadence, pd_start = s, pd_end = e, pd_workerId = workerId, pd_now = now\<rparr> db)"

section \<open>Catching up\<close>

text \<open>The loop over the closed periods. It need not end, so a run that does not return is \<open>None\<close>.\<close>

definition hasUsageWindow :: "(int \<times> int option) list \<Rightarrow> int \<Rightarrow> int \<Rightarrow> bool" where
  "hasUsageWindow windows periodStart periodEnd \<longleftrightarrow>
     (\<exists>w \<in> set windows. fst w < periodEnd \<and> (case snd w of None \<Rightarrow> True | Some t \<Rightarrow> t > periodStart))"

partial_function (option) catchUpLoop ::
  "BillingCadence \<Rightarrow> (int \<times> int option) list \<Rightarrow> string list \<Rightarrow> int \<Rightarrow> nat \<Rightarrow> int \<Rightarrow> (int \<times> int) list \<Rightarrow>
   (int \<times> int) list option" where
  "catchUpLoop cadence windows completed latestEnd limit periodStart periods =
     (if \<not> (periodStart < latestEnd \<and> length periods < limit) then Some periods
      else let periodEnd = nextPeriodStart cadence periodStart in
        if \<not> hasUsageWindow windows periodStart periodEnd
        then (case List.find (\<lambda>w. fst w \<ge> periodEnd) windows of
            None \<Rightarrow> Some periods
          | Some w \<Rightarrow> catchUpLoop cadence windows completed latestEnd limit
              (fst (periodContainingUtc cadence (fst w))) periods)
        else catchUpLoop cadence windows completed latestEnd limit periodEnd
          (if periodKey cadence periodStart periodEnd \<in> set completed then periods
           else periods @ [(periodStart, periodEnd)]))"

definition catchUpWindows :: "BillingCadence \<Rightarrow> int \<Rightarrow> BillingDb \<Rightarrow> (int \<times> int option) list" where
  "catchUpWindows cadence latestEnd db = map (\<lambda>s. (sn_effectiveFrom s, sn_effectiveTo s))
     (sort_key sn_effectiveFrom (filter (\<lambda>s. sn_cadence s = cadence \<and> sn_effectiveFrom s < latestEnd)
        (policySnapshots db)))"

definition completedKeys :: "BillingCadence \<Rightarrow> int \<Rightarrow> int \<Rightarrow> BillingDb \<Rightarrow> string list" where
  "completedKeys cadence first latestEnd db = map (\<lambda>r. periodKey cadence (br_periodStart r) (br_periodEnd r))
     (filter (\<lambda>r. br_cadence r = cadence \<and> first \<le> br_periodStart r \<and> br_periodStart r < latestEnd \<and>
        br_periodEnd r \<le> latestEnd \<and> terminalRun (br_status r)) (billingRuns db))"

definition listClosedBillingPeriodsForCatchUp ::
  "BillingCadence \<Rightarrow> int \<Rightarrow> jsval \<Rightarrow> BillingDb \<Rightarrow> string + (int \<times> int) list option" where
  "listClosedBillingPeriodsForCatchUp cadence now maxPeriods db =
     bindE (catchUpLimit maxPeriods) (\<lambda>limit.
     let latestEnd = snd (latestClosedPeriodUtc cadence now);
         windows = catchUpWindows cadence latestEnd db in
     case windows of [] \<Rightarrow> Inr (Some [])
     | w # _ \<Rightarrow> let first = fst (periodContainingUtc cadence (fst w)) in
         Inr (catchUpLoop cadence windows (completedKeys cadence first latestEnd db) latestEnd limit first []))"

text \<open>The runs, and the period that failed with the run and the code recorded for it.\<close>

record FailedPeriod =
  fp_periodStart :: string
  fp_periodEnd :: string
  fp_billingRunId :: "string option"
  fp_failureCode :: string

record CatchUpResult =
  cu_cadence :: BillingCadence
  cu_runs :: "BillingRunRow list"
  cu_failedPeriod :: "FailedPeriod option"

text \<open>The supplies of ids and of aborted attempts are indexed by the position of the period.\<close>

fun settlePeriods ::
  "(nat \<Rightarrow> nat \<Rightarrow> bool) \<Rightarrow> (nat \<Rightarrow> string) \<Rightarrow> (nat \<Rightarrow> nat \<Rightarrow> NewIds) \<Rightarrow> BillingCadence \<Rightarrow> string \<Rightarrow> int \<Rightarrow> nat \<Rightarrow>
   (int \<times> int) list \<Rightarrow> BillingRunRow list \<Rightarrow> BillingDb \<Rightarrow> CatchUpResult \<times> BillingDb" where
  "settlePeriods aborted runIds ids cadence workerId now k [] runs db =
     (\<lparr>cu_cadence = cadence, cu_runs = runs, cu_failedPeriod = None\<rparr>, db)"
| "settlePeriods aborted runIds ids cadence workerId now k ((s, e) # ps) runs db =
     (let p = \<lparr>pd_cadence = cadence, pd_start = s, pd_end = e, pd_workerId = workerId, pd_now = now\<rparr> in
      case settleClosedBillingPeriod (aborted k) (runIds k) (ids k) p db of
        (Inr r, db) \<Rightarrow> settlePeriods aborted runIds ids cadence workerId now (k + 1) ps (runs @ [r]) db
      | (Inl err, db) \<Rightarrow>
        let (failedRun, db) = recordBillingRunFailure (runIds k) p (failureCode err) db in
        (\<lparr>cu_cadence = cadence, cu_runs = runs, cu_failedPeriod = Some \<lparr>fp_periodStart = toISOString s,
            fp_periodEnd = toISOString e, fp_billingRunId = map_option br_id failedRun,
            fp_failureCode = failureCode err\<rparr>\<rparr>, db))"

definition settleClosedBillingPeriodsCatchUp ::
  "(nat \<Rightarrow> nat \<Rightarrow> bool) \<Rightarrow> (nat \<Rightarrow> string) \<Rightarrow> (nat \<Rightarrow> nat \<Rightarrow> NewIds) \<Rightarrow> BillingCadence \<Rightarrow> string \<Rightarrow> int \<Rightarrow> jsval \<Rightarrow>
   BillingDb \<Rightarrow> string + (CatchUpResult \<times> BillingDb) option" where
  "settleClosedBillingPeriodsCatchUp aborted runIds ids cadence workerId now maxPeriods db =
     bindE (listClosedBillingPeriodsForCatchUp cadence now maxPeriods db) (\<lambda>periods.
     Inr (map_option (\<lambda>ps. settlePeriods aborted runIds ids cadence workerId now 0 ps [] db) periods))"

definition requireSuccessfulBillingCatchUp :: "CatchUpResult \<Rightarrow> string + unit" where
  "requireSuccessfulBillingCatchUp r = (case cu_failedPeriod r of None \<Rightarrow> Inr ()
     | Some f \<Rightarrow> Inl (''billing_catch_up_failed:'' @ cadenceText (cu_cadence r) @ '':'' @ fp_periodStart f
         @ '':'' @ fp_failureCode f))"

definition oldestOutstandingPeriod :: "int \<Rightarrow> BillingDb \<Rightarrow> BillingCadence \<Rightarrow> string + (int \<times> int) option option" where
  "oldestOutstandingPeriod now db cadence =
     bindE (listClosedBillingPeriodsForCatchUp cadence now (JInt 1) db) (\<lambda>periods.
     Inr (map_option (\<lambda>ps. case ps of [] \<Rightarrow> None | p # _ \<Rightarrow> Some p) periods))"

definition getBillingCatchUpStatus :: "int \<Rightarrow> BillingDb \<Rightarrow> string + (bool \<times> (int \<times> int) option list) option" where
  "getBillingCatchUpStatus now db =
     bindE (mapE (oldestOutstandingPeriod now db) [HOURLY, DAILY]) (\<lambda>cadences.
     Inr (if None \<in> set cadences then None
       else Some (\<exists>c \<in> set cadences. c \<noteq> Some None, map the cadences)))"

section \<open>Catching up: the oldest outstanding periods\<close>

lemma nextPeriodStart_eq: "nextPeriodStart c s = s + periodMs c"
  by (cases c) (simp_all add: nextPeriodStart_def)

lemma periodMs_pos [simp]: "0 < periodMs c" and periodMs_nonneg [simp]: "0 \<le> periodMs c"
  by (cases c; simp)+

text \<open>The reference: every period from a start on, in order.\<close>

function periodsFrom :: "BillingCadence \<Rightarrow> int \<Rightarrow> int \<Rightarrow> (int \<times> int) list" where
  "periodsFrom c s latestEnd =
     (if s < latestEnd then (s, s + periodMs c) # periodsFrom c (s + periodMs c) latestEnd else [])"
  by auto
termination
proof (relation "measure (\<lambda>(c, s, latestEnd). nat (latestEnd - s))", goal_cases)
  case (2 c s l)
  then show ?case using periodMs_pos [of c] by (simp del: periodMs_pos)
qed simp

declare periodsFrom.simps [simp del]

definition outstandingPeriod :: "BillingCadence \<Rightarrow> (int \<times> int option) list \<Rightarrow> string list \<Rightarrow> int \<times> int \<Rightarrow> bool" where
  "outstandingPeriod c windows completed p \<longleftrightarrow>
     hasUsageWindow windows (fst p) (snd p) \<and> periodKey c (fst p) (snd p) \<notin> set completed"

lemma skip_periods:
  assumes "\<And>i. i < k \<Longrightarrow> \<not> P (s + int i * periodMs c, s + int (Suc i) * periodMs c)"
  shows "filter P (periodsFrom c s l) = filter P (periodsFrom c (s + int k * periodMs c) l)"
  using assms
proof (induction k arbitrary: s)
  case (Suc k)
  have "filter P (periodsFrom c s l) = filter P (periodsFrom c (s + periodMs c) l)"
  proof (cases "s < l")
    case True
    then show ?thesis using Suc.prems [of 0] by (simp add: periodsFrom.simps [of c s])
  next
    case False
    then have "\<not> s + periodMs c < l" using periodMs_pos [of c] by linarith
    then show ?thesis using False by (simp add: periodsFrom.simps)
  qed
  also have "\<dots> = filter P (periodsFrom c (s + periodMs c + int k * periodMs c) l)"
    by (rule Suc.IH) (use Suc.prems [of "Suc _"] in \<open>simp add: algebra_simps\<close>)
  finally show ?case by (simp add: algebra_simps)
qed simp

lemma no_outstanding:
  assumes "\<And>i. \<not> P (s + int i * periodMs c, s + int (Suc i) * periodMs c)"
  shows "filter P (periodsFrom c s l) = []"
proof -
  let ?k = "nat (l - s)"
  have "int ?k * 1 \<le> int ?k * periodMs c" using periodMs_pos [of c] by (intro mult_left_mono) linarith+
  then have "l \<le> s + int ?k * periodMs c" by linarith
  then have "periodsFrom c (s + int ?k * periodMs c) l = []" by (simp add: periodsFrom.simps)
  then show ?thesis using skip_periods [of ?k P s c l] assms by simp
qed

lemma early_window_ended:
  assumes "\<not> hasUsageWindow ws s e" and "v \<in> set ws" and "case snd v of None \<Rightarrow> True | Some t \<Rightarrow> t > s + n" and "0 \<le> n"
  shows "\<not> fst v < e"
proof
  assume "fst v < e"
  moreover have "case snd v of None \<Rightarrow> True | Some t \<Rightarrow> t > s"
    using assms(3,4) by (cases "snd v") simp_all
  ultimately show False using assms(1,2) by (auto simp: hasUsageWindow_def)
qed

text \<open>A gap without a usage window reaches to the period of the next snapshot.\<close>

lemma gap_has_no_usage:
  assumes gap: "\<not> hasUsageWindow ws s (s + periodMs c)" and sorted: "sorted (map fst ws)"
    and "find (\<lambda>w. s + periodMs c \<le> fst w) ws = Some w"
    and s: "s mod periodMs c = 0"
    and "s + int (Suc i) * periodMs c \<le> fst (periodContainingUtc c (fst w))"
  shows "\<not> hasUsageWindow ws (s + int i * periodMs c) (s + int (Suc i) * periodMs c)"
proof
  let ?P = "periodMs c"
  assume "hasUsageWindow ws (s + int i * ?P) (s + int (Suc i) * ?P)"
  then obtain v where v: "v \<in> set ws" "fst v < s + int (Suc i) * ?P"
    "case snd v of None \<Rightarrow> True | Some t \<Rightarrow> t > s + int i * ?P"
    by (auto simp: hasUsageWindow_def)
  have "\<not> fst v < s + ?P" using early_window_ended [OF gap v(1,3)] by simp
  moreover obtain n where n: "n < length ws" "w = ws ! n" "\<forall>j < n. fst (ws ! j) < s + ?P"
    using assms(3) by (auto simp: find_Some_iff not_le)
  moreover obtain m where m: "m < length ws" "v = ws ! m" using v(1) by (auto simp: in_set_conv_nth)
  ultimately have "n \<le> m" by (metis not_le)
  then have "fst w \<le> fst v" using sorted_nth_mono [OF sorted] n m by simp
  moreover have "fst (periodContainingUtc c (fst w)) \<le> fst w"
    by (simp add: periodContainingUtc_def Let_def)
  ultimately show False using v(2) assms(5) by linarith
qed

lemma aligned_gap:
  assumes "s mod periodMs c = 0" and "s + periodMs c \<le> t"
  obtains k where "fst (periodContainingUtc c t) = s + int (Suc k) * periodMs c"
proof -
  let ?P = "periodMs c"
  have "(t - t mod ?P) mod ?P = 0" by (simp add: mod_diff_left_eq [symmetric])
  then obtain q where q: "t - t mod ?P = ?P * q" by (metis dvdE mod_0_imp_dvd)
  obtain r where r: "s = ?P * r" using assms(1) by (metis dvdE mod_0_imp_dvd)
  have "t mod ?P < ?P" by simp
  then have "?P * r < ?P * q" using assms(2) q r by linarith
  then have "r < q" by simp
  then obtain k where "q = r + int (Suc k)" by (metis zless_iff_Suc_zadd)
  then have "fst (periodContainingUtc c t) = s + int (Suc k) * ?P"
    using q by (simp add: periodContainingUtc_def r algebra_simps)
  then show thesis by (rule that)
qed

lemma no_later_window:
  assumes gap: "\<not> hasUsageWindow ws s (s + periodMs c)" and none: "find (\<lambda>w. s + periodMs c \<le> fst w) ws = None"
  shows "\<not> hasUsageWindow ws (s + int i * periodMs c) (s + int (Suc i) * periodMs c)"
proof
  assume "hasUsageWindow ws (s + int i * periodMs c) (s + int (Suc i) * periodMs c)"
  then obtain v where v: "v \<in> set ws" "case snd v of None \<Rightarrow> True | Some t \<Rightarrow> t > s + int i * periodMs c"
    by (auto simp: hasUsageWindow_def)
  have "fst v < s + periodMs c" using none v(1) unfolding find_None_iff not_le [symmetric] by blast
  moreover have "\<not> fst v < s + periodMs c" using early_window_ended [OF gap v] by simp
  ultimately show False by contradiction
qed

lemma catchUpLoop_spec:
  assumes "sorted (map fst windows)" and "s mod periodMs c = 0"
  shows "catchUpLoop c windows completed latestEnd limit s periods = Some (periods @
    take (limit - length periods) (filter (outstandingPeriod c windows completed) (periodsFrom c s latestEnd)))"
  using assms(2)
proof (induction "nat (latestEnd - s)" arbitrary: s periods rule: less_induct)
  case less
  let ?P = "periodMs c" and ?out = "outstandingPeriod c windows completed"
  show ?case
  proof (cases "s < latestEnd \<and> length periods < limit")
    case False
    then show ?thesis by (auto simp: catchUpLoop.simps [of c _ _ _ _ s] periodsFrom.simps [of c s])
  next
    case True
    have dec: "nat (latestEnd - t) < nat (latestEnd - s)" if "s + ?P \<le> t" for t
      using that True periodMs_pos [of c] by linarith
    have nextT: "nextPeriodStart c s = s + ?P" by (rule nextPeriodStart_eq)
    show ?thesis
    proof (cases "hasUsageWindow windows s (s + ?P)")
      case usage: True
      have aligned: "(s + ?P) mod ?P = 0" using less.prems by simp
      note IH = less.hyps [OF dec [OF order_refl] aligned]
      show ?thesis
      proof (cases "periodKey c s (s + ?P) \<in> set completed")
        case closed: True
        then have "\<not> ?out (s, s + ?P)" by (simp add: outstandingPeriod_def)
        then show ?thesis using True usage closed IH
          by (simp add: catchUpLoop.simps [of c _ _ _ _ s] Let_def nextT periodsFrom.simps [of c s])
      next
        case new: False
        then have "?out (s, s + ?P)" using usage by (simp add: outstandingPeriod_def)
        moreover have "limit - length periods = Suc (limit - Suc (length periods))" using True by linarith
        ultimately show ?thesis using True usage new IH [of "periods @ [(s, s + ?P)]"]
          by (simp add: catchUpLoop.simps [of c _ _ _ _ s] Let_def nextT periodsFrom.simps [of c s])
      qed
    next
      case gap: False
      show ?thesis
      proof (cases "find (\<lambda>w. s + ?P \<le> fst w) windows")
        case None
        have "\<not> ?out (s + int i * ?P, s + int (Suc i) * ?P)" for i
          using no_later_window [OF gap None, of i] by (simp add: outstandingPeriod_def)
        then have "filter ?out (periodsFrom c s latestEnd) = []" by (rule no_outstanding)
        then show ?thesis using True gap None by (simp add: catchUpLoop.simps [of c _ _ _ _ s] Let_def nextT)
      next
        case (Some w)
        then have w: "s + ?P \<le> fst w" by (auto simp: find_Some_iff)
        obtain k where k: "fst (periodContainingUtc c (fst w)) = s + int (Suc k) * ?P"
          using aligned_gap [OF less.prems w] .
        have "\<not> ?out (s + int i * ?P, s + int (Suc i) * ?P)" if "i < Suc k" for i
        proof -
          have "int (Suc i) * ?P \<le> int (Suc k) * ?P" using that by (intro mult_right_mono) simp_all
          then show ?thesis
            using gap_has_no_usage [OF gap assms(1) Some less.prems, of i] k by (simp add: outstandingPeriod_def)
        qed
        then have skip: "filter ?out (periodsFrom c s latestEnd) = filter ?out (periodsFrom c (s + int (Suc k) * ?P) latestEnd)"
          by (rule skip_periods)
        have later: "s + ?P \<le> s + int (Suc k) * ?P" by (simp add: distrib_right)
        have aligned: "(s + int (Suc k) * ?P) mod ?P = 0" using less.prems by simp
        have IH: "catchUpLoop c windows completed latestEnd limit (s + int (Suc k) * ?P) periods =
            Some (periods @ take (limit - length periods) (filter ?out (periodsFrom c (s + int (Suc k) * ?P) latestEnd)))"
          by (rule less.hyps [OF dec [OF later] aligned])
        have "catchUpLoop c windows completed latestEnd limit s periods =
            catchUpLoop c windows completed latestEnd limit (fst (periodContainingUtc c (fst w))) periods"
          using True gap Some by (simp add: catchUpLoop.simps [of c _ _ _ _ s] Let_def nextT)
        then show ?thesis unfolding k IH skip .
      qed
    qed
  qed
qed

lemma sorted_catchUpWindows: "sorted (map fst (catchUpWindows c l db))"
  by (simp add: catchUpWindows_def comp_def)

lemma periodStart_aligned: "fst (periodContainingUtc c t) mod periodMs c = 0"
  by (simp add: periodContainingUtc_def Let_def mod_diff_left_eq [symmetric])

text \<open>The whole backlog of a cadence, in order of time.\<close>

definition backlogPeriods :: "BillingCadence \<Rightarrow> int \<Rightarrow> BillingDb \<Rightarrow> (int \<times> int) list" where
  "backlogPeriods c now db =
     (let latestEnd = snd (latestClosedPeriodUtc c now); windows = catchUpWindows c latestEnd db;
          first = fst (periodContainingUtc c (fst (hd windows)))
      in if windows = [] then []
         else filter (outstandingPeriod c windows (completedKeys c first latestEnd db)) (periodsFrom c first latestEnd))"

text \<open>C18: the catch-up queue is the oldest backlog, and its computation ends. For every instant, database and
  admissible bound, listing the periods to settle terminates, and gives the first (at most \<open>limit\<close>) of the
  periods from the first snapshot's on, in order of time, that have ended, have a usage window and no terminal run;
  jumping over gaps without usage loses none. So no missed period is starved by later ones.\<close>

theorem catch_up_lists_oldest_backlog:
  assumes "catchUpLimit maxPeriods = Inr limit"
  shows "listClosedBillingPeriodsForCatchUp c now maxPeriods db = Inr (Some (take limit (backlogPeriods c now db)))"
proof -
  define latestEnd where "latestEnd = snd (latestClosedPeriodUtc c now)"
  define windows where "windows = catchUpWindows c latestEnd db"
  define first where "first = fst (periodContainingUtc c (fst (hd windows)))"
  have "sorted (map fst windows)" unfolding windows_def by (rule sorted_catchUpWindows)
  moreover have "first mod periodMs c = 0" unfolding first_def by (rule periodStart_aligned)
  ultimately have "catchUpLoop c windows (completedKeys c first latestEnd db) latestEnd limit first [] =
      Some (take limit (filter (outstandingPeriod c windows (completedKeys c first latestEnd db)) (periodsFrom c first latestEnd)))"
    using catchUpLoop_spec by simp
  then show ?thesis
    using assms unfolding listClosedBillingPeriodsForCatchUp_def backlogPeriods_def Let_def
      latestEnd_def [symmetric] windows_def [symmetric] first_def [symmetric]
    by (cases windows) (simp_all add: first_def)
qed

section \<open>Every instant is priced once\<close>

definition during :: "int \<Rightarrow> int \<times> int \<Rightarrow> bool" where
  "during t r \<longleftrightarrow> fst r \<le> t \<and> t < snd r"

text \<open>Ranges that follow each other without gap or overlap.\<close>

fun tiles :: "int \<Rightarrow> (int \<times> int) list \<Rightarrow> int \<Rightarrow> bool" where
  "tiles a [] b \<longleftrightarrow> a = b"
| "tiles a ((s, e) # rs) b \<longleftrightarrow> s = a \<and> s < e \<and> tiles e rs b"

lemma tiles_bounds: "tiles a rs b \<Longrightarrow> a \<le> b \<and> (\<forall>r \<in> set rs. a \<le> fst r \<and> snd r \<le> b)"
  by (induction a rs b rule: tiles.induct) fastforce+

lemma tiles_distinct: "tiles a rs b \<Longrightarrow> distinct rs"
proof (induction a rs b rule: tiles.induct)
  case (2 a s e rs b)
  then have "(s, e) \<notin> set rs" using tiles_bounds [of e rs b] by fastforce
  then show ?case using 2 by simp
qed simp

lemma tiles_unique: "tiles a rs b \<Longrightarrow> a \<le> t \<Longrightarrow> t < b \<Longrightarrow> \<exists>!r. r \<in> set rs \<and> during t r"
proof (induction a rs b rule: tiles.induct)
  case (2 a s e rs b)
  then have rest: "tiles e rs b" and se: "s = a" "s < e" by simp_all
  have later: "e \<le> fst r" if "r \<in> set rs" for r using tiles_bounds [OF rest] that by blast
  show ?case
  proof (cases "t < e")
    case True
    show ?thesis
      by (rule ex1I [of _ "(s, e)"]) (use True se 2(3) later in \<open>fastforce simp: during_def\<close>)+
  next
    case False
    then have "\<exists>!r. r \<in> set rs \<and> during t r" using 2 by simp
    then show ?thesis using False by (auto simp: during_def)
  qed
qed simp

lemma coverCursor_tiles:
  "coverCursor a rs = Some b \<Longrightarrow> \<forall>r \<in> set rs. fst r < snd r \<Longrightarrow> tiles a rs b"
  by (induction a rs rule: coverCursor.induct) (auto split: if_splits)

lemma slicesOf_Cons: "bs \<noteq> [] \<Longrightarrow> slicesOf (b # bs) = (b, hd bs) # slicesOf bs"
  by (cases bs) (auto simp: slicesOf_def)

lemma slicesOf_tiles: "sorted_wrt (<) bs \<Longrightarrow> bs \<noteq> [] \<Longrightarrow> tiles (hd bs) (slicesOf bs) (last bs)"
proof (induction bs)
  case (Cons b bs)
  show ?case
  proof (cases "bs = []")
    case True
    then show ?thesis by (simp add: slicesOf_def)
  next
    case False
    then have "b < hd bs" using Cons.prems(1) by (cases bs) simp_all
    then show ?thesis using False Cons by (simp add: slicesOf_Cons)
  qed
qed simp

lemma sorted_le_last: "sorted xs \<Longrightarrow> (x :: int) \<in> set xs \<Longrightarrow> x \<le> last xs"
  by (induction xs) auto

lemma sliceBoundaries_tiles:
  assumes "s < e"
  shows "tiles s (slicesOf (sliceBoundaries rates s e)) e"
proof -
  let ?bs = "sliceBoundaries rates s e"
  have mem: "s \<in> set ?bs" "e \<in> set ?bs" and bounds: "\<forall>b \<in> set ?bs. s \<le> b \<and> b \<le> e"
    using assms by (auto simp: sliceBoundaries_def split: option.splits if_splits)
  have sorted: "sorted_wrt (<) ?bs"
    by (simp add: sliceBoundaries_def strict_sorted_iff del: remdups.simps append.simps)
  then have ne: "?bs \<noteq> []" using mem by auto
  have s: "sorted ?bs" using sorted by (simp add: strict_sorted_iff)
  have "hd ?bs = s"
  proof (rule antisym)
    show "hd ?bs \<le> s" using s mem(1) ne by (cases ?bs) auto
    show "s \<le> hd ?bs" using bounds hd_in_set [OF ne] by blast
  qed
  moreover have "last ?bs = e"
  proof (rule antisym)
    show "last ?bs \<le> e" using bounds last_in_set [OF ne] by blast
    show "e \<le> last ?bs" using s mem(2) by (rule sorted_le_last)
  qed
  ultimately show ?thesis using slicesOf_tiles [OF sorted ne] by simp
qed

lemma boundInterval_Some:
  assumes "boundInterval ts te u = Some (v, s, e)"
  shows "v = u" and "s < e"
  using assms by (auto simp: boundInterval_def intersection_def Let_def split: option.splits if_splits)

lemma boundedUsage_nonempty: "(u, s, e) \<in> set (boundedUsage rows sn i ts te) \<Longrightarrow> s < e"
  by (auto simp: boundedUsage_def List.map_filter_def dest: boundInterval_Some)

lemma collectDrafts_Inr:
  "collectDrafts f xs = Inr (Inr ls) \<Longrightarrow> x \<in> set xs \<Longrightarrow> \<exists>ms. f x = Inr (Inr ms) \<and> set ms \<subseteq> set ls"
proof (induction xs arbitrary: ls)
  case (Cons y ys)
  then obtain ks ms where "f y = Inr (Inr ks)" "collectDrafts f ys = Inr (Inr ms)" "ls = ks @ ms"
    by (auto simp: thenDrafts_Inr)
  then show ?case using Cons by fastforce
qed simp

text \<open>What pricing a slice means: each component has a rate, no unit is charged twice, and each rate in force
  has its line, unless its quantity is zero.\<close>

definition pricedSlice ::
  "BillingComponentType list \<Rightarrow> RateCardRow list \<Rightarrow> UsageRow \<Rightarrow> LineDraft list \<Rightarrow> int \<times> int \<Rightarrow> bool" where
  "pricedSlice components rates u ls sl \<longleftrightarrow>
     (\<forall>c \<in> set components. \<exists>r \<in> set (activeRates rates (fst sl) (snd sl)). rc_component r = c) \<and>
     distinct (map (\<lambda>r. (rc_component r, cr_resourceUnit r)) (activeRates rates (fst sl) (snd sl))) \<and>
     (\<forall>r \<in> set (activeRates rates (fst sl) (snd sl)). \<exists>m.
        calculateBillingLineAmount (fst sl) (snd sl) (ResourceQuantitySnapshot.truncate (ui_resource u))
          (CalculableRate.truncate r) = Inr m \<and>
        (bl_quantityNumerator m \<noteq> 0 \<longrightarrow> (\<exists>l \<in> set ls. ld_usageIntervalId l = ui_id u \<and> ld_rateCardVersionId l = rc_id r \<and>
           ld_intervalStart l = fst sl \<and> ld_intervalEnd l = snd sl \<and> ld_amounts l = m)))"

lemma duplicateUnit_None:
  assumes "duplicateUnit rs = None"
  shows "distinct (map (\<lambda>r. (rc_component r, cr_resourceUnit r)) rs)"
proof -
  have mem: "(i, rs ! i) \<in> set (enumerate 0 rs)" if "i < length rs" for i
    using that by (simp add: in_set_enumerate_eq)
  have differ: "\<not> (j \<noteq> i \<and> rc_component (rs ! j) = rc_component (rs ! i) \<and> cr_resourceUnit (rs ! j) = cr_resourceUnit (rs ! i))"
    if "i < length rs" "j < length rs" for i j
  proof -
    let ?Q = "\<lambda>i r. \<exists>(j, c) \<in> set (enumerate 0 rs). j \<noteq> i \<and> rc_component c = rc_component r \<and> cr_resourceUnit c = cr_resourceUnit r"
    have "\<not> (\<exists>p. p \<in> set (enumerate 0 rs) \<and> (case p of (i, r) \<Rightarrow> ?Q i r))"
      using assms unfolding duplicateUnit_def map_option_is_None find_None_iff by simp
    then have "\<not> ?Q i (rs ! i)" using mem [OF that(1)] by blast
    then show ?thesis using mem [OF that(2)] by blast
  qed
  show ?thesis
    unfolding distinct_conv_nth
  proof (intro allI impI)
    fix i j
    assume "i < length (map (\<lambda>r. (rc_component r, cr_resourceUnit r)) rs)"
      "j < length (map (\<lambda>r. (rc_component r, cr_resourceUnit r)) rs)" "i \<noteq> j"
    then show "map (\<lambda>r. (rc_component r, cr_resourceUnit r)) rs ! i \<noteq> map (\<lambda>r. (rc_component r, cr_resourceUnit r)) rs ! j"
      using differ [of i j] by auto
  qed
qed

lemma sliceDrafts_priced:
  assumes "sliceDrafts i sn u components rates sl = Inr (Inr ls)"
  shows "pricedSlice components rates u ls sl"
proof -
  obtain a b where sl: "sl = (a, b)" by (cases sl)
  let ?active = "activeRates rates a b"
  from assms have none: "missingComponent components ?active = None" "duplicateUnit ?active = None"
    and all: "collectDrafts (rateDraft i sn u a b) ?active = Inr (Inr ls)"
    by (auto simp: sliceDrafts_def sl Let_def split: option.splits)
  have "\<exists>m. calculateBillingLineAmount a b (ResourceQuantitySnapshot.truncate (ui_resource u))
          (CalculableRate.truncate r) = Inr m \<and>
        (bl_quantityNumerator m \<noteq> 0 \<longrightarrow> (\<exists>l \<in> set ls. ld_usageIntervalId l = ui_id u \<and> ld_rateCardVersionId l = rc_id r \<and>
           ld_intervalStart l = a \<and> ld_intervalEnd l = b \<and> ld_amounts l = m))"
    if r: "r \<in> set ?active" for r
  proof -
    obtain ms where ms: "rateDraft i sn u a b r = Inr (Inr ms)" "set ms \<subseteq> set ls"
      using collectDrafts_Inr [OF all r] by blast
    then obtain m where m: "calculateBillingLineAmount a b (ResourceQuantitySnapshot.truncate (ui_resource u))
          (CalculableRate.truncate r) = Inr m"
      by (auto simp: rateDraft_def bindE_eq_Inr split: if_splits)
    show ?thesis
    proof (cases "bl_quantityNumerator m = 0")
      case True
      then show ?thesis using m by blast
    next
      case False
      then obtain l where "ms = [l]" "ld_usageIntervalId l = ui_id u" "ld_rateCardVersionId l = rc_id r"
        "ld_intervalStart l = a" "ld_intervalEnd l = b" "ld_amounts l = m"
        using ms(1) m by (auto simp: rateDraft_def split: if_splits)
      then show ?thesis using m ms(2) by auto
    qed
  qed
  moreover have "\<forall>c \<in> set components. \<exists>r \<in> set ?active. rc_component r = c"
    using none(1) by (auto simp: missingComponent_def find_None_iff)
  ultimately show ?thesis using duplicateUnit_None [OF none(2)] by (simp add: pricedSlice_def sl)
qed

lemma pricedSlice_mono: "pricedSlice cs rs u ls sl \<Longrightarrow> set ls \<subseteq> set ms \<Longrightarrow> pricedSlice cs rs u ms sl"
  unfolding pricedSlice_def by (meson subsetD)

definition componentsOf :: "PolicySnapshotRow \<Rightarrow> UsageRow \<Rightarrow> BillingComponentType list" where
  "componentsOf snapshot u = requiredBillableComponents (ResourceQuantitySnapshot.truncate (ui_resource u))
     (sn_stopStateComponentPolicy snapshot)"

definition ratesOf :: "RateCardRow list \<Rightarrow> BillingCadence \<Rightarrow> PolicySnapshotRow \<Rightarrow> UsageRow \<times> int \<times> int \<Rightarrow> RateCardRow list" where
  "ratesOf cards cadence snapshot = (\<lambda>(u, s, e). usageRates cards cadence (ui_resource u) (componentsOf snapshot u) s e)"

definition pieceSlices :: "RateCardRow list \<Rightarrow> BillingCadence \<Rightarrow> PolicySnapshotRow \<Rightarrow> UsageRow \<times> int \<times> int \<Rightarrow> (int \<times> int) list" where
  "pieceSlices cards cadence snapshot p = slicesOf (sliceBoundaries (ratesOf cards cadence snapshot p) (fst (snd p)) (snd (snd p)))"

lemma draftInvoice_lines:
  assumes "draftInvoice rows cards c sn i ts te = Inr (Inr ls)"
  defines "B \<equiv> boundedUsage rows sn i ts te"
  shows "tiles ts (sort_key fst (map snd B)) te"
    and "p \<in> set B \<Longrightarrow> componentsOf sn (fst p) \<noteq> [] \<Longrightarrow> sl \<in> set (pieceSlices cards c sn p) \<Longrightarrow>
      pricedSlice (componentsOf sn (fst p)) (ratesOf cards c sn p) (fst p) ls sl"
proof -
  have cover: "validateIntervalCoverage ts te (map snd B)" and all: "collectDrafts (usageDrafts cards c sn i) B = Inr (Inr ls)"
    using assms by (auto simp: draftInvoice_def Let_def split: option.splits if_splits)
  have "\<forall>r \<in> set (sort_key fst (map snd B)). fst r < snd r"
    using boundedUsage_nonempty [of _ _ _ rows sn i ts te] by (auto simp: B_def)
  then show "tiles ts (sort_key fst (map snd B)) te"
    using coverCursor_tiles cover by (simp add: validateIntervalCoverage_def)
  assume p: "p \<in> set B" and ne: "componentsOf sn (fst p) \<noteq> []" and sl: "sl \<in> set (pieceSlices cards c sn p)"
  obtain u s e where pp: "p = (u, s, e)" by (cases p)
  obtain ms where ms: "usageDrafts cards c sn i p = Inr (Inr ms)" "set ms \<subseteq> set ls"
    using collectDrafts_Inr [OF all p] by (elim exE conjE)
  then have slices: "collectDrafts (sliceDrafts i (sn_id sn) u (componentsOf sn u) (ratesOf cards c sn p)) (pieceSlices cards c sn p) = Inr (Inr ms)"
    using ne by (simp add: usageDrafts_def pp Let_def componentsOf_def ratesOf_def pieceSlices_def)
  from collectDrafts_Inr [OF slices sl]
  obtain ks where ks: "sliceDrafts i (sn_id sn) u (componentsOf sn u) (ratesOf cards c sn p) sl = Inr (Inr ks)" "set ks \<subseteq> set ms"
    by (elim exE conjE)
  have "set ks \<subseteq> set ls" using ks(2) ms(2) by (rule subset_trans)
  with sliceDrafts_priced [OF ks(1)] have "pricedSlice (componentsOf sn u) (ratesOf cards c sn p) u ls sl"
    by (rule pricedSlice_mono)
  then show "pricedSlice (componentsOf sn (fst p)) (ratesOf cards c sn p) (fst p) ls sl" by (simp add: pp)
qed

text \<open>C17: no second is left unbilled or billed twice. When a period of an instance is invoiced (and not sent to review),
  each instant of it lies in exactly one piece of usage; and if the resource has billable components then, in exactly one
  slice of that piece, within which each of them has a rate card in force, no unit of a component has two, and each rate
  card in force is charged by a line at the exact amount of the slice, or has quantity zero.\<close>

theorem every_instant_priced_once:
  assumes "draftInvoice rows cards c sn i ts te = Inr (Inr ls)" and "ts \<le> t" and "t < te"
  shows "\<exists>!p. p \<in> set (boundedUsage rows sn i ts te) \<and> during t (snd p) \<and>
    (componentsOf sn (fst p) \<noteq> [] \<longrightarrow> (\<exists>!sl. sl \<in> set (pieceSlices cards c sn p) \<and> during t sl \<and>
       pricedSlice (componentsOf sn (fst p)) (ratesOf cards c sn p) (fst p) ls sl))"
proof -
  let ?B = "boundedUsage rows sn i ts te"
  note D = draftInvoice_lines [OF assms(1)]
  have "\<exists>!r. r \<in> set (map snd ?B) \<and> during t r"
    using tiles_unique [OF D(1) assms(2,3)] by simp
  then obtain r where r: "r \<in> set (map snd ?B)" "during t r" "\<And>q. q \<in> set (map snd ?B) \<Longrightarrow> during t q \<Longrightarrow> q = r"
    by blast
  have "distinct (map snd ?B)" using tiles_distinct [OF D(1)] by simp
  then have inj: "inj_on snd (set ?B)" by (simp add: distinct_map)
  obtain p where p: "p \<in> set ?B" "snd p = r" using r(1) by auto
  have one: "q = p" if "q \<in> set ?B" "during t (snd q)" for q
    using that r(3) [of "snd q"] p inj_onD [OF inj, of q p] by auto
  have priced: "\<exists>!sl. sl \<in> set (pieceSlices cards c sn p) \<and> during t sl \<and>
       pricedSlice (componentsOf sn (fst p)) (ratesOf cards c sn p) (fst p) ls sl" if ne: "componentsOf sn (fst p) \<noteq> []"
  proof -
    obtain u s e where pp: "p = (u, s, e)" by (cases p)
    have "s < e" using boundedUsage_nonempty p(1) pp by blast
    then have "tiles s (pieceSlices cards c sn p) e" using sliceBoundaries_tiles by (simp add: pieceSlices_def pp)
    moreover have "s \<le> t" "t < e" using r(2) p(2) by (auto simp: during_def pp)
    ultimately have "\<exists>!sl. sl \<in> set (pieceSlices cards c sn p) \<and> during t sl" by (rule tiles_unique)
    then obtain sl where sl: "sl \<in> set (pieceSlices cards c sn p)" "during t sl"
      "\<forall>x. x \<in> set (pieceSlices cards c sn p) \<and> during t x \<longrightarrow> x = sl"
      by (elim ex1E conjE)
    show ?thesis
    proof (rule ex1I [of _ sl])
      show "sl \<in> set (pieceSlices cards c sn p) \<and> during t sl \<and>
          pricedSlice (componentsOf sn (fst p)) (ratesOf cards c sn p) (fst p) ls sl"
        using sl(1,2) D(2) [OF p(1) ne sl(1)] by (intro conjI)
    qed (use sl(3) in blast)
  qed
  have "during t (snd p)" using p(2) r(2) by simp
  then have "p \<in> set ?B \<and> during t (snd p) \<and>
    (componentsOf sn (fst p) \<noteq> [] \<longrightarrow> (\<exists>!sl. sl \<in> set (pieceSlices cards c sn p) \<and> during t sl \<and>
       pricedSlice (componentsOf sn (fst p)) (ratesOf cards c sn p) (fst p) ls sl))"
    using p(1) priced by (intro conjI impI)
  then show ?thesis
  proof (rule ex1I)
    fix q
    assume "q \<in> set ?B \<and> during t (snd q) \<and>
      (componentsOf sn (fst q) \<noteq> [] \<longrightarrow> (\<exists>!sl. sl \<in> set (pieceSlices cards c sn q) \<and> during t sl \<and>
        pricedSlice (componentsOf sn (fst q)) (ratesOf cards c sn q) (fst q) ls sl))"
    then show "q = p" by (intro one) (elim conjE, assumption)+
  qed
qed

section \<open>Invoices and money\<close>

definition linesOf :: "string \<Rightarrow> BillingDb \<Rightarrow> LineDraft list" where
  "linesOf invoiceId db = map snd (filter (\<lambda>x. fst x = invoiceId) (billingLines db))"

text \<open>A settled invoice: its lines add up to its total, the total is what was paid and what is outstanding, the status
  says which, and what was paid was taken from a wallet by one ledger entry.\<close>

definition invoiceBacked :: "BillingDb \<Rightarrow> InvoiceRow \<Rightarrow> bool" where
  "invoiceBacked db i \<longleftrightarrow> bi_total i = lineTotal (linesOf (bi_id i) db) \<and>
     bi_total i = bi_paid i + bi_outstanding i \<and> 0 \<le> bi_paid i \<and> 0 \<le> bi_outstanding i \<and>
     bi_status i = (if bi_outstanding i = 0 then INV_PAID else if bi_paid i > 0 then INV_PARTIALLY_PAID else INV_UNPAID) \<and>
     (0 < bi_paid i \<longrightarrow> (\<exists>e \<in> set (ledger db). le_idempotencyKey e = ''billing-invoice-debit:'' @ bi_id i \<and>
        le_direction e = DEBIT \<and> le_status e = LS_COMPLETED \<and> le_amount e = bi_paid i))"

definition billingInv :: "BillingDb \<Rightarrow> bool" where
  "billingInv db \<longleftrightarrow> walletInv db \<and> distinct (map bi_id (invoices db)) \<and> distinct (map invoiceSlot (invoices db)) \<and>
     (\<forall>i \<in> set (invoices db). settledStatus (bi_status i) \<longrightarrow> invoiceBacked db i)"

lemma invoiceBacked_cong:
  "billingLines db' = billingLines db \<Longrightarrow> ledger db' = ledger db \<Longrightarrow> invoiceBacked db' i = invoiceBacked db i"
  by (simp add: invoiceBacked_def linesOf_def)

lemma billingInvI:
  assumes "walletInv db" and "distinct (map bi_id (invoices db))" and "distinct (map invoiceSlot (invoices db))"
    and "\<And>i. i \<in> set (invoices db) \<Longrightarrow> settledStatus (bi_status i) \<Longrightarrow> invoiceBacked db i"
  shows "billingInv db"
  using assms by (simp add: billingInv_def)

text \<open>Nothing but money moved, or other tables changed: settled invoices stay backed.\<close>

lemma billingInv_money:
  assumes "billingInv db" and "walletInv db'" and "invoices db' = invoices db" and "billingLines db' = billingLines db"
    and "set (ledger db) \<subseteq> set (ledger db')"
  shows "billingInv db'"
  using assms by (fastforce simp: billingInv_def invoiceBacked_def linesOf_def)

lemma billingInv_cong:
  assumes "billingInv db" and "wallets db' = wallets db" and "ledger db' = ledger db"
    and "invoices db' = invoices db" and "billingLines db' = billingLines db"
  shows "billingInv db'"
  using assms(1) by (rule billingInv_money) (use assms walletInv_cong [of db' db] in \<open>auto simp: billingInv_def\<close>)

definition keepsSettled :: "BillingDb \<Rightarrow> BillingDb \<Rightarrow> bool" where
  "keepsSettled db db' \<longleftrightarrow> (\<forall>i \<in> set (invoices db). settledStatus (bi_status i) \<longrightarrow>
     i \<in> set (invoices db') \<and> linesOf (bi_id i) db' = linesOf (bi_id i) db)"

lemma keepsSettled_refl: "invoices db' = invoices db \<Longrightarrow> billingLines db' = billingLines db \<Longrightarrow> keepsSettled db db'"
  by (simp add: keepsSettled_def linesOf_def)

lemma keepsSettled_trans: "keepsSettled a b \<Longrightarrow> keepsSettled b c \<Longrightarrow> keepsSettled a c"
  by (auto simp: keepsSettled_def)

text \<open>The invoice that is being written is not settled.\<close>

definition unsettled :: "string \<Rightarrow> BillingDb \<Rightarrow> bool" where
  "unsettled invoiceId db \<longleftrightarrow> (\<forall>i \<in> set (invoices db). bi_id i = invoiceId \<longrightarrow> \<not> settledStatus (bi_status i))"

lemma settledStatus_simps [simp]:
  "settledStatus INV_PAID" "settledStatus INV_PARTIALLY_PAID" "settledStatus INV_UNPAID"
  "\<not> settledStatus INV_CALCULATING" "\<not> settledStatus INV_UNDER_REVIEW" "\<not> settledStatus INV_VOID"
  by (simp_all add: settledStatus_def)

lemma upsertInvoice_Inr:
  assumes "upsertInvoice j wid nid st reason db = Inr (iid, db')" and "\<not> settledStatus st" and "billingInv db"
    and "\<And>i. jobInvoice j db = Some i \<Longrightarrow> \<not> settledStatus (bi_status i)"
  shows "billingInv db'" and "keepsSettled db db'" and "unsettled iid db'"
    and "wallets db' = wallets db" and "ledger db' = ledger db" and "billingRuns db' = billingRuns db"
proof -
  note I = assms(3) [unfolded billingInv_def]
  have "billingInv db' \<and> keepsSettled db db' \<and> unsettled iid db' \<and> wallets db' = wallets db \<and>
      ledger db' = ledger db \<and> billingRuns db' = billingRuns db"
  proof (cases "jobInvoice j db")
    case (Some i)
    let ?f = "\<lambda>x. x\<lparr>bi_runId := sj_runId j, bi_status := st, bi_reviewReason := reason\<rparr>"
    let ?rows = "updateRows (\<lambda>x. invoiceSlot x = jobSlot j) ?f (invoices db)"
    have db': "db' = db\<lparr>invoices := ?rows\<rparr>" "iid = bi_id i"
      using assms(1) Some by (simp_all add: upsertInvoice_def)
    have i: "i \<in> set (invoices db)" "invoiceSlot i = jobSlot j"
      using findRow_Some [OF Some [unfolded jobInvoice_def]] by simp_all
    have slot: "invoiceSlot (?f x) = invoiceSlot x" for x by (simp add: invoiceSlot_def)
    have keys: "map bi_id ?rows = map bi_id (invoices db)" "map invoiceSlot ?rows = map invoiceSlot (invoices db)"
      by (simp_all add: map_updateRows slot)
    have rows: "x \<in> set (invoices db) \<and> invoiceSlot x \<noteq> jobSlot j \<or> bi_status x = st" if "x \<in> set ?rows" for x
      using that by (auto simp: set_updateRows)
    have w: "walletInv db'" using I walletInv_cong [of db' db] by (simp add: db')
    have "billingInv db'"
    proof (rule billingInvI [OF w])
      show "distinct (map bi_id (invoices db'))" "distinct (map invoiceSlot (invoices db'))"
        using I keys by (simp_all add: db')
      fix x
      assume "x \<in> set (invoices db')" "settledStatus (bi_status x)"
      then have "x \<in> set (invoices db)" using rows [of x] assms(2) by (auto simp: db')
      then show "invoiceBacked db' x"
        using I \<open>settledStatus (bi_status x)\<close> invoiceBacked_cong [of db' db x] by (simp add: db')
    qed
    moreover have "keepsSettled db db'"
    proof -
      have "x \<in> set ?rows" if "x \<in> set (invoices db)" "settledStatus (bi_status x)" for x
      proof -
        have "invoiceSlot x \<noteq> jobSlot j"
        proof
          assume "invoiceSlot x = jobSlot j"
          then have "x = i" using i that(1) I distinct_key_eq [of invoiceSlot "invoices db" x i] by simp
          then show False using assms(4) [OF Some] that(2) by simp
        qed
        then show ?thesis using that(1) by (auto simp: set_updateRows)
      qed
      then show ?thesis by (simp add: keepsSettled_def db' linesOf_def)
    qed
    moreover have "unsettled iid db'"
    proof -
      have "\<not> settledStatus (bi_status x)" if "x \<in> set ?rows" "bi_id x = bi_id i" for x
      proof (cases "invoiceSlot x = jobSlot j")
        case True
        then show ?thesis using rows [OF that(1)] assms(2) by auto
      next
        case False
        then have "x \<in> set (invoices db)" using that(1) slot by (auto simp: set_updateRows split: if_splits)
        then have "x = i" using that(2) i(1) I distinct_key_eq [of bi_id "invoices db" x i] by simp
        then show ?thesis using i(2) False by simp
      qed
      then show ?thesis by (simp add: unsettled_def db')
    qed
    ultimately show ?thesis by (simp add: db')
  next
    case None
    let ?i = "newInvoice j wid nid st reason"
    have db': "db' = db\<lparr>invoices := invoices db @ [?i]\<rparr>" "iid = nid" "\<forall>x \<in> set (invoices db). bi_id x \<noteq> nid"
      using assms(1) None by (auto simp: upsertInvoice_def Let_def split: if_splits)
    have fresh: "\<forall>x \<in> set (invoices db). invoiceSlot x \<noteq> jobSlot j"
      using None unfolding jobInvoice_def findRow_None .
    have out: "nid \<notin> bi_id ` set (invoices db)" "jobSlot j \<notin> invoiceSlot ` set (invoices db)"
      using db'(3) fresh by auto
    have new: "invoiceSlot ?i = jobSlot j" "bi_id ?i = nid" "bi_status ?i = st"
      by (simp_all add: newInvoice_def invoiceSlot_def jobSlot_def)
    have w: "walletInv db'" using I walletInv_cong [of db' db] by (simp add: db')
    have "billingInv db'"
    proof (rule billingInvI [OF w])
      show "distinct (map bi_id (invoices db'))" "distinct (map invoiceSlot (invoices db'))"
        using I out new by (simp_all add: db'(1))
      fix x
      assume "x \<in> set (invoices db')" "settledStatus (bi_status x)"
      then have "x \<in> set (invoices db)" using new(3) assms(2) by (auto simp: db')
      then show "invoiceBacked db' x"
        using I \<open>settledStatus (bi_status x)\<close> invoiceBacked_cong [of db' db x] by (simp add: db')
    qed
    then show ?thesis
      using new assms(2) db'(3) by (auto simp: keepsSettled_def unsettled_def db' linesOf_def)
  qed
  then show "billingInv db'" "keepsSettled db db'" "unsettled iid db'" "wallets db' = wallets db"
    "ledger db' = ledger db" "billingRuns db' = billingRuns db" by simp_all
qed

text \<open>Lines, charge and final amounts of the invoice that is being written.\<close>

lemma foldE_insertLine:
  "foldE (insertLine iid) t ls = Inr t' \<Longrightarrow> t' = t @ map (\<lambda>l. (iid, l)) ls"
proof (induction ls arbitrary: t)
  case (Cons l ls)
  from Cons.prems obtain u where u: "insertLine iid t l = Inr u" "foldE (insertLine iid) u ls = Inr t'"
    by (auto simp: bindE_eq_Inr)
  from u(1) have "u = t @ [(iid, l)]" by (auto simp: insertLine_def split: if_splits)
  with Cons.IH [OF u(2)] show ?case by simp
qed simp

lemma replaceLines_Inr:
  assumes "replaceLines iid ls db = Inr db'" and "billingInv db" and "unsettled iid db"
  shows "billingInv db'" and "keepsSettled db db'" and "unsettled iid db'" and "linesOf iid db' = ls"
    and "invoices db' = invoices db" and "wallets db' = wallets db" and "ledger db' = ledger db"
    and "billingRuns db' = billingRuns db"
proof -
  from assms(1) have db': "db' = db\<lparr>billingLines := filter (\<lambda>x. fst x \<noteq> iid) (billingLines db) @ map (\<lambda>l. (iid, l)) ls\<rparr>"
    by (auto simp: replaceLines_def bindE_eq_Inr dest: foldE_insertLine)
  have other: "linesOf x db' = linesOf x db" if "x \<noteq> iid" for x
    using that by (simp add: linesOf_def db' filter_map comp_def conj_commute cong: conj_cong)
  show "linesOf iid db' = ls" by (simp add: linesOf_def db' filter_map comp_def)
  show "unsettled iid db'" using assms(3) by (simp add: unsettled_def db')
  have settled: "bi_id i \<noteq> iid" if "i \<in> set (invoices db)" "settledStatus (bi_status i)" for i
    using assms(3) that by (auto simp: unsettled_def)
  then show "keepsSettled db db'" using other by (simp add: keepsSettled_def db')
  have "walletInv db'" using assms(2) walletInv_cong [of db' db] by (simp add: db' billingInv_def)
  then show "billingInv db'"
  proof (rule billingInvI)
    show "distinct (map bi_id (invoices db'))" "distinct (map invoiceSlot (invoices db'))"
      using assms(2) by (simp_all add: billingInv_def db')
    fix i
    assume i: "i \<in> set (invoices db')" "settledStatus (bi_status i)"
    then have "invoiceBacked db i" using assms(2) by (simp add: billingInv_def db')
    then show "invoiceBacked db' i" using other [of "bi_id i"] settled [of i] i by (simp add: invoiceBacked_def db')
  qed
  show "invoices db' = invoices db" "wallets db' = wallets db" "ledger db' = ledger db" "billingRuns db' = billingRuns db"
    by (simp_all add: db')
qed

lemma chargeWallet_Inr:
  assumes "chargeWallet nid wid iid tot db = Inr ((paid, after), db')" and "billingInv db" and "0 \<le> tot"
  shows "billingInv db'" and "0 \<le> paid" and "paid \<le> tot" and "0 \<le> after"
    and "0 < paid \<Longrightarrow> \<exists>e \<in> set (ledger db'). le_idempotencyKey e = ''billing-invoice-debit:'' @ iid \<and>
      le_direction e = DEBIT \<and> le_status e = LS_COMPLETED \<and> le_amount e = paid"
    and "paid < tot \<Longrightarrow> after = 0"
    and "invoices db' = invoices db" and "billingLines db' = billingLines db" and "billingRuns db' = billingRuns db"
proof -
  obtain w where w: "findWallet wid db = Some w" using assms(1) by (auto simp: chargeWallet_def split: option.splits)
  have inv: "walletInv db" using assms(2) by (simp add: billingInv_def)
  have bal: "0 \<le> w_availableBalance w" using walletInv_balance [OF inv w] by simp
  let ?paid = "if w_availableBalance w < tot then w_availableBalance w else tot"
  have paid: "paid = ?paid" and range: "0 \<le> ?paid" "?paid \<le> tot"
    using assms(1,3) w bal by (auto simp: chargeWallet_def Let_def bindE_eq_Inr split: option.splits if_splits)
  show "0 \<le> paid" "paid \<le> tot" using range by (simp_all add: paid)
  have main: "billingInv db' \<and> after = w_availableBalance w - paid \<and> invoices db' = invoices db \<and> billingLines db' = billingLines db \<and>
      billingRuns db' = billingRuns db \<and> (0 < paid \<longrightarrow> (\<exists>e \<in> set (ledger db').
        le_idempotencyKey e = ''billing-invoice-debit:'' @ iid \<and> le_direction e = DEBIT \<and>
        le_status e = LS_COMPLETED \<and> le_amount e = paid))"
  proof (cases "0 < ?paid")
    case False
    then show ?thesis using assms(1,2) w range unfolding paid by (auto simp: chargeWallet_def Let_def)
  next
    case True
    have up: "findWallet wid (updateBalance wid (- ?paid) db) = Some (addBalance (- ?paid) w)"
      using w by (simp add: findWallet_updateBalance)
    let ?e = "usageDebit nid wid iid ?paid (w_availableBalance w - ?paid)"
    have ins: "insertEntry ?e (updateBalance wid (- ?paid) db) = Inr (?e, db')" and after: "after = w_availableBalance w - ?paid"
      using assms(1) w up True by (auto simp: chargeWallet_def Let_def bindE_eq_Inr insertEntry_Inr)
    have e: "le_walletId ?e = wid" "0 < le_amount ?e" "signed ?e = - ?paid"
      "le_balanceAfter ?e = w_availableBalance w + - ?paid" "0 \<le> w_availableBalance w + - ?paid"
      using True by (simp_all add: usageDebit_def signed_def)
    have "walletInv db'" by (rule post_preserves [OF inv w ins e])
    moreover have db': "db' = (updateBalance wid (- ?paid) db)\<lparr>ledger := ledger db @ [?e]\<rparr>"
      using ins by (simp add: insertEntry_Inr)
    ultimately have "billingInv db'"
      using assms(2) by (intro billingInv_money [of db db']) (auto simp: updateBalance_def)
    moreover have "?e \<in> set (ledger db')" by (simp add: db')
    moreover have "le_idempotencyKey ?e = ''billing-invoice-debit:'' @ iid" "le_direction ?e = DEBIT"
      "le_status ?e = LS_COMPLETED" "le_amount ?e = ?paid"
      by (simp_all add: usageDebit_def)
    ultimately show ?thesis unfolding paid after db' by (auto simp: updateBalance_def)
  qed
  show "billingInv db'" "invoices db' = invoices db" "billingLines db' = billingLines db" "billingRuns db' = billingRuns db"
    using main by simp_all
  show "0 < paid \<Longrightarrow> \<exists>e \<in> set (ledger db'). le_idempotencyKey e = ''billing-invoice-debit:'' @ iid \<and>
      le_direction e = DEBIT \<and> le_status e = LS_COMPLETED \<and> le_amount e = paid"
    using main by (elim conjE) (rule mp)
  show "0 \<le> after" "paid < tot \<Longrightarrow> after = 0" using main bal by (auto simp: paid split: if_splits)
qed

lemma finalizeInvoice_inv:
  assumes "billingInv db" and "unsettled iid db" and "linesOf iid db = ls" and "0 \<le> paid" and "paid \<le> lineTotal ls"
    and "0 < paid \<Longrightarrow> \<exists>e \<in> set (ledger db). le_idempotencyKey e = ''billing-invoice-debit:'' @ iid \<and>
      le_direction e = DEBIT \<and> le_status e = LS_COMPLETED \<and> le_amount e = paid"
  shows "billingInv (finalizeInvoice iid (lineTotal ls) paid now db)"
    and "keepsSettled db (finalizeInvoice iid (lineTotal ls) paid now db)"
proof -
  let ?db = "finalizeInvoice iid (lineTotal ls) paid now db"
  define st where "st = (if lineTotal ls - paid = 0 then INV_PAID else if paid > 0 then INV_PARTIALLY_PAID else INV_UNPAID)"
  define f where "f = (\<lambda>i :: InvoiceRow. i\<lparr>bi_status := st, bi_total := lineTotal ls, bi_paid := paid, bi_outstanding := lineTotal ls - paid,
        bi_settledAt := (if paid > 0 then Some now else None), bi_reviewReason := None\<rparr>)"
  have db: "?db = db\<lparr>invoices := updateRows (\<lambda>i. bi_id i = iid) f (invoices db)\<rparr>"
    by (simp add: finalizeInvoice_def Let_def f_def st_def)
  have f: "bi_id (f i) = bi_id i" "invoiceSlot (f i) = invoiceSlot i" for i
    by (simp_all add: f_def invoiceSlot_def)
  show keep: "keepsSettled db ?db"
    using assms(2) by (auto simp: keepsSettled_def db set_updateRows linesOf_def unsettled_def image_iff)
  have "walletInv ?db" using assms(1) walletInv_cong [of ?db db] by (simp add: db billingInv_def)
  then show "billingInv ?db"
  proof (rule billingInvI)
    show "distinct (map bi_id (invoices ?db))" "distinct (map invoiceSlot (invoices ?db))"
      using assms(1) f by (simp_all add: db billingInv_def map_updateRows)
    fix i
    assume i: "i \<in> set (invoices ?db)" "settledStatus (bi_status i)"
    have cong: "invoiceBacked ?db i = invoiceBacked db i" by (rule invoiceBacked_cong) (simp_all add: db)
    show "invoiceBacked ?db i"
    proof (cases "bi_id i = iid")
      case False
      then have "i \<in> set (invoices db)" using i(1) f by (auto simp: db set_updateRows split: if_splits)
      then show ?thesis using assms(1) i(2) cong by (simp add: billingInv_def)
    next
      case True
      then obtain k where k: "i = f k" "bi_id k = iid" using i(1) f by (auto simp: db set_updateRows split: if_splits)
      have "invoiceBacked db (f k)"
        unfolding invoiceBacked_def using assms(3-6) k(2) by (simp add: f_def st_def)
      then show ?thesis using cong k(1) by simp
    qed
  qed
qed

lemma recordOutstanding_simps [simp]:
  "wallets (recordOutstanding j iid t p b db) = wallets db" "ledger (recordOutstanding j iid t p b db) = ledger db"
  "invoices (recordOutstanding j iid t p b db) = invoices db" "billingLines (recordOutstanding j iid t p b db) = billingLines db"
  "billingRuns (recordOutstanding j iid t p b db) = billingRuns db"
  by (simp_all add: recordOutstanding_def Let_def)

lemma recordLowBalance_simps [simp]:
  "wallets (recordLowBalance j iid t b db) = wallets db" "ledger (recordLowBalance j iid t b db) = ledger db"
  "invoices (recordLowBalance j iid t b db) = invoices db" "billingLines (recordLowBalance j iid t b db) = billingLines db"
  "billingRuns (recordLowBalance j iid t b db) = billingRuns db"
  by (simp_all add: recordLowBalance_def Let_def)

text \<open>What every statement of a run does: it keeps the invariant, the settled invoices and the runs.\<close>

definition billingStep :: "BillingDb \<Rightarrow> BillingDb \<Rightarrow> bool" where
  "billingStep db db' \<longleftrightarrow> (billingInv db \<longrightarrow> billingInv db' \<and> keepsSettled db db') \<and> billingRuns db' = billingRuns db"

lemma billingStep_refl [simp]: "billingStep db db"
  by (simp add: billingStep_def keepsSettled_refl)

lemma billingStep_trans: "billingStep a b \<Longrightarrow> billingStep b c \<Longrightarrow> billingStep a c"
  unfolding billingStep_def using keepsSettled_trans [of a b c] by simp

lemma settleInvoice_step:
  assumes "settleInvoice j ids wid ls db = Inr db'" and "0 \<le> lineTotal ls"
    and "\<And>i. jobInvoice j db = Some i \<Longrightarrow> \<not> settledStatus (bi_status i)"
  shows "billingStep db db'"
proof -
  from assms(1) obtain iid db1 db2 db3 paid after where
    1: "upsertInvoice j wid (ni_invoice ids) INV_CALCULATING None db = Inr (iid, db1)"
    and 2: "replaceLines iid ls db1 = Inr db2"
    and 3: "chargeWallet (ni_entry ids) wid iid (lineTotal ls) db2 = Inr ((paid, after), db3)"
    and db': "db' = recordLowBalance j iid (lineTotal ls) after
      (if lineTotal ls - paid > 0 then recordOutstanding j iid (lineTotal ls) paid after (finalizeInvoice iid (lineTotal ls) paid (sj_now j) db3)
       else finalizeInvoice iid (lineTotal ls) paid (sj_now j) db3)"
    by (auto simp: settleInvoice_def bindE_eq_Inr Let_def)
  let ?f = "finalizeInvoice iid (lineTotal ls) paid (sj_now j) db3"
  have same: "wallets db' = wallets ?f" "ledger db' = ledger ?f" "invoices db' = invoices ?f"
    "billingLines db' = billingLines ?f" "billingRuns db' = billingRuns ?f"
    by (simp_all add: db')
  have runs: "billingRuns db' = billingRuns db3" unfolding same by (simp add: finalizeInvoice_def Let_def)
  have "billingInv db' \<and> keepsSettled db db' \<and> billingRuns db' = billingRuns db" if inv: "billingInv db"
  proof -
    note A = upsertInvoice_Inr [OF 1 _ inv assms(3)]
    have a: "billingInv db1" "keepsSettled db db1" "unsettled iid db1" "billingRuns db1 = billingRuns db"
      using A by simp_all
    note B = replaceLines_Inr [OF 2 a(1,3)]
    note C = chargeWallet_Inr [OF 3 B(1) assms(2)]
    have "unsettled iid db3" "linesOf iid db3 = ls" using B(3,4) C(7,8) by (simp_all add: unsettled_def linesOf_def)
    note F = finalizeInvoice_inv [OF C(1) this C(2,3,5)]
    have "billingInv db'" using F(1) same(1-4) by (rule billingInv_cong)
    moreover have "keepsSettled db db'"
    proof (rule keepsSettled_trans [OF a(2) keepsSettled_trans [OF B(2)]])
      show "keepsSettled db2 db'"
        using keepsSettled_trans [OF keepsSettled_refl [OF C(7,8)] keepsSettled_trans [OF F(2) keepsSettled_refl [OF same(3,4)]]] .
    qed
    moreover have "billingRuns db' = billingRuns db" using runs C(9) B(8) a(4) by simp
    ultimately show ?thesis by blast
  qed
  moreover have "billingRuns db' = billingRuns db"
  proof -
    have "billingRuns db1 = billingRuns db" using 1 by (auto simp: upsertInvoice_def Let_def split: option.splits if_splits)
    moreover have "billingRuns db2 = billingRuns db1" using 2 by (auto simp: replaceLines_def bindE_eq_Inr)
    moreover have "billingRuns db3 = billingRuns db2"
      using 3 by (auto simp: chargeWallet_def Let_def bindE_eq_Inr insertEntry_Inr updateBalance_def split: option.splits if_splits)
    ultimately show ?thesis using runs by simp
  qed
  ultimately show ?thesis by (simp add: billingStep_def)
qed

lemma markInvoiceForReview_step:
  assumes "markInvoiceForReview j wid nid review db = Inr db'"
    and "\<And>i. jobInvoice j db = Some i \<Longrightarrow> \<not> settledStatus (bi_status i)"
  shows "billingStep db db'" and "wallets db' = wallets db" and "ledger db' = ledger db"
proof -
  from assms(1) obtain iid db1 where 1: "upsertInvoice j wid nid INV_UNDER_REVIEW (Some (snd review)) db = Inr (iid, db1)"
    and same: "wallets db' = wallets db1" "ledger db' = ledger db1" "invoices db' = invoices db1"
      "billingLines db' = billingLines db1" "billingRuns db' = billingRuns db1"
    by (auto simp: markInvoiceForReview_def bindE_eq_Inr Let_def)
  have other: "wallets db1 = wallets db" "ledger db1 = ledger db" "billingRuns db1 = billingRuns db"
    using 1 by (auto simp: upsertInvoice_def Let_def split: option.splits if_splits)
  have "billingInv db' \<and> keepsSettled db db'" if inv: "billingInv db"
  proof -
    have "billingInv db1" "keepsSettled db db1" using upsertInvoice_Inr [OF 1 _ inv assms(2)] by simp_all
    then show ?thesis
      using billingInv_cong [OF _ same(1-4)] keepsSettled_trans [OF _ keepsSettled_refl [OF same(3,4)]] by simp
  qed
  then show "billingStep db db'" using same(5) other(3) by (simp add: billingStep_def)
  show "wallets db' = wallets db" "ledger db' = ledger db" using same other by simp_all
qed

lemma collectDrafts_all:
  assumes "collectDrafts f xs = Inr (Inr ls)" and "\<And>x ms m. x \<in> set xs \<Longrightarrow> f x = Inr (Inr ms) \<Longrightarrow> m \<in> set ms \<Longrightarrow> P m"
    and "l \<in> set ls"
  shows "P l"
  using assms
proof (induction xs arbitrary: ls)
  case (Cons y ys)
  then obtain ks ms where 1: "f y = Inr (Inr ks)" "collectDrafts f ys = Inr (Inr ms)" "ls = ks @ ms"
    by (auto simp: thenDrafts_Inr)
  show ?case
  proof (cases "l \<in> set ks")
    case True
    then show ?thesis using Cons.prems(2) [of y ks l] 1(1) by simp
  next
    case False
    then have "l \<in> set ms" using Cons.prems(3) 1(3) by simp
    have "P m" if "x \<in> set ys" "f x = Inr (Inr ns)" "m \<in> set ns" for x ns m
      using Cons.prems(2) [of x ns m] that by simp
    then show ?thesis using \<open>l \<in> set ms\<close> by (rule Cons.IH [OF 1(2)])
  qed
qed simp

lemma ceilDiv_nonneg: "ceilDiv n d = Inr k \<Longrightarrow> 0 \<le> k"
  by (auto simp: ceilDiv_def pos_imp_zdiv_nonneg_iff split: if_splits)

lemma rateDraft_nonneg:
  assumes "rateDraft i sn u a b r = Inr (Inr ms)" and "m \<in> set ms"
  shows "0 \<le> bl_amountRial (ld_amounts m)"
proof -
  obtain c where c: "calculateBillingLineAmount a b (ResourceQuantitySnapshot.truncate (ui_resource u))
      (CalculableRate.truncate r) = Inr c" "ld_amounts m = c"
    using assms by (auto simp: rateDraft_def bindE_eq_Inr split: if_splits)
  from c(1) show ?thesis by (rule calculateBillingLineAmount_Inr) (simp add: c(2) ceilDiv_nonneg)
qed

lemma draftInvoice_nonneg:
  assumes "draftInvoice rows cards c sn i ts te = Inr (Inr ls)"
  shows "0 \<le> lineTotal ls"
proof -
  let ?P = "\<lambda>m. 0 \<le> bl_amountRial (ld_amounts m)"
  have slice: "?P m" if "sliceDrafts i k u cs rs sl = Inr (Inr ms)" "m \<in> set ms" for k u cs rs sl ms m
  proof -
    obtain a b where "sl = (a, b)" by (cases sl)
    with that(1) have "collectDrafts (rateDraft i k u a b) (activeRates rs a b) = Inr (Inr ms)"
      by (auto simp: sliceDrafts_def Let_def split: option.splits)
    then show ?thesis using rateDraft_nonneg by (rule collectDrafts_all) (use that(2) in auto)
  qed
  have usage: "?P m" if "usageDrafts cards c sn i p = Inr (Inr ms)" "m \<in> set ms" for p ms m
  proof (cases "componentsOf sn (fst p) = []")
    case True
    then show ?thesis using that by (auto simp: usageDrafts_def componentsOf_def Let_def split: prod.splits)
  next
    case False
    then have "collectDrafts (sliceDrafts i (sn_id sn) (fst p) (componentsOf sn (fst p)) (ratesOf cards c sn p))
        (pieceSlices cards c sn p) = Inr (Inr ms)"
      using that(1) by (auto simp: usageDrafts_def componentsOf_def ratesOf_def pieceSlices_def Let_def split: prod.splits)
    then show ?thesis using slice by (rule collectDrafts_all) (use that(2) in auto)
  qed
  have all: "collectDrafts (usageDrafts cards c sn i) (boundedUsage rows sn i ts te) = Inr (Inr ls)"
    using assms by (auto simp: draftInvoice_def Let_def split: option.splits if_splits)
  have "?P l" if "l \<in> set ls" for l
    by (rule collectDrafts_all [OF all _ that]) (rule usage)
  then show ?thesis unfolding lineTotal_def by (intro sum_list_nonneg) auto
qed

lemma createWallet_step:
  assumes "createWallet userId newId db = Inr (w, db')"
  shows "billingStep db db'"
proof -
  have new: "db' = db\<lparr>wallets := wallets db @ [w]\<rparr>"
    and ensure: "ensureWalletForUser userId newId db = Inr (w, db')"
    using assms by (auto simp: createWallet_def ensureWalletForUser_def Let_def split: if_splits)
  have "billingInv db'" if inv: "billingInv db"
  proof (rule billingInv_money [OF inv])
    show "walletInv db'" using ensureWalletForUser_Inr(1) [OF _ ensure] inv by (simp add: billingInv_def)
  qed (simp_all add: new)
  then show ?thesis by (simp add: billingStep_def new keepsSettled_refl)
qed

lemma processSnapshot_step:
  assumes "processSnapshot j loaded ids db = Inr (r, db')"
  shows "billingStep db db'"
proof -
  from assms obtain w db1 where w: "(case loaded of Some w \<Rightarrow> Inr (w, db)
       | None \<Rightarrow> createWallet (ci_userId (sj_instance j)) (ni_wallet ids) db) = Inr (w, db1)"
    by (auto simp: processSnapshot_def bindE_eq_Inr)
  have first: "billingStep db db1"
    using w createWallet_step by (cases loaded) auto
  define ts where "ts = maximumDate (sj_periodStart j) (sn_effectiveFrom (sj_snapshot j))"
  define te where "te = (case sn_effectiveTo (sj_snapshot j) of None \<Rightarrow> sj_periodEnd j | Some t \<Rightarrow> minimumDate (sj_periodEnd j) t)"
  define settled where "settled = (case jobInvoice j db1 of None \<Rightarrow> False | Some i \<Rightarrow> settledStatus (bi_status i))"
  have run: "processSnapshot j loaded ids db = (if ts \<ge> te then Inr ((False, False), db1)
     else if settled then Inr ((True, False), db1)
     else bindE (draftInvoice (usageIntervals db1) (rateCards db1) (sj_cadence j) (sj_snapshot j) (ci_id (sj_instance j)) ts te)
       (\<lambda>r. case r of
          Inl review \<Rightarrow> bindE (markInvoiceForReview j (w_id w) (ni_invoice ids) review db1) (\<lambda>db. Inr ((True, True), db))
        | Inr ls \<Rightarrow> bindE (settleInvoice j ids (w_id w) ls db1) (\<lambda>db. Inr ((True, False), db))))"
    unfolding processSnapshot_def w by (simp add: Let_def ts_def te_def settled_def)
  consider "db' = db1"
    | review where "\<not> settled" "markInvoiceForReview j (w_id w) (ni_invoice ids) review db1 = Inr db'"
    | ls where "\<not> settled" "settleInvoice j ids (w_id w) ls db1 = Inr db'" "0 \<le> lineTotal ls"
  proof (cases "ts \<ge> te \<or> settled")
    case True
    then have "db' = db1" using assms unfolding run by (auto split: if_splits)
    then show thesis by (rule that(1))
  next
    case False
    then obtain d where d: "draftInvoice (usageIntervals db1) (rateCards db1) (sj_cadence j) (sj_snapshot j)
        (ci_id (sj_instance j)) ts te = Inr d"
      using assms unfolding run by (auto simp: bindE_eq_Inr)
    show thesis
    proof (cases d)
      case (Inl review)
      then show thesis using that(2) [of review] False assms d unfolding run by (auto simp: bindE_eq_Inr)
    next
      case (Inr ls)
      then show thesis using that(3) [of ls] False assms d draftInvoice_nonneg unfolding run by (auto simp: bindE_eq_Inr)
    qed
  qed
  moreover have open_invoice: "\<not> settledStatus (bi_status i)" if "\<not> settled" "jobInvoice j db1 = Some i" for i
    using that by (simp add: settled_def)
  ultimately have "billingStep db1 db'"
  proof cases
    case 1
    then show ?thesis by simp
  next
    case 2
    then show ?thesis using markInvoiceForReview_step(1) [OF 2(2) open_invoice] by simp
  next
    case 3
    then show ?thesis using settleInvoice_step [OF 3(2,3) open_invoice] by simp
  qed
  then show ?thesis using first billingStep_trans by blast
qed

lemma processSnapshots_step:
  assumes "processSnapshots ids runId p snapshots db = Inr (r, db')"
  shows "billingStep db db'"
proof -
  have "billingStep db (snd (r, db'))"
    using assms unfolding processSnapshots_def
  proof (rule foldE_invariant)
    fix s x s'
    assume s: "billingStep db (snd s)" and x: "(case s of (x, xa) \<Rightarrow> (case x of (invoiced, review) \<Rightarrow> \<lambda>db (k, s, c, w).
        bindE (processSnapshot (snapshotJob runId p s c) w (ids k) db) (\<lambda>((i, r), db).
          Inr ((countIf i invoiced, countIf r review), db))) xa) x = Inr s'"
    obtain inv rev d k sn c w where "s = ((inv, rev), d)" "x = (k, sn, c, w)" by (cases s; cases x) auto
    with x obtain r' where "processSnapshot (snapshotJob runId p sn c) w (ids k) d = Inr (r', snd s')"
      by (auto simp: bindE_eq_Inr)
    then have "billingStep (snd s) (snd s')" using processSnapshot_step \<open>s = ((inv, rev), d)\<close> by simp
    with s show "billingStep db (snd s')" by (rule billingStep_trans)
  qed simp
  then show ?thesis by simp
qed

section \<open>Runs\<close>

lemma findRun_updateRun:
  assumes "\<And>r. br_key (f r) = br_key r"
  shows "findRun k (updateRun key f db) = (if k = key then map_option f (findRun k db) else findRun k db)"
proof -
  have "findRun k (updateRun key f db) = map_option (\<lambda>r. if br_key r = key then f r else r) (findRun k db)"
    unfolding findRun_def updateRun_def by (simp add: findRow_updateRows assms)
  then show ?thesis
    by (cases "findRun k db") (auto simp: findRun_def dest: findRow_Some)
qed

lemma updateRun_simps [simp]:
  "wallets (updateRun key f db) = wallets db" "ledger (updateRun key f db) = ledger db"
  "invoices (updateRun key f db) = invoices db" "billingLines (updateRun key f db) = billingLines db"
  by (simp_all add: updateRun_def)

lemma findRun_cong: "billingRuns db' = billingRuns db \<Longrightarrow> findRun k db' = findRun k db"
  by (simp add: findRun_def)

lemma findRun_append:
  "findRun k (db\<lparr>billingRuns := billingRuns db @ [r]\<rparr>) =
     (case findRun k db of None \<Rightarrow> if br_key r = k then Some r else None | Some x \<Rightarrow> Some x)"
  by (simp add: findRun_def findRow_append split: option.split)

text \<open>A step on the money side that leaves everything but the run rows.\<close>

lemma billingInv_runs:
  assumes "wallets db' = wallets db" and "ledger db' = ledger db" and "invoices db' = invoices db"
    and "billingLines db' = billingLines db"
  shows "billingInv db \<Longrightarrow> billingInv db' \<and> keepsSettled db db'"
  using billingInv_cong [OF _ assms] keepsSettled_refl [OF assms(3,4)] by simp

lemma openRun_Inr:
  assumes "openRun nid p db = Inr (rid, db')"
  shows "billingInv db \<Longrightarrow> billingInv db' \<and> keepsSettled db db'"
    and "k \<noteq> pdKey p \<Longrightarrow> findRun k db' = findRun k db"
proof -
  have same: "wallets db' = wallets db" "ledger db' = ledger db" "invoices db' = invoices db" "billingLines db' = billingLines db"
    using assms by (auto simp: openRun_def split: option.splits if_splits)
  then show "billingInv db \<Longrightarrow> billingInv db' \<and> keepsSettled db db'" by (rule billingInv_runs)
  show "k \<noteq> pdKey p \<Longrightarrow> findRun k db' = findRun k db"
    using assms by (auto simp: openRun_def findRun_updateRun findRun_append split: option.splits if_splits)
qed

lemma settleTx_Inr:
  assumes "settleTx nid ids p db = Inr (r, db')"
  shows "findRun (pdKey p) db' = Some r" and "terminalRun (br_status r)"
    and "billingInv db \<Longrightarrow> billingInv db' \<and> keepsSettled db db'"
    and "k \<noteq> pdKey p \<Longrightarrow> findRun k db' = findRun k db"
proof -
  have main: "findRun (pdKey p) db' = Some r \<and> terminalRun (br_status r) \<and>
      (billingInv db \<longrightarrow> billingInv db' \<and> keepsSettled db db') \<and> (k \<noteq> pdKey p \<longrightarrow> findRun k db' = findRun k db)" for k
  proof (cases "case findRun (pdKey p) db of None \<Rightarrow> False | Some r \<Rightarrow> terminalRun (br_status r)")
    case True
    then show ?thesis using assms by (auto simp: settleTx_def keepsSettled_refl split: option.splits)
  next
    case False
    then obtain rid db1 inv rev db2 where 1: "openRun nid p db = Inr (rid, db1)"
      and 2: "processSnapshots ids rid p (loadSnapshots (pd_cadence p) (pd_start p) (pd_end p) db1) db1 = Inr ((inv, rev), db2)"
      and 3: "db' = updateRun (pdKey p) (\<lambda>r. r\<lparr>br_status := (if rev > 0 then RUN_PARTIAL else RUN_COMPLETED),
              br_invoiceCount := inv, br_reviewCount := rev\<rparr>) db2" "findRun (pdKey p) db' = Some r"
      using assms by (auto simp: settleTx_def bindE_eq_Inr Let_def split: option.splits)
    have step: "billingStep db1 db2" using 2 by (rule processSnapshots_step)
    have runs: "findRun k db2 = findRun k db1" for k using step by (intro findRun_cong) (simp add: billingStep_def)
    have A: "billingInv db' \<and> keepsSettled db db'" if "billingInv db"
    proof -
      have a: "billingInv db1" "keepsSettled db db1" using openRun_Inr(1) [OF 1 that] by simp_all
      have b: "billingInv db2" "keepsSettled db1 db2" using step a(1) by (simp_all add: billingStep_def)
      have "billingInv db' \<and> keepsSettled db2 db'" by (rule billingInv_runs [OF _ _ _ _ b(1)]) (simp_all add: 3(1))
      then show ?thesis using keepsSettled_trans [OF a(2) keepsSettled_trans [OF b(2)]] by simp
    qed
    have T: "terminalRun (br_status r)"
      using 3(2) unfolding 3(1) by (auto simp: findRun_updateRun terminalRun_def split: if_splits)
    have N: "findRun k db' = findRun k db" if "k \<noteq> pdKey p"
      using that openRun_Inr(2) [OF 1 that] runs by (simp add: 3(1) findRun_updateRun)
    show ?thesis using 3(2) T by (intro conjI impI) (simp_all add: A N)
  qed
  show "findRun (pdKey p) db' = Some r" "terminalRun (br_status r)" using main by simp_all
  show "billingInv db \<Longrightarrow> billingInv db' \<and> keepsSettled db db'" using main by simp
  show "k \<noteq> pdKey p \<Longrightarrow> findRun k db' = findRun k db" using main by simp
qed

text \<open>A settled period is recognised by its terminal run.\<close>

definition settledRun :: "BillingPeriod \<Rightarrow> BillingDb \<Rightarrow> BillingRunRow option" where
  "settledRun p db = (case findRun (pdKey p) db of None \<Rightarrow> None
     | Some r \<Rightarrow> if terminalRun (br_status r) then Some r else None)"

lemma settledRun_Some: "settledRun p db = Some r \<longleftrightarrow> findRun (pdKey p) db = Some r \<and> terminalRun (br_status r)"
  by (auto simp: settledRun_def split: option.splits if_splits)

interpretation settle_once: idempotent_op "\<lambda>_. True" "\<lambda>(nid, ids, p). settleTx nid ids p" "\<lambda>_. True" "\<lambda>(nid, ids, p). settledRun p"
proof (unfold_locales, goal_cases)
  case (2 d i r d')
  obtain nid ids p where i: "i = (nid, ids, p)" by (cases i)
  then show ?case using 2(3) settleTx_Inr(1,2) [of nid ids p d r d'] by (simp add: settledRun_Some)
next
  case (3 d i r j s d')
  obtain nid ids p nid' ids' q where ij: "i = (nid, ids, p)" "j = (nid', ids', q)" by (cases i; cases j)
  have run: "settleTx nid' ids' q d = Inr (s, d')" using 3(4) by (simp add: ij)
  have rec: "findRun (pdKey p) d = Some r" "terminalRun (br_status r)" using 3(3) by (simp_all add: ij settledRun_Some)
  show ?case
  proof (cases "pdKey p = pdKey q")
    case True
    then have "d' = d" using run rec by (simp add: settleTx_def)
    then show ?thesis using 3(3) by simp
  next
    case False
    then show ?thesis using settleTx_Inr(4) [OF run False] rec by (simp add: ij settledRun_Some)
  qed
next
  case (4 d i r)
  then show ?case by (cases i) (auto simp: settledRun_Some settleTx_def)
qed simp

lemma retryFrom_cases:
  assumes "retryFrom (\<lambda>n. if aborted n then Inl P2034 else m) k left = res" and "0 < left"
  shows "res = m \<or> res = Inl P2034"
  using assms
proof (induction left arbitrary: k)
  case (Suc left)
  show ?case
  proof (cases "left = 0")
    case True
    then show ?thesis using Suc.prems(1) by (auto split: sum.splits if_splits)
  next
    case False
    then have "0 < left" by simp
    then show ?thesis using Suc by (auto split: sum.splits if_splits)
  qed
qed simp

text \<open>A call settles the period in one transaction, or leaves at most a failed run behind.\<close>

lemma settleClosed_cases:
  assumes "settleClosedBillingPeriod aborted nid ids p db = (res, db')"
  obtains r where "res = Inr r" and "settleTx nid ids p db = Inr (r, db')"
    | e where "res = Inl e" and "db' = db"
    | e code where "res = Inl e" and "db' = snd (recordBillingRunFailure nid p code db)"
      and "e = P2034 \<or> settleTx nid ids p db = Inl e"
proof (cases "validatePeriod (pd_cadence p) (pd_start p) (pd_end p) (pd_now p)")
  case (Inl e)
  then have "res = Inl e" "db' = db" using assms by (simp_all add: settleClosedBillingPeriod_def)
  then show thesis by (rule that(2))
next
  case (Inr u)
  define m where "m = retrySerializableBilling (\<lambda>n. if aborted n then Inl P2034 else settleTx nid ids p db) 4"
  have m: "m = settleTx nid ids p db \<or> m = Inl P2034"
    using retryFrom_cases [of aborted "settleTx nid ids p db" 1 4 m] by (simp add: m_def retrySerializableBilling_def)
  have run: "(res, db') = (case m of Inr (r, db') \<Rightarrow> (Inr r, db')
      | Inl e \<Rightarrow> (Inl e, snd (recordBillingRunFailure nid p (failureCode e) db)))"
    using assms Inr by (simp add: settleClosedBillingPeriod_def m_def)
  show thesis
  proof (cases m)
    case (Inl e)
    then show thesis using that(3) [of e] run m by auto
  next
    case (Inr x)
    then show thesis using that(1) [of "fst x"] run m by (cases x) auto
  qed
qed

lemma recordFailure_step:
  shows "billingInv db \<Longrightarrow> billingInv (snd (recordBillingRunFailure nid p code db)) \<and>
      keepsSettled db (snd (recordBillingRunFailure nid p code db))"
    and "settledRun q db = Some r \<Longrightarrow> settledRun q (snd (recordBillingRunFailure nid p code db)) = Some r"
proof -
  let ?db = "snd (recordBillingRunFailure nid p code db)"
  have "wallets ?db = wallets db" "ledger ?db = ledger db" "invoices ?db = invoices db" "billingLines ?db = billingLines db"
    by (auto simp: recordBillingRunFailure_def Let_def split: option.splits)
  then show "billingInv db \<Longrightarrow> billingInv ?db \<and> keepsSettled db ?db" by (rule billingInv_runs)
  assume r: "settledRun q db = Some r"
  show "settledRun q ?db = Some r"
  proof (cases "pdKey q = pdKey p")
    case True
    then have "?db = db" using r by (auto simp: settledRun_Some recordBillingRunFailure_def)
    then show ?thesis using r by simp
  next
    case False
    then have "findRun (pdKey q) ?db = findRun (pdKey q) db"
      by (auto simp: recordBillingRunFailure_def Let_def findRun_updateRun findRun_append split: option.splits)
    then show ?thesis using r by (simp add: settledRun_Some)
  qed
qed

lemma settleClosed_step:
  "billingInv db \<Longrightarrow> billingInv (snd (settleClosedBillingPeriod ab nid ids p db)) \<and>
     keepsSettled db (snd (settleClosedBillingPeriod ab nid ids p db))"
  "settledRun q db = Some r \<Longrightarrow> settledRun q (snd (settleClosedBillingPeriod ab nid ids p db)) = Some r"
proof -
  obtain res db' where run: "settleClosedBillingPeriod ab nid ids p db = (res, db')" by (cases "settleClosedBillingPeriod ab nid ids p db")
  show "billingInv db \<Longrightarrow> billingInv (snd (settleClosedBillingPeriod ab nid ids p db)) \<and>
     keepsSettled db (snd (settleClosedBillingPeriod ab nid ids p db))"
    using run
    by (cases rule: settleClosed_cases) (simp_all add: settleTx_Inr(3) recordFailure_step(1) keepsSettled_refl run)
  show "settledRun q (snd (settleClosedBillingPeriod ab nid ids p db)) = Some r" if "settledRun q db = Some r"
    using run
  proof (cases rule: settleClosed_cases)
    case (1 s)
    then show ?thesis using settle_once.stable [where d = db and i = "(nid, ids, q)" and r = r and j = "(nid, ids, p)" and s = s and d' = db'] that run by simp
  qed (use that recordFailure_step(2) run in auto)
qed

text \<open>A history of workers: any number of settlement calls for any periods.\<close>

type_synonym SettleCall = "(nat \<Rightarrow> bool) \<times> string \<times> (nat \<Rightarrow> NewIds) \<times> BillingPeriod"

definition settleStep :: "BillingDb \<Rightarrow> SettleCall \<Rightarrow> BillingDb" where
  "settleStep db = (\<lambda>(ab, nid, ids, p). snd (settleClosedBillingPeriod ab nid ids p db))"

lemma settleSteps_settled: "settledRun q db = Some r \<Longrightarrow> settledRun q (foldl settleStep db calls) = Some r"
proof (induction calls arbitrary: db)
  case (Cons c cs)
  obtain ab nid ids p where "c = (ab, nid, ids, p)" by (cases c)
  then show ?case using Cons settleClosed_step(2) by (simp add: settleStep_def)
qed simp

text \<open>C2: a closed period is charged at most once. After a settlement of a period has succeeded, and after any number of
  settlement calls by any workers for any periods, settling the period again (by any worker, later, with other ids)
  changes nothing: it returns the recorded run, or reports that the database aborted all of its attempts.\<close>

theorem period_charged_at_most_once:
  assumes "settleClosedBillingPeriod ab nid ids p db = (Inr r, db1)" and "pd_end p \<le> now"
  shows "settleClosedBillingPeriod ab' nid' ids' (p\<lparr>pd_workerId := worker, pd_now := now\<rparr>) (foldl settleStep db1 calls)
    \<in> {(Inr r, foldl settleStep db1 calls), (Inl P2034, foldl settleStep db1 calls)}"
proof -
  let ?d = "foldl settleStep db1 calls" and ?p = "p\<lparr>pd_workerId := worker, pd_now := now\<rparr>"
  from assms(1) have tx: "settleTx nid ids p db = Inr (r, db1)"
    by (cases rule: settleClosed_cases) simp_all
  then have "settledRun p db1 = Some r" using settleTx_Inr(1,2) by (simp add: settledRun_Some)
  then have rec: "settledRun ?p ?d = Some r" using settleSteps_settled by (simp add: settledRun_def pdKey_def)
  have replay: "settleTx nid' ids' ?p ?d = Inr (r, ?d)"
    using rec by (auto simp: settledRun_Some settleTx_def)
  have valid: "validatePeriod (pd_cadence ?p) (pd_start ?p) (pd_end ?p) (pd_now ?p) = Inr ()"
    using assms by (auto simp: settleClosedBillingPeriod_def validatePeriod_def Let_def split: sum.splits if_splits)
  obtain res d' where run: "settleClosedBillingPeriod ab' nid' ids' ?p ?d = (res, d')"
    by (cases "settleClosedBillingPeriod ab' nid' ids' ?p ?d")
  then show ?thesis
  proof (cases rule: settleClosed_cases)
    case (1 s)
    then show ?thesis using replay run by simp
  next
    case (2 e)
    then show ?thesis using run valid replay retryFrom_cases [OF HOL.refl, of 4 ab' "settleTx nid' ids' ?p ?d" 1]
      by (auto simp: settleClosedBillingPeriod_def retrySerializableBilling_def split: sum.splits)
  next
    case (3 e code)
    have "snd (recordBillingRunFailure nid' ?p code ?d) = ?d"
      using rec by (auto simp: settledRun_Some recordBillingRunFailure_def)
    then show ?thesis using 3 replay run by auto
  qed
qed

section \<open>Reachable databases\<close>

lemma applyCommand_billing:
  fixes db :: BillingDb
  assumes "billingInv db"
  shows "billingInv (applyCommand db c)" and "keepsSettled db (applyCommand db c)"
proof -
  have "billingInv (applyCommand db c) \<and> keepsSettled db (applyCommand db c)"
  proof (cases "walletCommand c db")
    case (Inl e)
    then show ?thesis using assms by (simp add: applyCommand_def keepsSettled_refl)
  next
    case (Inr x)
    obtain e db' where x: "x = (e, db')" by (cases x)
    have inv: "walletInv db" using assms by (simp add: billingInv_def)
    note cases' = walletCommand_cases [OF inv Inr [unfolded x]]
    have more: "WalletDb.more db' = WalletDb.more db" by (rule walletCommand_more [OF Inr [unfolded x]])
    then have same: "invoices db' = invoices db" "billingLines db' = billingLines db"
      by (cases db; cases db'; simp)+
    have "set (ledger db) \<subseteq> set (ledger db')" using cases' by auto
    then have "billingInv db'" using cases' billingInv_money [OF assms _ same] by simp
    then show ?thesis using Inr x keepsSettled_refl [OF same] by (simp add: applyCommand_def)
  qed
  then show "billingInv (applyCommand db c)" "keepsSettled db (applyCommand db c)" by simp_all
qed

lemma settlePeriods_step:
  assumes "settlePeriods ab rids ids c worker now k ps runs db = (r, db')" and "billingInv db"
  shows "billingInv db' \<and> keepsSettled db db'"
  using assms
proof (induction ps arbitrary: k runs db)
  case Nil
  then show ?case by (simp add: keepsSettled_refl)
next
  case (Cons q ps)
  obtain s e where q: "q = (s, e)" by (cases q)
  define p where "p = \<lparr>pd_cadence = c, pd_start = s, pd_end = e, pd_workerId = worker, pd_now = now\<rparr>"
  obtain res db1 where run: "settleClosedBillingPeriod (ab k) (rids k) (ids k) p db = (res, db1)"
    by (cases "settleClosedBillingPeriod (ab k) (rids k) (ids k) p db")
  have 1: "billingInv db1" "keepsSettled db db1"
    using settleClosed_step(1) [OF Cons.prems(2), of "ab k" "rids k" "ids k" p] run by simp_all
  show ?case
  proof (cases res)
    case (Inl err)
    then have "db' = snd (recordBillingRunFailure (rids k) p (failureCode err) db1)"
      using Cons.prems(1) run by (simp add: q p_def [symmetric] Let_def split: prod.splits)
    then show ?thesis using recordFailure_step(1) [OF 1(1)] keepsSettled_trans [OF 1(2)] by simp
  next
    case (Inr r')
    then have "settlePeriods ab rids ids c worker now (k + 1) ps (runs @ [r']) db1 = (r, db')"
      using Cons.prems(1) run by (simp add: q p_def [symmetric] Let_def)
    from Cons.IH [OF this 1(1)] show ?thesis using keepsSettled_trans [OF 1(2)] by simp
  qed
qed

text \<open>Wallet commands of all features, any change of instances, snapshots, usage and rate cards, settlements of
  periods by any worker, and catch-up cycles.\<close>

definition emptyBilling :: BillingDb where
  "emptyBilling = \<lparr>wallets = [], ledger = [], cloudInstances = [], policySnapshots = [], usageIntervals = [],
     rateCards = [], billingRuns = [], invoices = [], billingLines = [], outstandings = [], dunningCases = [],
     reconciliations = [], notices = []\<rparr>"

inductive billingReach :: "BillingDb \<Rightarrow> bool" where
  start: "billingReach emptyBilling"
| wallet: "billingReach db \<Longrightarrow> billingReach (applyCommand db c)"
| configure: "billingReach db \<Longrightarrow> billingReach (db\<lparr>cloudInstances := cs, policySnapshots := ss,
    usageIntervals := us, rateCards := rs\<rparr>)"
| settle: "billingReach db \<Longrightarrow> billingReach (settleStep db call)"
| catchUp: "billingReach db \<Longrightarrow>
    settleClosedBillingPeriodsCatchUp ab rids ids c worker now maxPeriods db = Inr (Some (r, db')) \<Longrightarrow> billingReach db'"

lemma billingReach_inv: "billingReach db \<Longrightarrow> billingInv db"
proof (induction rule: billingReach.induct)
  case start
  then show ?case by (simp add: billingInv_def emptyBilling_def walletInv_def)
next
  case (wallet db c)
  then show ?case by (intro applyCommand_billing)
next
  case (configure db cs ss us rs)
  show ?case by (rule billingInv_cong [OF configure.IH]) simp_all
next
  case (settle db call)
  then show ?case using settleClosed_step(1) by (cases call) (simp add: settleStep_def)
next
  case (catchUp db ab rids ids c worker now maxPeriods r db')
  then obtain ps where "settlePeriods ab rids ids c worker now 0 ps [] db = (r, db')"
    by (auto simp: settleClosedBillingPeriodsCatchUp_def bindE_eq_Inr)
  then show ?case using settlePeriods_step catchUp.IH by simp
qed

text \<open>C1: every settled usage invoice is backed. In every reachable database, whatever wallet commands, reconfigurations,
  settlements and catch-up cycles led to it, there is at most one invoice per instance, period and policy snapshot;
  the lines of a settled one add up to its total, the total is the amount paid plus the amount outstanding (neither
  negative), its status says which of the two is zero, and the amount paid was taken by one completed debit entry of the
  ledger with the invoice's key; and the wallets themselves reconcile with the ledger.\<close>

theorem usage_invoices_backed:
  assumes "billingReach db"
  shows "walletInv db \<and> distinct (map invoiceSlot (invoices db)) \<and>
    (\<forall>i \<in> set (invoices db). settledStatus (bi_status i) \<longrightarrow> invoiceBacked db i)"
  using billingReach_inv [OF assms] by (simp add: billingInv_def)

section \<open>Samples\<close>

definition sampleInstance :: CloudInstanceRow where
  "sampleInstance = \<lparr>ci_id = ''vm'', ci_userId = ''u'', ci_infrastructureOrderId = ''io''\<rparr>"

definition sampleSnapshot :: PolicySnapshotRow where
  "sampleSnapshot = \<lparr>sn_id = ''sn'', sn_cloudInstanceId = ''vm'', sn_cadence = HOURLY, sn_gracePeriods = 24,
     sn_lowBalanceThresholdPeriods = 3, sn_stopStateComponentPolicy = JNull, sn_effectiveFrom = 0, sn_effectiveTo = None\<rparr>"

definition sampleVersion :: ResourceVersionRow where
  "sampleVersion = \<lparr>rq_state = RV_ACTIVE, rq_vcpu = 2, rq_ramMb = 2048, rq_diskGb = 0, rq_ipv4Count = 0,
     rq_backupEnabled = False, rq_snapshotCount = 0, rv_id = ''rv'', rv_planId = ''plan'', rv_provider = ''ARVAN'',
     rv_effectiveFrom = 0, rv_effectiveTo = None\<rparr>"

definition sampleUsage :: UsageRow where
  "sampleUsage = \<lparr>ui_id = ''ui'', ui_cloudInstanceId = ''vm'', ui_snapshotId = ''sn'', ui_status = UI_OPEN,
     ui_startedAt = 0, ui_endedAt = None, ui_completenessReason = None, ui_resource = sampleVersion\<rparr>"

text \<open>The rate changes in the middle of the hour.\<close>

definition sampleCard :: "string \<Rightarrow> int \<Rightarrow> int \<Rightarrow> int option \<Rightarrow> RateCardRow" where
  "sampleCard i rate s e = \<lparr>cr_calculationUnit = HOUR, cr_minimumChargeSeconds = 0, cr_roundingPolicy = EXACT,
     cr_prorationSupported = True, cr_resourceUnit = U_INSTANCE, cr_normalizedProviderRial = 500,
     cr_customerRateRial = rate, cr_markupBasisPoints = 2000, rc_id = i, rc_planId = Some ''plan'',
     rc_provider = ''ARVAN'', rc_productKind = ''CLOUD_SERVER'', rc_component = COMPUTE, rc_cadence = None,
     rc_providerCurrency = ''IRR'', rc_providerAmountUnit = ''RIAL'', rc_effectiveFrom = s, rc_effectiveTo = e\<rparr>"

definition sampleCards :: "RateCardRow list" where
  "sampleCards = [sampleCard ''r1'' 600 0 (Some 1800000), sampleCard ''r2'' 1000 1800000 None]"

definition sampleLine :: "string \<Rightarrow> int \<Rightarrow> int \<Rightarrow> int \<Rightarrow> LineDraft" where
  "sampleLine r s e amount = \<lparr>ld_usageIntervalId = ''ui'', ld_resourceVersionId = ''rv'', ld_rateCardVersionId = r,
     ld_component = COMPUTE, ld_resourceUnit = U_INSTANCE, ld_intervalStart = s, ld_intervalEnd = e,
     ld_amounts = \<lparr>bl_quantityNumerator = 1800, bl_quantityDenominator = 3600, bl_providerCostRial = 250,
       bl_markupAmountRial = amount - 250, bl_amountRial = amount\<rparr>, ld_markupBasisPoints = 2000,
     ld_key = ''billing-line:vm:sn:rv:'' @ r @ '':'' @ toISOString s @ '':'' @ toISOString e\<rparr>"

lemma sample_draft: "draftInvoice [sampleUsage] sampleCards HOURLY sampleSnapshot ''vm'' 0 3600000 =
    Inr (Inr [sampleLine ''r1'' 0 1800000 300, sampleLine ''r2'' 1800000 3600000 500])"
  by code_simp

theorem every_instant_priced_once_witness:
  "\<exists>!p. p \<in> set (boundedUsage [sampleUsage] sampleSnapshot ''vm'' 0 3600000) \<and> during 1800000 (snd p) \<and>
    (componentsOf sampleSnapshot (fst p) \<noteq> [] \<longrightarrow>
      (\<exists>!sl. sl \<in> set (pieceSlices sampleCards HOURLY sampleSnapshot p) \<and> during 1800000 sl \<and>
       pricedSlice (componentsOf sampleSnapshot (fst p)) (ratesOf sampleCards HOURLY sampleSnapshot p) (fst p)
         [sampleLine ''r1'' 0 1800000 300, sampleLine ''r2'' 1800000 3600000 500] sl))"
  by (rule every_instant_priced_once [OF sample_draft]) simp_all

definition sampleTopUp :: CreditInput where
  "sampleTopUp = \<lparr>in_userId = ''u'', in_amountRial = 500, in_type = TOP_UP, in_idempotencyKey = ''k'',
     in_referenceType = None, in_referenceId = None, in_newWalletId = ''w'', in_newEntryId = ''e0''\<rparr>"

definition sampleBilling :: BillingDb where
  "sampleBilling = (applyCommand emptyBilling (Credit sampleTopUp))\<lparr>cloudInstances := [sampleInstance],
     policySnapshots := [sampleSnapshot], usageIntervals := [sampleUsage], rateCards := sampleCards\<rparr>"

lemma sample_topUp: "applyCommand emptyBilling (Credit sampleTopUp) = emptyBilling
    \<lparr>wallets := [\<lparr>w_id = ''w'', w_userId = ''u'', w_availableBalance = 500, w_status = WS_ACTIVE\<rparr>],
     ledger := [newEntry sampleTopUp CREDIT \<lparr>w_id = ''w'', w_userId = ''u'', w_availableBalance = 500, w_status = WS_ACTIVE\<rparr> 500]\<rparr>"
  by (simp add: applyCommand_def creditWallet_def creditTx_def ensureWalletForUser_def getWalletForUser_def findWallet_def
      emptyBilling_def sampleTopUp_def findByIdempotency_def updateBalance_def addBalance_def insertEntry_def findEntry_def
      newEntry_def Let_def)

lemma sampleBilling_reach: "billingReach sampleBilling"
  unfolding sampleBilling_def by (intro billingReach.configure billingReach.wallet billingReach.start)

definition samplePeriod :: BillingPeriod where
  "samplePeriod = \<lparr>pd_cadence = HOURLY, pd_start = 0, pd_end = 3600000, pd_workerId = ''worker'', pd_now = 4000000\<rparr>"

definition sampleIds :: "nat \<Rightarrow> NewIds" where
  "sampleIds k = \<lparr>ni_invoice = ''i'', ni_wallet = ''w2'', ni_entry = ''e1''\<rparr>"

definition sampleWallet :: WalletRow where
  "sampleWallet = \<lparr>w_id = ''w'', w_userId = ''u'', w_availableBalance = 500, w_status = WS_ACTIVE\<rparr>"

definition sampleRun :: BillingRunRow where
  "sampleRun = \<lparr>br_id = ''run'', br_cadence = HOURLY, br_periodStart = 0, br_periodEnd = 3600000, br_status = RUN_RUNNING,
     br_workerId = ''worker'', br_invoiceCount = 0, br_reviewCount = 0, br_failureCode = None, br_key = pdKey samplePeriod\<rparr>"

lemma sampleBilling_eq: "sampleBilling\<lparr>billingRuns := rs\<rparr> = \<lparr>wallets = [sampleWallet],
    ledger = [newEntry sampleTopUp CREDIT sampleWallet 500], cloudInstances = [sampleInstance],
    policySnapshots = [sampleSnapshot], usageIntervals = [sampleUsage], rateCards = sampleCards, billingRuns = rs,
    invoices = [], billingLines = [], outstandings = [], dunningCases = [], reconciliations = [], notices = []\<rparr>"
  unfolding sampleBilling_def sample_topUp by (simp add: emptyBilling_def sampleWallet_def)

lemma sampleBilling_runs: "billingRuns sampleBilling = []"
  unfolding sampleBilling_def sample_topUp by (simp add: emptyBilling_def)

lemma sample_invoice:
  "\<exists>d. settleInvoice (snapshotJob ''run'' samplePeriod sampleSnapshot sampleInstance) (sampleIds 0) ''w''
      [sampleLine ''r1'' 0 1800000 300, sampleLine ''r2'' 1800000 3600000 500] (sampleBilling\<lparr>billingRuns := rs\<rparr>) = Inr d \<and>
     billingRuns d = rs \<and> map bi_total (invoices d) = [800] \<and> map bi_status (invoices d) = [INV_PARTIALLY_PAID] \<and>
     map w_availableBalance (wallets d) = [0] \<and> map ob_remaining (outstandings d) = [300]"
  unfolding sampleBilling_eq
  by (simp add: settleInvoice_def upsertInvoice_def jobInvoice_def newInvoice_def Let_def replaceLines_def insertLine_def
      sampleLine_def sampleIds_def lineTotal_def chargeWallet_def findWallet_def updateBalance_def addBalance_def
      insertEntry_def findEntry_def findByIdempotency_def usageDebit_def newEntry_def sampleTopUp_def sampleWallet_def
      finalizeInvoice_def recordOutstanding_def recordLowBalance_def upsertRow_def)

lemma sample_settled:
  "\<exists>r d. settleClosedBillingPeriod (\<lambda>_. False) ''run'' sampleIds samplePeriod sampleBilling = (Inr r, d) \<and>
     map bi_total (invoices d) = [800] \<and> map bi_status (invoices d) = [INV_PARTIALLY_PAID] \<and>
     map w_availableBalance (wallets d) = [0] \<and> map ob_remaining (outstandings d) = [300]"
proof -
  let ?job = "snapshotJob ''run'' samplePeriod sampleSnapshot sampleInstance" and ?d1 = "sampleBilling\<lparr>billingRuns := [sampleRun]\<rparr>"
  have open1: "openRun ''run'' samplePeriod sampleBilling = Inr (''run'', ?d1)"
    by (simp add: openRun_def findRun_def sampleBilling_runs sampleRun_def samplePeriod_def)
  have load: "loadSnapshots HOURLY 0 3600000 ?d1 = [(sampleSnapshot, sampleInstance, Some sampleWallet)]"
    unfolding sampleBilling_eq by (simp add: loadSnapshots_def sampleSnapshot_def sampleInstance_def List.map_filter_def
        getWalletForUser_def sampleWallet_def)
  obtain d2 where d2: "settleInvoice ?job (sampleIds 0) ''w'' [sampleLine ''r1'' 0 1800000 300, sampleLine ''r2'' 1800000 3600000 500] ?d1 = Inr d2"
    "billingRuns d2 = [sampleRun]" "map bi_total (invoices d2) = [800]" "map bi_status (invoices d2) = [INV_PARTIALLY_PAID]"
    "map w_availableBalance (wallets d2) = [0]" "map ob_remaining (outstandings d2) = [300]"
    using sample_invoice [of "[sampleRun]"] by (elim exE conjE)
  have fields: "usageIntervals ?d1 = [sampleUsage]" "rateCards ?d1 = sampleCards" "invoices ?d1 = []"
    unfolding sampleBilling_eq by simp_all
  have job: "sj_periodStart ?job = 0" "sj_periodEnd ?job = 3600000" "sj_cadence ?job = HOURLY" "sj_snapshot ?job = sampleSnapshot"
    "ci_id (sj_instance ?job) = ''vm''" by (simp_all add: snapshotJob_def samplePeriod_def sampleInstance_def)
  have snap: "sn_effectiveFrom sampleSnapshot = 0" "sn_effectiveTo sampleSnapshot = None" by (simp_all add: sampleSnapshot_def)
  have wid: "w_id sampleWallet = ''w''" by (simp add: sampleWallet_def)
  have "processSnapshot ?job (Some sampleWallet) (sampleIds 0) ?d1 = Inr ((True, False), d2)"
    unfolding processSnapshot_def jobInvoice_def
    by (simp only: Let_def job snap fields wid sample_draft d2(1) bindE_Inr maximumDate_def findRow_Nil option.case sum.case
        prod.case) (simp add: sample_draft d2(1))
  then have "processSnapshots sampleIds ''run'' samplePeriod [(sampleSnapshot, sampleInstance, Some sampleWallet)] ?d1 = Inr ((1, 0), d2)"
    by (simp add: processSnapshots_def countIf_def)
  then have tx: "\<exists>r d. settleTx ''run'' sampleIds samplePeriod sampleBilling = Inr (r, d) \<and> invoices d = invoices d2 \<and>
      wallets d = wallets d2 \<and> outstandings d = outstandings d2"
    using load open1 d2(2)
    by (simp add: settleTx_def findRun_def sampleBilling_runs samplePeriod_def updateRun_def sampleRun_def)
  have "retrySerializableBilling (\<lambda>n. if False then Inl P2034 else m) 4 = Inr x" if "m = Inr x"
    for m x by (simp add: retrySerializableBilling_def numeral_eq_Suc that)
  moreover have "validatePeriod (pd_cadence samplePeriod) (pd_start samplePeriod) (pd_end samplePeriod) (pd_now samplePeriod) = Inr ()"
    by (simp add: validatePeriod_def samplePeriod_def)
  ultimately show ?thesis using tx d2(3-6) by (fastforce simp: settleClosedBillingPeriod_def)
qed

theorem period_charged_at_most_once_witness:
  "\<exists>r d. settleClosedBillingPeriod (\<lambda>_. False) ''run'' sampleIds samplePeriod sampleBilling = (Inr r, d) \<and>
    settleClosedBillingPeriod (\<lambda>n. n < 3) ''run2'' sampleIds (samplePeriod\<lparr>pd_workerId := ''other'', pd_now := 8000000\<rparr>)
      (foldl settleStep d []) \<in> {(Inr r, foldl settleStep d []), (Inl P2034, foldl settleStep d [])}"
proof -
  obtain r d where "settleClosedBillingPeriod (\<lambda>_. False) ''run'' sampleIds samplePeriod sampleBilling = (Inr r, d)"
    using sample_settled by (elim exE conjE)
  moreover from this have "settleClosedBillingPeriod (\<lambda>n. n < 3) ''run2'' sampleIds (samplePeriod\<lparr>pd_workerId := ''other'', pd_now := 8000000\<rparr>)
      (foldl settleStep d []) \<in> {(Inr r, foldl settleStep d []), (Inl P2034, foldl settleStep d [])}"
    by (rule period_charged_at_most_once) (simp add: samplePeriod_def)
  ultimately show ?thesis by (intro exI conjI)
qed

theorem usage_invoices_backed_witness:
  "\<exists>db. map bi_total (invoices db) = [800] \<and> walletInv db \<and> distinct (map invoiceSlot (invoices db)) \<and>
    (\<forall>i \<in> set (invoices db). settledStatus (bi_status i) \<longrightarrow> invoiceBacked db i)"
proof -
  obtain r d where d: "settleClosedBillingPeriod (\<lambda>_. False) ''run'' sampleIds samplePeriod sampleBilling = (Inr r, d)"
    "map bi_total (invoices d) = [800]"
    using sample_settled by (elim exE conjE)
  have "billingReach (settleStep sampleBilling ((\<lambda>_. False), ''run'', sampleIds, samplePeriod))"
    using sampleBilling_reach by (rule billingReach.settle)
  then have "billingReach d" by (simp add: settleStep_def d(1))
  from usage_invoices_backed [OF this] d(2) show ?thesis by (intro exI [of _ d] conjI) simp_all
qed

theorem catch_up_lists_oldest_backlog_witness:
  "listClosedBillingPeriodsForCatchUp HOURLY 1700000000000 (JInt 24) sampleBilling =
   Inr (Some (take 24 (backlogPeriods HOURLY 1700000000000 sampleBilling)))"
  by (rule catch_up_lists_oldest_backlog) (simp add: catchUpLimit_def)

end
