(* ===== verification/Coupons.thy ===== *)
theory Coupons
  imports Journal
begin

text \<open>
  Discount and bonus codes, \<open>src/lib/coupons/service.ts\<close>: the normal form of a code, the tests a
  purchase or bonus coupon has to pass, and the record of a redemption, over the coupon tables beside the wallet and
  the journal. Instants are milliseconds since 1970; strings are Latin-1.
\<close>

section \<open>The coupon tables\<close>

datatype CouponType = SERVER_PURCHASE | WALLET_BONUS
datatype CouponScope = PUBLIC | USER_SCOPE

record CouponRow =
  cp_id :: string
  cp_code :: string
  cp_type :: CouponType
  cp_scope :: CouponScope
  cp_userId :: "string option"
  cp_discountBps :: "int option"
  cp_termMonths :: "int option"
  cp_minDepositRial :: "int option"
  cp_bonusRial :: "int option"
  cp_expiresAt :: "int option"
  cp_maxRedemptions :: "int option"
  cp_redemptionCount :: int
  cp_active :: bool

record RedemptionRow =
  rd_couponId :: string
  rd_userId :: string
  rd_serviceOrderId :: "string option"
  rd_walletTopUpId :: "string option"
  rd_amountRial :: int
  rd_bonusRial :: int
  rd_idempotencyKey :: string

record CouponDb = JournalDb +
  coupons :: "CouponRow list"
  redemptions :: "RedemptionRow list"

definition findCoupon :: "string \<Rightarrow> 'a CouponDb_scheme \<Rightarrow> CouponRow option" where
  "findCoupon code db = findRow (\<lambda>c. cp_code c = code) (coupons db)"

section \<open>The normal form of a code\<close>

text \<open>\<open>toUpperCase\<close> of a Latin-1 character; the two whose capital is not Latin-1 (micro sign and y with
  diaeresis) are left, as no code may contain either form.\<close>

definition upperChar :: "char \<Rightarrow> string" where
  "upperChar c = (let n = (of_char c :: nat) in
     if n = 223 then ''SS''
     else if 97 \<le> n \<and> n \<le> 122 \<or> 224 \<le> n \<and> n \<le> 254 \<and> n \<noteq> 247 then [char_of (n - 32)] else [c])"

definition isCodeChar :: "char \<Rightarrow> bool" where
  "isCodeChar c \<longleftrightarrow> (let n = (of_char c :: nat) in
     65 \<le> n \<and> n \<le> 90 \<or> 48 \<le> n \<and> n \<le> 57 \<or> n = 95 \<or> n = 45)"

definition normalizeCouponCode :: "jsval \<Rightarrow> string option" where
  "normalizeCouponCode v = (case v of
     JStr s \<Rightarrow> (let code = filter (\<lambda>c. \<not> isSpace c) (concat (map upperChar (trim s))) in
       if 3 \<le> length code \<and> length code \<le> 32 \<and> list_all isCodeChar code then Some code else None)
   | _ \<Rightarrow> None)"

section \<open>Admission\<close>

definition expired :: "int \<Rightarrow> CouponRow \<Rightarrow> bool" where
  "expired now c \<longleftrightarrow> (case cp_expiresAt c of None \<Rightarrow> False | Some t \<Rightarrow> t \<le> now)"

definition exhausted :: "CouponRow \<Rightarrow> bool" where
  "exhausted c \<longleftrightarrow> (case cp_maxRedemptions c of None \<Rightarrow> False | Some m \<Rightarrow> cp_redemptionCount c \<ge> m)"

definition usedBy :: "string \<Rightarrow> CouponRow \<Rightarrow> 'a CouponDb_scheme \<Rightarrow> bool" where
  "usedBy userId c db \<longleftrightarrow> (\<exists>r \<in> set (redemptions db). rd_couponId r = cp_id c \<and> rd_userId r = userId)"

text \<open>The user is empty or absent for a visitor.\<close>

definition resolveServerPurchaseCoupon ::
  "string \<Rightarrow> string option \<Rightarrow> int \<Rightarrow> int \<Rightarrow> 'a CouponDb_scheme \<Rightarrow> string + CouponRow" where
  "resolveServerPurchaseCoupon code userId term now db = (case findCoupon code db of
     None \<Rightarrow> Inl ''coupon_invalid''
   | Some c \<Rightarrow>
      let user = (case userId of None \<Rightarrow> '''' | Some u \<Rightarrow> u) in
      if \<not> cp_active c \<or> cp_type c \<noteq> SERVER_PURCHASE then Inl ''coupon_invalid''
      else if expired now c then Inl ''coupon_expired''
      else if cp_scope c = USER_SCOPE \<and> (user = '''' \<or> cp_userId c \<noteq> Some user) then Inl ''coupon_not_for_user''
      else if exhausted c then Inl ''coupon_exhausted''
      else if (cp_scope c = USER_SCOPE \<or> cp_maxRedemptions c = Some 1) \<and> user \<noteq> '''' \<and> usedBy user c db
      then Inl ''coupon_already_used''
      else if (case cp_termMonths c of None \<Rightarrow> False | Some m \<Rightarrow> isBillingTermMonths m \<and> m \<noteq> term)
      then Inl ''coupon_term_mismatch''
      else if (case cp_discountBps c of None \<Rightarrow> True | Some b \<Rightarrow> b < 0 \<or> b > 10000) then Inl ''coupon_invalid''
      else Inr c)"

definition resolveWalletBonusCoupon ::
  "string \<Rightarrow> string \<Rightarrow> int \<Rightarrow> int \<Rightarrow> 'a CouponDb_scheme \<Rightarrow> string + CouponRow" where
  "resolveWalletBonusCoupon code userId depositRial now db = (case findCoupon code db of
     None \<Rightarrow> Inl ''coupon_invalid''
   | Some c \<Rightarrow>
      if \<not> cp_active c \<or> cp_type c \<noteq> WALLET_BONUS then Inl ''coupon_invalid''
      else if expired now c then Inl ''coupon_expired''
      else if cp_scope c = USER_SCOPE \<and> cp_userId c \<noteq> Some userId then Inl ''coupon_not_for_user''
      else if exhausted c then Inl ''coupon_exhausted''
      else if (cp_scope c = USER_SCOPE \<or> cp_maxRedemptions c = Some 1) \<and> usedBy userId c db
      then Inl ''coupon_already_used''
      else (case (cp_minDepositRial c, cp_bonusRial c) of
        (Some m, Some b) \<Rightarrow>
          if m \<le> 0 \<or> b \<le> 0 then Inl ''coupon_invalid''
          else if depositRial < m then Inl ''coupon_min_deposit'' else Inr c
      | _ \<Rightarrow> Inl ''coupon_invalid''))"

section \<open>Redemption\<close>

definition findRedemption :: "string \<Rightarrow> 'a CouponDb_scheme \<Rightarrow> RedemptionRow option" where
  "findRedemption key db = findRow (\<lambda>r. rd_idempotencyKey r = key) (redemptions db)"

definition countRedemption :: "CouponRow \<Rightarrow> CouponRow" where
  "countRedemption c = c\<lparr>cp_redemptionCount := cp_redemptionCount c + 1\<rparr>"

text \<open>The update of a coupon that does not exist throws, as the redemption's foreign key would.\<close>

definition recordCouponRedemptionTx ::
  "RedemptionRow \<Rightarrow> 'a CouponDb_scheme \<Rightarrow> string + RedemptionRow \<times> 'a CouponDb_scheme" where
  "recordCouponRedemptionTx r db = (case findRedemption (rd_idempotencyKey r) db of
     Some existing \<Rightarrow> Inr (existing, db)
   | None \<Rightarrow> if findRow (\<lambda>c. cp_id c = rd_couponId r) (coupons db) = None then Inl ''P2003''
       else Inr (r, db\<lparr>redemptions := redemptions db @ [r],
         coupons := updateRows (\<lambda>c. cp_id c = rd_couponId r) countRedemption (coupons db)\<rparr>))"

section \<open>Lemmas\<close>

lemma isCodeChar_ascii: "isCodeChar c \<Longrightarrow> upperChar c = [c] \<and> \<not> isSpace c"
  by (auto simp: isCodeChar_def upperChar_def isSpace_def Let_def)

lemma trim_no_space: "list_all (\<lambda>c. \<not> isSpace c) s \<Longrightarrow> trim s = s"
proof -
  assume s: "list_all (\<lambda>c. \<not> isSpace c) s"
  have d: "dropWhile isSpace t = t" if "list_all (\<lambda>c. \<not> isSpace c) t" for t
    using that by (cases t) simp_all
  have "list_all (\<lambda>c. \<not> isSpace c) (rev s)" using s by (simp add: list_all_iff)
  then show ?thesis using d [OF s] d [of "rev s"] by (simp add: trim_def)
qed

text \<open>A normal form is its own normal form.\<close>

lemma normalizeCouponCode_idem:
  assumes "normalizeCouponCode v = Some code"
  shows "normalizeCouponCode (JStr code) = Some code"
proof -
  have code: "3 \<le> length code" "length code \<le> 32" "list_all isCodeChar code"
    using assms by (auto simp: normalizeCouponCode_def Let_def split: jsval.split_asm if_split_asm)
  have "concat (map upperChar code) = code \<and> filter (\<lambda>c. \<not> isSpace c) code = code \<and> list_all (\<lambda>c. \<not> isSpace c) code"
    using code(3) by (induction code) (simp_all add: isCodeChar_ascii)
  then show ?thesis using code trim_no_space [of code] by (simp add: normalizeCouponCode_def Let_def)
qed

text \<open>The counter of a coupon is the number of its redemptions.\<close>

definition redemptionsOf :: "string \<Rightarrow> 'a CouponDb_scheme \<Rightarrow> RedemptionRow list" where
  "redemptionsOf couponId db = filter (\<lambda>r. rd_couponId r = couponId) (redemptions db)"

definition couponInv :: "'a CouponDb_scheme \<Rightarrow> bool" where
  "couponInv db \<longleftrightarrow> distinct (map cp_id (coupons db)) \<and> distinct (map rd_idempotencyKey (redemptions db)) \<and>
     (\<forall>c \<in> set (coupons db). cp_redemptionCount c = int (length (redemptionsOf (cp_id c) db)))"

lemma couponInv_cong: "coupons db' = coupons db \<Longrightarrow> redemptions db' = redemptions db \<Longrightarrow> couponInv db' = couponInv db"
  by (simp add: couponInv_def redemptionsOf_def)

lemma countRedemption_id [simp]: "cp_id (countRedemption c) = cp_id c"
  by (simp add: countRedemption_def)

lemma recordCouponRedemption_inv:
  assumes "couponInv db" and "recordCouponRedemptionTx r db = Inr (x, db')"
  shows "couponInv db'"
proof (cases "findRedemption (rd_idempotencyKey r) db")
  case (Some y)
  then show ?thesis using assms by (simp add: recordCouponRedemptionTx_def)
next
  case None
  then have db': "db' = db\<lparr>redemptions := redemptions db @ [r],
      coupons := updateRows (\<lambda>c. cp_id c = rd_couponId r) countRedemption (coupons db)\<rparr>"
    using assms(2) by (auto simp: recordCouponRedemptionTx_def split: if_split_asm)
  have keys: "distinct (map rd_idempotencyKey (redemptions db'))" "distinct (map cp_id (coupons db'))"
    using assms(1) None by (auto simp: db' couponInv_def findRedemption_def findRow_None map_updateRows)
  have "cp_redemptionCount c = int (length (redemptionsOf (cp_id c) db'))" if "c \<in> set (coupons db')" for c
  proof -
    from that obtain c0 where c0: "c0 \<in> set (coupons db)"
      "c = (if cp_id c0 = rd_couponId r then countRedemption c0 else c0)"
      by (auto simp: db' set_updateRows)
    then have "cp_redemptionCount c0 = int (length (redemptionsOf (cp_id c0) db))"
      using assms(1) by (simp add: couponInv_def)
    then show ?thesis using c0(2) by (auto simp: db' redemptionsOf_def countRedemption_def)
  qed
  with keys show ?thesis by (simp add: couponInv_def)
qed

lemma recordCouponRedemption_money:
  "recordCouponRedemptionTx r db = Inr (x, db') \<Longrightarrow>
    wallets db' = wallets db \<and> ledger db' = ledger db \<and> journal db' = journal db \<and> CouponDb.more db' = CouponDb.more db"
  by (auto simp: recordCouponRedemptionTx_def split: option.split_asm if_split_asm)

end
