(* ===== verification/AdminCommand.thy ===== *)
theory AdminCommand
  imports Coupons
begin

text \<open>
  Administrative commands, \<open>src/lib/admin/command-receipt.ts\<close> and the eligibility of
  \<open>src/lib/admin/eligibility.ts\<close>: a command is normalised and fingerprinted, runs in one transaction
  for an eligible administrator, and leaves a receipt from which a repetition is answered. The list of admitted
  mobile numbers (\<open>ADMIN_MOBILES\<close>) and the digest are parameters.
\<close>

section \<open>Administrators and receipts\<close>

datatype UserRole = CUSTOMER | ADMIN

record AdminUserRow =
  au_id :: string
  au_role :: UserRole
  au_mobile :: string

definition isEligibleAdmin :: "string list \<Rightarrow> AdminUserRow \<Rightarrow> bool" where
  "isEligibleAdmin mobiles u \<longleftrightarrow> au_role u = ADMIN \<and> au_mobile u \<in> set mobiles"

definition effectiveUserRole :: "string list \<Rightarrow> AdminUserRow \<Rightarrow> UserRole" where
  "effectiveUserRole mobiles u = (if au_role u = ADMIN \<and> au_mobile u \<notin> set mobiles then CUSTOMER
     else if au_role u = ADMIN then ADMIN else CUSTOMER)"

record ReceiptRow =
  ar_operation :: string
  ar_idempotencyKey :: string
  ar_requestFingerprint :: string
  ar_actorUserId :: string
  ar_infrastructureOrderId :: "string option"
  ar_serviceOrderId :: "string option"
  ar_resultSnapshot :: jsval

record AdminDb = CouponDb +
  adminUsers :: "AdminUserRow list"
  receipts :: "ReceiptRow list"

record AdminCommandInput =
  ac_operation :: string
  ac_idempotencyKey :: string
  ac_actorUserId :: string
  ac_infrastructureOrderId :: "string option"
  ac_serviceOrderId :: "string option"
  ac_reason :: string
  ac_payload :: "(string \<times> jsval) list"

record AdminCommand = AdminCommandInput +
  ac_requestFingerprint :: string
  ac_receiptKey :: string

section \<open>Operations\<close>

definition isKeyChar :: "char \<Rightarrow> bool" where
  "isKeyChar c \<longleftrightarrow> (let n = (of_char c :: nat) in
     65 \<le> n \<and> n \<le> 90 \<or> 97 \<le> n \<and> n \<le> 122 \<or> 48 \<le> n \<and> n \<le> 57 \<or> n = 46 \<or> n = 95 \<or> n = 58 \<or> n = 45)"

definition isIdempotencyKey :: "string \<Rightarrow> bool" where
  "isIdempotencyKey s \<longleftrightarrow> 16 \<le> length s \<and> length s \<le> 128 \<and> list_all isKeyChar s"

definition optionText :: "string option \<Rightarrow> jsval" where
  "optionText x = (case x of None \<Rightarrow> JNull | Some s \<Rightarrow> JStr s)"

definition normalizeAdminCommand :: "(string \<Rightarrow> string) \<Rightarrow> AdminCommandInput \<Rightarrow> string + AdminCommand" where
  "normalizeAdminCommand digest i =
     (let reason = trim (ac_reason i) in
      if length reason < 3 \<or> length reason > 500 then Inl ''invalid_reason''
      else if \<not> isIdempotencyKey (ac_idempotencyKey i) then Inl ''invalid_idempotency_key''
      else bindE (idempotencyFingerprint digest (JObj
          [(''operation'', JStr (ac_operation i)), (''actorUserId'', JStr (ac_actorUserId i)),
           (''infrastructureOrderId'', optionText (ac_infrastructureOrderId i)),
           (''serviceOrderId'', optionText (ac_serviceOrderId i)), (''reason'', JStr reason),
           (''payload'', JObj (ac_payload i))])) (\<lambda>fingerprint.
        Inr (AdminCommandInput.extend (i\<lparr>ac_reason := reason\<rparr>)
          (AdminCommand.fields fingerprint (''admin-command:'' @ ac_idempotencyKey i)))))"

definition assertAdminActorTx :: "string list \<Rightarrow> string \<Rightarrow> 'a AdminDb_scheme \<Rightarrow> string + unit" where
  "assertAdminActorTx mobiles actorUserId db = (case findRow (\<lambda>u. au_id u = actorUserId) (adminUsers db) of
     None \<Rightarrow> Inl ''forbidden''
   | Some u \<Rightarrow> if isEligibleAdmin mobiles u then Inr () else Inl ''forbidden'')"

definition findReceipt :: "string \<Rightarrow> 'a AdminDb_scheme \<Rightarrow> ReceiptRow option" where
  "findReceipt key db = findRow (\<lambda>r. ar_idempotencyKey r = key) (receipts db)"

definition receiptMatches :: "ReceiptRow \<Rightarrow> AdminCommand \<Rightarrow> bool" where
  "receiptMatches r c \<longleftrightarrow> ar_operation r = ac_operation c \<and> ar_requestFingerprint r = ac_requestFingerprint c \<and>
     ar_actorUserId r = ac_actorUserId c \<and> ar_infrastructureOrderId r = ac_infrastructureOrderId c \<and>
     ar_serviceOrderId r = ac_serviceOrderId c"

text \<open>The snapshot of an earlier run, if any.\<close>

definition replayAdminCommandTx :: "AdminCommand \<Rightarrow> 'a AdminDb_scheme \<Rightarrow> string + jsval option" where
  "replayAdminCommandTx c db = (case findReceipt (ac_receiptKey c) db of
     None \<Rightarrow> Inr None
   | Some r \<Rightarrow> if receiptMatches r c then Inr (Some (ar_resultSnapshot r)) else Inl IdempotencyConflict)"

definition receiptOf :: "AdminCommand \<Rightarrow> jsval \<Rightarrow> ReceiptRow" where
  "receiptOf c snapshot = \<lparr>ar_operation = ac_operation c, ar_idempotencyKey = ac_receiptKey c,
     ar_requestFingerprint = ac_requestFingerprint c, ar_actorUserId = ac_actorUserId c,
     ar_infrastructureOrderId = ac_infrastructureOrderId c, ar_serviceOrderId = ac_serviceOrderId c,
     ar_resultSnapshot = snapshot\<rparr>"

definition persistAdminCommandReceiptTx ::
  "AdminCommand \<Rightarrow> jsval \<Rightarrow> 'a AdminDb_scheme \<Rightarrow> string + 'a AdminDb_scheme" where
  "persistAdminCommandReceiptTx c snapshot db =
     (if findReceipt (ac_receiptKey c) db \<noteq> None then Inl P2002
      else Inr (db\<lparr>receipts := receipts db @ [receiptOf c snapshot]\<rparr>))"

text \<open>The transaction every command runs: the actor, the replay, the command's own statements, the receipt.\<close>

definition adminCommandTx ::
  "string list \<Rightarrow> AdminCommand \<Rightarrow> ('a AdminDb_scheme \<Rightarrow> string + jsval \<times> 'a AdminDb_scheme) \<Rightarrow>
   'a AdminDb_scheme \<Rightarrow> string + jsval \<times> 'a AdminDb_scheme" where
  "adminCommandTx mobiles c body db =
     bindE (assertAdminActorTx mobiles (ac_actorUserId c) db) (\<lambda>_.
     bindE (replayAdminCommandTx c db) (\<lambda>replay. case replay of
       Some snapshot \<Rightarrow> Inr (snapshot, db)
     | None \<Rightarrow> bindE (body db) (\<lambda>(snapshot, db).
         bindE (persistAdminCommandReceiptTx c snapshot db) (\<lambda>db. Inr (snapshot, db)))))"

section \<open>Lemmas\<close>

lemma effective_admin: "effectiveUserRole mobiles u = ADMIN \<longleftrightarrow> isEligibleAdmin mobiles u"
  by (simp add: effectiveUserRole_def isEligibleAdmin_def)

lemma receiptMatches_own [simp]: "receiptMatches (receiptOf c snapshot) c"
  by (simp add: receiptMatches_def receiptOf_def)

text \<open>What the receipts remember of a command.\<close>

definition receiptAnswer :: "string list \<Rightarrow> AdminCommand \<Rightarrow> 'a AdminDb_scheme \<Rightarrow> jsval option" where
  "receiptAnswer mobiles c db = (if isOk (assertAdminActorTx mobiles (ac_actorUserId c) db)
     then (case replayAdminCommandTx c db of Inr (Some snapshot) \<Rightarrow> Some snapshot | _ \<Rightarrow> None) else None)"

lemma receiptAnswer_Some:
  "receiptAnswer mobiles c db = Some a \<longleftrightarrow>
     isOk (assertAdminActorTx mobiles (ac_actorUserId c) db) \<and> replayAdminCommandTx c db = Inr (Some a)"
  by (auto simp: receiptAnswer_def split: sum.split option.split)

lemma findReceipt_append:
  "receipts db' = receipts db @ rs \<Longrightarrow> findReceipt k db = Some r \<Longrightarrow> findReceipt k db' = Some r"
  by (simp add: findReceipt_def findRow_append)

lemma receiptAnswer_stable:
  assumes "receiptAnswer mobiles c db = Some a" and "adminUsers db' = adminUsers db"
    and "receipts db' = receipts db @ rs"
  shows "receiptAnswer mobiles c db' = Some a"
proof -
  have ok: "isOk (assertAdminActorTx mobiles (ac_actorUserId c) db)" and rp: "replayAdminCommandTx c db = Inr (Some a)"
    using assms(1) by (simp_all add: receiptAnswer_Some)
  then obtain r where r: "findReceipt (ac_receiptKey c) db = Some r" "receiptMatches r c" "ar_resultSnapshot r = a"
    by (auto simp: replayAdminCommandTx_def split: option.split_asm if_split_asm)
  have "findReceipt (ac_receiptKey c) db' = Some r" by (rule findReceipt_append [OF assms(3) r(1)])
  then have "replayAdminCommandTx c db' = Inr (Some a)" using r by (simp add: replayAdminCommandTx_def)
  moreover have "assertAdminActorTx mobiles (ac_actorUserId c) db' = assertAdminActorTx mobiles (ac_actorUserId c) db"
    using assms(2) by (simp add: assertAdminActorTx_def)
  ultimately show ?thesis using ok by (simp add: receiptAnswer_Some)
qed

lemma adminCommandTx_cases:
  assumes "adminCommandTx mobiles c body db = Inr (a, db')"
  obtains (replay) "db' = db" and "receiptAnswer mobiles c db = Some a"
    | (run) db1 where "body db = Inr (a, db1)" and "db' = db1\<lparr>receipts := receipts db1 @ [receiptOf c a]\<rparr>"
      and "findReceipt (ac_receiptKey c) db1 = None" and "isOk (assertAdminActorTx mobiles (ac_actorUserId c) db)"
proof -
  have ok: "isOk (assertAdminActorTx mobiles (ac_actorUserId c) db)"
    using assms by (auto simp: adminCommandTx_def bindE_eq_Inr isOk_iff)
  obtain rp where rp: "replayAdminCommandTx c db = Inr rp"
    using assms by (auto simp: adminCommandTx_def bindE_eq_Inr)
  show ?thesis
  proof (cases rp)
    case (Some snapshot)
    then have "db' = db" "a = snapshot" using assms rp by (auto simp: adminCommandTx_def bindE_eq_Inr)
    then show ?thesis using replay Some rp ok by (simp add: receiptAnswer_Some)
  next
    case None
    then obtain db1 where b: "body db = Inr (a, db1)" "persistAdminCommandReceiptTx c a db1 = Inr db'"
      using assms rp by (auto simp: adminCommandTx_def bindE_eq_Inr)
    then have "db' = db1\<lparr>receipts := receipts db1 @ [receiptOf c a]\<rparr>" "findReceipt (ac_receiptKey c) db1 = None"
      by (simp_all add: persistAdminCommandReceiptTx_def split: if_split_asm)
    then show ?thesis using run b(1) ok by blast
  qed
qed

lemma adminCommandTx_replays:
  assumes "receiptAnswer mobiles c db = Some a"
  shows "adminCommandTx mobiles c body db = Inr (a, db)"
  using assms by (auto simp: receiptAnswer_Some adminCommandTx_def isOk_iff)

text \<open>A command whose statements leave administrators and receipts alone runs at most once.\<close>

definition leavesReceipts :: "('a AdminDb_scheme \<Rightarrow> string + jsval \<times> 'a AdminDb_scheme) \<Rightarrow> bool" where
  "leavesReceipts body \<longleftrightarrow> (\<forall>db a db'. body db = Inr (a, db') \<longrightarrow> receipts db' = receipts db \<and> adminUsers db' = adminUsers db)"

lemma adminCommandTx_recorded:
  assumes "adminCommandTx mobiles c body db = Inr (a, db')" and "leavesReceipts body"
  shows "receiptAnswer mobiles c db' = Some a"
  using assms(1)
proof (cases rule: adminCommandTx_cases)
  case replay
  then show ?thesis by simp
next
  case (run db1)
  have keep: "receipts db1 = receipts db" "adminUsers db1 = adminUsers db"
    using run(1) assms(2) by (auto simp: leavesReceipts_def)
  have "findReceipt (ac_receiptKey c) db' = Some (receiptOf c a)"
    using run(2,3) by (simp add: findReceipt_def findRow_append receiptOf_def)
  then show ?thesis using run(2,4) keep
    by (simp add: receiptAnswer_Some replayAdminCommandTx_def assertAdminActorTx_def) (simp add: receiptOf_def)
qed

lemma adminCommandTx_stable:
  assumes "adminCommandTx mobiles' c' body db = Inr (b, db')" and "leavesReceipts body"
    and "receiptAnswer mobiles c db = Some a"
  shows "receiptAnswer mobiles c db' = Some a"
  using assms(1)
proof (cases rule: adminCommandTx_cases)
  case replay
  then show ?thesis using assms(3) by simp
next
  case (run db1)
  then show ?thesis
    using assms(2,3) receiptAnswer_stable [of mobiles c db a db' "[receiptOf c' b]"] by (auto simp: leavesReceipts_def)
qed

end
