(* ===== verification/TopUp.thy ===== *)
theory TopUp
  imports AdminCommand Posting
begin

text \<open>
  Wallet top-ups, \<open>src/lib/wallet/topup.ts\<close> with the limits of \<open>topup-limits.ts\<close>: the intent and its
  payment attempts at a gateway, the persistence of what the gateway answered, retries, the verification of a payment
  with its three ends (credit, definite failure, review), and the callback. Every transaction of the source is one
  function on the database; a handler is a sequence of them, and a \<open>Session\<close> says what other sessions commit
  before each of its transactions and which of them the database aborts. What the gateway answers is an argument.
  Instants are milliseconds since 1970. Display texts and the gateway configuration snapshot are not modelled.
\<close>

section \<open>Tables\<close>

datatype PaymentGatewayProvider = ZIBAL | ZARINPAL | MOCK
datatype TopUpStatus = TU_CREATED | TU_PENDING | TU_SUCCEEDED | TU_FAILED | TU_CANCELED | TU_EXPIRED
datatype PaymentAttemptStatus =
  PA_CREATED | PA_PENDING | PA_SUCCEEDED | PA_REVIEW | PA_FAILED | PA_CANCELED | PA_EXPIRED
datatype PaymentReviewStatus = PR_OPEN | PR_RECONCILING | PR_RESOLVED | PR_DEFINITIVELY_FAILED | PR_REFUND_REVIEW
datatype ControlledRefundStatus = CR_REQUESTED | CR_REVIEW_REQUIRED | CR_APPROVED | CR_COMPLETED | CR_REJECTED

record TopUpRow =
  tu_id :: string
  tu_walletId :: string
  tu_amount :: int
  tu_gateway :: PaymentGatewayProvider
  tu_status :: TopUpStatus
  tu_authority :: "string option"
  tu_gatewayReference :: "string option"
  tu_idempotencyKey :: string
  tu_callbackTokenHash :: string
  tu_failureCode :: "string option"
  tu_createdAt :: int
  tu_verifiedAt :: "int option"
  tu_expiresAt :: int
  tu_purchaseOrderId :: "string option"
  tu_requestFingerprint :: "string option"
  tu_redirectUrl :: "string option"
  tu_couponCode :: "string option"
  tu_bonusRialSnapshot :: "int option"

record AttemptRow =
  pa_id :: string
  pa_walletTopUpId :: string
  pa_attemptNumber :: int
  pa_amount :: int
  pa_currency :: string
  pa_gateway :: PaymentGatewayProvider
  pa_status :: PaymentAttemptStatus
  pa_authority :: "string option"
  pa_gatewayReference :: "string option"
  pa_callbackTokenHash :: string
  pa_expiresAt :: int
  pa_verifiedAt :: "int option"
  pa_nextReconcileAt :: "int option"
  pa_verificationAttempts :: int
  pa_failureCode :: "string option"
  pa_idempotencyKey :: string
  pa_redirectUrl :: "string option"

record RecoveryRow =
  pr_walletTopUpId :: string
  pr_attemptId :: string
  pr_status :: PaymentReviewStatus
  pr_reasonCode :: string
  pr_expectedAmount :: int
  pr_observedAmount :: "int option"
  pr_expectedCurrency :: string
  pr_observedCurrency :: "string option"
  pr_nextAttemptAt :: "int option"
  pr_resolvedAt :: "int option"

record RefundRow =
  rf_id :: string
  rf_walletTopUpId :: string
  rf_requestedById :: string
  rf_reviewedById :: string
  rf_amount :: int
  rf_status :: ControlledRefundStatus
  rf_reviewReason :: string
  rf_ledgerEntryId :: "string option"
  rf_gatewayRefundReference :: "string option"
  rf_idempotencyKey :: string
  rf_requestedAt :: int

record RecoveryActionRow =
  ra_attemptId :: string
  ra_actorUserId :: string
  ra_action :: string
  ra_resultCode :: string
  ra_idempotencyKey :: string

record PurchaseOrderRow =
  po_id :: string
  po_userId :: string
  po_status :: string
  po_amount :: int
  po_quoteId :: "string option"

text \<open>The currency column of the wallets is a function of the wallet's id.\<close>

record PaymentDb = AdminDb +
  topUps :: "TopUpRow list"
  attempts :: "AttemptRow list"
  recoveryCases :: "RecoveryRow list"
  refundRows :: "RefundRow list"
  recoveryActions :: "RecoveryActionRow list"
  purchaseOrders :: "PurchaseOrderRow list"
  walletCurrency :: "string \<Rightarrow> string"

definition MIN_TOPUP_TOMAN :: int where "MIN_TOPUP_TOMAN = 50000"
definition MAX_TOPUP_TOMAN :: int where "MAX_TOPUP_TOMAN = 50000000"
definition TOPUP_TTL_MS :: int where "TOPUP_TTL_MS = 30 * 60 * 1000"

definition calculateWalletShortfallRial :: "int \<Rightarrow> int \<Rightarrow> int" where
  "calculateWalletShortfallRial orderAmount availableBalance =
     (let shortfall = orderAmount - availableBalance in if shortfall > 0 then shortfall else 0)"

text \<open>The amounts the administrator suggests: four different ones within the limits, in ascending order.\<close>

definition normalizeSuggestedAmounts :: "jsval \<Rightarrow> string + int list" where
  "normalizeSuggestedAmounts raw = (case raw of
     JArr xs \<Rightarrow>
      (let rs = map assertPositiveIntegerToman xs;
           amounts = concat (map (\<lambda>r. case r of Inl _ \<Rightarrow> [] | Inr a \<Rightarrow> [a]) rs) in
       if length xs \<noteq> 4 \<or> \<not> list_all isOk rs
          \<or> list_ex (\<lambda>a. a < MIN_TOPUP_TOMAN \<or> a > MAX_TOPUP_TOMAN) amounts \<or> \<not> distinct amounts
       then Inl ''invalid_suggestions''
       else Inr (sortBy (\<lambda>a b. a - b) amounts))
   | _ \<Rightarrow> Inl ''invalid_suggestions'')"

interpretation amount_order: comparator "\<lambda>a b :: int. a - b"
  by unfold_locales auto

lemma ok_amounts:
  "list_all isOk rs \<Longrightarrow> length (concat (map (\<lambda>r. case r of Inl _ \<Rightarrow> [] | Inr a \<Rightarrow> [a]) rs)) = length rs"
  by (induction rs) (auto simp: isOk_def split: sum.splits)

lemma normalizeSuggestedAmounts_sound:
  assumes "normalizeSuggestedAmounts raw = Inr amounts"
  shows "length amounts = 4" and "sorted_wrt (<) amounts"
    and "\<forall>a \<in> set amounts. MIN_TOPUP_TOMAN \<le> a \<and> a \<le> MAX_TOPUP_TOMAN"
proof -
  obtain xs where x: "raw = JArr xs" using assms by (cases raw) (simp_all add: normalizeSuggestedAmounts_def)
  let ?rs = "map assertPositiveIntegerToman xs"
  let ?as = "concat (map (\<lambda>r. case r of Inl _ \<Rightarrow> [] | Inr a \<Rightarrow> [a]) ?rs)"
  have ok: "length xs = 4" "list_all isOk ?rs" "\<not> list_ex (\<lambda>a. a < MIN_TOPUP_TOMAN \<or> a > MAX_TOPUP_TOMAN) ?as"
    "distinct ?as" "amounts = sortBy (\<lambda>a b. a - b) ?as"
    using assms by (simp_all add: normalizeSuggestedAmounts_def x Let_def split: if_split_asm)
  show "length amounts = 4" using ok_amounts [OF ok(2)] ok(1,5) by simp
  show "\<forall>a \<in> set amounts. MIN_TOPUP_TOMAN \<le> a \<and> a \<le> MAX_TOPUP_TOMAN"
    using ok(3) unfolding ok(5) set_sortBy by (auto simp: list_ex_iff not_less)
  have "sorted_wrt (\<lambda>a b. a - b \<le> 0) amounts" unfolding ok(5) by (rule amount_order.sortBy_sorted)
  moreover have "distinct amounts" using ok(4,5) by simp
  ultimately show "sorted_wrt (<) amounts"
  proof (induction amounts)
    case (Cons a as)
    then have "a < x" if "x \<in> set as" for x using that by (auto simp: order.strict_iff_order)
    then show ?case using Cons by simp
  qed simp
qed

definition NON_EXPIRABLE :: "PaymentAttemptStatus list" where
  "NON_EXPIRABLE = [PA_SUCCEEDED, PA_FAILED, PA_CANCELED]"

definition RETRYABLE :: "PaymentAttemptStatus list" where
  "RETRYABLE = [PA_FAILED, PA_CANCELED, PA_EXPIRED]"

definition TERMINAL_VERIFY_CODES :: "string list" where
  "TERMINAL_VERIFY_CODES = [''canceled'', ''failed'', ''invalid_authority'']"

definition TRANSIENT_VERIFY_CODES :: "string list" where
  "TRANSIENT_VERIFY_CODES = [''configuration'', ''gateway_unavailable'', ''http_error'', ''invalid_json'',
     ''invalid_response'', ''network'', ''provider_error'', ''timeout'', ''verify_failed'']"

definition hashCallbackToken :: "(string \<Rightarrow> string) \<Rightarrow> string \<Rightarrow> string \<Rightarrow> string" where
  "hashCallbackToken digest secret token = digest (secret @ '':'' @ token)"

definition nextReconcileAt :: "int \<Rightarrow> int" where
  "nextReconcileAt now = now + 5 * 60 * 1000"

section \<open>Statements\<close>

definition findTopUp :: "string \<Rightarrow> PaymentDb \<Rightarrow> TopUpRow option" where
  "findTopUp tid db = findRow (\<lambda>t. tu_id t = tid) (topUps db)"

definition findAttempt :: "string \<Rightarrow> PaymentDb \<Rightarrow> AttemptRow option" where
  "findAttempt aid db = findRow (\<lambda>a. pa_id a = aid) (attempts db)"

definition sharedKey :: "string option \<Rightarrow> string option \<Rightarrow> bool" where
  "sharedKey x y \<longleftrightarrow> x \<noteq> None \<and> x = y"

text \<open>Two different rows that violate a unique constraint.\<close>

definition topUpClash :: "TopUpRow \<Rightarrow> TopUpRow \<Rightarrow> bool" where
  "topUpClash a b \<longleftrightarrow> sharedKey (tu_authority a) (tu_authority b) \<or>
     sharedKey (tu_gatewayReference a) (tu_gatewayReference b) \<or> tu_idempotencyKey a = tu_idempotencyKey b"

definition attemptClash :: "AttemptRow \<Rightarrow> AttemptRow \<Rightarrow> bool" where
  "attemptClash a b \<longleftrightarrow> sharedKey (pa_authority a) (pa_authority b) \<or>
     sharedKey (pa_gatewayReference a) (pa_gatewayReference b) \<or> pa_idempotencyKey a = pa_idempotencyKey b \<or>
     pa_walletTopUpId a = pa_walletTopUpId b \<and> pa_attemptNumber a = pa_attemptNumber b"

definition insertTopUp :: "TopUpRow \<Rightarrow> PaymentDb \<Rightarrow> string + PaymentDb" where
  "insertTopUp t db = (if \<exists>x \<in> set (topUps db). tu_id x = tu_id t \<or> topUpClash t x then Inl P2002
     else Inr (db\<lparr>topUps := topUps db @ [t]\<rparr>))"

definition insertAttempt :: "AttemptRow \<Rightarrow> PaymentDb \<Rightarrow> string + PaymentDb" where
  "insertAttempt a db = (if \<exists>x \<in> set (attempts db). pa_id x = pa_id a \<or> attemptClash a x then Inl P2002
     else Inr (db\<lparr>attempts := attempts db @ [a]\<rparr>))"

text \<open>Updates of one row: \<open>set\<close> for columns without a constraint, \<open>update\<close> where a unique column
  changes; the latter return the new row.\<close>

definition setTopUp :: "string \<Rightarrow> (TopUpRow \<Rightarrow> TopUpRow) \<Rightarrow> PaymentDb \<Rightarrow> PaymentDb" where
  "setTopUp tid f db = db\<lparr>topUps := updateRows (\<lambda>t. tu_id t = tid) f (topUps db)\<rparr>"

definition setAttempt :: "string \<Rightarrow> (AttemptRow \<Rightarrow> AttemptRow) \<Rightarrow> PaymentDb \<Rightarrow> PaymentDb" where
  "setAttempt aid f db = db\<lparr>attempts := updateRows (\<lambda>a. pa_id a = aid) f (attempts db)\<rparr>"

definition updateTopUp :: "string \<Rightarrow> (TopUpRow \<Rightarrow> TopUpRow) \<Rightarrow> PaymentDb \<Rightarrow> string + TopUpRow \<times> PaymentDb" where
  "updateTopUp tid f db = (case findTopUp tid db of None \<Rightarrow> Inl P2025
     | Some t \<Rightarrow> if \<exists>x \<in> set (topUps db). tu_id x \<noteq> tid \<and> topUpClash (f t) x then Inl P2002
                else Inr (f t, setTopUp tid f db))"

definition updateAttempt ::
  "string \<Rightarrow> (AttemptRow \<Rightarrow> AttemptRow) \<Rightarrow> PaymentDb \<Rightarrow> string + AttemptRow \<times> PaymentDb" where
  "updateAttempt aid f db = (case findAttempt aid db of None \<Rightarrow> Inl P2025
     | Some a \<Rightarrow> if \<exists>x \<in> set (attempts db). pa_id x \<noteq> aid \<and> attemptClash (f a) x then Inl P2002
                else Inr (f a, setAttempt aid f db))"

definition latestAttempt :: "string \<Rightarrow> PaymentDb \<Rightarrow> AttemptRow option" where
  "latestAttempt tid db = (case sortBy (\<lambda>a b. pa_attemptNumber b - pa_attemptNumber a)
       (filter (\<lambda>a. pa_walletTopUpId a = tid) (attempts db)) of [] \<Rightarrow> None | a # _ \<Rightarrow> Some a)"

section \<open>Sessions\<close>

text \<open>What other sessions commit before the k-th transaction of a handler, and whether the database aborts it.\<close>

record Session =
  ss_others :: "nat \<Rightarrow> PaymentDb \<Rightarrow> PaymentDb"
  ss_aborted :: "nat \<Rightarrow> bool"

definition SerializationFailure :: string where "SerializationFailure = ''P2034''"

definition runTx :: "Session \<Rightarrow> nat \<Rightarrow> (PaymentDb \<Rightarrow> string + 'a \<times> PaymentDb) \<Rightarrow> PaymentDb \<Rightarrow> (string + 'a) \<times> PaymentDb" where
  "runTx s k tx db = (let db = ss_others s k db in
     case (if ss_aborted s k then Inl SerializationFailure else tx db) of
       Inl e \<Rightarrow> (Inl e, db) | Inr (x, db') \<Rightarrow> (Inr x, db'))"

definition retryableError :: "string \<Rightarrow> bool" where
  "retryableError e \<longleftrightarrow> e \<in> {SerializationFailure, P2002, ''40001''}"

fun retryTx :: "Session \<Rightarrow> nat \<Rightarrow> nat \<Rightarrow> (PaymentDb \<Rightarrow> string + 'a \<times> PaymentDb) \<Rightarrow> PaymentDb \<Rightarrow> (string + 'a) \<times> PaymentDb" where
  "retryTx s k 0 tx db = (Inl ''undefined'', db)"
| "retryTx s k (Suc left) tx db = (case runTx s k tx db of
     (Inl e, db') \<Rightarrow> if retryableError e \<and> left \<noteq> 0 then retryTx s (k + 1) left tx db' else (Inl e, db')
   | (Inr x, db') \<Rightarrow> (Inr x, db'))"

definition withSerializableRetry ::
  "Session \<Rightarrow> nat \<Rightarrow> (PaymentDb \<Rightarrow> string + 'a \<times> PaymentDb) \<Rightarrow> PaymentDb \<Rightarrow> (string + 'a) \<times> PaymentDb" where
  "withSerializableRetry s k tx db = retryTx s k 3 tx db"

section \<open>The external payment of an attempt\<close>

record CreatedPayment =
  cr_authority :: string
  cr_redirectUrl :: string
  cr_gatewayReference :: "string option"

record PendingPayment =
  pp_topUpId :: string
  pp_attemptId :: string
  pp_gateway :: PaymentGatewayProvider
  pp_amount :: int
  pp_callbackToken :: string

record IntentAnswer =
  ia_topUp :: TopUpRow
  ia_attempt :: "AttemptRow option"
  ia_redirectUrl :: string
  ia_callbackToken :: "string option"

definition paymentReference :: "CreatedPayment \<Rightarrow> string" where
  "paymentReference p = (case cr_gatewayReference p of None \<Rightarrow> cr_authority p | Some r \<Rightarrow> r)"

text \<open>The gateway refused: attempt and top-up fail unless they have succeeded.\<close>

definition failCreation :: "string \<Rightarrow> string \<Rightarrow> string \<Rightarrow> PaymentDb \<Rightarrow> PaymentDb" where
  "failCreation aid tid code db = db\<lparr>
     attempts := updateRows (\<lambda>a. pa_id a = aid \<and> pa_status a \<noteq> PA_SUCCEEDED)
       (\<lambda>a. a\<lparr>pa_status := PA_FAILED, pa_failureCode := Some code\<rparr>) (attempts db),
     topUps := updateRows (\<lambda>t. tu_id t = tid \<and> tu_status t \<noteq> TU_SUCCEEDED)
       (\<lambda>t. t\<lparr>tu_status := TU_FAILED, tu_failureCode := Some code\<rparr>) (topUps db)\<rparr>"

definition attemptPersisted :: "PaymentAttemptStatus \<Rightarrow> CreatedPayment \<Rightarrow> AttemptRow \<Rightarrow> AttemptRow" where
  "attemptPersisted st p a = a\<lparr>pa_status := st, pa_authority := Some (cr_authority p),
     pa_gatewayReference := Some (paymentReference p), pa_redirectUrl := Some (cr_redirectUrl p)\<rparr>"

definition topUpPersisted :: "CreatedPayment \<Rightarrow> string option \<Rightarrow> TopUpRow \<Rightarrow> TopUpRow" where
  "topUpPersisted p failure t = t\<lparr>tu_status := TU_PENDING, tu_authority := Some (cr_authority p),
     tu_gatewayReference := Some (paymentReference p), tu_redirectUrl := Some (cr_redirectUrl p),
     tu_failureCode := failure\<rparr>"

definition persistPayment ::
  "PendingPayment \<Rightarrow> CreatedPayment \<Rightarrow> PaymentDb \<Rightarrow> string + IntentAnswer \<times> PaymentDb" where
  "persistPayment pp p db =
     bindE (updateAttempt (pp_attemptId pp) (attemptPersisted PA_PENDING p) db) (\<lambda>(a, db).
     bindE (updateTopUp (pp_topUpId pp) (\<lambda>t. (topUpPersisted p None t)\<lparr>tu_gateway := pp_gateway pp\<rparr>) db) (\<lambda>(t, db).
     Inr (\<lparr>ia_topUp = t, ia_attempt = Some a, ia_redirectUrl = cr_redirectUrl p,
           ia_callbackToken = Some (pp_callbackToken pp)\<rparr>, db)))"

definition PersistFailed :: string where "PersistFailed = ''payment_intent_persist_failed''"

definition openCase :: "AttemptRow \<Rightarrow> string \<Rightarrow> int option \<Rightarrow> string option \<Rightarrow> int option \<Rightarrow> RecoveryRow" where
  "openCase a reason observed currency next = \<lparr>pr_walletTopUpId = pa_walletTopUpId a, pr_attemptId = pa_id a,
     pr_status = PR_OPEN, pr_reasonCode = reason, pr_expectedAmount = pa_amount a, pr_observedAmount = observed,
     pr_expectedCurrency = pa_currency a, pr_observedCurrency = currency, pr_nextAttemptAt = next,
     pr_resolvedAt = None\<rparr>"

definition persistForReview :: "PendingPayment \<Rightarrow> CreatedPayment \<Rightarrow> int \<Rightarrow> PaymentDb \<Rightarrow> string + unit \<times> PaymentDb" where
  "persistForReview pp p now db =
     bindE (updateAttempt (pp_attemptId pp) (\<lambda>a. (attemptPersisted PA_REVIEW p a)\<lparr>pa_failureCode := Some PersistFailed,
       pa_nextReconcileAt := Some (nextReconcileAt now)\<rparr>) db) (\<lambda>(a, db).
     bindE (case findTopUp (pp_topUpId pp) db of None \<Rightarrow> Inr db
        | Some t \<Rightarrow> if tu_status t = TU_SUCCEEDED then Inr db
            else bindE (updateTopUp (pp_topUpId pp) (topUpPersisted p (Some PersistFailed)) db) (\<lambda>(_, db). Inr db)) (\<lambda>db.
     Inr ((), db\<lparr>recoveryCases := upsertRow pr_attemptId
        ((openCase a PersistFailed None None (Some (nextReconcileAt now)))\<lparr>pr_walletTopUpId := pp_topUpId pp,
          pr_expectedAmount := pp_amount pp, pr_expectedCurrency := ''IRR''\<rparr>)
        (\<lambda>r. r\<lparr>pr_status := PR_OPEN, pr_reasonCode := PersistFailed, pr_nextAttemptAt := Some (nextReconcileAt now),
          pr_resolvedAt := None\<rparr>) (recoveryCases db)\<rparr>)))"

text \<open>Transactions 10 to 12 of the handlers that start a payment. The gateway answers with the code of its error or
  with a payment.\<close>

definition createExternalPayment ::
  "Session \<Rightarrow> string + CreatedPayment \<Rightarrow> int \<Rightarrow> PendingPayment \<Rightarrow> PaymentDb \<Rightarrow> (string + IntentAnswer) \<times> PaymentDb" where
  "createExternalPayment s answer now pp db = (case answer of
     Inl code \<Rightarrow> (case runTx s 10 (\<lambda>db. Inr ((), failCreation (pp_attemptId pp) (pp_topUpId pp) code db)) db of
         (Inl e, db) \<Rightarrow> (Inl e, db) | (Inr _, db) \<Rightarrow> (Inl code, db))
   | Inr p \<Rightarrow> (case runTx s 11 (persistPayment pp p) db of
         (Inr ans, db) \<Rightarrow> (Inr ans, db)
       | (Inl _, db) \<Rightarrow> (Inl ''payment_intent_reconciliation_required'', snd (runTx s 12 (persistForReview pp p now) db))))"

section \<open>Intents\<close>

record IntentIds =
  ii_wallet :: string
  ii_topUp :: string
  ii_attempt :: string

text \<open>The idempotency key is the caller's or a generated one.\<close>

record TopUpIntentOptions =
  io_idempotencyKey :: string
  io_purchaseOrderId :: "string option"
  io_requestFingerprint :: "string option"
  io_couponCode :: "string option"
  io_bonusRialSnapshot :: "int option"

text \<open>The server's secrets, and the default gateway or the code of the error its resolution throws.\<close>

record PaymentEnv =
  pe_digest :: "string \<Rightarrow> string"
  pe_secret :: string
  pe_gateway :: "string + PaymentGatewayProvider"

definition replayIntent :: "WalletRow \<Rightarrow> int \<Rightarrow> TopUpIntentOptions \<Rightarrow> TopUpRow \<Rightarrow> PaymentDb \<Rightarrow> string + IntentAnswer" where
  "replayIntent w amount opts replay db =
     (if tu_walletId replay \<noteq> w_id w \<or> tu_amount replay \<noteq> amount
         \<or> tu_purchaseOrderId replay \<noteq> io_purchaseOrderId opts
         \<or> tu_requestFingerprint replay \<noteq> io_requestFingerprint opts \<or> tu_couponCode replay \<noteq> io_couponCode opts
      then Inl ''idempotency_conflict''
      else let latest = latestAttempt (tu_id replay) db;
               url = (case latest of None \<Rightarrow> None | Some a \<Rightarrow> pa_redirectUrl a) in
      if (url = None \<or> url = Some '''') \<and> tu_status replay \<noteq> TU_SUCCEEDED then Inl ''request_in_progress''
      else Inr \<lparr>ia_topUp = replay, ia_attempt = latest,
        ia_redirectUrl = (case url of Some u \<Rightarrow> u | None \<Rightarrow> (case tu_redirectUrl replay of Some u \<Rightarrow> u | None \<Rightarrow> '''')),
        ia_callbackToken = None\<rparr>)"

definition newTopUp ::
  "string \<Rightarrow> string \<Rightarrow> int \<Rightarrow> PaymentGatewayProvider \<Rightarrow> string \<Rightarrow> int \<Rightarrow> TopUpIntentOptions \<Rightarrow> TopUpRow" where
  "newTopUp newId walletId amount gateway tokenHash now opts = \<lparr>tu_id = newId, tu_walletId = walletId,
     tu_amount = amount, tu_gateway = gateway, tu_status = TU_CREATED, tu_authority = None, tu_gatewayReference = None,
     tu_idempotencyKey = io_idempotencyKey opts, tu_callbackTokenHash = tokenHash, tu_failureCode = None,
     tu_createdAt = now, tu_verifiedAt = None, tu_expiresAt = now + TOPUP_TTL_MS,
     tu_purchaseOrderId = io_purchaseOrderId opts, tu_requestFingerprint = io_requestFingerprint opts,
     tu_redirectUrl = None, tu_couponCode = io_couponCode opts, tu_bonusRialSnapshot = io_bonusRialSnapshot opts\<rparr>"

definition newAttempt ::
  "string \<Rightarrow> string \<Rightarrow> int \<Rightarrow> int \<Rightarrow> PaymentGatewayProvider \<Rightarrow> string \<Rightarrow> int \<Rightarrow> string \<Rightarrow> AttemptRow" where
  "newAttempt newId tid number amount gateway tokenHash now key = \<lparr>pa_id = newId, pa_walletTopUpId = tid,
     pa_attemptNumber = number, pa_amount = amount, pa_currency = ''IRR'', pa_gateway = gateway,
     pa_status = PA_CREATED, pa_authority = None, pa_gatewayReference = None, pa_callbackTokenHash = tokenHash,
     pa_expiresAt = now + TOPUP_TTL_MS, pa_verifiedAt = None, pa_nextReconcileAt = None,
     pa_verificationAttempts = 0, pa_failureCode = None, pa_idempotencyKey = key, pa_redirectUrl = None\<rparr>"

definition openTopUp ::
  "IntentIds \<Rightarrow> string \<Rightarrow> int \<Rightarrow> PaymentGatewayProvider \<Rightarrow> string \<Rightarrow> int \<Rightarrow> TopUpIntentOptions \<Rightarrow> PaymentDb \<Rightarrow>
   string + unit \<times> PaymentDb" where
  "openTopUp ids walletId amount gateway tokenHash now opts db =
     bindE (insertTopUp (newTopUp (ii_topUp ids) walletId amount gateway tokenHash now opts) db) (\<lambda>db.
     bindE (insertAttempt (newAttempt (ii_attempt ids) (ii_topUp ids) 1 amount gateway tokenHash now
       (''payment-attempt:'' @ ii_topUp ids @ '':1'')) db) (\<lambda>db. Inr ((), db)))"

text \<open>Transaction 0 ensures the wallet and looks the key up, transaction 1 creates the rows.\<close>

definition createTopUpIntentRial ::
  "PaymentEnv \<Rightarrow> Session \<Rightarrow> IntentIds \<Rightarrow> string \<Rightarrow> string + CreatedPayment \<Rightarrow> int \<Rightarrow> string \<Rightarrow> int \<Rightarrow>
   TopUpIntentOptions \<Rightarrow> PaymentDb \<Rightarrow> (string + IntentAnswer) \<times> PaymentDb" where
  "createTopUpIntentRial env s ids token answer now userId amount opts db =
     (if amount \<le> 0 \<or> amount > MAX_TOPUP_TOMAN * 10 then (Inl ''amount_out_of_range'', db)
      else case runTx s 0 (ensureWalletForUser userId (ii_wallet ids)) db of
        (Inl e, db) \<Rightarrow> (Inl e, db)
      | (Inr w, db) \<Rightarrow>
        (case findRow (\<lambda>t. tu_idempotencyKey t = io_idempotencyKey opts) (topUps db) of
           Some replay \<Rightarrow> (replayIntent w amount opts replay db, db)
         | None \<Rightarrow>
           (case pe_gateway env of Inl e \<Rightarrow> (Inl e, db)
            | Inr gateway \<Rightarrow>
              (case runTx s 1 (openTopUp ids (w_id w) amount gateway
                  (hashCallbackToken (pe_digest env) (pe_secret env) token) now opts) db of
                 (Inl e, db) \<Rightarrow> (Inl e, db)
               | (Inr _, db) \<Rightarrow> createExternalPayment s answer now \<lparr>pp_topUpId = ii_topUp ids,
                   pp_attemptId = ii_attempt ids, pp_gateway = gateway, pp_amount = amount, pp_callbackToken = token\<rparr> db))))"

text \<open>A code that does not normalise is dropped silently.\<close>

definition createTopUpIntent ::
  "PaymentEnv \<Rightarrow> Session \<Rightarrow> IntentIds \<Rightarrow> string \<Rightarrow> string + CreatedPayment \<Rightarrow> int \<Rightarrow> string \<Rightarrow> jsval \<Rightarrow>
   string option \<Rightarrow> string \<Rightarrow> PaymentDb \<Rightarrow> (string + IntentAnswer) \<times> PaymentDb" where
  "createTopUpIntent env s ids token answer now userId amountToman coupon key db =
     (case bindE (assertPositiveIntegerToman amountToman) (\<lambda>toman.
         if toman < MIN_TOPUP_TOMAN \<or> toman > MAX_TOPUP_TOMAN then Inl ''amount_out_of_range''
         else bindE (tomanToRial toman) (\<lambda>amount.
           case (case coupon of None \<Rightarrow> None | Some c \<Rightarrow> if c = '''' then None else normalizeCouponCode (JStr c)) of
             None \<Rightarrow> Inr (amount, None, None)
           | Some code \<Rightarrow> bindE (resolveWalletBonusCoupon code userId amount now db)
               (\<lambda>c. Inr (amount, Some code, cp_bonusRial c)))) of
       Inl e \<Rightarrow> (Inl e, db)
     | Inr (amount, code, bonus) \<Rightarrow> createTopUpIntentRial env s ids token answer now userId amount
         \<lparr>io_idempotencyKey = key, io_purchaseOrderId = None, io_requestFingerprint = None, io_couponCode = code,
          io_bonusRialSnapshot = bonus\<rparr> db)"

definition shortfallFingerprint :: "(string \<Rightarrow> string) \<Rightarrow> string \<Rightarrow> string \<Rightarrow> int \<Rightarrow> string" where
  "shortfallFingerprint digest userId orderId amount = digest (''{'' @ jsonString ''userId'' @ '':'' @ jsonString userId
     @ '','' @ jsonString ''orderId'' @ '':'' @ jsonString orderId
     @ '','' @ jsonString ''amountRial'' @ '':'' @ jsonString (jsNumberText amount) @ ''}'')"

text \<open>Transaction 20 ensures the wallet.\<close>

definition createPurchaseShortfallTopUpIntent ::
  "PaymentEnv \<Rightarrow> Session \<Rightarrow> IntentIds \<Rightarrow> string \<Rightarrow> string + CreatedPayment \<Rightarrow> int \<Rightarrow> string \<Rightarrow> string \<Rightarrow> string \<Rightarrow>
   PaymentDb \<Rightarrow> (string + IntentAnswer) \<times> PaymentDb" where
  "createPurchaseShortfallTopUpIntent env s ids token answer now userId orderId key db =
     (if \<not> isIdempotencyKey key then (Inl ''invalid_idempotency_key'', db)
      else case runTx s 20 (ensureWalletForUser userId (ii_wallet ids)) db of
        (Inl e, db) \<Rightarrow> (Inl e, db)
      | (Inr w, db) \<Rightarrow>
        (case findRow (\<lambda>p. po_id p = orderId \<and> po_userId p = userId \<and> po_status p = ''PENDING_PAYMENT'') (purchaseOrders db) of
           None \<Rightarrow> (Inl ''invalid_order'', db)
         | Some p \<Rightarrow>
           if po_quoteId p = None \<or> po_quoteId p = Some '''' then (Inl ''invalid_order'', db)
           else let shortfall = calculateWalletShortfallRial (po_amount p) (w_availableBalance w) in
           if shortfall \<le> 0 then (Inl ''topup_not_required'', db)
           else createTopUpIntentRial env s ids token answer now userId shortfall
             \<lparr>io_idempotencyKey = key, io_purchaseOrderId = Some (po_id p),
              io_requestFingerprint = Some (shortfallFingerprint (pe_digest env) userId (po_id p) shortfall),
              io_couponCode = None, io_bonusRialSnapshot = None\<rparr> db))"

section \<open>Another attempt\<close>

definition topUpReopened :: "PaymentGatewayProvider \<Rightarrow> string \<Rightarrow> int \<Rightarrow> TopUpRow \<Rightarrow> TopUpRow" where
  "topUpReopened gateway tokenHash now t = t\<lparr>tu_gateway := gateway, tu_callbackTokenHash := tokenHash,
     tu_expiresAt := now + TOPUP_TTL_MS, tu_status := TU_CREATED, tu_authority := None, tu_gatewayReference := None,
     tu_redirectUrl := None, tu_failureCode := None\<rparr>"

definition ownsTopUp :: "string \<Rightarrow> TopUpRow \<Rightarrow> PaymentDb \<Rightarrow> bool" where
  "ownsTopUp userId t db \<longleftrightarrow> (case findWallet (tu_walletId t) db of None \<Rightarrow> False | Some w \<Rightarrow> w_userId w = userId)"

text \<open>The latest attempt expires when its time is over and it has not ended.\<close>

definition expireAttempt :: "int \<Rightarrow> AttemptRow \<Rightarrow> PaymentDb \<Rightarrow> AttemptRow \<times> PaymentDb" where
  "expireAttempt now a db = (if pa_expiresAt a \<le> now \<and> pa_status a \<notin> set NON_EXPIRABLE
     then (a\<lparr>pa_status := PA_EXPIRED\<rparr>,
       setAttempt (pa_id a) (\<lambda>a. a\<lparr>pa_status := PA_EXPIRED, pa_failureCode := Some ''expired''\<rparr>) db)
     else (a, db))"

definition expireLatest :: "int \<Rightarrow> string \<Rightarrow> PaymentDb \<Rightarrow> AttemptRow option \<times> PaymentDb" where
  "expireLatest now tid db = (case latestAttempt tid db of None \<Rightarrow> (None, db)
     | Some a \<Rightarrow> (let (a, db) = expireAttempt now a db in (Some a, db)))"

definition reopenTx ::
  "string \<Rightarrow> string \<Rightarrow> string \<Rightarrow> PaymentGatewayProvider \<Rightarrow> string \<Rightarrow> int \<Rightarrow> string \<Rightarrow> PaymentDb \<Rightarrow>
   string + TopUpRow \<times> PaymentDb" where
  "reopenTx newId userId tid gateway tokenHash now key db = (case findTopUp tid db of
     None \<Rightarrow> Inl ''topup_not_found''
   | Some t \<Rightarrow>
     if \<not> ownsTopUp userId t db then Inl ''topup_not_found''
     else if tu_status t = TU_SUCCEEDED then Inl ''topup_already_succeeded''
     else let (latest, db) = expireLatest now tid db in
     if (case latest of None \<Rightarrow> False | Some a \<Rightarrow> pa_status a \<notin> set RETRYABLE) then Inl ''attempt_not_retryable''
     else let number = (case latest of None \<Rightarrow> 0 | Some a \<Rightarrow> pa_attemptNumber a) + 1 in
     bindE (insertAttempt (newAttempt newId tid number (tu_amount t) gateway tokenHash now key) db) (\<lambda>db.
     Inr (t, setTopUp tid (topUpReopened gateway tokenHash now) db)))"

text \<open>Transaction 0 looks the key up, 1 to 3 are the tries of the transaction.\<close>

definition retryTopUpPayment ::
  "PaymentEnv \<Rightarrow> Session \<Rightarrow> string \<Rightarrow> string \<Rightarrow> string + CreatedPayment \<Rightarrow> int \<Rightarrow> string \<Rightarrow> string \<Rightarrow> string \<Rightarrow>
   PaymentDb \<Rightarrow> (string + IntentAnswer) \<times> PaymentDb" where
  "retryTopUpPayment env s newId token answer now userId tid key db =
     (if \<not> isIdempotencyKey key then (Inl ''invalid_idempotency_key'', db)
      else let db = ss_others s 0 db in
      case findRow (\<lambda>a. pa_idempotencyKey a = key) (attempts db) of
        Some a \<Rightarrow> (case findTopUp (pa_walletTopUpId a) db of
            None \<Rightarrow> (Inl P2025, db)
          | Some t \<Rightarrow> if \<not> ownsTopUp userId t db \<or> pa_walletTopUpId a \<noteq> tid then (Inl ''idempotency_conflict'', db)
              else (Inr \<lparr>ia_topUp = t, ia_attempt = Some a,
                ia_redirectUrl = (case pa_redirectUrl a of None \<Rightarrow> '''' | Some u \<Rightarrow> u), ia_callbackToken = None\<rparr>, db))
      | None \<Rightarrow>
        (case pe_gateway env of Inl e \<Rightarrow> (Inl e, db)
         | Inr gateway \<Rightarrow>
           (case withSerializableRetry s 1 (reopenTx newId userId tid gateway
               (hashCallbackToken (pe_digest env) (pe_secret env) token) now key) db of
              (Inl e, db) \<Rightarrow> (Inl e, db)
            | (Inr t, db) \<Rightarrow> createExternalPayment s answer now \<lparr>pp_topUpId = tu_id t, pp_attemptId = newId,
                pp_gateway = gateway, pp_amount = tu_amount t, pp_callbackToken = token\<rparr> db)))"

section \<open>The three ends of a verification\<close>

record PaymentReview =
  rw_reasonCode :: string
  rw_observedAmount :: "int option"
  rw_observedCurrency :: "string option"
  rw_transient :: bool

definition recordPaymentReview ::
  "PaymentReview \<Rightarrow> int \<Rightarrow> string \<Rightarrow> PaymentDb \<Rightarrow> string + (AttemptRow \<times> TopUpRow) \<times> PaymentDb" where
  "recordPaymentReview r now aid db = (case findAttempt aid db of None \<Rightarrow> Inl P2025
   | Some a \<Rightarrow> (case findTopUp (pa_walletTopUpId a) db of None \<Rightarrow> Inl P2025
   | Some t \<Rightarrow>
     if pa_status a = PA_SUCCEEDED then Inr ((a, t), db)
     else let next = (if rw_transient r then Some (nextReconcileAt now) else None);
              f = (\<lambda>a. a\<lparr>pa_status := PA_REVIEW, pa_failureCode := Some (rw_reasonCode r), pa_nextReconcileAt := next\<rparr>);
              g = (\<lambda>t. t\<lparr>tu_status := TU_PENDING, tu_failureCode := Some (rw_reasonCode r)\<rparr>);
              keep = tu_status t = TU_SUCCEEDED;
              db = setAttempt aid f db;
              db = (if keep then db else setTopUp (tu_id t) g db)
     in Inr ((f a, if keep then t else g t), db\<lparr>recoveryCases := upsertRow pr_attemptId
          (openCase a (rw_reasonCode r) (rw_observedAmount r) (rw_observedCurrency r) next)
          (\<lambda>c. c\<lparr>pr_status := PR_OPEN, pr_reasonCode := rw_reasonCode r, pr_observedAmount := rw_observedAmount r,
            pr_observedCurrency := rw_observedCurrency r, pr_nextAttemptAt := next, pr_resolvedAt := None\<rparr>)
          (recoveryCases db)\<rparr>)))"

definition recordTerminalFailure ::
  "string \<Rightarrow> int \<Rightarrow> string \<Rightarrow> PaymentDb \<Rightarrow> string + (AttemptRow \<times> TopUpRow) \<times> PaymentDb" where
  "recordTerminalFailure code now aid db = (case findAttempt aid db of None \<Rightarrow> Inl P2025
   | Some a \<Rightarrow> (case findTopUp (pa_walletTopUpId a) db of None \<Rightarrow> Inl P2025
   | Some t \<Rightarrow>
     if pa_status a = PA_SUCCEEDED \<or> tu_status t = TU_SUCCEEDED then Inr ((a, t), db)
     else let f = (\<lambda>a. a\<lparr>pa_status := (if code = ''canceled'' then PA_CANCELED else PA_FAILED),
                pa_failureCode := Some code, pa_nextReconcileAt := None,
                pa_verificationAttempts := pa_verificationAttempts a + 1\<rparr>);
              g = (\<lambda>t. t\<lparr>tu_status := (if code = ''canceled'' then TU_CANCELED else TU_FAILED),
                tu_failureCode := Some code\<rparr>)
     in Inr ((f a, g t), (setTopUp (tu_id t) g (setAttempt aid f db))\<lparr>recoveryCases :=
          updateRows (\<lambda>c. pr_attemptId c = aid \<and> pr_status c \<noteq> PR_RESOLVED)
            (\<lambda>c. c\<lparr>pr_status := PR_DEFINITIVELY_FAILED, pr_resolvedAt := Some now, pr_nextAttemptAt := None\<rparr>)
            (recoveryCases db)\<rparr>)))"

record VerifiedPayment =
  vp_authority :: string
  vp_gatewayReference :: string
  vp_amountRial :: int
  vp_currency :: string

record SettleIds =
  si_credit :: string
  si_bonus :: string
  si_journal :: string

record SettleAnswer =
  sa_topUp :: TopUpRow
  sa_attempt :: AttemptRow
  sa_credited :: bool
  sa_duplicate :: bool

definition creditKey :: "string \<Rightarrow> string" where
  "creditKey tid = ''topup_credit_'' @ tid"

definition bonusKey :: "string \<Rightarrow> string" where
  "bonusKey tid = ''topup_bonus_'' @ tid"

definition topUpEntry :: "string \<Rightarrow> LedgerType \<Rightarrow> string \<Rightarrow> string \<Rightarrow> TopUpRow \<Rightarrow> int \<Rightarrow> int \<Rightarrow> LedgerEntry" where
  "topUpEntry newId ty refType key t amount balanceAfter = \<lparr>le_id = newId, le_walletId = tu_walletId t,
     le_direction = CREDIT, le_type = ty, le_amount = amount, le_status = LS_COMPLETED,
     le_referenceType = Some refType, le_referenceId = Some (tu_id t), le_idempotencyKey = key,
     le_balanceAfter = balanceAfter, le_reversedEntryId = None\<rparr>"

text \<open>The wallet is incremented, then the entry is written with the new balance.\<close>

definition postCredit ::
  "string \<Rightarrow> LedgerType \<Rightarrow> string \<Rightarrow> string \<Rightarrow> TopUpRow \<Rightarrow> int \<Rightarrow> PaymentDb \<Rightarrow> string + PaymentDb" where
  "postCredit newId ty refType key t amount db =
     (let db = updateBalance (tu_walletId t) amount db in
      case findWallet (tu_walletId t) db of None \<Rightarrow> Inl P2025
      | Some w \<Rightarrow> bindE (insertEntry (topUpEntry newId ty refType key t amount (w_availableBalance w)) db)
          (\<lambda>(_, db). Inr db))"

definition bonusOf :: "TopUpRow \<Rightarrow> (string \<times> int) option" where
  "bonusOf t = (case (tu_couponCode t, tu_bonusRialSnapshot t) of
     (Some c, Some b) \<Rightarrow> if c \<noteq> '''' \<and> b > 0 then Some (c, b) else None | _ \<Rightarrow> None)"

definition redeemBonus :: "string \<Rightarrow> string \<Rightarrow> TopUpRow \<Rightarrow> int \<Rightarrow> PaymentDb \<Rightarrow> string + PaymentDb" where
  "redeemBonus userId code t bonus db = (case findCoupon code db of None \<Rightarrow> Inr db
     | Some c \<Rightarrow> bindE (recordCouponRedemptionTx \<lparr>rd_couponId = cp_id c, rd_userId = userId,
         rd_serviceOrderId = None, rd_walletTopUpId = Some (tu_id t), rd_amountRial = 0, rd_bonusRial = bonus,
         rd_idempotencyKey = ''coupon-topup:'' @ tu_id t\<rparr> db) (\<lambda>(_, db). Inr db))"

definition creditTopUp :: "SettleIds \<Rightarrow> string \<Rightarrow> TopUpRow \<Rightarrow> PaymentDb \<Rightarrow> string + PaymentDb" where
  "creditTopUp ids userId t db =
     bindE (postCredit (si_credit ids) TOP_UP ''wallet_topup'' (creditKey (tu_id t)) t (tu_amount t) db) (\<lambda>db.
     case bonusOf t of None \<Rightarrow> Inr db
     | Some (code, bonus) \<Rightarrow>
         bindE (postCredit (si_bonus ids) TOP_UP_BONUS ''wallet_topup_bonus'' (bonusKey (tu_id t)) t bonus db)
           (redeemBonus userId code t bonus))"

definition attemptSucceeded :: "VerifiedPayment \<Rightarrow> int \<Rightarrow> AttemptRow \<Rightarrow> AttemptRow" where
  "attemptSucceeded v now a = a\<lparr>pa_status := PA_SUCCEEDED, pa_authority := Some (vp_authority v),
     pa_gatewayReference := Some (vp_gatewayReference v), pa_verifiedAt := Some now, pa_nextReconcileAt := None,
     pa_verificationAttempts := pa_verificationAttempts a + 1, pa_failureCode := None\<rparr>"

definition topUpSucceeded :: "PaymentGatewayProvider \<Rightarrow> VerifiedPayment \<Rightarrow> int \<Rightarrow> TopUpRow \<Rightarrow> TopUpRow" where
  "topUpSucceeded gateway v now t = t\<lparr>tu_status := TU_SUCCEEDED, tu_gateway := gateway,
     tu_authority := Some (vp_authority v), tu_gatewayReference := Some (vp_gatewayReference v),
     tu_verifiedAt := Some now, tu_failureCode := None\<rparr>"

definition postTopUp :: "SettleIds \<Rightarrow> TopUpRow \<Rightarrow> PaymentDb \<Rightarrow> string + PaymentDb" where
  "postTopUp ids t db = bindE (postWalletTopUpSucceeded (si_journal ids) (tu_id t) (tu_amount t) (tu_verifiedAt t)
     (tu_createdAt t) db) (\<lambda>(_, db). Inr db)"

definition finishSettlement ::
  "SettleIds \<Rightarrow> VerifiedPayment \<Rightarrow> int \<Rightarrow> AttemptRow \<Rightarrow> bool \<Rightarrow> PaymentDb \<Rightarrow> string + SettleAnswer \<times> PaymentDb" where
  "finishSettlement ids v now a credited db =
     bindE (updateAttempt (pa_id a) (attemptSucceeded v now) db) (\<lambda>(a', db).
     bindE (updateTopUp (pa_walletTopUpId a) (topUpSucceeded (pa_gateway a) v now) db) (\<lambda>(t', db).
     let db = db\<lparr>recoveryCases := updateRows (\<lambda>c. pr_attemptId c = pa_id a)
           (\<lambda>c. c\<lparr>pr_status := PR_RESOLVED, pr_resolvedAt := Some now, pr_nextAttemptAt := None\<rparr>) (recoveryCases db)\<rparr> in
     bindE (postTopUp ids t' db) (\<lambda>db.
     Inr (\<lparr>sa_topUp = t', sa_attempt = a', sa_credited = credited, sa_duplicate = False\<rparr>, db))))"

definition settleTopUpTx ::
  "SettleIds \<Rightarrow> VerifiedPayment \<Rightarrow> int \<Rightarrow> string \<Rightarrow> PaymentDb \<Rightarrow> string + SettleAnswer \<times> PaymentDb" where
  "settleTopUpTx ids v now aid db = (case findAttempt aid db of None \<Rightarrow> Inl P2025
   | Some a \<Rightarrow> (case findTopUp (pa_walletTopUpId a) db of None \<Rightarrow> Inl P2025
   | Some t \<Rightarrow>
     let existing = findByIdempotency (creditKey (tu_id t)) db \<noteq> None in
     if pa_status a = PA_SUCCEEDED \<and> existing
     then bindE (postTopUp ids t db)
       (\<lambda>db. Inr (\<lparr>sa_topUp = t, sa_attempt = a, sa_credited = False, sa_duplicate = False\<rparr>, db))
     else if (\<exists>x \<in> set (attempts db). pa_walletTopUpId x = pa_walletTopUpId a \<and> pa_status x = PA_SUCCEEDED
         \<and> pa_id x \<noteq> pa_id a) \<or> (tu_status t = TU_SUCCEEDED \<and> existing)
     then Inr (\<lparr>sa_topUp = t, sa_attempt = a, sa_credited = False, sa_duplicate = True\<rparr>, db)
     else (case findWallet (tu_walletId t) db of None \<Rightarrow> Inl P2025
     | Some w \<Rightarrow>
       if walletCurrency db (w_id w) \<noteq> ''IRR'' then Inl ''wallet_currency_mismatch''
       else bindE (if existing then Inr db else creditTopUp ids (w_userId w) t db)
         (finishSettlement ids v now a (\<not> existing)))))"

section \<open>Verification\<close>

record VerifyAnswer =
  va_topUp :: TopUpRow
  va_attempt :: AttemptRow
  va_alreadySettled :: bool
  va_failed :: bool
  va_review :: bool
  va_credited :: bool

definition duplicateReview :: "VerifiedPayment \<Rightarrow> PaymentReview" where
  "duplicateReview v = \<lparr>rw_reasonCode = ''duplicate_successful_payment'', rw_observedAmount = Some (vp_amountRial v),
     rw_observedCurrency = Some (vp_currency v), rw_transient = False\<rparr>"

text \<open>Transactions 4 to 6 are the tries of the settlement, 7 the review of a duplicate.\<close>

definition settleVerifiedAttempt ::
  "Session \<Rightarrow> SettleIds \<Rightarrow> VerifiedPayment \<Rightarrow> int \<Rightarrow> string \<Rightarrow> PaymentDb \<Rightarrow> (string + SettleAnswer) \<times> PaymentDb" where
  "settleVerifiedAttempt s ids v now aid db =
     (case withSerializableRetry s 4 (settleTopUpTx ids v now aid) db of
        (Inl e, db) \<Rightarrow> (Inl e, db)
      | (Inr r, db) \<Rightarrow>
        if \<not> sa_duplicate r then (Inr r, db)
        else (case runTx s 7 (recordPaymentReview (duplicateReview v) now aid) db of
            (Inl e, db) \<Rightarrow> (Inl e, db)
          | (Inr (a, t), db) \<Rightarrow>
              (Inr \<lparr>sa_topUp = t, sa_attempt = a, sa_credited = False, sa_duplicate = True\<rparr>, db)))"

text \<open>What becomes of the call to the gateway: its provider cannot be resolved, the call throws, the payment is not
  verified, or it is. The first two carry the code of the error.\<close>

datatype GatewayAnswer =
  GA_unresolved string | GA_thrown string | GA_rejected string | GA_verified VerifiedPayment

definition suppliedAuthority :: "string option \<Rightarrow> AttemptRow \<Rightarrow> string option" where
  "suppliedAuthority given a =
     (case (case given of Some x \<Rightarrow> (if x \<noteq> '''' then given else pa_authority a) | None \<Rightarrow> pa_authority a) of
        Some x \<Rightarrow> if x \<noteq> '''' then Some x else None | None \<Rightarrow> None)"

definition countVerification :: "string \<Rightarrow> PaymentDb \<Rightarrow> PaymentDb" where
  "countVerification aid db = db\<lparr>attempts := updateRows (\<lambda>a. pa_id a = aid \<and> pa_status a \<noteq> PA_SUCCEEDED)
     (\<lambda>a. a\<lparr>pa_verificationAttempts := pa_verificationAttempts a + 1\<rparr>) (attempts db)\<rparr>"

definition stampVerified :: "VerifiedPayment \<Rightarrow> int \<Rightarrow> string \<Rightarrow> PaymentDb \<Rightarrow> string + unit \<times> PaymentDb" where
  "stampVerified v now aid db = (case findAttempt aid db of None \<Rightarrow> Inr ((), db)
     | Some a \<Rightarrow> if pa_status a = PA_SUCCEEDED then Inr ((), db)
         else bindE (updateAttempt aid (\<lambda>a. a\<lparr>pa_authority := Some (vp_authority v),
           pa_gatewayReference := Some (vp_gatewayReference v), pa_verifiedAt := Some now\<rparr>) db) (\<lambda>(_, db). Inr ((), db)))"

definition reviewed ::
  "Session \<Rightarrow> nat \<Rightarrow> PaymentReview \<Rightarrow> int \<Rightarrow> string \<Rightarrow> PaymentDb \<Rightarrow> (string + VerifyAnswer) \<times> PaymentDb" where
  "reviewed s k r now aid db = (case runTx s k (recordPaymentReview r now aid) db of
     (Inl e, db) \<Rightarrow> (Inl e, db)
   | (Inr (a, t), db) \<Rightarrow> (Inr \<lparr>va_topUp = t, va_attempt = a, va_alreadySettled = False, va_failed = False,
       va_review = True, va_credited = False\<rparr>, db))"

definition plainReview :: "string \<Rightarrow> bool \<Rightarrow> PaymentReview" where
  "plainReview code transient = \<lparr>rw_reasonCode = code, rw_observedAmount = None, rw_observedCurrency = None,
     rw_transient = transient\<rparr>"

definition observedReview :: "string \<Rightarrow> VerifiedPayment \<Rightarrow> bool \<Rightarrow> PaymentReview" where
  "observedReview code v transient = \<lparr>rw_reasonCode = code, rw_observedAmount = Some (vp_amountRial v),
     rw_observedCurrency = Some (vp_currency v), rw_transient = transient\<rparr>"

text \<open>The gateway verified the payment: transaction 3 stamps the attempt, then it is settled.\<close>

definition concludeVerified ::
  "Session \<Rightarrow> SettleIds \<Rightarrow> AttemptRow \<Rightarrow> VerifiedPayment \<Rightarrow> int \<Rightarrow> PaymentDb \<Rightarrow> (string + VerifyAnswer) \<times> PaymentDb" where
  "concludeVerified s ids a v now db =
     (if vp_amountRial v \<noteq> pa_amount a \<or> vp_currency v \<noteq> pa_currency a
      then reviewed s 2 (observedReview (if vp_amountRial v \<noteq> pa_amount a then ''amount_mismatch'' else ''currency_mismatch'')
        v False) now (pa_id a) db
      else case (case runTx s 3 (stampVerified v now (pa_id a)) db of
          (Inl e, db) \<Rightarrow> (Inl e, db) | (Inr _, db) \<Rightarrow> settleVerifiedAttempt s ids v now (pa_id a) db) of
        (Inr r, db) \<Rightarrow> (Inr \<lparr>va_topUp = sa_topUp r, va_attempt = sa_attempt r, va_alreadySettled = \<not> sa_credited r,
          va_failed = False, va_review = sa_duplicate r, va_credited = sa_credited r\<rparr>, db)
      | (Inl _, db) \<Rightarrow> reviewed s 8 (observedReview ''wallet_credit_pending'' v True) now (pa_id a) db)"

definition concludeVerification ::
  "Session \<Rightarrow> SettleIds \<Rightarrow> AttemptRow \<Rightarrow> GatewayAnswer \<Rightarrow> int \<Rightarrow> PaymentDb \<Rightarrow> (string + VerifyAnswer) \<times> PaymentDb" where
  "concludeVerification s ids a answer now db = (case answer of
     GA_unresolved code \<Rightarrow> reviewed s 2 (plainReview code True) now (pa_id a) db
   | _ \<Rightarrow> (case runTx s 1 (\<lambda>db. Inr ((), countVerification (pa_id a) db)) db of
       (Inl _, db) \<Rightarrow> reviewed s 2 (plainReview ''verify_unavailable'' True) now (pa_id a) db
     | (Inr _, db) \<Rightarrow> (case answer of
         GA_verified v \<Rightarrow> concludeVerified s ids a v now db
       | GA_rejected code \<Rightarrow>
           if code \<in> set TERMINAL_VERIFY_CODES
           then (case runTx s 2 (recordTerminalFailure code now (pa_id a)) db of
               (Inl e, db) \<Rightarrow> (Inl e, db)
             | (Inr (a, t), db) \<Rightarrow> (Inr \<lparr>va_topUp = t, va_attempt = a, va_alreadySettled = False, va_failed = True,
                 va_review = False, va_credited = False\<rparr>, db))
           else reviewed s 2 (plainReview code (code \<in> set TRANSIENT_VERIFY_CODES)) now (pa_id a) db
       | GA_thrown code \<Rightarrow> reviewed s 2 (plainReview code True) now (pa_id a) db
       | GA_unresolved code \<Rightarrow> reviewed s 2 (plainReview code True) now (pa_id a) db)))"

definition verifyAndSettleTopUpAttempt ::
  "Session \<Rightarrow> SettleIds \<Rightarrow> GatewayAnswer \<Rightarrow> int \<Rightarrow> string \<Rightarrow> string option \<Rightarrow> PaymentDb \<Rightarrow>
   (string + VerifyAnswer) \<times> PaymentDb" where
  "verifyAndSettleTopUpAttempt s ids answer now aid authority db =
     (let db = ss_others s 0 db in
      case findAttempt aid db of None \<Rightarrow> (Inl ''payment_attempt_not_found'', db)
      | Some a \<Rightarrow> (case findTopUp (pa_walletTopUpId a) db of None \<Rightarrow> (Inl P2025, db)
      | Some t \<Rightarrow>
        if pa_status a = PA_SUCCEEDED
        then (Inr \<lparr>va_topUp = t, va_attempt = a, va_alreadySettled = True, va_failed = False, va_review = False,
               va_credited = False\<rparr>, db)
        else if suppliedAuthority authority a = None then (Inl ''missing_authority'', db)
        else concludeVerification s ids a answer now db))"

definition reconcileVerifiedWalletCredit ::
  "Session \<Rightarrow> SettleIds \<Rightarrow> int \<Rightarrow> string \<Rightarrow> PaymentDb \<Rightarrow> (string + SettleAnswer) \<times> PaymentDb" where
  "reconcileVerifiedWalletCredit s ids now aid db = (let db = ss_others s 0 db in
     case findAttempt aid db of None \<Rightarrow> (Inl P2025, db)
     | Some a \<Rightarrow> (case (pa_verifiedAt a, pa_authority a, pa_gatewayReference a) of
         (Some _, Some auth, Some reference) \<Rightarrow>
           if auth = '''' \<or> reference = '''' then (Inl ''gateway_verification_required'', db)
           else settleVerifiedAttempt s ids \<lparr>vp_authority = auth, vp_gatewayReference = reference,
             vp_amountRial = pa_amount a, vp_currency = ''IRR''\<rparr> now (pa_id a) db
       | _ \<Rightarrow> (Inl ''gateway_verification_required'', db)))"

text \<open>The attempt a callback names, directly or as the latest of a top-up with the token. Its authority and status
  come from the browser.\<close>

definition callbackAttempt :: "string option \<Rightarrow> string option \<Rightarrow> string \<Rightarrow> PaymentDb \<Rightarrow> AttemptRow option" where
  "callbackAttempt attemptId topUpId tokenHash db =
     (case (case attemptId of Some x \<Rightarrow> x | None \<Rightarrow> '''') of
        x # xs \<Rightarrow> findAttempt (x # xs) db
      | [] \<Rightarrow> (case (case topUpId of Some x \<Rightarrow> x | None \<Rightarrow> '''') of
          x # xs \<Rightarrow> (case sortBy (\<lambda>a b. pa_attemptNumber b - pa_attemptNumber a)
              (filter (\<lambda>a. pa_walletTopUpId a = x # xs \<and> pa_callbackTokenHash a = tokenHash) (attempts db)) of
              [] \<Rightarrow> None | a # _ \<Rightarrow> Some a)
        | [] \<Rightarrow> None))"

definition finalizeTopUpFromCallback ::
  "PaymentEnv \<Rightarrow> Session \<Rightarrow> SettleIds \<Rightarrow> GatewayAnswer \<Rightarrow> int \<Rightarrow> PaymentGatewayProvider \<Rightarrow> string option \<Rightarrow> string option \<Rightarrow>
   string \<Rightarrow> string option \<Rightarrow> PaymentDb \<Rightarrow> (string + VerifyAnswer) \<times> PaymentDb" where
  "finalizeTopUpFromCallback env s ids answer now expected attemptId topUpId token authority db =
     (let tokenHash = hashCallbackToken (pe_digest env) (pe_secret env) token in
      case callbackAttempt attemptId topUpId tokenHash db of None \<Rightarrow> (Inl ''invalid_callback'', db)
      | Some a \<Rightarrow>
        if pa_callbackTokenHash a \<noteq> tokenHash then (Inl ''invalid_callback'', db)
        else if pa_gateway a \<noteq> expected then (Inl ''gateway_mismatch'', db)
        else verifyAndSettleTopUpAttempt s ids answer now (pa_id a) authority db)"

end
