(* ===== verification/PaymentRecovery.thy ===== *)
theory PaymentRecovery
  imports TopUp
begin

text \<open>
  The administrators' side of payments, \<open>src/lib/payments/recovery.ts\<close>: verifying an attempt again, crediting a
  verified payment, marking a payment as definitely failed, and the controlled refund of a top-up. Each command is
  guarded and answered again by its receipt. The audit log and display texts are not modelled.
\<close>

section \<open>Snapshots\<close>

fun attemptStatusText :: "PaymentAttemptStatus \<Rightarrow> string" where
  "attemptStatusText PA_CREATED = ''CREATED''" | "attemptStatusText PA_PENDING = ''PENDING''"
| "attemptStatusText PA_SUCCEEDED = ''SUCCEEDED''" | "attemptStatusText PA_REVIEW = ''REVIEW''"
| "attemptStatusText PA_FAILED = ''FAILED''" | "attemptStatusText PA_CANCELED = ''CANCELED''"
| "attemptStatusText PA_EXPIRED = ''EXPIRED''"

fun topUpStatusText :: "TopUpStatus \<Rightarrow> string" where
  "topUpStatusText TU_CREATED = ''CREATED''" | "topUpStatusText TU_PENDING = ''PENDING''"
| "topUpStatusText TU_SUCCEEDED = ''SUCCEEDED''" | "topUpStatusText TU_FAILED = ''FAILED''"
| "topUpStatusText TU_CANCELED = ''CANCELED''" | "topUpStatusText TU_EXPIRED = ''EXPIRED''"

definition adminInput ::
  "string \<Rightarrow> string \<Rightarrow> string \<Rightarrow> string \<Rightarrow> (string \<times> jsval) list \<Rightarrow> AdminCommandInput" where
  "adminInput operation actor key reason payload = \<lparr>ac_operation = operation, ac_idempotencyKey = key,
     ac_actorUserId = actor, ac_infrastructureOrderId = None, ac_serviceOrderId = None, ac_reason = reason,
     ac_payload = payload\<rparr>"

text \<open>What the code knows of the server: the digest and the admitted mobile numbers.\<close>

record AdminEnv =
  ae_digest :: "string \<Rightarrow> string"
  ae_mobiles :: "string list"

record AdminAction =
  aa_actorUserId :: string
  aa_idempotencyKey :: string
  aa_reason :: string

definition attemptCommand :: "AdminEnv \<Rightarrow> string \<Rightarrow> AdminAction \<Rightarrow> string \<Rightarrow> string + AdminCommand" where
  "attemptCommand env operation act attemptId = normalizeAdminCommand (ae_digest env)
     (adminInput operation (aa_actorUserId act) (aa_idempotencyKey act) (aa_reason act) [(''attemptId'', JStr attemptId)])"

section \<open>Commands on an attempt\<close>

text \<open>Transaction 0.\<close>

definition preflightCommand ::
  "AdminEnv \<Rightarrow> Session \<Rightarrow> string \<Rightarrow> AdminAction \<Rightarrow> string \<Rightarrow> PaymentDb \<Rightarrow>
   (string + AdminCommand \<times> jsval option) \<times> PaymentDb" where
  "preflightCommand env s operation act attemptId db = (case attemptCommand env operation act attemptId of
     Inl e \<Rightarrow> (Inl e, db)
   | Inr c \<Rightarrow> runTx s 0 (\<lambda>db. bindE (assertAdminActorTx (ae_mobiles env) (aa_actorUserId act) db) (\<lambda>_.
       bindE (replayAdminCommandTx c db) (\<lambda>r. Inr ((c, r), db)))) db)"

definition insertAction :: "RecoveryActionRow \<Rightarrow> PaymentDb \<Rightarrow> string + PaymentDb" where
  "insertAction r db = (if \<exists>x \<in> set (recoveryActions db). ra_idempotencyKey x = ra_idempotencyKey r then Inl P2002
     else Inr (db\<lparr>recoveryActions := recoveryActions db @ [r]\<rparr>))"

definition actionRow :: "AdminCommand \<Rightarrow> string \<Rightarrow> string \<Rightarrow> RecoveryActionRow" where
  "actionRow c aid resultCode = \<lparr>ra_attemptId = aid, ra_actorUserId = ac_actorUserId c, ra_action = ac_operation c,
     ra_resultCode = resultCode, ra_idempotencyKey = ''payment-recovery-action:'' @ ac_receiptKey c\<rparr>"

text \<open>The case of the attempt, created when there is none.\<close>

definition ensureCase :: "RecoveryRow \<Rightarrow> PaymentDb \<Rightarrow> PaymentDb" where
  "ensureCase r db = (if \<exists>x \<in> set (recoveryCases db). pr_attemptId x = pr_attemptId r then db
     else db\<lparr>recoveryCases := recoveryCases db @ [r]\<rparr>)"

definition attemptActionBody ::
  "AdminCommand \<Rightarrow> string \<Rightarrow> string \<Rightarrow> jsval \<Rightarrow> int \<Rightarrow> PaymentDb \<Rightarrow> string + jsval \<times> PaymentDb" where
  "attemptActionBody c aid resultCode snapshot now db = (case findAttempt aid db of None \<Rightarrow> Inl P2025
   | Some a \<Rightarrow>
     let ok = pa_status a = PA_SUCCEEDED;
         r = (openCase a ''admin_recovery_action'' None None None)\<lparr>pr_status := (if ok then PR_RESOLVED else PR_OPEN),
               pr_resolvedAt := (if ok then Some now else None)\<rparr>
     in bindE (insertAction (actionRow c aid resultCode) (ensureCase r db)) (\<lambda>db. Inr (snapshot, db)))"

text \<open>Transaction 30.\<close>

definition persistAttemptAction ::
  "AdminEnv \<Rightarrow> Session \<Rightarrow> AdminCommand \<Rightarrow> string \<Rightarrow> string \<Rightarrow> jsval \<Rightarrow> int \<Rightarrow> PaymentDb \<Rightarrow> (string + jsval) \<times> PaymentDb" where
  "persistAttemptAction env s c aid resultCode snapshot now db =
     runTx s 30 (adminCommandTx (ae_mobiles env) c (attemptActionBody c aid resultCode snapshot now)) db"

definition attemptSnapshot :: "string \<Rightarrow> AttemptRow \<Rightarrow> TopUpRow \<Rightarrow> (string \<times> jsval) list \<Rightarrow> jsval" where
  "attemptSnapshot aid a t extra = JObj ([(''attemptId'', JStr aid), (''attemptStatus'', JStr (attemptStatusText (pa_status a))),
     (''topUpStatus'', JStr (topUpStatusText (tu_status t)))] @ extra)"

definition adminReverifyGateway ::
  "AdminEnv \<Rightarrow> Session \<Rightarrow> Session \<Rightarrow> SettleIds \<Rightarrow> GatewayAnswer \<Rightarrow> int \<Rightarrow> AdminAction \<Rightarrow> string \<Rightarrow> PaymentDb \<Rightarrow>
   (string + jsval) \<times> PaymentDb" where
  "adminReverifyGateway env s inner ids answer now act aid db =
     (case preflightCommand env s ''payment_reverify_gateway'' act aid db of
        (Inl e, db) \<Rightarrow> (Inl e, db)
      | (Inr (c, Some snapshot), db) \<Rightarrow> (Inr snapshot, db)
      | (Inr (c, None), db) \<Rightarrow> (case verifyAndSettleTopUpAttempt inner ids answer now aid None db of
          (Inl e, db) \<Rightarrow> (Inl e, db)
        | (Inr r, db) \<Rightarrow> persistAttemptAction env s c aid
            (if va_review r then ''review'' else if va_failed r then ''failed'' else ''verified'')
            (attemptSnapshot aid (va_attempt r) (va_topUp r) [(''credited'', JBool (va_credited r)),
              (''review'', JBool (va_review r)), (''failed'', JBool (va_failed r))]) now db))"

definition adminReconcileWalletCredit ::
  "AdminEnv \<Rightarrow> Session \<Rightarrow> Session \<Rightarrow> SettleIds \<Rightarrow> int \<Rightarrow> AdminAction \<Rightarrow> string \<Rightarrow> PaymentDb \<Rightarrow>
   (string + jsval) \<times> PaymentDb" where
  "adminReconcileWalletCredit env s inner ids now act aid db =
     (case preflightCommand env s ''payment_reconcile_wallet_credit'' act aid db of
        (Inl e, db) \<Rightarrow> (Inl e, db)
      | (Inr (c, Some snapshot), db) \<Rightarrow> (Inr snapshot, db)
      | (Inr (c, None), db) \<Rightarrow> (case reconcileVerifiedWalletCredit inner ids now aid db of
          (Inl e, db) \<Rightarrow> (Inl e, db)
        | (Inr r, db) \<Rightarrow> persistAttemptAction env s c aid (if sa_credited r then ''credited'' else ''already_credited'')
            (attemptSnapshot aid (sa_attempt r) (sa_topUp r) [(''credited'', JBool (sa_credited r))]) now db))"

definition AdminFailed :: string where "AdminFailed = ''admin_definitively_failed''"

definition markFailedBody :: "AdminCommand \<Rightarrow> string \<Rightarrow> int \<Rightarrow> PaymentDb \<Rightarrow> string + jsval \<times> PaymentDb" where
  "markFailedBody c aid now db = (case findAttempt aid db of None \<Rightarrow> Inl P2025
   | Some a \<Rightarrow> (case findTopUp (pa_walletTopUpId a) db of None \<Rightarrow> Inl P2025
   | Some t \<Rightarrow>
     if pa_status a = PA_SUCCEEDED \<or> tu_status t = TU_SUCCEEDED then Inl ''successful_payment_is_monotonic''
     else let f = (\<lambda>a. a\<lparr>pa_status := PA_FAILED, pa_failureCode := Some AdminFailed, pa_nextReconcileAt := None\<rparr>);
              g = (\<lambda>t. t\<lparr>tu_status := TU_FAILED, tu_failureCode := Some AdminFailed\<rparr>);
              db = ensureCase (openCase a AdminFailed None None None) (setTopUp (tu_id t) g (setAttempt aid f db));
              db = db\<lparr>recoveryCases := updateRows (\<lambda>r. pr_attemptId r = aid)
                (\<lambda>r. r\<lparr>pr_status := PR_DEFINITIVELY_FAILED, pr_resolvedAt := Some now, pr_nextAttemptAt := None\<rparr>)
                (recoveryCases db)\<rparr> in
     bindE (insertAction (actionRow c aid ''definitively_failed'') db) (\<lambda>db.
     Inr (attemptSnapshot aid (f a) (g t) [], db))))"

text \<open>The commands below are one transaction each.\<close>

definition adminMarkPaymentDefinitivelyFailed ::
  "AdminEnv \<Rightarrow> int \<Rightarrow> AdminAction \<Rightarrow> string \<Rightarrow> PaymentDb \<Rightarrow> string + jsval \<times> PaymentDb" where
  "adminMarkPaymentDefinitivelyFailed env now act aid db =
     bindE (attemptCommand env ''payment_mark_definitively_failed'' act aid) (\<lambda>c.
     adminCommandTx (ae_mobiles env) c (markFailedBody c aid now) db)"

section \<open>Controlled refunds\<close>

record RefundIds =
  ri_refund :: string
  ri_entry :: string
  ri_journal :: string

definition refundDebitKey :: "string \<Rightarrow> string" where
  "refundDebitKey tid = ''topup_refund_debit:'' @ tid"

definition refundEntry :: "string \<Rightarrow> TopUpRow \<Rightarrow> string \<Rightarrow> int \<Rightarrow> LedgerEntry" where
  "refundEntry newId t refundId balanceAfter = \<lparr>le_id = newId, le_walletId = tu_walletId t, le_direction = DEBIT,
     le_type = TOP_UP_REFUND, le_amount = tu_amount t, le_status = LS_COMPLETED,
     le_referenceType = Some ''wallet_topup_refund'', le_referenceId = Some refundId,
     le_idempotencyKey = refundDebitKey (tu_id t), le_balanceAfter = balanceAfter, le_reversedEntryId = None\<rparr>"

definition newRefund :: "RefundIds \<Rightarrow> AdminCommand \<Rightarrow> TopUpRow \<Rightarrow> int \<Rightarrow> int \<Rightarrow> RefundRow" where
  "newRefund ids c t balance now = \<lparr>rf_id = ri_refund ids, rf_walletTopUpId = tu_id t,
     rf_requestedById = ac_actorUserId c, rf_reviewedById = ac_actorUserId c, rf_amount = tu_amount t,
     rf_status = (if balance < tu_amount t then CR_REVIEW_REQUIRED else CR_REQUESTED),
     rf_reviewReason = (if balance < tu_amount t then ''wallet_credit_already_consumed''
       else ''wallet_debit_reserved_before_external_refund''),
     rf_ledgerEntryId = None, rf_gatewayRefundReference = None, rf_idempotencyKey = ac_receiptKey c,
     rf_requestedAt = now\<rparr>"

definition refundClash :: "RefundRow \<Rightarrow> RefundRow \<Rightarrow> bool" where
  "refundClash a b \<longleftrightarrow> sharedKey (rf_ledgerEntryId a) (rf_ledgerEntryId b) \<or>
     sharedKey (rf_gatewayRefundReference a) (rf_gatewayRefundReference b) \<or> rf_idempotencyKey a = rf_idempotencyKey b"

definition insertRefund :: "RefundRow \<Rightarrow> PaymentDb \<Rightarrow> string + PaymentDb" where
  "insertRefund r db = (if \<exists>x \<in> set (refundRows db). rf_id x = rf_id r \<or> refundClash r x then Inl P2002
     else Inr (db\<lparr>refundRows := refundRows db @ [r]\<rparr>))"

definition updateRefund :: "string \<Rightarrow> (RefundRow \<Rightarrow> RefundRow) \<Rightarrow> PaymentDb \<Rightarrow> string + RefundRow \<times> PaymentDb" where
  "updateRefund rid f db = (case findRow (\<lambda>r. rf_id r = rid) (refundRows db) of None \<Rightarrow> Inl P2025
     | Some r \<Rightarrow> if \<exists>x \<in> set (refundRows db). rf_id x \<noteq> rid \<and> refundClash (f r) x then Inl P2002
         else Inr (f r, db\<lparr>refundRows := updateRows (\<lambda>r. rf_id r = rid) f (refundRows db)\<rparr>))"

definition approvedRefund :: "string \<Rightarrow> PaymentDb \<Rightarrow> RefundRow option" where
  "approvedRefund tid db = findRow (\<lambda>r. rf_walletTopUpId r = tid \<and> rf_status r \<in> {CR_APPROVED, CR_COMPLETED}) (refundRows db)"

text \<open>The wallet gives the amount back before the bank does.\<close>

definition debitRefund :: "RefundIds \<Rightarrow> TopUpRow \<Rightarrow> int \<Rightarrow> PaymentDb \<Rightarrow> string + PaymentDb" where
  "debitRefund ids t now db =
     (let db = updateBalance (tu_walletId t) (- tu_amount t) db in
      case findWallet (tu_walletId t) db of None \<Rightarrow> Inl P2025
      | Some w \<Rightarrow>
        bindE (insertEntry (refundEntry (ri_entry ids) t (ri_refund ids) (w_availableBalance w)) db) (\<lambda>(e, db).
        bindE (updateRefund (ri_refund ids) (\<lambda>r. r\<lparr>rf_status := CR_APPROVED, rf_ledgerEntryId := Some (le_id e)\<rparr>) db) (\<lambda>(_, db).
        bindE (postWalletTopUpRefunded (ri_journal ids) (ri_refund ids) (tu_amount t) (tu_id t) now db) (\<lambda>(_, db).
        Inr db))))"

definition refundSnapshot :: "RefundIds \<Rightarrow> TopUpRow \<Rightarrow> bool \<Rightarrow> jsval" where
  "refundSnapshot ids t approved = JObj [(''refundId'', JStr (ri_refund ids)), (''topUpId'', JStr (tu_id t)),
     (''status'', JStr (if approved then ''APPROVED'' else ''REVIEW_REQUIRED'')),
     (''amountRial'', JStr (jsNumberText (tu_amount t))),
     (''ledgerEntryId'', if approved then JStr (ri_entry ids) else JNull), (''gatewayRefundExecuted'', JBool False)]"

definition refundBody ::
  "RefundIds \<Rightarrow> AdminCommand \<Rightarrow> string \<Rightarrow> int \<Rightarrow> PaymentDb \<Rightarrow> string + jsval \<times> PaymentDb" where
  "refundBody ids c tid now db = (case findTopUp tid db of None \<Rightarrow> Inl P2025
   | Some t \<Rightarrow> (case findWallet (tu_walletId t) db of None \<Rightarrow> Inl P2025
   | Some w \<Rightarrow>
     if tu_status t \<noteq> TU_SUCCEEDED then Inl ''refund_requires_success''
     else if approvedRefund tid db \<noteq> None then Inl ''refund_already_approved''
     else bindE (insertRefund (newRefund ids c t (w_availableBalance w) now) db) (\<lambda>db.
       if w_availableBalance w \<ge> tu_amount t
       then bindE (debitRefund ids t now db) (\<lambda>db. Inr (refundSnapshot ids t True, db))
       else Inr (refundSnapshot ids t False, db))))"

definition requestControlledTopUpRefund ::
  "AdminEnv \<Rightarrow> RefundIds \<Rightarrow> int \<Rightarrow> AdminAction \<Rightarrow> string \<Rightarrow> PaymentDb \<Rightarrow> string + jsval \<times> PaymentDb" where
  "requestControlledTopUpRefund env ids now act tid db =
     bindE (normalizeAdminCommand (ae_digest env) (adminInput ''controlled_topup_refund'' (aa_actorUserId act)
       (aa_idempotencyKey act) (aa_reason act) [(''topUpId'', JStr tid)])) (\<lambda>c.
     adminCommandTx (ae_mobiles env) c (refundBody ids c tid now) db)"

definition completeRefundBody :: "AdminCommand \<Rightarrow> string \<Rightarrow> string \<Rightarrow> PaymentDb \<Rightarrow> string + jsval \<times> PaymentDb" where
  "completeRefundBody c rid reference db = (case findRow (\<lambda>r. rf_id r = rid) (refundRows db) of None \<Rightarrow> Inl P2025
   | Some r \<Rightarrow>
     if rf_status r \<noteq> CR_APPROVED \<or> rf_ledgerEntryId r = None \<or> rf_ledgerEntryId r = Some '''' then Inl ''refund_not_approved''
     else bindE (updateRefund rid (\<lambda>r. r\<lparr>rf_status := CR_COMPLETED, rf_gatewayRefundReference := Some reference,
         rf_reviewedById := ac_actorUserId c\<rparr>) db) (\<lambda>(r, db).
       Inr (JObj [(''refundId'', JStr (rf_id r)), (''status'', JStr ''COMPLETED''),
         (''gatewayRefundReferenceRecorded'', JBool True)], db)))"

definition markControlledRefundExternallyCompleted ::
  "AdminEnv \<Rightarrow> AdminAction \<Rightarrow> string \<Rightarrow> string \<Rightarrow> PaymentDb \<Rightarrow> string + jsval \<times> PaymentDb" where
  "markControlledRefundExternallyCompleted env act rid gatewayRefundReference db =
     (let reference = trim gatewayRefundReference in
      if length reference < 3 \<or> length reference > 191 then Inl ''invalid_gateway_refund_reference''
      else bindE (normalizeAdminCommand (ae_digest env) (adminInput ''controlled_topup_refund_complete''
          (aa_actorUserId act) (aa_idempotencyKey act) (aa_reason act)
          [(''refundId'', JStr rid), (''gatewayRefundReference'', JStr reference)])) (\<lambda>c.
        adminCommandTx (ae_mobiles env) c (completeRefundBody c rid reference) db))"

end
