(* ===== verification/PaymentSafety.thy ===== *)
theory PaymentSafety
  imports PaymentRecovery
begin

text \<open>
  What wallet top-ups guarantee. The transactions of \<open>TopUp\<close> and \<open>PaymentRecovery\<close>, in any order and with
  any arguments, beside the wallet commands and journal postings of other features, form a step relation; its
  reachable databases satisfy one invariant that ties top-ups, attempts, refunds, ledger and journal together.
  The handlers are sequences of such steps.
\<close>

section \<open>The invariant\<close>

definition creditOf :: "TopUpRow \<Rightarrow> LedgerEntry \<Rightarrow> bool" where
  "creditOf t e \<longleftrightarrow> le_walletId e = tu_walletId t \<and> le_direction e = CREDIT \<and> le_type e = TOP_UP \<and>
     le_amount e = tu_amount t \<and> le_status e = LS_COMPLETED \<and> le_idempotencyKey e = creditKey (tu_id t)"

definition credited :: "PaymentDb \<Rightarrow> string \<Rightarrow> bool" where
  "credited db tid \<longleftrightarrow> (\<exists>e \<in> set (ledger db). le_idempotencyKey e = creditKey tid)"

definition topUpJournalKey :: "string \<Rightarrow> string" where
  "topUpJournalKey tid = ''wallet-topup:'' @ tid @ '':succeeded:v1''"

text \<open>The journal books the amount from the gateway to the customers' liability.\<close>

definition booked :: "PaymentDb \<Rightarrow> TopUpRow \<Rightarrow> bool" where
  "booked db t \<longleftrightarrow> (\<exists>j \<in> set (journal db). je_idempotencyKey j = topUpJournalKey (tu_id t) \<and>
     accountNet ''CASH_GATEWAY'' j = tu_amount t \<and> accountNet ''CUSTOMER_WALLET_LIABILITY'' j = - tu_amount t)"

definition bonusEntryOf :: "TopUpRow \<Rightarrow> LedgerEntry \<Rightarrow> bool" where
  "bonusEntryOf t e \<longleftrightarrow> le_walletId e = tu_walletId t \<and> le_direction e = CREDIT \<and>
     map_option snd (bonusOf t) = Some (le_amount e) \<and> le_idempotencyKey e = bonusKey (tu_id t)"

definition refundOf :: "TopUpRow \<Rightarrow> LedgerEntry \<Rightarrow> bool" where
  "refundOf t e \<longleftrightarrow> le_walletId e = tu_walletId t \<and> le_direction e = DEBIT \<and> le_amount e = tu_amount t \<and>
     le_status e = LS_COMPLETED \<and> le_idempotencyKey e = refundDebitKey (tu_id t)"

definition succeededTopUps :: "PaymentDb \<Rightarrow> string set" where
  "succeededTopUps db = tu_id ` {t \<in> set (topUps db). tu_status t = TU_SUCCEEDED}"

definition succeededAttempts :: "PaymentDb \<Rightarrow> (string \<times> string) set" where
  "succeededAttempts db = (\<lambda>a. (pa_id a, pa_walletTopUpId a)) ` {a \<in> set (attempts db). pa_status a = PA_SUCCEEDED}"

definition approvedRefunds :: "PaymentDb \<Rightarrow> (string \<times> string) set" where
  "approvedRefunds db = (\<lambda>r. (rf_id r, rf_walletTopUpId r)) ` {r \<in> set (refundRows db). rf_status r \<in> {CR_APPROVED, CR_COMPLETED}}"

text \<open>The columns of a row that never change.\<close>

definition tuStatic :: "TopUpRow \<Rightarrow> string \<times> string \<times> int \<times> string option \<times> int option" where
  "tuStatic t = (tu_id t, tu_walletId t, tu_amount t, tu_couponCode t, tu_bonusRialSnapshot t)"

definition paStatic :: "AttemptRow \<Rightarrow> string \<times> string \<times> int \<times> string" where
  "paStatic a = (pa_id a, pa_walletTopUpId a, pa_amount a, pa_currency a)"

text \<open>An entry with a top-up's key belongs to a top-up.\<close>

definition keyedEntry :: "PaymentDb \<Rightarrow> LedgerEntry \<Rightarrow> bool" where
  "keyedEntry db e \<longleftrightarrow>
     (\<forall>x. le_idempotencyKey e = creditKey x \<longrightarrow> (\<exists>t \<in> set (topUps db). tu_id t = x \<and> creditOf t e)) \<and>
     (\<forall>x. le_idempotencyKey e = bonusKey x \<longrightarrow> (\<exists>t \<in> set (topUps db). tu_id t = x \<and> bonusEntryOf t e) \<and> credited db x) \<and>
     (\<forall>x. le_idempotencyKey e = refundDebitKey x \<longrightarrow> (\<exists>t \<in> set (topUps db). tu_id t = x \<and> refundOf t e) \<and> credited db x)"

definition refunded :: "PaymentDb \<Rightarrow> string \<Rightarrow> bool" where
  "refunded db tid \<longleftrightarrow> (\<exists>e \<in> set (ledger db). le_idempotencyKey e = refundDebitKey tid)"

text \<open>An attempt pays for its top-up.\<close>

definition ofTopUp :: "PaymentDb \<Rightarrow> AttemptRow \<Rightarrow> bool" where
  "ofTopUp db a \<longleftrightarrow> (\<exists>t \<in> set (topUps db). tu_id t = pa_walletTopUpId a \<and> tu_amount t = pa_amount a)"

definition paymentInv :: "PaymentDb \<Rightarrow> bool" where
  "paymentInv db \<longleftrightarrow> walletInv db \<and> journalInv db \<and>
     distinct (map tu_id (topUps db)) \<and> distinct (map pa_id (attempts db)) \<and> distinct (map rf_id (refundRows db)) \<and>
     (\<forall>t \<in> set (topUps db). 0 < tu_amount t) \<and>
     (\<forall>a \<in> set (attempts db). ofTopUp db a) \<and>
     (\<forall>e \<in> set (ledger db). keyedEntry db e) \<and>
     (\<forall>t \<in> set (topUps db). credited db (tu_id t) \<longrightarrow> booked db t) \<and>
     (\<forall>x \<in> succeededTopUps db. credited db x) \<and>
     (\<forall>x \<in> succeededAttempts db. credited db (snd x)) \<and>
     inj_on snd (succeededAttempts db) \<and>
     (\<forall>x \<in> approvedRefunds db. refunded db (snd x)) \<and> inj_on snd (approvedRefunds db)"

lemma paymentInvI:
  assumes "walletInv db" and "journalInv db" and "distinct (map tu_id (topUps db))" and "distinct (map pa_id (attempts db))"
    and "distinct (map rf_id (refundRows db))" and "\<And>t. t \<in> set (topUps db) \<Longrightarrow> 0 < tu_amount t"
    and "\<And>a. a \<in> set (attempts db) \<Longrightarrow> ofTopUp db a"
    and "\<And>e. e \<in> set (ledger db) \<Longrightarrow> keyedEntry db e"
    and "\<And>t. t \<in> set (topUps db) \<Longrightarrow> credited db (tu_id t) \<Longrightarrow> booked db t"
    and "\<And>x. x \<in> succeededTopUps db \<Longrightarrow> credited db x"
    and "\<And>x. x \<in> succeededAttempts db \<Longrightarrow> credited db (snd x)" and "inj_on snd (succeededAttempts db)"
    and "\<And>x. x \<in> approvedRefunds db \<Longrightarrow> refunded db (snd x)" and "inj_on snd (approvedRefunds db)"
  shows "paymentInv db"
  unfolding paymentInv_def using assms by (intro conjI ballI impI)

lemma paymentInvD:
  assumes "paymentInv db"
  shows "walletInv db" "journalInv db" "distinct (map tu_id (topUps db))" "distinct (map pa_id (attempts db))"
    "distinct (map rf_id (refundRows db))" "t \<in> set (topUps db) \<Longrightarrow> 0 < tu_amount t"
    "a \<in> set (attempts db) \<Longrightarrow> ofTopUp db a"
    "e \<in> set (ledger db) \<Longrightarrow> keyedEntry db e"
    "t \<in> set (topUps db) \<Longrightarrow> credited db (tu_id t) \<Longrightarrow> booked db t"
    "y \<in> succeededTopUps db \<Longrightarrow> credited db y"
    "x \<in> succeededAttempts db \<Longrightarrow> credited db (snd x)" "inj_on snd (succeededAttempts db)"
    "x \<in> approvedRefunds db \<Longrightarrow> refunded db (snd x)" "inj_on snd (approvedRefunds db)"
  using assms unfolding paymentInv_def by - (elim conjE, simp)+

lemma key_differ [simp]:
  "creditKey x = creditKey y \<longleftrightarrow> x = y" "bonusKey x = bonusKey y \<longleftrightarrow> x = y" "refundDebitKey x = refundDebitKey y \<longleftrightarrow> x = y"
  "creditKey x \<noteq> bonusKey y" "bonusKey y \<noteq> creditKey x" "creditKey x \<noteq> refundDebitKey y"
  "refundDebitKey y \<noteq> creditKey x" "bonusKey x \<noteq> refundDebitKey y" "refundDebitKey y \<noteq> bonusKey x"
  by (simp_all add: creditKey_def bonusKey_def refundDebitKey_def)

lemma static_same:
  assumes "tuStatic t' = tuStatic t"
  shows "tu_id t' = tu_id t" "creditOf t' e = creditOf t e" "bonusEntryOf t' e = bonusEntryOf t e"
    "refundOf t' e = refundOf t e" "booked db t' = booked db t" "tu_amount t' = tu_amount t"
  using assms by (simp_all add: tuStatic_def creditOf_def bonusEntryOf_def bonusOf_def refundOf_def booked_def)

text \<open>Rows that agree in their static columns have a counterpart each.\<close>

lemma static_counterpart:
  assumes "map f xs' = map f xs" and "x \<in> set xs"
  obtains x' where "x' \<in> set xs'" and "f x' = f x"
proof -
  have "f x \<in> f ` set xs'" using assms by (metis image_eqI set_map)
  then show ?thesis using that by auto
qed

section \<open>Steps that leave the money alone\<close>

text \<open>Journal entries keep their keys and lines.\<close>

definition journalKept :: "'a JournalDb_scheme \<Rightarrow> 'a JournalDb_scheme \<Rightarrow> bool" where
  "journalKept db db' \<longleftrightarrow> (\<forall>j \<in> set (journal db). \<exists>j' \<in> set (journal db').
     je_idempotencyKey j' = je_idempotencyKey j \<and> je_lines j' = je_lines j)"

lemma journalKept_refl: "journal db' = journal db \<Longrightarrow> journalKept db db'"
  by (auto simp: journalKept_def)

lemma journalKept_append: "journal db' = journal db @ js \<Longrightarrow> journalKept db db'"
  by (auto simp: journalKept_def)

lemma journalKept_trans:
  assumes "journalKept a b" and "journalKept b c"
  shows "journalKept a c"
  unfolding journalKept_def
proof
  fix j
  assume "j \<in> set (journal a)"
  then obtain k where k: "k \<in> set (journal b)" "je_idempotencyKey k = je_idempotencyKey j" "je_lines k = je_lines j"
    using assms(1) unfolding journalKept_def by blast
  then obtain l where "l \<in> set (journal c)" "je_idempotencyKey l = je_idempotencyKey k" "je_lines l = je_lines k"
    using assms(2) unfolding journalKept_def by blast
  then show "\<exists>l \<in> set (journal c). je_idempotencyKey l = je_idempotencyKey j \<and> je_lines l = je_lines j"
    using k by (intro bexI [of _ l]) simp_all
qed

lemma journalKept_mark: "journalKept db (markReversed x db)"
  unfolding journalKept_def journal_markReversed set_map
  by (rule ballI, rule bexI [OF _ imageI]) simp_all

lemma booked_kept:
  assumes "booked db t" and "journalKept db db'"
  shows "booked db' t"
proof -
  obtain j where j: "j \<in> set (journal db)" "je_idempotencyKey j = topUpJournalKey (tu_id t)"
    "accountNet ''CASH_GATEWAY'' j = tu_amount t" "accountNet ''CUSTOMER_WALLET_LIABILITY'' j = - tu_amount t"
    using assms(1) by (auto simp: booked_def)
  then obtain j' where "j' \<in> set (journal db')" "je_idempotencyKey j' = je_idempotencyKey j" "je_lines j' = je_lines j"
    using assms(2) by (auto simp: journalKept_def)
  then show ?thesis using j by (auto simp: booked_def accountNet_def)
qed

definition rowsKept :: "PaymentDb \<Rightarrow> PaymentDb \<Rightarrow> bool" where
  "rowsKept db db' \<longleftrightarrow> wallets db' = wallets db \<and> ledger db' = ledger db \<and> journal db' = journal db \<and>
     map tuStatic (topUps db') = map tuStatic (topUps db) \<and> map paStatic (attempts db') = map paStatic (attempts db) \<and>
     refundRows db' = refundRows db \<and>
     succeededTopUps db' \<subseteq> succeededTopUps db \<and> succeededAttempts db' \<subseteq> succeededAttempts db"

lemma rowsKept_refl: "rowsKept db db"
  by (simp add: rowsKept_def)

lemma rowsKept_trans: "rowsKept a b \<Longrightarrow> rowsKept b c \<Longrightarrow> rowsKept a c"
  by (auto simp: rowsKept_def)

lemma static_ids:
  assumes "map tuStatic (topUps db') = map tuStatic (topUps db)"
  shows "map tu_id (topUps db') = map tu_id (topUps db)"
proof -
  have "map fst (map tuStatic (topUps db')) = map fst (map tuStatic (topUps db))" using assms by simp
  then show ?thesis by (simp add: tuStatic_def comp_def)
qed

lemma static_attempt_ids:
  assumes "map paStatic xs = map paStatic ys"
  shows "map pa_id xs = map pa_id ys" "map pa_walletTopUpId xs = map pa_walletTopUpId ys"
proof -
  have "map fst (map paStatic xs) = map fst (map paStatic ys)"
    "map (fst \<circ> snd) (map paStatic xs) = map (fst \<circ> snd) (map paStatic ys)" using assms by (metis list.map_comp)+
  then show "map pa_id xs = map pa_id ys" "map pa_walletTopUpId xs = map pa_walletTopUpId ys"
    by (simp_all add: paStatic_def comp_def)
qed

lemma static_ex:
  assumes "\<exists>t \<in> set xs. tu_id t = x \<and> P t" and "map tuStatic ys = map tuStatic xs"
    and "\<And>t t'. tuStatic t' = tuStatic t \<Longrightarrow> P t' = P t"
  shows "\<exists>t \<in> set ys. tu_id t = x \<and> P t"
proof -
  obtain t where t: "t \<in> set xs" "tu_id t = x" "P t" using assms(1) by auto
  obtain t' where "t' \<in> set ys" "tuStatic t' = tuStatic t" by (rule static_counterpart [OF assms(2) t(1)])
  then show ?thesis using t assms(3) [of t' t] static_same(1) [of t' t] by auto
qed

lemma keyedEntryI:
  assumes "\<And>x. le_idempotencyKey e = creditKey x \<Longrightarrow> \<exists>t \<in> set (topUps db). tu_id t = x \<and> creditOf t e"
    and "\<And>x. le_idempotencyKey e = bonusKey x \<Longrightarrow> (\<exists>t \<in> set (topUps db). tu_id t = x \<and> bonusEntryOf t e) \<and> credited db x"
    and "\<And>x. le_idempotencyKey e = refundDebitKey x \<Longrightarrow> (\<exists>t \<in> set (topUps db). tu_id t = x \<and> refundOf t e) \<and> credited db x"
  shows "keyedEntry db e"
  using assms by (simp add: keyedEntry_def)

lemma keyedEntryD:
  assumes "keyedEntry db e"
  shows "le_idempotencyKey e = creditKey x \<Longrightarrow> \<exists>t \<in> set (topUps db). tu_id t = x \<and> creditOf t e"
    and "le_idempotencyKey e = bonusKey x \<Longrightarrow> (\<exists>t \<in> set (topUps db). tu_id t = x \<and> bonusEntryOf t e) \<and> credited db x"
    and "le_idempotencyKey e = refundDebitKey x \<Longrightarrow> (\<exists>t \<in> set (topUps db). tu_id t = x \<and> refundOf t e) \<and> credited db x"
  using assms by (simp_all add: keyedEntry_def)

lemma keyedEntry_static:
  assumes "keyedEntry db e" and "map tuStatic (topUps db') = map tuStatic (topUps db)"
    and "\<And>x. credited db x \<Longrightarrow> credited db' x"
  shows "keyedEntry db' e"
proof (rule keyedEntryI)
  fix x
  note K = keyedEntryD [OF assms(1), where x = x]
  show "\<exists>t \<in> set (topUps db'). tu_id t = x \<and> creditOf t e" if "le_idempotencyKey e = creditKey x"
    by (rule static_ex [OF K(1) [OF that] assms(2) static_same(2)])
  show "(\<exists>t \<in> set (topUps db'). tu_id t = x \<and> bonusEntryOf t e) \<and> credited db' x" if "le_idempotencyKey e = bonusKey x"
    using static_ex [OF conjunct1 [OF K(2) [OF that]] assms(2) static_same(3)] assms(3) [OF conjunct2 [OF K(2) [OF that]]]
    by (rule conjI)
  show "(\<exists>t \<in> set (topUps db'). tu_id t = x \<and> refundOf t e) \<and> credited db' x" if "le_idempotencyKey e = refundDebitKey x"
    using static_ex [OF conjunct1 [OF K(3) [OF that]] assms(2) static_same(4)] assms(3) [OF conjunct2 [OF K(3) [OF that]]]
    by (rule conjI)
qed

lemma journalInv_cong: "journal db' = journal db \<Longrightarrow> journalInv db' = journalInv db"
  by (simp only: journalInv_def)

text \<open>What a step has to show: the rest of the invariant only depends on the static columns.\<close>

lemma paymentInv_step:
  assumes inv: "paymentInv db" and w: "walletInv db'" "journalInv db'" "journalKept db db'"
    and led: "set (ledger db) \<subseteq> set (ledger db')"
    and new: "\<And>e. e \<in> set (ledger db') \<Longrightarrow> e \<notin> set (ledger db) \<Longrightarrow> keyedEntry db' e"
    and st: "map tuStatic (topUps db') = map tuStatic (topUps db)"
    and sa: "map paStatic (attempts db') = map paStatic (attempts db)"
    and bk: "\<And>t. t \<in> set (topUps db') \<Longrightarrow> credited db' (tu_id t) \<Longrightarrow> \<not> credited db (tu_id t) \<Longrightarrow> booked db' t"
    and su: "\<And>x. x \<in> succeededTopUps db' \<Longrightarrow> x \<notin> succeededTopUps db \<Longrightarrow> credited db' x"
    and sp: "\<And>x. x \<in> succeededAttempts db' \<Longrightarrow> x \<notin> succeededAttempts db \<Longrightarrow> credited db' (snd x)"
    and one: "inj_on snd (succeededAttempts db')"
    and rf: "distinct (map rf_id (refundRows db'))" "inj_on snd (approvedRefunds db')"
    and ra: "\<And>x. x \<in> approvedRefunds db' \<Longrightarrow> x \<notin> approvedRefunds db \<Longrightarrow> refunded db' (snd x)"
  shows "paymentInv db'"
proof -
  note i = paymentInvD [OF inv]
  have cr: "credited db' x" if "credited db x" for x using that led by (auto simp: credited_def)
  have rr: "refunded db' x" if "refunded db x" for x using that led by (auto simp: refunded_def)
  have rows: "\<exists>t0 \<in> set (topUps db). tuStatic t0 = tuStatic t" if "t \<in> set (topUps db')" for t
    using static_counterpart [OF st [symmetric] that] by metis
  show ?thesis
  proof (rule paymentInvI)
    show "distinct (map tu_id (topUps db'))" using i(3) static_ids [OF st] by simp
    show "distinct (map pa_id (attempts db'))" using i(4) static_attempt_ids(1) [OF sa] by simp
    show "0 < tu_amount t" if "t \<in> set (topUps db')" for t
      using rows [OF that] i(6) static_same(6) by metis
    show "ofTopUp db' a" if "a \<in> set (attempts db')" for a
    proof -
      note a = that
      obtain a0 where a0: "a0 \<in> set (attempts db)" "paStatic a0 = paStatic a"
        by (rule static_counterpart [OF sa [symmetric] a])
      obtain t where t: "t \<in> set (topUps db)" "tu_id t = pa_walletTopUpId a0" "tu_amount t = pa_amount a0"
        using i(7) [OF a0(1)] by (auto simp: ofTopUp_def)
      obtain t' where "t' \<in> set (topUps db')" "tuStatic t' = tuStatic t" by (rule static_counterpart [OF st t(1)])
      then show ?thesis using t a0(2) unfolding ofTopUp_def by (intro bexI [of _ t']) (simp_all add: paStatic_def tuStatic_def)
    qed
    show "keyedEntry db' e" if "e \<in> set (ledger db')" for e
      using that new keyedEntry_static [OF i(8) st cr] by blast
    show "booked db' t" if "t \<in> set (topUps db')" "credited db' (tu_id t)" for t
    proof (cases "credited db (tu_id t)")
      case True
      note t = that
      obtain t0 where "t0 \<in> set (topUps db)" "tuStatic t0 = tuStatic t" using rows [OF t(1)] by auto
      then have "booked db t" using True i(9) [of t0] static_same [of t0 t] by simp
      then show ?thesis by (rule booked_kept [OF _ w(3)])
    qed (rule bk [OF that])
    show "credited db' x" if "x \<in> succeededTopUps db'" for x using that su i(10) cr by blast
    show "credited db' (snd x)" if "x \<in> succeededAttempts db'" for x using that sp i(11) cr by blast
    show "refunded db' (snd x)" if "x \<in> approvedRefunds db'" for x using that ra i(13) rr by blast
  qed (rule w one rf)+
qed

lemma rowsKept_inv:
  assumes inv: "paymentInv db" and kept: "rowsKept db db'"
  shows "paymentInv db'"
proof -
  note i = paymentInvD [OF inv] and k = kept [unfolded rowsKept_def]
  show ?thesis
  proof (rule paymentInv_step [OF inv])
    show "walletInv db'" using i(1) k walletInv_cong [of db' db] by simp
    show "journalInv db'" using i(2) k journalInv_cong [of db' db] by simp
    show "journalKept db db'" using k by (simp add: journalKept_refl)
    show "inj_on snd (succeededAttempts db')" using i(12) k inj_on_subset by metis
    show "distinct (map rf_id (refundRows db'))" "inj_on snd (approvedRefunds db')"
      using i(5,14) k by (simp_all add: approvedRefunds_def)
    show "map tuStatic (topUps db') = map tuStatic (topUps db)" using k by (elim conjE)
    show "map paStatic (attempts db') = map paStatic (attempts db)" using k by (elim conjE)
  qed (use k in \<open>auto simp: credited_def approvedRefunds_def\<close>)
qed

text \<open>The statements that change rows without making anything succeed.\<close>

lemma topUps_kept:
  assumes "\<And>t. tuStatic (f t) = tuStatic t" and "\<And>t. tu_status (f t) = TU_SUCCEEDED \<Longrightarrow> tu_status t = TU_SUCCEEDED"
  shows "rowsKept db (db\<lparr>topUps := updateRows p f (topUps db)\<rparr>)"
proof -
  have "tu_id (f t) = tu_id t" for t using static_same(1) [OF assms(1)] .
  then have "succeededTopUps (db\<lparr>topUps := updateRows p f (topUps db)\<rparr>) \<subseteq> succeededTopUps db"
    using assms(2) by (auto simp: succeededTopUps_def set_updateRows image_iff split: if_splits)
  then show ?thesis by (simp add: rowsKept_def map_updateRows assms(1) succeededAttempts_def)
qed

lemma attempts_kept:
  assumes "\<And>a. paStatic (f a) = paStatic a" and "\<And>a. pa_status (f a) = PA_SUCCEEDED \<Longrightarrow> pa_status a = PA_SUCCEEDED"
  shows "rowsKept db (db\<lparr>attempts := updateRows p f (attempts db)\<rparr>)"
proof -
  have "pa_id (f a) = pa_id a" "pa_walletTopUpId (f a) = pa_walletTopUpId a" for a
    using assms(1) [of a] by (simp_all add: paStatic_def)
  then have "succeededAttempts (db\<lparr>attempts := updateRows p f (attempts db)\<rparr>) \<subseteq> succeededAttempts db"
    using assms(2) by (auto simp: succeededAttempts_def set_updateRows image_iff split: if_splits)
  then show ?thesis by (simp add: rowsKept_def map_updateRows assms(1) succeededTopUps_def)
qed

lemmas setTopUp_kept = topUps_kept [where p = "\<lambda>t. tu_id t = tid" for tid, folded setTopUp_def]
lemmas setAttempt_kept = attempts_kept [where p = "\<lambda>a. pa_id a = aid" for aid, folded setAttempt_def]

lemma recoveryCases_kept: "rowsKept db (db\<lparr>recoveryCases := x\<rparr>)"
  by (simp add: rowsKept_def succeededTopUps_def succeededAttempts_def)

lemma recoveryActions_kept: "rowsKept db (db\<lparr>recoveryActions := x\<rparr>)"
  by (simp add: rowsKept_def succeededTopUps_def succeededAttempts_def)

lemma receipts_kept: "rowsKept db (db\<lparr>receipts := x\<rparr>)"
  by (simp add: rowsKept_def succeededTopUps_def succeededAttempts_def)

lemma updateTopUp_Inr:
  assumes "updateTopUp tid f db = Inr (t', db')"
  obtains t where "findTopUp tid db = Some t" and "t' = f t" and "db' = setTopUp tid f db"
  using assms by (auto simp: updateTopUp_def split: option.split_asm if_split_asm)

lemma updateAttempt_Inr:
  assumes "updateAttempt aid f db = Inr (a', db')"
  obtains a where "findAttempt aid db = Some a" and "a' = f a" and "db' = setAttempt aid f db"
  using assms by (auto simp: updateAttempt_def split: option.split_asm if_split_asm)

lemma persisted_static [simp]:
  "paStatic (attemptPersisted st p a) = paStatic a" "pa_status (attemptPersisted st p a) = st"
  "tuStatic (topUpPersisted p x t) = tuStatic t" "tu_status (topUpPersisted p x t) = TU_PENDING"
  by (simp_all add: attemptPersisted_def topUpPersisted_def paStatic_def tuStatic_def)

lemma failCreation_kept: "rowsKept db (failCreation aid tid code db)"
proof -
  let ?db1 = "db\<lparr>attempts := updateRows (\<lambda>a. pa_id a = aid \<and> pa_status a \<noteq> PA_SUCCEEDED)
    (\<lambda>a. a\<lparr>pa_status := PA_FAILED, pa_failureCode := Some code\<rparr>) (attempts db)\<rparr>"
  have "rowsKept db ?db1" by (rule attempts_kept) (simp_all add: paStatic_def)
  moreover have "rowsKept ?db1 (?db1\<lparr>topUps := updateRows (\<lambda>t. tu_id t = tid \<and> tu_status t \<noteq> TU_SUCCEEDED)
    (\<lambda>t. t\<lparr>tu_status := TU_FAILED, tu_failureCode := Some code\<rparr>) (topUps ?db1)\<rparr>)"
    by (rule topUps_kept) (simp_all add: tuStatic_def)
  ultimately have "rowsKept db (?db1\<lparr>topUps := updateRows (\<lambda>t. tu_id t = tid \<and> tu_status t \<noteq> TU_SUCCEEDED)
    (\<lambda>t. t\<lparr>tu_status := TU_FAILED, tu_failureCode := Some code\<rparr>) (topUps ?db1)\<rparr>)" by (rule rowsKept_trans)
  then show ?thesis by (simp add: failCreation_def)
qed

lemma updateAttempt_kept:
  assumes "updateAttempt aid f db = Inr (a', db')" and "\<And>a. paStatic (f a) = paStatic a"
    and "\<And>a. pa_status (f a) = PA_SUCCEEDED \<Longrightarrow> pa_status a = PA_SUCCEEDED"
  shows "rowsKept db db'"
  using assms(1) by (rule updateAttempt_Inr) (use assms(2,3) in \<open>simp add: setAttempt_kept\<close>)

lemma updateTopUp_kept:
  assumes "updateTopUp tid f db = Inr (t', db')" and "\<And>t. tuStatic (f t) = tuStatic t"
    and "\<And>t. tu_status (f t) = TU_SUCCEEDED \<Longrightarrow> tu_status t = TU_SUCCEEDED"
  shows "rowsKept db db'"
  using assms(1) by (rule updateTopUp_Inr) (use assms(2,3) in \<open>simp add: setTopUp_kept\<close>)

lemma persistPayment_kept:
  assumes "persistPayment pp p db = Inr (x, db')"
  shows "rowsKept db db'"
proof -
  obtain a db1 t where 1: "updateAttempt (pp_attemptId pp) (attemptPersisted PA_PENDING p) db = Inr (a, db1)"
    "updateTopUp (pp_topUpId pp) (\<lambda>t. (topUpPersisted p None t)\<lparr>tu_gateway := pp_gateway pp\<rparr>) db1 = Inr (t, db')"
    using assms by (auto simp: persistPayment_def bindE_eq_Inr)
  have "rowsKept db db1" by (rule updateAttempt_kept [OF 1(1)]) simp_all
  moreover have "rowsKept db1 db'"
    by (rule updateTopUp_kept [OF 1(2)]) (simp_all add: topUpPersisted_def tuStatic_def)
  ultimately show ?thesis by (rule rowsKept_trans)
qed

lemma persistForReview_kept:
  assumes "persistForReview pp p now db = Inr (u, db')"
  shows "rowsKept db db'"
proof -
  let ?f = "\<lambda>a. (attemptPersisted PA_REVIEW p a)\<lparr>pa_failureCode := Some PersistFailed,
       pa_nextReconcileAt := Some (nextReconcileAt now)\<rparr>"
  obtain a db1 db2 cases' where 1: "updateAttempt (pp_attemptId pp) ?f db = Inr (a, db1)"
    and 2: "(case findTopUp (pp_topUpId pp) db1 of None \<Rightarrow> Inr db1
        | Some t \<Rightarrow> if tu_status t = TU_SUCCEEDED then Inr db1
            else bindE (updateTopUp (pp_topUpId pp) (topUpPersisted p (Some PersistFailed)) db1) (\<lambda>(_, db). Inr db)) = Inr db2"
    and 3: "db' = db2\<lparr>recoveryCases := cases'\<rparr>"
    using assms by (auto simp: persistForReview_def bindE_eq_Inr)
  have "rowsKept db db1" by (rule updateAttempt_kept [OF 1]) (simp_all add: attemptPersisted_def paStatic_def)
  moreover have "rowsKept db1 db2"
    using 2 by (auto simp: bindE_eq_Inr rowsKept_refl split: option.split_asm if_split_asm elim!: updateTopUp_kept)
  ultimately have "rowsKept db db2" by (rule rowsKept_trans)
  then show ?thesis unfolding 3 by (rule rowsKept_trans [OF _ recoveryCases_kept])
qed

lemma recordPaymentReview_kept:
  assumes "recordPaymentReview r now aid db = Inr (x, db')"
  shows "rowsKept db db'"
proof -
  obtain a t where at: "findAttempt aid db = Some a" "findTopUp (pa_walletTopUpId a) db = Some t"
    using assms by (auto simp: recordPaymentReview_def split: option.split_asm)
  show ?thesis
  proof (cases "pa_status a = PA_SUCCEEDED")
    case True
    then show ?thesis using assms at by (simp add: recordPaymentReview_def rowsKept_refl)
  next
    case False
    let ?next = "if rw_transient r then Some (nextReconcileAt now) else None"
    let ?f = "\<lambda>a. a\<lparr>pa_status := PA_REVIEW, pa_failureCode := Some (rw_reasonCode r), pa_nextReconcileAt := ?next\<rparr>"
    let ?g = "\<lambda>t. t\<lparr>tu_status := TU_PENDING, tu_failureCode := Some (rw_reasonCode r)\<rparr>"
    let ?db1 = "setAttempt aid ?f db"
    let ?db2 = "if tu_status t = TU_SUCCEEDED then ?db1 else setTopUp (tu_id t) ?g ?db1"
    have "rowsKept db ?db1" by (rule setAttempt_kept) (simp_all add: paStatic_def)
    moreover have g: "rowsKept ?db1 (setTopUp (tu_id t) ?g ?db1)" by (rule setTopUp_kept) (simp_all add: tuStatic_def)
    have "rowsKept ?db1 ?db2"
      by (cases "tu_status t = TU_SUCCEEDED") (simp_all only: rowsKept_refl g if_True if_False simp_thms)
    ultimately have 2: "rowsKept db ?db2" by (rule rowsKept_trans)
    have "\<exists>c. db' = ?db2\<lparr>recoveryCases := c\<rparr>"
      using assms at False by (simp add: recordPaymentReview_def Let_def split del: if_split) metis
    then show ?thesis using rowsKept_trans [OF 2 recoveryCases_kept] by auto
  qed
qed

lemma recordTerminalFailure_kept:
  assumes "recordTerminalFailure code now aid db = Inr (x, db')"
  shows "rowsKept db db'"
proof -
  obtain a t where at: "findAttempt aid db = Some a" "findTopUp (pa_walletTopUpId a) db = Some t"
    using assms by (auto simp: recordTerminalFailure_def split: option.split_asm)
  show ?thesis
  proof (cases "pa_status a = PA_SUCCEEDED \<or> tu_status t = TU_SUCCEEDED")
    case True
    then show ?thesis using assms at by (simp add: recordTerminalFailure_def rowsKept_refl)
  next
    case False
    let ?f = "\<lambda>a. a\<lparr>pa_status := (if code = ''canceled'' then PA_CANCELED else PA_FAILED), pa_failureCode := Some code,
      pa_nextReconcileAt := None, pa_verificationAttempts := pa_verificationAttempts a + 1\<rparr>"
    let ?g = "\<lambda>t. t\<lparr>tu_status := (if code = ''canceled'' then TU_CANCELED else TU_FAILED), tu_failureCode := Some code\<rparr>"
    have "rowsKept db (setAttempt aid ?f db)" by (rule setAttempt_kept) (simp_all add: paStatic_def split: if_split_asm)
    moreover have "rowsKept (setAttempt aid ?f db) (setTopUp (tu_id t) ?g (setAttempt aid ?f db))"
      by (rule setTopUp_kept) (simp_all add: tuStatic_def split: if_split_asm)
    ultimately have 2: "rowsKept db (setTopUp (tu_id t) ?g (setAttempt aid ?f db))" by (rule rowsKept_trans)
    have "\<exists>c. db' = (setTopUp (tu_id t) ?g (setAttempt aid ?f db))\<lparr>recoveryCases := c\<rparr>"
      using assms at False by (auto simp: recordTerminalFailure_def Let_def)
    then show ?thesis using rowsKept_trans [OF 2 recoveryCases_kept] by auto
  qed
qed

lemma countVerification_kept: "rowsKept db (countVerification aid db)"
  unfolding countVerification_def by (rule attempts_kept) (simp_all add: paStatic_def)

lemma stampVerified_kept:
  assumes "stampVerified v now aid db = Inr (u, db')"
  shows "rowsKept db db'"
  using assms by (auto simp: stampVerified_def bindE_eq_Inr rowsKept_refl paStatic_def
      split: option.split_asm if_split_asm elim!: updateAttempt_kept)

lemma expireAttempt_kept: "rowsKept db (snd (expireAttempt now a db))"
  by (auto simp: expireAttempt_def rowsKept_refl intro!: setAttempt_kept) (simp_all add: paStatic_def)

section \<open>New rows\<close>

lemma keyedEntry_more:
  assumes "keyedEntry db e" and "set (topUps db) \<subseteq> set (topUps db')" and "ledger db' = ledger db"
  shows "keyedEntry db' e"
  using assms by (fastforce simp: keyedEntry_def credited_def)

lemma insertTopUp_inv:
  assumes inv: "paymentInv db" and ins: "insertTopUp t db = Inr db'" and t: "tu_status t = TU_CREATED" "0 < tu_amount t"
  shows "paymentInv db'"
proof -
  note i = paymentInvD [OF inv]
  have db': "db' = db\<lparr>topUps := topUps db @ [t]\<rparr>" and fresh: "tu_id t \<notin> tu_id ` set (topUps db)"
    using ins by (auto simp: insertTopUp_def split: if_split_asm)
  have nc: "\<not> credited db (tu_id t)"
  proof
    assume "credited db (tu_id t)"
    then obtain e where e: "e \<in> set (ledger db)" "le_idempotencyKey e = creditKey (tu_id t)" by (auto simp: credited_def)
    obtain u where "u \<in> set (topUps db)" "tu_id u = tu_id t" using keyedEntryD(1) [OF i(8) [OF e(1)] e(2)] by auto
    then show False using fresh by (metis image_eqI)
  qed
  have same: "credited db' = credited db" "refunded db' = refunded db" "approvedRefunds db' = approvedRefunds db"
    "succeededTopUps db' = succeededTopUps db" "succeededAttempts db' = succeededAttempts db" "booked db' = booked db"
    using t(1) by (auto simp: db' credited_def refunded_def approvedRefunds_def succeededTopUps_def
        succeededAttempts_def booked_def fun_eq_iff)
  show ?thesis
  proof (rule paymentInvI)
    show "walletInv db'" using i(1) walletInv_cong [of db' db] by (simp add: db')
    show "journalInv db'" using i(2) journalInv_cong [of db' db] by (simp add: db')
    show "keyedEntry db' e" if "e \<in> set (ledger db')" for e
      by (rule keyedEntry_more [of db]) (use that i(8) in \<open>auto simp: db'\<close>)
    show "booked db' u" if "u \<in> set (topUps db')" "credited db' (tu_id u)" for u
    proof -
      have "u \<in> set (topUps db)" using that nc by (auto simp: db' credited_def)
      then show ?thesis using that(2) i(9) by (simp only: same)
    qed
    show "distinct (map tu_id (topUps db'))" using i(3) fresh by (simp add: db')
    show "0 < tu_amount u" if "u \<in> set (topUps db')" for u using that i(6) t(2) by (auto simp: db')
    show "ofTopUp db' a" if "a \<in> set (attempts db')" for a
      using that i(7) [of a] by (auto simp: db' ofTopUp_def)
    show "distinct (map pa_id (attempts db'))" using i(4) by (simp add: db')
    show "distinct (map rf_id (refundRows db'))" using i(5) by (simp add: db')
    show "credited db' x" if "x \<in> succeededTopUps db'" for x using that i(10) by (simp only: same)
    show "credited db' (snd x)" if "x \<in> succeededAttempts db'" for x using that i(11) by (simp only: same)
    show "inj_on snd (succeededAttempts db')" using i(12) by (simp only: same)
    show "refunded db' (snd x)" if "x \<in> approvedRefunds db'" for x using that i(13) by (simp only: same)
    show "inj_on snd (approvedRefunds db')" using i(14) by (simp only: same)
  qed
qed

lemma insertAttempt_inv:
  assumes inv: "paymentInv db" and ins: "insertAttempt a db = Inr db'" and a: "pa_status a = PA_CREATED"
    "ofTopUp db a"
  shows "paymentInv db'"
proof -
  note i = paymentInvD [OF inv]
  have db': "db' = db\<lparr>attempts := attempts db @ [a]\<rparr>" and fresh: "pa_id a \<notin> pa_id ` set (attempts db)"
    using ins by (auto simp: insertAttempt_def split: if_split_asm)
  have same: "credited db' = credited db" "refunded db' = refunded db" "approvedRefunds db' = approvedRefunds db"
    "succeededTopUps db' = succeededTopUps db" "succeededAttempts db' = succeededAttempts db" "booked db' = booked db"
    using a(1) by (auto simp: db' credited_def refunded_def approvedRefunds_def succeededTopUps_def
        succeededAttempts_def booked_def fun_eq_iff)
  show ?thesis
  proof (rule paymentInvI)
    show "walletInv db'" using i(1) walletInv_cong [of db' db] by (simp add: db')
    show "journalInv db'" using i(2) journalInv_cong [of db' db] by (simp add: db')
    show "keyedEntry db' e" if "e \<in> set (ledger db')" for e
      by (rule keyedEntry_more [of db]) (use that i(8) in \<open>auto simp: db'\<close>)
    show "distinct (map pa_id (attempts db'))" using i(4) fresh by (simp add: db')
    show "ofTopUp db' x" if "x \<in> set (attempts db')" for x
      using that i(7) [of x] a(2) by (auto simp: db' ofTopUp_def)
    show "distinct (map tu_id (topUps db'))" using i(3) by (simp add: db')
    show "0 < tu_amount u" if "u \<in> set (topUps db')" for u using that i(6) by (simp add: db')
    show "booked db' u" if "u \<in> set (topUps db')" "credited db' (tu_id u)" for u
      using that i(9) [of u] by (simp only: same) (simp add: db')
    show "distinct (map rf_id (refundRows db'))" using i(5) by (simp add: db')
    show "credited db' x" if "x \<in> succeededTopUps db'" for x using that i(10) by (simp only: same)
    show "credited db' (snd x)" if "x \<in> succeededAttempts db'" for x using that i(11) by (simp only: same)
    show "inj_on snd (succeededAttempts db')" using i(12) by (simp only: same)
    show "refunded db' (snd x)" if "x \<in> approvedRefunds db'" for x using that i(13) by (simp only: same)
    show "inj_on snd (approvedRefunds db')" using i(14) by (simp only: same)
  qed
qed

lemma openTopUp_inv:
  assumes inv: "paymentInv db" and run: "openTopUp ids wid amount gw h now opts db = Inr (u, db')" and pos: "0 < amount"
  shows "paymentInv db'"
proof -
  obtain db1 where 1: "insertTopUp (newTopUp (ii_topUp ids) wid amount gw h now opts) db = Inr db1"
    and 2: "insertAttempt (newAttempt (ii_attempt ids) (ii_topUp ids) 1 amount gw h now
       (''payment-attempt:'' @ ii_topUp ids @ '':1'')) db1 = Inr db'"
    using run by (auto simp: openTopUp_def bindE_eq_Inr)
  have "paymentInv db1" by (rule insertTopUp_inv [OF inv 1]) (simp_all add: newTopUp_def pos)
  then show ?thesis
    by (rule insertAttempt_inv [OF _ 2]) (use 1 in \<open>auto simp: newAttempt_def newTopUp_def insertTopUp_def ofTopUp_def split: if_split_asm\<close>)
qed

lemma reopenTx_inv:
  assumes inv: "paymentInv db" and run: "reopenTx newId userId tid gw h now key db = Inr (t, db')"
  shows "paymentInv db'"
proof -
  obtain latest db1 where ex: "expireLatest now tid db = (latest, db1)" by (cases "expireLatest now tid db")
  have kept: "rowsKept db db1"
  proof (cases "latestAttempt tid db")
    case None
    then show ?thesis using ex by (simp add: expireLatest_def rowsKept_refl)
  next
    case (Some a)
    then have "db1 = snd (expireAttempt now a db)" using ex by (simp add: expireLatest_def Let_def split: prod.split_asm)
    then show ?thesis using expireAttempt_kept by simp
  qed
  obtain t' where t: "findTopUp tid db = Some t'" using run by (auto simp: reopenTx_def split: option.split_asm)
  obtain db2 n where 2: "insertAttempt (newAttempt newId tid n (tu_amount t') gw h now key) db1 = Inr db2"
    "db' = setTopUp tid (topUpReopened gw h now) db2"
    using run by (auto simp: reopenTx_def t ex bindE_eq_Inr split: if_split_asm)
  have t': "t' \<in> set (topUps db)" "tu_id t' = tid" using findRow_Some [OF t [unfolded findTopUp_def]] by simp_all
  have st: "map tuStatic (topUps db1) = map tuStatic (topUps db)" using kept by (simp add: rowsKept_def)
  obtain u where "u \<in> set (topUps db1)" "tuStatic u = tuStatic t'" by (rule static_counterpart [OF st t'(1)])
  then have "ofTopUp db1 (newAttempt newId tid n (tu_amount t') gw h now key)"
    unfolding ofTopUp_def using t'(2) by (intro bexI [of _ u]) (simp_all add: newAttempt_def tuStatic_def)
  then have "paymentInv db2"
    by (intro insertAttempt_inv [OF rowsKept_inv [OF inv kept] 2(1)]) (simp_all add: newAttempt_def)
  moreover have "rowsKept db2 db'" unfolding 2(2)
    by (rule setTopUp_kept) (simp_all add: topUpReopened_def tuStatic_def)
  ultimately show ?thesis by (rule rowsKept_inv)
qed

text \<open>The administrators' transactions that only move rows.\<close>

lemma ensureCase_kept: "rowsKept db (ensureCase r db)"
  by (simp add: ensureCase_def rowsKept_refl recoveryCases_kept)

lemma insertAction_kept: "insertAction r db = Inr db' \<Longrightarrow> rowsKept db db'"
  by (auto simp: insertAction_def recoveryActions_kept split: if_split_asm)

lemma attemptActionBody_kept:
  assumes "attemptActionBody c aid code snapshot now db = Inr (x, db')"
  shows "rowsKept db db'"
  using assms by (auto simp: attemptActionBody_def Let_def bindE_eq_Inr split: option.split_asm
      intro: rowsKept_trans [OF ensureCase_kept insertAction_kept])

lemma markFailedBody_kept:
  assumes "markFailedBody c aid now db = Inr (x, db')"
  shows "rowsKept db db'"
proof -
  let ?f = "\<lambda>a. a\<lparr>pa_status := PA_FAILED, pa_failureCode := Some AdminFailed, pa_nextReconcileAt := None\<rparr>"
  let ?g = "\<lambda>t. t\<lparr>tu_status := TU_FAILED, tu_failureCode := Some AdminFailed\<rparr>"
  let ?h = "\<lambda>r. r\<lparr>pr_status := PR_DEFINITIVELY_FAILED, pr_resolvedAt := Some now, pr_nextAttemptAt := None\<rparr>"
  obtain a t where at: "findAttempt aid db = Some a" "findTopUp (pa_walletTopUpId a) db = Some t"
    using assms by (auto simp: markFailedBody_def split: option.split_asm)
  let ?db3 = "ensureCase (openCase a AdminFailed None None None) (setTopUp (tu_id t) ?g (setAttempt aid ?f db))"
  have 1: "insertAction (actionRow c aid ''definitively_failed'')
      (?db3\<lparr>recoveryCases := updateRows (\<lambda>r. pr_attemptId r = aid) ?h (recoveryCases ?db3)\<rparr>) = Inr db'"
    using assms at by (auto simp: markFailedBody_def Let_def bindE_eq_Inr split: if_split_asm)
  have "rowsKept db (setAttempt aid ?f db)" by (rule setAttempt_kept) (simp_all add: paStatic_def)
  moreover have "rowsKept (setAttempt aid ?f db) (setTopUp (tu_id t) ?g (setAttempt aid ?f db))"
    by (rule setTopUp_kept) (simp_all add: tuStatic_def)
  ultimately have "rowsKept db (setTopUp (tu_id t) ?g (setAttempt aid ?f db))" by (rule rowsKept_trans)
  then show ?thesis
    by (rule rowsKept_trans [OF rowsKept_trans [OF rowsKept_trans [OF _ ensureCase_kept] recoveryCases_kept] insertAction_kept [OF 1]])
qed

section \<open>The journal\<close>

lemma sameLine_net: "list_all2 sameLine xs ys \<Longrightarrow> lineNet code xs = lineNet code ys"
  by (induction rule: list_all2_induct) (simp_all add: lineNet_def sameLine_def)

lemma lineNet_mset: "mset xs = mset ys \<Longrightarrow> lineNet code xs = lineNet code ys"
  unfolding lineNet_def sum_mset_sum_list [symmetric] mset_map by simp

text \<open>A posting leaves an entry with its key and its lines' effect on every account.\<close>

lemma posted_entry:
  assumes "postJournalEntryTx newId i db = Inr (e, db')"
  shows "e \<in> set (journal db') \<and> je_idempotencyKey e = trim (pj_idempotencyKey i) \<and>
    (\<forall>code. accountNet code e = lineNet code (pj_lines i)) \<and> journalKept db db'"
  using assms
proof (cases rule: postJournalEntryTx_Inr)
  case (replay normalized)
  have "list_all2 sameLine (sortBy bySortOrder (je_lines e)) normalized"
    using replay(4) by (auto simp: assertReplayMatch_def bindE_eq_Inr split: if_split_asm)
  from sameLine_net [OF this] have "lineNet code (je_lines e) = lineNet code normalized" for code
    using lineNet_mset [OF mset_sortBy, of code bySortOrder "je_lines e"] by simp
  then show ?thesis
    using findJournalKey_Some [OF replay(3)] replay(2) validateLines_Inr(2) [OF replay(1)]
    by (simp add: accountNet_lineNet lineNet_normalized journalKept_refl)
next
  case (create normalized)
  have "journalKept db db'" by (rule journalKept_append [of _ _ "[e]"]) (simp add: create(3))
  then show ?thesis using validateLines_Inr(2) [OF create(1)] create(2,3)
    by (simp add: accountNet_lineNet lineNet_normalized)
qed

lemma posted_rest:
  "postJournalEntryTx newId i db = Inr (e, db') \<Longrightarrow> \<exists>js. db' = db\<lparr>journal := js\<rparr>"
  by (erule postJournalEntryTx_Inr) (auto intro: exI [of _ "journal db"])

lemma reversed_kept:
  assumes "journalInv db" and "reverseJournalEntryTx newId now j db = Inr (e, db')"
  shows "journalKept db db' \<and> (\<exists>js. db' = db\<lparr>journal := js\<rparr>)"
  using assms
proof (cases rule: reverseJournalEntryTx_Inr)
  case (create o' db1)
  obtain js where "db1 = db\<lparr>journal := js\<rparr>" using posted_rest [OF create(4)] by (elim exE)
  then have "\<exists>js. db' = db\<lparr>journal := js\<rparr>" unfolding create(5) markReversed_def by (intro exI) simp
  moreover have "journalKept db db'"
    unfolding create(5) using posted_entry [OF create(4)] by (intro journalKept_trans [OF _ journalKept_mark]) simp
  ultimately show ?thesis by simp
next
  case known
  then show ?thesis by (simp add: journalKept_refl) (rule exI [of _ "journal db"], simp)
next
  case reversed
  then show ?thesis by (simp add: journalKept_refl) (rule exI [of _ "journal db"], simp)
qed

lemma topUpInput [simp]:
  "pj_idempotencyKey (walletTopUpSucceeded tid a v c) = topUpJournalKey tid"
  "pj_reversesEntryId (walletTopUpSucceeded tid a v c) = None"
  "lineNet ''CASH_GATEWAY'' (pj_lines (walletTopUpSucceeded tid a v c)) = a"
  "lineNet ''CUSTOMER_WALLET_LIABILITY'' (pj_lines (walletTopUpSucceeded tid a v c)) = - a"
  by (simp_all add: walletTopUpSucceeded_def topUpJournalKey_def)

lemma topUpJournalKey_trim [simp]: "trim (topUpJournalKey tid) = topUpJournalKey tid"
  unfolding topUpJournalKey_def by (rule trim_ends) (simp_all add: isSpace_def)

lemma postTopUp_Inr:
  assumes "postTopUp ids t db = Inr db'" and "journalInv db"
  shows "booked db' t" and "journalInv db'" and "journalKept db db'" and "\<exists>js. db' = db\<lparr>journal := js\<rparr>"
proof -
  let ?i = "walletTopUpSucceeded (tu_id t) (tu_amount t) (tu_verifiedAt t) (tu_createdAt t)"
  obtain e where e: "postJournalEntryTx (si_journal ids) ?i db = Inr (e, db')"
    using assms(1) by (auto simp: postTopUp_def postWalletTopUpSucceeded_def postJournalEntry_def bindE_eq_Inr)
  show "booked db' t" unfolding booked_def
    by (rule bexI [of _ e]) (use posted_entry [OF e] in simp_all)
  show "journalInv db'" by (rule post_preserves_inv [OF assms(2) e]) simp
  show "journalKept db db'" using posted_entry [OF e] by simp
  show "\<exists>js. db' = db\<lparr>journal := js\<rparr>" by (rule posted_rest [OF e])
qed

section \<open>Money\<close>

text \<open>Postings touch the wallet tables alone.\<close>

definition moneyOnly :: "PaymentDb \<Rightarrow> PaymentDb \<Rightarrow> bool" where
  "moneyOnly db db' \<longleftrightarrow> topUps db' = topUps db \<and> attempts db' = attempts db \<and> refundRows db' = refundRows db \<and>
     journal db' = journal db"

lemma moneyOnly_trans: "moneyOnly a b \<Longrightarrow> moneyOnly b c \<Longrightarrow> moneyOnly a c"
  by (simp add: moneyOnly_def)

lemma updateBalance_rows [simp]:
  "topUps (updateBalance wid d db) = topUps db" "attempts (updateBalance wid d db) = attempts db"
  "refundRows (updateBalance wid d db) = refundRows db" "journal (updateBalance wid d db) = journal db"
  "coupons (updateBalance wid d db) = coupons db" "redemptions (updateBalance wid d db) = redemptions db"
  "recoveryCases (updateBalance wid d db) = recoveryCases db"
  by (simp_all add: updateBalance_def)

lemma topUpEntry_simps [simp]:
  "le_walletId (topUpEntry n ty rt k t a b) = tu_walletId t" "le_amount (topUpEntry n ty rt k t a b) = a"
  "le_idempotencyKey (topUpEntry n ty rt k t a b) = k" "le_direction (topUpEntry n ty rt k t a b) = CREDIT"
  "le_status (topUpEntry n ty rt k t a b) = LS_COMPLETED" "le_type (topUpEntry n ty rt k t a b) = ty"
  "le_balanceAfter (topUpEntry n ty rt k t a b) = b" "signed (topUpEntry n ty rt k t a b) = a"
  by (simp_all add: topUpEntry_def signed_def)

lemma postCredit_Inr:
  assumes inv: "walletInv db" and run: "postCredit newId ty refType key t amount db = Inr db'" and pos: "0 < amount"
  obtains b where "walletInv db'" and "ledger db' = ledger db @ [topUpEntry newId ty refType key t amount b]"
    and "moneyOnly db db'" and "coupons db' = coupons db" and "redemptions db' = redemptions db"
proof -
  let ?db1 = "updateBalance (tu_walletId t) amount db"
  obtain w1 where w1: "findWallet (tu_walletId t) ?db1 = Some w1"
    "insertEntry (topUpEntry newId ty refType key t amount (w_availableBalance w1)) ?db1 =
       Inr (topUpEntry newId ty refType key t amount (w_availableBalance w1), db')"
    using run by (auto simp: postCredit_def Let_def bindE_eq_Inr insertEntry_Inr split: option.split_asm)
  obtain w where w: "findWallet (tu_walletId t) db = Some w" "w1 = addBalance amount w"
    using w1(1) by (auto simp: findWallet_updateBalance)
  have "0 \<le> w_availableBalance w" using walletInv_balance(2) [OF inv w(1)] .
  then have "walletInv db'"
    by (intro post_preserves [OF inv w(1) w1(2)]) (use pos w(2) in simp_all)
  moreover have "db' = ?db1\<lparr>ledger := ledger db @ [topUpEntry newId ty refType key t amount (w_availableBalance w1)]\<rparr>"
    using w1(2) by (simp add: insertEntry_Inr)
  ultimately show ?thesis
    by (intro that [of "w_availableBalance w1"]) (simp_all add: moneyOnly_def)
qed

lemma redeemBonus_Inr:
  assumes "redeemBonus userId code t bonus db = Inr db'"
  shows "wallets db' = wallets db" "ledger db' = ledger db" "moneyOnly db db'"
proof -
  have "wallets db' = wallets db \<and> ledger db' = ledger db \<and> moneyOnly db db'"
    using assms by (auto simp: redeemBonus_def recordCouponRedemptionTx_def bindE_eq_Inr moneyOnly_def
        split: option.split_asm if_split_asm)
  then show "wallets db' = wallets db" "ledger db' = ledger db" "moneyOnly db db'" by simp_all
qed

lemma bonusOf_pos: "bonusOf t = Some (code, bonus) \<Longrightarrow> 0 < bonus"
  by (auto simp: bonusOf_def split: option.split_asm if_split_asm)

text \<open>Crediting a top-up appends its credit and, when it carries a bonus, the bonus.\<close>

lemma creditTopUp_Inr:
  assumes inv: "walletInv db" and run: "creditTopUp ids userId t db = Inr db'" and pos: "0 < tu_amount t"
  obtains c es where "walletInv db'" and "ledger db' = ledger db @ c # es" and "creditOf t c"
    and "\<And>e. e \<in> set es \<Longrightarrow> bonusEntryOf t e" and "moneyOnly db db'"
proof -
  obtain db1 where 1: "postCredit (si_credit ids) TOP_UP ''wallet_topup'' (creditKey (tu_id t)) t (tu_amount t) db = Inr db1"
    and 2: "(case bonusOf t of None \<Rightarrow> Inr db1 | Some (code, bonus) \<Rightarrow>
         bindE (postCredit (si_bonus ids) TOP_UP_BONUS ''wallet_topup_bonus'' (bonusKey (tu_id t)) t bonus db1)
           (redeemBonus userId code t bonus)) = Inr db'"
    using run by (auto simp: creditTopUp_def bindE_eq_Inr)
  obtain b where b: "walletInv db1" "ledger db1 = ledger db @ [topUpEntry (si_credit ids) TOP_UP ''wallet_topup''
      (creditKey (tu_id t)) t (tu_amount t) b]" "moneyOnly db db1"
    using postCredit_Inr [OF inv 1 pos] by metis
  have c: "creditOf t (topUpEntry (si_credit ids) TOP_UP ''wallet_topup'' (creditKey (tu_id t)) t (tu_amount t) b)"
    by (simp add: creditOf_def)
  show ?thesis
  proof (cases "bonusOf t")
    case None
    then have "db' = db1" using 2 by simp
    then show ?thesis using that [of _ "[]"] b c by simp
  next
    case (Some cb)
    obtain code bonus where cb: "cb = (code, bonus)" by (cases cb)
    obtain db2 where 3: "postCredit (si_bonus ids) TOP_UP_BONUS ''wallet_topup_bonus'' (bonusKey (tu_id t)) t bonus db1 = Inr db2"
      and 4: "redeemBonus userId code t bonus db2 = Inr db'"
      using 2 Some by (auto simp: cb bindE_eq_Inr)
    obtain b2 where b2: "walletInv db2" "ledger db2 = ledger db1 @ [topUpEntry (si_bonus ids) TOP_UP_BONUS
        ''wallet_topup_bonus'' (bonusKey (tu_id t)) t bonus b2]" "moneyOnly db1 db2"
      using postCredit_Inr [OF b(1) 3] bonusOf_pos Some cb by metis
    have "walletInv db'" using b2(1) redeemBonus_Inr(1,2) [OF 4] walletInv_cong by metis
    moreover have "moneyOnly db db'" using b(3) b2(3) redeemBonus_Inr(3) [OF 4] by (metis moneyOnly_trans)
    ultimately show ?thesis
      using that [of _ "[topUpEntry (si_bonus ids) TOP_UP_BONUS ''wallet_topup_bonus'' (bonusKey (tu_id t)) t bonus b2]"]
        b(2) b2(2) redeemBonus_Inr(2) [OF 4] c Some cb by (simp add: bonusEntryOf_def)
  qed
qed

lemma succeeded_static [simp]:
  "tuStatic (topUpSucceeded gw v now t) = tuStatic t" "tu_status (topUpSucceeded gw v now t) = TU_SUCCEEDED"
  "paStatic (attemptSucceeded v now a) = paStatic a" "pa_status (attemptSucceeded v now a) = PA_SUCCEEDED"
  "pa_id (attemptSucceeded v now a) = pa_id a" "pa_walletTopUpId (attemptSucceeded v now a) = pa_walletTopUpId a"
  "tu_id (topUpSucceeded gw v now t) = tu_id t"
  by (simp_all add: topUpSucceeded_def attemptSucceeded_def tuStatic_def paStatic_def)

lemma finishSettlement_Inr:
  assumes run: "finishSettlement ids v now a c db = Inr (r, db')" and j: "journalInv db"
  obtains t a0 where "findTopUp (pa_walletTopUpId a) db = Some t" and "findAttempt (pa_id a) db = Some a0"
    and "r = \<lparr>sa_topUp = topUpSucceeded (pa_gateway a) v now t, sa_attempt = attemptSucceeded v now a0, sa_credited = c,
      sa_duplicate = False\<rparr>"
    and "attempts db' = updateRows (\<lambda>x. pa_id x = pa_id a) (attemptSucceeded v now) (attempts db)"
    and "topUps db' = updateRows (\<lambda>x. tu_id x = pa_walletTopUpId a) (topUpSucceeded (pa_gateway a) v now) (topUps db)"
    and "wallets db' = wallets db" and "ledger db' = ledger db" and "refundRows db' = refundRows db"
    and "booked db' t" and "journalInv db'" and "journalKept db db'"
proof -
  obtain a1 db1 t1 db2 where 1: "updateAttempt (pa_id a) (attemptSucceeded v now) db = Inr (a1, db1)"
    and 2: "updateTopUp (pa_walletTopUpId a) (topUpSucceeded (pa_gateway a) v now) db1 = Inr (t1, db2)"
    and 3: "postTopUp ids t1 (db2\<lparr>recoveryCases := updateRows (\<lambda>c. pr_attemptId c = pa_id a)
           (\<lambda>c. c\<lparr>pr_status := PR_RESOLVED, pr_resolvedAt := Some now, pr_nextAttemptAt := None\<rparr>) (recoveryCases db2)\<rparr>) = Inr db'"
    and r: "r = \<lparr>sa_topUp = t1, sa_attempt = a1, sa_credited = c, sa_duplicate = False\<rparr>"
    using run by (auto simp: finishSettlement_def bindE_eq_Inr Let_def)
  obtain a0 where a0: "findAttempt (pa_id a) db = Some a0" "a1 = attemptSucceeded v now a0"
    "db1 = setAttempt (pa_id a) (attemptSucceeded v now) db" by (rule updateAttempt_Inr [OF 1])
  obtain t where t: "findTopUp (pa_walletTopUpId a) db1 = Some t" "t1 = topUpSucceeded (pa_gateway a) v now t"
    "db2 = setTopUp (pa_walletTopUpId a) (topUpSucceeded (pa_gateway a) v now) db1" by (rule updateTopUp_Inr [OF 2])
  let ?db3 = "db2\<lparr>recoveryCases := updateRows (\<lambda>c. pr_attemptId c = pa_id a)
           (\<lambda>c. c\<lparr>pr_status := PR_RESOLVED, pr_resolvedAt := Some now, pr_nextAttemptAt := None\<rparr>) (recoveryCases db2)\<rparr>"
  have same: "wallets ?db3 = wallets db" "ledger ?db3 = ledger db" "refundRows ?db3 = refundRows db" "journal ?db3 = journal db"
    "attempts ?db3 = updateRows (\<lambda>x. pa_id x = pa_id a) (attemptSucceeded v now) (attempts db)"
    "topUps ?db3 = updateRows (\<lambda>x. tu_id x = pa_walletTopUpId a) (topUpSucceeded (pa_gateway a) v now) (topUps db)"
    unfolding t(3) a0(3) by (simp_all add: setTopUp_def setAttempt_def)
  have "journalInv ?db3" using j journalInv_cong [of ?db3 db] same(4) by simp
  note P = postTopUp_Inr [OF 3 this]
  obtain js where js: "db' = ?db3\<lparr>journal := js\<rparr>" using P(4) by (elim exE)
  have bt: "booked db' t" using P(1) static_same(5) [of t1 t] t(2) by simp
  have jk: "journalKept db db'" using P(3) same(4) by (simp add: journalKept_def)
  have "findTopUp (pa_walletTopUpId a) db = Some t" using t(1) by (simp add: a0(3) findTopUp_def setAttempt_def)
  from this a0(1) show ?thesis
  proof (rule that)
    show "r = \<lparr>sa_topUp = topUpSucceeded (pa_gateway a) v now t, sa_attempt = attemptSucceeded v now a0, sa_credited = c,
      sa_duplicate = False\<rparr>" using r a0(2) t(2) by simp
  qed (use js same in simp, use js same in simp, use js same in simp, use js same in simp, use js same in simp,
      rule bt, rule P(2), rule jk)
qed

lemma findAttempt_Some: "findAttempt aid db = Some a \<Longrightarrow> a \<in> set (attempts db) \<and> pa_id a = aid"
  unfolding findAttempt_def by (drule findRow_Some) simp

lemma findTopUp_Some: "findTopUp tid db = Some t \<Longrightarrow> t \<in> set (topUps db) \<and> tu_id t = tid"
  unfolding findTopUp_def by (drule findRow_Some) simp

lemma succeededAttempts_update:
  assumes "attempts db' = updateRows (\<lambda>x. pa_id x = aid) (attemptSucceeded v now) (attempts db)"
    and "distinct (map pa_id (attempts db))" and "a \<in> set (attempts db)" and "pa_id a = aid"
  shows "succeededAttempts db' = insert (aid, pa_walletTopUpId a) (succeededAttempts db)"
proof -
  have eq: "x = a" if "x \<in> set (attempts db)" "pa_id x = aid" for x
    using distinct_key_eq [OF assms(2) that(1) assms(3)] that(2) assms(4) by simp
  show ?thesis
  proof (intro equalityI subsetI)
    fix y
    assume "y \<in> succeededAttempts db'"
    then obtain x where x: "x \<in> set (attempts db)" "pa_id x = aid \<or> pa_status x = PA_SUCCEEDED" "y = (pa_id x, pa_walletTopUpId x)"
      by (auto simp: succeededAttempts_def assms(1) set_updateRows split: if_split_asm)
    then show "y \<in> insert (aid, pa_walletTopUpId a) (succeededAttempts db)"
      using eq by (auto simp: succeededAttempts_def)
  next
    fix y
    assume "y \<in> insert (aid, pa_walletTopUpId a) (succeededAttempts db)"
    then obtain x where x: "x \<in> set (attempts db)" "pa_id x = aid \<or> pa_status x = PA_SUCCEEDED" "y = (pa_id x, pa_walletTopUpId x)"
      using assms(3,4) by (auto simp: succeededAttempts_def)
    let ?x = "if pa_id x = aid then attemptSucceeded v now x else x"
    have "?x \<in> set (attempts db')" "pa_status ?x = PA_SUCCEEDED" "y = (pa_id ?x, pa_walletTopUpId ?x)"
      using x by (auto simp: assms(1) set_updateRows)
    then show "y \<in> succeededAttempts db'" unfolding succeededAttempts_def by blast
  qed
qed

lemma succeededTopUps_update:
  assumes "topUps db' = updateRows (\<lambda>x. tu_id x = tid) (topUpSucceeded gw v now) (topUps db)"
  shows "succeededTopUps db' \<subseteq> insert tid (succeededTopUps db)"
  by (auto simp: succeededTopUps_def assms set_updateRows split: if_split_asm)

text \<open>The branches of the settlement transaction.\<close>

lemma settleTopUpTx_cases:
  assumes run: "settleTopUpTx ids v now aid db = Inr (r, db')"
  obtains (again) a t where "findAttempt aid db = Some a" and "findTopUp (pa_walletTopUpId a) db = Some t"
      and "pa_status a = PA_SUCCEEDED" and "credited db (tu_id t)" and "postTopUp ids t db = Inr db'"
      and "r = \<lparr>sa_topUp = t, sa_attempt = a, sa_credited = False, sa_duplicate = False\<rparr>"
    | (duplicate) a t where "findAttempt aid db = Some a" and "findTopUp (pa_walletTopUpId a) db = Some t"
      and "db' = db" and "r = \<lparr>sa_topUp = t, sa_attempt = a, sa_credited = False, sa_duplicate = True\<rparr>"
    | (settle) a t w db1 where "findAttempt aid db = Some a" and "findTopUp (pa_walletTopUpId a) db = Some t"
      and "findWallet (tu_walletId t) db = Some w"
      and "\<not> (\<exists>x \<in> set (attempts db). pa_walletTopUpId x = pa_walletTopUpId a \<and> pa_status x = PA_SUCCEEDED \<and> pa_id x \<noteq> pa_id a)"
      and "(if credited db (tu_id t) then Inr db else creditTopUp ids (w_userId w) t db) = Inr db1"
      and "finishSettlement ids v now a (\<not> credited db (tu_id t)) db1 = Inr (r, db')"
proof -
  obtain a where a: "findAttempt aid db = Some a" using run by (auto simp: settleTopUpTx_def split: option.split_asm)
  obtain t where t: "findTopUp (pa_walletTopUpId a) db = Some t" using run a by (auto simp: settleTopUpTx_def split: option.split_asm)
  have ex: "findByIdempotency (creditKey (tu_id t)) db \<noteq> None \<longleftrightarrow> credited db (tu_id t)"
    by (auto simp: credited_def findByIdempotency_def findRow_None)
  show ?thesis
  proof (cases "pa_status a = PA_SUCCEEDED \<and> credited db (tu_id t)")
    case True
    then have "bindE (postTopUp ids t db)
       (\<lambda>db. Inr (\<lparr>sa_topUp = t, sa_attempt = a, sa_credited = False, sa_duplicate = False\<rparr>, db)) = Inr (r, db')"
      using run by (simp only: settleTopUpTx_def a t ex option.case Let_def simp_thms if_True)
    then show ?thesis using again [OF a t] True by (auto simp: bindE_eq_Inr)
  next
    case no: False
    let ?dup = "(\<exists>x \<in> set (attempts db). pa_walletTopUpId x = pa_walletTopUpId a \<and> pa_status x = PA_SUCCEEDED
         \<and> pa_id x \<noteq> pa_id a) \<or> (tu_status t = TU_SUCCEEDED \<and> credited db (tu_id t))"
    show ?thesis
    proof (cases ?dup)
      case True
      then have "settleTopUpTx ids v now aid db = Inr (\<lparr>sa_topUp = t, sa_attempt = a, sa_credited = False, sa_duplicate = True\<rparr>, db)"
        unfolding settleTopUpTx_def using no by (simp only: a t ex option.case Let_def if_True if_False)
      then show ?thesis using duplicate [OF a t] run by simp
    next
      case False
      obtain w where w: "findWallet (tu_walletId t) db = Some w"
        using run no False by (cases "findWallet (tu_walletId t) db")
          (simp_all only: settleTopUpTx_def a t ex option.case Let_def if_False sum.distinct)
      have run': "(if walletCurrency db (w_id w) \<noteq> ''IRR'' then Inl ''wallet_currency_mismatch''
        else bindE (if credited db (tu_id t) then Inr db else creditTopUp ids (w_userId w) t db)
         (finishSettlement ids v now a (\<not> credited db (tu_id t)))) = Inr (r, db')"
        using run no False by (simp only: settleTopUpTx_def a t w ex option.case Let_def if_False)
      have "walletCurrency db (w_id w) = ''IRR''" by (rule ccontr) (use run' in simp)
      then have "bindE (if credited db (tu_id t) then Inr db else creditTopUp ids (w_userId w) t db)
         (finishSettlement ids v now a (\<not> credited db (tu_id t))) = Inr (r, db')"
        using run' by (simp only: simp_thms if_False)
      then obtain db1 where 1: "(if credited db (tu_id t) then Inr db else creditTopUp ids (w_userId w) t db) = Inr db1"
        "finishSettlement ids v now a (\<not> credited db (tu_id t)) db1 = Inr (r, db')"
        unfolding bindE_eq_Inr by (elim exE conjE)
      show ?thesis by (rule settle [OF a t w _ 1]) (use False in blast)
    qed
  qed
qed

lemma journalOnly_inv:
  assumes inv: "paymentInv db" and db': "db' = db\<lparr>journal := js\<rparr>" and j: "journalInv db'" "journalKept db db'"
  shows "paymentInv db'"
proof -
  note i = paymentInvD [OF inv]
  have same: "credited db' = credited db" "refunded db' = refunded db" "approvedRefunds db' = approvedRefunds db"
    "succeededTopUps db' = succeededTopUps db" "succeededAttempts db' = succeededAttempts db"
    by (simp_all add: db' credited_def refunded_def approvedRefunds_def succeededTopUps_def succeededAttempts_def fun_eq_iff)
  show ?thesis
  proof (rule paymentInv_step [OF inv _ j])
    show "walletInv db'" using i(1) walletInv_cong [of db' db] by (simp add: db')
  qed (use i in \<open>simp_all add: same\<close>, simp_all add: db')
qed

lemma settleTopUpTx_inv:
  assumes inv: "paymentInv db" and run: "settleTopUpTx ids v now aid db = Inr (r, db')"
  shows "paymentInv db'"
proof -
  note i = paymentInvD [OF inv]
  show ?thesis
    using run
  proof (cases rule: settleTopUpTx_cases)
    case (again a t)
    note P = postTopUp_Inr [OF again(5) i(2)]
    obtain js where js: "db' = db\<lparr>journal := js\<rparr>" using P(4) by (elim exE)
    show ?thesis by (rule journalOnly_inv [OF inv js P(2,3)])
  next
    case duplicate
    then show ?thesis using inv by simp
  next
    case (settle a t w db1)
    let ?tid = "tu_id t"
    have a: "a \<in> set (attempts db)" "pa_id a = aid" using findAttempt_Some [OF settle(1)] by simp_all
    have t: "t \<in> set (topUps db)" "?tid = pa_walletTopUpId a" using findTopUp_Some [OF settle(2)] by simp_all
    have pos: "0 < tu_amount t" by (rule i(6) [OF t(1)])
    obtain cs where C: "walletInv db1" "ledger db1 = ledger db @ cs" "moneyOnly db db1" "credited db1 ?tid"
      "\<And>e. e \<in> set cs \<Longrightarrow> creditOf t e \<or> bonusEntryOf t e"
    proof (cases "credited db ?tid")
      case True
      then have "db1 = db" using settle(5) by simp
      then show ?thesis using that [of "[]"] True i(1) by (simp add: moneyOnly_def)
    next
      case False
      then have "creditTopUp ids (w_userId w) t db = Inr db1" using settle(5) by simp
      from creditTopUp_Inr [OF i(1) this pos] obtain c es where c: "walletInv db1" "ledger db1 = ledger db @ c # es"
        "creditOf t c" "\<And>e. e \<in> set es \<Longrightarrow> bonusEntryOf t e" "moneyOnly db db1" by metis
      then have "credited db1 ?tid" by (auto simp: credited_def creditOf_def)
      then show ?thesis using that [of "c # es"] c by auto
    qed
    have same1: "topUps db1 = topUps db" "attempts db1 = attempts db" "refundRows db1 = refundRows db" "journal db1 = journal db"
      using C(3) by (simp_all add: moneyOnly_def)
    have j1: "journalInv db1" using i(2) journalInv_cong [of db1 db] same1(4) by simp
    obtain t1 a0 where F: "findTopUp (pa_walletTopUpId a) db1 = Some t1"
      "attempts db' = updateRows (\<lambda>x. pa_id x = pa_id a) (attemptSucceeded v now) (attempts db1)"
      "topUps db' = updateRows (\<lambda>x. tu_id x = pa_walletTopUpId a) (topUpSucceeded (pa_gateway a) v now) (topUps db1)"
      "wallets db' = wallets db1" "ledger db' = ledger db1" "refundRows db' = refundRows db1"
      "booked db' t1" "journalInv db'" "journalKept db1 db'"
      by (rule finishSettlement_Inr [OF settle(6) j1])
    have t1: "t1 = t" using F(1) settle(2) by (simp add: findTopUp_def same1)
    have led: "ledger db' = ledger db @ cs" by (simp add: F(5) C(2))
    have cr': "credited db' ?tid" using C(4) by (simp add: credited_def F(5))
    have st: "map tuStatic (topUps db') = map tuStatic (topUps db)" by (simp add: F(3) same1 map_updateRows)
    have sa: "map paStatic (attempts db') = map paStatic (attempts db)" by (simp add: F(2) same1 map_updateRows)
    have su: "succeededTopUps db' \<subseteq> insert ?tid (succeededTopUps db)"
      using succeededTopUps_update [of db' "pa_walletTopUpId a" "pa_gateway a" v now db] F(3) same1(1) t(2) by simp
    have sp: "succeededAttempts db' = insert (aid, ?tid) (succeededAttempts db)"
      unfolding t(2) by (rule succeededAttempts_update [OF _ i(4) a]) (use F(2) same1(2) a(2) in simp)
    obtain t' where t': "t' \<in> set (topUps db')" "tuStatic t' = tuStatic t" by (rule static_counterpart [OF st t(1)])
    note T = static_same [OF t'(2)]
    show ?thesis
    proof (rule paymentInv_step [OF inv _ F(8) _ _ _ st sa])
      show "walletInv db'" using C(1) walletInv_cong [of db' db1] F(4,5) by simp
      show "journalKept db db'" using F(9) same1(4) by (simp add: journalKept_def)
      show "set (ledger db) \<subseteq> set (ledger db')" by (simp add: led)
      show "keyedEntry db' e" if "e \<in> set (ledger db')" "e \<notin> set (ledger db)" for e
      proof -
        have "creditOf t e \<or> bonusEntryOf t e" using that C(5) by (auto simp: led)
        then have "creditOf t' e \<and> le_idempotencyKey e = creditKey ?tid \<or> bonusEntryOf t' e \<and> le_idempotencyKey e = bonusKey ?tid"
          using T by (auto simp: creditOf_def bonusEntryOf_def)
        then show ?thesis using t'(1) T(1) cr' by (intro keyedEntryI) auto
      qed
      show "booked db' u" if u: "u \<in> set (topUps db')" "credited db' (tu_id u)" "\<not> credited db (tu_id u)" for u
      proof -
        obtain e where "e \<in> set cs" "le_idempotencyKey e = creditKey (tu_id u)"
          using u(2,3) by (auto simp: credited_def led)
        then have "tu_id u = ?tid" using C(5) [of e] by (auto simp: creditOf_def bonusEntryOf_def)
        then have "u = t'" using distinct_key_eq [of tu_id "topUps db'" u t'] u(1) t'(1) T(1) i(3) static_ids [OF st] by simp
        then show ?thesis using F(7) T(5) t1 by simp
      qed
      show "credited db' x" if "x \<in> succeededTopUps db'" "x \<notin> succeededTopUps db" for x
        using that su cr' by auto
      show "credited db' (snd x)" if "x \<in> succeededAttempts db'" "x \<notin> succeededAttempts db" for x
        using that sp cr' by auto
      show "inj_on snd (succeededAttempts db')"
      proof -
        have "y = (aid, ?tid)" if "y \<in> succeededAttempts db" "snd y = ?tid" for y
          using that settle(4) a(2) t(2) by (auto simp: succeededAttempts_def)
        then show ?thesis unfolding sp using i(12) by (auto simp: inj_on_def)
      qed
      show "distinct (map rf_id (refundRows db'))" "inj_on snd (approvedRefunds db')"
        using i(5,14) F(6) same1(3) by (simp_all add: approvedRefunds_def)
      show "refunded db' (snd x)" if "x \<in> approvedRefunds db'" "x \<notin> approvedRefunds db" for x
        using that F(6) same1(3) by (simp add: approvedRefunds_def)
    qed
  qed
qed

section \<open>Refunds\<close>

lemma updateRefund_Inr:
  assumes "updateRefund rid f db = Inr (r', db')"
  obtains r where "r \<in> set (refundRows db)" and "rf_id r = rid" and "r' = f r"
    and "db' = db\<lparr>refundRows := updateRows (\<lambda>r. rf_id r = rid) f (refundRows db)\<rparr>"
  using assms by (auto simp: updateRefund_def split: option.split_asm if_split_asm dest!: findRow_Some)

text \<open>A step on the refunds alone that approves nothing new.\<close>

lemma refundRows_inv:
  assumes inv: "paymentInv db" and db': "db' = db\<lparr>refundRows := rs\<rparr>" and rf: "distinct (map rf_id rs)"
    and ap: "approvedRefunds db' = approvedRefunds db"
  shows "paymentInv db'"
proof -
  note i = paymentInvD [OF inv]
  have same: "credited db' = credited db" "refunded db' = refunded db" "succeededTopUps db' = succeededTopUps db"
    "succeededAttempts db' = succeededAttempts db"
    by (simp_all add: db' credited_def refunded_def succeededTopUps_def succeededAttempts_def fun_eq_iff)
  show ?thesis
  proof (rule paymentInv_step [OF inv])
    show "walletInv db'" using i(1) walletInv_cong [of db' db] by (simp add: db')
    show "journalInv db'" using i(2) journalInv_cong [of db' db] by (simp add: db')
    show "journalKept db db'" by (simp add: journalKept_refl db')
  qed (use i rf ap in \<open>simp_all add: same\<close>, simp_all add: db')
qed

lemma insertRefund_inv:
  assumes inv: "paymentInv db" and ins: "insertRefund r db = Inr db'" and r: "rf_status r \<notin> {CR_APPROVED, CR_COMPLETED}"
  shows "paymentInv db'"
proof -
  have db': "db' = db\<lparr>refundRows := refundRows db @ [r]\<rparr>" and fresh: "rf_id r \<notin> rf_id ` set (refundRows db)"
    using ins by (auto simp: insertRefund_def split: if_split_asm)
  show ?thesis
    by (rule refundRows_inv [OF inv db']) (use paymentInvD(5) [OF inv] fresh r in \<open>auto simp: db' approvedRefunds_def\<close>)
qed

lemma completeRefund_inv:
  assumes inv: "paymentInv db" and run: "completeRefundBody c rid reference db = Inr (x, db')"
  shows "paymentInv db'"
proof -
  let ?f = "\<lambda>r. r\<lparr>rf_status := CR_COMPLETED, rf_gatewayRefundReference := Some reference, rf_reviewedById := ac_actorUserId c\<rparr>"
  obtain r r' where r: "findRow (\<lambda>r. rf_id r = rid) (refundRows db) = Some r" "rf_status r = CR_APPROVED"
    and u: "updateRefund rid ?f db = Inr (r', db')"
    using run by (auto simp: completeRefundBody_def bindE_eq_Inr split: option.split_asm if_split_asm)
  have db': "db' = db\<lparr>refundRows := updateRows (\<lambda>r. rf_id r = rid) ?f (refundRows db)\<rparr>"
    using u by (rule updateRefund_Inr)
  note d = paymentInvD(5) [OF inv]
  have rm: "r \<in> set (refundRows db)" "rf_id r = rid" using findRow_Some [OF r(1)] by simp_all
  have eq: "x = r" if "x \<in> set (refundRows db)" "rf_id x = rid" for x
    using distinct_key_eq [OF d that(1) rm(1)] that(2) rm(2) by simp
  have ap: "approvedRefunds db' = approvedRefunds db"
  proof (intro equalityI subsetI)
    fix y
    assume "y \<in> approvedRefunds db'"
    then obtain x where "x \<in> set (refundRows db)" "rf_id x = rid \<or> rf_status x \<in> {CR_APPROVED, CR_COMPLETED}"
      "y = (rf_id x, rf_walletTopUpId x)"
      by (auto simp: approvedRefunds_def db' set_updateRows split: if_split_asm)
    then show "y \<in> approvedRefunds db" using eq r(2) by (auto simp: approvedRefunds_def)
  next
    fix y
    assume "y \<in> approvedRefunds db"
    then obtain x where x: "x \<in> set (refundRows db)" "rf_status x \<in> {CR_APPROVED, CR_COMPLETED}"
      "y = (rf_id x, rf_walletTopUpId x)" by (auto simp: approvedRefunds_def)
    let ?x = "if rf_id x = rid then ?f x else x"
    have "?x \<in> set (refundRows db')" "rf_status ?x \<in> {CR_APPROVED, CR_COMPLETED}" "y = (rf_id ?x, rf_walletTopUpId ?x)"
      using x by (auto simp: db' set_updateRows)
    then show "y \<in> approvedRefunds db'" unfolding approvedRefunds_def by blast
  qed
  show ?thesis by (rule refundRows_inv [OF inv db' _ ap]) (use d in \<open>simp add: map_updateRows\<close>)
qed

lemma refundEntry_simps [simp]:
  "le_walletId (refundEntry n t rid b) = tu_walletId t" "le_amount (refundEntry n t rid b) = tu_amount t"
  "le_idempotencyKey (refundEntry n t rid b) = refundDebitKey (tu_id t)" "le_direction (refundEntry n t rid b) = DEBIT"
  "le_status (refundEntry n t rid b) = LS_COMPLETED" "le_balanceAfter (refundEntry n t rid b) = b"
  "signed (refundEntry n t rid b) = - tu_amount t"
  by (simp_all add: refundEntry_def signed_def)

lemma debitRefund_inv:
  assumes inv: "paymentInv db" and run: "debitRefund ids t now db = Inr db'" and t: "t \<in> set (topUps db)"
    and ok: "credited db (tu_id t)" and w: "findWallet (tu_walletId t) db = Some w" and bal: "tu_amount t \<le> w_availableBalance w"
    and none: "\<And>x. x \<in> approvedRefunds db \<Longrightarrow> snd x \<noteq> tu_id t"
    and row: "\<And>r. r \<in> set (refundRows db) \<Longrightarrow> rf_id r = ri_refund ids \<Longrightarrow> rf_walletTopUpId r = tu_id t"
  shows "paymentInv db'"
proof -
  note i = paymentInvD [OF inv]
  let ?db1 = "updateBalance (tu_walletId t) (- tu_amount t) db"
  let ?f = "\<lambda>le r. r\<lparr>rf_status := CR_APPROVED, rf_ledgerEntryId := Some (le_id le)\<rparr>"
  obtain w1 e db2 r' db3 j where 1: "findWallet (tu_walletId t) ?db1 = Some w1"
    "insertEntry (refundEntry (ri_entry ids) t (ri_refund ids) (w_availableBalance w1)) ?db1 = Inr (e, db2)"
    "updateRefund (ri_refund ids) (?f e) db2 = Inr (r', db3)"
    "postWalletTopUpRefunded (ri_journal ids) (ri_refund ids) (tu_amount t) (tu_id t) now db3 = Inr (j, db')"
    using run by (auto simp: debitRefund_def Let_def bindE_eq_Inr split: option.split_asm)
  have w1: "w1 = addBalance (- tu_amount t) w" using 1(1) w by (simp add: findWallet_updateBalance)
  have e: "e = refundEntry (ri_entry ids) t (ri_refund ids) (w_availableBalance w1)" and db2: "db2 = ?db1\<lparr>ledger := ledger db @ [e]\<rparr>"
    using 1(2) by (simp_all add: insertEntry_Inr)
  have inv2: "walletInv db2"
    by (rule post_preserves [OF i(1) w 1(2)]) (use i(6) [OF t] bal in \<open>simp_all add: w1\<close>)
  have db3: "db3 = db2\<lparr>refundRows := updateRows (\<lambda>r. rf_id r = ri_refund ids) (?f e) (refundRows db2)\<rparr>"
    using 1(3) by (rule updateRefund_Inr)
  have post: "postJournalEntryTx (ri_journal ids) (walletTopUpRefunded (ri_refund ids) (tu_amount t) (tu_id t) now) db3 = Inr (j, db')"
    using 1(4) by (simp add: postWalletTopUpRefunded_def postJournalEntry_def)
  obtain js where js: "db' = db3\<lparr>journal := js\<rparr>" using posted_rest [OF post] by (elim exE)
  have rows: "topUps db' = topUps db" "attempts db' = attempts db" "ledger db' = ledger db @ [e]" "wallets db' = wallets db2"
    "refundRows db' = updateRows (\<lambda>r. rf_id r = ri_refund ids) (?f e) (refundRows db)" "journal db3 = journal db"
    by (simp_all add: js db3 db2)
  have j3: "journalInv db3" using i(2) journalInv_cong [of db3 db] rows(6) by simp
  have cr: "credited db' (tu_id t)" using ok by (auto simp: credited_def rows(3))
  have same: "succeededTopUps db' = succeededTopUps db" "succeededAttempts db' = succeededAttempts db"
    by (simp_all add: succeededTopUps_def succeededAttempts_def rows)
  have ap: "approvedRefunds db' \<subseteq> insert (ri_refund ids, tu_id t) (approvedRefunds db)"
    using row by (auto simp: approvedRefunds_def rows(5) set_updateRows split: if_split_asm)
  show ?thesis
  proof (rule paymentInv_step [OF inv])
    show "walletInv db'" using inv2 walletInv_cong [of db' db2] rows(3,4) db2 by simp
    show "journalInv db'" by (rule post_preserves_inv [OF j3 post]) (simp add: walletTopUpRefunded_def)
    show "journalKept db db'" using posted_entry [OF post] rows(6) by (simp add: journalKept_def)
    show "set (ledger db) \<subseteq> set (ledger db')" by (auto simp: rows)
    show "keyedEntry db' x" if "x \<in> set (ledger db')" "x \<notin> set (ledger db)" for x
    proof -
      have "x = e" using that by (simp add: rows)
      then show ?thesis using t cr by (intro keyedEntryI) (auto simp: rows(1) e refundOf_def)
    qed
    show "map tuStatic (topUps db') = map tuStatic (topUps db)" by (simp add: rows)
    show "map paStatic (attempts db') = map paStatic (attempts db)" by (simp add: rows)
    show "booked db' u" if "u \<in> set (topUps db')" "credited db' (tu_id u)" "\<not> credited db (tu_id u)" for u
      using that(2,3) by (auto simp: credited_def rows(3) e)
    show "distinct (map rf_id (refundRows db'))" using i(5) by (simp add: rows(5) map_updateRows)
    show "inj_on snd (approvedRefunds db')"
      by (rule inj_on_subset [OF _ ap]) (use i(14) none in \<open>fastforce simp: inj_on_def\<close>)
    show "refunded db' (snd x)" if "x \<in> approvedRefunds db'" "x \<notin> approvedRefunds db" for x
      using that ap by (auto simp: refunded_def rows(3) e)
  qed (use i(12) in \<open>simp_all add: same\<close>)
qed

lemma refundBody_inv:
  assumes inv: "paymentInv db" and run: "refundBody ids c tid now db = Inr (x, db')"
  shows "paymentInv db'"
proof -
  obtain t w db1 where t: "findTopUp tid db = Some t" and w: "findWallet (tu_walletId t) db = Some w"
    and st: "tu_status t = TU_SUCCEEDED" and none: "approvedRefund tid db = None"
    and 1: "insertRefund (newRefund ids c t (w_availableBalance w) now) db = Inr db1"
    and 2: "(if w_availableBalance w \<ge> tu_amount t
       then bindE (debitRefund ids t now db1) (\<lambda>db. Inr (refundSnapshot ids t True, db))
       else Inr (refundSnapshot ids t False, db1)) = Inr (x, db')"
    using run by (auto simp: refundBody_def bindE_eq_Inr split: option.split_asm if_split_asm)
  have tm: "t \<in> set (topUps db)" "tu_id t = tid" using findTopUp_Some [OF t] by simp_all
  have inv1: "paymentInv db1" by (rule insertRefund_inv [OF inv 1]) (simp add: newRefund_def)
  have db1: "db1 = db\<lparr>refundRows := refundRows db @ [newRefund ids c t (w_availableBalance w) now]\<rparr>"
    and fresh: "\<forall>r \<in> set (refundRows db). rf_id r \<noteq> ri_refund ids"
    using 1 by (auto simp: insertRefund_def newRefund_def split: if_split_asm)
  show ?thesis
  proof (cases "w_availableBalance w \<ge> tu_amount t")
    case False
    then show ?thesis using 2 inv1 by simp
  next
    case True
    then have d: "debitRefund ids t now db1 = Inr db'" using 2 by (auto simp: bindE_eq_Inr)
    show ?thesis
    proof (rule debitRefund_inv [OF inv1 d])
      show "credited db1 (tu_id t)"
        using paymentInvD(10) [OF inv, of "tu_id t"] tm st by (auto simp: succeededTopUps_def credited_def db1)
      show "findWallet (tu_walletId t) db1 = Some w" using w by (simp add: db1 findWallet_def)
      show "snd y \<noteq> tu_id t" if "y \<in> approvedRefunds db1" for y
        using that none tm(2) by (auto simp: approvedRefunds_def approvedRefund_def findRow_None db1 newRefund_def split: if_split_asm)
      show "rf_walletTopUpId r = tu_id t" if "r \<in> set (refundRows db1)" "rf_id r = ri_refund ids" for r
        using that fresh by (auto simp: db1 newRefund_def)
    qed (use tm True in \<open>simp_all add: db1\<close>)
  qed
qed

section \<open>Steps\<close>

text \<open>A wallet command of another feature uses none of the top-ups' keys.\<close>

definition foreignEntry :: "LedgerEntry \<Rightarrow> bool" where
  "foreignEntry e \<longleftrightarrow> (\<forall>x. le_idempotencyKey e \<notin> {creditKey x, bonusKey x, refundDebitKey x})"

text \<open>One transaction: of another feature, of the configuration, of a payment or of an administrator.\<close>

inductive paymentStep :: "PaymentDb \<Rightarrow> PaymentDb \<Rightarrow> bool" where
  wallet: "walletCommand c db = Inr (e, db') \<Longrightarrow> foreignEntry e \<Longrightarrow> paymentStep db db'"
| freeze: "paymentStep db (setStatus wid st db)"
| ensure: "ensureWalletForUser userId newId db = Inr (w, db') \<Longrightarrow> paymentStep db db'"
| post: "pj_reversesEntryId i = None \<Longrightarrow> postJournalEntry newId i db = Inr (j, db') \<Longrightarrow> paymentStep db db'"
| reverse: "reverseJournalEntry newId now k db = Inr (j, db') \<Longrightarrow> paymentStep db db'"
| configure: "paymentStep db (db\<lparr>coupons := cs, redemptions := rds, adminUsers := us, receipts := rcs,
    purchaseOrders := pos, walletCurrency := cur\<rparr>)"
| openTopUp: "openTopUp ids wid amount gw h now opts db = Inr (u, db') \<Longrightarrow> 0 < amount \<Longrightarrow> paymentStep db db'"
| failCreation: "paymentStep db (failCreation aid tid code db)"
| persist: "persistPayment pp p db = Inr (x, db') \<Longrightarrow> paymentStep db db'"
| persistReview: "persistForReview pp p now db = Inr (u, db') \<Longrightarrow> paymentStep db db'"
| reopen: "reopenTx newId userId tid gw h now key db = Inr (t, db') \<Longrightarrow> paymentStep db db'"
| review: "recordPaymentReview r now aid db = Inr (x, db') \<Longrightarrow> paymentStep db db'"
| fail: "recordTerminalFailure code now aid db = Inr (x, db') \<Longrightarrow> paymentStep db db'"
| count: "paymentStep db (countVerification aid db)"
| stamp: "stampVerified v now aid db = Inr (u, db') \<Longrightarrow> paymentStep db db'"
| settle: "settleTopUpTx ids v now aid db = Inr (a, db') \<Longrightarrow> paymentStep db db'"
| markFailed: "markFailedBody c aid now db = Inr (s, db') \<Longrightarrow> paymentStep db db'"
| action: "attemptActionBody c aid code s now db = Inr (s', db') \<Longrightarrow> paymentStep db db'"
| refund: "refundBody ids c tid now db = Inr (s, db') \<Longrightarrow> paymentStep db db'"
| completeRefund: "completeRefundBody c rid reference db = Inr (s, db') \<Longrightarrow> paymentStep db db'"

definition emptyPayments :: PaymentDb where
  "emptyPayments = \<lparr>wallets = [], ledger = [], journal = [], coupons = [], redemptions = [], adminUsers = [],
     receipts = [], topUps = [], attempts = [], recoveryCases = [], refundRows = [], recoveryActions = [],
     purchaseOrders = [], walletCurrency = (\<lambda>_. ''IRR'')\<rparr>"

definition paymentReach :: "PaymentDb \<Rightarrow> bool" where
  "paymentReach db \<longleftrightarrow> paymentStep\<^sup>*\<^sup>* emptyPayments db"

text \<open>The rows of other tables do not matter.\<close>

lemma walletStep_inv:
  assumes inv: "paymentInv db" and w: "walletInv db'" and led: "ledger db' = ledger db @ es"
    and foreign: "\<And>e. e \<in> set es \<Longrightarrow> foreignEntry e" and only: "moneyOnly db db'"
  shows "paymentInv db'"
proof -
  note i = paymentInvD [OF inv] and o = only [unfolded moneyOnly_def]
  have cr: "credited db' x = credited db x" "refunded db' x = refunded db x" for x
    using foreign by (auto simp: credited_def refunded_def led foreignEntry_def)
  have same: "approvedRefunds db' = approvedRefunds db" "succeededTopUps db' = succeededTopUps db"
    "succeededAttempts db' = succeededAttempts db"
    using o by (simp_all add: approvedRefunds_def succeededTopUps_def succeededAttempts_def)
  show ?thesis
  proof (rule paymentInv_step [OF inv w])
    show "journalInv db'" using i(2) journalInv_cong [of db' db] o by simp
    show "journalKept db db'" using o by (simp add: journalKept_refl)
    show "keyedEntry db' e" if "e \<in> set (ledger db')" "e \<notin> set (ledger db)" for e
      using that foreign [of e] by (intro keyedEntryI) (auto simp: led foreignEntry_def)
  qed (use i o in \<open>simp_all add: same cr\<close>, simp_all add: led o)
qed

lemma walletMore:
  "WalletDb.more db' = WalletDb.more db \<Longrightarrow> moneyOnly db db'"
  for db db' :: PaymentDb
  by (cases db; cases db') (simp add: moneyOnly_def)

lemma paymentStep_inv:
  assumes "paymentStep db db'" and inv: "paymentInv db"
  shows "paymentInv db'"
  using assms(1)
proof cases
  case (wallet c e)
  note W = walletCommand_cases [OF paymentInvD(1) [OF inv] wallet(1)]
  show ?thesis
  proof (cases "db' = db")
    case False
    then show ?thesis using W wallet(2) walletMore [OF walletCommand_more [OF wallet(1)]]
      by (intro walletStep_inv [OF inv, of db' "[e]"]) simp_all
  qed (use inv in simp)
next
  case (freeze wid st)
  have "walletInv db'" unfolding freeze by (rule setStatus_inv [OF paymentInvD(1) [OF inv]])
  then show ?thesis by (rule walletStep_inv [OF inv, of db' "[]"]) (simp_all add: freeze setStatus_def moneyOnly_def)
next
  case (ensure userId newId w)
  show ?thesis
    using ensureWalletForUser_Inr [OF paymentInvD(1) [OF inv] ensure] ensureWallet_only [OF ensure] walletMore
    by (intro walletStep_inv [OF inv, of db' "[]"]) simp_all
next
  case (post i newId j)
  have p: "postJournalEntryTx newId i db = Inr (j, db')" using post(2) by (simp add: postJournalEntry_def)
  obtain js where "db' = db\<lparr>journal := js\<rparr>" using posted_rest [OF p] by (elim exE)
  then show ?thesis
    by (rule journalOnly_inv [OF inv]) (use post_preserves_inv [OF paymentInvD(2) [OF inv] p post(1)] posted_entry [OF p] in simp_all)
next
  case (reverse newId now k j)
  have r: "reverseJournalEntryTx newId now k db = Inr (j, db')" using reverse by (simp add: reverseJournalEntry_def)
  obtain js where "db' = db\<lparr>journal := js\<rparr>" using reversed_kept [OF paymentInvD(2) [OF inv] r] by (elim exE conjE)
  then show ?thesis
    by (rule journalOnly_inv [OF inv])
      (use reverse_preserves_inv [OF paymentInvD(2) [OF inv] r] reversed_kept [OF paymentInvD(2) [OF inv] r] in simp_all)
next
  case (configure cs rds us rcs pos cur)
  show ?thesis by (rule rowsKept_inv [OF inv]) (simp add: configure rowsKept_def succeededTopUps_def succeededAttempts_def)
next
  case openTopUp
  show ?thesis by (rule openTopUp_inv [OF inv openTopUp])
next
  case failCreation
  show ?thesis unfolding failCreation by (rule rowsKept_inv [OF inv failCreation_kept])
next
  case persist
  show ?thesis by (rule rowsKept_inv [OF inv persistPayment_kept [OF persist]])
next
  case persistReview
  show ?thesis by (rule rowsKept_inv [OF inv persistForReview_kept [OF persistReview]])
next
  case reopen
  show ?thesis by (rule reopenTx_inv [OF inv reopen])
next
  case review
  show ?thesis by (rule rowsKept_inv [OF inv recordPaymentReview_kept [OF review]])
next
  case fail
  show ?thesis by (rule rowsKept_inv [OF inv recordTerminalFailure_kept [OF fail]])
next
  case count
  show ?thesis unfolding count by (rule rowsKept_inv [OF inv countVerification_kept])
next
  case stamp
  show ?thesis by (rule rowsKept_inv [OF inv stampVerified_kept [OF stamp]])
next
  case settle
  show ?thesis by (rule settleTopUpTx_inv [OF inv settle])
next
  case markFailed
  show ?thesis by (rule rowsKept_inv [OF inv markFailedBody_kept [OF markFailed]])
next
  case action
  show ?thesis by (rule rowsKept_inv [OF inv attemptActionBody_kept [OF action]])
next
  case refund
  show ?thesis by (rule refundBody_inv [OF inv refund])
next
  case completeRefund
  show ?thesis by (rule completeRefund_inv [OF inv completeRefund])
qed

lemma emptyPayments_inv: "paymentInv emptyPayments"
  by (rule paymentInvI) (simp_all add: emptyPayments_def walletInv_def journalInv_def succeededTopUps_def
      succeededAttempts_def approvedRefunds_def)

lemma paymentSteps_inv: "paymentStep\<^sup>*\<^sup>* db db' \<Longrightarrow> paymentInv db \<Longrightarrow> paymentInv db'"
  by (induction rule: rtranclp_induct) (auto intro: paymentStep_inv)

lemma paymentReach_inv: "paymentReach db \<Longrightarrow> paymentInv db"
  unfolding paymentReach_def using paymentSteps_inv emptyPayments_inv by blast

text \<open>No row is ever lost.\<close>

definition grows :: "PaymentDb \<Rightarrow> PaymentDb \<Rightarrow> bool" where
  "grows db db' \<longleftrightarrow> paStatic ` set (attempts db) \<subseteq> paStatic ` set (attempts db') \<and>
     tuStatic ` set (topUps db) \<subseteq> tuStatic ` set (topUps db')"

lemma grows_refl: "attempts db' = attempts db \<Longrightarrow> topUps db' = topUps db \<Longrightarrow> grows db db'"
  by (simp add: grows_def)

lemma grows_trans: "grows a b \<Longrightarrow> grows b c \<Longrightarrow> grows a c"
  unfolding grows_def by (meson subset_trans)

lemma rowsKept_grows: "rowsKept db db' \<Longrightarrow> grows db db'"
  unfolding rowsKept_def grows_def set_map [symmetric] by simp

lemma moneyOnly_grows: "moneyOnly db db' \<Longrightarrow> grows db db'"
  by (simp add: moneyOnly_def grows_def)

lemma insert_grows: "insertAttempt a db = Inr db' \<Longrightarrow> grows db db'" "insertTopUp t db = Inr db' \<Longrightarrow> grows db db'"
  by (auto simp: insertAttempt_def insertTopUp_def grows_def split: if_split_asm)

lemma expireLatest_kept: "rowsKept db (snd (expireLatest now tid db))"
  using expireAttempt_kept [of db now] rowsKept_refl
  by (cases "latestAttempt tid db") (simp_all add: expireLatest_def split_beta)

lemma reopenTx_grows:
  assumes run: "reopenTx newId userId tid gw h now key db = Inr (t, db')"
  shows "grows db db'"
proof -
  obtain latest db1 where ex: "expireLatest now tid db = (latest, db1)" by (cases "expireLatest now tid db")
  have 1: "grows db db1" using rowsKept_grows [OF expireLatest_kept [of db now tid]] ex by simp
  have "\<exists>a db2. insertAttempt a db1 = Inr db2 \<and> db' = setTopUp tid (topUpReopened gw h now) db2"
    using run by (auto simp: reopenTx_def ex bindE_eq_Inr split: option.split_asm if_split_asm)
  then obtain a db2 where 2: "insertAttempt a db1 = Inr db2" "db' = setTopUp tid (topUpReopened gw h now) db2"
    by (elim exE conjE)
  have "rowsKept db2 db'" unfolding 2(2)
    by (rule setTopUp_kept) (simp_all add: topUpReopened_def tuStatic_def)
  from grows_trans [OF grows_trans [OF 1 insert_grows(1) [OF 2(1)]] rowsKept_grows [OF this]] show ?thesis .
qed

lemma settleTopUpTx_grows:
  assumes inv: "paymentInv db" and run: "settleTopUpTx ids v now aid db = Inr (r, db')"
  shows "grows db db'"
  using run
proof (cases rule: settleTopUpTx_cases)
  case (again a t)
  obtain js where "db' = db\<lparr>journal := js\<rparr>" using postTopUp_Inr(4) [OF again(5) paymentInvD(2) [OF inv]] by (elim exE)
  then show ?thesis by (simp add: grows_refl)
next
  case duplicate
  then show ?thesis by (simp add: grows_refl)
next
  case (settle a t w db1)
  have t: "0 < tu_amount t" using paymentInvD(6) [OF inv] findTopUp_Some [OF settle(2)] by simp
  have m: "moneyOnly db db1"
  proof (cases "credited db (tu_id t)")
    case True
    then show ?thesis using settle(5) by (simp add: moneyOnly_def)
  next
    case False
    then have "creditTopUp ids (w_userId w) t db = Inr db1" using settle(5) by simp
    from creditTopUp_Inr [OF paymentInvD(1) [OF inv] this t] show ?thesis by metis
  qed
  have j: "journalInv db1" using paymentInvD(2) [OF inv] journalInv_cong [of db1 db] m by (simp add: moneyOnly_def)
  have "attempts db' = updateRows (\<lambda>x. pa_id x = pa_id a) (attemptSucceeded v now) (attempts db1)"
    "topUps db' = updateRows (\<lambda>x. tu_id x = pa_walletTopUpId a) (topUpSucceeded (pa_gateway a) v now) (topUps db1)"
    by (rule finishSettlement_Inr [OF settle(6) j], assumption)+
  then have "map paStatic (attempts db') = map paStatic (attempts db)" "map tuStatic (topUps db') = map tuStatic (topUps db)"
    using m by (simp_all add: map_updateRows moneyOnly_def)
  then show ?thesis unfolding grows_def set_map [symmetric] by simp
qed

lemma debitRefund_rows:
  assumes run: "debitRefund ids t now db = Inr db'"
  shows "attempts db' = attempts db \<and> topUps db' = topUps db"
proof -
  let ?db1 = "updateBalance (tu_walletId t) (- tu_amount t) db"
  let ?f = "\<lambda>le r. r\<lparr>rf_status := CR_APPROVED, rf_ledgerEntryId := Some (le_id le)\<rparr>"
  obtain w1 e db2 r' db3 j where 1: "findWallet (tu_walletId t) ?db1 = Some w1"
    "insertEntry (refundEntry (ri_entry ids) t (ri_refund ids) (w_availableBalance w1)) ?db1 = Inr (e, db2)"
    "updateRefund (ri_refund ids) (?f e) db2 = Inr (r', db3)"
    "postWalletTopUpRefunded (ri_journal ids) (ri_refund ids) (tu_amount t) (tu_id t) now db3 = Inr (j, db')"
    using run by (auto simp: debitRefund_def Let_def bindE_eq_Inr split: option.split_asm)
  have db3: "db3 = db2\<lparr>refundRows := updateRows (\<lambda>r. rf_id r = ri_refund ids) (?f e) (refundRows db2)\<rparr>"
    using 1(3) by (rule updateRefund_Inr)
  obtain js where "db' = db3\<lparr>journal := js\<rparr>"
    using posted_rest [OF 1(4) [unfolded postWalletTopUpRefunded_def postJournalEntry_def]] by (elim exE)
  then show ?thesis using 1(2) by (simp add: db3 insertEntry_Inr)
qed

lemma refundBody_grows:
  assumes run: "refundBody ids c tid now db = Inr (x, db')"
  shows "grows db db'"
proof -
  obtain t w db1 where t: "findTopUp tid db = Some t" and w: "findWallet (tu_walletId t) db = Some w"
    and st: "tu_status t = TU_SUCCEEDED" and none: "approvedRefund tid db = None"
    and 1: "insertRefund (newRefund ids c t (w_availableBalance w) now) db = Inr db1"
    and 2: "(if w_availableBalance w \<ge> tu_amount t
       then bindE (debitRefund ids t now db1) (\<lambda>db. Inr (refundSnapshot ids t True, db))
       else Inr (refundSnapshot ids t False, db1)) = Inr (x, db')"
    using run by (auto simp: refundBody_def bindE_eq_Inr split: option.split_asm if_split_asm)
  have "attempts db1 = attempts db \<and> topUps db1 = topUps db"
    using 1 by (auto simp: insertRefund_def split: if_split_asm)
  moreover have "attempts db' = attempts db1 \<and> topUps db' = topUps db1"
  proof (cases "w_availableBalance w \<ge> tu_amount t")
    case True
    then have "debitRefund ids t now db1 = Inr db'" using 2 by (auto simp: bindE_eq_Inr)
    then show ?thesis by (rule debitRefund_rows)
  qed (use 2 in simp)
  ultimately show ?thesis by (simp add: grows_refl)
qed

lemma paymentStep_grows:
  assumes "paymentStep db db'" and inv: "paymentInv db"
  shows "grows db db'"
  using assms(1)
proof cases
  case (wallet c e)
  then show ?thesis by (intro moneyOnly_grows walletMore walletCommand_more)
next
  case (freeze wid st)
  then show ?thesis by (simp add: grows_refl setStatus_def)
next
  case (ensure userId newId w)
  then show ?thesis using ensureWallet_only [OF ensure] by (intro moneyOnly_grows walletMore) simp
next
  case (post i newId j)
  obtain js where "db' = db\<lparr>journal := js\<rparr>"
    using posted_rest [OF post(2) [unfolded postJournalEntry_def]] by (elim exE)
  then show ?thesis by (simp add: grows_refl)
next
  case (reverse newId now k j)
  obtain js where "db' = db\<lparr>journal := js\<rparr>"
    using reversed_kept [OF paymentInvD(2) [OF inv] reverse [unfolded reverseJournalEntry_def]] by (elim exE conjE)
  then show ?thesis by (simp add: grows_refl)
next
  case configure
  then show ?thesis by (simp add: grows_refl)
next
  case (openTopUp ids wid amount gw h now opts u)
  then show ?thesis by (auto simp: openTopUp_def bindE_eq_Inr intro: grows_trans insert_grows)
next
  case failCreation
  then show ?thesis using rowsKept_grows failCreation_kept by simp
next
  case persist
  then show ?thesis by (intro rowsKept_grows persistPayment_kept)
next
  case persistReview
  then show ?thesis by (intro rowsKept_grows persistForReview_kept)
next
  case reopen
  then show ?thesis by (rule reopenTx_grows)
next
  case review
  then show ?thesis by (intro rowsKept_grows recordPaymentReview_kept)
next
  case fail
  then show ?thesis by (intro rowsKept_grows recordTerminalFailure_kept)
next
  case count
  then show ?thesis using rowsKept_grows countVerification_kept by simp
next
  case stamp
  then show ?thesis by (intro rowsKept_grows stampVerified_kept)
next
  case settle
  show ?thesis by (rule settleTopUpTx_grows [OF inv settle])
next
  case markFailed
  then show ?thesis by (intro rowsKept_grows markFailedBody_kept)
next
  case action
  then show ?thesis by (intro rowsKept_grows attemptActionBody_kept)
next
  case refund
  then show ?thesis by (rule refundBody_grows)
next
  case (completeRefund c rid reference s)
  then show ?thesis by (auto simp: completeRefundBody_def bindE_eq_Inr grows_refl split: option.split_asm if_split_asm
      elim!: updateRefund_Inr)
qed

lemma paymentSteps_grows:
  assumes "paymentStep\<^sup>*\<^sup>* db db'" and "paymentInv db"
  shows "grows db db'"
  using assms(1)
proof (induction rule: rtranclp_induct)
  case base
  then show ?case by (simp add: grows_refl)
next
  case (step y z)
  then show ?case using paymentStep_grows paymentSteps_inv [OF step.hyps(1) assms(2)] grows_trans by blast
qed

end
