(* ===== verification/PaymentProperties.thy ===== *)
theory PaymentProperties
  imports PaymentSafety
begin

text \<open>
  The guarantees of wallet payments over all reachable databases, and what the handlers of \<open>TopUp\<close> do beside
  other sessions: every handler is a sequence of the steps of \<open>PaymentSafety\<close>.
\<close>

section \<open>Handlers are sequences of steps\<close>

text \<open>The other sessions, too, only take steps.\<close>

definition orderlySession :: "Session \<Rightarrow> bool" where
  "orderlySession s \<longleftrightarrow> (\<forall>k db. paymentStep\<^sup>*\<^sup>* db (ss_others s k db))"

lemma others_steps: "orderlySession s \<Longrightarrow> paymentStep\<^sup>*\<^sup>* db (ss_others s k db)"
  by (simp add: orderlySession_def)

lemma runTx_cases:
  assumes "runTx s k tx db = (r, db')"
  obtains (fails) e where "r = Inl e" and "db' = ss_others s k db"
    | (commits) x where "\<not> ss_aborted s k" and "r = Inr x" and "tx (ss_others s k db) = Inr (x, db')"
  using assms by (auto simp: runTx_def Let_def split: sum.split_asm if_split_asm)

lemma runTx_steps:
  assumes "orderlySession s" and "runTx s k tx db = (r, db')"
    and tx: "\<And>db x db'. tx db = Inr (x, db') \<Longrightarrow> paymentStep db db'"
  shows "paymentStep\<^sup>*\<^sup>* db db'"
  using assms(2)
proof (cases rule: runTx_cases)
  case fails
  then show ?thesis using others_steps [OF assms(1)] by simp
next
  case (commits x)
  show ?thesis by (rule rtranclp.rtrancl_into_rtrancl [OF others_steps [OF assms(1)] tx [OF commits(3)]])
qed

lemma retryTx_steps:
  assumes "orderlySession s" and tx: "\<And>db x db'. tx db = Inr (x, db') \<Longrightarrow> paymentStep db db'"
  shows "retryTx s k n tx db = (r, db') \<Longrightarrow> paymentStep\<^sup>*\<^sup>* db db'"
proof (induction n arbitrary: k db)
  case (Suc n)
  obtain r1 db1 where 1: "runTx s k tx db = (r1, db1)" by (cases "runTx s k tx db")
  note S = runTx_steps [OF assms(1) 1 tx]
  show ?case
  proof (cases "db' = db1")
    case False
    then have "retryTx s (k + 1) n tx db1 = (r, db')"
      using Suc.prems by (auto simp: 1 split: sum.split_asm if_split_asm)
    from rtranclp_trans [OF S Suc.IH [OF this]] show ?thesis .
  qed (use S in simp)
qed simp

lemmas retry_steps = retryTx_steps [where n = 3 and tx = tx for tx, folded withSerializableRetry_def]

lemma reviewed_steps:
  assumes "orderlySession s" and "reviewed s k r now aid db = (x, db')"
  shows "paymentStep\<^sup>*\<^sup>* db db'"
proof -
  obtain y db1 where 1: "runTx s k (recordPaymentReview r now aid) db = (y, db1)"
    by (cases "runTx s k (recordPaymentReview r now aid) db")
  have "paymentStep\<^sup>*\<^sup>* db db1" by (rule runTx_steps [OF assms(1) 1]) (rule paymentStep.review)
  then show ?thesis using assms(2) by (auto simp: reviewed_def 1 split: sum.split_asm)
qed

lemma settleVerifiedAttempt_steps:
  assumes s: "orderlySession s" and run: "settleVerifiedAttempt s ids v now aid db = (x, db')"
  shows "paymentStep\<^sup>*\<^sup>* db db'"
proof -
  obtain r1 db1 where 1: "withSerializableRetry s 4 (settleTopUpTx ids v now aid) db = (r1, db1)"
    by (cases "withSerializableRetry s 4 (settleTopUpTx ids v now aid) db")
  have S: "paymentStep\<^sup>*\<^sup>* db db1" by (rule retry_steps [OF s _ 1]) (rule paymentStep.settle)
  obtain r2 db2 where 2: "runTx s 7 (recordPaymentReview (duplicateReview v) now aid) db1 = (r2, db2)"
    by (cases "runTx s 7 (recordPaymentReview (duplicateReview v) now aid) db1")
  have T: "paymentStep\<^sup>*\<^sup>* db1 db2" by (rule runTx_steps [OF s 2]) (rule paymentStep.review)
  show ?thesis using run S rtranclp_trans [OF S T]
    by (auto simp: settleVerifiedAttempt_def 1 2 split: sum.split_asm if_split_asm)
qed

lemma concludeVerified_steps:
  assumes s: "orderlySession s" and run: "concludeVerified s ids a v now db = (x, db')"
  shows "paymentStep\<^sup>*\<^sup>* db db'"
proof (cases "vp_amountRial v \<noteq> pa_amount a \<or> vp_currency v \<noteq> pa_currency a")
  case True
  show ?thesis by (rule reviewed_steps [OF s]) (use run True in \<open>simp only: concludeVerified_def if_True simp_thms\<close>)
next
  case False
  obtain r1 db1 where 1: "runTx s 3 (stampVerified v now (pa_id a)) db = (r1, db1)"
    by (cases "runTx s 3 (stampVerified v now (pa_id a)) db")
  have A: "paymentStep\<^sup>*\<^sup>* db db1" by (rule runTx_steps [OF s 1]) (rule paymentStep.stamp)
  obtain r2 db2 where 2: "settleVerifiedAttempt s ids v now (pa_id a) db1 = (r2, db2)"
    by (cases "settleVerifiedAttempt s ids v now (pa_id a) db1")
  have B: "paymentStep\<^sup>*\<^sup>* db db2" by (rule rtranclp_trans [OF A settleVerifiedAttempt_steps [OF s 2]])
  have R: "paymentStep\<^sup>*\<^sup>* y db'" if "reviewed s 8 q now (pa_id a) y = (x, db')" for q y
    by (rule reviewed_steps [OF s that])
  show ?thesis using run False A B rtranclp_trans [OF A R] rtranclp_trans [OF B R]
    by (auto simp: concludeVerified_def 1 2 split: sum.split_asm)
qed

lemma concludeVerification_steps:
  assumes s: "orderlySession s" and run: "concludeVerification s ids a answer now db = (x, db')"
  shows "paymentStep\<^sup>*\<^sup>* db db'"
proof -
  let ?count = "\<lambda>db. Inr ((), countVerification (pa_id a) db)"
  have R: "paymentStep\<^sup>*\<^sup>* y db'" if "reviewed s k q now (pa_id a) y = (x, db')" for k q y
    by (rule reviewed_steps [OF s that])
  obtain r1 db1 where 1: "runTx s 1 ?count db = (r1, db1)" by (cases "runTx s 1 ?count db")
  have A: "paymentStep\<^sup>*\<^sup>* db db1" by (rule runTx_steps [OF s 1]) (auto intro: paymentStep.count)
  have V: "paymentStep\<^sup>*\<^sup>* db1 db'" if "concludeVerified s ids a v now db1 = (x, db')" for v
    by (rule concludeVerified_steps [OF s that])
  have F: "paymentStep\<^sup>*\<^sup>* db1 db2" if "runTx s 2 (recordTerminalFailure code now (pa_id a)) db1 = (r, db2)" for code r db2
    by (rule runTx_steps [OF s that]) (rule paymentStep.fail)
  show ?thesis
  proof (cases answer)
    case (GA_unresolved code)
    then show ?thesis using run R by (simp add: concludeVerification_def)
  next
    case (GA_thrown code)
    then show ?thesis using run rtranclp_trans [OF A R] by (auto simp: concludeVerification_def 1 simp del: One_nat_def split: sum.split_asm)
  next
    case (GA_rejected code)
    then show ?thesis using run rtranclp_trans [OF A R] rtranclp_trans [OF A F]
      by (auto simp: concludeVerification_def 1 simp del: One_nat_def split: sum.split_asm if_split_asm prod.split_asm)
  next
    case (GA_verified v)
    then show ?thesis using run rtranclp_trans [OF A R] rtranclp_trans [OF A V]
      by (auto simp: concludeVerification_def 1 simp del: One_nat_def split: sum.split_asm)
  qed
qed

text \<open>A verification reads its attempt before anything else; what it then concludes is a sequence of steps.\<close>

lemma verify_steps:
  assumes s: "orderlySession s" and run: "verifyAndSettleTopUpAttempt s ids answer now aid authority db = (x, db')"
  shows "paymentStep\<^sup>*\<^sup>* db db'"
proof -
  note O = others_steps [OF s, of db 0]
  show ?thesis using run O rtranclp_trans [OF O concludeVerification_steps [OF s]]
    by (auto simp: verifyAndSettleTopUpAttempt_def Let_def split: option.split_asm if_split_asm)
qed

lemma createExternalPayment_steps:
  assumes s: "orderlySession s" and run: "createExternalPayment s answer now pp db = (x, db')"
  shows "paymentStep\<^sup>*\<^sup>* db db'"
proof (cases answer)
  case (Inl code)
  let ?fail = "\<lambda>db. Inr ((), failCreation (pp_attemptId pp) (pp_topUpId pp) code db)"
  obtain r1 db1 where 1: "runTx s 10 ?fail db = (r1, db1)" by (cases "runTx s 10 ?fail db")
  have "paymentStep\<^sup>*\<^sup>* db db1" by (rule runTx_steps [OF s 1]) (auto intro: paymentStep.failCreation)
  then show ?thesis using run Inl by (auto simp: createExternalPayment_def 1 split: sum.split_asm)
next
  case (Inr p)
  obtain r1 db1 where 1: "runTx s 11 (persistPayment pp p) db = (r1, db1)" by (cases "runTx s 11 (persistPayment pp p) db")
  have A: "paymentStep\<^sup>*\<^sup>* db db1" by (rule runTx_steps [OF s 1]) (rule paymentStep.persist)
  obtain r2 db2 where 2: "runTx s 12 (persistForReview pp p now) db1 = (r2, db2)" by (cases "runTx s 12 (persistForReview pp p now) db1")
  have B: "paymentStep\<^sup>*\<^sup>* db1 db2" by (rule runTx_steps [OF s 2]) (rule paymentStep.persistReview)
  show ?thesis using run Inr A rtranclp_trans [OF A B] by (auto simp: createExternalPayment_def 1 2 split: sum.split_asm)
qed

lemma createTopUpIntentRial_steps:
  assumes s: "orderlySession s" and run: "createTopUpIntentRial env s ids token answer now userId amount opts db = (x, db')"
  shows "paymentStep\<^sup>*\<^sup>* db db'"
proof (cases "amount \<le> 0 \<or> amount > MAX_TOPUP_TOMAN * 10")
  case True
  then have "(Inl ''amount_out_of_range'', db) = (x, db')"
    using run by (simp only: createTopUpIntentRial_def if_True)
  then show ?thesis by simp
next
  case False
  obtain r1 db1 where 1: "runTx s 0 (ensureWalletForUser userId (ii_wallet ids)) db = (r1, db1)"
    by (cases "runTx s 0 (ensureWalletForUser userId (ii_wallet ids)) db")
  have A: "paymentStep\<^sup>*\<^sup>* db db1" by (rule runTx_steps [OF s 1]) (rule paymentStep.ensure)
  let ?open = "\<lambda>w gw. openTopUp ids (w_id w) amount gw (hashCallbackToken (pe_digest env) (pe_secret env) token) now opts"
  have B: "paymentStep\<^sup>*\<^sup>* db1 db2" if "runTx s 1 (?open w gw) db1 = (r, db2)" for w gw r db2
    by (rule runTx_steps [OF s that]) (rule paymentStep.openTopUp, assumption, use False in simp)
  have C: "paymentStep\<^sup>*\<^sup>* y db'" if "createExternalPayment s answer now pp y = (x, db')" for pp y
    by (rule createExternalPayment_steps [OF s that])
  show ?thesis using run False A rtranclp_trans [OF A B] rtranclp_trans [OF rtranclp_trans [OF A B] C]
    by (auto simp: createTopUpIntentRial_def 1 simp del: One_nat_def split: sum.split_asm option.split_asm prod.split_asm)
qed

lemma retryTopUpPayment_steps:
  assumes s: "orderlySession s" and run: "retryTopUpPayment env s newId token answer now userId tid key db = (x, db')"
  shows "paymentStep\<^sup>*\<^sup>* db db'"
proof -
  note O = others_steps [OF s, of db 0]
  let ?reopen = "\<lambda>gw. reopenTx newId userId tid gw (hashCallbackToken (pe_digest env) (pe_secret env) token) now key"
  have B: "paymentStep\<^sup>*\<^sup>* (ss_others s 0 db) db2" if "withSerializableRetry s 1 (?reopen gw) (ss_others s 0 db) = (r, db2)" for gw r db2
    by (rule retry_steps [OF s _ that]) (rule paymentStep.reopen)
  have C: "paymentStep\<^sup>*\<^sup>* y db'" if "createExternalPayment s answer now pp y = (x, db')" for pp y
    by (rule createExternalPayment_steps [OF s that])
  show ?thesis using run O rtranclp_trans [OF O B] rtranclp_trans [OF rtranclp_trans [OF O B] C]
    by (auto simp: retryTopUpPayment_def Let_def simp del: One_nat_def split: sum.split_asm option.split_asm prod.split_asm if_split_asm)
qed

section \<open>Rows after further steps\<close>

lemma steps_findAttempt:
  assumes st: "paymentStep\<^sup>*\<^sup>* db db'" and inv: "paymentInv db" and a: "findAttempt aid db = Some a"
  obtains a' where "findAttempt aid db' = Some a'" and "paStatic a' = paStatic a"
proof -
  have inv': "paymentInv db'" by (rule paymentSteps_inv [OF st inv])
  have "paStatic a \<in> paStatic ` set (attempts db')"
    using paymentSteps_grows [OF st inv] findAttempt_Some [OF a] unfolding grows_def by blast
  then obtain x where x: "x \<in> set (attempts db')" "paStatic x = paStatic a" by auto
  have id: "pa_id x = aid" using x(2) findAttempt_Some [OF a] by (simp add: paStatic_def)
  obtain a' where a': "findAttempt aid db' = Some a'"
    using x(1) id by (cases "findAttempt aid db'") (auto simp: findAttempt_def findRow_None)
  have "a' = x"
    using distinct_key_eq [OF paymentInvD(4) [OF inv'], of a' x] findAttempt_Some [OF a'] x(1) id by simp
  then show ?thesis using that a' x(2) by simp
qed

lemma attempt_topUp:
  assumes inv: "paymentInv db" and a: "findAttempt aid db = Some a"
  obtains t where "findTopUp (pa_walletTopUpId a) db = Some t" and "tu_amount t = pa_amount a"
proof -
  obtain x where x: "x \<in> set (topUps db)" "tu_id x = pa_walletTopUpId a" "tu_amount x = pa_amount a"
    using paymentInvD(7) [OF inv, of a] findAttempt_Some [OF a] by (auto simp: ofTopUp_def)
  obtain t where t: "findTopUp (pa_walletTopUpId a) db = Some t"
    using x by (cases "findTopUp (pa_walletTopUpId a) db") (auto simp: findTopUp_def findRow_None)
  have "t = x"
    using distinct_key_eq [OF paymentInvD(3) [OF inv], of t x] findTopUp_Some [OF t] x by simp
  then show ?thesis using that t x(3) by simp
qed

lemma findRow_update_same:
  assumes "findRow (\<lambda>r. k r = x) t = Some r" and "\<And>r. k (f r) = k r"
  shows "findRow (\<lambda>r. k r = x) (updateRows (\<lambda>r. k r = x) f t) = Some (f r)"
  using assms by (induction t) auto

lemma upsertRow_member:
  assumes "k new = x" and "\<And>r. k (f r) = k r" and "P new" and "\<And>r. P (f r)"
  shows "\<exists>r \<in> set (upsertRow k new f t). k r = x \<and> P r"
proof (cases "\<exists>r \<in> set t. k r = x")
  case True
  then obtain r where "r \<in> set t" "k r = x" by auto
  then have "f r \<in> set (updateRows (\<lambda>r. k r = x) f t)" "k (f r) = x" using assms(2) by (auto simp: set_updateRows)
  then show ?thesis using assms(1,4) True by (auto simp: upsertRow_def)
qed (use assms in \<open>auto simp: upsertRow_def\<close>)

section \<open>A verified payment is never lost\<close>

text \<open>The attempt has succeeded or waits in an open recovery case.\<close>

definition settledOrOpen :: "PaymentDb \<Rightarrow> string \<Rightarrow> bool" where
  "settledOrOpen db aid \<longleftrightarrow> (case findAttempt aid db of None \<Rightarrow> False
     | Some a \<Rightarrow> pa_status a = PA_SUCCEEDED \<or> (\<exists>c \<in> set (recoveryCases db). pr_attemptId c = aid \<and> pr_status c = PR_OPEN))"

lemma review_total:
  assumes inv: "paymentInv db" and a: "findAttempt aid db = Some a"
  obtains x db' where "recordPaymentReview r now aid db = Inr (x, db')" and "settledOrOpen db' aid"
proof -
  obtain t where t: "findTopUp (pa_walletTopUpId a) db = Some t" by (rule attempt_topUp [OF inv a])
  note id = findAttempt_Some [OF a]
  show ?thesis
  proof (cases "pa_status a = PA_SUCCEEDED")
    case True
    then show ?thesis using that [of "(a, t)" db] a t by (simp add: recordPaymentReview_def settledOrOpen_def)
  next
    case False
    have "recordPaymentReview r now aid db \<noteq> Inl e" for e
      using a t by (simp add: recordPaymentReview_def Let_def)
    then obtain y where y: "recordPaymentReview r now aid db = Inr y" by (cases "recordPaymentReview r now aid db") auto
    obtain x db' where run: "recordPaymentReview r now aid db = Inr (x, db')" using y by (cases y) simp
    let ?next = "if rw_transient r then Some (nextReconcileAt now) else None"
    let ?f = "\<lambda>a. a\<lparr>pa_status := PA_REVIEW, pa_failureCode := Some (rw_reasonCode r), pa_nextReconcileAt := ?next\<rparr>"
    let ?c = "\<lambda>c. c\<lparr>pr_status := PR_OPEN, pr_reasonCode := rw_reasonCode r, pr_observedAmount := rw_observedAmount r,
      pr_observedCurrency := rw_observedCurrency r, pr_nextAttemptAt := ?next, pr_resolvedAt := None\<rparr>"
    have rows: "attempts db' = updateRows (\<lambda>a. pa_id a = aid) ?f (attempts db)"
      "recoveryCases db' = upsertRow pr_attemptId
         (openCase a (rw_reasonCode r) (rw_observedAmount r) (rw_observedCurrency r) ?next) ?c (recoveryCases db)"
      using run a t False by (auto simp: recordPaymentReview_def Let_def setAttempt_def setTopUp_def split: if_split_asm)
    have "findAttempt aid db' = Some (?f a)"
      unfolding findAttempt_def rows(1) by (rule findRow_update_same) (use a in \<open>simp_all add: findAttempt_def\<close>)
    moreover have "\<exists>c \<in> set (recoveryCases db'). pr_attemptId c = aid \<and> pr_status c = PR_OPEN"
      unfolding rows(2) by (rule upsertRow_member) (use id in \<open>simp_all add: openCase_def\<close>)
    ultimately show ?thesis using that [OF run] by (simp add: settledOrOpen_def)
  qed
qed

lemma reviewed_total:
  assumes s: "orderlySession s" and on: "\<not> ss_aborted s k" and inv: "paymentInv db" and a: "findAttempt aid db = Some a"
  obtains x db' where "reviewed s k r now aid db = (Inr x, db')" and "settledOrOpen db' aid"
proof -
  note O = others_steps [OF s, of db k]
  obtain b where b: "findAttempt aid (ss_others s k db) = Some b" by (rule steps_findAttempt [OF O inv a])
  obtain x db' where "recordPaymentReview r now aid (ss_others s k db) = Inr (x, db')" "settledOrOpen db' aid"
    by (rule review_total [OF paymentSteps_inv [OF O inv] b])
  then show ?thesis using that on by (simp add: reviewed_def runTx_def Let_def split_beta)
qed

text \<open>A verification ends well for an attempt: if it returns, the attempt is settled or open; if it fails, one of its two
  transactions that record a review (2 and 8) was aborted.\<close>

definition endsWell :: "Session \<Rightarrow> string \<Rightarrow> string + 'a \<Rightarrow> PaymentDb \<Rightarrow> bool" where
  "endsWell s aid r db \<longleftrightarrow> (case r of Inr _ \<Rightarrow> settledOrOpen db aid | Inl _ \<Rightarrow> ss_aborted s 2 \<or> ss_aborted s 8)"

lemma reviewed_ends:
  assumes "orderlySession s" and "k = 2 \<or> k = 8" and "paymentInv db" and "findAttempt aid db = Some a"
    and run: "reviewed s k r now aid db = (x, db')"
  shows "endsWell s aid x db'"
proof (cases "ss_aborted s k")
  case True
  then show ?thesis using run assms(2) by (auto simp: reviewed_def runTx_def Let_def endsWell_def)
next
  case False
  show ?thesis
    by (rule reviewed_total [OF assms(1) False assms(3,4), of r now]) (use run in \<open>simp add: endsWell_def\<close>)
qed

lemma settleTopUpTx_settled:
  assumes inv: "paymentInv db" and run: "settleTopUpTx ids v now aid db = Inr (r, db')" and nd: "\<not> sa_duplicate r"
  shows "settledOrOpen db' aid"
  using run
proof (cases rule: settleTopUpTx_cases)
  case (again a t)
  obtain js where "db' = db\<lparr>journal := js\<rparr>" using postTopUp_Inr(4) [OF again(5) paymentInvD(2) [OF inv]] by (elim exE)
  then show ?thesis using again by (simp add: settledOrOpen_def findAttempt_def)
next
  case duplicate
  then show ?thesis using nd by simp
next
  case (settle a t w db1)
  note id = findAttempt_Some [OF settle(1)]
  have pos: "0 < tu_amount t" using paymentInvD(6) [OF inv] findTopUp_Some [OF settle(2)] by simp
  have m: "moneyOnly db db1"
  proof (cases "credited db (tu_id t)")
    case False
    then have "creditTopUp ids (w_userId w) t db = Inr db1" using settle(5) by simp
    from creditTopUp_Inr [OF paymentInvD(1) [OF inv] this pos] show ?thesis by metis
  qed (use settle(5) in \<open>simp add: moneyOnly_def\<close>)
  have j: "journalInv db1" using paymentInvD(2) [OF inv] journalInv_cong [of db1 db] m by (simp add: moneyOnly_def)
  have at: "attempts db' = updateRows (\<lambda>x. pa_id x = pa_id a) (attemptSucceeded v now) (attempts db1)"
    by (rule finishSettlement_Inr [OF settle(6) j])
  have "attempts db1 = attempts db" using m by (simp add: moneyOnly_def)
  then have "findAttempt aid db' = Some (attemptSucceeded v now a)"
    unfolding findAttempt_def at conjunct2 [OF id]
    by (intro findRow_update_same) (use settle(1) in \<open>simp_all add: findAttempt_def\<close>)
  then show ?thesis by (simp add: settledOrOpen_def)
qed

lemma retryTx_result:
  assumes s: "orderlySession s" and tx: "\<And>db x db'. tx db = Inr (x, db') \<Longrightarrow> paymentStep db db'"
  shows "retryTx s k n tx db = (Inr x, db') \<Longrightarrow> \<exists>db1. paymentStep\<^sup>*\<^sup>* db db1 \<and> tx db1 = Inr (x, db')"
proof (induction n arbitrary: k db)
  case (Suc n)
  obtain r1 db1 where 1: "runTx s k tx db = (r1, db1)" by (cases "runTx s k tx db")
  show ?case
    using 1
  proof (cases rule: runTx_cases)
    case (fails e)
    then have "retryTx s (k + 1) n tx db1 = (Inr x, db')" using Suc.prems by (auto simp: 1 split: if_split_asm)
    from Suc.IH [OF this] obtain db2 where "paymentStep\<^sup>*\<^sup>* db1 db2" "tx db2 = Inr (x, db')" by (elim exE conjE)
    then show ?thesis using rtranclp_trans [OF runTx_steps [OF s 1 tx]] by (intro exI [of _ db2]) simp
  next
    case (commits y)
    then have "y = x" "db1 = db'" using Suc.prems by (simp_all add: 1)
    then show ?thesis using commits(3) others_steps [OF s] by (intro exI [of _ "ss_others s k db"]) simp
  qed
qed simp

lemmas retry_result = retryTx_result [where n = 3 and tx = tx for tx, folded withSerializableRetry_def]

lemma settleVerifiedAttempt_settled:
  assumes s: "orderlySession s" and inv: "paymentInv db" and a: "findAttempt aid db = Some a"
    and run: "settleVerifiedAttempt s ids v now aid db = (Inr r, db')"
  shows "settledOrOpen db' aid"
proof -
  let ?tx = "settleTopUpTx ids v now aid"
  obtain r1 db1 where 1: "withSerializableRetry s 4 ?tx db = (r1, db1)" by (cases "withSerializableRetry s 4 ?tx db")
  then obtain r0 where r0: "r1 = Inr r0" using run by (cases r1) (simp_all add: settleVerifiedAttempt_def)
  obtain db0 where 0: "paymentStep\<^sup>*\<^sup>* db db0" "?tx db0 = Inr (r0, db1)"
    using retry_result [OF s _ 1 [unfolded r0]] paymentStep.settle by metis
  show ?thesis
  proof (cases "sa_duplicate r0")
    case False
    then have "db' = db1" using run by (simp add: settleVerifiedAttempt_def 1 r0)
    then show ?thesis using settleTopUpTx_settled [OF paymentSteps_inv [OF 0(1) inv] 0(2) False] by simp
  next
    case True
    have st: "paymentStep\<^sup>*\<^sup>* db db1" by (rule retry_steps [OF s _ 1]) (rule paymentStep.settle)
    let ?O = "ss_others s 7 db1"
    have st2: "paymentStep\<^sup>*\<^sup>* db ?O" by (rule rtranclp_trans [OF st others_steps [OF s]])
    obtain x where x: "recordPaymentReview (duplicateReview v) now aid ?O = Inr (x, db')"
    proof -
      obtain r2 db2 where 2: "runTx s 7 (recordPaymentReview (duplicateReview v) now aid) db1 = (r2, db2)"
        by (cases "runTx s 7 (recordPaymentReview (duplicateReview v) now aid) db1")
      then obtain y where y: "r2 = Inr y" "db2 = db'"
        using run True by (cases r2) (auto simp: settleVerifiedAttempt_def 1 r0 split: prod.split_asm)
      from 2 show ?thesis by (cases rule: runTx_cases) (use y that in auto)
    qed
    obtain b where b: "findAttempt aid ?O = Some b" by (rule steps_findAttempt [OF st2 inv a])
    show ?thesis
      by (rule review_total [OF paymentSteps_inv [OF st2 inv] b, of "duplicateReview v" now]) (use x in simp)
  qed
qed

lemma concludeVerified_ends:
  assumes s: "orderlySession s" and inv: "paymentInv db" and a: "findAttempt (pa_id a) db = Some b"
    and run: "concludeVerified s ids a v now db = (x, db')"
  shows "endsWell s (pa_id a) x db'"
proof (cases "vp_amountRial v \<noteq> pa_amount a \<or> vp_currency v \<noteq> pa_currency a")
  case True
  show ?thesis
    by (rule reviewed_ends [OF s _ inv a, of 2]) (rule disjI1, rule HOL.refl, use run in \<open>simp only: concludeVerified_def True if_True\<close>)
next
  case False
  let ?tx = "case runTx s 3 (stampVerified v now (pa_id a)) db of
     (Inl e, db) \<Rightarrow> (Inl e, db) | (Inr _, db) \<Rightarrow> settleVerifiedAttempt s ids v now (pa_id a) db"
  obtain r1 db1 where 1: "runTx s 3 (stampVerified v now (pa_id a)) db = (r1, db1)"
    by (cases "runTx s 3 (stampVerified v now (pa_id a)) db")
  have A: "paymentStep\<^sup>*\<^sup>* db db1" by (rule runTx_steps [OF s 1]) (rule paymentStep.stamp)
  obtain r2 db2 where 2: "?tx = (r2, db2)" by (cases ?tx)
  have B: "paymentStep\<^sup>*\<^sup>* db db2"
    using 2 A rtranclp_trans [OF A settleVerifiedAttempt_steps [OF s]] by (auto simp: 1 split: sum.split_asm)
  show ?thesis
  proof (cases r2)
    case (Inl e)
    obtain c where c: "findAttempt (pa_id a) db2 = Some c" by (rule steps_findAttempt [OF B inv a])
    have "reviewed s 8 (observedReview ''wallet_credit_pending'' v True) now (pa_id a) db2 = (x, db')"
      using run False 2 Inl by (simp add: concludeVerified_def)
    then show ?thesis by (rule reviewed_ends [OF s _ paymentSteps_inv [OF B inv] c, rotated]) simp
  next
    case (Inr r)
    obtain c where c: "findAttempt (pa_id a) db1 = Some c" by (rule steps_findAttempt [OF A inv a])
    have "settleVerifiedAttempt s ids v now (pa_id a) db1 = (Inr r, db2)"
      using 2 Inr by (cases r1) (simp_all add: 1)
    then have "settledOrOpen db2 (pa_id a)" by (rule settleVerifiedAttempt_settled [OF s paymentSteps_inv [OF A inv] c])
    then show ?thesis using run False 2 Inr by (auto simp: concludeVerified_def endsWell_def)
  qed
qed

text \<open>The transactions that record a review: 2 when the amount differs or the count of the verification aborts, 8
  when crediting fails.\<close>

lemma verify_ends:
  assumes s: "orderlySession s" and inv: "paymentInv (ss_others s 0 db)"
    and a: "findAttempt aid (ss_others s 0 db) = Some a" "suppliedAuthority authority a \<noteq> None"
    and run: "verifyAndSettleTopUpAttempt s ids (GA_verified v) now aid authority db = (r, db')"
  shows "endsWell s aid r db'"
proof -
  let ?db = "ss_others s 0 db"
  note id = conjunct2 [OF findAttempt_Some [OF a(1)]]
  obtain t where t: "findTopUp (pa_walletTopUpId a) ?db = Some t" by (rule attempt_topUp [OF inv a(1)])
  show ?thesis
  proof (cases "pa_status a = PA_SUCCEEDED")
    case True
    then show ?thesis using run by (auto simp: verifyAndSettleTopUpAttempt_def a(1) t settledOrOpen_def endsWell_def)
  next
    case False
    let ?count = "\<lambda>db. Inr ((), countVerification (pa_id a) db)"
    obtain r1 db1 where 1: "runTx s 1 ?count ?db = (r1, db1)" by (cases "runTx s 1 ?count ?db")
    have A: "paymentStep\<^sup>*\<^sup>* ?db db1" by (rule runTx_steps [OF s 1]) (auto intro: paymentStep.count)
    obtain b where b: "findAttempt aid db1 = Some b" by (rule steps_findAttempt [OF A inv a(1)])
    have run': "concludeVerification s ids a (GA_verified v) now ?db = (r, db')"
      using run False a t by (auto simp: verifyAndSettleTopUpAttempt_def Let_def)
    show ?thesis
    proof (cases r1)
      case (Inl e)
      then have "reviewed s 2 (plainReview ''verify_unavailable'' True) now aid db1 = (r, db')"
        using run' by (simp add: concludeVerification_def 1 id [symmetric] del: One_nat_def)
      then show ?thesis by (rule reviewed_ends [OF s _ paymentSteps_inv [OF A inv] b, rotated]) simp
    next
      case (Inr u)
      then have "concludeVerified s ids a v now db1 = (r, db')"
        using run' by (simp add: concludeVerification_def 1 del: One_nat_def)
      from concludeVerified_ends [OF s paymentSteps_inv [OF A inv] b [folded id] this] show ?thesis using id by simp
    qed
  qed
qed

text \<open>C6: a payment the gateway has verified is never lost. Whatever the other sessions do before and between the
  transactions of a verification, and whichever of its transactions abort: if the verification returns, the attempt has
  succeeded or waits in an open recovery case; and it fails only because a transaction that records the review (the second
  or the eighth) was aborted, which the code does not retry. Even then the payment can be verified again: from every later
  state the attempt is found, and the next verification with its authority whose recording transactions are not aborted
  returns and leaves the attempt succeeded or in an open recovery case.\<close>

theorem verified_payment_never_lost:
  assumes "orderlySession s" and "paymentReach db"
    and "findAttempt aid (ss_others s 0 db) = Some a" and "suppliedAuthority authority a \<noteq> None"
    and "verifyAndSettleTopUpAttempt s ids (GA_verified v) now aid authority db = (r, db1)"
  shows "(case r of Inr _ \<Rightarrow> settledOrOpen db1 aid | Inl _ \<Rightarrow> ss_aborted s 2 \<or> ss_aborted s 8) \<and>
    (\<forall>db2 s'. paymentStep\<^sup>*\<^sup>* db1 db2 \<longrightarrow> orderlySession s' \<longrightarrow> \<not> ss_aborted s' 2 \<longrightarrow> \<not> ss_aborted s' 8 \<longrightarrow>
      (\<exists>a'. findAttempt aid (ss_others s' 0 db2) = Some a' \<and>
        (\<forall>ids' v' now' authority'. suppliedAuthority authority' a' \<noteq> None \<longrightarrow>
          (\<exists>x db3. verifyAndSettleTopUpAttempt s' ids' (GA_verified v') now' aid authority' db2 = (Inr x, db3) \<and>
             settledOrOpen db3 aid))))"
proof (intro conjI allI impI)
  have inv: "paymentInv (ss_others s 0 db)"
    by (rule paymentSteps_inv [OF others_steps [OF assms(1)] paymentReach_inv [OF assms(2)]])
  show "case r of Inr _ \<Rightarrow> settledOrOpen db1 aid | Inl _ \<Rightarrow> ss_aborted s 2 \<or> ss_aborted s 8"
    using verify_ends [OF assms(1) inv assms(3,4,5)] by (simp add: endsWell_def)
  fix db2 s'
  assume later: "paymentStep\<^sup>*\<^sup>* db1 db2" and s': "orderlySession s'" "\<not> ss_aborted s' 2" "\<not> ss_aborted s' 8"
  have from0: "paymentStep\<^sup>*\<^sup>* (ss_others s 0 db) db1"
    using assms(5) concludeVerification_steps [OF assms(1)]
    by (auto simp: verifyAndSettleTopUpAttempt_def Let_def split: option.split_asm if_split_asm)
  have steps: "paymentStep\<^sup>*\<^sup>* (ss_others s 0 db) (ss_others s' 0 db2)"
    by (rule rtranclp_trans [OF rtranclp_trans [OF from0 later] others_steps [OF s'(1)]])
  note inv' = paymentSteps_inv [OF steps inv]
  obtain a' where a': "findAttempt aid (ss_others s' 0 db2) = Some a'" by (rule steps_findAttempt [OF steps inv assms(3)])
  have "\<exists>x db3. verifyAndSettleTopUpAttempt s' ids' (GA_verified v') now' aid authority' db2 = (Inr x, db3) \<and> settledOrOpen db3 aid"
    if "suppliedAuthority authority' a' \<noteq> None" for ids' v' now' authority'
  proof -
    obtain r' db3 where run: "verifyAndSettleTopUpAttempt s' ids' (GA_verified v') now' aid authority' db2 = (r', db3)"
      by (cases "verifyAndSettleTopUpAttempt s' ids' (GA_verified v') now' aid authority' db2")
    show ?thesis using verify_ends [OF s'(1) inv' a' that run] run s'(2,3) by (auto simp: endsWell_def split: sum.splits)
  qed
  then show "\<exists>a'. findAttempt aid (ss_others s' 0 db2) = Some a' \<and>
      (\<forall>ids' v' now' authority'. suppliedAuthority authority' a' \<noteq> None \<longrightarrow>
        (\<exists>x db3. verifyAndSettleTopUpAttempt s' ids' (GA_verified v') now' aid authority' db2 = (Inr x, db3) \<and>
           settledOrOpen db3 aid))"
    using a' by blast
qed

section \<open>A sample history\<close>

definition calmSession :: Session where
  "calmSession = \<lparr>ss_others = (\<lambda>_ db. db), ss_aborted = (\<lambda>_. False)\<rparr>"

definition sampleEnv :: PaymentEnv where
  "sampleEnv = \<lparr>pe_digest = (\<lambda>x. x), pe_secret = ''s'', pe_gateway = Inr ZARINPAL\<rparr>"

definition sampleOptions :: TopUpIntentOptions where
  "sampleOptions = \<lparr>io_idempotencyKey = ''k1'', io_purchaseOrderId = None, io_requestFingerprint = None,
     io_couponCode = None, io_bonusRialSnapshot = None\<rparr>"

definition sampleVerified :: VerifiedPayment where
  "sampleVerified = \<lparr>vp_authority = ''A1'', vp_gatewayReference = ''R1'', vp_amountRial = 7, vp_currency = ''IRR''\<rparr>"

definition openedPayments :: PaymentDb where
  "openedPayments = snd (createTopUpIntentRial sampleEnv calmSession \<lparr>ii_wallet = ''w1'', ii_topUp = ''t1'', ii_attempt = ''a1''\<rparr>
     ''tok'' (Inr \<lparr>cr_authority = ''A1'', cr_redirectUrl = ''url'', cr_gatewayReference = None\<rparr>) 0 ''u1'' 7
     sampleOptions emptyPayments)"

definition sampleIds :: SettleIds where
  "sampleIds = \<lparr>si_credit = ''e1'', si_bonus = ''e2'', si_journal = ''j1''\<rparr>"

definition settledPayments :: PaymentDb where
  "settledPayments = snd (verifyAndSettleTopUpAttempt calmSession sampleIds (GA_verified sampleVerified) 5 ''a1'' None openedPayments)"

lemma calm: "orderlySession calmSession" "ss_others calmSession k db = db" "ss_aborted calmSession k = False"
  by (simp_all add: calmSession_def orderlySession_def)

lemma reach_step: "paymentReach db \<Longrightarrow> paymentStep\<^sup>*\<^sup>* db db' \<Longrightarrow> paymentReach db'"
  unfolding paymentReach_def by (rule rtranclp_trans)

lemma openedPayments_reach: "paymentReach openedPayments"
  unfolding openedPayments_def
  by (rule reach_step [OF _ createTopUpIntentRial_steps [OF calm(1) surjective_pairing]]) (simp add: paymentReach_def)

lemma settledPayments_reach: "paymentReach settledPayments"
  unfolding settledPayments_def
  by (rule reach_step [OF openedPayments_reach verify_steps [OF calm(1) surjective_pairing]])

lemma openedPayments_rows: "map tu_id (topUps openedPayments) = [''t1'']" "map_option pa_authority (findAttempt ''a1'' openedPayments) = Some (Some ''A1'')"
  by code_simp+

lemma settledPayments_rows: "map tu_id (topUps settledPayments) = [''t1'']" "map tu_status (topUps settledPayments) = [TU_SUCCEEDED]"
  by code_simp+

definition sampleCommand :: AdminCommand where
  "sampleCommand = \<lparr>ac_operation = ''controlled_topup_refund'', ac_idempotencyKey = ''k2'', ac_actorUserId = ''u9'',
     ac_infrastructureOrderId = None, ac_serviceOrderId = None, ac_reason = ''r'', ac_payload = [],
     ac_requestFingerprint = ''f'', ac_receiptKey = ''k''\<rparr>"

definition refundedPayments :: PaymentDb where
  "refundedPayments = (case refundBody \<lparr>ri_refund = ''r1'', ri_entry = ''e3'', ri_journal = ''j2''\<rparr> sampleCommand ''t1'' 9
     settledPayments of Inl _ \<Rightarrow> settledPayments | Inr (_, db) \<Rightarrow> db)"

lemma refundedPayments_reach: "paymentReach refundedPayments"
  using settledPayments_reach
  by (auto simp: refundedPayments_def intro: reach_step [OF _ r_into_rtranclp] paymentStep.refund split: sum.split)

lemma refundedPayments_rows: "map tu_id (topUps refundedPayments) = [''t1'']" "map rf_status (refundRows refundedPayments) = [CR_APPROVED]"
  "map rf_walletTopUpId (refundRows refundedPayments) = [''t1'']"
  by code_simp+

section \<open>At most one credit and one refund per top-up\<close>

lemma keyed_once:
  assumes "distinct (map k xs)"
  shows "filter (\<lambda>x. k x = y) xs = [] \<or> (\<exists>x \<in> set xs. k x = y \<and> filter (\<lambda>x. k x = y) xs = [x])"
  using assms
proof (induction xs)
  case (Cons a xs)
  show ?case
  proof (cases "k a = y")
    case True
    have "k x \<noteq> y" if "x \<in> set xs" for x using Cons.prems True imageI [OF that, of k] by auto
    then have "filter (\<lambda>x. k x = y) xs = []" by (simp add: filter_empty_conv)
    then show ?thesis using True by simp
  qed (use Cons in auto)
qed simp

lemma none_filtered:
  assumes "y \<notin> g ` {x \<in> set xs. p x}"
  shows "filter (\<lambda>x. g x = y \<and> p x) xs = []"
  using assms unfolding filter_empty_conv by blast

lemma injective_once:
  assumes "distinct (map k xs)" and "inj_on snd ((\<lambda>x. (k x, g x)) ` {x \<in> set xs. p x})"
  shows "length (filter (\<lambda>x. g x = y \<and> p x) xs) \<le> 1"
proof -
  let ?f = "filter (\<lambda>x. g x = y \<and> p x) xs"
  have "x = z" if "x \<in> set ?f" "z \<in> set ?f" for x z
  proof -
    have "(k x, g x) = (k z, g z)" using that by (intro inj_onD [OF assms(2)]) auto
    then show ?thesis using distinct_key_eq [OF assms(1)] that by auto
  qed
  then have "card (set ?f) \<le> Suc 0" by (subst card_le_Suc0_iff_eq) simp_all
  moreover have "distinct ?f" using assms(1) by (simp add: distinct_map)
  ultimately show ?thesis using distinct_card [of ?f] by simp
qed

lemma credit_entry:
  assumes inv: "paymentInv db" and t: "t \<in> set (topUps db)" and e: "e \<in> set (ledger db)"
  shows "le_idempotencyKey e = creditKey (tu_id t) \<Longrightarrow> creditOf t e"
    and "le_idempotencyKey e = refundDebitKey (tu_id t) \<Longrightarrow> refundOf t e \<and> credited db (tu_id t)"
proof -
  note K = keyedEntryD [OF paymentInvD(8) [OF inv e], of "tu_id t"] and d = distinct_key_eq [OF paymentInvD(3) [OF inv]]
  show "creditOf t e" if "le_idempotencyKey e = creditKey (tu_id t)" using K(1) [OF that] d [OF _ t] by auto
  show "refundOf t e \<and> credited db (tu_id t)" if "le_idempotencyKey e = refundDebitKey (tu_id t)"
    using K(3) [OF that] d [OF _ t] by auto
qed

definition creditsOf :: "PaymentDb \<Rightarrow> string \<Rightarrow> LedgerEntry list" where
  "creditsOf db tid = filter (\<lambda>e. le_idempotencyKey e = creditKey tid) (ledger db)"

definition refundDebits :: "PaymentDb \<Rightarrow> string \<Rightarrow> LedgerEntry list" where
  "refundDebits db tid = filter (\<lambda>e. le_idempotencyKey e = refundDebitKey tid) (ledger db)"

definition successesOf :: "PaymentDb \<Rightarrow> string \<Rightarrow> AttemptRow list" where
  "successesOf db tid = filter (\<lambda>a. pa_walletTopUpId a = tid \<and> pa_status a = PA_SUCCEEDED) (attempts db)"

definition approvalsOf :: "PaymentDb \<Rightarrow> string \<Rightarrow> RefundRow list" where
  "approvalsOf db tid = filter (\<lambda>r. rf_walletTopUpId r = tid \<and> rf_status r \<in> {CR_APPROVED, CR_COMPLETED}) (refundRows db)"

lemma entries_once:
  assumes inv: "paymentInv db"
  shows "creditsOf db tid = [] \<or> (\<exists>e \<in> set (ledger db). le_idempotencyKey e = creditKey tid \<and> creditsOf db tid = [e])"
    and "refundDebits db tid = [] \<or> (\<exists>e \<in> set (ledger db). le_idempotencyKey e = refundDebitKey tid \<and> refundDebits db tid = [e])"
proof -
  have "distinct (map le_idempotencyKey (ledger db))" using paymentInvD(1) [OF inv] unfolding walletInv_def by (elim conjE)
  from keyed_once [OF this]
  show "creditsOf db tid = [] \<or> (\<exists>e \<in> set (ledger db). le_idempotencyKey e = creditKey tid \<and> creditsOf db tid = [e])"
    and "refundDebits db tid = [] \<or> (\<exists>e \<in> set (ledger db). le_idempotencyKey e = refundDebitKey tid \<and> refundDebits db tid = [e])"
    unfolding creditsOf_def refundDebits_def by blast+
qed

lemma creditsOf_Nil: "creditsOf db tid = [] \<longleftrightarrow> \<not> credited db tid"
  by (auto simp: creditsOf_def credited_def filter_empty_conv)

lemma refundDebits_Nil: "refundDebits db tid = [] \<longleftrightarrow> \<not> refunded db tid"
  by (auto simp: refundDebits_def refunded_def filter_empty_conv)

text \<open>C4: whatever customers, callbacks, administrators, retries and other features do, a top-up is credited to
  its wallet at most once, with exactly its amount, and booked in the journal with it; of all its payment attempts
  at most one ends as succeeded, and neither it nor an attempt is marked as succeeded without the credit.\<close>

theorem topups_credited_once:
  assumes "paymentReach db" and "t \<in> set (topUps db)"
  shows "if creditsOf db (tu_id t) = [] then successesOf db (tu_id t) = [] \<and> tu_status t \<noteq> TU_SUCCEEDED
     else (\<exists>e. creditsOf db (tu_id t) = [e] \<and> creditOf t e) \<and> length (successesOf db (tu_id t)) \<le> 1 \<and> booked db t"
proof (cases "credited db (tu_id t)")
  note inv = paymentReach_inv [OF assms(1)]
  case False
  then have "tu_id t \<notin> snd ` succeededAttempts db" using paymentInvD(11) [OF inv] by auto
  then have "successesOf db (tu_id t) = []" unfolding successesOf_def
    by (intro none_filtered) (simp add: succeededAttempts_def image_image)
  moreover have "tu_status t \<noteq> TU_SUCCEEDED"
    using False paymentInvD(10) [OF inv, of "tu_id t"] assms(2) by (auto simp: succeededTopUps_def)
  ultimately show ?thesis using False creditsOf_Nil by simp
next
  note inv = paymentReach_inv [OF assms(1)]
  case True
  obtain e where e: "e \<in> set (ledger db)" "le_idempotencyKey e = creditKey (tu_id t)" "creditsOf db (tu_id t) = [e]"
    using entries_once(1) [OF inv, of "tu_id t"] True creditsOf_Nil by auto
  moreover have "length (successesOf db (tu_id t)) \<le> 1" unfolding successesOf_def
    by (rule injective_once [OF paymentInvD(4) [OF inv] paymentInvD(12) [OF inv, unfolded succeededAttempts_def]])
  ultimately show ?thesis
    using credit_entry(1) [OF inv assms(2) e(1,2)] paymentInvD(9) [OF inv assms(2) True] by simp
qed

theorem topups_credited_once_witness:
  "\<exists>t. topUps settledPayments = [t] \<and> creditsOf settledPayments (tu_id t) \<noteq> [] \<and> booked settledPayments t"
proof -
  obtain t where t: "topUps settledPayments = [t]" "tu_status t = TU_SUCCEEDED"
    using settledPayments_rows(2) by (auto simp: map_eq_Cons_conv)
  then show ?thesis
    using topups_credited_once [OF settledPayments_reach, of t] by (auto split: if_split_asm)
qed

text \<open>C7: of the refunds of a top-up at most one is ever approved, its amount leaves the wallet exactly once before
  the bank pays it back, and only a credited top-up is refunded.\<close>

theorem refund_approved_once:
  assumes "paymentReach db" and "t \<in> set (topUps db)"
  shows "length (approvalsOf db (tu_id t)) \<le> 1 \<and>
     (if refundDebits db (tu_id t) = [] then approvalsOf db (tu_id t) = []
      else (\<exists>e. refundDebits db (tu_id t) = [e] \<and> refundOf t e) \<and> (\<exists>c. creditsOf db (tu_id t) = [c] \<and> creditOf t c))"
proof
  note inv = paymentReach_inv [OF assms(1)]
  show "length (approvalsOf db (tu_id t)) \<le> 1" unfolding approvalsOf_def
    by (rule injective_once [OF paymentInvD(5) [OF inv] paymentInvD(14) [OF inv, unfolded approvedRefunds_def]])
  show "if refundDebits db (tu_id t) = [] then approvalsOf db (tu_id t) = []
      else (\<exists>e. refundDebits db (tu_id t) = [e] \<and> refundOf t e) \<and> (\<exists>c. creditsOf db (tu_id t) = [c] \<and> creditOf t c)"
  proof (cases "refunded db (tu_id t)")
    case False
    then have "tu_id t \<notin> snd ` approvedRefunds db" using paymentInvD(13) [OF inv] by auto
    then have "approvalsOf db (tu_id t) = []" unfolding approvalsOf_def
      by (intro none_filtered) (simp add: approvedRefunds_def image_image)
    then show ?thesis using False refundDebits_Nil by simp
  next
    case True
    obtain e where e: "e \<in> set (ledger db)" "le_idempotencyKey e = refundDebitKey (tu_id t)" "refundDebits db (tu_id t) = [e]"
      using entries_once(2) [OF inv, of "tu_id t"] True refundDebits_Nil by auto
    note R = credit_entry(2) [OF inv assms(2) e(1,2)]
    obtain c where c: "c \<in> set (ledger db)" "le_idempotencyKey c = creditKey (tu_id t)" "creditsOf db (tu_id t) = [c]"
      using entries_once(1) [OF inv, of "tu_id t"] R creditsOf_Nil by auto
    show ?thesis using e(3) R c(3) credit_entry(1) [OF inv assms(2) c(1,2)] by simp
  qed
qed

section \<open>A credit needs a verified payment\<close>

text \<open>Whatever leaves the ledger alone credits nothing.\<close>

lemma runTx_credited:
  assumes oth: "\<And>k db. credited (ss_others s k db) x = credited db x"
    and run: "runTx s k tx db = (r, db')" and tx: "\<And>db y db'. tx db = Inr (y, db') \<Longrightarrow> rowsKept db db'"
  shows "credited db' x = credited db x"
  using run
proof (cases rule: runTx_cases)
  case (commits y)
  have "credited db' x = credited (ss_others s k db) x" using tx [OF commits(3)] by (simp add: credited_def rowsKept_def)
  then show ?thesis by (simp only: oth)
qed (simp only: oth)

lemma settleTopUpTx_credits:
  assumes inv: "paymentInv db" and run: "settleTopUpTx ids v now aid db = Inr (r, db')"
    and cr: "credited db' x" "\<not> credited db x"
  obtains a where "findAttempt aid db = Some a" and "x = pa_walletTopUpId a"
  using run
proof (cases rule: settleTopUpTx_cases)
  case (again a t)
  obtain js where "db' = db\<lparr>journal := js\<rparr>" using postTopUp_Inr(4) [OF again(5) paymentInvD(2) [OF inv]] by (elim exE)
  then show ?thesis using cr by (simp add: credited_def)
next
  case duplicate
  then show ?thesis using cr by simp
next
  case (settle a t w db1)
  have pos: "0 < tu_amount t" using paymentInvD(6) [OF inv] findTopUp_Some [OF settle(2)] by simp
  have x: "x = tu_id t" if c: "creditTopUp ids (w_userId w) t db = Inr db1" and "ledger db' = ledger db1"
  proof -
    from creditTopUp_Inr [OF paymentInvD(1) [OF inv] c pos] obtain c es where
      "ledger db1 = ledger db @ c # es" "creditOf t c" "\<And>e. e \<in> set es \<Longrightarrow> bonusEntryOf t e" by metis
    then show ?thesis using cr that(2) by (auto simp: credited_def creditOf_def bonusEntryOf_def)
  qed
  have m: "moneyOnly db db1"
  proof (cases "credited db (tu_id t)")
    case False
    then have "creditTopUp ids (w_userId w) t db = Inr db1" using settle(5) by simp
    from creditTopUp_Inr [OF paymentInvD(1) [OF inv] this pos] show ?thesis by metis
  qed (use settle(5) in \<open>simp add: moneyOnly_def\<close>)
  have j: "journalInv db1" using paymentInvD(2) [OF inv] journalInv_cong [of db1 db] m by (simp add: moneyOnly_def)
  have led: "ledger db' = ledger db1" by (rule finishSettlement_Inr [OF settle(6) j])
  have "\<not> credited db (tu_id t)"
  proof
    assume "credited db (tu_id t)"
    then have "db1 = db" using settle(5) by simp
    then show False using led cr by (simp add: credited_def)
  qed
  then have "creditTopUp ids (w_userId w) t db = Inr db1" using settle(5) by simp
  from x [OF this led] show ?thesis using that [OF settle(1)] findTopUp_Some [OF settle(2)] by simp
qed

lemma retryTx_credits:
  assumes s: "orderlySession s" and oth: "\<And>k db. credited (ss_others s k db) x = credited db x"
  shows "retryTx s k n (settleTopUpTx ids v now aid) db = (r, db') \<Longrightarrow> paymentInv db \<Longrightarrow> credited db' x \<Longrightarrow> \<not> credited db x \<Longrightarrow>
    findAttempt aid db = Some a \<Longrightarrow> x = pa_walletTopUpId a"
proof (induction n arbitrary: k db a)
  case (Suc n)
  obtain r1 db1 where 1: "runTx s k (settleTopUpTx ids v now aid) db = (r1, db1)"
    by (cases "runTx s k (settleTopUpTx ids v now aid) db")
  note O = others_steps [OF s, of db k]
  note inv1 = paymentSteps_inv [OF O Suc.prems(2)]
  obtain b where b: "findAttempt aid (ss_others s k db) = Some b" "paStatic b = paStatic a"
    by (rule steps_findAttempt [OF O Suc.prems(2,5)])
  have same: "pa_walletTopUpId b = pa_walletTopUpId a" using b(2) by (simp add: paStatic_def)
  show ?case
    using 1
  proof (cases rule: runTx_cases)
    case (fails e)
    have "retryTx s (k + 1) n (settleTopUpTx ids v now aid) db1 = (r, db')"
      using Suc.prems(1,3,4) oth fails by (auto simp: 1 split: if_split_asm)
    from Suc.IH [OF this _ Suc.prems(3)] show ?thesis using fails(2) inv1 oth Suc.prems(4) b(1) same by simp
  next
    case (commits y)
    then have "db1 = db'" using Suc.prems(1) by (simp add: 1)
    then have run: "settleTopUpTx ids v now aid (ss_others s k db) = Inr (y, db')" using commits(3) by simp
    obtain c where "findAttempt aid (ss_others s k db) = Some c" "x = pa_walletTopUpId c"
      by (rule settleTopUpTx_credits [OF inv1 run Suc.prems(3)]) (use oth Suc.prems(4) in simp)
    then show ?thesis using b(1) same by simp
  qed
qed simp

lemmas retry_credits = retryTx_credits [where n = 3, folded withSerializableRetry_def]

lemma reviewed_credited:
  assumes oth: "\<And>k db. credited (ss_others s k db) x = credited db x" and run: "reviewed s k r now aid db = (y, db')"
  shows "credited db' x = credited db x"
proof -
  obtain z db1 where 1: "runTx s k (recordPaymentReview r now aid) db = (z, db1)"
    by (cases "runTx s k (recordPaymentReview r now aid) db")
  have "credited db1 x = credited db x" by (rule runTx_credited [OF oth 1 recordPaymentReview_kept])
  then show ?thesis using run by (auto simp: reviewed_def 1 split: sum.split_asm)
qed

lemma settleVerifiedAttempt_credits:
  assumes s: "orderlySession s" and oth: "\<And>k db. credited (ss_others s k db) x = credited db x"
    and run: "settleVerifiedAttempt s ids v now aid db = (y, db')" and inv: "paymentInv db"
    and cr: "credited db' x" "\<not> credited db x" and a: "findAttempt aid db = Some a"
  shows "x = pa_walletTopUpId a"
proof -
  obtain r1 db1 where 1: "withSerializableRetry s 4 (settleTopUpTx ids v now aid) db = (r1, db1)"
    by (cases "withSerializableRetry s 4 (settleTopUpTx ids v now aid) db")
  obtain r2 db2 where 2: "runTx s 7 (recordPaymentReview (duplicateReview v) now aid) db1 = (r2, db2)"
    by (cases "runTx s 7 (recordPaymentReview (duplicateReview v) now aid) db1")
  have "credited db2 x = credited db1 x" by (rule runTx_credited [OF oth 2 recordPaymentReview_kept])
  moreover have "db' = db1 \<or> db' = db2"
    using run by (auto simp: settleVerifiedAttempt_def 1 2 split: sum.split_asm if_split_asm)
  ultimately have "credited db1 x" using cr(1) by auto
  from retry_credits [OF s oth 1 inv this cr(2) a] show ?thesis .
qed

lemma concludeVerified_credits:
  assumes s: "orderlySession s" and oth: "\<And>k db. credited (ss_others s k db) x = credited db x"
    and run: "concludeVerified s ids a v now db = (y, db')" and inv: "paymentInv db"
    and cr: "credited db' x" "\<not> credited db x" and b: "findAttempt (pa_id a) db = Some b" "paStatic b = paStatic a"
  shows "vp_amountRial v = pa_amount a \<and> vp_currency v = pa_currency a \<and> x = pa_walletTopUpId a"
proof (cases "vp_amountRial v \<noteq> pa_amount a \<or> vp_currency v \<noteq> pa_currency a")
  case True
  have "credited db' x = credited db x"
    by (rule reviewed_credited [OF oth]) (use run True in \<open>simp only: concludeVerified_def if_True simp_thms\<close>)
  then show ?thesis using cr by simp
next
  case False
  obtain r1 db1 where 1: "runTx s 3 (stampVerified v now (pa_id a)) db = (r1, db1)"
    by (cases "runTx s 3 (stampVerified v now (pa_id a)) db")
  obtain r2 db2 where 2: "settleVerifiedAttempt s ids v now (pa_id a) db1 = (r2, db2)"
    by (cases "settleVerifiedAttempt s ids v now (pa_id a) db1")
  have c1: "credited db1 x = credited db x" by (rule runTx_credited [OF oth 1 stampVerified_kept])
  have A: "paymentStep\<^sup>*\<^sup>* db db1" by (rule runTx_steps [OF s 1]) (rule paymentStep.stamp)
  obtain c where c: "findAttempt (pa_id a) db1 = Some c" "paStatic c = paStatic b" by (rule steps_findAttempt [OF A inv b(1)])
  note R = reviewed_credited [OF oth, where r = "observedReview ''wallet_credit_pending'' v True"]
  have "credited db2 x"
    using run False cr c1 R by (auto simp: concludeVerified_def 1 2 split: sum.split_asm)
  from settleVerifiedAttempt_credits [OF s oth 2 paymentSteps_inv [OF A inv] this _ c(1)]
  show ?thesis using False cr(2) c1 c(2) b(2) by (simp add: paStatic_def)
qed

lemma concludeVerification_credits:
  assumes s: "orderlySession s" and oth: "\<And>k db. credited (ss_others s k db) x = credited db x"
    and run: "concludeVerification s ids a answer now db = (y, db')" and inv: "paymentInv db"
    and cr: "credited db' x" "\<not> credited db x" and a: "findAttempt (pa_id a) db = Some a"
  obtains v where "answer = GA_verified v" and "vp_amountRial v = pa_amount a" and "vp_currency v = pa_currency a"
    and "x = pa_walletTopUpId a"
proof -
  let ?count = "\<lambda>db. Inr ((), countVerification (pa_id a) db)"
  obtain r1 db1 where 1: "runTx s 1 ?count db = (r1, db1)" by (cases "runTx s 1 ?count db")
  have c1: "credited db1 x = credited db x" by (rule runTx_credited [OF oth 1]) (use countVerification_kept in auto)
  have A: "paymentStep\<^sup>*\<^sup>* db db1" by (rule runTx_steps [OF s 1]) (auto intro: paymentStep.count)
  obtain b where b: "findAttempt (pa_id a) db1 = Some b" "paStatic b = paStatic a" by (rule steps_findAttempt [OF A inv a])
  have R: "credited db' x = credited d x" if "reviewed s k q now (pa_id a) d = (y, db')" for k q d
    by (rule reviewed_credited [OF oth that])
  have F: "credited db2 x = credited db1 x" if "runTx s 2 (recordTerminalFailure code now (pa_id a)) db1 = (r, db2)" for code r db2
    by (rule runTx_credited [OF oth that recordTerminalFailure_kept])
  show ?thesis
  proof (cases answer)
    case (GA_unresolved code)
    then show ?thesis using run R cr by (simp add: concludeVerification_def)
  next
    case (GA_thrown code)
    then show ?thesis using run R cr c1 by (auto simp: concludeVerification_def 1 simp del: One_nat_def split: sum.split_asm)
  next
    case (GA_rejected code)
    then show ?thesis using run R F cr c1
      by (auto simp: concludeVerification_def 1 simp del: One_nat_def split: sum.split_asm if_split_asm prod.split_asm)
  next
    case (GA_verified v)
    have "concludeVerified s ids a v now db1 = (y, db')"
      using GA_verified run R cr c1 by (auto simp: concludeVerification_def 1 simp del: One_nat_def split: sum.split_asm)
    from concludeVerified_credits [OF s oth this paymentSteps_inv [OF A inv] cr(1) _ b] show ?thesis
      using that GA_verified cr(2) c1 by simp
  qed
qed

text \<open>C5: a verification credits a top-up that was not credited before only if the gateway verified a payment of
  exactly the amount and currency of an attempt of this very top-up, and then credits exactly the verified
  amount; whatever the other sessions do in between, as long as they do not credit the top-up themselves.\<close>

theorem credit_needs_verified_payment:
  assumes "orderlySession s" and "\<forall>k db. credited (ss_others s k db) x = credited db x" and "paymentReach db"
    and "verifyAndSettleTopUpAttempt s ids answer now aid authority db = (y, db')"
    and "credited db' x" and "\<not> credited db x"
  shows "\<exists>v a e. answer = GA_verified v \<and> findAttempt aid (ss_others s 0 db) = Some a \<and> x = pa_walletTopUpId a \<and>
     vp_amountRial v = pa_amount a \<and> vp_currency v = pa_currency a \<and>
     creditsOf db' x = [e] \<and> le_amount e = vp_amountRial v"
proof -
  let ?db = "ss_others s 0 db"
  have oth: "credited (ss_others s k db) x = credited db x" for k db using assms(2) by simp
  have inv: "paymentInv ?db"
    by (rule paymentSteps_inv [OF others_steps [OF assms(1)] paymentReach_inv [OF assms(3)]])
  have inv': "paymentInv db'"
    by (rule paymentSteps_inv [OF verify_steps [OF assms(1,4)] paymentReach_inv [OF assms(3)]])
  have nc: "\<not> credited ?db x" using assms(6) oth by simp
  obtain a where a: "findAttempt aid ?db = Some a" and run: "concludeVerification s ids a answer now ?db = (y, db')"
    using assms(4,5) nc by (auto simp: verifyAndSettleTopUpAttempt_def Let_def split: option.split_asm if_split_asm)
  note id = conjunct2 [OF findAttempt_Some [OF a]]
  obtain v where v: "answer = GA_verified v" "vp_amountRial v = pa_amount a" "vp_currency v = pa_currency a"
    "x = pa_walletTopUpId a"
    by (rule concludeVerification_credits [OF assms(1) oth run inv assms(5) nc]) (use a id in simp)
  have st: "paymentStep\<^sup>*\<^sup>* ?db db'" by (rule concludeVerification_steps [OF assms(1) run])
  obtain a' where a': "findAttempt aid db' = Some a'" "paStatic a' = paStatic a" by (rule steps_findAttempt [OF st inv a])
  obtain t where t: "findTopUp (pa_walletTopUpId a') db' = Some t" "tu_amount t = pa_amount a'" by (rule attempt_topUp [OF inv' a'(1)])
  have tx: "tu_id t = x" "tu_amount t = pa_amount a" using findTopUp_Some [OF t(1)] t(2) a'(2) v(4) by (simp_all add: paStatic_def)
  obtain e where e: "e \<in> set (ledger db')" "le_idempotencyKey e = creditKey x" "creditsOf db' x = [e]"
    using entries_once(1) [OF inv', of x] assms(5) creditsOf_Nil by auto
  have "creditOf t e" by (rule credit_entry(1) [OF inv' _ e(1)]) (use e(2) tx findTopUp_Some [OF t(1)] in simp_all)
  then have "le_amount e = vp_amountRial v" using tx v(2) by (simp add: creditOf_def)
  then show ?thesis using v a e(3) by auto
qed

text \<open>In the session whose every transaction is aborted the verification of the sample payment fails; verified again, it
  succeeds.\<close>

definition stormySession :: Session where
  "stormySession = \<lparr>ss_others = (\<lambda>_ db. db), ss_aborted = (\<lambda>_. True)\<rparr>"

theorem verified_payment_never_lost_witness:
  "\<exists>e db1 x db3.
    verifyAndSettleTopUpAttempt stormySession sampleIds (GA_verified sampleVerified) 5 ''a1'' None openedPayments = (Inl e, db1) \<and>
    verifyAndSettleTopUpAttempt calmSession sampleIds (GA_verified sampleVerified) 6 ''a1'' (Some ''A1'') db1 = (Inr x, db3) \<and>
    settledOrOpen db3 ''a1''"
proof -
  obtain a where a: "findAttempt ''a1'' openedPayments = Some a" "pa_authority a = Some ''A1''"
    using openedPayments_rows(2) by auto
  have s: "orderlySession stormySession" "ss_others stormySession 0 openedPayments = openedPayments"
    by (simp_all add: stormySession_def orderlySession_def)
  have start: "findAttempt ''a1'' (ss_others stormySession 0 openedPayments) = Some a" "suppliedAuthority None a \<noteq> None"
    by (simp_all add: s a suppliedAuthority_def)
  obtain r db1 where run: "verifyAndSettleTopUpAttempt stormySession sampleIds (GA_verified sampleVerified) 5 ''a1'' None
      openedPayments = (r, db1)" by (rule prod.exhaust)
  have "case fst (verifyAndSettleTopUpAttempt stormySession sampleIds (GA_verified sampleVerified) 5 ''a1'' None openedPayments) of
      Inl _ \<Rightarrow> True | Inr _ \<Rightarrow> False" by code_simp
  then obtain e where e: "r = Inl e" by (auto simp: run split: sum.splits)
  have given: "suppliedAuthority (Some ''A1'') a' \<noteq> None" for a' by (simp add: suppliedAuthority_def)
  have on: "\<not> ss_aborted calmSession 2" "\<not> ss_aborted calmSession 8" by (simp_all add: calm)
  note later = verified_payment_never_lost [OF s(1) openedPayments_reach start run, THEN conjunct2, rule_format,
    OF rtranclp.rtrancl_refl calm(1) on]
  then obtain a' where a': "\<And>ids' v' now' authority'. suppliedAuthority authority' a' \<noteq> None \<Longrightarrow>
      \<exists>x db3. verifyAndSettleTopUpAttempt calmSession ids' (GA_verified v') now' ''a1'' authority' db1 = (Inr x, db3) \<and>
        settledOrOpen db3 ''a1''" by blast
  show ?thesis using a' [OF given, of sampleIds sampleVerified 6] run e by blast
qed

theorem refund_approved_once_witness:
  "\<exists>t. topUps refundedPayments = [t] \<and> refundDebits refundedPayments (tu_id t) \<noteq> []"
proof -
  obtain t where t: "topUps refundedPayments = [t]" "tu_id t = ''t1''"
    using refundedPayments_rows(1) by (auto simp: map_eq_Cons_conv)
  then have "approvalsOf refundedPayments (tu_id t) \<noteq> []"
    using refundedPayments_rows(2,3) by (auto simp: map_eq_Cons_conv approvalsOf_def)
  then show ?thesis
    using refund_approved_once [OF refundedPayments_reach, of t] t by (auto split: if_split_asm)
qed

theorem credit_needs_verified_payment_witness:
  "\<exists>v a e. GA_verified sampleVerified = GA_verified v \<and> findAttempt ''a1'' openedPayments = Some a \<and> ''t1'' = pa_walletTopUpId a \<and>
     vp_amountRial v = pa_amount a \<and> vp_currency v = pa_currency a \<and>
     creditsOf settledPayments ''t1'' = [e] \<and> le_amount e = vp_amountRial v"
proof -
  have "credited settledPayments ''t1''" "\<not> credited openedPayments ''t1''"
    unfolding creditsOf_Nil [symmetric] by code_simp+
  then show ?thesis
    using credit_needs_verified_payment [OF calm(1) _ openedPayments_reach surjective_pairing, of "''t1''" sampleIds
      "GA_verified sampleVerified" 5 "''a1''" None]
    by (simp add: calm settledPayments_def)
qed

section \<open>A late payment and a second attempt\<close>

text \<open>When the first attempt has expired and a second one is being created, a late payment of the first is credited;
  writing the gateway's answer for the second then takes the top-up from succeeded back to pending, because this
  transaction, unlike all others, does not look at the status. A refund of the credited top-up is refused from then on.\<close>

definition lateDb :: PaymentDb where
  "lateDb = (case reopenTx ''a2'' ''u1'' ''t1'' ZARINPAL ''h2'' 1800000 ''k3'' openedPayments of
     Inl _ \<Rightarrow> emptyPayments
   | Inr (_, db) \<Rightarrow> (case settleTopUpTx sampleIds sampleVerified 1800001 ''a1'' db of
     Inl _ \<Rightarrow> emptyPayments
   | Inr (_, db) \<Rightarrow> db))"

definition overwrittenDb :: PaymentDb where
  "overwrittenDb = (case persistPayment \<lparr>pp_topUpId = ''t1'', pp_attemptId = ''a2'', pp_gateway = ZARINPAL, pp_amount = 7,
       pp_callbackToken = ''tok2''\<rparr> \<lparr>cr_authority = ''A2'', cr_redirectUrl = ''url2'', cr_gatewayReference = None\<rparr> lateDb of
     Inl _ \<Rightarrow> emptyPayments | Inr (_, db) \<Rightarrow> db)"

lemma late_payment_overwritten:
  "map tu_status (topUps lateDb) = [TU_SUCCEEDED]" "map w_availableBalance (wallets lateDb) = [7]"
  "map tu_status (topUps overwrittenDb) = [TU_PENDING]" "map w_availableBalance (wallets overwrittenDb) = [7]"
  "(case refundBody \<lparr>ri_refund = ''r1'', ri_entry = ''e3'', ri_journal = ''j2''\<rparr> sampleCommand ''t1'' 1800002 overwrittenDb of
     Inl e \<Rightarrow> e | Inr _ \<Rightarrow> '''') = ''refund_requires_success''"
  by code_simp+

section \<open>A single-use bonus coupon redeemed twice\<close>

text \<open>The limits of a bonus coupon are checked when a top-up is opened, and its redemption is counted when it is
  credited, without another look at the limits: two top-ups opened before the first is paid both get the bonus.\<close>

definition bonusCoupon :: CouponRow where
  "bonusCoupon = \<lparr>cp_id = ''c1'', cp_code = ''TEN'', cp_type = WALLET_BONUS, cp_scope = PUBLIC, cp_userId = None,
     cp_discountBps = None, cp_termMonths = None, cp_minDepositRial = Some 5, cp_bonusRial = Some 2,
     cp_expiresAt = None, cp_maxRedemptions = Some 1, cp_redemptionCount = 0, cp_active = True\<rparr>"

definition couponPayments :: PaymentDb where
  "couponPayments = emptyPayments\<lparr>coupons := [bonusCoupon]\<rparr>"

definition bonusIntent :: "string \<Rightarrow> PaymentDb \<Rightarrow> PaymentDb" where
  "bonusIntent n db = snd (createTopUpIntentRial sampleEnv calmSession
     \<lparr>ii_wallet = ''w1'', ii_topUp = ''t'' @ n, ii_attempt = ''a'' @ n\<rparr> ''tok''
     (Inr \<lparr>cr_authority = ''A'' @ n, cr_redirectUrl = ''url'', cr_gatewayReference = None\<rparr>) 0 ''u1'' 7
     (sampleOptions\<lparr>io_idempotencyKey := ''k'' @ n, io_couponCode := Some ''TEN'', io_bonusRialSnapshot := Some 2\<rparr>) db)"

definition bonusSettled :: "string \<Rightarrow> PaymentDb \<Rightarrow> PaymentDb" where
  "bonusSettled n db = snd (verifyAndSettleTopUpAttempt calmSession
     \<lparr>si_credit = ''e'' @ n, si_bonus = ''b'' @ n, si_journal = ''j'' @ n\<rparr>
     (GA_verified (sampleVerified\<lparr>vp_authority := ''A'' @ n, vp_gatewayReference := ''R'' @ n\<rparr>)) 5 (''a'' @ n) None db)"

lemma bonus_granted_twice:
  "isOk (resolveWalletBonusCoupon ''TEN'' ''u1'' 7 0 couponPayments)"
  "isOk (resolveWalletBonusCoupon ''TEN'' ''u1'' 7 0 (bonusIntent ''1'' couponPayments))"
  "map cp_redemptionCount (coupons (bonusSettled ''2'' (bonusSettled ''1'' (bonusIntent ''2'' (bonusIntent ''1'' couponPayments))))) = [2]"
  "map w_availableBalance (wallets (bonusSettled ''2'' (bonusSettled ''1'' (bonusIntent ''2'' (bonusIntent ''1'' couponPayments))))) = [18]"
  by code_simp+

section \<open>Administrative commands run at most once\<close>

datatype AdminPayment = MarkFailed string | Refund RefundIds string | CompleteRefund string string |
  RecordAction string string jsval

record AdminCall =
  ad_mobiles :: "string list"
  ad_command :: AdminCommand
  ad_now :: int
  ad_payment :: AdminPayment

fun adminPaymentBody :: "AdminCall \<Rightarrow> AdminPayment \<Rightarrow> PaymentDb \<Rightarrow> string + jsval \<times> PaymentDb" where
  "adminPaymentBody i (MarkFailed aid) = markFailedBody (ad_command i) aid (ad_now i)"
| "adminPaymentBody i (Refund ids tid) = refundBody ids (ad_command i) tid (ad_now i)"
| "adminPaymentBody i (CompleteRefund rid reference) = completeRefundBody (ad_command i) rid reference"
| "adminPaymentBody i (RecordAction aid code snapshot) = attemptActionBody (ad_command i) aid code snapshot (ad_now i)"

definition adminPayment :: "AdminCall \<Rightarrow> PaymentDb \<Rightarrow> string + jsval \<times> PaymentDb" where
  "adminPayment i = adminCommandTx (ad_mobiles i) (ad_command i) (adminPaymentBody i (ad_payment i))"

definition applyAdmin :: "PaymentDb \<Rightarrow> AdminCall \<Rightarrow> PaymentDb" where
  "applyAdmin db i = (case adminPayment i db of Inl _ \<Rightarrow> db | Inr (_, db') \<Rightarrow> db')"

definition adminRows :: "PaymentDb \<Rightarrow> ReceiptRow list \<times> AdminUserRow list" where
  "adminRows db = (receipts db, adminUsers db)"

lemma adminRows_simps [simp]:
  "adminRows (setAttempt aid f db) = adminRows db" "adminRows (setTopUp tid g db) = adminRows db"
  "adminRows (ensureCase r db) = adminRows db" "adminRows (updateBalance wid d db) = adminRows db"
  "adminRows (db\<lparr>recoveryCases := x1\<rparr>) = adminRows db" "adminRows (db\<lparr>recoveryActions := x2\<rparr>) = adminRows db"
  "adminRows (db\<lparr>refundRows := x3\<rparr>) = adminRows db" "adminRows (db\<lparr>journal := x4\<rparr>) = adminRows db"
  "adminRows (db\<lparr>ledger := x5\<rparr>) = adminRows db"
  by (simp_all add: adminRows_def setAttempt_def setTopUp_def ensureCase_def updateBalance_def)

lemma inserts_adminRows:
  "insertAction r db = Inr db' \<Longrightarrow> adminRows db' = adminRows db"
  "insertRefund q db = Inr db' \<Longrightarrow> adminRows db' = adminRows db"
  "updateRefund rid f db = Inr (x, db') \<Longrightarrow> adminRows db' = adminRows db"
  "insertEntry e db = Inr (y, db') \<Longrightarrow> adminRows db' = adminRows db"
  by (auto simp: insertAction_def insertRefund_def updateRefund_def insertEntry_Inr split: if_split_asm option.split_asm)

lemma debitRefund_adminRows: "debitRefund ids t now db = Inr db' \<Longrightarrow> adminRows db' = adminRows db"
proof -
  assume run: "debitRefund ids t now db = Inr db'"
  let ?db1 = "updateBalance (tu_walletId t) (- tu_amount t) db"
  let ?f = "\<lambda>le r. r\<lparr>rf_status := CR_APPROVED, rf_ledgerEntryId := Some (le_id le)\<rparr>"
  obtain w1 e db2 r' db3 j where 1: "findWallet (tu_walletId t) ?db1 = Some w1"
    "insertEntry (refundEntry (ri_entry ids) t (ri_refund ids) (w_availableBalance w1)) ?db1 = Inr (e, db2)"
    "updateRefund (ri_refund ids) (?f e) db2 = Inr (r', db3)"
    "postWalletTopUpRefunded (ri_journal ids) (ri_refund ids) (tu_amount t) (tu_id t) now db3 = Inr (j, db')"
    using run by (auto simp: debitRefund_def Let_def bindE_eq_Inr split: option.split_asm)
  obtain js where "db' = db3\<lparr>journal := js\<rparr>"
    using posted_rest [OF 1(4) [unfolded postWalletTopUpRefunded_def postJournalEntry_def]] by (elim exE)
  then show ?thesis using inserts_adminRows(3) [OF 1(3)] inserts_adminRows(4) [OF 1(2)] by simp
qed

lemma adminPaymentBody_rows: "adminPaymentBody i p db = Inr (a, db') \<Longrightarrow> adminRows db' = adminRows db"
proof (cases p)
  case (MarkFailed aid)
  assume "adminPaymentBody i p db = Inr (a, db')"
  then show ?thesis unfolding MarkFailed
    by (auto simp: markFailedBody_def Let_def bindE_eq_Inr split: option.split_asm if_split_asm dest!: inserts_adminRows)
next
  case (RecordAction aid code s)
  assume "adminPaymentBody i p db = Inr (a, db')"
  then show ?thesis unfolding RecordAction
    by (auto simp: attemptActionBody_def Let_def bindE_eq_Inr split: option.split_asm dest!: inserts_adminRows)
next
  case (CompleteRefund rid ref)
  assume "adminPaymentBody i p db = Inr (a, db')"
  then show ?thesis unfolding CompleteRefund
    by (auto simp: completeRefundBody_def bindE_eq_Inr split: option.split_asm if_split_asm dest!: inserts_adminRows)
next
  case (Refund ids tid)
  assume "adminPaymentBody i p db = Inr (a, db')"
  then show ?thesis unfolding Refund
    by (auto simp: refundBody_def bindE_eq_Inr split: option.split_asm if_split_asm
      dest!: inserts_adminRows debitRefund_adminRows)
qed

lemma adminPaymentBody_leaves: "leavesReceipts (adminPaymentBody i p)"
  unfolding leavesReceipts_def using adminPaymentBody_rows by (auto simp: adminRows_def)

interpretation admin_once: idempotent_op "\<lambda>_. True" adminPayment "\<lambda>_. True"
  "\<lambda>i. receiptAnswer (ad_mobiles i) (ad_command i)"
proof (unfold_locales, goal_cases)
  case (2 db i r db')
  show ?case by (rule adminCommandTx_recorded [OF 2(3) [unfolded adminPayment_def] adminPaymentBody_leaves])
next
  case (3 db i r j s db')
  show ?case by (rule adminCommandTx_stable [OF 3(4) [unfolded adminPayment_def] adminPaymentBody_leaves 3(3)])
next
  case (4 db i r)
  show ?case unfolding adminPayment_def by (rule adminCommandTx_replays [OF 4(3)])
qed simp

lemma admin_steps: "foldl applyAdmin db is = foldl admin_once.step db is"
  by (induction "is" arbitrary: db) (simp_all add: applyAdmin_def admin_once.step_def)

text \<open>C8: an administrator's payment command, once it has succeeded, can be sent again after any other commands: it
  gives the recorded answer and changes nothing, so no payment is failed and no refund is debited twice.\<close>

theorem admin_command_at_most_once:
  assumes "adminPayment i db = Inr (r, db')"
  shows "adminPayment i (foldl applyAdmin db' is) = Inr (r, foldl applyAdmin db' is)"
  unfolding admin_steps by (rule admin_once.at_most_once [OF TrueI TrueI assms])

definition sampleCall :: AdminCall where
  "sampleCall = \<lparr>ad_mobiles = [''09''], ad_command = sampleCommand, ad_now = 9,
     ad_payment = Refund \<lparr>ri_refund = ''r1'', ri_entry = ''e3'', ri_journal = ''j2''\<rparr> ''t1''\<rparr>"

definition adminSample :: PaymentDb where
  "adminSample = settledPayments\<lparr>adminUsers := [\<lparr>au_id = ''u9'', au_role = ADMIN, au_mobile = ''09''\<rparr>]\<rparr>"

theorem admin_command_at_most_once_witness:
  "\<exists>r db'. adminPayment sampleCall adminSample = Inr (r, db') \<and>
     adminPayment sampleCall (applyAdmin db' sampleCall) = Inr (r, applyAdmin db' sampleCall)"
proof -
  have "isOk (adminPayment sampleCall adminSample)" by code_simp
  then obtain r db' where run: "adminPayment sampleCall adminSample = Inr (r, db')" by (auto simp: isOk_iff)
  from admin_command_at_most_once [OF this, of "[sampleCall]"] show ?thesis using run by auto
qed

end
