(* ===== verification/Inventory.thy ===== *)
theory Inventory
  imports PlanPricing
begin

text \<open>
  The servers that stand ready, \<open>src/lib/infrastructure/preprovisioned-inventory.ts\<close>: which item is fit to be
  sold, its reservation by a quote and then by an order, its assignment and the transfer of its secret, the release
  of reservations, and the observation of provider resources; with the statements on the same tables of
  \<open>quote-expiration.ts\<close>, \<open>provision-dispatch.ts\<close> and \<open>health-check-service.ts\<close>. The provider's
  answer, the probe and the cipher are parameters; instants are milliseconds since 1970; audit columns are not modelled.
\<close>

section \<open>The tables\<close>

datatype InventoryStatus =
  IV_AVAILABLE | IV_RESERVED | IV_ASSIGNED | IV_DELIVERED | IV_UNHEALTHY | IV_STALE | IV_DISABLED
datatype HealthStatus = HEALTHY | UNHEALTHY | UNKNOWN_HEALTH
datatype CredentialStatus = CRED_READY | CRED_TRANSFERRED | CRED_REVOKED

record InventoryItem =
  iv_id :: string
  iv_catalogItemId :: string
  iv_planId :: string
  iv_provider :: InfrastructureProvider
  iv_apiVersion :: string
  iv_providerResourceId :: string
  iv_regionCode :: string
  iv_externalPlanId :: string
  iv_externalImageId :: string
  iv_observedState :: string
  iv_observedIpv4 :: "string option"
  iv_observedNetworkId :: "string option"
  iv_observedSecurityId :: "string option"
  iv_lastObservedAt :: int
  iv_lastHealthCheckedAt :: "int option"
  iv_healthStatus :: HealthStatus
  iv_status :: InventoryStatus
  iv_reservedByQuoteId :: "string option"
  iv_reservedByOrderId :: "string option"
  iv_reservedRevision :: "int option"
  iv_reservationExpiresAt :: "int option"
  iv_assignedOrderId :: "string option"
  iv_createdAt :: int

record CredentialRow =
  ic_id :: string
  ic_inventoryItemId :: string
  ic_username :: string
  ic_ciphertext :: string
  ic_iv :: string
  ic_authTag :: string
  ic_secretFingerprint :: string
  ic_status :: CredentialStatus
  ic_createdById :: string
  ic_transferredAt :: "int option"

record InstanceCredentialRow =
  nc_cloudInstanceId :: string
  nc_createdById :: string
  nc_username :: string
  nc_ciphertext :: string
  nc_iv :: string
  nc_authTag :: string
  nc_expiresAt :: int

record InventoryDb =
  items :: "InventoryItem list"
  credentials :: "CredentialRow list"
  instanceCredentials :: "InstanceCredentialRow list"

definition findItem :: "string \<Rightarrow> InventoryDb \<Rightarrow> InventoryItem option" where
  "findItem i db = findRow (\<lambda>r. iv_id r = i) (items db)"

definition credentialOf :: "string \<Rightarrow> InventoryDb \<Rightarrow> CredentialRow option" where
  "credentialOf i db = findRow (\<lambda>c. ic_inventoryItemId c = i) (credentials db)"

definition updateItem :: "string \<Rightarrow> (InventoryItem \<Rightarrow> InventoryItem) \<Rightarrow> InventoryDb \<Rightarrow> InventoryDb" where
  "updateItem i f db = db\<lparr>items := updateRows (\<lambda>r. iv_id r = i) f (items db)\<rparr>"

section \<open>Eligibility\<close>

definition OBSERVATION_MAX_AGE_MS :: int where "OBSERVATION_MAX_AGE_MS = 5 * 60 * 1000"
definition HEALTH_MAX_AGE_MS :: int where "HEALTH_MAX_AGE_MS = 5 * 60 * 1000"

definition present :: "string option \<Rightarrow> bool" where
  "present x \<longleftrightarrow> (case x of None \<Rightarrow> False | Some s \<Rightarrow> s \<noteq> '''')"

definition isPreprovisionedInventoryFresh :: "InventoryItem \<Rightarrow> int \<Rightarrow> bool" where
  "isPreprovisionedInventoryFresh item now \<longleftrightarrow>
     iv_healthStatus item = HEALTHY \<and> lowerAscii (iv_observedState item) = ''active'' \<and>
     present (iv_observedIpv4 item) \<and> present (iv_observedNetworkId item) \<and> present (iv_observedSecurityId item) \<and>
     iv_lastObservedAt item \<ge> now - OBSERVATION_MAX_AGE_MS \<and>
     (case iv_lastHealthCheckedAt item of None \<Rightarrow> False | Some t \<Rightarrow> t \<ge> now - HEALTH_MAX_AGE_MS)"

record ExpectedSelection =
  ex_planId :: string
  ex_catalogItemId :: string
  ex_provider :: InfrastructureProvider
  ex_apiVersion :: string
  ex_regionCode :: string
  ex_externalPlanId :: string
  ex_externalImageId :: string
  ex_externalNetworkId :: "string option"
  ex_externalSecurityId :: "string option"

datatype EligibilityStage = ForAvailable | ForQuote string | ForOrder string string int | ForAssigned string

definition mappingMatches :: "InventoryItem \<Rightarrow> ExpectedSelection \<Rightarrow> bool" where
  "mappingMatches item ex \<longleftrightarrow>
     iv_planId item = ex_planId ex \<and> iv_catalogItemId item = ex_catalogItemId ex \<and>
     iv_provider item = ex_provider ex \<and> iv_apiVersion item = ex_apiVersion ex \<and>
     iv_regionCode item = ex_regionCode ex \<and> iv_externalPlanId item = ex_externalPlanId ex \<and>
     iv_externalImageId item = ex_externalImageId ex \<and> iv_observedNetworkId item = ex_externalNetworkId ex \<and>
     iv_observedSecurityId item = ex_externalSecurityId ex"

definition credentialReady :: "CredentialRow option \<Rightarrow> bool" where
  "credentialReady c \<longleftrightarrow> (case c of None \<Rightarrow> False
     | Some c \<Rightarrow> ic_status c = CRED_READY \<and> ic_ciphertext c \<noteq> '''' \<and> ic_iv c \<noteq> '''' \<and> ic_authTag c \<noteq> '''')"

definition credentialStatusIs :: "CredentialRow option \<Rightarrow> CredentialStatus \<Rightarrow> bool" where
  "credentialStatusIs c st \<longleftrightarrow> map_option ic_status c = Some st"

definition expiresAfter :: "int option \<Rightarrow> int \<Rightarrow> bool" where
  "expiresAfter x now \<longleftrightarrow> (case x of None \<Rightarrow> False | Some t \<Rightarrow> t > now)"

text \<open>The condition of a stage and the reason given when it fails.\<close>

fun stageCheck :: "EligibilityStage \<Rightarrow> InventoryItem \<Rightarrow> int \<Rightarrow> bool \<times> string" where
  "stageCheck (ForAssigned orderId) item now =
     (iv_status item = IV_ASSIGNED \<and> iv_assignedOrderId item = Some orderId, ''inventory_assignment_mismatch'')"
| "stageCheck ForAvailable item now =
     (iv_status item = IV_AVAILABLE \<and> iv_assignedOrderId item = None \<and> iv_reservedByQuoteId item = None \<and>
      iv_reservedByOrderId item = None, ''inventory_not_available'')"
| "stageCheck (ForQuote quoteId) item now =
     (iv_status item = IV_RESERVED \<and> iv_reservedByQuoteId item = Some quoteId \<and> iv_reservedByOrderId item = None \<and>
      iv_assignedOrderId item = None \<and> expiresAfter (iv_reservationExpiresAt item) now,
      ''inventory_quote_reservation_invalid'')"
| "stageCheck (ForOrder quoteId orderId revn) item now =
     (iv_status item = IV_RESERVED \<and> iv_reservedByQuoteId item = Some quoteId \<and>
      iv_reservedByOrderId item = Some orderId \<and> iv_reservedRevision item = Some revn \<and>
      iv_assignedOrderId item = None \<and> expiresAfter (iv_reservationExpiresAt item) now,
      ''inventory_order_reservation_invalid'')"

definition assessPreprovisionedInventoryEligibility ::
  "InventoryItem \<Rightarrow> CredentialRow option \<Rightarrow> ExpectedSelection \<Rightarrow> EligibilityStage \<Rightarrow> int \<Rightarrow> bool \<times> string" where
  "assessPreprovisionedInventoryEligibility item c ex stage now =
     (if \<not> mappingMatches item ex then (False, ''inventory_mapping_mismatch'')
      else if \<not> isPreprovisionedInventoryFresh item now then (False, ''inventory_not_fresh'')
      else let (ok, why) = stageCheck stage item now in
        case stage of
          ForAssigned _ \<Rightarrow> if ok \<and> credentialStatusIs c CRED_TRANSFERRED then (True, ''eligible'') else (False, why)
        | _ \<Rightarrow> if \<not> credentialReady c then (False, ''inventory_credential_not_ready'')
               else if ok then (True, ''eligible'') else (False, why))"

definition eligibleFor :: "InventoryItem \<Rightarrow> ExpectedSelection \<Rightarrow> EligibilityStage \<Rightarrow> int \<Rightarrow> InventoryDb \<Rightarrow> bool" where
  "eligibleFor item ex stage now db =
     fst (assessPreprovisionedInventoryEligibility item (credentialOf (iv_id item) db) ex stage now)"

text \<open>The selection an item fits by itself.\<close>

definition ownSelection :: "InventoryItem \<Rightarrow> ExpectedSelection" where
  "ownSelection item = \<lparr>ex_planId = iv_planId item, ex_catalogItemId = iv_catalogItemId item,
     ex_provider = iv_provider item, ex_apiVersion = iv_apiVersion item, ex_regionCode = iv_regionCode item,
     ex_externalPlanId = iv_externalPlanId item, ex_externalImageId = iv_externalImageId item,
     ex_externalNetworkId = iv_observedNetworkId item, ex_externalSecurityId = iv_observedSecurityId item\<rparr>"

section \<open>Releasing reservations\<close>

definition releasedItem :: "int \<Rightarrow> CredentialRow option \<Rightarrow> InventoryItem \<Rightarrow> InventoryItem" where
  "releasedItem now c item = item\<lparr>
     iv_status := (if isPreprovisionedInventoryFresh item now \<and> credentialStatusIs c CRED_READY
       then IV_AVAILABLE else IV_STALE),
     iv_reservedByQuoteId := None, iv_reservedByOrderId := None, iv_reservedRevision := None,
     iv_reservationExpiresAt := None\<rparr>"

definition reservationOver :: "int \<Rightarrow> InventoryItem \<Rightarrow> bool" where
  "reservationOver now item \<longleftrightarrow> iv_status item = IV_RESERVED \<and> iv_assignedOrderId item = None \<and>
     (case iv_reservationExpiresAt item of None \<Rightarrow> False | Some t \<Rightarrow> t \<le> now)"

definition releaseCandidate :: "int \<Rightarrow> string \<Rightarrow> nat \<times> InventoryDb \<Rightarrow> nat \<times> InventoryDb" where
  "releaseCandidate now i s = (let (n, db) = s in
     case findItem i db of None \<Rightarrow> (n, db)
     | Some item \<Rightarrow>
       if \<not> reservationOver now item then (n, db)
       else (n + 1, updateItem i (releasedItem now (credentialOf i db)) db))"

definition releaseExpiredInventoryReservationsTx :: "int \<Rightarrow> InventoryDb \<Rightarrow> nat \<times> InventoryDb" where
  "releaseExpiredInventoryReservationsTx now db =
     foldl (\<lambda>s i. releaseCandidate now i s) (0, db) (map iv_id (filter (reservationOver now) (items db)))"

text \<open>A cancelled order, and a quote that expired.\<close>

definition releaseInventoryReservationForOrder :: "string \<Rightarrow> int \<Rightarrow> InventoryDb \<Rightarrow> bool \<times> InventoryDb" where
  "releaseInventoryReservationForOrder orderId now db =
     (case findRow (\<lambda>r. iv_reservedByOrderId r = Some orderId) (items db) of None \<Rightarrow> (False, db)
      | Some item \<Rightarrow>
        if iv_status item \<noteq> IV_RESERVED \<or> iv_assignedOrderId item \<noteq> None then (False, db)
        else (True, updateItem (iv_id item) (releasedItem now (credentialOf (iv_id item) db)) db))"

definition releaseInventoryOfExpiredQuote :: "string \<Rightarrow> int \<Rightarrow> InventoryDb \<Rightarrow> InventoryDb" where
  "releaseInventoryOfExpiredQuote quoteId now db =
     (case findRow (\<lambda>r. iv_reservedByQuoteId r = Some quoteId) (items db) of None \<Rightarrow> db
      | Some item \<Rightarrow>
        if iv_status item = IV_RESERVED \<and> iv_assignedOrderId item = None
        then updateItem (iv_id item) (releasedItem now (credentialOf (iv_id item) db)) db else db)"

section \<open>From available to assigned\<close>

text \<open>The order of the candidates: the one checked last first, then the oldest. Those selected have been checked.\<close>

definition candidateOrder :: "InventoryItem \<Rightarrow> InventoryItem \<Rightarrow> int" where
  "candidateOrder a b = (case (iv_lastHealthCheckedAt a, iv_lastHealthCheckedAt b) of
     (Some x, Some y) \<Rightarrow> if x \<noteq> y then y - x else iv_createdAt a - iv_createdAt b
   | _ \<Rightarrow> iv_createdAt a - iv_createdAt b)"

definition availableCandidate :: "int \<Rightarrow> InventoryItem \<Rightarrow> bool" where
  "availableCandidate now r \<longleftrightarrow> iv_status r = IV_AVAILABLE \<and> iv_healthStatus r = HEALTHY \<and>
     lowerAscii (iv_observedState r) = ''active'' \<and> iv_observedIpv4 r \<noteq> None \<and>
     iv_lastObservedAt r \<ge> now - OBSERVATION_MAX_AGE_MS \<and>
     (case iv_lastHealthCheckedAt r of None \<Rightarrow> False | Some t \<Rightarrow> t \<ge> now - HEALTH_MAX_AGE_MS) \<and>
     iv_assignedOrderId r = None \<and> iv_reservedByQuoteId r = None"

definition lockAvailableInventoryTx ::
  "ExpectedSelection \<Rightarrow> int \<Rightarrow> InventoryDb \<Rightarrow> string + InventoryItem \<times> InventoryDb" where
  "lockAvailableInventoryTx ex now db =
     (let db = snd (releaseExpiredInventoryReservationsTx now db);
          candidates = sortBy candidateOrder (filter (\<lambda>r. iv_planId r = ex_planId ex \<and>
            iv_catalogItemId r = ex_catalogItemId ex \<and> iv_externalImageId r = ex_externalImageId ex \<and>
            availableCandidate now r) (items db))
      in case findRow (\<lambda>r. eligibleFor r ex ForAvailable now db) candidates of
           None \<Rightarrow> Inl ''inventory_unavailable'' | Some item \<Rightarrow> Inr (item, db))"

text \<open>The unique columns of an item are its quote, its order and the order it is assigned to.\<close>

definition reserveLockedInventoryForQuoteTx ::
  "string \<Rightarrow> string \<Rightarrow> int \<Rightarrow> int \<Rightarrow> int \<Rightarrow> InventoryDb \<Rightarrow> string + InventoryDb" where
  "reserveLockedInventoryForQuoteTx i quoteId revn expiresAt now db = (case findItem i db of
     None \<Rightarrow> Inl ''inventory_reservation_conflict''
   | Some item \<Rightarrow>
     if \<not> eligibleFor item (ownSelection item) ForAvailable now db then Inl ''inventory_reservation_conflict''
     else if \<exists>r \<in> set (items db). iv_reservedByQuoteId r = Some quoteId \<and> iv_id r \<noteq> i then Inl ''P2002''
     else Inr (updateItem i (\<lambda>r. r\<lparr>iv_status := IV_RESERVED, iv_reservedByQuoteId := Some quoteId,
       iv_reservedRevision := Some revn, iv_reservationExpiresAt := Some expiresAt\<rparr>) db))"

definition bindInventoryReservationToOrderTx ::
  "string \<Rightarrow> string \<Rightarrow> string \<Rightarrow> int \<Rightarrow> ExpectedSelection \<Rightarrow> int \<Rightarrow> InventoryDb \<Rightarrow> string + InventoryItem \<times> InventoryDb" where
  "bindInventoryReservationToOrderTx i quoteId orderId revn ex now db = (case findItem i db of
     None \<Rightarrow> Inl ''inventory_reservation_expired''
   | Some item \<Rightarrow>
     if \<not> eligibleFor item ex (ForQuote quoteId) now db then Inl ''inventory_reservation_expired''
     else if \<exists>r \<in> set (items db). iv_reservedByOrderId r = Some orderId \<and> iv_id r \<noteq> i then Inl ''P2002''
     else Inr (item, updateItem i (\<lambda>r. r\<lparr>iv_reservedByOrderId := Some orderId, iv_reservedRevision := Some revn\<rparr>) db))"

definition lockReservedInventoryForPaymentTx ::
  "string \<Rightarrow> string \<Rightarrow> string \<Rightarrow> int \<Rightarrow> ExpectedSelection \<Rightarrow> int \<Rightarrow> InventoryDb \<Rightarrow> string + InventoryItem" where
  "lockReservedInventoryForPaymentTx i quoteId orderId revn ex now db = (case findItem i db of
     None \<Rightarrow> Inl ''inventory_unavailable''
   | Some item \<Rightarrow>
     if iv_status item = IV_ASSIGNED \<and> iv_assignedOrderId item = Some orderId \<and>
        iv_reservedByQuoteId item = Some quoteId \<and> iv_reservedByOrderId item = Some orderId \<and>
        iv_reservedRevision item = Some revn
     then if eligibleFor item ex (ForAssigned orderId) now db then Inr item else Inl ''inventory_unavailable''
     else if eligibleFor item ex (ForOrder quoteId orderId revn) now db then Inr item
     else Inl ''inventory_unavailable'')"

definition assignReservedInventoryTx ::
  "string \<Rightarrow> string \<Rightarrow> string \<Rightarrow> int \<Rightarrow> int \<Rightarrow> InventoryDb \<Rightarrow> string + InventoryDb" where
  "assignReservedInventoryTx i quoteId orderId revn assignedAt db = (case findItem i db of
     None \<Rightarrow> Inl ''inventory_assignment_conflict''
   | Some item \<Rightarrow>
     if \<not> eligibleFor item (ownSelection item) (ForOrder quoteId orderId revn) assignedAt db
     then Inl ''inventory_assignment_conflict''
     else if \<exists>r \<in> set (items db). iv_assignedOrderId r = Some orderId \<and> iv_id r \<noteq> i then Inl ''P2002''
     else Inr (updateItem i (\<lambda>r. r\<lparr>iv_status := IV_ASSIGNED, iv_assignedOrderId := Some orderId,
       iv_reservationExpiresAt := None\<rparr>) db))"

definition instanceCredential :: "string \<Rightarrow> CredentialRow \<Rightarrow> int \<Rightarrow> InstanceCredentialRow" where
  "instanceCredential instanceId c transferredAt = \<lparr>nc_cloudInstanceId = instanceId, nc_createdById = ic_createdById c,
     nc_username = ic_username c, nc_ciphertext = ic_ciphertext c, nc_iv = ic_iv c, nc_authTag = ic_authTag c,
     nc_expiresAt = transferredAt + 24 * 60 * 60 * 1000\<rparr>"

definition transferInventoryCredentialToInstanceTx ::
  "string \<Rightarrow> string \<Rightarrow> int \<Rightarrow> InventoryDb \<Rightarrow> string + InstanceCredentialRow \<times> InventoryDb" where
  "transferInventoryCredentialToInstanceTx i instanceId transferredAt db = (case credentialOf i db of
     None \<Rightarrow> Inl ''inventory_credential_not_ready''
   | Some c \<Rightarrow>
     if ic_status c \<noteq> CRED_READY then Inl ''inventory_credential_not_ready''
     else if \<exists>n \<in> set (instanceCredentials db). nc_cloudInstanceId n = instanceId then Inl ''P2002''
     else if ic_transferredAt c \<noteq> None then Inl ''inventory_credential_transfer_conflict''
     else let n = instanceCredential instanceId c transferredAt in
       Inr (n, db\<lparr>instanceCredentials := instanceCredentials db @ [n],
         credentials := updateRows (\<lambda>x. ic_id x = ic_id c)
           (\<lambda>x. x\<lparr>ic_status := CRED_TRANSFERRED, ic_transferredAt := Some transferredAt\<rparr>) (credentials db)\<rparr>))"

text \<open>What the approved dispatch of a paid order does with its item.\<close>

record DispatchOrder =
  dp_serviceOrderId :: string
  dp_planId :: string
  dp_planCatalogItemId :: "string option"
  dp_provider :: InfrastructureProvider
  dp_apiVersion :: string
  dp_region :: string
  dp_externalPlanId :: string
  dp_externalImageId :: string
  dp_inventoryItemId :: "string option"

definition dispatchReservedInventoryTx ::
  "DispatchOrder \<Rightarrow> string \<Rightarrow> int \<Rightarrow> InventoryDb \<Rightarrow> string + InstanceCredentialRow \<times> InventoryDb" where
  "dispatchReservedInventoryTx ord instanceId now db =
     (case (case dp_inventoryItemId ord of None \<Rightarrow> None | Some i \<Rightarrow> findItem i db) of
        None \<Rightarrow> Inl ''inventory_assignment_conflict''
      | Some item \<Rightarrow> (case (iv_reservedByQuoteId item, iv_reservedRevision item) of
          (Some quoteId, Some revn) \<Rightarrow>
            if quoteId = '''' \<or> iv_planId item \<noteq> dp_planId ord \<or> Some (iv_catalogItemId item) \<noteq> dp_planCatalogItemId ord
               \<or> iv_provider item \<noteq> dp_provider ord \<or> iv_apiVersion item \<noteq> dp_apiVersion ord
               \<or> iv_regionCode item \<noteq> dp_region ord \<or> iv_externalPlanId item \<noteq> dp_externalPlanId ord
               \<or> iv_externalImageId item \<noteq> dp_externalImageId ord
            then Inl ''inventory_assignment_conflict''
            else bindE (assignReservedInventoryTx (iv_id item) quoteId (dp_serviceOrderId ord) revn now db)
              (transferInventoryCredentialToInstanceTx (iv_id item) instanceId now)
        | _ \<Rightarrow> Inl ''inventory_assignment_conflict''))"

text \<open>The health check of an order's item: not reachable, reachable, delivered.\<close>

definition recordItemHealth :: "string \<Rightarrow> string \<Rightarrow> InventoryStatus \<Rightarrow> HealthStatus \<Rightarrow> int \<Rightarrow> InventoryDb \<Rightarrow> InventoryDb" where
  "recordItemHealth i orderId st h now db = db\<lparr>items := updateRows (\<lambda>r. iv_id r = i \<and> iv_assignedOrderId r = Some orderId)
     (\<lambda>r. r\<lparr>iv_status := st, iv_healthStatus := h, iv_lastHealthCheckedAt := Some now\<rparr>) (items db)\<rparr>"

definition itemUnreachable :: "string \<Rightarrow> string \<Rightarrow> int \<Rightarrow> InventoryDb \<Rightarrow> InventoryDb" where
  "itemUnreachable i orderId = recordItemHealth i orderId IV_UNHEALTHY UNHEALTHY"

definition itemReachable :: "string \<Rightarrow> string \<Rightarrow> int \<Rightarrow> InventoryDb \<Rightarrow> InventoryDb" where
  "itemReachable i orderId = recordItemHealth i orderId IV_ASSIGNED HEALTHY"

definition itemDelivered :: "string \<Rightarrow> string \<Rightarrow> int \<Rightarrow> InventoryDb \<Rightarrow> InventoryDb" where
  "itemDelivered i orderId = recordItemHealth i orderId IV_DELIVERED HEALTHY"

section \<open>What is on offer\<close>

text \<open>The columns of a plan, and the id of the catalog item with its external plan.\<close>

record InventoryPlan =
  pn_id :: string
  pn_provider :: InfrastructureProvider
  pn_apiVersion :: string
  pn_productKind :: InfrastructureProductKind
  pn_offerSource :: OfferSource
  pn_regionCode :: string
  pn_sizeCode :: string
  pn_imageCode :: string
  pn_catalogItem :: "(string \<times> string option) option"

definition externalPlanOf :: "InventoryPlan \<Rightarrow> string option \<Rightarrow> string" where
  "externalPlanOf p ext = (case ext of None \<Rightarrow> pn_sizeCode p | Some x \<Rightarrow> x)"

definition planSelection :: "InventoryPlan \<Rightarrow> string \<times> string option \<Rightarrow> InventoryItem \<Rightarrow> ExpectedSelection" where
  "planSelection p c r = \<lparr>ex_planId = pn_id p, ex_catalogItemId = fst c, ex_provider = pn_provider p,
     ex_apiVersion = pn_apiVersion p, ex_regionCode = pn_regionCode p, ex_externalPlanId = externalPlanOf p (snd c),
     ex_externalImageId = pn_imageCode p, ex_externalNetworkId = iv_observedNetworkId r,
     ex_externalSecurityId = iv_observedSecurityId r\<rparr>"

definition countsFor :: "InventoryPlan list \<Rightarrow> int \<Rightarrow> InventoryDb \<Rightarrow> InventoryItem \<Rightarrow> bool" where
  "countsFor plans now db r \<longleftrightarrow> availableCandidate now r \<and>
     (case findRow (\<lambda>p. pn_id p = iv_planId r) plans of None \<Rightarrow> False
      | Some p \<Rightarrow> (case pn_catalogItem p of None \<Rightarrow> False
        | Some c \<Rightarrow> eligibleFor r (planSelection p c r) ForAvailable now db))"

definition countAvailableInventoryByPlan ::
  "InventoryPlan list \<Rightarrow> string list \<Rightarrow> int \<Rightarrow> InventoryDb \<Rightarrow> string \<Rightarrow> nat option" where
  "countAvailableInventoryByPlan plans planIds now db pid =
     (let n = length (filter (\<lambda>r. iv_planId r = pid \<and> pid \<in> set planIds \<and> countsFor plans now db r) (items db))
      in if n = 0 then None else Some n)"

definition findFreshAvailableInventory :: "ExpectedSelection \<Rightarrow> int \<Rightarrow> InventoryDb \<Rightarrow> InventoryItem option" where
  "findFreshAvailableInventory ex now db =
     findRow (\<lambda>r. eligibleFor r (ex\<lparr>ex_externalNetworkId := iv_observedNetworkId r,
         ex_externalSecurityId := iv_observedSecurityId r\<rparr>) ForAvailable now db)
       (sortBy candidateOrder (filter (\<lambda>r. iv_planId r = ex_planId ex \<and> iv_catalogItemId r = ex_catalogItemId ex \<and>
          iv_externalImageId r = ex_externalImageId ex \<and> availableCandidate now r \<and>
          iv_observedNetworkId r \<noteq> None \<and> iv_observedSecurityId r \<noteq> None) (items db)))"

section \<open>Registering items and their secrets\<close>

definition isUserStart :: "char \<Rightarrow> bool" where
  "isUserStart c \<longleftrightarrow> (let n = (of_char c :: nat) in 97 \<le> n \<and> n \<le> 122 \<or> 65 \<le> n \<and> n \<le> 90 \<or> n = 95)"

definition isInventoryUsername :: "string \<Rightarrow> bool" where
  "isInventoryUsername s \<longleftrightarrow> s \<noteq> '''' \<and> length s \<le> 32 \<and> isUserStart (hd s) \<and>
     list_all (\<lambda>c. isUserStart c \<or> isDigit c \<or> c = CHR ''-'') (tl s)"

text \<open>The cipher gives ciphertext, initialisation vector and tag; equal secrets have equal fingerprints.\<close>

record SecretVault =
  sv_encrypt :: "string \<Rightarrow> string \<times> string \<times> string"
  sv_fingerprint :: "string \<Rightarrow> string"

definition storedCredential :: "SecretVault \<Rightarrow> string \<Rightarrow> string \<Rightarrow> string \<Rightarrow> string \<Rightarrow> string \<Rightarrow> CredentialRow" where
  "storedCredential vault newId i username secret actor = \<lparr>ic_id = newId, ic_inventoryItemId = i, ic_username = username,
     ic_ciphertext = fst (sv_encrypt vault secret), ic_iv = fst (snd (sv_encrypt vault secret)),
     ic_authTag = snd (snd (sv_encrypt vault secret)), ic_secretFingerprint = sv_fingerprint vault secret,
     ic_status = CRED_READY, ic_createdById = actor, ic_transferredAt = None\<rparr>"

definition storePreprovisionedInventoryCredential ::
  "SecretVault \<Rightarrow> string \<Rightarrow> string \<Rightarrow> string \<Rightarrow> string \<Rightarrow> string \<Rightarrow> int \<Rightarrow> InventoryDb \<Rightarrow> string + CredentialRow \<times> InventoryDb" where
  "storePreprovisionedInventoryCredential vault newId i actor rawName secret now db =
     (let username = trim rawName in
      if \<not> isInventoryUsername username \<or> length secret < 8 \<or> length secret > 4096
      then Inl ''invalid_inventory_credential''
      else case findItem i db of None \<Rightarrow> Inl ''inventory_credential_locked''
      | Some item \<Rightarrow>
        if iv_assignedOrderId item \<noteq> None \<or> iv_status item \<in> {IV_ASSIGNED, IV_DELIVERED, IV_RESERVED}
        then Inl ''inventory_credential_locked''
        else if credentialStatusIs (credentialOf i db) CRED_TRANSFERRED then Inl ''inventory_credential_transferred''
        else if \<exists>c \<in> set (credentials db). ic_secretFingerprint c = sv_fingerprint vault secret \<and> ic_inventoryItemId c \<noteq> i
        then Inl ''inventory_credential_reused''
        else let new = storedCredential vault newId i username secret actor;
                 update = (\<lambda>c. new\<lparr>ic_id := ic_id c\<rparr>);
                 db = updateItem i (\<lambda>r. r\<lparr>iv_status := (if isPreprovisionedInventoryFresh item now then IV_AVAILABLE
                   else if iv_healthStatus item = UNHEALTHY then IV_UNHEALTHY else IV_STALE)\<rparr>)
                   (db\<lparr>credentials := upsertRow ic_inventoryItemId new update (credentials db)\<rparr>)
             in Inr (case credentialOf i db of None \<Rightarrow> new | Some c \<Rightarrow> c, db))"

text \<open>What the provider answers.\<close>

record ProviderResource =
  rs_id :: string
  rs_state :: string
  rs_region :: string
  rs_externalPlanId :: "string option"
  rs_externalImageId :: "string option"
  rs_ipv4 :: "string option"
  rs_networkIds :: "string list"
  rs_securityIds :: "string list"
  rs_observedAt :: int

definition trimmedOrNull :: "string option \<Rightarrow> string option" where
  "trimmedOrNull x = (case x of None \<Rightarrow> None | Some s \<Rightarrow> if trim s = '''' then None else Some (trim s))"

definition firstOf :: "string list \<Rightarrow> string option" where
  "firstOf xs = (case xs of [] \<Rightarrow> None | x # _ \<Rightarrow> Some x)"

definition observable :: "ProviderResource \<Rightarrow> bool" where
  "observable r \<longleftrightarrow> lowerAscii (rs_state r) = ''active'' \<and> present (rs_ipv4 r) \<and>
     present (firstOf (rs_networkIds r)) \<and> present (firstOf (rs_securityIds r))"

definition observedItem ::
  "InventoryPlan \<Rightarrow> string \<Rightarrow> ProviderResource \<Rightarrow> bool \<Rightarrow> InventoryStatus \<Rightarrow> int \<Rightarrow> InventoryItem \<Rightarrow> InventoryItem" where
  "observedItem p catalogItemId r reachable st now item = item\<lparr>
     iv_catalogItemId := catalogItemId, iv_planId := pn_id p, iv_regionCode := rs_region r,
     iv_externalPlanId := (case trimmedOrNull (rs_externalPlanId r) of None \<Rightarrow> '''' | Some x \<Rightarrow> x),
     iv_externalImageId := (case trimmedOrNull (rs_externalImageId r) of None \<Rightarrow> '''' | Some x \<Rightarrow> x),
     iv_observedState := rs_state r, iv_observedIpv4 := rs_ipv4 r, iv_observedNetworkId := firstOf (rs_networkIds r),
     iv_observedSecurityId := firstOf (rs_securityIds r), iv_lastObservedAt := rs_observedAt r,
     iv_lastHealthCheckedAt := Some now, iv_healthStatus := (if reachable then HEALTHY else UNHEALTHY),
     iv_status := st\<rparr>"

definition blankItem :: "string \<Rightarrow> InventoryPlan \<Rightarrow> string \<Rightarrow> int \<Rightarrow> InventoryItem" where
  "blankItem newId p resourceId now = \<lparr>iv_id = newId, iv_catalogItemId = '''', iv_planId = '''',
     iv_provider = pn_provider p, iv_apiVersion = pn_apiVersion p, iv_providerResourceId = resourceId,
     iv_regionCode = '''', iv_externalPlanId = '''', iv_externalImageId = '''', iv_observedState = '''',
     iv_observedIpv4 = None, iv_observedNetworkId = None, iv_observedSecurityId = None, iv_lastObservedAt = 0,
     iv_lastHealthCheckedAt = None, iv_healthStatus = UNKNOWN_HEALTH, iv_status = IV_STALE, iv_reservedByQuoteId = None,
     iv_reservedByOrderId = None, iv_reservedRevision = None, iv_reservationExpiresAt = None,
     iv_assignedOrderId = None, iv_createdAt = now\<rparr>"

definition sameResource :: "InventoryPlan \<Rightarrow> string \<Rightarrow> InventoryItem \<Rightarrow> bool" where
  "sameResource p resourceId r \<longleftrightarrow> iv_provider r = pn_provider p \<and> iv_apiVersion r = pn_apiVersion p \<and>
     iv_providerResourceId r = resourceId"

definition registerResourceTx ::
  "string \<Rightarrow> InventoryPlan \<Rightarrow> string \<Rightarrow> ProviderResource \<Rightarrow> bool \<Rightarrow> int \<Rightarrow> InventoryDb \<Rightarrow> string + InventoryDb" where
  "registerResourceTx newId p catalogItemId r reachable now db = (case findRow (sameResource p (rs_id r)) (items db) of
     Some item \<Rightarrow>
       if present (iv_assignedOrderId item) \<or> iv_status item \<in> {IV_RESERVED, IV_DELIVERED}
       then Inl ''inventory_already_assigned''
       else Inr (updateItem (iv_id item) (observedItem p catalogItemId r reachable
         (if \<not> reachable then IV_UNHEALTHY
          else if credentialStatusIs (credentialOf (iv_id item) db) CRED_READY then IV_AVAILABLE else IV_STALE) now) db)
   | None \<Rightarrow>
       if \<exists>x \<in> set (items db). iv_id x = newId then Inl ''P2002''
       else Inr (db\<lparr>items := items db @ [observedItem p catalogItemId r reachable
         (if reachable then IV_STALE else IV_UNHEALTHY) now (blankItem newId p (rs_id r) now)]\<rparr>))"

text \<open>\<open>probe\<close> is the answer of the connectivity probe, asked only of an observable resource.\<close>

definition observeAndRegisterPreprovisionedInventory ::
  "string \<Rightarrow> InventoryPlan option \<Rightarrow> ProviderResource option \<Rightarrow> bool \<Rightarrow> int \<Rightarrow> InventoryDb \<Rightarrow> string + InventoryDb" where
  "observeAndRegisterPreprovisionedInventory newId plan resource probe now db =
     (case (case plan of None \<Rightarrow> None | Some p \<Rightarrow> map_option (Pair p) (pn_catalogItem p)) of
        None \<Rightarrow> Inl ''invalid_inventory_plan''
      | Some (p, catalogItemId, externalPlan) \<Rightarrow>
        if pn_provider p \<noteq> ARVAN \<or> pn_apiVersion p \<noteq> ''v1'' \<or> pn_productKind p \<noteq> CLOUD_SERVER
           \<or> pn_offerSource p \<noteq> PREPROVISIONED_INVENTORY
        then Inl ''invalid_inventory_plan''
        else case resource of None \<Rightarrow> Inl ''inventory_resource_not_found''
        | Some r \<Rightarrow>
          if rs_region r \<noteq> pn_regionCode p
             \<or> trimmedOrNull (rs_externalPlanId r) \<noteq> Some (externalPlanOf p externalPlan)
             \<or> trimmedOrNull (rs_externalImageId r) \<noteq> Some (pn_imageCode p)
          then Inl ''inventory_resource_mismatch''
          else registerResourceTx newId p catalogItemId r (observable r \<and> probe) now db)"

end
