(* ===== verification/OrderPayment.thy ===== *)
theory OrderPayment
  imports Coupons Posting ProductFlow Inventory Dates
begin

text \<open>
  Paying an order from the wallet: \<open>src/lib/orders/pay-order-tx.ts\<close> and its caller \<open>payOrderWithWallet\<close> in
  \<open>service.ts\<close>, the expiry of quotes in \<open>quote-expiration.ts\<close>, and the gates of \<open>provider-routing.ts\<close>,
  \<open>public-sale-policy.ts\<close> and \<open>parchin/sellable.ts\<close>. The database joins wallet, ledger, journal and coupons with
  the orders and quotes, the product flow and the inventory. Configuration tables that a payment only reads are one
  argument; the live answer of the provider is another. Titles, messages and audit columns are not modelled.
\<close>

section \<open>The tables\<close>

datatype ServiceOrderStatus = SO_DRAFT | SO_ACTIVATION_REQUESTED | SO_PENDING_PAYMENT | SO_PAID | SO_CANCELED | SO_REFUNDED
datatype QuoteStatus = RQ_ACTIVE | RQ_SELECTED | RQ_CONVERTED | RQ_EXPIRED | RQ_INVALIDATED
datatype SessionStatus =
    RS_DISCOVERY | RS_PROFILING | RS_READY_TO_COMPARE | RS_COMPARING | RS_QUOTED | RS_CHECKOUT | RS_CONVERTED
  | RS_EXPIRED | RS_ESCALATED
datatype InfraOrderStatus =
    IO_WAITING_ADMIN_FUNDING | IO_FUNDING_CONFIRMED | IO_QUEUED | IO_PROVISIONING | IO_ACTIVE
  | IO_BLOCKED_PROVIDER_BALANCE | IO_NEEDS_RECONCILIATION | IO_MANUAL_REVIEW | IO_FAILED | IO_CANCELED | IO_REFUNDED
datatype BillingModel = PAYG_WALLET | PREPAID_TERM

record OrderRow =
  od_id :: string
  od_userId :: string
  od_amount :: int
  od_termMonths :: int
  od_couponCodeSnapshot :: "string option"
  od_status :: ServiceOrderStatus
  od_planId :: "string option"
  od_planSnapshot :: jsval
  od_recommendationQuoteId :: "string option"
  od_quoteExpiresAt :: "int option"
  od_provider :: "InfrastructureProvider option"
  od_providerApiVersion :: "string option"
  od_productKind :: "InfrastructureProductKind option"
  od_parchinLevel :: "ParchinLevel option"
  od_paidAt :: "int option"
  od_createdAt :: int

text \<open>A quote with the snapshots the accounting reads.\<close>

record QuoteRow =
  rq_id :: string
  rq_sessionId :: string
  rq_planId :: string
  rq_status :: QuoteStatus
  rq_amountRial :: int
  rq_couponDiscountBpsSnapshot :: "int option"
  rq_provider :: "InfrastructureProvider option"
  rq_providerApiVersion :: "string option"
  rq_productKind :: "InfrastructureProductKind option"
  rq_providerRegion :: "string option"
  rq_externalPlanId :: "string option"
  rq_externalImageId :: "string option"
  rq_externalNetworkId :: "string option"
  rq_externalSecurityId :: "string option"
  rq_parchinLevel :: "ParchinLevel option"
  rq_deliveryConfigurationSnapshot :: jsval
  rq_preprovisionedInventoryItemId :: "string option"
  rq_expiresAt :: int
  rq_convertedAt :: "int option"
  rq_accounting :: RecommendationQuote

record QuoteSession =
  qn_id :: string
  qn_expiresAt :: int
  qn_status :: SessionStatus

text \<open>A plan, with the columns of its catalog item the price does not use.\<close>

record OrderPlan =
  op_id :: string
  op_catalogItemId :: "string option"
  op_externalPlanId :: "string option"
  op_billingModel :: BillingModel
  op_skuMarkupBasisPoints :: "int option"
  op_plan :: InfrastructurePlan

record StockRow =
  sk_id :: string
  sk_source :: OfferSource
  sk_active :: bool
  sk_status :: CatalogStatus
  sk_manualAvailableUnits :: "int option"
  sk_manualPriceValidUntil :: "int option"

text \<open>What was sold, as the infrastructure order keeps it.\<close>

record ProviderSelectionSnapshot =
  ps_provider :: InfrastructureProvider
  ps_apiVersion :: string
  ps_productKind :: InfrastructureProductKind
  ps_offerSource :: OfferSource
  ps_catalogItemId :: string
  ps_region :: string
  ps_externalPlanId :: string
  ps_externalImageId :: string
  ps_externalNetworkId :: "string option"
  ps_externalSecurityId :: "string option"
  ps_topologyVerificationMode :: string
  ps_deliveryConfiguration :: jsval
  ps_parchinLevel :: ParchinLevel
  ps_inventoryItemId :: "string option"
  ps_providerResourceId :: "string option"
  ps_manualInventoryReserved :: bool

record InfraOrderRow =
  io_id :: string
  io_serviceOrderId :: string
  io_userId :: string
  io_planId :: string
  io_parchinLevel :: ParchinLevel
  io_selection :: ProviderSelectionSnapshot
  io_deliveryMode :: DeliveryMode
  io_status :: InfraOrderStatus
  io_requiredFundingRial :: int
  io_desiredInstanceName :: "string option"
  io_inventoryItemId :: "string option"

record OrderDb = CouponDb +
  orders :: "OrderRow list"
  quotes :: "QuoteRow list"
  quoteSessions :: "QuoteSession list"
  stock :: "StockRow list"
  infraOrders :: "InfraOrderRow list"
  fundingNotices :: "string list"
  flow :: FlowDb
  inventory :: InventoryDb

definition findOrder :: "string \<Rightarrow> OrderDb \<Rightarrow> OrderRow option" where
  "findOrder i db = findRow (\<lambda>r. od_id r = i) (orders db)"

definition findQuote :: "string \<Rightarrow> OrderDb \<Rightarrow> QuoteRow option" where
  "findQuote i db = findRow (\<lambda>q. rq_id q = i) (quotes db)"

definition orderQuote :: "OrderRow \<Rightarrow> OrderDb \<Rightarrow> QuoteRow option" where
  "orderQuote ord db = (case od_recommendationQuoteId ord of None \<Rightarrow> None | Some i \<Rightarrow> findQuote i db)"

definition findSession :: "string \<Rightarrow> OrderDb \<Rightarrow> QuoteSession option" where
  "findSession i db = findRow (\<lambda>s. qn_id s = i) (quoteSessions db)"

definition infraOf :: "string \<Rightarrow> OrderDb \<Rightarrow> InfraOrderRow option" where
  "infraOf orderId db = findRow (\<lambda>r. io_serviceOrderId r = orderId) (infraOrders db)"

text \<open>The flow columns of an order's row.\<close>

definition orderFlowState :: "string \<Rightarrow> OrderDb \<Rightarrow> string option" where
  "orderFlowState i db = (case byId i (serviceOrders (flow db)) of None \<Rightarrow> None | Some r \<Rightarrow> productFlowState r)"

definition orderRevision :: "string \<Rightarrow> OrderDb \<Rightarrow> int" where
  "orderRevision i db = (case byId i (serviceOrders (flow db)) of None \<Rightarrow> 0 | Some r \<Rightarrow> productFlowRevision r)"

text \<open>An error of the product flow ends the transaction around it.\<close>

fun flowErrorText :: "FlowError \<Rightarrow> string" where
  "flowErrorText (invalid_product_flow_transition _ _) = ''invalid_product_flow_transition''"
| "flowErrorText product_flow_owner_required = ''product_flow_owner_required''"
| "flowErrorText product_flow_state_conflict = ''product_flow_state_conflict''"
| "flowErrorText product_flow_idempotency_conflict = ''product_flow_idempotency_conflict''"
| "flowErrorText product_flow_invariant_failed = ''product_flow_invariant_failed''"
| "flowErrorText flow_unique_violation = ''P2002''"
| "flowErrorText (flow_json_error e) = e"

definition transitionTx :: "ProductFlowTransitionInput \<Rightarrow> OrderDb \<Rightarrow> string + OrderDb" where
  "transitionTx i db = (case transitionProductFlowTx i (flow db) of
     Inl e \<Rightarrow> Inl (flowErrorText e) | Inr (_, d) \<Rightarrow> Inr (db\<lparr>flow := d\<rparr>))"

section \<open>The gates of a sale\<close>

definition resolveProviderRoute ::
  "InfrastructureProductKind \<Rightarrow> InfrastructureProvider option \<Rightarrow> string + InfrastructureProvider \<times> string" where
  "resolveProviderRoute kind provider =
     (let p = (if kind = CLOUD_SERVER then ARVAN else orElse provider ARVAN) in
      if p \<noteq> ARVAN then Inl ''provider_route_mismatch'' else Inr (p, ''v1''))"

definition assertProviderRoute ::
  "InfrastructureProductKind \<Rightarrow> InfrastructureProvider \<Rightarrow> string \<Rightarrow> string + unit" where
  "assertProviderRoute kind provider apiVersion =
     bindE (resolveProviderRoute kind (Some provider)) (\<lambda>route.
     guardE (provider = fst route \<and> lowerAscii (trim apiVersion) = snd route) ''provider_route_mismatch'')"

text \<open>The switches of the environment.\<close>

record SaleEnv =
  publicSaleEnabled :: bool
  manualReadyPublicSaleEnabled :: bool
  arvanPublicSaleEnabled :: bool
  arvanReadyPublicSaleEnabled :: bool
  arvanCloudPublicSaleEnabled :: bool
  automatedTest :: bool

definition getPublicSaleDecision ::
  "SaleEnv \<Rightarrow> InfrastructureProvider \<Rightarrow> InfrastructureProductKind \<Rightarrow> OfferSource \<Rightarrow> bool \<times> string" where
  "getPublicSaleDecision env provider kind source =
     (if \<not> publicSaleEnabled env then (False, ''public_sale_disabled'')
      else if source = PREPROVISIONED_INVENTORY
      then (if manualReadyPublicSaleEnabled env then (True, ''sale_enabled'') else (False, ''provider_sale_disabled''))
      else if source = MANUAL_ADMIN
      then (if kind = READY_INSTANT_SERVER \<and> manualReadyPublicSaleEnabled env
        then (True, ''sale_enabled'') else (False, ''provider_sale_disabled''))
      else if provider = ARVAN
      then (if \<not> arvanPublicSaleEnabled env then (False, ''provider_sale_disabled'')
        else if \<not> (if kind = READY_INSTANT_SERVER then arvanReadyPublicSaleEnabled env else arvanCloudPublicSaleEnabled env)
        then (False, ''provider_sale_disabled'') else (True, ''sale_enabled''))
      else (False, ''provider_sale_disabled''))"

definition assertPublicSaleEnabled ::
  "SaleEnv \<Rightarrow> InfrastructureProvider \<Rightarrow> InfrastructureProductKind \<Rightarrow> OfferSource \<Rightarrow> string + unit" where
  "assertPublicSaleEnabled env provider kind source =
     (let (allowed, code) = getPublicSaleDecision env provider kind source in guardE allowed code)"

record ParchinConfig =
  pr_active :: bool
  pr_operationalEvidenceApprovedAt :: "int option"
  pr_priceRial :: int

definition isParchinConfigSellable :: "SaleEnv \<Rightarrow> ParchinConfig option \<Rightarrow> bool" where
  "isParchinConfigSellable env row = (case row of None \<Rightarrow> False
     | Some r \<Rightarrow> pr_active r \<and> (pr_operationalEvidenceApprovedAt r \<noteq> None \<or> automatedTest env))"

section \<open>May this order be paid?\<close>

text \<open>The configuration a payment reads.\<close>

record CatalogState =
  cs_lastCatalogSync :: "int option"
  cs_lastSyncSucceeded :: bool
  cs_freshnessSlaSeconds :: int

record SaleTables =
  st_env :: SaleEnv
  st_plans :: "OrderPlan list"
  st_catalogState :: "InfrastructureProvider \<Rightarrow> CatalogState option"
  st_regionSale :: "InfrastructureProvider \<Rightarrow> string \<Rightarrow> string \<Rightarrow> bool"
  st_providerPricing :: "InfrastructureProvider \<Rightarrow> (bool \<times> int) option"
  st_productPricing :: "InfrastructureProvider \<Rightarrow> string \<Rightarrow> InfrastructureProductKind \<Rightarrow> (bool \<times> int) option"
  st_taxBps :: "int option"
  st_parchin :: "ParchinLevel \<Rightarrow> ParchinConfig option"

definition flowOwnerOf :: "QuoteRow option \<Rightarrow> string \<Rightarrow> string option \<Rightarrow> ProductFlowOwner" where
  "flowOwnerOf q orderId infraId = \<lparr>recommendationSessionId = map_option rq_sessionId q, serviceOrderId = Some orderId,
     infrastructureOrderId = infraId\<rparr>"

definition payableQuote :: "int \<Rightarrow> OrderRow \<Rightarrow> QuoteRow \<Rightarrow> OrderDb \<Rightarrow> string + unit" where
  "payableQuote now ord q db =
     (if rq_status q \<noteq> RQ_ACTIVE \<and> rq_status q \<noteq> RQ_SELECTED then Inl ''invalid_quote_status''
      else case findSession (rq_sessionId q) db of None \<Rightarrow> Inl P2025
      | Some s \<Rightarrow>
        if rq_expiresAt q \<le> now \<or> qn_expiresAt s \<le> now then Inl ''quote_expired''
        else if rq_amountRial q \<noteq> od_amount ord \<or> Some (rq_planId q) \<noteq> od_planId ord then Inl ''quote_mismatch''
        else (case assertProductFlowOwnerStateTx (flowOwnerOf (Some q) (od_id ord) None) AWAITING_PAYMENT (flow db) of
          Inl e \<Rightarrow> Inl (flowErrorText e) | Inr _ \<Rightarrow> Inr ()))"

definition payableOrder :: "int \<Rightarrow> OrderRow \<Rightarrow> OrderDb \<Rightarrow> string + unit" where
  "payableOrder now ord db =
     (if od_status ord \<noteq> SO_PENDING_PAYMENT
      then (if orderFlowState (od_id ord) db \<in> {Some ''REQUIREMENTS_COMPLETE'', Some ''QUOTE_EXPIRED''}
        then Inl ''quote_refresh_required'' else Inl ''invalid_status'')
      else if (case od_quoteExpiresAt ord of None \<Rightarrow> False | Some t \<Rightarrow> t \<le> now) then Inl ''quote_expired''
      else case orderQuote ord db of None \<Rightarrow> Inr () | Some q \<Rightarrow> payableQuote now ord q db)"

definition catalogFresh :: "SaleTables \<Rightarrow> int \<Rightarrow> InfrastructurePlan \<Rightarrow> bool" where
  "catalogFresh tabs now p \<longleftrightarrow> st_regionSale tabs (pl_provider p) (pl_providerApiVersion p) (pl_regionCode p) \<and>
     (case st_catalogState tabs (pl_provider p) of None \<Rightarrow> False
      | Some s \<Rightarrow> cs_lastSyncSucceeded s \<and>
          (case cs_lastCatalogSync s of None \<Rightarrow> False | Some t \<Rightarrow> now - t \<le> cs_freshnessSlaSeconds s * 1000))"

definition payablePlan :: "SaleTables \<Rightarrow> int \<Rightarrow> OrderRow \<Rightarrow> OrderPlan \<Rightarrow> string + unit" where
  "payablePlan tabs now ord plan = (let p = op_plan plan in
     if op_billingModel plan = PAYG_WALLET then Inl ''direct_checkout_not_allowed''
     else bindE (assertProviderRoute (pl_productKind p) (pl_provider p) (pl_providerApiVersion p)) (\<lambda>_.
     if od_provider ord \<noteq> None \<and> (od_provider ord \<noteq> Some (pl_provider p)
        \<or> od_providerApiVersion ord \<noteq> Some (pl_providerApiVersion p) \<or> od_productKind ord \<noteq> Some (pl_productKind p))
     then Inl ''order_provider_mismatch''
     else bindE (assertPublicSaleEnabled (st_env tabs) (pl_provider p) (pl_productKind p) (pl_offerSource p)) (\<lambda>_.
     if pl_offerSource p = API_CATALOG \<and> \<not> catalogFresh tabs now p then Inl ''quote_unavailable'' else Inr ())))"

definition orderParchinLevel :: "OrderRow \<Rightarrow> QuoteRow option \<Rightarrow> ParchinLevel option" where
  "orderParchinLevel ord q = (case od_parchinLevel ord of Some l \<Rightarrow> Some l
     | None \<Rightarrow> (case q of None \<Rightarrow> None | Some q \<Rightarrow> rq_parchinLevel q))"

definition currentPricing ::
  "SaleTables \<Rightarrow> int \<Rightarrow> OrderRow \<Rightarrow> QuoteRow option \<Rightarrow> OrderPlan \<Rightarrow> string + EffectivePlanPricing option" where
  "currentPricing tabs now ord q plan = (let p = op_plan plan;
       manualAdmin = (pl_offerSource p = MANUAL_ADMIN);
       pricing = st_providerPricing tabs (pl_provider p);
       product = st_productPricing tabs (pl_provider p) (pl_providerApiVersion p) (pl_productKind p);
       level = orElse (orderParchinLevel ord q) (orElse (pl_minimumParchinLevel p) PARCHIN_START);
       enabled = (\<lambda>c :: (bool \<times> int) option. case c of None \<Rightarrow> False | Some (e, _) \<Rightarrow> e)
     in case st_parchin tabs level of None \<Rightarrow> Inr None
     | Some parchin \<Rightarrow>
       if (manualAdmin \<or> enabled pricing \<and> enabled product) \<and> isParchinConfigSellable (st_env tabs) (Some parchin)
       then resolvePlanPricing now p (if manualAdmin then None else map_option snd pricing)
         \<lparr>po_productMarkupBasisPoints = (if manualAdmin then Some 0 else (case op_skuMarkupBasisPoints plan of
            Some m \<Rightarrow> Some m | None \<Rightarrow> map_option snd product)),
          po_taxBasisPoints = Some (orElse (st_taxBps tabs) 1000), po_parchinLevel = Some level,
          po_parchinPriceRial = Some (pr_priceRial parchin),
          po_termMonths = Some (if od_termMonths ord \<in> {3, 6, 12} then od_termMonths ord else 1),
          po_couponDiscountBps = (case q of None \<Rightarrow> None | Some q \<Rightarrow> rq_couponDiscountBpsSnapshot q),
          po_minimumPostDiscountGrossMarginBps = None, po_infrastructureSaleRialOverride = None\<rparr>
       else Inr None)"

text \<open>A reserved server is locked and compared with the plan and the quote once more.\<close>

definition expectedServer :: "OrderPlan \<Rightarrow> string \<Rightarrow> string \<Rightarrow> QuoteRow \<Rightarrow> ExpectedSelection" where
  "expectedServer plan catalogItemId img q = \<lparr>ex_planId = op_id plan, ex_catalogItemId = catalogItemId,
     ex_provider = pl_provider (op_plan plan), ex_apiVersion = pl_providerApiVersion (op_plan plan),
     ex_regionCode = pl_regionCode (op_plan plan),
     ex_externalPlanId = orElse (op_externalPlanId plan) (pl_sizeCode (op_plan plan)), ex_externalImageId = img,
     ex_externalNetworkId = rq_externalNetworkId q, ex_externalSecurityId = rq_externalSecurityId q\<rparr>"

definition paymentInventory ::
  "int \<Rightarrow> OrderRow \<Rightarrow> QuoteRow option \<Rightarrow> OrderPlan \<Rightarrow> string \<Rightarrow> OrderDb \<Rightarrow> string + InventoryItem option" where
  "paymentInventory now ord quote plan catalogItemId db =
     (if pl_offerSource (op_plan plan) \<noteq> PREPROVISIONED_INVENTORY then Inr None
      else case quote of None \<Rightarrow> Inl ''inventory_snapshot_mismatch''
      | Some q \<Rightarrow> (case truthyId (rq_preprovisionedInventoryItemId q) of None \<Rightarrow> Inl ''inventory_snapshot_mismatch''
        | Some i \<Rightarrow> (case rq_externalImageId q of None \<Rightarrow> Inl ''inventory_unavailable''
          | Some img \<Rightarrow> let ex = expectedServer plan catalogItemId img q in
            bindE (lockReservedInventoryForPaymentTx i (rq_id q) (od_id ord) (orderRevision (od_id ord) db) ex now (inventory db))
              (\<lambda>item. if mappingMatches item ex then Inr (Some item) else Inl ''inventory_snapshot_mismatch''))))"

section \<open>Paying\<close>

text \<open>The generated ids of one payment.\<close>

record PaymentIds =
  ni_wallet :: string
  ni_entry :: string
  ni_journal :: string
  ni_infra :: string

definition payKey :: "string \<Rightarrow> string" where "payKey orderId = ''order_pay_'' @ orderId"

definition ledgerCompleted :: "string \<Rightarrow> OrderDb \<Rightarrow> bool" where
  "ledgerCompleted key db \<longleftrightarrow> map_option le_status (findByIdempotency key db) = Some LS_COMPLETED"

text \<open>A plan stocked by hand: one unit is taken, if there is one. \<open>None\<close> tells the order was paid meanwhile.\<close>

definition unitAvailable :: "int \<Rightarrow> string \<Rightarrow> StockRow \<Rightarrow> bool" where
  "unitAvailable now i s \<longleftrightarrow> sk_id s = i \<and> sk_source s = MANUAL_ADMIN \<and> sk_active s \<and> sk_status s = CATALOG_ACTIVE \<and>
     (case sk_manualAvailableUnits s of None \<Rightarrow> False | Some n \<Rightarrow> n > 0) \<and>
     (case sk_manualPriceValidUntil s of None \<Rightarrow> False | Some t \<Rightarrow> t > now)"

definition takeUnit :: "StockRow \<Rightarrow> StockRow" where
  "takeUnit s = s\<lparr>sk_manualAvailableUnits := map_option (\<lambda>n. n - 1) (sk_manualAvailableUnits s)\<rparr>"

definition reserveManualUnit :: "int \<Rightarrow> OrderRow \<Rightarrow> OrderPlan \<Rightarrow> OrderDb \<Rightarrow> string + OrderDb option" where
  "reserveManualUnit now ord plan db =
     (if pl_offerSource (op_plan plan) \<noteq> MANUAL_ADMIN then Inr (Some db)
      else case truthyId (op_catalogItemId plan) of None \<Rightarrow> Inl ''inventory_unavailable''
      | Some i \<Rightarrow>
        if countRows (unitAvailable now i) (stock db) = 1
        then Inr (Some (db\<lparr>stock := updateRows (unitAvailable now i) takeUnit (stock db)\<rparr>))
        else if ledgerCompleted (payKey (od_id ord)) db \<or> map_option od_status (findOrder (od_id ord) db) = Some SO_PAID
        then Inr None else Inl ''inventory_unavailable'')"

definition accountingOrder :: "OrderRow \<Rightarrow> QuoteRow option \<Rightarrow> ServiceOrder" where
  "accountingOrder ord q = \<lparr>so_id = od_id ord, so_amount = od_amount ord, so_planSnapshot = od_planSnapshot ord,
     so_recommendationQuote = map_option rq_accounting q, so_termMonths = Some (od_termMonths ord),
     so_paidAt = od_paidAt ord, so_createdAt = od_createdAt ord, so_provider = map_option (\<lambda>_. ''ARVAN'') (od_provider ord),
     so_productKind = map_option productKindText (od_productKind ord),
     so_parchinLevel = map_option parchinLevelText (od_parchinLevel ord)\<rparr>"

definition postPurchase :: "string \<Rightarrow> string \<Rightarrow> OrderDb \<Rightarrow> string + OrderDb" where
  "postPurchase journalId orderId db = (case findOrder orderId db of None \<Rightarrow> Inl P2025
     | Some ord \<Rightarrow> bindE (postServicePurchaseCompleted journalId (accountingOrder ord (orderQuote ord db)) db)
         (\<lambda>(_, db). Inr db))"

definition redeemOrderCoupon :: "string \<Rightarrow> OrderRow \<Rightarrow> OrderDb \<Rightarrow> string + OrderDb" where
  "redeemOrderCoupon userId ord db = (case truthyId (od_couponCodeSnapshot ord) of None \<Rightarrow> Inr db
     | Some code \<Rightarrow> (case findCoupon code db of None \<Rightarrow> Inr db
       | Some c \<Rightarrow> bindE (recordCouponRedemptionTx \<lparr>rd_couponId = cp_id c, rd_userId = userId,
            rd_serviceOrderId = Some (od_id ord), rd_walletTopUpId = None, rd_amountRial = od_amount ord, rd_bonusRial = 0,
            rd_idempotencyKey = ''coupon-order:'' @ od_id ord\<rparr> db) (\<lambda>(_, db). Inr db)))"

text \<open>The wallet is debited once under the order's key.\<close>

definition purchaseDebit :: "PaymentIds \<Rightarrow> string \<Rightarrow> OrderRow \<Rightarrow> CreditInput" where
  "purchaseDebit ids userId ord = \<lparr>in_userId = userId, in_amountRial = od_amount ord, in_type = SERVICE_PURCHASE,
     in_idempotencyKey = payKey (od_id ord), in_referenceType = Some ''order'', in_referenceId = Some (od_id ord),
     in_newWalletId = ni_wallet ids, in_newEntryId = ni_entry ids\<rparr>"

definition markPaid :: "int \<Rightarrow> string \<Rightarrow> OrderDb \<Rightarrow> string + OrderDb" where
  "markPaid now i db = (let p = (\<lambda>r. od_id r = i \<and> od_status r = SO_PENDING_PAYMENT) in
     if countRows p (orders db) \<noteq> 1 then Inl ''invalid_status''
     else Inr (db\<lparr>orders := updateRows p (\<lambda>r. r\<lparr>od_status := SO_PAID, od_paidAt := Some now\<rparr>) (orders db)\<rparr>))"

definition resolveDesiredInstanceName :: "string \<Rightarrow> jsval \<Rightarrow> string" where
  "resolveDesiredInstanceName orderId config =
     (let fallback = ''abrchin-'' @ drop (length orderId - 12) orderId @ ''-1'' in
      case config of JObj es \<Rightarrow> (case jsGet ''serverName'' es of
          JStr name \<Rightarrow> if length (trim name) \<ge> 2 then take 64 (trim name) else fallback
        | _ \<Rightarrow> fallback)
      | _ \<Rightarrow> fallback)"

definition quoteDelivery :: "QuoteRow option \<Rightarrow> jsval" where
  "quoteDelivery q = (case q of None \<Rightarrow> JNull | Some q \<Rightarrow> rq_deliveryConfigurationSnapshot q)"

definition topologyMode :: "QuoteRow option \<Rightarrow> bool \<Rightarrow> string" where
  "topologyMode q manualAdmin =
     (let mode = (case quoteDelivery q of JObj es \<Rightarrow> jsGet ''topologyVerificationMode'' es | _ \<Rightarrow> JUndefined) in
      if mode = JStr ''PROVIDER_MANAGED'' then ''PROVIDER_MANAGED''
      else if mode = JStr ''STRICT_OBSERVED'' then ''STRICT_OBSERVED''
      else if manualAdmin then ''PROVIDER_MANAGED'' else ''STRICT_OBSERVED'')"

definition soldSelection ::
  "OrderRow \<Rightarrow> QuoteRow option \<Rightarrow> OrderPlan \<Rightarrow> EffectivePlanPricing \<Rightarrow> InventoryItem option \<Rightarrow> ProviderSelectionSnapshot" where
  "soldSelection ord q plan pricing item = (let p = op_plan plan; manualAdmin = (pl_offerSource p = MANUAL_ADMIN) in
     \<lparr>ps_provider = pl_provider p, ps_apiVersion = pl_providerApiVersion p, ps_productKind = pl_productKind p,
      ps_offerSource = pl_offerSource p, ps_catalogItemId = ep_catalogItemId pricing, ps_region = pl_regionCode p,
      ps_externalPlanId = orElse (op_externalPlanId plan) (pl_sizeCode p),
      ps_externalImageId = orElse (case q of None \<Rightarrow> None | Some q \<Rightarrow> rq_externalImageId q) (pl_imageCode p),
      ps_externalNetworkId = (case q of None \<Rightarrow> None | Some q \<Rightarrow> rq_externalNetworkId q),
      ps_externalSecurityId = (case q of None \<Rightarrow> None | Some q \<Rightarrow> rq_externalSecurityId q),
      ps_topologyVerificationMode = topologyMode q manualAdmin, ps_deliveryConfiguration = quoteDelivery q,
      ps_parchinLevel = orElse (orderParchinLevel ord q) (ep_parchinLevel pricing),
      ps_inventoryItemId = map_option iv_id item, ps_providerResourceId = map_option iv_providerResourceId item,
      ps_manualInventoryReserved = manualAdmin\<rparr>)"

definition newInfraOrder ::
  "string \<Rightarrow> string \<Rightarrow> OrderRow \<Rightarrow> QuoteRow option \<Rightarrow> OrderPlan \<Rightarrow> EffectivePlanPricing \<Rightarrow> InventoryItem option \<Rightarrow> InfraOrderRow" where
  "newInfraOrder i userId ord q plan pricing item = (let p = op_plan plan in
     \<lparr>io_id = i, io_serviceOrderId = od_id ord, io_userId = userId, io_planId = op_id plan,
      io_parchinLevel = orElse (orderParchinLevel ord q) (ep_parchinLevel pricing),
      io_selection = soldSelection ord q plan pricing item, io_deliveryMode = pl_deliveryMode p,
      io_status = IO_WAITING_ADMIN_FUNDING,
      io_requiredFundingRial = (if pl_offerSource p = MANUAL_ADMIN \<or> pl_offerSource p = PREPROVISIONED_INVENTORY then 0
        else ep_providerBasePriceRial pricing),
      io_desiredInstanceName = Some (resolveDesiredInstanceName (od_id ord) (quoteDelivery q)),
      io_inventoryItemId = map_option iv_id item\<rparr>)"

text \<open>The unique columns of an infrastructure order: its id, order, instance name and server.\<close>

definition infraClash :: "InfraOrderRow \<Rightarrow> InfraOrderRow \<Rightarrow> bool" where
  "infraClash n r \<longleftrightarrow> io_id r = io_id n \<or> io_serviceOrderId r = io_serviceOrderId n \<or>
     (io_desiredInstanceName n \<noteq> None \<and> io_desiredInstanceName r = io_desiredInstanceName n) \<or>
     (io_inventoryItemId n \<noteq> None \<and> io_inventoryItemId r = io_inventoryItemId n)"

definition createInfraOrder :: "InfraOrderRow \<Rightarrow> int \<Rightarrow> OrderDb \<Rightarrow> string + OrderDb" where
  "createInfraOrder n revn db =
     (if (\<exists>r \<in> set (infraOrders db). infraClash n r) \<or> byId (io_id n) (infrastructureOrders (flow db)) \<noteq> None then Inl P2002
      else Inr (db\<lparr>infraOrders := infraOrders db @ [n],
        flow := addRow InfrastructureOrders (io_id n) (Some ''AWAITING_PAYMENT'', revn) (flow db)\<rparr>))"

definition paidInput :: "string \<Rightarrow> OrderRow \<Rightarrow> QuoteRow option \<Rightarrow> string \<Rightarrow> ProductFlowTransitionInput" where
  "paidInput userId ord q infraId = \<lparr>flowOwner = flowOwnerOf q (od_id ord) (Some infraId), flowFrom = AWAITING_PAYMENT,
     flowTo = PAID, flowKey = ''order-paid:'' @ od_id ord, flowReason = ''wallet_payment_completed'', flowMetadata = None,
     flowActor = Some userId\<rparr>"

definition convertQuote :: "int \<Rightarrow> QuoteRow option \<Rightarrow> OrderDb \<Rightarrow> OrderDb" where
  "convertQuote now quote db = (case quote of None \<Rightarrow> db
     | Some q \<Rightarrow> db\<lparr>quotes := updateRows (\<lambda>r. rq_id r = rq_id q)
         (\<lambda>r. r\<lparr>rq_status := RQ_CONVERTED, rq_convertedAt := Some now\<rparr>) (quotes db),
       quoteSessions := updateRows (\<lambda>s. qn_id s = rq_sessionId q) (\<lambda>s. s\<lparr>qn_status := RS_CONVERTED\<rparr>) (quoteSessions db)\<rparr>)"

definition orderAnswer :: "string \<Rightarrow> InfraOrderRow option \<Rightarrow> OrderDb \<Rightarrow> string + (OrderRow \<times> InfraOrderRow option) \<times> OrderDb" where
  "orderAnswer i infra db = (case findOrder i db of None \<Rightarrow> Inl P2025 | Some ord \<Rightarrow> Inr ((ord, infra), db))"

text \<open>After the debit: the order is paid, booked and its coupon redeemed; then the infrastructure order is created, the
  flow moves, the quote is converted. An infrastructure order that is there already ends the transaction.\<close>

definition completePurchase ::
  "int \<Rightarrow> PaymentIds \<Rightarrow> string \<Rightarrow> OrderRow \<Rightarrow> QuoteRow option \<Rightarrow> OrderPlan \<Rightarrow> EffectivePlanPricing \<Rightarrow> InventoryItem option \<Rightarrow>
   int \<Rightarrow> OrderDb \<Rightarrow> string + (OrderRow \<times> InfraOrderRow option) \<times> OrderDb" where
  "completePurchase now ids userId ord q plan pricing item revn db =
     bindE (markPaid now (od_id ord) db) (\<lambda>db.
     bindE (postPurchase (ni_journal ids) (od_id ord) db) (\<lambda>db.
     bindE (redeemOrderCoupon userId ord db) (\<lambda>db.
     case infraOf (od_id ord) db of Some infra \<Rightarrow> orderAnswer (od_id ord) (Some infra) db
     | None \<Rightarrow>
       let n = newInfraOrder (ni_infra ids) userId ord q plan pricing item in
       bindE (createInfraOrder n revn db) (\<lambda>db.
       bindE (transitionTx (paidInput userId ord q (io_id n)) db) (\<lambda>db.
       let db = db\<lparr>fundingNotices := fundingNotices db @ [io_id n]\<rparr> in
       orderAnswer (od_id ord) (Some n) (convertQuote now q db))))))"

text \<open>The debit, unless the ledger has it already.\<close>

definition debitAndComplete ::
  "int \<Rightarrow> PaymentIds \<Rightarrow> string \<Rightarrow> OrderRow \<Rightarrow> QuoteRow option \<Rightarrow> OrderPlan \<Rightarrow> EffectivePlanPricing \<Rightarrow> InventoryItem option \<Rightarrow>
   OrderDb \<Rightarrow> string + (OrderRow \<times> InfraOrderRow option) \<times> OrderDb" where
  "debitAndComplete now ids userId ord q plan pricing item db =
     (if ledgerCompleted (payKey (od_id ord)) db
      then bindE (redeemOrderCoupon userId ord db) (\<lambda>db.
        bindE (postPurchase (ni_journal ids) (od_id ord) db) (\<lambda>db.
        orderAnswer (od_id ord) (infraOf (od_id ord) db) db))
      else bindE (debitTx (purchaseDebit ids userId ord) db) (\<lambda>(_, db).
        completePurchase now ids userId ord q plan pricing item (orderRevision (od_id ord) db) db))"

definition payPlannedOrder ::
  "SaleTables \<Rightarrow> int \<Rightarrow> PaymentIds \<Rightarrow> string \<Rightarrow> OrderRow \<Rightarrow> OrderPlan \<Rightarrow> OrderDb \<Rightarrow>
   string + (OrderRow \<times> InfraOrderRow option) \<times> OrderDb" where
  "payPlannedOrder tabs now ids userId ord plan db = (let q = orderQuote ord db in
     bindE (payablePlan tabs now ord plan) (\<lambda>_.
     bindE (currentPricing tabs now ord q plan) (\<lambda>priced.
     case priced of None \<Rightarrow> Inl ''quote_unavailable''
     | Some pricing \<Rightarrow>
       if \<not> samePlanConfigurationSnapshot (op_plan plan) pricing (od_planSnapshot ord)
       then Inl ''quote_configuration_changed''
       else bindE (paymentInventory now ord q plan (ep_catalogItemId pricing) db) (\<lambda>item.
       if od_amount ord \<le> 1 then Inl ''pricing_unavailable''
       else bindE (reserveManualUnit now ord plan db) (\<lambda>reserved.
       case reserved of None \<Rightarrow> orderAnswer (od_id ord) (infraOf (od_id ord) db) db
       | Some db \<Rightarrow> debitAndComplete now ids userId ord q plan pricing item db)))))"

definition executePayOrderWithWalletTx ::
  "SaleTables \<Rightarrow> int \<Rightarrow> PaymentIds \<Rightarrow> string \<Rightarrow> string \<Rightarrow> OrderDb \<Rightarrow> string + (OrderRow \<times> InfraOrderRow option) \<times> OrderDb" where
  "executePayOrderWithWalletTx tabs now ids userId orderId db = (case findOrder orderId db of
     None \<Rightarrow> Inl ''not_found''
   | Some ord \<Rightarrow>
     if od_userId ord \<noteq> userId then Inl ''not_found''
     else if od_status ord = SO_PAID then Inr ((ord, infraOf (od_id ord) db), db)
     else bindE (payableOrder now ord db) (\<lambda>_.
     case (case od_planId ord of None \<Rightarrow> None | Some i \<Rightarrow> findRow (\<lambda>p. op_id p = i) (st_plans tabs)) of
       None \<Rightarrow> Inl ''invalid_plan''
     | Some plan \<Rightarrow> payPlannedOrder tabs now ids userId ord plan db))"

section \<open>The expiry of quotes\<close>

definition expireableState :: "string option \<Rightarrow> ProductFlowState option" where
  "expireableState v = (case truthyId v of None \<Rightarrow> None
     | Some s \<Rightarrow> (case isProductFlowState s of None \<Rightarrow> None
       | Some st \<Rightarrow> if st \<in> {QUOTED, AUTH_REQUIRED, AWAITING_PAYMENT} then Some st else None))"

definition orderOfQuote :: "string \<Rightarrow> OrderDb \<Rightarrow> OrderRow option" where
  "orderOfQuote quoteId db = findRow (\<lambda>r. od_recommendationQuoteId r = Some quoteId) (orders db)"

definition sessionFlowState :: "string \<Rightarrow> OrderDb \<Rightarrow> string option" where
  "sessionFlowState i db = (case byId i (sessions (flow db)) of None \<Rightarrow> None | Some r \<Rightarrow> productFlowState r)"

definition expiredInput :: "string \<Rightarrow> QuoteRow \<Rightarrow> OrderRow option \<Rightarrow> ProductFlowState \<Rightarrow> ProductFlowTransitionInput" where
  "expiredInput reason q ord from = \<lparr>flowOwner = \<lparr>recommendationSessionId = Some (rq_sessionId q),
       serviceOrderId = map_option od_id ord, infrastructureOrderId = None\<rparr>,
     flowFrom = from, flowTo = ProductFlowState.QUOTE_EXPIRED, flowKey = ''quote-expired:'' @ rq_id q, flowReason = reason,
     flowMetadata = Some (JObj [(''quoteId'', JStr (rq_id q)), (''expiresAt'', JStr (toISOString (rq_expiresAt q))),
       (''containsSecret'', JBool False)]), flowActor = None\<rparr>"

definition expireLockedQuoteContractTx :: "string \<Rightarrow> string \<Rightarrow> int \<Rightarrow> OrderDb \<Rightarrow> string + bool \<times> OrderDb" where
  "expireLockedQuoteContractTx reason quoteId now db = (case findQuote quoteId db of None \<Rightarrow> Inr (False, db)
   | Some q \<Rightarrow>
     if rq_status q \<in> {RQ_EXPIRED, RQ_INVALIDATED, RQ_CONVERTED} then Inr (rq_status q = RQ_EXPIRED, db)
     else if rq_expiresAt q > now then Inr (False, db)
     else let db = db\<lparr>quotes := updateRows (\<lambda>r. rq_id r = quoteId) (\<lambda>r. r\<lparr>rq_status := RQ_EXPIRED\<rparr>) (quotes db)\<rparr>;
              ord = orderOfQuote quoteId db;
              raw = (case (case ord of None \<Rightarrow> None | Some ord \<Rightarrow> orderFlowState (od_id ord) db) of Some s \<Rightarrow> Some s
                | None \<Rightarrow> sessionFlowState (rq_sessionId q) db)
       in bindE (case expireableState raw of None \<Rightarrow> Inr db | Some from \<Rightarrow> transitionTx (expiredInput reason q ord from) db) (\<lambda>db.
          Inr (True, db\<lparr>quoteSessions := updateRows (\<lambda>s. qn_id s = rq_sessionId q \<and> qn_status s \<in> {RS_QUOTED, RS_CHECKOUT})
              (\<lambda>s. s\<lparr>qn_status := RS_EXPIRED\<rparr>) (quoteSessions db),
            inventory := releaseInventoryOfExpiredQuote quoteId now (inventory db)\<rparr>)))"

definition isCommercialQuoteExpired :: "int \<Rightarrow> int option \<Rightarrow> int option \<Rightarrow> int \<Rightarrow> bool" where
  "isCommercialQuoteExpired quoteExpiresAt orderExpiresAt sessionExpiresAt now \<longleftrightarrow> quoteExpiresAt \<le> now \<or>
     (case orderExpiresAt of None \<Rightarrow> False | Some t \<Rightarrow> t \<le> now) \<or> (case sessionExpiresAt of None \<Rightarrow> False | Some t \<Rightarrow> t \<le> now)"

text \<open>The expiry commits before the payment is refused; a failed expiry is the error.\<close>

definition rejectIfQuoteExpired :: "QuoteRow \<Rightarrow> int option \<Rightarrow> int \<Rightarrow> OrderDb \<Rightarrow> (string + unit) \<times> OrderDb" where
  "rejectIfQuoteExpired q orderExpiresAt now db =
     (if \<not> isCommercialQuoteExpired (rq_expiresAt q) orderExpiresAt None now then (Inr (), db)
      else case expireLockedQuoteContractTx ''quote_ttl_elapsed'' (rq_id q) now db of
        Inl e \<Rightarrow> (Inl e, db) | Inr (_, db) \<Rightarrow> (Inl ''quote_expired'', db))"

text \<open>The sweep: the quotes that are due, the oldest first, one transaction each.\<close>

fun expireQuotes :: "string list \<Rightarrow> int \<Rightarrow> OrderDb \<Rightarrow> (string + nat) \<times> OrderDb" where
  "expireQuotes [] now db = (Inr 0, db)"
| "expireQuotes (i # is) now db = (case expireLockedQuoteContractTx ''quote_ttl_sweep'' i now db of
     Inl e \<Rightarrow> (Inl e, db)
   | Inr (gone, db) \<Rightarrow> (case expireQuotes is now db of
       (Inl e, db) \<Rightarrow> (Inl e, db) | (Inr n, db) \<Rightarrow> (Inr (if gone then n + 1 else n), db)))"

definition expireDueLockedQuotes :: "int \<Rightarrow> nat \<Rightarrow> OrderDb \<Rightarrow> (string + nat) \<times> OrderDb" where
  "expireDueLockedQuotes now limit db = expireQuotes (map rq_id (take limit (sort_key rq_expiresAt
     (filter (\<lambda>q. rq_status q \<in> {RQ_ACTIVE, RQ_SELECTED} \<and> rq_expiresAt q \<le> now) (quotes db))))) now db"

section \<open>The request\<close>

text \<open>
  \<open>live\<close> is the provider's answer about the locked selection: no error, or the code of the error it leads to.
  \<open>other\<close> is what other sessions do before the transaction, before the look at the order after a failure, and
  before the release.
\<close>

definition lockedSelection :: "QuoteRow \<Rightarrow> bool" where
  "lockedSelection q \<longleftrightarrow> rq_provider q \<noteq> None \<and> present (rq_providerApiVersion q) \<and> rq_productKind q \<noteq> None \<and>
     present (rq_providerRegion q) \<and> present (rq_externalPlanId q) \<and> present (rq_externalImageId q)"

definition revalidated :: "(OrderRow \<Rightarrow> string + unit) \<Rightarrow> OrderRow \<Rightarrow> QuoteRow option \<Rightarrow> OrderPlan option \<Rightarrow> string + unit" where
  "revalidated live ord quote plan = (let legacy = (case plan of None \<Rightarrow> Inr () | Some p \<Rightarrow>
       if pl_catalogItem (op_plan p) \<noteq> None \<and> pl_offerSource (op_plan p) \<noteq> MANUAL_ADMIN then live ord else Inr ())
     in case quote of None \<Rightarrow> legacy
     | Some q \<Rightarrow> if \<not> lockedSelection q then legacy
         else if present (rq_preprovisionedInventoryItemId q) \<or> map_option (\<lambda>p. pl_offerSource (op_plan p)) plan = Some MANUAL_ADMIN
         then Inr () else live ord)"

definition prepareRequest ::
  "SaleTables \<Rightarrow> (OrderRow \<Rightarrow> string + unit) \<Rightarrow> int \<Rightarrow> string \<Rightarrow> string \<Rightarrow> OrderDb \<Rightarrow> (string + unit) \<times> OrderDb" where
  "prepareRequest tabs live now userId orderId db =
     (case findRow (\<lambda>r. od_id r = orderId \<and> od_userId r = userId) (orders db) of None \<Rightarrow> (Inr (), db)
      | Some ord \<Rightarrow>
        if od_status ord = SO_PAID then (Inr (), db)
        else let plan = (case od_planId ord of None \<Rightarrow> None | Some i \<Rightarrow> findRow (\<lambda>p. op_id p = i) (st_plans tabs));
                 q = orderQuote ord db
          in case (case plan of None \<Rightarrow> Inr () | Some p \<Rightarrow> assertPublicSaleEnabled (st_env tabs) (pl_provider (op_plan p))
                (pl_productKind (op_plan p)) (pl_offerSource (op_plan p))) of
               Inl e \<Rightarrow> (Inl e, db)
             | Inr _ \<Rightarrow> (case (case q of
                 Some q \<Rightarrow> rejectIfQuoteExpired q (od_quoteExpiresAt ord) now db
               | None \<Rightarrow> (guardE (case od_quoteExpiresAt ord of None \<Rightarrow> True | Some t \<Rightarrow> t > now) ''quote_expired'', db)) of
                 (Inl e, db) \<Rightarrow> (Inl e, db)
               | (Inr _, db) \<Rightarrow> (revalidated live ord q plan, db)))"

definition payOrderWithWallet ::
  "SaleTables \<Rightarrow> (OrderRow \<Rightarrow> string + unit) \<Rightarrow> (nat \<Rightarrow> OrderDb \<Rightarrow> OrderDb) \<Rightarrow> int \<Rightarrow> PaymentIds \<Rightarrow> string \<Rightarrow> string \<Rightarrow> OrderDb \<Rightarrow>
   (string + OrderRow \<times> InfraOrderRow option) \<times> OrderDb" where
  "payOrderWithWallet tabs live other now ids userId orderId db =
     (case prepareRequest tabs live now userId orderId db of
        (Inl e, db) \<Rightarrow> (Inl e, db)
      | (Inr _, db) \<Rightarrow> let db = other 0 db in
        (case executePayOrderWithWalletTx tabs now ids userId orderId db of
           Inr (answer, db) \<Rightarrow> (Inr answer, db)
         | Inl e \<Rightarrow> let db = other 1 db in
           (case findOrder orderId db of
              Some raced \<Rightarrow> if od_userId raced = userId \<and> od_status raced = SO_PAID
                then (Inr (raced, infraOf orderId db), db)
                else let db = other 2 db in
                  (Inl e, db\<lparr>inventory := snd (releaseInventoryReservationForOrder orderId now (inventory db))\<rparr>)
            | None \<Rightarrow> let db = other 2 db in
                (Inl e, db\<lparr>inventory := snd (releaseInventoryReservationForOrder orderId now (inventory db))\<rparr>))))"

end
