(* ===== verification/InventoryProperties.thy ===== *)
theory InventoryProperties
  imports Inventory
begin

text \<open>
  What the operations of \<open>Inventory\<close> guarantee, in any order and at any instants: the steps of the database, what
  a step does to one server, the life of a server as an abstract machine, and the guarantees for those who buy one.
\<close>

section \<open>One server in the tables\<close>

lemma findItem_id: "findItem i db = Some r \<Longrightarrow> iv_id r = i"
  by (simp add: findItem_def findRow_Some [where p = "\<lambda>r. iv_id r = i", THEN conjunct1])

lemma findItem_mem: "findItem i db = Some r \<Longrightarrow> r \<in> set (items db)"
  by (simp add: findItem_def findRow_Some [where p = "\<lambda>r. iv_id r = i", THEN conjunct2])

lemma credentialOf_item: "credentialOf i db = Some c \<Longrightarrow> ic_inventoryItemId c = i"
  by (simp add: credentialOf_def findRow_Some [where p = "\<lambda>c. ic_inventoryItemId c = i", THEN conjunct1])

lemma credentialOf_mem: "credentialOf i db = Some c \<Longrightarrow> c \<in> set (credentials db)"
  by (simp add: credentialOf_def findRow_Some [where p = "\<lambda>c. ic_inventoryItemId c = i", THEN conjunct2])

named_theorems inventory_view \<open>what an operation leaves of a server and of its secret\<close>

lemma updateRows_byId:
  assumes "\<And>r. iv_id (f r) = iv_id r"
  shows "findRow (\<lambda>r. iv_id r = j) (updateRows (\<lambda>r. iv_id r = i) f t) =
    (if j = i then map_option f (findRow (\<lambda>r. iv_id r = j) t) else findRow (\<lambda>r. iv_id r = j) t)"
  using assms by (induction t) auto

lemma findItem_updateItem:
  assumes "\<And>r. iv_id (f r) = iv_id r"
  shows "findItem j (updateItem i f db) = (if j = i then map_option f (findItem j db) else findItem j db)"
  using updateRows_byId [where f = f, OF assms] by (simp add: findItem_def updateItem_def)

lemma credentialOf_updateItem [inventory_view]: "credentialOf j (updateItem i f db) = credentialOf j db"
  by (simp add: credentialOf_def updateItem_def)

lemma credentials_updateItem [inventory_view]:
  "credentials (updateItem i f db) = credentials db" "instanceCredentials (updateItem i f db) = instanceCredentials db"
  by (simp_all add: updateItem_def)

lemma ids_updateItem:
  "(\<And>r. iv_id (f r) = iv_id r) \<Longrightarrow> map iv_id (items (updateItem i f db)) = map iv_id (items db)"
  by (simp add: updateItem_def map_updateRows)

lemma releasedItem_fields [simp]:
  "iv_id (releasedItem now c r) = iv_id r" "iv_assignedOrderId (releasedItem now c r) = iv_assignedOrderId r"
  "iv_reservedByQuoteId (releasedItem now c r) = None" "iv_reservedByOrderId (releasedItem now c r) = None"
  "iv_reservationExpiresAt (releasedItem now c r) = None"
  "iv_status (releasedItem now c r) \<noteq> IV_RESERVED" "iv_status (releasedItem now c r) \<noteq> IV_ASSIGNED"
  "iv_status (releasedItem now c r) \<noteq> IV_DELIVERED"
  by (simp_all add: releasedItem_def)

lemma not_over_releasedItem [simp]: "\<not> reservationOver now (releasedItem now c r)"
  by (simp add: reservationOver_def)

lemma findItem_releaseCandidate:
  "findItem j (snd (releaseCandidate now i s)) = map_option (\<lambda>r. if j = i \<and> reservationOver now r
     then releasedItem now (credentialOf j (snd s)) r else r) (findItem j (snd s))"
  by (cases s) (auto simp: releaseCandidate_def findItem_updateItem option.map_ident split: option.splits)

lemma rest_releaseCandidate [simp]:
  "credentialOf j (snd (releaseCandidate now i s)) = credentialOf j (snd s)"
  "credentials (snd (releaseCandidate now i s)) = credentials (snd s)"
  "instanceCredentials (snd (releaseCandidate now i s)) = instanceCredentials (snd s)"
  "map iv_id (items (snd (releaseCandidate now i s))) = map iv_id (items (snd s))"
  by (cases s; simp add: releaseCandidate_def inventory_view ids_updateItem split: option.splits)+

lemma rest_releaseCandidates [simp]:
  "credentialOf j (snd (foldl (\<lambda>s i. releaseCandidate now i s) s xs)) = credentialOf j (snd s)"
  "credentials (snd (foldl (\<lambda>s i. releaseCandidate now i s) s xs)) = credentials (snd s)"
  "instanceCredentials (snd (foldl (\<lambda>s i. releaseCandidate now i s) s xs)) = instanceCredentials (snd s)"
  "map iv_id (items (snd (foldl (\<lambda>s i. releaseCandidate now i s) s xs))) = map iv_id (items (snd s))"
  by (induction xs arbitrary: s) simp_all

lemma findItem_releaseCandidates:
  "findItem j (snd (foldl (\<lambda>s i. releaseCandidate now i s) s xs)) =
     map_option (\<lambda>r. if j \<in> set xs \<and> reservationOver now r then releasedItem now (credentialOf j (snd s)) r else r)
       (findItem j (snd s))"
proof (induction xs arbitrary: s)
  case Nil
  then show ?case by (simp add: option.map_ident)
next
  case (Cons i xs)
  show ?case by (simp add: Cons.IH findItem_releaseCandidate option.map_comp o_def) (auto intro: option.map_cong)
qed

lemma findItem_releaseExpired [inventory_view]:
  "findItem j (snd (releaseExpiredInventoryReservationsTx now db)) =
     map_option (\<lambda>r. if reservationOver now r then releasedItem now (credentialOf j db) r else r) (findItem j db)"
proof -
  have "j \<in> iv_id ` {r \<in> set (items db). reservationOver now r}" if "findItem j db = Some r" "reservationOver now r" for r
    using that findItem_id [OF that(1)] findItem_mem [OF that(1)] by (intro image_eqI [where x = r]) auto
  then show ?thesis
    by (auto simp: releaseExpiredInventoryReservationsTx_def findItem_releaseCandidates intro!: option.map_cong)
qed

lemma rest_releaseExpired [inventory_view]:
  "credentialOf j (snd (releaseExpiredInventoryReservationsTx now db)) = credentialOf j db"
  "credentials (snd (releaseExpiredInventoryReservationsTx now db)) = credentials db"
  "instanceCredentials (snd (releaseExpiredInventoryReservationsTx now db)) = instanceCredentials db"
  "map iv_id (items (snd (releaseExpiredInventoryReservationsTx now db))) = map iv_id (items db)"
  by (simp_all add: releaseExpiredInventoryReservationsTx_def)

section \<open>The steps\<close>

text \<open>
  Every committed transaction, at any instant. The generated keys are new, and the id of an order is not empty.
\<close>

inductive inventoryStep :: "InventoryDb \<Rightarrow> InventoryDb \<Rightarrow> bool" where
  expired: "inventoryStep db (snd (releaseExpiredInventoryReservationsTx now db))"
| cancelled: "inventoryStep db (snd (releaseInventoryReservationForOrder orderId now db))"
| quoteExpired: "inventoryStep db (releaseInventoryOfExpiredQuote quoteId now db)"
| offered: "lockAvailableInventoryTx ex now db = Inr (r, db') \<Longrightarrow> inventoryStep db db'"
| quoted: "reserveLockedInventoryForQuoteTx i quoteId revn expiresAt now db = Inr db' \<Longrightarrow> inventoryStep db db'"
| ordered: "bindInventoryReservationToOrderTx i quoteId orderId revn ex now db = Inr (r, db') \<Longrightarrow> inventoryStep db db'"
| dispatched: "dispatchReservedInventoryTx ord instanceId now db = Inr (n, db') \<Longrightarrow> dp_serviceOrderId ord \<noteq> '''' \<Longrightarrow>
    inventoryStep db db'"
| unreachable: "inventoryStep db (itemUnreachable i orderId now db)"
| reachable: "inventoryStep db (itemReachable i orderId now db)"
| delivered: "inventoryStep db (itemDelivered i orderId now db)"
| stored: "storePreprovisionedInventoryCredential vault newId i actor name secret now db = Inr (c, db') \<Longrightarrow>
    newId \<notin> ic_id ` set (credentials db) \<Longrightarrow> inventoryStep db db'"
| observed: "observeAndRegisterPreprovisionedInventory newId plan resource probe now db = Inr db' \<Longrightarrow> inventoryStep db db'"

text \<open>What a step may do to one server and its secret.\<close>

inductive serverMove :: "InventoryItem \<Rightarrow> CredentialRow option \<Rightarrow> InventoryItem \<Rightarrow> CredentialRow option \<Rightarrow> bool" where
  unmoved: "serverMove r c r c"
| released: "iv_status r = IV_RESERVED \<Longrightarrow> iv_assignedOrderId r = None \<Longrightarrow> serverMove r c (releasedItem now c r) c"
| reserved: "fst (assessPreprovisionedInventoryEligibility r c (ownSelection r) ForAvailable now) \<Longrightarrow>
    serverMove r c (r\<lparr>iv_status := IV_RESERVED, iv_reservedByQuoteId := Some q, iv_reservedRevision := Some revn,
      iv_reservationExpiresAt := Some t\<rparr>) c"
| bound: "fst (assessPreprovisionedInventoryEligibility r c ex (ForQuote q) now) \<Longrightarrow>
    serverMove r c (r\<lparr>iv_reservedByOrderId := Some ord, iv_reservedRevision := Some revn\<rparr>) c"
| sold: "fst (assessPreprovisionedInventoryEligibility r (Some c) (ownSelection r) (ForOrder q ord revn) now) \<Longrightarrow> ord \<noteq> '''' \<Longrightarrow>
    serverMove r (Some c) (r\<lparr>iv_status := IV_ASSIGNED, iv_assignedOrderId := Some ord, iv_reservationExpiresAt := None\<rparr>)
      (Some (c\<lparr>ic_status := CRED_TRANSFERRED, ic_transferredAt := Some now\<rparr>))"
| checked: "iv_assignedOrderId r = Some ord \<Longrightarrow> st = IV_UNHEALTHY \<or> st = IV_ASSIGNED \<or> st = IV_DELIVERED \<Longrightarrow>
    serverMove r c (r\<lparr>iv_status := st, iv_healthStatus := h, iv_lastHealthCheckedAt := Some now\<rparr>) c"
| secured: "iv_assignedOrderId r = None \<Longrightarrow> iv_status r \<noteq> IV_RESERVED \<Longrightarrow> \<not> credentialStatusIs c CRED_TRANSFERRED \<Longrightarrow>
    st = IV_AVAILABLE \<or> st = IV_UNHEALTHY \<or> st = IV_STALE \<Longrightarrow> ic_status c' = CRED_READY \<Longrightarrow> ic_transferredAt c' = None \<Longrightarrow>
    serverMove r c (r\<lparr>iv_status := st\<rparr>) (Some c')"
| reobserved: "\<not> present (iv_assignedOrderId r) \<Longrightarrow> iv_status r \<noteq> IV_RESERVED \<Longrightarrow> iv_status r \<noteq> IV_DELIVERED \<Longrightarrow>
    st = IV_AVAILABLE \<or> st = IV_UNHEALTHY \<or> st = IV_STALE \<Longrightarrow>
    serverMove r c (observedItem p catalogItemId resource reach st now r) c"

inductive_cases serverMoveE: "serverMove r c r' c'"

lemma eligible_available:
  "fst (assessPreprovisionedInventoryEligibility r c ex ForAvailable now) \<longleftrightarrow> mappingMatches r ex \<and>
     isPreprovisionedInventoryFresh r now \<and> credentialReady c \<and> iv_status r = IV_AVAILABLE \<and>
     iv_assignedOrderId r = None \<and> iv_reservedByQuoteId r = None \<and> iv_reservedByOrderId r = None"
  by (auto simp: assessPreprovisionedInventoryEligibility_def)

lemma eligible_quote:
  "fst (assessPreprovisionedInventoryEligibility r c ex (ForQuote q) now) \<longleftrightarrow> mappingMatches r ex \<and>
     isPreprovisionedInventoryFresh r now \<and> credentialReady c \<and> iv_status r = IV_RESERVED \<and>
     iv_reservedByQuoteId r = Some q \<and> iv_reservedByOrderId r = None \<and> iv_assignedOrderId r = None \<and>
     expiresAfter (iv_reservationExpiresAt r) now"
  by (auto simp: assessPreprovisionedInventoryEligibility_def)

lemma eligible_order:
  "fst (assessPreprovisionedInventoryEligibility r c ex (ForOrder q ord revn) now) \<longleftrightarrow> mappingMatches r ex \<and>
     isPreprovisionedInventoryFresh r now \<and> credentialReady c \<and> iv_status r = IV_RESERVED \<and>
     iv_reservedByQuoteId r = Some q \<and> iv_reservedByOrderId r = Some ord \<and> iv_reservedRevision r = Some revn \<and>
     iv_assignedOrderId r = None \<and> expiresAfter (iv_reservationExpiresAt r) now"
  by (auto simp: assessPreprovisionedInventoryEligibility_def)

lemma eligible_assigned:
  "fst (assessPreprovisionedInventoryEligibility r c ex (ForAssigned ord) now) \<longleftrightarrow> mappingMatches r ex \<and>
     isPreprovisionedInventoryFresh r now \<and> iv_status r = IV_ASSIGNED \<and> iv_assignedOrderId r = Some ord \<and>
     credentialStatusIs c CRED_TRANSFERRED"
  by (auto simp: assessPreprovisionedInventoryEligibility_def)

lemmas eligibility = eligible_available eligible_quote eligible_order eligible_assigned

text \<open>The keys of the tables.\<close>

definition inventoryKeys :: "InventoryDb \<Rightarrow> bool" where
  "inventoryKeys db \<longleftrightarrow> distinct (map iv_id (items db)) \<and> distinct (map ic_id (credentials db)) \<and>
     distinct (map ic_inventoryItemId (credentials db))"

lemma observedItem_id [simp]: "iv_id (observedItem p k rs reach st now r) = iv_id r"
  by (simp add: observedItem_def)

lemma blankItem_id [simp]: "iv_id (blankItem i p k now) = i"
  by (simp add: blankItem_def)

lemma storedCredential_simps [simp]:
  "ic_id (storedCredential v n i u s a) = n" "ic_inventoryItemId (storedCredential v n i u s a) = i"
  "ic_status (storedCredential v n i u s a) = CRED_READY" "ic_transferredAt (storedCredential v n i u s a) = None"
  by (simp_all add: storedCredential_def)

section \<open>What the operations write\<close>

lemma credential_key_eq:
  "inventoryKeys db \<Longrightarrow> c \<in> set (credentials db) \<Longrightarrow> d \<in> set (credentials db) \<Longrightarrow> ic_id c = ic_id d \<Longrightarrow> c = d"
  by (auto simp: inventoryKeys_def dest: distinct_key_eq)

lemma credentialOf_unique:
  "inventoryKeys db \<Longrightarrow> c \<in> set (credentials db) \<Longrightarrow> credentialOf (ic_inventoryItemId c) db = Some c"
  by (simp add: inventoryKeys_def credentialOf_def findRow_unique)

lemma findItem_unique: "inventoryKeys db \<Longrightarrow> r \<in> set (items db) \<Longrightarrow> findItem (iv_id r) db = Some r"
  by (simp add: inventoryKeys_def findItem_def findRow_unique)

lemma findRow_handed:
  assumes "\<And>x. x \<in> set t \<Longrightarrow> p x \<longleftrightarrow> x = c"
  shows "findRow (\<lambda>x. ic_inventoryItemId x = j) (updateRows p (\<lambda>x. x\<lparr>ic_status := s, ic_transferredAt := m\<rparr>) t) =
    map_option (\<lambda>x. if x = c then x\<lparr>ic_status := s, ic_transferredAt := m\<rparr> else x) (findRow (\<lambda>x. ic_inventoryItemId x = j) t)"
  using assms by (induction t) auto

lemma transfer_Inr:
  assumes run: "transferInventoryCredentialToInstanceTx i instanceId now db = Inr (n, db')" and keys: "inventoryKeys db"
  shows "\<exists>c. credentialOf i db = Some c \<and> ic_status c = CRED_READY \<and> n = instanceCredential instanceId c now \<and>
    items db' = items db \<and> instanceCredentials db' = instanceCredentials db @ [n] \<and>
    map ic_id (credentials db') = map ic_id (credentials db) \<and>
    map ic_inventoryItemId (credentials db') = map ic_inventoryItemId (credentials db) \<and>
    (\<forall>j. credentialOf j db' = (if j = i then Some (c\<lparr>ic_status := CRED_TRANSFERRED, ic_transferredAt := Some now\<rparr>)
      else credentialOf j db))"
proof -
  obtain c where c: "credentialOf i db = Some c" using run
    by (auto simp: transferInventoryCredentialToInstanceTx_def split: option.splits)
  have db': "db' = db\<lparr>instanceCredentials := instanceCredentials db @ [n], credentials := updateRows (\<lambda>x. ic_id x = ic_id c)
        (\<lambda>x. x\<lparr>ic_status := CRED_TRANSFERRED, ic_transferredAt := Some now\<rparr>) (credentials db)\<rparr>"
    and n: "n = instanceCredential instanceId c now" and ready: "ic_status c = CRED_READY"
    using run c by (auto simp: transferInventoryCredentialToInstanceTx_def Let_def split: if_splits)
  have one: "ic_id x = ic_id c \<longleftrightarrow> x = c" if "x \<in> set (credentials db)" for x
    using credential_key_eq [OF keys that credentialOf_mem [OF c]] by auto
  have other: "x = c \<longleftrightarrow> j = i" if "credentialOf j db = Some x" for x j
  proof
    assume "x = c"
    then show "j = i" using credentialOf_item [OF that] credentialOf_item [OF c] by simp
  next
    assume "j = i"
    then show "x = c" using that c by simp
  qed
  have "credentialOf j db' = (if j = i then Some (c\<lparr>ic_status := CRED_TRANSFERRED, ic_transferredAt := Some now\<rparr>)
      else credentialOf j db)" for j
    using findRow_handed [where t = "credentials db" and c = c and p = "\<lambda>x. ic_id x = ic_id c" and j = j, OF one] other [of j] c
    by (cases "credentialOf j db") (auto simp: db' credentialOf_def)
  then show ?thesis using c ready n by (simp add: db' map_updateRows)
qed

lemma assign_Inr:
  assumes "assignReservedInventoryTx i q ord revn now db = Inr db'"
  shows "\<exists>r. findItem i db = Some r \<and> eligibleFor r (ownSelection r) (ForOrder q ord revn) now db \<and>
    db' = updateItem i (\<lambda>r. r\<lparr>iv_status := IV_ASSIGNED, iv_assignedOrderId := Some ord, iv_reservationExpiresAt := None\<rparr>) db"
  using assms by (auto simp: assignReservedInventoryTx_def split: option.splits if_splits)

lemma inventoryKeys_updateItem:
  "(\<And>r. iv_id (f r) = iv_id r) \<Longrightarrow> inventoryKeys (updateItem i f db) = inventoryKeys db"
  by (simp add: inventoryKeys_def ids_updateItem inventory_view)

lemma dispatch_Inr:
  assumes run: "dispatchReservedInventoryTx ord instanceId now db = Inr (n, db')" and keys: "inventoryKeys db"
  shows "\<exists>i r c q revn. dp_inventoryItemId ord = Some i \<and> findItem i db = Some r \<and> credentialOf i db = Some c \<and>
    eligibleFor r (ownSelection r) (ForOrder q (dp_serviceOrderId ord) revn) now db \<and> ic_status c = CRED_READY \<and>
    n = instanceCredential instanceId c now \<and> inventoryKeys db' \<and>
    (\<forall>j. findItem j db' = (if j = i then Some (r\<lparr>iv_status := IV_ASSIGNED, iv_assignedOrderId := Some (dp_serviceOrderId ord),
        iv_reservationExpiresAt := None\<rparr>) else findItem j db)) \<and>
    (\<forall>j. credentialOf j db' = (if j = i then Some (c\<lparr>ic_status := CRED_TRANSFERRED, ic_transferredAt := Some now\<rparr>)
      else credentialOf j db))"
proof -
  obtain i r q revn where i: "dp_inventoryItemId ord = Some i" "findItem i db = Some r"
    and both: "bindE (assignReservedInventoryTx (iv_id r) q (dp_serviceOrderId ord) revn now db)
      (transferInventoryCredentialToInstanceTx (iv_id r) instanceId now) = Inr (n, db')"
    using run by (auto simp: dispatchReservedInventoryTx_def split: option.splits if_splits)
  note id = findItem_id [OF i(2)]
  obtain db1 where a: "assignReservedInventoryTx i q (dp_serviceOrderId ord) revn now db = Inr db1"
    and t: "transferInventoryCredentialToInstanceTx i instanceId now db1 = Inr (n, db')"
    using both id by (auto simp: bindE_eq_Inr)
  let ?f = "\<lambda>r. r\<lparr>iv_status := IV_ASSIGNED, iv_assignedOrderId := Some (dp_serviceOrderId ord), iv_reservationExpiresAt := None\<rparr>"
  have db1: "db1 = updateItem i ?f db" and el: "eligibleFor r (ownSelection r) (ForOrder q (dp_serviceOrderId ord) revn) now db"
    using assign_Inr [OF a] i(2) by auto
  have keys1: "inventoryKeys db1" using keys by (simp add: db1 inventoryKeys_updateItem)
  obtain c where c: "credentialOf i db1 = Some c" "ic_status c = CRED_READY" "n = instanceCredential instanceId c now"
      "items db' = items db1" "map ic_id (credentials db') = map ic_id (credentials db1)"
      "map ic_inventoryItemId (credentials db') = map ic_inventoryItemId (credentials db1)"
      "\<forall>j. credentialOf j db' = (if j = i then Some (c\<lparr>ic_status := CRED_TRANSFERRED, ic_transferredAt := Some now\<rparr>)
      else credentialOf j db1)"
    using transfer_Inr [OF t keys1] by (elim exE conjE) simp
  have "findItem j db' = findItem j db1" for j using c(4) by (simp add: findItem_def)
  moreover have "inventoryKeys db'" using keys1 c(4-6) by (simp add: inventoryKeys_def)
  ultimately show ?thesis
    using i el c(1,2,3,7) by (intro exI [of _ i] exI [of _ r] exI [of _ c] exI [of _ q] exI [of _ revn])
      (simp add: db1 findItem_updateItem inventory_view)
qed

lemma releaseForOrder_view:
  assumes run: "releaseInventoryReservationForOrder ord now db \<noteq> (False, db)" and keys: "inventoryKeys db"
  shows "\<exists>i r. findItem i db = Some r \<and> iv_status r = IV_RESERVED \<and> iv_assignedOrderId r = None \<and>
     releaseInventoryReservationForOrder ord now db = (True, updateItem i (releasedItem now (credentialOf i db)) db)"
proof -
  obtain r where r: "findRow (\<lambda>r. iv_reservedByOrderId r = Some ord) (items db) = Some r"
      "iv_status r = IV_RESERVED" "iv_assignedOrderId r = None"
    using run by (auto simp: releaseInventoryReservationForOrder_def split: option.splits if_splits)
  have "findItem (iv_id r) db = Some r" using findItem_unique [OF keys] findRow_Some [OF r(1)] by simp
  then show ?thesis using r by (intro exI [of _ "iv_id r"] exI [of _ r]) (simp add: releaseInventoryReservationForOrder_def)
qed

lemma releaseForQuote_view:
  assumes run: "releaseInventoryOfExpiredQuote q now db \<noteq> db" and keys: "inventoryKeys db"
  shows "\<exists>i r. findItem i db = Some r \<and> iv_status r = IV_RESERVED \<and> iv_assignedOrderId r = None \<and>
     releaseInventoryOfExpiredQuote q now db = updateItem i (releasedItem now (credentialOf i db)) db"
proof -
  obtain r where r: "findRow (\<lambda>r. iv_reservedByQuoteId r = Some q) (items db) = Some r"
      "iv_status r = IV_RESERVED" "iv_assignedOrderId r = None"
    using run by (auto simp: releaseInventoryOfExpiredQuote_def split: option.splits if_splits)
  have "findItem (iv_id r) db = Some r" using findItem_unique [OF keys] findRow_Some [OF r(1)] by simp
  then show ?thesis using r by (intro exI [of _ "iv_id r"] exI [of _ r]) (simp add: releaseInventoryOfExpiredQuote_def)
qed

lemma lockAvailable_Inr:
  "lockAvailableInventoryTx ex now db = Inr (r, db') \<Longrightarrow> db' = snd (releaseExpiredInventoryReservationsTx now db) \<and>
     r \<in> set (items db') \<and> eligibleFor r ex ForAvailable now db'"
  by (auto simp: lockAvailableInventoryTx_def Let_def split: option.splits dest!: findRow_Some)

lemma reserve_Inr:
  "reserveLockedInventoryForQuoteTx i q revn t now db = Inr db' \<Longrightarrow> \<exists>r. findItem i db = Some r \<and>
     eligibleFor r (ownSelection r) ForAvailable now db \<and>
     \<not> (\<exists>r \<in> set (items db). iv_reservedByQuoteId r = Some q \<and> iv_id r \<noteq> i) \<and>
     db' = updateItem i (\<lambda>r. r\<lparr>iv_status := IV_RESERVED, iv_reservedByQuoteId := Some q, iv_reservedRevision := Some revn,
       iv_reservationExpiresAt := Some t\<rparr>) db"
  by (simp add: reserveLockedInventoryForQuoteTx_def split: option.splits if_splits)

lemma bind_Inr:
  "bindInventoryReservationToOrderTx i q ord revn ex now db = Inr (r, db') \<Longrightarrow> findItem i db = Some r \<and>
     eligibleFor r ex (ForQuote q) now db \<and>
     \<not> (\<exists>r \<in> set (items db). iv_reservedByOrderId r = Some ord \<and> iv_id r \<noteq> i) \<and>
     db' = updateItem i (\<lambda>r. r\<lparr>iv_reservedByOrderId := Some ord, iv_reservedRevision := Some revn\<rparr>) db"
  by (simp add: bindInventoryReservationToOrderTx_def split: option.splits if_splits)

lemma findItem_recordItemHealth:
  "findItem j (recordItemHealth i ord st h now db) = map_option (\<lambda>r. if j = i \<and> iv_assignedOrderId r = Some ord
     then r\<lparr>iv_status := st, iv_healthStatus := h, iv_lastHealthCheckedAt := Some now\<rparr> else r) (findItem j db)"
proof -
  let ?f = "\<lambda>r. r\<lparr>iv_status := st, iv_healthStatus := h, iv_lastHealthCheckedAt := Some now\<rparr>"
  have "findRow (\<lambda>r. iv_id r = j) (updateRows (\<lambda>r. iv_id r = i \<and> iv_assignedOrderId r = Some ord) ?f t) =
    map_option (\<lambda>r. if j = i \<and> iv_assignedOrderId r = Some ord then ?f r else r) (findRow (\<lambda>r. iv_id r = j) t)" for t
    by (induction t) auto
  then show ?thesis by (simp add: findItem_def recordItemHealth_def)
qed

lemma rest_recordItemHealth [simp]:
  "credentialOf j (recordItemHealth i ord st h now db) = credentialOf j db"
  "inventoryKeys (recordItemHealth i ord st h now db) = inventoryKeys db"
  by (simp_all add: recordItemHealth_def credentialOf_def inventoryKeys_def map_updateRows)

lemma upsert_credentials:
  assumes "ic_inventoryItemId new = i" and "inventoryKeys db" and "ic_id new \<notin> ic_id ` set (credentials db)"
  shows "credentialOf j (db\<lparr>credentials := upsertRow ic_inventoryItemId new (\<lambda>c. new\<lparr>ic_id := ic_id c\<rparr>) (credentials db)\<rparr>) =
      (if j = i then Some (case credentialOf i db of None \<Rightarrow> new | Some c \<Rightarrow> new\<lparr>ic_id := ic_id c\<rparr>) else credentialOf j db)"
    and "inventoryKeys (db\<lparr>credentials := upsertRow ic_inventoryItemId new (\<lambda>c. new\<lparr>ic_id := ic_id c\<rparr>) (credentials db)\<rparr>)"
proof -
  have upd: "findRow (\<lambda>c. ic_inventoryItemId c = j) (updateRows (\<lambda>r. ic_inventoryItemId r = i) (\<lambda>c. new\<lparr>ic_id := ic_id c\<rparr>) t) =
      (if j = i then map_option (\<lambda>c. new\<lparr>ic_id := ic_id c\<rparr>) (findRow (\<lambda>c. ic_inventoryItemId c = j) t)
       else findRow (\<lambda>c. ic_inventoryItemId c = j) t)" for t j
    using assms(1) by (induction t) auto
  have none: "(\<exists>r \<in> set t. ic_inventoryItemId r = i) \<longleftrightarrow> findRow (\<lambda>c. ic_inventoryItemId c = i) t \<noteq> None" for t
    by (simp add: findRow_None)
  show "credentialOf j (db\<lparr>credentials := upsertRow ic_inventoryItemId new (\<lambda>c. new\<lparr>ic_id := ic_id c\<rparr>) (credentials db)\<rparr>) =
      (if j = i then Some (case credentialOf i db of None \<Rightarrow> new | Some c \<Rightarrow> new\<lparr>ic_id := ic_id c\<rparr>) else credentialOf j db)"
    using assms(1) none [of "credentials db"] upd
    by (cases "credentialOf i db") (auto simp: credentialOf_def upsertRow_def findRow_append split: option.splits)
  have "map ic_inventoryItemId (updateRows (\<lambda>r. ic_inventoryItemId r = i) (\<lambda>c. new\<lparr>ic_id := ic_id c\<rparr>) t) = map ic_inventoryItemId t" for t
    using assms(1) by (induction t) auto
  then show "inventoryKeys (db\<lparr>credentials := upsertRow ic_inventoryItemId new (\<lambda>c. new\<lparr>ic_id := ic_id c\<rparr>) (credentials db)\<rparr>)"
    using assms by (auto simp: inventoryKeys_def upsertRow_def map_updateRows)
qed

lemma store_Inr:
  assumes run: "storePreprovisionedInventoryCredential vault newId i actor name secret now db = Inr (c, db')"
  shows "\<exists>r st new. findItem i db = Some r \<and> iv_assignedOrderId r = None \<and> iv_status r \<noteq> IV_RESERVED \<and>
    \<not> credentialStatusIs (credentialOf i db) CRED_TRANSFERRED \<and> (st = IV_AVAILABLE \<or> st = IV_UNHEALTHY \<or> st = IV_STALE) \<and>
    ic_id new = newId \<and> ic_inventoryItemId new = i \<and> ic_status new = CRED_READY \<and> ic_transferredAt new = None \<and>
    db' = updateItem i (\<lambda>r. r\<lparr>iv_status := st\<rparr>)
      (db\<lparr>credentials := upsertRow ic_inventoryItemId new (\<lambda>c. new\<lparr>ic_id := ic_id c\<rparr>) (credentials db)\<rparr>)"
proof -
  obtain r where r: "findItem i db = Some r" using run
    by (auto simp: storePreprovisionedInventoryCredential_def Let_def split: if_splits option.splits)
  let ?st = "if isPreprovisionedInventoryFresh r now then IV_AVAILABLE else if iv_healthStatus r = UNHEALTHY then IV_UNHEALTHY else IV_STALE"
  let ?new = "storedCredential vault newId i (trim name) secret actor"
  have "iv_assignedOrderId r = None \<and> iv_status r \<noteq> IV_RESERVED \<and> \<not> credentialStatusIs (credentialOf i db) CRED_TRANSFERRED \<and>
     db' = updateItem i (\<lambda>r. r\<lparr>iv_status := ?st\<rparr>)
      (db\<lparr>credentials := upsertRow ic_inventoryItemId ?new (\<lambda>c. ?new\<lparr>ic_id := ic_id c\<rparr>) (credentials db)\<rparr>)"
    using run r by (simp add: storePreprovisionedInventoryCredential_def Let_def split: if_split_asm)
  then show ?thesis using r by (intro exI [of _ r] exI [of _ ?st] exI [of _ ?new]) simp
qed

lemma register_Inr:
  assumes run: "registerResourceTx newId p k rs reach now db = Inr db'" and keys: "inventoryKeys db"
  shows "(\<exists>i r st. findItem i db = Some r \<and> \<not> present (iv_assignedOrderId r) \<and> iv_status r \<noteq> IV_RESERVED \<and>
      iv_status r \<noteq> IV_DELIVERED \<and> (st = IV_AVAILABLE \<or> st = IV_UNHEALTHY \<or> st = IV_STALE) \<and>
      db' = updateItem i (observedItem p k rs reach st now) db) \<or>
    (newId \<notin> iv_id ` set (items db) \<and> (\<exists>st. (st = IV_UNHEALTHY \<or> st = IV_STALE) \<and>
      db' = db\<lparr>items := items db @ [observedItem p k rs reach st now (blankItem newId p (rs_id rs) now)]\<rparr>))"
proof (cases "findRow (sameResource p (rs_id rs)) (items db)")
  case None
  then show ?thesis using run by (auto simp: registerResourceTx_def split: if_splits)
next
  case (Some r)
  let ?st = "if \<not> reach then IV_UNHEALTHY else if credentialStatusIs (credentialOf (iv_id r) db) CRED_READY then IV_AVAILABLE
    else IV_STALE"
  have "findItem (iv_id r) db = Some r" using findItem_unique [OF keys] findRow_Some [OF Some] by simp
  moreover have "\<not> present (iv_assignedOrderId r) \<and> iv_status r \<noteq> IV_RESERVED \<and> iv_status r \<noteq> IV_DELIVERED \<and>
      db' = updateItem (iv_id r) (observedItem p k rs reach ?st now) db"
    using run Some by (simp add: registerResourceTx_def split: if_split_asm)
  ultimately show ?thesis by (intro disjI1 exI [of _ "iv_id r"] exI [of _ r] exI [of _ ?st]) simp
qed

lemma observe_Inr:
  "observeAndRegisterPreprovisionedInventory newId plan resource probe now db = Inr db' \<Longrightarrow>
     \<exists>p k rs reach. registerResourceTx newId p k rs reach now db = Inr db'"
  by (clarsimp simp: observeAndRegisterPreprovisionedInventory_def Let_def split: option.splits if_splits) (intro exI, assumption)

section \<open>What a step does to a server\<close>

lemma update_moves:
  assumes "findItem k db = Some s" and "\<And>r. iv_id (f r) = iv_id r"
    and "serverMove s (credentialOf k db) (f s) (credentialOf k db)" and "findItem i db = Some r"
  shows "\<exists>r'. findItem i (updateItem k f db) = Some r' \<and>
    serverMove r (credentialOf i db) r' (credentialOf i (updateItem k f db))"
  using assms by (cases "i = k") (simp_all add: findItem_updateItem inventory_view serverMove.unmoved)

lemma over_status: "reservationOver now r \<Longrightarrow> iv_status r = IV_RESERVED \<and> iv_assignedOrderId r = None"
  by (simp add: reservationOver_def)

lemma release_moves:
  assumes "findItem i db = Some r" and "db' = snd (releaseExpiredInventoryReservationsTx now db)"
  shows "\<exists>r'. findItem i db' = Some r' \<and> serverMove r (credentialOf i db) r' (credentialOf i db')"
  using assms over_status [of now r]
  by (simp add: inventory_view serverMove.unmoved serverMove.released)

lemma health_moves:
  assumes "findItem i db = Some r" and "st = IV_UNHEALTHY \<or> st = IV_ASSIGNED \<or> st = IV_DELIVERED"
  shows "\<exists>r'. findItem i (recordItemHealth k ord st h now db) = Some r' \<and>
    serverMove r (credentialOf i db) r' (credentialOf i (recordItemHealth k ord st h now db))"
  using assms by (simp add: findItem_recordItemHealth serverMove.unmoved serverMove.checked)

lemma step_move:
  assumes "inventoryStep db db'" and "inventoryKeys db" and "findItem i db = Some r"
  shows "\<exists>r'. findItem i db' = Some r' \<and> serverMove r (credentialOf i db) r' (credentialOf i db')"
  using assms
proof (cases rule: inventoryStep.cases)
  case (expired now)
  then show ?thesis using release_moves assms(3) by simp
next
  case (cancelled ord now)
  show ?thesis
  proof (cases "releaseInventoryReservationForOrder ord now db = (False, db)")
    case True
    then show ?thesis using cancelled assms(3) serverMove.unmoved by simp
  next
    case False
    from releaseForOrder_view [OF False assms(2)] show ?thesis using cancelled assms(3)
      by (elim exE conjE) (simp add: update_moves serverMove.released)
  qed
next
  case (quoteExpired q now)
  show ?thesis
  proof (cases "releaseInventoryOfExpiredQuote q now db = db")
    case True
    then show ?thesis using quoteExpired assms(3) serverMove.unmoved by simp
  next
    case False
    from releaseForQuote_view [OF False assms(2)] show ?thesis using quoteExpired assms(3)
      by (elim exE conjE) (simp add: update_moves serverMove.released)
  qed
next
  case (offered ex now s)
  then show ?thesis using release_moves [OF assms(3)] lockAvailable_Inr by blast
next
  case (quoted k q revn t now)
  from reserve_Inr [OF quoted(1)] show ?thesis using assms(3)
    by (elim exE conjE) (simp add: update_moves serverMove.reserved eligibleFor_def findItem_id)
next
  case (ordered k q ord revn ex now s)
  from bind_Inr [OF ordered(1)] show ?thesis using assms(3)
    by (elim exE conjE) (simp add: update_moves serverMove.bound [where ex = ex and q = q] eligibleFor_def findItem_id)
next
  case (dispatched ord instanceId now n)
  from dispatch_Inr [OF dispatched(1) assms(2)] show ?thesis
  proof (elim exE conjE)
    fix k s c q revn
    assume k: "findItem k db = Some s" "credentialOf k db = Some c"
      and el: "eligibleFor s (ownSelection s) (ForOrder q (dp_serviceOrderId ord) revn) now db"
      and new: "\<forall>j. findItem j db' = (if j = k then Some (s\<lparr>iv_status := IV_ASSIGNED,
          iv_assignedOrderId := Some (dp_serviceOrderId ord), iv_reservationExpiresAt := None\<rparr>) else findItem j db)"
        "\<forall>j. credentialOf j db' = (if j = k then Some (c\<lparr>ic_status := CRED_TRANSFERRED, ic_transferredAt := Some now\<rparr>)
          else credentialOf j db)"
    show ?thesis
    proof (cases "i = k")
      case True
      have "s = r" using True k(1) assms(3) by simp
      then show ?thesis using True k el new dispatched(2) findItem_id [OF k(1)]
        by (simp add: serverMove.sold [where q = q and revn = revn] eligibleFor_def)
    next
      case False
      then show ?thesis using new assms(3) serverMove.unmoved by simp
    qed
  qed
next
  case (unreachable k ord now)
  then show ?thesis using health_moves assms(3) by (simp add: itemUnreachable_def)
next
  case (reachable k ord now)
  then show ?thesis using health_moves assms(3) by (simp add: itemReachable_def)
next
  case (delivered k ord now)
  then show ?thesis using health_moves assms(3) by (simp add: itemDelivered_def)
next
  case (stored vault newId k actor name secret now c)
  from store_Inr [OF stored(1)] show ?thesis
  proof (elim exE conjE)
    fix s st new
    let ?db = "db\<lparr>credentials := upsertRow ic_inventoryItemId new (\<lambda>c. new\<lparr>ic_id := ic_id c\<rparr>) (credentials db)\<rparr>"
    assume s: "findItem k db = Some s" "iv_assignedOrderId s = None" "iv_status s \<noteq> IV_RESERVED"
        "\<not> credentialStatusIs (credentialOf k db) CRED_TRANSFERRED" "st = IV_AVAILABLE \<or> st = IV_UNHEALTHY \<or> st = IV_STALE"
      and new: "ic_id new = newId" "ic_inventoryItemId new = k" "ic_status new = CRED_READY" "ic_transferredAt new = None"
      and db': "db' = updateItem k (\<lambda>r. r\<lparr>iv_status := st\<rparr>) ?db"
    have c: "credentialOf j db' = (if j = k then Some (case credentialOf k db of None \<Rightarrow> new | Some c \<Rightarrow> new\<lparr>ic_id := ic_id c\<rparr>)
        else credentialOf j db)" for j
      using upsert_credentials(1) [OF new(2) assms(2)] stored(2) new(1) by (simp add: db' inventory_view)
    have f: "findItem j db' = (if j = k then map_option (\<lambda>r. r\<lparr>iv_status := st\<rparr>) (findItem j db) else findItem j db)" for j
      by (simp add: db' findItem_updateItem) (simp add: findItem_def)
    show ?thesis
    proof (cases "i = k")
      case True
      have "s = r" using True s(1) assms(3) by simp
      then show ?thesis using True s new by (cases "credentialOf k db") (simp_all add: f c serverMove.secured)
    next
      case False
      then show ?thesis using f c assms(3) serverMove.unmoved by simp
    qed
  qed
next
  case (observed newId plan resource probe now)
  then obtain p k rs reach where "registerResourceTx newId p k rs reach now db = Inr db'" using observe_Inr by blast
  from register_Inr [OF this assms(2)] show ?thesis
  proof (elim disjE)
    assume "\<exists>i r st. findItem i db = Some r \<and> \<not> present (iv_assignedOrderId r) \<and> iv_status r \<noteq> IV_RESERVED \<and>
      iv_status r \<noteq> IV_DELIVERED \<and> (st = IV_AVAILABLE \<or> st = IV_UNHEALTHY \<or> st = IV_STALE) \<and>
      db' = updateItem i (observedItem p k rs reach st now) db"
    then show ?thesis using assms(3) by (elim exE conjE) (simp add: update_moves serverMove.reobserved)
  next
    assume "newId \<notin> iv_id ` set (items db) \<and> (\<exists>st. (st = IV_UNHEALTHY \<or> st = IV_STALE) \<and>
      db' = db\<lparr>items := items db @ [observedItem p k rs reach st now (blankItem newId p (rs_id rs) now)]\<rparr>)"
    then show ?thesis using assms(3)
      by (elim exE conjE) (simp add: findItem_def findRow_append credentialOf_def serverMove.unmoved)
  qed
qed

lemma step_keys: "inventoryStep db db' \<Longrightarrow> inventoryKeys db \<Longrightarrow> inventoryKeys db'"
proof (induction rule: inventoryStep.induct)
  case (expired db now)
  then show ?case by (simp add: inventoryKeys_def inventory_view)
next
  case (cancelled db ord now)
  then show ?case using releaseForOrder_view [of ord now db]
    by (cases "releaseInventoryReservationForOrder ord now db = (False, db)") (auto simp: inventoryKeys_updateItem)
next
  case (quoteExpired db q now)
  then show ?case using releaseForQuote_view [of q now db]
    by (cases "releaseInventoryOfExpiredQuote q now db = db") (auto simp: inventoryKeys_updateItem)
next
  case (offered ex now db r db')
  then show ?case using lockAvailable_Inr [of ex now db r db'] by (simp add: inventoryKeys_def inventory_view)
next
  case (quoted i q revn t now db db')
  from reserve_Inr [OF quoted(1)] show ?case using quoted(2) by (elim exE conjE) (simp add: inventoryKeys_updateItem)
next
  case (ordered i q ord revn ex now db r db')
  from bind_Inr [OF ordered(1)] show ?case using ordered(2) by (simp add: inventoryKeys_updateItem)
next
  case (dispatched ord instanceId now db n db')
  from dispatch_Inr [OF dispatched(1,3)] show ?case by (elim exE conjE)
next
  case (stored vault newId i actor name secret now db c db')
  from store_Inr [OF stored(1)] show ?case using stored(2,3)
    by (elim exE conjE) (simp add: inventoryKeys_updateItem upsert_credentials(2))
next
  case (observed newId plan resource probe now db db')
  then obtain p k rs reach where "registerResourceTx newId p k rs reach now db = Inr db'" using observe_Inr by blast
  from register_Inr [OF this observed(2)] show ?case using observed(2)
    by (elim disjE exE conjE) (simp_all add: inventoryKeys_updateItem, simp_all add: inventoryKeys_def)
qed (simp_all add: itemUnreachable_def itemReachable_def itemDelivered_def)

text \<open>A server a step adds is not held by anyone.\<close>

lemma observedItem_simps [simp]:
  "iv_reservedByQuoteId (observedItem p k rs reach st now r) = iv_reservedByQuoteId r"
  "iv_reservedByOrderId (observedItem p k rs reach st now r) = iv_reservedByOrderId r"
  "iv_assignedOrderId (observedItem p k rs reach st now r) = iv_assignedOrderId r"
  "iv_status (observedItem p k rs reach st now r) = st"
  by (simp_all add: observedItem_def)

lemma blankItem_simps [simp]:
  "iv_reservedByQuoteId (blankItem i p k now) = None" "iv_reservedByOrderId (blankItem i p k now) = None"
  "iv_assignedOrderId (blankItem i p k now) = None"
  by (simp_all add: blankItem_def)

lemma step_holders:
  assumes step: "inventoryStep db db'" and keys: "inventoryKeys db"
    and h: "h = iv_reservedByQuoteId \<or> h = iv_reservedByOrderId"
    and s: "findItem j db' = Some s'" "h s' = Some q"
  shows "(\<exists>s. findItem j db = Some s \<and> h s = Some q) \<or> (\<forall>k s. k \<noteq> j \<longrightarrow> findItem k db' = Some s \<longrightarrow> h s \<noteq> Some q)"
proof -
  have upd: "\<exists>s. findItem j db = Some s \<and> h s = Some q"
    if "findItem j db' = map_option f (findItem j db)" "\<And>r. h (f r) = h r \<or> h (f r) = None" for f
  proof -
    note f = that
    obtain s0 where s0: "findItem j db = Some s0" "s' = f s0" using f(1) s(1)
      by (cases "findItem j db") auto
    then show ?thesis using f(2) [of s0] s(2) by auto
  qed
  have keep: "\<exists>s. findItem j db = Some s \<and> h s = Some q"
    if "db' = updateItem i f db" "\<And>r. h (f r) = h r \<or> h (f r) = None" "\<And>r. iv_id (f r) = iv_id r" for i f
    using upd [of f] upd [of id] that by (cases "j = i") (simp_all add: findItem_updateItem option.map_id)
  have rel: "h (releasedItem now c r) = None" for now c r using h by auto
  have give: "\<exists>s. findItem j db = Some s \<and> h s = Some q"
    if "db' = db \<or> (\<exists>i. db' = updateItem i (releasedItem now (credentialOf i db)) db)" for now
    using that
  proof (elim disjE exE)
    fix i assume "db' = updateItem i (releasedItem now (credentialOf i db)) db"
    then show ?thesis by (rule keep) (simp_all add: rel)
  qed (use s in simp)
  have "\<exists>s. findItem j db = Some s \<and> h s = Some q" if "db' = snd (releaseExpiredInventoryReservationsTx now db)" for now
    using upd [of "\<lambda>r. if reservationOver now r then releasedItem now (credentialOf j db) r else r"] that rel
    by (simp add: inventory_view)
  note released = this
  have health: "\<exists>s. findItem j db = Some s \<and> h s = Some q" if "db' = recordItemHealth i ord st hs now db" for i ord st hs now
    using upd [of "\<lambda>r. if j = i \<and> iv_assignedOrderId r = Some ord
      then r\<lparr>iv_status := st, iv_healthStatus := hs, iv_lastHealthCheckedAt := Some now\<rparr> else r"] that h
    by (auto simp: findItem_recordItemHealth)
  show ?thesis using step
  proof (cases rule: inventoryStep.cases)
    case (expired now)
    then show ?thesis using released by blast
  next
    case (cancelled ord now)
    have "db' = db \<or> (\<exists>i. db' = updateItem i (releasedItem now (credentialOf i db)) db)"
      using cancelled releaseForOrder_view [OF _ keys, of ord now]
      by (cases "releaseInventoryReservationForOrder ord now db = (False, db)") auto
    then show ?thesis using give by blast
  next
    case (quoteExpired qq now)
    have "db' = db \<or> (\<exists>i. db' = updateItem i (releasedItem now (credentialOf i db)) db)"
      using quoteExpired releaseForQuote_view [OF _ keys, of qq now]
      by (cases "releaseInventoryOfExpiredQuote qq now db = db") auto
    then show ?thesis using give by blast
  next
    case (offered ex now r)
    then show ?thesis using released lockAvailable_Inr by blast
  next
    case (quoted i qq revn t now)
    from reserve_Inr [OF quoted(1)] show ?thesis
    proof (elim exE conjE)
      fix r
      assume r: "\<not> (\<exists>r \<in> set (items db). iv_reservedByQuoteId r = Some qq \<and> iv_id r \<noteq> i)"
        and db': "db' = updateItem i (\<lambda>r. r\<lparr>iv_status := IV_RESERVED, iv_reservedByQuoteId := Some qq,
          iv_reservedRevision := Some revn, iv_reservationExpiresAt := Some t\<rparr>) db"
      have f: "findItem k db' = findItem k db" if "k \<noteq> i" for k using that by (simp add: db' findItem_updateItem)
      show ?thesis
      proof (cases "j = i \<and> h = iv_reservedByQuoteId")
        case True
        then have "q = qq" using s by (auto simp: db' findItem_updateItem)
        then show ?thesis using True f r findItem_mem findItem_id by metis
      next
        case False
        then show ?thesis using s f h by (cases "j = i") (auto simp: db' findItem_updateItem)
      qed
    qed
  next
    case (ordered i qq ord revn ex now r)
    from bind_Inr [OF ordered(1)] have r: "\<not> (\<exists>r \<in> set (items db). iv_reservedByOrderId r = Some ord \<and> iv_id r \<noteq> i)"
      and db': "db' = updateItem i (\<lambda>r. r\<lparr>iv_reservedByOrderId := Some ord, iv_reservedRevision := Some revn\<rparr>) db"
      by simp_all
    have f: "findItem k db' = findItem k db" if "k \<noteq> i" for k using that by (simp add: db' findItem_updateItem)
    show ?thesis
    proof (cases "j = i \<and> h = iv_reservedByOrderId")
      case True
      then have "q = ord" using s by (auto simp: db' findItem_updateItem)
      then show ?thesis using True f r findItem_mem findItem_id by metis
    next
      case False
      then show ?thesis using s f h by (cases "j = i") (auto simp: db' findItem_updateItem)
    qed
  next
    case (dispatched ord instanceId now n)
    from dispatch_Inr [OF dispatched(1) keys] show ?thesis using s h
      by (elim exE conjE) (auto split: if_splits)
  next
    case (stored vault newId i actor name secret now c)
    from store_Inr [OF stored(1)] show ?thesis
    proof (elim exE conjE)
      fix st new
      assume db': "db' = updateItem i (\<lambda>r. r\<lparr>iv_status := st\<rparr>)
        (db\<lparr>credentials := upsertRow ic_inventoryItemId new (\<lambda>c. new\<lparr>ic_id := ic_id c\<rparr>) (credentials db)\<rparr>)"
      have "findItem j db' = (if j = i then map_option (\<lambda>r. r\<lparr>iv_status := st\<rparr>) (findItem j db) else findItem j db)"
        by (simp add: db' findItem_updateItem) (simp add: findItem_def)
      then show ?thesis using s h by (cases "findItem j db") (auto split: if_splits)
    qed
  next
    case (observed newId plan resource probe now)
    then obtain p k rs reach where "registerResourceTx newId p k rs reach now db = Inr db'" using observe_Inr by blast
    from register_Inr [OF this keys] show ?thesis
    proof (elim disjE)
      assume "\<exists>i r st. findItem i db = Some r \<and> \<not> present (iv_assignedOrderId r) \<and> iv_status r \<noteq> IV_RESERVED \<and>
        iv_status r \<noteq> IV_DELIVERED \<and> (st = IV_AVAILABLE \<or> st = IV_UNHEALTHY \<or> st = IV_STALE) \<and>
        db' = updateItem i (observedItem p k rs reach st now) db"
      then obtain i st where u: "db' = updateItem i (observedItem p k rs reach st now) db" by blast
      show ?thesis by (rule disjI1, rule keep [OF u]) (use h in auto)
    next
      assume "newId \<notin> iv_id ` set (items db) \<and> (\<exists>st. (st = IV_UNHEALTHY \<or> st = IV_STALE) \<and>
        db' = db\<lparr>items := items db @ [observedItem p k rs reach st now (blankItem newId p (rs_id rs) now)]\<rparr>)"
      then show ?thesis using s h by (auto simp: findItem_def findRow_append split: option.splits if_splits)
    qed
  qed (use health in \<open>auto simp: itemUnreachable_def itemReachable_def itemDelivered_def\<close>)
qed

section \<open>The life of a server\<close>

text \<open>
  To the business a server is stocked, held by a quote and perhaps its order, or sold to an order; it is sold only
  out of the hands of the quote whose order buys it, and a sold server stays sold.
\<close>

datatype ServerPhase = Stocked | Held string "string option" | Sold string

definition serverPhase :: "InventoryItem \<Rightarrow> ServerPhase" where
  "serverPhase r = (case iv_assignedOrderId r of Some ord \<Rightarrow> Sold ord
     | None \<Rightarrow> (case iv_reservedByQuoteId r of Some q \<Rightarrow> Held q (iv_reservedByOrderId r) | None \<Rightarrow> Stocked))"

fun phaseMove :: "ServerPhase \<Rightarrow> ServerPhase \<Rightarrow> bool" where
  "phaseMove Stocked (Held q None) = True"
| "phaseMove (Held q None) (Held q' (Some ord)) = (q' = q)"
| "phaseMove (Held q _) Stocked = True"
| "phaseMove (Held q (Some ord)) (Sold ord') = (ord' = ord)"
| "phaseMove _ _ = False"

definition serverInv :: "InventoryItem \<Rightarrow> CredentialRow option \<Rightarrow> bool" where
  "serverInv r c \<longleftrightarrow>
     (iv_status r = IV_RESERVED \<longleftrightarrow> iv_assignedOrderId r = None \<and> iv_reservedByQuoteId r \<noteq> None) \<and>
     (iv_reservedByQuoteId r = None \<longrightarrow> iv_reservedByOrderId r = None) \<and>
     (iv_assignedOrderId r = None \<longrightarrow> iv_status r \<noteq> IV_ASSIGNED \<and> iv_status r \<noteq> IV_DELIVERED) \<and>
     (\<forall>ord. iv_assignedOrderId r = Some ord \<longrightarrow> ord \<noteq> '''' \<and> iv_reservedByOrderId r = Some ord \<and>
       credentialStatusIs c CRED_TRANSFERRED) \<and>
     (credentialStatusIs c CRED_READY \<longrightarrow> map_option ic_transferredAt c = Some None)"

lemma serverMove_inv:
  assumes "serverMove r c r' c'" and "serverInv r c"
  shows "serverInv r' c'"
  using assms(1)
proof (cases rule: serverMove.cases)
  case (released now)
  then show ?thesis using assms(2) by (auto simp: serverInv_def)
next
  case (reserved now q revn t)
  then show ?thesis using assms(2) by (auto simp: serverInv_def eligibility)
next
  case (bound ex q now ord revn)
  then show ?thesis using assms(2) by (auto simp: serverInv_def eligibility)
next
  case (sold cc q ord revn now)
  then show ?thesis using assms(2) by (auto simp: serverInv_def eligibility credentialStatusIs_def)
next
  case (checked ord st h now)
  then show ?thesis using assms(2) by (auto simp: serverInv_def)
next
  case (secured st c'')
  then show ?thesis using assms(2) by (auto simp: serverInv_def credentialStatusIs_def)
next
  case (reobserved st p k rs reach now)
  then show ?thesis using assms(2) by (auto simp: serverInv_def present_def split: option.splits)
qed (use assms(2) in simp)

lemma serverMove_phase:
  assumes "serverMove r c r' c'" and "serverInv r c"
  shows "serverPhase r' = serverPhase r \<or> phaseMove (serverPhase r) (serverPhase r')"
  using assms(1)
proof (cases rule: serverMove.cases)
  case (released now)
  then show ?thesis using assms(2) by (cases "iv_reservedByOrderId r") (auto simp: serverInv_def serverPhase_def)
next
  case (reserved now q revn t)
  then show ?thesis by (simp add: serverPhase_def eligibility)
next
  case (bound ex q now ord revn)
  then show ?thesis by (simp add: serverPhase_def eligibility)
next
  case (sold cc q ord revn now)
  then show ?thesis by (simp add: serverPhase_def eligibility)
qed (simp_all add: serverPhase_def split: option.split)

definition inventoryInv :: "InventoryDb \<Rightarrow> bool" where
  "inventoryInv db \<longleftrightarrow> inventoryKeys db \<and> (\<forall>i r. findItem i db = Some r \<longrightarrow> serverInv r (credentialOf i db)) \<and>
     (\<forall>i. findItem i db = None \<longrightarrow> credentialOf i db = None) \<and> (\<forall>i j r s q. findItem i db = Some r \<longrightarrow> findItem j db = Some s \<longrightarrow> i \<noteq> j \<longrightarrow>
       \<not> (iv_reservedByQuoteId r = Some q \<and> iv_reservedByQuoteId s = Some q) \<and>
       \<not> (iv_reservedByOrderId r = Some q \<and> iv_reservedByOrderId s = Some q))"

inductive inventoryReach :: "InventoryDb \<Rightarrow> bool" where
  empty: "inventoryReach \<lparr>items = [], credentials = [], instanceCredentials = []\<rparr>"
| more: "inventoryReach db \<Longrightarrow> inventoryStep db db' \<Longrightarrow> inventoryReach db'"

definition unheld :: "InventoryItem \<Rightarrow> bool" where
  "unheld r \<longleftrightarrow> iv_assignedOrderId r = None \<and> iv_reservedByQuoteId r = None \<and> iv_reservedByOrderId r = None \<and>
     iv_status r \<noteq> IV_RESERVED \<and> iv_status r \<noteq> IV_ASSIGNED \<and> iv_status r \<noteq> IV_DELIVERED"

lemma step_absent:
  assumes step: "inventoryStep db db'" and keys: "inventoryKeys db" and i: "findItem i db = None"
  shows "credentialOf i db' = credentialOf i db \<and> (\<forall>r. findItem i db' = Some r \<longrightarrow> unheld r)"
  using step
proof (cases rule: inventoryStep.cases)
  case (cancelled ord now)
  then show ?thesis using releaseForOrder_view [OF _ keys, of ord now] i
    by (cases "releaseInventoryReservationForOrder ord now db = (False, db)")
      (auto simp: inventory_view findItem_updateItem split: if_splits)
next
  case (quoteExpired q now)
  then show ?thesis using releaseForQuote_view [OF _ keys, of q now] i
    by (cases "releaseInventoryOfExpiredQuote q now db = db")
      (auto simp: inventory_view findItem_updateItem split: if_splits)
next
  case (offered ex now s)
  then show ?thesis using lockAvailable_Inr [of ex now db s db'] i by (simp add: inventory_view)
next
  case (quoted k q revn t now)
  from reserve_Inr [OF quoted(1)] show ?thesis using i by (elim exE conjE) (auto simp: inventory_view findItem_updateItem)
next
  case (ordered k q ord revn ex now s)
  from bind_Inr [OF ordered(1)] show ?thesis using i by (auto simp: inventory_view findItem_updateItem)
next
  case (dispatched ord instanceId now n)
  from dispatch_Inr [OF dispatched(1) keys] show ?thesis using i by (elim exE conjE) auto
next
  case (stored vault newId k actor name secret now c)
  from store_Inr [OF stored(1)] show ?thesis
  proof (elim exE conjE)
    fix st new r
    let ?db = "db\<lparr>credentials := upsertRow ic_inventoryItemId new (\<lambda>c. new\<lparr>ic_id := ic_id c\<rparr>) (credentials db)\<rparr>"
    assume db': "db' = updateItem k (\<lambda>r. r\<lparr>iv_status := st\<rparr>) ?db" and r: "findItem k db = Some r"
      and new: "ic_id new = newId" "ic_inventoryItemId new = k"
    have "i \<noteq> k" using i r by auto
    moreover have "findItem i ?db = findItem i db" by (simp add: findItem_def)
    ultimately show ?thesis using i upsert_credentials(1) [OF new(2) keys] stored(2) new(1)
      by (simp add: db' inventory_view findItem_updateItem)
  qed
next
  case (observed newId plan resource probe now)
  then obtain p k rs reach where "registerResourceTx newId p k rs reach now db = Inr db'" using observe_Inr by blast
  from register_Inr [OF this keys] show ?thesis
  proof (elim disjE)
    assume "\<exists>i r st. findItem i db = Some r \<and> \<not> present (iv_assignedOrderId r) \<and> iv_status r \<noteq> IV_RESERVED \<and>
      iv_status r \<noteq> IV_DELIVERED \<and> (st = IV_AVAILABLE \<or> st = IV_UNHEALTHY \<or> st = IV_STALE) \<and>
      db' = updateItem i (observedItem p k rs reach st now) db"
    then show ?thesis using i by (elim exE conjE) (auto simp: inventory_view findItem_updateItem)
  next
    assume "newId \<notin> iv_id ` set (items db) \<and> (\<exists>st. (st = IV_UNHEALTHY \<or> st = IV_STALE) \<and>
      db' = db\<lparr>items := items db @ [observedItem p k rs reach st now (blankItem newId p (rs_id rs) now)]\<rparr>)"
    then show ?thesis using i by (auto simp: findItem_def findRow_append credentialOf_def unheld_def split: if_splits)
  qed
qed (use i in \<open>simp_all add: inventory_view itemUnreachable_def itemReachable_def itemDelivered_def findItem_recordItemHealth\<close>)

lemma inventoryInv_server: "inventoryInv db \<Longrightarrow> findItem i db = Some r \<Longrightarrow> serverInv r (credentialOf i db)"
  by (simp add: inventoryInv_def)

lemma inventoryInv_keys: "inventoryInv db \<Longrightarrow> inventoryKeys db"
  by (simp add: inventoryInv_def)

lemma inventoryInv_exclusive:
  assumes "inventoryInv db" and "findItem i db = Some r" and "findItem j db = Some s" and "h r = Some q" and "h s = Some q"
    and "h = iv_reservedByQuoteId \<or> h = iv_reservedByOrderId"
  shows "i = j"
proof (rule ccontr)
  assume "i \<noteq> j"
  then have "\<not> (iv_reservedByQuoteId r = Some q \<and> iv_reservedByQuoteId s = Some q) \<and>
      \<not> (iv_reservedByOrderId r = Some q \<and> iv_reservedByOrderId s = Some q)"
    using assms(1-3) unfolding inventoryInv_def by metis
  then show False using assms(4-6) by auto
qed

lemma step_exclusive:
  assumes step: "inventoryStep db db'" and inv: "inventoryInv db" and r: "findItem i db' = Some r" "h r = Some q"
    and s: "findItem j db' = Some s" "h s = Some q" and h: "h = iv_reservedByQuoteId \<or> h = iv_reservedByOrderId"
  shows "i = j"
proof (rule ccontr)
  assume ne: "i \<noteq> j"
  from step_holders [OF step inventoryInv_keys [OF inv] h r] step_holders [OF step inventoryInv_keys [OF inv] h s]
  obtain r0 s0 where "findItem i db = Some r0" "h r0 = Some q" "findItem j db = Some s0" "h s0 = Some q"
    using ne r s by metis
  then show False using inventoryInv_exclusive [OF inv] ne h by metis
qed

lemma inventoryInv_step:
  assumes step: "inventoryStep db db'" and inv: "inventoryInv db"
  shows "inventoryInv db'"
proof -
  note keys = inventoryInv_keys [OF inv]
  have "serverInv r' (credentialOf i db')" if new: "findItem i db' = Some r'" for i r'
  proof (cases "findItem i db")
    case None
    then have "credentialOf i db' = None" "unheld r'"
      using inv step_absent [OF step keys None] new by (simp_all add: inventoryInv_def)
    then show ?thesis by (simp add: unheld_def serverInv_def credentialStatusIs_def)
  next
    case (Some r)
    then show ?thesis using step_move [OF step keys Some] new inventoryInv_server [OF inv Some] serverMove_inv by auto
  qed
  moreover have "credentialOf i db' = None" if "findItem i db' = None" for i
  proof (cases "findItem i db")
    case None
    then show ?thesis using step_absent [OF step keys None] inv by (simp add: inventoryInv_def)
  next
    case (Some r)
    then show ?thesis using step_move [OF step keys Some] that by simp
  qed
  ultimately show ?thesis
    using step_keys [OF step keys] step_exclusive [OF step inv, where h = iv_reservedByQuoteId]
      step_exclusive [OF step inv, where h = iv_reservedByOrderId] by (auto simp: inventoryInv_def)
qed

lemma inventoryReach_inv: "inventoryReach db \<Longrightarrow> inventoryInv db"
proof (induction rule: inventoryReach.induct)
  case empty
  then show ?case by (simp add: inventoryInv_def inventoryKeys_def findItem_def credentialOf_def)
next
  case (more db db')
  then show ?case by (simp add: inventoryInv_step)
qed

section \<open>Guarantees\<close>

lemma reach_steps: "inventoryStep\<^sup>*\<^sup>* db db' \<Longrightarrow> inventoryReach db \<Longrightarrow> inventoryReach db'"
  by (induction rule: rtranclp_induct) (auto intro: inventoryReach.more)

text \<open>C15: in every reachable database every committed operation either leaves a server in its phase or makes one
  move of the server's life: a quote takes a stocked server, its order joins the quote, the hold is given up, or the
  server is sold to the very order that holds it. Servers that appear are stocked, none disappears, and no two
  servers are sold to the same order.\<close>

theorem server_life_is_refined:
  assumes "inventoryReach db" and "inventoryStep db db'"
  shows "(\<forall>i r. findItem i db = Some r \<longrightarrow> (\<exists>r'. findItem i db' = Some r' \<and>
      (serverPhase r' = serverPhase r \<or> phaseMove (serverPhase r) (serverPhase r')))) \<and>
    (\<forall>i r'. findItem i db = None \<longrightarrow> findItem i db' = Some r' \<longrightarrow> serverPhase r' = Stocked) \<and>
    (\<forall>i j r s ord. findItem i db' = Some r \<longrightarrow> findItem j db' = Some s \<longrightarrow> serverPhase r = Sold ord \<longrightarrow>
      serverPhase s = Sold ord \<longrightarrow> i = j)"
proof (intro conjI allI impI)
  note inv = inventoryReach_inv [OF assms(1)] and keys = inventoryInv_keys [OF inventoryReach_inv [OF assms(1)]]
  fix i r assume r: "findItem i db = Some r"
  show "\<exists>r'. findItem i db' = Some r' \<and> (serverPhase r' = serverPhase r \<or> phaseMove (serverPhase r) (serverPhase r'))"
    using step_move [OF assms(2) keys r] serverMove_phase inventoryInv_server [OF inv r] by auto
next
  fix i r' assume "findItem i db = None" "findItem i db' = Some r'"
  then have "unheld r'" using step_absent [OF assms(2) inventoryInv_keys [OF inventoryReach_inv [OF assms(1)]]] by simp
  then show "serverPhase r' = Stocked" by (simp add: unheld_def serverPhase_def)
next
  note inv' = inventoryReach_inv [OF inventoryReach.more [OF assms]]
  fix i j r s ord
  assume r: "findItem i db' = Some r" "serverPhase r = Sold ord" and s: "findItem j db' = Some s" "serverPhase s = Sold ord"
  have "iv_reservedByOrderId r = Some ord" "iv_reservedByOrderId s = Some ord"
    using r s inventoryInv_server [OF inv' r(1)] inventoryInv_server [OF inv' s(1)]
    by (simp_all add: serverPhase_def serverInv_def split: option.splits)
  then show "i = j" using inventoryInv_exclusive [OF inv' r(1) s(1), where h = iv_reservedByOrderId] by simp
qed

lemma serverMove_resource: "serverMove r c r' c' \<Longrightarrow> iv_providerResourceId r' = iv_providerResourceId r"
  by (cases rule: serverMove.cases) (auto simp: releasedItem_def observedItem_def)

lemma serverMove_sold:
  assumes "serverMove r c r' c'" and "serverInv r c" and "iv_assignedOrderId r = Some ord"
  shows "iv_assignedOrderId r' = Some ord \<and> c' = c"
  using assms(1)
  by (cases rule: serverMove.cases) (use assms(2,3) in \<open>auto simp: eligibility serverInv_def present_def\<close>)

lemma sold_stays:
  assumes "inventoryStep\<^sup>*\<^sup>* db db'" and "inventoryReach db" and "findItem i db = Some r" and "iv_assignedOrderId r = Some ord"
  shows "\<exists>r'. findItem i db' = Some r' \<and> iv_assignedOrderId r' = Some ord \<and>
    iv_providerResourceId r' = iv_providerResourceId r \<and> credentialOf i db' = credentialOf i db"
  using assms(1)
proof (induction rule: rtranclp_induct)
  case base
  then show ?case using assms(3,4) by simp
next
  case (step db1 db2)
  then obtain r1 where r1: "findItem i db1 = Some r1" "iv_assignedOrderId r1 = Some ord"
      "iv_providerResourceId r1 = iv_providerResourceId r" "credentialOf i db1 = credentialOf i db" by auto
  have inv: "inventoryInv db1" using reach_steps [OF step(1) assms(2)] by (rule inventoryReach_inv)
  obtain r2 where "findItem i db2 = Some r2" "serverMove r1 (credentialOf i db1) r2 (credentialOf i db2)"
    using step_move [OF step(2) inventoryInv_keys [OF inv] r1(1)] by auto
  then show ?case using r1 serverMove_sold [OF _ inventoryInv_server [OF inv r1(1)] r1(2)] serverMove_resource by auto
qed

text \<open>C13: a server sold to an order stays sold to that order whatever operations follow, with the same provider
  resource and the same transferred secret; no other server is sold to the order, and no dispatch can sell the server
  again or hand its secret out a second time.\<close>

theorem server_sold_once:
  assumes "inventoryReach db" and "findItem i db = Some r" and "iv_assignedOrderId r = Some ord"
    and "inventoryStep\<^sup>*\<^sup>* db db'"
  shows "\<exists>r'. findItem i db' = Some r' \<and> iv_assignedOrderId r' = Some ord \<and>
    iv_providerResourceId r' = iv_providerResourceId r \<and>
    credentialStatusIs (credentialOf i db') CRED_TRANSFERRED \<and> credentialOf i db' = credentialOf i db \<and>
    (\<forall>j s. findItem j db' = Some s \<longrightarrow> iv_assignedOrderId s = Some ord \<longrightarrow> j = i) \<and>
    (\<forall>dp instanceId now n db''. dp_inventoryItemId dp = Some i \<longrightarrow>
       dispatchReservedInventoryTx dp instanceId now db' \<noteq> Inr (n, db'')) \<and>
    (\<forall>instanceId now n db''. transferInventoryCredentialToInstanceTx i instanceId now db' \<noteq> Inr (n, db''))"
proof -
  have inv: "inventoryInv db'" using reach_steps [OF assms(4,1)] by (rule inventoryReach_inv)
  note keys = inventoryInv_keys [OF inv]
  obtain r' where r': "findItem i db' = Some r'" "iv_assignedOrderId r' = Some ord"
      "iv_providerResourceId r' = iv_providerResourceId r" "credentialOf i db' = credentialOf i db"
    using sold_stays [OF assms(4,1-3)] by auto
  note own = inventoryInv_server [OF inv r'(1)]
  have sec: "credentialStatusIs (credentialOf i db') CRED_TRANSFERRED" and held: "iv_reservedByOrderId r' = Some ord"
    using own r'(2) by (simp_all add: serverInv_def)
  have one: "j = i" if "findItem j db' = Some s" "iv_assignedOrderId s = Some ord" for j s
    using inventoryInv_exclusive [OF inv that(1) r'(1), where h = iv_reservedByOrderId] held that(2)
      inventoryInv_server [OF inv that(1)] by (simp add: serverInv_def)
  have "dispatchReservedInventoryTx dp instanceId now db' \<noteq> Inr (n, db'')" if "dp_inventoryItemId dp = Some i" for dp instanceId now n db''
    using dispatch_Inr [OF _ keys, of dp instanceId now n db''] that r' by (auto simp: eligibleFor_def eligibility)
  moreover have "transferInventoryCredentialToInstanceTx i instanceId now db' \<noteq> Inr (n, db'')" for instanceId now n db''
    using transfer_Inr [OF _ keys, of i instanceId now n db''] sec by (auto simp: credentialStatusIs_def)
  ultimately show ?thesis using r' sec one by blast
qed

definition reservedItem :: "string \<Rightarrow> InventoryDb \<Rightarrow> bool" where
  "reservedItem i db \<longleftrightarrow> (case findItem i db of None \<Rightarrow> False | Some r \<Rightarrow> iv_status r = IV_RESERVED)"

lemma serverMove_observation:
  assumes "serverMove r c r' c'" and "iv_status r = IV_RESERVED" and "iv_status r' = IV_RESERVED" and "serverInv r c"
  shows "iv_lastObservedAt r' = iv_lastObservedAt r"
  using assms(1)
  by (cases rule: serverMove.cases) (use assms(2-4) in \<open>auto simp: serverInv_def\<close>)

lemma observation_kept:
  assumes "(\<lambda>a b. inventoryStep a b \<and> reservedItem i b)\<^sup>*\<^sup>* db db'" and "inventoryReach db"
    and "findItem i db = Some r" and "iv_status r = IV_RESERVED"
  shows "inventoryReach db' \<and> (\<exists>r'. findItem i db' = Some r' \<and> iv_status r' = IV_RESERVED \<and>
    iv_lastObservedAt r' = iv_lastObservedAt r)"
  using assms(1)
proof (induction rule: rtranclp_induct)
  case base
  then show ?case using assms(2-4) by simp
next
  case (step db1 db2)
  then obtain r1 where r1: "inventoryReach db1" "findItem i db1 = Some r1" "iv_status r1 = IV_RESERVED"
      "iv_lastObservedAt r1 = iv_lastObservedAt r" by auto
  note inv = inventoryReach_inv [OF r1(1)]
  obtain r2 where r2: "findItem i db2 = Some r2" "serverMove r1 (credentialOf i db1) r2 (credentialOf i db2)"
    using step_move [OF conjunct1 [OF step(2)] inventoryInv_keys [OF inv] r1(2)] by auto
  moreover have "iv_status r2 = IV_RESERVED" using step(2) r2(1) by (simp add: reservedItem_def)
  ultimately show ?case using r1 serverMove_observation [OF r2(2) r1(3) _ inventoryInv_server [OF inv r1(2)]]
      inventoryReach.more [OF r1(1) conjunct1 [OF step(2)]] by simp
qed

text \<open>C16: nothing refreshes the observation of a reserved server. However long its reservation still lasts, once five
  minutes have passed since it was last observed, neither the payment of its order nor the dispatch of its paid order
  can succeed until the reservation is given up.\<close>

theorem reserved_server_goes_stale:
  assumes "inventoryReach db" and "findItem i db = Some r" and "iv_status r = IV_RESERVED"
    and "(\<lambda>a b. inventoryStep a b \<and> reservedItem i b)\<^sup>*\<^sup>* db db'"
    and "now > iv_lastObservedAt r + OBSERVATION_MAX_AGE_MS"
  shows "lockReservedInventoryForPaymentTx i quoteId orderId revn ex now db' = Inl ''inventory_unavailable'' \<and>
    (dp_inventoryItemId dp = Some i \<longrightarrow>
       (\<forall>n db''. dispatchReservedInventoryTx dp instanceId now db' \<noteq> Inr (n, db''))) \<and>
    (\<forall>p k rs reach newId. sameResource p (rs_id rs) r \<longrightarrow>
       (\<forall>db''. registerResourceTx newId p k rs reach now db = Inr db'' \<longrightarrow> findItem i db'' = Some r))"
proof (intro conjI allI impI)
  obtain r' where r': "findItem i db' = Some r'" "iv_status r' = IV_RESERVED" "iv_lastObservedAt r' = iv_lastObservedAt r"
    and inv: "inventoryInv db'"
    using observation_kept [OF assms(4,1-3)] inventoryReach_inv by auto
  have stale: "\<not> isPreprovisionedInventoryFresh r' now"
    using assms(5) r'(3) by (simp add: isPreprovisionedInventoryFresh_def)
  show "lockReservedInventoryForPaymentTx i quoteId orderId revn ex now db' = Inl ''inventory_unavailable''"
    using r' stale by (simp add: lockReservedInventoryForPaymentTx_def eligibleFor_def eligibility)
  show "dispatchReservedInventoryTx dp instanceId now db' \<noteq> Inr (n, db'')" if "dp_inventoryItemId dp = Some i" for n db''
    using dispatch_Inr [OF _ inventoryInv_keys [OF inv], of dp instanceId now n db''] that r'(1) stale
    by (auto simp: eligibleFor_def eligibility)
  fix p k rs reach newId db''
  assume reg: "registerResourceTx newId p k rs reach now db = Inr db''"
  from register_Inr [OF reg inventoryInv_keys [OF inventoryReach_inv [OF assms(1)]]]
  show "findItem i db'' = Some r"
  proof (elim disjE)
    assume "\<exists>i r st. findItem i db = Some r \<and> \<not> present (iv_assignedOrderId r) \<and> iv_status r \<noteq> IV_RESERVED \<and>
      iv_status r \<noteq> IV_DELIVERED \<and> (st = IV_AVAILABLE \<or> st = IV_UNHEALTHY \<or> st = IV_STALE) \<and>
      db'' = updateItem i (observedItem p k rs reach st now) db"
    then show ?thesis using assms(2,3) by (auto simp: findItem_updateItem)
  next
    assume "newId \<notin> iv_id ` set (items db) \<and> (\<exists>st. (st = IV_UNHEALTHY \<or> st = IV_STALE) \<and>
      db'' = db\<lparr>items := items db @ [observedItem p k rs reach st now (blankItem newId p (rs_id rs) now)]\<rparr>)"
    then show ?thesis using assms(2) by (auto simp: findItem_def findRow_append)
  qed
qed

lemma available_candidate:
  "eligibleFor s ex ForAvailable now db \<Longrightarrow> availableCandidate now s \<and> iv_planId s = ex_planId ex \<and>
     iv_catalogItemId s = ex_catalogItemId ex \<and> iv_externalImageId s = ex_externalImageId ex"
  by (cases "iv_observedIpv4 s")
    (auto simp: eligibleFor_def eligibility availableCandidate_def isPreprovisionedInventoryFresh_def mappingMatches_def present_def)

lemma lockAvailable_total:
  assumes "findItem j db = Some s" and "eligibleFor s ex ForAvailable now db"
  shows "\<exists>r. lockAvailableInventoryTx ex now db = Inr (r, snd (releaseExpiredInventoryReservationsTx now db))"
proof -
  let ?db = "snd (releaseExpiredInventoryReservationsTx now db)"
  let ?cs = "sortBy candidateOrder (filter (\<lambda>r. iv_planId r = ex_planId ex \<and> iv_catalogItemId r = ex_catalogItemId ex \<and>
    iv_externalImageId r = ex_externalImageId ex \<and> availableCandidate now r) (items ?db))"
  have "\<not> reservationOver now s" using assms(2) by (simp add: eligibleFor_def eligibility reservationOver_def)
  then have s: "findItem j ?db = Some s" using assms(1) by (simp add: inventory_view)
  have el: "eligibleFor s ex ForAvailable now ?db" using assms(2) by (simp add: eligibleFor_def inventory_view)
  have "s \<in> set ?cs" using findItem_mem [OF s] available_candidate [OF el] by simp
  then have "findRow (\<lambda>r. eligibleFor r ex ForAvailable now ?db) ?cs \<noteq> None" using el by (auto simp: findRow_None)
  then show ?thesis by (auto simp: lockAvailableInventoryTx_def Let_def split: option.splits)
qed

definition dispatchOrderOf :: "string \<Rightarrow> ExpectedSelection \<Rightarrow> string \<Rightarrow> DispatchOrder" where
  "dispatchOrderOf ord ex i = \<lparr>dp_serviceOrderId = ord, dp_planId = ex_planId ex,
     dp_planCatalogItemId = Some (ex_catalogItemId ex), dp_provider = ex_provider ex, dp_apiVersion = ex_apiVersion ex,
     dp_region = ex_regionCode ex, dp_externalPlanId = ex_externalPlanId ex, dp_externalImageId = ex_externalImageId ex,
     dp_inventoryItemId = Some i\<rparr>"

definition unusedKeys :: "string \<Rightarrow> string \<Rightarrow> string \<Rightarrow> InventoryDb \<Rightarrow> bool" where
  "unusedKeys q ord instanceId db \<longleftrightarrow> q \<noteq> '''' \<and>
     list_all (\<lambda>r. iv_reservedByQuoteId r \<noteq> Some q \<and> iv_reservedByOrderId r \<noteq> Some ord \<and> iv_assignedOrderId r \<noteq> Some ord) (items db) \<and>
     list_all (\<lambda>n. nc_cloudInstanceId n \<noteq> instanceId) (instanceCredentials db)"

lemma fresh_update [simp]:
  "isPreprovisionedInventoryFresh (iv_status_update f0 r) t = isPreprovisionedInventoryFresh r t"
  "isPreprovisionedInventoryFresh (iv_reservedByQuoteId_update f1 r) t = isPreprovisionedInventoryFresh r t"
  "isPreprovisionedInventoryFresh (iv_reservedByOrderId_update f2 r) t = isPreprovisionedInventoryFresh r t"
  "isPreprovisionedInventoryFresh (iv_reservedRevision_update f3 r) t = isPreprovisionedInventoryFresh r t"
  "isPreprovisionedInventoryFresh (iv_reservationExpiresAt_update f4 r) t = isPreprovisionedInventoryFresh r t"
  by (simp_all add: isPreprovisionedInventoryFresh_def)

lemma mapping_update [simp]:
  "mappingMatches (iv_status_update f0 r) ex = mappingMatches r ex"
  "mappingMatches (iv_reservedByQuoteId_update f1 r) ex = mappingMatches r ex"
  "mappingMatches (iv_reservedByOrderId_update f2 r) ex = mappingMatches r ex"
  "mappingMatches (iv_reservedRevision_update f3 r) ex = mappingMatches r ex"
  "mappingMatches (iv_reservationExpiresAt_update f4 r) ex = mappingMatches r ex"
  by (simp_all add: mappingMatches_def)

lemma mapping_own [simp]: "mappingMatches r (ownSelection r)"
  by (simp add: mappingMatches_def ownSelection_def)

lemma updateItem_clash:
  assumes "list_all (\<lambda>r. h r \<noteq> Some q) (items db)" and "\<And>r. h (f r) = h r"
  shows "list_all (\<lambda>r. h r \<noteq> Some q) (items (updateItem i f db))"
  using assms by (auto simp: list_all_iff updateItem_def set_updateRows)

text \<open>Reserving, ordering, paying and dispatching an available server.\<close>

lemma reserve_ok:
  assumes "findItem i db = Some r" and "eligibleFor r ex ForAvailable t0 db" and "isPreprovisionedInventoryFresh r now"
    and "list_all (\<lambda>r. iv_reservedByQuoteId r \<noteq> Some q) (items db)"
  shows "reserveLockedInventoryForQuoteTx i q revn t now db = Inr (updateItem i (\<lambda>r. r\<lparr>iv_status := IV_RESERVED,
    iv_reservedByQuoteId := Some q, iv_reservedRevision := Some revn, iv_reservationExpiresAt := Some t\<rparr>) db)"
  using assms by (auto simp: reserveLockedInventoryForQuoteTx_def eligibleFor_def eligibility list_all_iff)

lemma bind_ok:
  assumes "findItem i db = Some r" and "eligibleFor r ex (ForQuote q) now db"
    and "list_all (\<lambda>r. iv_reservedByOrderId r \<noteq> Some ord) (items db)"
  shows "bindInventoryReservationToOrderTx i q ord revn ex now db = Inr (r, updateItem i (\<lambda>r. r\<lparr>iv_reservedByOrderId := Some ord,
    iv_reservedRevision := Some revn\<rparr>) db)"
  using assms by (auto simp: bindInventoryReservationToOrderTx_def list_all_iff)

lemma dispatch_ok:
  assumes r: "findItem i db = Some r" and el: "eligibleFor r ex (ForOrder q ord revn) now db" and q: "q \<noteq> ''''"
    and new: "list_all (\<lambda>r. iv_assignedOrderId r \<noteq> Some ord) (items db)"
      "list_all (\<lambda>n. nc_cloudInstanceId n \<noteq> instanceId) (instanceCredentials db)"
    and c: "credentialOf i db = Some c" "ic_transferredAt c = None"
  shows "\<exists>db'. dispatchReservedInventoryTx (dispatchOrderOf ord ex i) instanceId now db = Inr (instanceCredential instanceId c now, db')"
proof -
  note id = findItem_id [OF r]
  have st: "iv_reservedByQuoteId r = Some q" "iv_reservedRevision r = Some revn" "ic_status c = CRED_READY" "mappingMatches r ex"
    using el c(1) id by (simp_all add: eligibleFor_def eligibility credentialReady_def)
  have "eligibleFor r (ownSelection r) (ForOrder q ord revn) now db" using el by (simp add: eligibleFor_def eligibility)
  then have a: "assignReservedInventoryTx i q ord revn now db = Inr (updateItem i (\<lambda>r. r\<lparr>iv_status := IV_ASSIGNED,
      iv_assignedOrderId := Some ord, iv_reservationExpiresAt := None\<rparr>) db)"
    using r new(1) by (auto simp: assignReservedInventoryTx_def list_all_iff)
  have "\<exists>db''. transferInventoryCredentialToInstanceTx i instanceId now db' = Inr (instanceCredential instanceId c now, db'')"
    if "credentialOf i db' = Some c" "instanceCredentials db' = instanceCredentials db" for db'
    using that new(2) c(2) st(3) by (auto simp: transferInventoryCredentialToInstanceTx_def list_all_iff Let_def)
  then show ?thesis
    using r st q id a c(1) by (simp add: dispatchReservedInventoryTx_def dispatchOrderOf_def mappingMatches_def inventory_view)
qed

lemma reserved_path:
  assumes db1: "inventoryInv db1" and r: "findItem i db1 = Some r" and el: "eligibleFor r ex ForAvailable t0 db1"
    and un: "unusedKeys q ord instanceId db1"
    and fresh: "isPreprovisionedInventoryFresh r t1" "isPreprovisionedInventoryFresh r t2" "isPreprovisionedInventoryFresh r t3"
      "isPreprovisionedInventoryFresh r t4" and limit: "t2 < expiry" "t3 < expiry" "t4 < expiry"
  shows "\<exists>db2 r2 db3 r3 c db4.
    reserveLockedInventoryForQuoteTx i q revn expiry t1 db1 = Inr db2 \<and>
    bindInventoryReservationToOrderTx i q ord revn' ex t2 db2 = Inr (r2, db3) \<and>
    lockReservedInventoryForPaymentTx i q ord revn' ex t3 db3 = Inr r3 \<and> iv_providerResourceId r3 = iv_providerResourceId r \<and>
    credentialOf i db1 = Some c \<and>
    dispatchReservedInventoryTx (dispatchOrderOf ord ex i) instanceId t4 db3 = Inr (instanceCredential instanceId c t4, db4)"
proof -
  note id = findItem_id [OF r]
  let ?f = "\<lambda>r. r\<lparr>iv_status := IV_RESERVED, iv_reservedByQuoteId := Some q, iv_reservedRevision := Some revn,
    iv_reservationExpiresAt := Some expiry\<rparr>"
  let ?g = "\<lambda>r. r\<lparr>iv_reservedByOrderId := Some ord, iv_reservedRevision := Some revn'\<rparr>"
  let ?db2 = "updateItem i ?f db1" and ?db3 = "updateItem i ?g (updateItem i ?f db1)"
  have keys: "list_all (\<lambda>r. iv_reservedByQuoteId r \<noteq> Some q) (items db1)" "list_all (\<lambda>r. iv_reservedByOrderId r \<noteq> Some ord) (items db1)"
      "list_all (\<lambda>r. iv_assignedOrderId r \<noteq> Some ord) (items db1)"
      "list_all (\<lambda>n. nc_cloudInstanceId n \<noteq> instanceId) (instanceCredentials db1)" "q \<noteq> ''''"
    using un by (simp_all add: unusedKeys_def list_all_iff)
  obtain c where c: "credentialOf i db1 = Some c" "ic_status c = CRED_READY"
    using el id by (auto simp: eligibleFor_def eligibility credentialReady_def split: option.splits)
  have c': "ic_transferredAt c = None" using inventoryInv_server [OF db1 r] c by (simp add: serverInv_def credentialStatusIs_def)
  have r2: "findItem i ?db2 = Some (?f r)" using r by (simp add: findItem_updateItem)
  have r3: "findItem i ?db3 = Some (?g (?f r))" using r by (simp add: findItem_updateItem)
  have res: "reserveLockedInventoryForQuoteTx i q revn expiry t1 db1 = Inr ?db2"
    using reserve_ok [OF r el fresh(1) keys(1)] .
  have el2: "eligibleFor (?f r) ex (ForQuote q) t2 ?db2"
    using el fresh(2) limit(1) by (simp add: eligibleFor_def eligibility inventory_view expiresAfter_def)
  have "list_all (\<lambda>r. iv_reservedByOrderId r \<noteq> Some ord) (items ?db2)" using keys(2) by (rule updateItem_clash) simp
  note bnd = bind_ok [OF r2 el2 this, of revn']
  have el3: "eligibleFor (?g (?f r)) ex (ForOrder q ord revn') t ?db3" if "isPreprovisionedInventoryFresh r t" "t < expiry" for t
    using el that by (simp add: eligibleFor_def eligibility inventory_view expiresAfter_def)
  have pay: "lockReservedInventoryForPaymentTx i q ord revn' ex t3 ?db3 = Inr (?g (?f r))"
    using r3 el3 [OF fresh(3) limit(2)] by (simp add: lockReservedInventoryForPaymentTx_def)
  have "list_all (\<lambda>r. iv_assignedOrderId r \<noteq> Some ord) (items ?db2)" using keys(3) by (rule updateItem_clash) simp
  then have "list_all (\<lambda>r. iv_assignedOrderId r \<noteq> Some ord) (items ?db3)" by (rule updateItem_clash) simp
  from dispatch_ok [OF r3 el3 [OF fresh(4) limit(3)] keys(5) this, of instanceId c] keys(4) c(1) c'
  obtain db4 where "dispatchReservedInventoryTx (dispatchOrderOf ord ex i) instanceId t4 ?db3 = Inr (instanceCredential instanceId c t4, db4)"
    by (auto simp: inventory_view)
  then show ?thesis using res bnd pay c(1)
    by (intro exI [of _ ?db2] exI [of _ "?f r"] exI [of _ ?db3] exI [of _ "?g (?f r)"] exI [of _ c] exI [of _ db4]) simp
qed

lemma unused_released:
  assumes inv: "inventoryInv (snd (releaseExpiredInventoryReservationsTx t0 db))" (is "inventoryInv ?db1")
    and un: "unusedKeys q ord instanceId db"
  shows "unusedKeys q ord instanceId (snd (releaseExpiredInventoryReservationsTx t0 db))"
proof -
  have "iv_reservedByQuoteId x \<noteq> Some q \<and> iv_reservedByOrderId x \<noteq> Some ord \<and> iv_assignedOrderId x \<noteq> Some ord"
    if "x \<in> set (items ?db1)" for x
  proof -
    have "findItem (iv_id x) ?db1 = Some x" using findItem_unique [OF inventoryInv_keys [OF inv] that] .
    then obtain y where y: "findItem (iv_id x) db = Some y" "x = y \<or> x = releasedItem t0 (credentialOf (iv_id x) db) y"
      by (auto simp: inventory_view split: if_splits)
    have "(iv_reservedByQuoteId x = iv_reservedByQuoteId y \<or> iv_reservedByQuoteId x = None) \<and>
        (iv_reservedByOrderId x = iv_reservedByOrderId y \<or> iv_reservedByOrderId x = None) \<and>
        iv_assignedOrderId x = iv_assignedOrderId y" using y(2) releasedItem_fields by metis
    moreover have "iv_reservedByQuoteId y \<noteq> Some q \<and> iv_reservedByOrderId y \<noteq> Some ord \<and> iv_assignedOrderId y \<noteq> Some ord"
      using un findItem_mem [OF y(1)] by (simp add: unusedKeys_def list_all_iff)
    ultimately show ?thesis by auto
  qed
  then show ?thesis using un by (simp add: unusedKeys_def list_all_iff inventory_view)
qed

text \<open>C14: while a matching server is fit to be sold, locking one for a quote succeeds; and the server locked, while it is
  fresh and its reservation lasts, is reserved for the quote, bound to its order, accepted by the payment and
  dispatched, handing exactly its stored secret to the new instance and selling it to the order.\<close>

theorem stocked_server_reaches_buyer:
  assumes reach: "inventoryReach db" and s: "findItem j db = Some s" "eligibleFor s ex ForAvailable t0 db"
    and un: "unusedKeys q ord instanceId db" and ord: "ord \<noteq> ''''"
  shows "\<exists>r db1. lockAvailableInventoryTx ex t0 db = Inr (r, db1) \<and>
    (\<forall>t1 t2 t3 t4 expiry revn revn'. isPreprovisionedInventoryFresh r t1 \<longrightarrow> isPreprovisionedInventoryFresh r t2 \<longrightarrow>
       isPreprovisionedInventoryFresh r t3 \<longrightarrow> isPreprovisionedInventoryFresh r t4 \<longrightarrow>
       t2 < expiry \<longrightarrow> t3 < expiry \<longrightarrow> t4 < expiry \<longrightarrow>
       (\<exists>db2 r2 db3 r3 c db4 r4.
          reserveLockedInventoryForQuoteTx (iv_id r) q revn expiry t1 db1 = Inr db2 \<and>
          bindInventoryReservationToOrderTx (iv_id r) q ord revn' ex t2 db2 = Inr (r2, db3) \<and>
          lockReservedInventoryForPaymentTx (iv_id r) q ord revn' ex t3 db3 = Inr r3 \<and>
          dispatchReservedInventoryTx (dispatchOrderOf ord ex (iv_id r)) instanceId t4 db3 =
            Inr (instanceCredential instanceId c t4, db4) \<and>
          credentialOf (iv_id r) db = Some c \<and> findItem (iv_id r) db4 = Some r4 \<and> serverPhase r4 = Sold ord \<and>
          iv_providerResourceId r4 = iv_providerResourceId r))"
proof -
  let ?db1 = "snd (releaseExpiredInventoryReservationsTx t0 db)"
  obtain r where lock: "lockAvailableInventoryTx ex t0 db = Inr (r, ?db1)" using lockAvailable_total [OF s] by auto
  have inv: "inventoryInv ?db1" using inventoryReach_inv [OF inventoryReach.more [OF reach inventoryStep.expired]] .
  have r: "findItem (iv_id r) ?db1 = Some r" and el: "eligibleFor r ex ForAvailable t0 ?db1"
    using lockAvailable_Inr [OF lock] findItem_unique [OF inventoryInv_keys [OF inv]] by auto
  have un1: "unusedKeys q ord instanceId ?db1" using unused_released [OF inv un] .
  show ?thesis
  proof (rule exI [of _ r], rule exI [of _ ?db1], intro conjI allI impI lock)
    fix t1 t2 t3 t4 expiry revn revn'
    assume fresh: "isPreprovisionedInventoryFresh r t1" "isPreprovisionedInventoryFresh r t2"
      "isPreprovisionedInventoryFresh r t3" "isPreprovisionedInventoryFresh r t4" and limit: "t2 < expiry" "t3 < expiry" "t4 < expiry"
    obtain db2 r2 db3 r3 c db4 where path: "reserveLockedInventoryForQuoteTx (iv_id r) q revn expiry t1 ?db1 = Inr db2"
        "bindInventoryReservationToOrderTx (iv_id r) q ord revn' ex t2 db2 = Inr (r2, db3)"
        "lockReservedInventoryForPaymentTx (iv_id r) q ord revn' ex t3 db3 = Inr r3" "iv_providerResourceId r3 = iv_providerResourceId r"
        "credentialOf (iv_id r) ?db1 = Some c"
        "dispatchReservedInventoryTx (dispatchOrderOf ord ex (iv_id r)) instanceId t4 db3 = Inr (instanceCredential instanceId c t4, db4)"
      using reserved_path [OF inv r el un1 fresh limit, of revn revn'] by (elim exE conjE)
    have keys3: "inventoryKeys db3"
      using step_keys [OF inventoryStep.ordered [OF path(2)]] step_keys [OF inventoryStep.quoted [OF path(1)]] inventoryInv_keys [OF inv]
      by simp
    from dispatch_Inr [OF path(6) keys3] obtain x where x: "findItem (iv_id r) db3 = Some x"
        "findItem (iv_id r) db4 = Some (x\<lparr>iv_status := IV_ASSIGNED, iv_assignedOrderId := Some ord, iv_reservationExpiresAt := None\<rparr>)"
      by (auto simp: dispatchOrderOf_def)
    have "r3 = x" using path(3) x(1) by (auto simp: lockReservedInventoryForPaymentTx_def split: if_splits)
    then show "\<exists>db2 r2 db3 r3 c db4 r4.
          reserveLockedInventoryForQuoteTx (iv_id r) q revn expiry t1 ?db1 = Inr db2 \<and>
          bindInventoryReservationToOrderTx (iv_id r) q ord revn' ex t2 db2 = Inr (r2, db3) \<and>
          lockReservedInventoryForPaymentTx (iv_id r) q ord revn' ex t3 db3 = Inr r3 \<and>
          dispatchReservedInventoryTx (dispatchOrderOf ord ex (iv_id r)) instanceId t4 db3 =
            Inr (instanceCredential instanceId c t4, db4) \<and>
          credentialOf (iv_id r) db = Some c \<and> findItem (iv_id r) db4 = Some r4 \<and> serverPhase r4 = Sold ord \<and>
          iv_providerResourceId r4 = iv_providerResourceId r"
      using path x(2) by - (rule exI [of _ db2], rule exI [of _ r2], rule exI [of _ db3], rule exI [of _ r3],
        rule exI [of _ c], rule exI [of _ db4],
        rule exI [of _ "x\<lparr>iv_status := IV_ASSIGNED, iv_assignedOrderId := Some ord, iv_reservationExpiresAt := None\<rparr>"],
        simp add: serverPhase_def inventory_view)
  qed
qed

section \<open>A sample server\<close>

definition sampleVault :: SecretVault where
  "sampleVault = \<lparr>sv_encrypt = (\<lambda>s. (rev s, ''iv'', ''tag'')), sv_fingerprint = id\<rparr>"

definition sampleOffer :: InventoryPlan where
  "sampleOffer = \<lparr>pn_id = ''p'', pn_provider = ARVAN, pn_apiVersion = ''v1'', pn_productKind = CLOUD_SERVER,
     pn_offerSource = PREPROVISIONED_INVENTORY, pn_regionCode = ''ir'', pn_sizeCode = ''s1'', pn_imageCode = ''img'',
     pn_catalogItem = Some (''k'', None)\<rparr>"

definition sampleResource :: ProviderResource where
  "sampleResource = \<lparr>rs_id = ''vm'', rs_state = ''ACTIVE'', rs_region = ''ir'', rs_externalPlanId = Some ''s1'',
     rs_externalImageId = Some ''img'', rs_ipv4 = Some ''1.1.1.1'', rs_networkIds = [''n''], rs_securityIds = [''f''],
     rs_observedAt = 0\<rparr>"

definition sampleWish :: ExpectedSelection where
  "sampleWish = \<lparr>ex_planId = ''p'', ex_catalogItemId = ''k'', ex_provider = ARVAN, ex_apiVersion = ''v1'',
     ex_regionCode = ''ir'', ex_externalPlanId = ''s1'', ex_externalImageId = ''img'', ex_externalNetworkId = Some ''n'',
     ex_externalSecurityId = Some ''f''\<rparr>"

definition emptyInventory :: InventoryDb where
  "emptyInventory = \<lparr>items = [], credentials = [], instanceCredentials = []\<rparr>"

fun committed :: "'e + 'd \<Rightarrow> 'd \<Rightarrow> 'd" where
  "committed (Inl e) d = d"
| "committed (Inr d') d = d'"

definition registeredDb :: InventoryDb where
  "registeredDb = committed (observeAndRegisterPreprovisionedInventory ''i'' (Some sampleOffer) (Some sampleResource) True 0
     emptyInventory) emptyInventory"

definition stockedDb :: InventoryDb where
  "stockedDb = snd (committed (storePreprovisionedInventoryCredential sampleVault ''c'' ''i'' ''admin'' ''root'' ''password1'' 1
     registeredDb) (storedCredential sampleVault '''' '''' '''' '''' '''', registeredDb))"

definition reservedDb :: InventoryDb where
  "reservedDb = committed (reserveLockedInventoryForQuoteTx ''i'' ''q'' 1 3600000 2 stockedDb) stockedDb"

definition boundDb :: InventoryDb where
  "boundDb = (case bindInventoryReservationToOrderTx ''i'' ''q'' ''o'' 2 sampleWish 3 reservedDb of
     Inl _ \<Rightarrow> reservedDb | Inr (_, db) \<Rightarrow> db)"

definition soldDb :: InventoryDb where
  "soldDb = (case dispatchReservedInventoryTx (dispatchOrderOf ''o'' sampleWish ''i'') ''vm1'' 4 boundDb of
     Inl _ \<Rightarrow> boundDb | Inr (_, db) \<Rightarrow> db)"

lemma sample_runs:
  "observeAndRegisterPreprovisionedInventory ''i'' (Some sampleOffer) (Some sampleResource) True 0 emptyInventory = Inr registeredDb"
  "map_sum id snd (storePreprovisionedInventoryCredential sampleVault ''c'' ''i'' ''admin'' ''root'' ''password1'' 1 registeredDb) =
    Inr stockedDb"
  "reserveLockedInventoryForQuoteTx ''i'' ''q'' 1 3600000 2 stockedDb = Inr reservedDb"
  "map_sum id snd (bindInventoryReservationToOrderTx ''i'' ''q'' ''o'' 2 sampleWish 3 reservedDb) = Inr boundDb"
  "map_sum id snd (dispatchReservedInventoryTx (dispatchOrderOf ''o'' sampleWish ''i'') ''vm1'' 4 boundDb) = Inr soldDb"
  by code_simp+

lemma sample_rows:
  "map_option serverPhase (findItem ''i'' stockedDb) = Some Stocked"
  "map_option (\<lambda>r. (iv_status r, iv_lastObservedAt r)) (findItem ''i'' boundDb) = Some (IV_RESERVED, 0)"
  "map_option serverPhase (findItem ''i'' soldDb) = Some (Sold ''o'')"
  "map_option (\<lambda>r. eligibleFor r sampleWish ForAvailable 2 stockedDb) (findItem ''i'' stockedDb) = Some True"
  "unusedKeys ''q'' ''o'' ''vm1'' stockedDb" "ic_id ` set (credentials registeredDb) = {}"
  by code_simp+

lemma inr_snd: "map_sum id snd x = Inr b \<Longrightarrow> \<exists>a. x = Inr (a, b)"
  by (cases x) auto

lemma sample_steps:
  "inventoryStep emptyInventory registeredDb" "inventoryStep registeredDb stockedDb" "inventoryStep stockedDb reservedDb"
  "inventoryStep reservedDb boundDb" "inventoryStep boundDb soldDb"
proof -
  show "inventoryStep emptyInventory registeredDb" using sample_runs(1) by (rule inventoryStep.observed)
  show "inventoryStep registeredDb stockedDb" using inr_snd [OF sample_runs(2)] sample_rows(6) by (auto intro: inventoryStep.stored)
  show "inventoryStep stockedDb reservedDb" using sample_runs(3) by (rule inventoryStep.quoted)
  show "inventoryStep reservedDb boundDb" using inr_snd [OF sample_runs(4)] by (auto intro: inventoryStep.ordered)
  show "inventoryStep boundDb soldDb" using inr_snd [OF sample_runs(5)]
    by (auto intro!: inventoryStep.dispatched simp: dispatchOrderOf_def)
qed

lemma sampleServer_reach:
  "inventoryReach stockedDb" "inventoryReach boundDb" "inventoryReach soldDb"
proof -
  have "inventoryReach emptyInventory" by (simp add: emptyInventory_def inventoryReach.empty)
  then show s: "inventoryReach stockedDb" using sample_steps(1,2) by (blast intro: inventoryReach.more)
  then show b: "inventoryReach boundDb" using sample_steps(3,4) by (blast intro: inventoryReach.more)
  then show "inventoryReach soldDb" using sample_steps(5) by (rule inventoryReach.more)
qed

text \<open>The sale of the sample server makes one move of its life.\<close>

lemma server_life_is_refined_witness:
  "\<exists>r r'. findItem ''i'' boundDb = Some r \<and> findItem ''i'' soldDb = Some r' \<and>
    (serverPhase r' = serverPhase r \<or> phaseMove (serverPhase r) (serverPhase r'))"
proof -
  obtain r where r: "findItem ''i'' boundDb = Some r" using sample_rows(2) by auto
  note all = server_life_is_refined [OF sampleServer_reach(2) sample_steps(5)]
  have "\<exists>r'. findItem ''i'' soldDb = Some r' \<and> (serverPhase r' = serverPhase r \<or> phaseMove (serverPhase r) (serverPhase r'))"
    using conjunct1 [OF all] r by simp
  then show ?thesis using r by auto
qed

text \<open>The sold sample server, after no further operation, is sold and cannot be dispatched again.\<close>

lemma server_sold_once_witness:
  "\<exists>r. findItem ''i'' soldDb = Some r \<and> iv_assignedOrderId r = Some ''o'' \<and> credentialStatusIs (credentialOf ''i'' soldDb) CRED_TRANSFERRED"
proof -
  obtain r where r: "findItem ''i'' soldDb = Some r" "serverPhase r = Sold ''o''" using sample_rows(3) by auto
  then have "iv_assignedOrderId r = Some ''o''" by (simp add: serverPhase_def split: option.splits)
  from server_sold_once [OF sampleServer_reach(3) r(1) this rtranclp.rtrancl_refl] show ?thesis
    by (elim exE conjE) (rule exI, intro conjI, assumption+)
qed

text \<open>The sample server, observed at 0 and reserved until 3600000, cannot be paid for at 300001.\<close>

lemma reserved_server_goes_stale_witness:
  "lockReservedInventoryForPaymentTx ''i'' ''q'' ''o'' 2 sampleWish 300001 boundDb = Inl ''inventory_unavailable''"
proof -
  obtain r where r: "findItem ''i'' boundDb = Some r" "iv_status r = IV_RESERVED" "iv_lastObservedAt r = 0"
    using sample_rows(2) by auto
  have "300001 > iv_lastObservedAt r + OBSERVATION_MAX_AGE_MS" by (simp add: r(3) OBSERVATION_MAX_AGE_MS_def)
  from reserved_server_goes_stale [OF sampleServer_reach(2) r(1,2) rtranclp.rtrancl_refl this] show ?thesis by (rule conjunct1)
qed

lemma sample_offer:
  "case lockAvailableInventoryTx sampleWish 2 stockedDb of Inl _ \<Rightarrow> False | Inr (r, _) \<Rightarrow> isPreprovisionedInventoryFresh r 5"
  by code_simp

text \<open>The sample server is offered at 2 and sold at 5.\<close>

lemma stocked_server_reaches_buyer_witness:
  "\<exists>(r :: InventoryItem) db3 n db4 r4. dispatchReservedInventoryTx (dispatchOrderOf ''o'' sampleWish (iv_id r)) ''vm1'' 5 db3 = Inr (n, db4) \<and>
     findItem (iv_id r) db4 = Some r4 \<and> serverPhase r4 = Sold ''o''"
proof -
  obtain s where s: "findItem ''i'' stockedDb = Some s" "eligibleFor s sampleWish ForAvailable 2 stockedDb"
    using sample_rows(4) by auto
  have "''o'' \<noteq> ''''" by simp
  from stocked_server_reaches_buyer [OF sampleServer_reach(1) s sample_rows(5) this] show ?thesis
  proof (elim exE conjE)
    fix r db1
    assume lock: "lockAvailableInventoryTx sampleWish 2 stockedDb = Inr (r, db1)"
      and path: "\<forall>t1 t2 t3 t4 expiry revn revn'. isPreprovisionedInventoryFresh r t1 \<longrightarrow> isPreprovisionedInventoryFresh r t2 \<longrightarrow>
       isPreprovisionedInventoryFresh r t3 \<longrightarrow> isPreprovisionedInventoryFresh r t4 \<longrightarrow>
       t2 < expiry \<longrightarrow> t3 < expiry \<longrightarrow> t4 < expiry \<longrightarrow>
       (\<exists>db2 r2 db3 r3 c db4 r4.
          reserveLockedInventoryForQuoteTx (iv_id r) ''q'' revn expiry t1 db1 = Inr db2 \<and>
          bindInventoryReservationToOrderTx (iv_id r) ''q'' ''o'' revn' sampleWish t2 db2 = Inr (r2, db3) \<and>
          lockReservedInventoryForPaymentTx (iv_id r) ''q'' ''o'' revn' sampleWish t3 db3 = Inr r3 \<and>
          dispatchReservedInventoryTx (dispatchOrderOf ''o'' sampleWish (iv_id r)) ''vm1'' t4 db3 =
            Inr (instanceCredential ''vm1'' c t4, db4) \<and>
          credentialOf (iv_id r) stockedDb = Some c \<and> findItem (iv_id r) db4 = Some r4 \<and> serverPhase r4 = Sold ''o'' \<and>
          iv_providerResourceId r4 = iv_providerResourceId r)"
    have fresh: "isPreprovisionedInventoryFresh r 5" using sample_offer lock by simp
    have limit: "(5 :: int) < 3600000" by simp
    from path [rule_format, OF fresh fresh fresh fresh limit limit limit, of 1 1] show ?thesis
      by (elim exE conjE) (rule exI [of _ r], rule exI, rule exI, rule exI, rule exI, intro conjI, assumption+)
  qed
qed

text \<open>The payment accepts the reservation of the sample server, the first search after the reservation's end frees it,
  and the dispatch of the paid order fails.\<close>

lemma paid_reservation_released:
  "case lockReservedInventoryForPaymentTx ''i'' ''q'' ''o'' 2 sampleWish 5 boundDb of Inl _ \<Rightarrow> False | Inr r \<Rightarrow> iv_id r = ''i''"
  "map_option serverPhase (findItem ''i'' (snd (releaseExpiredInventoryReservationsTx 3600000 boundDb))) = Some Stocked"
  "case dispatchReservedInventoryTx (dispatchOrderOf ''o'' sampleWish ''i'') ''vm1'' 3600001
     (snd (releaseExpiredInventoryReservationsTx 3600000 boundDb)) of Inl e \<Rightarrow> e = ''inventory_assignment_conflict'' | Inr _ \<Rightarrow> False"
  by code_simp+

end
