(* ===== verification/OrderPaymentProperties.thy ===== *)
theory OrderPaymentProperties
  imports OrderPayment PaymentSafety InventoryProperties
begin

text \<open>
  What paying an order guarantees: a payment that succeeds does all of it, exactly and once; one that fails moves no
  money. And two ways in which it goes wrong: a stranger's attempt frees a reserved server, and a server name that
  is taken blocks the payment for ever.
\<close>

section \<open>The parts of a payment\<close>

lemma findOrder_id: "findOrder i db = Some r \<Longrightarrow> od_id r = i"
  by (simp add: findOrder_def findRow_Some [where p = "\<lambda>r. od_id r = i", THEN conjunct1])

lemma findOrder_mem: "findOrder i db = Some r \<Longrightarrow> r \<in> set (orders db)"
  by (simp add: findOrder_def findRow_Some [where p = "\<lambda>r. od_id r = i", THEN conjunct2])

lemma debit_needs_wallet:
  assumes "debitTx i db = Inr (e, db')" and "0 < in_amountRial i"
  shows "getWalletForUser (in_userId i) db \<noteq> None"
proof
  assume none: "getWalletForUser (in_userId i) db = None"
  let ?w = "\<lparr>w_id = in_newWalletId i, w_userId = in_userId i, w_availableBalance = 0, w_status = WS_ACTIVE\<rparr>"
  let ?p = "\<lambda>w. w_id w = in_newWalletId i \<and> in_amountRial i \<le> w_availableBalance w \<and> w_status w = WS_ACTIVE"
  have en: "findWallet (in_newWalletId i) db = None"
      "ensureWalletForUser (in_userId i) (in_newWalletId i) db = Inr (?w, db\<lparr>wallets := wallets db @ [?w]\<rparr>)"
    using assms(1) none by (auto simp: debitTx_def ensureWalletForUser_def Let_def split: if_split_asm)
  have "\<forall>w \<in> set (wallets db). w_id w \<noteq> in_newWalletId i" using en(1) by (simp add: findWallet_def findRow_None)
  then have "countRows ?p (wallets db @ [?w]) = 0" using assms(2) by (auto simp: countRows_def filter_empty_conv)
  then have "fst (decrementIf (in_newWalletId i) (in_amountRial i) True (db\<lparr>wallets := wallets db @ [?w]\<rparr>)) = 0"
    by (simp add: decrementIf_def Let_def)
  then show False using assms(1) en(2) by (auto simp: debitTx_def split: prod.splits)
qed

lemma debit_exact:
  assumes "walletInv db" and "debitTx i db = Inr (e, db')" and "0 < in_amountRial i"
    and fresh: "findByIdempotency (in_idempotencyKey i) db = None"
  shows "\<exists>w. getWalletForUser (in_userId i) db = Some w \<and> w_status w = WS_ACTIVE \<and> in_amountRial i \<le> w_availableBalance w \<and>
    e = newEntry i DEBIT w (w_availableBalance w - in_amountRial i) \<and>
    db' = db\<lparr>wallets := updateRows (\<lambda>v. w_id v = w_id w) (addBalance (- in_amountRial i)) (wallets db), ledger := ledger db @ [e]\<rparr>"
proof -
  obtain w where w: "getWalletForUser (in_userId i) db = Some w" using debit_needs_wallet [OF assms(2,3)] by auto
  have run: "debitWallet i db = Inr (e, db')" using assms(2,3) fresh by (simp add: debitWallet_def)
  have key: "le_id e = in_newEntryId i" "ledger db' = ledger db @ [e]" and inv': "walletInv db'"
    using debitTx_Inr [OF assms(1-3)] assms(2)
    by (auto simp: debitTx_def bindE_eq_Inr Let_def insertEntry_Inr newEntry_def split: if_split_asm option.split_asm prod.split_asm)
  have none: "findEntry (in_newEntryId i) db = None"
  proof -
    have "le_id e \<notin> le_id ` set (ledger db)" using inv' key(2) by (simp add: walletInv_def)
    then show ?thesis unfolding findEntry_def findRow_None key(1) by (metis imageI)
  qed
  note out = debit_outcome [OF assms(1) w assms(3) fresh none]
  have "w_status w = WS_ACTIVE \<and> in_amountRial i \<le> w_availableBalance w" using run unfolding out by (auto split: if_split_asm)
  then show ?thesis using run w unfolding out by auto
qed

lemma postPurchase_Inr:
  assumes "postPurchase jid orderId db = Inr db'"
  shows "\<exists>ord e snap. findOrder orderId db = Some ord \<and> resolveOrderSnapshots (accountingOrder ord (orderQuote ord db)) = Inr snap \<and>
    postJournalEntryTx jid (purchaseInput (accountingOrder ord (orderQuote ord db)) snap) db = Inr (e, db')"
  using assms by (auto simp: postPurchase_def postServicePurchaseCompleted_def postJournalEntry_def bindE_eq_Inr split: option.splits)

lemma redeem_rest:
  assumes "redeemOrderCoupon userId ord db = Inr db'"
  shows "\<exists>rs cs. db' = db\<lparr>redemptions := rs, coupons := cs\<rparr>"
proof -
  have same: "\<exists>rs cs. db = db\<lparr>redemptions := rs, coupons := cs\<rparr>"
    by (rule exI [of _ "redemptions db"], rule exI [of _ "coupons db"]) simp
  have "\<exists>rs cs. db' = db\<lparr>redemptions := rs, coupons := cs\<rparr>" if run: "recordCouponRedemptionTx r db = Inr (x, db')" for r x
  proof (cases "db' = db")
    case True
    then show ?thesis using same by simp
  next
    case False
    then have "db' = db\<lparr>redemptions := redemptions db @ [r],
        coupons := updateRows (\<lambda>c. cp_id c = rd_couponId r) countRedemption (coupons db)\<rparr>"
      using run by (auto simp: recordCouponRedemptionTx_def split: option.splits if_splits)
    then show ?thesis by (intro exI)
  qed
  then show ?thesis using assms same by (auto simp: redeemOrderCoupon_def bindE_eq_Inr split: option.splits)
qed

lemma debit_rest: "debitTx i db = Inr (e, db') \<Longrightarrow> \<exists>ws. db' = db\<lparr>wallets := ws, ledger := ledger db @ [e]\<rparr>"
proof -
  assume "debitTx i db = Inr (e, db')"
  then obtain w db1 db2 and fresh :: WalletRow where
    en: "ensureWalletForUser (in_userId i) (in_newWalletId i) db = Inr (w, db1)"
    and dec: "decrementIf (w_id w) (in_amountRial i) True db1 = (1, db2)"
    and ins: "insertEntry (newEntry i DEBIT w (w_availableBalance fresh)) db2 = Inr (e, db')"
    by (auto simp: debitTx_def bindE_eq_Inr Let_def split: if_split_asm prod.splits option.splits)
  obtain ws where "db1 = db\<lparr>wallets := ws\<rparr>"
  proof (cases "db1 = db")
    case True
    then show ?thesis using that [of "wallets db"] by simp
  next
    case False
    then show ?thesis using en that by (auto simp: ensureWalletForUser_def Let_def split: option.splits if_split_asm)
  qed
  moreover have "\<exists>ws. db2 = db1\<lparr>wallets := ws\<rparr>"
    using dec by (auto simp: decrementIf_def Let_def updateBalance_def split: if_split_asm)
  ultimately show ?thesis using ins by (auto simp: insertEntry_Inr)
qed

lemma debit_fresh:
  assumes "debitTx i db = Inr (e, db')"
  shows "findByIdempotency (in_idempotencyKey i) db = None"
proof -
  have "ledger d = ledger db" if "ensureWalletForUser u w db = Inr (x, d)" for u w x d
    using that by (auto simp: ensureWalletForUser_def Let_def split: option.splits if_split_asm)
  moreover have "ledger d = ledger c" if "decrementIf w a True c = (n, d)" for w a c n and d :: "'a WalletDb_scheme"
    using that by (auto simp: decrementIf_def Let_def updateBalance_def split: if_split_asm)
  ultimately show ?thesis
    using assms by (auto simp: debitTx_def bindE_eq_Inr Let_def insertEntry_Inr findByIdempotency_def newEntry_def
      split: if_split_asm prod.splits option.splits)
qed

text \<open>The plan of an order, and the stock after the payment: one unit less of a plan that is stocked by hand.\<close>

definition orderPlan :: "SaleTables \<Rightarrow> OrderRow \<Rightarrow> OrderPlan option" where
  "orderPlan tabs ord = (case od_planId ord of None \<Rightarrow> None | Some i \<Rightarrow> findRow (\<lambda>p. op_id p = i) (st_plans tabs))"

definition stockedBy :: "int \<Rightarrow> OrderPlan \<Rightarrow> StockRow \<Rightarrow> bool" where
  "stockedBy now plan s \<longleftrightarrow> pl_offerSource (op_plan plan) = MANUAL_ADMIN \<and>
     (case op_catalogItemId plan of None \<Rightarrow> False | Some i \<Rightarrow> unitAvailable now i s)"

lemma updateRows_none: "\<forall>x \<in> set t. \<not> p x \<Longrightarrow> updateRows p f t = t"
  by (induction t) auto

lemma reserveUnit_Inr:
  assumes "reserveManualUnit now ord plan db = Inr r"
  shows "case r of Some db1 \<Rightarrow> db1 = db\<lparr>stock := updateRows (stockedBy now plan) takeUnit (stock db)\<rparr> \<and>
      (pl_offerSource (op_plan plan) = MANUAL_ADMIN \<longrightarrow> countRows (stockedBy now plan) (stock db) = 1)
    | None \<Rightarrow> ledgerCompleted (payKey (od_id ord)) db \<or> map_option od_status (findOrder (od_id ord) db) = Some SO_PAID"
proof (cases "pl_offerSource (op_plan plan) = MANUAL_ADMIN")
  case False
  then have "updateRows (stockedBy now plan) takeUnit (stock db) = stock db"
    by (intro updateRows_none) (simp add: stockedBy_def)
  then show ?thesis using assms False by (auto simp: reserveManualUnit_def)
next
  case True
  then obtain i where i: "op_catalogItemId plan = Some i"
    using assms by (auto simp: reserveManualUnit_def truthyId_def split: option.splits if_splits)
  then have "stockedBy now plan = unitAvailable now i" using True by (simp add: stockedBy_def fun_eq_iff)
  then show ?thesis using assms True i
    by (auto simp: reserveManualUnit_def truthyId_def split: if_splits option.splits)
qed

text \<open>A payment that succeeds: the order was paid before, or its debit is in the ledger, or it is debited now.\<close>

definition paymentRun ::
  "SaleTables \<Rightarrow> int \<Rightarrow> PaymentIds \<Rightarrow> string \<Rightarrow> OrderRow \<Rightarrow> OrderDb \<Rightarrow> OrderRow \<times> InfraOrderRow option \<Rightarrow> OrderDb \<Rightarrow> bool" where
  "paymentRun tabs now ids userId ord db answer db' \<longleftrightarrow> (\<exists>plan pricing item.
     orderPlan tabs ord = Some plan \<and>
     payablePlan tabs now ord plan = Inr () \<and> currentPricing tabs now ord (orderQuote ord db) plan = Inr (Some pricing) \<and>
     paymentInventory now ord (orderQuote ord db) plan (ep_catalogItemId pricing) db = Inr item \<and> 1 < od_amount ord \<and>
     (pl_offerSource (op_plan plan) = MANUAL_ADMIN \<longrightarrow> countRows (stockedBy now plan) (stock db) = 1) \<and>
     debitAndComplete now ids userId ord (orderQuote ord db) plan pricing item
       (db\<lparr>stock := updateRows (stockedBy now plan) takeUnit (stock db)\<rparr>) = Inr (answer, db'))"

lemma payment_Inr:
  assumes run: "executePayOrderWithWalletTx tabs now ids userId orderId db = Inr (answer, db')"
  shows "\<exists>ord. findOrder orderId db = Some ord \<and> od_userId ord = userId \<and>
    (db' = db \<and> (od_status ord = SO_PAID \<or> ledgerCompleted (payKey orderId) db) \<or>
     od_status ord = SO_PENDING_PAYMENT \<and> payableOrder now ord db = Inr () \<and> paymentRun tabs now ids userId ord db answer db')"
proof -
  obtain ord where ord: "findOrder orderId db = Some ord" "od_userId ord = userId"
    using run by (auto simp: executePayOrderWithWalletTx_def split: option.splits if_split_asm)
  show ?thesis
  proof (cases "od_status ord = SO_PAID")
    case True
    then show ?thesis using run ord by (auto simp: executePayOrderWithWalletTx_def)
  next
    case False
    then have "bindE (payableOrder now ord db) (\<lambda>_. case orderPlan tabs ord of None \<Rightarrow> Inl ''invalid_plan''
        | Some plan \<Rightarrow> payPlannedOrder tabs now ids userId ord plan db) = Inr (answer, db')"
      using run ord by (simp add: executePayOrderWithWalletTx_def orderPlan_def)
    then obtain plan where payable: "payableOrder now ord db = Inr ()" and plan: "orderPlan tabs ord = Some plan"
      and planned: "payPlannedOrder tabs now ids userId ord plan db = Inr (answer, db')"
      by (auto simp: bindE_eq_Inr split: option.splits)
    have pending: "od_status ord = SO_PENDING_PAYMENT" using payable by (auto simp: payableOrder_def split: if_split_asm)
    obtain pricing item reserved where gates: "payablePlan tabs now ord plan = Inr ()"
        "currentPricing tabs now ord (orderQuote ord db) plan = Inr (Some pricing)"
        "paymentInventory now ord (orderQuote ord db) plan (ep_catalogItemId pricing) db = Inr item" "1 < od_amount ord"
      and unit: "reserveManualUnit now ord plan db = Inr reserved"
      and rest: "(case reserved of None \<Rightarrow> orderAnswer (od_id ord) (infraOf (od_id ord) db) db
        | Some d \<Rightarrow> debitAndComplete now ids userId ord (orderQuote ord db) plan pricing item d) = Inr (answer, db')"
      using planned by (auto simp: payPlannedOrder_def Let_def bindE_eq_Inr split: option.splits if_split_asm)
    show ?thesis
    proof (cases reserved)
      case None
      then have "db' = db" using rest by (auto simp: orderAnswer_def split: option.splits)
      moreover have "ledgerCompleted (payKey orderId) db"
        using reserveUnit_Inr [OF unit] None ord pending findOrder_id [OF ord(1)] by simp
      ultimately show ?thesis using ord by auto
    next
      case (Some db1)
      have s: "db1 = db\<lparr>stock := updateRows (stockedBy now plan) takeUnit (stock db)\<rparr>"
        "pl_offerSource (op_plan plan) = MANUAL_ADMIN \<longrightarrow> countRows (stockedBy now plan) (stock db) = 1"
        using reserveUnit_Inr [OF unit] Some by simp_all
      have "paymentRun tabs now ids userId ord db answer db'"
        unfolding paymentRun_def
        by (rule exI [of _ plan], rule exI [of _ pricing], rule exI [of _ item])
          (use plan gates rest Some s(2) in \<open>simp add: s(1) [symmetric]\<close>)
      then show ?thesis using ord pending payable by simp
    qed
  qed
qed

text \<open>What follows the debit, when the order has no infrastructure order yet.\<close>

lemma complete_Inr:
  assumes run: "completePurchase now ids userId ord q plan pricing item revn db = Inr (answer, db')"
    and none: "infraOf (od_id ord) db = None"
  defines "n \<equiv> newInfraOrder (ni_infra ids) userId ord q plan pricing item"
  shows "\<exists>db1 js db2 rs cs db4 db5. markPaid now (od_id ord) db = Inr db1 \<and>
    postPurchase (ni_journal ids) (od_id ord) db1 = Inr (db1\<lparr>journal := js\<rparr>) \<and>
    db2 = db1\<lparr>journal := js, redemptions := rs, coupons := cs\<rparr> \<and> redeemOrderCoupon userId ord (db1\<lparr>journal := js\<rparr>) = Inr db2 \<and>
    createInfraOrder n revn db2 = Inr db4 \<and> transitionTx (paidInput userId ord q (io_id n)) db4 = Inr db5 \<and>
    orderAnswer (od_id ord) (Some n) (convertQuote now q (db5\<lparr>fundingNotices := fundingNotices db5 @ [io_id n]\<rparr>)) =
      Inr (answer, db')"
proof -
  obtain db1 b db2 where db1: "markPaid now (od_id ord) db = Inr db1"
    and post: "postPurchase (ni_journal ids) (od_id ord) db1 = Inr b"
    and redeem: "redeemOrderCoupon userId ord b = Inr db2"
    and rest: "(case infraOf (od_id ord) db2 of Some infra \<Rightarrow> orderAnswer (od_id ord) (Some infra) db2
     | None \<Rightarrow> bindE (createInfraOrder n revn db2) (\<lambda>db.
       bindE (transitionTx (paidInput userId ord q (io_id n)) db) (\<lambda>db.
       orderAnswer (od_id ord) (Some n) (convertQuote now q (db\<lparr>fundingNotices := fundingNotices db @ [io_id n]\<rparr>))))) = Inr (answer, db')"
    using run unfolding completePurchase_def Let_def bindE_eq_Inr n_def [symmetric]
    by (elim exE conjE) (rule that, assumption+)
  obtain js where b: "b = db1\<lparr>journal := js\<rparr>" using postPurchase_Inr [OF post]
    by (elim exE conjE) (drule posted_rest, elim exE, rule that, assumption)
  obtain rs cs where db2: "db2 = b\<lparr>redemptions := rs, coupons := cs\<rparr>" using redeem_rest [OF redeem] by (elim exE)
  have "infraOf (od_id ord) db2 = None"
    using none db1 by (auto simp: db2 b infraOf_def markPaid_def Let_def split: if_split_asm)
  then obtain db4 db5 where "createInfraOrder n revn db2 = Inr db4"
      "transitionTx (paidInput userId ord q (io_id n)) db4 = Inr db5"
      "orderAnswer (od_id ord) (Some n) (convertQuote now q (db5\<lparr>fundingNotices := fundingNotices db5 @ [io_id n]\<rparr>)) = Inr (answer, db')"
    using rest by (auto simp: bindE_eq_Inr)
  then show ?thesis using db1 post b db2 redeem
    by - (rule exI [of _ db1], rule exI [of _ js], rule exI [of _ db2], rule exI [of _ rs], rule exI [of _ cs],
      rule exI [of _ db4], rule exI [of _ db5], simp)
qed

section \<open>One debit for an order\<close>

definition ledgerKnows :: "string \<Rightarrow> OrderDb \<Rightarrow> bool" where
  "ledgerKnows key db \<longleftrightarrow> findByIdempotency key db \<noteq> None"

lemma complete_money:
  assumes run: "completePurchase now ids userId ord q plan pricing item revn db = Inr (answer, db')"
  shows "wallets db' = wallets db \<and> ledger db' = ledger db \<and> inventory db' = inventory db"
proof -
  obtain db1 b db2 where db1: "markPaid now (od_id ord) db = Inr db1"
    and post: "postPurchase (ni_journal ids) (od_id ord) db1 = Inr b"
    and redeem: "redeemOrderCoupon userId ord b = Inr db2"
    and rest: "wallets db' = wallets db2 \<and> ledger db' = ledger db2 \<and> inventory db' = inventory db2"
    using run unfolding completePurchase_def Let_def bindE_eq_Inr
    by (elim exE conjE) (rule that, assumption+,
      auto simp: orderAnswer_def createInfraOrder_def transitionTx_def convertQuote_def bindE_eq_Inr split: option.splits sum.splits if_split_asm)
  obtain js where b: "b = db1\<lparr>journal := js\<rparr>" using postPurchase_Inr [OF post]
    by (elim exE conjE) (drule posted_rest, elim exE, rule that, assumption)
  obtain rs cs where db2: "db2 = b\<lparr>redemptions := rs, coupons := cs\<rparr>" using redeem_rest [OF redeem] by (elim exE)
  show ?thesis using rest db1 by (auto simp: db2 b markPaid_def Let_def split: if_split_asm)
qed

lemma debitAndComplete_money:
  assumes run: "debitAndComplete now ids userId ord q plan pricing item db = Inr (answer, db')"
  shows "wallets db' = wallets db \<and> ledger db' = ledger db \<and> ledgerCompleted (payKey (od_id ord)) db \<or>
    \<not> ledgerKnows (payKey (od_id ord)) db \<and>
    (\<exists>e db1. debitTx (purchaseDebit ids userId ord) db = Inr (e, db1) \<and> wallets db' = wallets db1 \<and> ledger db' = ledger db1)"
proof (cases "ledgerCompleted (payKey (od_id ord)) db")
  case True
  then obtain b where redeem: "redeemOrderCoupon userId ord db = Inr b"
    and post: "postPurchase (ni_journal ids) (od_id ord) b = Inr db'"
    using run by (auto simp: debitAndComplete_def bindE_eq_Inr orderAnswer_def split: option.splits)
  obtain js where "db' = b\<lparr>journal := js\<rparr>" using postPurchase_Inr [OF post]
    by (elim exE conjE) (drule posted_rest, elim exE, rule that, assumption)
  moreover obtain rs cs where "b = db\<lparr>redemptions := rs, coupons := cs\<rparr>" using redeem_rest [OF redeem] by (elim exE)
  ultimately show ?thesis using True by simp
next
  case False
  then obtain e db1 where d: "debitTx (purchaseDebit ids userId ord) db = Inr (e, db1)"
    and c: "completePurchase now ids userId ord q plan pricing item (orderRevision (od_id ord) db1) db1 = Inr (answer, db')"
    using run by (auto simp: debitAndComplete_def bindE_eq_Inr)
  have "\<not> ledgerKnows (payKey (od_id ord)) db"
    using debit_fresh [OF d] by (simp add: ledgerKnows_def purchaseDebit_def)
  then show ?thesis using d complete_money [OF c] by blast
qed

lemma payment_inventory:
  assumes run: "executePayOrderWithWalletTx tabs now ids userId orderId db = Inr (answer, db')"
  shows "inventory db' = inventory db"
proof -
  have "inventory db' = inventory d"
    if deb: "debitAndComplete now ids userId ord q plan pricing item d = Inr (answer, db')" for ord q plan pricing item d
  proof (cases "ledgerCompleted (payKey (od_id ord)) d")
    case True
    then obtain b where redeem: "redeemOrderCoupon userId ord d = Inr b"
      and post: "postPurchase (ni_journal ids) (od_id ord) b = Inr db'"
      using deb by (auto simp: debitAndComplete_def bindE_eq_Inr orderAnswer_def split: option.splits)
    obtain js where "db' = b\<lparr>journal := js\<rparr>" using postPurchase_Inr [OF post]
      by (elim exE conjE) (drule posted_rest, elim exE, rule that, assumption)
    moreover obtain rs cs where "b = d\<lparr>redemptions := rs, coupons := cs\<rparr>" using redeem_rest [OF redeem] by (elim exE)
    ultimately show ?thesis by simp
  next
    case False
    then obtain e db1 where d1: "debitTx (purchaseDebit ids userId ord) d = Inr (e, db1)"
      and c: "completePurchase now ids userId ord q plan pricing item (orderRevision (od_id ord) db1) db1 = Inr (answer, db')"
      using deb by (auto simp: debitAndComplete_def bindE_eq_Inr)
    obtain ws where "db1 = d\<lparr>wallets := ws, ledger := ledger d @ [e]\<rparr>" using debit_rest [OF d1] by (elim exE)
    then show ?thesis using complete_money [OF c] by simp
  qed
  then show ?thesis using payment_Inr [OF run] by (fastforce simp: paymentRun_def)
qed

lemma filter_key: "distinct (map k t) \<Longrightarrow> x \<in> set t \<Longrightarrow> filter (\<lambda>y. k y = k x) t = [x]"
  by (induction t) (auto simp: filter_empty_conv image_iff)

lemma ensureWallet_ledger: "ensureWalletForUser u w db = Inr (x, d) \<Longrightarrow> ledger d = ledger db"
  by (auto simp: ensureWalletForUser_def Let_def split: option.splits if_split_asm)

lemma decrementIf_ledger: "decrementIf w a b db = (n, d) \<Longrightarrow> ledger d = ledger db"
  by (auto simp: decrementIf_def Let_def)

text \<open>What the commands of the wallet do to the ledger, whatever the state of the wallets.\<close>

definition ledgerGrown :: "LedgerEntry \<Rightarrow> 'a WalletDb_scheme \<Rightarrow> 'a WalletDb_scheme \<Rightarrow> bool" where
  "ledgerGrown e db db' \<longleftrightarrow> findByIdempotency (le_idempotencyKey e) db = None \<and> ledger db' = ledger db @ [e]"

lemma ledgerGrown_keys: "ledgerGrown e db db' \<Longrightarrow>
    le_idempotencyKey e \<notin> le_idempotencyKey ` set (ledger db) \<and> ledger db' = ledger db @ [e]"
  by (force simp: ledgerGrown_def findByIdempotency_def findRow_None)

lemma insert_grown: "insertEntry e d = Inr (e', db') \<Longrightarrow> ledger d = ledger db \<Longrightarrow> e' = e \<and> ledgerGrown e db db'"
  by (auto simp: insertEntry_Inr ledgerGrown_def findByIdempotency_def)

lemma debit_grown:
  assumes "debitTx i db = Inr (e, db')"
  shows "ledgerGrown e db db' \<and> le_idempotencyKey e = in_idempotencyKey i \<and> le_direction e = DEBIT \<and> le_amount e = in_amountRial i"
proof -
  obtain w d1 d2 b where en: "ensureWalletForUser (in_userId i) (in_newWalletId i) db = Inr (w, d1)"
    and dec: "decrementIf (w_id w) (in_amountRial i) True d1 = (1, d2)"
    and ins: "insertEntry (newEntry i DEBIT w b) d2 = Inr (e, db')"
    using assms by (auto simp: debitTx_def bindE_eq_Inr Let_def split: if_split_asm prod.splits option.splits)
  have "ledger d2 = ledger db" using ensureWallet_ledger [OF en] decrementIf_ledger [OF dec] by simp
  from insert_grown [OF ins this] show ?thesis by (auto simp: newEntry_def)
qed

lemma credit_grown: "creditTx i db = Inr (e, db') \<Longrightarrow> ledgerGrown e db db'"
proof -
  assume "creditTx i db = Inr (e, db')"
  then obtain w d1 b where en: "ensureWalletForUser (in_userId i) (in_newWalletId i) db = Inr (w, d1)"
    and ins: "insertEntry (newEntry i CREDIT w b) (updateBalance (w_id w) (in_amountRial i) d1) = Inr (e, db')"
    by (auto simp: creditTx_def bindE_eq_Inr Let_def split: if_split_asm option.splits)
  have "ledger (updateBalance (w_id w) (in_amountRial i) d1) = ledger db"
    using ensureWallet_ledger [OF en] by (simp add: updateBalance_def)
  from insert_grown [OF ins this] show ?thesis by simp
qed

lemma reverse_grown: "reverseTx i db = Inr (e, db') \<Longrightarrow> db' = db \<or> ledgerGrown e db db'"
proof -
  assume run: "reverseTx i db = Inr (e, db')"
  have "db' = db \<or> (\<exists>x d. insertEntry x d = Inr (e, db') \<and> ledger d = ledger db)"
  proof (cases "db' = db")
    case False
    show ?thesis using run False decrementIf_ledger
      by (auto simp: reverseTx_def Let_def updateBalance_def split: if_split_asm option.splits LedgerDirection.splits prod.splits)
        fastforce+
  qed simp
  then show ?thesis using insert_grown by blast
qed

lemma command_grown: "walletCommand c db = Inr (e, db') \<Longrightarrow> db' = db \<or> ledgerGrown e db db'"
  by (cases c) (auto simp: creditWallet_def debitWallet_def reverseLedgerEntry_def
    dest: credit_grown debit_grown [THEN conjunct1] reverse_grown split: if_split_asm option.splits)

text \<open>
  What can happen to the ledger. Sessions pay orders and run wallet commands; and everything else the program does may
  change the wallets in any way - create, freeze and unfreeze them, credit or charge them, frozen or not - and add
  entries. No statement of the program updates or deletes a ledger entry, and the key of an entry is unique.
\<close>

inductive orderStep :: "OrderDb \<Rightarrow> OrderDb \<Rightarrow> bool" where
  paid: "executePayOrderWithWalletTx tabs now ids userId orderId db = Inr (answer, db') \<Longrightarrow> orderStep db db'"
| wallet: "walletCommand c db = Inr (e, db') \<Longrightarrow> orderStep db db'"
| other: "set (ledger db) \<subseteq> set (ledger db') \<Longrightarrow> distinct (map le_idempotencyKey (ledger db')) \<Longrightarrow> orderStep db db'"

lemma ledgerKnows_cong: "ledger db' = ledger db \<Longrightarrow> ledgerKnows key db' = ledgerKnows key db"
  by (simp add: ledgerKnows_def findByIdempotency_def)

lemma payment_money:
  assumes run: "executePayOrderWithWalletTx tabs now ids userId orderId db = Inr (answer, db')"
  shows "wallets db' = wallets db \<and> ledger db' = ledger db \<or>
    (\<exists>ord e. findOrder orderId db = Some ord \<and> od_userId ord = userId \<and> \<not> ledgerKnows (payKey orderId) db \<and>
      ledger db' = ledger db @ [e] \<and> le_idempotencyKey e = payKey orderId \<and> le_direction e = DEBIT \<and> le_amount e = od_amount ord)"
proof -
  obtain ord where ord: "findOrder orderId db = Some ord" "od_userId ord = userId"
    and cases': "db' = db \<or> paymentRun tabs now ids userId ord db answer db'"
    using payment_Inr [OF run] by (elim exE conjE disjE) auto
  note i = findOrder_id [OF ord(1)]
  show ?thesis
  proof (cases "db' = db")
    case True
    then show ?thesis by simp
  next
    case False
    then obtain plan pricing item s where
      deb: "debitAndComplete now ids userId ord (orderQuote ord db) plan pricing item (db\<lparr>stock := s\<rparr>) = Inr (answer, db')"
      using cases' by (auto simp: paymentRun_def)
    from debitAndComplete_money [OF deb] show ?thesis
    proof (elim disjE conjE exE)
      fix e db1
      assume fresh: "\<not> ledgerKnows (payKey (od_id ord)) (db\<lparr>stock := s\<rparr>)"
        and d: "debitTx (purchaseDebit ids userId ord) (db\<lparr>stock := s\<rparr>) = Inr (e, db1)"
        and same: "wallets db' = wallets db1" "ledger db' = ledger db1"
      have "ledger db' = ledger db @ [e] \<and> le_idempotencyKey e = payKey orderId \<and> le_direction e = DEBIT \<and> le_amount e = od_amount ord"
        using debit_grown [OF d] same i by (simp add: purchaseDebit_def ledgerGrown_def)
      moreover have "\<not> ledgerKnows (payKey orderId) db"
        using fresh i ledgerKnows_cong [of "db\<lparr>stock := s\<rparr>" db] by simp
      ultimately show ?thesis using ord by blast
    qed simp
  qed
qed

lemma ledgerKnows_iff: "ledgerKnows key db \<longleftrightarrow> key \<in> le_idempotencyKey ` set (ledger db)"
  by (auto simp: ledgerKnows_def findByIdempotency_def findRow_None)

lemma orderStep_ledger:
  assumes "orderStep db db'" and "distinct (map le_idempotencyKey (ledger db))"
  shows "set (ledger db) \<subseteq> set (ledger db') \<and> distinct (map le_idempotencyKey (ledger db'))"
  using assms
proof (cases rule: orderStep.cases)
  case (paid tabs now ids userId orderId answer)
  then show ?thesis using payment_money [OF paid] assms(2) by (auto simp: ledgerKnows_iff)
next
  case (wallet c e)
  then show ?thesis using command_grown [OF wallet] assms(2) by (auto dest!: ledgerGrown_keys)
qed simp

lemma orderSteps_ledger:
  "orderStep\<^sup>*\<^sup>* db db' \<Longrightarrow> distinct (map le_idempotencyKey (ledger db)) \<Longrightarrow>
    set (ledger db) \<subseteq> set (ledger db') \<and> distinct (map le_idempotencyKey (ledger db'))"
  by (induction rule: rtranclp_induct) (use orderStep_ledger in fastforce)+

text \<open>C10: Once a payment of an order has debited the wallet, paying the order again, by whomever, in whatever later state
  of the database, moves no money: the wallets and the ledger stay as they are, and exactly one ledger entry bears the
  order's key, with its amount. Between the two payments anything may have happened to the orders and to the wallets,
  which may have been frozen, credited or charged by any other part of the program, as long as ledger entries are only
  added, each with a key of its own; so it is in the code, which only creates entries, in a table with a unique key.\<close>

theorem order_debited_once:
  assumes keys: "distinct (map le_idempotencyKey (ledger db))"
    and first: "executePayOrderWithWalletTx tabs now ids userId orderId db = Inr (answer, db1)" "ledger db1 \<noteq> ledger db"
    and between: "orderStep\<^sup>*\<^sup>* db1 db2"
    and again: "executePayOrderWithWalletTx tabs' now' ids' userId' orderId db2 = Inr (answer', db3)"
  shows "wallets db3 = wallets db2 \<and> ledger db3 = ledger db2 \<and>
    (\<exists>ord. findOrder orderId db = Some ord \<and>
      map (\<lambda>e. (le_direction e, le_amount e)) (filter (\<lambda>e. le_idempotencyKey e = payKey orderId) (ledger db3)) = [(DEBIT, od_amount ord)])"
proof -
  obtain ord e where ord: "findOrder orderId db = Some ord"
    and e: "ledger db1 = ledger db @ [e]" "le_idempotencyKey e = payKey orderId" "le_direction e = DEBIT" "le_amount e = od_amount ord"
    using payment_money [OF first(1)] first(2) by auto
  have "distinct (map le_idempotencyKey (ledger db1))" using orderStep_ledger [OF orderStep.paid [OF first(1)] keys] by simp
  note later = orderSteps_ledger [OF between this]
  then have mem: "e \<in> set (ledger db2)" using e by auto
  then have "ledgerKnows (payKey orderId) db2" using e(2) by (force simp: ledgerKnows_iff)
  then have same: "wallets db3 = wallets db2" "ledger db3 = ledger db2" using payment_money [OF again] by auto
  have "filter (\<lambda>x. le_idempotencyKey x = payKey orderId) (ledger db2) = [e]"
    using filter_key [of le_idempotencyKey "ledger db2" e] later mem e(2) by simp
  then show ?thesis using same ord e by simp
qed

section \<open>What a payment does\<close>

lemma purchase_net: "lineNet ''CUSTOMER_WALLET_LIABILITY'' (pj_lines (purchaseInput ord snap)) = so_amount ord"
  by (simp add: purchaseInput_def Let_def eventInput_def buildPurchaseLines_def lineNet_cogs)

text \<open>The journal gets one entry for the purchase of an order, unless it has it.\<close>

definition purchaseBooked :: "OrderRow \<Rightarrow> JournalEntry list \<Rightarrow> JournalEntry list \<Rightarrow> bool" where
  "purchaseBooked ord js js' \<longleftrightarrow> (\<exists>e. e \<in> set js' \<and> je_idempotencyKey e = purchaseKey (od_id ord) \<and>
     accountNet ''CUSTOMER_WALLET_LIABILITY'' e = od_amount ord \<and>
     js' = (if purchaseKey (od_id ord) \<in> je_idempotencyKey ` set js then js else js @ [e]))"

lemma posted_journal:
  assumes "postJournalEntryTx newId i db = Inr (e, db')"
  shows "journal db' = (if trim (pj_idempotencyKey i) \<in> je_idempotencyKey ` set (journal db) then journal db else journal db @ [e])"
  using assms
proof (cases rule: postJournalEntryTx_Inr)
  case (replay normalized)
  then show ?thesis using findRow_Some [of "\<lambda>e. je_idempotencyKey e = trim (pj_idempotencyKey i)" "journal db" e]
    by (force simp: findJournalKey_def)
next
  case (create normalized)
  then show ?thesis by (force simp: findJournalKey_def findRow_None)
qed

lemma postPurchase_booked:
  assumes post: "postPurchase jid orderId db = Inr db'" and ord: "findOrder orderId db = Some ord"
  shows "purchaseBooked ord (journal db) (journal db')"
proof -
  obtain e snap where run: "postJournalEntryTx jid (purchaseInput (accountingOrder ord (orderQuote ord db)) snap) db = Inr (e, db')"
    using postPurchase_Inr [OF post] ord by auto
  show ?thesis using posted_entry [OF run] posted_journal [OF run]
    by (auto simp: purchaseBooked_def purchase_net accountingOrder_def purchaseInput_key)
qed

text \<open>The coupon of an order is redeemed once: one redemption is recorded and the coupon counts it.\<close>

definition orderCoupon :: "OrderRow \<Rightarrow> OrderDb \<Rightarrow> CouponRow option" where
  "orderCoupon ord db = (case truthyId (od_couponCodeSnapshot ord) of None \<Rightarrow> None | Some code \<Rightarrow> findCoupon code db)"

definition orderRedemption :: "string \<Rightarrow> OrderRow \<Rightarrow> CouponRow \<Rightarrow> RedemptionRow" where
  "orderRedemption userId ord c = \<lparr>rd_couponId = cp_id c, rd_userId = userId, rd_serviceOrderId = Some (od_id ord),
     rd_walletTopUpId = None, rd_amountRial = od_amount ord, rd_bonusRial = 0,
     rd_idempotencyKey = ''coupon-order:'' @ od_id ord\<rparr>"

definition couponRedeemed :: "string \<Rightarrow> OrderRow \<Rightarrow> OrderDb \<Rightarrow> OrderDb \<Rightarrow> bool" where
  "couponRedeemed userId ord db db' \<longleftrightarrow> (case orderCoupon ord db of
     None \<Rightarrow> redemptions db' = redemptions db \<and> coupons db' = coupons db
   | Some c \<Rightarrow> if rd_idempotencyKey (orderRedemption userId ord c) \<in> rd_idempotencyKey ` set (redemptions db)
       then redemptions db' = redemptions db \<and> coupons db' = coupons db
       else redemptions db' = redemptions db @ [orderRedemption userId ord c] \<and>
         coupons db' = updateRows (\<lambda>x. cp_id x = cp_id c) countRedemption (coupons db))"

lemma redeem_exact:
  assumes "redeemOrderCoupon userId ord db = Inr db'"
  shows "couponRedeemed userId ord db db'"
proof (cases "orderCoupon ord db")
  case None
  then have "db' = db" using assms by (auto simp: redeemOrderCoupon_def orderCoupon_def split: option.splits)
  then show ?thesis using None by (simp add: couponRedeemed_def)
next
  case (Some c)
  let ?r = "orderRedemption userId ord c"
  have run: "\<exists>x. recordCouponRedemptionTx ?r db = Inr (x, db')"
    using assms Some by (auto simp: redeemOrderCoupon_def orderCoupon_def orderRedemption_def bindE_eq_Inr split: option.splits)
  have coupon: "rd_couponId ?r = cp_id c" by (simp add: orderRedemption_def)
  have known: "findRedemption (rd_idempotencyKey ?r) db = None \<longleftrightarrow> rd_idempotencyKey ?r \<notin> rd_idempotencyKey ` set (redemptions db)"
    by (auto simp: findRedemption_def findRow_None) (metis imageI)
  show ?thesis using run known Some
    by (auto simp: couponRedeemed_def recordCouponRedemptionTx_def coupon split: option.splits if_splits)
qed

lemma couponRedeemed_cong:
  assumes "coupons d = coupons db" "redemptions d = redemptions db" "coupons d' = coupons db'" "redemptions d' = redemptions db'"
  shows "couponRedeemed userId ord d d' = couponRedeemed userId ord db db'"
proof -
  have "orderCoupon ord d = orderCoupon ord db" using assms(1) by (simp add: orderCoupon_def findCoupon_def split: option.split)
  then show ?thesis by (simp add: couponRedeemed_def assms cong: if_cong option.case_cong)
qed

lemma transition_fresh:
  assumes run: "transitionTx i db = Inr db'" and rows: "uniqueRows (flow db)"
    and fresh: "\<forall>x \<in> set (flowLog (flow db)). entryKey x \<noteq> flowKey i"
  shows "\<exists>d n fp. db' = db\<lparr>flow := d\<rparr> \<and> flowMove i n (flowView (flow db)) (flowView d) \<and>
    flowLog d = flowLog (flow db) @ [transitionEntry fp n i]"
proof -
  obtain e d where d: "transitionProductFlowTx i (flow db) = Inr (e, d)" "db' = db\<lparr>flow := d\<rparr>"
    using run by (auto simp: transitionTx_def split: sum.splits)
  obtain fp plan where p: "readTransition i (flow db) = Inr (fp, plan)" "writeTransition i (fp, plan) (flow db) = Inr (e, d)"
    using d(1) by (auto simp: transitionProductFlowTx_def bindE_eq_Inr)
  have "\<nexists>x. plan = Inl x" using readTransition_Inr(3) [OF p(1)] fresh by (auto dest: findRow_Some)
  then show ?thesis using interleaved_transition [OF p rows] d(2) by auto
qed

lemma paidInput_simps [simp]:
  "flowOwner (paidInput u ord q i) = flowOwnerOf q (od_id ord) (Some i)" "flowTo (paidInput u ord q i) = PAID"
  "flowKey (paidInput u ord q i) = ''order-paid:'' @ od_id ord"
  by (simp_all add: paidInput_def)

text \<open>An order that waits for its first payment.\<close>

definition openOrder :: "string \<Rightarrow> OrderRow \<Rightarrow> OrderDb \<Rightarrow> bool" where
  "openOrder orderId ord db \<longleftrightarrow> findOrder orderId db = Some ord \<and> od_status ord = SO_PENDING_PAYMENT \<and>
     findByIdempotency (payKey orderId) db = None \<and> infraOf orderId db = None \<and>
     (\<forall>e \<in> set (flowLog (flow db)). entryKey e \<noteq> ''order-paid:'' @ orderId)"

definition paidRow :: "int \<Rightarrow> OrderRow \<Rightarrow> OrderRow" where
  "paidRow now ord = ord\<lparr>od_status := SO_PAID, od_paidAt := Some now\<rparr>"

text \<open>The payment of an open order debits the wallet and completes the purchase.\<close>

lemma open_debit:
  assumes inv: "walletInv db" and pending: "openOrder orderId ord db"
    and run: "executePayOrderWithWalletTx tabs now ids userId orderId db = Inr (answer, db')"
  shows "\<exists>plan pricing item w. od_userId ord = userId \<and> payableOrder now ord db = Inr () \<and>
    getWalletForUser userId db = Some w \<and> w_status w = WS_ACTIVE \<and> od_amount ord \<le> w_availableBalance w \<and>
    orderPlan tabs ord = Some plan \<and> currentPricing tabs now ord (orderQuote ord db) plan = Inr (Some pricing) \<and>
    paymentInventory now ord (orderQuote ord db) plan (ep_catalogItemId pricing) db = Inr item \<and>
    (pl_offerSource (op_plan plan) = MANUAL_ADMIN \<longrightarrow> countRows (stockedBy now plan) (stock db) = 1) \<and>
    completePurchase now ids userId ord (orderQuote ord db) plan pricing item (orderRevision orderId db)
      (db\<lparr>stock := updateRows (stockedBy now plan) takeUnit (stock db),
        wallets := updateRows (\<lambda>v. w_id v = w_id w) (addBalance (- od_amount ord)) (wallets db),
        ledger := ledger db @ [newEntry (purchaseDebit ids userId ord) DEBIT w (w_availableBalance w - od_amount ord)]\<rparr>) =
      Inr (answer, db')"
proof -
  note o = pending [unfolded openOrder_def]
  have ord: "findOrder orderId db = Some ord" and i: "od_id ord = orderId" using o findOrder_id by auto
  have unpaid: "\<not> ledgerCompleted (payKey orderId) db" using o by (simp add: ledgerCompleted_def)
  have own: "od_userId ord = userId" and pay: "payableOrder now ord db = Inr ()"
    and prun: "paymentRun tabs now ids userId ord db answer db'"
    using payment_Inr [OF run] ord o unpaid by auto
  obtain plan pricing item s where pos: "1 < od_amount ord"
    and gates: "orderPlan tabs ord = Some plan" "currentPricing tabs now ord (orderQuote ord db) plan = Inr (Some pricing)"
      "paymentInventory now ord (orderQuote ord db) plan (ep_catalogItemId pricing) db = Inr item"
      "pl_offerSource (op_plan plan) = MANUAL_ADMIN \<longrightarrow> countRows (stockedBy now plan) (stock db) = 1"
    and s: "s = updateRows (stockedBy now plan) takeUnit (stock db)"
    and deb: "debitAndComplete now ids userId ord (orderQuote ord db) plan pricing item (db\<lparr>stock := s\<rparr>) = Inr (answer, db')"
    using prun unfolding paymentRun_def by (elim exE conjE) (rule that, assumption+, rule HOL.refl, assumption)
  have "\<not> ledgerCompleted (payKey (od_id ord)) (db\<lparr>stock := s\<rparr>)"
    using unpaid i by (simp add: ledgerCompleted_def findByIdempotency_def)
  then obtain e d where d: "debitTx (purchaseDebit ids userId ord) (db\<lparr>stock := s\<rparr>) = Inr (e, d)"
    and c: "completePurchase now ids userId ord (orderQuote ord db) plan pricing item (orderRevision orderId d) d = Inr (answer, db')"
    using deb i by (auto simp: debitAndComplete_def bindE_eq_Inr)
  have inv1: "walletInv (db\<lparr>stock := s\<rparr>)" using inv walletInv_cong [of "db\<lparr>stock := s\<rparr>" db] by simp
  have "0 < in_amountRial (purchaseDebit ids userId ord)"
      "findByIdempotency (in_idempotencyKey (purchaseDebit ids userId ord)) (db\<lparr>stock := s\<rparr>) = None"
    using pos o i by (simp_all add: purchaseDebit_def findByIdempotency_def)
  from debit_exact [OF inv1 d this] obtain w where w: "getWalletForUser userId db = Some w" "w_status w = WS_ACTIVE"
      "od_amount ord \<le> w_availableBalance w"
    and db1: "d = db\<lparr>stock := s, wallets := updateRows (\<lambda>v. w_id v = w_id w) (addBalance (- od_amount ord)) (wallets db),
      ledger := ledger db @ [newEntry (purchaseDebit ids userId ord) DEBIT w (w_availableBalance w - od_amount ord)]\<rparr>"
    by (auto simp: purchaseDebit_def getWalletForUser_def)
  have "orderRevision orderId d = orderRevision orderId db" by (simp add: db1 orderRevision_def)
  then show ?thesis using own pay w gates c [unfolded db1]
    by - (rule exI [of _ plan], rule exI [of _ pricing], rule exI [of _ item], rule exI [of _ w], simp add: db1 s)
qed

text \<open>Completing the purchase of a pending order.\<close>

definition quoteConverted :: "int \<Rightarrow> QuoteRow option \<Rightarrow> OrderDb \<Rightarrow> OrderDb \<Rightarrow> bool" where
  "quoteConverted now quote db db' \<longleftrightarrow> (case quote of
     None \<Rightarrow> quotes db' = quotes db \<and> quoteSessions db' = quoteSessions db
   | Some q \<Rightarrow> quotes db' = updateRows (\<lambda>r. rq_id r = rq_id q)
         (\<lambda>r. r\<lparr>rq_status := RQ_CONVERTED, rq_convertedAt := Some now\<rparr>) (quotes db) \<and>
       quoteSessions db' = updateRows (\<lambda>s. qn_id s = rq_sessionId q) (\<lambda>s. s\<lparr>qn_status := RS_CONVERTED\<rparr>) (quoteSessions db))"

lemma quoteConverted_cong:
  "quotes d = quotes db \<Longrightarrow> quoteSessions d = quoteSessions db \<Longrightarrow> quoteConverted now q d db' = quoteConverted now q db db'"
  by (cases q) (simp_all add: quoteConverted_def)

text \<open>What the completion does to the tables of the sale.\<close>

definition saleCompleted :: "int \<Rightarrow> string \<Rightarrow> OrderRow \<Rightarrow> QuoteRow option \<Rightarrow> InfraOrderRow \<Rightarrow> OrderDb \<Rightarrow> OrderDb \<Rightarrow> bool" where
  "saleCompleted now userId ord q n db db' \<longleftrightarrow>
     orders db' = updateRows (\<lambda>r. od_id r = od_id ord \<and> od_status r = SO_PENDING_PAYMENT) (paidRow now) (orders db) \<and>
     purchaseBooked (paidRow now ord) (journal db) (journal db') \<and> couponRedeemed userId ord db db' \<and>
     infraOrders db' = infraOrders db @ [n] \<and> fundingNotices db' = fundingNotices db @ [io_id n] \<and>
     quoteConverted now q db db' \<and> stock db' = stock db \<and> inventory db' = inventory db"

lemma complete_effects:
  assumes run: "completePurchase now ids userId ord q plan pricing item revn db = Inr ((ord', infra), db')"
    and ord: "findOrder orderId db = Some ord" "od_status ord = SO_PENDING_PAYMENT" and none: "infraOf orderId db = None"
    and flow: "uniqueRows (flow db)" "\<forall>e \<in> set (flowLog (flow db)). entryKey e \<noteq> ''order-paid:'' @ orderId"
  defines "n \<equiv> newInfraOrder (ni_infra ids) userId ord q plan pricing item"
  shows "ord' = paidRow now ord \<and> findOrder orderId db' = Some ord' \<and> infra = Some n \<and> saleCompleted now userId ord q n db db' \<and>
    flowView (flow db) InfrastructureOrders (ni_infra ids) = None \<and>
    (\<exists>k fp. flowMove (paidInput userId ord q (ni_infra ids)) k
       (flowView (addRow InfrastructureOrders (ni_infra ids) (Some ''AWAITING_PAYMENT'', revn) (flow db))) (flowView (flow db')) \<and>
       flowLog (flow db') = flowLog (flow db) @ [transitionEntry fp k (paidInput userId ord q (ni_infra ids))])"
proof -
  note i = findOrder_id [OF ord(1)]
  have new: "io_id n = ni_infra ids" by (simp add: n_def newInfraOrder_def Let_def)
  have "infraOf (od_id ord) db = None" using none i by simp
  from complete_Inr [OF run this, folded n_def] obtain dba js dbb rs cs dbc dbd where
    m: "markPaid now (od_id ord) db = Inr dba"
    and post: "postPurchase (ni_journal ids) (od_id ord) dba = Inr (dba\<lparr>journal := js\<rparr>)"
    and dbb: "dbb = dba\<lparr>journal := js, redemptions := rs, coupons := cs\<rparr>"
    and redeem: "redeemOrderCoupon userId ord (dba\<lparr>journal := js\<rparr>) = Inr dbb"
    and create: "createInfraOrder n revn dbb = Inr dbc" and trans: "transitionTx (paidInput userId ord q (io_id n)) dbc = Inr dbd"
    and fin: "orderAnswer (od_id ord) (Some n) (convertQuote now q (dbd\<lparr>fundingNotices := fundingNotices dbd @ [io_id n]\<rparr>)) =
      Inr ((ord', infra), db')"
    by (elim exE conjE) (rule that, assumption+)
  have dba: "dba = db\<lparr>orders := updateRows (\<lambda>r. od_id r = od_id ord \<and> od_status r = SO_PENDING_PAYMENT) (paidRow now) (orders db)\<rparr>"
    using m by (auto simp: markPaid_def Let_def paidRow_def [abs_def] split: if_split_asm)
  have paid: "findOrder orderId dba = Some (paidRow now ord)"
    using ord i by (simp add: dba findOrder_def findRow_updateRows paidRow_def)
  have dbc: "dbc = dbb\<lparr>infraOrders := infraOrders db @ [n],
      flow := addRow InfrastructureOrders (ni_infra ids) (Some ''AWAITING_PAYMENT'', revn) (flow db)\<rparr>"
    and absent: "flowView (flow db) InfrastructureOrders (ni_infra ids) = None"
    using create new by (auto simp: createInfraOrder_def dbb dba flowView_def split: if_split_asm)
  have "\<forall>x \<in> set (flowLog (flow dbc)). entryKey x \<noteq> flowKey (paidInput userId ord q (io_id n))" "uniqueRows (flow dbc)"
    using flow i uniqueRows_addRow [OF flow(1) absent] by (simp_all add: dbc)
  from transition_fresh [OF trans this(2,1)] obtain d k fp where dbd: "dbd = dbc\<lparr>flow := d\<rparr>"
    and move: "flowMove (paidInput userId ord q (io_id n)) k (flowView (flow dbc)) (flowView d)"
      "flowLog d = flowLog (flow dbc) @ [transitionEntry fp k (paidInput userId ord q (io_id n))]" by auto
  have after: "findOrder orderId db' = Some ord'" "infra = Some n" "flow db' = d" "findOrder orderId dba = Some ord'"
    using fin by (auto simp: orderAnswer_def convertQuote_def dbd dbc dbb dba i findOrder_def split: option.splits)
  have tables: "journal db' = js" "redemptions db' = rs" "coupons db' = cs" "orders db' = orders dba"
      "infraOrders db' = infraOrders db @ [n]" "fundingNotices db' = fundingNotices db @ [io_id n]" "quoteConverted now q db db'"
      "stock db' = stock db" "inventory db' = inventory db"
    using fin by (auto simp: orderAnswer_def convertQuote_def quoteConverted_def dbd dbc dbb dba split: option.splits)
  have "couponRedeemed userId ord db db'"
    using redeem_exact [OF redeem] couponRedeemed_cong [of "dba\<lparr>journal := js\<rparr>" db dbb db' userId ord] tables(2,3)
    by (simp add: dbb dba)
  moreover have "purchaseBooked (paidRow now ord) (journal db) (journal db')"
    using postPurchase_booked [OF post [unfolded i] paid] tables(1) by (simp add: dba)
  ultimately have "saleCompleted now userId ord q n db db'" using tables by (simp add: saleCompleted_def dba)
  moreover have "\<exists>k fp. flowMove (paidInput userId ord q (ni_infra ids)) k
      (flowView (addRow InfrastructureOrders (ni_infra ids) (Some ''AWAITING_PAYMENT'', revn) (flow db))) (flowView (flow db')) \<and>
      flowLog (flow db') = flowLog (flow db) @ [transitionEntry fp k (paidInput userId ord q (ni_infra ids))]"
    using move after(3) new by (intro exI [of _ k] exI [of _ fp]) (simp add: dbc)
  ultimately show ?thesis using after paid absent by simp
qed

text \<open>The rows of the product flow after the move: the owners are PAID, the others as they were.\<close>

lemma paid_rows:
  assumes absent: "flowView d InfrastructureOrders i = None" and i: "i \<noteq> ''''"
    and move: "flowMove (paidInput u ord q i) k (flowView (addRow InfrastructureOrders i (s, revn) d)) V'"
  shows "k = revn" and "V' t j = (if ownedId t (flowOwnerOf q (od_id ord) (Some i)) = Some j
    then Some (Some (productFlowStateText PAID), revn + 1) else flowView d t j)"
proof -
  let ?ow = "flowOwnerOf q (od_id ord) (Some i)" and ?d = "addRow InfrastructureOrders i (s, revn) d"
  have own: "ownedId InfrastructureOrders ?ow = Some i" using i by (simp add: flowOwnerOf_def)
  have "\<forall>t j. ownedId t ?ow = Some j \<longrightarrow> (\<exists>s. flowView ?d t j = Some (s, k))"
    using move unfolding flowMove_def paidInput_simps by blast
  with own have "\<exists>s. flowView ?d InfrastructureOrders i = Some (s, k)" by blast
  then show k: "k = revn" by (simp add: flowView_addRow [OF absent])
  show "V' t j = (if ownedId t ?ow = Some j then Some (Some (productFlowStateText PAID), revn + 1) else flowView d t j)"
    using move own k by (auto simp: flowMove_def flowView_addRow [OF absent])
qed

lemma orderQuote_found: "orderQuote ord db = Some q \<Longrightarrow> findQuote (rq_id q) db = Some q"
  using findRow_Some by (fastforce simp: orderQuote_def findQuote_def split: option.splits)

lemma payable_amount: "payableOrder now ord db = Inr () \<Longrightarrow> orderQuote ord db = Some q \<Longrightarrow> rq_amountRial q = od_amount ord"
  by (auto simp: payableOrder_def payableQuote_def split: option.splits if_split_asm)

text \<open>C9: A payment that succeeds on an order not paid before does all of it, exactly, and changes every table of the sale
  exactly as follows. The payer owns the order; the active wallet that covers the amount is debited by exactly the amount
  and gets one ledger entry, the other wallets and entries stay. The order is PAID and no other order changes. The journal
  has the entry of the purchase, which lowers the customers' liability by the amount, and no other entry was added. If the
  order has a coupon, its redemption is recorded once and counted by that coupon only. One unit is taken of a plan that is
  stocked by hand, and of no other. One infrastructure order, made of the plan, its current price and the locked server and
  waiting for the administrator, is added, with one notice of the funds it needs. Session, order and infrastructure order
  move together to PAID in the product flow, with one log entry, and no other row moves. The quote of the order had the same
  amount; it is converted with its session, and no other quote or session changes. No server is touched.\<close>

theorem order_payment_is_exact:
  assumes inv: "walletInv db" "uniqueRows (flow db)"
    and pending: "openOrder orderId ord db" and ids: "orderId \<noteq> ''''" "ni_infra ids \<noteq> ''''"
    and run: "executePayOrderWithWalletTx tabs now ids userId orderId db = Inr ((ord', infra), db')"
  shows "\<exists>w n plan pricing item fp. od_userId ord = userId \<and> getWalletForUser userId db = Some w \<and> w_status w = WS_ACTIVE \<and>
    od_amount ord \<le> w_availableBalance w \<and>
    wallets db' = updateRows (\<lambda>v. w_id v = w_id w) (addBalance (- od_amount ord)) (wallets db) \<and>
    ledger db' = ledger db @ [newEntry (purchaseDebit ids userId ord) DEBIT w (w_availableBalance w - od_amount ord)] \<and>
    ord' = paidRow now ord \<and> findOrder orderId db' = Some ord' \<and>
    orders db' = updateRows (\<lambda>r. od_id r = orderId \<and> od_status r = SO_PENDING_PAYMENT) (paidRow now) (orders db) \<and>
    (\<exists>e \<in> set (journal db'). je_idempotencyKey e = purchaseKey orderId \<and>
       accountNet ''CUSTOMER_WALLET_LIABILITY'' e = od_amount ord \<and>
       journal db' = (if purchaseKey orderId \<in> je_idempotencyKey ` set (journal db) then journal db else journal db @ [e])) \<and>
    couponRedeemed userId ord db db' \<and>
    orderPlan tabs ord = Some plan \<and> currentPricing tabs now ord (orderQuote ord db) plan = Inr (Some pricing) \<and>
    paymentInventory now ord (orderQuote ord db) plan (ep_catalogItemId pricing) db = Inr item \<and>
    stock db' = updateRows (stockedBy now plan) takeUnit (stock db) \<and>
    (pl_offerSource (op_plan plan) = MANUAL_ADMIN \<longrightarrow> countRows (stockedBy now plan) (stock db) = 1) \<and>
    infra = Some n \<and> n = newInfraOrder (ni_infra ids) userId ord (orderQuote ord db) plan pricing item \<and>
    infraOrders db' = infraOrders db @ [n] \<and> io_id n = ni_infra ids \<and> io_serviceOrderId n = orderId \<and>
    io_userId n = userId \<and> io_status n = IO_WAITING_ADMIN_FUNDING \<and>
    fundingNotices db' = fundingNotices db @ [ni_infra ids] \<and>
    (\<forall>t j. flowView (flow db') t j = (if ownedId t (flowOwnerOf (orderQuote ord db) orderId (Some (ni_infra ids))) = Some j
       then Some (Some (productFlowStateText PAID), orderRevision orderId db + 1) else flowView (flow db) t j)) \<and>
    flowLog (flow db') = flowLog (flow db) @
      [transitionEntry fp (orderRevision orderId db) (paidInput userId ord (orderQuote ord db) (ni_infra ids))] \<and>
    (\<forall>q. orderQuote ord db = Some q \<longrightarrow> rq_amountRial q = od_amount ord \<and>
       map_option rq_status (findQuote (rq_id q) db') = Some RQ_CONVERTED) \<and>
    quoteConverted now (orderQuote ord db) db db' \<and>
    inventory db' = inventory db"
proof -
  note o = pending [unfolded openOrder_def]
  have i: "od_id ord = orderId" using o findOrder_id by auto
  from open_debit [OF inv(1) pending run] obtain plan pricing item w where own: "od_userId ord = userId"
    and pay: "payableOrder now ord db = Inr ()" and w: "getWalletForUser userId db = Some w" "w_status w = WS_ACTIVE"
      "od_amount ord \<le> w_availableBalance w"
    and gates: "orderPlan tabs ord = Some plan" "currentPricing tabs now ord (orderQuote ord db) plan = Inr (Some pricing)"
      "paymentInventory now ord (orderQuote ord db) plan (ep_catalogItemId pricing) db = Inr item"
      "pl_offerSource (op_plan plan) = MANUAL_ADMIN \<longrightarrow> countRows (stockedBy now plan) (stock db) = 1"
    and c: "completePurchase now ids userId ord (orderQuote ord db) plan pricing item (orderRevision orderId db)
      (db\<lparr>stock := updateRows (stockedBy now plan) takeUnit (stock db),
        wallets := updateRows (\<lambda>v. w_id v = w_id w) (addBalance (- od_amount ord)) (wallets db),
        ledger := ledger db @ [newEntry (purchaseDebit ids userId ord) DEBIT w (w_availableBalance w - od_amount ord)]\<rparr>) =
      Inr ((ord', infra), db')" (is "completePurchase _ _ _ _ ?q _ _ _ _ ?d = _")
    by (elim exE conjE)
  let ?n = "newInfraOrder (ni_infra ids) userId ord ?q plan pricing item"
  have "findOrder orderId ?d = Some ord" "od_status ord = SO_PENDING_PAYMENT" "infraOf orderId ?d = None"
      "uniqueRows (flow ?d)" "\<forall>e \<in> set (flowLog (flow ?d)). entryKey e \<noteq> ''order-paid:'' @ orderId"
    using o inv(2) by (simp_all add: findOrder_def infraOf_def)
  note E = complete_effects [OF c this]
  then obtain k fp where absent: "flowView (flow db) InfrastructureOrders (ni_infra ids) = None"
    and move: "flowMove (paidInput userId ord ?q (ni_infra ids)) k (flowView (addRow InfrastructureOrders (ni_infra ids)
      (Some ''AWAITING_PAYMENT'', orderRevision orderId db) (flow db))) (flowView (flow db'))"
    and log: "flowLog (flow db') = flowLog (flow db) @ [transitionEntry fp k (paidInput userId ord ?q (ni_infra ids))]" by auto
  have new: "io_id ?n = ni_infra ids" "io_serviceOrderId ?n = orderId" "io_userId ?n = userId" "io_status ?n = IO_WAITING_ADMIN_FUNDING"
    by (simp_all add: newInfraOrder_def Let_def i)
  have sale: "saleCompleted now userId ord ?q ?n ?d db'" using E by simp
  then have converted: "quoteConverted now ?q db db'" using quoteConverted_cong [of ?d db now ?q db'] by (simp add: saleCompleted_def)
  have redeemed: "couponRedeemed userId ord db db'"
    using sale couponRedeemed_cong [of ?d db db' db' userId ord] by (simp add: saleCompleted_def)
  obtain e where e: "e \<in> set (journal db')" "je_idempotencyKey e = purchaseKey orderId"
      "accountNet ''CUSTOMER_WALLET_LIABILITY'' e = od_amount ord"
      "journal db' = (if purchaseKey orderId \<in> je_idempotencyKey ` set (journal db) then journal db else journal db @ [e])"
    using sale by (auto simp: saleCompleted_def purchaseBooked_def paidRow_def i)
  have quote: "rq_amountRial q = od_amount ord \<and> map_option rq_status (findQuote (rq_id q) db') = Some RQ_CONVERTED"
    if q: "?q = Some q" for q
    using orderQuote_found [OF q] payable_amount [OF pay q] converted q by (simp add: quoteConverted_def findQuote_def findRow_updateRows)
  note rows = paid_rows [OF absent ids(2) move, unfolded i]
  have booked: "\<exists>e \<in> set (journal db'). je_idempotencyKey e = purchaseKey orderId \<and>
      accountNet ''CUSTOMER_WALLET_LIABILITY'' e = od_amount ord \<and>
      journal db' = (if purchaseKey orderId \<in> je_idempotencyKey ` set (journal db) then journal db else journal db @ [e])"
    using e by blast
  show ?thesis
    by (rule exI [of _ w], rule exI [of _ ?n], rule exI [of _ plan], rule exI [of _ pricing], rule exI [of _ item],
        rule exI [of _ fp], intro conjI booked)
      (use own w E gates new rows(2) log [unfolded rows(1)] quote converted redeemed sale complete_money [OF c]
        in \<open>simp_all add: saleCompleted_def i\<close>)
qed

section \<open>A server name that is taken\<close>

text \<open>C12: The name of a server must be unique among all infrastructure orders and is the one the customer chose: a pending,
  undebited order whose server is to have the name of any other infrastructure order cannot be paid by its owner,
  whatever the configuration, the instant and the balance, as long as that row exists.\<close>

theorem taken_server_name_blocks_payment:
  assumes ord: "findOrder orderId db = Some ord" and pending: "od_status ord = SO_PENDING_PAYMENT"
    and unpaid: "\<not> ledgerCompleted (payKey orderId) db" and none: "infraOf orderId db = None"
    and taken: "r \<in> set (infraOrders db)"
      "io_desiredInstanceName r = Some (resolveDesiredInstanceName orderId (quoteDelivery (orderQuote ord db)))"
  shows "\<exists>e. executePayOrderWithWalletTx tabs now ids userId orderId db = Inl e"
proof (rule ccontr)
  assume "\<not> ?thesis"
  then obtain answer db' where run: "executePayOrderWithWalletTx tabs now ids userId orderId db = Inr (answer, db')"
    by (cases "executePayOrderWithWalletTx tabs now ids userId orderId db") auto
  note i = findOrder_id [OF ord]
  have "paymentRun tabs now ids userId ord db answer db'"
    using payment_Inr [OF run] ord pending unpaid by auto
  then obtain plan pricing item s where
    deb: "debitAndComplete now ids userId ord (orderQuote ord db) plan pricing item (db\<lparr>stock := s\<rparr>) = Inr (answer, db')"
    by (auto simp: paymentRun_def)
  have "\<not> ledgerCompleted (payKey (od_id ord)) (db\<lparr>stock := s\<rparr>)"
    using unpaid i by (simp add: ledgerCompleted_def findByIdempotency_def)
  then obtain e db1 revn where d: "debitTx (purchaseDebit ids userId ord) (db\<lparr>stock := s\<rparr>) = Inr (e, db1)"
    and c: "completePurchase now ids userId ord (orderQuote ord db) plan pricing item revn db1 = Inr (answer, db')"
    using deb by (auto simp: debitAndComplete_def bindE_eq_Inr)
  obtain ws where db1: "db1 = db\<lparr>stock := s, wallets := ws, ledger := ledger db @ [e]\<rparr>" using debit_rest [OF d] by auto
  have "infraOf (od_id ord) db1 = None" using none i by (simp add: db1 infraOf_def)
  from complete_Inr [OF c this] show False
  proof (elim exE conjE)
    fix dba js dbb rs cs dbc
    assume m: "markPaid now (od_id ord) db1 = Inr dba" and b: "dbb = dba\<lparr>journal := js, redemptions := rs, coupons := cs\<rparr>"
      and create: "createInfraOrder (newInfraOrder (ni_infra ids) userId ord (orderQuote ord db) plan pricing item) revn dbb = Inr dbc"
    have "infraOrders dbb = infraOrders db"
      using m by (auto simp: b db1 markPaid_def Let_def split: if_split_asm)
    moreover have "infraClash (newInfraOrder (ni_infra ids) userId ord (orderQuote ord db) plan pricing item) r"
      using taken(2) i by (simp add: infraClash_def newInfraOrder_def Let_def)
    ultimately show False using create taken(1) by (auto simp: createInfraOrder_def split: if_split_asm)
  qed
qed

section \<open>A stranger's attempt\<close>

text \<open>Another customer's order is not found.\<close>

lemma stranger_refused:
  assumes ord: "findOrder orderId db = Some ord" and other: "od_userId ord \<noteq> userId"
    and keys: "distinct (map od_id (orders db))"
  shows "payOrderWithWallet tabs live (\<lambda>_ d. d) now ids userId orderId db =
    (Inl ''not_found'', db\<lparr>inventory := snd (releaseInventoryReservationForOrder orderId now (inventory db))\<rparr>)"
proof -
  have "r = ord" if "r \<in> set (orders db)" "od_id r = orderId" for r
    using distinct_key_eq [OF keys that(1) findOrder_mem [OF ord]] that(2) findOrder_id [OF ord] by simp
  then have "findRow (\<lambda>r. od_id r = orderId \<and> od_userId r = userId) (orders db) = None"
    using other by (auto simp: findRow_None)
  then show ?thesis using ord other
    by (simp add: payOrderWithWallet_def prepareRequest_def executePayOrderWithWalletTx_def)
qed

text \<open>C11: A logged-in user who asks to pay an order of somebody else is answered not_found, and the server that is
  reserved for that order, paid or not, loses its reservation: it can be dispatched to the order no more, until it is
  reserved again. The caller of the payment releases the reservation of whatever order it was given.\<close>

theorem stranger_releases_reservation:
  assumes ord: "findOrder orderId db = Some ord" and other: "od_userId ord \<noteq> userId"
    and keys: "distinct (map od_id (orders db))" and stock: "inventoryReach (inventory db)"
    and item: "findRow (\<lambda>r. iv_reservedByOrderId r = Some orderId) (items (inventory db)) = Some item"
    and held: "iv_status item = IV_RESERVED" "iv_assignedOrderId item = None"
    and run: "payOrderWithWallet tabs live (\<lambda>_ d. d) now ids userId orderId db = (answer, db')"
  shows "answer = Inl ''not_found'' \<and> findOrder orderId db' = Some ord \<and>
    findItem (iv_id item) (inventory db') = Some (releasedItem now (credentialOf (iv_id item) (inventory db)) item) \<and>
    (\<forall>dp vm t. dp_inventoryItemId dp = Some (iv_id item) \<longrightarrow>
       dispatchReservedInventoryTx dp vm t (inventory db') = Inl ''inventory_assignment_conflict'')"
proof -
  let ?r = "releasedItem now (credentialOf (iv_id item) (inventory db))"
  have found: "findItem (iv_id item) (inventory db) = Some item"
    using findItem_unique [OF inventoryInv_keys [OF inventoryReach_inv [OF stock]]] findRow_Some [OF item] by simp
  have out: "answer = Inl ''not_found''" "db' = db\<lparr>inventory := updateItem (iv_id item) ?r (inventory db)\<rparr>"
    using run item held by (simp_all add: stranger_refused [OF ord other keys] releaseInventoryReservationForOrder_def)
  then have freed: "findItem (iv_id item) (inventory db') = Some (?r item)"
    by (simp add: findItem_updateItem found)
  then have "dispatchReservedInventoryTx dp vm t (inventory db') = Inl ''inventory_assignment_conflict''"
    if "dp_inventoryItemId dp = Some (iv_id item)" for dp vm t
    using that by (simp add: dispatchReservedInventoryTx_def)
  then show ?thesis using out freed ord by (simp add: findOrder_def)
qed

section \<open>A sample sale\<close>

text \<open>The sample server, reserved for quote \<open>q\<close> of order \<open>o\<close>, is sold for 1000 to a customer who has 5000.\<close>

definition salePlan :: OrderPlan where
  "salePlan = \<lparr>op_id = ''p'', op_catalogItemId = Some ''k'', op_externalPlanId = None, op_billingModel = PREPAID_TERM,
     op_skuMarkupBasisPoints = None, op_plan = sample_plan\<lparr>pl_productKind := CLOUD_SERVER, pl_offerSource := PREPROVISIONED_INVENTORY,
       pl_regionCode := ''ir'', pl_sizeCode := ''s1'', pl_imageCode := ''img'', pl_offerLastVerifiedAt := Some 0,
       pl_offerPriceValidUntil := Some 3600000,
       pl_catalogItem := map_option (\<lambda>c. c\<lparr>ci_id := ''k'', ci_regionCode := ''ir'', ci_sizeCode := ''s1'',
         ci_compatibleImageCodes := JArr [JStr ''img'']\<rparr>) (pl_catalogItem sample_plan)\<rparr>\<rparr>"

definition saleTables :: SaleTables where
  "saleTables = \<lparr>st_env = \<lparr>publicSaleEnabled = True, manualReadyPublicSaleEnabled = True, arvanPublicSaleEnabled = True,
       arvanReadyPublicSaleEnabled = True, arvanCloudPublicSaleEnabled = True, automatedTest = False\<rparr>,
     st_plans = [salePlan], st_catalogState = (\<lambda>_. None), st_regionSale = (\<lambda>_ _ _. True),
     st_providerPricing = (\<lambda>_. Some (True, 22052)), st_productPricing = (\<lambda>_ _ _. Some (True, 100)), st_taxBps = None,
     st_parchin = (\<lambda>_. Some \<lparr>pr_active = True, pr_operationalEvidenceApprovedAt = Some 0, pr_priceRial = 1000000\<rparr>)\<rparr>"

definition saleOrder :: OrderRow where
  "saleOrder = \<lparr>od_id = ''o'', od_userId = ''u'', od_amount = 1000, od_termMonths = 1, od_couponCodeSnapshot = None,
     od_status = SO_PENDING_PAYMENT, od_planId = Some ''p'',
     od_planSnapshot = JObj [(''provider'', JStr ''ARVAN''), (''offerSource'', JStr ''PREPROVISIONED_INVENTORY''),
       (''catalogItemId'', JStr ''k''), (''regionCode'', JStr ''ir''), (''sizeCode'', JStr ''s1''), (''imageCode'', JStr ''img''),
       (''deliveryMode'', JStr ''MANAGED''), (''vcpu'', JInt 2), (''ramGb'', JInt 3), (''storageGb'', JInt 25),
       (''parchinIncluded'', JBool True)],
     od_recommendationQuoteId = Some ''q'', od_quoteExpiresAt = Some 3600000, od_provider = Some ARVAN,
     od_providerApiVersion = Some ''v1'', od_productKind = Some CLOUD_SERVER, od_parchinLevel = None, od_paidAt = None,
     od_createdAt = 0\<rparr>"

definition saleQuote :: QuoteRow where
  "saleQuote = \<lparr>rq_id = ''q'', rq_sessionId = ''s'', rq_planId = ''p'', rq_status = RQ_SELECTED, rq_amountRial = 1000,
     rq_couponDiscountBpsSnapshot = None, rq_provider = Some ARVAN, rq_providerApiVersion = Some ''v1'',
     rq_productKind = Some CLOUD_SERVER, rq_providerRegion = Some ''ir'', rq_externalPlanId = Some ''s1'',
     rq_externalImageId = Some ''img'', rq_externalNetworkId = Some ''n'', rq_externalSecurityId = Some ''f'',
     rq_parchinLevel = None, rq_deliveryConfigurationSnapshot = JObj [(''serverName'', JStr ''web'')],
     rq_preprovisionedInventoryItemId = Some ''i'', rq_expiresAt = 3600000, rq_convertedAt = None,
     rq_accounting = \<lparr>qs_lineItemsSnapshot = JNull, qs_providerBasePriceRialSnapshot = None, qs_providerMonthlyPriceIrr = None,
       qs_taxAmountIrr = None, qs_parchinPriceIrr = None, qs_termMonths = None\<rparr>\<rparr>"

definition saleIds :: PaymentIds where
  "saleIds = \<lparr>ni_wallet = ''w2'', ni_entry = ''e2'', ni_journal = ''j'', ni_infra = ''io''\<rparr>"

definition saleDb :: OrderDb where
  "saleDb = \<lparr>wallets = [\<lparr>w_id = ''w'', w_userId = ''u'', w_availableBalance = 5000, w_status = WS_ACTIVE\<rparr>],
     ledger = [\<lparr>le_id = ''e1'', le_walletId = ''w'', le_direction = CREDIT, le_type = ADMIN_ADJUSTMENT, le_amount = 5000,
       le_status = LS_COMPLETED, le_referenceType = None, le_referenceId = None, le_idempotencyKey = ''k1'',
       le_balanceAfter = 5000, le_reversedEntryId = None\<rparr>],
     journal = [], coupons = [], redemptions = [], orders = [saleOrder], quotes = [saleQuote],
     quoteSessions = [\<lparr>qn_id = ''s'', qn_expiresAt = 3600000, qn_status = RS_CHECKOUT\<rparr>], stock = [], infraOrders = [],
     fundingNotices = [], flow = \<lparr>sessions = [\<lparr>flowRowId = ''s'', productFlowState = Some ''AWAITING_PAYMENT'',
         productFlowRevision = 2, selectedParchinLevel = None, deliveryConfiguration = None\<rparr>],
       serviceOrders = [\<lparr>flowRowId = ''o'', productFlowState = Some ''AWAITING_PAYMENT'', productFlowRevision = 2\<rparr>],
       infrastructureOrders = [], flowLog = []\<rparr>, inventory = boundDb\<rparr>"

definition salePaid :: "(OrderRow \<times> InfraOrderRow option) \<times> OrderDb" where
  "salePaid = committed (executePayOrderWithWalletTx saleTables 4 saleIds ''u'' ''o'' saleDb) ((saleOrder, None), saleDb)"

lemma sale_runs: "executePayOrderWithWalletTx saleTables 4 saleIds ''u'' ''o'' saleDb = Inr salePaid"
  by code_simp

lemma sale_state:
  "findOrder ''o'' saleDb = Some saleOrder" "orderQuote saleOrder saleDb = Some saleQuote"
  "distinct (map od_id (orders saleDb))" "uniqueRows (flow saleDb)" "infraOf ''o'' saleDb = None" "inventory saleDb = boundDb"
  "od_userId saleOrder = ''u''" "od_amount saleOrder = 1000" "od_status saleOrder = SO_PENDING_PAYMENT"
  "flowLog (flow saleDb) = []" "length (ledger saleDb) = 1"
  by (simp_all add: saleDb_def findOrder_def orderQuote_def findQuote_def uniqueRows_def infraOf_def saleOrder_def saleQuote_def)

lemma sale_unpaid: "findByIdempotency (payKey ''o'') saleDb = None"
  by (simp add: saleDb_def findByIdempotency_def payKey_def)

lemma sale_open: "openOrder ''o'' saleOrder saleDb"
  by (simp add: openOrder_def sale_state sale_unpaid)

lemma sale_paid: "case findOrder ''o'' (snd salePaid) of None \<Rightarrow> False | Some r \<Rightarrow> od_userId r = ''u'' \<and> od_status r = SO_PAID"
  by code_simp

lemma sale_ledger: "length (ledger (snd salePaid)) = 2" "distinct (map od_id (orders (snd salePaid)))"
  by code_simp+

lemma sale_server: "case findRow (\<lambda>r. iv_reservedByOrderId r = Some ''o'') (items boundDb) of None \<Rightarrow> False
    | Some r \<Rightarrow> iv_id r = ''i'' \<and> iv_status r = IV_RESERVED \<and> iv_assignedOrderId r = None"
  by code_simp

lemma sale_dispatch: "case dispatchReservedInventoryTx (dispatchOrderOf ''o'' sampleWish ''i'') ''vm1'' 5 boundDb of
    Inl _ \<Rightarrow> False | Inr _ \<Rightarrow> True"
  by code_simp

lemma sale_wallets: "walletInv saleDb"
  by (simp add: walletInv_def saleDb_def ledgerSum_def signed_def)

lemma sale_keys: "distinct (map le_idempotencyKey (ledger saleDb))"
  by (simp add: saleDb_def)

text \<open>The customer pays the sample order: the balance falls from 5000 to 4000.\<close>

lemma order_payment_is_exact_witness:
  "\<exists>(w :: WalletRow) n. getWalletForUser ''u'' saleDb = Some w \<and> snd (fst salePaid) = Some n \<and>
    wallets (snd salePaid) = updateRows (\<lambda>v. w_id v = w_id w) (addBalance (- 1000)) (wallets saleDb) \<and>
    od_status (fst (fst salePaid)) = SO_PAID \<and> io_status n = IO_WAITING_ADMIN_FUNDING \<and>
    flowView (flow (snd salePaid)) ServiceOrders ''o'' = Some (Some ''PAID'', 3)"
proof -
  obtain ord' infra db' where out: "salePaid = ((ord', infra), db')" by (metis surj_pair)
  have run: "executePayOrderWithWalletTx saleTables 4 saleIds ''u'' ''o'' saleDb = Inr ((ord', infra), db')"
    using sale_runs out by simp
  have ids: "''o'' \<noteq> ''''" "ni_infra saleIds \<noteq> ''''" by (simp_all add: saleIds_def)
  have owned: "ownedId ServiceOrders (flowOwnerOf (Some saleQuote) ''o'' (Some (ni_infra saleIds))) = Some ''o''"
    "orderRevision ''o'' saleDb = 2" "productFlowStateText PAID = ''PAID''"
    by code_simp+
  from order_payment_is_exact [OF sale_wallets sale_state(4) sale_open ids run] show ?thesis
  proof (elim exE conjE, goal_cases)
    case (1 w n plan pricing item fp)
    show ?case by (rule exI [of _ w], rule exI [of _ n]) (use 1 owned in \<open>simp add: out sale_state paidRow_def\<close>)
  qed
qed

text \<open>Paying the sample order again moves no money.\<close>

lemma order_debited_once_witness:
  "\<exists>answer. executePayOrderWithWalletTx saleTables 5 saleIds ''u'' ''o'' (snd salePaid) = Inr (answer, snd salePaid) \<and>
    map (\<lambda>e. (le_direction e, le_amount e)) (filter (\<lambda>e. le_idempotencyKey e = payKey ''o'') (ledger (snd salePaid))) =
      [(DEBIT, 1000)]"
proof -
  obtain answer db1 where out: "salePaid = (answer, db1)" by (metis surj_pair)
  have run: "executePayOrderWithWalletTx saleTables 4 saleIds ''u'' ''o'' saleDb = Inr (answer, db1)" using sale_runs out by simp
  have "ledger db1 \<noteq> ledger saleDb" using sale_ledger(1) sale_state(11) by (auto simp: out)
  note once = order_debited_once [OF sale_keys run this rtranclp.rtrancl_refl]
  obtain r where r: "findOrder ''o'' db1 = Some r" "od_userId r = ''u''" "od_status r = SO_PAID"
    using sale_paid by (auto simp: out split: option.splits)
  then have again: "executePayOrderWithWalletTx saleTables 5 saleIds ''u'' ''o'' db1 = Inr ((r, infraOf (od_id r) db1), db1)"
    by (simp add: executePayOrderWithWalletTx_def)
  then show ?thesis using once [OF again] sale_state(1,8) by (auto simp: out)
qed

text \<open>With another order's server named \<open>web\<close> the sample order, which could be paid, cannot be.\<close>

definition namedInfra :: InfraOrderRow where
  "namedInfra = (case snd (fst salePaid) of Some n \<Rightarrow> n\<lparr>io_id := ''x'', io_serviceOrderId := ''o2'', io_inventoryItemId := None\<rparr>
     | None \<Rightarrow> undefined)"

lemma namedInfra_other: "io_serviceOrderId namedInfra \<noteq> ''o''"
  by code_simp

lemma taken_server_name_blocks_payment_witness:
  "isOk (executePayOrderWithWalletTx saleTables 4 saleIds ''u'' ''o'' saleDb) \<and>
   (\<exists>e. executePayOrderWithWalletTx saleTables 4 saleIds ''u'' ''o'' (saleDb\<lparr>infraOrders := [namedInfra]\<rparr>) = Inl e)"
proof
  show "isOk (executePayOrderWithWalletTx saleTables 4 saleIds ''u'' ''o'' saleDb)" by (simp add: sale_runs isOk_def)
  let ?db = "saleDb\<lparr>infraOrders := [namedInfra]\<rparr>"
  have name: "io_desiredInstanceName namedInfra = Some ''web''" "resolveDesiredInstanceName ''o'' (quoteDelivery (Some saleQuote)) = ''web''"
    by code_simp+
  have s: "findOrder ''o'' ?db = Some saleOrder" "infraOf ''o'' ?db = None" "\<not> ledgerCompleted (payKey ''o'') ?db"
      "orderQuote saleOrder ?db = Some saleQuote" "namedInfra \<in> set (infraOrders ?db)"
    using sale_state(1,2) sale_unpaid by (simp_all add: findOrder_def orderQuote_def findQuote_def ledgerCompleted_def findByIdempotency_def
      infraOf_def namedInfra_other split: option.splits)
  have named: "io_desiredInstanceName namedInfra = Some (resolveDesiredInstanceName ''o'' (quoteDelivery (orderQuote saleOrder ?db)))"
    using name s(4) by simp
  show "\<exists>e. executePayOrderWithWalletTx saleTables 4 saleIds ''u'' ''o'' ?db = Inl e"
    by (rule taken_server_name_blocks_payment [OF s(1) sale_state(9) s(3,2,5) named])
qed

text \<open>User \<open>x\<close> frees the server of the sample order, paid by \<open>u\<close>.\<close>

lemma stranger_releases_reservation_witness:
  "\<exists>answer db'. payOrderWithWallet saleTables (\<lambda>_. Inr ()) (\<lambda>_ d. d) 5 saleIds ''x'' ''o'' (snd salePaid) = (answer, db') \<and>
    answer = Inl ''not_found'' \<and> map_option od_status (findOrder ''o'' db') = Some SO_PAID \<and>
    dispatchReservedInventoryTx (dispatchOrderOf ''o'' sampleWish ''i'') ''vm1'' 5 (inventory (snd salePaid)) \<noteq>
      Inl ''inventory_assignment_conflict'' \<and>
    dispatchReservedInventoryTx (dispatchOrderOf ''o'' sampleWish ''i'') ''vm1'' 5 (inventory db') =
      Inl ''inventory_assignment_conflict''"
proof -
  obtain r where r: "findOrder ''o'' (snd salePaid) = Some r" "od_userId r \<noteq> ''x''" "od_status r = SO_PAID"
    using sale_paid by (auto split: option.splits)
  have stock: "inventory (snd salePaid) = boundDb"
    using payment_inventory [of saleTables 4 saleIds "''u''" "''o''" saleDb "fst salePaid" "snd salePaid"] sale_runs sale_state(6) by simp
  obtain item where item: "findRow (\<lambda>r. iv_reservedByOrderId r = Some ''o'') (items (inventory (snd salePaid))) = Some item"
      "iv_id item = ''i''" "iv_status item = IV_RESERVED" "iv_assignedOrderId item = None"
    using sale_server stock by (auto split: option.splits)
  have reach: "inventoryReach (inventory (snd salePaid))" using sampleServer_reach(2) stock by simp
  obtain answer db' where run: "payOrderWithWallet saleTables (\<lambda>_. Inr ()) (\<lambda>_ d. d) 5 saleIds ''x'' ''o'' (snd salePaid) = (answer, db')"
    by (metis surj_pair)
  from stranger_releases_reservation [OF r(1,2) sale_ledger(2) reach item(1,3,4) run] show ?thesis
    using run r(3) sale_dispatch stock item(2) by (intro exI [of _ answer] exI [of _ db']) (auto simp: dispatchOrderOf_def split: sum.splits)
qed

end
