(* ===== verification/ProviderContract.thy ===== *)
theory ProviderContract
  imports PlanPricing Billing Posting Dates
begin

text \<open>
  The provider's billing contract, \<open>src/lib/billing/provider-contract.ts\<close>: usage may be billed only under a version
  of the contract of which every field was verified. The rows of the table are an argument.
\<close>

datatype ContractStatus = PC_VERIFIED | PC_UNVERIFIED | PC_REVOKED | PC_INVALID

record ContractRow =
  pc_id :: string
  pc_provider :: InfrastructureProvider
  pc_providerApiVersion :: string
  pc_productKind :: InfrastructureProductKind
  pc_version :: int
  pc_status :: ContractStatus
  pc_source :: string
  pc_calculationUnit :: "BillingCalculationUnit option"
  pc_minimumChargeSeconds :: "int option"
  pc_roundingPolicy :: "BillingRoundingPolicy option"
  pc_prorationSupported :: "bool option"
  pc_hourlyRateAvailable :: "bool option"
  pc_dailyRateAvailable :: "bool option"
  pc_stopStateBillableComponents :: jsval
  pc_fieldVerification :: jsval
  pc_effectiveFrom :: int
  pc_effectiveTo :: "int option"

record StopStateComponents =
  ss_compute :: bool
  ss_disk :: bool
  ss_ip :: bool
  ss_backup :: bool
  ss_traffic :: bool
  ss_snapshot :: bool

record VerifiedContract =
  vc_id :: string
  vc_provider :: InfrastructureProvider
  vc_providerApiVersion :: string
  vc_productKind :: InfrastructureProductKind
  vc_version :: int
  vc_source :: string
  vc_effectiveFrom :: int
  vc_calculationUnit :: BillingCalculationUnit
  vc_minimumChargeSeconds :: int
  vc_roundingPolicy :: BillingRoundingPolicy
  vc_prorationSupported :: bool
  vc_hourlyRateAvailable :: bool
  vc_dailyRateAvailable :: bool
  vc_stopState :: StopStateComponents

record ContractReference =
  rf_id :: string
  rf_provider :: string
  rf_providerApiVersion :: string
  rf_productKind :: string
  rf_version :: int

definition REQUIRED_FIELDS :: "string list" where
  "REQUIRED_FIELDS = [''calculationUnit'', ''minimumChargeSeconds'', ''roundingPolicy'', ''prorationSupported'',
     ''hourlyRateAvailable'', ''dailyRateAvailable'', ''stopStateBillableComponents'']"

fun providerText :: "InfrastructureProvider \<Rightarrow> string" where
  "providerText ARVAN = ''ARVAN''"

fun contractStatusText :: "ContractStatus \<Rightarrow> string" where
  "contractStatusText PC_VERIFIED = ''VERIFIED''"
| "contractStatusText PC_UNVERIFIED = ''UNVERIFIED''"
| "contractStatusText PC_REVOKED = ''REVOKED''"
| "contractStatusText PC_INVALID = ''INVALID''"

fun calculationUnitText :: "BillingCalculationUnit \<Rightarrow> string" where
  "calculationUnitText SECOND = ''SECOND''"
| "calculationUnitText MINUTE = ''MINUTE''"
| "calculationUnitText HOUR = ''HOUR''"
| "calculationUnitText DAY = ''DAY''"

fun roundingPolicyText :: "BillingRoundingPolicy \<Rightarrow> string" where
  "roundingPolicyText EXACT = ''EXACT''"
| "roundingPolicyText CEIL_UNIT = ''CEIL_UNIT''"
| "roundingPolicyText FLOOR_UNIT = ''FLOOR_UNIT''"
| "roundingPolicyText NEAREST_UNIT = ''NEAREST_UNIT''"

definition orJsNull :: "('a \<Rightarrow> jsval) \<Rightarrow> 'a option \<Rightarrow> jsval" where
  "orJsNull f v = (case v of None \<Rightarrow> JNull | Some x \<Rightarrow> f x)"

text \<open>\<open>[...new Set(xs)]\<close> keeps the first of equal elements.\<close>

definition uniqueTexts :: "string list \<Rightarrow> string list" where
  "uniqueTexts xs = rev (remdups (rev xs))"

definition stopFlag :: "string \<Rightarrow> jsval \<Rightarrow> bool option" where
  "stopFlag name v = (case recordGet name (asRecord v) of JBool b \<Rightarrow> Some b | _ \<Rightarrow> None)"

definition parsedStopStateComponents :: "jsval \<Rightarrow> StopStateComponents option" where
  "parsedStopStateComponents v =
     (case (stopFlag ''compute'' v, stopFlag ''disk'' v, stopFlag ''ip'' v, stopFlag ''backup'' v, stopFlag ''traffic'' v,
        stopFlag ''snapshot'' v) of
        (Some c, Some d, Some i, Some b, Some t, Some s) \<Rightarrow> Some \<lparr>ss_compute = c, ss_disk = d, ss_ip = i, ss_backup = b,
          ss_traffic = t, ss_snapshot = s\<rparr>
      | _ \<Rightarrow> None)"

definition isSafeInt :: "int \<Rightarrow> bool" where
  "isSafeInt n \<longleftrightarrow> \<bar>n\<bar> \<le> MAX_SAFE_INTEGER"

definition fieldVerified :: "ContractRow \<Rightarrow> string \<Rightarrow> bool" where
  "fieldVerified c field \<longleftrightarrow> recordGet field (asRecord (pc_fieldVerification c)) = JStr ''VERIFIED''"

definition statusReason :: "ContractStatus \<Rightarrow> string list" where
  "statusReason s = (case s of PC_VERIFIED \<Rightarrow> [] | PC_REVOKED \<Rightarrow> [''contract_revoked''] | PC_INVALID \<Rightarrow> [''contract_invalid'']
     | PC_UNVERIFIED \<Rightarrow> [''contract_unverified''])"

definition missingValue :: "'a option \<Rightarrow> string \<Rightarrow> string list" where
  "missingValue v reason = (if v = None then [reason] else [])"

definition contractBlockingReasons :: "ContractRow \<Rightarrow> string list" where
  "contractBlockingReasons c = uniqueTexts (statusReason (pc_status c) @ filter (\<lambda>f. \<not> fieldVerified c f) REQUIRED_FIELDS @
     (if \<not> isSafeInt (pc_version c) \<or> pc_version c \<le> 0 then [''contract_version_invalid''] else []) @
     missingValue (pc_calculationUnit c) ''calculationUnit_value'' @
     missingValue (pc_minimumChargeSeconds c) ''minimumChargeSeconds_value'' @
     missingValue (pc_roundingPolicy c) ''roundingPolicy_value'' @
     missingValue (pc_prorationSupported c) ''prorationSupported_value'' @
     missingValue (pc_hourlyRateAvailable c) ''hourlyRateAvailable_value'' @
     missingValue (pc_dailyRateAvailable c) ''dailyRateAvailable_value'' @
     missingValue (parsedStopStateComponents (pc_stopStateBillableComponents c)) ''stopStateBillableComponents_value'')"

definition providerBillingContractBlockingReasons :: "ContractRow option \<Rightarrow> string list" where
  "providerBillingContractBlockingReasons c = (case c of None \<Rightarrow> [''provider_billing_contract_missing'']
     | Some c \<Rightarrow> contractBlockingReasons c)"

definition serializeProviderBillingContract :: "ContractRow \<Rightarrow> jsval" where
  "serializeProviderBillingContract c = JObj
     [(''id'', JStr (pc_id c)), (''provider'', JStr (providerText (pc_provider c))),
      (''providerApiVersion'', JStr (pc_providerApiVersion c)), (''productKind'', JStr (productKindText (pc_productKind c))),
      (''version'', JInt (pc_version c)), (''status'', JStr (contractStatusText (pc_status c))), (''source'', JStr (pc_source c)),
      (''effectiveFrom'', JStr (toISOString (pc_effectiveFrom c))),
      (''effectiveTo'', orJsNull (\<lambda>t. JStr (toISOString t)) (pc_effectiveTo c)),
      (''calculationUnit'', orJsNull (\<lambda>u. JStr (calculationUnitText u)) (pc_calculationUnit c)),
      (''minimumChargeSeconds'', orJsNull JInt (pc_minimumChargeSeconds c)),
      (''roundingPolicy'', orJsNull (\<lambda>r. JStr (roundingPolicyText r)) (pc_roundingPolicy c)),
      (''prorationSupported'', orJsNull JBool (pc_prorationSupported c)),
      (''hourlyRateAvailable'', orJsNull JBool (pc_hourlyRateAvailable c)),
      (''dailyRateAvailable'', orJsNull JBool (pc_dailyRateAvailable c)),
      (''stopStateBillableComponents'', pc_stopStateBillableComponents c), (''fieldVerification'', pc_fieldVerification c),
      (''unverifiedFields'', JArr (map JStr (contractBlockingReasons c)))]"

definition effectiveAt :: "int \<Rightarrow> ContractRow \<Rightarrow> bool" where
  "effectiveAt at c \<longleftrightarrow> pc_effectiveFrom c \<le> at \<and> (case pc_effectiveTo c of None \<Rightarrow> True | Some t \<Rightarrow> t > at)"

definition getEffectiveProviderBillingContract ::
  "InfrastructureProvider \<Rightarrow> string \<Rightarrow> InfrastructureProductKind \<Rightarrow> int \<Rightarrow> ContractRow list \<Rightarrow> ContractRow option" where
  "getEffectiveProviderBillingContract provider apiVersion kind at rows =
     (case sort_key (\<lambda>c. - pc_effectiveFrom c) (sort_key (\<lambda>c. - pc_version c) (filter (\<lambda>c. pc_provider c = provider \<and>
        pc_providerApiVersion c = apiVersion \<and> pc_productKind c = kind \<and> effectiveAt at c) rows)) of
      [] \<Rightarrow> None | c # _ \<Rightarrow> Some c)"

definition parseProviderBillingContractSnapshotReference :: "jsval \<Rightarrow> ContractReference option" where
  "parseProviderBillingContractSnapshotReference v = (case asRecord v of None \<Rightarrow> None
     | Some es \<Rightarrow> (case (jsGet ''id'' es, jsGet ''provider'' es, jsGet ''providerApiVersion'' es, jsGet ''productKind'' es,
          jsGet ''version'' es) of
          (JStr i, JStr p, JStr a, JStr k, JInt n) \<Rightarrow> if isSafeInt n then Some \<lparr>rf_id = i, rf_provider = p,
            rf_providerApiVersion = a, rf_productKind = k, rf_version = n\<rparr> else None
        | _ \<Rightarrow> None))"

definition referenceMatches ::
  "ContractReference \<Rightarrow> ContractRow \<Rightarrow> InfrastructureProvider \<Rightarrow> string \<Rightarrow> InfrastructureProductKind \<Rightarrow> bool" where
  "referenceMatches r c provider apiVersion kind \<longleftrightarrow> rf_provider r = providerText provider \<and>
     rf_providerApiVersion r = apiVersion \<and> rf_productKind r = productKindText kind \<and> pc_provider c = provider \<and>
     pc_providerApiVersion c = apiVersion \<and> pc_productKind c = kind \<and> pc_version c = rf_version r"

definition getVerifiedProviderBillingContractFromSnapshot ::
  "jsval \<Rightarrow> InfrastructureProvider \<Rightarrow> string \<Rightarrow> InfrastructureProductKind \<Rightarrow> int \<Rightarrow> ContractRow list \<Rightarrow>
   ContractRow option \<times> string list" where
  "getVerifiedProviderBillingContractFromSnapshot snapshot provider apiVersion kind at rows =
     (case parseProviderBillingContractSnapshotReference snapshot of
        None \<Rightarrow> (None, [''provider_billing_contract_snapshot_missing''])
      | Some r \<Rightarrow> (case findRow (\<lambda>c. pc_id c = rf_id r) rows of
          None \<Rightarrow> (None, [''provider_billing_contract_snapshot_not_found''])
        | Some c \<Rightarrow> (Some c, uniqueTexts (contractBlockingReasons c @
            (if referenceMatches r c provider apiVersion kind then [] else [''provider_billing_contract_snapshot_mismatch'']) @
            (if effectiveAt at c then [] else [''provider_billing_contract_snapshot_not_effective''])))))"

definition requireVerifiedProviderBillingContract :: "ContractRow option \<Rightarrow> string + VerifiedContract" where
  "requireVerifiedProviderBillingContract c = (case c of None \<Rightarrow> Inl ''provider_billing_contract_unverified''
     | Some c \<Rightarrow> if contractBlockingReasons c \<noteq> [] then Inl ''provider_billing_contract_unverified''
       else (case (pc_calculationUnit c, pc_minimumChargeSeconds c, pc_roundingPolicy c, pc_prorationSupported c,
           pc_hourlyRateAvailable c, pc_dailyRateAvailable c, parsedStopStateComponents (pc_stopStateBillableComponents c)) of
         (Some u, Some m, Some r, Some p, Some h, Some d, Some s) \<Rightarrow> Inr \<lparr>vc_id = pc_id c, vc_provider = pc_provider c,
           vc_providerApiVersion = pc_providerApiVersion c, vc_productKind = pc_productKind c, vc_version = pc_version c,
           vc_source = pc_source c, vc_effectiveFrom = pc_effectiveFrom c, vc_calculationUnit = u, vc_minimumChargeSeconds = m,
           vc_roundingPolicy = r, vc_prorationSupported = p, vc_hourlyRateAvailable = h, vc_dailyRateAvailable = d,
           vc_stopState = s\<rparr>
       | _ \<Rightarrow> Inl ''provider_billing_contract_unverified''))"

definition requireVerifiedProviderBillingContractFromSnapshot ::
  "jsval \<Rightarrow> InfrastructureProvider \<Rightarrow> string \<Rightarrow> InfrastructureProductKind \<Rightarrow> int \<Rightarrow> ContractRow list \<Rightarrow> string + VerifiedContract" where
  "requireVerifiedProviderBillingContractFromSnapshot snapshot provider apiVersion kind at rows =
     (let (c, reasons) = getVerifiedProviderBillingContractFromSnapshot snapshot provider apiVersion kind at rows in
      if c = None \<or> reasons \<noteq> [] then Inl ''provider_billing_contract_unverified''
      else requireVerifiedProviderBillingContract c)"

definition stopStatePolicyFromProviderContract :: "VerifiedContract \<Rightarrow> jsval" where
  "stopStatePolicyFromProviderContract c = (let s = vc_stopState c in JObj [(''COMPUTE'', JBool (ss_compute s)),
     (''DISK'', JBool (ss_disk s)), (''IP'', JBool (ss_ip s)), (''BACKUP'', JBool (ss_backup s)),
     (''TRAFFIC'', JBool (ss_traffic s)), (''SNAPSHOT'', JBool (ss_snapshot s))])"

section \<open>What is verified\<close>

lemma uniqueTexts_Nil [simp]: "uniqueTexts xs = [] \<longleftrightarrow> xs = []"
  by (simp add: uniqueTexts_def)

lemma missingValue_Nil [simp]: "missingValue v r = [] \<longleftrightarrow> v \<noteq> None"
  by (simp add: missingValue_def)

lemma statusReason_Nil [simp]: "statusReason s = [] \<longleftrightarrow> s = PC_VERIFIED"
  by (cases s) (simp_all add: statusReason_def)

text \<open>A contract is accepted exactly when it is verified as a whole and field by field and every value is there; the
  second look of the caller never refuses what the first accepted.\<close>

lemma blockingReasons_Nil: "contractBlockingReasons c = [] \<longleftrightarrow> pc_status c = PC_VERIFIED \<and>
  list_all (fieldVerified c) REQUIRED_FIELDS \<and> isSafeInt (pc_version c) \<and> 0 < pc_version c \<and> pc_calculationUnit c \<noteq> None \<and>
  pc_minimumChargeSeconds c \<noteq> None \<and> pc_roundingPolicy c \<noteq> None \<and> pc_prorationSupported c \<noteq> None \<and>
  pc_hourlyRateAvailable c \<noteq> None \<and> pc_dailyRateAvailable c \<noteq> None \<and>
  parsedStopStateComponents (pc_stopStateBillableComponents c) \<noteq> None"
  by (auto simp: contractBlockingReasons_def filter_empty_conv list_all_iff not_less split: if_splits)

lemma verified_contract_accepted:
  "isOk (requireVerifiedProviderBillingContract (Some c)) \<longleftrightarrow> contractBlockingReasons c = []"
  by (auto simp: requireVerifiedProviderBillingContract_def isOk_def blockingReasons_Nil split: option.splits)

end
