(* ===== verification/UsageTimeline.thy ===== *)
theory UsageTimeline
  imports BillingWorker ProviderContract AdminCommand
begin

text \<open>
  The usage timeline the billing worker charges by, with all its writers: \<open>startInitialUsageBillingTx\<close>
  (\<open>src/lib/billing/start.ts\<close>), \<open>recordProviderConfirmedResourceVersion\<close> (\<open>resource-timeline.ts\<close>) and
  \<open>scheduleServiceBillingCadenceChange\<close> (\<open>policy-admin.ts\<close>). Plans, policies and contracts are only read and are an
  argument; generated ids are arguments. The audit log is not modelled.
\<close>

section \<open>Tables\<close>

datatype ResourceChangeStatus =
    RC_REQUESTED | RC_CREDIT_REQUIRED | RC_WAITING_ADMIN_APPROVAL | RC_APPROVED | RC_PROVIDER_MUTATION_PENDING
  | RC_PROVIDER_CONFIRMED | RC_APPLIED | RC_REVIEW | RC_CANCELED
datatype InstanceStatus = CI_PENDING | CI_ACTIVE | CI_FAILED | CI_TERMINATED
datatype ActivationStatus =
    AT_CREDIT_REQUIRED | AT_WAITING_ADMIN_APPROVAL | AT_APPROVED | AT_PROVISIONING | AT_PROVIDER_CONFIRMED
  | AT_WAITING_DELIVERY_APPROVAL | AT_ACTIVE | AT_HELD | AT_CANCELED

record TimelinePlan =
  tp_id :: string
  tp_provider :: InfrastructureProvider
  tp_providerApiVersion :: string
  tp_productKind :: InfrastructureProductKind
  tp_paygWallet :: bool
  tp_vcpu :: "int option"
  tp_ramGb :: "int option"
  tp_storageGb :: "int option"
  tp_regionCode :: string
  tp_sizeCode :: string
  tp_externalPlanId :: "string option"

record PolicyVersionRow = BillingPolicyContract +
  bv_id :: string
  bv_planId :: "string option"
  bv_calculationUnit :: BillingCalculationUnit
  bv_minimumChargeSeconds :: int
  bv_roundingPolicy :: BillingRoundingPolicy
  bv_prorationSupported :: bool
  bv_stopStateComponentPolicy :: jsval
  bv_effectiveFrom :: int
  bv_effectiveTo :: "int option"

record TimelineTables =
  tt_plans :: "TimelinePlan list"
  tt_policies :: "PolicyVersionRow list"
  tt_contracts :: "ContractRow list"

text \<open>An instance with the plan and the activation request of its infrastructure order.\<close>

record InstanceRow =
  cn_id :: string
  cn_userId :: string
  cn_planId :: string
  cn_activationRequestId :: "string option"
  cn_provider :: InfrastructureProvider
  cn_ipv4 :: "string option"
  cn_status :: InstanceStatus
  cn_providerState :: "string option"
  cn_providerObservedAt :: "int option"
  cn_terminatedAt :: "int option"

record ActivationRow =
  at_id :: string
  at_planId :: string
  at_billingPolicyVersionId :: string
  at_selectedCadence :: BillingCadence
  at_status :: ActivationStatus
  at_minimumCreditRequiredRial :: int
  at_estimateSnapshot :: jsval
  at_providerBillingContractSnapshot :: jsval
  at_providerConfirmedAt :: "int option"

text \<open>The rows the worker reads, with their other columns.\<close>

record SnapshotRow = PolicySnapshotRow +
  sn_billingPolicyVersionId :: string
  sn_activationRequestId :: "string option"
  sn_displayMode :: BillingPriceDisplayMode
  sn_calculationUnit :: BillingCalculationUnit
  sn_minimumChargeSeconds :: int
  sn_roundingPolicy :: BillingRoundingPolicy
  sn_prorationSupported :: bool
  sn_hourlyEstimateRial :: "int option"
  sn_dailyEstimateRial :: "int option"
  sn_minimumCreditRial :: int
  sn_providerPolicySnapshot :: jsval
  sn_idempotencyKey :: string

record VersionRow = ResourceVersionRow +
  rv_cloudInstanceId :: string
  rv_sourceChangeRequestId :: "string option"
  rv_providerEventId :: string
  rv_idempotencyKey :: string

record IntervalRow =
  un_id :: string
  un_cloudInstanceId :: string
  un_resourceVersionId :: string
  un_snapshotId :: string
  un_status :: UsageIntervalStatus
  un_startedAt :: int
  un_endedAt :: "int option"
  un_providerEventStartId :: string
  un_providerEventEndId :: "string option"
  un_completenessReason :: "string option"
  un_idempotencyKey :: string

record RateRow = RateCardRow +
  rc_externalPlanId :: string
  rc_providerApiVersion :: string
  rc_regionCode :: string
  rc_sourceRevision :: string
  rc_providerBillingContractSnapshot :: jsval
  rc_idempotencyKey :: string

record ChangeRow =
  gr_id :: string
  gr_cloudInstanceId :: string
  gr_planId :: string
  gr_requestedById :: string
  gr_requestedResources :: jsval
  gr_estimateSnapshot :: jsval
  gr_incrementalBufferRial :: int
  gr_status :: ResourceChangeStatus
  gr_idempotencyKey :: string
  gr_providerConfirmedAt :: "int option"

record TimelineDb = AdminDb +
  instanceRows :: "InstanceRow list"
  activationRows :: "ActivationRow list"
  snapshotRows :: "SnapshotRow list"
  versionRows :: "VersionRow list"
  intervalRows :: "IntervalRow list"
  rateRows :: "RateRow list"
  changeRows :: "ChangeRow list"

text \<open>\<open>findFirst\<close> in descending order.\<close>

definition latest :: "('r \<Rightarrow> int) \<Rightarrow> ('r \<Rightarrow> bool) \<Rightarrow> 'r list \<Rightarrow> 'r option" where
  "latest k p t = (case sort_key (\<lambda>r. - k r) (filter p t) of [] \<Rightarrow> None | r # _ \<Rightarrow> Some r)"

text \<open>A new row of a table with unique columns.\<close>

definition insertUnique :: "('r \<Rightarrow> 'r \<Rightarrow> bool) \<Rightarrow> 'r \<Rightarrow> 'r list \<Rightarrow> string + 'r list" where
  "insertUnique clash r t = (if \<exists>x \<in> set t. clash r x then Inl P2002 else Inr (t @ [r]))"

definition snapshotClash :: "SnapshotRow \<Rightarrow> SnapshotRow \<Rightarrow> bool" where
  "snapshotClash r x \<longleftrightarrow> sn_id r = sn_id x \<or> sn_idempotencyKey r = sn_idempotencyKey x \<or>
     (sn_activationRequestId r \<noteq> None \<and> sn_activationRequestId r = sn_activationRequestId x)"

definition versionClash :: "VersionRow \<Rightarrow> VersionRow \<Rightarrow> bool" where
  "versionClash r x \<longleftrightarrow> rv_id r = rv_id x \<or> rv_idempotencyKey r = rv_idempotencyKey x \<or>
     (rv_sourceChangeRequestId r \<noteq> None \<and> rv_sourceChangeRequestId r = rv_sourceChangeRequestId x)"

definition intervalClash :: "IntervalRow \<Rightarrow> IntervalRow \<Rightarrow> bool" where
  "intervalClash r x \<longleftrightarrow> un_id r = un_id x \<or> un_idempotencyKey r = un_idempotencyKey x"

definition rateClash :: "RateRow \<Rightarrow> RateRow \<Rightarrow> bool" where
  "rateClash r x \<longleftrightarrow> rc_id r = rc_id x \<or> rc_idempotencyKey r = rc_idempotencyKey x"

definition addSnapshot :: "SnapshotRow \<Rightarrow> TimelineDb \<Rightarrow> string + TimelineDb" where
  "addSnapshot r db = bindE (insertUnique snapshotClash r (snapshotRows db)) (\<lambda>t. Inr (db\<lparr>snapshotRows := t\<rparr>))"

definition addVersion :: "VersionRow \<Rightarrow> TimelineDb \<Rightarrow> string + TimelineDb" where
  "addVersion r db = bindE (insertUnique versionClash r (versionRows db)) (\<lambda>t. Inr (db\<lparr>versionRows := t\<rparr>))"

definition addInterval :: "IntervalRow \<Rightarrow> TimelineDb \<Rightarrow> string + TimelineDb" where
  "addInterval r db = bindE (insertUnique intervalClash r (intervalRows db)) (\<lambda>t. Inr (db\<lparr>intervalRows := t\<rparr>))"

definition addRate :: "RateRow \<Rightarrow> TimelineDb \<Rightarrow> string + TimelineDb" where
  "addRate r db = bindE (insertUnique rateClash r (rateRows db)) (\<lambda>t. Inr (db\<lparr>rateRows := t\<rparr>))"

definition findInstance :: "string \<Rightarrow> TimelineDb \<Rightarrow> InstanceRow option" where
  "findInstance i db = findRow (\<lambda>r. cn_id r = i) (instanceRows db)"

definition spansInstant :: "int \<Rightarrow> int \<Rightarrow> int option \<Rightarrow> bool" where
  "spansInstant t s e \<longleftrightarrow> s \<le> t \<and> (case e of None \<Rightarrow> True | Some x \<Rightarrow> x > t)"

section \<open>The start of billing\<close>

text \<open>The generated ids of one transaction.\<close>

record TimelineIds =
  nt_snapshot :: string
  nt_rate :: string
  nt_version :: string
  nt_interval :: string

definition bigintField :: "jsval \<Rightarrow> string + int" where
  "bigintField v = (case v of
     JStr s \<Rightarrow> if s \<noteq> [] \<and> list_all isDigit s then Inr (intTextVal s) else Inl ''billing_estimate_snapshot_invalid''
   | _ \<Rightarrow> Inl ''billing_estimate_snapshot_invalid'')"

definition planReady :: "TimelinePlan \<Rightarrow> bool" where
  "planReady p \<longleftrightarrow> tp_paygWallet p \<and> tp_vcpu p \<notin> {None, Some 0} \<and> tp_ramGb p \<notin> {None, Some 0} \<and> tp_storageGb p \<noteq> None"

definition planOf :: "TimelineTables \<Rightarrow> string \<Rightarrow> TimelinePlan option" where
  "planOf tabs i = findRow (\<lambda>p. tp_id p = i) (tt_plans tabs)"

definition policyOf :: "TimelineTables \<Rightarrow> string \<Rightarrow> PolicyVersionRow option" where
  "policyOf tabs i = findRow (\<lambda>p. bv_id p = i) (tt_policies tabs)"

definition estimateOf :: "ActivationRow \<Rightarrow> (string \<times> jsval) list option" where
  "estimateOf a = asRecord (at_estimateSnapshot a)"

definition firstSnapshot ::
  "string \<Rightarrow> InstanceRow \<Rightarrow> ActivationRow \<Rightarrow> PolicyVersionRow \<Rightarrow> VerifiedContract \<Rightarrow> jsval \<Rightarrow> int \<Rightarrow> int \<Rightarrow> int \<Rightarrow> SnapshotRow" where
  "firstSnapshot i inst a policy contract contractSnapshot hourly daily at =
     \<lparr>sn_id = i, sn_cloudInstanceId = cn_id inst, sn_cadence = at_selectedCadence a,
      sn_gracePeriods = (if at_selectedCadence a = HOURLY then bp_hourlyGracePeriods policy else bp_dailyGracePeriods policy),
      sn_lowBalanceThresholdPeriods = bp_lowBalanceThresholdPeriods policy,
      sn_stopStateComponentPolicy = stopStatePolicyFromProviderContract contract, sn_effectiveFrom = at, sn_effectiveTo = None,
      sn_billingPolicyVersionId = bv_id policy, sn_activationRequestId = Some (at_id a),
      sn_displayMode = bp_displayMode policy, sn_calculationUnit = vc_calculationUnit contract,
      sn_minimumChargeSeconds = vc_minimumChargeSeconds contract, sn_roundingPolicy = vc_roundingPolicy contract,
      sn_prorationSupported = vc_prorationSupported contract, sn_hourlyEstimateRial = Some hourly,
      sn_dailyEstimateRial = Some daily, sn_minimumCreditRial = at_minimumCreditRequiredRial a,
      sn_providerPolicySnapshot = contractSnapshot, sn_idempotencyKey = ''billing-policy:activation:'' @ at_id a\<rparr>"

definition externalPlan :: "(string \<times> jsval) list option \<Rightarrow> TimelinePlan \<Rightarrow> string" where
  "externalPlan estimate plan = (case recordGet ''externalPlanId'' estimate of JStr s \<Rightarrow> s
     | _ \<Rightarrow> orElse (tp_externalPlanId plan) (tp_sizeCode plan))"

definition firstRate ::
  "string \<Rightarrow> ActivationRow \<Rightarrow> TimelinePlan \<Rightarrow> VerifiedContract \<Rightarrow> jsval \<Rightarrow> int \<Rightarrow> int \<Rightarrow> int \<Rightarrow> RateRow" where
  "firstRate i a plan contract contractSnapshot providerHourly hourly at = (let estimate = estimateOf a in
     \<lparr>cr_calculationUnit = vc_calculationUnit contract, cr_minimumChargeSeconds = vc_minimumChargeSeconds contract,
      cr_roundingPolicy = vc_roundingPolicy contract, cr_prorationSupported = vc_prorationSupported contract,
      cr_resourceUnit = U_INSTANCE, cr_normalizedProviderRial = providerHourly, cr_customerRateRial = hourly,
      cr_markupBasisPoints = (case recordGet ''markupBasisPoints'' estimate of JInt n \<Rightarrow> n | _ \<Rightarrow> 0),
      rc_id = i, rc_planId = Some (tp_id plan), rc_provider = providerText (tp_provider plan),
      rc_productKind = productKindText (tp_productKind plan), rc_component = COMPUTE, rc_cadence = None,
      rc_providerCurrency = ''IRR'', rc_providerAmountUnit = ''RIAL'', rc_effectiveFrom = at, rc_effectiveTo = None, rc_externalPlanId = externalPlan estimate plan,
      rc_providerApiVersion = tp_providerApiVersion plan, rc_regionCode = tp_regionCode plan,
      rc_sourceRevision = (case recordGet ''quoteId'' estimate of JStr q \<Rightarrow> ''quote:'' @ q | _ \<Rightarrow> ''activation:'' @ at_id a),
      rc_providerBillingContractSnapshot = contractSnapshot,
      rc_idempotencyKey = ''rate:activation:'' @ at_id a @ '':compute''\<rparr>)"

definition firstVersion :: "string \<Rightarrow> InstanceRow \<Rightarrow> ActivationRow \<Rightarrow> TimelinePlan \<Rightarrow> string \<Rightarrow> int \<Rightarrow> VersionRow" where
  "firstVersion i inst a plan event at =
     \<lparr>rq_state = RV_ACTIVE, rq_vcpu = orElse (tp_vcpu plan) 0, rq_ramMb = orElse (tp_ramGb plan) 0 * 1024,
      rq_diskGb = orElse (tp_storageGb plan) 0, rq_ipv4Count = (if cn_ipv4 inst \<notin> {None, Some []} then 1 else 0),
      rq_backupEnabled = False, rq_snapshotCount = 0, rv_id = i, rv_planId = tp_id plan,
      rv_provider = providerText (cn_provider inst), rv_effectiveFrom = at, rv_effectiveTo = None,
      rv_cloudInstanceId = cn_id inst, rv_sourceChangeRequestId = None, rv_providerEventId = event,
      rv_idempotencyKey = ''resource:activation:'' @ at_id a\<rparr>"

definition newInterval ::
  "string \<Rightarrow> string \<Rightarrow> string \<Rightarrow> string \<Rightarrow> int \<Rightarrow> int option \<Rightarrow> string \<Rightarrow> string option \<Rightarrow> string \<Rightarrow> IntervalRow" where
  "newInterval i inst version snapshot s e startEvent endEvent key =
     \<lparr>un_id = i, un_cloudInstanceId = inst, un_resourceVersionId = version, un_snapshotId = snapshot,
      un_status = (if e = None then UI_OPEN else UI_COMPLETE), un_startedAt = s, un_endedAt = e,
      un_providerEventStartId = startEvent, un_providerEventEndId = endEvent, un_completenessReason = None,
      un_idempotencyKey = key\<rparr>"

definition confirmActivation :: "string \<Rightarrow> int \<Rightarrow> TimelineDb \<Rightarrow> TimelineDb" where
  "confirmActivation i at db = db\<lparr>activationRows := updateRows (\<lambda>a. at_id a = i)
     (\<lambda>a. a\<lparr>at_status := AT_PROVIDER_CONFIRMED, at_providerConfirmedAt := Some at\<rparr>) (activationRows db)\<rparr>"

text \<open>The rows of a new timeline: the snapshot, the rate, the first version of the resource, its usage.\<close>

definition writeTimeline ::
  "TimelineIds \<Rightarrow> InstanceRow \<Rightarrow> ActivationRow \<Rightarrow> TimelinePlan \<Rightarrow> PolicyVersionRow \<Rightarrow> VerifiedContract \<Rightarrow> jsval \<Rightarrow>
   int \<Rightarrow> int \<Rightarrow> int \<Rightarrow> string \<Rightarrow> int \<Rightarrow> TimelineDb \<Rightarrow> string + SnapshotRow option \<times> TimelineDb" where
  "writeTimeline ids inst a plan policy contract contractSnapshot providerHourly hourly daily event at db =
     (let sn = firstSnapshot (nt_snapshot ids) inst a policy contract contractSnapshot hourly daily at;
          v = firstVersion (nt_version ids) inst a plan event at;
          u = newInterval (nt_interval ids) (cn_id inst) (rv_id v) (sn_id sn) at None event None
            (''usage:activation:'' @ at_id a)
      in bindE (addSnapshot sn db) (\<lambda>db.
         bindE (addRate (firstRate (nt_rate ids) a plan contract contractSnapshot providerHourly hourly at) db) (\<lambda>db.
         bindE (addVersion v db) (\<lambda>db. bindE (addInterval u db) (\<lambda>db.
         Inr (Some sn, confirmActivation (at_id a) at db))))))"

text \<open>The contract of the provider and the estimate of the activation, before anything is written.\<close>

definition openTimeline ::
  "TimelineTables \<Rightarrow> TimelineIds \<Rightarrow> InstanceRow \<Rightarrow> ActivationRow \<Rightarrow> TimelinePlan \<Rightarrow> string \<Rightarrow> int \<Rightarrow> TimelineDb \<Rightarrow>
   string + SnapshotRow option \<times> TimelineDb" where
  "openTimeline tabs ids inst a plan event at db =
     (let (c, reasons) = getVerifiedProviderBillingContractFromSnapshot (at_providerBillingContractSnapshot a)
          (tp_provider plan) (tp_providerApiVersion plan) (tp_productKind plan) at (tt_contracts tabs) in
      case c of None \<Rightarrow> Inl ''provider_billing_contract_unverified''
      | Some row \<Rightarrow>
        if reasons \<noteq> [] then Inl ''provider_billing_contract_unverified''
        else bindE (requireVerifiedProviderBillingContract (Some row)) (\<lambda>contract.
        let contractSnapshot = serializeProviderBillingContract row; estimate = estimateOf a in
        bindE (bigintField (recordGet ''providerHourlyRial'' estimate)) (\<lambda>providerHourly.
        bindE (bigintField (recordGet ''hourlyEstimateRial'' estimate)) (\<lambda>hourly.
        bindE (bigintField (recordGet ''dailyEstimateRial'' estimate)) (\<lambda>daily.
        case policyOf tabs (at_billingPolicyVersionId a) of None \<Rightarrow> Inl P2025
        | Some policy \<Rightarrow> writeTimeline ids inst a plan policy contract contractSnapshot providerHourly hourly daily event at db)))))"

definition startInitialUsageBillingTx ::
  "TimelineTables \<Rightarrow> TimelineIds \<Rightarrow> string \<Rightarrow> int \<Rightarrow> string \<Rightarrow> TimelineDb \<Rightarrow> string + SnapshotRow option \<times> TimelineDb" where
  "startInitialUsageBillingTx tabs ids instanceId at event db = (case findInstance instanceId db of
     None \<Rightarrow> Inl P2025
   | Some inst \<Rightarrow> (case (case cn_activationRequestId inst of None \<Rightarrow> None
         | Some i \<Rightarrow> findRow (\<lambda>a. at_id a = i) (activationRows db)) of
       None \<Rightarrow> Inr (None, db)
     | Some a \<Rightarrow> (case findRow (\<lambda>s. sn_activationRequestId s = Some (at_id a)) (snapshotRows db) of
         Some replay \<Rightarrow> Inr (Some replay, db)
       | None \<Rightarrow>
         if at_status a \<noteq> AT_APPROVED \<and> at_status a \<noteq> AT_PROVISIONING then Inl ''activation_not_provider_confirmable''
         else case planOf tabs (at_planId a) of None \<Rightarrow> Inl P2025
         | Some plan \<Rightarrow> if \<not> planReady plan then Inl ''resource_snapshot_incomplete''
             else openTimeline tabs ids inst a plan event at db)))"

section \<open>A confirmation of the provider\<close>

record ConfirmedResources =
  cf_vcpu :: int
  cf_ramMb :: int
  cf_diskGb :: int
  cf_ipv4Count :: int
  cf_backupEnabled :: bool
  cf_snapshotCount :: int

record Confirmation =
  cf_cloudInstanceId :: string
  cf_planId :: string
  cf_state :: ResourceVersionState
  cf_resources :: ConfirmedResources
  cf_providerEventId :: string
  cf_providerConfirmedAt :: int
  cf_idempotencyKey :: string
  cf_sourceChangeRequestId :: "string option"

definition validateResources :: "ConfirmedResources \<Rightarrow> string + unit" where
  "validateResources r = guardE (cf_vcpu r > 0 \<and> cf_ramMb r > 0 \<and> cf_diskGb r \<ge> 0 \<and> cf_ipv4Count r \<ge> 0 \<and>
     cf_snapshotCount r \<ge> 0) ''invalid_provider_resource_snapshot''"

definition confirmable :: "ResourceChangeStatus \<Rightarrow> bool" where
  "confirmable s \<longleftrightarrow> s = RC_APPROVED \<or> s = RC_PROVIDER_MUTATION_PENDING"

definition sourceChange :: "Confirmation \<Rightarrow> TimelineDb \<Rightarrow> string + ChangeRow option" where
  "sourceChange i db = (case (if cf_sourceChangeRequestId i = Some [] then None else cf_sourceChangeRequestId i) of None \<Rightarrow> Inr None
     | Some c \<Rightarrow> (case findRow (\<lambda>r. gr_id r = c) (changeRows db) of None \<Rightarrow> Inl P2025
       | Some r \<Rightarrow> if gr_cloudInstanceId r \<noteq> cf_cloudInstanceId i \<or> \<not> confirmable (gr_status r)
           then Inl ''resource_change_not_provider_confirmable'' else Inr (Some r)))"

definition currentVersion :: "string \<Rightarrow> TimelineDb \<Rightarrow> VersionRow option" where
  "currentVersion i db = latest rv_effectiveFrom (\<lambda>v. rv_cloudInstanceId v = i \<and> rv_effectiveTo v = None) (versionRows db)"

definition snapshotAt :: "string \<Rightarrow> int \<Rightarrow> TimelineDb \<Rightarrow> SnapshotRow option" where
  "snapshotAt i t db = latest sn_effectiveFrom
     (\<lambda>s. sn_cloudInstanceId s = i \<and> spansInstant t (sn_effectiveFrom s) (sn_effectiveTo s)) (snapshotRows db)"

definition closeInterval :: "int \<Rightarrow> string \<Rightarrow> IntervalRow \<Rightarrow> IntervalRow" where
  "closeInterval t event u = u\<lparr>un_status := UI_COMPLETE, un_endedAt := Some t, un_providerEventEndId := Some event\<rparr>"

text \<open>The version in force ends, and with it the usage that runs across the instant.\<close>

definition endVersion :: "Confirmation \<Rightarrow> VersionRow option \<Rightarrow> TimelineDb \<Rightarrow> TimelineDb" where
  "endVersion i current db = (case current of None \<Rightarrow> db | Some v \<Rightarrow> (let t = cf_providerConfirmedAt i in
     db\<lparr>versionRows := updateRows (\<lambda>r. rv_id r = rv_id v) (\<lambda>r. r\<lparr>rv_effectiveTo := Some t\<rparr>) (versionRows db),
       intervalRows := updateRows (\<lambda>u. un_cloudInstanceId u = cf_cloudInstanceId i \<and> un_resourceVersionId u = rv_id v \<and>
           un_startedAt u < t \<and> (case un_endedAt u of None \<Rightarrow> True | Some e \<Rightarrow> e > t))
         (closeInterval t (cf_providerEventId i)) (intervalRows db)\<rparr>))"

definition confirmedVersion :: "string \<Rightarrow> InstanceRow \<Rightarrow> Confirmation \<Rightarrow> VersionRow" where
  "confirmedVersion n inst i = (let r = cf_resources i in
     \<lparr>rq_state = cf_state i, rq_vcpu = cf_vcpu r, rq_ramMb = cf_ramMb r, rq_diskGb = cf_diskGb r,
      rq_ipv4Count = cf_ipv4Count r, rq_backupEnabled = cf_backupEnabled r, rq_snapshotCount = cf_snapshotCount r,
      rv_id = n, rv_planId = cf_planId i, rv_provider = providerText (cn_provider inst),
      rv_effectiveFrom = cf_providerConfirmedAt i, rv_effectiveTo = None, rv_cloudInstanceId = cn_id inst,
      rv_sourceChangeRequestId = cf_sourceChangeRequestId i, rv_providerEventId = cf_providerEventId i,
      rv_idempotencyKey = cf_idempotencyKey i\<rparr>)"

text \<open>Usage scheduled from the instant on passes to the new version; the policy in force gets usage unless it has some.\<close>

definition repointUsage :: "Confirmation \<Rightarrow> VersionRow option \<Rightarrow> string \<Rightarrow> TimelineDb \<Rightarrow> TimelineDb" where
  "repointUsage i current n db = (case current of None \<Rightarrow> db
     | Some v \<Rightarrow> db\<lparr>intervalRows := updateRows (\<lambda>u. un_cloudInstanceId u = cf_cloudInstanceId i \<and>
         un_resourceVersionId u = rv_id v \<and> un_startedAt u \<ge> cf_providerConfirmedAt i)
         (\<lambda>u. u\<lparr>un_resourceVersionId := n\<rparr>) (intervalRows db)\<rparr>)"

definition startUsage :: "string \<Rightarrow> Confirmation \<Rightarrow> SnapshotRow option \<Rightarrow> string \<Rightarrow> TimelineDb \<Rightarrow> string + TimelineDb" where
  "startUsage n i snapshot version db = (case snapshot of None \<Rightarrow> Inr db
     | Some s \<Rightarrow> let t = cf_providerConfirmedAt i in
       if \<exists>u \<in> set (intervalRows db). un_cloudInstanceId u = cf_cloudInstanceId i \<and> un_resourceVersionId u = version \<and>
            un_snapshotId u = sn_id s \<and> spansInstant t (un_startedAt u) (un_endedAt u)
       then Inr db
       else addInterval (newInterval n (cf_cloudInstanceId i) version (sn_id s) t (sn_effectiveTo s) (cf_providerEventId i)
         (map_option (\<lambda>_. ''billing-policy:'' @ sn_id s) (sn_effectiveTo s)) (''usage:'' @ cf_idempotencyKey i)) db)"

definition resourceStateText :: "ResourceVersionState \<Rightarrow> string" where
  "resourceStateText s = (case s of RV_ACTIVE \<Rightarrow> ''ACTIVE'' | RV_STOPPED \<Rightarrow> ''STOPPED'' | RV_TERMINATED \<Rightarrow> ''TERMINATED'')"

definition applyChange :: "Confirmation \<Rightarrow> ChangeRow option \<Rightarrow> TimelineDb \<Rightarrow> TimelineDb" where
  "applyChange i change db = (case change of None \<Rightarrow> db | Some c \<Rightarrow> db\<lparr>changeRows := updateRows (\<lambda>r. gr_id r = gr_id c)
     (\<lambda>r. r\<lparr>gr_status := RC_APPLIED, gr_providerConfirmedAt := Some (cf_providerConfirmedAt i)\<rparr>) (changeRows db)\<rparr>)"

definition observeInstance :: "Confirmation \<Rightarrow> TimelineDb \<Rightarrow> TimelineDb" where
  "observeInstance i db = (let t = cf_providerConfirmedAt i; gone = (cf_state i = RV_TERMINATED) in
     db\<lparr>instanceRows := updateRows (\<lambda>r. cn_id r = cf_cloudInstanceId i)
       (\<lambda>r. r\<lparr>cn_status := (if gone then CI_TERMINATED else CI_ACTIVE),
         cn_providerState := Some (resourceStateText (cf_state i)), cn_providerObservedAt := Some t,
         cn_terminatedAt := (if gone then Some t else None)\<rparr>) (instanceRows db)\<rparr>)"

definition confirmVersionTx ::
  "TimelineTables \<Rightarrow> TimelineIds \<Rightarrow> Confirmation \<Rightarrow> TimelineDb \<Rightarrow> string + VersionRow \<times> TimelineDb" where
  "confirmVersionTx tabs ids i db = (case findRow (\<lambda>v. rv_idempotencyKey v = cf_idempotencyKey i) (versionRows db) of
     Some replay \<Rightarrow> Inr (replay, db)
   | None \<Rightarrow> (case (findInstance (cf_cloudInstanceId i) db, planOf tabs (cf_planId i)) of
       (Some inst, Some plan) \<Rightarrow>
         let current = currentVersion (cf_cloudInstanceId i) db;
             snapshot = snapshotAt (cf_cloudInstanceId i) (cf_providerConfirmedAt i) db;
             v = confirmedVersion (nt_version ids) inst i
         in if tp_provider plan \<noteq> cn_provider inst then Inl ''resource_plan_provider_mismatch''
         else if (case current of None \<Rightarrow> False | Some c \<Rightarrow> cf_providerConfirmedAt i \<le> rv_effectiveFrom c)
         then Inl ''non_monotonic_resource_version''
         else if snapshot = None \<and> tp_paygWallet plan then Inl ''billing_policy_snapshot_missing''
         else bindE (sourceChange i db) (\<lambda>change.
              bindE (addVersion v (endVersion i current db)) (\<lambda>db.
              bindE (startUsage (nt_interval ids) i snapshot (rv_id v) (repointUsage i current (rv_id v) db)) (\<lambda>db.
              Inr (v, observeInstance i (applyChange i change db)))))
     | _ \<Rightarrow> Inl P2025))"

definition recordProviderConfirmedResourceVersion ::
  "TimelineTables \<Rightarrow> int \<Rightarrow> TimelineIds \<Rightarrow> Confirmation \<Rightarrow> TimelineDb \<Rightarrow> string + VersionRow \<times> TimelineDb" where
  "recordProviderConfirmedResourceVersion tabs now ids i db =
     bindE (validateResources (cf_resources i)) (\<lambda>_.
     bindE (guardE (trim (cf_providerEventId i) \<noteq> [] \<and> cf_providerConfirmedAt i \<le> now + 60000)
       ''invalid_provider_confirmation'') (\<lambda>_. confirmVersionTx tabs ids i db))"

section \<open>A change of the cadence\<close>

record CadenceInput =
  cg_cloudInstanceId :: string
  cg_targetBillingPolicyVersionId :: string
  cg_targetCadence :: BillingCadence
  cg_effectiveFrom :: int
  cg_actorUserId :: string
  cg_reason :: string
  cg_idempotencyKey :: string

definition cadenceCommand :: "CadenceInput \<Rightarrow> AdminCommandInput" where
  "cadenceCommand i = \<lparr>ac_operation = ''CHANGE_SERVICE_BILLING_CADENCE'', ac_idempotencyKey = cg_idempotencyKey i,
     ac_actorUserId = cg_actorUserId i, ac_infrastructureOrderId = None, ac_serviceOrderId = None, ac_reason = cg_reason i,
     ac_payload = [(''cloudInstanceId'', JStr (cg_cloudInstanceId i)),
       (''targetBillingPolicyVersionId'', JStr (cg_targetBillingPolicyVersionId i)),
       (''targetCadence'', JStr (cadenceText (cg_targetCadence i))),
       (''effectiveFrom'', JStr (toISOString (cg_effectiveFrom i)))]\<rparr>"

definition boundaryOk :: "int \<Rightarrow> SnapshotRow \<Rightarrow> CadenceInput \<Rightarrow> bool" where
  "boundaryOk now current i \<longleftrightarrow> cg_effectiveFrom i = fst (periodContainingUtc (sn_cadence current) (cg_effectiveFrom i)) \<and>
     cg_effectiveFrom i \<ge> snd (periodContainingUtc (sn_cadence current) now)"

definition policyUsable :: "InstanceRow \<Rightarrow> CadenceInput \<Rightarrow> PolicyVersionRow \<Rightarrow> bool" where
  "policyUsable inst i p \<longleftrightarrow> bv_planId p = Some (cn_planId inst) \<and> bv_effectiveFrom p \<le> cg_effectiveFrom i \<and>
     (case bv_effectiveTo p of None \<Rightarrow> True | Some t \<Rightarrow> t > cg_effectiveFrom i)"

definition nextSnapshot :: "string \<Rightarrow> CadenceInput \<Rightarrow> string \<Rightarrow> PolicyVersionRow \<Rightarrow> int \<Rightarrow> SnapshotRow \<Rightarrow> SnapshotRow" where
  "nextSnapshot n i receiptKey p credit current =
     \<lparr>sn_id = n, sn_cloudInstanceId = cg_cloudInstanceId i, sn_cadence = cg_targetCadence i,
      sn_gracePeriods = (if cg_targetCadence i = HOURLY then bp_hourlyGracePeriods p else bp_dailyGracePeriods p),
      sn_lowBalanceThresholdPeriods = bp_lowBalanceThresholdPeriods p,
      sn_stopStateComponentPolicy = bv_stopStateComponentPolicy p, sn_effectiveFrom = cg_effectiveFrom i, sn_effectiveTo = None,
      sn_billingPolicyVersionId = bv_id p, sn_activationRequestId = None, sn_displayMode = bp_displayMode p,
      sn_calculationUnit = bv_calculationUnit p, sn_minimumChargeSeconds = bv_minimumChargeSeconds p,
      sn_roundingPolicy = bv_roundingPolicy p, sn_prorationSupported = bv_prorationSupported p,
      sn_hourlyEstimateRial = sn_hourlyEstimateRial current, sn_dailyEstimateRial = sn_dailyEstimateRial current,
      sn_minimumCreditRial = credit, sn_providerPolicySnapshot = sn_providerPolicySnapshot current,
      sn_idempotencyKey = ''billing-cadence:'' @ cg_cloudInstanceId i @ '':'' @ receiptKey\<rparr>"

text \<open>The policy and the usage in force end at the boundary, the next begin there.\<close>

definition switchCadence ::
  "TimelineIds \<Rightarrow> CadenceInput \<Rightarrow> string \<Rightarrow> SnapshotRow \<Rightarrow> IntervalRow \<Rightarrow> PolicyVersionRow \<Rightarrow> int \<Rightarrow> TimelineDb \<Rightarrow>
   string + jsval \<times> TimelineDb" where
  "switchCadence ids i receiptKey current usage policy credit db =
     (let t = cg_effectiveFrom i; new = nextSnapshot (nt_snapshot ids) i receiptKey policy credit current;
          db = db\<lparr>snapshotRows := updateRows (\<lambda>s. sn_id s = sn_id current) (\<lambda>s. s\<lparr>sn_effectiveTo := Some t\<rparr>) (snapshotRows db),
            intervalRows := updateRows (\<lambda>u. un_id u = un_id usage) (closeInterval t (''billing-cadence:'' @ receiptKey))
              (intervalRows db)\<rparr>
      in bindE (addSnapshot new db) (\<lambda>db.
         bindE (addInterval (newInterval (nt_interval ids) (cg_cloudInstanceId i) (un_resourceVersionId usage) (sn_id new) t None
           (''billing-cadence:'' @ receiptKey) None (''usage-cadence:'' @ cg_cloudInstanceId i @ '':'' @ receiptKey)) db) (\<lambda>db.
         Inr (JObj [(''cloudInstanceId'', JStr (cg_cloudInstanceId i)), (''previousSnapshotId'', JStr (sn_id current)),
           (''nextSnapshotId'', JStr (sn_id new)), (''previousCadence'', JStr (cadenceText (sn_cadence current))),
           (''targetCadence'', JStr (cadenceText (sn_cadence new))), (''effectiveFrom'', JStr (toISOString t)),
           (''walletChanged'', JBool False)], db))))"

definition cadenceBody ::
  "TimelineTables \<Rightarrow> int \<Rightarrow> TimelineIds \<Rightarrow> CadenceInput \<Rightarrow> string \<Rightarrow> TimelineDb \<Rightarrow> string + jsval \<times> TimelineDb" where
  "cadenceBody tabs now ids i receiptKey db = (case findInstance (cg_cloudInstanceId i) db of None \<Rightarrow> Inl P2025
     | Some inst \<Rightarrow> (case (latest sn_effectiveFrom (\<lambda>s. sn_cloudInstanceId s = cn_id inst \<and> sn_effectiveTo s = None) (snapshotRows db),
           latest un_startedAt (\<lambda>u. un_cloudInstanceId u = cn_id inst \<and> un_endedAt u = None) (intervalRows db)) of
         (Some current, Some usage) \<Rightarrow>
           if cn_status inst \<noteq> CI_ACTIVE then Inl ''billing_cadence_change_not_eligible''
           else if \<not> boundaryOk now current i then Inl ''billing_cadence_boundary_required''
           else (case policyOf tabs (cg_targetBillingPolicyVersionId i) of None \<Rightarrow> Inl P2025
             | Some policy \<Rightarrow>
               if \<not> policyUsable inst i policy then Inl ''billing_policy_unavailable''
               else bindE (assertCadenceAllowed (bp_availability policy) (cg_targetCadence i)) (\<lambda>_.
                    bindE (calculateMinimumCreditRial (BillingPolicyContract.truncate policy) (cg_targetCadence i)
                      (sn_hourlyEstimateRial current) (sn_dailyEstimateRial current) 0) (\<lambda>credit.
                    if (case getWalletForUser (cn_userId inst) db of None \<Rightarrow> True | Some w \<Rightarrow> w_availableBalance w < credit)
                    then Inl ''insufficient_credit''
                    else if \<exists>s \<in> set (snapshotRows db). sn_cloudInstanceId s = cn_id inst \<and> sn_effectiveFrom s > now
                    then Inl ''billing_cadence_change_pending''
                    else switchCadence ids i receiptKey current usage policy credit db)))
       | _ \<Rightarrow> Inl ''billing_cadence_change_not_eligible''))"

definition scheduleServiceBillingCadenceChange ::
  "TimelineTables \<Rightarrow> string list \<Rightarrow> (string \<Rightarrow> string) \<Rightarrow> int \<Rightarrow> TimelineIds \<Rightarrow> CadenceInput \<Rightarrow> TimelineDb \<Rightarrow>
   string + jsval \<times> TimelineDb" where
  "scheduleServiceBillingCadenceChange tabs mobiles digest now ids i db =
     bindE (normalizeAdminCommand digest (cadenceCommand i)) (\<lambda>c.
     adminCommandTx mobiles c (cadenceBody tabs now ids i (ac_receiptKey c)) db)"

section \<open>The timeline as it evolves\<close>

text \<open>What the worker reads: each interval with the version of the resource it refers to.\<close>

definition usageRow :: "IntervalRow \<Rightarrow> VersionRow \<Rightarrow> UsageRow" where
  "usageRow u v = \<lparr>ui_id = un_id u, ui_cloudInstanceId = un_cloudInstanceId u, ui_snapshotId = un_snapshotId u,
     ui_status = un_status u, ui_startedAt = un_startedAt u, ui_endedAt = un_endedAt u,
     ui_completenessReason = un_completenessReason u, ui_resource = ResourceVersionRow.truncate v\<rparr>"

definition usageRows :: "TimelineDb \<Rightarrow> UsageRow list" where
  "usageRows db = List.map_filter (\<lambda>u. map_option (usageRow u)
     (findRow (\<lambda>v. rv_id v = un_resourceVersionId u) (versionRows db))) (intervalRows db)"

text \<open>
  The tables at an instant: empty at first, then the three writers in any order, with everything else the program does
  in between, each with the guards of the code only. Billing starts for an instance that has no versions, which its two
  callers have just created.
\<close>

inductive timelineReach :: "int \<Rightarrow> TimelineDb \<Rightarrow> bool" where
  empty: "versionRows db = [] \<Longrightarrow> snapshotRows db = [] \<Longrightarrow> intervalRows db = [] \<Longrightarrow> timelineReach now db"
| start: "timelineReach now db \<Longrightarrow> \<forall>v \<in> set (versionRows db). rv_cloudInstanceId v \<noteq> i \<Longrightarrow>
    startInitialUsageBillingTx tabs ids i at event db = Inr (sn, db') \<Longrightarrow> timelineReach now db'"
| confirm: "timelineReach now db \<Longrightarrow>
    recordProviderConfirmedResourceVersion tabs now ids c db = Inr (v, db') \<Longrightarrow> timelineReach now db'"
| schedule: "timelineReach now db \<Longrightarrow>
    scheduleServiceBillingCadenceChange tabs mobiles digest now ids g db = Inr (out, db') \<Longrightarrow> timelineReach now db'"
| other: "timelineReach now db \<Longrightarrow> versionRows db' = versionRows db \<Longrightarrow> snapshotRows db' = snapshotRows db \<Longrightarrow>
    intervalRows db' = intervalRows db \<Longrightarrow> timelineReach now db'"
| later: "timelineReach now db \<Longrightarrow> now \<le> now' \<Longrightarrow> timelineReach now' db"

end
