(* ===== verification/TimelineProperties.thy ===== *)
theory TimelineProperties
  imports UsageTimeline
begin

text \<open>
  Usage is the product of two timelines. The versions of an instance and its billing policies are both chains of spans
  without gap or overlap; every writer keeps the usage intervals equal to the meets of the two chains, or closes an
  interval at or before its start; as long as that has not happened the worker finds every period covered. A run shows
  how it happens and that a period is then not covered.
\<close>

section \<open>Chains of spans\<close>

type_synonym span = "int \<times> int option"

fun chain :: "int \<Rightarrow> span list \<Rightarrow> bool" where
  "chain a [] = False"
| "chain a [(s, e)] = (s = a \<and> e = None)"
| "chain a ((s, e) # r # rs) = (s = a \<and> (case e of None \<Rightarrow> False | Some b \<Rightarrow> a < b \<and> chain b (r # rs)))"

definition minEnd :: "int option \<Rightarrow> int option \<Rightarrow> int option" where
  "minEnd d e = (case d of None \<Rightarrow> e | Some x \<Rightarrow> (case e of None \<Rightarrow> Some x | Some y \<Rightarrow> Some (min x y)))"

definition before :: "int \<Rightarrow> int option \<Rightarrow> bool" where
  "before s e = (case e of None \<Rightarrow> True | Some x \<Rightarrow> s < x)"

lemma before_simps [simp]: "before s None" "before s (Some x) = (s < x)"
  by (simp_all add: before_def)

definition meet :: "span \<Rightarrow> span \<Rightarrow> span list" where
  "meet v s = (let b = max (fst v) (fst s); e = minEnd (snd v) (snd s) in if before b e then [(b, e)] else [])"

lemma meet_commute: "meet v s = meet s v"
  by (auto simp: meet_def minEnd_def Let_def max.commute min.commute split: option.splits)

lemma chain_hd: "chain a (x # xs) \<Longrightarrow> fst x = a"
  by (cases xs; cases x) auto

lemma chain_Cons: "chain a (x # xs) \<longleftrightarrow> fst x = a \<and>
    (if xs = [] then snd x = None else \<exists>b. snd x = Some b \<and> a < b \<and> chain b xs)"
  by (cases x; cases xs) (auto split: option.splits)

lemma chain_from: "chain a xs \<Longrightarrow> x \<in> set xs \<Longrightarrow> a \<le> fst x"
proof (induction xs arbitrary: a)
  case (Cons y ys)
  then show ?case by (fastforce simp: chain_Cons split: if_splits)
qed simp

lemma chain_nonempty: "chain a xs \<Longrightarrow> x \<in> set xs \<Longrightarrow> before (fst x) (snd x)"
proof (induction xs arbitrary: a)
  case (Cons y ys)
  then show ?case by (fastforce simp: chain_Cons split: if_splits)
qed simp

text \<open>Rows with an id and a span.\<close>

type_synonym row = "string \<times> span"

text \<open>The open span of a chain ends at an instant, and a new one starts there.\<close>

definition cut :: "string \<Rightarrow> int \<Rightarrow> row list \<Rightarrow> row list" where
  "cut k t = map (\<lambda>(i, s). (i, if i = k then (fst s, Some t) else s))"

lemma map_fst_cut [simp]: "map fst (cut k t L) = map fst L"
  by (simp add: cut_def case_prod_beta comp_def)

lemma cut_other: "k \<notin> fst ` set L \<Longrightarrow> cut k t L = L"
  by (induction L) (auto simp: cut_def)

lemma chain_cut:
  assumes "chain a (map snd L)" and "distinct (map fst L)" and "(k, s, None) \<in> set L" and "s < t"
  shows "chain a (map snd (cut k t L @ [(n, t, None)]))"
  using assms
proof (induction L arbitrary: a)
  case (Cons x L)
  show ?case
  proof (cases "L = []")
    case True
    then show ?thesis using Cons.prems by (auto simp: cut_def)
  next
    case False
    with Cons.prems obtain b where b: "snd (snd x) = Some b" "fst (snd x) = a" "a < b" "chain b (map snd L)"
      by (auto simp: chain_Cons)
    then have in_L: "(k, s, None) \<in> set L" using Cons.prems by auto
    then have other: "fst x \<noteq> k" using Cons.prems by (force simp: rev_image_eqI)
    have "chain b (map snd (cut k t L @ [(n, t, None)]))" using Cons.IH [OF b(4)] Cons.prems in_L by simp
    then show ?thesis using b other by (cases x) (auto simp: cut_def chain_Cons)
  qed
qed simp

text \<open>Every instant from the start of a chain on is in exactly one of its spans, and exactly one span is open.\<close>

lemma chain_at:
  "chain a (map snd L) \<Longrightarrow> a \<le> t \<Longrightarrow> \<exists>x. filter (\<lambda>x. spansInstant t (fst (snd x)) (snd (snd x))) L = [x]"
proof (induction L arbitrary: a)
  case (Cons x L)
  show ?case
  proof (cases "L = []")
    case True
    then show ?thesis using Cons.prems by (cases x) (auto simp: spansInstant_def chain_Cons)
  next
    case False
    with Cons.prems obtain b where b: "snd (snd x) = Some b" "fst (snd x) = a" "a < b" "chain b (map snd L)"
      by (auto simp: chain_Cons)
    show ?thesis
    proof (cases "b \<le> t")
      case True
      then show ?thesis using Cons.IH [OF b(4)] b by (simp add: spansInstant_def)
    next
      case early: False
      have "\<not> spansInstant t (fst (snd y)) (snd (snd y))" if "y \<in> set L" for y
        using chain_from [OF b(4), of "snd y"] that early by (auto simp: spansInstant_def)
      then have "filter (\<lambda>x. spansInstant t (fst (snd x)) (snd (snd x))) L = []" by (simp add: filter_empty_conv)
      then show ?thesis using b early Cons.prems(2) by (cases x) (simp add: spansInstant_def)
    qed
  qed
qed simp

lemma chain_open:
  "chain a (map snd L) \<Longrightarrow> \<exists>k s. filter (\<lambda>x. snd (snd x) = None) L = [(k, s, None)]"
proof (induction L arbitrary: a)
  case (Cons x L)
  then show ?case by (cases x; cases "L = []") (auto simp: chain_Cons)
qed simp

lemma chain_ended:
  "chain a (map snd L) \<Longrightarrow> (k, s, None) \<in> set L \<Longrightarrow> x \<in> set L \<Longrightarrow> snd (snd x) = Some e \<Longrightarrow> e \<le> s"
proof (induction L arbitrary: a)
  case (Cons y L)
  show ?case
  proof (cases "L = []")
    case False
    with Cons.prems(1) obtain b where b: "snd (snd y) = Some b" "fst (snd y) = a" "a < b" "chain b (map snd L)"
      by (auto simp: chain_Cons)
    then have in_L: "(k, s, None) \<in> set L" using Cons.prems(2) by auto
    then have "b \<le> s" using chain_from [OF b(4), of "(s, None)"] by force
    then show ?thesis using Cons.IH [OF b(4) in_L] Cons.prems(3,4) b(1) by auto
  qed (use Cons.prems in auto)
qed simp

text \<open>The part of a span inside a target, as the worker computes it, and how the parts of a chain cover the target.\<close>

definition clip :: "int \<Rightarrow> int \<Rightarrow> span \<Rightarrow> (int \<times> int) list" where
  "clip ts te v = (case intersection ts te (fst v) (snd v) of None \<Rightarrow> [] | Some p \<Rightarrow> [p])"

lemma chain_clip_sorted:
  "chain a xs \<Longrightarrow> sorted (map fst (concat (map (clip ts te) xs))) \<and> distinct (map fst (concat (map (clip ts te) xs)))
    \<and> (\<forall>p \<in> set (concat (map (clip ts te) xs)). a \<le> fst p)"
proof (induction xs arbitrary: a)
  case (Cons x xs)
  show ?case
  proof (cases "xs = []")
    case True
    then show ?thesis using Cons.prems
      by (auto simp: clip_def intersection_def maximumDate_def minimumDate_def chain_Cons Let_def split: option.splits)
  next
    case False
    with Cons.prems obtain b where b: "snd x = Some b" "fst x = a" "a < b" "chain b xs" by (auto simp: chain_Cons)
    have "fst p < b \<and> a \<le> fst p" if "p \<in> set (clip ts te x)" for p
      using that b by (auto simp: clip_def intersection_def maximumDate_def minimumDate_def Let_def split: option.splits if_splits)
    moreover have "length (clip ts te x) \<le> 1" by (auto simp: clip_def split: option.splits)
    ultimately show ?thesis using Cons.IH [OF b(4)] b(3)
      by (cases "clip ts te x") (fastforce simp: sorted_append)+
  qed
qed simp

lemma chain_clip_covers:
  "chain a xs \<Longrightarrow> ts < te \<Longrightarrow> coverCursor (min (max a ts) te) (concat (map (clip ts te) xs)) = Some te"
proof (induction xs arbitrary: a)
  case (Cons x xs)
  show ?case
  proof (cases "xs = []")
    case True
    then show ?thesis using Cons.prems
      by (auto simp: clip_def intersection_def maximumDate_def minimumDate_def chain_Cons Let_def split: option.splits)
  next
    case False
    with Cons.prems obtain b where b: "snd x = Some b" "fst x = a" "a < b" "chain b xs" by (auto simp: chain_Cons)
    show ?thesis
      using Cons.IH [OF b(4) Cons.prems(2)] b(1-3) Cons.prems(2)
      by (auto simp: clip_def intersection_def maximumDate_def minimumDate_def Let_def min_def max_def split: if_splits)
  qed
qed simp

section \<open>Usage as the product of two chains\<close>

text \<open>Usage: the id of the version, the id of the policy, the span.\<close>

type_synonym use = "string \<times> row"

definition usesOf :: "string \<Rightarrow> string \<Rightarrow> use list \<Rightarrow> span list" where
  "usesOf v s U = map (\<lambda>u. snd (snd u)) (filter (\<lambda>u. fst u = v \<and> fst (snd u) = s) U)"

definition isProduct :: "row list \<Rightarrow> row list \<Rightarrow> use list \<Rightarrow> bool" where
  "isProduct V S U \<longleftrightarrow> (\<forall>v \<in> set V. \<forall>s \<in> set S. usesOf (fst v) (fst s) U = meet (snd v) (snd s)) \<and>
     (\<forall>u \<in> set U. fst u \<in> fst ` set V \<and> fst (snd u) \<in> fst ` set S)"

lemma usesOf_append [simp]: "usesOf v s (U @ W) = usesOf v s U @ usesOf v s W"
  by (simp add: usesOf_def)

lemma usesOf_single [simp]: "usesOf v s [(w, r, x)] = (if v = w \<and> s = r then [x] else [])"
  by (auto simp: usesOf_def)

lemma usesOf_Nil [simp]: "usesOf v s [] = []"
  by (simp add: usesOf_def)

lemma usesOf_Cons: "usesOf v s (u # U) = (if fst u = v \<and> fst (snd u) = s then snd (snd u) # usesOf v s U else usesOf v s U)"
  by (simp add: usesOf_def)

lemma product_keys:
  "isProduct V S U \<Longrightarrow> fst ` set U \<subseteq> fst ` set V \<and> (\<lambda>u. fst (snd u)) ` set U \<subseteq> fst ` set S"
  by (simp add: isProduct_def image_subset_iff)

lemma product_Nil: "isProduct [] S U \<Longrightarrow> U = []" "isProduct V [] U \<Longrightarrow> U = []"
  using product_keys [of "[]" S U] product_keys [of V "[]" U] by simp_all

lemma usesOf_none: "isProduct V S U \<Longrightarrow> v \<notin> fst ` set V \<or> s \<notin> fst ` set S \<Longrightarrow> usesOf v s U = []"
  by (auto simp: isProduct_def usesOf_def filter_empty_conv)

text \<open>What a confirmation does to the usage of the version in force: it ends, or passes to the new version.\<close>

definition endUse :: "string \<Rightarrow> int \<Rightarrow> use \<Rightarrow> use" where
  "endUse k t u = (if fst u = k \<and> fst (snd (snd u)) < t \<and> before t (snd (snd (snd u)))
     then (fst u, fst (snd u), fst (snd (snd u)), Some t) else u)"

definition passUse :: "string \<Rightarrow> string \<Rightarrow> int \<Rightarrow> use \<Rightarrow> use" where
  "passUse k n t u = (if fst u = k \<and> t \<le> fst (snd (snd u)) then (n, snd u) else u)"

definition confirmUses :: "string \<Rightarrow> string \<Rightarrow> int \<Rightarrow> use list \<Rightarrow> use list" where
  "confirmUses k n t U = map (passUse k n t) (map (endUse k t) U)"

lemma confirmUses_other: "v \<noteq> k \<Longrightarrow> v \<noteq> n \<Longrightarrow> usesOf v s (confirmUses k n t U) = usesOf v s U"
  by (induction U) (auto simp: confirmUses_def endUse_def passUse_def usesOf_Cons)

lemma confirmUses_ended:
  "k \<noteq> n \<Longrightarrow> usesOf k s (confirmUses k n t U) =
    map (\<lambda>x. if before t (snd x) then (fst x, Some t) else x) (filter (\<lambda>x. fst x < t) (usesOf k s U))"
  by (induction U) (auto simp: confirmUses_def endUse_def passUse_def usesOf_Cons)

lemma confirmUses_passed:
  "k \<noteq> n \<Longrightarrow> \<forall>u \<in> set U. fst u \<noteq> n \<Longrightarrow>
    usesOf n s (confirmUses k n t U) = filter (\<lambda>x. t \<le> fst x) (usesOf k s U)"
  by (induction U) (auto simp: confirmUses_def endUse_def passUse_def usesOf_Cons)

lemma confirmUse_keys:
  "fst (passUse k n t (endUse k t u)) = n \<or> fst (passUse k n t (endUse k t u)) = fst u"
  "fst (snd (passUse k n t (endUse k t u))) = fst (snd u)"
  by (simp_all add: endUse_def passUse_def)

lemma confirmUses_keys:
  assumes "u \<in> set (confirmUses k n t U)"
  shows "(fst u = n \<or> fst u \<in> fst ` set U) \<and> fst (snd u) \<in> (\<lambda>u. fst (snd u)) ` set U"
proof -
  obtain w where w: "w \<in> set U" "u = passUse k n t (endUse k t w)" using assms by (auto simp: confirmUses_def)
  have "fst u = n \<or> fst u = fst w" "fst (snd u) = fst (snd w)" using confirmUse_keys [of k n t w] by (simp_all add: w(2))
  then show ?thesis using w(1) by force
qed

lemma meet_end: "before (fst s) (snd s) \<Longrightarrow> l < t \<Longrightarrow>
    map (\<lambda>x. if before t (snd x) then (fst x, Some t) else x) (filter (\<lambda>x. fst x < t) (meet (l, None) s)) = meet (l, Some t) s"
  by (cases s) (auto simp: meet_def minEnd_def before_def Let_def min_def max_def split: option.splits if_splits)

lemma meet_pass: "before (fst s) (snd s) \<Longrightarrow> l < t \<Longrightarrow>
    filter (\<lambda>x. t \<le> fst x) (meet (l, None) s) = (if t \<le> fst s then meet (t, None) s else [])"
  by (cases s) (auto simp: meet_def minEnd_def before_def Let_def min_def max_def split: option.splits if_splits)

text \<open>The usage of the policy in force goes on under the new version unless usage scheduled for it has passed to it.\<close>

definition continueUse :: "string \<Rightarrow> int \<Rightarrow> row \<Rightarrow> use list \<Rightarrow> use list" where
  "continueUse n t p U = (if \<exists>u \<in> set U. fst u = n \<and> fst (snd u) = fst p \<and> spansInstant t (fst (snd (snd u))) (snd (snd (snd u)))
     then U else U @ [(n, fst p, t, snd (snd p))])"

lemma continueUse_usesOf:
  "usesOf v s (continueUse n t p U) = usesOf v s U @
    (if v = n \<and> s = fst p \<and> (\<forall>x \<in> set (usesOf n s U). \<not> spansInstant t (fst x) (snd x)) then [(t, snd (snd p))] else [])"
proof -
  have "(\<exists>u \<in> set U. fst u = n \<and> fst (snd u) = fst p \<and> spansInstant t (fst (snd (snd u))) (snd (snd (snd u)))) \<longleftrightarrow>
      (\<exists>x \<in> set (usesOf n (fst p) U). spansInstant t (fst x) (snd x))"
    unfolding usesOf_def set_map set_filter by blast
  then show ?thesis by (simp add: continueUse_def)
qed

lemma new_meet:
  assumes "chain a (map snd S)" and "distinct (map fst S)" and "p \<in> set S" and "spansInstant t (fst (snd p)) (snd (snd p))"
    and "s \<in> set S"
  shows "fst s = fst p \<Longrightarrow> s = p" and "s \<noteq> p \<Longrightarrow> fst (snd s) < t \<Longrightarrow> meet (t, None) (snd s) = []"
proof -
  show "fst s = fst p \<Longrightarrow> s = p" using distinct_key_eq [OF assms(2) assms(5) assms(3)] .
next
  assume ne: "s \<noteq> p" and early: "fst (snd s) < t"
  have "a \<le> fst (snd p)" using chain_from [OF assms(1)] assms(3) by simp
  then have "a \<le> t" using assms(4) by (simp add: spansInstant_def)
  then obtain x where "filter (\<lambda>x. spansInstant t (fst (snd x)) (snd (snd x))) S = [x]" using chain_at [OF assms(1)] by blast
  then have "set (filter (\<lambda>x. spansInstant t (fst (snd x)) (snd (snd x))) S) = {x}" by simp
  then have "\<forall>y \<in> set S. spansInstant t (fst (snd y)) (snd (snd y)) \<longrightarrow> y = x" unfolding set_filter by blast
  then have "\<not> spansInstant t (fst (snd s)) (snd (snd s))" using assms(3-5) ne by blast
  then show "meet (t, None) (snd s) = []" using early
    by (auto simp: spansInstant_def meet_def minEnd_def before_def split: option.splits)
qed

text \<open>The product is kept by a confirmation at \<open>t\<close>.\<close>

lemma cut_in: "v \<in> set (cut k t L) \<Longrightarrow> \<exists>w \<in> set L. fst w = fst v \<and> (if fst v = k then snd v = (fst (snd w), Some t) else v = w)"
proof -
  assume "v \<in> set (cut k t L)"
  then obtain w where "w \<in> set L" "v = (fst w, if fst w = k then (fst (snd w), Some t) else snd w)"
    by (auto simp: cut_def)
  then show ?thesis by (intro bexI [of _ w]) simp_all
qed

lemma fst_set_cut [simp]: "fst ` set (cut k t L) = fst ` set L"
  by (simp only: set_map [symmetric] map_fst_cut)

lemma confirm_pairs:
  assumes product: "isProduct V S U" and V: "distinct (map fst V)" "(k, l, None) \<in> set V" "l < t" "n \<notin> fst ` set V"
    and s: "s \<in> set S" "before (fst (snd s)) (snd (snd s))" and v: "v \<in> set (cut k t V)"
  shows "usesOf (fst v) (fst s) (confirmUses k n t U) = meet (snd v) (snd s)"
proof -
  obtain w where w: "w \<in> set V" "fst w = fst v" "if fst v = k then snd v = (fst (snd w), Some t) else v = w"
    using cut_in [OF v] by blast
  have kn: "k \<noteq> n" "fst v \<noteq> n" using imageI [OF V(2), of fst] imageI [OF w(1), of fst] w(2) V(4) by auto
  have pair: "usesOf (fst w) (fst s) U = meet (snd w) (snd s)" using product w(1) s(1) by (simp add: isProduct_def)
  show ?thesis
  proof (cases "fst v = k")
    case True
    then have "w = (k, l, None)" using distinct_key_eq [OF V(1) w(1) V(2)] w(2) by simp
    then show ?thesis
      using confirmUses_ended [OF kn(1), of "fst s" t U] meet_end [OF s(2) V(3)] pair w(3) True by simp
  next
    case False
    then show ?thesis using confirmUses_other [OF False kn(2)] pair w(3) by simp
  qed
qed

lemma confirm_new_pair:
  assumes product: "isProduct V S U" and V: "(k, l, None) \<in> set V" "l < t" "n \<notin> fst ` set V"
    and s: "s \<in> set S" "before (fst (snd s)) (snd (snd s))"
  shows "usesOf n (fst s) (confirmUses k n t U) = (if t \<le> fst (snd s) then meet (t, None) (snd s) else [])"
proof -
  have kn: "k \<noteq> n" using V(1,3) by force
  have fresh: "\<forall>u \<in> set U. fst u \<noteq> n" using product V(3) by (auto simp: isProduct_def)
  have "usesOf k (fst s) U = meet (l, None) (snd s)" using product V(1) s(1) by (auto simp: isProduct_def)
  then show ?thesis using confirmUses_passed [OF kn fresh] meet_pass [OF s(2) V(2)] by simp
qed

lemma product_confirm:
  assumes product: "isProduct V S U" and S: "chain a (map snd S)" "distinct (map fst S)" "p \<in> set S"
    and at: "spansInstant t (fst (snd p)) (snd (snd p))"
    and V: "distinct (map fst V)" "(k, l, None) \<in> set V" "l < t" "n \<notin> fst ` set V"
  shows "isProduct (cut k t V @ [(n, t, None)]) S (continueUse n t p (confirmUses k n t U))"
proof -
  let ?U = "confirmUses k n t U"
  have nonempty: "before (fst (snd s)) (snd (snd s))" if "s \<in> set S" for s
    using chain_nonempty [OF S(1), of "snd s"] that by simp
  have new: "usesOf n (fst s) (continueUse n t p ?U) = meet (t, None) (snd s)" if s: "s \<in> set S" for s
  proof -
    have p: "usesOf n (fst q) ?U = (if t \<le> fst (snd q) then meet (t, None) (snd q) else [])" if "q \<in> set S" for q
      by (rule confirm_new_pair [OF product V(2-4) that nonempty [OF that]])
    show ?thesis
    proof (cases "s = p")
      case True
      have "before t (snd (snd p))" using at by (auto simp: spansInstant_def split: option.splits)
      then show ?thesis using p [OF S(3)] at True
        by (auto simp: continueUse_usesOf spansInstant_def meet_def minEnd_def max_def Let_def split: option.splits)
    next
      case False
      then have "fst s \<noteq> fst p" using new_meet(1) [OF S at s] by blast
      then show ?thesis using p [OF s] new_meet(2) [OF S at s False] by (simp add: continueUse_usesOf)
    qed
  qed
  have old: "usesOf (fst v) (fst s) (continueUse n t p ?U) = meet (snd v) (snd s)"
    if "v \<in> set (cut k t V)" "s \<in> set S" for v s
  proof -
    have "fst v \<in> fst ` set (cut k t V)" using that(1) by (rule imageI)
    then have "fst v \<noteq> n" using V(4) by auto
    then show ?thesis
      using confirm_pairs [OF product V that(2) nonempty [OF that(2)] that(1)] by (simp add: continueUse_usesOf)
  qed
  have keys: "fst u \<in> fst ` set V \<union> {n} \<and> fst (snd u) \<in> fst ` set S" if "u \<in> set (continueUse n t p ?U)" for u
  proof -
    have "u \<in> set ?U \<or> u = (n, fst p, t, snd (snd p))" using that by (auto simp: continueUse_def split: if_splits)
    then show ?thesis
    proof
      assume "u \<in> set ?U"
      then show ?thesis using confirmUses_keys [of u k n t U] product_keys [OF product] by blast
    qed (use S(3) in simp)
  qed
  then have "\<forall>u \<in> set (continueUse n t p ?U). fst u \<in> fst ` set (cut k t V @ [(n, t, None)]) \<and> fst (snd u) \<in> fst ` set S"
    by (simp add: Un_commute)
  moreover have "\<forall>v \<in> set (cut k t V @ [(n, t, None)]). \<forall>s \<in> set S.
      usesOf (fst v) (fst s) (continueUse n t p ?U) = meet (snd v) (snd s)"
    using old new by simp
  ultimately show ?thesis by (simp only: isProduct_def simp_thms)
qed

text \<open>And by a change of the policy at \<open>t\<close>, a later instant than the last version.\<close>

definition switchUses :: "string \<Rightarrow> string \<Rightarrow> int \<Rightarrow> use list \<Rightarrow> use list" where
  "switchUses k n t U =
     map (\<lambda>u. if snd (snd (snd u)) = None then (fst u, fst (snd u), fst (snd (snd u)), Some t) else u) U @ [(k, n, t, None)]"

lemma usesOf_switch:
  "usesOf v s (switchUses k n t U) = map (\<lambda>x. if snd x = None then (fst x, Some t) else x) (usesOf v s U) @
    (if v = k \<and> s = n then [(t, None)] else [])"
  by (induction U) (auto simp: switchUses_def usesOf_Cons)

lemma meet_close:
  "m < t \<Longrightarrow> snd v = None \<longrightarrow> fst v < t \<Longrightarrow> \<forall>e. snd v = Some e \<longrightarrow> e \<le> t \<Longrightarrow>
    map (\<lambda>x. if snd x = None then (fst x, Some t) else x) (meet v (m, None)) = meet v (m, Some t)"
  by (cases "snd v") (auto simp: meet_def minEnd_def Let_def)

lemma meet_ended:
  "snd s \<noteq> None \<Longrightarrow> map (\<lambda>x. if snd x = None then (fst x, Some t) else x) (meet v s) = meet v s"
  by (auto simp: meet_def minEnd_def Let_def split: option.splits)

lemma open_only:
  assumes "chain a (map snd L)" and "(k, l, None) \<in> set L" and "v \<in> set L" and "snd (snd v) = None"
  shows "v = (k, l, None)"
proof -
  obtain q r where "filter (\<lambda>x. snd (snd x) = None) L = [(q, r, None)]" using chain_open [OF assms(1)] by blast
  then have only: "set (filter (\<lambda>x. snd (snd x) = None) L) = {(q, r, None)}" by simp
  have one: "x = (q, r, None)" if "x \<in> set L" "snd (snd x) = None" for x
  proof -
    have "x \<in> set (filter (\<lambda>x. snd (snd x) = None) L)" using that by simp
    then show ?thesis by (simp only: only singleton_iff)
  qed
  show ?thesis using one [OF assms(2)] one [OF assms(3,4)] by simp
qed

lemma product_switch:
  assumes product: "isProduct V S U" and V: "chain a (map snd V)" "distinct (map fst V)" "(k, l, None) \<in> set V" "l < t"
    and S: "chain b (map snd S)" "distinct (map fst S)" "(c, m, None) \<in> set S" "m < t" "n \<notin> fst ` set S"
  shows "isProduct V (cut c t S @ [(n, t, None)]) (switchUses k n t U)"
proof -
  have late: "(snd (snd v) = None \<longrightarrow> v = (k, l, None)) \<and> (\<forall>e. snd (snd v) = Some e \<longrightarrow> e \<le> t)" if "v \<in> set V" for v
    using open_only [OF V(1,3) that] chain_ended [OF V(1,3) that] V(4) by (auto intro: order_trans [OF _ less_imp_le])
  have "usesOf (fst v) (fst s) (switchUses k n t U) = meet (snd v) (snd s)" if v: "v \<in> set V" and s: "s \<in> set (cut c t S)" for v s
  proof -
    obtain w where w: "w \<in> set S" "fst w = fst s" "if fst s = c then snd s = (fst (snd w), Some t) else s = w"
      using cut_in [OF s] by blast
    have pair: "usesOf (fst v) (fst w) U = meet (snd v) (snd w)" using product v w(1) by (simp add: isProduct_def)
    have n: "fst s \<noteq> n" using imageI [OF w(1), of fst] w(2) S(5) by auto
    show ?thesis
    proof (cases "fst s = c")
      case True
      then have "w = (c, m, None)" using distinct_key_eq [OF S(2) w(1) S(3)] w(2) by simp
      then show ?thesis using meet_close [OF S(4), of "snd v"] late [OF v] V(4) pair w(3) True n by (auto simp: usesOf_switch)
    next
      case False
      then have same: "s = w" using w(3) by simp
      have "snd (snd s) \<noteq> None"
      proof
        assume "snd (snd s) = None"
        then have "w = (c, m, None)" using open_only [OF S(1,3) w(1)] by (simp only: same)
        then show False using False by (simp add: same)
      qed
      then show ?thesis using pair w(3) False n by (simp add: usesOf_switch meet_ended)
    qed
  qed
  moreover have "usesOf (fst v) n (switchUses k n t U) = meet (snd v) (t, None)" if v: "v \<in> set V" for v
  proof -
    have "usesOf (fst v) n U = []" using usesOf_none [OF product] S(5) by blast
    moreover have "fst v = k \<longleftrightarrow> v = (k, l, None)" using distinct_key_eq [OF V(2) v V(3)] by auto
    ultimately show ?thesis using late [OF v] V(4)
      by (cases "snd (snd v)") (auto simp: usesOf_switch meet_def minEnd_def max_def)
  qed
  moreover have "\<forall>u \<in> set (switchUses k n t U). fst u \<in> fst ` set V \<and> fst (snd u) \<in> fst ` set (cut c t S @ [(n, t, None)])"
  proof
    fix u
    assume "u \<in> set (switchUses k n t U)"
    then have "u = (k, n, t, None) \<or>
        u \<in> (\<lambda>u. if snd (snd (snd u)) = None then (fst u, fst (snd u), fst (snd (snd u)), Some t) else u) ` set U"
      by (simp add: switchUses_def)
    then show "fst u \<in> fst ` set V \<and> fst (snd u) \<in> fst ` set (cut c t S @ [(n, t, None)])"
    proof
      assume "u = (k, n, t, None)"
      then show ?thesis using imageI [OF V(3), of fst] by simp
    next
      assume "u \<in> (\<lambda>u. if snd (snd (snd u)) = None then (fst u, fst (snd u), fst (snd (snd u)), Some t) else u) ` set U"
      then show ?thesis by (rule imageE) (use product in \<open>simp add: isProduct_def\<close>)
    qed
  qed
  ultimately show ?thesis by (simp add: isProduct_def)
qed

section \<open>The tables of one instance\<close>

definition versionView :: "VersionRow \<Rightarrow> row" where
  "versionView v = (rv_id v, rv_effectiveFrom v, rv_effectiveTo v)"

definition policyView :: "SnapshotRow \<Rightarrow> row" where
  "policyView s = (sn_id s, sn_effectiveFrom s, sn_effectiveTo s)"

definition useView :: "IntervalRow \<Rightarrow> use" where
  "useView u = (un_resourceVersionId u, un_snapshotId u, un_startedAt u, un_endedAt u)"

definition versionsOf :: "string \<Rightarrow> VersionRow list \<Rightarrow> row list" where
  "versionsOf i t = map versionView (filter (\<lambda>v. rv_cloudInstanceId v = i) t)"

definition policiesOf :: "string \<Rightarrow> SnapshotRow list \<Rightarrow> row list" where
  "policiesOf i t = map policyView (filter (\<lambda>s. sn_cloudInstanceId s = i) t)"

definition usesIn :: "string \<Rightarrow> IntervalRow list \<Rightarrow> use list" where
  "usesIn i t = map useView (filter (\<lambda>u. un_cloudInstanceId u = i) t)"

text \<open>Versions and policies are chains from the same instant, and usage is their product.\<close>

definition synced :: "row list \<Rightarrow> row list \<Rightarrow> use list \<Rightarrow> bool" where
  "synced V S U \<longleftrightarrow> (V = [] \<longrightarrow> S = []) \<and>
     (V \<noteq> [] \<longrightarrow> (\<exists>a. chain a (map snd V) \<and> (S \<noteq> [] \<longrightarrow> chain a (map snd S)))) \<and>
     isProduct V S U"

text \<open>A usage interval that was closed no later than it started.\<close>

definition closedEarly :: "use list \<Rightarrow> bool" where
  "closedEarly U \<longleftrightarrow> (\<exists>u \<in> set U. \<not> before (fst (snd (snd u))) (snd (snd (snd u))))"

definition inStep :: "string \<Rightarrow> TimelineDb \<Rightarrow> bool" where
  "inStep i db \<longleftrightarrow> synced (versionsOf i (versionRows db)) (policiesOf i (snapshotRows db)) (usesIn i (intervalRows db))"

definition keysOk :: "TimelineDb \<Rightarrow> bool" where
  "keysOk db \<longleftrightarrow> distinct (map rv_id (versionRows db)) \<and> distinct (map sn_id (snapshotRows db)) \<and>
     distinct (map un_id (intervalRows db)) \<and> (\<forall>u \<in> set (intervalRows db). un_status u \<in> {UI_OPEN, UI_COMPLETE})"

definition timelineOk :: "TimelineDb \<Rightarrow> bool" where
  "timelineOk db \<longleftrightarrow> keysOk db \<and> (\<forall>i. inStep i db \<or> closedEarly (usesIn i (intervalRows db)))"

lemma views_append [simp]:
  "versionsOf i (t @ [v]) = versionsOf i t @ (if rv_cloudInstanceId v = i then [versionView v] else [])"
  "policiesOf i (p @ [s]) = policiesOf i p @ (if sn_cloudInstanceId s = i then [policyView s] else [])"
  "usesIn i (q @ [u]) = usesIn i q @ (if un_cloudInstanceId u = i then [useView u] else [])"
  by (simp_all add: versionsOf_def policiesOf_def usesIn_def)

lemma view_update:
  assumes "\<And>r. r \<in> set t \<Longrightarrow> q (if p r then f r else r) = q r"
    and "\<And>r. r \<in> set t \<Longrightarrow> q r \<Longrightarrow> k (if p r then f r else r) = g (k r)"
  shows "map k (filter q (updateRows p f t)) = map g (map k (filter q t))"
  using assms
proof (induction t)
  case (Cons r t)
  let ?r = "if p r then f r else r"
  have "q ?r = q r" and "q r \<Longrightarrow> k ?r = g (k r)" using Cons.prems [of r] by simp_all
  moreover have "map k (filter q (updateRows p f t)) = map g (map k (filter q t))" using Cons by simp
  ultimately show ?case by (cases "q r") (simp_all split del: if_split)
qed simp

lemma distinct_view:
  "distinct (map rv_id t) \<Longrightarrow> distinct (map fst (versionsOf i t))"
  "distinct (map sn_id p) \<Longrightarrow> distinct (map fst (policiesOf i p))"
  by (simp_all add: versionsOf_def policiesOf_def versionView_def policyView_def comp_def distinct_map inj_on_def)

lemma latest_Some: "latest k p t = Some r \<Longrightarrow> r \<in> set t \<and> p r"
proof -
  assume "latest k p t = Some r"
  then obtain rs where "sort_key (\<lambda>r. - k r) (filter p t) = r # rs" by (auto simp: latest_def split: list.splits)
  then have "r \<in> set (sort_key (\<lambda>r. - k r) (filter p t))" by (simp del: set_sort)
  then show ?thesis by simp
qed

lemma latest_None: "latest k p t = None \<longleftrightarrow> (\<forall>r \<in> set t. \<not> p r)"
proof -
  have "latest k p t = None \<longleftrightarrow> sort_key (\<lambda>r. - k r) (filter p t) = []" by (auto simp: latest_def split: list.splits)
  also have "\<dots> \<longleftrightarrow> set (filter p t) = {}" by (metis set_empty set_sort)
  finally show ?thesis by auto
qed

text \<open>What the inserts leave of the tables.\<close>

lemma addSnapshot_Inr: "addSnapshot r db = Inr db' \<longleftrightarrow>
    (\<forall>x \<in> set (snapshotRows db). \<not> snapshotClash r x) \<and> db' = db\<lparr>snapshotRows := snapshotRows db @ [r]\<rparr>"
  by (auto simp: addSnapshot_def insertUnique_def bindE_eq_Inr split: if_splits)

lemma addVersion_Inr: "addVersion r db = Inr db' \<longleftrightarrow>
    (\<forall>x \<in> set (versionRows db). \<not> versionClash r x) \<and> db' = db\<lparr>versionRows := versionRows db @ [r]\<rparr>"
  by (auto simp: addVersion_def insertUnique_def bindE_eq_Inr split: if_splits)

lemma addInterval_Inr: "addInterval r db = Inr db' \<longleftrightarrow>
    (\<forall>x \<in> set (intervalRows db). \<not> intervalClash r x) \<and> db' = db\<lparr>intervalRows := intervalRows db @ [r]\<rparr>"
  by (auto simp: addInterval_def insertUnique_def bindE_eq_Inr split: if_splits)

lemma addRate_Inr: "addRate r db = Inr db' \<Longrightarrow> \<exists>t. db' = db\<lparr>rateRows := t\<rparr>"
  by (auto simp: addRate_def bindE_eq_Inr)

section \<open>The writers keep the timelines\<close>

definition sameTimeline :: "TimelineDb \<Rightarrow> TimelineDb \<Rightarrow> bool" where
  "sameTimeline db db' \<longleftrightarrow> versionRows db' = versionRows db \<and> snapshotRows db' = snapshotRows db \<and>
     intervalRows db' = intervalRows db"

lemma timelineOk_same: "timelineOk db \<Longrightarrow> sameTimeline db db' \<Longrightarrow> timelineOk db'"
  by (simp add: timelineOk_def keysOk_def inStep_def sameTimeline_def)

text \<open>The start of billing adds one row to each table.\<close>

definition opened :: "string \<Rightarrow> int \<Rightarrow> TimelineDb \<Rightarrow> TimelineDb \<Rightarrow> bool" where
  "opened i at db db' \<longleftrightarrow> (\<exists>s v u.
     snapshotRows db' = snapshotRows db @ [s] \<and> versionRows db' = versionRows db @ [v] \<and>
     intervalRows db' = intervalRows db @ [u] \<and>
     (\<forall>x \<in> set (snapshotRows db). sn_id s \<noteq> sn_id x) \<and> (\<forall>x \<in> set (versionRows db). rv_id v \<noteq> rv_id x) \<and>
     (\<forall>x \<in> set (intervalRows db). un_id u \<noteq> un_id x) \<and>
     sn_cloudInstanceId s = i \<and> rv_cloudInstanceId v = i \<and> un_cloudInstanceId u = i \<and> un_status u = UI_OPEN \<and>
     policyView s = (sn_id s, at, None) \<and> versionView v = (rv_id v, at, None) \<and> useView u = (rv_id v, sn_id s, at, None))"

lemma writeTimeline_opened:
  assumes "writeTimeline ids inst a plan policy contract contractSnapshot providerHourly hourly daily event at db = Inr (r, db')"
  shows "opened (cn_id inst) at db db'"
proof -
  let ?s = "firstSnapshot (nt_snapshot ids) inst a policy contract contractSnapshot hourly daily at"
  let ?v = "firstVersion (nt_version ids) inst a plan event at"
  let ?u = "newInterval (nt_interval ids) (cn_id inst) (rv_id ?v) (sn_id ?s) at None event None (''usage:activation:'' @ at_id a)"
  obtain d1 d2 d3 d4 where d: "addSnapshot ?s db = Inr d1"
    "addRate (firstRate (nt_rate ids) a plan contract contractSnapshot providerHourly hourly at) d1 = Inr d2"
    "addVersion ?v d2 = Inr d3" "addInterval ?u d3 = Inr d4" "db' = confirmActivation (at_id a) at d4"
    using assms unfolding writeTimeline_def Let_def bindE_eq_Inr sum.inject prod.inject by (elim exE conjE) (rule that, assumption+, rule sym, assumption)
  obtain t where d2: "d2 = d1\<lparr>rateRows := t\<rparr>" using addRate_Inr [OF d(2)] by blast
  have views: "policyView ?s = (sn_id ?s, at, None)" "versionView ?v = (rv_id ?v, at, None)"
    "useView ?u = (rv_id ?v, sn_id ?s, at, None)"
    by (simp_all add: policyView_def versionView_def useView_def firstSnapshot_def firstVersion_def newInterval_def)
  have inst: "sn_cloudInstanceId ?s = cn_id inst" "rv_cloudInstanceId ?v = cn_id inst" "un_cloudInstanceId ?u = cn_id inst"
    "un_status ?u = UI_OPEN"
    by (simp_all add: firstSnapshot_def firstVersion_def newInterval_def)
  have d1: "d1 = db\<lparr>snapshotRows := snapshotRows db @ [?s]\<rparr>" "\<forall>x \<in> set (snapshotRows db). \<not> snapshotClash ?s x"
    using d(1) by (simp_all add: addSnapshot_Inr)
  have d3: "d3 = d2\<lparr>versionRows := versionRows d2 @ [?v]\<rparr>" "\<forall>x \<in> set (versionRows d2). \<not> versionClash ?v x"
    using d(3) by (simp_all add: addVersion_Inr)
  have d4: "d4 = d3\<lparr>intervalRows := intervalRows d3 @ [?u]\<rparr>" "\<forall>x \<in> set (intervalRows d3). \<not> intervalClash ?u x"
    using d(4) by (simp_all add: addInterval_Inr)
  have rows: "snapshotRows db' = snapshotRows db @ [?s]" "versionRows db' = versionRows db @ [?v]"
    "intervalRows db' = intervalRows db @ [?u]"
    by (simp_all add: d(5) confirmActivation_def d4(1) d3(1) d2 d1(1))
  have fresh: "\<forall>x \<in> set (snapshotRows db). sn_id ?s \<noteq> sn_id x" "\<forall>x \<in> set (versionRows db). rv_id ?v \<noteq> rv_id x"
    "\<forall>x \<in> set (intervalRows db). un_id ?u \<noteq> un_id x"
    using d1(2) d3(2) d4(2) by (simp_all add: d3(1) d2 d1(1) snapshotClash_def versionClash_def intervalClash_def)
  show ?thesis unfolding opened_def
    by (rule exI [of _ ?s], rule exI [of _ ?v], rule exI [of _ ?u]) (intro conjI rows fresh inst views)
qed

lemma openTimeline_opened:
  assumes "openTimeline tabs ids inst a plan event at db = Inr (r, db')"
  shows "opened (cn_id inst) at db db'"
proof -
  have "\<exists>policy contract contractSnapshot providerHourly hourly daily.
      writeTimeline ids inst a plan policy contract contractSnapshot providerHourly hourly daily event at db = Inr (r, db')"
    using assms by (auto simp: openTimeline_def bindE_eq_Inr Let_def split: option.splits prod.splits if_splits) blast+
  then show ?thesis using writeTimeline_opened by blast
qed

lemma start_opened:
  assumes "startInitialUsageBillingTx tabs ids i at event db = Inr (r, db')"
  shows "db' = db \<or> opened i at db db'"
proof -
  obtain inst where inst: "findInstance i db = Some inst" using assms
    by (auto simp: startInitialUsageBillingTx_def split: option.splits)
  then have id: "cn_id inst = i" by (auto simp: findInstance_def dest: findRow_Some)
  have "db' = db \<or> (\<exists>a plan. openTimeline tabs ids inst a plan event at db = Inr (r, db'))"
    using assms by (simp add: startInitialUsageBillingTx_def inst split: option.splits if_splits) blast+
  then show ?thesis using openTimeline_opened id by blast
qed

lemma synced_fresh: "synced [(v, at, None)] [(s, at, None)] [(v, s, at, None)]"
  by (auto simp: synced_def isProduct_def meet_def minEnd_def usesOf_def)

lemma closedEarly_append [simp]: "closedEarly (U @ W) \<longleftrightarrow> closedEarly U \<or> closedEarly W"
  by (auto simp: closedEarly_def)

lemma opened_ok:
  assumes "timelineOk db" and "opened i at db db'" and "\<forall>v \<in> set (versionRows db). rv_cloudInstanceId v \<noteq> i"
  shows "timelineOk db'"
proof -
  obtain s v u where rows: "snapshotRows db' = snapshotRows db @ [s]" "versionRows db' = versionRows db @ [v]"
      "intervalRows db' = intervalRows db @ [u]"
    and fresh: "\<forall>x \<in> set (snapshotRows db). sn_id s \<noteq> sn_id x" "\<forall>x \<in> set (versionRows db). rv_id v \<noteq> rv_id x"
      "\<forall>x \<in> set (intervalRows db). un_id u \<noteq> un_id x"
    and inst: "sn_cloudInstanceId s = i" "rv_cloudInstanceId v = i" "un_cloudInstanceId u = i" and status: "un_status u = UI_OPEN"
    and views: "policyView s = (sn_id s, at, None)" "versionView v = (rv_id v, at, None)" "useView u = (rv_id v, sn_id s, at, None)"
    using assms(2) unfolding opened_def by (elim exE conjE) (rule that, assumption+)
  have none: "versionsOf i (versionRows db) = []" using assms(3) by (simp add: versionsOf_def filter_empty_conv)
  have "inStep j db' \<or> closedEarly (usesIn j (intervalRows db'))" for j
  proof (cases "inStep j db \<and> j = i")
    case True
    then have was: "synced [] (policiesOf i (snapshotRows db)) (usesIn i (intervalRows db))" using none by (auto simp: inStep_def)
    then have "policiesOf i (snapshotRows db) = []" by (simp add: synced_def)
    moreover have "usesIn i (intervalRows db) = []" using was product_Nil(1) unfolding synced_def by blast
    ultimately show ?thesis using synced_fresh True by (simp add: inStep_def rows inst views none)
  next
    case False
    then show ?thesis using assms(1) by (auto simp: timelineOk_def inStep_def rows inst views)
  qed
  moreover have "keysOk db'" using assms(1) fresh status by (auto simp: timelineOk_def keysOk_def rows)
  ultimately show ?thesis by (simp add: timelineOk_def)
qed

text \<open>The keys of updated tables.\<close>

lemma view_keep:
  "(\<And>r. r \<in> set t \<Longrightarrow> p r \<Longrightarrow> \<not> q r \<and> \<not> q (f r)) \<Longrightarrow> map k (filter q (updateRows p f t)) = map k (filter q t)"
  by (induction t) auto

lemma closeInterval_keys [simp]:
  "un_id (closeInterval t e u) = un_id u" "un_cloudInstanceId (closeInterval t e u) = un_cloudInstanceId u"
  "un_status (closeInterval t e u) = UI_COMPLETE"
  "useView (closeInterval t e u) = (un_resourceVersionId u, un_snapshotId u, un_startedAt u, Some t)"
  by (simp_all add: closeInterval_def useView_def)

lemma newInterval_keys [simp]:
  "un_id (newInterval n i v s a e x y z) = n" "un_cloudInstanceId (newInterval n i v s a e x y z) = i"
  "un_status (newInterval n i v s a e x y z) = (if e = None then UI_OPEN else UI_COMPLETE)"
  "useView (newInterval n i v s a e x y z) = (v, s, a, e)"
  by (simp_all add: newInterval_def useView_def)

text \<open>A confirmation: the version in force, if any, is cut at the instant, and usage follows.\<close>

lemma endVersion_views:
  assumes "rv_cloudInstanceId c = cf_cloudInstanceId i" and "distinct (map rv_id (versionRows db))" and "c \<in> set (versionRows db)"
  shows "versionsOf j (versionRows (endVersion i (Some c) db)) =
      (if j = cf_cloudInstanceId i then cut (rv_id c) (cf_providerConfirmedAt i) (versionsOf j (versionRows db))
       else versionsOf j (versionRows db))"
    and "usesIn j (intervalRows (endVersion i (Some c) db)) =
      (if j = cf_cloudInstanceId i then map (endUse (rv_id c) (cf_providerConfirmedAt i)) (usesIn j (intervalRows db))
       else usesIn j (intervalRows db))"
proof -
  let ?t = "cf_providerConfirmedAt i"
  have only: "r = c" if "r \<in> set (versionRows db)" "rv_id r = rv_id c" for r
    using distinct_key_eq [OF assms(2) that(1) assms(3) that(2)] .
  show "versionsOf j (versionRows (endVersion i (Some c) db)) = (if j = cf_cloudInstanceId i
      then cut (rv_id c) ?t (versionsOf j (versionRows db)) else versionsOf j (versionRows db))"
  proof (cases "j = cf_cloudInstanceId i")
    case True
    show ?thesis unfolding versionsOf_def endVersion_def cut_def
      by (simp add: Let_def True del: map_map, rule view_update) (simp_all add: versionView_def)
  next
    case False
    then show ?thesis unfolding versionsOf_def endVersion_def
      by (simp add: Let_def, intro view_keep) (use only assms(1) in auto)
  qed
  show "usesIn j (intervalRows (endVersion i (Some c) db)) = (if j = cf_cloudInstanceId i
      then map (endUse (rv_id c) ?t) (usesIn j (intervalRows db)) else usesIn j (intervalRows db))"
  proof (cases "j = cf_cloudInstanceId i")
    case True
    show ?thesis unfolding usesIn_def endVersion_def
      by (simp add: Let_def True del: map_map, rule view_update)
        (auto simp: endUse_def useView_def closeInterval_def before_def split: option.splits)
  next
    case False
    then show ?thesis unfolding usesIn_def endVersion_def by (simp add: Let_def, intro view_keep) auto
  qed
qed

lemma repointUsage_views:
  "usesIn j (intervalRows (repointUsage i (Some c) n db)) =
     (if j = cf_cloudInstanceId i then map (passUse (rv_id c) n (cf_providerConfirmedAt i)) (usesIn j (intervalRows db))
      else usesIn j (intervalRows db))"
proof (cases "j = cf_cloudInstanceId i")
  case True
  show ?thesis unfolding usesIn_def repointUsage_def
    by (simp add: True del: map_map, rule view_update) (auto simp: passUse_def useView_def)
next
  case False
  then show ?thesis unfolding usesIn_def repointUsage_def by (simp, intro view_keep) auto
qed

lemma startUsage_views:
  assumes "startUsage n i (Some p) v db = Inr db'"
  shows "usesIn j (intervalRows db') = (if j = cf_cloudInstanceId i
      then continueUse v (cf_providerConfirmedAt i) (policyView p) (usesIn j (intervalRows db)) else usesIn j (intervalRows db))"
proof -
  let ?t = "cf_providerConfirmedAt i"
  let ?u = "newInterval n (cf_cloudInstanceId i) v (sn_id p) ?t (sn_effectiveTo p) (cf_providerEventId i)
    (map_option (\<lambda>_. ''billing-policy:'' @ sn_id p) (sn_effectiveTo p)) (''usage:'' @ cf_idempotencyKey i)"
  let ?found = "\<exists>u \<in> set (intervalRows db). un_cloudInstanceId u = cf_cloudInstanceId i \<and> un_resourceVersionId u = v \<and>
            un_snapshotId u = sn_id p \<and> spansInstant ?t (un_startedAt u) (un_endedAt u)"
  have found: "(\<exists>u \<in> set (usesIn (cf_cloudInstanceId i) (intervalRows db)). fst u = v \<and> fst (snd u) = fst (policyView p) \<and>
      spansInstant ?t (fst (snd (snd u))) (snd (snd (snd u)))) \<longleftrightarrow> ?found"
    by (auto simp: usesIn_def useView_def policyView_def)
  show ?thesis
  proof (cases ?found)
    case True
    then have "db' = db" using assms by (simp add: startUsage_def Let_def)
    then show ?thesis using found True by (simp add: continueUse_def)
  next
    case False
    then have "addInterval ?u db = Inr db'" using assms by (simp only: startUsage_def Let_def option.case if_not_P [OF False] if_False)
    then have "intervalRows db' = intervalRows db @ [?u]" by (simp add: addInterval_Inr)
    moreover have "continueUse v ?t (policyView p) (usesIn (cf_cloudInstanceId i) (intervalRows db)) =
        usesIn (cf_cloudInstanceId i) (intervalRows db) @ [(v, sn_id p, ?t, sn_effectiveTo p)]"
      unfolding continueUse_def found if_not_P [OF False] by (simp add: policyView_def)
    ultimately show ?thesis by simp
  qed
qed

lemma latest_view:
  "currentVersion i db = Some c \<Longrightarrow> c \<in> set (versionRows db) \<and> rv_cloudInstanceId c = i \<and>
     (rv_id c, rv_effectiveFrom c, None) \<in> set (versionsOf i (versionRows db))"
  "snapshotAt i t db = Some p \<Longrightarrow> policyView p \<in> set (policiesOf i (snapshotRows db)) \<and>
     spansInstant t (sn_effectiveFrom p) (sn_effectiveTo p)"
  by (force simp: currentVersion_def versionsOf_def versionView_def dest!: latest_Some)
    (force simp: snapshotAt_def policiesOf_def dest!: latest_Some)

lemma no_current:
  assumes "synced (versionsOf i (versionRows db)) S U" and "currentVersion i db = None"
  shows "versionsOf i (versionRows db) = []"
proof (rule ccontr)
  assume "versionsOf i (versionRows db) \<noteq> []"
  then obtain a where "chain a (map snd (versionsOf i (versionRows db)))" using assms(1) by (auto simp: synced_def)
  then obtain k s where "filter (\<lambda>x. snd (snd x) = None) (versionsOf i (versionRows db)) = [(k, s, None)]"
    using chain_open by blast
  then have "(k, s, None) \<in> set (filter (\<lambda>x. snd (snd x) = None) (versionsOf i (versionRows db)))" by simp
  then show False using assms(2) by (auto simp: currentVersion_def latest_None versionsOf_def versionView_def)
qed

lemma no_policy:
  assumes "synced V (policiesOf i (snapshotRows db)) U" and "v \<in> set V" and "fst (snd v) \<le> t" and "snapshotAt i t db = None"
  shows "policiesOf i (snapshotRows db) = []"
proof (rule ccontr)
  let ?S = "policiesOf i (snapshotRows db)"
  assume "?S \<noteq> []"
  moreover have "V \<noteq> []" using assms(2) by auto
  ultimately obtain a where a: "chain a (map snd V)" "chain a (map snd ?S)" using assms(1) by (auto simp: synced_def)
  have "a \<le> t" using chain_from [OF a(1), of "snd v"] assms(2,3) by simp
  then obtain x where "filter (\<lambda>x. spansInstant t (fst (snd x)) (snd (snd x))) ?S = [x]" using chain_at [OF a(2)] by blast
  then have "x \<in> set (filter (\<lambda>x. spansInstant t (fst (snd x)) (snd (snd x))) ?S)" by simp
  then show False using assms(4) by (auto simp: snapshotAt_def latest_None policiesOf_def policyView_def)
qed

text \<open>The abstract effect of a confirmation on one instance.\<close>

lemma synced_confirm:
  assumes ok: "synced V S U" and V: "distinct (map fst V)" "(k, l, None) \<in> set V" "l < t" "n \<notin> fst ` set V"
    and S: "distinct (map fst S)"
    and U': "case p of None \<Rightarrow> S = [] \<and> U' = confirmUses k n t U
      | Some p \<Rightarrow> p \<in> set S \<and> spansInstant t (fst (snd p)) (snd (snd p)) \<and> U' = continueUse n t p (confirmUses k n t U)"
  shows "synced (cut k t V @ [(n, t, None)]) S U'"
proof -
  have "V \<noteq> []" using V(2) by auto
  then obtain a where a: "chain a (map snd V)" "S \<noteq> [] \<longrightarrow> chain a (map snd S)" using ok by (auto simp: synced_def)
  have product: "isProduct V S U" using ok by (simp add: synced_def)
  have "chain a (map snd (cut k t V @ [(n, t, None)]))" by (rule chain_cut [OF a(1) V(1-3)])
  moreover have "isProduct (cut k t V @ [(n, t, None)]) S U'"
  proof (cases p)
    case None
    then have "S = []" "U = []" "U' = []" using U' product product_Nil(2) by (auto simp: confirmUses_def)
    then show ?thesis by (simp add: isProduct_def)
  next
    case (Some q)
    then have q: "q \<in> set S" "spansInstant t (fst (snd q)) (snd (snd q))" "U' = continueUse n t q (confirmUses k n t U)"
      using U' by simp_all
    have "chain a (map snd S)" using a(2) q(1) by auto
    from product_confirm [OF product this S q(1,2) V] show ?thesis by (simp only: q(3))
  qed
  ultimately show ?thesis using a(2) by (auto simp: synced_def)
qed

lemma synced_first: "synced [] S U \<Longrightarrow> synced [(n, t, None)] S U"
  using product_Nil(1) by (auto simp: synced_def isProduct_def)

text \<open>The same on the tables.\<close>

lemma confirm_shape:
  assumes "confirmVersionTx tabs ids i db = Inr (v, db')"
  shows "db' = db \<or> (\<exists>inst db1 db2. cn_id inst = cf_cloudInstanceId i \<and>
    (\<forall>c. currentVersion (cf_cloudInstanceId i) db = Some c \<longrightarrow> rv_effectiveFrom c < cf_providerConfirmedAt i) \<and>
    addVersion (confirmedVersion (nt_version ids) inst i) (endVersion i (currentVersion (cf_cloudInstanceId i) db) db) = Inr db1 \<and>
    startUsage (nt_interval ids) i (snapshotAt (cf_cloudInstanceId i) (cf_providerConfirmedAt i) db) (nt_version ids)
      (repointUsage i (currentVersion (cf_cloudInstanceId i) db) (nt_version ids) db1) = Inr db2 \<and> sameTimeline db2 db')"
proof (cases "findRow (\<lambda>v. rv_idempotencyKey v = cf_idempotencyKey i) (versionRows db)")
  case None
  obtain inst plan where rows: "findInstance (cf_cloudInstanceId i) db = Some inst" "planOf tabs (cf_planId i) = Some plan"
    using assms None by (auto simp: confirmVersionTx_def split: option.splits)
  have id: "cn_id inst = cf_cloudInstanceId i" using rows(1) by (auto simp: findInstance_def dest: findRow_Some)
  have rv: "rv_id (confirmedVersion (nt_version ids) inst i) = nt_version ids"
    by (simp add: confirmedVersion_def Let_def)
  have "sameTimeline d (observeInstance i (applyChange i change d))" for d change
    by (simp add: sameTimeline_def observeInstance_def applyChange_def Let_def split: option.splits)
  then show ?thesis using assms None rows id
    by (auto simp: confirmVersionTx_def rv bindE_eq_Inr Let_def not_le split: if_splits option.splits)
qed (use assms in \<open>simp add: confirmVersionTx_def\<close>)

lemma startUsage_keeps:
  assumes "startUsage n i s v db = Inr db'"
  shows "versionRows db' = versionRows db" and "snapshotRows db' = snapshotRows db"
    and "intervalRows db' = intervalRows db \<or> (\<exists>u. intervalRows db' = intervalRows db @ [u] \<and>
      (\<forall>x \<in> set (intervalRows db). un_id u \<noteq> un_id x) \<and> un_status u \<in> {UI_OPEN, UI_COMPLETE})"
  using assms
  by (auto simp: startUsage_def addInterval_Inr Let_def intervalClash_def newInterval_def split: option.splits if_splits)

lemma endVersion_keeps:
  "snapshotRows (endVersion i c db) = snapshotRows db"
  "map rv_id (versionRows (endVersion i c db)) = map rv_id (versionRows db)"
  "map un_id (intervalRows (endVersion i c db)) = map un_id (intervalRows db)"
  "u \<in> set (intervalRows (endVersion i c db)) \<Longrightarrow> un_status u = UI_COMPLETE \<or> u \<in> set (intervalRows db)"
  by (auto simp: endVersion_def Let_def table_simps set_updateRows split: option.splits if_splits)

lemma repointUsage_keeps:
  "versionRows (repointUsage i c n db) = versionRows db" "snapshotRows (repointUsage i c n db) = snapshotRows db"
  "map un_id (intervalRows (repointUsage i c n db)) = map un_id (intervalRows db)"
  "u \<in> set (intervalRows (repointUsage i c n db)) \<Longrightarrow> \<exists>w \<in> set (intervalRows db). un_status u = un_status w"
  by (auto simp: repointUsage_def table_simps set_updateRows split: option.splits if_splits)

lemma set_map_eq: "map f xs = map f ys \<Longrightarrow> f ` set xs = f ` set ys"
  by (simp only: set_map [symmetric])

lemma confirm_keys:
  assumes keys: "keysOk db" and v: "addVersion v (endVersion i c db) = Inr db1"
    and u: "startUsage m i s n (repointUsage i c n db1) = Inr db2" and same: "sameTimeline db2 db'"
  shows "keysOk db'"
proof -
  have v': "\<forall>x \<in> set (versionRows (endVersion i c db)). rv_id v \<noteq> rv_id x"
    "db1 = endVersion i c db\<lparr>versionRows := versionRows (endVersion i c db) @ [v]\<rparr>"
    using v by (simp_all add: addVersion_Inr versionClash_def)
  let ?r = "repointUsage i c n db1"
  have ids: "map un_id (intervalRows ?r) = map un_id (intervalRows db)"
    by (simp add: repointUsage_keeps(3) v'(2) endVersion_keeps(3))
  have status: "\<forall>x \<in> set (intervalRows ?r). un_status x \<in> {UI_OPEN, UI_COMPLETE}"
  proof
    fix x
    assume x: "x \<in> set (intervalRows ?r)"
    obtain w where w: "w \<in> set (intervalRows db1)" "un_status x = un_status w" using repointUsage_keeps(4) [OF x] by blast
    then show "un_status x \<in> {UI_OPEN, UI_COMPLETE}" using endVersion_keeps(4) [of w i c db] keys by (auto simp: v'(2) keysOk_def)
  qed
  have "rv_id v \<notin> set (map rv_id (versionRows (endVersion i c db)))" using v'(1) by auto
  then have versions: "distinct (map rv_id (versionRows db1))" using keys
    by (simp add: v'(2) endVersion_keeps(2) keysOk_def del: set_map)
  have rows: "versionRows db' = versionRows db1" "snapshotRows db' = snapshotRows db"
    using startUsage_keeps(1,2) [OF u] same
    by (simp_all add: sameTimeline_def repointUsage_keeps(1,2) v'(2) endVersion_keeps(1))
  have "intervalRows db' = intervalRows ?r \<or> (\<exists>u. intervalRows db' = intervalRows ?r @ [u] \<and>
      (\<forall>x \<in> set (intervalRows ?r). un_id u \<noteq> un_id x) \<and> un_status u \<in> {UI_OPEN, UI_COMPLETE})"
    using startUsage_keeps(3) [OF u] same by (simp add: sameTimeline_def)
  moreover have "distinct (map un_id (intervalRows ?r))" using keys ids by (simp add: keysOk_def)
  ultimately have "distinct (map un_id (intervalRows db')) \<and> (\<forall>x \<in> set (intervalRows db'). un_status x \<in> {UI_OPEN, UI_COMPLETE})"
    using status by (elim disjE exE conjE) (simp_all add: image_iff)
  then show ?thesis using versions rows keys by (simp add: keysOk_def)
qed

lemma view_ids:
  "fst ` set (versionsOf i t) \<subseteq> rv_id ` set t" "fst ` set (policiesOf i p) \<subseteq> sn_id ` set p"
  by (auto simp: versionsOf_def versionView_def policiesOf_def policyView_def)

lemma confirm_uses:
  assumes "startUsage m i p n (repointUsage i (Some c) n db1) = Inr db2"
    and "intervalRows db1 = intervalRows (endVersion i (Some c) db)"
    and c: "rv_cloudInstanceId c = cf_cloudInstanceId i" "distinct (map rv_id (versionRows db))" "c \<in> set (versionRows db)"
  shows "usesIn j (intervalRows db2) = (if j = cf_cloudInstanceId i
    then (case p of None \<Rightarrow> confirmUses (rv_id c) n (cf_providerConfirmedAt i) (usesIn j (intervalRows db))
      | Some s \<Rightarrow> continueUse n (cf_providerConfirmedAt i) (policyView s)
          (confirmUses (rv_id c) n (cf_providerConfirmedAt i) (usesIn j (intervalRows db))))
    else usesIn j (intervalRows db))"
proof -
  let ?r = "repointUsage i (Some c) n db1"
  have r: "usesIn j (intervalRows ?r) = (if j = cf_cloudInstanceId i
      then confirmUses (rv_id c) n (cf_providerConfirmedAt i) (usesIn j (intervalRows db)) else usesIn j (intervalRows db))"
    by (simp only: repointUsage_views assms(2) endVersion_views(2) [OF c] confirmUses_def split: if_split) simp
  show ?thesis
  proof (cases p)
    case None
    then have "db2 = ?r" using assms(1) by (simp add: startUsage_def)
    then show ?thesis using r None by simp
  next
    case (Some s)
    then show ?thesis using startUsage_views [of m i s n ?r db2 j] assms(1) r Some by (cases "j = cf_cloudInstanceId i") simp_all
  qed
qed

text \<open>The rows after a confirmation that is not a replay.\<close>

definition confirmed :: "TimelineIds \<Rightarrow> Confirmation \<Rightarrow> TimelineDb \<Rightarrow> TimelineDb \<Rightarrow> bool" where
  "confirmed ids i db db' \<longleftrightarrow> (\<exists>v db1 db2. rv_cloudInstanceId v = cf_cloudInstanceId i \<and>
     versionView v = (nt_version ids, cf_providerConfirmedAt i, None) \<and> nt_version ids \<notin> rv_id ` set (versionRows db) \<and>
     versionRows db' = versionRows (endVersion i (currentVersion (cf_cloudInstanceId i) db) db) @ [v] \<and>
     snapshotRows db' = snapshotRows db \<and> intervalRows db' = intervalRows db2 \<and>
     intervalRows db1 = intervalRows (endVersion i (currentVersion (cf_cloudInstanceId i) db) db) \<and>
     startUsage (nt_interval ids) i (snapshotAt (cf_cloudInstanceId i) (cf_providerConfirmedAt i) db) (nt_version ids)
      (repointUsage i (currentVersion (cf_cloudInstanceId i) db) (nt_version ids) db1) = Inr db2)"

lemma confirm_rows:
  assumes inst: "cn_id inst = cf_cloudInstanceId i"
    and v: "addVersion (confirmedVersion (nt_version ids) inst i) (endVersion i (currentVersion (cf_cloudInstanceId i) db) db) = Inr db1"
    and u: "startUsage (nt_interval ids) i (snapshotAt (cf_cloudInstanceId i) (cf_providerConfirmedAt i) db) (nt_version ids)
      (repointUsage i (currentVersion (cf_cloudInstanceId i) db) (nt_version ids) db1) = Inr db2"
    and same: "sameTimeline db2 db'"
  shows "confirmed ids i db db'"
proof -
  let ?c = "currentVersion (cf_cloudInstanceId i) db" and ?v = "confirmedVersion (nt_version ids) inst i"
  have view: "rv_cloudInstanceId ?v = cf_cloudInstanceId i" "versionView ?v = (nt_version ids, cf_providerConfirmedAt i, None)"
    "rv_id ?v = nt_version ids"
    by (simp_all add: confirmedVersion_def versionView_def Let_def inst)
  have db1: "db1 = endVersion i ?c db\<lparr>versionRows := versionRows (endVersion i ?c db) @ [?v]\<rparr>"
    and fresh: "\<forall>x \<in> set (versionRows (endVersion i ?c db)). nt_version ids \<noteq> rv_id x"
    using v by (simp_all add: addVersion_Inr versionClash_def view(3))
  have "nt_version ids \<notin> rv_id ` set (versionRows (endVersion i ?c db))" using fresh by auto
  then have n: "nt_version ids \<notin> rv_id ` set (versionRows db)" using set_map_eq [OF endVersion_keeps(2) [of i ?c db]] by simp
  have tables: "versionRows db' = versionRows (endVersion i ?c db) @ [?v]" "snapshotRows db' = snapshotRows db"
    "intervalRows db' = intervalRows db2" "intervalRows db1 = intervalRows (endVersion i ?c db)"
    using startUsage_keeps(1,2) [OF u] same
    by (simp_all add: sameTimeline_def repointUsage_keeps(1,2) db1 endVersion_keeps(1))
  show ?thesis unfolding confirmed_def
    by (rule exI [of _ ?v], rule exI [of _ db1], rule exI [of _ db2]) (intro conjI view(1,2) n tables u)
qed

text \<open>The other instances keep their rows, and an interval closed early stays so.\<close>

lemma early_confirmed [intro]: "closedEarly U \<Longrightarrow> closedEarly (confirmUses k n t U)"
proof -
  assume "closedEarly U"
  then obtain u where u: "u \<in> set U" "\<not> before (fst (snd (snd u))) (snd (snd (snd u)))" by (auto simp: closedEarly_def)
  have "snd (passUse k n t (endUse k t u)) = snd u"
    using u(2) by (auto simp: passUse_def endUse_def before_def split: option.splits)
  moreover have "passUse k n t (endUse k t u) \<in> set (confirmUses k n t U)" using u(1) by (simp add: confirmUses_def)
  ultimately show ?thesis using u(2) unfolding closedEarly_def by (metis (full_types))
qed

lemma early_continued [intro]: "closedEarly U \<Longrightarrow> closedEarly (continueUse n t p U)"
  by (simp add: continueUse_def)

lemma startUsage_other:
  assumes "startUsage m i p n db = Inr db'"
  shows "j \<noteq> cf_cloudInstanceId i \<Longrightarrow> usesIn j (intervalRows db') = usesIn j (intervalRows db)"
    and "closedEarly (usesIn j (intervalRows db)) \<Longrightarrow> closedEarly (usesIn j (intervalRows db'))"
proof -
  have "p = None \<and> db' = db \<or> (\<exists>s. p = Some s)" using assms by (cases p) (simp_all add: startUsage_def)
  then show "j \<noteq> cf_cloudInstanceId i \<Longrightarrow> usesIn j (intervalRows db') = usesIn j (intervalRows db)"
    and "closedEarly (usesIn j (intervalRows db)) \<Longrightarrow> closedEarly (usesIn j (intervalRows db'))"
    using startUsage_views [of m i _ n db db' j] assms by auto
qed

lemma confirm_first:
  assumes run: "confirmed ids i db db'" and None: "currentVersion (cf_cloudInstanceId i) db = None"
  shows "inStep j db \<Longrightarrow> inStep j db'"
    and "closedEarly (usesIn j (intervalRows db)) \<Longrightarrow> closedEarly (usesIn j (intervalRows db'))"
proof -
  let ?I = "cf_cloudInstanceId i" and ?t = "cf_providerConfirmedAt i"
  obtain v db1 db2 where view: "rv_cloudInstanceId v = ?I" "versionView v = (nt_version ids, ?t, None)"
    and rows: "versionRows db' = versionRows db @ [v]" "snapshotRows db' = snapshotRows db"
      "intervalRows db' = intervalRows db2" "intervalRows db1 = intervalRows db"
    and u: "startUsage (nt_interval ids) i (snapshotAt ?I ?t db) (nt_version ids) (repointUsage i None (nt_version ids) db1) = Inr db2"
    using run unfolding confirmed_def None endVersion_def option.case by (elim exE conjE) (rule that, assumption+)
  have same: "intervalRows (repointUsage i None (nt_version ids) db1) = intervalRows db" by (simp add: repointUsage_def rows(4))
  note other = startUsage_other [OF u, unfolded same, of j]
  show "closedEarly (usesIn j (intervalRows db)) \<Longrightarrow> closedEarly (usesIn j (intervalRows db'))"
    using other(2) by (simp add: rows(3))
  assume ok: "inStep j db"
  show "inStep j db'"
  proof (cases "j = ?I")
    case True
    have was: "synced (versionsOf ?I (versionRows db)) (policiesOf ?I (snapshotRows db)) (usesIn ?I (intervalRows db))"
      using ok by (simp add: inStep_def True)
    have V: "versionsOf ?I (versionRows db) = []" by (rule no_current [OF was None])
    then have "policiesOf ?I (snapshotRows db) = []" using was by (simp add: synced_def)
    then have "snapshotAt ?I ?t db = None" using latest_view(2) [of ?I ?t db] by (cases "snapshotAt ?I ?t db") auto
    then have "db2 = repointUsage i None (nt_version ids) db1" using u by (simp add: startUsage_def)
    then have "intervalRows db2 = intervalRows db" using same by simp
    then show ?thesis using synced_first [OF was [unfolded V]] by (simp add: inStep_def rows(1-3) view True V)
  next
    case False
    then show ?thesis using ok other(1) by (simp add: inStep_def rows(1-3) view)
  qed
qed

lemma confirm_next:
  assumes keys: "keysOk db" and run: "confirmed ids i db db'"
    and Some: "currentVersion (cf_cloudInstanceId i) db = Some c" and late: "rv_effectiveFrom c < cf_providerConfirmedAt i"
  shows "inStep j db \<Longrightarrow> inStep j db'"
    and "closedEarly (usesIn j (intervalRows db)) \<Longrightarrow> closedEarly (usesIn j (intervalRows db'))"
proof -
  let ?I = "cf_cloudInstanceId i" and ?t = "cf_providerConfirmedAt i" and ?n = "nt_version ids"
  let ?p = "snapshotAt ?I ?t db"
  let ?V = "versionsOf ?I (versionRows db)" and ?S = "policiesOf ?I (snapshotRows db)" and ?U = "usesIn ?I (intervalRows db)"
  obtain v db1 db2 where view: "rv_cloudInstanceId v = ?I" "versionView v = (?n, ?t, None)"
    and fresh: "?n \<notin> rv_id ` set (versionRows db)"
    and rows: "versionRows db' = versionRows (endVersion i (Some c) db) @ [v]" "snapshotRows db' = snapshotRows db"
      "intervalRows db' = intervalRows db2" "intervalRows db1 = intervalRows (endVersion i (Some c) db)"
    and u: "startUsage (nt_interval ids) i ?p ?n (repointUsage i (Some c) ?n db1) = Inr db2"
    using run unfolding confirmed_def Some by (elim exE conjE) (rule that, assumption+)
  have c: "c \<in> set (versionRows db)" "rv_cloudInstanceId c = ?I" "(rv_id c, rv_effectiveFrom c, None) \<in> set ?V"
    using latest_view(1) [OF Some] by simp_all
  have ids: "distinct (map rv_id (versionRows db))" "distinct (map fst ?V)" "distinct (map fst ?S)"
    using keys distinct_view by (simp_all add: keysOk_def)
  have n: "?n \<notin> fst ` set ?V" using fresh view_ids(1) [of ?I "versionRows db"] by (rule contra_subsetD [rotated])
  note uses = confirm_uses [OF u rows(4) c(2) ids(1) c(1), of j, folded rows(3)] and versions = endVersion_views(1) [OF c(2) ids(1) c(1)]
  show "closedEarly (usesIn j (intervalRows db)) \<Longrightarrow> closedEarly (usesIn j (intervalRows db'))"
    by (auto simp: uses split: option.split)
  assume ok: "inStep j db"
  show "inStep j db'"
  proof (cases "j = ?I")
    case True
    have was: "synced ?V ?S ?U" using ok by (simp add: inStep_def True)
    have S: "?S = []" if "?p = None" using no_policy [OF was c(3) _ that] late by simp
    have "case map_option policyView ?p of None \<Rightarrow> ?S = [] \<and> usesIn j (intervalRows db') = confirmUses (rv_id c) ?n ?t ?U
        | Some p \<Rightarrow> p \<in> set ?S \<and> spansInstant ?t (fst (snd p)) (snd (snd p)) \<and>
            usesIn j (intervalRows db') = continueUse ?n ?t p (confirmUses (rv_id c) ?n ?t ?U)"
      using S latest_view(2) [of ?I ?t db] uses True by (cases ?p) (auto simp: policyView_def)
    from synced_confirm [OF was ids(2) c(3) late n ids(3) this]
    show ?thesis using True by (simp add: inStep_def rows(1,2) versions view)
  next
    case False
    then show ?thesis using ok uses by (simp add: inStep_def rows(1,2) versions view)
  qed
qed

lemma confirm_ok:
  assumes ok: "timelineOk db" and call: "recordProviderConfirmedResourceVersion tabs now ids i db = Inr (v, db')"
  shows "timelineOk db'"
proof -
  let ?I = "cf_cloudInstanceId i"
  let ?c = "currentVersion ?I db" and ?p = "snapshotAt ?I (cf_providerConfirmedAt i) db"
  have was: "keysOk db" "\<And>j. inStep j db \<or> closedEarly (usesIn j (intervalRows db))" using ok by (simp_all add: timelineOk_def)
  have "confirmVersionTx tabs ids i db = Inr (v, db')" using call
    by (simp add: recordProviderConfirmedResourceVersion_def bindE_eq_Inr)
  from confirm_shape [OF this] show ?thesis
  proof
    assume "db' = db"
    then show ?thesis using ok by simp
  next
    assume "\<exists>inst db1 db2. cn_id inst = ?I \<and> (\<forall>c. ?c = Some c \<longrightarrow> rv_effectiveFrom c < cf_providerConfirmedAt i) \<and>
      addVersion (confirmedVersion (nt_version ids) inst i) (endVersion i ?c db) = Inr db1 \<and>
      startUsage (nt_interval ids) i ?p (nt_version ids) (repointUsage i ?c (nt_version ids) db1) = Inr db2 \<and> sameTimeline db2 db'"
    then obtain inst db1 db2 where inst: "cn_id inst = ?I"
      and late: "\<forall>c. ?c = Some c \<longrightarrow> rv_effectiveFrom c < cf_providerConfirmedAt i"
      and steps: "addVersion (confirmedVersion (nt_version ids) inst i) (endVersion i ?c db) = Inr db1"
        "startUsage (nt_interval ids) i ?p (nt_version ids) (repointUsage i ?c (nt_version ids) db1) = Inr db2" "sameTimeline db2 db'"
      by (elim exE conjE) (rule that, assumption+)
    note run = confirm_rows [OF inst steps]
    have "inStep j db' \<or> closedEarly (usesIn j (intervalRows db'))" for j
    proof (cases ?c)
      case None
      then show ?thesis using was(2) [of j] confirm_first [OF run None, of j] by blast
    next
      case (Some c)
      then have "rv_effectiveFrom c < cf_providerConfirmedAt i" using late by simp
      then show ?thesis using was(2) [of j] confirm_next [OF was(1) run Some, of j] by blast
    qed
    then show ?thesis using confirm_keys [OF was(1) steps] by (simp add: timelineOk_def)
  qed
qed

text \<open>A change of the policy at a later boundary.\<close>

definition switching :: "int \<Rightarrow> CadenceInput \<Rightarrow> SnapshotRow \<Rightarrow> IntervalRow \<Rightarrow> TimelineDb \<Rightarrow> bool" where
  "switching now i current usage db \<longleftrightarrow>
     latest sn_effectiveFrom (\<lambda>s. sn_cloudInstanceId s = cg_cloudInstanceId i \<and> sn_effectiveTo s = None) (snapshotRows db) = Some current \<and>
     latest un_startedAt (\<lambda>u. un_cloudInstanceId u = cg_cloudInstanceId i \<and> un_endedAt u = None) (intervalRows db) = Some usage \<and>
     now < cg_effectiveFrom i \<and> (\<forall>s \<in> set (snapshotRows db). sn_cloudInstanceId s = cg_cloudInstanceId i \<longrightarrow> sn_effectiveFrom s \<le> now)"

lemma boundary_later: "boundaryOk now current i \<Longrightarrow> now < cg_effectiveFrom i"
proof -
  have pos: "0 < periodMs (sn_cadence current)" by (cases "sn_cadence current") simp_all
  assume "boundaryOk now current i"
  then have "snd (periodContainingUtc (sn_cadence current) now) \<le> cg_effectiveFrom i" by (simp add: boundaryOk_def)
  moreover have "now < snd (periodContainingUtc (sn_cadence current) now)"
    using pos_mod_bound [OF pos, of now] by (simp add: periodContainingUtc_def Let_def)
  ultimately show ?thesis by simp
qed

lemma cadenceBody_switching:
  assumes "cadenceBody tabs now ids i key db = Inr (r, db')"
  shows "\<exists>current usage policy credit. switching now i current usage db \<and>
    switchCadence ids i key current usage policy credit db = Inr (r, db')"
proof -
  obtain inst where inst: "findInstance (cg_cloudInstanceId i) db = Some inst" using assms
    by (auto simp: cadenceBody_def split: option.splits)
  have id: "cn_id inst = cg_cloudInstanceId i" using inst by (auto simp: findInstance_def dest: findRow_Some)
  obtain current where current: "latest sn_effectiveFrom (\<lambda>s. sn_cloudInstanceId s = cg_cloudInstanceId i \<and> sn_effectiveTo s = None)
      (snapshotRows db) = Some current"
    using assms by (auto simp: cadenceBody_def inst id split: option.splits)
  obtain usage where usage: "latest un_startedAt (\<lambda>u. un_cloudInstanceId u = cg_cloudInstanceId i \<and> un_endedAt u = None)
      (intervalRows db) = Some usage"
    using assms by (auto simp: cadenceBody_def inst id split: option.splits)
  obtain policy credit where "boundaryOk now current i"
    "\<not> (\<exists>s \<in> set (snapshotRows db). sn_cloudInstanceId s = cg_cloudInstanceId i \<and> sn_effectiveFrom s > now)"
    "switchCadence ids i key current usage policy credit db = Inr (r, db')"
    using assms by (simp only: cadenceBody_def inst id current usage option.case prod.case)
      (auto simp only: bindE_eq_Inr sum.simps split: if_split_asm option.split_asm)
  then have "switching now i current usage db" "switchCadence ids i key current usage policy credit db = Inr (r, db')"
    using boundary_later current usage by (auto simp: switching_def not_less)
  then show ?thesis by (intro exI conjI)
qed

lemma schedule_shape:
  assumes "scheduleServiceBillingCadenceChange tabs mobiles digest now ids i db = Inr (r, db')"
  shows "db' = db \<or> (\<exists>key current usage policy credit out db1. switching now i current usage db \<and>
    switchCadence ids i key current usage policy credit db = Inr (out, db1) \<and> sameTimeline db1 db')"
proof -
  obtain c where c: "adminCommandTx mobiles c (cadenceBody tabs now ids i (ac_receiptKey c)) db = Inr (r, db')"
    using assms by (auto simp: scheduleServiceBillingCadenceChange_def bindE_eq_Inr)
  then have "db' = db \<or> (\<exists>out db1. cadenceBody tabs now ids i (ac_receiptKey c) db = Inr (out, db1) \<and>
      persistAdminCommandReceiptTx c out db1 = Inr db')"
    by (auto simp: adminCommandTx_def bindE_eq_Inr split: option.splits)
  moreover have "sameTimeline d d'" if "persistAdminCommandReceiptTx c out d = Inr d'" for out d d'
    using that by (auto simp: persistAdminCommandReceiptTx_def sameTimeline_def bindE_eq_Inr Let_def split: if_splits)
  ultimately consider "db' = db" | out db1 where "cadenceBody tabs now ids i (ac_receiptKey c) db = Inr (out, db1)" "sameTimeline db1 db'"
    by blast
  then show ?thesis
  proof cases
    case 2
    obtain current usage policy credit where "switching now i current usage db"
      "switchCadence ids i (ac_receiptKey c) current usage policy credit db = Inr (out, db1)"
      using cadenceBody_switching [OF 2(1)] by (elim exE conjE) (rule that, assumption+)
    with 2(2) show ?thesis by (intro disjI2 exI conjI)
  qed simp
qed

definition switched :: "CadenceInput \<Rightarrow> SnapshotRow \<Rightarrow> IntervalRow \<Rightarrow> TimelineDb \<Rightarrow> TimelineDb \<Rightarrow> bool" where
  "switched i current usage db db1 \<longleftrightarrow> (\<exists>new event u. versionRows db1 = versionRows db \<and>
     snapshotRows db1 = updateRows (\<lambda>s. sn_id s = sn_id current) (\<lambda>s. s\<lparr>sn_effectiveTo := Some (cg_effectiveFrom i)\<rparr>) (snapshotRows db) @ [new] \<and>
     intervalRows db1 = updateRows (\<lambda>u. un_id u = un_id usage) (closeInterval (cg_effectiveFrom i) event) (intervalRows db) @ [u] \<and>
     (\<forall>x \<in> set (snapshotRows db). sn_id new \<noteq> sn_id x) \<and> (\<forall>x \<in> set (intervalRows db). un_id u \<noteq> un_id x) \<and>
     sn_cloudInstanceId new = cg_cloudInstanceId i \<and> policyView new = (sn_id new, cg_effectiveFrom i, None) \<and>
     un_cloudInstanceId u = cg_cloudInstanceId i \<and> un_status u \<in> {UI_OPEN, UI_COMPLETE} \<and>
     useView u = (un_resourceVersionId usage, sn_id new, cg_effectiveFrom i, None))"

lemma switch_rows:
  assumes "switchCadence ids i key current usage policy credit db = Inr (out, db1)"
  shows "switched i current usage db db1"
proof -
  let ?t = "cg_effectiveFrom i" and ?event = "''billing-cadence:'' @ key"
  let ?new = "nextSnapshot (nt_snapshot ids) i key policy credit current"
  let ?u = "newInterval (nt_interval ids) (cg_cloudInstanceId i) (un_resourceVersionId usage) (sn_id ?new) ?t None
    ?event None (''usage-cadence:'' @ cg_cloudInstanceId i @ '':'' @ key)"
  let ?S = "updateRows (\<lambda>s. sn_id s = sn_id current) (\<lambda>s. s\<lparr>sn_effectiveTo := Some ?t\<rparr>) (snapshotRows db)"
  let ?U = "updateRows (\<lambda>u. un_id u = un_id usage) (closeInterval ?t ?event) (intervalRows db)"
  obtain d1 d2 where d: "addSnapshot ?new (db\<lparr>snapshotRows := ?S, intervalRows := ?U\<rparr>) = Inr d1" "addInterval ?u d1 = Inr d2"
    "d2 = db1"
    using assms unfolding switchCadence_def Let_def bindE_eq_Inr sum.inject prod.inject
    by (elim exE conjE) (rule that, assumption+)
  have d1: "d1 = db\<lparr>snapshotRows := ?S @ [?new], intervalRows := ?U\<rparr>" "\<forall>x \<in> set ?S. sn_id ?new \<noteq> sn_id x"
    using d(1) by (simp_all add: addSnapshot_Inr snapshotClash_def)
  have d2: "db1 = d1\<lparr>intervalRows := ?U @ [?u]\<rparr>" "\<forall>x \<in> set ?U. un_id ?u \<noteq> un_id x"
    using d(2,3) by (simp_all add: addInterval_Inr intervalClash_def d1(1))
  have "sn_id ` set ?S = sn_id ` set (snapshotRows db)" "un_id ` set ?U = un_id ` set (intervalRows db)"
    by (simp_all add: image_updateRows)
  moreover have "sn_id ?new \<notin> sn_id ` set ?S" "un_id ?u \<notin> un_id ` set ?U" using d1(2) d2(2) by blast+
  ultimately have "sn_id ?new \<notin> sn_id ` set (snapshotRows db)" "un_id ?u \<notin> un_id ` set (intervalRows db)" by simp_all
  moreover have "sn_cloudInstanceId ?new = cg_cloudInstanceId i" "policyView ?new = (sn_id ?new, ?t, None)"
    by (simp_all add: nextSnapshot_def policyView_def)
  ultimately show ?thesis unfolding switched_def
    by (intro exI [of _ ?new] exI [of _ ?event] exI [of _ ?u]) (simp add: d2(1) d1(1) image_iff)
qed

text \<open>The open usage of a product is that of the two open spans, and it is alone.\<close>

lemma meet_open: "(x, None) \<in> set (meet v s) \<Longrightarrow> snd v = None \<and> snd s = None"
  by (auto simp: meet_def minEnd_def Let_def split: option.splits if_splits)

lemma open_use:
  assumes "isProduct V S U" and "(k, q, x, None) \<in> set U"
  shows "\<exists>l m. (k, l, None) \<in> set V \<and> (q, m, None) \<in> set S"
proof -
  have "k \<in> fst ` set V" "q \<in> fst ` set S" using product_keys [OF assms(1)] assms(2) by force+
  then obtain v s where v: "v \<in> set V" "fst v = k" and s: "s \<in> set S" "fst s = q" by blast
  have "(x, None) \<in> set (usesOf k q U)" using assms(2) by (force simp: usesOf_def)
  then have "snd (snd v) = None \<and> snd (snd s) = None"
    using assms(1) v s by (intro meet_open [of x]) (auto simp: isProduct_def)
  then show ?thesis using v s by (metis prod.collapse)
qed

lemma open_alone:
  assumes "usesOf k q (usesIn i t) = meet v s" and "r \<in> set t" "r' \<in> set t" and "un_cloudInstanceId r = i" "un_cloudInstanceId r' = i"
    and "un_resourceVersionId r = k" "un_resourceVersionId r' = k" "un_snapshotId r = q" "un_snapshotId r' = q"
  shows "r = r'"
proof -
  let ?f = "filter (\<lambda>r. un_cloudInstanceId r = i \<and> un_resourceVersionId r = k \<and> un_snapshotId r = q) t"
  have "length (usesOf k q (usesIn i t)) = length ?f"
    by (simp add: usesOf_def usesIn_def useView_def filter_map comp_def conj_commute conj_left_commute)
  moreover have "length (meet v s) \<le> 1" by (simp add: meet_def Let_def)
  ultimately have "length ?f \<le> 1" using assms(1) by simp
  moreover have "r \<in> set ?f" "r' \<in> set ?f" using assms by simp_all
  ultimately show ?thesis by (cases ?f) auto
qed

lemma synced_switch:
  assumes ok: "synced V S U" and V: "distinct (map fst V)" "(k, l, None) \<in> set V" "l < t"
    and S: "distinct (map fst S)" "(c, m, None) \<in> set S" "m < t" "n \<notin> fst ` set S"
  shows "synced V (cut c t S @ [(n, t, None)]) (switchUses k n t U)"
proof -
  have product: "isProduct V S U" using ok by (simp add: synced_def)
  have ne: "V \<noteq> []" "S \<noteq> []" using V(2) S(2) by auto
  then obtain a where a: "chain a (map snd V)" "chain a (map snd S)" using ok by (auto simp: synced_def)
  have "isProduct V (cut c t S @ [(n, t, None)]) (switchUses k n t U)"
    by (rule product_switch [OF product a(1) V(1,2,3) a(2) S(1,2,3,4)])
  moreover have "chain a (map snd (cut c t S @ [(n, t, None)]))" by (rule chain_cut [OF a(2) S(1,2,3)])
  ultimately show ?thesis using a(1) ne by (auto simp: synced_def)
qed

text \<open>The usage that is open at the switch started no earlier than its version.\<close>

lemma open_use_start:
  assumes "isProduct V S U" and "distinct (map fst V)" and "(k, l, None) \<in> set V" and "(k, q, x, None) \<in> set U"
  shows "l \<le> x"
proof -
  obtain s where s: "s \<in> set S" "fst s = q" using product_keys [OF assms(1)] assms(4) by force
  have "(x, None) \<in> set (usesOf k q U)" using assms(4) by (force simp: usesOf_def)
  also have "usesOf k q U = meet (l, None) (snd s)" using assms(1,3) s by (force simp: isProduct_def)
  finally show ?thesis by (auto simp: meet_def Let_def split: if_splits)
qed

lemma switch_policies:
  assumes "c \<in> set t" and "distinct (map sn_id t)" and "sn_cloudInstanceId c = i"
  shows "policiesOf j (updateRows (\<lambda>s. sn_id s = sn_id c) (\<lambda>s. s\<lparr>sn_effectiveTo := Some x\<rparr>) t) =
    (if j = i then cut (sn_id c) x (policiesOf j t) else policiesOf j t)"
proof (cases "j = i")
  case True
  show ?thesis unfolding policiesOf_def cut_def
    by (simp add: True del: map_map, rule view_update) (simp_all add: policyView_def)
next
  case False
  have "r = c" if "r \<in> set t" "sn_id r = sn_id c" for r using distinct_key_eq [OF assms(2) that(1) assms(1) that(2)] .
  then show ?thesis using False assms(3) unfolding policiesOf_def by (simp, intro view_keep) auto
qed

lemma switch_uses:
  assumes "isProduct V S (usesIn i t)" and "u \<in> set t" and "distinct (map un_id t)" and "un_cloudInstanceId u = i" and "un_endedAt u = None"
    and V: "chain a (map snd V)" "distinct (map fst V)" and S: "chain b (map snd S)" "distinct (map fst S)"
  shows "usesIn j (updateRows (\<lambda>r. un_id r = un_id u) (closeInterval x event) t) = (if j = i
    then map (\<lambda>u. if snd (snd (snd u)) = None then (fst u, fst (snd u), fst (snd (snd u)), Some x) else u) (usesIn j t)
    else usesIn j t)"
proof -
  have own: "r = u" if "r \<in> set t" "un_id r = un_id u" for r using distinct_key_eq [OF assms(3) that(1) assms(2) that(2)] .
  have pair: "\<exists>l m. (un_resourceVersionId r, l, None) \<in> set V \<and> (un_snapshotId r, m, None) \<in> set S"
    if "r \<in> set t" "un_cloudInstanceId r = i" "un_endedAt r = None" for r
  proof (rule open_use [OF assms(1)])
    show "(un_resourceVersionId r, un_snapshotId r, un_startedAt r, None) \<in> set (usesIn i t)"
      using that by (force simp: usesIn_def useView_def)
  qed
  have alone: "r = u" if r: "r \<in> set t" "un_cloudInstanceId r = i" "un_endedAt r = None" for r
  proof -
    obtain l m where u: "(un_resourceVersionId u, l, None) \<in> set V" "(un_snapshotId u, m, None) \<in> set S"
      using pair [OF assms(2,4,5)] by blast
    obtain l' m' where r': "(un_resourceVersionId r, l', None) \<in> set V" "(un_snapshotId r, m', None) \<in> set S"
      using pair [OF r] by blast
    have same: "un_resourceVersionId r = un_resourceVersionId u" "un_snapshotId r = un_snapshotId u"
      using open_only [OF V(1) u(1) r'(1)] open_only [OF S(1) u(2) r'(2)] by simp_all
    have "usesOf (un_resourceVersionId u) (un_snapshotId u) (usesIn i t) = meet (l, None) (m, None)"
      using assms(1) u by (force simp: isProduct_def)
    from open_alone [OF this r(1) assms(2) r(2) assms(4)] same show ?thesis by simp
  qed
  show ?thesis
  proof (cases "j = i")
    case True
    have "un_id r = un_id u \<longleftrightarrow> un_endedAt r = None" if "r \<in> set t" "un_cloudInstanceId r = i" for r
      using own [OF that(1)] alone [OF that] assms(5) by auto
    then show ?thesis unfolding usesIn_def
      by (simp add: True del: map_map, intro view_update) (auto simp: useView_def closeInterval_def)
  next
    case False
    then show ?thesis using own assms(4) unfolding usesIn_def by (simp, intro view_keep) auto
  qed
qed

lemma closed_uses:
  assumes "distinct (map un_id t)" and "u \<in> set t" and "un_cloudInstanceId u = i" and "un_endedAt u = None"
  shows "j \<noteq> i \<Longrightarrow> usesIn j (updateRows (\<lambda>r. un_id r = un_id u) (closeInterval x event) t) = usesIn j t"
    and "closedEarly (usesIn j t) \<Longrightarrow> closedEarly (usesIn j (updateRows (\<lambda>r. un_id r = un_id u) (closeInterval x event) t))"
    and "x \<le> un_startedAt u \<Longrightarrow> closedEarly (usesIn i (updateRows (\<lambda>r. un_id r = un_id u) (closeInterval x event) t))"
proof -
  let ?t = "updateRows (\<lambda>r. un_id r = un_id u) (closeInterval x event) t"
  have own: "r = u" if "r \<in> set t" "un_id r = un_id u" for r using distinct_key_eq [OF assms(1) that(1) assms(2) that(2)] .
  show "j \<noteq> i \<Longrightarrow> usesIn j ?t = usesIn j t"
    using own assms(3) unfolding usesIn_def by (intro view_keep) auto
  have in_t: "(if un_id r = un_id u then closeInterval x event r else r) \<in> set ?t" if "r \<in> set t" for r
    using that by (force simp: set_updateRows)
  show "x \<le> un_startedAt u \<Longrightarrow> closedEarly (usesIn i ?t)"
    using in_t [OF assms(2)] assms(3) by (force simp: closedEarly_def usesIn_def)
  assume "closedEarly (usesIn j t)"
  then obtain r where r: "r \<in> set t" "un_cloudInstanceId r = j" "\<not> before (un_startedAt r) (un_endedAt r)"
    by (auto simp: closedEarly_def usesIn_def useView_def)
  then have "un_id r \<noteq> un_id u" using own [OF r(1)] assms(4) by auto
  then have "r \<in> set ?t" using in_t [OF r(1)] by simp
  then show "closedEarly (usesIn j ?t)" using r(2,3) by (force simp: closedEarly_def usesIn_def useView_def)
qed

text \<open>The instance that switches: its open version starts before the boundary, or the switch closes usage early.\<close>

lemma switch_own:
  assumes was: "inStep (cg_cloudInstanceId i) db" and keys: "keysOk db" and pre: "switching now i current usage db"
    and post: "switched i current usage db db1"
  shows "inStep (cg_cloudInstanceId i) db1 \<or> closedEarly (usesIn (cg_cloudInstanceId i) (intervalRows db1))"
proof -
  let ?I = "cg_cloudInstanceId i" and ?t = "cg_effectiveFrom i"
  let ?V = "versionsOf ?I (versionRows db)" and ?S = "policiesOf ?I (snapshotRows db)" and ?U = "usesIn ?I (intervalRows db)"
  have synced: "synced ?V ?S ?U" using was by (simp add: inStep_def)
  then have product: "isProduct ?V ?S ?U" by (simp add: synced_def)
  have ids: "distinct (map sn_id (snapshotRows db))" "distinct (map un_id (intervalRows db))"
    and views: "distinct (map fst ?V)" "distinct (map fst ?S)"
    using keys distinct_view by (simp_all add: keysOk_def)
  have current: "current \<in> set (snapshotRows db)" "sn_cloudInstanceId current = ?I" "sn_effectiveTo current = None"
    and usage: "usage \<in> set (intervalRows db)" "un_cloudInstanceId usage = ?I" "un_endedAt usage = None"
    and m: "sn_effectiveFrom current < ?t"
    using pre unfolding switching_def by (auto dest!: latest_Some)
  obtain new event u where rows: "versionRows db1 = versionRows db"
    "snapshotRows db1 = updateRows (\<lambda>s. sn_id s = sn_id current) (\<lambda>s. s\<lparr>sn_effectiveTo := Some ?t\<rparr>) (snapshotRows db) @ [new]"
    "intervalRows db1 = updateRows (\<lambda>u. un_id u = un_id usage) (closeInterval ?t event) (intervalRows db) @ [u]"
    and fresh: "\<forall>x \<in> set (snapshotRows db). sn_id new \<noteq> sn_id x"
    and new: "sn_cloudInstanceId new = ?I" "policyView new = (sn_id new, ?t, None)"
    and u: "un_cloudInstanceId u = ?I" "useView u = (un_resourceVersionId usage, sn_id new, ?t, None)"
    using post unfolding switched_def by (elim exE conjE) (rule that, assumption+)
  have c: "(sn_id current, sn_effectiveFrom current, None) \<in> set ?S" using current by (force simp: policiesOf_def policyView_def)
  have open_u: "(un_resourceVersionId usage, un_snapshotId usage, un_startedAt usage, None) \<in> set ?U"
    using usage by (force simp: usesIn_def useView_def)
  obtain l where l: "(un_resourceVersionId usage, l, None) \<in> set ?V" using open_use [OF product open_u] by blast
  obtain a where a: "chain a (map snd ?V)" "chain a (map snd ?S)" using synced c l by (auto simp: synced_def)
  show ?thesis
  proof (cases "l < ?t")
    case True
    have "sn_id new \<notin> sn_id ` set (snapshotRows db)" using fresh by auto
    then have n: "sn_id new \<notin> fst ` set ?S" using view_ids(2) [of ?I "snapshotRows db"] by (rule contra_subsetD [rotated])
    show ?thesis using synced_switch [OF synced views(1) l True views(2) c m n]
      by (simp add: inStep_def rows new u switchUses_def switch_policies [OF current(1) ids(1) current(2)]
        switch_uses [OF product usage(1) ids(2) usage(2,3) a(1) views(1) a(2) views(2)])
  next
    case False
    then have "?t \<le> un_startedAt usage" using open_use_start [OF product views(1) l open_u] by simp
    then show ?thesis using closed_uses(3) [OF ids(2) usage] by (simp add: rows u)
  qed
qed

lemma switch_step:
  assumes was: "inStep j db \<or> closedEarly (usesIn j (intervalRows db))" and keys: "keysOk db"
    and pre: "switching now i current usage db" and post: "switched i current usage db db1"
  shows "inStep j db1 \<or> closedEarly (usesIn j (intervalRows db1))"
proof -
  have current: "current \<in> set (snapshotRows db)" "sn_cloudInstanceId current = cg_cloudInstanceId i"
    and usage: "usage \<in> set (intervalRows db)" "un_cloudInstanceId usage = cg_cloudInstanceId i" "un_endedAt usage = None"
    using pre unfolding switching_def by (auto dest!: latest_Some)
  have ids: "distinct (map sn_id (snapshotRows db))" "distinct (map un_id (intervalRows db))" using keys by (simp_all add: keysOk_def)
  obtain new event u where rows: "versionRows db1 = versionRows db"
    "snapshotRows db1 = updateRows (\<lambda>s. sn_id s = sn_id current) (\<lambda>s. s\<lparr>sn_effectiveTo := Some (cg_effectiveFrom i)\<rparr>) (snapshotRows db) @ [new]"
    "intervalRows db1 = updateRows (\<lambda>u. un_id u = un_id usage) (closeInterval (cg_effectiveFrom i) event) (intervalRows db) @ [u]"
    and inst: "sn_cloudInstanceId new = cg_cloudInstanceId i" "un_cloudInstanceId u = cg_cloudInstanceId i"
    using post unfolding switched_def by (elim exE conjE) (rule that, assumption+)
  have early: "closedEarly (usesIn j (intervalRows db)) \<Longrightarrow> closedEarly (usesIn j (intervalRows db1))"
    using closed_uses(2) [OF ids(2) usage] by (simp add: rows)
  have other: "inStep j db1" if "inStep j db" "j \<noteq> cg_cloudInstanceId i"
    using that closed_uses(1) [OF ids(2) usage that(2)]
    by (simp add: inStep_def rows inst switch_policies [OF current(1) ids(1) current(2)])
  show ?thesis using was early other switch_own [OF _ keys pre post] by blast
qed

lemma switch_keys: "keysOk db \<Longrightarrow> switched i current usage db db1 \<Longrightarrow> keysOk db1"
  unfolding switched_def by (elim exE conjE) (auto simp: keysOk_def table_simps set_updateRows image_updateRows image_iff)

lemma schedule_ok:
  assumes ok: "timelineOk db" and call: "scheduleServiceBillingCadenceChange tabs mobiles digest now ids i db = Inr (r, db')"
  shows "timelineOk db'"
proof -
  have was: "keysOk db" "\<And>j. inStep j db \<or> closedEarly (usesIn j (intervalRows db))" using ok by (simp_all add: timelineOk_def)
  from schedule_shape [OF call] consider "db' = db" | key current usage policy credit out db1 where
    "switching now i current usage db" "switchCadence ids i key current usage policy credit db = Inr (out, db1)" "sameTimeline db1 db'"
    by (elim disjE exE conjE) simp_all
  then show ?thesis
  proof cases
    case 2
    note post = switch_rows [OF 2(2)]
    have "timelineOk db1" using switch_step [OF was(2) was(1) 2(1) post] switch_keys [OF was(1) post] by (simp add: timelineOk_def)
    then show ?thesis using 2(3) by (rule timelineOk_same)
  qed (use ok in simp)
qed

section \<open>Every reachable timeline is in step\<close>

lemma timeline_in_step: "timelineReach now db \<Longrightarrow> timelineOk db"
proof (induction rule: timelineReach.induct)
  case (empty db now)
  then show ?case by (simp add: timelineOk_def keysOk_def inStep_def synced_def isProduct_def versionsOf_def policiesOf_def usesIn_def)
next
  case (start now db i tabs ids at event sn db')
  from start_opened [OF start.hyps(3)] show ?case
  proof
    assume "db' = db"
    then show ?case using start.IH by simp
  qed (rule opened_ok [OF start.IH _ start.hyps(2)])
next
  case (confirm now db tabs ids c v db')
  show ?case by (rule confirm_ok [OF confirm.IH confirm.hyps(2)])
next
  case (schedule now db tabs mobiles digest ids g out db')
  show ?case by (rule schedule_ok [OF schedule.IH schedule.hyps(2)])
next
  case (other now db db')
  have "sameTimeline db db'" unfolding sameTimeline_def by (intro conjI other.hyps(2-4))
  then show ?case by (rule timelineOk_same [OF other.IH])
qed

section \<open>The worker finds every period covered\<close>

definition chargedPart :: "int \<Rightarrow> int \<Rightarrow> UsageRow \<Rightarrow> (int \<times> int) list" where
  "chargedPart ts te u = (case boundInterval ts te u of None \<Rightarrow> [] | Some p \<Rightarrow> [snd p])"

lemma map_snd_bounded: "map snd (boundedUsage rows sn i ts te) = concat (map (chargedPart ts te) (periodUsage rows sn i ts te))"
proof -
  have "map snd (List.map_filter (boundInterval ts te) us) = concat (map (chargedPart ts te) us)" for us
    by (induction us) (auto simp: List.map_filter_def chargedPart_def split: option.splits)
  then show ?thesis by (simp add: boundedUsage_def)
qed

lemma concat_mset: "mset xs = mset ys \<Longrightarrow> mset (concat (map f xs)) = mset (concat (map f ys))"
proof -
  have "mset (concat (map f zs)) = sum_mset (image_mset (\<lambda>x. mset (f x)) (mset zs))" for zs by (induction zs) simp_all
  then show "mset xs = mset ys \<Longrightarrow> ?thesis" by simp
qed

lemma outside_not_charged:
  "\<not> (ui_startedAt u < te \<and> (case ui_endedAt u of None \<Rightarrow> True | Some t \<Rightarrow> t > ts)) \<Longrightarrow> chargedPart ts te u = []"
  by (auto simp: chargedPart_def boundInterval_def intersection_def maximumDate_def minimumDate_def Let_def split: option.splits)

lemma charged_mset:
  "mset (map snd (boundedUsage rows sn i ts te)) =
    mset (concat (map (chargedPart ts te) (filter (\<lambda>u. ui_cloudInstanceId u = i \<and> ui_snapshotId u = sn_id sn) rows)))"
proof -
  have "concat (map (chargedPart ts te) (filter (\<lambda>u. ui_cloudInstanceId u = i \<and> ui_snapshotId u = sn_id sn \<and> ui_startedAt u < te \<and>
      (case ui_endedAt u of None \<Rightarrow> True | Some t \<Rightarrow> t > ts)) rows)) =
    concat (map (chargedPart ts te) (filter (\<lambda>u. ui_cloudInstanceId u = i \<and> ui_snapshotId u = sn_id sn) rows))"
    by (induction rows) (auto simp: outside_not_charged)
  moreover have "mset (map snd (boundedUsage rows sn i ts te)) =
    mset (concat (map (chargedPart ts te) (filter (\<lambda>u. ui_cloudInstanceId u = i \<and> ui_snapshotId u = sn_id sn \<and> ui_startedAt u < te \<and>
      (case ui_endedAt u of None \<Rightarrow> True | Some t \<Rightarrow> t > ts)) rows)))"
    unfolding map_snd_bounded periodUsage_def by (rule concat_mset) simp
  ultimately show ?thesis by simp
qed

text \<open>What is charged of an interval is the part of its version inside the target.\<close>

lemma charged_clip:
  assumes "(un_startedAt u, un_endedAt u) \<in> set (meet (rv_effectiveFrom v, rv_effectiveTo v) s)"
    and "fst s \<le> ts" and "case snd s of None \<Rightarrow> True | Some t \<Rightarrow> te \<le> t"
  shows "chargedPart ts te (usageRow u v) = clip ts te (rv_effectiveFrom v, rv_effectiveTo v)"
  using assms
  by (cases s; cases "rv_effectiveTo v"; cases "snd s")
    (auto simp: chargedPart_def boundInterval_def usageRow_def ResourceVersionRow.defs clip_def meet_def minEnd_def Let_def
      intersection_def maximumDate_def minimumDate_def min_def max_def split: if_splits)

lemma clip_meet:
  assumes "meet v s = []" and "before (fst s) (snd s)" and "before (fst v) (snd v)"
    and "fst s \<le> ts" and "case snd s of None \<Rightarrow> True | Some t \<Rightarrow> te \<le> t"
  shows "clip ts te v = []"
  using assms
  by (cases "snd v"; cases "snd s")
    (auto simp: clip_def meet_def minEnd_def Let_def intersection_def maximumDate_def minimumDate_def min_def max_def split: if_splits)

lemma charged_intervals:
  "concat (map (chargedPart ts te) (filter (\<lambda>r. ui_cloudInstanceId r = i \<and> ui_snapshotId r = p) (usageRows db))) =
    concat (map (\<lambda>u. case findRow (\<lambda>v. rv_id v = un_resourceVersionId u) (versionRows db) of None \<Rightarrow> []
      | Some v \<Rightarrow> chargedPart ts te (usageRow u v)) (filter (\<lambda>u. un_cloudInstanceId u = i \<and> un_snapshotId u = p) (intervalRows db)))"
proof -
  have "concat (map (chargedPart ts te) (filter (\<lambda>r. ui_cloudInstanceId r = i \<and> ui_snapshotId r = p)
      (List.map_filter (\<lambda>u. map_option (usageRow u) (f u)) us))) =
    concat (map (\<lambda>u. case f u of None \<Rightarrow> [] | Some v \<Rightarrow> chargedPart ts te (usageRow u v))
      (filter (\<lambda>u. un_cloudInstanceId u = i \<and> un_snapshotId u = p) us))" for f us
    by (induction us) (auto simp: List.map_filter_def usageRow_def split: option.splits)
  then show ?thesis unfolding usageRows_def .
qed

definition clipOf :: "int \<Rightarrow> int \<Rightarrow> row list \<Rightarrow> string \<Rightarrow> (int \<times> int) list" where
  "clipOf ts te V k = (case map_of V k of None \<Rightarrow> [] | Some x \<Rightarrow> clip ts te x)"

lemma interval_clip:
  assumes keys: "keysOk db" and step: "inStep (sn_cloudInstanceId s) db" and s: "s \<in> set (snapshotRows db)" "sn_effectiveFrom s \<le> ts"
      "case sn_effectiveTo s of None \<Rightarrow> True | Some t \<Rightarrow> te \<le> t"
    and u: "u \<in> set (intervalRows db)" "un_cloudInstanceId u = sn_cloudInstanceId s" "un_snapshotId u = sn_id s"
  shows "(case findRow (\<lambda>v. rv_id v = un_resourceVersionId u) (versionRows db) of None \<Rightarrow> []
      | Some v \<Rightarrow> chargedPart ts te (usageRow u v)) =
    clipOf ts te (versionsOf (sn_cloudInstanceId s) (versionRows db)) (un_resourceVersionId u)"
proof -
  let ?I = "sn_cloudInstanceId s"
  let ?V = "versionsOf ?I (versionRows db)" and ?S = "policiesOf ?I (snapshotRows db)" and ?U = "usesIn ?I (intervalRows db)"
  have product: "isProduct ?V ?S ?U" using step by (simp add: inStep_def synced_def)
  have in_U: "(un_resourceVersionId u, sn_id s, un_startedAt u, un_endedAt u) \<in> set ?U"
    using u by (force simp: usesIn_def useView_def)
  then have "un_resourceVersionId u \<in> fst ` set ?V" using product_keys [OF product] by force
  then obtain v where v: "v \<in> set (versionRows db)" "rv_cloudInstanceId v = ?I" "rv_id v = un_resourceVersionId u"
    by (auto simp: versionsOf_def versionView_def)
  have in_V: "(rv_id v, rv_effectiveFrom v, rv_effectiveTo v) \<in> set ?V" using v by (force simp: versionsOf_def versionView_def)
  have in_S: "(sn_id s, sn_effectiveFrom s, sn_effectiveTo s) \<in> set ?S" using s(1) by (force simp: policiesOf_def policyView_def)
  have "(un_startedAt u, un_endedAt u) \<in> set (usesOf (rv_id v) (sn_id s) ?U)" using in_U v(3) by (force simp: usesOf_def)
  also have "usesOf (rv_id v) (sn_id s) ?U = meet (rv_effectiveFrom v, rv_effectiveTo v) (sn_effectiveFrom s, sn_effectiveTo s)"
    using product in_V in_S by (force simp: isProduct_def)
  finally have charged: "chargedPart ts te (usageRow u v) = clip ts te (rv_effectiveFrom v, rv_effectiveTo v)"
    using charged_clip [of u v "(sn_effectiveFrom s, sn_effectiveTo s)" ts te] s(2,3) by simp
  have "findRow (\<lambda>x. rv_id x = un_resourceVersionId u) (versionRows db) = Some v"
    using findRow_unique [of rv_id "versionRows db" v] keys v by (simp add: keysOk_def)
  moreover have "map_of ?V (un_resourceVersionId u) = Some (rv_effectiveFrom v, rv_effectiveTo v)"
    using map_of_is_SomeI [OF distinct_view(1) in_V] keys v(3) by (simp add: keysOk_def)
  ultimately show ?thesis using charged by (simp add: clipOf_def)
qed

lemma filter_key_at_most_one:
  "distinct (map fst V) \<Longrightarrow> length (filter (\<lambda>v. fst v = k \<and> P v) V) = (if \<exists>v \<in> set V. fst v = k \<and> P v then 1 else 0)"
  by (induction V) (auto simp: image_iff filter_empty_conv)

lemma used_versions:
  assumes "isProduct V S (usesIn i t)" and "distinct (map fst V)" and "s \<in> set S"
  shows "mset (map un_resourceVersionId (filter (\<lambda>u. un_cloudInstanceId u = i \<and> un_snapshotId u = fst s) t)) =
    mset (map fst (filter (\<lambda>v. meet (snd v) (snd s) \<noteq> []) V))"
proof (rule multiset_eqI)
  fix k
  let ?us = "filter (\<lambda>u. un_cloudInstanceId u = i \<and> un_snapshotId u = fst s) t"
  have "count (mset (map un_resourceVersionId ?us)) k = length (usesOf k (fst s) (usesIn i t))"
    by (induction t) (auto simp: usesOf_def usesIn_def useView_def)
  also have "\<dots> = length (filter (\<lambda>v. fst v = k \<and> meet (snd v) (snd s) \<noteq> []) V)"
  proof (cases "\<exists>v \<in> set V. fst v = k")
    case True
    then obtain v where v: "v \<in> set V" "fst v = k" by blast
    have "usesOf k (fst s) (usesIn i t) = meet (snd v) (snd s)" using assms(1,3) v by (auto simp: isProduct_def)
    moreover have "length (meet (snd v) (snd s)) = (if meet (snd v) (snd s) \<noteq> [] then 1 else 0)" by (simp add: meet_def Let_def)
    moreover have "(\<exists>w \<in> set V. fst w = k \<and> meet (snd w) (snd s) \<noteq> []) \<longleftrightarrow> meet (snd v) (snd s) \<noteq> []"
    proof
      assume "\<exists>w \<in> set V. fst w = k \<and> meet (snd w) (snd s) \<noteq> []"
      then obtain w where w: "w \<in> set V" "fst w = fst v" "meet (snd w) (snd s) \<noteq> []" using v(2) by auto
      then show "meet (snd v) (snd s) \<noteq> []" using distinct_key_eq [OF assms(2) w(1) v(1) w(2)] by simp
    qed (use v in \<open>intro bexI [of _ v] conjI\<close>)
    ultimately show ?thesis by (simp add: filter_key_at_most_one [OF assms(2)])
  next
    case False
    then have "k \<notin> fst ` set V" by auto
    then have "usesOf k (fst s) (usesIn i t) = []" using usesOf_none [OF assms(1)] by simp
    moreover have "filter (\<lambda>v. fst v = k \<and> meet (snd v) (snd s) \<noteq> []) V = []" using False by (auto simp: filter_empty_conv)
    ultimately show ?thesis by simp
  qed
  also have "\<dots> = count (mset (map fst (filter (\<lambda>v. meet (snd v) (snd s) \<noteq> []) V))) k"
    by (induction V) auto
  finally show "count (mset (map un_resourceVersionId ?us)) k = count (mset (map fst (filter (\<lambda>v. meet (snd v) (snd s) \<noteq> []) V))) k" .
qed

lemma bounded_clips:
  assumes keys: "keysOk db" and step: "inStep (sn_cloudInstanceId s) db" and s: "s \<in> set (snapshotRows db)" "sn_effectiveFrom s \<le> ts"
      "case sn_effectiveTo s of None \<Rightarrow> True | Some t \<Rightarrow> te \<le> t"
  shows "mset (map snd (boundedUsage (usageRows db) (PolicySnapshotRow.truncate s) (sn_cloudInstanceId s) ts te)) =
    mset (concat (map (clip ts te) (map snd (versionsOf (sn_cloudInstanceId s) (versionRows db)))))"
proof -
  let ?I = "sn_cloudInstanceId s"
  let ?V = "versionsOf ?I (versionRows db)" and ?S = "policiesOf ?I (snapshotRows db)"
  let ?us = "filter (\<lambda>u. un_cloudInstanceId u = ?I \<and> un_snapshotId u = sn_id s) (intervalRows db)"
  let ?ok = "\<lambda>v. meet (snd v) (sn_effectiveFrom s, sn_effectiveTo s) \<noteq> []"
  have was: "synced ?V ?S (usesIn ?I (intervalRows db))" using step by (simp add: inStep_def)
  have dist: "distinct (map fst ?V)" using keys distinct_view(1) by (simp add: keysOk_def)
  have in_S: "(sn_id s, sn_effectiveFrom s, sn_effectiveTo s) \<in> set ?S" using s(1) by (force simp: policiesOf_def policyView_def)
  then have "?S \<noteq> []" by auto
  then obtain a where chains: "chain a (map snd ?V)" "chain a (map snd ?S)" using was by (auto simp: synced_def)
  have empty: "clip ts te (snd v) = []" if "v \<in> set ?V" "\<not> ?ok v" for v
    using clip_meet [of "snd v" "(sn_effectiveFrom s, sn_effectiveTo s)" ts te] that s(2,3)
      chain_nonempty [OF chains(1), of "snd v"] chain_nonempty [OF chains(2), of "(sn_effectiveFrom s, sn_effectiveTo s)"] in_S
    by force
  have charges: "map (\<lambda>u. case findRow (\<lambda>v. rv_id v = un_resourceVersionId u) (versionRows db) of None \<Rightarrow> []
      | Some v \<Rightarrow> chargedPart ts te (usageRow u v)) ?us = map (clipOf ts te ?V) (map un_resourceVersionId ?us)"
    unfolding map_map comp_def
  proof (rule map_cong [OF HOL.refl])
    fix u
    assume "u \<in> set ?us"
    then have "u \<in> set (intervalRows db)" "un_cloudInstanceId u = ?I" "un_snapshotId u = sn_id s" by simp_all
    then show "(case findRow (\<lambda>v. rv_id v = un_resourceVersionId u) (versionRows db) of None \<Rightarrow> []
      | Some v \<Rightarrow> chargedPart ts te (usageRow u v)) = clipOf ts te ?V (un_resourceVersionId u)"
      by (rule interval_clip [OF keys step s])
  qed
  have "mset (map snd (boundedUsage (usageRows db) (PolicySnapshotRow.truncate s) ?I ts te)) =
      mset (concat (map (clipOf ts te ?V) (map un_resourceVersionId ?us)))"
    unfolding charged_mset charged_intervals charges [symmetric] by (simp add: PolicySnapshotRow.defs)
  also have "\<dots> = mset (concat (map (clipOf ts te ?V) (map fst (filter ?ok ?V))))"
    using used_versions [OF _ dist in_S] was by (intro concat_mset) (simp add: synced_def)
  also have "map (clipOf ts te ?V) (map fst (filter ?ok ?V)) = map (clip ts te) (map snd (filter ?ok ?V))"
    using dist by (auto simp: clipOf_def map_of_is_SomeI)
  also have "concat (map (clip ts te) (map snd (filter ?ok ?V))) = concat (map (clip ts te) (map snd ?V))"
  proof -
    have "\<forall>v \<in> set W. \<not> ?ok v \<longrightarrow> clip ts te (snd v) = [] \<Longrightarrow>
        concat (map (clip ts te) (map snd (filter ?ok W))) = concat (map (clip ts te) (map snd W))" for W
      by (induction W) auto
    then show ?thesis using empty by blast
  qed
  finally show ?thesis .
qed

lemma thenDrafts_review: "thenDrafts m k = Inr (Inl r) \<Longrightarrow> m = Inr (Inl r) \<or> (\<exists>ls. m = Inr (Inr ls) \<and> k ls = Inr (Inl r))"
  by (auto simp: thenDrafts_def split: sum.splits)

lemma collectDrafts_review: "collectDrafts f xs = Inr (Inl r) \<Longrightarrow> \<exists>x \<in> set xs. f x = Inr (Inl r)"
  by (induction xs) (auto dest!: thenDrafts_review)

lemma rateDraft_review: "rateDraft i sn u s e rate = Inr (Inl r) \<Longrightarrow> fst r = RATE_CARD"
  by (auto simp: rateDraft_def bindE_eq_Inr split: if_splits)

lemma usageDrafts_review: "usageDrafts cards c sn i p = Inr (Inl r) \<Longrightarrow> fst r = RATE_CARD"
  by (cases p) (auto simp: usageDrafts_def sliceDrafts_def Let_def dest!: collectDrafts_review rateDraft_review
    split: option.splits if_splits)

lemma timeline_covers:
  assumes keys: "keysOk db" and step: "inStep (sn_cloudInstanceId s) db" and s: "s \<in> set (snapshotRows db)"
    and target: "intersection periodStart periodEnd (sn_effectiveFrom s) (sn_effectiveTo s) = Some (ts, te)"
  shows "validateIntervalCoverage ts te
    (map snd (boundedUsage (usageRows db) (PolicySnapshotRow.truncate s) (sn_cloudInstanceId s) ts te)) \<and> ts < te"
proof -
  let ?I = "sn_cloudInstanceId s"
  let ?V = "versionsOf ?I (versionRows db)" and ?S = "policiesOf ?I (snapshotRows db)"
  let ?clips = "concat (map (clip ts te) (map snd ?V))"
  have bounds: "sn_effectiveFrom s \<le> ts" "case sn_effectiveTo s of None \<Rightarrow> True | Some t \<Rightarrow> te \<le> t" "ts < te"
    using target by (auto simp: intersection_def maximumDate_def minimumDate_def Let_def split: option.splits if_splits)
  have in_S: "(sn_id s, sn_effectiveFrom s, sn_effectiveTo s) \<in> set ?S" using s by (force simp: policiesOf_def policyView_def)
  then have "?S \<noteq> []" by auto
  then obtain a where a: "chain a (map snd ?V)" "chain a (map snd ?S)" using step by (auto simp: inStep_def synced_def)
  have "a \<le> ts" using chain_from [OF a(2), of "(sn_effectiveFrom s, sn_effectiveTo s)"] in_S bounds(1) by force
  then have cursor: "min (max a ts) te = ts" using bounds(3) by simp
  have sorted: "sorted (map fst ?clips)" "inj_on fst (set ?clips)"
    using chain_clip_sorted [OF a(1), of ts te] by (simp_all only: distinct_map simp_thms)
  have "mset (map snd (boundedUsage (usageRows db) (PolicySnapshotRow.truncate s) ?I ts te)) = mset ?clips"
    by (rule bounded_clips [OF keys step s bounds(1,2)])
  then have "sort_key fst (map snd (boundedUsage (usageRows db) (PolicySnapshotRow.truncate s) ?I ts te)) = ?clips"
    using sorted mset_eq_setD by (intro sort_key_inj_key_eq) fastforce+
  then show ?thesis using chain_clip_covers [OF a(1) bounds(3)] bounds(3) by (simp only: validateIntervalCoverage_def cursor simp_thms)
qed

text \<open>No interval was closed at or before its start: what the timeline of an instance needs to be in step.\<close>

lemma not_closedEarly:
  "\<forall>u \<in> set t. un_cloudInstanceId u = i \<longrightarrow> (case un_endedAt u of None \<Rightarrow> True | Some e \<Rightarrow> un_startedAt u < e) \<Longrightarrow>
    \<not> closedEarly (usesIn i t)"
  by (fastforce simp: closedEarly_def usesIn_def useView_def before_def split: option.splits)

lemma timeline_in_step_unless:
  assumes "timelineReach now db" and "\<not> closedEarly (usesIn i (intervalRows db))"
  shows "keysOk db" and "inStep i db"
  using timeline_in_step [OF assms(1)] assms(2) by (auto simp: timelineOk_def)

text \<open>C3: the usage timeline has no gap and no overlap. Whatever starts of billing, confirmations of the provider and
  changes of the cadence have written the tables, in any order and each with the guards of the code only (confirmations up
  to a minute ahead of the clock included), for an instance none of whose usage intervals was closed at or before its
  start: the part of a billing period that a policy of the instance is in force is covered exactly by the usage intervals
  the worker reads for it; and so the worker never sends an invoice to review because of the state of the resource, neither
  for an incomplete interval nor for a gap or an overlap. An interval is closed before its start only when the cadence is
  switched at a boundary that a confirmation ahead of the clock has already passed, and then the period does have a gap:
  lemma \<open>early_confirmation_leaves_gap\<close> below.\<close>

theorem usage_timeline_covers:
  assumes "timelineReach now db" and "s \<in> set (snapshotRows db)"
    and "intersection periodStart periodEnd (sn_effectiveFrom s) (sn_effectiveTo s) = Some (ts, te)"
    and "\<forall>u \<in> set (intervalRows db). un_cloudInstanceId u = sn_cloudInstanceId s \<longrightarrow>
      (case un_endedAt u of None \<Rightarrow> True | Some e \<Rightarrow> un_startedAt u < e)"
  shows "validateIntervalCoverage ts te
      (map snd (boundedUsage (usageRows db) (PolicySnapshotRow.truncate s) (sn_cloudInstanceId s) ts te)) \<and>
    draftInvoice (usageRows db) cards c (PolicySnapshotRow.truncate s) (sn_cloudInstanceId s) ts te \<noteq>
      Inr (Inl (RESOURCE_STATE, reason))"
proof -
  note ok = timeline_in_step_unless [OF assms(1) not_closedEarly [OF assms(4)]]
  note cover = timeline_covers [OF ok assms(2,3)]
  let ?B = "boundedUsage (usageRows db) (PolicySnapshotRow.truncate s) (sn_cloudInstanceId s) ts te"
  have ne: "?B \<noteq> []" using cover by (auto simp: validateIntervalCoverage_def)
  have "\<forall>u \<in> set (usageRows db). ui_status u \<in> {UI_OPEN, UI_COMPLETE}"
    using ok(1) by (auto simp: keysOk_def usageRows_def usageRow_def List.map_filter_def)
  then have "\<forall>u \<in> set (periodUsage (usageRows db) (PolicySnapshotRow.truncate s) (sn_cloudInstanceId s) ts te).
      ui_status u \<notin> {UI_INCOMPLETE, UI_REVIEW}" by (fastforce simp: periodUsage_def)
  then have complete: "List.find (\<lambda>u. ui_status u \<in> {UI_INCOMPLETE, UI_REVIEW})
      (periodUsage (usageRows db) (PolicySnapshotRow.truncate s) (sn_cloudInstanceId s) ts te) = None"
    by (simp add: find_None_iff)
  have "draftInvoice (usageRows db) cards c (PolicySnapshotRow.truncate s) (sn_cloudInstanceId s) ts te =
      collectDrafts (usageDrafts cards c (PolicySnapshotRow.truncate s) (sn_cloudInstanceId s)) ?B"
    using cover ne by (simp only: draftInvoice_def Let_def complete option.case if_not_P simp_thms if_False)
  then show ?thesis using cover by (auto dest!: collectDrafts_review usageDrafts_review)
qed

section \<open>A run\<close>

definition samplePlanRow :: TimelinePlan where
  "samplePlanRow = \<lparr>tp_id = ''p'', tp_provider = ARVAN, tp_providerApiVersion = ''v1'', tp_productKind = CLOUD_SERVER,
     tp_paygWallet = True, tp_vcpu = Some 2, tp_ramGb = Some 4, tp_storageGb = Some 50, tp_regionCode = ''ir'',
     tp_sizeCode = ''g2'', tp_externalPlanId = None\<rparr>"

definition sampleFlags :: jsval where
  "sampleFlags = JObj (map (\<lambda>f. (f, JBool True)) [''compute'', ''disk'', ''ip'', ''backup'', ''traffic'', ''snapshot''])"

definition sampleContract :: ContractRow where
  "sampleContract = \<lparr>pc_id = ''c'', pc_provider = ARVAN, pc_providerApiVersion = ''v1'', pc_productKind = CLOUD_SERVER,
     pc_version = 1, pc_status = PC_VERIFIED, pc_source = ''doc'', pc_calculationUnit = Some SECOND,
     pc_minimumChargeSeconds = Some 0, pc_roundingPolicy = Some EXACT, pc_prorationSupported = Some True,
     pc_hourlyRateAvailable = Some True, pc_dailyRateAvailable = Some True, pc_stopStateBillableComponents = sampleFlags,
     pc_fieldVerification = JObj (map (\<lambda>f. (f, JStr ''VERIFIED'')) REQUIRED_FIELDS), pc_effectiveFrom = 0, pc_effectiveTo = None\<rparr>"

definition samplePolicyRow :: PolicyVersionRow where
  "samplePolicyRow = \<lparr>bp_availability = HOURLY_AND_DAILY, bp_defaultCadence = HOURLY, bp_displayMode = DISPLAY_BOTH,
     bp_hourlyMinimumCreditHours = 2, bp_dailyMinimumCreditDays = 1, bp_hourlyGracePeriods = 1, bp_dailyGracePeriods = 1,
     bp_lowBalanceThresholdPeriods = 1, bv_id = ''b'', bv_planId = Some ''p'', bv_calculationUnit = SECOND,
     bv_minimumChargeSeconds = 0, bv_roundingPolicy = EXACT, bv_prorationSupported = True,
     bv_stopStateComponentPolicy = JNull, bv_effectiveFrom = 0, bv_effectiveTo = None\<rparr>"

definition sampleTables :: TimelineTables where
  "sampleTables = \<lparr>tt_plans = [samplePlanRow], tt_policies = [samplePolicyRow], tt_contracts = [sampleContract]\<rparr>"

definition sampleActivation :: ActivationRow where
  "sampleActivation = \<lparr>at_id = ''a'', at_planId = ''p'', at_billingPolicyVersionId = ''b'', at_selectedCadence = HOURLY,
     at_status = AT_APPROVED, at_minimumCreditRequiredRial = 200,
     at_estimateSnapshot = JObj [(''providerHourlyRial'', JStr ''90''), (''hourlyEstimateRial'', JStr ''100''),
       (''dailyEstimateRial'', JStr ''2400'')],
     at_providerBillingContractSnapshot = serializeProviderBillingContract sampleContract, at_providerConfirmedAt = None\<rparr>"

definition sampleTimelineDb :: TimelineDb where
  "sampleTimelineDb = \<lparr>wallets = [\<lparr>w_id = ''w'', w_userId = ''u'', w_availableBalance = 100000, w_status = WS_ACTIVE\<rparr>],
     ledger = [], journal = [], coupons = [], redemptions = [],
     adminUsers = [\<lparr>au_id = ''admin'', au_role = ADMIN, au_mobile = ''0912''\<rparr>], receipts = [],
     instanceRows = [\<lparr>cn_id = ''vm'', cn_userId = ''u'', cn_planId = ''p'', cn_activationRequestId = Some ''a'',
       cn_provider = ARVAN, cn_ipv4 = None, cn_status = CI_PENDING, cn_providerState = None, cn_providerObservedAt = None,
       cn_terminatedAt = None\<rparr>],
     activationRows = [sampleActivation], snapshotRows = [], versionRows = [], intervalRows = [], rateRows = [], changeRows = []\<rparr>"

definition sampleConfirmation :: Confirmation where
  "sampleConfirmation = \<lparr>cf_cloudInstanceId = ''vm'', cf_planId = ''p'', cf_state = RV_STOPPED,
     cf_resources = \<lparr>cf_vcpu = 2, cf_ramMb = 4096, cf_diskGb = 50, cf_ipv4Count = 0, cf_backupEnabled = False, cf_snapshotCount = 0\<rparr>,
     cf_providerEventId = ''stop'', cf_providerConfirmedAt = 2000, cf_idempotencyKey = ''k1'', cf_sourceChangeRequestId = None\<rparr>"

definition sampleSwitch :: CadenceInput where
  "sampleSwitch = \<lparr>cg_cloudInstanceId = ''vm'', cg_targetBillingPolicyVersionId = ''b'', cg_targetCadence = DAILY,
     cg_effectiveFrom = 3600000, cg_actorUserId = ''admin'', cg_reason = ''daily'', cg_idempotencyKey = ''change-0001-vm-daily''\<rparr>"

definition idsOf :: "string \<Rightarrow> TimelineIds" where
  "idsOf n = \<lparr>nt_snapshot = ''s'' @ n, nt_rate = ''r'' @ n, nt_version = ''v'' @ n, nt_interval = ''i'' @ n\<rparr>"

definition runStart :: "string + SnapshotRow option \<times> TimelineDb" where
  "runStart = startInitialUsageBillingTx sampleTables (idsOf ''1'') ''vm'' 1000 ''created'' sampleTimelineDb"

definition runConfirm :: "string + VersionRow \<times> TimelineDb" where
  "runConfirm = bindE runStart (\<lambda>x.
     recordProviderConfirmedResourceVersion sampleTables 5000 (idsOf ''2'') sampleConfirmation (snd x))"

definition runSwitch :: "string + jsval \<times> TimelineDb" where
  "runSwitch = bindE runConfirm (\<lambda>x.
     scheduleServiceBillingCadenceChange sampleTables [''0912''] (\<lambda>_. ''d'') 5000 (idsOf ''3'') sampleSwitch (snd x))"

lemma runSwitch_result: "case runSwitch of Inl _ \<Rightarrow> False | Inr x \<Rightarrow>
    map (\<lambda>s. intersection 0 7200000 (sn_effectiveFrom s) (sn_effectiveTo s)) (snapshotRows (snd x)) = [Some (1000, 3600000), Some (3600000, 7200000)]
    \<and> map (\<lambda>u. (un_startedAt u, un_endedAt u)) (intervalRows (snd x)) = [(1000, Some 2000), (2000, Some 3600000), (3600000, None)]"
  by code_simp

lemma timelineReach_runStart: "runStart = Inr z \<Longrightarrow> timelineReach now (snd z)"
proof -
  assume z: "runStart = Inr z"
  have "timelineReach now sampleTimelineDb" by (rule timelineReach.empty) (simp_all add: sampleTimelineDb_def)
  then show ?thesis
  proof (rule timelineReach.start [where i = "''vm''"])
    show "startInitialUsageBillingTx sampleTables (idsOf ''1'') ''vm'' 1000 ''created'' sampleTimelineDb = Inr (fst z, snd z)"
      using z by (simp only: runStart_def prod.collapse)
  qed (simp add: sampleTimelineDb_def)
qed

lemma runSwitch_reached: "\<exists>x. runSwitch = Inr x \<and> timelineReach 5000 (snd x)"
proof -
  obtain x where x: "runSwitch = Inr x"
  proof (cases runSwitch)
    case (Inl e)
    show ?thesis using runSwitch_result unfolding Inl by simp
  qed
  obtain y where y: "runConfirm = Inr y" and switch: "scheduleServiceBillingCadenceChange sampleTables [''0912''] (\<lambda>_. ''d'') 5000
      (idsOf ''3'') sampleSwitch (snd y) = Inr x"
    using x unfolding runSwitch_def bindE_eq_Inr by (elim exE conjE)
  obtain z where z: "runStart = Inr z" and confirm: "recordProviderConfirmedResourceVersion sampleTables 5000 (idsOf ''2'')
      sampleConfirmation (snd z) = Inr y"
    using y unfolding runConfirm_def bindE_eq_Inr by (elim exE conjE)
  have "timelineReach 5000 (snd z)" by (rule timelineReach_runStart [OF z])
  then have "timelineReach 5000 (snd y)"
  proof (rule timelineReach.confirm)
    show "recordProviderConfirmedResourceVersion sampleTables 5000 (idsOf ''2'') sampleConfirmation (snd z) = Inr (fst y, snd y)"
      using confirm by (simp only: prod.collapse)
  qed
  then have "timelineReach 5000 (snd x)"
  proof (rule timelineReach.schedule)
    show "scheduleServiceBillingCadenceChange sampleTables [''0912''] (\<lambda>_. ''d'') 5000 (idsOf ''3'') sampleSwitch (snd y) = Inr (fst x, snd x)"
      using switch by (simp only: prod.collapse)
  qed
  then show ?thesis using x by blast
qed

theorem usage_timeline_covers_witness:
  "\<exists>db s. timelineReach 5000 db \<and> s \<in> set (snapshotRows db) \<and> length (intervalRows db) = 3 \<and>
    intersection 0 7200000 (sn_effectiveFrom s) (sn_effectiveTo s) = Some (1000, 3600000) \<and>
    validateIntervalCoverage 1000 3600000
      (map snd (boundedUsage (usageRows db) (PolicySnapshotRow.truncate s) (sn_cloudInstanceId s) 1000 3600000))"
proof -
  obtain x where x: "runSwitch = Inr x" and reach: "timelineReach 5000 (snd x)" using runSwitch_reached by blast
  have parts: "map (\<lambda>s. intersection 0 7200000 (sn_effectiveFrom s) (sn_effectiveTo s)) (snapshotRows (snd x)) =
      [Some (1000, 3600000), Some (3600000, 7200000)]"
    and uses: "map (\<lambda>u. (un_startedAt u, un_endedAt u)) (intervalRows (snd x)) = [(1000, Some 2000), (2000, Some 3600000), (3600000, None)]"
    using runSwitch_result unfolding x by simp_all
  then obtain s where s: "s \<in> set (snapshotRows (snd x))"
    "intersection 0 7200000 (sn_effectiveFrom s) (sn_effectiveTo s) = Some (1000, 3600000)" by (cases "snapshotRows (snd x)") auto
  have "length (intervalRows (snd x)) = 3" using arg_cong [OF uses, of length] by simp
  moreover have "\<forall>u \<in> set (intervalRows (snd x)). un_cloudInstanceId u = sn_cloudInstanceId s \<longrightarrow>
      (case un_endedAt u of None \<Rightarrow> True | Some e \<Rightarrow> un_startedAt u < e)"
  proof (intro ballI impI)
    fix u
    assume "u \<in> set (intervalRows (snd x))"
    then have "(un_startedAt u, un_endedAt u) \<in> set (map (\<lambda>u. (un_startedAt u, un_endedAt u)) (intervalRows (snd x)))" by simp
    then have "(un_startedAt u, un_endedAt u) \<in> {(1000, Some 2000), (2000, Some 3600000), (3600000, None)}" by (simp only: uses) simp
    then show "case un_endedAt u of None \<Rightarrow> True | Some e \<Rightarrow> un_startedAt u < e" by auto
  qed
  ultimately show ?thesis using usage_timeline_covers [OF reach s, THEN conjunct1] reach s by blast
qed

text \<open>A confirmation twenty seconds ahead of the clock passes the end of the hour; then the cadence is switched at the end
  of the hour. The usage scheduled for the new policy starts at the boundary, but its version only at the confirmed
  instant: the worker finds a gap and sends the first period of the new policy to review.\<close>

definition aheadConfirmation :: Confirmation where
  "aheadConfirmation = sampleConfirmation\<lparr>cf_providerConfirmedAt := 3610000\<rparr>"

definition runAhead :: "string + VersionRow \<times> TimelineDb" where
  "runAhead = bindE runStart (\<lambda>x.
     recordProviderConfirmedResourceVersion sampleTables 3590000 (idsOf ''2'') aheadConfirmation (snd x))"

definition runGap :: "string + jsval \<times> TimelineDb" where
  "runGap = bindE runAhead (\<lambda>x.
     scheduleServiceBillingCadenceChange sampleTables [''0912''] (\<lambda>_. ''d'') 3590000 (idsOf ''3'') sampleSwitch (snd x))"

lemma runGap_result: "case runGap of Inl _ \<Rightarrow> False | Inr x \<Rightarrow>
    map (\<lambda>u. (un_startedAt u, un_endedAt u)) (intervalRows (snd x)) =
      [(1000, Some 3610000), (3610000, Some 3600000), (3600000, None)] \<and>
    (case snapshotRows (snd x) of [_, s] \<Rightarrow>
      intersection 3600000 90000000 (sn_effectiveFrom s) (sn_effectiveTo s) = Some (3600000, 90000000) \<and>
      map snd (boundedUsage (usageRows (snd x)) (PolicySnapshotRow.truncate s) (sn_cloudInstanceId s) 3600000 90000000) =
        [(3610000, 90000000)] \<and>
      (case draftInvoice (usageRows (snd x)) [] c (PolicySnapshotRow.truncate s) (sn_cloudInstanceId s) 3600000 90000000 of
         Inr (Inl r) \<Rightarrow> fst r = RESOURCE_STATE | _ \<Rightarrow> False) | _ \<Rightarrow> False)"
  by code_simp

lemma runGap_reached: "runGap = Inr x \<Longrightarrow> timelineReach 3590000 (snd x)"
proof -
  assume x: "runGap = Inr x"
  obtain y where y: "runAhead = Inr y" and switch: "scheduleServiceBillingCadenceChange sampleTables [''0912''] (\<lambda>_. ''d'') 3590000
      (idsOf ''3'') sampleSwitch (snd y) = Inr x"
    using x unfolding runGap_def bindE_eq_Inr by (elim exE conjE)
  obtain z where z: "runStart = Inr z" and confirm: "recordProviderConfirmedResourceVersion sampleTables 3590000 (idsOf ''2'')
      aheadConfirmation (snd z) = Inr y"
    using y unfolding runAhead_def bindE_eq_Inr by (elim exE conjE)
  have "timelineReach 3590000 (snd y)"
  proof (rule timelineReach.confirm [OF timelineReach_runStart [OF z]])
    show "recordProviderConfirmedResourceVersion sampleTables 3590000 (idsOf ''2'') aheadConfirmation (snd z) = Inr (fst y, snd y)"
      using confirm by (simp only: prod.collapse)
  qed
  then show ?thesis
  proof (rule timelineReach.schedule)
    show "scheduleServiceBillingCadenceChange sampleTables [''0912''] (\<lambda>_. ''d'') 3590000 (idsOf ''3'') sampleSwitch (snd y) =
        Inr (fst x, snd x)"
      using switch by (simp only: prod.collapse)
  qed
qed

lemma early_confirmation_leaves_gap: "\<exists>db s reason. timelineReach 3590000 db \<and> s \<in> set (snapshotRows db) \<and>
    intersection 3600000 90000000 (sn_effectiveFrom s) (sn_effectiveTo s) = Some (3600000, 90000000) \<and>
    draftInvoice (usageRows db) [] c (PolicySnapshotRow.truncate s) (sn_cloudInstanceId s) 3600000 90000000 =
      Inr (Inl (RESOURCE_STATE, reason))"
proof -
  obtain x where x: "runGap = Inr x"
  proof (cases runGap)
    case (Inl e)
    show ?thesis using runGap_result unfolding Inl by simp
  qed
  note result = runGap_result [of c, unfolded x, simplified sum.case, THEN conjunct2]
  obtain s' s where rows: "snapshotRows (snd x) = [s', s]" using result by (auto split: list.splits)
  note facts = result [unfolded rows, simplified list.case]
  obtain r where r: "draftInvoice (usageRows (snd x)) [] c (PolicySnapshotRow.truncate s) (sn_cloudInstanceId s) 3600000 90000000 =
      Inr (Inl r)" "fst r = RESOURCE_STATE"
    using facts [THEN conjunct2, THEN conjunct2] by (auto split: sum.splits)
  have "s \<in> set (snapshotRows (snd x))" by (simp add: rows)
  moreover have "r = (RESOURCE_STATE, snd r)" using r(2) by (cases r) simp
  ultimately show ?thesis using runGap_reached [OF x] facts [THEN conjunct1] r(1) by metis
qed

text \<open>A change request that nobody approved cannot be confirmed, whoever calls: a cancellation that was only requested
  stops here.\<close>

lemma unapproved_change_refused:
  assumes "findRow (\<lambda>v. rv_idempotencyKey v = cf_idempotencyKey i) (versionRows db) = None"
    and "cf_sourceChangeRequestId i = Some c" "c \<noteq> []"
    and "findRow (\<lambda>r. gr_id r = c) (changeRows db) = Some r" "\<not> confirmable (gr_status r)"
  shows "\<not> isOk (recordProviderConfirmedResourceVersion tabs now ids i db)"
proof
  assume "isOk (recordProviderConfirmedResourceVersion tabs now ids i db)"
  then obtain v db' where "confirmVersionTx tabs ids i db = Inr (v, db')"
    by (auto simp: recordProviderConfirmedResourceVersion_def isOk_iff bindE_eq_Inr)
  moreover have "sourceChange i db = Inl ''resource_change_not_provider_confirmable''"
    using assms(2-5) by (simp add: sourceChange_def)
  ultimately show False using assms(1)
    by (auto simp: confirmVersionTx_def Let_def split: option.splits if_splits)
qed

end
