(* ===== verification/Spec2Isabelle.thy ===== *)
theory Spec2Isabelle
  imports Billing Settlement Posting ProductFlow BillingWorker PaymentProperties OrderPaymentProperties TimelineProperties
begin

text \<open>
  AbrChin sells cloud servers and an AI gateway against a prepaid wallet. This library models the core of the
  application under \<open>src/lib\<close> (TypeScript over a Prisma database): everything that moves money, decides a
  price, advances an order or gives a server away. Pages and routes under \<open>src/app\<close> and \<open>src/components\<close>
  call these services and hold no state.

  \<^bold>\<open>How the program is put together.\<close> A plan of the catalog is priced (profit curve, commercial engine, plan
  pricing) and offered in a quote; a ready server is reserved for the quote. The customer tops the wallet up through
  a payment gateway; the order is paid from the wallet, which writes a ledger entry and a journal entry and advances
  the product flow of session, order and infrastructure order together. After the administrator's approval the order
  is dispatched, checked and delivered. Running servers are charged by the usage billing worker; the AI gateway
  MessageGo reserves and settles wallet money through the settlement authority. Administrators repair payments with
  commands that are recorded by receipts.

  \<^bold>\<open>How code becomes definitions.\<close> A table is a list of records with the columns of \<open>prisma/schema.prisma\<close>,
  a database the record of its tables, a unique constraint an explicit branch with the database's error code
  (\<open>P2002\<close>, \<open>P2025\<close>, \<open>P2034\<close>). A transaction is a function from the database to \<open>error + result \<times> database\<close>;
  an exception is \<open>Inl\<close> and leaves the old database, as a rollback does. \<open>findUnique\<close> is \<open>findRow\<close>,
  \<open>updateMany\<close> with its count is \<open>updateRows\<close> with \<open>countRows\<close> (\<open>Prelude\<close>). Row locks and serializable isolation
  make transactions atomic; code outside a transaction (calls of a gateway, retries) is modelled as a sequence of
  transactions between which other sessions run arbitrary transactions. \<open>BigInt\<close> and revision numbers are unbounded
  integers, its division truncates (\<open>sdiv\<close>); instants are milliseconds. Generated ids are arguments.

  \<^bold>\<open>The theories.\<close>
  \<^item> \<open>Prelude\<close>: results, tables, stable sorting, and the interfaces \<open>round_up\<close> and \<open>comparator\<close>, each interpreted
    where the code provides it.
  \<^item> \<open>CommercialEngine\<close> (\<open>pricing/commercial-engine.ts\<close>), \<open>ProfitCurve\<close> (\<open>profit-curve.ts\<close>), \<open>Money\<close>
    (\<open>money.ts\<close>, \<open>provider-money.ts\<close>, \<open>provider-pricing.ts\<close>, \<open>settlement/amount.ts\<close>), \<open>PlanPricing\<close>
    (\<open>profit-curve-apply.ts\<close>, \<open>plan-pricing.ts\<close>, \<open>quote-line-items.ts\<close>): prices. Line items sum to the price, a
    discount respects the protected margin, an accepted curve never sells dearer cost for less, the engine charges
    exactly what the curve resolved, wire amounts round-trip.
  \<^item> \<open>Idempotency\<close> (\<open>idempotency.ts\<close>): request fingerprints, and the interface \<open>idempotent_op\<close> of a recorded,
    replayable operation; it is interpreted for wallet commands, journal posting, flow transitions, billing runs,
    authority calls and administrators' commands.
  \<^item> \<open>Wallet\<close> (\<open>wallet/ledger.ts\<close>, \<open>ensure-wallet.ts\<close>): credit, debit, reversal. Every balance is the sum of its
    ledger entries and not negative; a repeated command changes nothing; a reversal is exact and unique.
  \<^item> \<open>Journal\<close> (\<open>accounting/accounts.ts\<close>, \<open>journal.ts\<close>) and \<open>Posting\<close> (\<open>posting.ts\<close>): double entry. Every
    reachable journal balances; reversed entries cancel; an engine quote is booked with its parts.
  \<^item> \<open>Coupons\<close>, \<open>AdminCommand\<close>, \<open>TopUp\<close>, \<open>PaymentRecovery\<close> (\<open>coupons/service.ts\<close>, \<open>admin/command-receipt.ts\<close>,
    \<open>wallet/topup.ts\<close>, \<open>payments/recovery.ts\<close>) with the invariant over all interleavings in \<open>PaymentSafety\<close> and the
    guarantees in \<open>PaymentProperties\<close>: a top-up is credited once and only for a verified payment of its amount, a
    verified payment is settled, open or can be verified again, a refund is approved once and after the credit, commands act once.
  \<^item> \<open>Settlement\<close> (\<open>messagego/settlement/authority.ts\<close>, \<open>customer-pricing.ts\<close>): reserve, settle, release,
    reconcile. The money of a reservation is conserved, requests act once, finished reservations are final.
  \<^item> \<open>ProductFlow\<close> (\<open>product-flow/state-machine.ts\<close>, \<open>service.ts\<close>): the guarded transition refines the state
    machine under interleaving, its log is the history, no delivery skips payment (or, pay-as-you-go, the activation), check or
    approval, none is stuck.
  \<^item> \<open>Billing\<close> (\<open>billing/calculation.ts\<close>, \<open>policy.ts\<close>) and \<open>BillingWorker\<close> (\<open>worker.ts\<close>): coverage, line
    amounts, periods; settlement of a closed period, runs, catch-up. Every instant is priced once, an invoice is
    backed by its lines and its ledger debit, a period is charged at most once, the backlog is listed in order.
  \<^item> \<open>ProviderContract\<close> (\<open>billing/provider-contract.ts\<close>), \<open>UsageTimeline\<close> (\<open>billing/start.ts\<close>, \<open>resource-timeline.ts\<close> and
    \<open>scheduleServiceBillingCadenceChange\<close> of \<open>policy-admin.ts\<close>) and \<open>TimelineProperties\<close>: the writers of the tables
    the worker charges by. Versions of a resource and its policies are chains of spans, usage is their product under
    every order of the writers, and so the worker finds each period covered without gap or overlap, unless a switch of
    the cadence closed usage before its start, which takes a confirmation ahead of the clock.
  \<^item> \<open>Inventory\<close> (\<open>infrastructure/preprovisioned-inventory.ts\<close> with the statements of \<open>provision-dispatch.ts\<close>,
    \<open>health-check-service.ts\<close> and \<open>quote-expiration.ts\<close> on its tables) and \<open>InventoryProperties\<close>: every operation
    refines the life stocked, held, sold; a server is sold once with its own secret; a fresh server reaches its buyer;
    a reserved one goes stale after five minutes.
  \<^item> \<open>Dates\<close> (\<open>toISOString\<close>), \<open>OrderPayment\<close> (\<open>orders/pay-order-tx.ts\<close>, \<open>payOrderWithWallet\<close> of \<open>orders/service.ts\<close>,
    \<open>orders/quote-expiration.ts\<close>, \<open>infrastructure/provider-routing.ts\<close>, \<open>public-sale-policy.ts\<close>,
    \<open>parchin/sellable.ts\<close>) and \<open>OrderPaymentProperties\<close>: wallet, journal, coupons, flow and inventory in one
    transaction. A payment does all of its parts exactly and nothing beside them; an order is debited
    once, whatever happens to orders and wallets in between; a stranger's attempt frees the
    server of an order; a taken server name blocks a payment.
  \<^bold>\<open>Reachability.\<close> Invariants are proved over inductive step relations whose steps are the modelled transactions with
  arbitrary arguments (\<open>walletReach\<close>, \<open>journalReach\<close>, \<open>flowReach\<close>, \<open>settlementReach\<close>, \<open>billingReach\<close>, \<open>paymentReach\<close>,
  \<open>inventoryReach\<close>, \<open>timelineReach\<close>), so they hold under every interleaving of sessions. Every property with hypotheses has a witness
  that evaluates a concrete run.

  \<^bold>\<open>Bounds and fuel.\<close> The nudge of a transition end stops after 64 steps as the code does (\<open>TRANSITION_GUARD\<close>); the
  catch-up loop counts down the code's own limit, at most 500; retries are four for billing runs and three for top-up
  settlements, as in the code, each recursion structural in that number. The transactions of a top-up session are
  numbered in the order the code runs them, so other sessions may act before each. No other recursion needs fuel.

  \<^bold>\<open>Parameters.\<close> SHA-256, the cipher of stored secrets, the answers of gateways and of the cloud provider, the
  connectivity probe and the environment's switches are arguments; what is assumed of them is a hypothesis of the
  theorem that needs it (a verified answer, equal fingerprints for equal requests).

  \<^bold>\<open>Not modelled.\<close> Pages, routes and components; scripts and tests; cookies, sessions and one-time passwords; the
  questionnaire, ranking and assembly of quotes; long handlers of cancellation, upgrade and order administration,
  which compose the modelled operations with display data; the provider adapters, leases and retries of jobs; reports
  and backfill by SQL; notifications, audit log, labels. They present data, call remote services, or repeat the
  modelled operations; text meant for display (titles, descriptions, Persian messages) is left out throughout, and
  an error is known by its code.
\<close>

end
